(* ===== verification/FlexRIC_Prelude.thy ===== *)
theory FlexRIC_Prelude
  imports Main "HOL-Library.Word"
begin

text \<open>
  Shared vocabulary of the development: the outcome of a C function that may abort (a failed
  \<open>assert\<close>, an access outside an allocation, a loop that does not end), the widths of the
  integers, and the generic lemmas on lists and words that the component theories use.

  Every operation that can abort returns \<open>'a res\<close>: \<open>Inl\<close> of the fault, or \<open>Inr\<close> of
  the result. The code is built with assertions enabled, so \<open>assert(e)\<close> is a branch of the
  program: \<open>c_assert e\<close> here.
\<close>

section \<open>Faults and results\<close>

datatype c_fault =
    AssertFailed   \<comment> \<open>\<open>assert\<close> with a false argument, also \<open>assert(0!=0 && "Not implemented")\<close>\<close>
  | OutOfBounds    \<comment> \<open>a read or write outside the allocated object\<close>
  | UseOfNull      \<comment> \<open>dereference of a null or dangling pointer\<close>
  | Diverged       \<comment> \<open>the loop was still running when its step budget was spent\<close>

type_synonym 'a res = "c_fault + 'a"

type_synonym u8 = "8 word"
type_synonym u16 = "16 word"
type_synonym u32 = "32 word"
type_synonym u64 = "64 word"

definition bind_res :: "'a res \<Rightarrow> ('a \<Rightarrow> 'b res) \<Rightarrow> 'b res" where
  "bind_res m k = (case m of Inl e \<Rightarrow> Inl e | Inr x \<Rightarrow> k x)"

definition c_assert :: "bool \<Rightarrow> 'a res \<Rightarrow> 'a res" where
  "c_assert b k = (if b then k else Inl AssertFailed)"

definition in_bounds :: "bool \<Rightarrow> 'a res \<Rightarrow> 'a res" where
  "in_bounds b k = (if b then k else Inl OutOfBounds)"

definition map_res :: "('a \<Rightarrow> 'b) \<Rightarrow> 'a res \<Rightarrow> 'b res" where
  "map_res f m = bind_res m (\<lambda>x. Inr (f x))"

definition is_ok :: "'a res \<Rightarrow> bool" where
  "is_ok m \<longleftrightarrow> (\<exists>x. m = Inr x)"

named_theorems abs_simps \<open>equations that push an abstraction function through an operation\<close>
named_theorems inv_intros \<open>preservation of component invariants\<close>

lemma bind_res_simps [simp]:
  "bind_res (Inl e) k = Inl e"
  "bind_res (Inr x) k = k x"
  by (simp_all add: bind_res_def)

lemma bind_res_eq_Inr [simp]:
  "bind_res m k = Inr y \<longleftrightarrow> (\<exists>x. m = Inr x \<and> k x = Inr y)"
  by (cases m) auto

lemma bind_res_eq_Inl:
  "bind_res m k = Inl e \<longleftrightarrow> m = Inl e \<or> (\<exists>x. m = Inr x \<and> k x = Inl e)"
  by (cases m) auto

lemma bind_res_assoc: "bind_res (bind_res m f) g = bind_res m (\<lambda>x. bind_res (f x) g)"
  by (cases m) auto

lemma c_assert_simps [simp]:
  "c_assert True k = k"
  "c_assert False k = Inl AssertFailed"
  by (simp_all add: c_assert_def)

lemma c_assert_eq_Inr [simp]: "c_assert b k = Inr x \<longleftrightarrow> b \<and> k = Inr x"
  by (simp add: c_assert_def)

lemma in_bounds_simps [simp]:
  "in_bounds True k = k"
  "in_bounds False k = Inl OutOfBounds"
  by (simp_all add: in_bounds_def)

lemma in_bounds_eq_Inr [simp]: "in_bounds b k = Inr x \<longleftrightarrow> b \<and> k = Inr x"
  by (simp add: in_bounds_def)

lemma map_res_simps [simp]:
  "map_res f (Inl e) = Inl e"
  "map_res f (Inr x) = Inr (f x)"
  by (simp_all add: map_res_def)

lemma map_res_eq_Inr [simp]: "map_res f m = Inr y \<longleftrightarrow> (\<exists>x. m = Inr x \<and> y = f x)"
  by (cases m) auto

text \<open>A sequence of calls that each take and return the state; the first fault ends it.\<close>

primrec fold_res :: "('x \<Rightarrow> 's \<Rightarrow> 's res) \<Rightarrow> 'x list \<Rightarrow> 's \<Rightarrow> 's res" where
  "fold_res f [] s = Inr s"
| "fold_res f (x # xs) s = bind_res (f x s) (fold_res f xs)"

text \<open>The same call made \<open>n\<close> times, with the values it returned.\<close>

primrec collect_res :: "nat \<Rightarrow> ('s \<Rightarrow> ('x \<times> 's) res) \<Rightarrow> 's \<Rightarrow> ('x list \<times> 's) res" where
  "collect_res 0 f s = Inr ([], s)"
| "collect_res (Suc n) f s =
     bind_res (f s) (\<lambda>(x, s). map_res (\<lambda>(xs, s). (x # xs, s)) (collect_res n f s))"

lemma fold_res_append: "fold_res f (xs @ ys) s = bind_res (fold_res f xs s) (fold_res f ys)"
proof (induction xs arbitrary: s)
  case (Cons x xs)
  then show ?case by (cases "f x s") auto
qed simp

section \<open>Lists\<close>

text \<open>\<open>memset\<close> to zero of the slots \<open>[i, j)\<close> of a buffer.\<close>

definition fill_range :: "nat \<Rightarrow> nat \<Rightarrow> 'a \<Rightarrow> 'a list \<Rightarrow> 'a list" where
  "fill_range i j z xs = map (\<lambda>k. if i \<le> k \<and> k < j then z else xs ! k) [0..<length xs]"

lemma length_fill_range [simp]: "length (fill_range i j z xs) = length xs"
  by (simp add: fill_range_def)

lemma nth_fill_range [simp]:
  "k < length xs \<Longrightarrow> fill_range i j z xs ! k = (if i \<le> k \<and> k < j then z else xs ! k)"
  by (simp add: fill_range_def)

text \<open>\<open>memcpy\<close> of \<open>n\<close> slots of \<open>src\<close> from \<open>j\<close> to the slots of \<open>dst\<close> from \<open>i\<close>.\<close>

definition copy_range :: "nat \<Rightarrow> 'a list \<Rightarrow> nat \<Rightarrow> nat \<Rightarrow> 'a list \<Rightarrow> 'a list" where
  "copy_range i dst j n src =
     map (\<lambda>k. if i \<le> k \<and> k < i + n then src ! (j + (k - i)) else dst ! k) [0..<length dst]"

lemma length_copy_range [simp]: "length (copy_range i dst j n src) = length dst"
  by (simp add: copy_range_def)

lemma nth_copy_range [simp]:
  "k < length dst \<Longrightarrow>
   copy_range i dst j n src ! k = (if i \<le> k \<and> k < i + n then src ! (j + (k - i)) else dst ! k)"
  by (simp add: copy_range_def)

lemma map_upt_eqI:
  "length xs = n \<Longrightarrow> (\<And>i. i < n \<Longrightarrow> f i = xs ! i) \<Longrightarrow> map f [0..<n] = xs"
  by (auto intro: nth_equalityI)

lemma list_all_map_Some: "list_all (\<lambda>x. x \<noteq> None) xs \<Longrightarrow> map (Some \<circ> the) xs = xs"
  by (induction xs) auto

section \<open>Words\<close>

lemma uint_eq_iff [simp]: "uint (a :: 'a :: len word) = uint b \<longleftrightarrow> a = b"
  by (rule word_uint_eq_iff [symmetric])

lemma unat_of_nat_32: "n < 2 ^ 32 \<Longrightarrow> unat (word_of_nat n :: u32) = n"
  by (simp add: unat_of_nat take_bit_nat_eq_self_iff)

lemma unat_small: "unat (w :: 'a :: len word) < 2 ^ LENGTH('a)"
  by (rule unsigned_less)

lemma and_mask_mod:
  fixes w :: "'a :: len word"
  shows "unat (and w (word_of_nat (2 ^ k) - 1)) = unat w mod 2 ^ k"
proof -
  have "(word_of_nat (2 ^ k) :: 'a word) - 1 = mask k"
    by (simp add: mask_eq_exp_minus_1)
  then have "and w (word_of_nat (2 ^ k) - 1) = take_bit k w"
    by (simp add: take_bit_eq_mask)
  then have "unat (and w (word_of_nat (2 ^ k) - 1)) = take_bit k (unat w)"
    by (simp only: unsigned_take_bit_eq)
  then show ?thesis
    by (simp only: take_bit_eq_mod)
qed

lemma unat_add_of_nat_mod:
  fixes w :: "'a :: len word"
  assumes "k \<le> LENGTH('a)"
  shows "unat (w + word_of_nat i) mod 2 ^ k = (unat w + i) mod 2 ^ k"
proof -
  have dvd: "(2::nat) ^ k dvd 2 ^ LENGTH('a)"
    using assms by (simp add: le_imp_power_dvd)
  have "unat (w + word_of_nat i) = (unat w + i) mod 2 ^ LENGTH('a)"
    by (simp add: unat_word_ariths unat_of_nat take_bit_eq_mod mod_simps)
  then show ?thesis
    using dvd by (simp add: mod_mod_cancel)
qed

lemma ucast_16_32: "unat (ucast (w :: u16) :: u32) = unat w"
  using unat_small [of w] by (simp add: unsigned_ucast_eq take_bit_nat_eq_self)

lemma ucast_16_32_inj: "(ucast (p :: u16) :: u32) = ucast q \<longleftrightarrow> p = q"
  by (metis ucast_16_32 word_unat_eq_iff)

end
