(* ===== verification/Seq_Ring.thy ===== *)
theory Seq_Ring
  imports FlexRIC_Prelude
begin

text \<open>
  The circular buffer \<open>seq_ring_t\<close> of \<open>util/alg_ds/ds/seq_container/seq_ring.c\<close>, the store
  behind the thread safe queues. Iterators are byte pointers into the array; all of them are
  multiples of the element size, so an iterator is modelled by its slot number. A slot holds
  \<open>Some x\<close> once an element was copied into it and \<open>None\<close> while it is zeroed memory.
  \<open>head\<close> and \<open>tail\<close> are the free-running 32-bit counters of the code.
\<close>

record 'a seq_ring =
  r_elt_size :: nat
  r_array :: "'a option list"
  r_cap :: nat
  r_head :: u32
  r_tail :: u32

definition DEFAULT_ELM :: nat where
  "DEFAULT_ELM = 32"

definition ring_mask :: "nat \<Rightarrow> u32 \<Rightarrow> nat" where
  "ring_mask cap val = unat (and val (word_of_nat cap - 1))"

definition seq_ring_size :: "'a seq_ring \<Rightarrow> nat" where
  "seq_ring_size r = unat (r_head r - r_tail r)"

definition ring_full :: "'a seq_ring \<Rightarrow> bool" where
  "ring_full r \<longleftrightarrow> seq_ring_size r = r_cap r - 1"

definition enlarge_buffer :: "'a seq_ring \<Rightarrow> 'a seq_ring res" where
  "enlarge_buffer r =
     c_assert (ring_full r)
      (let tmp_buffer = replicate (r_cap r * 2) None;
           head_pos = ring_mask (r_cap r) (r_head r);
           tail_pos = ring_mask (r_cap r) (r_tail r);
           tmp_buffer' =
             (if head_pos > tail_pos
              then copy_range 0 tmp_buffer tail_pos (head_pos - tail_pos) (r_array r)
              else copy_range (r_cap r - tail_pos)
                     (copy_range 0 tmp_buffer tail_pos (r_cap r - tail_pos) (r_array r))
                     0 head_pos (r_array r));
           cap' = r_cap r * 2
       in Inr (r\<lparr>r_cap := cap', r_array := tmp_buffer', r_tail := 0,
                 r_head := word_of_nat (cap' div 2 - 1)\<rparr>))"

definition seq_ring_init :: "nat \<Rightarrow> 'a seq_ring" where
  "seq_ring_init elt_size =
     \<lparr>r_elt_size = elt_size, r_array = replicate DEFAULT_ELM None, r_cap = DEFAULT_ELM,
      r_head = 0, r_tail = 0\<rparr>"

definition seq_ring_push_back :: "'a seq_ring \<Rightarrow> 'a \<Rightarrow> nat \<Rightarrow> 'a seq_ring res" where
  "seq_ring_push_back r data len =
     c_assert (len = r_elt_size r)
      (bind_res (if ring_full r then enlarge_buffer r else Inr r)
        (\<lambda>r. let pos = ring_mask (r_cap r) (r_head r)
             in Inr (r\<lparr>r_array := (r_array r)[pos := Some data], r_head := r_head r + 1\<rparr>)))"

definition seq_ring_front :: "'a seq_ring \<Rightarrow> nat" where
  "seq_ring_front r = ring_mask (r_cap r) (r_tail r)"

definition seq_ring_next :: "'a seq_ring \<Rightarrow> nat \<Rightarrow> nat" where
  "seq_ring_next r it = (if it + 1 = r_cap r then 0 else it + 1)"

definition seq_ring_end :: "'a seq_ring \<Rightarrow> nat" where
  "seq_ring_end r = ring_mask (r_cap r) (r_head r)"

definition seq_ring_at :: "'a seq_ring \<Rightarrow> u32 \<Rightarrow> nat" where
  "seq_ring_at r pos = ring_mask (r_cap r) (r_tail r + pos)"

definition seq_ring_dist :: "'a seq_ring \<Rightarrow> nat \<Rightarrow> nat \<Rightarrow> nat" where
  "seq_ring_dist r first_it last_it =
     (if last_it > first_it then last_it - first_it else (r_cap r - first_it) + last_it)"

text \<open>The element an iterator points to; a zeroed slot holds none.\<close>

definition ring_deref :: "'a seq_ring \<Rightarrow> nat \<Rightarrow> 'a res" where
  "ring_deref r it =
     in_bounds (it < length (r_array r))
       (case r_array r ! it of None \<Rightarrow> Inl UseOfNull | Some x \<Rightarrow> Inr x)"

definition seq_ring_erase :: "'a seq_ring \<Rightarrow> nat \<Rightarrow> nat \<Rightarrow> 'a seq_ring res" where
  "seq_ring_erase r it_start it_end =
     c_assert (it_start = ring_mask (r_cap r) (r_tail r))
      (if it_start = it_end then Inr r
       else let start_pos = it_start; end_pos = it_end in
         c_assert (end_pos \<le> r_cap r)
          (let r' = (if end_pos > start_pos
                     then r\<lparr>r_array := fill_range start_pos end_pos None (r_array r),
                            r_tail := r_tail r + word_of_nat (end_pos - start_pos)\<rparr>
                     else r\<lparr>r_array := fill_range 0 end_pos None
                                        (fill_range start_pos (r_cap r) None (r_array r)),
                            r_tail := r_tail r + word_of_nat (r_cap r - start_pos + end_pos)\<rparr>)
           in c_assert (ring_mask (r_cap r') (r_tail r') = end_pos) (Inr r')))"

text \<open>
  The loop \<open>while(start_it != end_it)\<close> of \<open>seq_ring_free\<close>, \<open>find_if_ring\<close> and
  \<open>accumulate_ring\<close>: the elements visited, in order. The budget \<open>r_cap\<close> is one full turn.
\<close>

fun ring_walk :: "nat \<Rightarrow> 'a seq_ring \<Rightarrow> nat \<Rightarrow> nat \<Rightarrow> 'a list res" where
  "ring_walk fuel r start_it end_it =
     (if start_it = end_it then Inr []
      else case fuel of 0 \<Rightarrow> Inl Diverged
      | Suc fuel' \<Rightarrow>
          bind_res (ring_deref r start_it)
           (\<lambda>x. map_res ((#) x) (ring_walk fuel' r (seq_ring_next r start_it) end_it)))"

declare ring_walk.simps [simp del]

definition seq_ring_free :: "'a seq_ring \<Rightarrow> 'a list res" where
  "seq_ring_free r = ring_walk (r_cap r) r (seq_ring_front r) (seq_ring_end r)"

section \<open>Invariant and abstraction\<close>

definition ring_slot :: "'a seq_ring \<Rightarrow> nat \<Rightarrow> nat" where
  "ring_slot r i = (unat (r_tail r) + i) mod r_cap r"

definition ring_list :: "'a seq_ring \<Rightarrow> 'a list" where
  "ring_list r = map (\<lambda>i. the (r_array r ! ring_slot r i)) [0..<seq_ring_size r]"

definition ring_inv :: "'a seq_ring \<Rightarrow> bool" where
  "ring_inv r \<longleftrightarrow>
     (\<exists>k. 1 \<le> k \<and> k \<le> 32 \<and> r_cap r = 2 ^ k) \<and> length (r_array r) = r_cap r \<and>
     seq_ring_size r < r_cap r \<and>
     (\<forall>i < seq_ring_size r. r_array r ! ring_slot r i \<noteq> None)"

lemma ring_mask_mod: "ring_mask (2 ^ k) w = unat w mod 2 ^ k"
  using and_mask_mod [of w k] by (simp add: ring_mask_def)

lemma ring_mask_inv: "ring_inv r \<Longrightarrow> ring_mask (r_cap r) w = unat w mod r_cap r"
  using ring_mask_mod by (auto simp: ring_inv_def)

lemma ring_inv_cap: "ring_inv r \<Longrightarrow> 2 \<le> r_cap r \<and> r_cap r \<le> 2 ^ 32 \<and> r_cap r dvd 2 ^ 32"
proof -
  assume "ring_inv r"
  then obtain k where k: "1 \<le> k" "k \<le> 32" "r_cap r = 2 ^ k"
    by (auto simp: ring_inv_def)
  have "(2::nat) ^ 1 \<le> 2 ^ k" using k(1) by (intro power_increasing) auto
  moreover have "(2::nat) ^ k \<le> 2 ^ 32" using k(2) by (intro power_increasing) auto
  ultimately show ?thesis
    using k by (simp add: le_imp_power_dvd [of k 32 "2::nat", simplified])
qed

lemma unat_add_mod_cap:
  "ring_inv r \<Longrightarrow> unat (w + word_of_nat i :: u32) mod r_cap r = (unat w + i) mod r_cap r"
  using unat_add_of_nat_mod [where w = w and i = i] by (auto simp: ring_inv_def)

lemma ring_slot_less: "ring_inv r \<Longrightarrow> ring_slot r i < r_cap r"
  using ring_inv_cap [of r] by (auto simp: ring_slot_def)

lemma head_tail: "r_head r = r_tail r + word_of_nat (seq_ring_size r)"
  by (simp add: seq_ring_size_def)

lemma head_slot: "ring_inv r \<Longrightarrow> ring_mask (r_cap r) (r_head r) = ring_slot r (seq_ring_size r)"
  by (simp add: ring_mask_inv unat_add_mod_cap ring_slot_def head_tail [of r])

lemma front_slot: "ring_inv r \<Longrightarrow> seq_ring_front r = ring_slot r 0"
  by (simp add: seq_ring_front_def ring_mask_inv ring_slot_def)

lemma end_slot: "ring_inv r \<Longrightarrow> seq_ring_end r = ring_slot r (seq_ring_size r)"
  by (simp add: seq_ring_end_def head_slot)

lemma next_slot: "ring_inv r \<Longrightarrow> seq_ring_next r (ring_slot r i) = ring_slot r (Suc i)"
  using ring_inv_cap [of r]
  by (auto simp: seq_ring_next_def ring_slot_def mod_Suc)

lemma mod_add_inj:
  "(a + i) mod c = (a + j) mod c \<Longrightarrow> i < c \<Longrightarrow> j < c \<Longrightarrow> i = (j::nat)"
proof (induction i j rule: linorder_wlog)
  case (le i j)
  then have "c dvd (a + j) - (a + i)"
    using mod_eq_dvd_iff_nat [of "a + i" "a + j" c] by simp
  with le show ?case
    by (auto dest: dvd_imp_le)
next
  case (sym i j)
  then show ?case by simp
qed

lemma ring_slot_inj:
  "ring_slot r i = ring_slot r j \<Longrightarrow> i < r_cap r \<Longrightarrow> j < r_cap r \<Longrightarrow> i = j"
  unfolding ring_slot_def by (rule mod_add_inj)

lemma length_ring_list [simp]: "length (ring_list r) = seq_ring_size r"
  by (simp add: ring_list_def)

lemma ring_list_nth [simp]:
  "i < seq_ring_size r \<Longrightarrow> ring_list r ! i = the (r_array r ! ring_slot r i)"
  by (simp add: ring_list_def)

lemma ring_mod_cases:
  "t < c \<Longrightarrow> i < c \<Longrightarrow> (t + i) mod c = (if t + i < c then t + i else t + i - (c::nat))"
  by (simp add: mod_if)

lemma ring_slot_pos:
  "ring_slot r i = (unat (r_tail r) mod r_cap r + i) mod r_cap r"
  by (simp add: ring_slot_def mod_simps)

lemma enlarge_buffer_ok:
  assumes inv: "ring_inv r" and full: "ring_full r" and small: "r_cap r < 2 ^ 32"
  obtains r' where "enlarge_buffer r = Inr r'" "ring_inv r'" "ring_list r' = ring_list r"
    "seq_ring_size r' = seq_ring_size r" "r_elt_size r' = r_elt_size r" "\<not> ring_full r'"
proof -
  obtain k where k: "1 \<le> k" "k \<le> 32" "r_cap r = 2 ^ k"
    using inv by (auto simp: ring_inv_def)
  have k31: "k \<le> 31"
    using small k(3) power_strict_increasing_iff [of 2 k 32] by fastforce
  define c where "c = r_cap r"
  define t where "t = unat (r_tail r) mod c"
  have c: "2 \<le> c" "c \<le> 2 ^ 31"
    using ring_inv_cap [OF inv] k31 k(3) power_increasing [of k 31 "2::nat"] by (auto simp: c_def)
  have t: "t < c" using c by (simp add: t_def)
  have len: "length (r_array r) = c" using inv by (simp add: ring_inv_def c_def)
  have sz: "seq_ring_size r = c - 1" using full by (simp add: ring_full_def c_def)
  have "(t + (c - 1)) mod c = (if t = 0 then c - 1 else t - 1)"
    using t c ring_mod_cases [of t c "c - 1"] by auto
  then have head: "ring_mask c (r_head r) = (if t = 0 then c - 1 else t - 1)"
    using head_slot [OF inv] by (simp add: c_def [symmetric] sz ring_slot_pos t_def)
  have tailp: "ring_mask c (r_tail r) = t"
    using ring_mask_inv [OF inv] by (simp add: c_def t_def)
  obtain r' where r': "enlarge_buffer r = Inr r'"
    using full by (auto simp: enlarge_buffer_def Let_def)
  have arr: "i < c - 1 \<Longrightarrow> r_array r' ! i = r_array r ! ring_slot r i" for i
    using r' t c
    by (auto simp: enlarge_buffer_def Let_def c_def [symmetric] head tailp ring_slot_pos
        t_def [symmetric] ring_mod_cases len add.commute split: if_splits)
  have fields: "r_cap r' = 2 * c" "r_tail r' = 0" "r_head r' = word_of_nat (c - 1)"
    "length (r_array r') = 2 * c" "r_elt_size r' = r_elt_size r"
    using r' by (auto simp: enlarge_buffer_def Let_def c_def [symmetric])
  have sz': "seq_ring_size r' = c - 1"
    using c unat_of_nat_32 [of "c - 1"] by (simp add: seq_ring_size_def fields(2,3) del: of_nat_diff)
  have slot': "ring_slot r' i = i" if "i < c - 1" for i
    using that by (simp add: ring_slot_def fields)
  have live: "\<forall>i < c - 1. r_array r ! ring_slot r i \<noteq> None"
    using inv by (simp add: ring_inv_def sz)
  have "ring_inv r'"
    using k k31 sz' live arr c fields
    by (auto simp: ring_inv_def slot' c_def intro!: exI [of _ "Suc k"])
  moreover have "ring_list r' = ring_list r"
    by (auto simp: ring_list_def sz sz' slot' arr)
  moreover have "\<not> ring_full r'"
    using c by (simp add: ring_full_def sz' fields)
  ultimately show ?thesis
    using that [OF r'] by (simp add: sz sz' fields)
qed

lemma ring_put_ok:
  fixes r :: "'a seq_ring" and x :: 'a
  assumes inv: "ring_inv r" and nfull: "\<not> ring_full r"
  defines "r' \<equiv> r\<lparr>r_array := (r_array r)[ring_mask (r_cap r) (r_head r) := Some x],
                  r_head := r_head r + 1\<rparr>"
  shows "ring_inv r'" "ring_list r' = ring_list r @ [x]"
    "seq_ring_size r' = Suc (seq_ring_size r)"
proof -
  let ?n = "seq_ring_size r"
  have n: "?n < r_cap r - 1"
    using inv nfull by (auto simp: ring_inv_def ring_full_def)
  have cap: "r_cap r \<le> 2 ^ 32" "2 \<le> r_cap r"
    using ring_inv_cap [OF inv] by auto
  have len: "length (r_array r) = r_cap r"
    using inv by (simp add: ring_inv_def)
  have "seq_ring_size r' = unat (r_head r + 1 - r_tail r)"
    by (simp add: r'_def seq_ring_size_def)
  also have "r_head r + 1 - r_tail r = word_of_nat (Suc ?n)"
    by (simp add: head_tail [of r])
  also have "unat \<dots> = Suc ?n"
    using n cap by (intro unat_of_nat_32) linarith
  finally show sz': "seq_ring_size r' = Suc ?n" .
  have slot': "ring_slot r' i = ring_slot r i" for i
    by (simp add: ring_slot_def r'_def)
  have arr: "r_array r' ! ring_slot r i = (if i = ?n then Some x else r_array r ! ring_slot r i)"
    if "i \<le> ?n" for i
  proof -
    have "ring_slot r i \<noteq> ring_slot r ?n" if "i \<noteq> ?n"
    proof
      assume "ring_slot r i = ring_slot r ?n"
      moreover have "i < r_cap r" "?n < r_cap r" using \<open>i \<le> ?n\<close> n by linarith+
      ultimately show False using ring_slot_inj that by blast
    qed
    then show ?thesis
      using ring_slot_less [OF inv] by (auto simp: r'_def head_slot [OF inv] len nth_list_update)
  qed
  have live: "\<forall>i < ?n. r_array r ! ring_slot r i \<noteq> None"
    using inv by (simp add: ring_inv_def)
  have "\<forall>i < Suc ?n. r_array r' ! ring_slot r' i \<noteq> None"
    using live by (auto simp: slot' arr less_Suc_eq)
  moreover have "\<exists>k. 1 \<le> k \<and> k \<le> 32 \<and> r_cap r' = 2 ^ k" "length (r_array r') = r_cap r'"
    using inv by (auto simp: ring_inv_def r'_def)
  moreover have "Suc ?n < r_cap r'"
    using n by (simp add: r'_def)
  ultimately show "ring_inv r'"
    by (auto simp: ring_inv_def sz')
  show "ring_list r' = ring_list r @ [x]"
    by (simp add: ring_list_def sz' slot' arr)
qed

lemma seq_ring_push_back_ok:
  assumes inv: "ring_inv r" and room: "seq_ring_size r < 2 ^ 32 - 1"
    and len: "len = r_elt_size r"
  obtains r' where "seq_ring_push_back r x len = Inr r'" "ring_inv r'"
    "ring_list r' = ring_list r @ [x]" "r_elt_size r' = r_elt_size r"
proof (cases "ring_full r")
  case True
  then have "r_cap r < 2 ^ 32"
    using room ring_inv_cap [OF inv] by (auto simp: ring_full_def)
  with inv True obtain r1 where r1: "enlarge_buffer r = Inr r1" "ring_inv r1"
    "ring_list r1 = ring_list r" "r_elt_size r1 = r_elt_size r" "\<not> ring_full r1"
    by (rule enlarge_buffer_ok)
  show ?thesis
    by (rule that [of "r1\<lparr>r_array := (r_array r1)[ring_mask (r_cap r1) (r_head r1) := Some x],
                     r_head := r_head r1 + 1\<rparr>"])
       (use ring_put_ok [OF r1(2,5)] True r1 len
        in \<open>auto simp: seq_ring_push_back_def Let_def\<close>)
next
  case False
  show ?thesis
    by (rule that [of "r\<lparr>r_array := (r_array r)[ring_mask (r_cap r) (r_head r) := Some x],
                     r_head := r_head r + 1\<rparr>"])
       (use ring_put_ok [OF inv False] False len
        in \<open>auto simp: seq_ring_push_back_def Let_def\<close>)
qed

lemma seq_ring_erase_ok:
  assumes inv: "ring_inv r" and n: "n \<le> seq_ring_size r"
  obtains r' where "seq_ring_erase r (ring_slot r 0) (ring_slot r n) = Inr r'" "ring_inv r'"
    "ring_list r' = drop n (ring_list r)" "r_elt_size r' = r_elt_size r"
    "seq_ring_size r' = seq_ring_size r - n"
proof (cases "n = 0")
  case True
  with inv show ?thesis
    by (intro that [of r])
       (auto simp: seq_ring_erase_def ring_mask_inv ring_slot_def)
next
  case False
  define c where "c = r_cap r"
  define t where "t = unat (r_tail r) mod c"
  have c: "2 \<le> c" "c \<le> 2 ^ 32" using ring_inv_cap [OF inv] by (auto simp: c_def)
  have szc: "seq_ring_size r < c" using inv by (simp add: ring_inv_def c_def)
  have t: "t < c" using c by (simp add: t_def)
  have len: "length (r_array r) = c" using inv by (simp add: ring_inv_def c_def)
  have s0: "ring_slot r 0 = t" by (simp add: ring_slot_def c_def t_def)
  have sn: "ring_slot r i = (if t + i < c then t + i else t + i - c)" if "i < c" for i
    using that t by (simp add: ring_slot_pos c_def [symmetric] t_def [symmetric] ring_mod_cases)
  have nc: "n < c" using n szc by simp
  have tailp: "ring_mask c (r_tail r) = t"
    using ring_mask_inv [OF inv] by (simp add: c_def t_def)
  have tail': "ring_mask c (r_tail r + word_of_nat n) = ring_slot r n"
    using ring_mask_inv [OF inv] unat_add_mod_cap [OF inv] by (simp add: c_def ring_slot_def)
  define arr where "arr = (if ring_slot r n > t then fill_range t (ring_slot r n) None (r_array r)
     else fill_range 0 (ring_slot r n) None (fill_range t c None (r_array r)))"
  define r' where "r' = r\<lparr>r_array := arr, r_tail := r_tail r + word_of_nat n\<rparr>"
  have "seq_ring_erase r (ring_slot r 0) (ring_slot r n) = Inr r'"
    using False t nc c
    by (auto simp: seq_ring_erase_def Let_def c_def [symmetric] tailp s0 r'_def arr_def sn
        c_assert_def tail' [unfolded sn [OF nc]])
  moreover have sz': "seq_ring_size r' = seq_ring_size r - n"
  proof -
    have "seq_ring_size r' = unat (r_head r - (r_tail r + word_of_nat n))"
      by (simp add: seq_ring_size_def r'_def)
    also have "r_head r - (r_tail r + word_of_nat n) = word_of_nat (seq_ring_size r - n)"
      using n by (simp add: head_tail [of r] of_nat_diff)
    also have "unat \<dots> = seq_ring_size r - n"
      using szc c by (intro unat_of_nat_32) linarith
    finally show ?thesis .
  qed
  moreover have slot': "ring_slot r' i = ring_slot r (n + i)" for i
  proof -
    have "ring_slot r' i = (unat (r_tail r + word_of_nat n) mod c + i) mod c"
      by (simp add: ring_slot_pos r'_def c_def)
    then show ?thesis
      using unat_add_mod_cap [OF inv, of "r_tail r" n]
      by (simp add: c_def ring_slot_def mod_simps add.assoc)
  qed
  moreover have live': "r_array r' ! ring_slot r' i = r_array r ! ring_slot r (n + i)"
    if "n + i < c" for i
  proof -
    have "r_array r' = arr" by (simp add: r'_def)
    then show ?thesis
      using that t nc False len by (auto simp: slot' arr_def sn)
  qed
  moreover have "ring_list r' = drop n (ring_list r)"
    using n szc by (intro nth_equalityI) (auto simp: sz' live')
  moreover have "ring_inv r'"
  proof -
    have "\<exists>k. 1 \<le> k \<and> k \<le> 32 \<and> r_cap r' = 2 ^ k" "length (r_array r') = r_cap r'"
      using inv len by (auto simp: ring_inv_def r'_def arr_def c_def)
    moreover have "\<forall>i < seq_ring_size r'. r_array r' ! ring_slot r' i \<noteq> None"
      using inv szc by (auto simp: sz' live' ring_inv_def)
    moreover have "seq_ring_size r' < r_cap r'"
      using szc by (simp add: sz') (simp add: r'_def c_def)
    ultimately show ?thesis
      unfolding ring_inv_def by blast
  qed
  ultimately show ?thesis
    by (intro that [of r']) (auto simp: r'_def)
qed

lemma seq_ring_init_size [simp]: "seq_ring_size (seq_ring_init n) = 0"
  by (simp add: seq_ring_size_def seq_ring_init_def)

lemma seq_ring_init_list [simp]: "ring_list (seq_ring_init n) = []"
  by (simp add: ring_list_def)

lemma seq_ring_init_inv: "ring_inv (seq_ring_init n)"
proof -
  have "(32::nat) = 2 ^ 5" by simp
  then have "\<exists>k. 1 \<le> k \<and> k \<le> 32 \<and> (32::nat) = 2 ^ k"
    by (intro exI [of _ "5::nat"]) simp
  then show ?thesis
    unfolding ring_inv_def by (simp add: seq_ring_init_def DEFAULT_ELM_def seq_ring_size_def)
qed

lemma ring_walk_ok:
  assumes inv: "ring_inv r"
  shows "i \<le> seq_ring_size r \<Longrightarrow> seq_ring_size r - i \<le> fuel \<Longrightarrow>
    ring_walk fuel r (ring_slot r i) (ring_slot r (seq_ring_size r)) = Inr (drop i (ring_list r))"
proof (induction fuel arbitrary: i)
  case 0
  then show ?case by (simp add: ring_walk.simps)
next
  case (Suc fuel)
  show ?case
  proof (cases "i = seq_ring_size r")
    case True
    then show ?thesis by (simp add: ring_walk.simps)
  next
    case False
    then have i: "i < seq_ring_size r" using Suc.prems by simp
    have "ring_slot r i \<noteq> ring_slot r (seq_ring_size r)"
      using ring_slot_inj [of r i "seq_ring_size r"] inv i by (auto simp: ring_inv_def)
    moreover have "ring_deref r (ring_slot r i) = Inr (ring_list r ! i)"
      using inv i ring_slot_less [OF inv, of i]
      by (auto simp: ring_deref_def ring_inv_def split: option.splits)
    moreover have "ring_walk fuel r (ring_slot r (Suc i)) (ring_slot r (seq_ring_size r))
        = Inr (drop (Suc i) (ring_list r))"
      using Suc i by simp
    ultimately show ?thesis
      using i by (simp add: ring_walk.simps [of "Suc fuel"] next_slot [OF inv]
          Cons_nth_drop_Suc del: ring_list_nth)
  qed
qed

lemma ring_walk_front:
  assumes "ring_inv r"
  shows "ring_walk (r_cap r) r (seq_ring_front r) (seq_ring_end r) = Inr (ring_list r)"
  using ring_walk_ok [OF assms, of 0 "r_cap r"] assms
  by (simp add: front_slot end_slot ring_inv_def)

lemma seq_ring_at_ok:
  assumes inv: "ring_inv r" and i: "i < seq_ring_size r"
  shows "ring_deref r (seq_ring_at r (word_of_nat i)) = Inr (ring_list r ! i)"
proof -
  have "seq_ring_at r (word_of_nat i) = ring_slot r i"
    using inv by (simp add: seq_ring_at_def ring_mask_inv unat_add_mod_cap ring_slot_def)
  then show ?thesis
    using inv i ring_slot_less [OF inv, of i]
    by (auto simp: ring_deref_def ring_inv_def split: option.splits)
qed

section \<open>Properties\<close>

text \<open>C28: pushing onto a ring appends the element and keeps the invariant, also when the
  ring is full and its content is unrolled into a buffer of twice the capacity.\<close>

theorem seq_ring_push_back_appends:
  assumes "ring_inv r" "seq_ring_size r < 2 ^ 32 - 1"
  shows "\<exists>r'. seq_ring_push_back r x (r_elt_size r) = Inr r' \<and> ring_inv r' \<and>
    ring_list r' = ring_list r @ [x] \<and> r_elt_size r' = r_elt_size r"
  using seq_ring_push_back_ok [of r "r_elt_size r" x] assms by metis

text \<open>A ring whose content wraps round the end of its buffer and round \<open>2 ^ 32\<close>.\<close>

definition ring_wrapped :: "nat seq_ring" where
  "ring_wrapped = \<lparr>r_elt_size = 4, r_array = [Some 5, None, None, Some 7], r_cap = 4,
     r_head = 1, r_tail = 2 ^ 32 - 1\<rparr>"

lemma ring_wrapped_facts:
  "seq_ring_size ring_wrapped = 2" "ring_list ring_wrapped = [7, 5]" "r_elt_size ring_wrapped = 4"
  "seq_ring_front ring_wrapped = 3" "seq_ring_next ring_wrapped 3 = 0" "seq_ring_next ring_wrapped 0 = 1"
  by (simp_all add: ring_wrapped_def seq_ring_size_def ring_list_def ring_slot_def seq_ring_front_def
      seq_ring_next_def ring_mask_def upt_rec)

lemma ring_wrapped_inv: "ring_inv ring_wrapped"
proof -
  have "(4::nat) = 2 ^ 2" by simp
  then have "\<exists>k. 1 \<le> k \<and> k \<le> 32 \<and> (4::nat) = 2 ^ k" by (intro exI [of _ "2::nat"]) simp
  moreover have "r_array ring_wrapped ! ring_slot ring_wrapped 0 \<noteq> None"
    "r_array ring_wrapped ! ring_slot ring_wrapped 1 \<noteq> None"
    by (simp_all add: ring_wrapped_def ring_slot_def)
  then have "\<forall>i<2. r_array ring_wrapped ! ring_slot ring_wrapped i \<noteq> None"
    by (metis One_nat_def less_2_cases)
  ultimately show ?thesis
    using ring_wrapped_facts(1) unfolding ring_inv_def by (simp add: ring_wrapped_def)
qed

theorem seq_ring_push_back_appends_witness:
  "\<exists>r'. seq_ring_push_back ring_wrapped 9 4 = Inr r' \<and> ring_inv r' \<and> ring_list r' = [7, 5, 9]"
  using seq_ring_push_back_appends [OF ring_wrapped_inv, of 9] by (auto simp: ring_wrapped_facts)

text \<open>erasing from the front up to the iterator \<open>n\<close> elements further removes exactly
  the first \<open>n\<close> elements, also when the erased range wraps round the end of the buffer.\<close>

theorem seq_ring_erase_drops:
  assumes "ring_inv r" "n \<le> seq_ring_size r"
  shows "\<exists>r'. seq_ring_erase r (seq_ring_front r) ((seq_ring_next r ^^ n) (seq_ring_front r)) = Inr r' \<and>
    ring_inv r' \<and> ring_list r' = drop n (ring_list r)"
proof -
  have "(seq_ring_next r ^^ n) (seq_ring_front r) = ring_slot r n"
    by (induction n) (use assms(1) in \<open>simp_all add: front_slot next_slot\<close>)
  then show ?thesis
    using seq_ring_erase_ok [OF assms] by (metis front_slot [OF assms(1)])
qed

theorem seq_ring_erase_drops_witness:
  "\<exists>r'. seq_ring_erase ring_wrapped 3 1 = Inr r' \<and> ring_list r' = []"
proof -
  have "(seq_ring_next ring_wrapped ^^ 2) 3 = 1"
    by (simp add: numeral_2_eq_2 ring_wrapped_facts)
  then show ?thesis
    using seq_ring_erase_drops [OF ring_wrapped_inv, of 2] by (auto simp: ring_wrapped_facts)
qed

end
