(* ===== verification/Tsq.thy ===== *)
theory Tsq
  imports Seq_Ring
begin

text \<open>
  The thread safe queue \<open>tsq_t\<close> (\<open>util/alg_ds/ds/tsq/tsq.c\<close>) and the thread safe
  notification queue \<open>tsnq_t\<close> (\<open>util/alg_ds/ds/tsn_queue/tsn_queue.c\<close>). Every operation
  holds the queue's mutex from its first access to its last, so an execution is a sequence of
  these operations, one at a time: the operations are functions on the queue's state, and the
  blocking wait on the condition variable is an outcome. The interface the users of a queue rely
  on is the locale \<open>fifo\<close>.
\<close>

section \<open>The interface of a first-in first-out queue\<close>

locale fifo =
  fixes toks :: "'q \<Rightarrow> 'a list"
    and inv :: "'q \<Rightarrow> bool"
    and room :: "'q \<Rightarrow> bool"
    and push :: "'q \<Rightarrow> 'a \<Rightarrow> 'q res"
    and pop :: "'q \<Rightarrow> ('a \<times> 'q) res"
  assumes push_law: "inv q \<Longrightarrow> room q \<Longrightarrow>
      \<exists>q'. push q x = Inr q' \<and> inv q' \<and> toks q' = toks q @ [x]"
    and pop_law: "inv q \<Longrightarrow> toks q = x # xs \<Longrightarrow>
      \<exists>q'. pop q = Inr (x, q') \<and> inv q' \<and> toks q' = xs"
    and pop_empty_law: "inv q \<Longrightarrow> toks q = [] \<Longrightarrow> pop q = Inl AssertFailed"
    and room_law: "inv q \<Longrightarrow> length (toks q) < 2 ^ 31 \<Longrightarrow> room q"
begin

lemma push_all_ok:
  "inv q \<Longrightarrow> length (toks q) + length xs \<le> 2 ^ 31 \<Longrightarrow>
   \<exists>q'. fold_res (\<lambda>x q. push q x) xs q = Inr q' \<and> inv q' \<and> toks q' = toks q @ xs"
proof (induction xs arbitrary: q)
  case Nil
  then show ?case by simp
next
  case (Cons x xs)
  then have "room q" by (intro room_law) auto
  with Cons.prems push_law obtain q1 where
    "push q x = Inr q1" "inv q1" "toks q1 = toks q @ [x]" by blast
  with Cons.IH [of q1] Cons.prems show ?case by auto
qed

lemma pop_n_ok:
  "inv q \<Longrightarrow> n \<le> length (toks q) \<Longrightarrow>
   \<exists>q'. collect_res n pop q = Inr (take n (toks q), q') \<and> inv q' \<and> toks q' = drop n (toks q)"
proof (induction n arbitrary: q)
  case 0
  then show ?case by simp
next
  case (Suc n)
  then obtain x xs where xs: "toks q = x # xs" by (cases "toks q") auto
  with Suc.prems pop_law obtain q1 where
    "pop q = Inr (x, q1)" "inv q1" "toks q1 = xs" by blast
  with Suc.IH [of q1] Suc.prems xs show ?case by fastforce
qed

text \<open>What goes in comes out, in order.\<close>

lemma push_all_pop_n:
  assumes q: "inv q" "toks q = []" and xs: "length xs \<le> 2 ^ 31"
  shows "\<exists>q'. bind_res (fold_res (\<lambda>x q. push q x) xs q) (collect_res (length xs) pop) = Inr (xs, q')
    \<and> inv q' \<and> toks q' = []"
proof -
  obtain q1 where q1: "fold_res (\<lambda>x q. push q x) xs q = Inr q1" "inv q1" "toks q1 = xs"
    using push_all_ok [of q xs] q xs by auto
  moreover obtain q2 where "collect_res (length xs) pop q1 = Inr (xs, q2)" "inv q2" "toks q2 = []"
    using pop_n_ok [of q1 "length xs"] q1 by auto
  ultimately show ?thesis by simp
qed

end

section \<open>The thread safe queue\<close>

definition init_tsq :: "nat \<Rightarrow> 'a seq_ring res" where
  "init_tsq elm_sz = c_assert (elm_sz > 0) (Inr (seq_ring_init elm_sz))"

definition free_tsq :: "'a seq_ring \<Rightarrow> 'a list res" where
  "free_tsq q = seq_ring_free q"

definition push_tsq :: "'a seq_ring \<Rightarrow> 'a \<Rightarrow> nat \<Rightarrow> 'a seq_ring res" where
  "push_tsq q val sz = c_assert (sz > 0) (seq_ring_push_back q val sz)"

definition pop_tsq :: "'a seq_ring \<Rightarrow> nat \<Rightarrow> ('a \<times> 'a seq_ring) res" where
  "pop_tsq q elm_sz =
     c_assert (r_elt_size q = elm_sz)
      (c_assert (seq_ring_size q \<noteq> 0)
        (let it = seq_ring_front q in
         bind_res (ring_deref q it)
          (\<lambda>val. c_assert (it \<noteq> seq_ring_end q)
             (map_res (Pair val) (seq_ring_erase q it (seq_ring_next q it))))))"

definition size_tsq :: "'a seq_ring \<Rightarrow> nat" where
  "size_tsq q = seq_ring_size q"

definition tsq_inv :: "nat \<Rightarrow> 'a seq_ring \<Rightarrow> bool" where
  "tsq_inv elm_sz q \<longleftrightarrow> ring_inv q \<and> r_elt_size q = elm_sz \<and> elm_sz > 0"

lemma ring_front_ok:
  "ring_inv q \<Longrightarrow> 0 < seq_ring_size q \<Longrightarrow> ring_deref q (seq_ring_front q) = Inr (hd (ring_list q))"
  using ring_slot_less [of q 0]
  by (auto simp: ring_deref_def ring_inv_def front_slot hd_conv_nth
      simp flip: length_greater_0_conv split: option.splits)

lemma ring_front_not_end:
  "ring_inv q \<Longrightarrow> 0 < seq_ring_size q \<Longrightarrow> seq_ring_front q \<noteq> seq_ring_end q"
  using ring_slot_inj [of q 0 "seq_ring_size q"]
  by (auto simp: front_slot end_slot ring_inv_def)

lemma pop_tsq_ok:
  assumes inv: "tsq_inv elm_sz q" and ne: "ring_list q = x # xs"
  shows "\<exists>q'. pop_tsq q elm_sz = Inr (x, q') \<and> tsq_inv elm_sz q' \<and> ring_list q' = xs"
proof -
  have r: "ring_inv q" using inv by (simp add: tsq_inv_def)
  have sz: "seq_ring_size q = Suc (length xs)"
    using ne by (simp flip: length_ring_list)
  then have "1 \<le> seq_ring_size q" by simp
  with r obtain q' where "seq_ring_erase q (ring_slot q 0) (ring_slot q 1) = Inr q'" "ring_inv q'"
    "ring_list q' = drop 1 (ring_list q)" "r_elt_size q' = r_elt_size q"
    by (rule seq_ring_erase_ok)
  then show ?thesis
    using inv r ring_front_ok [OF r] ring_front_not_end [OF r] sz ne
    by (auto simp: pop_tsq_def Let_def front_slot next_slot tsq_inv_def)
qed

interpretation tsq: fifo ring_list "tsq_inv elm_sz" "\<lambda>q. seq_ring_size q < 2 ^ 32 - 1"
  "\<lambda>q x. push_tsq q x elm_sz" "\<lambda>q. pop_tsq q elm_sz"
proof (unfold_locales, goal_cases)
  case (1 q x)
  then obtain q' where "seq_ring_push_back q x elm_sz = Inr q'" "ring_inv q'"
    "ring_list q' = ring_list q @ [x]" "r_elt_size q' = r_elt_size q"
    using seq_ring_push_back_ok [of q elm_sz x] by (auto simp: tsq_inv_def)
  with 1 show ?case by (auto simp: push_tsq_def tsq_inv_def)
next
  case (2 q x xs)
  then show ?case by (rule pop_tsq_ok)
next
  case (3 q)
  then show ?case
    by (auto simp: pop_tsq_def tsq_inv_def simp flip: length_0_conv)
next
  case (4 q)
  then show ?case by simp
qed

section \<open>Properties\<close>

text \<open>Elements pushed onto a fresh thread safe queue are popped in the order in which they
  were pushed, none lost and none twice, and a further pop aborts.\<close>

theorem tsq_first_in_first_out:
  assumes "0 < elm_sz" "length xs \<le> 2 ^ 31"
  shows "\<exists>q q'. init_tsq elm_sz = Inr q \<and>
    bind_res (fold_res (\<lambda>x q. push_tsq q x elm_sz) xs q)
      (collect_res (length xs) (\<lambda>q. pop_tsq q elm_sz)) = Inr (xs, q') \<and>
    pop_tsq q' elm_sz = Inl AssertFailed"
proof -
  have "tsq_inv elm_sz (seq_ring_init elm_sz)"
    using assms by (simp add: tsq_inv_def seq_ring_init_inv) (simp add: seq_ring_init_def)
  from tsq.push_all_pop_n [OF this _ assms(2)] tsq.pop_empty_law assms(1) show ?thesis
    by (fastforce simp: init_tsq_def)
qed

theorem tsq_first_in_first_out_witness:
  "\<exists>q q'. init_tsq 8 = Inr q \<and>
    bind_res (fold_res (\<lambda>x q. push_tsq q x 8) [3, 1, 2 :: nat] q)
      (collect_res (length [3, 1, 2 :: nat]) (\<lambda>q. pop_tsq q 8)) = Inr ([3, 1, 2], q') \<and>
    pop_tsq q' 8 = Inl AssertFailed"
  by (rule tsq_first_in_first_out) simp_all

end
