(* ===== verification/Tsn_Queue.thy ===== *)
theory Tsn_Queue
  imports Tsq
begin

text \<open>
  The thread safe notification queue \<open>tsnq_t\<close> (\<open>util/alg_ds/ds/tsn_queue/tsn_queue.c\<close>)
  and the message dispatcher of the xApp, whose worker thread empties one
  (\<open>xApp/msg_dispatcher_xapp.c\<close>). The operations are first given as functions on the queue's
  state, as they run under its mutex; the protocol between the worker, the producers and the
  thread that frees the queue is then a step relation, one step per access to the shared state:
  \<open>stop_token\<close> and \<open>stopped\<close> are read and written outside the mutex, and the wait on the
  condition variable releases it.
\<close>

section \<open>Operations\<close>

record 'a tsnq =
  tq_r :: "'a seq_ring"
  tq_stop_token :: bool
  tq_stopped :: bool

definition init_tsnq :: "nat \<Rightarrow> 'a tsnq res" where
  "init_tsnq elm_sz = c_assert (elm_sz > 0)
     (Inr \<lparr>tq_r = seq_ring_init elm_sz, tq_stop_token = False, tq_stopped = False\<rparr>)"

definition push_tsnq :: "'a tsnq \<Rightarrow> 'a \<Rightarrow> nat \<Rightarrow> 'a tsnq res" where
  "push_tsnq q val sz =
     map_res (\<lambda>r. q\<lparr>tq_r := r\<rparr>) (seq_ring_push_back (tq_r q) val sz)"

text \<open>The body of \<open>wait_and_pop_tsnq\<close> after its tests: take the front element.\<close>

definition take_front :: "'a tsnq \<Rightarrow> ('a \<times> 'a tsnq) res" where
  "take_front q =
     (let r = tq_r q; it = seq_ring_front r in
      bind_res (ring_deref r it)
       (\<lambda>elm. c_assert (it \<noteq> seq_ring_end r)
          (map_res (\<lambda>r'. (elm, q\<lparr>tq_r := r'\<rparr>)) (seq_ring_erase r it (seq_ring_next r it)))))"

text \<open>
  A whole call of \<open>wait_and_pop_tsnq\<close> with nobody else running. \<open>Blocked\<close>: the thread waits
  on the condition variable.
\<close>

datatype 'a wait_ans = Blocked | Null | Elm 'a

definition wait_and_pop_tsnq :: "'a tsnq \<Rightarrow> ('a wait_ans \<times> 'a tsnq) res" where
  "wait_and_pop_tsnq q =
     (if seq_ring_size (tq_r q) = 0 \<and> \<not> tq_stop_token q then Inr (Blocked, q)
      else if tq_stop_token q then Inr (Null, q\<lparr>tq_stopped := True\<rparr>)
      else map_res (\<lambda>(x, q'). (Elm x, q')) (take_front q))"

text \<open>
  \<open>pop_tsnq_10\<close> and \<open>pop_tsnq_100\<close>: the loop calls \<open>f\<close> on each of the \<open>n\<close> elements
  and returns what the last call returned; \<open>f\<close> accumulates, so the value of the call is the
  list of the elements it was shown.
\<close>

fun pop_loop :: "nat \<Rightarrow> 'a seq_ring \<Rightarrow> nat \<Rightarrow> ('a list \<times> nat) res" where
  "pop_loop 0 r nxt = Inr ([], nxt)"
| "pop_loop (Suc n) r nxt =
     bind_res (ring_deref r nxt)
      (\<lambda>x. map_res (\<lambda>(xs, it). (x # xs, it)) (pop_loop n r (seq_ring_next r nxt)))"

definition pop_tsnq_n :: "nat \<Rightarrow> 'a tsnq \<Rightarrow> ('a list wait_ans \<times> 'a tsnq) res" where
  "pop_tsnq_n n q =
     (if tq_stop_token q then Inr (Null, q\<lparr>tq_stopped := True\<rparr>)
      else c_assert (seq_ring_size (tq_r q) \<ge> n)
       (let r = tq_r q; it = seq_ring_front r in
        c_assert (it \<noteq> seq_ring_end r)
         (bind_res (pop_loop n r it)
           (\<lambda>(xs, nxt). map_res (\<lambda>r'. (Elm xs, q\<lparr>tq_r := r'\<rparr>)) (seq_ring_erase r it nxt)))))"

definition pop_tsnq_10 :: "'a tsnq \<Rightarrow> ('a list wait_ans \<times> 'a tsnq) res" where
  "pop_tsnq_10 q = pop_tsnq_n 10 q"

definition pop_tsnq_100 :: "'a tsnq \<Rightarrow> ('a list wait_ans \<times> 'a tsnq) res" where
  "pop_tsnq_100 q = pop_tsnq_n 100 q"

definition size_tsnq :: "'a tsnq \<Rightarrow> nat" where
  "size_tsnq q = seq_ring_size (tq_r q)"

section \<open>The queue is a first-in first-out queue\<close>

definition tsnq_inv :: "nat \<Rightarrow> 'a tsnq \<Rightarrow> bool" where
  "tsnq_inv elm_sz q \<longleftrightarrow> ring_inv (tq_r q) \<and> r_elt_size (tq_r q) = elm_sz"

definition tsnq_list :: "'a tsnq \<Rightarrow> 'a list" where
  "tsnq_list q = ring_list (tq_r q)"

text \<open>A pop by the single consumer of a queue that holds something and is not stopped.\<close>

definition pop_running :: "'a tsnq \<Rightarrow> ('a \<times> 'a tsnq) res" where
  "pop_running q =
     bind_res (wait_and_pop_tsnq q)
      (\<lambda>(a, q'). case a of Elm x \<Rightarrow> Inr (x, q') | _ \<Rightarrow> Inl AssertFailed)"

lemma take_front_ok:
  assumes inv: "tsnq_inv elm_sz q" and ne: "tsnq_list q = x # xs"
  shows "\<exists>q'. take_front q = Inr (x, q') \<and> tsnq_inv elm_sz q' \<and> tsnq_list q' = xs \<and>
    tq_stop_token q' = tq_stop_token q \<and> tq_stopped q' = tq_stopped q"
proof -
  have r: "ring_inv (tq_r q)" using inv by (simp add: tsnq_inv_def)
  have sz: "seq_ring_size (tq_r q) = Suc (length xs)"
    using ne by (simp add: tsnq_list_def flip: length_ring_list)
  then have "1 \<le> seq_ring_size (tq_r q)" by simp
  with r obtain r' where "seq_ring_erase (tq_r q) (ring_slot (tq_r q) 0) (ring_slot (tq_r q) 1) = Inr r'"
    "ring_inv r'" "ring_list r' = drop 1 (ring_list (tq_r q))" "r_elt_size r' = r_elt_size (tq_r q)"
    by (rule seq_ring_erase_ok)
  then show ?thesis
    using inv ring_front_ok [OF r] ring_front_not_end [OF r] sz ne r
    by (auto simp: take_front_def Let_def front_slot next_slot tsnq_inv_def tsnq_list_def)
qed

lemma tsnq_nonempty: "tsnq_list q = x # xs \<Longrightarrow> seq_ring_size (tq_r q) \<noteq> 0"
  by (simp add: tsnq_list_def flip: length_ring_list)

lemma push_tsnq_ok:
  assumes "tsnq_inv elm_sz q" "seq_ring_size (tq_r q) < 2 ^ 32 - 1"
  shows "\<exists>q'. push_tsnq q x elm_sz = Inr q' \<and> tsnq_inv elm_sz q' \<and> tsnq_list q' = tsnq_list q @ [x] \<and>
    tq_stop_token q' = tq_stop_token q \<and> tq_stopped q' = tq_stopped q"
proof -
  obtain r' where "seq_ring_push_back (tq_r q) x elm_sz = Inr r'" "ring_inv r'"
    "ring_list r' = ring_list (tq_r q) @ [x]" "r_elt_size r' = r_elt_size (tq_r q)"
    using seq_ring_push_back_ok [of "tq_r q" elm_sz x] assms by (auto simp: tsnq_inv_def)
  with assms show ?thesis by (auto simp: push_tsnq_def tsnq_inv_def tsnq_list_def)
qed

interpretation tsnq: fifo tsnq_list "\<lambda>q. tsnq_inv elm_sz q \<and> \<not> tq_stop_token q"
  "\<lambda>q. seq_ring_size (tq_r q) < 2 ^ 32 - 1" "\<lambda>q x. push_tsnq q x elm_sz" pop_running
proof (unfold_locales, goal_cases)
  case (1 q x)
  then show ?case using push_tsnq_ok [of elm_sz q x] by auto
next
  case (2 q x xs)
  then show ?case
    using take_front_ok [of elm_sz q x xs] tsnq_nonempty [of q x xs]
    by (auto simp: pop_running_def wait_and_pop_tsnq_def)
next
  case (3 q)
  then show ?case
    by (auto simp: pop_running_def wait_and_pop_tsnq_def tsnq_list_def simp flip: length_0_conv)
next
  case (4 q)
  then show ?case by (simp add: tsnq_list_def)
qed

text \<open>The batch pops hand over the first \<open>n\<close> elements in order and drop them.\<close>

lemma pop_loop_ok:
  assumes inv: "ring_inv r"
  shows "i + n \<le> seq_ring_size r \<Longrightarrow>
    pop_loop n r (ring_slot r i) = Inr (take n (drop i (ring_list r)), ring_slot r (i + n))"
proof (induction n arbitrary: i)
  case (Suc n)
  have "ring_deref r (ring_slot r i) = Inr (ring_list r ! i)"
    using inv Suc.prems ring_slot_less [OF inv, of i]
    by (auto simp: ring_deref_def ring_inv_def split: option.splits)
  moreover have "drop i (ring_list r) = ring_list r ! i # drop (Suc i) (ring_list r)"
    using Suc.prems by (simp add: Cons_nth_drop_Suc del: ring_list_nth)
  ultimately show ?case
    using Suc inv by (simp add: next_slot del: ring_list_nth)
qed simp

lemma pop_tsnq_n_ok:
  assumes inv: "tsnq_inv elm_sz q" and run: "\<not> tq_stop_token q"
    and n: "0 < n" "n \<le> seq_ring_size (tq_r q)"
  shows "\<exists>q'. pop_tsnq_n n q = Inr (Elm (take n (tsnq_list q)), q') \<and> tsnq_inv elm_sz q' \<and>
    tsnq_list q' = drop n (tsnq_list q)"
proof -
  have r: "ring_inv (tq_r q)" using inv by (simp add: tsnq_inv_def)
  from r n(2) obtain r' where
    "seq_ring_erase (tq_r q) (ring_slot (tq_r q) 0) (ring_slot (tq_r q) n) = Inr r'"
    "ring_inv r'" "ring_list r' = drop n (ring_list (tq_r q))" "r_elt_size r' = r_elt_size (tq_r q)"
    by (rule seq_ring_erase_ok)
  then show ?thesis
    using inv run n ring_front_not_end [OF r] pop_loop_ok [OF r, of 0 n]
    by (auto simp: pop_tsnq_n_def Let_def front_slot [OF r] tsnq_inv_def tsnq_list_def)
qed

section \<open>The protocol of the worker, the producers and \<open>free_tsnq\<close>\<close>

text \<open>
  Where the worker is in \<open>wait_and_pop_tsnq\<close> and \<open>worker_thread\<close>. It holds the mutex in
  \<open>WTest\<close>, \<open>WWaitCall\<close> and \<open>WExit\<close>.
\<close>

datatype worker_pc =
    WStart      \<comment> \<open>before \<open>pthread_mutex_lock\<close>\<close>
  | WTest       \<comment> \<open>about to evaluate the condition of the \<open>while\<close>\<close>
  | WWaitCall   \<comment> \<open>condition true, about to call \<open>pthread_cond_wait\<close>\<close>
  | WWaiting    \<comment> \<open>in \<open>pthread_cond_wait\<close>, mutex released, not signalled\<close>
  | WWoken      \<comment> \<open>signalled (or woken for no reason), to take the mutex again\<close>
  | WExit       \<comment> \<open>condition false, about to test \<open>stop_token\<close>\<close>
  | WStopping   \<comment> \<open>mutex released, about to write \<open>stopped\<close>\<close>
  | WDone       \<comment> \<open>returned \<open>NULL\<close>: the worker's loop ends\<close>
  | WAborted    \<comment> \<open>a fault while taking the element\<close>

datatype freer_pc =
    FIdle       \<comment> \<open>\<open>free_tsnq\<close> not called yet\<close>
  | FSet        \<comment> \<open>\<open>stop_token\<close> written\<close>
  | FLocked     \<comment> \<open>holds the mutex, about to signal\<close>
  | FSpin       \<comment> \<open>in \<open>while(q->stopped == false)\<close>\<close>
  | FFreed      \<comment> \<open>the ring, the condition and the mutex are destroyed\<close>

datatype thread = Worker | Freer

record 'a tsnq_sys =
  sy_q :: "'a tsnq"
  sy_mtx :: "thread option"
  sy_worker :: worker_pc
  sy_freer :: freer_pc
  sy_pushed :: "'a list"   \<comment> \<open>history: what was pushed\<close>
  sy_popped :: "'a list"   \<comment> \<open>history: what the worker took\<close>

text \<open>\<open>pthread_cond_signal\<close>: the only thread that ever waits is the worker.\<close>

definition signal :: "worker_pc \<Rightarrow> worker_pc" where
  "signal w = (if w = WWaiting then WWoken else w)"

inductive worker_step :: "'a tsnq_sys \<Rightarrow> 'a tsnq_sys \<Rightarrow> bool" where
  w_lock: "sy_worker s \<in> {WStart, WWoken} \<Longrightarrow> sy_mtx s = None \<Longrightarrow>
    worker_step s (s\<lparr>sy_worker := WTest, sy_mtx := Some Worker\<rparr>)"
| w_test: "sy_worker s = WTest \<Longrightarrow>
    worker_step s (s\<lparr>sy_worker :=
      (if seq_ring_size (tq_r (sy_q s)) = 0 \<and> \<not> tq_stop_token (sy_q s) then WWaitCall else WExit)\<rparr>)"
| w_wait: "sy_worker s = WWaitCall \<Longrightarrow>
    worker_step s (s\<lparr>sy_worker := WWaiting, sy_mtx := None\<rparr>)"
| w_stop: "sy_worker s = WExit \<Longrightarrow> tq_stop_token (sy_q s) \<Longrightarrow>
    worker_step s (s\<lparr>sy_worker := WStopping, sy_mtx := None\<rparr>)"
| w_stopped: "sy_worker s = WStopping \<Longrightarrow>
    worker_step s (s\<lparr>sy_worker := WDone, sy_q := (sy_q s)\<lparr>tq_stopped := True\<rparr>\<rparr>)"
| w_pop: "sy_worker s = WExit \<Longrightarrow> \<not> tq_stop_token (sy_q s) \<Longrightarrow> take_front (sy_q s) = Inr (x, q') \<Longrightarrow>
    worker_step s (s\<lparr>sy_worker := WStart, sy_mtx := None, sy_q := q', sy_popped := sy_popped s @ [x]\<rparr>)"
| w_abort: "sy_worker s = WExit \<Longrightarrow> \<not> tq_stop_token (sy_q s) \<Longrightarrow> take_front (sy_q s) = Inl e \<Longrightarrow>
    worker_step s (s\<lparr>sy_worker := WAborted\<rparr>)"

inductive tsnq_step :: "nat \<Rightarrow> 'a tsnq_sys \<Rightarrow> 'a tsnq_sys \<Rightarrow> bool" for elm_sz where
  worker: "worker_step s s' \<Longrightarrow> tsnq_step elm_sz s s'"
| spurious: "sy_worker s = WWaiting \<Longrightarrow> tsnq_step elm_sz s (s\<lparr>sy_worker := WWoken\<rparr>)"
| push: "sy_mtx s = None \<Longrightarrow> sy_freer s \<noteq> FFreed \<Longrightarrow> seq_ring_size (tq_r (sy_q s)) < 2 ^ 32 - 1 \<Longrightarrow>
    push_tsnq (sy_q s) x elm_sz = Inr q' \<Longrightarrow>
    tsnq_step elm_sz s (s\<lparr>sy_q := q', sy_worker := signal (sy_worker s), sy_pushed := sy_pushed s @ [x]\<rparr>)"
| f_set: "sy_freer s = FIdle \<Longrightarrow>
    tsnq_step elm_sz s (s\<lparr>sy_freer := FSet, sy_q := (sy_q s)\<lparr>tq_stop_token := True\<rparr>\<rparr>)"
| f_lock: "sy_freer s = FSet \<Longrightarrow> sy_mtx s = None \<Longrightarrow>
    tsnq_step elm_sz s (s\<lparr>sy_freer := FLocked, sy_mtx := Some Freer\<rparr>)"
| f_signal: "sy_freer s = FLocked \<Longrightarrow>
    tsnq_step elm_sz s (s\<lparr>sy_freer := FSpin, sy_worker := signal (sy_worker s), sy_mtx := None\<rparr>)"
| f_free: "sy_freer s = FSpin \<Longrightarrow> tq_stopped (sy_q s) \<Longrightarrow>
    tsnq_step elm_sz s (s\<lparr>sy_freer := FFreed\<rparr>)"

text \<open>\<open>init_msg_dispatcher\<close>: the queue is empty and the worker starts.\<close>

definition init_msg_dispatcher :: "nat \<Rightarrow> 'a tsnq_sys res" where
  "init_msg_dispatcher elm_sz =
     map_res (\<lambda>q. \<lparr>sy_q = q, sy_mtx = None, sy_worker = WStart, sy_freer = FIdle,
                    sy_pushed = [], sy_popped = []\<rparr>) (init_tsnq elm_sz)"

inductive reachable :: "nat \<Rightarrow> 'a tsnq_sys \<Rightarrow> bool" for elm_sz where
  start: "init_msg_dispatcher elm_sz = Inr s \<Longrightarrow> reachable elm_sz s"
| step: "reachable elm_sz s \<Longrightarrow> tsnq_step elm_sz s s' \<Longrightarrow> reachable elm_sz s'"

definition sys_inv :: "nat \<Rightarrow> 'a tsnq_sys \<Rightarrow> bool" where
  "sys_inv elm_sz s \<longleftrightarrow>
     tsnq_inv elm_sz (sy_q s) \<and>
     sy_pushed s = sy_popped s @ tsnq_list (sy_q s) \<and>
     (sy_mtx s = Some Worker \<longleftrightarrow> sy_worker s \<in> {WTest, WWaitCall, WExit}) \<and>
     (sy_mtx s = Some Freer \<longleftrightarrow> sy_freer s = FLocked) \<and>
     (tq_stop_token (sy_q s) \<longleftrightarrow> sy_freer s \<noteq> FIdle) \<and>
     (sy_worker s = WExit \<longrightarrow> tsnq_list (sy_q s) \<noteq> [] \<or> tq_stop_token (sy_q s)) \<and>
     (sy_freer s \<in> {FSpin, FFreed} \<longrightarrow> sy_worker s \<notin> {WWaiting, WWaitCall}) \<and>
     (sy_worker s \<in> {WStopping, WDone} \<longrightarrow> tq_stop_token (sy_q s)) \<and>
     (tq_stopped (sy_q s) \<longleftrightarrow> sy_worker s = WDone) \<and>
     (sy_freer s = FFreed \<longrightarrow> tq_stopped (sy_q s)) \<and>
     sy_worker s \<noteq> WAborted"

lemma sys_inv_worker:
  "worker_step s s' \<Longrightarrow> sys_inv elm_sz s \<Longrightarrow> sys_inv elm_sz s'"
proof (induction rule: worker_step.induct)
  case (w_pop s x q')
  from w_pop obtain y ys where "tsnq_list (sy_q s) = y # ys"
    by (cases "tsnq_list (sy_q s)") (auto simp: sys_inv_def)
  with w_pop take_front_ok [of elm_sz "sy_q s" y ys] show ?case
    by (auto simp: sys_inv_def)
next
  case (w_abort s e)
  from w_abort obtain y ys where "tsnq_list (sy_q s) = y # ys"
    by (cases "tsnq_list (sy_q s)") (auto simp: sys_inv_def)
  with w_abort take_front_ok [of elm_sz "sy_q s" y ys] show ?case
    by (auto simp: sys_inv_def)
next
  case (w_test s)
  then show ?case
    by (auto simp: sys_inv_def tsnq_list_def simp flip: length_0_conv)
qed (auto simp: sys_inv_def tsnq_inv_def tsnq_list_def)

lemma sys_inv_step:
  "tsnq_step elm_sz s s' \<Longrightarrow> sys_inv elm_sz s \<Longrightarrow> sys_inv elm_sz s'"
proof (induction rule: tsnq_step.induct)
  case (worker s s')
  then show ?case by (blast intro: sys_inv_worker)
next
  case (push s x q')
  then show ?case
    using push_tsnq_ok [of elm_sz "sy_q s" x] by (auto simp: sys_inv_def signal_def)
qed (auto simp: sys_inv_def tsnq_inv_def tsnq_list_def signal_def)

lemma sys_inv_reachable: "reachable elm_sz s \<Longrightarrow> sys_inv elm_sz s"
proof (induction rule: reachable.induct)
  case (start s)
  then show ?case
    by (auto simp: sys_inv_def init_msg_dispatcher_def init_tsnq_def tsnq_inv_def tsnq_list_def
        seq_ring_init_inv) (simp add: seq_ring_init_def)
next
  case (step s s')
  then show ?case by (blast intro: sys_inv_step)
qed

text \<open>
  Once \<open>free_tsnq\<close> has signalled, every step the worker takes brings it closer to its end, and
  until it is there it always has one: no wake-up is lost.
\<close>

definition worker_rank :: "worker_pc \<Rightarrow> nat" where
  "worker_rank w = (case w of WStart \<Rightarrow> 4 | WWoken \<Rightarrow> 4 | WTest \<Rightarrow> 3 | WExit \<Rightarrow> 2 | WStopping \<Rightarrow> 1 | _ \<Rightarrow> 0)"

lemma worker_rank_decreases:
  "worker_step s s' \<Longrightarrow> sys_inv elm_sz s \<Longrightarrow> sy_freer s = FSpin \<Longrightarrow>
   worker_rank (sy_worker s') < worker_rank (sy_worker s)"
  by (induction rule: worker_step.induct) (auto simp: sys_inv_def worker_rank_def)

lemma worker_enabled:
  assumes "sys_inv elm_sz s" "sy_freer s = FSpin" "sy_worker s \<noteq> WDone"
  shows "\<exists>s'. worker_step s s'"
proof -
  have "sy_mtx s = None" if "sy_worker s \<in> {WStart, WWoken}"
    using assms that by (cases "sy_mtx s"; cases "the (sy_mtx s)") (auto simp: sys_inv_def)
  moreover have "tq_stop_token (sy_q s)" using assms by (auto simp: sys_inv_def)
  ultimately show ?thesis
    using assms by (cases "sy_worker s") (auto simp: sys_inv_def intro: worker_step.intros)
qed

lemma worker_step_freer: "worker_step s s' \<Longrightarrow> sy_freer s' = sy_freer s"
  by (induction rule: worker_step.induct) auto

lemma worker_runs_out:
  assumes "sys_inv elm_sz s" "sy_freer s = FSpin"
  shows "\<exists>n s'. n \<le> 4 \<and> (worker_step ^^ n) s s' \<and> sy_worker s' = WDone \<and> tq_stopped (sy_q s') \<and>
    sy_freer s' = FSpin"
proof -
  have "\<exists>n s'. n \<le> worker_rank (sy_worker s) \<and> (worker_step ^^ n) s s' \<and> sy_worker s' = WDone \<and>
      tq_stopped (sy_q s') \<and> sy_freer s' = FSpin"
    using assms
  proof (induction "worker_rank (sy_worker s)" arbitrary: s rule: less_induct)
    case less
    show ?case
    proof (cases "sy_worker s = WDone")
      case True
      with less.prems have "(worker_step ^^ 0) s s \<and> sy_worker s = WDone \<and> tq_stopped (sy_q s) \<and>
          sy_freer s = FSpin" by (simp add: sys_inv_def)
      then show ?thesis by blast
    next
      case False
      with less.prems worker_enabled obtain s1 where s1: "worker_step s s1" by blast
      note lt = worker_rank_decreases [OF s1 less.prems]
      from less.hyps [OF lt sys_inv_worker [OF s1 less.prems(1)]] worker_step_freer [OF s1] less.prems
      obtain n s' where n: "n \<le> worker_rank (sy_worker s1)" "(worker_step ^^ n) s1 s'"
        "sy_worker s' = WDone" "tq_stopped (sy_q s')" "sy_freer s' = FSpin" by auto
      then have "(worker_step ^^ Suc n) s s'"
        using s1 relpowp_Suc_I2 by metis
      then show ?thesis using n lt
        by (intro exI [of _ "Suc n"] exI [of _ s']) auto
    qed
  qed
  moreover have "worker_rank w \<le> 4" for w by (cases w) (auto simp: worker_rank_def)
  ultimately show ?thesis by (meson le_trans)
qed

section \<open>Properties\<close>

text \<open>C19: in every reachable state of the dispatcher, whatever the interleaving of the
  producers, the worker and the thread that frees the queue (spurious wake-ups included), what
  was pushed is what the worker took followed by what is still queued, the worker never faults,
  and the queue is destroyed only after the worker has left it for good.\<close>

theorem dispatcher_safe:
  assumes "reachable elm_sz s"
  shows "sy_pushed s = sy_popped s @ tsnq_list (sy_q s) \<and> sy_worker s \<noteq> WAborted \<and>
    (sy_freer s = FFreed \<longrightarrow> sy_worker s = WDone)"
  using sys_inv_reachable [OF assms] by (auto simp: sys_inv_def)

text \<open>A run: the queue is initialised, a producer pushes, the worker looks into the queue.\<close>

lemma reachable_sample:
  "\<exists>s. reachable 4 s \<and> sy_pushed s = [7 :: nat] \<and> sy_worker s = WStart \<and> sy_mtx s = None \<and>
     sy_freer s = FIdle"
proof -
  obtain s0 :: "nat tsnq_sys" where s0: "init_msg_dispatcher 4 = Inr s0"
    "s0 = \<lparr>sy_q = \<lparr>tq_r = seq_ring_init 4, tq_stop_token = False, tq_stopped = False\<rparr>, sy_mtx = None,
        sy_worker = WStart, sy_freer = FIdle, sy_pushed = [], sy_popped = []\<rparr>"
    by (simp add: init_msg_dispatcher_def init_tsnq_def)
  have r0: "reachable 4 s0" using s0(1) by (rule reachable.start)
  obtain q' where "push_tsnq (sy_q s0) 7 4 = Inr q'"
    using push_tsnq_ok [of 4 "sy_q s0" 7] sys_inv_reachable [OF r0] s0(2)
    by (auto simp: sys_inv_def)
  then have "tsnq_step 4 s0 (s0\<lparr>sy_q := q', sy_worker := signal (sy_worker s0), sy_pushed := sy_pushed s0 @ [7]\<rparr>)"
    using s0(2) by (intro tsnq_step.push) simp_all
  from reachable.step [OF r0 this] show ?thesis
    using s0(2) by (intro exI [of _ "s0\<lparr>sy_q := q', sy_worker := signal (sy_worker s0),
      sy_pushed := sy_pushed s0 @ [7]\<rparr>"]) (simp add: signal_def)
qed

theorem dispatcher_safe_witness:
  "\<exists>s. reachable 4 s \<and> sy_popped s @ tsnq_list (sy_q s) = [7 :: nat]"
  using reachable_sample dispatcher_safe by metis

text \<open>C20: the thread in \<open>free_tsnq\<close> does not spin for ever: once it has signalled, at most four
  steps of the worker, each of which is enabled, set \<open>stopped\<close>; no wake-up is lost.\<close>

theorem free_tsnq_returns:
  assumes "reachable elm_sz s" "sy_freer s = FSpin"
  shows "\<exists>n s' s''. n \<le> 4 \<and> (worker_step ^^ n) s s' \<and> tq_stopped (sy_q s') \<and>
    tsnq_step elm_sz s' s'' \<and> sy_freer s'' = FFreed"
proof -
  obtain n s' where s': "n \<le> 4" "(worker_step ^^ n) s s'" "tq_stopped (sy_q s')" "sy_freer s' = FSpin"
    using worker_runs_out [OF sys_inv_reachable [OF assms(1)] assms(2)] by blast
  from tsnq_step.f_free [OF s'(4,3)] s'(1,2,3) show ?thesis by fastforce
qed

theorem free_tsnq_returns_witness:
  "\<exists>(s :: nat tsnq_sys) n s' s''. reachable 4 s \<and> n \<le> 4 \<and> (worker_step ^^ n) s s' \<and>
     tq_stopped (sy_q s') \<and> tsnq_step 4 s' s'' \<and> sy_freer s'' = FFreed"
proof -
  obtain s :: "nat tsnq_sys" where s: "reachable 4 s" "sy_mtx s = None" "sy_freer s = FIdle"
    using reachable_sample by blast
  let ?s1 = "s\<lparr>sy_freer := FSet, sy_q := (sy_q s)\<lparr>tq_stop_token := True\<rparr>\<rparr>"
  let ?s2 = "?s1\<lparr>sy_freer := FLocked, sy_mtx := Some Freer\<rparr>"
  let ?s3 = "?s2\<lparr>sy_freer := FSpin, sy_worker := signal (sy_worker ?s2), sy_mtx := None\<rparr>"
  have "reachable 4 ?s1" using s by (blast intro: reachable.step tsnq_step.f_set)
  moreover have "tsnq_step 4 ?s1 ?s2" using s by (intro tsnq_step.f_lock) simp_all
  moreover have "tsnq_step 4 ?s2 ?s3" by (rule tsnq_step.f_signal) simp
  ultimately have r3: "reachable 4 ?s3" by (metis reachable.step)
  show ?thesis using free_tsnq_returns [OF r3] r3 by (intro exI [of _ ?s3]) simp
qed

text \<open>A batch pop of a running queue that holds at least \<open>n\<close> elements hands the first \<open>n\<close>
  to the callback, in order, and removes exactly those; on a queue that is being freed it touches
  nothing, reports \<open>NULL\<close> and acknowledges the stop.\<close>

theorem pop_tsnq_batch:
  assumes "tsnq_inv elm_sz q" "tq_stop_token q \<or> 0 < n \<and> n \<le> size_tsnq q"
  shows "if tq_stop_token q then pop_tsnq_n n q = Inr (Null, q\<lparr>tq_stopped := True\<rparr>)
    else \<exists>q'. pop_tsnq_n n q = Inr (Elm (take n (tsnq_list q)), q') \<and> tsnq_inv elm_sz q' \<and>
      tsnq_list q' = drop n (tsnq_list q)"
proof (cases "tq_stop_token q")
  case False
  then show ?thesis
    using pop_tsnq_n_ok [OF assms(1) False, of n] assms(2) by (simp add: size_tsnq_def)
qed (simp add: pop_tsnq_n_def)

theorem pop_tsnq_batch_witness:
  "\<exists>q'. pop_tsnq_n 2 \<lparr>tq_r = ring_wrapped, tq_stop_token = False, tq_stopped = False\<rparr>
     = Inr (Elm [7, 5], q') \<and> tsnq_list q' = []"
  using pop_tsnq_batch [of 4 "\<lparr>tq_r = ring_wrapped, tq_stop_token = False, tq_stopped = False\<rparr>" 2]
  by (auto simp: tsnq_inv_def tsnq_list_def size_tsnq_def ring_wrapped_inv ring_wrapped_facts)

end
