(* ===== verification/Seq_Arr.thy ===== *)
theory Seq_Arr
  imports FlexRIC_Prelude
begin

text \<open>
  The growable array \<open>seq_arr_t\<close> of \<open>util/alg_ds/ds/seq_container/seq_arr.c\<close> with the loops
  over it (\<open>find_if_arr\<close> of \<open>alg/find.c\<close>, \<open>for_each_arr\<close> of \<open>alg/for_each.c\<close>).
  Iterators are modelled by the index of the element they point to. \<open>sa_data\<close> is the allocated
  block as a list of element slots: its length is the number of whole elements that fit into the
  bytes that were asked of the allocator, so a copy beyond it is the fault \<open>OutOfBounds\<close>.
  The quotient of the two \<open>float\<close>s in \<open>maybe_shrink\<close> is the exact quotient, which it is for
  sizes below \<open>2^24\<close> (the capacity is a power of two).
\<close>

record 'a seq_arr =
  sa_data :: "'a option list"
  sa_size :: nat
  sa_elt_size :: nat
  sa_cap :: nat

definition MIN_SIZE :: nat where
  "MIN_SIZE = 8"

text \<open>Conversion of a pointer difference to the \<open>int\<close> it is stored in.\<close>

definition int32_of :: "int \<Rightarrow> int" where
  "int32_of d = sint (word_of_int d :: 32 word)"

lemma int32_of_id: "0 \<le> d \<Longrightarrow> d < 2 ^ 31 \<Longrightarrow> int32_of d = d"
  by (simp add: int32_of_def signed_of_int signed_take_bit_int_eq_self_iff)

lemma int32_of_bytes:
  assumes "e \<le> n" "(n - e) * k < 2 ^ 31"
  shows "int32_of ((int n - int e) * int k) = int ((n - e) * k)"
proof -
  have eq: "(int n - int e) * int k = int ((n - e) * k)"
    using assms(1) by (simp only: of_nat_diff of_nat_mult)
  have "int ((n - e) * k) < int (2 ^ 31)"
    using assms(2) by (simp only: of_nat_less_iff)
  then show ?thesis
    unfolding eq by (intro int32_of_id) auto
qed

definition maybe_expand :: "'a seq_arr \<Rightarrow> 'a seq_arr" where
  "maybe_expand arr =
     (if sa_size arr + 1 = sa_cap arr
      then arr\<lparr>sa_data := take (2 * sa_cap arr)
                 (sa_data arr @ replicate (2 * sa_cap arr - length (sa_data arr)) None),
               sa_cap := sa_cap arr * 2\<rparr>
      else arr)"

definition maybe_shrink :: "'a seq_arr \<Rightarrow> 'a seq_arr res" where
  "maybe_shrink arr =
     (if sa_size arr > MIN_SIZE \<and> 4 * sa_size arr < sa_cap arr
      then c_assert (sa_cap arr > MIN_SIZE)
        (let cap' = sa_cap arr div 2;
             data' = replicate (cap' * cap' div sa_elt_size arr) None
         in c_assert (sa_size arr \<le> cap')
             (in_bounds (sa_size arr \<le> length data' \<and> sa_size arr \<le> length (sa_data arr))
               (Inr (arr\<lparr>sa_data := copy_range 0 data' 0 (sa_size arr) (sa_data arr),
                         sa_cap := cap'\<rparr>))))
      else Inr arr)"

definition seq_arr_init :: "nat \<Rightarrow> 'a seq_arr" where
  "seq_arr_init elt_size =
     \<lparr>sa_data = replicate MIN_SIZE None, sa_size = 0, sa_elt_size = elt_size, sa_cap = MIN_SIZE\<rparr>"

definition seq_arr_push_back :: "'a seq_arr \<Rightarrow> 'a \<Rightarrow> nat \<Rightarrow> 'a seq_arr res" where
  "seq_arr_push_back arr data len =
     c_assert (len = sa_elt_size arr)
      (let arr = maybe_expand arr in
       in_bounds (sa_size arr < length (sa_data arr))
        (Inr (arr\<lparr>sa_data := (sa_data arr)[sa_size arr := Some data],
                  sa_size := sa_size arr + 1\<rparr>)))"

definition seq_arr_size :: "'a seq_arr \<Rightarrow> nat" where
  "seq_arr_size arr = sa_size arr"

definition seq_arr_front :: "'a seq_arr \<Rightarrow> nat" where
  "seq_arr_front arr = 0"

definition seq_arr_next :: "'a seq_arr \<Rightarrow> nat \<Rightarrow> nat" where
  "seq_arr_next arr it = it + 1"

definition seq_arr_end :: "'a seq_arr \<Rightarrow> nat" where
  "seq_arr_end arr = sa_size arr"

definition seq_arr_at :: "'a seq_arr \<Rightarrow> nat \<Rightarrow> nat res" where
  "seq_arr_at arr pos = c_assert (pos < sa_size arr) (Inr pos)"

text \<open>
  The difference of the pointers is divided by a \<open>size_t\<close>: the division is unsigned, on 64 bits.
\<close>

definition seq_arr_dist :: "'a seq_arr \<Rightarrow> nat \<Rightarrow> nat \<Rightarrow> int res" where
  "seq_arr_dist arr first_it last_it =
     (let diff = (word_of_int ((int last_it - int first_it) * int (sa_elt_size arr)) :: u64);
          pos = sint (word_of_nat (unat diff div sa_elt_size arr) :: u64)
      in c_assert (pos > -1) (Inr pos))"

definition arr_deref :: "'a seq_arr \<Rightarrow> nat \<Rightarrow> 'a res" where
  "arr_deref arr it =
     in_bounds (it < length (sa_data arr))
       (case sa_data arr ! it of None \<Rightarrow> Inl UseOfNull | Some x \<Rightarrow> Inr x)"

definition seq_arr_erase :: "'a seq_arr \<Rightarrow> nat \<Rightarrow> nat \<Rightarrow> 'a seq_arr res" where
  "seq_arr_erase arr start_it end_it =
     c_assert (end_it \<ge> start_it)
      (if start_it = end_it then Inr arr
       else let elt = sa_elt_size arr;
                num_bytes_move = int32_of ((int (sa_size arr) - int end_it) * int elt) in
         c_assert (num_bytes_move > -1)
          (let n_move = nat num_bytes_move div elt in
           in_bounds (end_it + n_move \<le> length (sa_data arr))
            (let data = copy_range start_it (sa_data arr) end_it n_move (sa_data arr);
                 num_bytes_erase = int32_of ((int end_it - int start_it) * int elt);
                 num_elm_erase = nat num_bytes_erase div elt
             in c_assert (num_elm_erase > 0)
                 (let size' = sa_size arr - num_elm_erase in
                  maybe_shrink (arr\<lparr>sa_data := fill_range size' (size' + num_elm_erase) None data,
                                    sa_size := size'\<rparr>)))))"

text \<open>The loop \<open>while(start_it != end_it)\<close> over an array: the elements visited, in order.\<close>

fun arr_walk :: "nat \<Rightarrow> 'a seq_arr \<Rightarrow> nat \<Rightarrow> nat \<Rightarrow> 'a list res" where
  "arr_walk fuel arr start_it end_it =
     (if start_it = end_it then Inr []
      else case fuel of 0 \<Rightarrow> Inl Diverged
      | Suc fuel' \<Rightarrow> bind_res (arr_deref arr start_it)
          (\<lambda>x. map_res ((#) x) (arr_walk fuel' arr (seq_arr_next arr start_it) end_it)))"

declare arr_walk.simps [simp del]

definition seq_arr_free :: "'a seq_arr \<Rightarrow> 'a list res" where
  "seq_arr_free arr = arr_walk (sa_size arr) arr (seq_arr_front arr) (seq_arr_end arr)"

fun find_if_arr_loop :: "nat \<Rightarrow> 'a seq_arr \<Rightarrow> nat \<Rightarrow> nat \<Rightarrow> 'b \<Rightarrow> ('b \<Rightarrow> 'a \<Rightarrow> bool res) \<Rightarrow> nat res" where
  "find_if_arr_loop fuel arr start_it end_it value f =
     (if start_it = end_it then Inr start_it
      else case fuel of 0 \<Rightarrow> Inl Diverged
      | Suc fuel' \<Rightarrow> bind_res (arr_deref arr start_it)
          (\<lambda>x. bind_res (f value x) (\<lambda>found. if found then Inr start_it
               else find_if_arr_loop fuel' arr (seq_arr_next arr start_it) end_it value f)))"

declare find_if_arr_loop.simps [simp del]

definition find_if_arr :: "'a seq_arr \<Rightarrow> nat \<Rightarrow> nat \<Rightarrow> 'b \<Rightarrow> ('b \<Rightarrow> 'a \<Rightarrow> bool res) \<Rightarrow> nat res" where
  "find_if_arr arr start_it end_it value f =
     find_if_arr_loop (length (sa_data arr)) arr start_it end_it value f"

section \<open>Invariant and abstraction\<close>

definition arr_list :: "'a seq_arr \<Rightarrow> 'a list" where
  "arr_list arr = map the (take (sa_size arr) (sa_data arr))"

text \<open>\<open>elt \<le> 32\<close> is what \<open>calloc(tmp.cap, tmp.cap)\<close> in \<open>maybe_shrink\<close> needs.\<close>

definition arr_inv :: "'a seq_arr \<Rightarrow> bool" where
  "arr_inv arr \<longleftrightarrow>
     (\<exists>k. sa_cap arr = 8 * 2 ^ k) \<and> sa_size arr < sa_cap arr \<and>
     sa_cap arr \<le> length (sa_data arr) \<and> 0 < sa_elt_size arr \<and>
     (\<forall>i < sa_size arr. sa_data arr ! i \<noteq> None)"

lemma length_arr_list: "arr_inv arr \<Longrightarrow> length (arr_list arr) = sa_size arr"
  by (auto simp: arr_list_def arr_inv_def)

lemma arr_list_nth:
  "arr_inv arr \<Longrightarrow> i < sa_size arr \<Longrightarrow> arr_list arr ! i = the (sa_data arr ! i)"
  by (auto simp: arr_list_def arr_inv_def)

lemma arr_deref_ok:
  "arr_inv arr \<Longrightarrow> i < sa_size arr \<Longrightarrow> arr_deref arr i = Inr (arr_list arr ! i)"
  by (auto simp: arr_deref_def arr_list_nth) (auto simp: arr_inv_def split: option.splits)

lemma seq_arr_init_inv: "0 < n \<Longrightarrow> arr_inv (seq_arr_init n)"
  by (auto simp: arr_inv_def seq_arr_init_def MIN_SIZE_def intro: exI [of _ 0])

lemma seq_arr_init_list [simp]: "arr_list (seq_arr_init n) = []"
  by (simp add: arr_list_def seq_arr_init_def)

lemma seq_arr_push_back_ok:
  assumes inv: "arr_inv arr" and len: "len = sa_elt_size arr"
  shows "\<exists>arr'. seq_arr_push_back arr x len = Inr arr' \<and> arr_inv arr' \<and>
    arr_list arr' = arr_list arr @ [x] \<and> sa_elt_size arr' = sa_elt_size arr"
proof -
  define a where "a = maybe_expand arr"
  define a' where "a' = a\<lparr>sa_data := (sa_data a)[sa_size a := Some x], sa_size := sa_size a + 1\<rparr>"
  have sz: "sa_size a = sa_size arr" "sa_elt_size a = sa_elt_size arr"
    by (auto simp: a_def maybe_expand_def)
  have room: "sa_size arr + 1 < sa_cap a" "sa_cap a \<le> length (sa_data a)"
    using inv by (auto simp: a_def maybe_expand_def arr_inv_def)
  have old: "sa_data a ! i = sa_data arr ! i" if "i < sa_size arr" for i
    using inv that by (auto simp: a_def maybe_expand_def arr_inv_def nth_append)
  obtain k where k: "sa_cap arr = 8 * 2 ^ k" using inv by (auto simp: arr_inv_def)
  then have cap: "\<exists>k. sa_cap a = 8 * 2 ^ k"
    by (auto simp: a_def maybe_expand_def intro: exI [of _ "Suc k"])
  have "seq_arr_push_back arr x len = Inr a'"
    using room len sz by (simp add: seq_arr_push_back_def Let_def a_def [symmetric] a'_def)
  moreover have "arr_inv a'"
    using inv cap room sz old
    by (auto simp: arr_inv_def a'_def nth_list_update less_Suc_eq)
  moreover have "arr_list a' = arr_list arr @ [x]"
  proof (rule nth_equalityI)
    show "length (arr_list a') = length (arr_list arr @ [x])"
      using \<open>arr_inv a'\<close> inv by (simp add: length_arr_list) (simp add: a'_def sz)
    fix i assume "i < length (arr_list a')"
    then have "i < sa_size arr + 1"
      using \<open>arr_inv a'\<close> by (simp add: length_arr_list) (simp add: a'_def sz)
    then show "arr_list a' ! i = (arr_list arr @ [x]) ! i"
      using \<open>arr_inv a'\<close> inv room
      by (auto simp: arr_list_nth length_arr_list nth_append less_Suc_eq)
         (auto simp: a'_def sz old arr_list_nth arr_list_def)
  qed
  ultimately show ?thesis by (auto simp: a'_def sz)
qed

lemma maybe_shrink_ok:
  assumes inv: "arr_inv arr" and elt: "sa_elt_size arr \<le> 32"
  shows "\<exists>arr'. maybe_shrink arr = Inr arr' \<and> arr_inv arr' \<and> arr_list arr' = arr_list arr \<and>
    sa_elt_size arr' = sa_elt_size arr"
proof (cases "sa_size arr > MIN_SIZE \<and> 4 * sa_size arr < sa_cap arr")
  case False
  then show ?thesis using inv by (auto simp: maybe_shrink_def)
next
  case True
  obtain k where k: "sa_cap arr = 8 * 2 ^ k" using inv by (auto simp: arr_inv_def)
  have "(2::nat) ^ 2 < 2 ^ k" using True k by (simp add: MIN_SIZE_def)
  then have k3: "3 \<le> k" using power_less_imp_less_exp [of "2::nat" 2 k] by simp
  then obtain k' where k': "k = Suc k'" "2 \<le> k'" by (cases k) auto
  define c where "c = sa_cap arr div 2"
  have c: "c = 8 * 2 ^ k'" using k k' by (simp add: c_def)
  have "(2::nat) ^ 2 \<le> 2 ^ k'" using k'(2) by (intro power_increasing) auto
  then have c32: "32 \<le> c" by (simp add: c)
  have sz: "sa_size arr < c" using True unfolding c_def by linarith
  have pos: "0 < sa_elt_size arr" using inv by (simp add: arr_inv_def)
  have "c * sa_elt_size arr \<le> c * c" using elt c32 by simp
  then have room: "c \<le> c * c div sa_elt_size arr"
    using pos by (simp add: less_eq_div_iff_mult_less_eq)
  define arr' where "arr' = arr\<lparr>sa_data :=
      copy_range 0 (replicate (c * c div sa_elt_size arr) None) 0 (sa_size arr) (sa_data arr),
      sa_cap := c\<rparr>"
  have "maybe_shrink arr = Inr arr'"
    using True sz room inv
    by (simp add: maybe_shrink_def Let_def c_def [symmetric] arr'_def arr_inv_def)
  moreover have inv': "arr_inv arr'"
    using inv room sz c by (auto simp: arr_inv_def arr'_def)
  moreover have "arr_list arr' = arr_list arr"
    using inv inv' sz room
    by (intro nth_equalityI)
       (auto simp: length_arr_list arr_list_nth, simp_all add: arr'_def arr_list_nth)
  ultimately show ?thesis by (auto simp: arr'_def)
qed

text \<open>The array an erase moves together and zeroes, before it is shrunk.\<close>

definition erased :: "'a seq_arr \<Rightarrow> nat \<Rightarrow> nat \<Rightarrow> 'a seq_arr" where
  "erased arr s e =
     arr\<lparr>sa_data := fill_range (sa_size arr - (e - s)) (sa_size arr) None
            (copy_range s (sa_data arr) e (sa_size arr - e) (sa_data arr)),
          sa_size := sa_size arr - (e - s)\<rparr>"

lemma seq_arr_erase_shrinks:
  assumes inv: "arr_inv arr" and se: "s < e" "e \<le> sa_size arr"
    and int_range: "sa_size arr * sa_elt_size arr < 2 ^ 31"
  shows "seq_arr_erase arr s e = maybe_shrink (erased arr s e)"
proof -
  let ?el = "sa_elt_size arr" and ?n = "sa_size arr"
  have pos: "0 < ?el" using inv by (simp add: arr_inv_def)
  have lt: "d * ?el < 2 ^ 31" if "d \<le> ?n" for d
    using that int_range by (meson mult_le_mono1 le_less_trans)
  have elems: "- 1 < int32_of ((int n - int m) * int ?el) \<and>
      nat (int32_of ((int n - int m) * int ?el)) div ?el = n - m"
    if "m \<le> n" "n - m \<le> ?n" for n m
    using int32_of_bytes [OF that(1) lt [OF that(2)]] pos by (simp del: of_nat_diff of_nat_mult)
  have len: "?n < length (sa_data arr)" using inv by (auto simp: arr_inv_def)
  show ?thesis
    using se len elems [of e ?n] elems [of s e] by (simp add: seq_arr_erase_def erased_def Let_def)
qed

lemma erased_ok:
  assumes inv: "arr_inv arr" and se: "s \<le> e" "e \<le> sa_size arr"
  shows "arr_inv (erased arr s e)" "arr_list (erased arr s e) = take s (arr_list arr) @ drop e (arr_list arr)"
proof -
  let ?n = "sa_size arr"
  define a where "a = erased arr s e"
  note a_def = a_def erased_def
  have len: "?n < length (sa_data arr)" using inv by (auto simp: arr_inv_def)
  have nth: "sa_data a ! i = sa_data arr ! (if i < s then i else e + (i - s))"
    if "i < ?n - (e - s)" for i
    using that len se by (auto simp: a_def)
  have inva: "arr_inv a"
    using inv nth se len by (auto simp: arr_inv_def) (auto simp: a_def)
  then show "arr_inv (erased arr s e)" by (simp add: a_def(1))
  have "arr_list a = take s (arr_list arr) @ drop e (arr_list arr)"
  proof (rule nth_equalityI)
    show "length (arr_list a) = length (take s (arr_list arr) @ drop e (arr_list arr))"
      using inv inva se by (simp add: length_arr_list) (simp add: a_def)
    fix i assume "i < length (arr_list a)"
    then have i: "i < ?n - (e - s)" "i < sa_size a"
      using inva by (simp_all add: length_arr_list a_def)
    then show "arr_list a ! i = (take s (arr_list arr) @ drop e (arr_list arr)) ! i"
      using inv inva se nth
      by (auto simp: arr_list_nth length_arr_list nth_append min_def)
  qed
  then show "arr_list (erased arr s e) = take s (arr_list arr) @ drop e (arr_list arr)" by (simp add: a_def(1))
qed

lemma seq_arr_erase_ok:
  assumes inv: "arr_inv arr" and elt: "sa_elt_size arr \<le> 32"
    and se: "s \<le> e" "e \<le> sa_size arr"
    and int_range: "sa_size arr * sa_elt_size arr < 2 ^ 31"
  shows "\<exists>arr'. seq_arr_erase arr s e = Inr arr' \<and> arr_inv arr' \<and>
    arr_list arr' = take s (arr_list arr) @ drop e (arr_list arr) \<and>
    sa_elt_size arr' = sa_elt_size arr"
proof (cases "s = e")
  case True
  then show ?thesis using inv by (auto simp: seq_arr_erase_def)
next
  case False
  then have "seq_arr_erase arr s e = maybe_shrink (erased arr s e)"
    using seq_arr_erase_shrinks [OF inv _ se(2) int_range] se(1) by simp
  moreover have "sa_elt_size (erased arr s e) = sa_elt_size arr" by (simp add: erased_def)
  ultimately show ?thesis
    using maybe_shrink_ok [OF erased_ok(1) [OF inv se]] elt erased_ok(2) [OF inv se] by auto
qed

text \<open>An array of small capacity is never given back memory, whatever the size of its elements.\<close>

lemma seq_arr_erase_small:
  assumes inv: "arr_inv arr" and cap: "sa_cap arr \<le> 32"
    and se: "s \<le> e" "e \<le> sa_size arr" and int_range: "sa_size arr * sa_elt_size arr < 2 ^ 31"
  shows "\<exists>arr'. seq_arr_erase arr s e = Inr arr' \<and> arr_inv arr' \<and> sa_cap arr' = sa_cap arr \<and>
    arr_list arr' = take s (arr_list arr) @ drop e (arr_list arr) \<and>
    sa_elt_size arr' = sa_elt_size arr"
proof (cases "s = e")
  case True
  then show ?thesis using inv by (auto simp: seq_arr_erase_def)
next
  case False
  then have "seq_arr_erase arr s e = maybe_shrink (erased arr s e)"
    using seq_arr_erase_shrinks [OF inv _ se(2) int_range] se(1) by simp
  moreover have "sa_cap (erased arr s e) \<le> 32" using cap by (simp add: erased_def)
  then have "maybe_shrink (erased arr s e) = Inr (erased arr s e)"
    by (auto simp: maybe_shrink_def MIN_SIZE_def)
  ultimately show ?thesis using erased_ok [OF inv se] by (simp add: erased_def)
qed

lemma push_back_cap:
  assumes inv: "arr_inv arr" and push: "seq_arr_push_back arr x len = Inr arr'"
    and cap: "sa_cap arr \<le> 32" "sa_size arr < 31"
  shows "sa_cap arr' \<le> 32"
proof -
  obtain k where k: "sa_cap arr = 8 * 2 ^ k" using inv by (auto simp: arr_inv_def)
  have "2 * sa_cap arr \<le> 32" if "Suc (sa_size arr) = sa_cap arr"
  proof -
    have "(2 :: nat) ^ k < 2 ^ 2" using that cap k by simp
    then have "k < 2" using power_less_imp_less_exp [of "2 :: nat" k 2] by simp
    then have "k \<le> 1" by simp
    then have "(2 :: nat) ^ k \<le> 2 ^ 1" by (intro power_increasing) auto
    then show ?thesis using k by simp
  qed
  then show ?thesis
    using push cap by (auto simp: seq_arr_push_back_def c_assert_def in_bounds_def maybe_expand_def Let_def
        split: if_splits)
qed

lemma arr_walk_ok:
  assumes inv: "arr_inv arr"
  shows "i \<le> sa_size arr \<Longrightarrow> sa_size arr - i \<le> fuel \<Longrightarrow>
    arr_walk fuel arr i (sa_size arr) = Inr (drop i (arr_list arr))"
proof (induction fuel arbitrary: i)
  case 0
  then show ?case using inv by (simp add: arr_walk.simps length_arr_list)
next
  case (Suc fuel)
  then show ?case
    using inv arr_deref_ok [OF inv, of i]
    by (cases "i = sa_size arr")
       (auto simp: arr_walk.simps [of "Suc fuel"] length_arr_list seq_arr_next_def
         Cons_nth_drop_Suc)
qed

lemma find_if_arr_ok:
  assumes inv: "arr_inv arr" and i: "i \<le> sa_size arr"
    and f: "\<And>x. x \<in> set (arr_list arr) \<Longrightarrow> f v x = Inr (g x)"
  shows "find_if_arr arr i (sa_size arr) v f =
    Inr (i + length (takeWhile (\<lambda>x. \<not> g x) (drop i (arr_list arr))))"
proof -
  have "find_if_arr_loop fuel arr i (sa_size arr) v f =
      Inr (i + length (takeWhile (\<lambda>x. \<not> g x) (drop i (arr_list arr))))"
    if "i \<le> sa_size arr" "sa_size arr - i \<le> fuel" for fuel
    using that
  proof (induction fuel arbitrary: i)
    case 0
    then show ?case using inv by (simp add: find_if_arr_loop.simps length_arr_list)
  next
    case (Suc fuel)
    show ?case
    proof (cases "i = sa_size arr")
      case True
      then show ?thesis using inv by (simp add: find_if_arr_loop.simps length_arr_list)
    next
      case False
      then have lt: "i < sa_size arr" using Suc.prems by simp
      then have "drop i (arr_list arr) = arr_list arr ! i # drop (Suc i) (arr_list arr)"
        using inv by (simp add: Cons_nth_drop_Suc length_arr_list)
      moreover have "f v (arr_list arr ! i) = Inr (g (arr_list arr ! i))"
        using lt by (intro f nth_mem) (simp add: length_arr_list [OF inv])
      ultimately show ?thesis
        using lt Suc arr_deref_ok [OF inv lt]
        by (simp add: find_if_arr_loop.simps [of "Suc fuel"] seq_arr_next_def)
    qed
  qed
  moreover have "sa_size arr \<le> length (sa_data arr)" using inv by (auto simp: arr_inv_def)
  ultimately show ?thesis using i by (simp add: find_if_arr_def)
qed

section \<open>Properties\<close>

lemma push_backs_ok:
  assumes "arr_inv arr" "sa_elt_size arr = elt"
  shows "\<exists>arr'. fold_res (\<lambda>x a. seq_arr_push_back a x elt) xs arr = Inr arr' \<and> arr_inv arr' \<and>
    arr_list arr' = arr_list arr @ xs \<and> sa_elt_size arr' = elt"
  using assms
proof (induction xs arbitrary: arr)
  case (Cons x xs)
  then obtain a1 where a1: "seq_arr_push_back arr x elt = Inr a1" "arr_inv a1"
    "arr_list a1 = arr_list arr @ [x]" "sa_elt_size a1 = elt"
    using seq_arr_push_back_ok [of arr elt x] by metis
  from Cons.IH [OF a1(2,4)] a1(1,3) show ?case by simp
qed simp

text \<open>An array filled by pushing \<open>xs\<close> holds exactly \<open>xs\<close>, whatever reallocations
  the pushes took, and \<open>find_if_arr\<close> over it returns the iterator of the first element that
  satisfies the predicate, or the end iterator.\<close>

theorem seq_arr_push_find:
  assumes "0 < elt"
  shows "\<exists>arr. fold_res (\<lambda>x a. seq_arr_push_back a x elt) xs (seq_arr_init elt) = Inr arr \<and>
    arr_list arr = xs \<and>
    find_if_arr arr (seq_arr_front arr) (seq_arr_end arr) v (\<lambda>v x. Inr (f v x)) =
      Inr (length (takeWhile (\<lambda>x. \<not> f v x) xs))"
proof -
  have "sa_elt_size (seq_arr_init elt) = elt" by (simp add: seq_arr_init_def)
  from push_backs_ok [OF seq_arr_init_inv [OF assms] this, of xs] obtain arr where
    "fold_res (\<lambda>x a. seq_arr_push_back a x elt) xs (seq_arr_init elt) = Inr arr"
    "arr_inv arr" "arr_list arr = xs" by (metis append_Nil seq_arr_init_list)
  with find_if_arr_ok [of arr 0 "\<lambda>v x. Inr (f v x)" v "f v"] show ?thesis
    by (auto simp: seq_arr_front_def seq_arr_end_def)
qed

theorem seq_arr_push_find_witness:
  "\<exists>arr. fold_res (\<lambda>x a. seq_arr_push_back a x 4) [5, 6, 7 :: nat] (seq_arr_init 4) = Inr arr \<and>
    arr_list arr = [5, 6, 7] \<and> find_if_arr arr (seq_arr_front arr) (seq_arr_end arr) 6 (\<lambda>v x. Inr (v = x)) = Inr 1"
  using seq_arr_push_find [of 4 "[5, 6, 7 :: nat]" 6 "(=)"]
  by (simp del: fold_res.simps)

text \<open>Erasing a range removes exactly that range and keeps the order of the rest; the
  array gives memory back when it got sparse. It holds for elements of at most 32 bytes.\<close>

theorem seq_arr_erase_removes:
  assumes "arr_inv arr" "sa_elt_size arr \<le> 32" "s \<le> e" "e \<le> sa_size arr"
    "sa_size arr * sa_elt_size arr < 2 ^ 31"
  shows "\<exists>arr'. seq_arr_erase arr s e = Inr arr' \<and> arr_inv arr' \<and>
    arr_list arr' = take s (arr_list arr) @ drop e (arr_list arr)"
  using seq_arr_erase_ok [OF assms] by blast

text \<open>An array of twelve elements in a buffer that has grown to 64.\<close>

definition arr_sparse :: "nat \<Rightarrow> nat seq_arr" where
  "arr_sparse elt = \<lparr>sa_data = map Some [0..<12] @ replicate 52 None, sa_size = 12, sa_elt_size = elt, sa_cap = 64\<rparr>"

lemma arr_sparse_inv: "0 < elt \<Longrightarrow> arr_inv (arr_sparse elt)"
  by (auto simp: arr_inv_def arr_sparse_def nth_append intro: exI [of _ 3])

theorem seq_arr_erase_removes_witness:
  "\<exists>arr'. seq_arr_erase (arr_sparse 4) 1 3 = Inr arr' \<and> arr_list arr' = [0, 3, 4, 5, 6, 7, 8, 9, 10, 11]"
proof -
  have "arr_list (arr_sparse 4) = [0..<12]" by (simp add: arr_list_def arr_sparse_def)
  then show ?thesis
    using seq_arr_erase_removes [OF arr_sparse_inv, of 4 1 3] by (auto simp: arr_sparse_def upt_rec)
qed

text \<open>for larger elements \<open>maybe_shrink\<close> overruns the buffer it allocates: it asks for
  \<open>cap * cap\<close> bytes instead of \<open>cap * elt_size\<close>, so an erase that leaves a sparse array whose
  elements do not fit into \<open>cap\<close> squared bytes writes out of bounds.\<close>

theorem seq_arr_erase_overruns:
  assumes "arr_inv arr" "s < e" "e \<le> sa_size arr" "sa_size arr * sa_elt_size arr < 2 ^ 31"
    and n: "n = sa_size arr - (e - s)" "MIN_SIZE < n" "4 * n < sa_cap arr"
    and bytes: "sa_cap arr div 2 * (sa_cap arr div 2) < n * sa_elt_size arr"
  shows "seq_arr_erase arr s e = Inl OutOfBounds"
proof -
  have elt: "0 < sa_elt_size arr" using assms(1) by (simp add: arr_inv_def)
  have "sa_size arr \<le> length (sa_data arr)" using assms(1) by (auto simp: arr_inv_def)
  moreover have "sa_cap arr div 2 * (sa_cap arr div 2) div sa_elt_size arr < n"
    using bytes elt by (simp add: div_less_iff_less_mult)
  moreover have "n \<le> sa_cap arr div 2" using n(3) by linarith
  ultimately show ?thesis
    using seq_arr_erase_shrinks [OF assms(1-4)] n
    by (simp add: maybe_shrink_def erased_def Let_def)
qed

theorem seq_arr_erase_overruns_witness:
  "seq_arr_erase (arr_sparse 128) 0 1 = Inl OutOfBounds"
  by (rule seq_arr_erase_overruns [OF arr_sparse_inv, of _ _ _ 11])
    (simp_all add: arr_sparse_def MIN_SIZE_def)

end
