(* ===== verification/Assoc_Reg.thy ===== *)
theory Assoc_Reg
  imports Seq_Arr
begin

text \<open>
  The registry \<open>assoc_reg_t\<close> of \<open>util/alg_ds/ds/assoc_container/assoc_reg.c\<close>: an array of
  buckets ordered by a key that the registry itself hands out, one larger at every insertion, with
  deleted buckets left in place until the array is compacted, shrunk or expanded. Also the two
  searches in it, \<open>lower_bound_reg\<close> (\<open>alg/lower_bound.c\<close>) and \<open>find_reg\<close> (\<open>alg/find.c\<close>),
  and \<open>for_each_reg\<close> (\<open>alg/for_each.c\<close>). Iterators are bucket numbers; the value bytes of a
  bucket are \<open>None\<close> while they are zeroed memory. Keys are the 32-bit field of the bucket,
  \<open>key_id\<close> the 64-bit \<open>size_t\<close> counter.
\<close>

record 'a registry_bucket =
  b_key :: u32
  b_has_value :: bool
  b_val :: "'a option"

record 'a assoc_reg =
  reg_arr :: "'a registry_bucket list"
  reg_sz :: nat
  reg_cap :: nat
  reg_occ :: nat
  reg_elm_sz :: nat
  reg_key_id :: u64

definition REG_MIN_SIZE :: nat where
  "REG_MIN_SIZE = 16"

definition zero_bucket :: "'a registry_bucket" where
  "zero_bucket = \<lparr>b_key = 0, b_has_value = False, b_val = None\<rparr>"

definition has_value_buckets :: "'a registry_bucket \<Rightarrow> bool" where
  "has_value_buckets b = b_has_value b"

definition iterator_in_ds :: "'a assoc_reg \<Rightarrow> nat \<Rightarrow> bool" where
  "iterator_in_ds reg it \<longleftrightarrow> it < reg_occ reg"

primrec copy_if_loop :: "nat \<Rightarrow> nat \<Rightarrow> nat \<Rightarrow> 'b list \<Rightarrow> 'b list \<Rightarrow> ('b \<Rightarrow> bool) \<Rightarrow> 'b list \<times> nat" where
  "copy_if_loop 0 i i_out src out fp = (out, i_out)"
| "copy_if_loop (Suc m) i i_out src out fp =
     (if fp (src ! i) then copy_if_loop m (i + 1) (i_out + 1) src (out[i_out := src ! i]) fp
      else copy_if_loop m (i + 1) i_out src out fp)"

definition copy_if :: "'b list \<Rightarrow> nat \<Rightarrow> 'b list \<Rightarrow> ('b \<Rightarrow> bool) \<Rightarrow> 'b list \<times> nat" where
  "copy_if src n_memb out fp = copy_if_loop n_memb 0 0 src out fp"

primrec partition_loop :: "nat \<Rightarrow> nat \<Rightarrow> nat \<Rightarrow> 'b list \<Rightarrow> ('b \<Rightarrow> bool) \<Rightarrow> 'b list \<times> nat" where
  "partition_loop 0 i j arr fp = (arr, j)"
| "partition_loop (Suc m) i j arr fp =
     (if fp (arr ! i) then partition_loop m (i + 1) (j + 1) (arr[j := arr ! i]) fp
      else partition_loop m (i + 1) j arr fp)"

definition reg_partition :: "'b list \<Rightarrow> nat \<Rightarrow> ('b \<Rightarrow> bool) \<Rightarrow> 'b list \<times> nat" where
  "reg_partition arr n_memb fp = partition_loop n_memb 0 0 arr fp"

definition shrink_if_necessary :: "'a assoc_reg \<Rightarrow> 'a assoc_reg res" where
  "shrink_if_necessary reg =
     (if reg_cap reg = REG_MIN_SIZE \<or> reg_sz reg * 4 > reg_cap reg then Inr reg
      else let (arr, idx) = reg_partition (reg_arr reg) (reg_occ reg) has_value_buckets in
        c_assert (idx \<le> reg_occ reg)
         (let arr = fill_range idx (reg_cap reg) zero_bucket arr;
              tmp = replicate (reg_cap reg div 2) zero_bucket
          in in_bounds (idx \<le> length tmp)
              (Inr (reg\<lparr>reg_arr := copy_range 0 tmp 0 idx arr, reg_occ := idx,
                        reg_cap := reg_cap reg div 2\<rparr>))))"

definition compact_if_necessary :: "'a assoc_reg \<Rightarrow> 'a assoc_reg res" where
  "compact_if_necessary reg =
     (if reg_sz reg * 2 > reg_occ reg then Inr reg
      else let (arr, idx) = reg_partition (reg_arr reg) (reg_occ reg) has_value_buckets in
        c_assert (idx \<le> reg_occ reg)
         (Inr (reg\<lparr>reg_arr := fill_range idx (reg_cap reg) zero_bucket arr, reg_occ := idx\<rparr>)))"

definition expand_if_neccesary :: "'a assoc_reg \<Rightarrow> 'a assoc_reg" where
  "expand_if_neccesary reg =
     (if reg_occ reg < reg_cap reg - 1 then reg
      else let (tmp_arr, out_idx) = copy_if (reg_arr reg) (reg_occ reg)
                 (replicate (reg_cap reg * 2) zero_bucket) has_value_buckets
           in reg\<lparr>reg_arr := tmp_arr, reg_occ := out_idx, reg_cap := reg_cap reg * 2\<rparr>)"

definition assoc_reg_init :: "nat \<Rightarrow> 'a assoc_reg" where
  "assoc_reg_init elm_sz =
     \<lparr>reg_arr = replicate REG_MIN_SIZE zero_bucket, reg_sz = 0, reg_cap = REG_MIN_SIZE,
      reg_occ = 0, reg_elm_sz = elm_sz, reg_key_id = 1\<rparr>"

definition assoc_reg_push_back :: "'a assoc_reg \<Rightarrow> 'a \<Rightarrow> nat \<Rightarrow> (u32 \<times> 'a assoc_reg) res" where
  "assoc_reg_push_back reg value elm_sz =
     c_assert (elm_sz = reg_elm_sz reg)
      (let reg = expand_if_neccesary reg in
       in_bounds (reg_occ reg < length (reg_arr reg))
        (let key = ucast (reg_key_id reg);
             b = \<lparr>b_key = key, b_has_value = True, b_val = Some value\<rparr>
         in c_assert (reg_key_id reg \<noteq> - 1)
             (Inr (key, reg\<lparr>reg_arr := (reg_arr reg)[reg_occ reg := b],
                            reg_key_id := reg_key_id reg + 1,
                            reg_occ := reg_occ reg + 1, reg_sz := reg_sz reg + 1\<rparr>))))"

definition assoc_reg_key :: "'a assoc_reg \<Rightarrow> nat \<Rightarrow> u32 res" where
  "assoc_reg_key reg it =
     c_assert (iterator_in_ds reg it)
      (c_assert (b_has_value (reg_arr reg ! it)) (Inr (b_key (reg_arr reg ! it))))"

definition assoc_reg_value :: "'a assoc_reg \<Rightarrow> nat \<Rightarrow> 'a res" where
  "assoc_reg_value reg it =
     c_assert (iterator_in_ds reg it)
      (c_assert (b_has_value (reg_arr reg ! it))
        (case b_val (reg_arr reg ! it) of None \<Rightarrow> Inl UseOfNull | Some v \<Rightarrow> Inr v))"

definition assoc_reg_size :: "'a assoc_reg \<Rightarrow> nat" where
  "assoc_reg_size reg = reg_sz reg"

definition assoc_reg_end :: "'a assoc_reg \<Rightarrow> nat" where
  "assoc_reg_end reg = reg_occ reg"

text \<open>The scan for the next bucket with a value, of \<open>assoc_reg_front\<close> and \<open>assoc_reg_next\<close>.\<close>

function reg_scan :: "'a registry_bucket list \<Rightarrow> nat \<Rightarrow> nat \<Rightarrow> nat" where
  "reg_scan arr b end_it =
     (if b < end_it \<and> \<not> b_has_value (arr ! b) then reg_scan arr (b + 1) end_it else b)"
  by pat_completeness auto
termination
  by (relation "measure (\<lambda>(arr, b, end_it). end_it - b)") auto

declare reg_scan.simps [simp del]

definition assoc_reg_front :: "'a assoc_reg \<Rightarrow> nat" where
  "assoc_reg_front reg =
     (if reg_occ reg = 0 then 0 else reg_scan (reg_arr reg) 0 (reg_occ reg))"

definition assoc_reg_next :: "'a assoc_reg \<Rightarrow> nat \<Rightarrow> nat res" where
  "assoc_reg_next reg it =
     in_bounds (it < length (reg_arr reg))
      (c_assert (b_has_value (reg_arr reg ! it))
        (c_assert (iterator_in_ds reg it)
          (Inr (reg_scan (reg_arr reg) (it + 1) (assoc_reg_end reg)))))"

text \<open>The loop of \<open>assoc_reg_erase\<close>: the values handed to \<open>free_func\<close>, and the registry.\<close>

fun reg_erase_loop :: "nat \<Rightarrow> 'a assoc_reg \<Rightarrow> nat \<Rightarrow> nat \<Rightarrow> ('a list \<times> 'a assoc_reg) res" where
  "reg_erase_loop fuel reg start_it end_it =
     (if start_it = end_it then Inr ([], reg)
      else case fuel of 0 \<Rightarrow> Inl Diverged
      | Suc fuel' \<Rightarrow>
          bind_res (assoc_reg_next reg start_it) (\<lambda>next_it.
            let b = reg_arr reg ! start_it;
                reg' = reg\<lparr>reg_arr := (reg_arr reg)[start_it := b\<lparr>b_has_value := False\<rparr>],
                           reg_sz := reg_sz reg - 1\<rparr>
            in case b_val b of None \<Rightarrow> Inl UseOfNull
               | Some v \<Rightarrow> map_res (\<lambda>(vs, r). (v # vs, r))
                             (reg_erase_loop fuel' reg' next_it end_it)))"

declare reg_erase_loop.simps [simp del]

definition assoc_reg_erase :: "'a assoc_reg \<Rightarrow> nat \<Rightarrow> nat \<Rightarrow> ('a list \<times> 'a assoc_reg) res" where
  "assoc_reg_erase reg start_it end_it =
     (if start_it = end_it then Inr ([], reg)
      else c_assert (iterator_in_ds reg start_it)
        (bind_res (reg_erase_loop (reg_cap reg) reg start_it end_it)
          (\<lambda>(freed, reg). bind_res (compact_if_necessary reg)
            (\<lambda>reg. map_res (Pair freed) (shrink_if_necessary reg)))))"

primrec remove_if_loop ::
  "nat \<Rightarrow> nat \<Rightarrow> 'a assoc_reg \<Rightarrow> ('a \<Rightarrow> bool) \<Rightarrow> u32 seq_arr \<Rightarrow> (u32 seq_arr \<times> 'a assoc_reg) res" where
  "remove_if_loop 0 i reg f arr = Inr (arr, reg)"
| "remove_if_loop (Suc m) i reg f arr =
     (let b = reg_arr reg ! i in
      if b_has_value b \<and> (case b_val b of None \<Rightarrow> False | Some v \<Rightarrow> f v)
      then bind_res (seq_arr_push_back arr (b_key b) 4) (\<lambda>arr.
             remove_if_loop m (i + 1)
               (reg\<lparr>reg_sz := reg_sz reg - 1,
                    reg_arr := (reg_arr reg)[i := b\<lparr>b_has_value := False\<rparr>]\<rparr>) f arr)
      else remove_if_loop m (i + 1) reg f arr)"

definition remove_if_range_reg ::
  "'a assoc_reg \<Rightarrow> ('a \<Rightarrow> bool) \<Rightarrow> (u32 seq_arr \<times> 'a assoc_reg) res" where
  "remove_if_range_reg reg f =
     bind_res (remove_if_loop (reg_occ reg) 0 reg f (seq_arr_init 4))
       (\<lambda>(arr, reg). bind_res (compact_if_necessary reg)
         (\<lambda>reg. map_res (Pair arr) (shrink_if_necessary reg)))"

section \<open>Searches\<close>

function lb_loop :: "'a registry_bucket list \<Rightarrow> nat \<Rightarrow> u32 \<Rightarrow> nat \<Rightarrow> nat \<Rightarrow> nat" where
  "lb_loop arr start_it key lower len =
     (if len > 0
      then let half = len div 2; idx = lower + half in
           if b_key (arr ! (start_it + idx)) < key
           then lb_loop arr start_it key (idx + 1) (len - half - 1)
           else lb_loop arr start_it key lower half
      else lower)"
  by pat_completeness auto
termination
  by (relation "measure (\<lambda>(arr, s, key, lower, len). len)") auto

declare lb_loop.simps [simp del]

text \<open>A difference of iterators below zero becomes a huge \<open>size_t\<close>, which the assertion rejects.\<close>

definition lower_bound_reg :: "'a assoc_reg \<Rightarrow> nat \<Rightarrow> nat \<Rightarrow> u32 \<Rightarrow> nat res" where
  "lower_bound_reg reg start_it end_it key =
     (if start_it = end_it then Inr end_it
      else let sz = end_it - start_it in
        c_assert (start_it \<le> end_it \<and> sz < reg_cap reg)
         (Inr (start_it + lb_loop (reg_arr reg) start_it key 0 (nat (int32_of (int sz))))))"

definition find_reg :: "'a assoc_reg \<Rightarrow> nat \<Rightarrow> nat \<Rightarrow> u32 \<Rightarrow> nat res" where
  "find_reg reg start_it end_it key =
     c_assert (key > 0)
      (if start_it = end_it then Inr end_it
       else bind_res (lower_bound_reg reg start_it end_it key) (\<lambda>it.
         c_assert (it \<le> end_it)
          (if it = end_it then Inr end_it
           else let b = reg_arr reg ! it in
             if \<not> b_has_value b \<or> b_key b \<noteq> key then Inr end_it else Inr it)))"

text \<open>The buckets \<open>for_each_reg\<close> calls its function on, in order.\<close>

definition for_each_reg :: "'a assoc_reg \<Rightarrow> nat \<Rightarrow> nat \<Rightarrow> 'a registry_bucket list res" where
  "for_each_reg reg start_it end_it =
     c_assert (start_it < reg_cap reg)
      (in_bounds (start_it \<le> end_it \<and> end_it \<le> length (reg_arr reg))
        (Inr (filter b_has_value (drop start_it (take end_it (reg_arr reg))))))"

section \<open>Compaction\<close>

lemma copy_if_loop_spec:
  assumes "copy_if_loop m i k src out fp = (out', k')"
    and "i + m \<le> length src" "k + length (filter fp (take m (drop i src))) \<le> length out"
  shows "length out' = length out \<and> k' = k + length (filter fp (take m (drop i src))) \<and>
    take k' out' = take k out @ filter fp (take m (drop i src)) \<and> drop k' out' = drop k' out"
  using assms
proof (induction m arbitrary: i k out)
  case 0
  then show ?case by simp
next
  case (Suc m)
  then have dr: "drop i src = src ! i # drop (Suc i) src"
    by (simp add: Cons_nth_drop_Suc)
  show ?case
  proof (cases "fp (src ! i)")
    case True
    then have "take (Suc k) (out[k := src ! i]) = take k out @ [src ! i]"
      using Suc.prems by (simp add: dr take_Suc_conv_app_nth)
    with True show ?thesis
      using Suc.IH [of "Suc i" "Suc k" "out[k := src ! i]"] Suc.prems by (auto simp: dr)
  next
    case False
    with Suc.IH [of "Suc i" k out] Suc.prems show ?thesis by (auto simp: dr)
  qed
qed

lemma partition_loop_spec:
  assumes "partition_loop m i j arr fp = (arr', j')" and "i + m \<le> length arr" "j \<le> i"
  shows "length arr' = length arr \<and> j' = j + length (filter fp (take m (drop i arr))) \<and>
    take j' arr' = take j arr @ filter fp (take m (drop i arr))"
  using assms
proof (induction m arbitrary: i j arr)
  case 0
  then show ?case by simp
next
  case (Suc m)
  then have dr: "drop i arr = arr ! i # drop (Suc i) arr"
    by (simp add: Cons_nth_drop_Suc)
  show ?case
  proof (cases "fp (arr ! i)")
    case True
    have "take (Suc j) (arr[j := arr ! i]) = take j arr @ [arr ! i]"
      using Suc.prems by (simp add: take_Suc_conv_app_nth)
    moreover have "drop (Suc i) (arr[j := arr ! i]) = drop (Suc i) arr"
      using Suc.prems by (simp add: drop_update_cancel)
    ultimately show ?thesis
      using True Suc.IH [of "Suc i" "Suc j" "arr[j := arr ! i]"] Suc.prems by (auto simp: dr)
  next
    case False
    with Suc.IH [of "Suc i" j arr] Suc.prems show ?thesis by (auto simp: dr)
  qed
qed

lemma copy_if_spec:
  assumes "copy_if src n out fp = (out', k)" "n \<le> length src" "n \<le> length out"
  shows "length out' = length out" "k = length (filter fp (take n src))"
    "take k out' = filter fp (take n src)"
proof -
  have "length (filter fp (take n src)) \<le> length out"
    using assms(2,3) length_filter_le [of fp "take n src"] by simp
  then show "length out' = length out" "k = length (filter fp (take n src))"
    "take k out' = filter fp (take n src)"
    using copy_if_loop_spec [of n 0 0 src out fp out' k] assms by (auto simp: copy_if_def)
qed

lemma reg_partition_spec:
  assumes "reg_partition arr n fp = (arr', k)" "n \<le> length arr"
  shows "length arr' = length arr" "k = length (filter fp (take n arr))"
    "take k arr' = filter fp (take n arr)"
  using partition_loop_spec [of n 0 0 arr fp arr' k] assms by (auto simp: reg_partition_def)

section \<open>Invariant and abstraction\<close>

definition reg_live :: "'a assoc_reg \<Rightarrow> 'a registry_bucket list" where
  "reg_live reg = filter b_has_value (take (reg_occ reg) (reg_arr reg))"

definition reg_alist :: "'a assoc_reg \<Rightarrow> (u32 \<times> 'a) list" where
  "reg_alist reg = map (\<lambda>b. (b_key b, the (b_val b))) (reg_live reg)"

definition buckets_ok :: "u64 \<Rightarrow> 'a registry_bucket list \<Rightarrow> bool" where
  "buckets_ok key_id bs \<longleftrightarrow>
     sorted_wrt (<) (map b_key bs) \<and>
     (\<forall>b \<in> set bs. 0 < b_key b \<and> unat (b_key b) < unat key_id \<and>
        (b_has_value b \<longrightarrow> b_val b \<noteq> None))"

definition reg_inv :: "'a assoc_reg \<Rightarrow> bool" where
  "reg_inv reg \<longleftrightarrow>
     (\<exists>k. reg_cap reg = 16 * 2 ^ k) \<and> length (reg_arr reg) = reg_cap reg \<and>
     reg_occ reg < reg_cap reg \<and> reg_sz reg = length (reg_live reg) \<and>
     buckets_ok (reg_key_id reg) (take (reg_occ reg) (reg_arr reg)) \<and>
     1 \<le> unat (reg_key_id reg) \<and> unat (reg_key_id reg) \<le> 2 ^ 32"

lemma buckets_ok_filter: "buckets_ok n bs \<Longrightarrow> buckets_ok n (filter p bs)"
  by (auto simp: buckets_ok_def sorted_wrt_map sorted_wrt_filter)

lemma reg_live_le_occ: "reg_inv reg \<Longrightarrow> length (reg_live reg) \<le> reg_occ reg"
  using length_filter_le [of b_has_value "take (reg_occ reg) (reg_arr reg)"]
  by (simp add: reg_inv_def reg_live_def)

lemma reg_sz_live: "reg_inv reg \<Longrightarrow> reg_sz reg = length (reg_live reg)"
  by (simp add: reg_inv_def)

lemma filter_idem: "filter p (filter p xs) = filter p xs"
  by (induction xs) auto

lemma take_fill_range: "k \<le> i \<Longrightarrow> take k (fill_range i j z xs) = take k xs"
  by (rule nth_equalityI) auto

lemma take_copy_range:
  "k \<le> n \<Longrightarrow> n \<le> length dst \<Longrightarrow> n \<le> length src \<Longrightarrow> take k (copy_range 0 dst 0 n src) = take k src"
  by (rule nth_equalityI) auto

text \<open>
  Each of the three reorganisations moves the live buckets, in order, to the front; what is left to
  show each time is the capacity.
\<close>

lemma reorganised:
  assumes inv: "reg_inv reg" and len: "length arr' = cap'" and cap: "\<exists>k. cap' = 16 * 2 ^ k"
    and room: "length (reg_live reg) < cap'"
    and tk: "take (length (reg_live reg)) arr' = reg_live reg"
  shows "reg_inv (reg\<lparr>reg_arr := arr', reg_occ := length (reg_live reg), reg_cap := cap'\<rparr>)"
    "reg_alist (reg\<lparr>reg_arr := arr', reg_occ := length (reg_live reg), reg_cap := cap'\<rparr>) = reg_alist reg"
proof -
  let ?r = "reg\<lparr>reg_arr := arr', reg_occ := length (reg_live reg), reg_cap := cap'\<rparr>"
  have live: "reg_live ?r = reg_live reg"
    by (simp add: reg_live_def [of ?r] tk) (simp add: reg_live_def filter_idem)
  then show "reg_alist ?r = reg_alist reg" by (simp add: reg_alist_def)
  have "buckets_ok (reg_key_id reg) (reg_live reg)"
    using inv by (simp add: reg_inv_def reg_live_def buckets_ok_filter)
  then show "reg_inv ?r"
    using inv live len cap room tk unfolding reg_inv_def by simp
qed

lemma has_value_fun: "has_value_buckets = b_has_value"
  by (simp add: fun_eq_iff has_value_buckets_def)

lemma compact_if_necessary_ok:
  assumes inv: "reg_inv reg"
  shows "\<exists>reg'. compact_if_necessary reg = Inr reg' \<and> reg_inv reg' \<and>
    reg_alist reg' = reg_alist reg \<and> reg_elm_sz reg' = reg_elm_sz reg \<and>
    reg_key_id reg' = reg_key_id reg"
proof (cases "reg_sz reg * 2 > reg_occ reg")
  case True
  then show ?thesis using inv by (auto simp: compact_if_necessary_def)
next
  case False
  obtain arr idx where p: "reg_partition (reg_arr reg) (reg_occ reg) has_value_buckets = (arr, idx)"
    by fastforce
  have occ: "reg_occ reg \<le> length (reg_arr reg)" using inv by (simp add: reg_inv_def)
  note sp = reg_partition_spec [OF p occ, unfolded has_value_fun, folded reg_live_def]
  have idx: "idx \<le> reg_occ reg"
    using sp(2) reg_live_le_occ [OF inv] by simp
  let ?arr = "fill_range idx (reg_cap reg) zero_bucket arr"
  have "take idx ?arr = reg_live reg" using sp by (simp add: take_fill_range)
  moreover have "length (reg_live reg) < reg_cap reg"
    using inv idx sp(2) by (simp add: reg_inv_def)
  moreover have "reg\<lparr>reg_arr := ?arr, reg_occ := idx\<rparr> =
      reg\<lparr>reg_arr := ?arr, reg_occ := length (reg_live reg), reg_cap := reg_cap reg\<rparr>"
    using sp(2) by simp
  ultimately have "reg_inv (reg\<lparr>reg_arr := ?arr, reg_occ := idx\<rparr>)"
    "reg_alist (reg\<lparr>reg_arr := ?arr, reg_occ := idx\<rparr>) = reg_alist reg"
    using reorganised [OF inv, of ?arr "reg_cap reg"] sp inv by (auto simp: reg_inv_def)
  moreover have "compact_if_necessary reg = Inr (reg\<lparr>reg_arr := ?arr, reg_occ := idx\<rparr>)"
    using False p idx by (simp add: compact_if_necessary_def)
  ultimately show ?thesis by simp
qed

lemma shrink_if_necessary_ok:
  assumes inv: "reg_inv reg"
  shows "\<exists>reg'. shrink_if_necessary reg = Inr reg' \<and> reg_inv reg' \<and>
    reg_alist reg' = reg_alist reg \<and> reg_elm_sz reg' = reg_elm_sz reg \<and>
    reg_key_id reg' = reg_key_id reg"
proof (cases "reg_cap reg = REG_MIN_SIZE \<or> reg_sz reg * 4 > reg_cap reg")
  case True
  then show ?thesis using inv by (auto simp: shrink_if_necessary_def)
next
  case False
  obtain k where k: "reg_cap reg = 16 * 2 ^ k" using inv by (auto simp: reg_inv_def)
  with False obtain k' where k': "k = Suc k'" by (cases k) (auto simp: REG_MIN_SIZE_def)
  obtain arr idx where p: "reg_partition (reg_arr reg) (reg_occ reg) has_value_buckets = (arr, idx)"
    by fastforce
  have occ: "reg_occ reg \<le> length (reg_arr reg)" using inv by (simp add: reg_inv_def)
  note sp = reg_partition_spec [OF p occ, unfolded has_value_fun, folded reg_live_def]
  have idx: "idx \<le> reg_occ reg" "idx = reg_sz reg"
    using sp(2) reg_live_le_occ [OF inv] reg_sz_live [OF inv] by simp_all
  then have "4 * idx \<le> 32 * 2 ^ k'" using False k k' by simp
  moreover have "0 < (2::nat) ^ k'" "reg_cap reg div 2 = 16 * 2 ^ k'" using k k' by simp_all
  ultimately have half: "idx < reg_cap reg div 2" by linarith
  let ?arr = "copy_range 0 (replicate (reg_cap reg div 2) zero_bucket) 0 idx
      (fill_range idx (reg_cap reg) zero_bucket arr)"
  have "idx \<le> length arr" using sp(1) occ idx by simp
  then have "take idx ?arr = reg_live reg"
    using sp half by (simp add: take_copy_range take_fill_range)
  then have "reg_inv (reg\<lparr>reg_arr := ?arr, reg_occ := idx, reg_cap := reg_cap reg div 2\<rparr>)"
    "reg_alist (reg\<lparr>reg_arr := ?arr, reg_occ := idx, reg_cap := reg_cap reg div 2\<rparr>) = reg_alist reg"
    using reorganised [OF inv, of ?arr "reg_cap reg div 2"] sp half k k' by auto
  moreover have "shrink_if_necessary reg =
      Inr (reg\<lparr>reg_arr := ?arr, reg_occ := idx, reg_cap := reg_cap reg div 2\<rparr>)"
    using False p idx(1) half by (simp add: shrink_if_necessary_def)
  ultimately show ?thesis by simp
qed

lemma expand_if_neccesary_ok:
  assumes inv: "reg_inv reg"
  defines "reg' \<equiv> expand_if_neccesary reg"
  shows "reg_inv reg'" "reg_alist reg' = reg_alist reg" "reg_elm_sz reg' = reg_elm_sz reg"
    "reg_key_id reg' = reg_key_id reg" "reg_occ reg' < reg_cap reg' - 1"
proof -
  obtain k where k: "reg_cap reg = 16 * 2 ^ k" using inv by (auto simp: reg_inv_def)
  obtain arr idx where p: "copy_if (reg_arr reg) (reg_occ reg)
      (replicate (reg_cap reg * 2) zero_bucket) has_value_buckets = (arr, idx)"
    by fastforce
  have occ: "reg_occ reg \<le> length (reg_arr reg)"
    "reg_occ reg \<le> length (replicate (reg_cap reg * 2) (zero_bucket :: 'a registry_bucket))"
    using inv by (simp_all add: reg_inv_def)
  note sp = copy_if_spec [OF p occ, unfolded has_value_fun, folded reg_live_def]
  have live: "length (reg_live reg) \<le> reg_occ reg" "reg_occ reg < reg_cap reg"
    using reg_live_le_occ [OF inv] inv by (auto simp: reg_inv_def)
  have pos: "2 \<le> reg_cap reg" "\<exists>j. reg_cap reg * 2 = 16 * 2 ^ j"
    using k by (auto intro: exI [of _ "Suc k"])
  have "reg_inv reg' \<and> reg_alist reg' = reg_alist reg \<and> reg_elm_sz reg' = reg_elm_sz reg \<and>
    reg_key_id reg' = reg_key_id reg \<and> reg_occ reg' < reg_cap reg' - 1"
  proof (cases "reg_occ reg < reg_cap reg - 1")
    case True
    then show ?thesis using inv by (simp add: reg'_def expand_if_neccesary_def)
  next
    case False
    then have "reg' = reg\<lparr>reg_arr := arr, reg_occ := length (reg_live reg), reg_cap := reg_cap reg * 2\<rparr>"
      using p sp(2) by (simp add: reg'_def expand_if_neccesary_def)
    then show ?thesis
      using reorganised [OF inv, of arr "reg_cap reg * 2"] sp live pos by auto
  qed
  then show "reg_inv reg'" "reg_alist reg' = reg_alist reg" "reg_elm_sz reg' = reg_elm_sz reg"
    "reg_key_id reg' = reg_key_id reg" "reg_occ reg' < reg_cap reg' - 1"
    by auto
qed

section \<open>Insertion\<close>

lemma reg_key_id_ucast:
  "unat (n :: u64) < 2 ^ 32 \<Longrightarrow> unat (ucast n :: u32) = unat n"
  by (simp add: unsigned_ucast_eq take_bit_nat_eq_self_iff)

lemma assoc_reg_init_ok: "reg_inv (assoc_reg_init n)" "reg_alist (assoc_reg_init n) = []"
  by (auto simp: reg_inv_def reg_alist_def reg_live_def assoc_reg_init_def REG_MIN_SIZE_def
      buckets_ok_def intro: exI [of _ 0])

lemma assoc_reg_push_back_ok:
  assumes inv: "reg_inv reg" and id: "unat (reg_key_id reg) < 2 ^ 32"
    and elm: "elm_sz = reg_elm_sz reg"
  shows "\<exists>reg'. assoc_reg_push_back reg v elm_sz = Inr (ucast (reg_key_id reg), reg') \<and>
    reg_inv reg' \<and> reg_alist reg' = reg_alist reg @ [(ucast (reg_key_id reg), v)] \<and>
    reg_key_id reg' = reg_key_id reg + 1 \<and> reg_elm_sz reg' = reg_elm_sz reg"
proof -
  define r where "r = expand_if_neccesary reg"
  note r = expand_if_neccesary_ok [OF inv, folded r_def]
  define b where "b = \<lparr>b_key = ucast (reg_key_id reg), b_has_value = True, b_val = Some v\<rparr>"
  define r' where "r' = r\<lparr>reg_arr := (reg_arr r)[reg_occ r := b], reg_key_id := reg_key_id r + 1,
    reg_occ := reg_occ r + 1, reg_sz := reg_sz r + 1\<rparr>"
  have occ: "reg_occ r < length (reg_arr r)" using r(1) by (simp add: reg_inv_def)
  have nmax: "reg_key_id reg \<noteq> - 1"
  proof
    assume "reg_key_id reg = - 1"
    then have "unat (reg_key_id reg) = 2 ^ 64 - 1" by (simp add: unsigned_minus_1_eq_mask mask_eq_exp_minus_1)
    with id show False by simp
  qed
  have push: "assoc_reg_push_back reg v elm_sz = Inr (ucast (reg_key_id reg), r')"
    using occ nmax elm r
    by (simp add: assoc_reg_push_back_def Let_def r_def [symmetric] r'_def b_def)
  have tk: "take (reg_occ r') (reg_arr r') = take (reg_occ r) (reg_arr r) @ [b]"
    using occ by (simp add: r'_def take_Suc_conv_app_nth)
  have live: "reg_live r' = reg_live r @ [b]"
    unfolding reg_live_def tk by (simp add: b_def)
  have key: "unat (b_key b) = unat (reg_key_id reg)"
    using id by (simp add: b_def reg_key_id_ucast)
  have suc: "unat (reg_key_id r + 1) = Suc (unat (reg_key_id reg))"
    using id r(4) by (simp add: unat_word_ariths)
  have bs: "buckets_ok (reg_key_id r) (take (reg_occ r) (reg_arr r))" "1 \<le> unat (reg_key_id reg)"
    using r(1,4) by (simp_all add: reg_inv_def)
  have "buckets_ok (reg_key_id r + 1) (take (reg_occ r) (reg_arr r) @ [b])"
    using bs key suc r(4)
    by (auto simp: buckets_ok_def sorted_wrt_append word_less_nat_alt b_def)
  then have "reg_inv r'"
    using r(1,4,5) live tk id suc
    by (auto simp: reg_inv_def) (auto simp: r'_def)
  moreover have "reg_alist r' = reg_alist reg @ [(ucast (reg_key_id reg), v)]"
    using r(2) by (simp add: reg_alist_def live) (simp add: b_def)
  ultimately show ?thesis
    using push r(3,4) by (auto simp: r'_def)
qed

section \<open>Iteration and search\<close>

lemma reg_scan_spec:
  "b \<le> e \<Longrightarrow> b \<le> reg_scan arr b e \<and> reg_scan arr b e \<le> e \<and>
   (\<forall>i. b \<le> i \<and> i < reg_scan arr b e \<longrightarrow> \<not> b_has_value (arr ! i)) \<and>
   (reg_scan arr b e < e \<longrightarrow> b_has_value (arr ! reg_scan arr b e))"
proof (induction arr b e rule: reg_scan.induct)
  case (1 arr b e)
  show ?case
  proof (cases "b < e \<and> \<not> b_has_value (arr ! b)")
    case True
    then have eq: "reg_scan arr b e = reg_scan arr (b + 1) e"
      by (simp add: reg_scan.simps [of arr b e])
    have "\<not> b_has_value (arr ! i)" if "b \<le> i" "i < reg_scan arr (b + 1) e" for i
      using True "1.IH" that by (cases "i = b") auto
    then show ?thesis
      unfolding eq using True "1.IH" by auto
  next
    case False
    then have "reg_scan arr b e = b"
      by (subst reg_scan.simps) auto
    then show ?thesis using "1.prems" False by auto
  qed
qed

lemma assoc_reg_front_spec:
  "assoc_reg_front reg \<le> reg_occ reg"
  "i < assoc_reg_front reg \<Longrightarrow> \<not> b_has_value (reg_arr reg ! i)"
  "assoc_reg_front reg < reg_occ reg \<Longrightarrow> b_has_value (reg_arr reg ! assoc_reg_front reg)"
  using reg_scan_spec [of 0 "reg_occ reg" "reg_arr reg"]
  by (auto simp: assoc_reg_front_def split: if_splits)

lemma assoc_reg_next_ok:
  assumes "reg_inv reg" "it < reg_occ reg" "b_has_value (reg_arr reg ! it)"
  shows "assoc_reg_next reg it = Inr (reg_scan (reg_arr reg) (it + 1) (reg_occ reg))"
  using assms
  by (simp add: assoc_reg_next_def iterator_in_ds_def assoc_reg_end_def reg_inv_def)

lemma bucket_key_less:
  assumes "reg_inv reg" "i < j" "j < reg_occ reg"
  shows "b_key (reg_arr reg ! i) < b_key (reg_arr reg ! j)"
  using assms by (auto simp: reg_inv_def buckets_ok_def sorted_wrt_iff_nth_less)

lemma bucket_key_inj:
  assumes "reg_inv reg" "i < reg_occ reg" "j < reg_occ reg"
    "b_key (reg_arr reg ! i) = b_key (reg_arr reg ! j)"
  shows "i = j"
  using bucket_key_less [OF assms(1)] assms(2-4)
  by (metis linorder_neqE_nat order_less_irrefl)

text \<open>The loop invariant of the binary search: the answer is in \<open>[lower, lower + len]\<close>.\<close>

lemma lb_loop_spec:
  assumes sorted: "\<And>i j. i < j \<Longrightarrow> j < n \<Longrightarrow> b_key (arr ! (s + i)) < b_key (arr ! (s + j))"
  shows "\<forall>i < lower. b_key (arr ! (s + i)) < key \<Longrightarrow>
    \<forall>i. lower + len \<le> i \<and> i < n \<longrightarrow> key \<le> b_key (arr ! (s + i)) \<Longrightarrow> lower + len \<le> n \<Longrightarrow>
    lb_loop arr s key lower len \<le> n \<and>
    (\<forall>i < n. b_key (arr ! (s + i)) < key \<longleftrightarrow> i < lb_loop arr s key lower len)"
proof (induction len arbitrary: lower rule: less_induct)
  case (less len)
  show ?case
  proof (cases "len = 0")
    case True
    then show ?thesis using less.prems by (auto simp: lb_loop.simps not_less leD)
  next
    case False
    define half idx where "half = len div 2" and "idx = lower + half"
    have half: "half < len" using False by (simp add: half_def)
    have idx: "idx < n" using half less.prems(3) by (simp add: idx_def)
    show ?thesis
    proof (cases "b_key (arr ! (s + idx)) < key")
      case True
      then have "\<forall>i < idx + 1. b_key (arr ! (s + i)) < key"
        using sorted [OF _ idx] by (auto simp: less_Suc_eq intro: less_trans)
      moreover have "idx + 1 + (len - half - 1) = lower + len"
        using half by (simp add: idx_def)
      ultimately have "lb_loop arr s key (idx + 1) (len - half - 1) \<le> n \<and>
        (\<forall>i < n. b_key (arr ! (s + i)) < key \<longleftrightarrow> i < lb_loop arr s key (idx + 1) (len - half - 1))"
        using less.IH [of "len - half - 1" "idx + 1"] less.prems half by simp
      then show ?thesis
        using False True by (simp add: lb_loop.simps [of arr s key lower len] Let_def half_def idx_def)
    next
      case False
      have "\<forall>i. lower + half \<le> i \<and> i < n \<longrightarrow> key \<le> b_key (arr ! (s + i))"
      proof (intro allI impI)
        fix i assume i: "lower + half \<le> i \<and> i < n"
        show "key \<le> b_key (arr ! (s + i))"
        proof (cases "i = idx")
          case True
          then show ?thesis using \<open>\<not> b_key (arr ! (s + idx)) < key\<close> by simp
        next
          case False
          with i have "idx < i" "i < n" by (simp_all add: idx_def)
          then have "b_key (arr ! (s + idx)) < b_key (arr ! (s + i))" by (rule sorted)
          then show ?thesis using \<open>\<not> b_key (arr ! (s + idx)) < key\<close> by simp
        qed
      qed
      then have "lb_loop arr s key lower half \<le> n \<and>
        (\<forall>i < n. b_key (arr ! (s + i)) < key \<longleftrightarrow> i < lb_loop arr s key lower half)"
        using less.IH [of half lower] less.prems half by simp
      then show ?thesis
        using \<open>len \<noteq> 0\<close> False
        by (simp add: lb_loop.simps [of arr s key lower len] Let_def half_def idx_def)
    qed
  qed
qed

text \<open>\<open>find_reg\<close> from the front finds the live bucket of a key, and the end if there is none.\<close>

lemma find_reg_ok:
  assumes inv: "reg_inv reg" and small: "reg_occ reg < 2 ^ 31" and key: "0 < key"
  obtains it where "find_reg reg (assoc_reg_front reg) (reg_occ reg) key = Inr it"
    "it \<le> reg_occ reg"
    "it < reg_occ reg \<Longrightarrow> b_has_value (reg_arr reg ! it) \<and> b_key (reg_arr reg ! it) = key"
    "it = reg_occ reg \<Longrightarrow>
       \<forall>i < reg_occ reg. b_has_value (reg_arr reg ! i) \<longrightarrow> b_key (reg_arr reg ! i) \<noteq> key"
proof (cases "assoc_reg_front reg = reg_occ reg")
  case True
  then show ?thesis
    using that [of "reg_occ reg"] key assoc_reg_front_spec(2) [of _ reg] by (auto simp: find_reg_def)
next
  case False
  define s n where "s = assoc_reg_front reg" and "n = reg_occ reg - s"
  have s: "s < reg_occ reg" "s + n = reg_occ reg"
    using False assoc_reg_front_spec(1) [of reg] by (auto simp: s_def n_def)
  define lb where "lb = lb_loop (reg_arr reg) s key 0 n"
  have "lb \<le> n \<and> (\<forall>i < n. b_key (reg_arr reg ! (s + i)) < key \<longleftrightarrow> i < lb)"
    unfolding lb_def using bucket_key_less [OF inv] s by (intro lb_loop_spec) auto
  then have lb: "lb \<le> n" "\<And>i. i < n \<Longrightarrow> b_key (reg_arr reg ! (s + i)) < key \<longleftrightarrow> i < lb"
    by auto
  have "int32_of (int n) = int n"
    using small s by (intro int32_of_id) auto
  have lbr: "lower_bound_reg reg s (reg_occ reg) key = Inr (s + lb)"
  proof -
    have "reg_occ reg - s = n" by (simp add: n_def)
    then show ?thesis
      using s inv \<open>int32_of (int n) = int n\<close>
      by (simp add: lower_bound_reg_def lb_def reg_inv_def)
  qed
  have miss: "b_key (reg_arr reg ! i) \<noteq> key"
    if "i < reg_occ reg" "b_has_value (reg_arr reg ! i)"
      "s + lb < reg_occ reg \<Longrightarrow> b_key (reg_arr reg ! (s + lb)) = key \<Longrightarrow> i \<noteq> s + lb" for i
  proof
    assume k: "b_key (reg_arr reg ! i) = key"
    have "s \<le> i" using that(2) assoc_reg_front_spec(2) [of i reg] by (force simp: s_def)
    then have j': "i = s + (i - s)" "i - s < n" using that(1) s by linarith+
    then obtain j where j: "i = s + j" "j < n" by blast
    then have "lb \<le> j" using lb(2) [of j] k by simp
    moreover have "\<not> lb < j"
    proof
      assume "lb < j"
      then have "b_key (reg_arr reg ! (s + lb)) < key"
        using bucket_key_less [OF inv, of "s + lb" i] j that(1) k by simp
      then show False using lb(2) [of lb] \<open>lb < j\<close> j by simp
    qed
    ultimately show False using that(1,3) j k by simp
  qed
  show ?thesis
  proof (cases "lb < n \<and> b_has_value (reg_arr reg ! (s + lb)) \<and> b_key (reg_arr reg ! (s + lb)) = key")
    case True
    then show ?thesis
      using that [of "s + lb"] lbr s key by (simp add: find_reg_def s_def [symmetric])
  next
    case False
    then have "find_reg reg s (reg_occ reg) key = Inr (reg_occ reg)"
      using lbr s key lb(1) by (auto simp: find_reg_def)
    moreover have "\<forall>i < reg_occ reg. b_has_value (reg_arr reg ! i) \<longrightarrow> b_key (reg_arr reg ! i) \<noteq> key"
      using miss False s by force
    ultimately show ?thesis
      using that [of "reg_occ reg"] by (simp add: s_def)
  qed
qed

section \<open>Deletion\<close>

lemma filter_split_at:
  "i < n \<Longrightarrow> n \<le> length xs \<Longrightarrow>
   filter p (take n xs) = filter p (take i xs) @ (if p (xs ! i) then [xs ! i] else []) @
     filter p (drop (Suc i) (take n xs))"
proof -
  assume "i < n" "n \<le> length xs"
  then have "take n xs = take i xs @ xs ! i # drop (Suc i) (take n xs)"
    using id_take_nth_drop [of i "take n xs"] by (simp add: min_def)
  then have "filter p (take n xs) = filter p (take i xs @ xs ! i # drop (Suc i) (take n xs))"
    by (rule arg_cong)
  then show ?thesis by simp
qed

definition kill :: "nat \<Rightarrow> 'a assoc_reg \<Rightarrow> 'a assoc_reg" where
  "kill i reg = reg\<lparr>reg_arr := (reg_arr reg)[i := (reg_arr reg ! i)\<lparr>b_has_value := False\<rparr>],
                    reg_sz := reg_sz reg - 1\<rparr>"

lemma kill_ok:
  assumes inv: "reg_inv reg" and i: "i < reg_occ reg" and live: "b_has_value (reg_arr reg ! i)"
  shows "reg_inv (kill i reg)"
    "reg_alist (kill i reg) = filter (\<lambda>(k, v). k \<noteq> b_key (reg_arr reg ! i)) (reg_alist reg)"
proof -
  define arr where "arr = (reg_arr reg)[i := (reg_arr reg ! i)\<lparr>b_has_value := False\<rparr>]"
  have len: "i < length (reg_arr reg)" "reg_occ reg \<le> length (reg_arr reg)"
    using inv i by (auto simp: reg_inv_def)
  have l: "reg_live reg = filter b_has_value (take i (reg_arr reg)) @ [reg_arr reg ! i] @
      filter b_has_value (drop (Suc i) (take (reg_occ reg) (reg_arr reg)))"
    using filter_split_at [OF i len(2)] live by (simp add: reg_live_def)
  have l': "reg_live (kill i reg) = filter b_has_value (take i (reg_arr reg)) @
      filter b_has_value (drop (Suc i) (take (reg_occ reg) (reg_arr reg)))"
    using filter_split_at [of i "reg_occ reg" arr b_has_value] i len
    by (simp add: reg_live_def kill_def arr_def [symmetric])
       (simp add: arr_def drop_take)
  have "map b_key (take (reg_occ reg) arr) = map b_key (take (reg_occ reg) (reg_arr reg))"
    using len i by (intro nth_equalityI) (auto simp: arr_def nth_list_update)
  moreover have "b \<in> set (take (reg_occ reg) arr) \<Longrightarrow>
      (\<exists>b' \<in> set (take (reg_occ reg) (reg_arr reg)). b_key b = b_key b' \<and> b_val b = b_val b' \<and>
        (b_has_value b \<longrightarrow> b_has_value b'))" for b
    using len i by (fastforce simp: arr_def in_set_conv_nth nth_list_update)
  ultimately have "buckets_ok (reg_key_id reg) (take (reg_occ reg) arr)"
    using inv unfolding reg_inv_def buckets_ok_def by metis
  then show "reg_inv (kill i reg)"
    using inv l l' by (simp add: reg_inv_def) (simp add: kill_def arr_def)
  have other: "b_key b \<noteq> b_key (reg_arr reg ! i)"
    if b: "b \<in> set (take i (reg_arr reg)) \<or> b \<in> set (drop (Suc i) (take (reg_occ reg) (reg_arr reg)))" for b
  proof -
    obtain j where "b = reg_arr reg ! j" "j < reg_occ reg" "j \<noteq> i"
      using b len i by (fastforce simp: in_set_conv_nth)
    then show ?thesis using bucket_key_inj [OF inv, of j i] i by auto
  qed
  have keep: "filter (\<lambda>b. b_key b \<noteq> b_key (reg_arr reg ! i)) (filter b_has_value bs) = filter b_has_value bs"
    if "\<And>b. b \<in> set bs \<Longrightarrow> b_key b \<noteq> b_key (reg_arr reg ! i)" for bs
    using that by (auto intro: filter_cong)
  have eq: "filter (\<lambda>b. b_key b \<noteq> b_key (reg_arr reg ! i)) (reg_live reg) = reg_live (kill i reg)"
    unfolding l l' filter_append using keep [OF other] by (simp del: filter_filter)
  show "reg_alist (kill i reg) = filter (\<lambda>(k, v). k \<noteq> b_key (reg_arr reg ! i)) (reg_alist reg)"
    unfolding reg_alist_def eq [symmetric] by (simp add: filter_map o_def)
qed

text \<open>Erasing one element, \<open>[it, next(it))\<close>, as every caller does.\<close>

lemma assoc_reg_erase_one:
  assumes inv: "reg_inv reg" and it: "it < reg_occ reg" and live: "b_has_value (reg_arr reg ! it)"
  shows "\<exists>nxt v reg'. assoc_reg_next reg it = Inr nxt \<and> assoc_reg_erase reg it nxt = Inr ([v], reg') \<and>
    b_val (reg_arr reg ! it) = Some v \<and> reg_inv reg' \<and>
    reg_alist reg' = filter (\<lambda>(k, v). k \<noteq> b_key (reg_arr reg ! it)) (reg_alist reg) \<and>
    reg_elm_sz reg' = reg_elm_sz reg \<and> reg_key_id reg' = reg_key_id reg"
proof -
  define nxt where "nxt = reg_scan (reg_arr reg) (it + 1) (reg_occ reg)"
  have nxt: "assoc_reg_next reg it = Inr nxt" "it < nxt"
    using assoc_reg_next_ok [OF inv it live] reg_scan_spec [of "it + 1" "reg_occ reg" "reg_arr reg"] it
    by (auto simp: nxt_def)
  obtain v where v: "b_val (reg_arr reg ! it) = Some v"
  proof -
    have "reg_arr reg ! it \<in> set (take (reg_occ reg) (reg_arr reg))"
      using inv it by (auto simp: reg_inv_def in_set_conv_nth)
    then show ?thesis using inv live that by (auto simp: reg_inv_def buckets_ok_def)
  qed
  obtain fuel where fuel: "reg_cap reg = Suc fuel" using inv it by (cases "reg_cap reg") (auto simp: reg_inv_def)
  have loop: "reg_erase_loop (reg_cap reg) reg it nxt = Inr ([v], kill it reg)"
    using nxt v
    by (simp add: fuel reg_erase_loop.simps [of "Suc fuel" reg it nxt] Let_def kill_def)
       (simp add: reg_erase_loop.simps)
  note k = kill_ok [OF inv it live]
  have kf: "reg_elm_sz (kill it reg) = reg_elm_sz reg" "reg_key_id (kill it reg) = reg_key_id reg"
    by (simp_all add: kill_def)
  obtain r1 where r1: "compact_if_necessary (kill it reg) = Inr r1" "reg_inv r1"
    "reg_alist r1 = reg_alist (kill it reg)" "reg_elm_sz r1 = reg_elm_sz reg"
    "reg_key_id r1 = reg_key_id reg"
    using compact_if_necessary_ok [OF k(1)] kf by auto
  obtain r2 where r2: "shrink_if_necessary r1 = Inr r2" "reg_inv r2"
    "reg_alist r2 = reg_alist r1" "reg_elm_sz r2 = reg_elm_sz reg"
    "reg_key_id r2 = reg_key_id reg"
    using shrink_if_necessary_ok [OF r1(2)] r1 by auto
  have "assoc_reg_erase reg it nxt = Inr ([v], r2)"
    using nxt it loop r1 r2 by (simp add: assoc_reg_erase_def iterator_in_ds_def)
  then show ?thesis
    using nxt v r1 r2 k by auto
qed

lemma reg_alist_mem:
  assumes "reg_inv reg"
  shows "(key, v) \<in> set (reg_alist reg) \<longleftrightarrow>
    (\<exists>i < reg_occ reg. b_has_value (reg_arr reg ! i) \<and> b_key (reg_arr reg ! i) = key \<and>
       b_val (reg_arr reg ! i) = Some v)"
proof -
  have "reg_occ reg \<le> length (reg_arr reg)" using assms by (simp add: reg_inv_def)
  moreover have "\<forall>b \<in> set (take (reg_occ reg) (reg_arr reg)). b_has_value b \<longrightarrow> b_val b \<noteq> None"
    using assms by (simp add: reg_inv_def buckets_ok_def)
  ultimately show ?thesis
    by (fastforce simp: reg_alist_def reg_live_def in_set_conv_nth)
qed

lemma distinct_reg_alist:
  assumes "reg_inv reg"
  shows "distinct (map fst (reg_alist reg))"
proof -
  have "sorted_wrt (<) (map b_key (reg_live reg))"
    using assms by (simp add: reg_inv_def buckets_ok_def reg_live_def sorted_wrt_map sorted_wrt_filter)
  then show ?thesis
    by (simp add: reg_alist_def o_def strict_sorted_iff)
qed

end
