(* ===== verification/Compare.thy ===== *)
theory Compare
  imports FlexRIC_Prelude "HOL-Library.List_Lexorder"
begin

text \<open>
  The comparison functions the containers are instantiated with. The containers order their keys
  by a function \<open>int (*comp)(const void*, const void*)\<close> and rely on three things: it returns
  1, 0 or -1, it is total on the keys in use, and it is a consistent order. The locale
  \<open>comparator\<close> states that contract: the keys in use have a rank in a linear order (lists of
  integers, compared from the left), 1 means ``comes before'' and 0 ``same rank''. This theory
  holds the contract and the comparisons of \<open>util/compare.h\<close>; the ones of the protocol's
  identifiers are in \<open>E2AP_Ids\<close>.
\<close>

section \<open>The contract of a comparison function\<close>

locale comparator =
  fixes comp :: "'k \<Rightarrow> 'k \<Rightarrow> int res"
    and valid :: "'k \<Rightarrow> bool"
    and rank :: "'k \<Rightarrow> int list"
  assumes comp_law: "valid x \<Longrightarrow> valid y \<Longrightarrow>
    comp x y = Inr (if rank x < rank y then 1 else if rank y < rank x then -1 else 0)"
begin

lemma comp_values: "valid x \<Longrightarrow> valid y \<Longrightarrow> \<exists>c \<in> {1, 0, -1}. comp x y = Inr c"
  by (simp add: comp_law)

lemma comp_left: "valid x \<Longrightarrow> valid y \<Longrightarrow> comp x y = Inr 1 \<longleftrightarrow> rank x < rank y"
  by (simp add: comp_law)

lemma comp_right: "valid x \<Longrightarrow> valid y \<Longrightarrow> comp x y = Inr (-1) \<longleftrightarrow> rank y < rank x"
  by (auto simp: comp_law)

lemma comp_same: "valid x \<Longrightarrow> valid y \<Longrightarrow> comp x y = Inr 0 \<longleftrightarrow> rank x = rank y"
  by (auto simp: comp_law)

lemma comp_swap:
  "valid x \<Longrightarrow> valid y \<Longrightarrow> comp x y = Inr c \<Longrightarrow> comp y x = Inr (- c)"
  by (auto simp: comp_law split: if_splits)

lemma comp_trans:
  "valid x \<Longrightarrow> valid y \<Longrightarrow> valid z \<Longrightarrow> comp x y = Inr 1 \<Longrightarrow> comp y z = Inr 1 \<Longrightarrow> comp x z = Inr 1"
  by (simp add: comp_left)

end

text \<open>An equality test that agrees with the comparison: what \<open>find_if\<close> needs to look up a key.\<close>

locale comparator_eq = comparator +
  fixes eq :: "'k \<Rightarrow> 'k \<Rightarrow> bool res"
  assumes eq_law: "valid x \<Longrightarrow> valid y \<Longrightarrow> eq x y = Inr (rank x = rank y)"
begin

lemma eq_comp: "valid x \<Longrightarrow> valid y \<Longrightarrow> eq x y = Inr True \<longleftrightarrow> comp x y = Inr 0"
  by (simp add: eq_law comp_same)

end

section \<open>Chains of tests\<close>

text \<open>
  Every comparison function is a chain of tests \<open>if(a < b) return lt; if(a > b) return gt;\<close>,
  one per field. \<open>before\<close> and \<open>after\<close> are the values for the two outcomes.
\<close>

definition cmp_step :: "int \<Rightarrow> int \<Rightarrow> 'w :: linorder \<Rightarrow> 'w \<Rightarrow> int res \<Rightarrow> int res" where
  "cmp_step lt gt a b k = (if a < b then Inr lt else if b < a then Inr gt else k)"

lemma cmp_step_up:
  "cmp_step 1 (-1) (a :: 'w :: len word) b k =
     (if uint a < uint b then Inr 1 else if uint b < uint a then Inr (-1) else k)"
  by (simp add: cmp_step_def word_less_def)

lemma cmp_step_down:
  "cmp_step (-1) 1 (a :: 'w :: len word) b k =
     (if - uint a < - uint b then Inr 1 else if - uint b < - uint a then Inr (-1) else k)"
  by (simp add: cmp_step_def word_less_def)

section \<open>\<open>util/compare.h\<close>\<close>

definition eq_fd :: "int \<Rightarrow> int \<Rightarrow> bool res" where
  "eq_fd fd1 fd2 = c_assert (fd1 > -1) (c_assert (fd2 > -1) (Inr (fd1 = fd2)))"

definition cmp_fd :: "int \<Rightarrow> int \<Rightarrow> int res" where
  "cmp_fd fd1 fd2 = c_assert (fd1 > -1) (c_assert (fd2 > -1)
     (Inr (if fd1 < fd2 then 1 else if fd1 = fd2 then 0 else -1)))"

definition eq_ran_func_id :: "u16 \<Rightarrow> u16 \<Rightarrow> bool res" where
  "eq_ran_func_id a b = Inr (a = b)"

definition cmp_ran_func_id :: "u16 \<Rightarrow> u16 \<Rightarrow> int res" where
  "cmp_ran_func_id a b = Inr (if a < b then 1 else if a = b then 0 else -1)"

interpretation fd: comparator_eq cmp_fd "\<lambda>fd. fd > -1" "\<lambda>fd. [fd]" eq_fd
  by unfold_locales (auto simp: cmp_fd_def eq_fd_def)

interpretation ran_func: comparator_eq cmp_ran_func_id "\<lambda>_. True" "\<lambda>f. [uint f]" eq_ran_func_id
  by unfold_locales (auto simp: cmp_ran_func_id_def eq_ran_func_id_def word_less_def)

end
