(* ===== verification/E2AP_Ids.thy ===== *)
theory E2AP_Ids
  imports Compare
begin

text \<open>
  The identifiers of the E2 protocol and their comparisons: the type of a RAN node
  (\<open>util/e2ap_ngran_types.h\<close>), the network and node identity
  (\<open>lib/e2ap/v2_03/e2ap_types/common/e2ap_plmn.c\<close>, \<open>e2ap_global_node_id.c\<close>,
  \<open>lib/3gpp/ie/e2ap_gnb_id.c\<close>), the request identifier (\<open>ric_gen_id.c\<close>) and the two keys
  of the iApp's maps (\<open>ric/iApp/xapp_ric_id.c\<close>, \<open>e2_node_ric_id.c\<close>). Copying a value is the
  identity in the model; the optional pointer \<open>cu_du_id\<close> is an option.
\<close>

section \<open>Node types\<close>

datatype ngran_node =
    ngran_eNB | ngran_ng_eNB | ngran_gNB | ngran_eNB_CU | ngran_ng_eNB_CU | ngran_gNB_CU
  | ngran_eNB_DU | ngran_gNB_DU | ngran_eNB_MBMS_STA | ngran_gNB_CUCP | ngran_gNB_CUUP

fun ngran_code :: "ngran_node \<Rightarrow> nat" where
  "ngran_code ngran_eNB = 0"
| "ngran_code ngran_ng_eNB = 1"
| "ngran_code ngran_gNB = 2"
| "ngran_code ngran_eNB_CU = 3"
| "ngran_code ngran_ng_eNB_CU = 4"
| "ngran_code ngran_gNB_CU = 5"
| "ngran_code ngran_eNB_DU = 6"
| "ngran_code ngran_gNB_DU = 7"
| "ngran_code ngran_eNB_MBMS_STA = 8"
| "ngran_code ngran_gNB_CUCP = 9"
| "ngran_code ngran_gNB_CUUP = 10"

lemma ngran_code_inj: "ngran_code a = ngran_code b \<longleftrightarrow> a = b"
  by (cases a; cases b) simp_all

text \<open>The C code compares node types as the integers of the enumeration.\<close>

instantiation ngran_node :: linorder
begin

definition less_eq_ngran_node :: "ngran_node \<Rightarrow> ngran_node \<Rightarrow> bool" where
  "less_eq_ngran_node a b \<longleftrightarrow> ngran_code a \<le> ngran_code b"

definition less_ngran_node :: "ngran_node \<Rightarrow> ngran_node \<Rightarrow> bool" where
  "less_ngran_node a b \<longleftrightarrow> ngran_code a < ngran_code b"

instance
  by standard (auto simp: less_eq_ngran_node_def less_ngran_node_def ngran_code_inj)

end

definition E2AP_NODE_IS_CU :: "ngran_node \<Rightarrow> bool" where
  "E2AP_NODE_IS_CU t \<longleftrightarrow>
     t \<in> {ngran_eNB_CU, ngran_ng_eNB_CU, ngran_gNB_CU, ngran_gNB_CUCP, ngran_gNB_CUUP}"

definition E2AP_NODE_IS_DU :: "ngran_node \<Rightarrow> bool" where
  "E2AP_NODE_IS_DU t \<longleftrightarrow> t \<in> {ngran_eNB_DU, ngran_gNB_DU}"

definition E2AP_NODE_IS_CUUP :: "ngran_node \<Rightarrow> bool" where
  "E2AP_NODE_IS_CUUP t \<longleftrightarrow> t = ngran_gNB_CUUP"

definition E2AP_NODE_IS_MONOLITHIC :: "ngran_node \<Rightarrow> bool" where
  "E2AP_NODE_IS_MONOLITHIC t \<longleftrightarrow> t \<in> {ngran_eNB, ngran_ng_eNB, ngran_gNB}"

fun get_e2ap_ngran_name :: "ngran_node \<Rightarrow> string" where
  "get_e2ap_ngran_name ngran_eNB = ''ngran_eNB''"
| "get_e2ap_ngran_name ngran_ng_eNB = ''ngran_ng_eNB''"
| "get_e2ap_ngran_name ngran_gNB = ''ngran_gNB''"
| "get_e2ap_ngran_name ngran_eNB_CU = ''ngran_eNB_CU''"
| "get_e2ap_ngran_name ngran_ng_eNB_CU = ''ngran_ng_eNB_CU''"
| "get_e2ap_ngran_name ngran_gNB_CU = ''ngran_gNB_CU''"
| "get_e2ap_ngran_name ngran_eNB_DU = ''ngran_eNB_DU''"
| "get_e2ap_ngran_name ngran_gNB_DU = ''ngran_gNB_DU''"
| "get_e2ap_ngran_name ngran_eNB_MBMS_STA = ''ngran_eNB_MBMS_STA''"
| "get_e2ap_ngran_name ngran_gNB_CUCP = ''ngran_gNB_CUCP''"
| "get_e2ap_ngran_name ngran_gNB_CUUP = ''ngran_gNB_CUUP''"

lemma ngran_name_inj: "get_e2ap_ngran_name a = get_e2ap_ngran_name b \<longleftrightarrow> a = b"
  by (cases a; cases b) simp_all

section \<open>Network and node identity\<close>

record e2ap_plmn =
  mcc :: u16
  mnc :: u16
  mnc_digit_len :: u8

definition cp_e2ap_plmn :: "e2ap_plmn \<Rightarrow> e2ap_plmn" where
  "cp_e2ap_plmn src = \<lparr>mcc = mcc src, mnc = mnc src, mnc_digit_len = mnc_digit_len src\<rparr>"

definition eq_e2ap_plmn :: "e2ap_plmn \<Rightarrow> e2ap_plmn \<Rightarrow> bool" where
  "eq_e2ap_plmn m0 m1 =
     (if mcc m0 \<noteq> mcc m1 then False
      else if mnc m0 \<noteq> mnc m1 then False
      else if mnc_digit_len m0 \<noteq> mnc_digit_len m1 then False
      else True)"

definition cmp_e2ap_plmn :: "e2ap_plmn \<Rightarrow> e2ap_plmn \<Rightarrow> int res" where
  "cmp_e2ap_plmn m0 m1 =
     cmp_step (-1) 1 (mcc m0) (mcc m1)
      (cmp_step (-1) 1 (mnc m0) (mnc m1)
        (cmp_step (-1) 1 (mnc_digit_len m0) (mnc_digit_len m1) (Inr 0)))"

record e2ap_gnb_id =
  nb_id :: u32
  unused :: u32

definition eq_e2ap_gnb_id :: "e2ap_gnb_id \<Rightarrow> e2ap_gnb_id \<Rightarrow> bool" where
  "eq_e2ap_gnb_id m0 m1 =
     (if nb_id m0 \<noteq> nb_id m1 then False else if unused m0 \<noteq> unused m1 then False else True)"

record global_e2_node_id =
  gn_type :: ngran_node
  gn_plmn :: e2ap_plmn
  gn_nb_id :: e2ap_gnb_id
  gn_cu_du_id :: "u64 option"

definition cp_global_e2_node_id :: "global_e2_node_id \<Rightarrow> global_e2_node_id" where
  "cp_global_e2_node_id src =
     \<lparr>gn_type = gn_type src, gn_plmn = cp_e2ap_plmn (gn_plmn src), gn_nb_id = gn_nb_id src,
      gn_cu_du_id = (case gn_cu_du_id src of None \<Rightarrow> None | Some i \<Rightarrow> Some i)\<rparr>"

definition is_split :: "global_e2_node_id \<Rightarrow> bool" where
  "is_split m \<longleftrightarrow> E2AP_NODE_IS_CU (gn_type m) \<or> E2AP_NODE_IS_CUUP (gn_type m) \<or> E2AP_NODE_IS_DU (gn_type m)"

definition eq_global_e2_node_id :: "global_e2_node_id \<Rightarrow> global_e2_node_id \<Rightarrow> bool res" where
  "eq_global_e2_node_id m0 m1 =
     (if gn_type m0 \<noteq> gn_type m1 then Inr False
      else if \<not> eq_e2ap_plmn (gn_plmn m0) (gn_plmn m1) then Inr False
      else if \<not> eq_e2ap_gnb_id (gn_nb_id m0) (gn_nb_id m1) then Inr False
      else if is_split m0 then
        (case (gn_cu_du_id m0, gn_cu_du_id m1) of
           (Some a, Some b) \<Rightarrow> Inr (a = b)
         | _ \<Rightarrow> Inl AssertFailed)
      else Inr True)"

definition cmp_global_e2_node_id :: "global_e2_node_id \<Rightarrow> global_e2_node_id \<Rightarrow> int res" where
  "cmp_global_e2_node_id m0 m1 =
     cmp_step (-1) 1 (gn_type m0) (gn_type m1)
      (bind_res (cmp_e2ap_plmn (gn_plmn m0) (gn_plmn m1))
        (\<lambda>rc. if rc \<noteq> 0 then Inr rc else
          cmp_step (-1) 1 (nb_id (gn_nb_id m0)) (nb_id (gn_nb_id m1))
           (cmp_step 1 (-1) (unused (gn_nb_id m0)) (unused (gn_nb_id m1))
             (if is_split m0 then
                (case (gn_cu_du_id m0, gn_cu_du_id m1) of
                   (Some a, Some b) \<Rightarrow> cmp_step (-1) 1 a b (Inr 0)
                 | _ \<Rightarrow> Inl AssertFailed)
              else Inr 0))))"

text \<open>\<open>sizeof(global_e2_node_id_t)\<close>; the containers only compare it with itself.\<close>

definition NODE_ID_SZ :: nat where
  "NODE_ID_SZ = 32"

text \<open>The node identities that may be compared: a CU or DU has its identifier.\<close>

definition valid_node_id :: "global_e2_node_id \<Rightarrow> bool" where
  "valid_node_id m \<longleftrightarrow> (is_split m \<longrightarrow> gn_cu_du_id m \<noteq> None)"

definition plmn_rank :: "e2ap_plmn \<Rightarrow> int list" where
  "plmn_rank m = [- uint (mcc m), - uint (mnc m), - uint (mnc_digit_len m)]"

definition node_id_rank :: "global_e2_node_id \<Rightarrow> int list" where
  "node_id_rank m =
     [- int (ngran_code (gn_type m))] @ plmn_rank (gn_plmn m) @
     [- uint (nb_id (gn_nb_id m)), uint (unused (gn_nb_id m)),
      (if is_split m then - uint (the (gn_cu_du_id m)) else 0)]"

lemma cmp_step_type:
  "cmp_step (-1) 1 (a :: ngran_node) b k =
     (if - int (ngran_code a) < - int (ngran_code b) then Inr 1
      else if - int (ngran_code b) < - int (ngran_code a) then Inr (-1) else k)"
  by (simp add: cmp_step_def less_ngran_node_def)

interpretation plmn: comparator cmp_e2ap_plmn "\<lambda>_. True" plmn_rank
  by unfold_locales (auto simp: cmp_e2ap_plmn_def plmn_rank_def cmp_step_down)

lemma is_split_type: "gn_type m0 = gn_type m1 \<Longrightarrow> is_split m0 = is_split m1"
  by (simp add: is_split_def)

lemma eq_plmn_rank: "eq_e2ap_plmn a b \<longleftrightarrow> plmn_rank a = plmn_rank b"
  by (auto simp: eq_e2ap_plmn_def plmn_rank_def)

lemma plmn_rank_less:
  "plmn_rank a @ xs < plmn_rank b @ ys \<longleftrightarrow> plmn_rank a < plmn_rank b \<or> (plmn_rank a = plmn_rank b \<and> xs < ys)"
  by (auto simp: plmn_rank_def)

lemma plmn_rank_eq:
  "plmn_rank a @ xs = plmn_rank b @ ys \<longleftrightarrow> plmn_rank a = plmn_rank b \<and> xs = ys"
  by (auto simp: plmn_rank_def)

interpretation node_id: comparator_eq cmp_global_e2_node_id valid_node_id node_id_rank
  eq_global_e2_node_id
proof (unfold_locales, goal_cases)
  case (1 x y)
  consider "ngran_code (gn_type x) \<noteq> ngran_code (gn_type y)" | "gn_type x = gn_type y"
    by (auto simp: ngran_code_inj)
  then show ?case
  proof cases
    case 1
    then show ?thesis by (auto simp: cmp_global_e2_node_id_def node_id_rank_def cmp_step_type)
  next
    case 2
    from 1 is_split_type [OF 2] 2 show ?thesis
      by (auto simp: cmp_global_e2_node_id_def node_id_rank_def cmp_step_type cmp_step_up cmp_step_down
          plmn.comp_law plmn_rank_less plmn_rank_eq valid_node_id_def)
  qed
next
  case (2 x y)
  then show ?case
    by (auto simp: eq_global_e2_node_id_def node_id_rank_def eq_plmn_rank plmn_rank_eq
        eq_e2ap_gnb_id_def valid_node_id_def ngran_code_inj dest: is_split_type)
qed

lemma cp_global_e2_node_id_id [simp]: "cp_global_e2_node_id m = m"
  by (simp add: cp_global_e2_node_id_def cp_e2ap_plmn_def split: option.splits)

section \<open>Request identifiers\<close>

record ric_gen_id =
  ric_req_id :: u32
  ric_inst_id :: u16
  ran_func_id :: u16

definition eq_ric_gen_id :: "ric_gen_id \<Rightarrow> ric_gen_id \<Rightarrow> bool res" where
  "eq_ric_gen_id m0 m1 = Inr (ric_req_id m0 = ric_req_id m1 \<and> ric_inst_id m0 = ric_inst_id m1 \<and>
     ran_func_id m0 = ran_func_id m1)"

definition cmp_ric_gen_id :: "ric_gen_id \<Rightarrow> ric_gen_id \<Rightarrow> int res" where
  "cmp_ric_gen_id m0 m1 =
     cmp_step 1 (-1) (ran_func_id m0) (ran_func_id m1)
      (cmp_step 1 (-1) (ric_inst_id m0) (ric_inst_id m1)
        (cmp_step 1 (-1) (ric_req_id m0) (ric_req_id m1) (Inr 0)))"

definition ric_gen_rank :: "ric_gen_id \<Rightarrow> int list" where
  "ric_gen_rank m = [uint (ran_func_id m), uint (ric_inst_id m), uint (ric_req_id m)]"

interpretation ric_gen: comparator_eq cmp_ric_gen_id "\<lambda>_. True" ric_gen_rank eq_ric_gen_id
  by unfold_locales
     (auto simp: cmp_ric_gen_id_def eq_ric_gen_id_def ric_gen_rank_def cmp_step_up)

lemma ric_gen_rank_inj: "ric_gen_rank a = ric_gen_rank b \<longleftrightarrow> a = b"
  by (auto simp: ric_gen_rank_def intro: ric_gen_id.equality)

section \<open>The keys of the iApp's maps\<close>

record xapp_ric_id =
  xr_ric_id :: ric_gen_id
  xr_xapp_id :: u16

definition cmp_xapp_ric_gen_id :: "xapp_ric_id \<Rightarrow> xapp_ric_id \<Rightarrow> int res" where
  "cmp_xapp_ric_gen_id m0 m1 =
     cmp_step 1 (-1) (xr_xapp_id m0) (xr_xapp_id m1) (cmp_ric_gen_id (xr_ric_id m0) (xr_ric_id m1))"

definition eq_xapp_id :: "u16 \<Rightarrow> u16 \<Rightarrow> bool" where
  "eq_xapp_id m0 m1 = (if m0 \<noteq> m1 then False else True)"

text \<open>The test as the code has it: it compares the xApp of \<open>m0\<close> with itself.\<close>

definition eq_xapp_ric_gen_id :: "xapp_ric_id \<Rightarrow> xapp_ric_id \<Rightarrow> bool res" where
  "eq_xapp_ric_gen_id m0 m1 =
     (if \<not> eq_xapp_id (xr_xapp_id m0) (xr_xapp_id m0) then Inr False
      else eq_ric_gen_id (xr_ric_id m0) (xr_ric_id m1))"

definition eq_xapp_id_gen_wrapper :: "xapp_ric_id \<Rightarrow> xapp_ric_id \<Rightarrow> bool res" where
  "eq_xapp_id_gen_wrapper m0 m1 = Inr (xr_xapp_id m0 = xr_xapp_id m1)"

definition xapp_ric_rank :: "xapp_ric_id \<Rightarrow> int list" where
  "xapp_ric_rank m = uint (xr_xapp_id m) # ric_gen_rank (xr_ric_id m)"

interpretation xapp_ric: comparator cmp_xapp_ric_gen_id "\<lambda>_. True" xapp_ric_rank
  by unfold_locales
     (auto simp: cmp_xapp_ric_gen_id_def xapp_ric_rank_def cmp_step_up ric_gen.comp_law)

lemma xapp_ric_rank_inj: "xapp_ric_rank a = xapp_ric_rank b \<longleftrightarrow> a = b"
  by (auto simp: xapp_ric_rank_def ric_gen_rank_inj intro: xapp_ric_id.equality)

lemma eq_xapp_ric_gen_id_eq: "eq_xapp_ric_gen_id a b = Inr (xr_ric_id a = xr_ric_id b)"
  by (auto simp: eq_xapp_ric_gen_id_def eq_xapp_id_def eq_ric_gen_id_def intro: ric_gen_id.equality)

datatype ric_request_type = SUBSCRIPTION_RIC_REQUEST_TYPE | CONTROL_RIC_REQUEST_TYPE | END_RIC_REQUEST_TYPE

record e2_node_ric_id =
  en_e2_node_id :: global_e2_node_id
  en_ric_id :: ric_gen_id
  en_ric_req_type :: ric_request_type

definition cp_e2_node_ric_id :: "e2_node_ric_id \<Rightarrow> e2_node_ric_id" where
  "cp_e2_node_ric_id src =
     \<lparr>en_e2_node_id = cp_global_e2_node_id (en_e2_node_id src), en_ric_id = en_ric_id src,
      en_ric_req_type = en_ric_req_type src\<rparr>"

lemma cp_e2_node_ric_id_id [simp]: "cp_e2_node_ric_id m = m"
  by (simp add: cp_e2_node_ric_id_def)

text \<open>\<open>ric/iApp/map_ric_id.c\<close> orders and tests these keys by their request number alone.\<close>

definition cmp_uint32 :: "u32 \<Rightarrow> u32 \<Rightarrow> int res" where
  "cmp_uint32 m0 m1 = Inr (if m0 < m1 then -1 else if m0 = m1 then 0 else 1)"

definition cmp_e2_node_ric_req_wrapper :: "e2_node_ric_id \<Rightarrow> e2_node_ric_id \<Rightarrow> int res" where
  "cmp_e2_node_ric_req_wrapper m0 m1 = cmp_uint32 (ric_req_id (en_ric_id m0)) (ric_req_id (en_ric_id m1))"

definition eq_e2_node_ric_req :: "e2_node_ric_id \<Rightarrow> e2_node_ric_id \<Rightarrow> bool res" where
  "eq_e2_node_ric_req m0 m1 = Inr (ric_req_id (en_ric_id m0) = ric_req_id (en_ric_id m1))"

definition e2_node_ric_rank :: "e2_node_ric_id \<Rightarrow> int list" where
  "e2_node_ric_rank m = [- uint (ric_req_id (en_ric_id m))]"

interpretation e2_node_ric: comparator_eq cmp_e2_node_ric_req_wrapper "\<lambda>_. True" e2_node_ric_rank
  eq_e2_node_ric_req
  by unfold_locales
     (auto simp: cmp_e2_node_ric_req_wrapper_def cmp_uint32_def eq_e2_node_ric_req_def
        e2_node_ric_rank_def word_less_def)

section \<open>Properties\<close>

text \<open>Two kinds of nodes to apply the theorems to: a monolithic gNB and a DU.\<close>

definition sample_gnb :: "u32 \<Rightarrow> global_e2_node_id" where
  "sample_gnb n = \<lparr>gn_type = ngran_gNB, gn_plmn = \<lparr>mcc = 505, mnc = 1, mnc_digit_len = 2\<rparr>,
     gn_nb_id = \<lparr>nb_id = n, unused = 0\<rparr>, gn_cu_du_id = None\<rparr>"

definition sample_du :: "u64 \<Rightarrow> global_e2_node_id" where
  "sample_du n = \<lparr>gn_type = ngran_gNB_DU, gn_plmn = \<lparr>mcc = 505, mnc = 1, mnc_digit_len = 2\<rparr>,
     gn_nb_id = \<lparr>nb_id = 1, unused = 0\<rparr>, gn_cu_du_id = Some n\<rparr>"

lemma valid_sample [simp]: "valid_node_id (sample_gnb n)" "valid_node_id (sample_du k)"
  by (simp_all add: valid_node_id_def is_split_def sample_du_def sample_gnb_def E2AP_NODE_IS_CU_def
      E2AP_NODE_IS_CUUP_def E2AP_NODE_IS_DU_def)

text \<open>C29: \<open>cmp_global_e2_node_id\<close> is a total order on the identities of E2 nodes (a CU or DU
  with its identifier): antisymmetric, transitive, and 0 exactly when \<open>eq_global_e2_node_id\<close> says
  that the two are the same node. This is what a tree keyed by node identities needs.\<close>

theorem node_id_total_order:
  assumes "valid_node_id a" "valid_node_id b" "valid_node_id c"
  shows "(\<exists>r \<in> {1, 0, -1}. cmp_global_e2_node_id a b = Inr r \<and> cmp_global_e2_node_id b a = Inr (- r) \<and>
      (r = 0 \<longleftrightarrow> eq_global_e2_node_id a b = Inr True)) \<and>
    (cmp_global_e2_node_id a b = Inr 1 \<and> cmp_global_e2_node_id b c = Inr 1 \<longrightarrow>
      cmp_global_e2_node_id a c = Inr 1)"
  using node_id.comp_values [OF assms(1,2)] node_id.comp_swap [OF assms(1,2)]
    node_id.eq_comp [OF assms(1,2)] node_id.comp_trans [OF assms] by auto

theorem node_id_total_order_witness:
  "cmp_global_e2_node_id (sample_du 7) (sample_gnb 1) = Inr 1 \<and>
   cmp_global_e2_node_id (sample_gnb 1) (sample_du 7) = Inr (-1)"
proof -
  have "cmp_global_e2_node_id (sample_du 7) (sample_du 5) = Inr 1"
    "cmp_global_e2_node_id (sample_du 5) (sample_gnb 1) = Inr 1"
    by (simp_all add: cmp_global_e2_node_id_def sample_du_def sample_gnb_def cmp_step_def is_split_def
        cmp_e2ap_plmn_def less_ngran_node_def E2AP_NODE_IS_CU_def E2AP_NODE_IS_CUUP_def E2AP_NODE_IS_DU_def)
  then have "cmp_global_e2_node_id (sample_du 7) (sample_gnb 1) = Inr 1"
    using node_id_total_order [of "sample_du 7" "sample_du 5" "sample_gnb 1"] by simp
  then show ?thesis
    using node_id_total_order [of "sample_du 7" "sample_gnb 1" "sample_gnb 1"] by auto
qed

text \<open>The identifiers that two different xApps give to the same RIC request are different
  keys for the ordering of the iApp's map but pass for equal in \<open>eq_xapp_ric_gen_id\<close>: its test
  of the xApp compares the first argument with itself.\<close>

theorem eq_xapp_ric_gen_id_confuses:
  assumes "xr_xapp_id a \<noteq> xr_xapp_id b" "xr_ric_id a = xr_ric_id b"
  shows "eq_xapp_ric_gen_id a b = Inr True \<and> cmp_xapp_ric_gen_id a b \<noteq> Inr 0"
  using assms by (simp add: eq_xapp_ric_gen_id_eq xapp_ric.comp_same xapp_ric_rank_inj) metis

theorem eq_xapp_ric_gen_id_confuses_witness:
  "eq_xapp_ric_gen_id \<lparr>xr_ric_id = \<lparr>ric_req_id = 1, ric_inst_id = 0, ran_func_id = 142\<rparr>, xr_xapp_id = 7\<rparr>
     \<lparr>xr_ric_id = \<lparr>ric_req_id = 1, ric_inst_id = 0, ran_func_id = 142\<rparr>, xr_xapp_id = 8\<rparr> = Inr True"
  using eq_xapp_ric_gen_id_confuses
    [of "\<lparr>xr_ric_id = \<lparr>ric_req_id = 1, ric_inst_id = 0, ran_func_id = 142\<rparr>, xr_xapp_id = 7\<rparr>"
        "\<lparr>xr_ric_id = \<lparr>ric_req_id = 1, ric_inst_id = 0, ran_func_id = 142\<rparr>, xr_xapp_id = 8\<rparr>"] by simp

end
