(* ===== verification/Act_Proc.thy ===== *)
theory Act_Proc
  imports Assoc_Reg E2AP_Ids
begin

text \<open>
  The table of active procedures of the xApp (\<open>xApp/act_proc.c\<close>): every subscription or control
  procedure gets its request number from the registry \<open>assoc_reg_t\<close>. The interface of a registry
  that hands out keys is the locale \<open>key_registry\<close>. Each operation runs under the mutex of the
  table, from its first access to its last, so operations are functions on its state. Deleting frees
  only the optional \<open>cu_du_id\<close> of the stored node identity, which the model does not track.
\<close>

section \<open>The interface of a registry\<close>

locale key_registry =
  fixes entries :: "'r \<Rightarrow> ('k \<times> 'v) list"
    and inv :: "'r \<Rightarrow> bool"
    and room :: "'r \<Rightarrow> bool"
    and key_ok :: "'k \<Rightarrow> bool"
    and push :: "'r \<Rightarrow> 'v \<Rightarrow> ('k \<times> 'r) res"
    and look :: "'r \<Rightarrow> 'k \<Rightarrow> 'v option res"
    and del :: "'r \<Rightarrow> 'k \<Rightarrow> 'r res"
  assumes distinct_law: "inv r \<Longrightarrow> distinct (map fst (entries r))"
    and push_law: "inv r \<Longrightarrow> room r \<Longrightarrow> \<exists>k r'. push r v = Inr (k, r') \<and> inv r' \<and> key_ok k \<and>
      k \<notin> fst ` set (entries r) \<and> entries r' = entries r @ [(k, v)]"
    and look_law: "inv r \<Longrightarrow> room r \<Longrightarrow> key_ok k \<Longrightarrow> look r k = Inr (map_of (entries r) k)"
    and del_law: "inv r \<Longrightarrow> room r \<Longrightarrow> key_ok k \<Longrightarrow> map_of (entries r) k \<noteq> None \<Longrightarrow>
      \<exists>r'. del r k = Inr r' \<and> inv r' \<and> entries r' = filter (\<lambda>(k', v). k' \<noteq> k) (entries r)"
    and del_missing_law: "inv r \<Longrightarrow> room r \<Longrightarrow> key_ok k \<Longrightarrow> map_of (entries r) k = None \<Longrightarrow>
      del r k = Inl AssertFailed"
begin

lemma look_pushed:
  assumes "inv r" "room r" "push r v = Inr (k, r')" "room r'"
  shows "look r' k = Inr (Some v)"
proof -
  from push_law [OF assms(1,2), of v] assms(3)
  have r': "inv r'" "key_ok k" "k \<notin> fst ` set (entries r)" "entries r' = entries r @ [(k, v)]"
    by auto
  moreover have "map_of (entries r) k = None"
    using r'(3) by (simp add: map_of_eq_None_iff)
  ultimately show ?thesis using look_law [OF r'(1) assms(4) r'(2)] by (simp add: map_add_def)
qed

lemma look_other:
  assumes "inv r" "room r" "push r v = Inr (k, r')" "room r'" "key_ok k'" "k' \<noteq> k"
  shows "look r' k' = look r k'"
proof -
  from push_law [OF assms(1,2), of v] assms(3)
  have r': "inv r'" "entries r' = entries r @ [(k, v)]" by auto
  then show ?thesis
    using look_law [OF r'(1) assms(4,5)] look_law [OF assms(1,2,5)] assms(6)
    by (simp add: map_add_def split: option.splits)
qed

lemma del_pushed:
  assumes "inv r" "room r" "push r v = Inr (k, r')" "room r'"
  shows "\<exists>r''. del r' k = Inr r'' \<and> inv r'' \<and> entries r'' = entries r"
proof -
  from push_law [OF assms(1,2), of v] assms(3)
  have r': "inv r'" "key_ok k" "k \<notin> fst ` set (entries r)" "entries r' = entries r @ [(k, v)]"
    by auto
  have "map_of (entries r') k \<noteq> None" by (simp add: r'(4) map_add_def split: option.splits)
  from del_law [OF r'(1) assms(4) r'(2) this] obtain r'' where r'':
    "del r' k = Inr r''" "inv r''" "entries r'' = filter (\<lambda>(k', v). k' \<noteq> k) (entries r')" by blast
  moreover have "filter (\<lambda>(k', v). k' \<noteq> k) (entries r) = entries r"
    using r'(3) by (force simp: filter_id_conv)
  ultimately show ?thesis by (simp add: r'(4))
qed

lemma look_deleted:
  assumes "inv r" "room r" "key_ok k" "del r k = Inr r'" "room r'"
  shows "look r' k = Inr None"
proof -
  have "map_of (entries r) k \<noteq> None"
    using del_missing_law [OF assms(1-3)] assms(4) by auto
  from del_law [OF assms(1-3) this] assms(4)
  have r': "inv r'" "entries r' = filter (\<lambda>(k', v). k' \<noteq> k) (entries r)" by auto
  then have "map_of (entries r') k = None"
    by (auto simp: map_of_eq_None_iff)
  then show ?thesis using look_law [OF r'(1) assms(5,3)] by simp
qed

end

section \<open>The registry provides it\<close>

text \<open>The look-up and the deletion the clients write out: front, end, \<open>find_reg\<close>, then the call.\<close>

definition reg_iter :: "'a assoc_reg \<Rightarrow> u32 \<Rightarrow> nat res" where
  "reg_iter reg key = find_reg reg (assoc_reg_front reg) (assoc_reg_end reg) key"

definition reg_lookup :: "'a assoc_reg \<Rightarrow> u32 \<Rightarrow> 'a option res" where
  "reg_lookup reg key =
     bind_res (reg_iter reg key) (\<lambda>it.
       if it = assoc_reg_end reg then Inr None else map_res Some (assoc_reg_value reg it))"

definition reg_delete :: "'a assoc_reg \<Rightarrow> u32 \<Rightarrow> 'a assoc_reg res" where
  "reg_delete reg key =
     bind_res (reg_iter reg key) (\<lambda>it.
       c_assert (it \<noteq> assoc_reg_end reg)
        (bind_res (assoc_reg_next reg it) (\<lambda>nxt. map_res snd (assoc_reg_erase reg it nxt))))"

definition reg_room :: "'a assoc_reg \<Rightarrow> bool" where
  "reg_room reg \<longleftrightarrow> reg_occ reg < 2 ^ 31 \<and> unat (reg_key_id reg) < 2 ^ 32"

lemma reg_iter_cases:
  assumes inv: "reg_inv reg" and room: "reg_room reg" and key: "0 < key"
  shows "(map_of (reg_alist reg) key = None \<and> reg_iter reg key = Inr (reg_occ reg)) \<or>
    (\<exists>it v. reg_iter reg key = Inr it \<and> it < reg_occ reg \<and> b_has_value (reg_arr reg ! it) \<and>
       b_key (reg_arr reg ! it) = key \<and> b_val (reg_arr reg ! it) = Some v \<and>
       map_of (reg_alist reg) key = Some v)"
proof -
  have small: "reg_occ reg < 2 ^ 31" using room by (simp add: reg_room_def)
  obtain it where it: "reg_iter reg key = Inr it" "it \<le> reg_occ reg"
    "it < reg_occ reg \<Longrightarrow> b_has_value (reg_arr reg ! it) \<and> b_key (reg_arr reg ! it) = key"
    "it = reg_occ reg \<Longrightarrow>
       \<forall>i < reg_occ reg. b_has_value (reg_arr reg ! i) \<longrightarrow> b_key (reg_arr reg ! i) \<noteq> key"
    using find_reg_ok [OF inv small key] by (auto simp: reg_iter_def assoc_reg_end_def)
  show ?thesis
  proof (cases "it = reg_occ reg")
    case True
    then have "(key, v) \<notin> set (reg_alist reg)" for v
      using it(4) reg_alist_mem [OF inv, of key v] by auto
    then have "map_of (reg_alist reg) key = None"
      by (force simp: map_of_eq_None_iff)
    then show ?thesis using it True by simp
  next
    case False
    with it have lt: "it < reg_occ reg" by simp
    then obtain v where v: "b_val (reg_arr reg ! it) = Some v"
      using inv it(3) by (fastforce simp: reg_inv_def buckets_ok_def in_set_conv_nth)
    then have "(key, v) \<in> set (reg_alist reg)"
      using it(3) lt reg_alist_mem [OF inv] by blast
    then have "map_of (reg_alist reg) key = Some v"
      using distinct_reg_alist [OF inv] by simp
    then show ?thesis using it lt v by blast
  qed
qed

lemma unat_ucast_key: "unat w < 2 ^ 32 \<Longrightarrow> unat (ucast (w :: u64) :: u32) = unat w"
  by (simp add: unsigned_ucast_eq take_bit_nat_eq_self_iff)

lemma fresh_key:
  assumes "reg_inv reg" "unat (reg_key_id reg) < 2 ^ 32"
  shows "ucast (reg_key_id reg) \<notin> fst ` set (reg_alist reg)"
proof
  assume "ucast (reg_key_id reg) \<in> fst ` set (reg_alist reg)"
  then obtain v where "(ucast (reg_key_id reg), v) \<in> set (reg_alist reg)" by force
  then obtain i where i: "i < reg_occ reg" "b_key (reg_arr reg ! i) = ucast (reg_key_id reg)"
    using reg_alist_mem [OF assms(1)] by blast
  have "reg_arr reg ! i \<in> set (take (reg_occ reg) (reg_arr reg))"
    using assms(1) i(1) by (auto simp: in_set_conv_nth reg_inv_def)
  then have "unat (b_key (reg_arr reg ! i)) < unat (reg_key_id reg)"
    using assms(1) by (simp add: reg_inv_def buckets_ok_def)
  then show False using i(2) unat_ucast_key [OF assms(2)] by simp
qed

interpretation reg: key_registry reg_alist "\<lambda>r. reg_inv r \<and> reg_elm_sz r = elm_sz" reg_room
  "\<lambda>key. 0 < key" "\<lambda>r v. assoc_reg_push_back r v elm_sz" reg_lookup reg_delete
proof (unfold_locales, goal_cases)
  case (1 r)
  then show ?case by (simp add: distinct_reg_alist)
next
  case (2 r v)
  then have id: "unat (reg_key_id r) < 2 ^ 32" by (simp add: reg_room_def)
  have "1 \<le> unat (ucast (reg_key_id r) :: u32)"
    using 2 unat_ucast_key [OF id] by (simp add: reg_inv_def)
  then have "0 < (ucast (reg_key_id r) :: u32)"
    by (simp add: word_less_nat_alt)
  then show ?case
    using assoc_reg_push_back_ok [of r elm_sz v] fresh_key [of r] id 2 by auto
next
  case (3 r key)
  then consider "map_of (reg_alist r) key = None" "reg_iter r key = Inr (reg_occ r)"
    | it v where "reg_iter r key = Inr it" "it < reg_occ r" "b_has_value (reg_arr r ! it)"
      "b_val (reg_arr r ! it) = Some v" "map_of (reg_alist r) key = Some v"
    using reg_iter_cases [of r key] by auto
  then show ?case
    by cases (simp_all add: reg_lookup_def assoc_reg_end_def assoc_reg_value_def iterator_in_ds_def)
next
  case (4 r key)
  then obtain it where "reg_iter r key = Inr it" "it < reg_occ r" "b_has_value (reg_arr r ! it)"
    "b_key (reg_arr r ! it) = key"
    using reg_iter_cases [of r key] by auto
  then show ?case
    using assoc_reg_erase_one [of r it] 4
    by (auto simp: reg_delete_def assoc_reg_end_def)
next
  case (5 r key)
  then show ?case
    using reg_iter_cases [of r key] by (auto simp: reg_delete_def assoc_reg_end_def)
qed

section \<open>Active procedures\<close>

datatype act_proc_kind = RIC_SUBSCRIPTION_PROCEDURE_ACTIVE | RIC_CONTROL_PROCEDURE_ACTIVE

record 'cb act_proc_val =
  ap_type :: act_proc_kind
  ap_id :: ric_gen_id
  ap_sm_cb :: 'cb
  ap_e2_node :: global_e2_node_id

type_synonym 'cb act_proc = "'cb act_proc_val assoc_reg"

text \<open>\<open>sizeof(act_proc_val_t)\<close>.\<close>

definition ACT_PROC_SZ :: nat where
  "ACT_PROC_SZ = 56"

definition init_act_proc :: "'cb act_proc" where
  "init_act_proc = assoc_reg_init ACT_PROC_SZ"

definition valid_proc_type :: "act_proc_kind \<Rightarrow> bool" where
  "valid_proc_type type \<longleftrightarrow>
     type = RIC_SUBSCRIPTION_PROCEDURE_ACTIVE \<or> type = RIC_CONTROL_PROCEDURE_ACTIVE"

definition add_act_proc ::
  "'cb act_proc \<Rightarrow> act_proc_kind \<Rightarrow> ric_gen_id \<Rightarrow> global_e2_node_id \<Rightarrow> 'cb \<Rightarrow> (u32 \<times> 'cb act_proc) res" where
  "add_act_proc p type gid e2_node sm_cb =
     c_assert (valid_proc_type type)
      (let val = \<lparr>ap_type = type, ap_id = gid, ap_sm_cb = sm_cb,
                  ap_e2_node = cp_global_e2_node_id e2_node\<rparr>
       in assoc_reg_push_back p val ACT_PROC_SZ)"

definition rm_act_proc :: "'cb act_proc \<Rightarrow> u16 \<Rightarrow> 'cb act_proc res" where
  "rm_act_proc p req_id = reg_delete p (ucast req_id)"

text \<open>
  The answer is the value with its request number set; the code writes the number into the stored
  value too.
\<close>

definition find_act_proc :: "'cb act_proc \<Rightarrow> u16 \<Rightarrow> ('cb act_proc_val option \<times> 'cb act_proc) res" where
  "find_act_proc act req_id =
     bind_res (reg_iter act (ucast req_id)) (\<lambda>it.
       if it = assoc_reg_end act then Inr (None, act)
       else map_res (\<lambda>val.
              let val = val\<lparr>ap_id := (ap_id val)\<lparr>ric_req_id := ucast req_id\<rparr>\<rparr>;
                  b = (reg_arr act ! it)\<lparr>b_val := Some val\<rparr>
              in (Some val, act\<lparr>reg_arr := (reg_arr act)[it := b]\<rparr>))
            (assoc_reg_value act it))"

definition free_act_proc :: "'cb act_proc \<Rightarrow> 'cb act_proc_val list" where
  "free_act_proc p = map (the \<circ> b_val) (reg_live p)"

definition act_proc_inv :: "'cb act_proc \<Rightarrow> bool" where
  "act_proc_inv p \<longleftrightarrow> reg_inv p \<and> reg_elm_sz p = ACT_PROC_SZ"

lemma find_act_proc_spec:
  assumes inv: "act_proc_inv p" and room: "reg_room p" and id: "0 < req_id"
  shows "\<exists>p'. find_act_proc p req_id =
    Inr (map_option (\<lambda>v. v\<lparr>ap_id := (ap_id v)\<lparr>ric_req_id := ucast req_id\<rparr>\<rparr>)
           (map_of (reg_alist p) (ucast req_id)), p')"
proof -
  have pos: "0 < (ucast req_id :: u32)"
    using id unat_small [of req_id]
    by (simp add: word_less_nat_alt unsigned_ucast_eq take_bit_nat_eq_self)
  have "reg_inv p" using inv by (simp add: act_proc_inv_def)
  from reg_iter_cases [OF this room pos]
  consider "map_of (reg_alist p) (ucast req_id) = None" "reg_iter p (ucast req_id) = Inr (reg_occ p)"
    | it v where "reg_iter p (ucast req_id) = Inr it" "it < reg_occ p" "b_has_value (reg_arr p ! it)"
      "b_val (reg_arr p ! it) = Some v" "map_of (reg_alist p) (ucast req_id) = Some v"
    by auto
  then show ?thesis
    by cases (simp_all add: find_act_proc_def assoc_reg_end_def assoc_reg_value_def
        iterator_in_ds_def Let_def)
qed

section \<open>Properties\<close>

lemma ucast_ucast_16:
  "(ucast (ucast (w :: u32) :: u16) :: u32) = w \<longleftrightarrow> unat w < 2 ^ 16"
proof -
  have "unat (ucast (ucast w :: u16) :: u32) = unat w mod 2 ^ 16"
    by (simp add: ucast_16_32 unsigned_ucast_eq take_bit_eq_mod unat_mod)
  then show ?thesis
    by (metis mod_less mod_less_divisor unsigned_word_eqI zero_less_numeral zero_less_power)
qed

text \<open>A procedure that was added: its entry is the last one, under a number not in use.\<close>

lemma add_act_proc_ok:
  assumes inv: "act_proc_inv p" "reg_room p" and add: "add_act_proc p type gid node cb = Inr (rid, p')"
  shows "rid \<notin> fst ` set (reg_alist p)" "0 < rid" "act_proc_inv p'"
    "reg_alist p' = reg_alist p @ [(rid, \<lparr>ap_type = type, ap_id = gid, ap_sm_cb = cb,
       ap_e2_node = cp_global_e2_node_id node\<rparr>)]"
  using reg.push_law [of p ACT_PROC_SZ "\<lparr>ap_type = type, ap_id = gid, ap_sm_cb = cb,
       ap_e2_node = cp_global_e2_node_id node\<rparr>"] assms
  by (cases type; auto simp: add_act_proc_def act_proc_inv_def valid_proc_type_def Let_def)+

text \<open>A registry about to hand out request number \<open>n\<close>, holding one procedure, number 1.\<close>

definition act_sample :: "u64 \<Rightarrow> unit act_proc" where
  "act_sample n = \<lparr>reg_arr = \<lparr>b_key = 1, b_has_value = True,
       b_val = Some \<lparr>ap_type = RIC_CONTROL_PROCEDURE_ACTIVE,
         ap_id = \<lparr>ric_req_id = 0, ric_inst_id = 0, ran_func_id = 2\<rparr>, ap_sm_cb = (),
         ap_e2_node = sample_gnb 1\<rparr>\<rparr> # replicate 15 zero_bucket,
     reg_sz = 1, reg_cap = 16, reg_occ = 1, reg_elm_sz = ACT_PROC_SZ, reg_key_id = n\<rparr>"

lemma act_sample_ok:
  assumes "1 < unat n" "unat n < 2 ^ 32"
  shows "act_proc_inv (act_sample n)" "reg_room (act_sample n)" "map fst (reg_alist (act_sample n)) = [1]"
proof -
  have "\<exists>k. (16::nat) = 16 * 2 ^ k" by (intro exI [of _ 0]) simp
  then show "act_proc_inv (act_sample n)" "reg_room (act_sample n)" "map fst (reg_alist (act_sample n)) = [1]"
    using assms by (simp_all add: act_proc_inv_def reg_inv_def act_sample_def reg_live_def
        buckets_ok_def reg_room_def reg_alist_def)
qed

lemma act_sample_add:
  assumes "1 < unat n" "unat n < 2 ^ 32 - 1"
  shows "\<exists>p'. add_act_proc (act_sample n) RIC_SUBSCRIPTION_PROCEDURE_ACTIVE
       \<lparr>ric_req_id = 0, ric_inst_id = 0, ran_func_id = 142\<rparr> (sample_gnb 2) () = Inr (ucast n, p') \<and> reg_room p'"
proof -
  have "unat (- 1 :: u64) = 2 ^ 64 - 1" by (simp add: unsigned_minus_1_eq_mask mask_eq_exp_minus_1)
  then have n: "n \<noteq> - 1" using assms(2) by (intro notI) simp
  have "unat (n + 1) = unat n + 1"
    using assms(2) by (subst unat_add_lem [THEN iffD1]) simp_all
  then show ?thesis
    using assms n by (simp add: add_act_proc_def valid_proc_type_def assoc_reg_push_back_def
        act_sample_def expand_if_neccesary_def reg_room_def Let_def)
qed


text \<open>the request number \<open>add_act_proc\<close> hands out was not in use, and as long as it
  fits 16 bits \<open>find_act_proc\<close> with it returns the procedure that was added, with its number.\<close>

theorem find_added_act_proc:
  assumes "act_proc_inv p" "reg_room p" "add_act_proc p type gid node cb = Inr (rid, p')" "reg_room p'"
    "unat rid < 2 ^ 16"
  shows "rid \<notin> fst ` set (reg_alist p) \<and> act_proc_inv p' \<and>
    (\<exists>p''. find_act_proc p' (ucast rid) = Inr (Some \<lparr>ap_type = type, ap_id = gid\<lparr>ric_req_id := ucast rid\<rparr>,
       ap_sm_cb = cb, ap_e2_node = cp_global_e2_node_id node\<rparr>, p''))"
proof -
  note add = add_act_proc_ok [OF assms(1-3)]
  have eq: "(ucast (ucast rid :: u16) :: u32) = rid" using assms(5) by (simp add: ucast_ucast_16)
  with add(2) have "0 < (ucast rid :: u16)" by (metis unsigned_0 word_gt_0)
  moreover have "map_of (reg_alist p) rid = None" using add(1) by (simp add: map_of_eq_None_iff)
  ultimately show ?thesis
    using find_act_proc_spec [OF add(3) assms(4), of "ucast rid"] add by (auto simp: eq map_add_def)
qed

theorem find_added_act_proc_witness:
  "\<exists>p' p''. add_act_proc (act_sample 5) RIC_SUBSCRIPTION_PROCEDURE_ACTIVE
       \<lparr>ric_req_id = 0, ric_inst_id = 0, ran_func_id = 142\<rparr> (sample_gnb 2) () = Inr (5, p') \<and>
     find_act_proc p' 5 = Inr (Some \<lparr>ap_type = RIC_SUBSCRIPTION_PROCEDURE_ACTIVE,
       ap_id = \<lparr>ric_req_id = 5, ric_inst_id = 0, ran_func_id = 142\<rparr>, ap_sm_cb = (),
       ap_e2_node = sample_gnb 2\<rparr>, p'')"
proof -
  have n: "1 < unat (5 :: u64)" "unat (5 :: u64) < 2 ^ 32" "unat (5 :: u64) < 2 ^ 32 - 1" by simp_all
  from act_sample_add [OF n(1,3)] find_added_act_proc [OF act_sample_ok(1,2) [OF n(1,2)]]
  show ?thesis by fastforce
qed

text \<open>a request number that does not fit 16 bits is truncated on the way back:
  \<open>find_act_proc\<close> does not see the procedure that was added under it, its answer is the one it
  gave before.\<close>

theorem find_truncated_act_proc:
  assumes "act_proc_inv p" "reg_room p" "add_act_proc p type gid node cb = Inr (rid, p')" "reg_room p'"
    "2 ^ 16 \<le> unat rid" "(ucast rid :: u16) \<noteq> 0"
  shows "map_res fst (find_act_proc p' (ucast rid)) = map_res fst (find_act_proc p (ucast rid))"
proof -
  note add = add_act_proc_ok [OF assms(1-3)]
  have ne: "(ucast (ucast rid :: u16) :: u32) \<noteq> rid" using assms(5) by (simp add: ucast_ucast_16)
  have pos: "0 < (ucast rid :: u16)" using assms(6) by (simp add: word_gt_0)
  have "map_of (reg_alist p') (ucast (ucast rid :: u16)) = map_of (reg_alist p) (ucast (ucast rid :: u16))"
    using ne by (auto simp: add(4) map_add_def split: option.splits)
  with find_act_proc_spec [OF add(3) assms(4) pos] find_act_proc_spec [OF assms(1,2) pos]
  show ?thesis by auto
qed

theorem find_truncated_act_proc_witness:
  "\<exists>p'. add_act_proc (act_sample 65537) RIC_SUBSCRIPTION_PROCEDURE_ACTIVE
       \<lparr>ric_req_id = 0, ric_inst_id = 0, ran_func_id = 142\<rparr> (sample_gnb 2) () = Inr (65537, p') \<and>
     map_res fst (find_act_proc p' (ucast (65537 :: u32))) =
     map_res fst (find_act_proc (act_sample 65537) (ucast (65537 :: u32)))"
proof -
  have n: "1 < unat (65537 :: u64)" "unat (65537 :: u64) < 2 ^ 32" "unat (65537 :: u64) < 2 ^ 32 - 1"
    by simp_all
  from act_sample_add [OF n(1,3)] find_truncated_act_proc [OF act_sample_ok(1,2) [OF n(1,2)]]
  show ?thesis by fastforce
qed

text \<open>\<open>rm_act_proc\<close> removes exactly the procedure with that number, and aborts when there
  is none.\<close>

theorem rm_act_proc_removes:
  assumes "act_proc_inv p" "reg_room p" "0 < req_id"
  shows "if map_of (reg_alist p) (ucast req_id) = None then rm_act_proc p req_id = Inl AssertFailed
    else \<exists>p'. rm_act_proc p req_id = Inr p' \<and> act_proc_inv p' \<and>
      reg_alist p' = filter (\<lambda>(k, v). k \<noteq> ucast req_id) (reg_alist p)"
proof -
  have "0 < (ucast req_id :: u32)"
    using assms(3) ucast_16_32 [of req_id] by (simp add: word_less_nat_alt)
  with reg.del_law [of p ACT_PROC_SZ "ucast req_id"] reg.del_missing_law [of p ACT_PROC_SZ "ucast req_id"]
  show ?thesis using assms by (auto simp: rm_act_proc_def act_proc_inv_def)
qed

theorem rm_act_proc_removes_witness:
  "rm_act_proc (act_sample 5) 4 = Inl AssertFailed \<and>
   (\<exists>p'. rm_act_proc (act_sample 5) 1 = Inr p' \<and> reg_alist p' = [])"
proof -
  have n: "1 < unat (5 :: u64)" "unat (5 :: u64) < 2 ^ 32" by simp_all
  obtain v where "reg_alist (act_sample 5) = [(1, v)]"
    using act_sample_ok(3) [OF n] by auto
  then show ?thesis
    using rm_act_proc_removes [OF act_sample_ok(1,2) [OF n], of 4]
      rm_act_proc_removes [OF act_sample_ok(1,2) [OF n], of 1] by auto
qed

end
