(* ===== verification/Seq_List.thy ===== *)
theory Seq_List
  imports FlexRIC_Prelude
begin

text \<open>
  The singly linked list \<open>seq_list_t\<close> (\<open>util/alg_ds/ds/seq_container/seq_list.c\<close>) on a heap
  of nodes: addresses are natural numbers, 0 is \<open>NULL\<close>, and \<open>sl_brk\<close> is the next address
  the allocator hands out. An iterator is the address of a node. \<open>list_seg\<close> relates a heap to
  the nodes reached from an address; the list's contents are the data along them.
\<close>

record 'a lst_node =
  ln_next :: nat
  ln_data :: "'a option"

record 'a seq_list =
  sl_root :: nat
  sl_size :: nat
  sl_heap :: "nat \<Rightarrow> 'a lst_node option"
  sl_brk :: nat

definition lst_get :: "'a seq_list \<Rightarrow> nat \<Rightarrow> 'a lst_node res" where
  "lst_get lst a = (case sl_heap lst a of None \<Rightarrow> Inl UseOfNull | Some n \<Rightarrow> Inr n)"

definition lst_put :: "nat \<Rightarrow> 'a lst_node \<Rightarrow> 'a seq_list \<Rightarrow> 'a seq_list" where
  "lst_put a n lst = lst\<lparr>sl_heap := (sl_heap lst)(a \<mapsto> n)\<rparr>"

definition lst_node_init :: "'a \<Rightarrow> 'a seq_list \<Rightarrow> nat \<times> 'a seq_list" where
  "lst_node_init data lst =
     (sl_brk lst, (lst_put (sl_brk lst) \<lparr>ln_next = 0, ln_data = Some data\<rparr> lst)\<lparr>sl_brk := sl_brk lst + 1\<rparr>)"

definition lst_node_free :: "nat \<Rightarrow> 'a seq_list \<Rightarrow> 'a seq_list" where
  "lst_node_free a lst = lst\<lparr>sl_heap := (sl_heap lst)(a := None)\<rparr>"

definition seq_list_init :: "'a seq_list" where
  "seq_list_init = \<lparr>sl_root = 0, sl_size = 0, sl_heap = (\<lambda>_. None), sl_brk = 1\<rparr>"

definition seq_list_front :: "'a seq_list \<Rightarrow> nat" where
  "seq_list_front lst = sl_root lst"

definition seq_list_end :: "'a seq_list \<Rightarrow> nat" where
  "seq_list_end lst = 0"

definition seq_list_next :: "'a seq_list \<Rightarrow> nat \<Rightarrow> nat res" where
  "seq_list_next lst it = c_assert (it \<noteq> 0) (map_res ln_next (lst_get lst it))"

definition seq_list_value :: "'a seq_list \<Rightarrow> nat \<Rightarrow> 'a option res" where
  "seq_list_value lst a = c_assert (a \<noteq> 0) (map_res ln_data (lst_get lst a))"

definition seq_list_size :: "'a seq_list \<Rightarrow> nat" where
  "seq_list_size lst = sl_size lst"

definition seq_list_at :: "'a seq_list \<Rightarrow> u32 \<Rightarrow> nat res" where
  "seq_list_at lst pos = c_assert False (Inr 0)"

definition seq_list_dist :: "'a seq_list \<Rightarrow> nat \<Rightarrow> nat \<Rightarrow> int res" where
  "seq_list_dist lst first_it last_it = c_assert False (Inr (-1))"

text \<open>The loop \<open>while(last->next != NULL) last = last->next\<close>; every node is on the list once.\<close>

fun last_node :: "nat \<Rightarrow> 'a seq_list \<Rightarrow> nat \<Rightarrow> nat res" where
  "last_node 0 lst a = Inl Diverged"
| "last_node (Suc fuel) lst a =
     bind_res (lst_get lst a) (\<lambda>n. if ln_next n \<noteq> 0 then last_node fuel lst (ln_next n) else Inr a)"

definition seq_list_push_back :: "'a seq_list \<Rightarrow> 'a \<Rightarrow> 'a seq_list res" where
  "seq_list_push_back lst data =
     (if sl_root lst = 0 then
        (let (n, lst) = lst_node_init data lst in
         Inr (lst\<lparr>sl_root := n, sl_size := sl_size lst + 1\<rparr>))
      else bind_res (last_node (sl_size lst) lst (sl_root lst)) (\<lambda>l.
        let (n, lst) = lst_node_init data lst in
        bind_res (lst_get lst l) (\<lambda>ln.
          Inr ((lst_put l (ln\<lparr>ln_next := n\<rparr>) lst)\<lparr>sl_size := sl_size lst + 1\<rparr>))))"

text \<open>\<open>seq_list_pop_front\<close> frees the data and unlinks the node, but does not free the node.\<close>

definition seq_list_pop_front :: "'a seq_list \<Rightarrow> 'a seq_list res" where
  "seq_list_pop_front lst =
     (if sl_root lst = 0 then Inr lst
      else let front_node = seq_list_front lst in
        bind_res (lst_get lst front_node) (\<lambda>n.
          Inr ((lst_put front_node (n\<lparr>ln_data := None\<rparr>) lst)\<lparr>sl_root := ln_next n,
                 sl_size := sl_size lst - 1\<rparr>)))"

text \<open>The search of \<open>seq_list_erase\<close> for the node before \<open>it\<close>: the node, or \<open>None\<close> at the end.\<close>

fun prev_node :: "nat \<Rightarrow> 'a seq_list \<Rightarrow> nat \<Rightarrow> nat \<Rightarrow> nat \<Rightarrow> nat option res" where
  "prev_node fuel lst it cmp nxt =
     (if nxt \<noteq> 0 \<and> nxt \<noteq> it then
        (case fuel of 0 \<Rightarrow> Inl Diverged
         | Suc fuel' \<Rightarrow>
             bind_res (lst_get lst cmp) (\<lambda>c. bind_res (lst_get lst nxt) (\<lambda>n.
               prev_node fuel' lst it (ln_next c) (ln_next n))))
      else if nxt = it then Inr (Some cmp) else Inr None)"

declare prev_node.simps [simp del]

definition seq_list_erase :: "'a seq_list \<Rightarrow> nat \<Rightarrow> 'a seq_list res" where
  "seq_list_erase lst it =
     c_assert (it \<noteq> 0)
      (if sl_root lst = 0 then Inr lst
       else if sl_root lst = it then
         bind_res (lst_get lst (sl_root lst)) (\<lambda>r.
           Inr (lst_node_free it (lst\<lparr>sl_root := ln_next r, sl_size := sl_size lst - 1\<rparr>)))
       else bind_res (lst_get lst (sl_root lst)) (\<lambda>r.
         bind_res (prev_node (sl_size lst) lst it (sl_root lst) (ln_next r)) (\<lambda>p.
           case p of None \<Rightarrow> Inl AssertFailed
           | Some cmp \<Rightarrow>
               bind_res (lst_get lst it) (\<lambda>n. bind_res (lst_get lst cmp) (\<lambda>c.
                 Inr (lst_node_free it
                   ((lst_put cmp (c\<lparr>ln_next := ln_next n\<rparr>) lst)\<lparr>sl_size := sl_size lst - 1\<rparr>)))))))"

text \<open>\<open>seq_list_free\<close>: what the free function is called on, and the heap without the nodes.\<close>

fun seq_list_free_impl :: "nat \<Rightarrow> 'a seq_list \<Rightarrow> nat \<Rightarrow> 'a seq_list res" where
  "seq_list_free_impl fuel lst n =
     (if n = 0 then Inr lst
      else case fuel of 0 \<Rightarrow> Inl Diverged
      | Suc fuel' \<Rightarrow> bind_res (lst_get lst n) (\<lambda>ln.
          map_res (lst_node_free n) (seq_list_free_impl fuel' lst (ln_next ln))))"

declare seq_list_free_impl.simps [simp del]

definition seq_list_free :: "'a seq_list \<Rightarrow> 'a seq_list res" where
  "seq_list_free lst = seq_list_free_impl (sl_size lst) lst (sl_root lst)"

section \<open>The list in the heap\<close>

fun list_seg :: "(nat \<Rightarrow> 'a lst_node option) \<Rightarrow> nat \<Rightarrow> (nat \<times> 'a) list \<Rightarrow> bool" where
  "list_seg h a [] \<longleftrightarrow> a = 0"
| "list_seg h a ((b, x) # ns) \<longleftrightarrow>
     a = b \<and> b \<noteq> 0 \<and> (\<exists>n. h b = Some n \<and> ln_data n = Some x \<and> list_seg h (ln_next n) ns)"

text \<open>\<open>lst\<close> holds the nodes \<open>ns\<close>, pairs of address and data, in this order.\<close>

definition holds :: "'a seq_list \<Rightarrow> (nat \<times> 'a) list \<Rightarrow> bool" where
  "holds lst ns \<longleftrightarrow> list_seg (sl_heap lst) (sl_root lst) ns \<and> sl_size lst = length ns \<and>
     distinct (map fst ns) \<and> (\<forall>a \<in> set (map fst ns). a < sl_brk lst) \<and> 0 < sl_brk lst"

lemma list_seg_frame:
  "a \<notin> fst ` set ns \<Longrightarrow> list_seg (h(a := v)) r ns = list_seg h r ns"
  by (induction ns arbitrary: r) auto

lemma list_seg_append:
  "list_seg h a (ns @ (b, x) # ms) \<Longrightarrow> \<exists>n. h b = Some n \<and> ln_data n = Some x \<and> b \<noteq> 0 \<and> list_seg h (ln_next n) ms"
  by (induction ns arbitrary: a) auto

lemma list_seg_relink:
  "list_seg h a (ns @ [(b, x)] @ ms) \<Longrightarrow> b \<notin> fst ` set ns \<Longrightarrow> b \<notin> fst ` set ms' \<Longrightarrow>
   h b = Some n \<Longrightarrow> list_seg h c ms' \<Longrightarrow>
   list_seg (h(b \<mapsto> n\<lparr>ln_next := c\<rparr>)) a (ns @ [(b, x)] @ ms')"
  by (induction ns arbitrary: a) (auto simp: list_seg_frame)

lemma last_node_ok:
  "list_seg (sl_heap lst) a (ns @ [(b, x)]) \<Longrightarrow> length ns < fuel \<Longrightarrow> last_node fuel lst a = Inr b"
proof (induction ns arbitrary: a fuel)
  case Nil
  then show ?case by (cases fuel) (auto simp: lst_get_def)
next
  case (Cons m ns)
  then obtain f where "fuel = Suc f" by (cases fuel) auto
  with Cons show ?case
    by (cases m; cases ns) (auto simp: lst_get_def)
qed

lemma seq_list_init_holds: "holds seq_list_init []"
  by (simp add: holds_def seq_list_init_def)

lemma seq_list_push_back_ok:
  assumes h: "holds lst ns"
  shows "\<exists>lst'. seq_list_push_back lst x = Inr lst' \<and> holds lst' (ns @ [(sl_brk lst, x)])"
proof -
  have fresh: "sl_brk lst \<notin> fst ` set ns" using h by (auto simp: holds_def)
  show ?thesis
  proof (cases ns rule: rev_cases)
    case Nil
    with h show ?thesis
      by (simp add: holds_def seq_list_push_back_def lst_node_init_def lst_put_def)
  next
    case (snoc ms m)
    obtain b y where m: "m = (b, y)" by force
    have seg: "list_seg (sl_heap lst) (sl_root lst) (ms @ [(b, y)])"
      and sz: "sl_size lst = length ns" and d: "distinct (map fst ns)"
      using h by (simp_all add: holds_def snoc m)
    obtain n where n: "sl_heap lst b = Some n" "ln_data n = Some y" "b \<noteq> 0"
      using list_seg_append [OF seg] by auto
    have root: "sl_root lst \<noteq> 0" using seg by (cases ms) auto
    have ln: "last_node (sl_size lst) lst (sl_root lst) = Inr b"
      using seg by (rule last_node_ok) (simp add: sz snoc)
    have ne: "b \<noteq> sl_brk lst" using fresh by (auto simp: snoc m)
    define h1 where "h1 = (sl_heap lst)(sl_brk lst \<mapsto> \<lparr>ln_next = 0, ln_data = Some x\<rparr>)"
    have seg1: "list_seg h1 (sl_root lst) (ms @ [(b, y)] @ [])"
      unfolding h1_def using seg fresh by (simp add: list_seg_frame snoc m)
    have "list_seg (h1(b \<mapsto> n\<lparr>ln_next := sl_brk lst\<rparr>)) (sl_root lst)
        (ms @ [(b, y)] @ [(sl_brk lst, x)])"
      using d n ne h by (intro list_seg_relink [OF seg1]) (auto simp: h1_def snoc m holds_def)
    moreover have "seq_list_push_back lst x = Inr (lst\<lparr>sl_heap := h1(b \<mapsto> n\<lparr>ln_next := sl_brk lst\<rparr>),
        sl_brk := sl_brk lst + 1, sl_size := sl_size lst + 1\<rparr>)"
      using root ln n ne
      by (simp add: seq_list_push_back_def lst_node_init_def lst_put_def lst_get_def h1_def)
    ultimately show ?thesis
      using h d fresh by (auto simp: holds_def snoc m)
  qed
qed

lemma seq_list_pop_front_ok:
  assumes "holds lst ((a, x) # ns)"
  shows "\<exists>lst'. seq_list_pop_front lst = Inr lst' \<and> holds lst' ns"
  using assms
  by (auto simp: holds_def seq_list_pop_front_def seq_list_front_def lst_get_def lst_put_def list_seg_frame)

lemma prev_node_ok:
  "list_seg (sl_heap lst) nxt (ns @ [(it, x)] @ ms) \<Longrightarrow> it \<notin> fst ` set ns \<Longrightarrow> length ns \<le> fuel \<Longrightarrow>
   sl_heap lst cmp = Some c \<Longrightarrow> ln_next c = nxt \<Longrightarrow>
   prev_node fuel lst it cmp nxt = Inr (Some (last (cmp # map fst ns)))"
proof (induction ns arbitrary: cmp c nxt fuel)
  case Nil
  then show ?case by (simp add: prev_node.simps)
next
  case (Cons m ns)
  obtain b y where m: "m = (b, y)" by force
  from Cons.prems obtain f where f: "fuel = Suc f" by (cases fuel) auto
  from Cons.prems obtain n where n: "nxt = b" "b \<noteq> 0" "sl_heap lst b = Some n"
    "list_seg (sl_heap lst) (ln_next n) (ns @ [(it, x)] @ ms)"
    by (auto simp: m)
  have "prev_node f lst it b (ln_next n) = Inr (Some (last (b # map fst ns)))"
    using Cons.IH [of "ln_next n" f b n] Cons.prems n f by simp
  then show ?case
    using Cons.prems n f by (simp add: prev_node.simps [of "Suc f"] lst_get_def m)
qed

lemma seq_list_erase_ok:
  assumes h: "holds lst (ns @ [(it, x)] @ ms)"
  shows "\<exists>lst'. seq_list_erase lst it = Inr lst' \<and> holds lst' (ns @ ms)"
proof (cases ns rule: rev_cases)
  case Nil
  with h show ?thesis
    by (auto simp: holds_def seq_list_erase_def lst_get_def lst_node_free_def list_seg_frame)
next
  case (snoc ks k)
  obtain b y where k: "k = (b, y)" by force
  have seg: "list_seg (sl_heap lst) (sl_root lst) (ks @ [(b, y)] @ (it, x) # ms)"
    and d: "distinct (map fst (ns @ [(it, x)] @ ms))"
    using h by (simp_all add: holds_def snoc k)
  obtain nb where nb: "sl_heap lst b = Some nb" "ln_data nb = Some y" "b \<noteq> 0"
    "list_seg (sl_heap lst) (ln_next nb) ((it, x) # ms)"
    using list_seg_append [of "sl_heap lst" "sl_root lst" ks b y "(it, x) # ms"] seg
    unfolding append_Cons append_Nil by blast
  then obtain ni where ni: "sl_heap lst it = Some ni" "list_seg (sl_heap lst) (ln_next ni) ms"
    "it \<noteq> 0" by auto
  obtain r0 y0 rest where rest: "ks @ [(b, y)] = (r0, y0) # rest"
    by (cases ks) auto
  then obtain nr where nr: "sl_root lst = r0" "sl_heap lst r0 = Some nr" "r0 \<noteq> 0"
    "list_seg (sl_heap lst) (ln_next nr) (rest @ [(it, x)] @ ms)"
    using seg by (metis append.assoc append_Cons append_Nil list_seg.simps(2))
  have l: "last (r0 # map fst rest) = b"
    using rest by (metis last_map last_snoc list.map(2) fst_conv list.distinct(1))
  have itr: "it \<notin> fst ` set rest" "r0 \<noteq> it"
    using d rest by (auto simp: snoc k)
  have len: "length rest \<le> sl_size lst"
    using h rest by (auto simp: holds_def snoc k dest: arg_cong [of _ _ length])
  have pn: "prev_node (sl_size lst) lst it (sl_root lst) (ln_next nr) = Inr (Some b)"
    using prev_node_ok [OF nr(4) itr(1) len nr(2) refl] l nr(1) by simp
  define h1 where "h1 = (sl_heap lst)(b \<mapsto> nb\<lparr>ln_next := ln_next ni\<rparr>)"
  have "list_seg h1 (sl_root lst) (ks @ [(b, y)] @ ms)"
    unfolding h1_def using d nb ni
    by (intro list_seg_relink [OF seg]) (auto simp: snoc k)
  then have "list_seg (h1(it := None)) (sl_root lst) (ns @ ms)"
    using d by (subst list_seg_frame) (auto simp: snoc k)
  moreover have "seq_list_erase lst it = Inr (lst\<lparr>sl_heap := h1(it := None), sl_size := sl_size lst - 1\<rparr>)"
    using nr itr pn nb ni
    by (simp add: seq_list_erase_def lst_get_def lst_put_def lst_node_free_def h1_def)
  ultimately show ?thesis
    using h d by (auto simp: holds_def snoc k)
qed

lemma seq_list_free_impl_ok:
  "list_seg (sl_heap lst) a ns \<Longrightarrow> length ns \<le> fuel \<Longrightarrow>
   seq_list_free_impl fuel lst a =
     Inr (lst\<lparr>sl_heap := (\<lambda>b. if b \<in> fst ` set ns then None else sl_heap lst b)\<rparr>)"
proof (induction ns arbitrary: a fuel)
  case Nil
  then show ?case by (simp add: seq_list_free_impl.simps)
next
  case (Cons m ns)
  from Cons.prems obtain f where f: "fuel = Suc f" by (cases fuel) auto
  from Cons show ?case
    by (cases m) (auto simp: seq_list_free_impl.simps [of "Suc f"] f lst_get_def lst_node_free_def fun_eq_iff)
qed

section \<open>Properties\<close>

text \<open>Erasing a node that is anywhere on the list unlinks exactly that node and gives its
  memory back; the other nodes keep their addresses, values and order.\<close>

theorem seq_list_erase_unlinks:
  assumes "holds lst (ns @ [(it, x)] @ ms)"
  shows "\<exists>lst'. seq_list_erase lst it = Inr lst' \<and> holds lst' (ns @ ms)"
  using seq_list_erase_ok [OF assms] .

theorem seq_list_erase_unlinks_witness:
  "\<exists>lst lst'. fold_res (\<lambda>x l. seq_list_push_back l x) [10, 20, 30 :: nat] seq_list_init = Inr lst \<and>
    seq_list_erase lst 2 = Inr lst' \<and> holds lst' [(1, 10), (3, 30)]"
proof -
  let ?h = "\<lambda>a. if a = 1 then Some \<lparr>ln_next = 2, ln_data = Some (10 :: nat)\<rparr>
    else if a = 2 then Some \<lparr>ln_next = 3, ln_data = Some 20\<rparr>
    else if a = 3 then Some \<lparr>ln_next = 0, ln_data = Some 30\<rparr> else None"
  let ?l = "\<lparr>sl_root = 1, sl_size = 3, sl_heap = ?h, sl_brk = 4\<rparr>"
  have h: "holds ?l ([(1, 10)] @ [(2, 20)] @ [(3, 30)])" by (simp add: holds_def)
  have "fold_res (\<lambda>x l. seq_list_push_back l x) [10, 20, 30 :: nat] seq_list_init = Inr ?l"
    by (simp add: seq_list_push_back_def seq_list_init_def lst_node_init_def lst_put_def lst_get_def
        numeral_2_eq_2 numeral_3_eq_3 fun_eq_iff)
  with seq_list_erase_unlinks [OF h] show ?thesis by (auto simp del: holds_def)
qed

end
