(* ===== verification/Task_Manager.thy ===== *)
theory Task_Manager
  imports Seq_Ring "HOL-Library.Multiset"
begin

text \<open>
  The thread pool of the RIC (\<open>util/alg_ds/ds/task_man/task_manager.c\<close>): one queue and one thread per
  index; a thread first tries all queues, its own first, and then waits on its own. The queue rests on
  a copy of the ring buffer of \<open>seq_ring.c\<close> with a larger first buffer; its functions are those of
  theory \<open>Seq_Ring\<close>. \<open>'a\<close> are the tasks, a function with its argument.

  The body of a function between locking and unlocking the mutex is one step. \<open>pthread_mutex_trylock\<close>
  fails when another thread holds the mutex; the model lets it fail at any time (the argument \<open>busy\<close>).
  A thread that waits for the condition may be woken by a signal or for no reason.
\<close>

section \<open>The queue of a thread\<close>

record 'a not_q =
  nq_r :: "'a seq_ring"
  nq_done :: bool

definition TASK_SZ :: nat where
  "TASK_SZ = 16"

definition DEFAULT_TASKS :: nat where
  "DEFAULT_TASKS = 32768"

definition task_ring_init :: "nat \<Rightarrow> 'a seq_ring" where
  "task_ring_init elt_size =
     \<lparr>r_elt_size = elt_size, r_array = replicate DEFAULT_TASKS None, r_cap = DEFAULT_TASKS, r_head = 0, r_tail = 0\<rparr>"

definition init_not_q :: "'a not_q" where
  "init_not_q = \<lparr>nq_r = task_ring_init TASK_SZ, nq_done = False\<rparr>"

text \<open>What is left in the queue is given to \<open>clean\<close>: here the list of these tasks.\<close>

definition free_not_q :: "'a not_q \<Rightarrow> 'a list res" where
  "free_not_q q = c_assert (nq_done q) (seq_ring_free (nq_r q))"

definition push_not_q :: "'a not_q \<Rightarrow> 'a \<Rightarrow> 'a not_q res" where
  "push_not_q q t = map_res (\<lambda>r. q\<lparr>nq_r := r\<rparr>) (seq_ring_push_back (nq_r q) t TASK_SZ)"

definition try_push_not_q :: "bool \<Rightarrow> 'a not_q \<Rightarrow> 'a \<Rightarrow> (bool \<times> 'a not_q) res" where
  "try_push_not_q busy q t =
     (if busy then Inr (False, q)
      else map_res (\<lambda>r. (True, q\<lparr>nq_r := r\<rparr>)) (seq_ring_push_back (nq_r q) t TASK_SZ))"

text \<open>The loop that copies \<open>n\<close> tasks from position \<open>i\<close> on; \<open>pop_not_q\<close> also compares with the end.\<close>

fun read_tasks :: "bool \<Rightarrow> 'a seq_ring \<Rightarrow> nat \<Rightarrow> nat \<Rightarrow> 'a list res" where
  "read_tasks check r 0 i = Inr []"
| "read_tasks check r (Suc n) i =
     (let it = seq_ring_at r (word_of_nat i) in
      c_assert (check \<longrightarrow> it \<noteq> seq_ring_end r)
       (bind_res (ring_deref r it) (\<lambda>t. map_res ((#) t) (read_tasks check r n (i + 1)))))"

definition MAX_BATCH :: nat where
  "MAX_BATCH = 4096"

definition try_pop_not_q :: "bool \<Rightarrow> 'a not_q \<Rightarrow> ('a list option \<times> 'a not_q) res" where
  "try_pop_not_q busy q =
     (if busy then Inr (None, q)
      else let r = nq_r q; sz = seq_ring_size r in
        if sz = 0 then Inr (None, q)
        else let n = (if sz < MAX_BATCH then sz else MAX_BATCH) in
          bind_res (read_tasks False r n 0) (\<lambda>ts.
          bind_res (seq_ring_erase r (seq_ring_front r) (seq_ring_at r (word_of_nat n))) (\<lambda>r.
          c_assert (sz = n + seq_ring_size r) (Inr (Some ts, q\<lparr>nq_r := r\<rparr>)))))"

text \<open>\<open>Wait_CV\<close>: the thread has to wait; \<open>No_Task\<close>: the function returns false.\<close>

datatype 'a pop_ans = Wait_CV | No_Task | Tasks "'a list"

definition pop_not_q :: "'a not_q \<Rightarrow> ('a pop_ans \<times> 'a not_q) res" where
  "pop_not_q q =
     (let r = nq_r q; sz = seq_ring_size r in
      if sz = 0 \<and> \<not> nq_done q then Inr (Wait_CV, q)
      else if nq_done q then Inr (No_Task, q)
      else let n = (if sz < MAX_BATCH then sz else MAX_BATCH) in
        bind_res (read_tasks True r n 0) (\<lambda>ts.
        bind_res (seq_ring_erase r (seq_ring_front r) (seq_ring_at r (word_of_nat n))) (\<lambda>r.
          Inr (Tasks ts, q\<lparr>nq_r := r\<rparr>))))"

definition done_not_q :: "'a not_q \<Rightarrow> 'a not_q" where
  "done_not_q q = q\<lparr>nq_done := True\<rparr>"

subsection \<open>As a list\<close>

definition not_q_inv :: "'a not_q \<Rightarrow> bool" where
  "not_q_inv q \<longleftrightarrow> ring_inv (nq_r q) \<and> r_elt_size (nq_r q) = TASK_SZ"

definition not_q_list :: "'a not_q \<Rightarrow> 'a list" where
  "not_q_list q = ring_list (nq_r q)"

lemma not_q_size: "seq_ring_size (nq_r q) = length (not_q_list q)"
  by (simp add: not_q_list_def)

lemma not_q_done_simps [simp]:
  "not_q_inv (done_not_q q) = not_q_inv q" "not_q_list (done_not_q q) = not_q_list q" "nq_done (done_not_q q)"
  by (simp_all add: done_not_q_def not_q_inv_def not_q_list_def)

lemma init_not_q_ok [simp]: "not_q_inv init_not_q" "not_q_list init_not_q = []" "\<not> nq_done init_not_q"
proof -
  have "\<exists>k. 1 \<le> k \<and> k \<le> 32 \<and> (32768 :: nat) = 2 ^ k" by (rule exI [of _ 15]) simp
  then show "not_q_inv init_not_q"
    by (simp add: not_q_inv_def init_not_q_def ring_inv_def task_ring_init_def seq_ring_size_def DEFAULT_TASKS_def)
  show "not_q_list init_not_q = []" "\<not> nq_done init_not_q"
    by (simp_all add: not_q_list_def init_not_q_def task_ring_init_def ring_list_def seq_ring_size_def)
qed

lemma push_not_q_ok:
  assumes "not_q_inv q" "length (not_q_list q) < 2 ^ 32 - 1"
  shows "\<exists>q'. push_not_q q t = Inr q' \<and> try_push_not_q False q t = Inr (True, q') \<and> not_q_inv q' \<and>
    not_q_list q' = not_q_list q @ [t] \<and> nq_done q' = nq_done q"
proof -
  obtain r' where "seq_ring_push_back (nq_r q) t TASK_SZ = Inr r'" "ring_inv r'"
    "ring_list r' = ring_list (nq_r q) @ [t]" "r_elt_size r' = r_elt_size (nq_r q)"
    using seq_ring_push_back_ok [of "nq_r q" TASK_SZ t] assms by (auto simp: not_q_inv_def not_q_list_def)
  then show ?thesis using assms(1) by (simp add: push_not_q_def try_push_not_q_def not_q_inv_def not_q_list_def)
qed

lemma at_slot: "ring_inv r \<Longrightarrow> seq_ring_at r (word_of_nat i) = ring_slot r i"
  by (simp add: seq_ring_at_def ring_mask_inv unat_add_mod_cap ring_slot_def)

lemma read_tasks_ok:
  assumes inv: "ring_inv r"
  shows "i + n \<le> seq_ring_size r \<Longrightarrow> read_tasks check r n i = Inr (take n (drop i (ring_list r)))"
proof (induction n arbitrary: i)
  case (Suc n)
  have d: "ring_deref r (seq_ring_at r (word_of_nat i)) = Inr (ring_list r ! i)"
    using seq_ring_at_ok [OF inv, of i] Suc.prems by simp
  have "ring_slot r i \<noteq> ring_slot r (seq_ring_size r)"
    using ring_slot_inj [of r i "seq_ring_size r"] inv Suc.prems by (auto simp: ring_inv_def)
  then have "seq_ring_at r (word_of_nat i) \<noteq> seq_ring_end r" using inv by (simp add: at_slot end_slot)
  moreover have "drop i (ring_list r) = ring_list r ! i # drop (Suc i) (ring_list r)"
    using Suc.prems by (simp add: Cons_nth_drop_Suc del: ring_list_nth)
  ultimately show ?case using Suc d by (simp add: Let_def del: ring_list_nth)
qed simp

text \<open>Both ways to take tasks hand over a prefix of the queue, which is not empty.\<close>

lemma take_tasks_ok:
  assumes inv: "not_q_inv q" and ne: "not_q_list q \<noteq> []"
  shows "\<exists>q' n. 0 < n \<and> try_pop_not_q False q = Inr (Some (take n (not_q_list q)), q') \<and>
    (\<not> nq_done q \<longrightarrow> pop_not_q q = Inr (Tasks (take n (not_q_list q)), q')) \<and> not_q_inv q' \<and>
    not_q_list q' = drop n (not_q_list q) \<and> nq_done q' = nq_done q"
proof -
  have r: "ring_inv (nq_r q)" using inv by (simp add: not_q_inv_def)
  let ?sz = "seq_ring_size (nq_r q)"
  define n where "n = (if ?sz < MAX_BATCH then ?sz else MAX_BATCH)"
  have sz: "0 < ?sz" using ne by (simp add: not_q_size)
  then have n: "0 < n" "n \<le> ?sz" by (auto simp: n_def MAX_BATCH_def)
  obtain r' where e: "seq_ring_erase (nq_r q) (ring_slot (nq_r q) 0) (ring_slot (nq_r q) n) = Inr r'"
    "ring_inv r'" "ring_list r' = drop n (ring_list (nq_r q))" "r_elt_size r' = r_elt_size (nq_r q)"
    "seq_ring_size r' = ?sz - n"
    by (rule seq_ring_erase_ok [OF r n(2)])
  have "read_tasks c (nq_r q) n 0 = Inr (take n (not_q_list q))" for c
    using read_tasks_ok [OF r, of 0 n] n(2) by (simp add: not_q_list_def)
  then show ?thesis
    using sz n e inv
    by (intro exI [of _ "q\<lparr>nq_r := r'\<rparr>"] exI [of _ n])
      (simp add: try_pop_not_q_def pop_not_q_def Let_def n_def [symmetric] front_slot [OF r] at_slot [OF r]
        not_q_inv_def not_q_list_def)
qed

lemma take_tasks_empty:
  assumes "not_q_list q = []"
  shows "try_pop_not_q busy q = Inr (None, q)" "pop_not_q q = Inr (if nq_done q then No_Task else Wait_CV, q)"
  using assms by (simp_all add: try_pop_not_q_def pop_not_q_def not_q_size Let_def)

lemma try_pop_busy: "try_pop_not_q True q = Inr (None, q)"
  by (simp add: try_pop_not_q_def)

lemma pop_done: "nq_done q \<Longrightarrow> pop_not_q q = Inr (No_Task, q)"
  by (simp add: pop_not_q_def Let_def)

lemma free_not_q_ok: "not_q_inv q \<Longrightarrow> nq_done q \<Longrightarrow> free_not_q q = Inr (not_q_list q)"
  using ring_walk_front [of "nq_r q"] by (simp add: free_not_q_def seq_ring_free_def not_q_inv_def not_q_list_def)


section \<open>The pool\<close>

text \<open>
  Where a thread is: about to try the queue \<open>i mod len\<close>, about to test its own queue under the mutex,
  waiting for the condition, running the tasks it took, or finished.
\<close>

datatype 'a worker = Trying nat | Locking | Waiting | Running "'a list" | Ended | Aborted

text \<open>Where the owner of the pool is; the last four are in \<open>free_task_manager\<close>.\<close>

datatype owner = Idle | Signalling nat | Stopping nat | Stop_Signalling nat | Joining nat | Freed

text \<open>\<open>tm_pushed\<close>, \<open>tm_ran\<close> and \<open>tm_cleaned\<close> are histories.\<close>

record 'a task_manager =
  tm_q :: "'a not_q list"
  tm_thr :: "'a worker list"
  tm_index :: u64
  tm_owner :: owner
  tm_pushed :: "'a list"
  tm_ran :: "'a list"
  tm_cleaned :: "'a list"

definition init_task_manager :: "nat \<Rightarrow> 'a task_manager res" where
  "init_task_manager num_threads =
     c_assert (num_threads > 0 \<and> num_threads < 33)
      (Inr \<lparr>tm_q = replicate num_threads init_not_q, tm_thr = map Trying [0..<num_threads], tm_index = 0,
            tm_owner = Idle, tm_pushed = [], tm_ran = [], tm_cleaned = []\<rparr>)"

text \<open>One step of \<open>worker_thread\<close> of the thread \<open>idx\<close>; \<open>busy\<close>: the mutex it tries is taken.\<close>

definition worker_thread_step :: "bool \<Rightarrow> nat \<Rightarrow> 'a task_manager \<Rightarrow> 'a task_manager res" where
  "worker_thread_step busy idx man =
     (let len = length (tm_thr man); num_it = 3 * (len + idx); goto = (\<lambda>w man. man\<lparr>tm_thr := (tm_thr man)[idx := w]\<rparr>) in
      case tm_thr man ! idx of
        Trying i \<Rightarrow>
          if i < num_it
          then bind_res (try_pop_not_q busy (tm_q man ! (i mod len))) (\<lambda>(ret, q).
            let man = man\<lparr>tm_q := (tm_q man)[i mod len := q]\<rparr> in
            Inr (case ret of Some ts \<Rightarrow> goto (Running ts) man | None \<Rightarrow> goto (Trying (i + 1)) man))
          else Inr (goto Locking man)
      | Locking \<Rightarrow>
          bind_res (pop_not_q (tm_q man ! idx)) (\<lambda>(ret, q).
            let man = man\<lparr>tm_q := (tm_q man)[idx := q]\<rparr> in
            Inr (case ret of Wait_CV \<Rightarrow> goto Waiting man | No_Task \<Rightarrow> goto Ended man | Tasks ts \<Rightarrow> goto (Running ts) man))
      | Running [] \<Rightarrow> Inr (goto (Trying idx) man)
      | Running (t # ts) \<Rightarrow> Inr (goto (Running ts) (man\<lparr>tm_ran := tm_ran man @ [t]\<rparr>))
      | _ \<Rightarrow> Inr man)"

text \<open>\<open>pthread_cond_signal\<close> on the condition of queue \<open>i\<close>, where only the thread \<open>i\<close> waits.\<close>

definition wake :: "nat \<Rightarrow> 'a task_manager \<Rightarrow> 'a task_manager" where
  "wake i man = (if tm_thr man ! i = Waiting then man\<lparr>tm_thr := (tm_thr man)[i := Locking]\<rparr> else man)"

text \<open>
  \<open>async_task_manager\<close> until the task is in a queue, whose number is the first result; \<open>busy j\<close>: the
  mutex of queue \<open>j\<close> is taken when it is tried.
\<close>

fun push_first :: "(nat \<Rightarrow> bool) \<Rightarrow> u64 \<Rightarrow> nat list \<Rightarrow> 'a not_q list \<Rightarrow> 'a \<Rightarrow> (nat \<times> 'a not_q list) res" where
  "push_first busy index [] qs t =
     (let j = unat index mod length qs in map_res (\<lambda>q. (j, qs[j := q])) (push_not_q (qs ! j) t))"
| "push_first busy index (i # is) qs t =
     (let j = unat (word_of_nat i + index) mod length qs in
      bind_res (try_push_not_q (busy j) (qs ! j) t) (\<lambda>(ok, q).
        if ok then Inr (j, qs[j := q]) else push_first busy index is qs t))"

definition async_task_manager :: "(nat \<Rightarrow> bool) \<Rightarrow> 'a task_manager \<Rightarrow> 'a \<Rightarrow> 'a task_manager res" where
  "async_task_manager busy man t =
     c_assert (length (tm_q man) > 0)
      (let index = tm_index man in
       map_res (\<lambda>(j, qs). man\<lparr>tm_index := index + 1, tm_q := qs, tm_owner := Signalling j, tm_pushed := tm_pushed man @ [t]\<rparr>)
        (push_first busy index [0..<length (tm_q man)] (tm_q man) t))"

definition clean_queues :: "'a task_manager \<Rightarrow> 'a task_manager res" where
  "clean_queues man =
     map_res (\<lambda>ts. man\<lparr>tm_owner := Freed, tm_cleaned := ts\<rparr>)
      (fold_res (\<lambda>q ts. map_res (\<lambda>us. ts @ us) (free_not_q q)) (tm_q man) [])"

inductive thread_step :: "'a task_manager \<Rightarrow> 'a task_manager \<Rightarrow> bool" where
  worker: "idx < length (tm_thr man) \<Longrightarrow> tm_thr man ! idx \<notin> {Waiting, Ended, Aborted} \<Longrightarrow>
    worker_thread_step busy idx man = Inr man' \<Longrightarrow> thread_step man man'"
| worker_fault: "idx < length (tm_thr man) \<Longrightarrow> worker_thread_step busy idx man = Inl e \<Longrightarrow>
    thread_step man (man\<lparr>tm_thr := (tm_thr man)[idx := Aborted]\<rparr>)"

text \<open>\<open>free_task_manager\<close>: all queues are told to stop, then all threads joined, then the queues freed.\<close>

inductive owner_step :: "'a task_manager \<Rightarrow> 'a task_manager \<Rightarrow> bool" where
  signal: "tm_owner man = Signalling j \<Longrightarrow> owner_step man (wake j man\<lparr>tm_owner := Idle\<rparr>)"
| stop: "tm_owner man = Stopping i \<Longrightarrow> i < length (tm_thr man) \<Longrightarrow>
    owner_step man (man\<lparr>tm_q := (tm_q man)[i := done_not_q (tm_q man ! i)], tm_owner := Stop_Signalling i\<rparr>)"
| stop_signal: "tm_owner man = Stop_Signalling i \<Longrightarrow> owner_step man (wake i man\<lparr>tm_owner := Stopping (i + 1)\<rparr>)"
| join_all: "tm_owner man = Stopping i \<Longrightarrow> \<not> i < length (tm_thr man) \<Longrightarrow> owner_step man (man\<lparr>tm_owner := Joining 0\<rparr>)"
| join: "tm_owner man = Joining i \<Longrightarrow> i < length (tm_thr man) \<Longrightarrow> tm_thr man ! i = Ended \<Longrightarrow>
    owner_step man (man\<lparr>tm_owner := Joining (i + 1)\<rparr>)"
| clean: "tm_owner man = Joining i \<Longrightarrow> \<not> i < length (tm_thr man) \<Longrightarrow> clean_queues man = Inr man' \<Longrightarrow> owner_step man man'"

inductive pool_step :: "'a task_manager \<Rightarrow> 'a task_manager \<Rightarrow> bool" where
  thread: "thread_step man man' \<Longrightarrow> pool_step man man'"
| owner: "owner_step man man' \<Longrightarrow> pool_step man man'"
| spurious: "tm_thr man ! i = Waiting \<Longrightarrow> i < length (tm_thr man) \<Longrightarrow> pool_step man (wake i man)"
| async: "tm_owner man = Idle \<Longrightarrow> \<forall>q \<in> set (tm_q man). length (not_q_list q) < 2 ^ 32 - 1 \<Longrightarrow>
    async_task_manager busy man t = Inr man' \<Longrightarrow> pool_step man man'"
| free: "tm_owner man = Idle \<Longrightarrow> pool_step man (man\<lparr>tm_owner := Stopping 0\<rparr>)"

inductive pool_reach :: "nat \<Rightarrow> 'a task_manager \<Rightarrow> bool" for num_threads where
  pool_start: "init_task_manager num_threads = Inr man \<Longrightarrow> pool_reach num_threads man"
| pool_more: "pool_reach num_threads man \<Longrightarrow> pool_step man man' \<Longrightarrow> pool_reach num_threads man'"


section \<open>The invariant\<close>

definition in_hand :: "'a worker \<Rightarrow> 'a list" where
  "in_hand w = (case w of Running ts \<Rightarrow> ts | _ \<Rightarrow> [])"

lemma in_hand_simps [simp]:
  "in_hand (Trying i) = []" "in_hand Locking = []" "in_hand Waiting = []" "in_hand (Running ts) = ts" "in_hand Ended = []"
  "in_hand Aborted = []"
  by (simp_all add: in_hand_def)

definition all_of :: "('b \<Rightarrow> 'a list) \<Rightarrow> 'b list \<Rightarrow> 'a multiset" where
  "all_of f xs = mset (concat (map f xs))"

lemma all_of_simps [simp]: "all_of f [] = {#}" "all_of f (x # xs) = mset (f x) + all_of f xs"
  by (simp_all add: all_of_def)

lemma all_of_update: "i < length xs \<Longrightarrow> all_of f (xs[i := x]) + mset (f (xs ! i)) = all_of f xs + mset (f x)"
  by (induction xs arbitrary: i) (auto split: nat.splits simp: ac_simps)

lemma all_of_same: "i < length xs \<Longrightarrow> f x = f (xs ! i) \<Longrightarrow> all_of f (xs[i := x]) = all_of f xs"
  using all_of_update [of i xs f x] by simp

text \<open>How many queues have been told to stop.\<close>

definition stopped_queues :: "nat \<Rightarrow> owner \<Rightarrow> nat" where
  "stopped_queues len ow = (case ow of Stopping i \<Rightarrow> i | Stop_Signalling i \<Rightarrow> Suc i | Joining _ \<Rightarrow> len | Freed \<Rightarrow> len | _ \<Rightarrow> 0)"

definition owner_ok :: "nat \<Rightarrow> 'a worker list \<Rightarrow> owner \<Rightarrow> bool" where
  "owner_ok len thr ow \<longleftrightarrow> (case ow of Signalling j \<Rightarrow> j < len | Stop_Signalling i \<Rightarrow> i < len | Stopping i \<Rightarrow> i \<le> len
     | Joining i \<Rightarrow> i \<le> len \<and> (\<forall>k < i. thr ! k = Ended) | Freed \<Rightarrow> (\<forall>k < len. thr ! k = Ended) | _ \<Rightarrow> True)"

definition thread_ok :: "owner \<Rightarrow> nat \<Rightarrow> 'a not_q \<Rightarrow> 'a worker \<Rightarrow> bool" where
  "thread_ok ow i q w \<longleftrightarrow> w \<noteq> Aborted \<and> (w = Ended \<longrightarrow> nq_done q) \<and>
     (w = Waiting \<longrightarrow> (not_q_list q = [] \<or> ow = Signalling i) \<and> (nq_done q \<longrightarrow> ow = Stop_Signalling i))"

definition pool_inv :: "nat \<Rightarrow> 'a task_manager \<Rightarrow> bool" where
  "pool_inv len man \<longleftrightarrow> 0 < len \<and> len < 33 \<and> length (tm_q man) = len \<and> length (tm_thr man) = len \<and>
     (\<forall>i < len. not_q_inv (tm_q man ! i) \<and> (nq_done (tm_q man ! i) \<longleftrightarrow> i < stopped_queues len (tm_owner man)) \<and>
       thread_ok (tm_owner man) i (tm_q man ! i) (tm_thr man ! i)) \<and>
     owner_ok len (tm_thr man) (tm_owner man) \<and>
     mset (tm_pushed man) = mset (tm_ran man) + all_of in_hand (tm_thr man) + all_of not_q_list (tm_q man) \<and>
     (tm_owner man = Freed \<longrightarrow> mset (tm_cleaned man) = all_of not_q_list (tm_q man))"

lemma pool_invD:
  assumes "pool_inv len man"
  shows "0 < len" "length (tm_q man) = len" "length (tm_thr man) = len"
    "\<And>i. i < len \<Longrightarrow> not_q_inv (tm_q man ! i)"
    "\<And>i. i < len \<Longrightarrow> nq_done (tm_q man ! i) \<longleftrightarrow> i < stopped_queues len (tm_owner man)"
    "\<And>i. i < len \<Longrightarrow> thread_ok (tm_owner man) i (tm_q man ! i) (tm_thr man ! i)"
    "owner_ok len (tm_thr man) (tm_owner man)"
    "mset (tm_pushed man) = mset (tm_ran man) + all_of in_hand (tm_thr man) + all_of not_q_list (tm_q man)"
  using assms by (simp_all add: pool_inv_def)

lemma pool_init_ok:
  assumes "init_task_manager n = Inr man"
  shows "pool_inv n man"
proof -
  have z: "all_of f xs = {#}" if "\<forall>x \<in> set xs. f x = []" for f and xs :: "'c list"
    using that by (induction xs) auto
  have "all_of in_hand (map Trying [0..<n]) = {#}" "all_of not_q_list (replicate n (init_not_q :: 'a not_q)) = {#}"
    by (rule z; simp)+
  moreover have m: "0 < n" "n < 33" "man = \<lparr>tm_q = replicate n init_not_q, tm_thr = map Trying [0..<n], tm_index = 0,
      tm_owner = Idle, tm_pushed = [], tm_ran = [], tm_cleaned = []\<rparr>"
    using assms by (simp_all add: init_task_manager_def c_assert_def split: if_splits)
  ultimately show ?thesis
    by (simp add: pool_inv_def thread_ok_def owner_ok_def stopped_queues_def)
qed

section \<open>What a thread does\<close>

text \<open>
  The moves of a thread, as changes of the queues seen as lists. A thread that still tries the queues
  takes from any of them, one that has locked its own queue only while that is not told to stop.
\<close>

inductive worker_move :: "nat \<Rightarrow> 'a task_manager \<Rightarrow> 'a task_manager \<Rightarrow> bool" for idx man where
  m_next: "tm_thr man ! idx = Trying i \<Longrightarrow> i < 3 * (length (tm_thr man) + idx) \<Longrightarrow>
    worker_move idx man (man\<lparr>tm_thr := (tm_thr man)[idx := Trying (i + 1)]\<rparr>)"
| m_lock: "tm_thr man ! idx = Trying i \<Longrightarrow> \<not> i < 3 * (length (tm_thr man) + idx) \<Longrightarrow>
    worker_move idx man (man\<lparr>tm_thr := (tm_thr man)[idx := Locking]\<rparr>)"
| m_wait: "tm_thr man ! idx = Locking \<Longrightarrow> not_q_list (tm_q man ! idx) = [] \<Longrightarrow> \<not> nq_done (tm_q man ! idx) \<Longrightarrow>
    worker_move idx man (man\<lparr>tm_thr := (tm_thr man)[idx := Waiting]\<rparr>)"
| m_end: "tm_thr man ! idx = Locking \<Longrightarrow> nq_done (tm_q man ! idx) \<Longrightarrow>
    worker_move idx man (man\<lparr>tm_thr := (tm_thr man)[idx := Ended]\<rparr>)"
| m_take: "(\<exists>i. tm_thr man ! idx = Trying i \<and> i < 3 * (length (tm_thr man) + idx)) \<or> tm_thr man ! idx = Locking \<Longrightarrow>
    j < length (tm_q man) \<Longrightarrow> not_q_list (tm_q man ! j) = ts @ not_q_list q \<Longrightarrow> ts \<noteq> [] \<Longrightarrow> not_q_inv q \<Longrightarrow>
    nq_done q = nq_done (tm_q man ! j) \<Longrightarrow>
    worker_move idx man (man\<lparr>tm_q := (tm_q man)[j := q], tm_thr := (tm_thr man)[idx := Running ts]\<rparr>)"
| m_again: "tm_thr man ! idx = Running [] \<Longrightarrow> worker_move idx man (man\<lparr>tm_thr := (tm_thr man)[idx := Trying idx]\<rparr>)"
| m_run: "tm_thr man ! idx = Running (t # ts) \<Longrightarrow>
    worker_move idx man (man\<lparr>tm_ran := tm_ran man @ [t], tm_thr := (tm_thr man)[idx := Running ts]\<rparr>)"

lemma worker_step_move:
  assumes inv: "pool_inv len man" and idx: "idx < len" and on: "tm_thr man ! idx \<notin> {Waiting, Ended}"
  shows "\<exists>man'. worker_thread_step busy idx man = Inr man' \<and> worker_move idx man man'"
proof -
  note d = pool_invD [OF inv]
  have take: "\<exists>q ts. try_pop_not_q False (tm_q man ! j) = Inr (Some ts, q) \<and> ts \<noteq> [] \<and> not_q_inv q \<and>
      not_q_list (tm_q man ! j) = ts @ not_q_list q \<and> nq_done q = nq_done (tm_q man ! j) \<and>
      (\<not> nq_done (tm_q man ! j) \<longrightarrow> pop_not_q (tm_q man ! j) = Inr (Tasks ts, q))"
    if j: "j < len" and ne: "not_q_list (tm_q man ! j) \<noteq> []" for j
  proof -
    obtain q n where t: "0 < n" "try_pop_not_q False (tm_q man ! j) = Inr (Some (take n (not_q_list (tm_q man ! j))), q)"
      "\<not> nq_done (tm_q man ! j) \<longrightarrow> pop_not_q (tm_q man ! j) = Inr (Tasks (take n (not_q_list (tm_q man ! j))), q)"
      "not_q_inv q" "not_q_list q = drop n (not_q_list (tm_q man ! j))" "nq_done q = nq_done (tm_q man ! j)"
      using take_tasks_ok [OF d(4) [OF j] ne] by blast
    then show ?thesis using ne by (intro exI [of _ q] exI [of _ "take n (not_q_list (tm_q man ! j))"]) auto
  qed
  show ?thesis
  proof (cases "tm_thr man ! idx")
    case (Trying i)
    have j: "i mod len < len" using d(1) by simp
    show ?thesis
    proof (cases "i < 3 * (len + idx) \<and> \<not> busy \<and> not_q_list (tm_q man ! (i mod len)) \<noteq> []")
      case True
      then obtain q ts where t: "try_pop_not_q False (tm_q man ! (i mod len)) = Inr (Some ts, q)" "ts \<noteq> []" "not_q_inv q"
        "not_q_list (tm_q man ! (i mod len)) = ts @ not_q_list q" "nq_done q = nq_done (tm_q man ! (i mod len))"
        using take [OF j] by blast
      from m_take [of man idx "i mod len" ts q] t True Trying d(2,3) j show ?thesis
        by (simp add: worker_thread_step_def Let_def)
    next
      case False
      then have "i < 3 * (len + idx) \<Longrightarrow> try_pop_not_q busy (tm_q man ! (i mod len)) = Inr (None, tm_q man ! (i mod len))"
        using take_tasks_empty(1) by (cases busy) (auto simp: try_pop_busy)
      then show ?thesis using Trying d(2,3) m_next [OF Trying] m_lock [OF Trying]
        by (cases "i < 3 * (len + idx)") (simp_all add: worker_thread_step_def Let_def)
    qed
  next
    case Locking
    show ?thesis
    proof (cases "nq_done (tm_q man ! idx) \<or> not_q_list (tm_q man ! idx) = []")
      case True
      then show ?thesis using Locking d(2,3) pop_done [of "tm_q man ! idx"] take_tasks_empty(2) [of "tm_q man ! idx"]
          m_wait [OF Locking] m_end [OF Locking]
        by (cases "nq_done (tm_q man ! idx)") (simp_all add: worker_thread_step_def Let_def)
    next
      case False
      then obtain q ts where t: "pop_not_q (tm_q man ! idx) = Inr (Tasks ts, q)" "ts \<noteq> []" "not_q_inv q"
        "not_q_list (tm_q man ! idx) = ts @ not_q_list q" "nq_done q = nq_done (tm_q man ! idx)"
        using take [OF idx] by blast
      from m_take [of man idx idx ts q] t Locking d(2,3) idx show ?thesis by (simp add: worker_thread_step_def Let_def)
    qed
  next
    case (Running ts)
    then show ?thesis using m_again [of man idx] m_run [of man idx] by (cases ts) (auto simp: worker_thread_step_def Let_def)
  next
    case Aborted
    then show ?thesis using d(6) [OF idx] by (simp add: thread_ok_def)
  qed (use on in simp_all)
qed


lemma owner_ok_update:
  assumes ok: "owner_ok len thr ow" and old: "thr ! idx \<noteq> Ended" and idx: "idx < len"
  shows "owner_ok len (thr[idx := w]) ow"
proof -
  have "thr[idx := w] ! k = Ended" if "thr ! k = Ended" for k using that old by (cases "k = idx") auto
  then show ?thesis using ok old idx by (auto simp: owner_ok_def split: owner.splits)
qed

lemma set_thread_inv:
  assumes inv: "pool_inv len man" and idx: "idx < len" and old: "tm_thr man ! idx \<noteq> Ended"
    and w: "in_hand w = in_hand (tm_thr man ! idx)" "thread_ok (tm_owner man) idx (tm_q man ! idx) w"
  shows "pool_inv len (man\<lparr>tm_thr := (tm_thr man)[idx := w]\<rparr>)"
proof -
  note d = pool_invD [OF inv]
  have a: "all_of in_hand ((tm_thr man)[idx := w]) = all_of in_hand (tm_thr man)"
    using all_of_same [of idx "tm_thr man" in_hand w] idx d(3) w(1) by simp
  have "thread_ok (tm_owner man) i (tm_q man ! i) ((tm_thr man)[idx := w] ! i)" if "i < len" for i
    using that d(3,6) w(2) by (cases "i = idx") simp_all
  moreover note owner_ok_update [OF d(7) old idx]
  ultimately show ?thesis using inv a by (simp add: pool_inv_def)
qed

lemma take_inv:
  assumes inv: "pool_inv len man" and idx: "idx < len" and old: "tm_thr man ! idx \<notin> {Waiting, Ended}" "in_hand (tm_thr man ! idx) = []"
    and j: "j < len" and q: "not_q_list (tm_q man ! j) = ts @ not_q_list q" "ts \<noteq> []" "not_q_inv q" "nq_done q = nq_done (tm_q man ! j)"
  shows "pool_inv len (man\<lparr>tm_q := (tm_q man)[j := q], tm_thr := (tm_thr man)[idx := Running ts]\<rparr>)"
proof -
  note d = pool_invD [OF inv]
  have t: "all_of in_hand ((tm_thr man)[idx := Running ts]) = all_of in_hand (tm_thr man) + mset ts"
    using all_of_update [of idx "tm_thr man" in_hand "Running ts"] idx d(3) old(2) by simp
  have l: "all_of not_q_list ((tm_q man)[j := q]) + mset ts = all_of not_q_list (tm_q man)"
    using all_of_update [of j "tm_q man" not_q_list q] j d(2) q(1) by (simp add: ac_simps)
  have free: "tm_owner man \<noteq> Freed" using d(7) old(1) idx by (auto simp: owner_ok_def)
  have th: "thread_ok (tm_owner man) i ((tm_q man)[j := q] ! i) ((tm_thr man)[idx := Running ts] ! i)" if i: "i < len" for i
  proof (cases "i = idx")
    case True
    then show ?thesis using idx d(3) by (simp add: thread_ok_def)
  next
    case False
    then show ?thesis using d(6) [OF i] i d(2) q by (cases "i = j") (auto simp: thread_ok_def)
  qed
  have qs: "not_q_inv ((tm_q man)[j := q] ! i) \<and> nq_done ((tm_q man)[j := q] ! i) = nq_done (tm_q man ! i)" if "i < len" for i
    using that d(2,4) q by (cases "i = j") simp_all
  have "owner_ok len ((tm_thr man)[idx := Running ts]) (tm_owner man)" using owner_ok_update [OF d(7) _ idx] old(1) by blast
  moreover have "mset (tm_pushed man) = mset (tm_ran man) + all_of in_hand ((tm_thr man)[idx := Running ts]) +
      all_of not_q_list ((tm_q man)[j := q])"
    using d(8) t l by (simp add: ac_simps)
  ultimately show ?thesis using inv th qs free by (simp add: pool_inv_def)
qed

lemma move_inv:
  assumes inv: "pool_inv len man" and idx: "idx < len" and m: "worker_move idx man man'"
  shows "pool_inv len man'"
  using m
proof cases
  case (m_take j ts q)
  then show ?thesis using take_inv [OF inv idx, of j ts q] pool_invD(2) [OF inv] by (auto simp: in_hand_def)
next
  case (m_run t ts)
  let ?man = "man\<lparr>tm_ran := tm_ran man @ [t], tm_thr := (tm_thr man)[idx := Running ts]\<rparr>"
  note d = pool_invD [OF inv]
  have "all_of in_hand ((tm_thr man)[idx := Running ts]) + {#t#} = all_of in_hand (tm_thr man)"
    using all_of_update [of idx "tm_thr man" in_hand "Running ts"] idx d(3) m_run(2) by simp
  moreover have "thread_ok (tm_owner man) i (tm_q man ! i) ((tm_thr man)[idx := Running ts] ! i)" if "i < len" for i
    using that d(3,6) by (cases "i = idx") (simp_all add: thread_ok_def)
  moreover have "owner_ok len ((tm_thr man)[idx := Running ts]) (tm_owner man)" using owner_ok_update [OF d(7) _ idx] m_run(2) by auto
  ultimately show ?thesis using inv m_run(1) d(8) by (simp add: pool_inv_def ac_simps)
qed (use set_thread_inv [OF inv idx] in \<open>simp_all add: thread_ok_def\<close>)

lemma thread_step_move:
  assumes inv: "pool_inv len man" and s: "thread_step man man'"
  shows "\<exists>idx < len. worker_move idx man man'"
  using s
proof cases
  case (worker idx busy)
  then show ?thesis using worker_step_move [OF inv, of idx busy] pool_invD(3) [OF inv] by auto
next
  case (worker_fault idx busy e)
  have idx: "idx < len" using worker_fault pool_invD(3) [OF inv] by simp
  have "worker_thread_step busy idx man = Inr man" if "tm_thr man ! idx \<in> {Waiting, Ended}"
    using that by (auto simp: worker_thread_step_def Let_def)
  then show ?thesis using worker_step_move [OF inv idx, of busy] worker_fault by fastforce
qed

lemma thread_step_inv: "pool_inv len man \<Longrightarrow> thread_step man man' \<Longrightarrow> pool_inv len man'"
  using thread_step_move move_inv by blast

section \<open>What the owner does\<close>

lemma wake_simps [simp]:
  "tm_q (wake i man) = tm_q man" "tm_owner (wake i man) = tm_owner man" "tm_pushed (wake i man) = tm_pushed man"
  "tm_ran (wake i man) = tm_ran man" "tm_cleaned (wake i man) = tm_cleaned man"
  "length (tm_thr (wake i man)) = length (tm_thr man)"
  by (simp_all add: wake_def)

lemma wake_thr:
  "i < length (tm_thr man) \<Longrightarrow> tm_thr (wake i man) ! k = (if k = i \<and> tm_thr man ! i = Waiting then Locking else tm_thr man ! k)"
  by (auto simp: wake_def)

lemma wake_hand: "i < length (tm_thr man) \<Longrightarrow> all_of in_hand (tm_thr (wake i man)) = all_of in_hand (tm_thr man)"
  using all_of_same [of i "tm_thr man" in_hand Locking] by (simp add: wake_def)

lemma wake_inv:
  assumes inv: "pool_inv len man" and i: "i < len"
  shows "pool_inv len (wake i man)"
  using set_thread_inv [OF inv i, of Locking] inv by (simp add: wake_def thread_ok_def)

lemma push_first_ok:
  assumes len: "0 < length qs" and q: "\<forall>q \<in> set qs. not_q_inv q \<and> length (not_q_list q) < 2 ^ 32 - 1"
  shows "\<exists>j q. push_first busy index is qs t = Inr (j, qs[j := q]) \<and> j < length qs \<and> not_q_inv q \<and>
    not_q_list q = not_q_list (qs ! j) @ [t] \<and> nq_done q = nq_done (qs ! j)"
proof (induction "is")
  case Nil
  let ?j = "unat index mod length qs"
  have j: "?j < length qs" using len by simp
  from push_not_q_ok [of "qs ! ?j" t] q j show ?case
    by (intro exI [of _ ?j]) (auto simp: Let_def)
next
  case (Cons i "is")
  let ?j = "unat (word_of_nat i + index) mod length qs"
  have j: "?j < length qs" using len by simp
  show ?case
  proof (cases "busy ?j")
    case True
    then show ?thesis using Cons by (simp add: try_push_not_q_def Let_def)
  next
    case False
    with push_not_q_ok [of "qs ! ?j" t] q j show ?thesis
      by (intro exI [of _ ?j]) (auto simp: Let_def)
  qed
qed

lemma clean_ok:
  assumes "\<forall>q \<in> set qs. not_q_inv q \<and> nq_done q"
  shows "fold_res (\<lambda>q ts. map_res (\<lambda>us. ts @ us) (free_not_q q)) qs us = Inr (us @ concat (map not_q_list qs))"
  using assms by (induction qs arbitrary: us) (auto simp: free_not_q_ok)


lemma async_inv:
  assumes inv: "pool_inv len man" and ow: "tm_owner man = Idle" and room: "\<forall>q \<in> set (tm_q man). length (not_q_list q) < 2 ^ 32 - 1"
  shows "\<exists>man'. async_task_manager busy man t = Inr man' \<and> pool_inv len man' \<and> tm_pushed man' = tm_pushed man @ [t]"
proof -
  note d = pool_invD [OF inv]
  have q: "\<forall>q \<in> set (tm_q man). not_q_inv q \<and> length (not_q_list q) < 2 ^ 32 - 1"
    using d(2,4) room by (auto simp: in_set_conv_nth)
  obtain j q where j: "push_first busy (tm_index man) [0..<length (tm_q man)] (tm_q man) t = Inr (j, (tm_q man)[j := q])"
    "j < len" "not_q_inv q" "not_q_list q = not_q_list (tm_q man ! j) @ [t]" "nq_done q = nq_done (tm_q man ! j)"
    using push_first_ok [OF _ q, of busy "tm_index man" "[0..<length (tm_q man)]" t] d(1,2) by auto
  let ?man = "man\<lparr>tm_index := tm_index man + 1, tm_q := (tm_q man)[j := q], tm_owner := Signalling j, tm_pushed := tm_pushed man @ [t]\<rparr>"
  have l: "all_of not_q_list ((tm_q man)[j := q]) = all_of not_q_list (tm_q man) + {#t#}"
    using all_of_update [of j "tm_q man" not_q_list q] j d(2) by (simp add: ac_simps)
  have qs: "not_q_inv ((tm_q man)[j := q] ! i) \<and> nq_done ((tm_q man)[j := q] ! i) = nq_done (tm_q man ! i)" if "i < len" for i
    using that d(2,4) j by (cases "i = j") simp_all
  have "thread_ok (Signalling j) i ((tm_q man)[j := q] ! i) (tm_thr man ! i)" if "i < len" for i
    using d(5,6) [OF that] that ow j d(2) by (cases "i = j") (auto simp: thread_ok_def stopped_queues_def)
  then have "pool_inv len ?man" using inv qs ow j(2) l d(8)
    by (simp add: pool_inv_def owner_ok_def stopped_queues_def ac_simps)
  moreover have "async_task_manager busy man t = Inr ?man" using d(1,2) j(1) by (simp add: async_task_manager_def)
  ultimately show ?thesis by simp
qed

lemma clean_queues_ok:
  assumes inv: "pool_inv len man" and ow: "tm_owner man = Joining i" "\<not> i < len"
  shows "clean_queues man = Inr (man\<lparr>tm_owner := Freed, tm_cleaned := concat (map not_q_list (tm_q man))\<rparr>)"
proof -
  have "\<forall>q \<in> set (tm_q man). not_q_inv q \<and> nq_done q"
    using pool_invD(2,4,5) [OF inv] ow by (auto simp: in_set_conv_nth stopped_queues_def)
  from clean_ok [OF this, of "[]"] show ?thesis by (simp add: clean_queues_def)
qed

lemma signal_inv:
  assumes inv: "pool_inv len man" and ow: "tm_owner man = Signalling j"
  shows "pool_inv len (wake j man\<lparr>tm_owner := Idle\<rparr>)"
proof -
  note d = pool_invD [OF inv]
  have j: "j < len" using d(7) ow by (simp add: owner_ok_def)
  have "thread_ok Idle i (tm_q man ! i) (tm_thr (wake j man) ! i)" if "i < len" for i
    using d(5,6) [OF that] wake_thr [of j man i] d(3) j ow by (auto simp: thread_ok_def stopped_queues_def)
  then show ?thesis using wake_inv [OF inv j] ow by (simp add: pool_inv_def owner_ok_def stopped_queues_def)
qed

lemma stop_inv:
  assumes inv: "pool_inv len man" and ow: "tm_owner man = Stopping i" "i < len"
  shows "pool_inv len (man\<lparr>tm_q := (tm_q man)[i := done_not_q (tm_q man ! i)], tm_owner := Stop_Signalling i\<rparr>)"
proof -
  note d = pool_invD [OF inv]
  have l: "all_of not_q_list ((tm_q man)[i := done_not_q (tm_q man ! i)]) = all_of not_q_list (tm_q man)"
    using all_of_same [of i "tm_q man" not_q_list "done_not_q (tm_q man ! i)"] d(2) ow by simp
  have qs: "not_q_inv ((tm_q man)[i := done_not_q (tm_q man ! i)] ! k) \<and>
      (nq_done ((tm_q man)[i := done_not_q (tm_q man ! i)] ! k) \<longleftrightarrow> k < Suc i)" if "k < len" for k
    using that d(2,4,5) ow by (cases "k = i") (auto simp: stopped_queues_def)
  have "thread_ok (Stop_Signalling i) k ((tm_q man)[i := done_not_q (tm_q man ! i)] ! k) (tm_thr man ! k)" if "k < len" for k
    using d(5,6) [OF that] that d(2) ow by (cases "k = i") (auto simp: thread_ok_def stopped_queues_def)
  with qs l inv ow show ?thesis by (simp add: pool_inv_def owner_ok_def stopped_queues_def)
qed

lemma stop_signal_inv:
  assumes inv: "pool_inv len man" and ow: "tm_owner man = Stop_Signalling j"
  shows "pool_inv len (wake j man\<lparr>tm_owner := Stopping (j + 1)\<rparr>)"
proof -
  note d = pool_invD [OF inv]
  have j: "j < len" using d(7) ow by (simp add: owner_ok_def)
  have "thread_ok (Stopping (j + 1)) i (tm_q man ! i) (tm_thr (wake j man) ! i)" if "i < len" for i
    using d(5,6) [OF that] wake_thr [of j man i] d(3) j ow by (auto simp: thread_ok_def)
  then show ?thesis using wake_inv [OF inv j] ow j by (simp add: pool_inv_def owner_ok_def stopped_queues_def)
qed

lemma owner_step_inv:
  assumes inv: "pool_inv len man" and s: "owner_step man man'"
  shows "pool_inv len man'"
  using s
proof cases
  case (signal j)
  then show ?thesis using signal_inv [OF inv] by simp
next
  case (stop i)
  then show ?thesis using stop_inv [OF inv] pool_invD(3) [OF inv] by simp
next
  case (stop_signal i)
  then show ?thesis using stop_signal_inv [OF inv] by simp
next
  case (join_all i)
  then show ?thesis using inv pool_invD(3,7) [OF inv]
    by (auto simp: pool_inv_def owner_ok_def stopped_queues_def thread_ok_def)
next
  case (join i)
  then show ?thesis using inv pool_invD(3,7) [OF inv]
    by (auto simp: pool_inv_def owner_ok_def stopped_queues_def thread_ok_def less_Suc_eq)
next
  case (clean i)
  then have man': "man' = man\<lparr>tm_owner := Freed, tm_cleaned := concat (map not_q_list (tm_q man))\<rparr>"
    using clean_queues_ok [OF inv, of i] pool_invD(3) [OF inv] by simp
  then show ?thesis using clean inv pool_invD(3,7) [OF inv]
    by (auto simp: pool_inv_def owner_ok_def stopped_queues_def thread_ok_def all_of_def)
qed

lemma pool_step_inv:
  assumes inv: "pool_inv len man" and s: "pool_step man man'"
  shows "pool_inv len man'"
  using s
proof cases
  case thread
  then show ?thesis by (rule thread_step_inv [OF inv])
next
  case owner
  then show ?thesis by (rule owner_step_inv [OF inv])
next
  case (spurious i)
  then show ?thesis using wake_inv [OF inv, of i] pool_invD(3) [OF inv] by simp
next
  case (async busy t)
  then show ?thesis using async_inv [OF inv, of busy t] by auto
next
  case free
  then show ?thesis using inv by (auto simp: pool_inv_def owner_ok_def stopped_queues_def thread_ok_def)
qed

lemma pool_reach_inv: "pool_reach len man \<Longrightarrow> pool_inv len man"
  by (induction rule: pool_reach.induct) (auto intro: pool_init_ok pool_step_inv)


section \<open>The threads come to rest\<close>

text \<open>
  A bound on the number of steps that the threads can make when nobody else does anything: a thread
  that tries the queues has at most \<open>3 * (len + idx)\<close> of them ahead, and every round through its loop
  takes at least one task out of a queue.
\<close>

definition steps_left :: "nat \<Rightarrow> nat \<Rightarrow> 'a worker \<Rightarrow> nat" where
  "steps_left len idx w = (case w of Trying i \<Rightarrow> 3 * (len + idx) - i + 2 | Locking \<Rightarrow> 1
     | Running ts \<Rightarrow> length ts + 3 * (len + idx) + 3 | _ \<Rightarrow> 0)"

definition work_left :: "nat \<Rightarrow> 'a task_manager \<Rightarrow> nat" where
  "work_left len man = (6 * len + 5) * size (all_of not_q_list (tm_q man)) + (\<Sum>i < len. steps_left len i (tm_thr man ! i))"

lemma sum_update:
  assumes "i < len" "length xs = len"
  shows "(\<Sum>k < len. f k (xs[i := x] ! k)) + f i (xs ! i) = (\<Sum>k < len. f k (xs ! k)) + (f i x :: nat)"
proof -
  have "(\<Sum>k < len. f k (xs[i := x] ! k)) = f i x + (\<Sum>k \<in> {..<len} - {i}. f k (xs ! k))"
    using assms by (subst sum.remove [of _ i]) (auto intro!: sum.cong)
  moreover have "(\<Sum>k < len. f k (xs ! k)) = f i (xs ! i) + (\<Sum>k \<in> {..<len} - {i}. f k (xs ! k))"
    using assms by (intro sum.remove) auto
  ultimately show ?thesis by simp
qed

lemma move_work:
  assumes inv: "pool_inv len man" and idx: "idx < len" and m: "worker_move idx man man'"
  shows "work_left len man' < work_left len man"
proof -
  note d = pool_invD [OF inv]
  have upd: "(\<Sum>k < len. steps_left len k ((tm_thr man)[idx := w] ! k)) + steps_left len idx (tm_thr man ! idx) =
      (\<Sum>k < len. steps_left len k (tm_thr man ! k)) + steps_left len idx w" for w
    by (rule sum_update [OF idx d(3)])
  have pc: "work_left len (man\<lparr>tm_thr := (tm_thr man)[idx := w]\<rparr>) < work_left len man"
    if "steps_left len idx w < steps_left len idx (tm_thr man ! idx)" for w
    using upd [of w] that by (simp add: work_left_def)
  show ?thesis using m
  proof cases
    case (m_take j ts q)
    have s: "size (all_of not_q_list (tm_q man)) = size (all_of not_q_list ((tm_q man)[j := q])) + length ts"
      using arg_cong [OF all_of_update [of j "tm_q man" not_q_list q], of size] m_take(3,4) by simp
    have old: "1 \<le> steps_left len idx (tm_thr man ! idx)" using m_take(2) by (auto simp: steps_left_def)
    have "length ts + 3 * (len + idx) + 3 < (6 * len + 5) * length ts + 1"
    proof -
      have "(6 * len + 4) * 1 \<le> (6 * len + 4) * length ts" using m_take(5) by (intro mult_le_mono2) (cases ts; simp)
      then show ?thesis using idx by (simp add: algebra_simps)
    qed
    then show ?thesis using upd [of "Running ts"] old s m_take(1) by (simp add: work_left_def steps_left_def algebra_simps)
  next
    case (m_run t ts)
    then have "steps_left len idx (Running ts) < steps_left len idx (tm_thr man ! idx)" by (simp add: steps_left_def)
    with upd [of "Running ts"] show ?thesis by (simp add: m_run(1) work_left_def)
  next
    case (m_next i)
    then show ?thesis using d(3) pc [of "Trying (i + 1)"] by (simp add: steps_left_def)
  qed (use pc in \<open>simp_all add: steps_left_def\<close>)
qed

lemma thread_step_work: "pool_inv len man \<Longrightarrow> thread_step man man' \<Longrightarrow> work_left len man' < work_left len man"
  using thread_step_move move_work by blast

lemma threads_stop:
  assumes "pool_inv len man"
  shows "\<not> (\<exists>f. f 0 = man \<and> (\<forall>k. thread_step (f k) (f (Suc k))))"
proof
  assume "\<exists>f. f 0 = man \<and> (\<forall>k. thread_step (f k) (f (Suc k)))"
  then obtain f where f: "f 0 = man" "\<And>k. thread_step (f k) (f (Suc k))" by blast
  have inv: "pool_inv len (f k)" for k
    by (induction k) (use f assms thread_step_inv in auto)
  have "work_left len (f k) + k \<le> work_left len man" for k
  proof (induction k)
    case (Suc k)
    then show ?case using thread_step_work [OF inv f(2), of k] by simp
  qed (simp add: f(1))
  from this [of "Suc (work_left len man)"] show False by simp
qed

lemma worker_move_owner: "worker_move idx man man' \<Longrightarrow> tm_owner man' = tm_owner man \<and> tm_pushed man' = tm_pushed man"
  by (induction rule: worker_move.induct) simp_all

lemma threads_run:
  assumes "thread_step\<^sup>*\<^sup>* man man'" "pool_inv len man"
  shows "pool_inv len man' \<and> tm_owner man' = tm_owner man \<and> tm_pushed man' = tm_pushed man"
  using assms
proof (induction rule: rtranclp_induct)
  case (step man1 man2)
  then show ?case using thread_step_inv thread_step_move worker_move_owner by metis
qed simp

lemma threads_at_rest:
  assumes inv: "pool_inv len man" and rest: "\<nexists>man'. thread_step man man'" and i: "i < len"
  shows "tm_thr man ! i \<in> {Waiting, Ended}"
proof (rule ccontr)
  assume on: "tm_thr man ! i \<notin> {Waiting, Ended}"
  from worker_step_move [OF inv i on, of False] obtain man' where "worker_thread_step False i man = Inr man'" by blast
  moreover have "tm_thr man ! i \<noteq> Aborted" using pool_invD(6) [OF inv i] by (simp add: thread_ok_def)
  ultimately have "thread_step man man'" using on i pool_invD(3) [OF inv] by (intro thread_step.worker) auto
  then show False using rest by blast
qed

lemma all_of_empty: "\<forall>i < length xs. f (xs ! i) = [] \<Longrightarrow> all_of f xs = {#}"
  by (simp add: all_of_def all_set_conv_all_nth)

lemma rest_idle:
  assumes inv: "pool_inv len man" and rest: "\<nexists>man'. thread_step man man'" and ow: "tm_owner man = Idle"
  shows "mset (tm_ran man) = mset (tm_pushed man)"
proof -
  note d = pool_invD [OF inv]
  have w: "tm_thr man ! i = Waiting" "not_q_list (tm_q man ! i) = []" if "i < len" for i
    using threads_at_rest [OF inv rest that] d(5,6) [OF that] ow by (auto simp: thread_ok_def stopped_queues_def)
  then have "all_of in_hand (tm_thr man) = {#}" "all_of not_q_list (tm_q man) = {#}"
    using d(2,3) by (auto intro!: all_of_empty)
  with d(8) show ?thesis by simp
qed

lemma rest_joining:
  assumes inv: "pool_inv len man" and rest: "\<nexists>man'. thread_step man man'" and ow: "tm_owner man = Joining i"
  shows "\<exists>man'. owner_step\<^sup>*\<^sup>* man man' \<and> tm_owner man' = Freed \<and> mset (tm_pushed man) = mset (tm_ran man) + mset (tm_cleaned man')"
  using assms
proof (induction "len - i" arbitrary: i man)
  case (0 i man)
  note d = pool_invD [OF 0(2)]
  let ?man = "man\<lparr>tm_owner := Freed, tm_cleaned := concat (map not_q_list (tm_q man))\<rparr>"
  have e: "tm_thr man ! k = Ended" if "k < len" for k
    using threads_at_rest [OF 0(2,3) that] d(5,6) [OF that] 0(4) that by (auto simp: thread_ok_def stopped_queues_def)
  then have "all_of in_hand (tm_thr man) = {#}" using d(3) by (auto intro!: all_of_empty)
  then have "mset (tm_pushed man) = mset (tm_ran man) + mset (tm_cleaned ?man)" using d(8) by (simp add: all_of_def)
  moreover have "owner_step man ?man"
    using clean_queues_ok [OF 0(2,4)] 0(1,4) d(3) by (intro owner_step.clean [of _ i]) simp_all
  ultimately show ?case by (intro exI [of _ ?man]) auto
next
  case (Suc n i man)
  note d = pool_invD [OF Suc(3)]
  let ?man = "man\<lparr>tm_owner := Joining (i + 1)\<rparr>"
  have i: "i < len" using Suc(2) by simp
  have "tm_thr man ! i = Ended"
    using threads_at_rest [OF Suc(3,4) i] d(5,6) [OF i] Suc(5) i by (auto simp: thread_ok_def stopped_queues_def)
  then have s: "owner_step man ?man" using Suc(5) i d(3) by (intro owner_step.join) simp_all
  have rest: "\<nexists>man'. thread_step ?man man'"
  proof
    assume "\<exists>man'. thread_step ?man man'"
    then obtain idx where idx: "idx < len" "tm_thr man ! idx \<notin> {Waiting, Ended}"
      using thread_step_move [OF owner_step_inv [OF Suc(3) s]] by (fastforce elim: worker_move.cases)
    then show False using threads_at_rest [OF Suc(3,4)] by blast
  qed
  have n: "n = len - (i + 1)" using Suc(2) by simp
  from Suc(1) [OF n owner_step_inv [OF Suc(3) s] rest] obtain man' where
    "owner_step\<^sup>*\<^sup>* ?man man'" "tm_owner man' = Freed" "mset (tm_pushed man) = mset (tm_ran man) + mset (tm_cleaned man')"
    by auto
  with s show ?case by (meson converse_rtranclp_into_rtranclp)
qed


section \<open>Properties\<close>

text \<open>C27: in every state of the thread pool that can be reached, whatever the interleaving of its owner and of
  up to 32 threads (spurious wake-ups and locks that are taken included), every task that was
  submitted is in exactly one place: run, in the hands of one thread, or in one queue. No thread
  faults, a thread sleeps on a queue that is not empty only while its signal is on the way, and when
  the pool has been freed all threads have ended and what was not run was given to the cleaner.\<close>

theorem task_pool_safe:
  assumes "pool_reach n man"
  shows "mset (tm_pushed man) = mset (tm_ran man) + all_of in_hand (tm_thr man) + all_of not_q_list (tm_q man) \<and>
    (\<forall>i < n. tm_thr man ! i \<noteq> Aborted \<and>
      (tm_thr man ! i = Waiting \<and> not_q_list (tm_q man ! i) \<noteq> [] \<longrightarrow> tm_owner man = Signalling i)) \<and>
    (tm_owner man = Freed \<longrightarrow> (\<forall>i < n. tm_thr man ! i = Ended) \<and>
      mset (tm_cleaned man) = all_of not_q_list (tm_q man))"
  using pool_reach_inv [OF assms] by (auto simp: pool_inv_def thread_ok_def owner_ok_def)

text \<open>A pool of one thread that was given the task 7.\<close>

lemma sample_pool:
  obtains man :: "nat task_manager" where "pool_reach 1 man" "tm_pushed man = [7]" "tm_owner man = Signalling 0"
proof -
  obtain man :: "nat task_manager" where m: "init_task_manager 1 = Inr man" "tm_owner man = Idle" "tm_pushed man = []"
    "tm_q man = [init_not_q]"
    by (simp add: init_task_manager_def)
  have r: "pool_reach 1 man" using m(1) by (rule pool_reach.pool_start)
  obtain man' where a: "async_task_manager (\<lambda>_. False) man 7 = Inr man'" "pool_inv 1 man'" "tm_pushed man' = [7]"
    using async_inv [OF pool_reach_inv [OF r] m(2), of "\<lambda>_. False" 7] m(3,4) by auto
  have "tm_owner man' = Signalling 0"
    using a(1) push_not_q_ok [of init_not_q "7 :: nat"] by (auto simp: async_task_manager_def m(4) Let_def)
  moreover have "pool_step man man'" using m(2,4) by (intro pool_step.async [OF _ _ a(1)]) simp_all
  ultimately show ?thesis using that pool_reach.pool_more [OF r] a(3) by blast
qed

theorem task_pool_safe_witness:
  "\<exists>man :: nat task_manager. pool_reach 1 man \<and> {#7#} = mset (tm_ran man) + all_of in_hand (tm_thr man) + all_of not_q_list (tm_q man)"
proof -
  obtain man :: "nat task_manager" where m: "pool_reach 1 man" "tm_pushed man = [7]" by (rule sample_pool)
  with task_pool_safe [OF m(1)] show ?thesis by auto
qed

text \<open>C25: when nothing more is submitted the threads come to rest (no interleaving of them goes on for ever,
  spurious wake-ups aside), and at rest every submitted task has been run, each once: no wake-up is
  lost and no task is forgotten in a queue.\<close>

theorem task_pool_drains:
  assumes r: "pool_reach n man" and ow: "tm_owner man = Idle"
  shows "\<not> (\<exists>f. f 0 = man \<and> (\<forall>k. thread_step (f k) (f (Suc k)))) \<and>
    (\<forall>man'. thread_step\<^sup>*\<^sup>* man man' \<and> (\<nexists>man''. thread_step man' man'') \<longrightarrow> mset (tm_ran man') = mset (tm_pushed man))"
proof -
  have inv: "pool_inv n man" by (rule pool_reach_inv [OF r])
  from threads_stop [OF this] threads_run [OF _ inv] rest_idle ow show ?thesis by metis
qed

theorem task_pool_drains_witness:
  "\<exists>man :: nat task_manager. tm_pushed man = [7] \<and> \<not> (\<exists>f. f 0 = man \<and> (\<forall>k. thread_step (f k) (f (Suc k)))) \<and>
     (\<forall>man'. thread_step\<^sup>*\<^sup>* man man' \<and> (\<nexists>man''. thread_step man' man'') \<longrightarrow> mset (tm_ran man') = {#7#})"
proof -
  obtain man :: "nat task_manager" where m: "pool_reach 1 man" "tm_pushed man = [7]" "tm_owner man = Signalling 0"
    by (rule sample_pool)
  let ?man = "wake 0 man\<lparr>tm_owner := Idle\<rparr>"
  have "pool_step man ?man" by (intro pool_step.owner owner_step.signal m(3))
  from task_pool_drains [OF pool_reach.pool_more [OF m(1) this]] m(2) show ?thesis by (intro exI [of _ ?man]) simp
qed

text \<open>C26: \<open>free_task_manager\<close> returns. Once it joins the threads they all come to rest, none of them asleep, and then
  it frees the queues; what had been submitted was either run or is handed to the cleaner, nothing
  twice.\<close>

theorem free_task_manager_returns:
  assumes r: "pool_reach n man" and ow: "tm_owner man = Joining 0"
  shows "\<not> (\<exists>f. f 0 = man \<and> (\<forall>k. thread_step (f k) (f (Suc k)))) \<and>
    (\<forall>man'. thread_step\<^sup>*\<^sup>* man man' \<and> (\<nexists>man''. thread_step man' man'') \<longrightarrow>
      (\<exists>man''. owner_step\<^sup>*\<^sup>* man' man'' \<and> tm_owner man'' = Freed \<and>
        mset (tm_pushed man) = mset (tm_ran man') + mset (tm_cleaned man'')))"
proof -
  have inv: "pool_inv n man" by (rule pool_reach_inv [OF r])
  have "\<exists>man''. owner_step\<^sup>*\<^sup>* man' man'' \<and> tm_owner man'' = Freed \<and>
      mset (tm_pushed man) = mset (tm_ran man') + mset (tm_cleaned man'')"
    if "thread_step\<^sup>*\<^sup>* man man'" "\<nexists>man''. thread_step man' man''" for man'
    using threads_run [OF that(1) inv] rest_joining [of n man' 0] that(2) ow by metis
  with threads_stop [OF inv] show ?thesis by blast
qed

theorem free_task_manager_returns_witness:
  "\<exists>man :: nat task_manager. pool_reach 1 man \<and> tm_pushed man = [7] \<and> tm_owner man = Joining 0 \<and>
     \<not> (\<exists>f. f 0 = man \<and> (\<forall>k. thread_step (f k) (f (Suc k))))"
proof -
  obtain man :: "nat task_manager" where m: "pool_reach 1 man" "tm_pushed man = [7]" "tm_owner man = Signalling 0"
    by (rule sample_pool)
  have len: "length (tm_thr man) = 1" using pool_invD(3) [OF pool_reach_inv [OF m(1)]] .
  let ?m1 = "wake 0 man\<lparr>tm_owner := Idle\<rparr>"
  let ?m2 = "?m1\<lparr>tm_owner := Stopping 0\<rparr>"
  let ?m3 = "?m2\<lparr>tm_q := (tm_q ?m2)[0 := done_not_q (tm_q ?m2 ! 0)], tm_owner := Stop_Signalling 0\<rparr>"
  let ?m4 = "wake 0 ?m3\<lparr>tm_owner := Stopping (0 + 1)\<rparr>"
  let ?m5 = "?m4\<lparr>tm_owner := Joining 0\<rparr>"
  note more = pool_reach.pool_more [of 1]
  have r1: "pool_reach 1 ?m1" by (rule more [OF m(1)]) (intro pool_step.owner owner_step.signal m(3))
  have r2: "pool_reach 1 ?m2" by (rule more [OF r1]) (rule pool_step.free, simp)
  have r3: "pool_reach 1 ?m3" by (rule more [OF r2]) (intro pool_step.owner owner_step.stop, simp_all add: len)
  have r4: "pool_reach 1 ?m4" by (rule more [OF r3]) (intro pool_step.owner owner_step.stop_signal, simp)
  have r: "pool_reach 1 ?m5" by (rule more [OF r4]) (intro pool_step.owner owner_step.join_all [of _ 1], simp_all add: len)
  from free_task_manager_returns [OF r] r m(2) show ?thesis by (intro exI [of _ ?m5]) simp
qed

end
