(* ===== verification/Assoc_Rb_Tree.thy ===== *)
theory Assoc_Rb_Tree
  imports Compare
begin

text \<open>
  The red-black tree \<open>assoc_rb_tree_t\<close> (\<open>util/alg_ds/ds/assoc_container/assoc_rb_tree.c\<close>) as the
  code has it: nodes on a heap, linked by parent, left and right pointers, with one \<open>dummy\<close> node in
  place of every leaf and of the root's parent. Addresses are natural numbers, 0 is \<open>NULL\<close>,
  \<open>t_brk\<close> is the next address \<open>malloc\<close> returns, and a freed or never allocated address is
  outside the domain of the heap: reading or writing it is a fault. The comparison function is a
  field of the tree, as in the code. Loops carry a budget: the number of nodes plus two bounds the
  steps of each (the proofs of the other theories of the tree show that it is never spent).
\<close>

datatype assoc_color = ASSOC_BLACK | ASSOC_RED

record ('k, 'v) rb_node =
  n_key :: "'k option"
  n_value :: "'v option"
  n_parent :: nat
  n_left :: nat
  n_right :: nat
  n_color :: assoc_color

record ('k, 'v) rb_tree =
  t_heap :: "nat \<Rightarrow> ('k, 'v) rb_node option"
  t_dummy :: nat
  t_root :: nat
  t_comp :: "'k \<Rightarrow> 'k \<Rightarrow> int res"
  t_size :: nat
  t_key_sz :: nat
  t_brk :: nat

section \<open>Memory\<close>

definition rd :: "('k, 'v) rb_tree \<Rightarrow> nat \<Rightarrow> ('k, 'v) rb_node res" where
  "rd T a = (case t_heap T a of None \<Rightarrow> Inl UseOfNull | Some n \<Rightarrow> Inr n)"

definition wr ::
  "nat \<Rightarrow> (('k, 'v) rb_node \<Rightarrow> ('k, 'v) rb_node) \<Rightarrow> ('k, 'v) rb_tree \<Rightarrow> ('k, 'v) rb_tree res" where
  "wr a f T = (case t_heap T a of None \<Rightarrow> Inl UseOfNull
     | Some n \<Rightarrow> Inr (T\<lparr>t_heap := (t_heap T)(a \<mapsto> f n)\<rparr>))"

abbreviation set_parent :: "nat \<Rightarrow> nat \<Rightarrow> ('k, 'v) rb_tree \<Rightarrow> ('k, 'v) rb_tree res" where
  "set_parent a p \<equiv> wr a (\<lambda>n. n\<lparr>n_parent := p\<rparr>)"

abbreviation set_left :: "nat \<Rightarrow> nat \<Rightarrow> ('k, 'v) rb_tree \<Rightarrow> ('k, 'v) rb_tree res" where
  "set_left a p \<equiv> wr a (\<lambda>n. n\<lparr>n_left := p\<rparr>)"

abbreviation set_right :: "nat \<Rightarrow> nat \<Rightarrow> ('k, 'v) rb_tree \<Rightarrow> ('k, 'v) rb_tree res" where
  "set_right a p \<equiv> wr a (\<lambda>n. n\<lparr>n_right := p\<rparr>)"

abbreviation set_color :: "nat \<Rightarrow> assoc_color \<Rightarrow> ('k, 'v) rb_tree \<Rightarrow> ('k, 'v) rb_tree res" where
  "set_color a c \<equiv> wr a (\<lambda>n. n\<lparr>n_color := c\<rparr>)"

definition init_node :: "'k option \<Rightarrow> 'v option \<Rightarrow> ('k, 'v) rb_node" where
  "init_node key val = \<lparr>n_key = key, n_value = val, n_parent = 0, n_left = 0, n_right = 0,
     n_color = ASSOC_RED\<rparr>"

definition create_node_rb_tree :: "'k \<Rightarrow> 'v \<Rightarrow> ('k, 'v) rb_tree \<Rightarrow> nat \<times> ('k, 'v) rb_tree" where
  "create_node_rb_tree key val T =
     (let x = (init_node (Some key) (Some val))
            \<lparr>n_parent := t_dummy T, n_left := t_dummy T, n_right := t_dummy T\<rparr>
      in (t_brk T, T\<lparr>t_heap := (t_heap T)(t_brk T \<mapsto> x), t_brk := t_brk T + 1\<rparr>))"

definition free_node_rb_tree :: "nat \<Rightarrow> ('k, 'v) rb_tree \<Rightarrow> ('k, 'v) rb_tree" where
  "free_node_rb_tree a T = T\<lparr>t_heap := (t_heap T)(a := None)\<rparr>"

definition assoc_rb_tree_init :: "nat \<Rightarrow> ('k \<Rightarrow> 'k \<Rightarrow> int res) \<Rightarrow> ('k, 'v) rb_tree res" where
  "assoc_rb_tree_init key_sz comp_func =
     c_assert (key_sz > 0)
      (Inr \<lparr>t_heap = [1 \<mapsto> (init_node None None)\<lparr>n_color := ASSOC_BLACK\<rparr>], t_dummy = 1,
            t_root = 1, t_comp = comp_func, t_size = 0, t_key_sz = key_sz, t_brk = 2\<rparr>)"

text \<open>
  \<open>depth_first_search_free\<close>: the order in which the nodes are handed to the free function, and
  the heap after.
\<close>

fun depth_first_search_free ::
  "nat \<Rightarrow> ('k, 'v) rb_tree \<Rightarrow> nat \<Rightarrow> (('k option \<times> 'v option) list \<times> ('k, 'v) rb_tree) res" where
  "depth_first_search_free fuel T node =
     (if node = t_dummy T then Inr ([], T)
      else case fuel of 0 \<Rightarrow> Inl Diverged
      | Suc f \<Rightarrow> bind_res (rd T node) (\<lambda>n.
          bind_res (depth_first_search_free f T (n_left n)) (\<lambda>(xs, T).
          bind_res (depth_first_search_free f T (n_right n)) (\<lambda>(ys, T).
            Inr (xs @ ys @ [(n_key n, n_value n)], free_node_rb_tree node T)))))"

declare depth_first_search_free.simps [simp del]

definition assoc_rb_tree_free ::
  "('k, 'v) rb_tree \<Rightarrow> (('k option \<times> 'v option) list \<times> ('k, 'v) rb_tree) res" where
  "assoc_rb_tree_free T =
     map_res (\<lambda>(xs, T). (xs, free_node_rb_tree (t_dummy T) T))
       (depth_first_search_free (t_size T + 1) T (t_root T))"

section \<open>Rotations\<close>

text \<open>The new child \<open>v\<close> of \<open>p\<close> where \<open>u\<close> was, or the new root.\<close>

definition relink :: "nat \<Rightarrow> nat \<Rightarrow> nat \<Rightarrow> ('k, 'v) rb_tree \<Rightarrow> ('k, 'v) rb_tree res" where
  "relink p u v T =
     (if p = t_dummy T then Inr (T\<lparr>t_root := v\<rparr>)
      else bind_res (rd T p) (\<lambda>pn. if u = n_left pn then set_left p v T else set_right p v T))"

definition left_rotate :: "('k, 'v) rb_tree \<Rightarrow> nat \<Rightarrow> ('k, 'v) rb_tree res" where
  "left_rotate T x =
     bind_res (rd T x) (\<lambda>xn. c_assert (n_right xn \<noteq> t_dummy T)
      (let y = n_right xn in
       bind_res (rd T y) (\<lambda>yn.
       bind_res (set_right x (n_left yn) T) (\<lambda>T.
       bind_res (if n_left yn \<noteq> t_dummy T then set_parent (n_left yn) x T else Inr T) (\<lambda>T.
       bind_res (set_parent y (n_parent xn) T) (\<lambda>T.
       bind_res (relink (n_parent xn) x y T) (\<lambda>T.
       bind_res (set_left y x T) (\<lambda>T.
         set_parent x y T))))))))"

definition right_rotate :: "('k, 'v) rb_tree \<Rightarrow> nat \<Rightarrow> ('k, 'v) rb_tree res" where
  "right_rotate T x =
     bind_res (rd T x) (\<lambda>xn. c_assert (n_left xn \<noteq> t_dummy T)
      (let y = n_left xn in
       bind_res (rd T y) (\<lambda>yn.
       bind_res (set_left x (n_right yn) T) (\<lambda>T.
       bind_res (if n_right yn \<noteq> t_dummy T then set_parent (n_right yn) x T else Inr T) (\<lambda>T.
       bind_res (set_parent y (n_parent xn) T) (\<lambda>T.
       bind_res (relink (n_parent xn) x y T) (\<lambda>T.
       bind_res (set_right y x T) (\<lambda>T.
         set_parent x y T))))))))"

section \<open>Insertion\<close>

text \<open>
  The body of the loop of \<open>insert_fixup\<close> when the parent is the left child of the grand parent, and
  its mirror image: the tree and the next \<open>z_node\<close>.
\<close>

definition insert_left :: "('k, 'v) rb_tree \<Rightarrow> nat \<Rightarrow> nat \<Rightarrow> nat \<Rightarrow> (('k, 'v) rb_tree \<times> nat) res" where
  "insert_left T z parent grand_parent =
     bind_res (rd T grand_parent) (\<lambda>gn.
      let uncle = n_right gn in
      bind_res (rd T uncle) (\<lambda>un.
       if n_color un = ASSOC_RED then
         bind_res (set_color parent ASSOC_BLACK T) (\<lambda>T.
         bind_res (set_color uncle ASSOC_BLACK T) (\<lambda>T.
         bind_res (set_color grand_parent ASSOC_RED T) (\<lambda>T.
           Inr (T, grand_parent))))
       else
         bind_res (rd T parent) (\<lambda>pn.
         bind_res (if z = n_right pn
                   then bind_res (left_rotate T parent) (\<lambda>T.
                        bind_res (rd T parent) (\<lambda>zn. Inr (T, parent, n_parent zn)))
                   else Inr (T, z, parent)) (\<lambda>(T, z, parent).
         bind_res (set_color parent ASSOC_BLACK T) (\<lambda>T.
         bind_res (set_color grand_parent ASSOC_RED T) (\<lambda>T.
         bind_res (right_rotate T grand_parent) (\<lambda>T.
           Inr (T, z))))))))"

definition insert_right :: "('k, 'v) rb_tree \<Rightarrow> nat \<Rightarrow> nat \<Rightarrow> nat \<Rightarrow> (('k, 'v) rb_tree \<times> nat) res" where
  "insert_right T z parent grand_parent =
     bind_res (rd T grand_parent) (\<lambda>gn.
      let uncle = n_left gn in
      bind_res (rd T uncle) (\<lambda>un.
       if n_color un = ASSOC_RED then
         bind_res (set_color parent ASSOC_BLACK T) (\<lambda>T.
         bind_res (set_color uncle ASSOC_BLACK T) (\<lambda>T.
         bind_res (set_color grand_parent ASSOC_RED T) (\<lambda>T.
           Inr (T, grand_parent))))
       else
         bind_res (rd T parent) (\<lambda>pn.
         bind_res (if z = n_left pn
                   then bind_res (right_rotate T parent) (\<lambda>T.
                        bind_res (rd T parent) (\<lambda>zn. Inr (T, parent, n_parent zn)))
                   else Inr (T, z, parent)) (\<lambda>(T, z, parent).
         bind_res (set_color parent ASSOC_BLACK T) (\<lambda>T.
         bind_res (set_color grand_parent ASSOC_RED T) (\<lambda>T.
         bind_res (left_rotate T grand_parent) (\<lambda>T.
           Inr (T, z))))))))"

fun insert_fixup :: "nat \<Rightarrow> ('k, 'v) rb_tree \<Rightarrow> nat \<Rightarrow> ('k, 'v) rb_tree res" where
  "insert_fixup fuel T z =
     bind_res (rd T z) (\<lambda>zn. bind_res (rd T (n_parent zn)) (\<lambda>pn.
      if n_color pn = ASSOC_RED then
        (case fuel of 0 \<Rightarrow> Inl Diverged
         | Suc f \<Rightarrow>
           let parent = n_parent zn; grand_parent = n_parent pn in
           bind_res (rd T grand_parent) (\<lambda>gn.
           bind_res (if parent = n_left gn then insert_left T z parent grand_parent
                     else insert_right T z parent grand_parent) (\<lambda>(T, z).
             insert_fixup f T z)))
      else set_color (t_root T) ASSOC_BLACK T))"

declare insert_fixup.simps [simp del]

text \<open>The key of a node, read through its pointer.\<close>

definition node_key :: "('k, 'v) rb_node \<Rightarrow> 'k res" where
  "node_key n = (case n_key n of None \<Rightarrow> Inl UseOfNull | Some k \<Rightarrow> Inr k)"

text \<open>The loop that finds the leaf to insert at: its parent, or the dummy.\<close>

fun find_leaf :: "nat \<Rightarrow> ('k, 'v) rb_tree \<Rightarrow> 'k \<Rightarrow> nat \<Rightarrow> nat \<Rightarrow> nat res" where
  "find_leaf fuel T key x y =
     (if x = t_dummy T then Inr y
      else case fuel of 0 \<Rightarrow> Inl Diverged
      | Suc f \<Rightarrow> bind_res (rd T x) (\<lambda>xn. bind_res (node_key xn) (\<lambda>k. bind_res (t_comp T key k) (\<lambda>rc.
          if rc = 1 then find_leaf f T key (n_left xn) x else find_leaf f T key (n_right xn) x))))"

declare find_leaf.simps [simp del]

definition assoc_rb_tree_insert ::
  "('k, 'v) rb_tree \<Rightarrow> 'k \<Rightarrow> nat \<Rightarrow> 'v \<Rightarrow> ('k, 'v) rb_tree res" where
  "assoc_rb_tree_insert T key key_sz val =
     c_assert (t_key_sz T = key_sz)
      (let (z, T) = create_node_rb_tree key val T in
       c_assert (z \<noteq> t_dummy T)
        (bind_res (find_leaf (t_size T + 1) T key (t_root T) (t_dummy T)) (\<lambda>y.
         bind_res (set_parent z y T) (\<lambda>T.
         bind_res (if y = t_dummy T then Inr (T\<lparr>t_root := z\<rparr>)
                   else bind_res (rd T y) (\<lambda>yn. bind_res (node_key yn) (\<lambda>k.
                        bind_res (t_comp T key k) (\<lambda>rc.
                          if rc = 1 then set_left y z T else set_right y z T)))) (\<lambda>T.
         bind_res (insert_fixup (t_size T + 2) T z) (\<lambda>T.
           Inr (T\<lparr>t_size := t_size T + 1\<rparr>)))))))"

section \<open>Deletion\<close>

text \<open>
  The body of the loop of \<open>delete_fixup\<close> when \<open>x_node\<close> is the left child of its parent \<open>xp\<close>: a red
  sibling (case 1), the nephews (cases 2 and 3) and the final rotation (case 4), then the mirror
  image. The result is the tree and the next \<open>x_node\<close>, or the sibling after cases 1 and 3.
\<close>

definition red_sibling_left :: "('k, 'v) rb_tree \<Rightarrow> nat \<Rightarrow> (('k, 'v) rb_tree \<times> nat) res" where
  "red_sibling_left T xp =
     bind_res (rd T xp) (\<lambda>pn.
      let w = n_right pn in
      bind_res (rd T w) (\<lambda>wn.
       if n_color wn = ASSOC_RED then
         bind_res (set_color w ASSOC_BLACK T) (\<lambda>T.
         bind_res (set_color xp ASSOC_RED T) (\<lambda>T.
         bind_res (left_rotate T xp) (\<lambda>T.
         bind_res (rd T xp) (\<lambda>pn. Inr (T, n_right pn)))))
       else Inr (T, w)))"

definition red_nephew_left :: "('k, 'v) rb_tree \<Rightarrow> nat \<Rightarrow> nat \<Rightarrow> (('k, 'v) rb_tree \<times> nat) res" where
  "red_nephew_left T xp w =
     bind_res (rd T w) (\<lambda>wn. bind_res (rd T (n_right wn)) (\<lambda>far.
      if n_color far = ASSOC_BLACK then
        c_assert (n_color wn = ASSOC_BLACK)
         (bind_res (rd T (n_left wn)) (\<lambda>near. c_assert (n_color near = ASSOC_RED)
          (bind_res (set_color (n_left wn) ASSOC_BLACK T) (\<lambda>T.
           bind_res (set_color w ASSOC_RED T) (\<lambda>T.
           bind_res (right_rotate T w) (\<lambda>T.
           bind_res (rd T xp) (\<lambda>pn. Inr (T, n_right pn))))))))
      else Inr (T, w)))"

definition last_rotation_left :: "('k, 'v) rb_tree \<Rightarrow> nat \<Rightarrow> nat \<Rightarrow> (('k, 'v) rb_tree \<times> nat) res" where
  "last_rotation_left T xp w =
     bind_res (rd T w) (\<lambda>wn. c_assert (n_color wn = ASSOC_BLACK)
      (bind_res (rd T (n_right wn)) (\<lambda>far. c_assert (n_color far = ASSOC_RED)
       (bind_res (rd T xp) (\<lambda>pn.
        bind_res (set_color w (n_color pn) T) (\<lambda>T.
        bind_res (set_color xp ASSOC_BLACK T) (\<lambda>T.
        bind_res (set_color (n_right wn) ASSOC_BLACK T) (\<lambda>T.
        bind_res (left_rotate T xp) (\<lambda>T. Inr (T, t_root T))))))))))"

definition delete_left :: "('k, 'v) rb_tree \<Rightarrow> nat \<Rightarrow> (('k, 'v) rb_tree \<times> nat) res" where
  "delete_left T xp =
     bind_res (red_sibling_left T xp) (\<lambda>(T, w).
     bind_res (rd T w) (\<lambda>wn. c_assert (n_color wn = ASSOC_BLACK)
      (bind_res (rd T (n_left wn)) (\<lambda>wl. bind_res (rd T (n_right wn)) (\<lambda>wr.
        if n_color wl = ASSOC_BLACK \<and> n_color wr = ASSOC_BLACK then
          bind_res (set_color w ASSOC_RED T) (\<lambda>T. Inr (T, xp))
        else
          bind_res (red_nephew_left T xp w) (\<lambda>(T, w). last_rotation_left T xp w))))))"

definition red_sibling_right :: "('k, 'v) rb_tree \<Rightarrow> nat \<Rightarrow> (('k, 'v) rb_tree \<times> nat) res" where
  "red_sibling_right T xp =
     bind_res (rd T xp) (\<lambda>pn.
      let w = n_left pn in
      bind_res (rd T w) (\<lambda>wn.
       if n_color wn = ASSOC_RED then
         bind_res (set_color w ASSOC_BLACK T) (\<lambda>T.
         bind_res (set_color xp ASSOC_RED T) (\<lambda>T.
         bind_res (right_rotate T xp) (\<lambda>T.
         bind_res (rd T xp) (\<lambda>pn. Inr (T, n_left pn)))))
       else Inr (T, w)))"

definition red_nephew_right :: "('k, 'v) rb_tree \<Rightarrow> nat \<Rightarrow> nat \<Rightarrow> (('k, 'v) rb_tree \<times> nat) res" where
  "red_nephew_right T xp w =
     bind_res (rd T w) (\<lambda>wn. bind_res (rd T (n_left wn)) (\<lambda>far.
      if n_color far = ASSOC_BLACK then
        c_assert (n_color wn = ASSOC_BLACK)
         (bind_res (rd T (n_right wn)) (\<lambda>near. c_assert (n_color near = ASSOC_RED)
          (bind_res (set_color (n_right wn) ASSOC_BLACK T) (\<lambda>T.
           bind_res (set_color w ASSOC_RED T) (\<lambda>T.
           bind_res (left_rotate T w) (\<lambda>T.
           bind_res (rd T xp) (\<lambda>pn. Inr (T, n_left pn))))))))
      else Inr (T, w)))"

definition last_rotation_right :: "('k, 'v) rb_tree \<Rightarrow> nat \<Rightarrow> nat \<Rightarrow> (('k, 'v) rb_tree \<times> nat) res" where
  "last_rotation_right T xp w =
     bind_res (rd T w) (\<lambda>wn. c_assert (n_color wn = ASSOC_BLACK)
      (bind_res (rd T (n_left wn)) (\<lambda>far. c_assert (n_color far = ASSOC_RED)
       (bind_res (rd T xp) (\<lambda>pn.
        bind_res (set_color w (n_color pn) T) (\<lambda>T.
        bind_res (set_color xp ASSOC_BLACK T) (\<lambda>T.
        bind_res (set_color (n_left wn) ASSOC_BLACK T) (\<lambda>T.
        bind_res (right_rotate T xp) (\<lambda>T. Inr (T, t_root T))))))))))"

definition delete_right :: "('k, 'v) rb_tree \<Rightarrow> nat \<Rightarrow> (('k, 'v) rb_tree \<times> nat) res" where
  "delete_right T xp =
     bind_res (red_sibling_right T xp) (\<lambda>(T, w).
     bind_res (rd T w) (\<lambda>wn. c_assert (n_color wn = ASSOC_BLACK)
      (bind_res (rd T (n_left wn)) (\<lambda>wl. bind_res (rd T (n_right wn)) (\<lambda>wr.
        if n_color wl = ASSOC_BLACK \<and> n_color wr = ASSOC_BLACK then
          bind_res (set_color w ASSOC_RED T) (\<lambda>T. Inr (T, xp))
        else
          bind_res (red_nephew_right T xp w) (\<lambda>(T, w). last_rotation_right T xp w))))))"

fun delete_fixup :: "nat \<Rightarrow> ('k, 'v) rb_tree \<Rightarrow> nat \<Rightarrow> ('k, 'v) rb_tree res" where
  "delete_fixup fuel T x =
     bind_res (rd T x) (\<lambda>xn.
      if x \<noteq> t_root T \<and> n_color xn = ASSOC_BLACK then
        (case fuel of 0 \<Rightarrow> Inl Diverged
         | Suc f \<Rightarrow>
           bind_res (rd T (n_parent xn)) (\<lambda>pn.
           bind_res (if x = n_left pn then delete_left T (n_parent xn)
                     else delete_right T (n_parent xn)) (\<lambda>(T, x).
             delete_fixup f T x)))
      else set_color x ASSOC_BLACK T)"

declare delete_fixup.simps [simp del]

definition transplant :: "('k, 'v) rb_tree \<Rightarrow> nat \<Rightarrow> nat \<Rightarrow> ('k, 'v) rb_tree res" where
  "transplant T u v =
     c_assert (u \<noteq> t_dummy T)
      (bind_res (rd T u) (\<lambda>un.
       bind_res (relink (n_parent un) u v T) (\<lambda>T.
         set_parent v (n_parent un) T)))"

fun minimum_loop :: "nat \<Rightarrow> ('k, 'v) rb_tree \<Rightarrow> nat \<Rightarrow> nat res" where
  "minimum_loop fuel T x =
     bind_res (rd T x) (\<lambda>xn.
       if n_left xn \<noteq> t_dummy T then
         (case fuel of 0 \<Rightarrow> Inl Diverged | Suc f \<Rightarrow> minimum_loop f T (n_left xn))
       else Inr x)"

declare minimum_loop.simps [simp del]

definition minimum :: "('k, 'v) rb_tree \<Rightarrow> nat \<Rightarrow> nat res" where
  "minimum T x =
     (if x = t_dummy T then Inr (t_dummy T) else minimum_loop (t_size T + 1) T x)"

fun find_rb_tree :: "nat \<Rightarrow> ('k, 'v) rb_tree \<Rightarrow> nat \<Rightarrow> 'k \<Rightarrow> nat res" where
  "find_rb_tree fuel T node key =
     (if node = t_dummy T then Inr node
      else case fuel of 0 \<Rightarrow> Inl Diverged
      | Suc f \<Rightarrow> bind_res (rd T node) (\<lambda>n. bind_res (node_key n) (\<lambda>k. bind_res (t_comp T key k) (\<lambda>rc.
          if rc = 1 then find_rb_tree f T (n_left n) key
          else if rc = -1 then find_rb_tree f T (n_right n) key
          else c_assert (rc = 0) (Inr node)))))"

declare find_rb_tree.simps [simp del]

definition assoc_rb_tree_extract_node :: "('k, 'v) rb_tree \<Rightarrow> nat \<Rightarrow> ('k, 'v) rb_tree res" where
  "assoc_rb_tree_extract_node T z =
     c_assert (z \<noteq> t_dummy T)
      (bind_res (rd T z) (\<lambda>zn.
        bind_res
          (if n_left zn = t_dummy T then
             map_res (\<lambda>T. (n_color zn, n_right zn, T)) (transplant T z (n_right zn))
           else if n_right zn = t_dummy T then
             map_res (\<lambda>T. (n_color zn, n_left zn, T)) (transplant T z (n_left zn))
           else
             bind_res (minimum T (n_right zn)) (\<lambda>y.
             bind_res (rd T y) (\<lambda>yn.
             bind_res (if n_parent yn = z then set_parent (n_right yn) y T
                       else bind_res (transplant T y (n_right yn)) (\<lambda>T.
                            bind_res (rd T z) (\<lambda>zn.
                            bind_res (set_right y (n_right zn) T) (\<lambda>T.
                              set_parent (n_right zn) y T)))) (\<lambda>T.
             bind_res (transplant T z y) (\<lambda>T.
             bind_res (rd T z) (\<lambda>zn.
             bind_res (set_left y (n_left zn) T) (\<lambda>T.
             bind_res (set_parent (n_left zn) y T) (\<lambda>T.
             map_res (\<lambda>T. (n_color yn, n_right yn, T)) (set_color y (n_color zn) T)))))))))
          (\<lambda>(original_color, x, T).
             if original_color = ASSOC_BLACK then delete_fixup (t_size T + 2) T x else Inr T)))"

text \<open>The value is read from the node after it was unlinked; then node and key are freed.\<close>

definition assoc_rb_tree_extract :: "('k, 'v) rb_tree \<Rightarrow> 'k \<Rightarrow> ('v \<times> ('k, 'v) rb_tree) res" where
  "assoc_rb_tree_extract T key =
     bind_res (find_rb_tree (t_size T + 1) T (t_root T) key) (\<lambda>z.
      c_assert (z \<noteq> t_dummy T)
       (bind_res (assoc_rb_tree_extract_node T z) (\<lambda>T.
        bind_res (rd T z) (\<lambda>zn.
         case n_value zn of None \<Rightarrow> Inl UseOfNull
         | Some val \<Rightarrow>
             c_assert (t_size T \<noteq> 0)
              (Inr (val, (free_node_rb_tree z T)\<lparr>t_size := t_size T - 1\<rparr>))))))"

text \<open>What \<open>free_func\<close> is called on, and the tree.\<close>

definition assoc_rb_tree_free_it ::
  "('k, 'v) rb_tree \<Rightarrow> nat \<Rightarrow> (('k option \<times> 'v option) \<times> ('k, 'v) rb_tree) res" where
  "assoc_rb_tree_free_it T it =
     c_assert (it \<noteq> t_dummy T)
      (bind_res (assoc_rb_tree_extract_node T it) (\<lambda>T.
       bind_res (rd T it) (\<lambda>zn.
        c_assert (t_size T \<noteq> 0)
         (Inr ((n_key zn, n_value zn), (free_node_rb_tree it T)\<lparr>t_size := t_size T - 1\<rparr>)))))"

section \<open>Iteration\<close>

definition assoc_rb_tree_front :: "('k, 'v) rb_tree \<Rightarrow> nat res" where
  "assoc_rb_tree_front T = minimum T (t_root T)"

fun climb :: "nat \<Rightarrow> ('k, 'v) rb_tree \<Rightarrow> nat \<Rightarrow> nat \<Rightarrow> nat res" where
  "climb fuel T node p =
     (if p = t_dummy T then Inr p
      else bind_res (rd T p) (\<lambda>pn.
        if n_left pn \<noteq> node then
          (case fuel of 0 \<Rightarrow> Inl Diverged | Suc f \<Rightarrow> climb f T p (n_parent pn))
        else Inr p))"

declare climb.simps [simp del]

definition assoc_rb_tree_next :: "('k, 'v) rb_tree \<Rightarrow> nat \<Rightarrow> nat res" where
  "assoc_rb_tree_next T it =
     c_assert (it \<noteq> t_dummy T)
      (bind_res (rd T it) (\<lambda>n.
        if n_right n \<noteq> t_dummy T then minimum T (n_right n)
        else climb (t_size T + 1) T it (n_parent n)))"

definition assoc_rb_tree_end :: "('k, 'v) rb_tree \<Rightarrow> nat" where
  "assoc_rb_tree_end T = t_dummy T"

definition assoc_rb_tree_key :: "('k, 'v) rb_tree \<Rightarrow> nat \<Rightarrow> 'k res" where
  "assoc_rb_tree_key T it = c_assert (it \<noteq> t_dummy T) (bind_res (rd T it) node_key)"

definition assoc_rb_tree_value :: "('k, 'v) rb_tree \<Rightarrow> nat \<Rightarrow> 'v res" where
  "assoc_rb_tree_value T it =
     c_assert (it \<noteq> t_dummy T)
      (bind_res (rd T it) (\<lambda>n. case n_value n of None \<Rightarrow> Inl UseOfNull | Some v \<Rightarrow> Inr v))"

definition assoc_rb_tree_size :: "('k, 'v) rb_tree \<Rightarrow> nat" where
  "assoc_rb_tree_size T = t_size T"

text \<open>\<open>find_if_rb_tree\<close> of \<open>alg/find.c\<close>: the first key that satisfies the test, or \<open>end_it\<close>.\<close>

fun find_if_rb_loop ::
  "nat \<Rightarrow> ('k, 'v) rb_tree \<Rightarrow> nat \<Rightarrow> nat \<Rightarrow> ('k \<Rightarrow> bool res) \<Rightarrow> nat res" where
  "find_if_rb_loop fuel T start_it end_it f =
     (if start_it = end_it then Inr start_it
      else case fuel of 0 \<Rightarrow> Inl Diverged
      | Suc fu \<Rightarrow> bind_res (assoc_rb_tree_key T start_it) (\<lambda>k. bind_res (f k) (\<lambda>b.
          if b then Inr start_it
          else bind_res (assoc_rb_tree_next T start_it) (\<lambda>nxt. find_if_rb_loop fu T nxt end_it f))))"

declare find_if_rb_loop.simps [simp del]

definition find_if_rb_tree ::
  "('k, 'v) rb_tree \<Rightarrow> nat \<Rightarrow> nat \<Rightarrow> 'u \<Rightarrow> ('u \<Rightarrow> 'k \<Rightarrow> bool res) \<Rightarrow> nat res" where
  "find_if_rb_tree T start_it end_it val f = find_if_rb_loop (t_size T + 1) T start_it end_it (f val)"

end
