(* ===== verification/Assoc_Rb_Shape.thy ===== *)
theory Assoc_Rb_Shape
  imports Assoc_Rb_Tree "HOL-Library.Tree"
begin

text \<open>
  The shape of the red-black tree in the heap. \<open>tree_at\<close> says that a heap holds a given tree below
  a given parent, \<open>ctx_at\<close> that it holds the rest of the tree around a focus (the path to the
  root with the subtrees beside it), and \<open>zipped\<close> joins the two: an operation at a node of the
  tree is a computation on the focus and the frames next to it. The lemmas of this theory move the
  focus and describe reads, colour changes, rotations and transplants.
\<close>

type_synonym ('k, 'v) item = "nat \<times> assoc_color \<times> 'k \<times> 'v"
type_synonym ('k, 'v) rbt = "('k, 'v) item tree"

datatype ('k, 'v) frame = FL "('k, 'v) item" "('k, 'v) rbt" | FR "('k, 'v) rbt" "('k, 'v) item"

type_synonym ('k, 'v) ctx = "('k, 'v) frame list"

definition mk_node :: "'k \<Rightarrow> 'v \<Rightarrow> nat \<Rightarrow> nat \<Rightarrow> nat \<Rightarrow> assoc_color \<Rightarrow> ('k, 'v) rb_node" where
  "mk_node k v p l r c =
     \<lparr>n_key = Some k, n_value = Some v, n_parent = p, n_left = l, n_right = r, n_color = c\<rparr>"

lemma mk_node_simps [simp]:
  "n_key (mk_node k v p l r c) = Some k" "n_value (mk_node k v p l r c) = Some v"
  "n_parent (mk_node k v p l r c) = p" "n_left (mk_node k v p l r c) = l"
  "n_right (mk_node k v p l r c) = r" "n_color (mk_node k v p l r c) = c"
  "(mk_node k v p l r c)\<lparr>n_parent := p'\<rparr> = mk_node k v p' l r c"
  "(mk_node k v p l r c)\<lparr>n_left := l'\<rparr> = mk_node k v p l' r c"
  "(mk_node k v p l r c)\<lparr>n_right := r'\<rparr> = mk_node k v p l r' c"
  "(mk_node k v p l r c)\<lparr>n_color := c'\<rparr> = mk_node k v p l r c'"
  "mk_node k v p l r c = mk_node k' v' p' l' r' c' \<longleftrightarrow>
     k = k' \<and> v = v' \<and> p = p' \<and> l = l' \<and> r = r' \<and> c = c'"
  by (simp_all add: mk_node_def)

section \<open>Trees and contexts in the heap\<close>

lemma rbt_cases:
  obtains "t = Leaf" | l a c k v r where "t = Node l (a, c, k, v) r"
  by (cases t; cases "tree.value t"; auto)

fun addr :: "nat \<Rightarrow> ('k, 'v) rbt \<Rightarrow> nat" where
  "addr d Leaf = d"
| "addr d (Node l (a, c, k, v) r) = a"

fun addrs :: "('k, 'v) rbt \<Rightarrow> nat list" where
  "addrs Leaf = []"
| "addrs (Node l (a, c, k, v) r) = addrs l @ a # addrs r"

fun color_of :: "('k, 'v) rbt \<Rightarrow> assoc_color" where
  "color_of Leaf = ASSOC_BLACK"
| "color_of (Node l (a, c, k, v) r) = c"

fun tree_at :: "nat \<Rightarrow> (nat \<Rightarrow> ('k, 'v) rb_node option) \<Rightarrow> nat \<Rightarrow> ('k, 'v) rbt \<Rightarrow> bool" where
  "tree_at d h p Leaf \<longleftrightarrow> True"
| "tree_at d h p (Node l (a, c, k, v) r) \<longleftrightarrow>
     h a = Some (mk_node k v p (addr d l) (addr d r) c) \<and> tree_at d h a l \<and> tree_at d h a r"

fun frame_addr :: "('k, 'v) frame \<Rightarrow> nat" where
  "frame_addr (FL (a, c, k, v) r) = a"
| "frame_addr (FR l (a, c, k, v)) = a"

fun frame_color :: "('k, 'v) frame \<Rightarrow> assoc_color" where
  "frame_color (FL (a, c, k, v) r) = c"
| "frame_color (FR l (a, c, k, v)) = c"

fun par :: "nat \<Rightarrow> ('k, 'v) ctx \<Rightarrow> nat" where
  "par d [] = d"
| "par d (f # ctx) = frame_addr f"

fun ctx_addrs :: "('k, 'v) ctx \<Rightarrow> nat list" where
  "ctx_addrs [] = []"
| "ctx_addrs (FL (a, c, k, v) r # ctx) = a # addrs r @ ctx_addrs ctx"
| "ctx_addrs (FR l (a, c, k, v) # ctx) = a # addrs l @ ctx_addrs ctx"

fun ctx_at :: "nat \<Rightarrow> (nat \<Rightarrow> ('k, 'v) rb_node option) \<Rightarrow> nat \<Rightarrow> ('k, 'v) ctx \<Rightarrow> nat \<Rightarrow> bool" where
  "ctx_at d h root [] foc \<longleftrightarrow> root = foc"
| "ctx_at d h root (FL (a, c, k, v) r # ctx) foc \<longleftrightarrow>
     h a = Some (mk_node k v (par d ctx) foc (addr d r) c) \<and> tree_at d h a r \<and> ctx_at d h root ctx a"
| "ctx_at d h root (FR l (a, c, k, v) # ctx) foc \<longleftrightarrow>
     h a = Some (mk_node k v (par d ctx) (addr d l) foc c) \<and> tree_at d h a l \<and> ctx_at d h root ctx a"

fun plug1 :: "('k, 'v) frame \<Rightarrow> ('k, 'v) rbt \<Rightarrow> ('k, 'v) rbt" where
  "plug1 (FL x r) t = Node t x r"
| "plug1 (FR l x) t = Node l x t"

fun plug :: "('k, 'v) ctx \<Rightarrow> ('k, 'v) rbt \<Rightarrow> ('k, 'v) rbt" where
  "plug [] t = t"
| "plug (f # ctx) t = plug ctx (plug1 f t)"

text \<open>
  The tree \<open>T\<close> is the focus \<open>t\<close> in the context \<open>ctx\<close>, the dummy is black, and nothing of it is
  at or above the next address of the allocator.
\<close>

definition zipped :: "('k, 'v) rb_tree \<Rightarrow> ('k, 'v) ctx \<Rightarrow> ('k, 'v) rbt \<Rightarrow> bool" where
  "zipped T ctx t \<longleftrightarrow>
     ctx_at (t_dummy T) (t_heap T) (t_root T) ctx (addr (t_dummy T) t) \<and>
     tree_at (t_dummy T) (t_heap T) (par (t_dummy T) ctx) t \<and>
     distinct (addrs t @ ctx_addrs ctx) \<and> t_dummy T \<notin> set (addrs t) \<and> t_dummy T \<notin> set (ctx_addrs ctx) \<and>
     (\<exists>n. t_heap T (t_dummy T) = Some n \<and> n_color n = ASSOC_BLACK)"

text \<open>
  What reads, colour changes, rotations leave alone: everything but the links and colours of the
  tree's nodes. \<open>payload\<close> is the key and value of every node there is, in the tree or not.
\<close>

definition payload :: "(nat \<Rightarrow> ('k, 'v) rb_node option) \<Rightarrow> nat \<Rightarrow> ('k option \<times> 'v option) option" where
  "payload h a = map_option (\<lambda>n. (n_key n, n_value n)) (h a)"

lemma payload_upd [simp]:
  "h a = Some n \<Longrightarrow> n_key x = n_key n \<Longrightarrow> n_value x = n_value n \<Longrightarrow> payload (h(a \<mapsto> x)) = payload h"
  by (simp add: payload_def fun_eq_iff)

definition env :: "('k, 'v) rb_tree \<Rightarrow> _" where
  "env T = (t_dummy T, t_comp T, t_size T, t_key_sz T, t_brk T, dom (t_heap T),
     t_heap T (t_dummy T), payload (t_heap T))"

lemma env_eq: "env T = env T' \<longleftrightarrow> t_dummy T = t_dummy T' \<and> t_comp T = t_comp T' \<and>
   t_size T = t_size T' \<and> t_key_sz T = t_key_sz T' \<and> t_brk T = t_brk T' \<and>
   dom (t_heap T) = dom (t_heap T') \<and> t_heap T (t_dummy T) = t_heap T' (t_dummy T') \<and>
   payload (t_heap T) = payload (t_heap T')"
  by (simp add: env_def)

lemma tree_at_frame [simp]:
  "a \<notin> set (addrs t) \<Longrightarrow> tree_at d (h(a := x)) p t = tree_at d h p t"
  by (induction d h p t rule: tree_at.induct) auto

lemma ctx_at_frame [simp]:
  "a \<notin> set (ctx_addrs ctx) \<Longrightarrow> ctx_at d (h(a := x)) root ctx foc = ctx_at d h root ctx foc"
  by (induction d h root ctx foc rule: ctx_at.induct) auto

lemma zipped_up: "zipped T (f # ctx) t \<longleftrightarrow> zipped T ctx (plug1 f t)"
proof (cases f)
  case (FL x r)
  then show ?thesis by (cases x) (auto simp: zipped_def)
next
  case (FR l x)
  then show ?thesis by (cases x) (auto simp: zipped_def)
qed

lemma zipped_plug: "zipped T (ctx @ ctx') t \<longleftrightarrow> zipped T ctx' (plug ctx t)"
  by (induction ctx arbitrary: t) (auto simp: zipped_up)

lemma zipped_whole: "zipped T ctx t \<longleftrightarrow> zipped T [] (plug ctx t)"
  using zipped_plug [of T ctx "[]" t] by simp

lemma zipped_left: "zipped T ctx (Node l x r) \<longleftrightarrow> zipped T (FL x r # ctx) l"
  by (simp add: zipped_up)

lemma zipped_right: "zipped T ctx (Node l x r) \<longleftrightarrow> zipped T (FR l x # ctx) r"
  by (simp add: zipped_up)

lemma plug_append: "plug (ctx @ ctx') t = plug ctx' (plug ctx t)"
  by (induction ctx arbitrary: t) auto

section \<open>Reads\<close>

lemma rd_node:
  "zipped T ctx (Node l (a, c, k, v) r) \<Longrightarrow>
   rd T a = Inr (mk_node k v (par (t_dummy T) ctx) (addr (t_dummy T) l) (addr (t_dummy T) r) c)"
  by (simp add: zipped_def rd_def)

lemma rd_par:
  assumes "zipped T (f # ctx) t"
  shows "rd T (frame_addr f) = Inr (case f of
      FL (a, c, k, v) r \<Rightarrow> mk_node k v (par (t_dummy T) ctx) (addr (t_dummy T) t) (addr (t_dummy T) r) c
    | FR l (a, c, k, v) \<Rightarrow> mk_node k v (par (t_dummy T) ctx) (addr (t_dummy T) l) (addr (t_dummy T) t) c)"
proof (cases f)
  case (FL x r)
  then show ?thesis using assms by (cases x) (auto simp: zipped_def rd_def)
next
  case (FR l x)
  then show ?thesis using assms by (cases x) (auto simp: zipped_def rd_def)
qed

text \<open>The colour at an address that may be the dummy's.\<close>

lemma rd_color:
  assumes "zipped T ctx t"
  shows "\<exists>n. rd T (addr (t_dummy T) t) = Inr n \<and> n_color n = color_of t \<and>
    (t \<noteq> Leaf \<longrightarrow> n_parent n = par (t_dummy T) ctx)"
proof (cases t rule: rbt_cases)
  case 1
  then show ?thesis using assms by (auto simp: zipped_def rd_def)
next
  case (2 l a c k v r)
  then show ?thesis using rd_node [of T ctx l a c k v r] assms by auto
qed

lemma rd_par_color:
  assumes "zipped T ctx t"
  shows "\<exists>n. rd T (par (t_dummy T) ctx) = Inr n \<and>
    n_color n = (case ctx of [] \<Rightarrow> ASSOC_BLACK | f # _ \<Rightarrow> frame_color f)"
proof (cases ctx)
  case Nil
  then show ?thesis using assms by (auto simp: zipped_def rd_def)
next
  case (Cons f ctx')
  then show ?thesis using rd_par [of T f ctx' t] assms
    by (cases f) (auto split: prod.splits)
qed

lemma rd_child_color:
  assumes "zipped T ctx (Node l x r)"
  shows "\<exists>n. rd T (addr (t_dummy T) l) = Inr n \<and> n_color n = color_of l"
    "\<exists>n. rd T (addr (t_dummy T) r) = Inr n \<and> n_color n = color_of r"
  using rd_color [of T "FL x r # ctx" l] rd_color [of T "FR l x # ctx" r] assms
  by (auto simp: zipped_up)

lemma addr_ne_dummy: "zipped T ctx (Node l (a, c, k, v) r) \<Longrightarrow> a \<noteq> t_dummy T"
  by (auto simp: zipped_def)

lemma par_ne_dummy: "zipped T (f # ctx) t \<Longrightarrow> par (t_dummy T) (f # ctx) \<noteq> t_dummy T"
  by (cases f) (auto simp: zipped_def split: prod.splits)

lemma addr_dummy_iff: "zipped T ctx t \<Longrightarrow> addr (t_dummy T) t = t_dummy T \<longleftrightarrow> t = Leaf"
  by (cases t rule: rbt_cases) (auto simp: zipped_def)

lemma root_plug: "zipped T ctx t \<Longrightarrow> t_root T = addr (t_dummy T) (plug ctx t)"
  by (simp add: zipped_whole [of T ctx t]) (simp add: zipped_def)

section \<open>Colour changes\<close>

lemma set_color_ok:
  assumes "zipped T ctx (Node l (a, c, k, v) r)"
  shows "\<exists>T'. set_color a c' T = Inr T' \<and> zipped T' ctx (Node l (a, c', k, v) r) \<and> env T' = env T"
  using assms by (auto simp: zipped_def wr_def env_def)

text \<open>Blackening the focus, which may be the dummy.\<close>

fun paint :: "assoc_color \<Rightarrow> ('k, 'v) rbt \<Rightarrow> ('k, 'v) rbt" where
  "paint c Leaf = Leaf"
| "paint c (Node l (a, c', k, v) r) = Node l (a, c, k, v) r"

lemma set_black_ok:
  assumes z: "zipped T ctx t"
  shows "\<exists>T'. set_color (addr (t_dummy T) t) ASSOC_BLACK T = Inr T' \<and>
    zipped T' ctx (paint ASSOC_BLACK t) \<and> env T' = env T"
proof (cases t rule: rbt_cases)
  case 1
  then show ?thesis using z by (auto simp: zipped_def wr_def env_def)
next
  case (2 l a c k v r)
  then show ?thesis using set_color_ok [of T ctx l a c k v r ASSOC_BLACK] z by auto
qed

section \<open>Rotations\<close>

lemma tree_at_cong:
  "(\<And>a. a \<in> set (addrs t) \<Longrightarrow> h a = h' a) \<Longrightarrow> tree_at d h p t \<Longrightarrow> tree_at d h' p t"
proof (induction t arbitrary: p)
  case (Node l x r)
  then show ?case by (cases x) auto
qed simp

text \<open>\<open>relink\<close> exchanges the focus: only the context's first node or the root changes.\<close>

lemma relink_ok:
  assumes "ctx_at (t_dummy T) (t_heap T) (t_root T) ctx u"
    and "distinct (ctx_addrs ctx)" "t_dummy T \<notin> set (ctx_addrs ctx)"
    and "u \<noteq> t_dummy T" "u \<notin> set (ctx_addrs ctx)"
  shows "\<exists>h' root'. relink (par (t_dummy T) ctx) u v T = Inr (T\<lparr>t_heap := h', t_root := root'\<rparr>) \<and>
    ctx_at (t_dummy T) h' root' ctx v \<and> (\<forall>a. a \<notin> set (ctx_addrs ctx) \<longrightarrow> h' a = t_heap T a) \<and>
    dom h' = dom (t_heap T) \<and> payload h' = payload (t_heap T)"
proof (cases ctx rule: ctx_addrs.cases)
  case 1
  then show ?thesis
    by (intro exI [of _ "t_heap T"] exI [of _ v]) (simp add: relink_def)
next
  case (2 a c k v' r ctx')
  then show ?thesis using assms
    by (intro exI [of _ "(t_heap T)(a \<mapsto> mk_node k v' (par (t_dummy T) ctx') v (addr (t_dummy T) r) c)"]
        exI [of _ "t_root T"]) (auto simp: relink_def rd_def wr_def)
next
  case (3 l a c k v' ctx')
  have "u \<noteq> addr (t_dummy T) l"
    using assms(4,5) 3 by (cases l rule: rbt_cases) auto
  with 3 show ?thesis using assms
    by (intro exI [of _ "(t_heap T)(a \<mapsto> mk_node k v' (par (t_dummy T) ctx') (addr (t_dummy T) l) v c)"]
        exI [of _ "t_root T"]) (auto simp: relink_def rd_def wr_def)
qed

lemma left_rotate_ok:
  assumes z: "zipped T ctx (Node A (x, cx, kx, vx) (Node B (y, cy, ky, vy) C))"
  shows "\<exists>T'. left_rotate T x = Inr T' \<and> zipped T' ctx (Node (Node A (x, cx, kx, vx) B) (y, cy, ky, vy) C) \<and> env T' = env T"
proof -
  let ?d = "t_dummy T" and ?h = "t_heap T"
  define h1 where "h1 = ?h(x \<mapsto> mk_node kx vx (par ?d ctx) (addr ?d A) (addr ?d B) cx)"
  define h2 where "h2 = (case B of Leaf \<Rightarrow> h1 | Node Bl (b, cb, kb, vb) Br \<Rightarrow>
     h1(b \<mapsto> mk_node kb vb x (addr ?d Bl) (addr ?d Br) cb))"
  define h3 where "h3 = h2(y \<mapsto> mk_node ky vy (par ?d ctx) (addr ?d B) (addr ?d C) cy)"
  note zd = z [unfolded zipped_def]
  have ne: "x \<noteq> ?d" "y \<noteq> ?d" "x \<noteq> y" "x \<notin> set (ctx_addrs ctx)" "y \<notin> set (ctx_addrs ctx)"
    "x \<notin> set (addrs A)" "x \<notin> set (addrs B)" "x \<notin> set (addrs C)"
    "y \<notin> set (addrs A)" "y \<notin> set (addrs B)" "y \<notin> set (addrs C)"
    "?d \<notin> set (addrs A)" "?d \<notin> set (addrs B)" "?d \<notin> set (addrs C)" "?d \<notin> set (ctx_addrs ctx)"
    "set (addrs B) \<inter> set (addrs A) = {}" "set (addrs B) \<inter> set (addrs C) = {}"
    "set (addrs A) \<inter> set (ctx_addrs ctx) = {}" "set (addrs B) \<inter> set (ctx_addrs ctx) = {}"
    "set (addrs C) \<inter> set (ctx_addrs ctx) = {}"
    using zd by auto
  have h3_other: "h3 a = ?h a" if "a \<noteq> x" "a \<noteq> y" "a \<notin> set (addrs B)" for a
    using that by (cases B rule: rbt_cases) (auto simp: h3_def h2_def h1_def)
  have dom3: "dom h3 = dom ?h"
    using zd by (cases B rule: rbt_cases) (auto simp: h3_def h2_def h1_def)
  have pay3: "payload h3 = payload ?h"
    using zd by (cases B rule: rbt_cases) (auto simp: h3_def h2_def h1_def)
  have "ctx_at ?d h3 (t_root T) ctx x"
    using zd ne by (cases B rule: rbt_cases) (auto simp: h3_def h2_def h1_def)
  then obtain h4 root4 where h4: "relink (par ?d ctx) x y (T\<lparr>t_heap := h3\<rparr>) = Inr (T\<lparr>t_heap := h4, t_root := root4\<rparr>)"
    "ctx_at ?d h4 root4 ctx y" "\<And>a. a \<notin> set (ctx_addrs ctx) \<Longrightarrow> h4 a = h3 a" "dom h4 = dom h3" "payload h4 = payload h3"
    using relink_ok [of "T\<lparr>t_heap := h3\<rparr>" ctx x y] zd ne by auto
  define h5 where "h5 = h4(y \<mapsto> mk_node ky vy (par ?d ctx) x (addr ?d C) cy, x \<mapsto> mk_node kx vx y (addr ?d A) (addr ?d B) cx)"
  have h3x: "h3 x = Some (mk_node kx vx (par ?d ctx) (addr ?d A) (addr ?d B) cx)"
    using ne by (cases B rule: rbt_cases) (auto simp: h3_def h2_def h1_def)
  have run: "left_rotate T x = Inr (T\<lparr>t_heap := h5, t_root := root4\<rparr>)"
  proof (cases B rule: rbt_cases)
    case 1
    then have "h3 = ?h(x \<mapsto> mk_node kx vx (par ?d ctx) (addr ?d A) (addr ?d B) cx, y \<mapsto> mk_node ky vy (par ?d ctx) (addr ?d B) (addr ?d C) cy)" by (simp add: h3_def h2_def h1_def)
    with 1 show ?thesis
      using zd ne h4(1) h4(3) [of x] h4(3) [of y] h3x
      by (simp add: left_rotate_def rd_def wr_def h5_def)
  next
    case (2 Bl b cb kb vb Br)
    then have "h3 = ?h(x \<mapsto> mk_node kx vx (par ?d ctx) (addr ?d A) (addr ?d B) cx, b \<mapsto> mk_node kb vb x (addr ?d Bl) (addr ?d Br) cb, y \<mapsto> mk_node ky vy (par ?d ctx) (addr ?d B) (addr ?d C) cy)"
      by (simp add: h3_def h2_def h1_def)
    with 2 show ?thesis
      using zd ne h4(1) h4(3) [of x] h4(3) [of y] h3x
      by (simp add: left_rotate_def rd_def wr_def h5_def)
  qed
  have h5_other: "h5 a = h3 a" if "a \<noteq> x" "a \<noteq> y" "a \<notin> set (ctx_addrs ctx)" for a
    using that h4(3) by (simp add: h5_def)
  have AC: "?h a = h5 a" if a: "a \<in> set (addrs A) \<or> a \<in> set (addrs C)" for a
  proof -
    have "a \<noteq> x" "a \<noteq> y" "a \<notin> set (ctx_addrs ctx)" "a \<notin> set (addrs B)" using a ne by auto
    then show ?thesis by (simp add: h5_other h3_other)
  qed
  have "tree_at ?d ?h x A" "tree_at ?d ?h y C" using zd by auto
  then have A: "tree_at ?d h5 x A" and C: "tree_at ?d h5 y C"
    using tree_at_cong [of A ?h h5] tree_at_cong [of C ?h h5] AC by auto
  have B: "tree_at ?d h5 x B"
  proof (cases B rule: rbt_cases)
    case (2 Bl b cb kb vb Br)
    then have "tree_at ?d h3 x B"
      using zd ne by (auto simp: h3_def h2_def h1_def)
    moreover have "h3 a = h5 a" if "a \<in> set (addrs B)" for a
      using that ne by (subst h5_other) auto
    ultimately show ?thesis by (rule tree_at_cong [rotated])
  qed simp
  have "zipped (T\<lparr>t_heap := h5, t_root := root4\<rparr>) ctx (Node (Node A (x, cx, kx, vx) B) (y, cy, ky, vy) C)"
    using A B C h4(2) zd ne h5_other [of ?d] h3_other [of ?d] by (auto simp: zipped_def h5_def)
  moreover have "env (T\<lparr>t_heap := h5, t_root := root4\<rparr>) = env T"
    using dom3 pay3 h4(4,5) h4(3) [of x] h4(3) [of y] zd ne h5_other [of ?d] h3_other [of ?d] h3x
    by (auto simp: env_def h5_def h3_def)
  ultimately show ?thesis using run by blast
qed

lemma right_rotate_ok:
  assumes z: "zipped T ctx (Node (Node C (y, cy, ky, vy) B) (x, cx, kx, vx) A)"
  shows "\<exists>T'. right_rotate T x = Inr T' \<and> zipped T' ctx (Node C (y, cy, ky, vy) (Node B (x, cx, kx, vx) A)) \<and> env T' = env T"
proof -
  let ?d = "t_dummy T" and ?h = "t_heap T"
  define h1 where "h1 = ?h(x \<mapsto> mk_node kx vx (par ?d ctx) (addr ?d B) (addr ?d A) cx)"
  define h2 where "h2 = (case B of Leaf \<Rightarrow> h1 | Node Bl (b, cb, kb, vb) Br \<Rightarrow>
     h1(b \<mapsto> mk_node kb vb x (addr ?d Bl) (addr ?d Br) cb))"
  define h3 where "h3 = h2(y \<mapsto> mk_node ky vy (par ?d ctx) (addr ?d C) (addr ?d B) cy)"
  note zd = z [unfolded zipped_def]
  have ne: "x \<noteq> ?d" "y \<noteq> ?d" "x \<noteq> y" "x \<notin> set (ctx_addrs ctx)" "y \<notin> set (ctx_addrs ctx)"
    "x \<notin> set (addrs A)" "x \<notin> set (addrs B)" "x \<notin> set (addrs C)"
    "y \<notin> set (addrs A)" "y \<notin> set (addrs B)" "y \<notin> set (addrs C)"
    "?d \<notin> set (addrs A)" "?d \<notin> set (addrs B)" "?d \<notin> set (addrs C)" "?d \<notin> set (ctx_addrs ctx)"
    "set (addrs B) \<inter> set (addrs A) = {}" "set (addrs B) \<inter> set (addrs C) = {}"
    "set (addrs A) \<inter> set (ctx_addrs ctx) = {}" "set (addrs B) \<inter> set (ctx_addrs ctx) = {}"
    "set (addrs C) \<inter> set (ctx_addrs ctx) = {}"
    using zd by auto
  have h3_other: "h3 a = ?h a" if "a \<noteq> x" "a \<noteq> y" "a \<notin> set (addrs B)" for a
    using that by (cases B rule: rbt_cases) (auto simp: h3_def h2_def h1_def)
  have dom3: "dom h3 = dom ?h"
    using zd by (cases B rule: rbt_cases) (auto simp: h3_def h2_def h1_def)
  have pay3: "payload h3 = payload ?h"
    using zd by (cases B rule: rbt_cases) (auto simp: h3_def h2_def h1_def)
  have "ctx_at ?d h3 (t_root T) ctx x"
    using zd ne by (cases B rule: rbt_cases) (auto simp: h3_def h2_def h1_def)
  then obtain h4 root4 where h4: "relink (par ?d ctx) x y (T\<lparr>t_heap := h3\<rparr>) = Inr (T\<lparr>t_heap := h4, t_root := root4\<rparr>)"
    "ctx_at ?d h4 root4 ctx y" "\<And>a. a \<notin> set (ctx_addrs ctx) \<Longrightarrow> h4 a = h3 a" "dom h4 = dom h3" "payload h4 = payload h3"
    using relink_ok [of "T\<lparr>t_heap := h3\<rparr>" ctx x y] zd ne by auto
  define h5 where "h5 = h4(y \<mapsto> mk_node ky vy (par ?d ctx) (addr ?d C) x cy, x \<mapsto> mk_node kx vx y (addr ?d B) (addr ?d A) cx)"
  have h3x: "h3 x = Some (mk_node kx vx (par ?d ctx) (addr ?d B) (addr ?d A) cx)"
    using ne by (cases B rule: rbt_cases) (auto simp: h3_def h2_def h1_def)
  have run: "right_rotate T x = Inr (T\<lparr>t_heap := h5, t_root := root4\<rparr>)"
  proof (cases B rule: rbt_cases)
    case 1
    then have "h3 = ?h(x \<mapsto> mk_node kx vx (par ?d ctx) (addr ?d B) (addr ?d A) cx, y \<mapsto> mk_node ky vy (par ?d ctx) (addr ?d C) (addr ?d B) cy)" by (simp add: h3_def h2_def h1_def)
    with 1 show ?thesis
      using zd ne h4(1) h4(3) [of x] h4(3) [of y] h3x
      by (simp add: right_rotate_def rd_def wr_def h5_def)
  next
    case (2 Bl b cb kb vb Br)
    then have "h3 = ?h(x \<mapsto> mk_node kx vx (par ?d ctx) (addr ?d B) (addr ?d A) cx, b \<mapsto> mk_node kb vb x (addr ?d Bl) (addr ?d Br) cb, y \<mapsto> mk_node ky vy (par ?d ctx) (addr ?d C) (addr ?d B) cy)"
      by (simp add: h3_def h2_def h1_def)
    with 2 show ?thesis
      using zd ne h4(1) h4(3) [of x] h4(3) [of y] h3x
      by (simp add: right_rotate_def rd_def wr_def h5_def)
  qed
  have h5_other: "h5 a = h3 a" if "a \<noteq> x" "a \<noteq> y" "a \<notin> set (ctx_addrs ctx)" for a
    using that h4(3) by (simp add: h5_def)
  have AC: "?h a = h5 a" if a: "a \<in> set (addrs A) \<or> a \<in> set (addrs C)" for a
  proof -
    have "a \<noteq> x" "a \<noteq> y" "a \<notin> set (ctx_addrs ctx)" "a \<notin> set (addrs B)" using a ne by auto
    then show ?thesis by (simp add: h5_other h3_other)
  qed
  have "tree_at ?d ?h x A" "tree_at ?d ?h y C" using zd by auto
  then have A: "tree_at ?d h5 x A" and C: "tree_at ?d h5 y C"
    using tree_at_cong [of A ?h h5] tree_at_cong [of C ?h h5] AC by auto
  have B: "tree_at ?d h5 x B"
  proof (cases B rule: rbt_cases)
    case (2 Bl b cb kb vb Br)
    then have "tree_at ?d h3 x B"
      using zd ne by (auto simp: h3_def h2_def h1_def)
    moreover have "h3 a = h5 a" if "a \<in> set (addrs B)" for a
      using that ne by (subst h5_other) auto
    ultimately show ?thesis by (rule tree_at_cong [rotated])
  qed simp
  have "zipped (T\<lparr>t_heap := h5, t_root := root4\<rparr>) ctx (Node C (y, cy, ky, vy) (Node B (x, cx, kx, vx) A))"
    using A B C h4(2) zd ne h5_other [of ?d] h3_other [of ?d] by (auto simp: zipped_def h5_def)
  moreover have "env (T\<lparr>t_heap := h5, t_root := root4\<rparr>) = env T"
    using dom3 pay3 h4(4,5) h4(3) [of x] h4(3) [of y] zd ne h5_other [of ?d] h3_other [of ?d] h3x
    by (auto simp: env_def h5_def h3_def)
  ultimately show ?thesis using run by blast
qed

end
