(* ===== verification/Assoc_Rb_Insert.thy ===== *)
theory Assoc_Rb_Insert
  imports Assoc_Rb_Shape
begin

text \<open>
  Insertion into the red-black tree: the balance of a tree and of a context, the contents in order,
  and \<open>insert_fixup\<close>, whose loop restores the balance while the focus moves towards the root. The
  heads of the lemmas speak of the heap (\<open>zipped\<close>), their conclusions of the contents and the
  balance of the tree in it.
\<close>

section \<open>Balance and contents\<close>

fun black_height :: "('k, 'v) rbt \<Rightarrow> nat" where
  "black_height Leaf = 0"
| "black_height (Node l (a, c, k, v) r) = black_height l + (if c = ASSOC_BLACK then 1 else 0)"

fun balanced :: "('k, 'v) rbt \<Rightarrow> bool" where
  "balanced Leaf \<longleftrightarrow> True"
| "balanced (Node l (a, c, k, v) r) \<longleftrightarrow>
     balanced l \<and> balanced r \<and> black_height l = black_height r \<and>
     (c = ASSOC_RED \<longrightarrow> color_of l = ASSOC_BLACK \<and> color_of r = ASSOC_BLACK)"

text \<open>
  A context that is balanced around a focus of black height \<open>n\<close>. A red frame needs a black one
  above it, so the root is black.
\<close>

fun ctx_color :: "('k, 'v) ctx \<Rightarrow> assoc_color" where
  "ctx_color [] = ASSOC_RED"
| "ctx_color (f # ctx) = frame_color f"

fun ctx_ok :: "nat \<Rightarrow> ('k, 'v) ctx \<Rightarrow> bool" where
  "ctx_ok n [] \<longleftrightarrow> True"
| "ctx_ok n (FL (a, c, k, v) s # ctx) \<longleftrightarrow> balanced s \<and> black_height s = n \<and>
     (if c = ASSOC_RED then color_of s = ASSOC_BLACK \<and> ctx_color ctx = ASSOC_BLACK \<and> ctx_ok n ctx
      else ctx_ok (n + 1) ctx)"
| "ctx_ok n (FR s (a, c, k, v) # ctx) \<longleftrightarrow> balanced s \<and> black_height s = n \<and>
     (if c = ASSOC_RED then color_of s = ASSOC_BLACK \<and> ctx_color ctx = ASSOC_BLACK \<and> ctx_ok n ctx
      else ctx_ok (n + 1) ctx)"

definition rb_balanced :: "('k, 'v) rbt \<Rightarrow> bool" where
  "rb_balanced t \<longleftrightarrow> balanced t \<and> color_of t = ASSOC_BLACK"

lemma rb_balanced_plug:
  "rb_balanced (plug ctx t) \<longleftrightarrow>
     balanced t \<and> ctx_ok (black_height t) ctx \<and> (color_of t = ASSOC_RED \<longrightarrow> ctx_color ctx = ASSOC_BLACK)"
proof (induction ctx arbitrary: t)
  case Nil
  then show ?case by (cases "color_of t") (auto simp: rb_balanced_def)
next
  case (Cons f ctx)
  show ?case
  proof (cases f)
    case (FL x s)
    then show ?thesis by (cases x; cases "fst (snd x)"; cases "color_of t") (auto simp: Cons)
  next
    case (FR s x)
    then show ?thesis by (cases x; cases "fst (snd x)"; cases "color_of t") (auto simp: Cons)
  qed
qed

fun items :: "('k, 'v) rbt \<Rightarrow> (nat \<times> 'k \<times> 'v) list" where
  "items Leaf = []"
| "items (Node l (a, c, k, v) r) = items l @ (a, k, v) # items r"

fun lefts :: "('k, 'v) ctx \<Rightarrow> (nat \<times> 'k \<times> 'v) list" where
  "lefts [] = []"
| "lefts (FL x s # ctx) = lefts ctx"
| "lefts (FR s (a, c, k, v) # ctx) = lefts ctx @ items s @ [(a, k, v)]"

fun rights :: "('k, 'v) ctx \<Rightarrow> (nat \<times> 'k \<times> 'v) list" where
  "rights [] = []"
| "rights (FL (a, c, k, v) s # ctx) = (a, k, v) # items s @ rights ctx"
| "rights (FR s x # ctx) = rights ctx"

lemma items_plug1:
  "items (plug1 (FL (a, c, k, v) s) t) = items t @ (a, k, v) # items s"
  "items (plug1 (FR s (a, c, k, v)) t) = items s @ (a, k, v) # items t"
  by simp_all

lemma items_plug: "items (plug ctx t) = lefts ctx @ items t @ rights ctx"
  by (induction ctx arbitrary: t rule: rights.induct) auto

lemma map_fst_items: "map fst (items t) = addrs t"
  by (induction t rule: items.induct) auto

lemma paint_simps [simp]:
  "items (paint c t) = items t" "addr d (paint c t) = addr d t" "addrs (paint c t) = addrs t"
  "paint c t = Leaf \<longleftrightarrow> t = Leaf"
  by (cases t rule: rbt_cases; simp)+

lemma balanced_paint: "balanced t \<Longrightarrow> balanced (paint ASSOC_BLACK t)"
  by (cases t rule: rbt_cases) auto

lemma color_paint: "color_of (paint ASSOC_BLACK t) = ASSOC_BLACK"
  by (cases t rule: rbt_cases) auto

lemma color_cases: "c \<noteq> ASSOC_RED \<longleftrightarrow> c = ASSOC_BLACK"
  by (cases c) auto

section \<open>More moves of the focus\<close>

fun recolor :: "assoc_color \<Rightarrow> ('k, 'v) frame \<Rightarrow> ('k, 'v) frame" where
  "recolor c (FL (a, c', k, v) s) = FL (a, c, k, v) s"
| "recolor c (FR s (a, c', k, v)) = FR s (a, c, k, v)"

lemma recolor_simps [simp]:
  "frame_addr (recolor c f) = frame_addr f" "frame_color (recolor c f) = c"
  by (cases "(c, f)" rule: recolor.cases; simp)+

lemma items_recolor [simp]: "items (plug1 (recolor c f) t) = items (plug1 f t)"
  by (cases "(c, f)" rule: recolor.cases) simp_all

lemma set_par_color_ok:
  assumes "zipped T (f # ctx) t"
  shows "\<exists>T'. set_color (frame_addr f) c T = Inr T' \<and> zipped T' (recolor c f # ctx) t \<and> env T' = env T"
proof (cases "(c, f)" rule: recolor.cases)
  case (1 c a c' k v s)
  then show ?thesis using assms set_color_ok [of T ctx t a c' k v s c] by (simp add: zipped_up)
next
  case (2 c s a c' k v)
  then show ?thesis using assms set_color_ok [of T ctx s a c' k v t c] by (simp add: zipped_up)
qed

lemma zipped_sibling: "zipped T (FL x r # ctx) l \<longleftrightarrow> zipped T (FR l x # ctx) r"
  by (simp add: zipped_up)

lemma zipped_sibling_addr:
  assumes "zipped T (FL x r # ctx) l" "l \<noteq> Leaf \<or> r \<noteq> Leaf"
  shows "addr (t_dummy T) l \<noteq> addr (t_dummy T) r"
  using assms
  by (cases x; cases l rule: rbt_cases; cases r rule: rbt_cases) (auto simp: zipped_def)

lemma env_dummy: "env T' = env T \<Longrightarrow> t_dummy T' = t_dummy T"
  by (simp add: env_eq)

section \<open>\<open>insert_fixup\<close>\<close>

lemma insert_left_case1:
  assumes z: "zipped T (P # FL (g, ASSOC_BLACK, kg, vg) U # ctx) t" and red: "color_of U = ASSOC_RED"
  shows "\<exists>T'. insert_left T zz (frame_addr P) g = Inr (T', g) \<and>
    zipped T' ctx (Node (plug1 (recolor ASSOC_BLACK P) t) (g, ASSOC_RED, kg, vg) (paint ASSOC_BLACK U)) \<and> env T' = env T"
proof -
  obtain ul u ku vu ur where U: "U = Node ul (u, ASSOC_RED, ku, vu) ur"
    using red by (cases U rule: rbt_cases) auto
  have zg: "zipped T ctx (Node (plug1 P t) (g, ASSOC_BLACK, kg, vg) U)" using z by (simp add: zipped_up)
  obtain T1 where T1: "set_color (frame_addr P) ASSOC_BLACK T = Inr T1"
    "zipped T1 (recolor ASSOC_BLACK P # FL (g, ASSOC_BLACK, kg, vg) U # ctx) t" "env T1 = env T"
    using set_par_color_ok [OF z] by blast
  have "zipped T1 (FR (plug1 (recolor ASSOC_BLACK P) t) (g, ASSOC_BLACK, kg, vg) # ctx) U" using T1(2) by (simp add: zipped_up)
  then obtain T2 where T2: "set_color u ASSOC_BLACK T1 = Inr T2"
    "zipped T2 (FR (plug1 (recolor ASSOC_BLACK P) t) (g, ASSOC_BLACK, kg, vg) # ctx) (paint ASSOC_BLACK U)" "env T2 = env T1"
    using set_color_ok [of T1 _ ul u _ ku vu ur ASSOC_BLACK] by (auto simp: U)
  obtain T3 where T3: "set_color g ASSOC_RED T2 = Inr T3"
    "zipped T3 ctx (Node (plug1 (recolor ASSOC_BLACK P) t) (g, ASSOC_RED, kg, vg) (paint ASSOC_BLACK U))" "env T3 = env T2"
    using set_color_ok [of T2 ctx _ g _ kg vg _ ASSOC_RED] T2(2) by (fastforce simp: zipped_up)
  obtain un where un: "rd T (addr (t_dummy T) U) = Inr un" "n_color un = color_of U"
    using rd_child_color [OF zg] by blast
  show ?thesis
    using rd_node [OF zg] un T1 T2 T3
    by (auto simp: insert_left_def Let_def U)
qed

lemma insert_left_case3:
  assumes z: "zipped T (FL (p, ASSOC_RED, kp, vp) s # FL (g, ASSOC_BLACK, kg, vg) U # ctx) t"
    and black: "color_of U = ASSOC_BLACK" and t: "t \<noteq> Leaf"
  shows "\<exists>T'. insert_left T (addr (t_dummy T) t) p g = Inr (T', addr (t_dummy T) t) \<and>
    zipped T' (FL (p, ASSOC_BLACK, kp, vp) (Node s (g, ASSOC_RED, kg, vg) U) # ctx) t \<and> env T' = env T"
proof -
  have zp: "zipped T (FL (g, ASSOC_BLACK, kg, vg) U # ctx) (Node t (p, ASSOC_RED, kp, vp) s)" using z by (simp add: zipped_up)
  have zg: "zipped T ctx (Node (Node t (p, ASSOC_RED, kp, vp) s) (g, ASSOC_BLACK, kg, vg) U)" using zp by (simp add: zipped_up)
  have ne: "addr (t_dummy T) t \<noteq> addr (t_dummy T) s"
    using z t zipped_sibling_addr [of T "(p, ASSOC_RED, kp, vp)"] by (metis zipped_sibling)
  obtain T1 where T1: "set_color p ASSOC_BLACK T = Inr T1"
    "zipped T1 (FL (g, ASSOC_BLACK, kg, vg) U # ctx) (Node t (p, ASSOC_BLACK, kp, vp) s)" "env T1 = env T"
    using set_color_ok [OF zp] by blast
  have zg1: "zipped T1 ctx (Node (Node t (p, ASSOC_BLACK, kp, vp) s) (g, ASSOC_BLACK, kg, vg) U)"
    using T1(2) by (simp add: zipped_up)
  obtain T2 where T2: "set_color g ASSOC_RED T1 = Inr T2"
    "zipped T2 ctx (Node (Node t (p, ASSOC_BLACK, kp, vp) s) (g, ASSOC_RED, kg, vg) U)" "env T2 = env T1"
    using set_color_ok [OF zg1] by blast
  obtain T3 where T3: "right_rotate T2 g = Inr T3"
    "zipped T3 ctx (Node t (p, ASSOC_BLACK, kp, vp) (Node s (g, ASSOC_RED, kg, vg) U))" "env T3 = env T2"
    using right_rotate_ok [OF T2(2)] by blast
  obtain un where un: "rd T (addr (t_dummy T) U) = Inr un" "n_color un = color_of U"
    using rd_child_color [OF zg] by blast
  show ?thesis
    using rd_node [OF zg] un rd_node [OF zp] ne black T1 T2 T3
    by (auto simp: insert_left_def Let_def zipped_up simp del: bind_res_eq_Inr)
qed

lemma insert_left_case2:
  assumes z: "zipped T (FR s (p, ASSOC_RED, kp, vp) # FL (g, ASSOC_BLACK, kg, vg) U # ctx) (Node zl (z, ASSOC_RED, kz, vz) zr)"
    and black: "color_of U = ASSOC_BLACK"
  shows "\<exists>T'. insert_left T z p g = Inr (T', p) \<and>
    zipped T' (FL (z, ASSOC_BLACK, kz, vz) (Node zr (g, ASSOC_RED, kg, vg) U) # ctx) (Node s (p, ASSOC_RED, kp, vp) zl) \<and>
    env T' = env T"
proof -
  have zp: "zipped T (FL (g, ASSOC_BLACK, kg, vg) U # ctx) (Node s (p, ASSOC_RED, kp, vp) (Node zl (z, ASSOC_RED, kz, vz) zr))"
    using z by (simp add: zipped_up)
  have zg: "zipped T ctx (Node (Node s (p, ASSOC_RED, kp, vp) (Node zl (z, ASSOC_RED, kz, vz) zr)) (g, ASSOC_BLACK, kg, vg) U)"
    using zp by (simp add: zipped_up)
  obtain T0 where T0: "left_rotate T p = Inr T0"
    "zipped T0 (FL (g, ASSOC_BLACK, kg, vg) U # ctx) (Node (Node s (p, ASSOC_RED, kp, vp) zl) (z, ASSOC_RED, kz, vz) zr)" "env T0 = env T"
    using left_rotate_ok [OF zp] by blast
  have zp0: "zipped T0 (FL (z, ASSOC_RED, kz, vz) zr # FL (g, ASSOC_BLACK, kg, vg) U # ctx) (Node s (p, ASSOC_RED, kp, vp) zl)"
    using T0(2) by (simp add: zipped_up)
  obtain T1 where T1: "set_color z ASSOC_BLACK T0 = Inr T1"
    "zipped T1 (FL (g, ASSOC_BLACK, kg, vg) U # ctx) (Node (Node s (p, ASSOC_RED, kp, vp) zl) (z, ASSOC_BLACK, kz, vz) zr)" "env T1 = env T0"
    using set_color_ok [OF T0(2)] by blast
  have zg1: "zipped T1 ctx (Node (Node (Node s (p, ASSOC_RED, kp, vp) zl) (z, ASSOC_BLACK, kz, vz) zr) (g, ASSOC_BLACK, kg, vg) U)"
    using T1(2) by (simp add: zipped_up)
  obtain T2 where T2: "set_color g ASSOC_RED T1 = Inr T2"
    "zipped T2 ctx (Node (Node (Node s (p, ASSOC_RED, kp, vp) zl) (z, ASSOC_BLACK, kz, vz) zr) (g, ASSOC_RED, kg, vg) U)" "env T2 = env T1"
    using set_color_ok [OF zg1] by blast
  obtain T3 where T3: "right_rotate T2 g = Inr T3"
    "zipped T3 ctx (Node (Node s (p, ASSOC_RED, kp, vp) zl) (z, ASSOC_BLACK, kz, vz) (Node zr (g, ASSOC_RED, kg, vg) U))" "env T3 = env T2"
    using right_rotate_ok [OF T2(2)] by blast
  obtain un where un: "rd T (addr (t_dummy T) U) = Inr un" "n_color un = color_of U"
    using rd_child_color [OF zg] by blast
  show ?thesis
    using rd_node [OF zg] un rd_node [OF zp] rd_node [OF zp0] black T0 T1 T2 T3
    by (auto simp: insert_left_def Let_def zipped_up simp del: bind_res_eq_Inr)
qed

text \<open>One turn of the loop: balance below and around the new focus, nearer to the root.\<close>

lemma insert_left_ok:
  assumes z: "zipped T (P # FL (g, ASSOC_BLACK, kg, vg) U # ctx) t"
    and t: "color_of t = ASSOC_RED" "balanced t" and P: "frame_color P = ASSOC_RED"
    and ok: "ctx_ok (black_height t) (P # FL (g, ASSOC_BLACK, kg, vg) U # ctx)"
  shows "\<exists>T' ctx' t'. insert_left T (addr (t_dummy T) t) (frame_addr P) g = Inr (T', addr (t_dummy T) t') \<and>
    zipped T' ctx' t' \<and> items (plug ctx' t') = items (plug (P # FL (g, ASSOC_BLACK, kg, vg) U # ctx) t) \<and>
    color_of t' = ASSOC_RED \<and> balanced t' \<and> ctx_ok (black_height t') ctx' \<and>
    length ctx' < length ctx + 2 \<and> env T' = env T"
proof (cases "color_of U")
  case ASSOC_RED
  obtain T' where T': "insert_left T (addr (t_dummy T) t) (frame_addr P) g = Inr (T', g)"
    "zipped T' ctx (Node (plug1 (recolor ASSOC_BLACK P) t) (g, ASSOC_RED, kg, vg) (paint ASSOC_BLACK U))" "env T' = env T"
    using insert_left_case1 [OF z ASSOC_RED] by blast
  obtain ul u ku vu ur where U: "U = Node ul (u, ASSOC_RED, ku, vu) ur"
    using ASSOC_RED by (cases U rule: rbt_cases) auto
  show ?thesis
    by (intro exI [of _ T'] exI [of _ ctx]
        exI [of _ "Node (plug1 (recolor ASSOC_BLACK P) t) (g, ASSOC_RED, kg, vg) (paint ASSOC_BLACK U)"])
       (use T' ok t P in \<open>cases P rule: frame_addr.cases; auto simp: U items_plug\<close>)
next
  case ASSOC_BLACK
  obtain zl z kz vz zr where t': "t = Node zl (z, ASSOC_RED, kz, vz) zr"
    using t(1) by (cases t rule: rbt_cases) auto
  show ?thesis
  proof (cases P rule: frame_addr.cases)
    case (1 p c kp vp s)
    with P have P': "P = FL (p, ASSOC_RED, kp, vp) s" by simp
    obtain T' where T': "insert_left T (addr (t_dummy T) t) p g = Inr (T', addr (t_dummy T) t)"
      "zipped T' (FL (p, ASSOC_BLACK, kp, vp) (Node s (g, ASSOC_RED, kg, vg) U) # ctx) t" "env T' = env T"
      using insert_left_case3 [OF z [unfolded P'] ASSOC_BLACK] t' by blast
    show ?thesis
      by (intro exI [of _ T'] exI [of _ "FL (p, ASSOC_BLACK, kp, vp) (Node s (g, ASSOC_RED, kg, vg) U) # ctx"] exI [of _ t])
         (use T' ok t ASSOC_BLACK in \<open>simp add: P' items_plug\<close>)
  next
    case (2 s p c kp vp)
    with P have P': "P = FR s (p, ASSOC_RED, kp, vp)" by simp
    obtain T' where T': "insert_left T z p g = Inr (T', p)"
      "zipped T' (FL (z, ASSOC_BLACK, kz, vz) (Node zr (g, ASSOC_RED, kg, vg) U) # ctx) (Node s (p, ASSOC_RED, kp, vp) zl)"
      "env T' = env T"
      using insert_left_case2 [OF z [unfolded P' t'] ASSOC_BLACK] by blast
    show ?thesis
      by (intro exI [of _ T'] exI [of _ "FL (z, ASSOC_BLACK, kz, vz) (Node zr (g, ASSOC_RED, kg, vg) U) # ctx"]
          exI [of _ "Node s (p, ASSOC_RED, kp, vp) zl"])
         (use T' ok t ASSOC_BLACK in \<open>simp add: P' t' items_plug\<close>)
  qed
qed

lemma insert_right_case1:
  assumes z: "zipped T (P # FR U (g, ASSOC_BLACK, kg, vg) # ctx) t" and red: "color_of U = ASSOC_RED"
  shows "\<exists>T'. insert_right T zz (frame_addr P) g = Inr (T', g) \<and>
    zipped T' ctx (Node (paint ASSOC_BLACK U) (g, ASSOC_RED, kg, vg) (plug1 (recolor ASSOC_BLACK P) t)) \<and> env T' = env T"
proof -
  obtain ul u ku vu ur where U: "U = Node ul (u, ASSOC_RED, ku, vu) ur"
    using red by (cases U rule: rbt_cases) auto
  have zg: "zipped T ctx (Node U (g, ASSOC_BLACK, kg, vg) (plug1 P t))" using z by (simp add: zipped_up)
  obtain T1 where T1: "set_color (frame_addr P) ASSOC_BLACK T = Inr T1"
    "zipped T1 (recolor ASSOC_BLACK P # FR U (g, ASSOC_BLACK, kg, vg) # ctx) t" "env T1 = env T"
    using set_par_color_ok [OF z] by blast
  have "zipped T1 (FL (g, ASSOC_BLACK, kg, vg) (plug1 (recolor ASSOC_BLACK P) t) # ctx) U" using T1(2) by (simp add: zipped_up)
  then obtain T2 where T2: "set_color u ASSOC_BLACK T1 = Inr T2"
    "zipped T2 (FL (g, ASSOC_BLACK, kg, vg) (plug1 (recolor ASSOC_BLACK P) t) # ctx) (paint ASSOC_BLACK U)" "env T2 = env T1"
    using set_color_ok [of T1 _ ul u _ ku vu ur ASSOC_BLACK] by (auto simp: U)
  obtain T3 where T3: "set_color g ASSOC_RED T2 = Inr T3"
    "zipped T3 ctx (Node (paint ASSOC_BLACK U) (g, ASSOC_RED, kg, vg) (plug1 (recolor ASSOC_BLACK P) t))" "env T3 = env T2"
    using set_color_ok [of T2 ctx _ g _ kg vg _ ASSOC_RED] T2(2) by (fastforce simp: zipped_up)
  obtain un where un: "rd T (addr (t_dummy T) U) = Inr un" "n_color un = color_of U"
    using rd_child_color [OF zg] by blast
  show ?thesis
    using rd_node [OF zg] un T1 T2 T3
    by (auto simp: insert_right_def Let_def U)
qed

lemma insert_right_case3:
  assumes z: "zipped T (FR s (p, ASSOC_RED, kp, vp) # FR U (g, ASSOC_BLACK, kg, vg) # ctx) t"
    and black: "color_of U = ASSOC_BLACK" and t: "t \<noteq> Leaf"
  shows "\<exists>T'. insert_right T (addr (t_dummy T) t) p g = Inr (T', addr (t_dummy T) t) \<and>
    zipped T' (FR (Node U (g, ASSOC_RED, kg, vg) s) (p, ASSOC_BLACK, kp, vp) # ctx) t \<and> env T' = env T"
proof -
  have zp: "zipped T (FR U (g, ASSOC_BLACK, kg, vg) # ctx) (Node s (p, ASSOC_RED, kp, vp) t)" using z by (simp add: zipped_up)
  have zg: "zipped T ctx (Node U (g, ASSOC_BLACK, kg, vg) (Node s (p, ASSOC_RED, kp, vp) t))" using zp by (simp add: zipped_up)
  have ne: "addr (t_dummy T) t \<noteq> addr (t_dummy T) s"
    using z t zipped_sibling_addr [of T "(p, ASSOC_RED, kp, vp)"] by (metis zipped_sibling)
  obtain T1 where T1: "set_color p ASSOC_BLACK T = Inr T1"
    "zipped T1 (FR U (g, ASSOC_BLACK, kg, vg) # ctx) (Node s (p, ASSOC_BLACK, kp, vp) t)" "env T1 = env T"
    using set_color_ok [OF zp] by blast
  have zg1: "zipped T1 ctx (Node U (g, ASSOC_BLACK, kg, vg) (Node s (p, ASSOC_BLACK, kp, vp) t))"
    using T1(2) by (simp add: zipped_up)
  obtain T2 where T2: "set_color g ASSOC_RED T1 = Inr T2"
    "zipped T2 ctx (Node U (g, ASSOC_RED, kg, vg) (Node s (p, ASSOC_BLACK, kp, vp) t))" "env T2 = env T1"
    using set_color_ok [OF zg1] by blast
  obtain T3 where T3: "left_rotate T2 g = Inr T3"
    "zipped T3 ctx (Node (Node U (g, ASSOC_RED, kg, vg) s) (p, ASSOC_BLACK, kp, vp) t)" "env T3 = env T2"
    using left_rotate_ok [OF T2(2)] by blast
  obtain un where un: "rd T (addr (t_dummy T) U) = Inr un" "n_color un = color_of U"
    using rd_child_color [OF zg] by blast
  show ?thesis
    using rd_node [OF zg] un rd_node [OF zp] ne black T1 T2 T3
    by (auto simp: insert_right_def Let_def zipped_up simp del: bind_res_eq_Inr)
qed

lemma insert_right_case2:
  assumes z: "zipped T (FL (p, ASSOC_RED, kp, vp) s # FR U (g, ASSOC_BLACK, kg, vg) # ctx) (Node zr (z, ASSOC_RED, kz, vz) zl)"
    and black: "color_of U = ASSOC_BLACK"
  shows "\<exists>T'. insert_right T z p g = Inr (T', p) \<and>
    zipped T' (FR (Node U (g, ASSOC_RED, kg, vg) zr) (z, ASSOC_BLACK, kz, vz) # ctx) (Node zl (p, ASSOC_RED, kp, vp) s) \<and>
    env T' = env T"
proof -
  have zp: "zipped T (FR U (g, ASSOC_BLACK, kg, vg) # ctx) (Node (Node zr (z, ASSOC_RED, kz, vz) zl) (p, ASSOC_RED, kp, vp) s)"
    using z by (simp add: zipped_up)
  have zg: "zipped T ctx (Node U (g, ASSOC_BLACK, kg, vg) (Node (Node zr (z, ASSOC_RED, kz, vz) zl) (p, ASSOC_RED, kp, vp) s))"
    using zp by (simp add: zipped_up)
  obtain T0 where T0: "right_rotate T p = Inr T0"
    "zipped T0 (FR U (g, ASSOC_BLACK, kg, vg) # ctx) (Node zr (z, ASSOC_RED, kz, vz) (Node zl (p, ASSOC_RED, kp, vp) s))" "env T0 = env T"
    using right_rotate_ok [OF zp] by blast
  have zp0: "zipped T0 (FR zr (z, ASSOC_RED, kz, vz) # FR U (g, ASSOC_BLACK, kg, vg) # ctx) (Node zl (p, ASSOC_RED, kp, vp) s)"
    using T0(2) by (simp add: zipped_up)
  obtain T1 where T1: "set_color z ASSOC_BLACK T0 = Inr T1"
    "zipped T1 (FR U (g, ASSOC_BLACK, kg, vg) # ctx) (Node zr (z, ASSOC_BLACK, kz, vz) (Node zl (p, ASSOC_RED, kp, vp) s))" "env T1 = env T0"
    using set_color_ok [OF T0(2)] by blast
  have zg1: "zipped T1 ctx (Node U (g, ASSOC_BLACK, kg, vg) (Node zr (z, ASSOC_BLACK, kz, vz) (Node zl (p, ASSOC_RED, kp, vp) s)))"
    using T1(2) by (simp add: zipped_up)
  obtain T2 where T2: "set_color g ASSOC_RED T1 = Inr T2"
    "zipped T2 ctx (Node U (g, ASSOC_RED, kg, vg) (Node zr (z, ASSOC_BLACK, kz, vz) (Node zl (p, ASSOC_RED, kp, vp) s)))" "env T2 = env T1"
    using set_color_ok [OF zg1] by blast
  obtain T3 where T3: "left_rotate T2 g = Inr T3"
    "zipped T3 ctx (Node (Node U (g, ASSOC_RED, kg, vg) zr) (z, ASSOC_BLACK, kz, vz) (Node zl (p, ASSOC_RED, kp, vp) s))" "env T3 = env T2"
    using left_rotate_ok [OF T2(2)] by blast
  obtain un where un: "rd T (addr (t_dummy T) U) = Inr un" "n_color un = color_of U"
    using rd_child_color [OF zg] by blast
  show ?thesis
    using rd_node [OF zg] un rd_node [OF zp] rd_node [OF zp0] black T0 T1 T2 T3
    by (auto simp: insert_right_def Let_def zipped_up simp del: bind_res_eq_Inr)
qed

text \<open>One turn of the loop: balance below and around the new focus, nearer to the root.\<close>

lemma insert_right_ok:
  assumes z: "zipped T (P # FR U (g, ASSOC_BLACK, kg, vg) # ctx) t"
    and t: "color_of t = ASSOC_RED" "balanced t" and P: "frame_color P = ASSOC_RED"
    and ok: "ctx_ok (black_height t) (P # FR U (g, ASSOC_BLACK, kg, vg) # ctx)"
  shows "\<exists>T' ctx' t'. insert_right T (addr (t_dummy T) t) (frame_addr P) g = Inr (T', addr (t_dummy T) t') \<and>
    zipped T' ctx' t' \<and> items (plug ctx' t') = items (plug (P # FR U (g, ASSOC_BLACK, kg, vg) # ctx) t) \<and>
    color_of t' = ASSOC_RED \<and> balanced t' \<and> ctx_ok (black_height t') ctx' \<and>
    length ctx' < length ctx + 2 \<and> env T' = env T"
proof (cases "color_of U")
  case ASSOC_RED
  obtain T' where T': "insert_right T (addr (t_dummy T) t) (frame_addr P) g = Inr (T', g)"
    "zipped T' ctx (Node (paint ASSOC_BLACK U) (g, ASSOC_RED, kg, vg) (plug1 (recolor ASSOC_BLACK P) t))" "env T' = env T"
    using insert_right_case1 [OF z ASSOC_RED] by blast
  obtain ul u ku vu ur where U: "U = Node ul (u, ASSOC_RED, ku, vu) ur"
    using ASSOC_RED by (cases U rule: rbt_cases) auto
  show ?thesis
    by (intro exI [of _ T'] exI [of _ ctx]
        exI [of _ "Node (paint ASSOC_BLACK U) (g, ASSOC_RED, kg, vg) (plug1 (recolor ASSOC_BLACK P) t)"])
       (use T' ok t P in \<open>cases P rule: frame_addr.cases; auto simp: U items_plug\<close>)
next
  case ASSOC_BLACK
  obtain zl z kz vz zr where t': "t = Node zr (z, ASSOC_RED, kz, vz) zl"
    using t(1) by (cases t rule: rbt_cases) auto
  show ?thesis
  proof (cases P rule: frame_addr.cases)
    case (2 s p c kp vp)
    with P have P': "P = FR s (p, ASSOC_RED, kp, vp)" by simp
    obtain T' where T': "insert_right T (addr (t_dummy T) t) p g = Inr (T', addr (t_dummy T) t)"
      "zipped T' (FR (Node U (g, ASSOC_RED, kg, vg) s) (p, ASSOC_BLACK, kp, vp) # ctx) t" "env T' = env T"
      using insert_right_case3 [OF z [unfolded P'] ASSOC_BLACK] t' by blast
    show ?thesis
      by (intro exI [of _ T'] exI [of _ "FR (Node U (g, ASSOC_RED, kg, vg) s) (p, ASSOC_BLACK, kp, vp) # ctx"] exI [of _ t])
         (use T' ok t ASSOC_BLACK in \<open>simp add: P' items_plug\<close>)
  next
    case (1 p c kp vp s)
    with P have P': "P = FL (p, ASSOC_RED, kp, vp) s" by simp
    obtain T' where T': "insert_right T z p g = Inr (T', p)"
      "zipped T' (FR (Node U (g, ASSOC_RED, kg, vg) zr) (z, ASSOC_BLACK, kz, vz) # ctx) (Node zl (p, ASSOC_RED, kp, vp) s)"
      "env T' = env T"
      using insert_right_case2 [OF z [unfolded P' t'] ASSOC_BLACK] by blast
    show ?thesis
      by (intro exI [of _ T'] exI [of _ "FR (Node U (g, ASSOC_RED, kg, vg) zr) (z, ASSOC_BLACK, kz, vz) # ctx"]
          exI [of _ "Node zl (p, ASSOC_RED, kp, vp) s"])
         (use T' ok t ASSOC_BLACK in \<open>simp add: P' t' items_plug\<close>)
  qed
qed

lemma insert_fixup_ok:
  "zipped T ctx t \<Longrightarrow> color_of t = ASSOC_RED \<Longrightarrow> balanced t \<Longrightarrow> ctx_ok (black_height t) ctx \<Longrightarrow>
   length ctx \<le> fuel \<Longrightarrow>
   \<exists>T' t'. insert_fixup fuel T (addr (t_dummy T) t) = Inr T' \<and> zipped T' [] t' \<and>
     items t' = items (plug ctx t) \<and> rb_balanced t' \<and> env T' = env T"
proof (induction fuel arbitrary: T ctx t)
  have exit: "\<exists>T' t'. insert_fixup fuel T (addr (t_dummy T) t) = Inr T' \<and> zipped T' [] t' \<and>
      items t' = items (plug ctx t) \<and> rb_balanced t' \<and> env T' = env T"
    if z: "zipped T ctx t" and t: "color_of t = ASSOC_RED" "balanced t" "ctx_ok (black_height t) ctx"
      and black: "ctx = [] \<or> ctx_color ctx = ASSOC_BLACK" for fuel and T :: "('a, 'b) rb_tree" and ctx t
  proof -
    obtain l a k v r where t': "t = Node l (a, ASSOC_RED, k, v) r"
      using t(1) by (cases t rule: rbt_cases) auto
    obtain n where n: "rd T (par (t_dummy T) ctx) = Inr n" "n_color n = ASSOC_BLACK"
      using rd_par_color [OF z] black by (cases ctx) auto
    have "zipped T [] (plug ctx t)" using z by (simp flip: zipped_whole)
    from set_black_ok [OF this] obtain T' where T':
      "set_color (t_root T) ASSOC_BLACK T = Inr T'" "zipped T' [] (paint ASSOC_BLACK (plug ctx t))"
      "env T' = env T"
      using root_plug [OF z] by auto
    have "balanced (plug ctx t)"
      using black t rb_balanced_plug [of ctx t] by (auto simp: rb_balanced_def)
    then have "rb_balanced (paint ASSOC_BLACK (plug ctx t))"
      by (simp add: rb_balanced_def balanced_paint color_paint)
    then show ?thesis
      using T' n rd_node [OF z [unfolded t']] by (auto simp: insert_fixup.simps [of fuel] t')
  qed
  {
    case 0
    then show ?case by (intro exit) auto
  next
    case (Suc fuel)
    show ?case
    proof (cases "ctx = [] \<or> ctx_color ctx = ASSOC_BLACK")
      case True
      with Suc.prems show ?thesis by (intro exit) auto
    next
      case False
      then obtain P ctx1 where c1: "ctx = P # ctx1" "frame_color P = ASSOC_RED"
        by (cases ctx; cases "ctx_color ctx") auto
      then have "ctx_color ctx1 = ASSOC_BLACK" "ctx_ok (black_height t) ctx1"
        using Suc.prems(4) by (cases P rule: frame_addr.cases; auto)+
      then obtain G ctx2 where c2: "ctx1 = G # ctx2" "frame_color G = ASSOC_BLACK"
        by (cases ctx1) auto
      obtain l a k v r where t': "t = Node l (a, ASSOC_RED, k, v) r"
        using Suc.prems(2) by (cases t rule: rbt_cases) auto
      have z: "zipped T (P # G # ctx2) t" using Suc.prems c1 c2 by simp
      have zg: "zipped T (G # ctx2) (plug1 P t)" using z by (simp add: zipped_up)
      have rp: "rd T a = Inr (mk_node k v (frame_addr P) (addr (t_dummy T) l) (addr (t_dummy T) r) ASSOC_RED)"
        using rd_node [OF z [unfolded t']] by simp
      obtain pn where pn: "rd T (frame_addr P) = Inr pn" "n_color pn = ASSOC_RED" "n_parent pn = frame_addr G"
        using rd_par [OF z] c1(2) by (cases P rule: frame_addr.cases) auto
      have pa: "addr (t_dummy T) (plug1 P t) = frame_addr P" by (cases P rule: frame_addr.cases) auto
      have ne: "plug1 P t \<noteq> Leaf" by (cases P) auto
      obtain T1 ctx' t1 where s: "bind_res (rd T (frame_addr G)) (\<lambda>gn.
            if frame_addr P = n_left gn then insert_left T a (frame_addr P) (frame_addr G)
            else insert_right T a (frame_addr P) (frame_addr G)) = Inr (T1, addr (t_dummy T) t1)"
          "zipped T1 ctx' t1" "items (plug ctx' t1) = items (plug ctx t)" "color_of t1 = ASSOC_RED"
          "balanced t1" "ctx_ok (black_height t1) ctx'" "length ctx' < length ctx" "env T1 = env T"
      proof (cases G rule: frame_addr.cases)
        case (1 g c kg vg U)
        with c2 have G: "G = FL (g, ASSOC_BLACK, kg, vg) U" by simp
        show ?thesis
          using insert_left_ok [OF z [unfolded G] Suc.prems(2,3) c1(2)] Suc.prems(4) rd_par [OF zg] that
          by (auto simp: G c1 c2 pa [unfolded t'] t')
      next
        case (2 U g c kg vg)
        with c2 have G: "G = FR U (g, ASSOC_BLACK, kg, vg)" by simp
        have "addr (t_dummy T) U \<noteq> frame_addr P"
          using zg ne zipped_sibling_addr [of T _ "plug1 P t" ctx2 U] pa by (auto simp: G simp flip: zipped_sibling)
        then show ?thesis
          using insert_right_ok [OF z [unfolded G] Suc.prems(2,3) c1(2)] Suc.prems(4) rd_par [OF zg] that
          by (auto simp: G c1 c2 pa [unfolded t'] t')
      qed
      from Suc.IH [OF s(2,4,5,6)] s(7) Suc.prems(5) obtain T' t2 where
        "insert_fixup fuel T1 (addr (t_dummy T1) t1) = Inr T'" "zipped T' [] t2"
        "items t2 = items (plug ctx' t1)" "rb_balanced t2" "env T' = env T1" by auto
      moreover obtain gn where gn: "rd T (frame_addr G) = Inr gn"
        using rd_par [OF zg] by blast
      moreover have "insert_fixup (Suc fuel) T a =
          bind_res (if frame_addr P = n_left gn then insert_left T a (frame_addr P) (frame_addr G)
            else insert_right T a (frame_addr P) (frame_addr G)) (\<lambda>(T, z). insert_fixup fuel T z)"
        using rp pn gn by (simp add: insert_fixup.simps [of "Suc fuel"] Let_def)
      ultimately show ?thesis
        using s env_dummy [OF s(8)] by (auto simp: t')
    qed
  }
qed

end
