(* ===== verification/Assoc_Rb_Ops.thy ===== *)
theory Assoc_Rb_Ops
  imports Assoc_Rb_Insert
begin

text \<open>
  The invariant of a whole red-black tree, its contents, and the operations of the tree as its
  users see them: initialisation, insertion, search, iteration. \<open>tree_of\<close> reads the tree off the
  heap, \<open>rb_items\<close> its contents in order, each with the address of its node, which is the iterator
  to it.
\<close>

section \<open>The tree in the heap\<close>

fun heap_tree :: "nat \<Rightarrow> nat \<Rightarrow> (nat \<Rightarrow> ('k, 'v) rb_node option) \<Rightarrow> nat \<Rightarrow> ('k, 'v) rbt" where
  "heap_tree 0 d h a = Leaf"
| "heap_tree (Suc f) d h a =
     (if a = d then Leaf
      else case h a of None \<Rightarrow> Leaf
      | Some n \<Rightarrow> (case (n_key n, n_value n) of
          (Some k, Some v) \<Rightarrow>
            Node (heap_tree f d h (n_left n)) (a, n_color n, k, v) (heap_tree f d h (n_right n))
        | _ \<Rightarrow> Leaf))"

definition tree_of :: "('k, 'v) rb_tree \<Rightarrow> ('k, 'v) rbt" where
  "tree_of T = heap_tree (t_size T) (t_dummy T) (t_heap T) (t_root T)"

definition rb_items :: "('k, 'v) rb_tree \<Rightarrow> (nat \<times> 'k \<times> 'v) list" where
  "rb_items T = items (tree_of T)"

definition rb_struct :: "('k, 'v) rb_tree \<Rightarrow> ('k, 'v) rbt \<Rightarrow> bool" where
  "rb_struct T t \<longleftrightarrow>
     zipped T [] t \<and> rb_balanced t \<and> length (items t) = t_size T \<and>
     dom (t_heap T) = insert (t_dummy T) (set (addrs t)) \<and> (\<forall>a \<in> dom (t_heap T). a < t_brk T)"

abbreviation it_key :: "nat \<times> 'k \<times> 'v \<Rightarrow> 'k" where
  "it_key e \<equiv> fst (snd e)"

lemma length_addrs: "length (addrs t) = size t"
  by (induction t rule: addrs.induct) auto

lemma length_items: "length (items t) = size t"
  by (induction t rule: items.induct) auto

lemma heap_tree_ok:
  "tree_at d h p t \<Longrightarrow> d \<notin> set (addrs t) \<Longrightarrow> height t \<le> f \<Longrightarrow> heap_tree f d h (addr d t) = t"
proof (induction d h p t arbitrary: f rule: tree_at.induct)
  case (1 d h p)
  then show ?case by (cases f) auto
next
  case (2 d h p l a c k v r)
  then show ?case by (cases f) auto
qed

lemma tree_of_eq:
  assumes "rb_struct T t"
  shows "tree_of T = t"
proof -
  have z: "zipped T [] t" "size t = t_size T"
    using assms by (simp_all add: rb_struct_def length_items)
  have "height t \<le> t_size T" using height_le_size_tree [of t] z(2) by simp
  then show ?thesis
    using heap_tree_ok [of "t_dummy T" "t_heap T" _ t "t_size T"] z(1)
    by (auto simp: tree_of_def zipped_def)
qed

text \<open>Every position in the contents is a focus.\<close>

lemma zipper_exists:
  "items t = xs @ (a, k, v) # ys \<Longrightarrow>
   \<exists>ctx l c r. plug ctx (Node l (a, c, k, v) r) = t \<and> lefts ctx @ items l = xs \<and> items r @ rights ctx = ys"
proof (induction t arbitrary: xs ys rule: items.induct)
  case 1
  then show ?case by simp
next
  case (2 l b c k' v' r)
  from 2(3) consider
    (left) us where "items l = xs @ (a, k, v) # us" "ys = us @ (b, k', v') # items r"
    | (here) "xs = items l" "(a, k, v) = (b, k', v')" "ys = items r"
    | (right) us where "items r = us @ (a, k, v) # ys" "xs = items l @ (b, k', v') # us"
    by (auto simp: append_eq_append_conv2 append_eq_Cons_conv Cons_eq_append_conv)
  then show ?case
  proof cases
    case left
    from 2(1) [OF left(1)] obtain ctx l' c' r' where
      "plug ctx (Node l' (a, c', k, v) r') = l" "lefts ctx @ items l' = xs" "items r' @ rights ctx = us"
      by blast
    moreover have "lefts (ctx @ [FL (b, c, k', v') r]) = lefts ctx" for ctx :: "('a, 'b) ctx"
      by (induction ctx rule: lefts.induct) auto
    moreover have "rights (ctx @ [FL (b, c, k', v') r]) = rights ctx @ (b, k', v') # items r" for ctx :: "('a, 'b) ctx"
      by (induction ctx rule: rights.induct) auto
    ultimately show ?thesis
      by (intro exI [of _ "ctx @ [FL (b, c, k', v') r]"] exI [of _ l'] exI [of _ c'] exI [of _ r'])
         (auto simp: plug_append left(2))
  next
    case here
    then show ?thesis
      by (intro exI [of _ "[]"] exI [of _ l] exI [of _ c] exI [of _ r]) auto
  next
    case right
    from 2(2) [OF right(1)] obtain ctx l' c' r' where
      "plug ctx (Node l' (a, c', k, v) r') = r" "lefts ctx @ items l' = us" "items r' @ rights ctx = ys"
      by blast
    moreover have "lefts (ctx @ [FR l (b, c, k', v')]) = items l @ (b, k', v') # lefts ctx" for ctx :: "('a, 'b) ctx"
      by (induction ctx rule: lefts.induct) auto
    moreover have "rights (ctx @ [FR l (b, c, k', v')]) = rights ctx" for ctx :: "('a, 'b) ctx"
      by (induction ctx rule: rights.induct) auto
    ultimately show ?thesis
      by (intro exI [of _ "ctx @ [FR l (b, c, k', v')]"] exI [of _ l'] exI [of _ c'] exI [of _ r'])
         (auto simp: plug_append right(2))
  qed
qed

lemma length_ctx: "length ctx \<le> length (ctx_addrs ctx)"
  by (induction ctx rule: ctx_addrs.induct) auto

lemma length_plug: "size (plug ctx t) = size t + length (ctx_addrs ctx)"
  by (induction ctx arbitrary: t rule: ctx_addrs.induct) (auto simp: length_addrs)

lemma set_addrs_plug: "set (addrs (plug ctx t)) = set (addrs t) \<union> set (ctx_addrs ctx)"
  by (induction ctx arbitrary: t rule: ctx_addrs.induct) auto

section \<open>Iteration\<close>

definition first_addr :: "nat \<Rightarrow> (nat \<times> 'k \<times> 'v) list \<Rightarrow> nat" where
  "first_addr d es = (case es of [] \<Rightarrow> d | e # _ \<Rightarrow> fst e)"

lemma minimum_loop_ok:
  "zipped T ctx t \<Longrightarrow> t \<noteq> Leaf \<Longrightarrow> height t \<le> Suc fuel \<Longrightarrow>
   minimum_loop fuel T (addr (t_dummy T) t) = Inr (fst (hd (items t)))"
proof (induction fuel arbitrary: ctx t)
  case 0
  obtain l a c k v r where t: "t = Node l (a, c, k, v) r"
    using 0 by (cases t rule: rbt_cases) auto
  then have "l = Leaf" using 0 by (cases l) auto
  with 0 show ?case by (simp add: t minimum_loop.simps [of 0] rd_node)
next
  case (Suc fuel)
  obtain l a c k v r where t: "t = Node l (a, c, k, v) r"
    using Suc by (cases t rule: rbt_cases) auto
  have zl: "zipped T (FL (a, c, k, v) r # ctx) l" using Suc(2) by (simp add: t zipped_up)
  show ?case
  proof (cases "l = Leaf")
    case True
    with Suc show ?thesis by (simp add: t minimum_loop.simps [of "Suc fuel"] rd_node)
  next
    case False
    then have "items l \<noteq> []" by (cases l rule: rbt_cases) auto
    then show ?thesis
      using Suc.IH [OF zl False] Suc(2,4) addr_dummy_iff [OF zl] False
      by (simp add: t minimum_loop.simps [of "Suc fuel"] rd_node)
  qed
qed

lemma minimum_ok:
  assumes "zipped T ctx t" "size t \<le> t_size T + 1"
  shows "minimum T (addr (t_dummy T) t) = Inr (first_addr (t_dummy T) (items t))"
proof (cases "t = Leaf")
  case True
  then show ?thesis by (simp add: minimum_def first_addr_def)
next
  case False
  then have "items t \<noteq> []" by (cases t rule: rbt_cases) auto
  then have "first_addr (t_dummy T) (items t) = fst (hd (items t))"
    by (cases "items t") (auto simp: first_addr_def)
  then show ?thesis
    using minimum_loop_ok [OF assms(1) False, of "t_size T + 1"] height_le_size_tree [of t] assms(2)
      addr_dummy_iff [OF assms(1)] False
    by (simp add: minimum_def)
qed

lemma climb_ok:
  "zipped T ctx t \<Longrightarrow> t \<noteq> Leaf \<Longrightarrow> length ctx \<le> fuel \<Longrightarrow>
   climb fuel T (addr (t_dummy T) t) (par (t_dummy T) ctx) = Inr (first_addr (t_dummy T) (rights ctx))"
proof (induction ctx arbitrary: t fuel)
  case Nil
  then show ?case by (simp add: climb.simps first_addr_def)
next
  case (Cons f ctx)
  have p: "frame_addr f \<noteq> t_dummy T" using par_ne_dummy [OF Cons.prems(1)] by simp
  have ne: "plug1 f t \<noteq> Leaf" and a: "addr (t_dummy T) (plug1 f t) = frame_addr f"
    by (cases f rule: frame_addr.cases; simp)+
  show ?case
  proof (cases f rule: frame_addr.cases)
    case (1 a c k v s)
    then show ?thesis
      using rd_par [OF Cons.prems(1)] p by (simp add: climb.simps first_addr_def)
  next
    case (2 s a c k v)
    have "addr (t_dummy T) s \<noteq> addr (t_dummy T) t"
      using zipped_sibling_addr [of T "(a, c, k, v)" t ctx s] Cons.prems(1,2)
      by (simp add: 2 zipped_sibling)
    moreover obtain f' where "fuel = Suc f'" using Cons.prems(3) by (cases fuel) auto
    ultimately show ?thesis
      using Cons.IH [of "plug1 f t" f'] Cons.prems rd_par [OF Cons.prems(1)] p ne a
      by (simp add: climb.simps [of "Suc f'"] 2 zipped_up)
  qed
qed

lemma rb_front_ok:
  assumes "rb_struct T t"
  shows "assoc_rb_tree_front T = Inr (first_addr (t_dummy T) (items t))"
  using minimum_ok [of T "[]" t] assms
  by (auto simp: assoc_rb_tree_front_def rb_struct_def length_items) (simp add: zipped_def)

lemma rb_next_ok:
  assumes s: "rb_struct T t" and it: "items t = xs @ (a, k, v) # ys"
  shows "assoc_rb_tree_next T a = Inr (first_addr (t_dummy T) ys)"
proof -
  obtain ctx l c r where t: "plug ctx (Node l (a, c, k, v) r) = t" "items r @ rights ctx = ys"
    using zipper_exists [OF it] by blast
  have z: "zipped T ctx (Node l (a, c, k, v) r)"
    using s by (simp add: rb_struct_def zipped_whole [of T ctx] t)
  then have zr: "zipped T (FR l (a, c, k, v) # ctx) r" by (simp add: zipped_up)
  have sz: "t_size T = size l + size r + 1 + length (ctx_addrs ctx)"
    using s length_plug [of ctx "Node l (a, c, k, v) r"] by (simp add: rb_struct_def length_items t)
  show ?thesis
  proof (cases "r = Leaf")
    case True
    then show ?thesis
      using climb_ok [OF z, of "t_size T + 1"] length_ctx [of ctx] sz t(2) addr_ne_dummy [OF z]
      by (simp add: assoc_rb_tree_next_def rd_node [OF z])
  next
    case False
    then have "items r \<noteq> []" by (cases r rule: rbt_cases) auto
    then have "first_addr (t_dummy T) ys = first_addr (t_dummy T) (items r)"
      using t(2) by (cases "items r") (auto simp: first_addr_def)
    then show ?thesis
      using minimum_ok [OF zr] sz addr_ne_dummy [OF z] addr_dummy_iff [OF zr] False
      by (simp add: assoc_rb_tree_next_def rd_node [OF z])
  qed
qed

lemma rb_rd_item:
  assumes s: "rb_struct T t" and it: "(a, k, v) \<in> set (items t)"
  shows "\<exists>n. rd T a = Inr n \<and> n_key n = Some k \<and> n_value n = Some v \<and> a \<noteq> t_dummy T"
proof -
  obtain xs ys where i: "items t = xs @ (a, k, v) # ys" using it by (auto simp: in_set_conv_decomp)
  obtain ctx l c r where t: "plug ctx (Node l (a, c, k, v) r) = t"
    using zipper_exists [OF i] by blast
  have "zipped T ctx (Node l (a, c, k, v) r)"
    using s by (simp add: rb_struct_def zipped_whole [of T ctx] t)
  then show ?thesis using rd_node addr_ne_dummy by fastforce
qed

lemma rb_key_ok:
  "rb_struct T t \<Longrightarrow> (a, k, v) \<in> set (items t) \<Longrightarrow> assoc_rb_tree_key T a = Inr k"
  using rb_rd_item [of T t a k v] by (auto simp: assoc_rb_tree_key_def node_key_def)

lemma rb_value_ok:
  "rb_struct T t \<Longrightarrow> (a, k, v) \<in> set (items t) \<Longrightarrow> assoc_rb_tree_value T a = Inr v"
  using rb_rd_item [of T t a k v] by (auto simp: assoc_rb_tree_value_def)

text \<open>\<open>find_if\<close>: the first node whose key passes the test.\<close>

lemma find_if_rb_loop_ok:
  assumes s: "rb_struct T t" and f: "\<And>a k v. (a, k, v) \<in> set (items t) \<Longrightarrow> f k = Inr (g k)"
  shows "items t = xs @ ys \<Longrightarrow> length ys \<le> fuel \<Longrightarrow>
    find_if_rb_loop fuel T (first_addr (t_dummy T) ys) (t_dummy T) f =
      Inr (first_addr (t_dummy T) (dropWhile (\<lambda>e. \<not> g (it_key e)) ys))"
proof (induction ys arbitrary: xs fuel)
  case Nil
  then show ?case by (simp add: find_if_rb_loop.simps first_addr_def)
next
  case (Cons e ys)
  obtain a k v where e: "e = (a, k, v)" by (cases e)
  have mem: "(a, k, v) \<in> set (items t)" using Cons.prems by (simp add: e)
  obtain f' where f': "fuel = Suc f'" using Cons.prems by (cases fuel) auto
  have "a \<noteq> t_dummy T" using rb_rd_item [OF s mem] by auto
  moreover have "assoc_rb_tree_next T a = Inr (first_addr (t_dummy T) ys)"
    using rb_next_ok [OF s] Cons.prems by (simp add: e)
  moreover have "find_if_rb_loop f' T (first_addr (t_dummy T) ys) (t_dummy T) f =
      Inr (first_addr (t_dummy T) (dropWhile (\<lambda>e. \<not> g (it_key e)) ys))"
    using Cons.IH [of "xs @ [e]" f'] Cons.prems f' by simp
  ultimately show ?case
    using rb_key_ok [OF s mem] f [OF mem]
    by (simp add: find_if_rb_loop.simps [of "Suc f'"] first_addr_def e f')
qed

lemma find_if_rb_ok:
  assumes "rb_struct T t" "\<And>a k v. (a, k, v) \<in> set (items t) \<Longrightarrow> f u k = Inr (g k)"
  shows "find_if_rb_tree T (first_addr (t_dummy T) (items t)) (t_dummy T) u f =
      Inr (first_addr (t_dummy T) (dropWhile (\<lambda>e. \<not> g (it_key e)) (items t)))"
  using find_if_rb_loop_ok [OF assms(1), of "f u" g "[]" "items t" "t_size T + 1"] assms
  by (simp add: find_if_rb_tree_def rb_struct_def)

end
