(* ===== verification/Assoc_Rb_Map.thy ===== *)
theory Assoc_Rb_Map
  imports Assoc_Rb_Ops
begin

text \<open>
  Search and insertion with a comparison function that meets the contract \<open>comparator\<close>: the
  contents stay sorted by the rank of the keys, an insertion goes behind every key of the same rank,
  and a search finds a key of the rank it is given whenever there is one.
\<close>

definition rb_sorted :: "('k \<Rightarrow> int list) \<Rightarrow> (nat \<times> 'k \<times> 'v) list \<Rightarrow> bool" where
  "rb_sorted rank es \<longleftrightarrow> sorted (map (\<lambda>e. rank (it_key e)) es)"

definition rb_inv ::
  "('k \<Rightarrow> 'k \<Rightarrow> int res) \<Rightarrow> ('k \<Rightarrow> bool) \<Rightarrow> ('k \<Rightarrow> int list) \<Rightarrow> ('k, 'v) rb_tree \<Rightarrow> bool" where
  "rb_inv cmp valid rank T \<longleftrightarrow>
     rb_struct T (tree_of T) \<and> t_comp T = cmp \<and> rb_sorted rank (rb_items T) \<and>
     (\<forall>e \<in> set (rb_items T). valid (it_key e))"

text \<open>Where a new key goes: behind the keys that are not after it.\<close>

definition sorted_insert ::
  "('k \<Rightarrow> int list) \<Rightarrow> nat \<times> 'k \<times> 'v \<Rightarrow> (nat \<times> 'k \<times> 'v) list \<Rightarrow> (nat \<times> 'k \<times> 'v) list" where
  "sorted_insert rank e es =
     takeWhile (\<lambda>f. rank (it_key f) \<le> rank (it_key e)) es @
     e # dropWhile (\<lambda>f. rank (it_key f) \<le> rank (it_key e)) es"

lemma sorted_insert_split:
  assumes "\<forall>f \<in> set xs. rank (it_key f) \<le> rank (it_key e)" "\<forall>f \<in> set ys. rank (it_key e) < rank (it_key f)"
  shows "sorted_insert rank e (xs @ ys) = xs @ e # ys"
  using assms by (cases ys) (auto simp: sorted_insert_def takeWhile_append2 dropWhile_append2 not_le)

lemma sorted_insert_dropWhile:
  "rb_sorted rank es \<Longrightarrow> \<forall>f \<in> set (dropWhile (\<lambda>f. rank (it_key f) \<le> r) es). r < rank (it_key f)"
proof (induction es)
  case (Cons e es)
  then show ?case by (auto simp: rb_sorted_def not_le intro: less_le_trans)
qed simp

lemma sorted_mid:
  "sorted (xs @ ys) \<Longrightarrow> \<forall>x \<in> set xs. x \<le> r \<Longrightarrow> \<forall>y \<in> set ys. r \<le> y \<Longrightarrow>
   sorted (xs @ (r :: 'a :: linorder) # ys)"
  by (auto simp: sorted_append)

lemma rb_sorted_insert: "rb_sorted rank es \<Longrightarrow> rb_sorted rank (sorted_insert rank e es)"
proof -
  assume s: "rb_sorted rank es"
  let ?P = "\<lambda>f. rank (it_key f) \<le> rank (it_key e)"
  let ?xs = "map (\<lambda>e. rank (it_key e)) (takeWhile ?P es)"
  let ?ys = "map (\<lambda>e. rank (it_key e)) (dropWhile ?P es)"
  have "?xs @ ?ys = map (\<lambda>e. rank (it_key e)) es" by (simp flip: map_append)
  then have "sorted (?xs @ ?ys)" using s by (simp add: rb_sorted_def)
  moreover have lo: "\<forall>r \<in> set ?xs. r \<le> rank (it_key e)" by (auto dest: set_takeWhileD)
  moreover have hi: "\<forall>r \<in> set ?ys. rank (it_key e) \<le> r"
    using sorted_insert_dropWhile [OF s, of "rank (it_key e)"] by auto
  ultimately have "sorted (?xs @ rank (it_key e) # ?ys)"
    by (rule sorted_mid)
  then show ?thesis by (simp add: rb_sorted_def sorted_insert_def)
qed

lemma set_sorted_insert: "set (sorted_insert rank e es) = insert e (set es)"
proof -
  have "set (takeWhile P es) \<union> set (dropWhile P es) = set es" for P
    by (simp flip: set_append)
  then show ?thesis by (auto simp: sorted_insert_def)
qed

lemma rb_init_ok:
  assumes "key_sz > 0"
  shows "\<exists>T. assoc_rb_tree_init key_sz cmp = Inr T \<and> rb_inv cmp valid rank T \<and> rb_items T = [] \<and>
    t_key_sz T = key_sz"
proof -
  have "rb_struct T Leaf" if "assoc_rb_tree_init key_sz cmp = Inr T" for T :: "('a, 'b) rb_tree"
    using that assms
    by (auto simp: assoc_rb_tree_init_def rb_struct_def zipped_def init_node_def rb_balanced_def
        split: if_splits)
  moreover have "\<exists>T :: ('a, 'b) rb_tree. assoc_rb_tree_init key_sz cmp = Inr T \<and> t_comp T = cmp \<and> t_key_sz T = key_sz"
    using assms by (simp add: assoc_rb_tree_init_def)
  ultimately show ?thesis
    using tree_of_eq by (fastforce simp: rb_inv_def rb_items_def rb_sorted_def)
qed

section \<open>Search\<close>

context comparator begin

lemma find_rb_tree_ok:
  "zipped T ctx t \<Longrightarrow> t_comp T = comp \<Longrightarrow> height t \<le> fuel \<Longrightarrow> rb_sorted rank (items t) \<Longrightarrow>
   \<forall>e \<in> set (items t). valid (it_key e) \<Longrightarrow> valid key \<Longrightarrow>
   \<exists>a. find_rb_tree fuel T (addr (t_dummy T) t) key = Inr a \<and>
     (if a = t_dummy T then \<forall>e \<in> set (items t). rank (it_key e) \<noteq> rank key
      else \<exists>k v. (a, k, v) \<in> set (items t) \<and> rank k = rank key)"
proof (induction t arbitrary: ctx fuel rule: items.induct)
  case 1
  then show ?case by (simp add: find_rb_tree.simps)
next
  case (2 l a c k v r)
  then obtain f where f: "fuel = Suc f" by (cases fuel) auto
  have zl: "zipped T (FL (a, c, k, v) r # ctx) l" and zr: "zipped T (FR l (a, c, k, v) # ctx) r"
    using 2(3) by (simp_all add: zipped_up)
  have a: "a \<noteq> t_dummy T" using addr_ne_dummy [OF 2(3)] .
  have rdn: "rd T a = Inr (mk_node k v (par (t_dummy T) ctx) (addr (t_dummy T) l) (addr (t_dummy T) r) c)"
    using rd_node [OF 2(3)] .
  have srt: "rb_sorted rank (items l)" "rb_sorted rank (items r)"
    "\<forall>e \<in> set (items l). rank (it_key e) \<le> rank k" "\<forall>e \<in> set (items r). rank k \<le> rank (it_key e)"
    using 2(6) by (auto simp: rb_sorted_def sorted_append)
  have vk: "valid k" using 2(7) by simp
  consider "rank key < rank k" | "rank k < rank key" | "rank key = rank k"
    by (metis linorder_neqE)
  then show ?case
  proof cases
    case 1
    then have c1: "comp key k = Inr 1" using comp_law [OF 2(8) vk] by simp
    have "find_rb_tree fuel T a key = find_rb_tree f T (addr (t_dummy T) l) key"
      using a rdn c1 2(4) by (simp add: find_rb_tree.simps [of "Suc f"] f node_key_def)
    moreover have "\<forall>e \<in> set (items r). rank (it_key e) \<noteq> rank key"
      using srt(4) 1 by fastforce
    ultimately show ?thesis
      using 2(1) [OF zl 2(4) _ srt(1), of f] 2(5,7,8) 1 f by fastforce
  next
    case 2
    then have c1: "comp key k = Inr (-1)" using comp_law [OF "2.prems"(6) vk] by simp
    have "find_rb_tree fuel T a key = find_rb_tree f T (addr (t_dummy T) r) key"
      using a rdn c1 "2.prems"(2) by (simp add: find_rb_tree.simps [of "Suc f"] f node_key_def)
    moreover have "\<forall>e \<in> set (items l). rank (it_key e) \<noteq> rank key"
      using srt(3) 2 by fastforce
    ultimately show ?thesis
      using "2.IH"(2) [OF zr "2.prems"(2) _ srt(2), of f] "2.prems"(3,5,6) 2 f by fastforce
  next
    case 3
    then have "comp key k = Inr 0" using comp_law [OF 2(8) vk] by simp
    then have "find_rb_tree fuel T a key = Inr a"
      using a rdn 2(4) by (simp add: find_rb_tree.simps [of "Suc f"] f node_key_def)
    then show ?thesis using a 3 by auto
  qed
qed

section \<open>Insertion\<close>

lemma find_leaf_ok:
  "zipped T ctx t \<Longrightarrow> t_comp T = comp \<Longrightarrow> height t \<le> fuel \<Longrightarrow> rb_sorted rank (items t) \<Longrightarrow>
   \<forall>e \<in> set (items t). valid (it_key e) \<Longrightarrow> valid key \<Longrightarrow>
   \<forall>e \<in> set (lefts ctx). rank (it_key e) \<le> rank key \<Longrightarrow>
   \<forall>e \<in> set (rights ctx). rank key < rank (it_key e) \<Longrightarrow>
   \<exists>ctx'. find_leaf fuel T key (addr (t_dummy T) t) (par (t_dummy T) ctx) = Inr (par (t_dummy T) ctx') \<and>
     plug ctx' Leaf = plug ctx t \<and>
     (\<forall>e \<in> set (lefts ctx'). rank (it_key e) \<le> rank key) \<and>
     (\<forall>e \<in> set (rights ctx'). rank key < rank (it_key e))"
proof (induction t arbitrary: ctx fuel rule: items.induct)
  case 1
  then show ?case by (intro exI [of _ ctx]) (simp add: find_leaf.simps)
next
  case (2 l a c k v r)
  then obtain f where f: "fuel = Suc f" by (cases fuel) auto
  have zl: "zipped T (FL (a, c, k, v) r # ctx) l" and zr: "zipped T (FR l (a, c, k, v) # ctx) r"
    using 2(3) by (simp_all add: zipped_up)
  have a: "a \<noteq> t_dummy T" using addr_ne_dummy [OF 2(3)] .
  have rdn: "rd T a = Inr (mk_node k v (par (t_dummy T) ctx) (addr (t_dummy T) l) (addr (t_dummy T) r) c)"
    using rd_node [OF 2(3)] .
  have srt: "rb_sorted rank (items l)" "rb_sorted rank (items r)"
    "\<forall>e \<in> set (items l). rank (it_key e) \<le> rank k" "\<forall>e \<in> set (items r). rank k \<le> rank (it_key e)"
    using 2(6) by (auto simp: rb_sorted_def sorted_append)
  have vk: "valid k" using 2(7) by simp
  show ?case
  proof (cases "rank key < rank k")
    case True
    then have c1: "comp key k = Inr 1" using comp_law [OF 2(8) vk] by simp
    have "find_leaf fuel T key a (par (t_dummy T) ctx) =
        find_leaf f T key (addr (t_dummy T) l) (par (t_dummy T) (FL (a, c, k, v) r # ctx))"
      using a rdn c1 2(4) by (simp add: find_leaf.simps [of "Suc f"] f node_key_def)
    moreover have "\<forall>e \<in> set (rights (FL (a, c, k, v) r # ctx)). rank key < rank (it_key e)"
      using True srt(4) 2(10) by (auto intro: less_le_trans)
    ultimately show ?thesis
      using 2(1) [OF zl 2(4) _ srt(1) _ 2(8), of f] 2(5,7,9) f by fastforce
  next
    case False
    then have c1: "\<exists>rc. comp key k = Inr rc \<and> rc \<noteq> 1" using comp_law [OF 2(8) vk] by simp
    have "find_leaf fuel T key a (par (t_dummy T) ctx) =
        find_leaf f T key (addr (t_dummy T) r) (par (t_dummy T) (FR l (a, c, k, v) # ctx))"
      using a rdn c1 2(4) by (auto simp: find_leaf.simps [of "Suc f"] f node_key_def)
    moreover have "\<forall>e \<in> set (lefts (FR l (a, c, k, v) # ctx)). rank (it_key e) \<le> rank key"
      using False srt(3) 2(9) by (auto intro: order_trans simp: not_less)
    ultimately show ?thesis
      using 2(2) [OF zr 2(4) _ srt(2) _ 2(8), of f] 2(5,7,10) f by fastforce
  qed
qed

text \<open>Linking the new node under the leaf that was found.\<close>

lemma link_ok:
  assumes z: "zipped T ctx Leaf" and T: "t_comp T = comp"
    and fresh: "z \<noteq> t_dummy T" "z \<notin> set (ctx_addrs ctx)"
    and hz: "t_heap T z = Some (mk_node key val (par (t_dummy T) ctx) (t_dummy T) (t_dummy T) ASSOC_RED)"
    and key: "valid key" "\<forall>e \<in> set (lefts ctx). valid (it_key e)" "\<forall>e \<in> set (rights ctx). valid (it_key e)"
    and pos: "\<forall>e \<in> set (lefts ctx). rank (it_key e) \<le> rank key"
      "\<forall>e \<in> set (rights ctx). rank key < rank (it_key e)"
  defines "y \<equiv> par (t_dummy T) ctx"
  shows "\<exists>T'. (if y = t_dummy T then Inr (T\<lparr>t_root := z\<rparr>)
      else bind_res (rd T y) (\<lambda>yn. bind_res (node_key yn) (\<lambda>k.
        bind_res (t_comp T key k) (\<lambda>rc. if rc = 1 then set_left y z T else set_right y z T)))) = Inr T' \<and>
    zipped T' ctx (Node Leaf (z, ASSOC_RED, key, val) Leaf) \<and> env T' = env T"
proof (cases ctx rule: ctx_addrs.cases)
  case 1
  then show ?thesis using z hz fresh
    by (auto simp: y_def zipped_def env_def)
next
  case (2 a c k v r ctx')
  have "comp key k = Inr 1" using 2 comp_law [OF key(1), of k] key(3) pos(2) by simp
  then show ?thesis using z hz fresh T par_ne_dummy [OF z [unfolded 2]]
    by (auto simp: y_def zipped_def env_def 2 rd_def wr_def node_key_def simp del: bind_res_eq_Inr)
next
  case (3 l a c k v ctx')
  have "\<exists>rc. comp key k = Inr rc \<and> rc \<noteq> 1"
    using 3 comp_law [OF key(1), of k] key(2) pos(1) by auto
  then show ?thesis using z hz fresh T par_ne_dummy [OF z [unfolded 3]]
    by (auto simp: y_def zipped_def env_def 3 rd_def wr_def node_key_def simp del: bind_res_eq_Inr)
qed

end

lemma items_addrs_ctx: "map fst (lefts ctx) @ map fst (rights ctx) = map fst (items (plug ctx Leaf))"
  by (simp add: items_plug)

lemma zipped_fresh:
  assumes "zipped T ctx t" "z \<noteq> t_dummy T" "z \<notin> set (addrs t)" "z \<notin> set (ctx_addrs ctx)"
  shows "zipped (T\<lparr>t_heap := (t_heap T)(z := x)\<rparr>) ctx t"
  using assms by (auto simp: zipped_def)

context comparator begin

lemma rb_insert_ok:
  assumes inv: "rb_inv comp valid rank T" and key: "valid key" and sz: "key_sz = t_key_sz T"
  shows "\<exists>T'. assoc_rb_tree_insert T key key_sz val = Inr T' \<and> rb_inv comp valid rank T' \<and>
    rb_items T' = sorted_insert rank (t_brk T, key, val) (rb_items T) \<and>
    t_key_sz T' = t_key_sz T \<and> t_dummy T' = t_dummy T"
proof -
  define t where "t = tree_of T"
  define z where "z = t_brk T"
  define x where "x = mk_node key val (t_dummy T) (t_dummy T) (t_dummy T) ASSOC_RED"
  define T0 where "T0 = T\<lparr>t_heap := (t_heap T)(z \<mapsto> x), t_brk := z + 1\<rparr>"
  have s: "rb_struct T t" and cmp: "t_comp T = comp" and srt: "rb_sorted rank (items t)"
    and vals: "\<forall>e \<in> set (items t). valid (it_key e)"
    using inv by (auto simp: rb_inv_def t_def rb_items_def)
  have zt: "zipped T [] t" and len: "size t = t_size T"
    and dm: "dom (t_heap T) = insert (t_dummy T) (set (addrs t))" and brk: "\<forall>a \<in> dom (t_heap T). a < z"
    using s by (auto simp: rb_struct_def length_items z_def)
  have fresh: "z \<noteq> t_dummy T" "z \<notin> set (addrs t)" using brk dm by auto
  have create: "create_node_rb_tree key val T = (z, T0)"
    by (simp add: create_node_rb_tree_def init_node_def mk_node_def z_def T0_def x_def)
  have z0: "zipped T0 [] t"
    using zipped_fresh [OF zt fresh, of "Some x"] by (simp add: T0_def zipped_def)
  have d0: "t_dummy T0 = t_dummy T" "t_comp T0 = comp" "t_size T0 = t_size T" "t_root T0 = t_root T"
    using cmp by (simp_all add: T0_def)
  have root: "t_root T = addr (t_dummy T) t" using root_plug [OF zt] by simp
  obtain ctx where c: "find_leaf (t_size T + 1) T0 key (t_root T) (t_dummy T) = Inr (par (t_dummy T) ctx)"
    "plug ctx Leaf = t" "\<forall>e \<in> set (lefts ctx). rank (it_key e) \<le> rank key"
    "\<forall>e \<in> set (rights ctx). rank key < rank (it_key e)"
    using find_leaf_ok [OF z0 d0(2) _ srt vals key, of "t_size T + 1"] height_le_size_tree [of t] len
    by (auto simp: d0 root)
  have zc: "zipped T0 ctx Leaf" using z0 c(2) by (simp add: zipped_whole [of T0 ctx])
  have freshc: "z \<notin> set (ctx_addrs ctx)"
    using fresh(2) set_addrs_plug [of ctx Leaf] c(2) by auto
  define T1 where "T1 = T0\<lparr>t_heap := (t_heap T0)(z \<mapsto> x\<lparr>n_parent := par (t_dummy T) ctx\<rparr>)\<rparr>"
  have sp: "set_parent z (par (t_dummy T) ctx) T0 = Inr T1"
    by (simp add: wr_def T1_def T0_def)
  have z1: "zipped T1 ctx Leaf"
    using zipped_fresh [OF zc, of z] fresh freshc by (simp add: T1_def d0)
  have hz: "t_heap T1 z = Some (mk_node key val (par (t_dummy T) ctx) (t_dummy T) (t_dummy T) ASSOC_RED)"
    by (simp add: T1_def x_def)
  have d1: "t_dummy T1 = t_dummy T" "t_comp T1 = comp" "t_size T1 = t_size T" "t_root T1 = t_root T"
    "t_key_sz T1 = t_key_sz T" "t_brk T1 = z + 1" "dom (t_heap T1) = insert z (dom (t_heap T))"
    using cmp by (auto simp: T1_def T0_def)
  have it: "items t = lefts ctx @ rights ctx" using items_plug [of ctx Leaf] c(2) by simp
  obtain T2 where T2: "(if par (t_dummy T) ctx = t_dummy T1 then Inr (T1\<lparr>t_root := z\<rparr>)
      else bind_res (rd T1 (par (t_dummy T) ctx)) (\<lambda>yn. bind_res (node_key yn) (\<lambda>k.
        bind_res (t_comp T1 key k) (\<lambda>rc. if rc = 1 then set_left (par (t_dummy T) ctx) z T1
          else set_right (par (t_dummy T) ctx) z T1)))) = Inr T2"
    "zipped T2 ctx (Node Leaf (z, ASSOC_RED, key, val) Leaf)" "env T2 = env T1"
    using link_ok [OF z1 d1(2) _ freshc, of key val, unfolded d1(1)] hz fresh(1) key vals c(3,4) it
    unfolding d1(1) by auto
  have "rb_balanced (plug ctx Leaf)" using s c(2) by (simp add: rb_struct_def)
  then have ok: "ctx_ok 0 ctx" by (simp add: rb_balanced_plug)
  have lc: "length ctx \<le> t_size T + 2"
    using length_ctx [of ctx] length_plug [of ctx Leaf] c(2) len by simp
  have "\<exists>T3 t3. insert_fixup (t_size T + 2) T2 z = Inr T3 \<and> zipped T3 [] t3 \<and>
      items t3 = items (plug ctx (Node Leaf (z, ASSOC_RED, key, val) Leaf)) \<and> rb_balanced t3 \<and> env T3 = env T2"
    using insert_fixup_ok [OF T2(2) _ _ _ lc] ok by simp
  then obtain T3 t3 where T3: "insert_fixup (t_size T + 2) T2 z = Inr T3" "zipped T3 [] t3"
    "items t3 = lefts ctx @ (z, key, val) # rights ctx" "rb_balanced t3" "env T3 = env T2"
    by (auto simp: items_plug)
  define T4 where "T4 = T3\<lparr>t_size := t_size T + 1\<rparr>"
  have e3: "t_dummy T3 = t_dummy T" "t_comp T3 = comp" "t_key_sz T3 = t_key_sz T" "t_brk T3 = z + 1"
    "t_size T3 = t_size T" "dom (t_heap T3) = insert z (dom (t_heap T))"
    using T3(5) T2(3) d1 by (auto simp: env_eq)
  have "t_size T2 = t_size T" using T2(3) d1 by (simp add: env_eq)
  then have run: "assoc_rb_tree_insert T key key_sz val = Inr T4"
    using sz fresh(1) c(1) sp T2(1) T3(1) e3
    by (simp add: assoc_rb_tree_insert_def create d0 d1 T4_def del: bind_res_eq_Inr)
  have adr: "set (addrs t3) = insert z (set (addrs t))"
    using T3(3) it by (auto simp flip: map_fst_items)
  have s4: "rb_struct T4 t3"
  proof -
    have "zipped T4 [] t3" using T3(2) by (simp add: T4_def zipped_def)
    moreover have "length (items t3) = t_size T4"
      using T3(3) it len by (simp add: T4_def flip: length_items)
    moreover have "dom (t_heap T4) = insert (t_dummy T4) (set (addrs t3))"
      using e3 dm adr by (auto simp: T4_def)
    moreover have "\<forall>a \<in> dom (t_heap T4). a < t_brk T4"
      using e3(4,6) brk by (simp add: T4_def less_Suc_eq)
    ultimately show ?thesis using T3(4) by (simp add: rb_struct_def)
  qed
  have it4: "rb_items T4 = sorted_insert rank (z, key, val) (rb_items T)"
    using sorted_insert_split [of "lefts ctx" rank "(z, key, val)" "rights ctx"] c(3,4) T3(3) it
    by (simp add: rb_items_def tree_of_eq [OF s4] flip: t_def)
  have "rb_inv comp valid rank T4"
    using s4 tree_of_eq [OF s4] e3 it4 rb_sorted_insert [of rank "rb_items T"] inv key
    by (auto simp: rb_inv_def T4_def set_sorted_insert)
  then show ?thesis
    using run it4 e3 by (auto simp: T4_def z_def)
qed

end

end
