(* ===== verification/Assoc_Rb_Extract.thy ===== *)
theory Assoc_Rb_Extract
  imports Assoc_Rb_Map
begin

text \<open>
  Deletion from the red-black tree: \<open>delete_fixup\<close>, whose focus lacks one black node until the loop
  restores the balance, \<open>transplant\<close>, \<open>assoc_rb_tree_extract_node\<close> and the two operations that
  end in it. The focus may be the dummy: then the parent field of the dummy has to be the parent of
  the position, which \<open>transplant\<close> sees to.
\<close>

section \<open>\<open>delete_fixup\<close>\<close>

definition short :: "('k, 'v) ctx \<Rightarrow> ('k, 'v) rbt \<Rightarrow> bool" where
  "short ctx t \<longleftrightarrow> balanced (paint ASSOC_BLACK t) \<and> ctx_ok (black_height t + 1) ctx"

definition turns :: "('k, 'v) ctx \<Rightarrow> ('k, 'v) rbt \<Rightarrow> nat" where
  "turns ctx t = (if color_of t = ASSOC_RED then 0 else length ctx)"

lemma paint_black: "color_of t = ASSOC_BLACK \<Longrightarrow> paint ASSOC_BLACK t = t"
  by (cases t rule: rbt_cases) auto

lemma root_in_ctx: "ctx \<noteq> [] \<Longrightarrow> addr d (plug ctx t) \<in> set (ctx_addrs ctx)"
proof (induction ctx arbitrary: t)
  case (Cons f ctx)
  then show ?case
    by (cases "ctx = []"; cases f rule: frame_addr.cases) auto
qed simp

lemma focus_is_root:
  assumes "zipped T ctx t"
  shows "addr (t_dummy T) t = t_root T \<longleftrightarrow> ctx = []"
proof
  assume a: "addr (t_dummy T) t = t_root T"
  show "ctx = []"
  proof (rule ccontr)
    assume "ctx \<noteq> []"
    then have "addr (t_dummy T) t \<in> set (ctx_addrs ctx)"
      using root_in_ctx [of ctx "t_dummy T" t] root_plug [OF assms] a by simp
    then show False using assms by (cases t rule: rbt_cases) (auto simp: zipped_def)
  qed
next
  assume "ctx = []"
  then show "addr (t_dummy T) t = t_root T" using root_plug [OF assms] by simp
qed

lemma tall_node: "black_height t = Suc n \<Longrightarrow> t \<noteq> Leaf"
  by auto

lemma red_sibling_left_ok:
  assumes z: "zipped T (FL (p, cp, kp, vp) W # ctx) t" and ok: "ctx_ok (Suc n) (FL (p, cp, kp, vp) W # ctx)"
  shows "\<exists>T' c' W' ctx'. red_sibling_left T p = Inr (T', addr (t_dummy T) W') \<and>
    zipped T' (FL (p, c', kp, vp) W' # ctx') t \<and> ctx_ok (Suc n) (FL (p, c', kp, vp) W' # ctx') \<and>
    color_of W' = ASSOC_BLACK \<and>
    items (plug (FL (p, c', kp, vp) W' # ctx') t) = items (plug (FL (p, cp, kp, vp) W # ctx) t) \<and>
    (ctx' = ctx \<or> c' = ASSOC_RED) \<and> env T' = env T"
proof (cases "color_of W")
  case ASSOC_BLACK
  have zp: "zipped T ctx (Node t (p, cp, kp, vp) W)" using z by (simp add: zipped_up)
  obtain wn where wn: "rd T (addr (t_dummy T) W) = Inr wn" "n_color wn = color_of W"
    using rd_child_color [OF zp] by blast
  have "red_sibling_left T p = Inr (T, addr (t_dummy T) W)"
    using rd_node [OF zp] wn ASSOC_BLACK by (simp add: red_sibling_left_def Let_def del: bind_res_eq_Inr)
  then show ?thesis using z ok ASSOC_BLACK
    by (intro exI [of _ T] exI [of _ cp] exI [of _ W] exI [of _ ctx]) auto
next
  case ASSOC_RED
  obtain near w kw vw far where W: "W = Node near (w, ASSOC_RED, kw, vw) far"
    using ASSOC_RED by (cases W rule: rbt_cases) auto
  have cp: "cp = ASSOC_BLACK" using ok W by (cases cp) auto
  have zp: "zipped T ctx (Node t (p, cp, kp, vp) W)" using z by (simp add: zipped_up)
  have zw: "zipped T (FR t (p, cp, kp, vp) # ctx) (Node near (w, ASSOC_RED, kw, vw) far)" using z by (simp add: zipped_up W)
  obtain T1 where T1: "set_color w ASSOC_BLACK T = Inr T1"
    "zipped T1 (FR t (p, cp, kp, vp) # ctx) (Node near (w, ASSOC_BLACK, kw, vw) far)" "env T1 = env T"
    using set_color_ok [OF zw] by blast
  have zp1: "zipped T1 ctx (Node t (p, cp, kp, vp) (Node near (w, ASSOC_BLACK, kw, vw) far))" using T1(2) by (simp add: zipped_up)
  obtain T2 where T2: "set_color p ASSOC_RED T1 = Inr T2"
    "zipped T2 ctx (Node t (p, ASSOC_RED, kp, vp) (Node near (w, ASSOC_BLACK, kw, vw) far))" "env T2 = env T1"
    using set_color_ok [OF zp1] by blast
  obtain T3 where T3: "left_rotate T2 p = Inr T3"
    "zipped T3 ctx (Node (Node t (p, ASSOC_RED, kp, vp) near) (w, ASSOC_BLACK, kw, vw) far)" "env T3 = env T2"
    using left_rotate_ok [OF T2(2)] by blast
  have zp3: "zipped T3 (FL (w, ASSOC_BLACK, kw, vw) far # ctx) (Node t (p, ASSOC_RED, kp, vp) near)" using T3(2) by (simp add: zipped_up)
  have d: "t_dummy T3 = t_dummy T" using T1 T2 T3 by (simp add: env_eq)
  have "red_sibling_left T p = Inr (T3, addr (t_dummy T) near)"
    using rd_node [OF zp] rd_node [OF zw] rd_node [OF zp3] T1(1) T2(1) T3(1) d
    by (simp add: red_sibling_left_def Let_def W del: bind_res_eq_Inr)
  then show ?thesis using zp3 ok T1 T2 T3
    by (intro exI [of _ T3] exI [of _ ASSOC_RED] exI [of _ near] exI [of _ "FL (w, ASSOC_BLACK, kw, vw) far # ctx"])
       (auto simp: W cp zipped_up items_plug)
qed

lemma red_nephew_left_ok:
  assumes z: "zipped T (FL (p, cp, kp, vp) (Node near (w, ASSOC_BLACK, kw, vw) far) # ctx) t"
    and red: "color_of near = ASSOC_RED \<or> color_of far = ASSOC_RED"
    and ok: "ctx_ok m (FL (p, cp, kp, vp) (Node near (w, ASSOC_BLACK, kw, vw) far) # ctx)"
  shows "\<exists>T' near' w' kw' vw' far'. red_nephew_left T p w = Inr (T', w') \<and>
    zipped T' (FL (p, cp, kp, vp) (Node near' (w', ASSOC_BLACK, kw', vw') far') # ctx) t \<and> color_of far' = ASSOC_RED \<and>
    ctx_ok m (FL (p, cp, kp, vp) (Node near' (w', ASSOC_BLACK, kw', vw') far') # ctx) \<and>
    items (Node near' (w', ASSOC_BLACK, kw', vw') far') = items (Node near (w, ASSOC_BLACK, kw, vw) far) \<and> env T' = env T"
proof -
  have zw: "zipped T (FR t (p, cp, kp, vp) # ctx) (Node near (w, ASSOC_BLACK, kw, vw) far)" using z by (simp add: zipped_up)
  obtain fn where fn: "rd T (addr (t_dummy T) far) = Inr fn" "n_color fn = color_of far"
    using rd_child_color [OF zw] by blast
  show ?thesis
  proof (cases "color_of far")
    case ASSOC_RED
    have "red_nephew_left T p w = Inr (T, w)"
      using rd_node [OF zw] fn ASSOC_RED by (simp add: red_nephew_left_def del: bind_res_eq_Inr)
    then show ?thesis using z ok ASSOC_RED by blast
  next
    case ASSOC_BLACK
    then obtain nl y ky vy nf where near: "near = Node nl (y, ASSOC_RED, ky, vy) nf"
      using red by (cases near rule: rbt_cases) auto
    have zn: "zipped T (FL (w, ASSOC_BLACK, kw, vw) far # FR t (p, cp, kp, vp) # ctx) (Node nl (y, ASSOC_RED, ky, vy) nf)"
      using zw by (simp add: zipped_up near)
    obtain T1 where T1: "set_color y ASSOC_BLACK T = Inr T1"
      "zipped T1 (FL (w, ASSOC_BLACK, kw, vw) far # FR t (p, cp, kp, vp) # ctx) (Node nl (y, ASSOC_BLACK, ky, vy) nf)" "env T1 = env T"
      using set_color_ok [OF zn] by blast
    have zw1: "zipped T1 (FR t (p, cp, kp, vp) # ctx) (Node (Node nl (y, ASSOC_BLACK, ky, vy) nf) (w, ASSOC_BLACK, kw, vw) far)"
      using T1(2) by (simp add: zipped_up)
    obtain T2 where T2: "set_color w ASSOC_RED T1 = Inr T2"
      "zipped T2 (FR t (p, cp, kp, vp) # ctx) (Node (Node nl (y, ASSOC_BLACK, ky, vy) nf) (w, ASSOC_RED, kw, vw) far)" "env T2 = env T1"
      using set_color_ok [OF zw1] by blast
    obtain T3 where T3: "right_rotate T2 w = Inr T3"
      "zipped T3 (FR t (p, cp, kp, vp) # ctx) (Node nl (y, ASSOC_BLACK, ky, vy) (Node nf (w, ASSOC_RED, kw, vw) far))" "env T3 = env T2"
      using right_rotate_ok [OF T2(2)] by blast
    have zp3: "zipped T3 ctx (Node t (p, cp, kp, vp) (Node nl (y, ASSOC_BLACK, ky, vy) (Node nf (w, ASSOC_RED, kw, vw) far)))"
      using T3(2) by (simp add: zipped_up)
    have "red_nephew_left T p w = Inr (T3, y)"
      using rd_node [OF zw] rd_node [OF zn] rd_node [OF zp3] fn ASSOC_BLACK T1(1) T2(1) T3(1)
      by (simp add: red_nephew_left_def near del: bind_res_eq_Inr)
    then show ?thesis using zp3 ok T1 T2 T3 ASSOC_BLACK
      by (intro exI [of _ T3] exI [of _ nl] exI [of _ y] exI [of _ ky] exI [of _ vy]
          exI [of _ "Node nf (w, ASSOC_RED, kw, vw) far"])
         (auto simp: near zipped_up split: if_splits)
  qed
qed

lemma last_rotation_left_ok:
  assumes z: "zipped T (FL (p, cp, kp, vp) (Node near (w, ASSOC_BLACK, kw, vw) far) # ctx) t" and red: "color_of far = ASSOC_RED"
    and t: "balanced t" and ok: "ctx_ok (Suc (black_height t)) (FL (p, cp, kp, vp) (Node near (w, ASSOC_BLACK, kw, vw) far) # ctx)"
  shows "\<exists>T' t'. last_rotation_left T p w = Inr (T', addr (t_dummy T) t') \<and> zipped T' [] t' \<and>
    rb_balanced t' \<and> items t' = items (plug (FL (p, cp, kp, vp) (Node near (w, ASSOC_BLACK, kw, vw) far) # ctx) t) \<and> t' \<noteq> Leaf \<and> env T' = env T"
proof -
  obtain fl f kf vf fr' where far: "far = Node fl (f, ASSOC_RED, kf, vf) fr'"
    using red by (cases far rule: rbt_cases) auto
  let ?far = "Node fl (f, ASSOC_BLACK, kf, vf) fr'" and ?w = "(w, cp, kw, vw)"
  have zp: "zipped T ctx (Node t (p, cp, kp, vp) (Node near (w, ASSOC_BLACK, kw, vw) far))" using z by (simp add: zipped_up)
  have zw: "zipped T (FR t (p, cp, kp, vp) # ctx) (Node near (w, ASSOC_BLACK, kw, vw) far)" using z by (simp add: zipped_up)
  have zf: "zipped T (FR near (w, ASSOC_BLACK, kw, vw) # FR t (p, cp, kp, vp) # ctx) (Node fl (f, ASSOC_RED, kf, vf) fr')"
    using zw by (simp add: zipped_up far)
  obtain T1 where T1: "set_color w cp T = Inr T1"
    "zipped T1 (FR t (p, cp, kp, vp) # ctx) (Node near ?w far)" "env T1 = env T"
    using set_color_ok [OF zw] by blast
  have zp1: "zipped T1 ctx (Node t (p, cp, kp, vp) (Node near ?w far))" using T1(2) by (simp add: zipped_up)
  obtain T2 where T2: "set_color p ASSOC_BLACK T1 = Inr T2"
    "zipped T2 ctx (Node t (p, ASSOC_BLACK, kp, vp) (Node near ?w far))" "env T2 = env T1"
    using set_color_ok [OF zp1] by blast
  have zf2: "zipped T2 (FR near ?w # FR t (p, ASSOC_BLACK, kp, vp) # ctx) (Node fl (f, ASSOC_RED, kf, vf) fr')"
    using T2(2) by (simp add: zipped_up far)
  obtain T3 where T3: "set_color f ASSOC_BLACK T2 = Inr T3"
    "zipped T3 (FR near ?w # FR t (p, ASSOC_BLACK, kp, vp) # ctx) ?far" "env T3 = env T2"
    using set_color_ok [OF zf2] by blast
  have zp3: "zipped T3 ctx (Node t (p, ASSOC_BLACK, kp, vp) (Node near ?w ?far))" using T3(2) by (simp add: zipped_up)
  obtain T4 where T4: "left_rotate T3 p = Inr T4"
    "zipped T4 ctx (Node (Node t (p, ASSOC_BLACK, kp, vp) near) ?w ?far)" "env T4 = env T3"
    using left_rotate_ok [OF zp3] by blast
  define t' where "t' = plug ctx (Node (Node t (p, ASSOC_BLACK, kp, vp) near) ?w ?far)"
  have z4: "zipped T4 [] t'" using T4(2) by (simp add: t'_def flip: zipped_whole)
  have e: "env T4 = env T" using T1 T2 T3 T4 by simp
  have "last_rotation_left T p w = Inr (T4, t_root T4)"
    using rd_node [OF zp] rd_node [OF zw] rd_node [OF zf] T1(1) T2(1) T3(1) T4(1)
    by (simp add: last_rotation_left_def far del: bind_res_eq_Inr)
  then have "last_rotation_left T p w = Inr (T4, addr (t_dummy T) t')"
    using root_plug [OF z4] env_dummy [OF e] by simp
  moreover have "rb_balanced t'"
    using ok t by (cases cp) (auto simp: t'_def rb_balanced_plug far)
  moreover have "items t' = items (plug (FL (p, cp, kp, vp) (Node near (w, ASSOC_BLACK, kw, vw) far) # ctx) t)"
    by (simp add: t'_def items_plug far)
  moreover have "t' \<noteq> Leaf"
  proof
    assume "t' = Leaf"
    then have "size t' = 0" by simp
    then show False by (simp add: t'_def length_plug)
  qed
  ultimately show ?thesis using z4 e by blast
qed

lemma delete_left_ok:
  assumes z: "zipped T (FL (p, cp, kp, vp) W # ctx) t" and t: "color_of t = ASSOC_BLACK"
    and sh: "short (FL (p, cp, kp, vp) W # ctx) t"
  shows "\<exists>T' ctx' t'. delete_left T p = Inr (T', addr (t_dummy T) t') \<and> zipped T' ctx' t' \<and>
    items (plug ctx' t') = items (plug (FL (p, cp, kp, vp) W # ctx) t) \<and> short ctx' t' \<and> t' \<noteq> Leaf \<and>
    turns ctx' t' < length ctx + 1 \<and> env T' = env T"
proof -
  have bt: "balanced t" and ok: "ctx_ok (Suc (black_height t)) (FL (p, cp, kp, vp) W # ctx)"
    using sh t by (auto simp: short_def paint_black)
  obtain T1 c1 W1 ctx1 where s1: "red_sibling_left T p = Inr (T1, addr (t_dummy T) W1)"
    "zipped T1 (FL (p, c1, kp, vp) W1 # ctx1) t"
    "ctx_ok (Suc (black_height t)) (FL (p, c1, kp, vp) W1 # ctx1)" "color_of W1 = ASSOC_BLACK"
    "items (plug (FL (p, c1, kp, vp) W1 # ctx1) t) = items (plug (FL (p, cp, kp, vp) W # ctx) t)"
    "ctx1 = ctx \<or> c1 = ASSOC_RED" "env T1 = env T"
    using red_sibling_left_ok [OF z ok] by blast
  have d1: "t_dummy T1 = t_dummy T" using s1(7) by (rule env_dummy)
  have "black_height W1 = Suc (black_height t)" using s1(3) by simp
  then obtain near w kw vw far where W1: "W1 = Node near (w, ASSOC_BLACK, kw, vw) far"
    using s1(4) by (cases W1 rule: rbt_cases) auto
  have zw: "zipped T1 (FR t (p, c1, kp, vp) # ctx1) (Node near (w, ASSOC_BLACK, kw, vw) far)"
    using s1(2) by (simp add: zipped_up W1)
  obtain n1 n2 where ch: "rd T1 (addr (t_dummy T) near) = Inr n1" "n_color n1 = color_of near"
    "rd T1 (addr (t_dummy T) far) = Inr n2" "n_color n2 = color_of far"
    using rd_child_color [OF zw] d1 by auto
  show ?thesis
  proof (cases "color_of near = ASSOC_BLACK \<and> color_of far = ASSOC_BLACK")
    case True
    obtain T2 where T2: "set_color w ASSOC_RED T1 = Inr T2"
      "zipped T2 (FR t (p, c1, kp, vp) # ctx1) (Node near (w, ASSOC_RED, kw, vw) far)" "env T2 = env T1"
      using set_color_ok [OF zw] by blast
    define t' where "t' = Node t (p, c1, kp, vp) (Node near (w, ASSOC_RED, kw, vw) far)"
    have z2: "zipped T2 ctx1 t'" using T2(2) by (simp add: zipped_up t'_def)
    have "delete_left T p = Inr (T2, addr (t_dummy T) t')"
      using s1(1) rd_node [OF zw] ch True T2(1) d1
      by (simp add: delete_left_def W1 t'_def del: bind_res_eq_Inr)
    moreover have "short ctx1 t'"
      using s1(3) True bt t by (cases c1) (auto simp: short_def t'_def W1)
    moreover have "turns ctx1 t' < length ctx + 1"
      using s1(6) by (cases c1) (auto simp: turns_def t'_def)
    moreover have "items (plug ctx1 t') = items (plug (FL (p, cp, kp, vp) W # ctx) t)"
      using s1(5) by (simp add: t'_def items_plug W1)
    moreover have "t' \<noteq> Leaf" by (simp add: t'_def)
    ultimately show ?thesis using z2 T2(3) s1(7) by (metis (no_types, lifting))
  next
    case False
    then have red: "color_of near = ASSOC_RED \<or> color_of far = ASSOC_RED"
      using color_cases by blast
    obtain T2 near2 w2 kw2 vw2 far2 where s2: "red_nephew_left T1 p w = Inr (T2, w2)"
      "zipped T2 (FL (p, c1, kp, vp) (Node near2 (w2, ASSOC_BLACK, kw2, vw2) far2) # ctx1) t"
      "color_of far2 = ASSOC_RED"
      "ctx_ok (Suc (black_height t)) (FL (p, c1, kp, vp) (Node near2 (w2, ASSOC_BLACK, kw2, vw2) far2) # ctx1)"
      "items (Node near2 (w2, ASSOC_BLACK, kw2, vw2) far2) = items (Node near (w, ASSOC_BLACK, kw, vw) far)" "env T2 = env T1"
      using red_nephew_left_ok [OF s1(2) [unfolded W1] red s1(3) [unfolded W1]] by blast
    obtain T3 t' where s3: "last_rotation_left T2 p w2 = Inr (T3, addr (t_dummy T2) t')" "zipped T3 [] t'"
      "rb_balanced t'" "t' \<noteq> Leaf" "env T3 = env T2"
      "items t' = items (plug (FL (p, c1, kp, vp) (Node near2 (w2, ASSOC_BLACK, kw2, vw2) far2) # ctx1) t)"
      using last_rotation_left_ok [OF s2(2,3) bt s2(4)] by blast
    have d2: "t_dummy T2 = t_dummy T" using env_dummy [OF s2(6)] d1 by simp
    have "delete_left T p = Inr (T3, addr (t_dummy T) t')"
      using s1(1) rd_node [OF zw] ch False s2(1) s3(1) d1 d2
      by (auto simp: delete_left_def W1 simp del: bind_res_eq_Inr)
    moreover have "short [] t'"
      using s3(3) by (simp add: short_def rb_balanced_def paint_black)
    moreover have "turns [] t' < length ctx + 1" by (simp add: turns_def)
    moreover have gen: "items (plug (FL (p, c1, kp, vp) X # ctx1) t) =
        lefts ctx1 @ items t @ (p, kp, vp) # items X @ rights ctx1" for X
      by (simp add: items_plug)
    have "items (plug [] t') = items (plug (FL (p, cp, kp, vp) W # ctx) t)"
      unfolding plug.simps(1) s3(6) s1(5) [symmetric] W1 gen s2(5) ..
    ultimately show ?thesis using s3(2,4,5) s2(6) s1(7) by (metis (no_types, lifting))
  qed
qed

lemma red_sibling_right_ok:
  assumes z: "zipped T (FR W (p, cp, kp, vp) # ctx) t" and ok: "ctx_ok (Suc n) (FR W (p, cp, kp, vp) # ctx)"
  shows "\<exists>T' c' W' ctx'. red_sibling_right T p = Inr (T', addr (t_dummy T) W') \<and>
    zipped T' (FR W' (p, c', kp, vp) # ctx') t \<and> ctx_ok (Suc n) (FR W' (p, c', kp, vp) # ctx') \<and>
    color_of W' = ASSOC_BLACK \<and>
    items (plug (FR W' (p, c', kp, vp) # ctx') t) = items (plug (FR W (p, cp, kp, vp) # ctx) t) \<and>
    (ctx' = ctx \<or> c' = ASSOC_RED) \<and> env T' = env T"
proof (cases "color_of W")
  case ASSOC_BLACK
  have zp: "zipped T ctx (Node W (p, cp, kp, vp) t)" using z by (simp add: zipped_up)
  obtain wn where wn: "rd T (addr (t_dummy T) W) = Inr wn" "n_color wn = color_of W"
    using rd_child_color [OF zp] by blast
  have "red_sibling_right T p = Inr (T, addr (t_dummy T) W)"
    using rd_node [OF zp] wn ASSOC_BLACK by (simp add: red_sibling_right_def Let_def del: bind_res_eq_Inr)
  then show ?thesis using z ok ASSOC_BLACK
    by (intro exI [of _ T] exI [of _ cp] exI [of _ W] exI [of _ ctx]) auto
next
  case ASSOC_RED
  obtain near w kw vw far where W: "W = Node far (w, ASSOC_RED, kw, vw) near"
    using ASSOC_RED by (cases W rule: rbt_cases) auto
  have cp: "cp = ASSOC_BLACK" using ok W by (cases cp) auto
  have zp: "zipped T ctx (Node W (p, cp, kp, vp) t)" using z by (simp add: zipped_up)
  have zw: "zipped T (FL (p, cp, kp, vp) t # ctx) (Node far (w, ASSOC_RED, kw, vw) near)" using z by (simp add: zipped_up W)
  obtain T1 where T1: "set_color w ASSOC_BLACK T = Inr T1"
    "zipped T1 (FL (p, cp, kp, vp) t # ctx) (Node far (w, ASSOC_BLACK, kw, vw) near)" "env T1 = env T"
    using set_color_ok [OF zw] by blast
  have zp1: "zipped T1 ctx (Node (Node far (w, ASSOC_BLACK, kw, vw) near) (p, cp, kp, vp) t)" using T1(2) by (simp add: zipped_up)
  obtain T2 where T2: "set_color p ASSOC_RED T1 = Inr T2"
    "zipped T2 ctx (Node (Node far (w, ASSOC_BLACK, kw, vw) near) (p, ASSOC_RED, kp, vp) t)" "env T2 = env T1"
    using set_color_ok [OF zp1] by blast
  obtain T3 where T3: "right_rotate T2 p = Inr T3"
    "zipped T3 ctx (Node far (w, ASSOC_BLACK, kw, vw) (Node near (p, ASSOC_RED, kp, vp) t))" "env T3 = env T2"
    using right_rotate_ok [OF T2(2)] by blast
  have zp3: "zipped T3 (FR far (w, ASSOC_BLACK, kw, vw) # ctx) (Node near (p, ASSOC_RED, kp, vp) t)" using T3(2) by (simp add: zipped_up)
  have d: "t_dummy T3 = t_dummy T" using T1 T2 T3 by (simp add: env_eq)
  have "red_sibling_right T p = Inr (T3, addr (t_dummy T) near)"
    using rd_node [OF zp] rd_node [OF zw] rd_node [OF zp3] T1(1) T2(1) T3(1) d
    by (simp add: red_sibling_right_def Let_def W del: bind_res_eq_Inr)
  then show ?thesis using zp3 ok T1 T2 T3
    by (intro exI [of _ T3] exI [of _ ASSOC_RED] exI [of _ near] exI [of _ "FR far (w, ASSOC_BLACK, kw, vw) # ctx"])
       (auto simp: W cp zipped_up items_plug)
qed

lemma red_nephew_right_ok:
  assumes z: "zipped T (FR (Node far (w, ASSOC_BLACK, kw, vw) near) (p, cp, kp, vp) # ctx) t"
    and red: "color_of near = ASSOC_RED \<or> color_of far = ASSOC_RED"
    and ok: "ctx_ok m (FR (Node far (w, ASSOC_BLACK, kw, vw) near) (p, cp, kp, vp) # ctx)"
  shows "\<exists>T' near' w' kw' vw' far'. red_nephew_right T p w = Inr (T', w') \<and>
    zipped T' (FR (Node far' (w', ASSOC_BLACK, kw', vw') near') (p, cp, kp, vp) # ctx) t \<and> color_of far' = ASSOC_RED \<and>
    ctx_ok m (FR (Node far' (w', ASSOC_BLACK, kw', vw') near') (p, cp, kp, vp) # ctx) \<and>
    items (Node far' (w', ASSOC_BLACK, kw', vw') near') = items (Node far (w, ASSOC_BLACK, kw, vw) near) \<and> env T' = env T"
proof -
  have zw: "zipped T (FL (p, cp, kp, vp) t # ctx) (Node far (w, ASSOC_BLACK, kw, vw) near)" using z by (simp add: zipped_up)
  obtain fn where fn: "rd T (addr (t_dummy T) far) = Inr fn" "n_color fn = color_of far"
    using rd_child_color [OF zw] by blast
  show ?thesis
  proof (cases "color_of far")
    case ASSOC_RED
    have "red_nephew_right T p w = Inr (T, w)"
      using rd_node [OF zw] fn ASSOC_RED by (simp add: red_nephew_right_def del: bind_res_eq_Inr)
    then show ?thesis using z ok ASSOC_RED by blast
  next
    case ASSOC_BLACK
    then obtain nl y ky vy nf where near: "near = Node nf (y, ASSOC_RED, ky, vy) nl"
      using red by (cases near rule: rbt_cases) auto
    have zn: "zipped T (FR far (w, ASSOC_BLACK, kw, vw) # FL (p, cp, kp, vp) t # ctx) (Node nf (y, ASSOC_RED, ky, vy) nl)"
      using zw by (simp add: zipped_up near)
    obtain T1 where T1: "set_color y ASSOC_BLACK T = Inr T1"
      "zipped T1 (FR far (w, ASSOC_BLACK, kw, vw) # FL (p, cp, kp, vp) t # ctx) (Node nf (y, ASSOC_BLACK, ky, vy) nl)" "env T1 = env T"
      using set_color_ok [OF zn] by blast
    have zw1: "zipped T1 (FL (p, cp, kp, vp) t # ctx) (Node far (w, ASSOC_BLACK, kw, vw) (Node nf (y, ASSOC_BLACK, ky, vy) nl))"
      using T1(2) by (simp add: zipped_up)
    obtain T2 where T2: "set_color w ASSOC_RED T1 = Inr T2"
      "zipped T2 (FL (p, cp, kp, vp) t # ctx) (Node far (w, ASSOC_RED, kw, vw) (Node nf (y, ASSOC_BLACK, ky, vy) nl))" "env T2 = env T1"
      using set_color_ok [OF zw1] by blast
    obtain T3 where T3: "left_rotate T2 w = Inr T3"
      "zipped T3 (FL (p, cp, kp, vp) t # ctx) (Node (Node far (w, ASSOC_RED, kw, vw) nf) (y, ASSOC_BLACK, ky, vy) nl)" "env T3 = env T2"
      using left_rotate_ok [OF T2(2)] by blast
    have zp3: "zipped T3 ctx (Node (Node (Node far (w, ASSOC_RED, kw, vw) nf) (y, ASSOC_BLACK, ky, vy) nl) (p, cp, kp, vp) t)"
      using T3(2) by (simp add: zipped_up)
    have "red_nephew_right T p w = Inr (T3, y)"
      using rd_node [OF zw] rd_node [OF zn] rd_node [OF zp3] fn ASSOC_BLACK T1(1) T2(1) T3(1)
      by (simp add: red_nephew_right_def near del: bind_res_eq_Inr)
    then show ?thesis using zp3 ok T1 T2 T3 ASSOC_BLACK
      by (intro exI [of _ T3] exI [of _ nl] exI [of _ y] exI [of _ ky] exI [of _ vy]
          exI [of _ "Node far (w, ASSOC_RED, kw, vw) nf"])
         (auto simp: near zipped_up split: if_splits)
  qed
qed

lemma last_rotation_right_ok:
  assumes z: "zipped T (FR (Node far (w, ASSOC_BLACK, kw, vw) near) (p, cp, kp, vp) # ctx) t" and red: "color_of far = ASSOC_RED"
    and t: "balanced t" and ok: "ctx_ok (Suc (black_height t)) (FR (Node far (w, ASSOC_BLACK, kw, vw) near) (p, cp, kp, vp) # ctx)"
  shows "\<exists>T' t'. last_rotation_right T p w = Inr (T', addr (t_dummy T) t') \<and> zipped T' [] t' \<and>
    rb_balanced t' \<and> items t' = items (plug (FR (Node far (w, ASSOC_BLACK, kw, vw) near) (p, cp, kp, vp) # ctx) t) \<and> t' \<noteq> Leaf \<and> env T' = env T"
proof -
  obtain fl f kf vf fr' where far: "far = Node fl (f, ASSOC_RED, kf, vf) fr'"
    using red by (cases far rule: rbt_cases) auto
  let ?far = "Node fl (f, ASSOC_BLACK, kf, vf) fr'" and ?w = "(w, cp, kw, vw)"
  have zp: "zipped T ctx (Node (Node far (w, ASSOC_BLACK, kw, vw) near) (p, cp, kp, vp) t)" using z by (simp add: zipped_up)
  have zw: "zipped T (FL (p, cp, kp, vp) t # ctx) (Node far (w, ASSOC_BLACK, kw, vw) near)" using z by (simp add: zipped_up)
  have zf: "zipped T (FL (w, ASSOC_BLACK, kw, vw) near # FL (p, cp, kp, vp) t # ctx) (Node fl (f, ASSOC_RED, kf, vf) fr')"
    using zw by (simp add: zipped_up far)
  obtain T1 where T1: "set_color w cp T = Inr T1"
    "zipped T1 (FL (p, cp, kp, vp) t # ctx) (Node far ?w near)" "env T1 = env T"
    using set_color_ok [OF zw] by blast
  have zp1: "zipped T1 ctx (Node (Node far ?w near) (p, cp, kp, vp) t)" using T1(2) by (simp add: zipped_up)
  obtain T2 where T2: "set_color p ASSOC_BLACK T1 = Inr T2"
    "zipped T2 ctx (Node (Node far ?w near) (p, ASSOC_BLACK, kp, vp) t)" "env T2 = env T1"
    using set_color_ok [OF zp1] by blast
  have zf2: "zipped T2 (FL ?w near # FL (p, ASSOC_BLACK, kp, vp) t # ctx) (Node fl (f, ASSOC_RED, kf, vf) fr')"
    using T2(2) by (simp add: zipped_up far)
  obtain T3 where T3: "set_color f ASSOC_BLACK T2 = Inr T3"
    "zipped T3 (FL ?w near # FL (p, ASSOC_BLACK, kp, vp) t # ctx) ?far" "env T3 = env T2"
    using set_color_ok [OF zf2] by blast
  have zp3: "zipped T3 ctx (Node (Node ?far ?w near) (p, ASSOC_BLACK, kp, vp) t)" using T3(2) by (simp add: zipped_up)
  obtain T4 where T4: "right_rotate T3 p = Inr T4"
    "zipped T4 ctx (Node ?far ?w (Node near (p, ASSOC_BLACK, kp, vp) t))" "env T4 = env T3"
    using right_rotate_ok [OF zp3] by blast
  define t' where "t' = plug ctx (Node ?far ?w (Node near (p, ASSOC_BLACK, kp, vp) t))"
  have z4: "zipped T4 [] t'" using T4(2) by (simp add: t'_def flip: zipped_whole)
  have e: "env T4 = env T" using T1 T2 T3 T4 by simp
  have "last_rotation_right T p w = Inr (T4, t_root T4)"
    using rd_node [OF zp] rd_node [OF zw] rd_node [OF zf] T1(1) T2(1) T3(1) T4(1)
    by (simp add: last_rotation_right_def far del: bind_res_eq_Inr)
  then have "last_rotation_right T p w = Inr (T4, addr (t_dummy T) t')"
    using root_plug [OF z4] env_dummy [OF e] by simp
  moreover have "rb_balanced t'"
    using ok t by (cases cp) (auto simp: t'_def rb_balanced_plug far)
  moreover have "items t' = items (plug (FR (Node far (w, ASSOC_BLACK, kw, vw) near) (p, cp, kp, vp) # ctx) t)"
    by (simp add: t'_def items_plug far)
  moreover have "t' \<noteq> Leaf"
  proof
    assume "t' = Leaf"
    then have "size t' = 0" by simp
    then show False by (simp add: t'_def length_plug)
  qed
  ultimately show ?thesis using z4 e by blast
qed

lemma delete_right_ok:
  assumes z: "zipped T (FR W (p, cp, kp, vp) # ctx) t" and t: "color_of t = ASSOC_BLACK"
    and sh: "short (FR W (p, cp, kp, vp) # ctx) t"
  shows "\<exists>T' ctx' t'. delete_right T p = Inr (T', addr (t_dummy T) t') \<and> zipped T' ctx' t' \<and>
    items (plug ctx' t') = items (plug (FR W (p, cp, kp, vp) # ctx) t) \<and> short ctx' t' \<and> t' \<noteq> Leaf \<and>
    turns ctx' t' < length ctx + 1 \<and> env T' = env T"
proof -
  have bt: "balanced t" and ok: "ctx_ok (Suc (black_height t)) (FR W (p, cp, kp, vp) # ctx)"
    using sh t by (auto simp: short_def paint_black)
  obtain T1 c1 W1 ctx1 where s1: "red_sibling_right T p = Inr (T1, addr (t_dummy T) W1)"
    "zipped T1 (FR W1 (p, c1, kp, vp) # ctx1) t"
    "ctx_ok (Suc (black_height t)) (FR W1 (p, c1, kp, vp) # ctx1)" "color_of W1 = ASSOC_BLACK"
    "items (plug (FR W1 (p, c1, kp, vp) # ctx1) t) = items (plug (FR W (p, cp, kp, vp) # ctx) t)"
    "ctx1 = ctx \<or> c1 = ASSOC_RED" "env T1 = env T"
    using red_sibling_right_ok [OF z ok] by blast
  have d1: "t_dummy T1 = t_dummy T" using s1(7) by (rule env_dummy)
  have "black_height W1 = Suc (black_height t)" using s1(3) by simp
  then obtain near w kw vw far where W1: "W1 = Node far (w, ASSOC_BLACK, kw, vw) near"
    using s1(4) by (cases W1 rule: rbt_cases) auto
  have zw: "zipped T1 (FL (p, c1, kp, vp) t # ctx1) (Node far (w, ASSOC_BLACK, kw, vw) near)"
    using s1(2) by (simp add: zipped_up W1)
  obtain n1 n2 where ch: "rd T1 (addr (t_dummy T) near) = Inr n1" "n_color n1 = color_of near"
    "rd T1 (addr (t_dummy T) far) = Inr n2" "n_color n2 = color_of far"
    using rd_child_color [OF zw] d1 by auto
  show ?thesis
  proof (cases "color_of near = ASSOC_BLACK \<and> color_of far = ASSOC_BLACK")
    case True
    obtain T2 where T2: "set_color w ASSOC_RED T1 = Inr T2"
      "zipped T2 (FL (p, c1, kp, vp) t # ctx1) (Node far (w, ASSOC_RED, kw, vw) near)" "env T2 = env T1"
      using set_color_ok [OF zw] by blast
    define t' where "t' = Node (Node far (w, ASSOC_RED, kw, vw) near) (p, c1, kp, vp) t"
    have z2: "zipped T2 ctx1 t'" using T2(2) by (simp add: zipped_up t'_def)
    have "delete_right T p = Inr (T2, addr (t_dummy T) t')"
      using s1(1) rd_node [OF zw] ch True T2(1) d1
      by (simp add: delete_right_def W1 t'_def del: bind_res_eq_Inr)
    moreover have "short ctx1 t'"
      using s1(3) True bt t by (cases c1) (auto simp: short_def t'_def W1)
    moreover have "turns ctx1 t' < length ctx + 1"
      using s1(6) by (cases c1) (auto simp: turns_def t'_def)
    moreover have "items (plug ctx1 t') = items (plug (FR W (p, cp, kp, vp) # ctx) t)"
      using s1(5) by (simp add: t'_def items_plug W1)
    moreover have "t' \<noteq> Leaf" by (simp add: t'_def)
    ultimately show ?thesis using z2 T2(3) s1(7) by (metis (no_types, lifting))
  next
    case False
    then have red: "color_of near = ASSOC_RED \<or> color_of far = ASSOC_RED"
      using color_cases by blast
    obtain T2 near2 w2 kw2 vw2 far2 where s2: "red_nephew_right T1 p w = Inr (T2, w2)"
      "zipped T2 (FR (Node far2 (w2, ASSOC_BLACK, kw2, vw2) near2) (p, c1, kp, vp) # ctx1) t"
      "color_of far2 = ASSOC_RED"
      "ctx_ok (Suc (black_height t)) (FR (Node far2 (w2, ASSOC_BLACK, kw2, vw2) near2) (p, c1, kp, vp) # ctx1)"
      "items (Node far2 (w2, ASSOC_BLACK, kw2, vw2) near2) = items (Node far (w, ASSOC_BLACK, kw, vw) near)" "env T2 = env T1"
      using red_nephew_right_ok [OF s1(2) [unfolded W1] red s1(3) [unfolded W1]] by blast
    obtain T3 t' where s3: "last_rotation_right T2 p w2 = Inr (T3, addr (t_dummy T2) t')" "zipped T3 [] t'"
      "rb_balanced t'" "t' \<noteq> Leaf" "env T3 = env T2"
      "items t' = items (plug (FR (Node far2 (w2, ASSOC_BLACK, kw2, vw2) near2) (p, c1, kp, vp) # ctx1) t)"
      using last_rotation_right_ok [OF s2(2,3) bt s2(4)] by blast
    have d2: "t_dummy T2 = t_dummy T" using env_dummy [OF s2(6)] d1 by simp
    have "delete_right T p = Inr (T3, addr (t_dummy T) t')"
      using s1(1) rd_node [OF zw] ch False s2(1) s3(1) d1 d2
      by (auto simp: delete_right_def W1 simp del: bind_res_eq_Inr)
    moreover have "short [] t'"
      using s3(3) by (simp add: short_def rb_balanced_def paint_black)
    moreover have "turns [] t' < length ctx + 1" by (simp add: turns_def)
    moreover have gen: "items (plug (FR X (p, c1, kp, vp) # ctx1) t) =
        lefts ctx1 @ items X @ (p, kp, vp) # items t @ rights ctx1" for X
      by (simp add: items_plug)
    have "items (plug [] t') = items (plug (FR W (p, cp, kp, vp) # ctx) t)"
      unfolding plug.simps(1) s3(6) s1(5) [symmetric] W1 gen s2(5) ..
    ultimately show ?thesis using s3(2,4,5) s2(6) s1(7) by (metis (no_types, lifting))
  qed
qed

definition dummy_parent :: "('k, 'v) rb_tree \<Rightarrow> nat" where
  "dummy_parent T = n_parent (the (t_heap T (t_dummy T)))"

lemma env_dummy_parent: "env T' = env T \<Longrightarrow> dummy_parent T' = dummy_parent T"
  unfolding env_eq dummy_parent_def by metis

lemma rd_focus:
  assumes "zipped T ctx t" "t = Leaf \<Longrightarrow> dummy_parent T = par (t_dummy T) ctx"
  shows "\<exists>n. rd T (addr (t_dummy T) t) = Inr n \<and> n_color n = color_of t \<and> n_parent n = par (t_dummy T) ctx"
proof (cases t rule: rbt_cases)
  case 1
  then show ?thesis using assms by (auto simp: zipped_def rd_def dummy_parent_def)
next
  case (2 l a c k v r)
  then show ?thesis using rd_node assms by fastforce
qed

lemma delete_fixup_ok:
  "zipped T ctx t \<Longrightarrow> (t = Leaf \<Longrightarrow> dummy_parent T = par (t_dummy T) ctx) \<Longrightarrow> short ctx t \<Longrightarrow>
   turns ctx t \<le> fuel \<Longrightarrow>
   \<exists>T' t'. delete_fixup fuel T (addr (t_dummy T) t) = Inr T' \<and> zipped T' [] t' \<and>
     items t' = items (plug ctx t) \<and> rb_balanced t' \<and> env T' = env T"
proof (induction fuel arbitrary: T ctx t)
  have exit: "\<exists>T' t'. delete_fixup fuel T (addr (t_dummy T) t) = Inr T' \<and> zipped T' [] t' \<and>
      items t' = items (plug ctx t) \<and> rb_balanced t' \<and> env T' = env T"
    if z: "zipped T ctx t" and dp: "t = Leaf \<Longrightarrow> dummy_parent T = par (t_dummy T) ctx"
      and s: "short ctx t" and e: "ctx = [] \<or> color_of t = ASSOC_RED"
    for fuel and T :: "('a, 'b) rb_tree" and ctx t
  proof -
    obtain n where n: "rd T (addr (t_dummy T) t) = Inr n" "n_color n = color_of t"
      using rd_focus [OF z dp] by blast
    obtain T' where T': "set_color (addr (t_dummy T) t) ASSOC_BLACK T = Inr T'"
      "zipped T' ctx (paint ASSOC_BLACK t)" "env T' = env T"
      using set_black_ok [OF z] by blast
    have "delete_fixup fuel T (addr (t_dummy T) t) = Inr T'"
      using n T'(1) e focus_is_root [OF z] by (auto simp: delete_fixup.simps [of fuel] simp del: bind_res_eq_Inr)
    moreover have "zipped T' [] (plug ctx (paint ASSOC_BLACK t))"
      using T'(2) by (simp flip: zipped_whole)
    moreover have "rb_balanced (plug ctx (paint ASSOC_BLACK t))"
    proof (cases t rule: rbt_cases)
      case 1
      then show ?thesis using e by (auto simp: rb_balanced_def)
    next
      case 2
      then show ?thesis using s e by (auto simp: rb_balanced_plug short_def)
    qed
    ultimately show ?thesis using T'(3) by (auto simp: items_plug)
  qed
  {
    case 0
    then show ?case by (intro exit) (auto simp: turns_def split: if_splits)
  next
    case (Suc fuel)
    show ?case
    proof (cases "ctx = [] \<or> color_of t = ASSOC_RED")
      case True
      with Suc.prems show ?thesis by (intro exit) auto
    next
      case False
      then obtain f ctx1 where c: "ctx = f # ctx1" and t: "color_of t = ASSOC_BLACK"
        by (cases ctx; cases "color_of t") auto
      have z: "zipped T (f # ctx1) t" and sh: "short (f # ctx1) t"
        using Suc.prems c by auto
      obtain n where n: "rd T (addr (t_dummy T) t) = Inr n" "n_color n = ASSOC_BLACK" "n_parent n = frame_addr f"
        using rd_focus [OF Suc.prems(1,2)] t c by auto
      obtain pn where pn: "rd T (frame_addr f) = Inr pn" using rd_par [OF z] by blast
      obtain T1 ctx' t1 where s: "(if addr (t_dummy T) t = n_left pn then delete_left T (frame_addr f)
            else delete_right T (frame_addr f)) = Inr (T1, addr (t_dummy T) t1)"
        "zipped T1 ctx' t1" "items (plug ctx' t1) = items (plug ctx t)" "short ctx' t1" "t1 \<noteq> Leaf"
        "turns ctx' t1 < length ctx" "env T1 = env T"
      proof (cases f rule: frame_addr.cases)
        case (1 p cp kp vp W)
        then show ?thesis
          using delete_left_ok [of T p cp kp vp W ctx1 t] z t sh rd_par [OF z] pn that by (auto simp: c)
      next
        case (2 W p cp kp vp)
        have "W \<noteq> Leaf" using sh by (auto simp: short_def 2)
        then have "addr (t_dummy T) W \<noteq> addr (t_dummy T) t"
          using zipped_sibling_addr [of T "(p, cp, kp, vp)" t ctx1 W] z by (simp add: 2 zipped_sibling)
        then show ?thesis
          using 2 delete_right_ok [of T W p cp kp vp ctx1 t] z t sh rd_par [OF z] pn that by (auto simp: c)
      qed
      have d1: "t_dummy T1 = t_dummy T" using s(7) by (rule env_dummy)
      have "turns ctx t = length ctx" using t by (simp add: turns_def)
      then have "turns ctx' t1 \<le> fuel" using s(6) Suc.prems(4) by simp
      from Suc.IH [OF s(2) _ s(4) this] s(5) obtain T' t' where ih:
        "delete_fixup fuel T1 (addr (t_dummy T1) t1) = Inr T'" "zipped T' [] t'"
        "items t' = items (plug ctx' t1)" "rb_balanced t'" "env T' = env T1" by auto
      have "addr (t_dummy T) t \<noteq> t_root T" using focus_is_root [OF Suc.prems(1)] c by simp
      then have "delete_fixup (Suc fuel) T (addr (t_dummy T) t) = Inr T'"
        using n pn s(1) ih(1) d1
        by (cases "addr (t_dummy T) t = n_left pn")
           (simp_all add: delete_fixup.simps [of "Suc fuel"] del: bind_res_eq_Inr)
      then show ?thesis using ih s by auto
    qed
  }
qed

end
