(* ===== verification/Assoc_Rb_Erase.thy ===== *)
theory Assoc_Rb_Erase
  imports Assoc_Rb_Extract
begin

text \<open>
  Unlinking a node (\<open>transplant\<close>, \<open>assoc_rb_tree_extract_node\<close>) and the two deletions,
  \<open>assoc_rb_tree_extract\<close> by key and \<open>assoc_rb_tree_free_it\<close> by iterator: exactly the node
  asked for leaves the contents, the others keep their order and their addresses, and the node is
  freed.
\<close>

section \<open>Balance after a removal\<close>

lemma removed_balance:
  assumes "rb_balanced (plug ctx (Node l (a, c, k, v) r))" and "l = Leaf \<and> X = r \<or> r = Leaf \<and> X = l"
  shows "if c = ASSOC_BLACK then short ctx X else rb_balanced (plug ctx X)"
proof (cases c)
  case ASSOC_BLACK
  then show ?thesis
    using assms by (auto simp: rb_balanced_plug short_def balanced_paint)
next
  case ASSOC_RED
  then show ?thesis using assms by (auto simp: rb_balanced_plug)
qed

lemma ctx_ok_rename:
  "ctx_color (rc @ FR L (z, c, k, v) # ctx) = ctx_color (rc @ FR L (y, c, k', v') # ctx)"
  "ctx_ok n (rc @ FR L (z, c, k, v) # ctx) = ctx_ok n (rc @ FR L (y, c, k', v') # ctx)"
proof -
  show col: "ctx_color (rc @ FR L (z, c, k, v) # ctx) = ctx_color (rc @ FR L (y, c, k', v') # ctx)"
    for rc by (cases rc) auto
  show "ctx_ok n (rc @ FR L (z, c, k, v) # ctx) = ctx_ok n (rc @ FR L (y, c, k', v') # ctx)"
  proof (induction rc arbitrary: n)
    case (Cons f rc)
    then show ?case using col [of rc] by (cases f rule: frame_addr.cases) auto
  qed simp
qed

lemma rb_balanced_rename:
  "rb_balanced (plug (rc @ FR L (z, c, k, v) # ctx) t) = rb_balanced (plug (rc @ FR L (y, c, k', v') # ctx) t)"
  unfolding rb_balanced_plug ctx_ok_rename(1) [where rc = rc and L = L and z = z and c = c and k = k and v = v and ctx = ctx and y = y and k' = k' and v' = v']
    ctx_ok_rename(2) [where rc = rc and L = L and z = z and c = c and k = k and v = v and ctx = ctx and y = y and k' = k' and v' = v'] ..

lemma short_rename:
  "short (rc @ FR L (z, c, k, v) # ctx) t = short (rc @ FR L (y, c, k', v') # ctx) t"
  unfolding short_def ctx_ok_rename(2) [where rc = rc and L = L and z = z and c = c and k = k and v = v and ctx = ctx and y = y and k' = k' and v' = v'] ..

section \<open>Transplant\<close>

text \<open>What an unlinking keeps: all but the links, and the parent field of the dummy.\<close>

definition env0 :: "('k, 'v) rb_tree \<Rightarrow> _" where
  "env0 T = (t_dummy T, t_comp T, t_size T, t_key_sz T, t_brk T, dom (t_heap T), payload (t_heap T))"

lemma env0_eq: "env0 T = env0 T' \<longleftrightarrow> t_dummy T = t_dummy T' \<and> t_comp T = t_comp T' \<and>
   t_size T = t_size T' \<and> t_key_sz T = t_key_sz T' \<and> t_brk T = t_brk T' \<and>
   dom (t_heap T) = dom (t_heap T') \<and> payload (t_heap T) = payload (t_heap T')"
  by (simp add: env0_def)

lemma env_env0: "env T = env T' \<Longrightarrow> env0 T = env0 T'"
  by (simp add: env_eq env0_eq)

lemma transplant_ok:
  assumes z: "zipped T ctx (Node l (u, c, k, v) r)" and X: "l = Leaf \<and> X = r \<or> r = Leaf \<and> X = l"
  shows "\<exists>T'. transplant T u (addr (t_dummy T) X) = Inr T' \<and> zipped T' ctx X \<and>
    t_heap T' u = t_heap T u \<and> (X = Leaf \<longrightarrow> dummy_parent T' = par (t_dummy T) ctx) \<and> env0 T' = env0 T"
proof -
  let ?d = "t_dummy T"
  note zd = z [unfolded zipped_def]
  have u: "u \<noteq> ?d" "u \<notin> set (ctx_addrs ctx)" "u \<notin> set (addrs X)" "?d \<notin> set (addrs X)"
    "set (addrs X) \<inter> set (ctx_addrs ctx) = {}" "distinct (addrs X)" "?d \<notin> set (ctx_addrs ctx)"
    using zd X by auto
  have tX: "tree_at ?d (t_heap T) u X" using zd X by auto
  obtain h1 root1 where h1: "relink (par ?d ctx) u (addr ?d X) T = Inr (T\<lparr>t_heap := h1, t_root := root1\<rparr>)"
    "ctx_at ?d h1 root1 ctx (addr ?d X)" "\<And>a. a \<notin> set (ctx_addrs ctx) \<Longrightarrow> h1 a = t_heap T a"
    "dom h1 = dom (t_heap T)" "payload h1 = payload (t_heap T)"
    using relink_ok [of T ctx u "addr ?d X"] zd u by auto
  obtain nd where nd: "t_heap T ?d = Some nd" "n_color nd = ASSOC_BLACK" using zd by auto
  show ?thesis
  proof (cases X rule: rbt_cases)
    case 1
    define h2 where "h2 = h1(?d \<mapsto> nd\<lparr>n_parent := par ?d ctx\<rparr>)"
    have "transplant T u (addr ?d X) = Inr (T\<lparr>t_heap := h2, t_root := root1\<rparr>)"
      using u h1(1) h1(3) [of ?d] nd rd_node [OF z] 1
      by (simp add: transplant_def wr_def h2_def del: bind_res_eq_Inr)
    moreover have "zipped (T\<lparr>t_heap := h2, t_root := root1\<rparr>) ctx X"
      using h1(2) u nd zd 1 by (auto simp: zipped_def h2_def)
    moreover have "env0 (T\<lparr>t_heap := h2, t_root := root1\<rparr>) = env0 T"
      using h1(3) [of ?d] h1(4,5) u nd by (auto simp: env0_def h2_def)
    ultimately show ?thesis
      using u h1(3) [of u] by (auto simp: h2_def dummy_parent_def)
  next
    case (2 xl x cx kx vx xr)
    define h2 where "h2 = h1(x \<mapsto> mk_node kx vx (par ?d ctx) (addr ?d xl) (addr ?d xr) cx)"
    have hx: "h1 x = Some (mk_node kx vx u (addr ?d xl) (addr ?d xr) cx)"
      using tX u 2 h1(3) [of x] by auto
    have "transplant T u (addr ?d X) = Inr (T\<lparr>t_heap := h2, t_root := root1\<rparr>)"
      using u h1(1) hx rd_node [OF z] 2
      by (simp add: transplant_def wr_def h2_def del: bind_res_eq_Inr)
    moreover have "zipped (T\<lparr>t_heap := h2, t_root := root1\<rparr>) ctx X"
    proof -
      have "t_heap T a = h2 a" if "a \<in> set (addrs xl) \<or> a \<in> set (addrs xr)" for a
      proof -
        have "a \<noteq> x" "a \<notin> set (ctx_addrs ctx)" using that u 2 by auto
        then show ?thesis using h1(3) by (simp add: h2_def)
      qed
      then have "tree_at ?d h2 x xl" "tree_at ?d h2 x xr"
        using tX 2 tree_at_cong [of xl "t_heap T" h2] tree_at_cong [of xr "t_heap T" h2] by auto
      moreover have "x \<noteq> ?d" "x \<notin> set (ctx_addrs ctx)" using u 2 by auto
      ultimately show ?thesis
        using h1(2) h1(3) [of ?d] u nd zd 2 by (auto simp: zipped_def h2_def)
    qed
    moreover have "env0 (T\<lparr>t_heap := h2, t_root := root1\<rparr>) = env0 T"
      using hx h1(4,5) by (auto simp: env0_def h2_def)
    moreover have "h2 u = t_heap T u" using u 2 h1(3) [of u] by (auto simp: h2_def)
    ultimately show ?thesis using 2 by auto
  qed
qed

text \<open>
  The second half of the case with two children: \<open>y\<close>, no longer in the tree, takes the place, the
  left child and the colour of \<open>z\<close>; its right subtree \<open>R'\<close> is already below it.
\<close>

lemma splice_ok:
  assumes ctx: "ctx_at (t_dummy T) (t_heap T) (t_root T) ctx z"
    and hz: "t_heap T z = Some (mk_node kz vz (par (t_dummy T) ctx) (addr (t_dummy T) L) rz cz)"
    and hy: "t_heap T y = Some (mk_node ky vy py ly (addr (t_dummy T) R') cy)"
    and L: "tree_at (t_dummy T) (t_heap T) z L" "L \<noteq> Leaf" and R': "tree_at (t_dummy T) (t_heap T) y R'"
    and dist: "distinct (z # y # addrs L @ addrs R' @ ctx_addrs ctx)"
      "t_dummy T \<notin> set (z # y # addrs L @ addrs R' @ ctx_addrs ctx)"
    and black: "t_heap T (t_dummy T) = Some nd" "n_color nd = ASSOC_BLACK"
  shows "\<exists>T'. bind_res (transplant T z y) (\<lambda>T. bind_res (rd T z) (\<lambda>zn.
      bind_res (set_left y (n_left zn) T) (\<lambda>T. bind_res (set_parent (n_left zn) y T) (\<lambda>T.
        set_color y (n_color zn) T)))) = Inr T' \<and>
    zipped T' ctx (Node L (y, cz, ky, vy) R') \<and> t_heap T' (t_dummy T) = Some nd \<and> env0 T' = env0 T"
proof -
  let ?d = "t_dummy T"
  obtain h1 root1 where h1: "relink (par ?d ctx) z y T = Inr (T\<lparr>t_heap := h1, t_root := root1\<rparr>)"
    "ctx_at ?d h1 root1 ctx y" "\<And>a. a \<notin> set (ctx_addrs ctx) \<Longrightarrow> h1 a = t_heap T a"
    "dom h1 = dom (t_heap T)" "payload h1 = payload (t_heap T)"
    using relink_ok [of T ctx z y] ctx dist by auto
  obtain ll x cx kx vx lr where Lx: "L = Node ll (x, cx, kx, vx) lr"
    using L(2) by (cases L rule: rbt_cases) auto
  have hx: "t_heap T x = Some (mk_node kx vx z (addr ?d ll) (addr ?d lr) cx)" using L(1) Lx by simp
  define h2 where "h2 = h1(y \<mapsto> mk_node ky vy (par ?d ctx) x (addr ?d R') cz,
    x \<mapsto> mk_node kx vx y (addr ?d ll) (addr ?d lr) cx)"
  have ne: "x \<noteq> y" "x \<noteq> z" "z \<noteq> y" "z \<noteq> ?d" "x \<noteq> ?d" "y \<noteq> ?d"
    "x \<notin> set (ctx_addrs ctx)" "y \<notin> set (ctx_addrs ctx)" "z \<notin> set (ctx_addrs ctx)" "?d \<notin> set (ctx_addrs ctx)"
    using dist Lx by auto
  have h1s: "h1 x = t_heap T x" "h1 y = t_heap T y" "h1 z = t_heap T z" "h1 ?d = t_heap T ?d"
    using h1(3) ne by auto
  have rdz: "rd T z = Inr (mk_node kz vz (par ?d ctx) x rz cz)" using hz Lx by (simp add: rd_def)
  have "bind_res (transplant T z y) (\<lambda>T. bind_res (rd T z) (\<lambda>zn.
      bind_res (set_left y (n_left zn) T) (\<lambda>T. bind_res (set_parent (n_left zn) y T) (\<lambda>T.
        set_color y (n_color zn) T)))) = Inr (T\<lparr>t_heap := h2, t_root := root1\<rparr>)"
    using ne rdz h1(1) h1s hx hy hz Lx
    by (simp add: transplant_def rd_def wr_def h2_def fun_upd_twist del: bind_res_eq_Inr)
  moreover have "zipped (T\<lparr>t_heap := h2, t_root := root1\<rparr>) ctx (Node L (y, cz, ky, vy) R')"
  proof -
    have same: "t_heap T a = h2 a" if "a \<in> set (addrs ll) \<or> a \<in> set (addrs lr) \<or> a \<in> set (addrs R')" for a
    proof -
      have "a \<noteq> x" "a \<noteq> y" "a \<notin> set (ctx_addrs ctx)" using that dist Lx by auto
      then show ?thesis using h1(3) by (simp add: h2_def)
    qed
    then have "tree_at ?d h2 x ll" "tree_at ?d h2 x lr" "tree_at ?d h2 y R'"
      using L(1) R' Lx tree_at_cong [of ll "t_heap T" h2] tree_at_cong [of lr "t_heap T" h2]
        tree_at_cong [of R' "t_heap T" h2] by auto
    then show ?thesis
      using h1(2) h1s ne dist black Lx by (auto simp: zipped_def h2_def)
  qed
  moreover have "env0 (T\<lparr>t_heap := h2, t_root := root1\<rparr>) = env0 T"
    using ne h1s hx hy h1(4,5) by (auto simp: env0_def h2_def)
  ultimately show ?thesis using ne h1s black by (auto simp: h2_def)
qed

section \<open>Unlinking a node with two children\<close>

lemma par_append: "par d (rc @ f # ctx) = par (frame_addr f) rc"
  by (cases rc) auto

lemma leftmost:
  assumes "R \<noteq> Leaf"
  obtains rc y cy ky vy X where "R = plug rc (Node Leaf (y, cy, ky, vy) X)" "lefts rc = []"
    "items R = (y, ky, vy) # items (plug rc X)"
proof -
  obtain y ky vy ys where i: "items R = [] @ (y, ky, vy) # ys"
    using assms by (cases R rule: rbt_cases; cases "items R") auto
  obtain rc l c r where "plug rc (Node l (y, c, ky, vy) r) = R" "lefts rc @ items l = []" "items r @ rights rc = ys"
    using zipper_exists [OF i] by blast
  moreover from this(2) have "l = Leaf" by (cases l rule: rbt_cases) auto
  ultimately show ?thesis using that [of rc y c ky vy r] i by (auto simp: items_plug)
qed

lemma plug_ne_Leaf: "ctx \<noteq> [] \<Longrightarrow> plug ctx t \<noteq> Leaf"
proof
  assume "ctx \<noteq> []" "plug ctx t = Leaf"
  then have "size (plug ctx t) = 0" by simp
  then show False using \<open>ctx \<noteq> []\<close> length_ctx [of ctx] unfolding length_plug by simp
qed

definition unlink_two :: "('k, 'v) rb_tree \<Rightarrow> nat \<Rightarrow> nat \<Rightarrow> (assoc_color \<times> nat \<times> ('k, 'v) rb_tree) res" where
  "unlink_two T z zr =
     bind_res (minimum T zr) (\<lambda>y.
     bind_res (rd T y) (\<lambda>yn.
     bind_res (if n_parent yn = z then set_parent (n_right yn) y T
               else bind_res (transplant T y (n_right yn)) (\<lambda>T.
                    bind_res (rd T z) (\<lambda>zn.
                    bind_res (set_right y (n_right zn) T) (\<lambda>T.
                      set_parent (n_right zn) y T)))) (\<lambda>T.
     bind_res (transplant T z y) (\<lambda>T.
     bind_res (rd T z) (\<lambda>zn.
     bind_res (set_left y (n_left zn) T) (\<lambda>T.
     bind_res (set_parent (n_left zn) y T) (\<lambda>T.
     map_res (\<lambda>T. (n_color yn, n_right yn, T)) (set_color y (n_color zn) T))))))))"

lemma unlink_two_ok:
  assumes z: "zipped T ctx (Node L (z, cz, kz, vz) R)" and L: "L \<noteq> Leaf" and R: "R \<noteq> Leaf"
    and sz: "size R \<le> t_size T + 1" and bal: "rb_balanced (plug ctx (Node L (z, cz, kz, vz) R))"
  shows "\<exists>T' ctx' X c. unlink_two T z (addr (t_dummy T) R) = Inr (c, addr (t_dummy T) X, T') \<and>
    zipped T' ctx' X \<and> items (plug ctx' X) = lefts ctx @ items L @ items R @ rights ctx \<and>
    (X = Leaf \<longrightarrow> dummy_parent T' = par (t_dummy T) ctx') \<and>
    (if c = ASSOC_BLACK then short ctx' X else rb_balanced (plug ctx' X)) \<and> env0 T' = env0 T"
proof -
  let ?d = "t_dummy T"
  obtain rc y cy ky vy X where R': "R = plug rc (Node Leaf (y, cy, ky, vy) X)" "lefts rc = []"
    "items R = (y, ky, vy) # items (plug rc X)" using R by (rule leftmost)
  define c0 where "c0 = rc @ FR L (z, cz, kz, vz) # ctx"
  define c1 where "c1 = rc @ FR L (y, cz, ky, vy) # ctx"
  have zr: "zipped T (FR L (z, cz, kz, vz) # ctx) R" using z by (simp add: zipped_up)
  have zy: "zipped T c0 (Node Leaf (y, cy, ky, vy) X)"
    using zr unfolding c0_def zipped_plug R'(1) .
  have minm: "minimum T (addr ?d R) = Inr y"
    using minimum_ok [OF zr sz] R'(3) by (simp add: first_addr_def)
  have rdy: "rd T y = Inr (mk_node ky vy (par z rc) ?d (addr ?d X) cy)"
    using rd_node [OF zy] by (simp add: c0_def par_append)
  note zd = z [unfolded zipped_def]
  obtain nd where nd: "t_heap T ?d = Some nd" "n_color nd = ASSOC_BLACK" using zd by auto
  have yR: "set (addrs R) = insert y (set (addrs (plug rc X)))" "y \<notin> set (addrs (plug rc X))"
    "distinct (addrs (plug rc X))"
  proof -
    have "addrs R = y # addrs (plug rc X)" using R'(3) by (simp flip: map_fst_items)
    then show "set (addrs R) = insert y (set (addrs (plug rc X)))" "y \<notin> set (addrs (plug rc X))"
      "distinct (addrs (plug rc X))" using zd by auto
  qed
  have dist: "distinct (z # y # addrs L @ addrs (plug rc X) @ ctx_addrs ctx)"
    "?d \<notin> set (z # y # addrs L @ addrs (plug rc X) @ ctx_addrs ctx)"
    using zd yR by auto
  have bal0: "rb_balanced (plug c0 (Node Leaf (y, cy, ky, vy) X))"
    using bal by (simp add: c0_def plug_append R'(1))
  have balX: "if cy = ASSOC_BLACK then short c1 X else rb_balanced (plug c1 X)"
  proof -
    have "short c0 X = short c1 X" "rb_balanced (plug c0 X) = rb_balanced (plug c1 X)"
      unfolding c0_def c1_def by (rule short_rename, rule rb_balanced_rename)
    then show ?thesis using removed_balance [OF bal0, of X] by (simp split: if_splits)
  qed
  have itX: "items (plug c1 X) = lefts ctx @ items L @ items R @ rights ctx"
    using R'(3) by (simp add: c1_def plug_append items_plug)
  \<comment> \<open>the state before the splice: \<open>y\<close> is out of the tree, its right subtree is below it\<close>
  have "\<exists>T1 rz nd1 py ly. (if par z rc = z then set_parent (addr ?d X) y T
      else bind_res (transplant T y (addr ?d X)) (\<lambda>T. bind_res (rd T z) (\<lambda>zn.
        bind_res (set_right y (n_right zn) T) (\<lambda>T. set_parent (n_right zn) y T)))) = Inr T1 \<and>
    env0 T1 = env0 T \<and>
    ctx_at ?d (t_heap T1) (t_root T1) ctx z \<and> tree_at ?d (t_heap T1) z L \<and>
    tree_at ?d (t_heap T1) y (plug rc X) \<and>
    t_heap T1 z = Some (mk_node kz vz (par ?d ctx) (addr ?d L) rz cz) \<and>
    t_heap T1 y = Some (mk_node ky vy py ly (addr ?d (plug rc X)) cy) \<and>
    t_heap T1 ?d = Some nd1 \<and> n_color nd1 = ASSOC_BLACK \<and>
    (X = Leaf \<longrightarrow> n_parent nd1 = par y rc)"
  proof (cases rc)
    case Nil
    define T1 where "T1 = (case X of Leaf \<Rightarrow> T\<lparr>t_heap := (t_heap T)(?d \<mapsto> nd\<lparr>n_parent := y\<rparr>)\<rparr> | _ \<Rightarrow> T)"
    have hX: "t_heap T x = Some (mk_node kx vx y (addr ?d xl) (addr ?d xr) cx)"
      if "X = Node xl (x, cx, kx, vx) xr" for xl x cx kx vx xr
      using zd that by (simp add: R'(1) Nil)
    have "set_parent (addr ?d X) y T = Inr T1"
    proof (cases X rule: rbt_cases)
      case 1
      then show ?thesis using nd by (simp add: wr_def T1_def)
    next
      case (2 xl x cx kx vx xr)
      show ?thesis using hX [OF 2] by (simp add: wr_def T1_def 2 fun_upd_idem)
    qed
    moreover have "par z rc = z" by (simp add: Nil)
    ultimately show ?thesis
      using zd nd dist
      by (intro exI [of _ T1] exI [of _ y] exI [of _ "the (t_heap T1 ?d)"] exI [of _ z] exI [of _ ?d];
          cases X rule: rbt_cases) (auto simp: T1_def R'(1) Nil env0_def)
  next
    case (Cons f rc')
    have "frame_addr f \<noteq> z"
    proof -
      have "frame_addr f \<in> set (ctx_addrs rc)" by (cases f rule: frame_addr.cases) (auto simp: Cons)
      then show ?thesis using dist(1) set_addrs_plug [of rc X] by auto
    qed
    then have pz: "par z rc \<noteq> z" by (simp add: Cons)
    obtain T1 where T1: "transplant T y (addr ?d X) = Inr T1" "zipped T1 c0 X" "t_heap T1 y = t_heap T y"
      "X = Leaf \<longrightarrow> dummy_parent T1 = par ?d c0" "env0 T1 = env0 T"
      using transplant_ok [OF zy, of X] by blast
    have d1: "t_dummy T1 = ?d" using T1(5) by (simp add: env0_eq)
    have z1: "zipped T1 ctx (Node L (z, cz, kz, vz) (plug rc X))"
      using T1(2) by (simp add: c0_def zipped_plug) (simp add: zipped_up)
    obtain nd1 where nd1: "t_heap T1 ?d = Some nd1" "n_color nd1 = ASSOC_BLACK"
      "X = Leaf \<longrightarrow> n_parent nd1 = par y rc"
      using T1(2,4) d1 by (auto simp: zipped_def dummy_parent_def c0_def par_append Cons)
    have "plug rc X \<noteq> Leaf" by (rule plug_ne_Leaf) (simp add: Cons)
    then obtain rl x cx kx vx rr where rx: "plug rc X = Node rl (x, cx, kx, vx) rr"
      by (cases "plug rc X" rule: rbt_cases) auto
    have hy1: "t_heap T1 y = Some (mk_node ky vy (par z rc) ?d (addr ?d X) cy)"
      using T1(3) rdy by (auto simp: rd_def split: option.splits)
    define T2 where "T2 = T1\<lparr>t_heap := (t_heap T1)(y \<mapsto> mk_node ky vy (par z rc) ?d x cy,
      x \<mapsto> mk_node kx vx y (addr ?d rl) (addr ?d rr) cx)\<rparr>"
    have hx: "t_heap T1 x = Some (mk_node kx vx z (addr ?d rl) (addr ?d rr) cx)"
      using z1 d1 by (simp add: zipped_def rx)
    have ne: "x \<noteq> y" "x \<noteq> z" "y \<noteq> z" using dist rx by auto
    have run: "bind_res (transplant T y (addr ?d X)) (\<lambda>T. bind_res (rd T z) (\<lambda>zn.
        bind_res (set_right y (n_right zn) T) (\<lambda>T. set_parent (n_right zn) y T))) = Inr T2"
      using T1(1) rd_node [OF z1] hy1 hx ne by (simp add: wr_def T2_def rx del: bind_res_eq_Inr)
    have trees: "tree_at ?d (t_heap T1) x rl" "tree_at ?d (t_heap T1) x rr" "tree_at ?d (t_heap T1) z L"
      "ctx_at ?d (t_heap T1) (t_root T1) ctx z"
      "t_heap T1 z = Some (mk_node kz vz (par ?d ctx) (addr ?d L) x cz)"
      using z1 d1 by (simp_all add: zipped_def rx)
    have "env0 T2 = env0 T1" using hx hy1 ne by (auto simp: env0_def T2_def)
    then show ?thesis
      using run pz trees nd1 dist ne T1(5)
      by (intro exI [of _ T2] exI [of _ x] exI [of _ nd1] exI [of _ "par z rc"] exI [of _ ?d])
         (auto simp: T2_def rx)
  qed
  then obtain T1 rz nd1 py ly where s: "(if par z rc = z then set_parent (addr ?d X) y T
      else bind_res (transplant T y (addr ?d X)) (\<lambda>T. bind_res (rd T z) (\<lambda>zn.
        bind_res (set_right y (n_right zn) T) (\<lambda>T. set_parent (n_right zn) y T)))) = Inr T1"
    "env0 T1 = env0 T"
    "ctx_at ?d (t_heap T1) (t_root T1) ctx z" "tree_at ?d (t_heap T1) z L"
    "tree_at ?d (t_heap T1) y (plug rc X)"
    "t_heap T1 z = Some (mk_node kz vz (par ?d ctx) (addr ?d L) rz cz)"
    "t_heap T1 y = Some (mk_node ky vy py ly (addr ?d (plug rc X)) cy)"
    "t_heap T1 ?d = Some nd1" "n_color nd1 = ASSOC_BLACK" "X = Leaf \<longrightarrow> n_parent nd1 = par y rc"
    by blast
  have d1: "t_dummy T1 = ?d" using s(2) by (simp add: env0_eq)
  obtain T2 where T2: "bind_res (transplant T1 z y) (\<lambda>T. bind_res (rd T z) (\<lambda>zn.
      bind_res (set_left y (n_left zn) T) (\<lambda>T. bind_res (set_parent (n_left zn) y T) (\<lambda>T.
        set_color y (n_color zn) T)))) = Inr T2"
    "zipped T2 ctx (Node L (y, cz, ky, vy) (plug rc X))" "t_heap T2 ?d = Some nd1" "env0 T2 = env0 T1"
    using splice_ok [of T1 ctx z kz vz L rz cz y ky vy py ly "plug rc X" cy nd1] s(3-9) L dist
    unfolding d1 by blast
  have z2: "zipped T2 c1 X"
    using T2(2) by (simp add: c1_def zipped_plug) (simp add: zipped_up)
  have dp: "X = Leaf \<longrightarrow> dummy_parent T2 = par ?d c1"
    using s(10) T2(3,4) d1 by (simp add: dummy_parent_def env0_eq c1_def par_append)
  have "unlink_two T z (addr ?d R) = Inr (cy, addr ?d X, T2)"
    using minm rdy s(1) T2(1)
    by (simp add: unlink_two_def bind_res_assoc del: bind_res_eq_Inr)
       (auto simp: map_res_def)
  then show ?thesis
    using z2 itX dp balX s(2) T2(4)
    by (intro exI [of _ T2] exI [of _ c1] exI [of _ X] exI [of _ cy]) simp
qed

section \<open>\<open>assoc_rb_tree_extract_node\<close>\<close>

lemma extract_node_ok:
  assumes s: "rb_struct T t" and it: "items t = xs @ (z, k, v) # ys"
  shows "\<exists>T' t'. assoc_rb_tree_extract_node T z = Inr T' \<and> zipped T' [] t' \<and> rb_balanced t' \<and>
    items t' = xs @ ys \<and> env0 T' = env0 T"
proof -
  let ?d = "t_dummy T"
  obtain ctx L cz R where t: "plug ctx (Node L (z, cz, k, v) R) = t" "lefts ctx @ items L = xs"
    "items R @ rights ctx = ys" using zipper_exists [OF it] by blast
  have z: "zipped T ctx (Node L (z, cz, k, v) R)"
    using s by (simp add: rb_struct_def zipped_whole [of T ctx] t)
  have bal: "rb_balanced (plug ctx (Node L (z, cz, k, v) R))" using s t by (simp add: rb_struct_def)
  have sz: "size L + size R + 1 + length (ctx_addrs ctx) = t_size T"
    using s t(1) length_plug [of ctx "Node L (z, cz, k, v) R"] by (simp add: rb_struct_def length_items)
  have zd: "z \<noteq> ?d" using addr_ne_dummy [OF z] .
  have zL: "zipped T (FL (z, cz, k, v) R # ctx) L" and zR: "zipped T (FR L (z, cz, k, v) # ctx) R"
    using z by (simp_all add: zipped_up)
  define step where "step = (if addr ?d L = ?d then map_res (\<lambda>T'. (cz, addr ?d R, T')) (transplant T z (addr ?d R))
      else if addr ?d R = ?d then map_res (\<lambda>T'. (cz, addr ?d L, T')) (transplant T z (addr ?d L))
      else unlink_two T z (addr ?d R))"
  have run: "assoc_rb_tree_extract_node T z = bind_res step (\<lambda>(original_color, x, T).
      if original_color = ASSOC_BLACK then delete_fixup (t_size T + 2) T x else Inr T)"
    using zd rd_node [OF z]
    by (simp add: assoc_rb_tree_extract_node_def step_def unlink_two_def del: bind_res_eq_Inr)
  have "\<exists>T1 ctx' X c. step = Inr (c, addr ?d X, T1) \<and> zipped T1 ctx' X \<and> items (plug ctx' X) = xs @ ys \<and>
    (X = Leaf \<longrightarrow> dummy_parent T1 = par ?d ctx') \<and>
    (if c = ASSOC_BLACK then short ctx' X else rb_balanced (plug ctx' X)) \<and> env0 T1 = env0 T"
  proof (cases "L = Leaf \<or> R = Leaf")
    case True
    define X where "X = (if L = Leaf then R else L)"
    have X: "L = Leaf \<and> X = R \<or> R = Leaf \<and> X = L" using True by (auto simp: X_def)
    have "step = map_res (\<lambda>T'. (cz, addr ?d X, T')) (transplant T z (addr ?d X))"
      using True addr_dummy_iff [OF zL] addr_dummy_iff [OF zR] by (auto simp: step_def X_def)
    moreover have "items (plug ctx X) = xs @ ys"
      using t X by (auto simp: items_plug)
    moreover obtain T1 where "transplant T z (addr ?d X) = Inr T1" "zipped T1 ctx X"
      "X = Leaf \<longrightarrow> dummy_parent T1 = par ?d ctx" "env0 T1 = env0 T"
      using transplant_ok [OF z X] by blast
    ultimately show ?thesis
      using removed_balance [OF bal X]
      by (intro exI [of _ T1] exI [of _ ctx] exI [of _ X] exI [of _ cz]) simp
  next
    case False
    then have "step = unlink_two T z (addr ?d R)"
      using addr_dummy_iff [OF zL] addr_dummy_iff [OF zR] by (simp add: step_def)
    moreover have "lefts ctx @ items L @ items R @ rights ctx = xs @ ys" using t(2,3) by auto
    ultimately show ?thesis
      using unlink_two_ok [OF z _ _ _ bal] False sz by auto
  qed
  then obtain T1 ctx' X c where s1: "step = Inr (c, addr ?d X, T1)" "zipped T1 ctx' X"
    "items (plug ctx' X) = xs @ ys" "X = Leaf \<longrightarrow> dummy_parent T1 = par ?d ctx'"
    "if c = ASSOC_BLACK then short ctx' X else rb_balanced (plug ctx' X)" "env0 T1 = env0 T" by blast
  have d1: "t_dummy T1 = ?d" "t_size T1 = t_size T" using s1(6) by (auto simp: env0_eq)
  show ?thesis
  proof (cases "c = ASSOC_BLACK")
    case True
    have "length ctx' \<le> length (items (plug ctx' X))"
      using length_ctx [of ctx'] length_plug [of ctx' X] by (simp add: length_items)
    also have "\<dots> \<le> t_size T" using s1(3) it s by (simp add: rb_struct_def)
    finally have "turns ctx' X \<le> t_size T1 + 2" using d1 by (simp add: turns_def)
    from delete_fixup_ok [OF s1(2) _ _ this] s1(4,5) True d1 obtain T2 t2 where
      "delete_fixup (t_size T1 + 2) T1 (addr ?d X) = Inr T2" "zipped T2 [] t2"
      "items t2 = items (plug ctx' X)" "rb_balanced t2" "env T2 = env T1" by auto
    then show ?thesis
      using run s1 True env_env0 [of T2 T1] by (auto simp del: bind_res_eq_Inr)
  next
    case False
    have "zipped T1 [] (plug ctx' X)" using s1(2) by (simp flip: zipped_whole)
    then show ?thesis using run s1 False by (auto simp del: bind_res_eq_Inr)
  qed
qed

end
