(* ===== verification/Ordered_Map.thy ===== *)
theory Ordered_Map
  imports Assoc_Rb_Erase
begin

text \<open>
  The ordered associative container the rest of the program uses through \<open>assoc_insert\<close>,
  \<open>assoc_extract\<close>, \<open>assoc_front\<close>, \<open>assoc_next\<close>, \<open>assoc_key\<close>, \<open>assoc_value\<close> and
  \<open>find_if\<close>: its contract is the locale \<open>ordered_map\<close>, a finite map from ranks of keys to values
  kept as a sorted list of items, each with the iterator to it. The red-black tree meets the contract
  for every comparison function that meets its own (\<open>rb_ordered_map\<close>).
\<close>

section \<open>Deletion from the whole tree\<close>

lemma rb_remove:
  assumes s: "rb_struct T t" and it: "items t = xs @ (z, k, v) # ys"
  shows "\<exists>T1 T2 n. assoc_rb_tree_extract_node T z = Inr T1 \<and> rd T1 z = Inr n \<and> n_key n = Some k \<and>
    n_value n = Some v \<and> t_size T1 \<noteq> 0 \<and> T2 = (free_node_rb_tree z T1)\<lparr>t_size := t_size T1 - 1\<rparr> \<and>
    rb_struct T2 (tree_of T2) \<and> rb_items T2 = xs @ ys \<and> t_comp T2 = t_comp T \<and>
    t_key_sz T2 = t_key_sz T \<and> t_dummy T2 = t_dummy T"
proof -
  obtain T1 t1 where T1: "assoc_rb_tree_extract_node T z = Inr T1" "zipped T1 [] t1" "rb_balanced t1"
    "items t1 = xs @ ys" "env0 T1 = env0 T"
    using extract_node_ok [OF s it] by blast
  have mem: "(z, k, v) \<in> set (items t)" using it by simp
  obtain n0 where n0: "rd T z = Inr n0" "n_key n0 = Some k" "n_value n0 = Some v" "z \<noteq> t_dummy T"
    using rb_rd_item [OF s mem] by blast
  have "payload (t_heap T1) z = payload (t_heap T) z" using T1(5) by (simp add: env0_eq)
  then obtain n where n: "rd T1 z = Inr n" "n_key n = Some k" "n_value n = Some v"
    using n0 by (auto simp: rd_def payload_def split: option.splits)
  have adr: "addrs t = addrs t1 \<or> set (addrs t) = insert z (set (addrs t1))"
    "set (addrs t) = insert z (set (addrs t1))" "z \<notin> set (addrs t1)"
  proof -
    have "distinct (map fst (items t))" using s by (simp add: map_fst_items rb_struct_def zipped_def)
    then show "set (addrs t) = insert z (set (addrs t1))" "z \<notin> set (addrs t1)"
      using it T1(4) by (auto simp flip: map_fst_items)
    then show "addrs t = addrs t1 \<or> set (addrs t) = insert z (set (addrs t1))" by simp
  qed
  define T2 where "T2 = (free_node_rb_tree z T1)\<lparr>t_size := t_size T1 - 1\<rparr>"
  have e: "t_dummy T1 = t_dummy T" "t_comp T1 = t_comp T" "t_size T1 = t_size T" "t_key_sz T1 = t_key_sz T"
    "t_brk T1 = t_brk T" "dom (t_heap T1) = dom (t_heap T)"
    using T1(5) by (auto simp: env0_eq)
  have "zipped (T1\<lparr>t_heap := (t_heap T1)(z := None)\<rparr>) [] t1"
    using zipped_fresh [OF T1(2), of z None] adr(3) n0(4) e(1) by simp
  then have "zipped T2 [] t1" by (simp add: T2_def free_node_rb_tree_def zipped_def)
  moreover have "length (items t1) = t_size T2"
  proof -
    have "length (items t) = t_size T" using s by (simp add: rb_struct_def)
    then show ?thesis using it T1(4) e(3) by (simp add: T2_def)
  qed
  moreover have "dom (t_heap T2) = insert (t_dummy T2) (set (addrs t1))"
    using s adr n0(4) e by (auto simp: T2_def free_node_rb_tree_def rb_struct_def)
  moreover have "\<forall>a \<in> dom (t_heap T2). a < t_brk T2"
    using s e(5,6) by (auto simp: T2_def free_node_rb_tree_def rb_struct_def)
  ultimately have s2: "rb_struct T2 t1" using T1(3) by (simp add: rb_struct_def)
  have "t_size T1 \<noteq> 0" using s it e(3) by (auto simp: rb_struct_def)
  then show ?thesis
    using T1(1) n s2 tree_of_eq [OF s2] T1(4) e
    by (intro exI [of _ T1] exI [of _ T2] exI [of _ n])
       (simp add: T2_def free_node_rb_tree_def rb_items_def)
qed

lemma rb_sorted_remove: "rb_sorted rank (xs @ e # ys) \<Longrightarrow> rb_sorted rank (xs @ ys)"
  by (auto simp: rb_sorted_def sorted_append)

lemma rb_inv_remove:
  assumes "rb_inv cmp valid rank T" "rb_items T = xs @ e # ys" "rb_struct T2 (tree_of T2)"
    "rb_items T2 = xs @ ys" "t_comp T2 = t_comp T"
  shows "rb_inv cmp valid rank T2"
  using assms rb_sorted_remove [of rank xs e ys] by (auto simp: rb_inv_def)

context comparator begin

lemma rb_extract_ok:
  assumes inv: "rb_inv comp valid rank T" and key: "valid key"
    and mem: "\<exists>e \<in> set (rb_items T). rank (it_key e) = rank key"
  shows "\<exists>xs a k v ys T'. rb_items T = xs @ (a, k, v) # ys \<and> rank k = rank key \<and>
    assoc_rb_tree_extract T key = Inr (v, T') \<and> rb_inv comp valid rank T' \<and> rb_items T' = xs @ ys \<and>
    t_key_sz T' = t_key_sz T \<and> t_dummy T' = t_dummy T"
proof -
  define t where "t = tree_of T"
  have s: "rb_struct T t" and c: "t_comp T = comp" and srt: "rb_sorted rank (items t)"
    and val: "\<forall>e \<in> set (items t). valid (it_key e)" and it: "rb_items T = items t"
    using inv by (auto simp: rb_inv_def t_def rb_items_def)
  have z: "zipped T [] t" and len: "size t = t_size T" using s by (auto simp: rb_struct_def length_items)
  obtain a where a: "find_rb_tree (t_size T + 1) T (t_root T) key = Inr a"
    "if a = t_dummy T then \<forall>e \<in> set (items t). rank (it_key e) \<noteq> rank key
     else \<exists>k v. (a, k, v) \<in> set (items t) \<and> rank k = rank key"
    using find_rb_tree_ok [OF z c _ srt val key, of "t_size T + 1"] height_le_size_tree [of t] len
      root_plug [OF z] by auto
  then obtain k v where kv: "a \<noteq> t_dummy T" "(a, k, v) \<in> set (items t)" "rank k = rank key"
    using mem it by (auto split: if_splits)
  then obtain xs ys where sp: "items t = xs @ (a, k, v) # ys" by (auto simp: in_set_conv_decomp)
  from rb_remove [OF s sp] obtain T1 T2 n where r: "assoc_rb_tree_extract_node T a = Inr T1" "rd T1 a = Inr n"
    "n_value n = Some v" "t_size T1 \<noteq> 0" "T2 = (free_node_rb_tree a T1)\<lparr>t_size := t_size T1 - 1\<rparr>"
    "rb_struct T2 (tree_of T2)" "rb_items T2 = xs @ ys" "t_comp T2 = t_comp T"
    "t_key_sz T2 = t_key_sz T" "t_dummy T2 = t_dummy T" by blast
  have "assoc_rb_tree_extract T key = Inr (v, T2)"
    using a(1) kv(1) r by (simp add: assoc_rb_tree_extract_def del: bind_res_eq_Inr)
  then show ?thesis
    using sp it kv(3) r rb_inv_remove [OF inv _ r(6,7,8)] by auto
qed

lemma rb_extract_missing:
  assumes inv: "rb_inv comp valid rank T" and key: "valid key"
    and mem: "\<forall>e \<in> set (rb_items T). rank (it_key e) \<noteq> rank key"
  shows "assoc_rb_tree_extract T key = Inl AssertFailed"
proof -
  define t where "t = tree_of T"
  have s: "rb_struct T t" and c: "t_comp T = comp" and srt: "rb_sorted rank (items t)"
    and val: "\<forall>e \<in> set (items t). valid (it_key e)" and it: "rb_items T = items t"
    using inv by (auto simp: rb_inv_def t_def rb_items_def)
  have z: "zipped T [] t" and len: "size t = t_size T" using s by (auto simp: rb_struct_def length_items)
  have "find_rb_tree (t_size T + 1) T (t_root T) key = Inr (t_dummy T)"
    using find_rb_tree_ok [OF z c _ srt val key, of "t_size T + 1"] height_le_size_tree [of t] len
      root_plug [OF z] mem it by (fastforce split: if_splits)
  then show ?thesis by (simp add: assoc_rb_tree_extract_def)
qed

lemma rb_free_it_ok:
  assumes inv: "rb_inv comp valid rank T" and it: "rb_items T = xs @ (a, k, v) # ys"
  shows "\<exists>T'. assoc_rb_tree_free_it T a = Inr ((Some k, Some v), T') \<and> rb_inv comp valid rank T' \<and>
    rb_items T' = xs @ ys \<and> t_key_sz T' = t_key_sz T"
proof -
  have s: "rb_struct T (tree_of T)" and i: "items (tree_of T) = xs @ (a, k, v) # ys"
    using inv it by (auto simp: rb_inv_def rb_items_def)
  have "a \<noteq> t_dummy T" using rb_rd_item [OF s, of a k v] i by auto
  then show ?thesis
    using rb_remove [OF s i] rb_inv_remove [OF inv it]
    by (auto simp: assoc_rb_tree_free_it_def simp del: bind_res_eq_Inr)
qed

end

section \<open>The contract\<close>

definition content :: "('k \<Rightarrow> int list) \<Rightarrow> (nat \<times> 'k \<times> 'v) list \<Rightarrow> int list \<Rightarrow> 'v option" where
  "content rank es = map_of (map (\<lambda>e. (rank (it_key e), snd (snd e))) es)"

definition ranks :: "('k \<Rightarrow> int list) \<Rightarrow> (nat \<times> 'k \<times> 'v) list \<Rightarrow> int list list" where
  "ranks rank es = map (\<lambda>e. rank (it_key e)) es"

lemma content_append: "content rank (xs @ ys) = content rank ys ++ content rank xs"
  by (simp add: content_def)

lemma content_Cons: "content rank (e # es) = (content rank es)(rank (it_key e) \<mapsto> snd (snd e))"
  by (simp add: content_def)

lemma dom_content: "dom (content rank es) = set (ranks rank es)"
  by (simp add: content_def ranks_def dom_map_of_conv_image_fst image_image)

lemma content_mid:
  assumes "distinct (ranks rank (xs @ e # ys))"
  shows "content rank (xs @ e # ys) = (content rank (xs @ ys))(rank (it_key e) \<mapsto> snd (snd e))"
    "content rank (xs @ ys) (rank (it_key e)) = None"
proof -
  have n: "rank (it_key e) \<notin> dom (content rank xs)" "rank (it_key e) \<notin> dom (content rank ys)"
    using assms by (auto simp: dom_content ranks_def)
  show "content rank (xs @ e # ys) = (content rank (xs @ ys))(rank (it_key e) \<mapsto> snd (snd e))"
    using n by (auto simp: content_append content_Cons fun_eq_iff map_add_def split: option.splits)
  show "content rank (xs @ ys) (rank (it_key e)) = None"
    using n by (auto simp: content_append map_add_def split: option.splits)
qed

lemma ranks_sorted_insert:
  "set (ranks rank (sorted_insert rank e es)) = insert (rank (it_key e)) (set (ranks rank es))"
  using set_sorted_insert [of rank e es] by (auto simp: ranks_def)

lemma distinct_sorted_insert:
  "distinct (ranks rank (sorted_insert rank e es)) \<longleftrightarrow>
     distinct (ranks rank es) \<and> rank (it_key e) \<notin> set (ranks rank es)"
proof -
  define xs where "xs = takeWhile (\<lambda>f. rank (it_key f) \<le> rank (it_key e)) es"
  define ys where "ys = dropWhile (\<lambda>f. rank (it_key f) \<le> rank (it_key e)) es"
  have "es = xs @ ys" by (simp add: xs_def ys_def)
  moreover have "sorted_insert rank e es = xs @ e # ys" by (simp add: sorted_insert_def xs_def ys_def)
  ultimately show ?thesis by (auto simp: ranks_def)
qed

locale ordered_map = comparator comp valid rank
  for comp :: "'k \<Rightarrow> 'k \<Rightarrow> int res" and valid :: "'k \<Rightarrow> bool" and rank :: "'k \<Rightarrow> int list" +
  fixes items_of :: "'m \<Rightarrow> (nat \<times> 'k \<times> 'v) list"
    and inv :: "'m \<Rightarrow> bool"
    and insert_op :: "'m \<Rightarrow> 'k \<Rightarrow> 'v \<Rightarrow> 'm res"
    and extract_op :: "'m \<Rightarrow> 'k \<Rightarrow> ('v \<times> 'm) res"
    and find_op :: "'m \<Rightarrow> ('k \<Rightarrow> bool res) \<Rightarrow> nat res"
    and end_op :: "'m \<Rightarrow> nat"
    and value_op :: "'m \<Rightarrow> nat \<Rightarrow> 'v res"
    and key_op :: "'m \<Rightarrow> nat \<Rightarrow> 'k res"
  assumes items_law: "inv m \<Longrightarrow> distinct (map fst (items_of m)) \<and> end_op m \<notin> fst ` set (items_of m) \<and>
      sorted (ranks rank (items_of m)) \<and> (\<forall>e \<in> set (items_of m). valid (it_key e))"
    and insert_law: "inv m \<Longrightarrow> valid k \<Longrightarrow> \<exists>a m'. insert_op m k v = Inr m' \<and> inv m' \<and>
      items_of m' = sorted_insert rank (a, k, v) (items_of m)"
    and extract_law: "inv m \<Longrightarrow> valid k \<Longrightarrow> rank k \<in> set (ranks rank (items_of m)) \<Longrightarrow>
      \<exists>xs a k' v ys m'. items_of m = xs @ (a, k', v) # ys \<and> rank k' = rank k \<and>
        extract_op m k = Inr (v, m') \<and> inv m' \<and> items_of m' = xs @ ys"
    and extract_missing_law: "inv m \<Longrightarrow> valid k \<Longrightarrow> rank k \<notin> set (ranks rank (items_of m)) \<Longrightarrow>
      extract_op m k = Inl AssertFailed"
    and find_law: "inv m \<Longrightarrow> (\<And>e. e \<in> set (items_of m) \<Longrightarrow> f (it_key e) = Inr (g (it_key e))) \<Longrightarrow>
      find_op m f = Inr (first_addr (end_op m) (dropWhile (\<lambda>e. \<not> g (it_key e)) (items_of m)))"
    and value_law: "inv m \<Longrightarrow> (a, k, v) \<in> set (items_of m) \<Longrightarrow> value_op m a = Inr v"
    and key_law: "inv m \<Longrightarrow> (a, k, v) \<in> set (items_of m) \<Longrightarrow> key_op m a = Inr k"
begin

text \<open>Insertion of a new key extends the map.\<close>

lemma insert_content:
  assumes m: "inv m" "valid k" "distinct (ranks rank (items_of m))" "rank k \<notin> set (ranks rank (items_of m))"
  shows "\<exists>m'. insert_op m k v = Inr m' \<and> inv m' \<and> distinct (ranks rank (items_of m')) \<and>
    content rank (items_of m') = (content rank (items_of m))(rank k \<mapsto> v) \<and>
    length (items_of m') = length (items_of m) + 1"
proof -
  obtain a m' where m': "insert_op m k v = Inr m'" "inv m'"
    "items_of m' = sorted_insert rank (a, k, v) (items_of m)"
    using insert_law m by blast
  define xs where "xs = takeWhile (\<lambda>f. rank (it_key f) \<le> rank k) (items_of m)"
  define ys where "ys = dropWhile (\<lambda>f. rank (it_key f) \<le> rank k) (items_of m)"
  have sp: "items_of m = xs @ ys" "items_of m' = xs @ (a, k, v) # ys"
    using m'(3) by (simp_all add: sorted_insert_def xs_def ys_def)
  have d: "distinct (ranks rank (items_of m'))"
    using m m'(3) by (simp add: distinct_sorted_insert)
  then have "content rank (items_of m') = (content rank (items_of m))(rank k \<mapsto> v)"
    using content_mid(1) [of rank xs "(a, k, v)" ys] sp by simp
  moreover have "length (items_of m') = length (items_of m) + 1" by (simp add: sp)
  ultimately show ?thesis using m' d by blast
qed

text \<open>Extraction of a key returns its value and removes it.\<close>

lemma extract_content:
  assumes m: "inv m" "valid k" "distinct (ranks rank (items_of m))" "content rank (items_of m) (rank k) = Some v"
  shows "\<exists>m'. extract_op m k = Inr (v, m') \<and> inv m' \<and> distinct (ranks rank (items_of m')) \<and>
    content rank (items_of m') = (content rank (items_of m))(rank k := None) \<and>
    length (items_of m') + 1 = length (items_of m)"
proof -
  have "rank k \<in> set (ranks rank (items_of m))"
    using m(4) dom_content [of rank "items_of m"] by blast
  then obtain xs a k' v' ys m' where e: "items_of m = xs @ (a, k', v') # ys" "rank k' = rank k"
    "extract_op m k = Inr (v', m')" "inv m'" "items_of m' = xs @ ys"
    using extract_law m by blast
  have "v' = v"
    using m(3,4) e(2) content_mid(1) [of rank xs "(a, k', v')" ys] by (simp add: e(1))
  moreover have "content rank (xs @ ys) = (content rank (items_of m))(rank k := None)"
    using m(3) e(2) content_mid [of rank xs "(a, k', v')" ys] by (auto simp: e(1) fun_eq_iff)
  ultimately show ?thesis
    using e m(3) by (auto simp: ranks_def)
qed

lemma extract_none:
  "inv m \<Longrightarrow> valid k \<Longrightarrow> content rank (items_of m) (rank k) = None \<Longrightarrow> extract_op m k = Inl AssertFailed"
  using extract_missing_law dom_content [of rank "items_of m"] by blast

text \<open>A new key comes out again with its value, and the map is as before.\<close>

lemma insert_extract:
  assumes m: "inv m" "valid k" "distinct (ranks rank (items_of m))" "rank k \<notin> set (ranks rank (items_of m))"
  shows "\<exists>m'. bind_res (insert_op m k v) (\<lambda>m. extract_op m k) = Inr (v, m') \<and> inv m' \<and>
    content rank (items_of m') = content rank (items_of m)"
proof -
  obtain m1 where m1: "insert_op m k v = Inr m1" "inv m1" "distinct (ranks rank (items_of m1))"
    "content rank (items_of m1) = (content rank (items_of m))(rank k \<mapsto> v)"
    using insert_content [OF m] by blast
  obtain m2 where "extract_op m1 k = Inr (v, m2)" "inv m2"
    "content rank (items_of m2) = (content rank (items_of m1))(rank k := None)"
    using extract_content [OF m1(2) m(2) m1(3), of v] m1(4) by auto
  moreover have "content rank (items_of m) (rank k) = None"
    using m(4) dom_content [of rank "items_of m"] by blast
  ultimately show ?thesis using m1 by (auto simp: fun_upd_idem)
qed

text \<open>The search from the front: the first item that passes the test, with its value.\<close>

lemma find_first:
  assumes "inv m" "\<And>e. e \<in> set (items_of m) \<Longrightarrow> f (it_key e) = Inr (g (it_key e))"
  shows "(find_op m f = Inr (end_op m) \<and> (\<forall>e \<in> set (items_of m). \<not> g (it_key e))) \<or>
    (\<exists>xs a k v ys. items_of m = xs @ (a, k, v) # ys \<and> find_op m f = Inr a \<and> a \<noteq> end_op m \<and> g k \<and>
       (\<forall>e \<in> set xs. \<not> g (it_key e)) \<and> value_op m a = Inr v \<and> key_op m a = Inr k)"
proof (cases "dropWhile (\<lambda>e. \<not> g (it_key e)) (items_of m)")
  note fl = find_law [of m f g, OF assms]
  {
    case Nil
    then have "find_op m f = Inr (end_op m)" "\<forall>e \<in> set (items_of m). \<not> g (it_key e)"
      using fl [unfolded Nil] Nil by (simp_all add: first_addr_def)
    then show ?thesis by blast
  next
    case (Cons e ys)
    obtain a k v where e: "e = (a, k, v)" by (cases e)
    have sp: "items_of m = takeWhile (\<lambda>e. \<not> g (it_key e)) (items_of m) @ (a, k, v) # ys"
      using Cons e by (metis takeWhile_dropWhile_id)
    then have mem: "(a, k, v) \<in> set (items_of m)" by (metis in_set_conv_decomp)
    moreover have "g k" using hd_dropWhile [of "\<lambda>e. \<not> g (it_key e)" "items_of m"] Cons e by auto
    moreover have "find_op m f = Inr a" using fl Cons e by (simp add: first_addr_def)
    moreover have "a \<noteq> end_op m" using items_law [OF assms(1)] mem by force
    moreover have "\<forall>e \<in> set (takeWhile (\<lambda>e. \<not> g (it_key e)) (items_of m)). \<not> g (it_key e)"
      by (auto dest: set_takeWhileD)
    moreover note value_law [OF assms(1) mem] key_law [OF assms(1) mem]
    ultimately show ?thesis using sp by blast
  }
qed

text \<open>Look-up with a test that agrees with the comparison.\<close>

lemma find_content:
  assumes m: "inv m" "valid k" "distinct (ranks rank (items_of m))"
    and f: "\<And>k'. valid k' \<Longrightarrow> f k' = Inr (rank k = rank k')"
  shows "bind_res (find_op m f) (\<lambda>it. if it = end_op m then Inr None else map_res Some (value_op m it)) =
    Inr (content rank (items_of m) (rank k))"
proof -
  have f': "f (it_key e) = Inr (rank k = rank (it_key e))" if "e \<in> set (items_of m)" for e
    using that items_law [OF m(1)] f by blast
  have "(find_op m f = Inr (end_op m) \<and> (\<forall>e \<in> set (items_of m). rank k \<noteq> rank (it_key e))) \<or>
    (\<exists>xs a k' v ys. items_of m = xs @ (a, k', v) # ys \<and> find_op m f = Inr a \<and> a \<noteq> end_op m \<and>
       rank k = rank k' \<and> (\<forall>e \<in> set xs. rank k \<noteq> rank (it_key e)) \<and>
       value_op m a = Inr v \<and> key_op m a = Inr k')"
    using f' by (intro find_first m(1)) auto
  then show ?thesis
  proof (elim disjE exE conjE)
    assume n: "find_op m f = Inr (end_op m)" "\<forall>e \<in> set (items_of m). rank k \<noteq> rank (it_key e)"
    then have "rank k \<notin> dom (content rank (items_of m))" by (auto simp: dom_content ranks_def)
    then have "content rank (items_of m) (rank k) = None" by blast
    then show ?thesis using n(1) by simp
  next
    fix xs a k' v ys
    assume "items_of m = xs @ (a, k', v) # ys" "find_op m f = Inr a" "a \<noteq> end_op m" "rank k = rank k'"
      "value_op m a = Inr v"
    then show ?thesis using content_mid(1) [of rank xs "(a, k', v)" ys] m(3) by simp
  qed
qed

end

section \<open>The red-black tree meets the contract\<close>

text \<open>A search over a whole tree, as the look-ups of the program start: front, end, \<open>find_if\<close>.\<close>

abbreviation search :: "('k, 'v) rb_tree \<Rightarrow> 'u \<Rightarrow> ('u \<Rightarrow> 'k \<Rightarrow> bool res) \<Rightarrow> nat res" where
  "search T u f \<equiv> bind_res (assoc_rb_tree_front T) (\<lambda>it. find_if_rb_tree T it (assoc_rb_tree_end T) u f)"

definition rb_find :: "('k, 'v) rb_tree \<Rightarrow> ('k \<Rightarrow> bool res) \<Rightarrow> nat res" where
  "rb_find T f =
     bind_res (assoc_rb_tree_front T) (\<lambda>it. find_if_rb_loop (t_size T + 1) T it (assoc_rb_tree_end T) f)"

lemma rb_find_if:
  "bind_res (assoc_rb_tree_front T) (\<lambda>it. find_if_rb_tree T it (assoc_rb_tree_end T) u f) = rb_find T (f u)"
  by (simp add: rb_find_def find_if_rb_tree_def)

context comparator begin

lemma rb_ordered_map:
  "ordered_map comp valid rank rb_items (rb_inv comp valid rank)
    (\<lambda>T k v. assoc_rb_tree_insert T k (t_key_sz T) v) assoc_rb_tree_extract rb_find assoc_rb_tree_end
    assoc_rb_tree_value assoc_rb_tree_key"
proof (unfold_locales, goal_cases)
  case (1 m)
  then have s: "rb_struct m (tree_of m)" by (simp add: rb_inv_def)
  then show ?case
    using 1 map_fst_items [of "tree_of m"]
    by (auto simp: rb_inv_def rb_sorted_def ranks_def rb_items_def rb_struct_def zipped_def
        assoc_rb_tree_end_def simp flip: set_map)
next
  case (2 m k v)
  then show ?case using rb_insert_ok [of m k "t_key_sz m" v] by blast
next
  case (3 m k)
  then have "\<exists>e \<in> set (rb_items m). rank (it_key e) = rank k" by (force simp: ranks_def)
  from rb_extract_ok [OF 3(1,2) this] show ?case by blast
next
  case (4 m k)
  then have "\<forall>e \<in> set (rb_items m). rank (it_key e) \<noteq> rank k" by (force simp: ranks_def)
  from rb_extract_missing [OF 4(1,2) this] show ?case .
next
  case (5 m f g)
  then have s: "rb_struct m (tree_of m)" by (simp add: rb_inv_def)
  have "\<And>a k v. (a, k, v) \<in> set (items (tree_of m)) \<Longrightarrow> f k = Inr (g k)"
    using 5(2) by (force simp: rb_items_def)
  then show ?case
    using rb_front_ok [OF s] find_if_rb_ok [OF s, of "\<lambda>_. f" "()" g]
    by (simp add: rb_find_def assoc_rb_tree_end_def find_if_rb_tree_def rb_items_def)
next
  case (6 m a k v)
  then show ?case using rb_value_ok [of m "tree_of m"] by (simp add: rb_inv_def rb_items_def)
next
  case (7 m a k v)
  then show ?case using rb_key_ok [of m "tree_of m"] by (simp add: rb_inv_def rb_items_def)
qed

end

section \<open>Height\<close>

text \<open>The lemma the header of the source quotes: a height of at most \<open>2 log\<^sub>2(n + 1)\<close>.\<close>

lemma black_height_size: "balanced t \<Longrightarrow> 2 ^ black_height t \<le> size t + 1"
proof (induction t rule: balanced.induct)
  case (2 l a c k v r)
  then have "2 ^ black_height l \<le> size l + 1" "2 ^ black_height l \<le> size r + 1" by auto
  then show ?case by auto
qed simp

lemma height_black_height:
  "balanced t \<Longrightarrow> height t \<le> 2 * black_height t + (if color_of t = ASSOC_RED then 1 else 0)"
proof (induction t rule: balanced.induct)
  case (2 l a c k v r)
  then have l: "height l \<le> 2 * black_height l + (if color_of l = ASSOC_RED then 1 else 0)"
    and r: "height r \<le> 2 * black_height l + (if color_of r = ASSOC_RED then 1 else 0)" by auto
  show ?case
  proof (cases c)
    case ASSOC_BLACK
    then show ?thesis using l r by (auto split: if_splits)
  next
    case ASSOC_RED
    then show ?thesis using l r 2(3) by auto
  qed
qed simp

lemma rb_height:
  assumes "rb_inv cmp valid rank T"
  shows "2 ^ height (tree_of T) \<le> (t_size T + 1) ^ 2"
proof -
  have b: "balanced (tree_of T)" "color_of (tree_of T) = ASSOC_BLACK" "size (tree_of T) = t_size T"
    using assms by (auto simp: rb_inv_def rb_struct_def rb_balanced_def length_items)
  have "2 ^ height (tree_of T) \<le> (2 :: nat) ^ (2 * black_height (tree_of T))"
    using height_black_height [OF b(1)] b(2) by (intro power_increasing) auto
  also have "\<dots> = (2 ^ black_height (tree_of T)) ^ 2" by (simp add: power_mult [symmetric] mult.commute)
  also have "\<dots> \<le> (t_size T + 1) ^ 2"
    using black_height_size [OF b(1)] b(3) by (intro power_mono) auto
  finally show ?thesis .
qed

section \<open>Properties\<close>

text \<open>The tree keyed by file descriptors, as the agent and the xApp use it.\<close>

interpretation fd_map: ordered_map cmp_fd "\<lambda>fd. fd > -1" "\<lambda>fd. [fd]" rb_items
  "rb_inv cmp_fd (\<lambda>fd. fd > -1) (\<lambda>fd. [fd])" "\<lambda>T k v. assoc_rb_tree_insert T k (t_key_sz T) v"
  assoc_rb_tree_extract rb_find assoc_rb_tree_end assoc_rb_tree_value assoc_rb_tree_key
  by (rule fd.rb_ordered_map)

text \<open>C21: inserting into a red-black tree, with any comparison function that is a consistent
  order, returns, keeps the tree a red-black tree (ordered, linked consistently, no red node below
  a red one, equal black heights) and adds exactly the new entry, behind the keys not after it.\<close>

theorem assoc_rb_tree_insert_correct:
  assumes "comparator cmp valid rank" "rb_inv cmp valid rank T" "valid key"
  shows "\<exists>T'. assoc_rb_tree_insert T key (t_key_sz T) val = Inr T' \<and> rb_inv cmp valid rank T' \<and>
    rb_items T' = sorted_insert rank (t_brk T, key, val) (rb_items T)"
  using comparator.rb_insert_ok [OF assms refl, of val] by blast

lemma fd_comparator: "comparator cmp_fd (\<lambda>fd. fd > -1) (\<lambda>fd. [fd])"
  by (rule fd.comparator_axioms)

lemma fd_tree_sample:
  obtains T :: "(int, string) rb_tree" where
    "rb_inv cmp_fd (\<lambda>fd. fd > -1) (\<lambda>fd. [fd]) T" "map it_key (rb_items T) = [4, 7, 9]"
proof -
  obtain T0 :: "(int, string) rb_tree" where T0: "assoc_rb_tree_init 4 cmp_fd = Inr T0"
    "rb_inv cmp_fd (\<lambda>fd. fd > -1) (\<lambda>fd. [fd]) T0" "rb_items T0 = []" "t_key_sz T0 = 4"
    using rb_init_ok [of 4 cmp_fd "\<lambda>fd. fd > -1" "\<lambda>fd. [fd]"] by auto
  obtain T1 where T1: "assoc_rb_tree_insert T0 9 4 ''s'' = Inr T1"
    "rb_inv cmp_fd (\<lambda>fd. fd > -1) (\<lambda>fd. [fd]) T1"
    "rb_items T1 = sorted_insert (\<lambda>fd. [fd]) (t_brk T0, 9, ''s'') []" "t_key_sz T1 = 4"
    using fd.rb_insert_ok [OF T0(2), of 9 4 "''s''"] T0(3,4) by auto
  obtain T2 where T2: "assoc_rb_tree_insert T1 4 4 ''s'' = Inr T2"
    "rb_inv cmp_fd (\<lambda>fd. fd > -1) (\<lambda>fd. [fd]) T2"
    "rb_items T2 = sorted_insert (\<lambda>fd. [fd]) (t_brk T1, 4, ''s'') (rb_items T1)" "t_key_sz T2 = 4"
    using fd.rb_insert_ok [OF T1(2), of 4 4 "''s''"] T1(4) by auto
  obtain T3 where T3: "assoc_rb_tree_insert T2 7 4 ''s'' = Inr T3"
    "rb_inv cmp_fd (\<lambda>fd. fd > -1) (\<lambda>fd. [fd]) T3"
    "rb_items T3 = sorted_insert (\<lambda>fd. [fd]) (t_brk T2, 7, ''s'') (rb_items T2)"
    using fd.rb_insert_ok [OF T2(2), of 7 4 "''s''"] T2(4) by auto
  have "map it_key (rb_items T3) = [4, 7, 9]"
    using T1(3) T2(3) T3(3) by (simp add: sorted_insert_def)
  with T3(2) show ?thesis by (rule that)
qed

theorem assoc_rb_tree_insert_correct_witness:
  "\<exists>(T :: (int, string) rb_tree) T'. map it_key (rb_items T) = [4, 7, 9] \<and>
     assoc_rb_tree_insert T 5 (t_key_sz T) ''x'' = Inr T' \<and> map it_key (rb_items T') = [4, 5, 7, 9]"
proof -
  obtain T :: "(int, string) rb_tree" where T: "rb_inv cmp_fd (\<lambda>fd. fd > -1) (\<lambda>fd. [fd]) T"
    "map it_key (rb_items T) = [4, 7, 9]" by (rule fd_tree_sample)
  from T(2) obtain a b c where items: "rb_items T = [a, b, c]" "it_key a = 4" "it_key b = 7" "it_key c = 9"
    by (auto simp: map_eq_Cons_conv)
  from assoc_rb_tree_insert_correct [OF fd_comparator T(1), of 5 "''x''"] obtain T' where
    "assoc_rb_tree_insert T 5 (t_key_sz T) ''x'' = Inr T'" "map it_key (rb_items T') = [4, 5, 7, 9]"
    by (auto simp: items sorted_insert_def)
  with T(2) show ?thesis by (intro exI [of _ T] exI [of _ T'] conjI)
qed

text \<open>C22: extracting a key that is in the tree returns the value of an entry with that key,
  removes exactly this entry and keeps the red-black tree; extracting a key that is not there
  aborts.\<close>

theorem assoc_rb_tree_extract_correct:
  assumes "comparator cmp valid rank" "rb_inv cmp valid rank T" "valid key"
  shows "if rank key \<in> set (ranks rank (rb_items T))
    then \<exists>xs a k v ys T'. rb_items T = xs @ (a, k, v) # ys \<and> rank k = rank key \<and>
      assoc_rb_tree_extract T key = Inr (v, T') \<and> rb_inv cmp valid rank T' \<and> rb_items T' = xs @ ys
    else assoc_rb_tree_extract T key = Inl AssertFailed"
proof (cases "rank key \<in> set (ranks rank (rb_items T))")
  case True
  then have "\<exists>e \<in> set (rb_items T). rank (it_key e) = rank key"
    unfolding ranks_def set_map image_iff by metis
  from comparator.rb_extract_ok [OF assms this] True show ?thesis by fastforce
next
  case False
  then have "\<forall>e \<in> set (rb_items T). rank (it_key e) \<noteq> rank key"
    by (auto simp: ranks_def image_iff eq_commute)
  from comparator.rb_extract_missing [OF assms this] False show ?thesis by simp
qed

theorem assoc_rb_tree_extract_correct_witness:
  "\<exists>(T :: (int, string) rb_tree) v T'. map it_key (rb_items T) = [4, 7, 9] \<and>
     assoc_rb_tree_extract T 7 = Inr (v, T') \<and> map it_key (rb_items T') = [4, 9] \<and>
     assoc_rb_tree_extract T 8 = Inl AssertFailed"
proof -
  obtain T :: "(int, string) rb_tree" where T: "rb_inv cmp_fd (\<lambda>fd. fd > -1) (\<lambda>fd. [fd]) T"
    "map it_key (rb_items T) = [4, 7, 9]" by (rule fd_tree_sample)
  from T(2) have r: "ranks (\<lambda>fd. [fd]) (rb_items T) = [[4], [7], [9]]"
    by (auto simp add: ranks_def map_eq_Cons_conv)
  obtain xs a k v ys T' where e: "rb_items T = xs @ (a, k, v) # ys" "[k] = [7]"
    "assoc_rb_tree_extract T 7 = Inr (v, T')" "rb_items T' = xs @ ys"
    using assoc_rb_tree_extract_correct [OF fd_comparator T(1), of 7] r by auto
  have "map it_key xs @ 7 # map it_key ys = [4] @ 7 # [9]" using T(2) e(1,2) by simp
  then have "map it_key xs = [4] \<and> map it_key ys = [9]"
    by (auto simp: append_eq_Cons_conv Cons_eq_append_conv map_eq_Cons_conv)
  then have "map it_key (rb_items T') = [4, 9]" by (simp add: e(4))
  moreover have "assoc_rb_tree_extract T 8 = Inl AssertFailed"
    using assoc_rb_tree_extract_correct [OF fd_comparator T(1), of 8] r by simp
  ultimately show ?thesis
    using T(2) e(3) by (intro exI [of _ T] exI [of _ v] exI [of _ T'] conjI)
qed

text \<open>searching a tree from its front with \<open>find_if\<close> visits the entries in the order of
  their keys and stops at the first one the predicate accepts, whose key and value the iterator
  then gives; when there is none it returns the end iterator.\<close>

theorem find_if_rb_tree_first:
  assumes "rb_inv cmp valid rank T" "\<And>k. f u k = Inr (g k)"
  shows "\<exists>it. bind_res (assoc_rb_tree_front T) (\<lambda>it. find_if_rb_tree T it (assoc_rb_tree_end T) u f) = Inr it \<and>
    (case dropWhile (\<lambda>e. \<not> g (it_key e)) (rb_items T) of
       [] \<Rightarrow> it = assoc_rb_tree_end T
     | (a, k, v) # _ \<Rightarrow> it \<noteq> assoc_rb_tree_end T \<and> assoc_rb_tree_key T it = Inr k \<and>
         assoc_rb_tree_value T it = Inr v)"
proof -
  have s: "rb_struct T (tree_of T)" using assms(1) by (simp add: rb_inv_def)
  have it: "bind_res (assoc_rb_tree_front T) (\<lambda>it. find_if_rb_tree T it (assoc_rb_tree_end T) u f) =
      Inr (first_addr (t_dummy T) (dropWhile (\<lambda>e. \<not> g (it_key e)) (rb_items T)))"
    using find_if_rb_ok [OF s, of f u g] rb_front_ok [OF s] assms(2)
    by (simp add: rb_items_def assoc_rb_tree_end_def)
  show ?thesis
  proof (cases "dropWhile (\<lambda>e. \<not> g (it_key e)) (rb_items T)")
    case Nil
    show ?thesis
      using it by (simp add: Nil first_addr_def assoc_rb_tree_end_def del: dropWhile_eq_Nil_conv bind_res_eq_Inr)
  next
    case (Cons e es)
    then have "e \<in> set (rb_items T)" using set_dropWhileD by (metis list.set_intros(1))
    then have mem: "(fst e, fst (snd e), snd (snd e)) \<in> set (items (tree_of T))"
      by (simp add: rb_items_def)
    from rb_rd_item [OF s mem] rb_key_ok [OF s mem] rb_value_ok [OF s mem] it show ?thesis
      by (auto simp: Cons first_addr_def assoc_rb_tree_end_def simp del: bind_res_eq_Inr split: prod.splits)
  qed
qed

theorem find_if_rb_tree_first_witness:
  "\<exists>(T :: (int, string) rb_tree) it. map it_key (rb_items T) = [4, 7, 9] \<and>
     bind_res (assoc_rb_tree_front T) (\<lambda>it. find_if_rb_tree T it (assoc_rb_tree_end T) 5 (\<lambda>u k. Inr (u < k))) = Inr it \<and>
     assoc_rb_tree_key T it = Inr 7"
proof -
  obtain T :: "(int, string) rb_tree" where T: "rb_inv cmp_fd (\<lambda>fd. fd > -1) (\<lambda>fd. [fd]) T"
    "map it_key (rb_items T) = [4, 7, 9]" by (rule fd_tree_sample)
  from T(2) obtain a b c where items: "rb_items T = [a, b, c]" "it_key a = 4" "it_key b = 7" "it_key c = 9"
    by (auto simp: map_eq_Cons_conv)
  from find_if_rb_tree_first [OF T(1), of "\<lambda>u k. Inr (u < k)" 5 "\<lambda>k. 5 < k"] obtain it where
    "bind_res (assoc_rb_tree_front T) (\<lambda>it. find_if_rb_tree T it (assoc_rb_tree_end T) 5 (\<lambda>u k. Inr (u < k))) = Inr it"
    "assoc_rb_tree_key T it = Inr 7"
    using items by (cases b) (auto simp: items simp del: bind_res_eq_Inr)
  with T(2) show ?thesis by (intro exI [of _ T] exI [of _ it] conjI)
qed

text \<open>The height of a tree is at most twice the logarithm of its size plus one, so the loops
  that go down from the root take that many steps at most.\<close>

theorem assoc_rb_tree_height:
  assumes "rb_inv cmp valid rank T"
  shows "2 ^ height (tree_of T) \<le> (assoc_rb_tree_size T + 1) ^ 2"
  using rb_height [OF assms] by (simp add: assoc_rb_tree_size_def)

theorem assoc_rb_tree_height_witness:
  "\<exists>T :: (int, string) rb_tree. assoc_rb_tree_size T = 3 \<and> 2 ^ height (tree_of T) \<le> (16 :: nat)"
proof -
  obtain T :: "(int, string) rb_tree" where T: "rb_inv cmp_fd (\<lambda>fd. fd > -1) (\<lambda>fd. [fd]) T"
    "map it_key (rb_items T) = [4, 7, 9]" by (rule fd_tree_sample)
  from T(2) have "length (rb_items T) = 3" by (metis length_map list.size(3,4) numeral_3_eq_3 One_nat_def add.right_neutral add_Suc_right)
  then have "assoc_rb_tree_size T = 3" using T(1)
    by (simp add: rb_inv_def rb_struct_def rb_items_def assoc_rb_tree_size_def)
  with assoc_rb_tree_height [OF T(1)] show ?thesis by auto
qed

end
