(* ===== verification/Bimap.thy ===== *)
theory Bimap
  imports Ordered_Map
begin

text \<open>
  The bidirectional bm \<open>bi_map_t\<close> (\<open>util/alg_ds/ds/assoc_container/bimap.c\<close>): two red-black
  trees, the left one from first keys to second keys and the right one back. Copying a key with
  \<open>memcpy\<close> is the identity. While the keys of each side have pairwise distinct ranks the two trees
  are each other's inverse (\<open>bm_inv\<close>), which insertion of a new pair and extraction from either
  side keep.
\<close>

record ('a, 'b) bi_map =
  bm_left :: "('a, 'b) rb_tree"
  bm_right :: "('b, 'a) rb_tree"
  bm_right_free :: bool   \<comment> \<open>\<open>right.free_func != NULL\<close>\<close>

definition bi_map_init ::
  "nat \<Rightarrow> nat \<Rightarrow> ('a \<Rightarrow> 'a \<Rightarrow> int res) \<Rightarrow> ('b \<Rightarrow> 'b \<Rightarrow> int res) \<Rightarrow> bool \<Rightarrow> ('a, 'b) bi_map res" where
  "bi_map_init key_sz1 key_sz2 cmp1 cmp2 free2 =
     c_assert (key_sz1 > 0) (c_assert (key_sz2 > 0)
      (bind_res (assoc_rb_tree_init key_sz1 cmp1) (\<lambda>l.
       bind_res (assoc_rb_tree_init key_sz2 cmp2) (\<lambda>r.
         Inr \<lparr>bm_left = l, bm_right = r, bm_right_free = free2\<rparr>))))"

definition bi_map_free :: "('a, 'b) bi_map \<Rightarrow>
  (('a option \<times> 'b option) list \<times> ('b option \<times> 'a option) list) res" where
  "bi_map_free bm =
     bind_res (assoc_rb_tree_free (bm_left bm)) (\<lambda>(xs, _).
       map_res (\<lambda>(ys, _). (xs, ys)) (assoc_rb_tree_free (bm_right bm)))"

definition bi_map_insert :: "('a, 'b) bi_map \<Rightarrow> 'a \<Rightarrow> nat \<Rightarrow> 'b \<Rightarrow> nat \<Rightarrow> ('a, 'b) bi_map res" where
  "bi_map_insert bm key1 key_sz1 key2 key_sz2 =
     c_assert (key_sz1 > 0) (c_assert (key_sz2 > 0)
      (let val1 = key2 in
       bind_res (t_comp (bm_right bm) key2 val1) (\<lambda>cmp. c_assert (cmp = 0)
       (bind_res (assoc_rb_tree_insert (bm_left bm) key1 key_sz1 val1) (\<lambda>l.
        let val2 = key1 in
        bind_res (t_comp (bm_left bm) key1 val2) (\<lambda>cmp. c_assert (cmp = 0)
        (bind_res (assoc_rb_tree_insert (bm_right bm) key2 key_sz2 val2) (\<lambda>r.
          Inr (bm\<lparr>bm_left := l, bm_right := r\<rparr>)))))))))"

definition bi_map_extract_left :: "('a, 'b) bi_map \<Rightarrow> 'a \<Rightarrow> nat \<Rightarrow> ('b \<times> ('a, 'b) bi_map) res" where
  "bi_map_extract_left bm key1 key1_sz =
     c_assert (key1_sz = t_key_sz (bm_left bm))
      (bind_res (assoc_rb_tree_extract (bm_left bm) key1) (\<lambda>(key2, l).
       bind_res (assoc_rb_tree_extract (bm_right bm) key2) (\<lambda>(key3, r).
       bind_res (t_comp l key1 key3) (\<lambda>cmp. c_assert (cmp = 0)
        (c_assert (assoc_rb_tree_size l = assoc_rb_tree_size r)
          (Inr (key2, bm\<lparr>bm_left := l, bm_right := r\<rparr>)))))))"

definition bi_map_extract_right :: "('a, 'b) bi_map \<Rightarrow> 'b \<Rightarrow> nat \<Rightarrow> ('a \<times> ('a, 'b) bi_map) res" where
  "bi_map_extract_right bm key2 key2_sz =
     c_assert (key2_sz = t_key_sz (bm_right bm))
      (bind_res (assoc_rb_tree_extract (bm_right bm) key2) (\<lambda>(key1, r).
       bind_res (assoc_rb_tree_extract (bm_left bm) key1) (\<lambda>(key3, l).
       bind_res (t_comp r key2 key3) (\<lambda>cmp. c_assert (cmp = 0)
        (c_assert (bm_right_free bm)
         (c_assert (assoc_rb_tree_size l = assoc_rb_tree_size r)
          (Inr (key1, bm\<lparr>bm_left := l, bm_right := r\<rparr>))))))))"

definition bi_map_size :: "('a, 'b) bi_map \<Rightarrow> nat res" where
  "bi_map_size bm =
     (let cap = assoc_rb_tree_size (bm_left bm) in
      c_assert (cap = assoc_rb_tree_size (bm_right bm)) (Inr cap))"

definition bi_map_front_left :: "('a, 'b) bi_map \<Rightarrow> nat res" where
  "bi_map_front_left bm = assoc_rb_tree_front (bm_left bm)"

definition bi_map_next_left :: "('a, 'b) bi_map \<Rightarrow> nat \<Rightarrow> nat res" where
  "bi_map_next_left bm it = assoc_rb_tree_next (bm_left bm) it"

definition bi_map_end_left :: "('a, 'b) bi_map \<Rightarrow> nat" where
  "bi_map_end_left bm = assoc_rb_tree_end (bm_left bm)"

definition bi_map_front_right :: "('a, 'b) bi_map \<Rightarrow> nat res" where
  "bi_map_front_right bm = assoc_rb_tree_front (bm_right bm)"

definition bi_map_next_right :: "('a, 'b) bi_map \<Rightarrow> nat \<Rightarrow> nat res" where
  "bi_map_next_right bm it = assoc_rb_tree_next (bm_right bm) it"

definition bi_map_end_right :: "('a, 'b) bi_map \<Rightarrow> nat" where
  "bi_map_end_right bm = assoc_rb_tree_end (bm_right bm)"

definition bi_map_value_left :: "('a, 'b) bi_map \<Rightarrow> nat \<Rightarrow> 'b res" where
  "bi_map_value_left bm it = assoc_rb_tree_value (bm_left bm) it"

definition bi_map_value_right :: "('a, 'b) bi_map \<Rightarrow> nat \<Rightarrow> 'a res" where
  "bi_map_value_right bm it = assoc_rb_tree_value (bm_right bm) it"

text \<open>
  \<open>find_if_bi_map_left\<close> of \<open>alg/find.c\<close>, with the walk from front to end that every caller asks
  for: the first left key that passes the test.
\<close>

definition find_if_bi_map_left :: "('a, 'b) bi_map \<Rightarrow> nat \<Rightarrow> nat \<Rightarrow> 'u \<Rightarrow> ('u \<Rightarrow> 'a \<Rightarrow> bool res) \<Rightarrow> nat res" where
  "find_if_bi_map_left bm start_it end_it val f = find_if_rb_tree (bm_left bm) start_it end_it val f"

section \<open>Pairs\<close>

definition kvs :: "(nat \<times> 'k \<times> 'v) list \<Rightarrow> ('k \<times> 'v) set" where
  "kvs es = snd ` set es"

definition pairs_of :: "('a, 'b) bi_map \<Rightarrow> ('a \<times> 'b) set" where
  "pairs_of bm = kvs (rb_items (bm_left bm))"

lemma kvs_sorted_insert: "kvs (sorted_insert rank (a, k, v) es) = insert (k, v) (kvs es)"
  by (simp add: kvs_def set_sorted_insert)

lemma kvs_remove:
  assumes "distinct (ranks rank (xs @ (a, k, v) # ys))"
  shows "kvs (xs @ ys) = kvs (xs @ (a, k, v) # ys) - {(k, v)}"
  using assms by (force simp: kvs_def ranks_def image_iff)

lemma ranks_kvs: "set (ranks rank es) = (rank \<circ> fst) ` kvs es"
  by (auto simp: ranks_def kvs_def image_iff) force+

locale bimap_cmp =
  l: comparator cmp1 valid1 rank1 + r: comparator cmp2 valid2 rank2
  for cmp1 :: "'a \<Rightarrow> 'a \<Rightarrow> int res" and valid1 :: "'a \<Rightarrow> bool" and rank1 :: "'a \<Rightarrow> int list"
    and cmp2 :: "'b \<Rightarrow> 'b \<Rightarrow> int res" and valid2 :: "'b \<Rightarrow> bool" and rank2 :: "'b \<Rightarrow> int list"

text \<open>Both sides are ordered maps, each with the other's keys as values.\<close>

sublocale bimap_cmp \<subseteq> lm: ordered_map cmp1 valid1 rank1 "rb_items :: ('a, 'b) rb_tree \<Rightarrow> _"
  "rb_inv cmp1 valid1 rank1" "\<lambda>T k v. assoc_rb_tree_insert T k (t_key_sz T) v" assoc_rb_tree_extract
  rb_find assoc_rb_tree_end assoc_rb_tree_value assoc_rb_tree_key
  by (rule l.rb_ordered_map)

sublocale bimap_cmp \<subseteq> rm: ordered_map cmp2 valid2 rank2 "rb_items :: ('b, 'a) rb_tree \<Rightarrow> _"
  "rb_inv cmp2 valid2 rank2" "\<lambda>T k v. assoc_rb_tree_insert T k (t_key_sz T) v" assoc_rb_tree_extract
  rb_find assoc_rb_tree_end assoc_rb_tree_value assoc_rb_tree_key
  by (rule r.rb_ordered_map)

definition bm_inv :: "('a \<Rightarrow> 'a \<Rightarrow> int res) \<Rightarrow> ('a \<Rightarrow> bool) \<Rightarrow> ('a \<Rightarrow> int list) \<Rightarrow>
  ('b \<Rightarrow> 'b \<Rightarrow> int res) \<Rightarrow> ('b \<Rightarrow> bool) \<Rightarrow> ('b \<Rightarrow> int list) \<Rightarrow> ('a, 'b) bi_map \<Rightarrow> bool" where
  "bm_inv cmp1 valid1 rank1 cmp2 valid2 rank2 bm \<longleftrightarrow>
     rb_inv cmp1 valid1 rank1 (bm_left bm) \<and> rb_inv cmp2 valid2 rank2 (bm_right bm) \<and>
     distinct (ranks rank1 (rb_items (bm_left bm))) \<and> distinct (ranks rank2 (rb_items (bm_right bm))) \<and>
     kvs (rb_items (bm_right bm)) = (kvs (rb_items (bm_left bm)))\<inverse>"

lemma kvs_item: "e \<in> set es \<Longrightarrow> (it_key e, snd (snd e)) \<in> kvs es"
  by (simp add: kvs_def)

lemma kvs_elem: "(k, v) \<in> kvs es \<longleftrightarrow> (\<exists>a. (a, k, v) \<in> set es)"
  by (force simp: kvs_def)

lemma valid_kvs: "rb_inv cmp valid rank T \<Longrightarrow> (k, v) \<in> kvs (rb_items T) \<Longrightarrow> valid k"
  by (auto simp: rb_inv_def kvs_elem)

lemma kvs_unique:
  assumes "distinct (ranks rank es)" "(k, v) \<in> kvs es" "(k', v') \<in> kvs es" "rank k = rank k'"
  shows "k = k' \<and> v = v'"
proof -
  obtain a a' where "(a, k, v) \<in> set es" "(a', k', v') \<in> set es" using assms by (auto simp: kvs_elem)
  then have "(a, k, v) = (a', k', v')"
    using assms(1,4) by (auto simp: ranks_def distinct_map dest: inj_onD [where x = "(a, k, v)" and y = "(a', k', v')"])
  then show ?thesis by simp
qed

lemma rb_size_items: "rb_inv cmp valid rank T \<Longrightarrow> assoc_rb_tree_size T = length (rb_items T)"
  by (simp add: rb_inv_def rb_struct_def assoc_rb_tree_size_def rb_items_def)

lemma card_kvs: "distinct (ranks rank es) \<Longrightarrow> card (kvs es) = length es"
proof -
  assume d: "distinct (ranks rank es)"
  have "inj_on snd (set es)"
  proof (rule inj_onI)
    fix x y assume "x \<in> set es" "y \<in> set es" "snd x = snd y"
    then show "x = y"
      using d by (auto simp: ranks_def distinct_map inj_on_def)
  qed
  moreover have "distinct es" using d by (auto simp: ranks_def distinct_map)
  ultimately show ?thesis by (simp add: kvs_def card_image distinct_card)
qed

lemma bm_sizes:
  assumes "bm_inv cmp1 valid1 rank1 cmp2 valid2 rank2 bm"
  shows "assoc_rb_tree_size (bm_left bm) = assoc_rb_tree_size (bm_right bm)"
    "assoc_rb_tree_size (bm_left bm) = card (pairs_of bm)"
proof -
  note a = assms [unfolded bm_inv_def]
  have "card (kvs (rb_items (bm_left bm))) = card (kvs (rb_items (bm_right bm)))"
    using a card_inverse [of "kvs (rb_items (bm_left bm))"] by simp
  then show "assoc_rb_tree_size (bm_left bm) = assoc_rb_tree_size (bm_right bm)"
    using a card_kvs [of rank1 "rb_items (bm_left bm)"] card_kvs [of rank2 "rb_items (bm_right bm)"]
    by (simp add: rb_size_items [of cmp1 valid1 rank1] rb_size_items [of cmp2 valid2 rank2])
  show "assoc_rb_tree_size (bm_left bm) = card (pairs_of bm)"
    using a card_kvs [of rank1 "rb_items (bm_left bm)"]
    by (simp add: rb_size_items [of cmp1 valid1 rank1] pairs_of_def)
qed

lemma bm_pairs_unique:
  assumes "bm_inv cmp1 valid1 rank1 cmp2 valid2 rank2 bm" "(a, b) \<in> pairs_of bm" "(a', b') \<in> pairs_of bm"
  shows "rank1 a = rank1 a' \<longleftrightarrow> (a, b) = (a', b')" "rank2 b = rank2 b' \<longleftrightarrow> (a, b) = (a', b')"
proof -
  note a = assms [unfolded bm_inv_def pairs_of_def]
  show "rank1 a = rank1 a' \<longleftrightarrow> (a, b) = (a', b')"
    using kvs_unique [of rank1 "rb_items (bm_left bm)" a b a' b'] a by blast
  show "rank2 b = rank2 b' \<longleftrightarrow> (a, b) = (a', b')"
    using kvs_unique [of rank2 "rb_items (bm_right bm)" b a b' a'] a by blast
qed

context bimap_cmp begin

abbreviation inv :: "('a, 'b) bi_map \<Rightarrow> bool" where
  "inv \<equiv> bm_inv cmp1 valid1 rank1 cmp2 valid2 rank2"

lemma bi_map_init_ok:
  assumes "key_sz1 > 0" "key_sz2 > 0"
  shows "\<exists>bm. bi_map_init key_sz1 key_sz2 cmp1 cmp2 free2 = Inr bm \<and> inv bm \<and> pairs_of bm = {} \<and>
    t_key_sz (bm_left bm) = key_sz1 \<and> t_key_sz (bm_right bm) = key_sz2 \<and> bm_right_free bm = free2"
proof -
  obtain L :: "('a, 'b) rb_tree" where L: "assoc_rb_tree_init key_sz1 cmp1 = Inr L"
    "rb_inv cmp1 valid1 rank1 L" "rb_items L = []" "t_key_sz L = key_sz1"
    using rb_init_ok [OF assms(1)] by blast
  obtain R :: "('b, 'a) rb_tree" where R: "assoc_rb_tree_init key_sz2 cmp2 = Inr R"
    "rb_inv cmp2 valid2 rank2 R" "rb_items R = []" "t_key_sz R = key_sz2"
    using rb_init_ok [OF assms(2)] by blast
  show ?thesis
    using L R assms by (auto simp: bi_map_init_def bm_inv_def pairs_of_def kvs_def ranks_def)
qed

lemma bi_map_insert_ok:
  assumes inv: "inv bm" and v: "valid1 key1" "valid2 key2"
    and new: "rank1 key1 \<notin> rank1 ` fst ` pairs_of bm" "rank2 key2 \<notin> rank2 ` snd ` pairs_of bm"
    and sz: "t_key_sz (bm_left bm) = sz1" "t_key_sz (bm_right bm) = sz2" "sz1 > 0" "sz2 > 0"
  shows "\<exists>bm'. bi_map_insert bm key1 sz1 key2 sz2 = Inr bm' \<and> inv bm' \<and>
    pairs_of bm' = insert (key1, key2) (pairs_of bm) \<and>
    t_key_sz (bm_left bm') = sz1 \<and> t_key_sz (bm_right bm') = sz2 \<and>
    bm_right_free bm' = bm_right_free bm"
proof -
  note i = inv [unfolded bm_inv_def]
  have c: "t_comp (bm_left bm) = cmp1" "t_comp (bm_right bm) = cmp2"
    using i by (auto simp: rb_inv_def)
  have e: "cmp1 key1 key1 = Inr 0" "cmp2 key2 key2 = Inr 0"
    using v l.comp_same r.comp_same by auto
  obtain L where L: "assoc_rb_tree_insert (bm_left bm) key1 sz1 key2 = Inr L"
    "rb_inv cmp1 valid1 rank1 L"
    "rb_items L = sorted_insert rank1 (t_brk (bm_left bm), key1, key2) (rb_items (bm_left bm))"
    "t_key_sz L = sz1"
    using l.rb_insert_ok [of "bm_left bm" key1 sz1 key2] i v sz by auto
  obtain R where R: "assoc_rb_tree_insert (bm_right bm) key2 sz2 key1 = Inr R"
    "rb_inv cmp2 valid2 rank2 R"
    "rb_items R = sorted_insert rank2 (t_brk (bm_right bm), key2, key1) (rb_items (bm_right bm))"
    "t_key_sz R = sz2"
    using r.rb_insert_ok [of "bm_right bm" key2 sz2 key1] i v sz by auto
  define bm' where "bm' = bm\<lparr>bm_left := L, bm_right := R\<rparr>"
  have run: "bi_map_insert bm key1 sz1 key2 sz2 = Inr bm'"
    using L(1) R(1) c e sz by (simp add: bi_map_insert_def bm'_def)
  have "rank1 key1 \<notin> set (ranks rank1 (rb_items (bm_left bm)))"
    using new(1) by (simp add: ranks_kvs pairs_of_def image_image o_def)
  then have dL: "distinct (ranks rank1 (rb_items L))"
    using i L(3) by (simp add: distinct_sorted_insert)
  have "snd ` pairs_of bm = fst ` kvs (rb_items (bm_right bm))"
    using i by (force simp: pairs_of_def)
  then have "rank2 key2 \<notin> set (ranks rank2 (rb_items (bm_right bm)))"
    using new(2) by (simp add: ranks_kvs image_image o_def)
  then have dR: "distinct (ranks rank2 (rb_items R))"
    using i R(3) by (simp add: distinct_sorted_insert)
  have "inv bm'"
    using L R dL dR i by (auto simp: bm_inv_def bm'_def kvs_sorted_insert)
  moreover have "pairs_of bm' = insert (key1, key2) (pairs_of bm)"
    by (simp add: pairs_of_def bm'_def L(3) kvs_sorted_insert)
  ultimately show ?thesis using run L(4) R(4) by (auto simp: bm'_def)
qed

text \<open>One side: extraction takes out exactly the pair with the key's rank.\<close>

lemma extract_left_side:
  assumes inv: "inv bm" and key: "valid1 key" and p: "(a, b) \<in> pairs_of bm" "rank1 a = rank1 key"
  shows "\<exists>L. assoc_rb_tree_extract (bm_left bm) key = Inr (b, L) \<and> rb_inv cmp1 valid1 rank1 L \<and>
    distinct (ranks rank1 (rb_items L)) \<and> kvs (rb_items L) = pairs_of bm - {(a, b)} \<and>
    t_key_sz L = t_key_sz (bm_left bm)"
proof -
  note i = inv [unfolded bm_inv_def]
  have "\<exists>e \<in> set (rb_items (bm_left bm)). rank1 (it_key e) = rank1 key"
    using p by (force simp: pairs_of_def kvs_def)
  with l.rb_extract_ok [of "bm_left bm" key] i key obtain xs c k v ys L where e:
    "rb_items (bm_left bm) = xs @ (c, k, v) # ys" "rank1 k = rank1 key"
    "assoc_rb_tree_extract (bm_left bm) key = Inr (v, L)" "rb_inv cmp1 valid1 rank1 L"
    "rb_items L = xs @ ys" "t_key_sz L = t_key_sz (bm_left bm)" by blast
  have "(k, v) \<in> pairs_of bm" by (simp add: pairs_of_def kvs_def e(1))
  then have kv: "(k, v) = (a, b)"
    using bm_pairs_unique(1) [OF inv, of k v a b] p e(2) by auto
  have d: "distinct (ranks rank1 (xs @ (c, k, v) # ys))" using i e(1) by simp
  have "kvs (rb_items L) = pairs_of bm - {(a, b)}"
    using kvs_remove [OF d] kv by (simp add: pairs_of_def e(1,5))
  moreover have "distinct (ranks rank1 (rb_items L))" using d by (simp add: e(5) ranks_def)
  ultimately show ?thesis using e kv by auto
qed

lemma extract_right_side:
  assumes inv: "inv bm" and key: "valid2 key" and p: "(a, b) \<in> pairs_of bm" "rank2 b = rank2 key"
  shows "\<exists>R. assoc_rb_tree_extract (bm_right bm) key = Inr (a, R) \<and> rb_inv cmp2 valid2 rank2 R \<and>
    distinct (ranks rank2 (rb_items R)) \<and> kvs (rb_items R) = (pairs_of bm - {(a, b)})\<inverse> \<and>
    t_key_sz R = t_key_sz (bm_right bm)"
proof -
  note i = inv [unfolded bm_inv_def]
  have ba: "(b, a) \<in> kvs (rb_items (bm_right bm))" using i p(1) by (auto simp: pairs_of_def)
  then have "\<exists>e \<in> set (rb_items (bm_right bm)). rank2 (it_key e) = rank2 key"
    using p by (force simp: kvs_def)
  with r.rb_extract_ok [of "bm_right bm" key] i key obtain xs c k v ys R where e:
    "rb_items (bm_right bm) = xs @ (c, k, v) # ys" "rank2 k = rank2 key"
    "assoc_rb_tree_extract (bm_right bm) key = Inr (v, R)" "rb_inv cmp2 valid2 rank2 R"
    "rb_items R = xs @ ys" "t_key_sz R = t_key_sz (bm_right bm)" by blast
  have "(k, v) \<in> kvs (rb_items (bm_right bm))" by (simp add: kvs_def e(1))
  then have "(v, k) \<in> pairs_of bm" using i by (simp add: pairs_of_def)
  then have kv: "v = a" "k = b"
    using bm_pairs_unique(2) [OF inv, of v k a b] p e(2) by auto
  have d: "distinct (ranks rank2 (xs @ (c, k, v) # ys))" using i e(1) by simp
  have "kvs (rb_items R) = kvs (rb_items (bm_right bm)) - {(b, a)}"
    using kvs_remove [OF d] kv by (simp add: e(1,5))
  also have "\<dots> = (pairs_of bm - {(a, b)})\<inverse>" using i by (auto simp: pairs_of_def)
  finally show ?thesis using e kv d by (auto simp: ranks_def)
qed

lemma bi_map_extract_left_ok:
  assumes inv: "inv bm" and key: "valid1 key" and p: "(a, b) \<in> pairs_of bm" "rank1 a = rank1 key"
    and sz: "sz = t_key_sz (bm_left bm)"
  shows "\<exists>bm'. bi_map_extract_left bm key sz = Inr (b, bm') \<and> inv bm' \<and>
    pairs_of bm' = pairs_of bm - {(a, b)} \<and> t_key_sz (bm_left bm') = t_key_sz (bm_left bm) \<and>
    t_key_sz (bm_right bm') = t_key_sz (bm_right bm) \<and> bm_right_free bm' = bm_right_free bm"
proof -
  note i = inv [unfolded bm_inv_def]
  have vb: "valid2 b" "valid1 a"
    using i p(1) valid_kvs [of cmp1 valid1 rank1 "bm_left bm" a b]
      valid_kvs [of cmp2 valid2 rank2 "bm_right bm" b a] by (auto simp: pairs_of_def)
  obtain L where L: "assoc_rb_tree_extract (bm_left bm) key = Inr (b, L)" "rb_inv cmp1 valid1 rank1 L"
    "distinct (ranks rank1 (rb_items L))" "kvs (rb_items L) = pairs_of bm - {(a, b)}"
    "t_key_sz L = t_key_sz (bm_left bm)"
    using extract_left_side [OF inv key p] by blast
  obtain R where R: "assoc_rb_tree_extract (bm_right bm) b = Inr (a, R)" "rb_inv cmp2 valid2 rank2 R"
    "distinct (ranks rank2 (rb_items R))" "kvs (rb_items R) = (pairs_of bm - {(a, b)})\<inverse>"
    "t_key_sz R = t_key_sz (bm_right bm)"
    using extract_right_side [OF inv vb(1) p(1)] by blast
  define bm' where "bm' = bm\<lparr>bm_left := L, bm_right := R\<rparr>"
  have inv': "inv bm'" using L R by (simp add: bm_inv_def bm'_def)
  have "cmp1 key a = Inr 0" using l.comp_same [OF key vb(2)] p(2) by simp
  moreover have "t_comp L = cmp1" using L(2) by (simp add: rb_inv_def)
  moreover have "assoc_rb_tree_size L = assoc_rb_tree_size R"
    using bm_sizes(1) [OF inv'] by (simp add: bm'_def)
  ultimately have "bi_map_extract_left bm key sz = Inr (b, bm')"
    using L(1) R(1) sz by (simp add: bi_map_extract_left_def bm'_def)
  then show ?thesis using inv' L R by (auto simp: bm'_def pairs_of_def)
qed

lemma bi_map_extract_right_ok:
  assumes inv: "inv bm" and key: "valid2 key" and p: "(a, b) \<in> pairs_of bm" "rank2 b = rank2 key"
    and sz: "sz = t_key_sz (bm_right bm)" and fr: "bm_right_free bm"
  shows "\<exists>bm'. bi_map_extract_right bm key sz = Inr (a, bm') \<and> inv bm' \<and>
    pairs_of bm' = pairs_of bm - {(a, b)} \<and> t_key_sz (bm_left bm') = t_key_sz (bm_left bm) \<and>
    t_key_sz (bm_right bm') = t_key_sz (bm_right bm) \<and> bm_right_free bm' = bm_right_free bm"
proof -
  note i = inv [unfolded bm_inv_def]
  have vb: "valid2 b" "valid1 a"
    using i p(1) valid_kvs [of cmp1 valid1 rank1 "bm_left bm" a b]
      valid_kvs [of cmp2 valid2 rank2 "bm_right bm" b a] by (auto simp: pairs_of_def)
  obtain R where R: "assoc_rb_tree_extract (bm_right bm) key = Inr (a, R)" "rb_inv cmp2 valid2 rank2 R"
    "distinct (ranks rank2 (rb_items R))" "kvs (rb_items R) = (pairs_of bm - {(a, b)})\<inverse>"
    "t_key_sz R = t_key_sz (bm_right bm)"
    using extract_right_side [OF inv key p] by blast
  obtain L where L: "assoc_rb_tree_extract (bm_left bm) a = Inr (b, L)" "rb_inv cmp1 valid1 rank1 L"
    "distinct (ranks rank1 (rb_items L))" "kvs (rb_items L) = pairs_of bm - {(a, b)}"
    "t_key_sz L = t_key_sz (bm_left bm)"
    using extract_left_side [OF inv vb(2) p(1)] by blast
  define bm' where "bm' = bm\<lparr>bm_left := L, bm_right := R\<rparr>"
  have inv': "inv bm'" using L R by (simp add: bm_inv_def bm'_def)
  have "cmp2 key b = Inr 0" using r.comp_same [OF key vb(1)] p(2) by simp
  moreover have "t_comp R = cmp2" using R(2) by (simp add: rb_inv_def)
  moreover have "assoc_rb_tree_size L = assoc_rb_tree_size R"
    using bm_sizes(1) [OF inv'] by (simp add: bm'_def)
  ultimately have "bi_map_extract_right bm key sz = Inr (a, bm')"
    using L(1) R(1) sz fr by (simp add: bi_map_extract_right_def bm'_def)
  then show ?thesis using inv' L R by (auto simp: bm'_def pairs_of_def)
qed

lemma bi_map_size_ok: "inv bm \<Longrightarrow> bi_map_size bm = Inr (card (pairs_of bm))"
  using bm_sizes [of cmp1 valid1 rank1 cmp2 valid2 rank2 bm] by (simp add: bi_map_size_def Let_def)

text \<open>The search on the left side from front to end.\<close>

lemma find_left_ok:
  assumes inv: "inv bm" and f: "\<And>a b. (a, b) \<in> pairs_of bm \<Longrightarrow> f u a = Inr (g a)"
  shows "\<exists>it. bind_res (bi_map_front_left bm)
      (\<lambda>it. find_if_bi_map_left bm it (bi_map_end_left bm) u f) = Inr it \<and>
    (if it = bi_map_end_left bm then \<forall>(a, b) \<in> pairs_of bm. \<not> g a
     else \<exists>a b. (a, b) \<in> pairs_of bm \<and> g a \<and> bi_map_value_left bm it = Inr b \<and>
       assoc_rb_tree_key (bm_left bm) it = Inr a)"
proof -
  have i: "rb_inv cmp1 valid1 rank1 (bm_left bm)" using inv by (simp add: bm_inv_def)
  have f': "f u (it_key e) = Inr (g (it_key e))" if "e \<in> set (rb_items (bm_left bm))" for e
    using kvs_item [OF that] f [of "it_key e" "snd (snd e)"] by (simp add: pairs_of_def)
  have "(rb_find (bm_left bm) (f u) = Inr (assoc_rb_tree_end (bm_left bm)) \<and>
      (\<forall>e \<in> set (rb_items (bm_left bm)). \<not> g (it_key e))) \<or>
    (\<exists>xs a k v ys. rb_items (bm_left bm) = xs @ (a, k, v) # ys \<and> rb_find (bm_left bm) (f u) = Inr a \<and>
       a \<noteq> assoc_rb_tree_end (bm_left bm) \<and> g k \<and> (\<forall>e \<in> set xs. \<not> g (it_key e)) \<and>
       assoc_rb_tree_value (bm_left bm) a = Inr v \<and> assoc_rb_tree_key (bm_left bm) a = Inr k)"
    using lm.find_first [of "bm_left bm" "f u" g, OF i] f' by blast
  moreover have run: "bind_res (bi_map_front_left bm)
      (\<lambda>it. find_if_bi_map_left bm it (bi_map_end_left bm) u f) = rb_find (bm_left bm) (f u)"
    unfolding bi_map_front_left_def find_if_bi_map_left_def bi_map_end_left_def by (rule rb_find_if)
  ultimately show ?thesis
  proof (elim disjE exE conjE)
    assume n: "rb_find (bm_left bm) (f u) = Inr (assoc_rb_tree_end (bm_left bm))"
      "\<forall>e \<in> set (rb_items (bm_left bm)). \<not> g (it_key e)"
    have "\<forall>(a, b) \<in> pairs_of bm. \<not> g a" using n(2) by (fastforce simp: pairs_of_def kvs_elem)
    then show ?thesis using n(1) unfolding run unfolding bi_map_end_left_def bi_map_value_left_def by auto
  next
    fix xs it a b ys
    assume e: "rb_items (bm_left bm) = xs @ (it, a, b) # ys" "rb_find (bm_left bm) (f u) = Inr it"
      "it \<noteq> assoc_rb_tree_end (bm_left bm)" "g a" "assoc_rb_tree_value (bm_left bm) it = Inr b"
      "assoc_rb_tree_key (bm_left bm) it = Inr a"
    have "(a, b) \<in> pairs_of bm" using e(1) by (auto simp: pairs_of_def kvs_elem)
    then show ?thesis using e unfolding run unfolding bi_map_end_left_def bi_map_value_left_def by auto
  qed
qed

end

section \<open>Properties\<close>

text \<open>inserting a pair whose two keys are new to their sides adds exactly that pair, keeps
  the two trees inverse to each other and the sizes of both sides equal.\<close>

theorem bi_map_insert_adds:
  assumes cmps: "bimap_cmp cmp1 valid1 rank1 cmp2 valid2 rank2"
    and inv: "bm_inv cmp1 valid1 rank1 cmp2 valid2 rank2 bm" and keys: "valid1 key1" "valid2 key2"
    and new: "rank1 key1 \<notin> rank1 ` fst ` pairs_of bm" "rank2 key2 \<notin> rank2 ` snd ` pairs_of bm"
    and sz: "t_key_sz (bm_left bm) = sz1" "t_key_sz (bm_right bm) = sz2" "sz1 > 0" "sz2 > 0"
  shows "\<exists>bm'. bi_map_insert bm key1 sz1 key2 sz2 = Inr bm' \<and>
    bm_inv cmp1 valid1 rank1 cmp2 valid2 rank2 bm' \<and>
    pairs_of bm' = insert (key1, key2) (pairs_of bm) \<and> bi_map_size bm' = Inr (card (pairs_of bm) + 1)"
proof -
  obtain bm' where bm': "bi_map_insert bm key1 sz1 key2 sz2 = Inr bm'"
    "bm_inv cmp1 valid1 rank1 cmp2 valid2 rank2 bm'" "pairs_of bm' = insert (key1, key2) (pairs_of bm)"
    using bimap_cmp.bi_map_insert_ok [OF cmps inv keys new sz] by blast
  have "finite (pairs_of bm)" by (simp add: pairs_of_def kvs_def)
  moreover have "(key1, key2) \<notin> pairs_of bm" using new(1) by force
  ultimately have "card (pairs_of bm') = card (pairs_of bm) + 1" by (simp add: bm'(3))
  with bimap_cmp.bi_map_size_ok [OF cmps bm'(2)] bm' show ?thesis by auto
qed

lemma fd_fun_cmp: "bimap_cmp cmp_fd (\<lambda>fd. fd > -1) (\<lambda>fd. [fd]) cmp_ran_func_id (\<lambda>_. True) (\<lambda>f. [uint f])"
  by (intro bimap_cmp.intro fd.comparator_axioms ran_func.comparator_axioms)

lemma bi_map_sample:
  obtains bm where "bm_inv cmp_fd (\<lambda>fd. fd > -1) (\<lambda>fd. [fd]) cmp_ran_func_id (\<lambda>_. True) (\<lambda>f. [uint f]) bm"
    "pairs_of bm = {(3, 142), (5, 145)}" "t_key_sz (bm_left bm) = 4" "t_key_sz (bm_right bm) = 2"
    "bm_right_free bm"
proof -
  note cmps = fd_fun_cmp
  let ?inv = "bm_inv cmp_fd (\<lambda>fd. fd > -1) (\<lambda>fd. [fd]) cmp_ran_func_id (\<lambda>_. True) (\<lambda>f. [uint f])"
  obtain b0 where b0: "?inv b0" "pairs_of b0 = {}" "t_key_sz (bm_left b0) = 4" "t_key_sz (bm_right b0) = 2"
    "bm_right_free b0" using bimap_cmp.bi_map_init_ok [OF cmps, of 4 2 True] by auto
  obtain b1 where b1: "?inv b1" "pairs_of b1 = {(3, 142)}" "t_key_sz (bm_left b1) = 4"
    "t_key_sz (bm_right b1) = 2" "bm_right_free b1"
    using bimap_cmp.bi_map_insert_ok [OF cmps b0(1), of 3 142 4 2] b0 by auto
  obtain b2 where "?inv b2" "pairs_of b2 = {(5, 145), (3, 142)}" "t_key_sz (bm_left b2) = 4"
    "t_key_sz (bm_right b2) = 2" "bm_right_free b2"
    using bimap_cmp.bi_map_insert_ok [OF cmps b1(1), of 5 145 4 2] b1 by auto
  then show ?thesis by (intro that [of b2]) auto
qed

theorem bi_map_insert_adds_witness:
  "\<exists>bm bm'. pairs_of bm = {(3 :: int, 142 :: u16), (5, 145)} \<and> bi_map_insert bm 4 4 150 2 = Inr bm' \<and>
     pairs_of bm' = {(4, 150), (3, 142), (5, 145)}"
proof -
  obtain bm where bm: "bm_inv cmp_fd (\<lambda>fd. fd > -1) (\<lambda>fd. [fd]) cmp_ran_func_id (\<lambda>_. True) (\<lambda>f. [uint f]) bm"
    "pairs_of bm = {(3, 142), (5, 145)}" "t_key_sz (bm_left bm) = 4" "t_key_sz (bm_right bm) = 2"
    by (rule bi_map_sample)
  from bi_map_insert_adds [OF fd_fun_cmp bm(1), of 4 150 4 2] bm(2-) show ?thesis by auto
qed

text \<open>for a pair that is in the map, extracting by its left key returns the right key and
  extracting by its right key returns the left key; either removes exactly this pair from both
  sides.\<close>

theorem bi_map_extract_either:
  assumes cmps: "bimap_cmp cmp1 valid1 rank1 cmp2 valid2 rank2"
    and inv: "bm_inv cmp1 valid1 rank1 cmp2 valid2 rank2 bm" and p: "(a, b) \<in> pairs_of bm"
    and fr: "bm_right_free bm"
  shows "\<exists>bm1 bm2. bi_map_extract_left bm a (t_key_sz (bm_left bm)) = Inr (b, bm1) \<and>
    bi_map_extract_right bm b (t_key_sz (bm_right bm)) = Inr (a, bm2) \<and>
    bm_inv cmp1 valid1 rank1 cmp2 valid2 rank2 bm1 \<and> bm_inv cmp1 valid1 rank1 cmp2 valid2 rank2 bm2 \<and>
    pairs_of bm1 = pairs_of bm - {(a, b)} \<and> pairs_of bm2 = pairs_of bm - {(a, b)}"
proof -
  have "(a, b) \<in> kvs (rb_items (bm_left bm))" "(b, a) \<in> kvs (rb_items (bm_right bm))"
    using p inv by (simp_all add: pairs_of_def bm_inv_def)
  then have "valid1 a" "valid2 b"
    using inv by (auto simp only: bm_inv_def intro: valid_kvs)
  with bimap_cmp.bi_map_extract_left_ok [OF cmps inv _ p refl refl]
    bimap_cmp.bi_map_extract_right_ok [OF cmps inv _ p refl refl fr] show ?thesis by blast
qed

theorem bi_map_extract_either_witness:
  "\<exists>bm bm1 bm2. pairs_of bm = {(3 :: int, 142 :: u16), (5, 145)} \<and>
     bi_map_extract_left bm 3 (t_key_sz (bm_left bm)) = Inr (142, bm1) \<and>
     bi_map_extract_right bm 142 (t_key_sz (bm_right bm)) = Inr (3, bm2) \<and>
     pairs_of bm1 = {(5, 145)} \<and> pairs_of bm2 = {(5, 145)}"
proof -
  obtain bm where bm: "bm_inv cmp_fd (\<lambda>fd. fd > -1) (\<lambda>fd. [fd]) cmp_ran_func_id (\<lambda>_. True) (\<lambda>f. [uint f]) bm"
    "pairs_of bm = {(3, 142), (5, 145)}" "bm_right_free bm" by (rule bi_map_sample)
  have "(3, 142) \<in> pairs_of bm" "{(3, 142), (5, 145)} - {(3, 142)} = {(5 :: int, 145 :: u16)}"
    by (auto simp: bm(2))
  with bi_map_extract_either [OF fd_fun_cmp bm(1) this(1) bm(3)] bm(2) show ?thesis by metis
qed

end
