(* ===== verification/Iapp_Maps.thy ===== *)
theory Iapp_Maps
  imports Bimap E2AP_Ids Seq_Arr
begin

text \<open>
  The three bidirectional maps of the RIC: \<open>ric/iApp/map_ric_id.c\<close> (requests of the RIC to
  requests of the xApps), \<open>ric/iApp/map_xapps_sockaddr.c\<close> (xApps to SCTP endpoints) and
  \<open>ric/map_e2_node_sockaddr.c\<close> (E2 nodes to SCTP endpoints), with the comparison of endpoints of
  \<open>lib/ep/sctp_msg.c\<close>. Each operation takes the map's lock around its whole body, so it is a
  function on the map; an \<open>assert\<close> that the code relies on is a fault.
\<close>

section \<open>SCTP endpoints\<close>

record sockaddr_in =
  sin_family :: u16
  sin_port :: u16
  s_addr :: u32

record sctp_sndrcvinfo =
  sinfo_stream :: u16
  sinfo_ssn :: u16
  sinfo_flags :: u16
  sinfo_ppid :: u32
  sinfo_context :: u32
  sinfo_timetolive :: u32
  sinfo_tsn :: u32
  sinfo_cumtsn :: u32
  sinfo_assoc_id :: int

record sctp_info =
  si_addr :: sockaddr_in
  si_sri :: sctp_sndrcvinfo

definition cmp_sockaddr_in :: "sockaddr_in \<Rightarrow> sockaddr_in \<Rightarrow> int res" where
  "cmp_sockaddr_in m0 m1 =
     cmp_step 1 (-1) (sin_port m0) (sin_port m1)
      (cmp_step 1 (-1) (s_addr m0) (s_addr m1)
        (cmp_step 1 (-1) (sin_family m0) (sin_family m1) (Inr 0)))"

definition cmp_sctp_sndrcvinfo :: "sctp_sndrcvinfo \<Rightarrow> sctp_sndrcvinfo \<Rightarrow> int res" where
  "cmp_sctp_sndrcvinfo m0 m1 = Inr 0"

text \<open>\<open>None\<close> is the null pointer.\<close>

definition cmp_sctp_info_wrapper :: "sctp_info option \<Rightarrow> sctp_info option \<Rightarrow> int res" where
  "cmp_sctp_info_wrapper m0_v m1_v =
     (case (m0_v, m1_v) of
        (None, None) \<Rightarrow> Inr 0
      | (None, Some _) \<Rightarrow> Inr 1
      | (Some _, None) \<Rightarrow> Inr (-1)
      | (Some m0, Some m1) \<Rightarrow>
          bind_res (cmp_sockaddr_in (si_addr m0) (si_addr m1)) (\<lambda>cmp.
            if cmp \<noteq> 0 then Inr cmp else cmp_sctp_sndrcvinfo (si_sri m0) (si_sri m1)))"

definition eq_sctp_info_wrapper :: "sctp_info option \<Rightarrow> sctp_info option \<Rightarrow> bool res" where
  "eq_sctp_info_wrapper m0 m1 = map_res (\<lambda>c. c = 0) (cmp_sctp_info_wrapper m0 m1)"

abbreviation cmp_sctp :: "sctp_info \<Rightarrow> sctp_info \<Rightarrow> int res" where
  "cmp_sctp a b \<equiv> cmp_sctp_info_wrapper (Some a) (Some b)"

abbreviation eq_sctp :: "sctp_info \<Rightarrow> sctp_info \<Rightarrow> bool res" where
  "eq_sctp a b \<equiv> eq_sctp_info_wrapper (Some a) (Some b)"

definition sctp_rank :: "sctp_info \<Rightarrow> int list" where
  "sctp_rank s = [uint (sin_port (si_addr s)), uint (s_addr (si_addr s)), uint (sin_family (si_addr s))]"

interpretation sctp: comparator_eq cmp_sctp "\<lambda>_. True" sctp_rank eq_sctp
  by unfold_locales
     (auto simp: cmp_sctp_info_wrapper_def cmp_sockaddr_in_def cmp_sctp_sndrcvinfo_def sctp_rank_def
        eq_sctp_info_wrapper_def cmp_step_up)

declare bind_res_eq_Inr [simp del]

lemma sctp_rank_addr: "sctp_rank a = sctp_rank b \<longleftrightarrow> si_addr a = si_addr b"
  by (auto simp: sctp_rank_def intro: sockaddr_in.equality)

section \<open>E2 nodes and their endpoints\<close>

type_synonym map_e2_node_sockaddr = "(global_e2_node_id, sctp_info) bi_map"

definition SCTP_INFO_SZ :: nat where
  "SCTP_INFO_SZ = 48"

definition init_map_e2_node_sad :: "map_e2_node_sockaddr res" where
  "init_map_e2_node_sad = bi_map_init NODE_ID_SZ SCTP_INFO_SZ cmp_global_e2_node_id cmp_sctp True"

definition free_map_e2_node_sad :: "map_e2_node_sockaddr \<Rightarrow> unit res" where
  "free_map_e2_node_sad m = map_res (\<lambda>_. ()) (bi_map_free m)"

definition add_map_e2_node_sad ::
  "map_e2_node_sockaddr \<Rightarrow> global_e2_node_id \<Rightarrow> sctp_info \<Rightarrow> map_e2_node_sockaddr res" where
  "add_map_e2_node_sad m i s =
     (let id_cp = cp_global_e2_node_id i in bi_map_insert m id_cp NODE_ID_SZ s SCTP_INFO_SZ)"

definition rm_map_e2_node_sad ::
  "map_e2_node_sockaddr \<Rightarrow> global_e2_node_id \<Rightarrow> (sctp_info \<times> map_e2_node_sockaddr) res" where
  "rm_map_e2_node_sad m i = bi_map_extract_left m i NODE_ID_SZ"

definition rm_map_sad_e2_node ::
  "map_e2_node_sockaddr \<Rightarrow> sctp_info \<Rightarrow> (global_e2_node_id \<times> map_e2_node_sockaddr) res" where
  "rm_map_sad_e2_node m s = bi_map_extract_right m s SCTP_INFO_SZ"

definition find_map_e2_node_sad :: "map_e2_node_sockaddr \<Rightarrow> global_e2_node_id \<Rightarrow> sctp_info res" where
  "find_map_e2_node_sad m i =
     bind_res (search (bm_left m) i eq_global_e2_node_id) (\<lambda>it.
       c_assert (it \<noteq> assoc_rb_tree_end (bm_left m)) (assoc_rb_tree_value (bm_left m) it))"

section \<open>xApps and their endpoints\<close>

type_synonym map_xapps_sockaddr = "(u16, sctp_info) bi_map"

definition cmp_uint16_wrapper :: "u16 \<Rightarrow> u16 \<Rightarrow> int res" where
  "cmp_uint16_wrapper m0 m1 = cmp_step 1 (-1) m0 m1 (Inr 0)"

definition eq_uint16_wrapper :: "u16 \<Rightarrow> u16 \<Rightarrow> bool res" where
  "eq_uint16_wrapper m0 m1 = Inr (m0 = m1)"

interpretation uint16: comparator_eq cmp_uint16_wrapper "\<lambda>_. True" "\<lambda>w. [uint w]" eq_uint16_wrapper
  by unfold_locales (auto simp: cmp_uint16_wrapper_def cmp_step_up eq_uint16_wrapper_def)

definition init_map_xapps_sad :: "map_xapps_sockaddr res" where
  "init_map_xapps_sad = bi_map_init 2 SCTP_INFO_SZ cmp_uint16_wrapper cmp_sctp True"

definition free_map_xapps_sad :: "map_xapps_sockaddr \<Rightarrow> unit res" where
  "free_map_xapps_sad m = map_res (\<lambda>_. ()) (bi_map_free m)"

definition add_map_xapps_sad :: "map_xapps_sockaddr \<Rightarrow> u16 \<Rightarrow> sctp_info \<Rightarrow> map_xapps_sockaddr res" where
  "add_map_xapps_sad m xapp_id s =
     (let tree = bm_left m in
      bind_res (search tree xapp_id eq_uint16_wrapper) (\<lambda>it.
        c_assert (it = assoc_rb_tree_end tree) (bi_map_insert m xapp_id 2 s SCTP_INFO_SZ)))"

text \<open>The body behind \<open>assert(0!=0)\<close> is not reached.\<close>

definition rm_map_xapps_sad :: "map_xapps_sockaddr \<Rightarrow> u16 \<Rightarrow> map_xapps_sockaddr res" where
  "rm_map_xapps_sad m xapp_id = c_assert False (map_res snd (bi_map_extract_left m xapp_id 2))"

definition find_map_xapps_sad :: "map_xapps_sockaddr \<Rightarrow> u16 \<Rightarrow> sctp_info res" where
  "find_map_xapps_sad m xapp_id =
     (let tree = bm_left m in
      bind_res (search tree xapp_id eq_uint16_wrapper) (\<lambda>it.
        c_assert (it \<noteq> assoc_rb_tree_end tree) (assoc_rb_tree_value tree it)))"

definition find_map_xapps_xid :: "map_xapps_sockaddr \<Rightarrow> sctp_info \<Rightarrow> u16 res" where
  "find_map_xapps_xid m s =
     (let tree = bm_right m in
      bind_res (search tree s eq_sctp) (\<lambda>it.
        c_assert (it \<noteq> assoc_rb_tree_end tree) (assoc_rb_tree_value tree it)))"

definition get_num_connected_xapps :: "map_xapps_sockaddr \<Rightarrow> nat" where
  "get_num_connected_xapps m = assoc_rb_tree_size (bm_left m)"

section \<open>Requests of the RIC and of the xApps\<close>

type_synonym map_ric_id = "(e2_node_ric_id, xapp_ric_id) bi_map"

definition E2_NODE_RIC_ID_SZ :: nat where
  "E2_NODE_RIC_ID_SZ = 48"

definition XAPP_RIC_ID_SZ :: nat where
  "XAPP_RIC_ID_SZ = 12"

definition init_map_ric_id :: "map_ric_id res" where
  "init_map_ric_id =
     bi_map_init E2_NODE_RIC_ID_SZ XAPP_RIC_ID_SZ cmp_e2_node_ric_req_wrapper cmp_xapp_ric_gen_id True"

definition free_map_ric_id :: "map_ric_id \<Rightarrow> unit res" where
  "free_map_ric_id m = map_res (\<lambda>_. ()) (bi_map_free m)"

definition add_map_ric_id :: "map_ric_id \<Rightarrow> e2_node_ric_id \<Rightarrow> xapp_ric_id \<Rightarrow> map_ric_id res" where
  "add_map_ric_id m node x =
     (let left = bm_left m in
      bind_res (search left node eq_e2_node_ric_req) (\<lambda>it.
        c_assert (it = assoc_rb_tree_end left)
         (bi_map_insert m node E2_NODE_RIC_ID_SZ x XAPP_RIC_ID_SZ)))"

definition rm_map_ric_id :: "map_ric_id \<Rightarrow> xapp_ric_id \<Rightarrow> map_ric_id res" where
  "rm_map_ric_id m ric_id = map_res snd (bi_map_extract_right m ric_id XAPP_RIC_ID_SZ)"

text \<open>The zero-initialised node with a request number of the look-up.\<close>

definition dummy_node :: "u16 \<Rightarrow> e2_node_ric_id" where
  "dummy_node rq =
     \<lparr>en_e2_node_id = \<lparr>gn_type = ngran_eNB, gn_plmn = \<lparr>mcc = 0, mnc = 0, mnc_digit_len = 0\<rparr>,
        gn_nb_id = \<lparr>nb_id = 0, unused = 0\<rparr>, gn_cu_du_id = None\<rparr>,
      en_ric_id = \<lparr>ric_req_id = ucast rq, ric_inst_id = 0, ran_func_id = 0\<rparr>,
      en_ric_req_type = SUBSCRIPTION_RIC_REQUEST_TYPE\<rparr>"

definition find_xapp_map_ric_id :: "map_ric_id \<Rightarrow> u16 \<Rightarrow> xapp_ric_id option res" where
  "find_xapp_map_ric_id m rq =
     c_assert (rq > 0)
      (let left = bm_left m in
       bind_res (search left (dummy_node rq) eq_e2_node_ric_req) (\<lambda>it.
         if it = assoc_rb_tree_end left then Inr None
         else map_res Some (assoc_rb_tree_value left it)))"

definition find_ric_req_map_ric_id :: "map_ric_id \<Rightarrow> xapp_ric_id \<Rightarrow> e2_node_ric_id res" where
  "find_ric_req_map_ric_id m x =
     (let r = bm_right m in
      bind_res (search r x eq_xapp_ric_gen_id) (\<lambda>it.
        c_assert (it \<noteq> assoc_rb_tree_end r) (assoc_rb_tree_value r it)))"

definition first_xapp_id :: "u16 \<Rightarrow> xapp_ric_id" where
  "first_xapp_id xapp_id =
     \<lparr>xr_ric_id = \<lparr>ric_req_id = 0, ric_inst_id = 0, ran_func_id = 0\<rparr>, xr_xapp_id = xapp_id\<rparr>"

text \<open>The loop that collects the subscriptions; every turn moves the iterator forward.\<close>

fun subs_loop ::
  "nat \<Rightarrow> (xapp_ric_id, e2_node_ric_id) rb_tree \<Rightarrow> nat \<Rightarrow> xapp_ric_id \<Rightarrow> e2_node_ric_id seq_arr \<Rightarrow>
   e2_node_ric_id seq_arr res" where
  "subs_loop fuel rt it first arr =
     (if it = assoc_rb_tree_end rt then Inr arr
      else case fuel of 0 \<Rightarrow> Inl Diverged
      | Suc fu \<Rightarrow> bind_res (assoc_rb_tree_value rt it) (\<lambda>n.
          bind_res (if en_ric_req_type n = SUBSCRIPTION_RIC_REQUEST_TYPE
                    then seq_arr_push_back arr (cp_e2_node_ric_id n) E2_NODE_RIC_ID_SZ
                    else Inr arr) (\<lambda>arr.
          bind_res (assoc_rb_tree_next rt it) (\<lambda>nxt.
          bind_res (find_if_rb_tree rt nxt (assoc_rb_tree_end rt) first eq_xapp_id_gen_wrapper) (\<lambda>it.
            subs_loop fu rt it first arr)))))"

declare subs_loop.simps [simp del]

definition find_all_subs_map_ric_id :: "map_ric_id \<Rightarrow> u16 \<Rightarrow> e2_node_ric_id seq_arr res" where
  "find_all_subs_map_ric_id m xapp_id =
     (let arr = seq_arr_init E2_NODE_RIC_ID_SZ; right = bm_right m; first = first_xapp_id xapp_id in
      bind_res (search right first eq_xapp_id_gen_wrapper) (\<lambda>it.
        subs_loop (t_size right) right it first arr))"

section \<open>The three maps as sets of pairs\<close>

interpretation nodes: bimap_cmp cmp_global_e2_node_id valid_node_id node_id_rank
    cmp_sctp "\<lambda>_. True" sctp_rank
  by (intro bimap_cmp.intro node_id.comparator_axioms sctp.comparator_axioms)

interpretation xapps: bimap_cmp cmp_uint16_wrapper "\<lambda>_. True" "\<lambda>w. [uint w]"
    cmp_sctp "\<lambda>_. True" sctp_rank
  by (intro bimap_cmp.intro uint16.comparator_axioms sctp.comparator_axioms)

interpretation reqs: bimap_cmp cmp_e2_node_ric_req_wrapper "\<lambda>_. True" e2_node_ric_rank
    cmp_xapp_ric_gen_id "\<lambda>_. True" xapp_ric_rank
  by (intro bimap_cmp.intro e2_node_ric.comparator_axioms xapp_ric.comparator_axioms)

definition nodes_inv :: "map_e2_node_sockaddr \<Rightarrow> bool" where
  "nodes_inv m \<longleftrightarrow> nodes.inv m \<and> t_key_sz (bm_left m) = NODE_ID_SZ \<and>
     t_key_sz (bm_right m) = SCTP_INFO_SZ \<and> bm_right_free m"

definition xapps_inv :: "map_xapps_sockaddr \<Rightarrow> bool" where
  "xapps_inv m \<longleftrightarrow> xapps.inv m \<and> t_key_sz (bm_left m) = 2 \<and>
     t_key_sz (bm_right m) = SCTP_INFO_SZ \<and> bm_right_free m"

definition reqs_inv :: "map_ric_id \<Rightarrow> bool" where
  "reqs_inv m \<longleftrightarrow> reqs.inv m \<and> t_key_sz (bm_left m) = E2_NODE_RIC_ID_SZ \<and>
     t_key_sz (bm_right m) = XAPP_RIC_ID_SZ \<and> bm_right_free m"

text \<open>A search in either tree of a map, as a statement on its pairs.\<close>

context bimap_cmp begin

lemma search_left:
  assumes inv: "inv bm" and f: "\<And>a b. (a, b) \<in> pairs_of bm \<Longrightarrow> f u a = Inr (g a)"
  shows "\<exists>it. search (bm_left bm) u f = Inr it \<and>
    (if it = assoc_rb_tree_end (bm_left bm) then \<forall>(a, b) \<in> pairs_of bm. \<not> g a
     else \<exists>a b. (a, b) \<in> pairs_of bm \<and> g a \<and> assoc_rb_tree_value (bm_left bm) it = Inr b)"
proof -
  obtain it where it: "search (bm_left bm) u f = Inr it"
    "if it = assoc_rb_tree_end (bm_left bm) then \<forall>(a, b) \<in> pairs_of bm. \<not> g a
     else \<exists>a b. (a, b) \<in> pairs_of bm \<and> g a \<and> assoc_rb_tree_value (bm_left bm) it = Inr b \<and>
       assoc_rb_tree_key (bm_left bm) it = Inr a"
    using find_left_ok [OF inv, of f u g] f
    unfolding bi_map_front_left_def bi_map_end_left_def bi_map_value_left_def find_if_bi_map_left_def
    by blast
  show ?thesis
    by (intro exI [of _ it] conjI it(1)) (use it(2) in \<open>auto split: if_splits\<close>)
qed

lemma search_right:
  assumes inv: "inv bm" and f: "\<And>b. f u b = Inr (g b)"
  shows "(search (bm_right bm) u f = Inr (assoc_rb_tree_end (bm_right bm)) \<and>
      (\<forall>(a, b) \<in> pairs_of bm. \<not> g b)) \<or>
    (\<exists>xs it a b ys. rb_items (bm_right bm) = xs @ (it, b, a) # ys \<and> (a, b) \<in> pairs_of bm \<and>
      search (bm_right bm) u f = Inr it \<and> it \<noteq> assoc_rb_tree_end (bm_right bm) \<and> g b \<and>
      (\<forall>e \<in> set xs. \<not> g (it_key e)) \<and> assoc_rb_tree_value (bm_right bm) it = Inr a)"
proof -
  have r: "rb_inv cmp2 valid2 rank2 (bm_right bm)"
    and p: "kvs (rb_items (bm_right bm)) = (pairs_of bm)\<inverse>"
    using inv by (simp_all add: bm_inv_def pairs_of_def)
  from p have mem: "(a, b) \<in> pairs_of bm \<longleftrightarrow> (\<exists>it. (it, b, a) \<in> set (rb_items (bm_right bm)))" for a b
    using kvs_elem [of b a "rb_items (bm_right bm)"] by auto
  have "f u k = Inr (g k)" for k by (rule f)
  from rm.find_first [OF r, of "f u" g] this consider
      "search (bm_right bm) u f = Inr (assoc_rb_tree_end (bm_right bm))"
      "\<forall>e \<in> set (rb_items (bm_right bm)). \<not> g (it_key e)"
    | xs it b a ys where "rb_items (bm_right bm) = xs @ (it, b, a) # ys"
      "search (bm_right bm) u f = Inr it" "it \<noteq> assoc_rb_tree_end (bm_right bm)" "g b"
      "\<forall>e \<in> set xs. \<not> g (it_key e)" "assoc_rb_tree_value (bm_right bm) it = Inr a"
    unfolding rb_find_if by blast
  then show ?thesis
  proof cases
    case 1
    then show ?thesis using mem by fastforce
  next
    case 2
    then have "(a, b) \<in> pairs_of bm" using mem by auto
    with 2 show ?thesis by blast
  qed
qed

end

section \<open>Every operation on its pairs\<close>

lemma init_map_ric_id_ok: "\<exists>m. init_map_ric_id = Inr m \<and> reqs_inv m \<and> pairs_of m = {}"
  using reqs.bi_map_init_ok [of E2_NODE_RIC_ID_SZ XAPP_RIC_ID_SZ True]
  by (simp add: init_map_ric_id_def reqs_inv_def E2_NODE_RIC_ID_SZ_def XAPP_RIC_ID_SZ_def) blast

lemma init_map_xapps_sad_ok: "\<exists>m. init_map_xapps_sad = Inr m \<and> xapps_inv m \<and> pairs_of m = {}"
  using xapps.bi_map_init_ok [of 2 SCTP_INFO_SZ True]
  by (simp add: init_map_xapps_sad_def xapps_inv_def SCTP_INFO_SZ_def) blast

lemma init_map_e2_node_sad_ok: "\<exists>m. init_map_e2_node_sad = Inr m \<and> nodes_inv m \<and> pairs_of m = {}"
  using nodes.bi_map_init_ok [of NODE_ID_SZ SCTP_INFO_SZ True]
  by (simp add: init_map_e2_node_sad_def nodes_inv_def SCTP_INFO_SZ_def NODE_ID_SZ_def) blast

text \<open>The number by which the RIC knows a request.\<close>

abbreviation req_no :: "e2_node_ric_id \<Rightarrow> u32" where
  "req_no n \<equiv> ric_req_id (en_ric_id n)"

lemma e2_node_ric_rank_eq: "e2_node_ric_rank a = e2_node_ric_rank b \<longleftrightarrow> req_no a = req_no b"
  by (simp add: e2_node_ric_rank_def)

lemma search_req:
  assumes "reqs_inv m"
  shows "\<exists>it. search (bm_left m) n eq_e2_node_ric_req = Inr it \<and>
    (if it = assoc_rb_tree_end (bm_left m) then \<forall>(a, b) \<in> pairs_of m. req_no n \<noteq> req_no a
     else \<exists>a b. (a, b) \<in> pairs_of m \<and> req_no n = req_no a \<and> assoc_rb_tree_value (bm_left m) it = Inr b)"
  using assms unfolding reqs_inv_def
  by (intro reqs.search_left) (simp_all add: eq_e2_node_ric_req_def)

lemma add_map_ric_id_ok:
  assumes m: "reqs_inv m" and new: "\<forall>(a, b) \<in> pairs_of m. req_no a \<noteq> req_no n \<and> b \<noteq> x"
  shows "\<exists>m'. add_map_ric_id m n x = Inr m' \<and> reqs_inv m' \<and> pairs_of m' = insert (n, x) (pairs_of m)"
proof -
  from search_req [OF m, of n] new have
    se: "search (bm_left m) n eq_e2_node_ric_req = Inr (assoc_rb_tree_end (bm_left m))"
    by (fastforce split: if_splits )
  have "e2_node_ric_rank n \<notin> e2_node_ric_rank ` fst ` pairs_of m"
    "xapp_ric_rank x \<notin> xapp_ric_rank ` snd ` pairs_of m"
    using new by (auto simp: e2_node_ric_rank_eq xapp_ric_rank_inj eq_commute)
  with m obtain m' where "bi_map_insert m n E2_NODE_RIC_ID_SZ x XAPP_RIC_ID_SZ = Inr m'" "reqs_inv m'"
    "pairs_of m' = insert (n, x) (pairs_of m)"
    using reqs.bi_map_insert_ok [of m n x E2_NODE_RIC_ID_SZ XAPP_RIC_ID_SZ]
    by (auto simp: reqs_inv_def E2_NODE_RIC_ID_SZ_def XAPP_RIC_ID_SZ_def)
  with se show ?thesis by (simp add: add_map_ric_id_def Let_def)
qed

lemma add_map_ric_id_used:
  assumes m: "reqs_inv m" and old: "(a, b) \<in> pairs_of m" "req_no a = req_no n"
  shows "add_map_ric_id m n x = Inl AssertFailed"
proof -
  from search_req [OF m, of n] obtain it where it: "search (bm_left m) n eq_e2_node_ric_req = Inr it"
    "it = assoc_rb_tree_end (bm_left m) \<Longrightarrow> \<forall>(a, b) \<in> pairs_of m. req_no n \<noteq> req_no a"
    by (auto split: if_splits )
  have "it \<noteq> assoc_rb_tree_end (bm_left m)"
  proof
    assume "it = assoc_rb_tree_end (bm_left m)"
    from bspec [OF it(2) [OF this] old(1)] old(2) show False by simp
  qed
  then show ?thesis by (simp add: add_map_ric_id_def Let_def it(1))
qed

lemma rm_map_ric_id_ok:
  assumes m: "reqs_inv m" and p: "(n, x) \<in> pairs_of m"
  shows "\<exists>m'. rm_map_ric_id m x = Inr m' \<and> reqs_inv m' \<and> pairs_of m' = pairs_of m - {(n, x)}"
  using reqs.bi_map_extract_right_ok [where bm = m and a = n and b = x and key = x and sz = XAPP_RIC_ID_SZ] m p
  by (auto simp: rm_map_ric_id_def reqs_inv_def)

lemma req_unique:
  assumes "reqs_inv m" "(a, b) \<in> pairs_of m" "(a', b') \<in> pairs_of m"
  shows "req_no a = req_no a' \<longleftrightarrow> (a, b) = (a', b')" "b = b' \<longleftrightarrow> (a, b) = (a', b')"
  using bm_pairs_unique [of cmp_e2_node_ric_req_wrapper "\<lambda>_. True" e2_node_ric_rank cmp_xapp_ric_gen_id
      "\<lambda>_. True" xapp_ric_rank m a b a' b'] assms
  by (simp_all add: reqs_inv_def e2_node_ric_rank_eq xapp_ric_rank_inj)

lemma find_xapp_map_ric_id_ok:
  assumes m: "reqs_inv m" and pos: "0 < rq"
  shows "if \<exists>(n, x) \<in> pairs_of m. req_no n = ucast rq
    then \<exists>(n, x) \<in> pairs_of m. req_no n = ucast rq \<and> find_xapp_map_ric_id m rq = Inr (Some x)
    else find_xapp_map_ric_id m rq = Inr None"
proof -
  have dn: "req_no (dummy_node rq) = ucast rq" by (simp add: dummy_node_def)
  obtain it where it: "search (bm_left m) (dummy_node rq) eq_e2_node_ric_req = Inr it"
    "if it = assoc_rb_tree_end (bm_left m) then \<forall>(a, b) \<in> pairs_of m. ucast rq \<noteq> req_no a
     else \<exists>a b. (a, b) \<in> pairs_of m \<and> ucast rq = req_no a \<and> assoc_rb_tree_value (bm_left m) it = Inr b"
    using search_req [OF m, of "dummy_node rq"] unfolding dn by blast
  show ?thesis
  proof (cases "it = assoc_rb_tree_end (bm_left m)")
    case True
    with it(2) have "\<not> (\<exists>(n, x) \<in> pairs_of m. req_no n = ucast rq)" by fastforce
    then show ?thesis using it(1) True pos by (simp add: find_xapp_map_ric_id_def Let_def)
  next
    case False
    with it(2) obtain a b where "(a, b) \<in> pairs_of m" "ucast rq = req_no a"
      "assoc_rb_tree_value (bm_left m) it = Inr b" by auto
    then show ?thesis using it(1) False pos
      by (auto simp: find_xapp_map_ric_id_def Let_def intro!: bexI [of _ "(a, b)"])
  qed
qed

text \<open>
  The look-up by an xApp's request compares the RIC identifiers only: of all requests with the
  same one it finds the one of the smallest xApp.
\<close>

lemma find_ric_req_first:
  assumes m: "reqs_inv m"
  shows "(find_ric_req_map_ric_id m x = Inl AssertFailed \<and> (\<forall>(n, b) \<in> pairs_of m. xr_ric_id b \<noteq> xr_ric_id x)) \<or>
    (\<exists>n b. (n, b) \<in> pairs_of m \<and> xr_ric_id b = xr_ric_id x \<and> find_ric_req_map_ric_id m x = Inr n \<and>
      (\<forall>(n', b') \<in> pairs_of m. xr_ric_id b' = xr_ric_id x \<longrightarrow> xr_xapp_id b \<le> xr_xapp_id b'))"
proof -
  have inv: "reqs.inv m" using m by (simp add: reqs_inv_def)
  have f: "eq_xapp_ric_gen_id x b = Inr (xr_ric_id x = xr_ric_id b)" for b
    by (rule eq_xapp_ric_gen_id_eq)
  from reqs.search_right [OF inv, of eq_xapp_ric_gen_id x "\<lambda>b. xr_ric_id x = xr_ric_id b"] f
  consider "search (bm_right m) x eq_xapp_ric_gen_id = Inr (assoc_rb_tree_end (bm_right m))"
      "\<forall>(a, b) \<in> pairs_of m. xr_ric_id x \<noteq> xr_ric_id b"
    | xs it n b ys where "rb_items (bm_right m) = xs @ (it, b, n) # ys" "(n, b) \<in> pairs_of m"
      "search (bm_right m) x eq_xapp_ric_gen_id = Inr it" "it \<noteq> assoc_rb_tree_end (bm_right m)"
      "xr_ric_id x = xr_ric_id b" "\<forall>e \<in> set xs. xr_ric_id x \<noteq> xr_ric_id (it_key e)"
      "assoc_rb_tree_value (bm_right m) it = Inr n"
    by (auto )
  then show ?thesis
  proof cases
    case 1
    then show ?thesis by (fastforce simp: find_ric_req_map_ric_id_def Let_def )
  next
    case 2
    have sorted: "rb_sorted xapp_ric_rank (rb_items (bm_right m))"
      using inv by (simp add: bm_inv_def rb_inv_def)
    have "xr_xapp_id b \<le> xr_xapp_id b'" if p: "(n', b') \<in> pairs_of m" "xr_ric_id b' = xr_ric_id x" for n' b'
    proof -
      from p(1) inv have "(b', n') \<in> kvs (rb_items (bm_right m))" by (simp add: bm_inv_def pairs_of_def)
      then obtain a where "(a, b', n') \<in> set (rb_items (bm_right m))" by (auto simp: kvs_elem)
      with 2(1,6) p(2) have "b' = b \<or> (a, b', n') \<in> set ys" by fastforce
      moreover have "xapp_ric_rank b \<le> xapp_ric_rank b'" if "(a, b', n') \<in> set ys"
        using sorted that unfolding rb_sorted_def 2(1) by (force simp: sorted_append)
      ultimately show ?thesis by (auto simp: xapp_ric_rank_def word_le_def split: if_splits)
    qed
    with 2 show ?thesis by (auto simp: find_ric_req_map_ric_id_def Let_def )
  qed
qed

definition subs_of :: "u16 \<Rightarrow> (nat \<times> xapp_ric_id \<times> e2_node_ric_id) list \<Rightarrow> e2_node_ric_id list" where
  "subs_of xid es = map (\<lambda>e. snd (snd e)) (filter (\<lambda>e. xr_xapp_id (it_key e) = xid \<and>
     en_ric_req_type (snd (snd e)) = SUBSCRIPTION_RIC_REQUEST_TYPE) es)"

lemma subs_of_skip:
  "subs_of xid (dropWhile (\<lambda>e. \<not> xid = xr_xapp_id (it_key e)) es) = subs_of xid es"
  by (induction es) (auto simp: subs_of_def)

lemma subs_loop_ok:
  fixes xid :: u16
  assumes s: "rb_struct T t"
  defines "skip \<equiv> dropWhile (\<lambda>e. \<not> xid = xr_xapp_id (it_key e))"
  shows "items t = xs @ ys \<Longrightarrow> length ys \<le> fuel \<Longrightarrow> arr_inv arr \<Longrightarrow> sa_elt_size arr = E2_NODE_RIC_ID_SZ \<Longrightarrow>
    \<exists>arr'. subs_loop fuel T (first_addr (t_dummy T) (skip ys)) (first_xapp_id xid) arr = Inr arr' \<and>
      arr_inv arr' \<and> arr_list arr' = arr_list arr @ subs_of xid ys"
proof (induction fuel arbitrary: xs ys arr)
  case 0
  then show ?case
    by (simp add: subs_loop.simps skip_def first_addr_def assoc_rb_tree_end_def subs_of_def)
next
  case (Suc fuel)
  show ?case
  proof (cases "skip ys")
    case Nil
    then have "\<forall>e \<in> set ys. xid \<noteq> xr_xapp_id (it_key e)" by (simp add: skip_def)
    then have "subs_of xid ys = []" by (auto simp: subs_of_def filter_empty_conv)
    then show ?thesis using Suc.prems(3)
      by (simp add: subs_loop.simps Nil first_addr_def assoc_rb_tree_end_def)
  next
    case (Cons e zs)
    obtain a k n where e: "e = (a, k, n)" by (cases e)
    obtain us where us: "ys = us @ (a, k, n) # zs"
      using Cons takeWhile_dropWhile_id [of "\<lambda>e. \<not> xid = xr_xapp_id (it_key e)" ys] e
      by (metis skip_def)
    have it: "items t = (xs @ us) @ (a, k, n) # zs" using Suc.prems(1) us by simp
    then have mem: "(a, k, n) \<in> set (items t)" by simp
    have xk: "xid = xr_xapp_id k"
      using hd_dropWhile [of "\<lambda>e. \<not> xid = xr_xapp_id (it_key e)" ys] Cons e
      by (cases "skip ys = []") (simp_all add: skip_def del: dropWhile_eq_Nil_conv)
    have len: "length zs \<le> t_size T + 1" "length zs \<le> fuel"
      using s it Suc.prems(2) us by (auto simp: rb_struct_def)
    have f: "eq_xapp_id_gen_wrapper (first_xapp_id xid) k' = Inr (xid = xr_xapp_id k')" for k'
      by (simp add: eq_xapp_id_gen_wrapper_def first_xapp_id_def)
    have nxt: "find_if_rb_tree T (first_addr (t_dummy T) zs) (t_dummy T) (first_xapp_id xid)
        eq_xapp_id_gen_wrapper = Inr (first_addr (t_dummy T) (skip zs))"
      using find_if_rb_loop_ok [OF s, of "eq_xapp_id_gen_wrapper (first_xapp_id xid)"
          "\<lambda>k. xid = xr_xapp_id k" "xs @ us @ [(a, k, n)]" zs "t_size T + 1"] f it len
      by (simp add: find_if_rb_tree_def skip_def)
    let ?sub = "en_ric_req_type n = SUBSCRIPTION_RIC_REQUEST_TYPE"
    obtain arr1 where arr1: "(if ?sub then seq_arr_push_back arr (cp_e2_node_ric_id n) E2_NODE_RIC_ID_SZ
        else Inr arr) = Inr arr1" "arr_inv arr1" "sa_elt_size arr1 = E2_NODE_RIC_ID_SZ"
      "arr_list arr1 = arr_list arr @ (if ?sub then [n] else [])"
    proof (cases ?sub)
      case True
      from seq_arr_push_back_ok [OF Suc.prems(3) Suc.prems(4) [symmetric], of n] obtain arr1 where
        "seq_arr_push_back arr n E2_NODE_RIC_ID_SZ = Inr arr1" "arr_inv arr1"
        "arr_list arr1 = arr_list arr @ [n]" "sa_elt_size arr1 = E2_NODE_RIC_ID_SZ"
        using Suc.prems(4) by auto
      then show ?thesis using True by (intro that [of arr1]) simp_all
    qed (use Suc.prems(3,4) in \<open>simp add: that\<close>)
    have "subs_of xid ys = (if ?sub then [n] else []) @ subs_of xid zs"
    proof -
      have "subs_of xid ys = subs_of xid ((a, k, n) # zs)"
        using subs_of_skip [of xid ys] Cons e by (simp add: skip_def)
      then show ?thesis using xk by (simp add: subs_of_def)
    qed
    moreover obtain arr' where "subs_loop fuel T (first_addr (t_dummy T) (skip zs)) (first_xapp_id xid) arr1 = Inr arr'"
      "arr_inv arr'" "arr_list arr' = arr_list arr1 @ subs_of xid zs"
      using Suc.IH [of "xs @ us @ [(a, k, n)]" zs arr1] it len(2) arr1 by auto
    moreover have ad: "a \<noteq> t_dummy T" using rb_rd_item [OF s mem] by blast
    moreover have "subs_loop (Suc fuel) T a (first_xapp_id xid) arr =
        subs_loop fuel T (first_addr (t_dummy T) (skip zs)) (first_xapp_id xid) arr1"
      using ad rb_value_ok [OF s mem] rb_next_ok [OF s it] nxt arr1(1)
      by (simp add: subs_loop.simps [of "Suc fuel"] assoc_rb_tree_end_def split del: if_split)
    ultimately show ?thesis
      using arr1(4) by (simp add: Cons e first_addr_def [of _ "(a, k, n) # zs"])
  qed
qed

lemma find_all_subs_ok:
  assumes m: "reqs_inv m"
  shows "\<exists>arr. find_all_subs_map_ric_id m xid = Inr arr \<and> arr_inv arr \<and>
    arr_list arr = subs_of xid (rb_items (bm_right m))"
proof -
  have s: "rb_struct (bm_right m) (tree_of (bm_right m))"
    using m by (simp add: reqs_inv_def bm_inv_def rb_inv_def)
  have f: "eq_xapp_id_gen_wrapper (first_xapp_id xid) k' = Inr (xid = xr_xapp_id k')" for k'
    by (simp add: eq_xapp_id_gen_wrapper_def first_xapp_id_def)
  have se: "search (bm_right m) (first_xapp_id xid) eq_xapp_id_gen_wrapper =
      Inr (first_addr (t_dummy (bm_right m))
        (dropWhile (\<lambda>e. \<not> xid = xr_xapp_id (it_key e)) (rb_items (bm_right m))))"
    using find_if_rb_ok [OF s, of eq_xapp_id_gen_wrapper "first_xapp_id xid" "\<lambda>k. xid = xr_xapp_id k"]
      rb_front_ok [OF s] f by (simp add: rb_items_def assoc_rb_tree_end_def)
  have "length (rb_items (bm_right m)) \<le> t_size (bm_right m)" using s by (simp add: rb_struct_def rb_items_def)
  then have "\<exists>arr. subs_loop (t_size (bm_right m)) (bm_right m) (first_addr (t_dummy (bm_right m))
      (dropWhile (\<lambda>e. \<not> xid = xr_xapp_id (it_key e)) (rb_items (bm_right m)))) (first_xapp_id xid)
      (seq_arr_init E2_NODE_RIC_ID_SZ) = Inr arr \<and> arr_inv arr \<and> arr_list arr = [] @ subs_of xid (rb_items (bm_right m))"
    using subs_loop_ok [OF s, of "[]" "rb_items (bm_right m)" "t_size (bm_right m)" "seq_arr_init E2_NODE_RIC_ID_SZ" xid]
      seq_arr_init_inv [of E2_NODE_RIC_ID_SZ]
    by (simp add: rb_items_def E2_NODE_RIC_ID_SZ_def) (simp add: seq_arr_init_def)
  with se show ?thesis
    by (simp add: find_all_subs_map_ric_id_def Let_def)
qed

text \<open>E2 nodes: a node is the same as another when \<open>eq_global_e2_node_id\<close> says so.\<close>

abbreviation same_node :: "global_e2_node_id \<Rightarrow> global_e2_node_id \<Rightarrow> bool" where
  "same_node a b \<equiv> node_id_rank a = node_id_rank b"

lemma nodes_valid:
  assumes "nodes_inv m" "(i, s) \<in> pairs_of m"
  shows "valid_node_id i"
  using assms valid_kvs [of cmp_global_e2_node_id valid_node_id node_id_rank "bm_left m" i s]
  by (simp add: nodes_inv_def bm_inv_def pairs_of_def)

lemma nodes_unique:
  assumes "nodes_inv m" "(a, b) \<in> pairs_of m" "(a', b') \<in> pairs_of m"
  shows "same_node a a' \<longleftrightarrow> (a, b) = (a', b')" "si_addr b = si_addr b' \<longleftrightarrow> (a, b) = (a', b')"
  using bm_pairs_unique [of cmp_global_e2_node_id valid_node_id node_id_rank cmp_sctp
      "\<lambda>_. True" sctp_rank m a b a' b'] assms
  by (simp_all add: nodes_inv_def sctp_rank_addr)

lemma add_map_e2_node_sad_ok:
  assumes "nodes_inv m" "valid_node_id i"
    "\<forall>(j, t) \<in> pairs_of m. \<not> same_node j i \<and> si_addr t \<noteq> si_addr s"
  shows "\<exists>m'. add_map_e2_node_sad m i s = Inr m' \<and> nodes_inv m' \<and> pairs_of m' = insert (i, s) (pairs_of m)"
proof -
  have "node_id_rank i \<notin> node_id_rank ` fst ` pairs_of m" "sctp_rank s \<notin> sctp_rank ` snd ` pairs_of m"
    using assms(3) by (force simp: sctp_rank_addr)+
  with assms(1,2) show ?thesis
    using nodes.bi_map_insert_ok [of m i s NODE_ID_SZ SCTP_INFO_SZ]
    by (auto simp: nodes_inv_def add_map_e2_node_sad_def Let_def NODE_ID_SZ_def SCTP_INFO_SZ_def)
qed

lemma find_map_e2_node_sad_ok:
  assumes m: "nodes_inv m" and i: "valid_node_id i"
  shows "if \<exists>(j, s) \<in> pairs_of m. same_node j i
    then \<exists>(j, s) \<in> pairs_of m. same_node j i \<and> find_map_e2_node_sad m i = Inr s
    else find_map_e2_node_sad m i = Inl AssertFailed"
proof -
  have inv: "nodes.inv m" using m by (simp add: nodes_inv_def)
  have f: "eq_global_e2_node_id i j = Inr (node_id_rank i = node_id_rank j)" if "(j, s) \<in> pairs_of m" for j s
    using nodes_valid [OF m that] i by (rule node_id.eq_law [rotated])
  obtain it where it: "search (bm_left m) i eq_global_e2_node_id = Inr it"
    "if it = assoc_rb_tree_end (bm_left m) then \<forall>(a, b) \<in> pairs_of m. \<not> same_node i a
     else \<exists>a b. (a, b) \<in> pairs_of m \<and> same_node i a \<and> assoc_rb_tree_value (bm_left m) it = Inr b"
    using nodes.search_left [OF inv, of eq_global_e2_node_id i "\<lambda>j. same_node i j"] f by blast
  show ?thesis
  proof (cases "it = assoc_rb_tree_end (bm_left m)")
    case True
    with it(2) have "\<not> (\<exists>(j, s) \<in> pairs_of m. same_node j i)" by fastforce
    then show ?thesis using it(1) True by (simp add: find_map_e2_node_sad_def)
  next
    case False
    with it(2) obtain a b where "(a, b) \<in> pairs_of m" "same_node i a"
      "assoc_rb_tree_value (bm_left m) it = Inr b" by auto
    then show ?thesis using it(1) False
      by (auto simp: find_map_e2_node_sad_def intro!: bexI [of _ "(a, b)"])
  qed
qed

lemma find_map_e2_node_sad_in:
  assumes m: "nodes_inv m" and p: "(i, s) \<in> pairs_of m"
  shows "find_map_e2_node_sad m i = Inr s"
proof -
  from find_map_e2_node_sad_ok [OF m nodes_valid [OF m p]] p obtain j t where
    "(j, t) \<in> pairs_of m" "same_node j i" "find_map_e2_node_sad m i = Inr t"
    by (auto split: if_splits)
  with nodes_unique(1) [OF m _ p] show ?thesis by blast
qed

lemma rm_map_sad_e2_node_ok:
  assumes m: "nodes_inv m" and p: "(i, s) \<in> pairs_of m" "si_addr s' = si_addr s"
  shows "\<exists>m'. rm_map_sad_e2_node m s' = Inr (i, m') \<and> nodes_inv m' \<and> pairs_of m' = pairs_of m - {(i, s)}"
  using nodes.bi_map_extract_right_ok [where bm = m and key = s' and a = i and b = s and sz = SCTP_INFO_SZ] assms
  by (auto simp: rm_map_sad_e2_node_def nodes_inv_def sctp_rank_addr)

lemma rm_map_e2_node_sad_ok:
  assumes m: "nodes_inv m" and p: "(i, s) \<in> pairs_of m"
  shows "\<exists>m'. rm_map_e2_node_sad m i = Inr (s, m') \<and> nodes_inv m' \<and> pairs_of m' = pairs_of m - {(i, s)}"
  using nodes.bi_map_extract_left_ok [where bm = m and key = i and a = i and b = s and sz = NODE_ID_SZ]
    assms nodes_valid [OF assms]
  by (auto simp: rm_map_e2_node_sad_def nodes_inv_def)

text \<open>xApps.\<close>

lemma uint_singleton: "[uint (v :: u16)] = [uint w] \<longleftrightarrow> v = w"
  by simp

lemma xapps_unique:
  assumes "xapps_inv m" "(a, b) \<in> pairs_of m" "(a', b') \<in> pairs_of m"
  shows "a = a' \<longleftrightarrow> (a, b) = (a', b')" "si_addr b = si_addr b' \<longleftrightarrow> (a, b) = (a', b')"
  using bm_pairs_unique [of cmp_uint16_wrapper "\<lambda>_. True" "\<lambda>w. [uint w]" cmp_sctp
      "\<lambda>_. True" sctp_rank m a b a' b'] assms
  by (simp_all add: xapps_inv_def sctp_rank_addr)

lemma search_xapp:
  assumes m: "xapps_inv m"
  shows "\<exists>it. search (bm_left m) x eq_uint16_wrapper = Inr it \<and>
    (if it = assoc_rb_tree_end (bm_left m) then x \<notin> fst ` pairs_of m
     else \<exists>s. (x, s) \<in> pairs_of m \<and> assoc_rb_tree_value (bm_left m) it = Inr s)"
proof -
  have inv: "xapps.inv m" using m by (simp add: xapps_inv_def)
  obtain it where "search (bm_left m) x eq_uint16_wrapper = Inr it"
    "if it = assoc_rb_tree_end (bm_left m) then \<forall>(a, b) \<in> pairs_of m. \<not> x = a
     else \<exists>a b. (a, b) \<in> pairs_of m \<and> x = a \<and> assoc_rb_tree_value (bm_left m) it = Inr b"
    using xapps.search_left [OF inv, of eq_uint16_wrapper x "\<lambda>a. x = a"]
    by (auto simp: eq_uint16_wrapper_def )
  then show ?thesis by (intro exI [of _ it]) (auto split: if_splits)
qed

lemma find_map_xapps_sad_ok:
  assumes m: "xapps_inv m"
  shows "(x, s) \<in> pairs_of m \<Longrightarrow> find_map_xapps_sad m x = Inr s"
    "x \<notin> fst ` pairs_of m \<Longrightarrow> find_map_xapps_sad m x = Inl AssertFailed"
proof -
  obtain it where it: "search (bm_left m) x eq_uint16_wrapper = Inr it"
    "if it = assoc_rb_tree_end (bm_left m) then x \<notin> fst ` pairs_of m
     else \<exists>s. (x, s) \<in> pairs_of m \<and> assoc_rb_tree_value (bm_left m) it = Inr s"
    using search_xapp [OF m] by blast
  show "find_map_xapps_sad m x = Inr s" if p: "(x, s) \<in> pairs_of m"
  proof -
    have "it \<noteq> assoc_rb_tree_end (bm_left m)" using it(2) p by force
    with it(2) obtain t where "(x, t) \<in> pairs_of m" "assoc_rb_tree_value (bm_left m) it = Inr t" by auto
    moreover from this(1) xapps_unique(1) [OF m p] have "t = s" by blast
    ultimately show ?thesis
      using it(1) \<open>it \<noteq> _\<close> by (simp add: find_map_xapps_sad_def Let_def)
  qed
  show "find_map_xapps_sad m x = Inl AssertFailed" if "x \<notin> fst ` pairs_of m"
    using it that by (auto simp: find_map_xapps_sad_def Let_def rev_image_eqI split: if_splits)
qed

lemma add_map_xapps_sad_ok:
  assumes m: "xapps_inv m" and new: "x \<notin> fst ` pairs_of m" "si_addr s \<notin> si_addr ` snd ` pairs_of m"
  shows "\<exists>m'. add_map_xapps_sad m x s = Inr m' \<and> xapps_inv m' \<and> pairs_of m' = insert (x, s) (pairs_of m)"
proof -
  have "search (bm_left m) x eq_uint16_wrapper = Inr (assoc_rb_tree_end (bm_left m))"
    using search_xapp [OF m, of x] new(1) by (force split: if_splits )
  moreover have "[uint x] \<notin> (\<lambda>w. [uint w]) ` fst ` pairs_of m" "sctp_rank s \<notin> sctp_rank ` snd ` pairs_of m"
    using new by (auto simp: sctp_rank_addr image_iff)
  ultimately show ?thesis
    using xapps.bi_map_insert_ok [of m x s 2 SCTP_INFO_SZ] m
    by (auto simp: xapps_inv_def add_map_xapps_sad_def Let_def SCTP_INFO_SZ_def )
qed

lemma find_map_xapps_xid_ok:
  assumes m: "xapps_inv m" and p: "(x, s) \<in> pairs_of m" "si_addr s' = si_addr s"
  shows "find_map_xapps_xid m s' = Inr x"
proof -
  have inv: "xapps.inv m" using m by (simp add: xapps_inv_def)
  have f: "eq_sctp s' t = Inr (si_addr s' = si_addr t)" for t
    using sctp.eq_law [of s' t] by (simp add: sctp_rank_addr)
  from xapps.search_right [OF inv, of eq_sctp s' "\<lambda>t. si_addr s' = si_addr t"] f p
  obtain it y t where "search (bm_right m) s' eq_sctp = Inr it" "it \<noteq> assoc_rb_tree_end (bm_right m)"
    "(y, t) \<in> pairs_of m" "si_addr s' = si_addr t" "assoc_rb_tree_value (bm_right m) it = Inr y"
    by (auto )
  moreover from this(3,4) xapps_unique(2) [OF m p(1)] p(2) have "y = x" by (metis prod.inject)
  ultimately show ?thesis by (simp add: find_map_xapps_xid_def Let_def)
qed

section \<open>Properties\<close>

text \<open>A RIC request with number \<open>q\<close> for RAN function 142, and the request of an xApp.\<close>

definition sample_req :: "u32 \<Rightarrow> e2_node_ric_id" where
  "sample_req q = \<lparr>en_e2_node_id = sample_gnb 1, en_ric_id = \<lparr>ric_req_id = q, ric_inst_id = 0, ran_func_id = 142\<rparr>,
     en_ric_req_type = SUBSCRIPTION_RIC_REQUEST_TYPE\<rparr>"

definition sample_xreq :: "u16 \<Rightarrow> u32 \<Rightarrow> xapp_ric_id" where
  "sample_xreq x q = \<lparr>xr_ric_id = \<lparr>ric_req_id = q, ric_inst_id = 0, ran_func_id = 142\<rparr>, xr_xapp_id = x\<rparr>"

lemma map_ric_id_sample:
  obtains m where "reqs_inv m"
    "pairs_of m = {(sample_req 1021, sample_xreq 7 1), (sample_req 1022, sample_xreq 8 1)}"
proof -
  obtain m0 where m0: "reqs_inv m0" "pairs_of m0 = {}" using init_map_ric_id_ok by blast
  obtain m1 where m1: "reqs_inv m1" "pairs_of m1 = {(sample_req 1022, sample_xreq 8 1)}"
    using add_map_ric_id_ok [OF m0(1), of "sample_req 1022" "sample_xreq 8 1"] m0(2) by auto
  obtain m2 where "reqs_inv m2"
    "pairs_of m2 = {(sample_req 1021, sample_xreq 7 1), (sample_req 1022, sample_xreq 8 1)}"
    using add_map_ric_id_ok [OF m1(1), of "sample_req 1021" "sample_xreq 7 1"] m1(2)
    by (auto simp: sample_req_def sample_xreq_def)
  then show ?thesis by (rule that)
qed

text \<open>C23: after a request of an xApp was entered under a fresh number, looking this number up
  gives that request and every other number gives what it gave before; entering a second request
  under the same number aborts, and removing the request takes exactly it out.\<close>

theorem map_ric_id_round_trip:
  assumes m: "reqs_inv m" and new: "\<forall>(a, b) \<in> pairs_of m. req_no a \<noteq> req_no n \<and> b \<noteq> x"
    and q: "0 < q" "req_no n = ucast q"
  shows "\<exists>m'. add_map_ric_id m n x = Inr m' \<and> reqs_inv m' \<and>
    find_xapp_map_ric_id m' q = Inr (Some x) \<and>
    (\<forall>p. 0 < p \<and> p \<noteq> q \<longrightarrow> find_xapp_map_ric_id m' p = find_xapp_map_ric_id m p) \<and>
    (\<forall>x'. add_map_ric_id m' n x' = Inl AssertFailed) \<and>
    (\<exists>m''. rm_map_ric_id m' x = Inr m'' \<and> pairs_of m'' = pairs_of m)"
proof -
  obtain m' where m': "add_map_ric_id m n x = Inr m'" "reqs_inv m'" "pairs_of m' = insert (n, x) (pairs_of m)"
    using add_map_ric_id_ok [OF m new] by blast
  have mem: "(n, x) \<in> pairs_of m'" "(n, x) \<notin> pairs_of m" using m'(3) new by auto
  have "find_xapp_map_ric_id m' q = Inr (Some x)"
  proof -
    from find_xapp_map_ric_id_ok [OF m'(2) q(1)] mem(1) q(2) obtain n' x' where
      "(n', x') \<in> pairs_of m'" "req_no n' = req_no n" "find_xapp_map_ric_id m' q = Inr (Some x')"
      by (auto split: if_splits)
    with req_unique(1) [OF m'(2) _ mem(1)] show ?thesis by blast
  qed
  moreover have "find_xapp_map_ric_id m' p = find_xapp_map_ric_id m p" if p: "0 < p" "p \<noteq> q" for p
  proof -
    have pq: "(ucast p :: u32) \<noteq> ucast q"
      using p(2) by (simp add: ucast_16_32_inj)
    show ?thesis
    proof (cases "\<exists>(n', x') \<in> pairs_of m. req_no n' = ucast p")
      case True
      with find_xapp_map_ric_id_ok [OF m p(1)] obtain n1 x1 where 1: "(n1, x1) \<in> pairs_of m"
        "req_no n1 = ucast p" "find_xapp_map_ric_id m p = Inr (Some x1)" by auto
      with m'(3) find_xapp_map_ric_id_ok [OF m'(2) p(1)] obtain n2 x2 where 2: "(n2, x2) \<in> pairs_of m'"
        "req_no n2 = ucast p" "find_xapp_map_ric_id m' p = Inr (Some x2)" by (auto split: if_splits)
      have "(n1, x1) \<in> pairs_of m'" using 1(1) m'(3) by simp
      from req_unique(1) [OF m'(2) 2(1) this] 1(2) 2(2) have "x1 = x2" by simp
      with 1(3) 2(3) show ?thesis by simp
    next
      case False
      with m'(3) q(2) pq have "\<not> (\<exists>(n', x') \<in> pairs_of m'. req_no n' = ucast p)" by auto
      with False find_xapp_map_ric_id_ok [OF m p(1)] find_xapp_map_ric_id_ok [OF m'(2) p(1)]
      show ?thesis by simp
    qed
  qed
  moreover have "add_map_ric_id m' n x' = Inl AssertFailed" for x'
    using add_map_ric_id_used [OF m'(2) mem(1)] by simp
  moreover have "\<exists>m''. rm_map_ric_id m' x = Inr m'' \<and> pairs_of m'' = pairs_of m"
    using rm_map_ric_id_ok [OF m'(2) mem(1)] m'(3) mem(2) by auto
  ultimately show ?thesis using m'(1,2) by blast
qed

theorem map_ric_id_round_trip_witness:
  "\<exists>m m'. pairs_of m = {(sample_req 1021, sample_xreq 7 1), (sample_req 1022, sample_xreq 8 1)} \<and>
     add_map_ric_id m (sample_req 1023) (sample_xreq 9 1) = Inr m' \<and>
     find_xapp_map_ric_id m' 1023 = Inr (Some (sample_xreq 9 1))"
proof -
  obtain m where m: "reqs_inv m"
    "pairs_of m = {(sample_req 1021, sample_xreq 7 1), (sample_req 1022, sample_xreq 8 1)}"
    by (rule map_ric_id_sample)
  from map_ric_id_round_trip [OF m(1), of "sample_req 1023" "sample_xreq 9 1" 1023] m(2) show ?thesis
    by (auto simp: sample_req_def sample_xreq_def)
qed

text \<open>C24: when two xApps use the same RIC identifier for a request (each numbers its own
  requests from 1), the look-up for the second one answers with a request of another xApp, so
  that deleting its subscription deletes the other's.\<close>

theorem find_ric_req_wrong_xapp:
  assumes m: "reqs_inv m" and p: "(n1, x1) \<in> pairs_of m" "(n2, x2) \<in> pairs_of m"
    and x: "xr_ric_id x1 = xr_ric_id x2" "xr_xapp_id x1 < xr_xapp_id x2"
  shows "\<exists>n x. find_ric_req_map_ric_id m x2 = Inr n \<and> (n, x) \<in> pairs_of m \<and>
    xr_xapp_id x \<noteq> xr_xapp_id x2 \<and> req_no n \<noteq> req_no n2"
proof -
  from find_ric_req_first [OF m, of x2] p(2) obtain n b where n: "(n, b) \<in> pairs_of m"
    "find_ric_req_map_ric_id m x2 = Inr n"
    "\<forall>(n', b') \<in> pairs_of m. xr_ric_id b' = xr_ric_id x2 \<longrightarrow> xr_xapp_id b \<le> xr_xapp_id b'" by blast
  from n(3) p(1) x have "xr_xapp_id b < xr_xapp_id x2" by fastforce
  then have "xr_xapp_id b \<noteq> xr_xapp_id x2" by simp
  moreover from this req_unique(1) [OF m n(1) p(2)] have "req_no n \<noteq> req_no n2" by auto
  ultimately show ?thesis using n(1,2) by blast
qed

theorem find_ric_req_wrong_xapp_witness:
  "\<exists>m n. pairs_of m = {(sample_req 1021, sample_xreq 7 1), (sample_req 1022, sample_xreq 8 1)} \<and>
     find_ric_req_map_ric_id m (sample_xreq 8 1) = Inr n \<and> n \<noteq> sample_req 1022"
proof -
  obtain m where m: "reqs_inv m"
    "pairs_of m = {(sample_req 1021, sample_xreq 7 1), (sample_req 1022, sample_xreq 8 1)}"
    by (rule map_ric_id_sample)
  from find_ric_req_wrong_xapp [OF m(1), of "sample_req 1021" "sample_xreq 7 1" "sample_req 1022" "sample_xreq 8 1"]
  obtain n where "find_ric_req_map_ric_id m (sample_xreq 8 1) = Inr n" "req_no n \<noteq> req_no (sample_req 1022)"
    using m(2) by (auto simp: sample_xreq_def)
  with m(2) show ?thesis by (intro exI [of _ m] exI [of _ n]) auto
qed

text \<open>when an xApp disconnects, \<open>find_all_subs_map_ric_id\<close> collects each of its
  subscriptions exactly once and nothing else.\<close>

theorem find_all_subs_exact:
  assumes m: "reqs_inv m"
  shows "\<exists>arr. find_all_subs_map_ric_id m xid = Inr arr \<and> distinct (arr_list arr) \<and>
    set (arr_list arr) = {n. \<exists>x. (n, x) \<in> pairs_of m \<and> xr_xapp_id x = xid \<and>
      en_ric_req_type n = SUBSCRIPTION_RIC_REQUEST_TYPE}"
proof -
  let ?es = "rb_items (bm_right m)"
  obtain arr where arr: "find_all_subs_map_ric_id m xid = Inr arr" "arr_list arr = subs_of xid ?es"
    using find_all_subs_ok [OF m] by blast
  have p: "kvs ?es = (pairs_of m)\<inverse>" and d: "distinct (ranks xapp_ric_rank ?es)"
    using m by (simp_all add: reqs_inv_def bm_inv_def pairs_of_def)
  have mem: "(n, x) \<in> pairs_of m \<longleftrightarrow> (\<exists>a. (a, x, n) \<in> set ?es)" for n x
    using p kvs_elem [of x n ?es] by auto
  have "inj_on (\<lambda>e. snd (snd e)) (set ?es)"
  proof (rule inj_onI)
    fix e f assume ef: "e \<in> set ?es" "f \<in> set ?es" "snd (snd e) = snd (snd f)"
    then have "(snd (snd e), it_key e) \<in> pairs_of m" "(snd (snd f), it_key f) \<in> pairs_of m"
      using mem by (metis prod.collapse)+
    with req_unique(1) [OF m] ef(3) have "it_key e = it_key f" by (metis prod.inject)
    with d ef show "e = f" unfolding ranks_def by (metis distinct_map inj_onD)
  qed
  moreover have "distinct ?es" using d unfolding ranks_def by (simp add: distinct_map)
  ultimately have "distinct (arr_list arr)"
    unfolding arr(2) subs_of_def by (auto simp: distinct_map intro: inj_on_subset)
  moreover have "set (arr_list arr) = {n. \<exists>x. (n, x) \<in> pairs_of m \<and> xr_xapp_id x = xid \<and>
      en_ric_req_type n = SUBSCRIPTION_RIC_REQUEST_TYPE}"
    unfolding arr(2) subs_of_def mem by (force simp: image_iff)
  ultimately show ?thesis using arr(1) by blast
qed

theorem find_all_subs_exact_witness:
  "\<exists>m arr. pairs_of m = {(sample_req 1021, sample_xreq 7 1), (sample_req 1022, sample_xreq 8 1)} \<and>
     find_all_subs_map_ric_id m 7 = Inr arr \<and> set (arr_list arr) = {sample_req 1021}"
proof -
  obtain m where m: "reqs_inv m"
    "pairs_of m = {(sample_req 1021, sample_xreq 7 1), (sample_req 1022, sample_xreq 8 1)}"
    by (rule map_ric_id_sample)
  from find_all_subs_exact [OF m(1), of 7] obtain arr where arr: "find_all_subs_map_ric_id m 7 = Inr arr"
    "set (arr_list arr) = {n. \<exists>x. (n, x) \<in> pairs_of m \<and> xr_xapp_id x = 7 \<and>
      en_ric_req_type n = SUBSCRIPTION_RIC_REQUEST_TYPE}" by blast
  have "set (arr_list arr) = {sample_req 1021}"
    unfolding arr(2) m(2) by (auto simp: sample_xreq_def) (simp add: sample_req_def)
  with arr(1) m(2) show ?thesis by blast
qed

text \<open>once an E2 node is registered, what is sent to it goes to its endpoint; when that
  endpoint shuts down, the node is found by it and both are forgotten.\<close>

theorem map_e2_node_sad_round_trip:
  assumes m: "nodes_inv m" "valid_node_id i"
    and new: "\<forall>(j, t) \<in> pairs_of m. \<not> same_node j i \<and> si_addr t \<noteq> si_addr s"
  shows "\<exists>m' m''. add_map_e2_node_sad m i s = Inr m' \<and> find_map_e2_node_sad m' i = Inr s \<and>
    (\<forall>(j, t) \<in> pairs_of m. find_map_e2_node_sad m' j = Inr t) \<and>
    rm_map_sad_e2_node m' s = Inr (i, m'') \<and> nodes_inv m'' \<and> pairs_of m'' = pairs_of m \<and>
    find_map_e2_node_sad m'' i = Inl AssertFailed"
proof -
  obtain m' where m': "add_map_e2_node_sad m i s = Inr m'" "nodes_inv m'" "pairs_of m' = insert (i, s) (pairs_of m)"
    using add_map_e2_node_sad_ok [OF m new] by blast
  then have mem: "(i, s) \<in> pairs_of m'" and nm: "(i, s) \<notin> pairs_of m" using new by auto
  obtain m'' where m'': "rm_map_sad_e2_node m' s = Inr (i, m'')" "nodes_inv m''"
    "pairs_of m'' = pairs_of m' - {(i, s)}" using rm_map_sad_e2_node_ok [OF m'(2) mem refl] by blast
  then have p: "pairs_of m'' = pairs_of m" using m'(3) nm by simp
  have "\<not> (\<exists>(j, t) \<in> pairs_of m''. same_node j i)" using new p by auto
  then have "find_map_e2_node_sad m'' i = Inl AssertFailed"
    using find_map_e2_node_sad_ok [OF m''(2) m(2)] by simp
  with m' m'' p find_map_e2_node_sad_in [OF m'(2)] show ?thesis by blast
qed

definition sample_sctp :: "u16 \<Rightarrow> sctp_info" where
  "sample_sctp port = \<lparr>si_addr = \<lparr>sin_family = 2, sin_port = port, s_addr = 2130706433\<rparr>,
     si_sri = \<lparr>sinfo_stream = 0, sinfo_ssn = 0, sinfo_flags = 0, sinfo_ppid = 0, sinfo_context = 0,
       sinfo_timetolive = 0, sinfo_tsn = 0, sinfo_cumtsn = 0, sinfo_assoc_id = 1\<rparr>\<rparr>"

theorem map_e2_node_sad_round_trip_witness:
  "\<exists>m m' m''. init_map_e2_node_sad = Inr m \<and> add_map_e2_node_sad m (sample_du 3) (sample_sctp 36421) = Inr m' \<and>
     find_map_e2_node_sad m' (sample_du 3) = Inr (sample_sctp 36421) \<and>
     rm_map_sad_e2_node m' (sample_sctp 36421) = Inr (sample_du 3, m'')"
proof -
  obtain m where m: "init_map_e2_node_sad = Inr m" "nodes_inv m" "pairs_of m = {}"
    using init_map_e2_node_sad_ok by blast
  from map_e2_node_sad_round_trip [OF m(2), of "sample_du 3" "sample_sctp 36421"] m(1,3) show ?thesis
    by auto
qed

end
