(* ===== verification/Pending_Events.thy ===== *)
theory Pending_Events
  imports Iapp_Maps
begin

text \<open>
  The events a component waits for (\<open>lib/pending_events.c\<close>), the ones of the RIC with the request
  they belong to (\<open>lib/pending_event_ric.c\<close>), and the map of the RIC between the timer of a pending
  event and the event (\<open>pending\<close> of \<open>ric/near_ric.h\<close>): the file descriptor of the timer on the
  left, the event on the right.
\<close>

declare bind_res_eq_Inr [simp del]

section \<open>Events\<close>

datatype pending_event =
    SETUP_REQUEST_PENDING_EVENT | CONTROL_REQUEST_AGENT_PENDING_EVENT
  | SUBSCRIPTION_REQUEST_PENDING_EVENT | SUBSCRIPTION_DELETE_REQUEST_PENDING_EVENT
  | CONTROL_REQUEST_PENDING_EVENT
  | E42_SETUP_REQUEST_PENDING_EVENT | E42_RIC_SUBSCRIPTION_REQUEST_PENDING_EVENT
  | RIC_SUBSCRIPTION_DELETE_REQUEST_PENDING_EVENT | E42_RIC_SUBSCRIPTION_DELETE_REQUEST_PENDING_EVENT
  | E42_RIC_CONTROL_REQUEST_PENDING_EVENT

text \<open>The value of the enumeration constant.\<close>

primrec pending_event_val :: "pending_event \<Rightarrow> int" where
  "pending_event_val SETUP_REQUEST_PENDING_EVENT = 0"
| "pending_event_val CONTROL_REQUEST_AGENT_PENDING_EVENT = 1"
| "pending_event_val SUBSCRIPTION_REQUEST_PENDING_EVENT = 2"
| "pending_event_val SUBSCRIPTION_DELETE_REQUEST_PENDING_EVENT = 3"
| "pending_event_val CONTROL_REQUEST_PENDING_EVENT = 4"
| "pending_event_val E42_SETUP_REQUEST_PENDING_EVENT = 5"
| "pending_event_val E42_RIC_SUBSCRIPTION_REQUEST_PENDING_EVENT = 6"
| "pending_event_val RIC_SUBSCRIPTION_DELETE_REQUEST_PENDING_EVENT = 7"
| "pending_event_val E42_RIC_SUBSCRIPTION_DELETE_REQUEST_PENDING_EVENT = 8"
| "pending_event_val E42_RIC_CONTROL_REQUEST_PENDING_EVENT = 9"

definition cmp_pending_event :: "pending_event \<Rightarrow> pending_event \<Rightarrow> int" where
  "cmp_pending_event ev1 ev2 =
     (if pending_event_val ev1 < pending_event_val ev2 then 1
      else if ev1 = ev2 then 0 else -1)"

definition valid_pending_event :: "pending_event \<Rightarrow> bool res" where
  "valid_pending_event ev =
     c_assert (ev = SETUP_REQUEST_PENDING_EVENT \<or> ev = SUBSCRIPTION_REQUEST_PENDING_EVENT \<or>
        ev = SUBSCRIPTION_DELETE_REQUEST_PENDING_EVENT \<or> ev = E42_SETUP_REQUEST_PENDING_EVENT)
      (Inr True)"

record pending_event_ric =
  pe_ev :: pending_event
  pe_id :: ric_gen_id

definition cmp_pending_event_ric :: "pending_event_ric \<Rightarrow> pending_event_ric \<Rightarrow> int res" where
  "cmp_pending_event_ric p1 p2 =
     (let cmp_ev = cmp_pending_event (pe_ev p1) (pe_ev p2) in
      if cmp_ev \<noteq> 0 then Inr cmp_ev else cmp_ric_gen_id (pe_id p1) (pe_id p2))"

definition eq_pending_event_ric :: "pending_event_ric \<Rightarrow> pending_event_ric \<Rightarrow> bool res" where
  "eq_pending_event_ric p1 p2 = map_res (\<lambda>c. c = 0) (cmp_pending_event_ric p1 p2)"

lemma pending_event_val_inj: "pending_event_val a = pending_event_val b \<longleftrightarrow> a = b"
  by (cases a; cases b) simp_all

definition pending_event_rank :: "pending_event_ric \<Rightarrow> int list" where
  "pending_event_rank p = pending_event_val (pe_ev p) # ric_gen_rank (pe_id p)"

interpretation pend_ev: comparator_eq cmp_pending_event_ric "\<lambda>_. True" pending_event_rank eq_pending_event_ric
  by unfold_locales
     (auto simp: cmp_pending_event_ric_def cmp_pending_event_def pending_event_rank_def
        eq_pending_event_ric_def ric_gen.comp_law pending_event_val_inj)

lemma pending_event_rank_inj: "pending_event_rank p = pending_event_rank q \<longleftrightarrow> p = q"
  by (auto simp: pending_event_rank_def pending_event_val_inj ric_gen_rank_inj intro: pending_event_ric.equality)

lemma eq_pending_event_ric_eq: "eq_pending_event_ric p q = Inr (p = q)"
  using pend_ev.eq_law [of p q] by (simp add: pending_event_rank_inj)

section \<open>The map of the RIC\<close>

type_synonym pending_ric = "(int, pending_event_ric) bi_map"

definition EVENT_SZ :: nat where
  "EVENT_SZ = 12"

definition init_pending_events :: "pending_ric res" where
  "init_pending_events = bi_map_init 4 EVENT_SZ cmp_fd cmp_pending_event_ric True"

text \<open>The two functions the map releases its entries with: key of the left and of the right tree.\<close>

definition free_fd :: "int \<Rightarrow> unit res" where
  "free_fd fd = c_assert (fd > 0) (Inr ())"

definition free_pending_ev_ric :: "pending_event_ric \<Rightarrow> unit res" where
  "free_pending_ev_ric ev = bind_res (valid_pending_event (pe_ev ev)) (\<lambda>b. c_assert b (Inr ()))"

interpretation pends: bimap_cmp cmp_fd "\<lambda>fd. fd > -1" "\<lambda>fd. [fd]"
    cmp_pending_event_ric "\<lambda>_. True" pending_event_rank
  by (intro bimap_cmp.intro fd.comparator_axioms pend_ev.comparator_axioms)

definition pends_inv :: "pending_ric \<Rightarrow> bool" where
  "pends_inv m \<longleftrightarrow> pends.inv m \<and> t_key_sz (bm_left m) = 4 \<and> t_key_sz (bm_right m) = EVENT_SZ \<and>
     bm_right_free m"

lemma init_pending_events_ok: "\<exists>m. init_pending_events = Inr m \<and> pends_inv m \<and> pairs_of m = {}"
  using pends.bi_map_init_ok [of 4 EVENT_SZ True]
  by (simp add: init_pending_events_def pends_inv_def EVENT_SZ_def) blast

lemma pends_fd: "pends_inv m \<Longrightarrow> (fd, ev) \<in> pairs_of m \<Longrightarrow> fd > -1"
  using valid_kvs [of cmp_fd "\<lambda>fd. fd > -1" "\<lambda>fd. [fd]" "bm_left m" fd ev]
  by (simp add: pends_inv_def bm_inv_def pairs_of_def)

lemma pends_unique:
  assumes "pends_inv m" "(a, b) \<in> pairs_of m" "(a', b') \<in> pairs_of m"
  shows "a = a' \<longleftrightarrow> (a, b) = (a', b')" "b = b' \<longleftrightarrow> (a, b) = (a', b')"
  using bm_pairs_unique [of cmp_fd "\<lambda>fd. fd > -1" "\<lambda>fd. [fd]" cmp_pending_event_ric
      "\<lambda>_. True" pending_event_rank m a b a' b'] assms
  by (simp_all add: pends_inv_def pending_event_rank_inj)

lemma pending_insert_ok:
  assumes "pends_inv m" "fd > -1" "fd \<notin> fst ` pairs_of m" "ev \<notin> snd ` pairs_of m"
  shows "\<exists>m'. bi_map_insert m fd 4 ev EVENT_SZ = Inr m' \<and> pends_inv m' \<and>
    pairs_of m' = insert (fd, ev) (pairs_of m)"
proof -
  have "[fd] \<notin> (\<lambda>fd. [fd]) ` fst ` pairs_of m" "pending_event_rank ev \<notin> pending_event_rank ` snd ` pairs_of m"
    using assms(3,4) by (auto simp: pending_event_rank_inj image_iff)
  with assms show ?thesis
    using pends.bi_map_insert_ok [of m fd ev 4 EVENT_SZ]
    by (auto simp: pends_inv_def EVENT_SZ_def)
qed

lemma pending_extract_ok:
  assumes m: "pends_inv m" and p: "(fd, ev) \<in> pairs_of m"
  shows "\<exists>m'. bi_map_extract_right m ev EVENT_SZ = Inr (fd, m') \<and> pends_inv m' \<and>
    pairs_of m' = pairs_of m - {(fd, ev)}"
  using pends.bi_map_extract_right_ok [where bm = m and key = ev and a = fd and b = ev and sz = EVENT_SZ]
    assms pends_fd [OF assms] by (auto simp: pends_inv_def)

lemma pending_extract_missing:
  assumes m: "pends_inv m" and p: "ev \<notin> snd ` pairs_of m"
  shows "bi_map_extract_right m ev EVENT_SZ = Inl AssertFailed"
proof -
  have r: "rb_inv cmp_pending_event_ric (\<lambda>_. True) pending_event_rank (bm_right m)"
    and k: "kvs (rb_items (bm_right m)) = (pairs_of m)\<inverse>"
    using m by (simp_all add: pends_inv_def bm_inv_def pairs_of_def)
  have "rank \<noteq> pending_event_rank ev" if "rank \<in> (\<lambda>e. pending_event_rank (it_key e)) ` set (rb_items (bm_right m))" for rank
  proof -
    from that obtain e where e: "e \<in> set (rb_items (bm_right m))" "rank = pending_event_rank (it_key e)" by blast
    from kvs_item [OF e(1)] k have "it_key e \<in> snd ` pairs_of m" by force
    with p e(2) show ?thesis by (auto simp: pending_event_rank_inj)
  qed
  then have "assoc_rb_tree_extract (bm_right m) ev = Inl AssertFailed"
    using pend_ev.rb_extract_missing [OF r] by blast
  then show ?thesis by (simp add: bi_map_extract_right_def c_assert_def)
qed

lemma search_pending:
  assumes m: "pends_inv m"
  shows "\<exists>it. search (bm_right m) ev eq_pending_event_ric = Inr it \<and>
    (it = assoc_rb_tree_end (bm_right m) \<longleftrightarrow> ev \<notin> snd ` pairs_of m)"
proof -
  have inv: "pends.inv m" using m by (simp add: pends_inv_def)
  from pends.search_right [OF inv, of eq_pending_event_ric ev "\<lambda>q. ev = q", OF eq_pending_event_ric_eq]
  consider "search (bm_right m) ev eq_pending_event_ric = Inr (assoc_rb_tree_end (bm_right m))"
      "\<forall>(a, b) \<in> pairs_of m. \<not> ev = b"
    | it a where "(a, ev) \<in> pairs_of m" "search (bm_right m) ev eq_pending_event_ric = Inr it"
      "it \<noteq> assoc_rb_tree_end (bm_right m)"
    by blast
  then show ?thesis
  proof cases
    case 1
    then have "ev \<notin> snd ` pairs_of m" by auto
    with 1(1) show ?thesis by blast
  next
    case 2
    then have "ev \<in> snd ` pairs_of m" by force
    with 2 show ?thesis by blast
  qed
qed

lemma search_fd:
  assumes m: "pends_inv m" and fd: "fd > -1"
  shows "\<exists>it. search (bm_left m) fd eq_fd = Inr it \<and>
    (if it = assoc_rb_tree_end (bm_left m) then fd \<notin> fst ` pairs_of m
     else \<exists>ev. (fd, ev) \<in> pairs_of m \<and> assoc_rb_tree_value (bm_left m) it = Inr ev)"
proof -
  have inv: "pends.inv m" using m by (simp add: pends_inv_def)
  have f: "eq_fd fd a = Inr (fd = a)" if "(a, b) \<in> pairs_of m" for a b
    using pends_fd [OF m that] fd by (simp add: eq_fd_def)
  from pends.search_left [OF inv, of eq_fd fd "\<lambda>a. fd = a"] f obtain it where
    it: "search (bm_left m) fd eq_fd = Inr it"
    "if it = assoc_rb_tree_end (bm_left m) then \<forall>(a, b) \<in> pairs_of m. fd \<noteq> a
     else \<exists>a b. (a, b) \<in> pairs_of m \<and> fd = a \<and> assoc_rb_tree_value (bm_left m) it = Inr b" by blast
  show ?thesis by (intro exI [of _ it] conjI it(1)) (use it(2) in \<open>force split: if_splits\<close>)
qed

end
