(* ===== verification/Container_Loops.thy ===== *)
theory Container_Loops
  imports Ordered_Map Seq_Arr "HOL-Library.Multiset"
begin

text \<open>
  The two loops the program writes over its containers, \<open>while(it != end)\<close> over a tree and
  \<open>for(it = seq_front(a); it != seq_end(a); it = seq_next(a, it))\<close> over an array, with a body that
  may fail, and the walk that releases a whole tree (\<open>assoc_rb_tree_free\<close>). The lemmas reduce each
  of them to a fold over the contents.
\<close>

declare bind_res_eq_Inr [simp del]

section \<open>Loops over a tree\<close>

fun rb_for :: "nat \<Rightarrow> ('k, 'v) rb_tree \<Rightarrow> nat \<Rightarrow> ('k \<Rightarrow> 'v \<Rightarrow> 's \<Rightarrow> 's res) \<Rightarrow> 's \<Rightarrow> 's res" where
  "rb_for fuel T it body s =
     (if it = assoc_rb_tree_end T then Inr s
      else case fuel of 0 \<Rightarrow> Inl Diverged
      | Suc f \<Rightarrow>
          bind_res (assoc_rb_tree_key T it) (\<lambda>k.
          bind_res (assoc_rb_tree_value T it) (\<lambda>v.
          bind_res (body k v s) (\<lambda>s.
          bind_res (assoc_rb_tree_next T it) (\<lambda>it. rb_for f T it body s)))))"

declare rb_for.simps [simp del]

definition rb_for_all :: "('k, 'v) rb_tree \<Rightarrow> ('k \<Rightarrow> 'v \<Rightarrow> 's \<Rightarrow> 's res) \<Rightarrow> 's \<Rightarrow> 's res" where
  "rb_for_all T body s = bind_res (assoc_rb_tree_front T) (\<lambda>it. rb_for (t_size T) T it body s)"

lemma rb_for_ok:
  assumes s: "rb_struct T t"
  shows "items t = xs @ ys \<Longrightarrow> length ys \<le> fuel \<Longrightarrow>
    rb_for fuel T (first_addr (t_dummy T) ys) body st = fold_res (\<lambda>(a, k, v). body k v) ys st"
proof (induction ys arbitrary: xs fuel st)
  case Nil
  then show ?case by (simp add: rb_for.simps first_addr_def assoc_rb_tree_end_def)
next
  case (Cons e ys)
  obtain a k v where e: "e = (a, k, v)" by (cases e)
  have mem: "(a, k, v) \<in> set (items t)" using Cons.prems by (simp add: e)
  obtain f' where f': "fuel = Suc f'" using Cons.prems by (cases fuel) auto
  have "a \<noteq> t_dummy T" using rb_rd_item [OF s mem] by auto
  moreover have "assoc_rb_tree_next T a = Inr (first_addr (t_dummy T) ys)"
    using rb_next_ok [OF s] Cons.prems by (simp add: e)
  moreover have "rb_for f' T (first_addr (t_dummy T) ys) body st' = fold_res (\<lambda>(a, k, v). body k v) ys st'"
    for st' using Cons.IH [of "xs @ [e]" f'] Cons.prems f' by simp
  ultimately show ?case
    using rb_key_ok [OF s mem] rb_value_ok [OF s mem]
    by (simp add: rb_for.simps [of "Suc f'"] first_addr_def e f' assoc_rb_tree_end_def)
qed

lemma rb_for_all_ok:
  assumes "rb_inv cmp valid rank T"
  shows "rb_for_all T body st = fold_res (\<lambda>(a, k, v). body k v) (rb_items T) st"
proof -
  have s: "rb_struct T (tree_of T)" using assms by (simp add: rb_inv_def)
  then have "length (items (tree_of T)) \<le> t_size T" by (simp add: rb_struct_def)
  then show ?thesis
    using rb_for_ok [OF s, of "[]" "items (tree_of T)" "t_size T" body st] rb_front_ok [OF s]
    by (simp add: rb_for_all_def rb_items_def)
qed

section \<open>Loops over an array\<close>

lemma bind_res_cong: "m = m' \<Longrightarrow> (\<And>x. k x = k' x) \<Longrightarrow> bind_res m k = bind_res m' k'"
  by (cases m') auto

fun arr_for :: "nat \<Rightarrow> 'a seq_arr \<Rightarrow> nat \<Rightarrow> ('a \<Rightarrow> 's \<Rightarrow> 's res) \<Rightarrow> 's \<Rightarrow> 's res" where
  "arr_for fuel arr it body s =
     (if it = seq_arr_end arr then Inr s
      else case fuel of 0 \<Rightarrow> Inl Diverged
      | Suc f \<Rightarrow> bind_res (arr_deref arr it) (\<lambda>x.
          bind_res (body x s) (\<lambda>s. arr_for f arr (seq_arr_next arr it) body s)))"

declare arr_for.simps [simp del]

definition arr_for_all :: "'a seq_arr \<Rightarrow> ('a \<Rightarrow> 's \<Rightarrow> 's res) \<Rightarrow> 's \<Rightarrow> 's res" where
  "arr_for_all arr body s = arr_for (sa_size arr) arr (seq_arr_front arr) body s"

lemma arr_for_ok:
  assumes inv: "arr_inv arr"
  shows "i \<le> sa_size arr \<Longrightarrow> sa_size arr - i \<le> fuel \<Longrightarrow>
    arr_for fuel arr i body s = fold_res body (drop i (arr_list arr)) s"
proof (induction fuel arbitrary: i s)
  case 0
  then show ?case using inv by (simp add: arr_for.simps seq_arr_end_def length_arr_list)
next
  case (Suc fuel)
  show ?case
  proof (cases "i = sa_size arr")
    case True
    then show ?thesis using inv by (simp add: arr_for.simps seq_arr_end_def length_arr_list)
  next
    case False
    then have i: "i < sa_size arr" using Suc.prems by simp
    have "drop i (arr_list arr) = arr_list arr ! i # drop (Suc i) (arr_list arr)"
      using i length_arr_list [OF inv] by (simp add: Cons_nth_drop_Suc)
    then show ?thesis
      using i Suc.prems Suc.IH [of "Suc i"] arr_deref_ok [OF inv i]
      by (simp add: arr_for.simps [of "Suc fuel"] seq_arr_end_def seq_arr_next_def cong: bind_res_cong)
  qed
qed

lemma arr_for_all_ok: "arr_inv arr \<Longrightarrow> arr_for_all arr body s = fold_res body (arr_list arr) s"
  using arr_for_ok [of arr 0 "sa_size arr" body s] by (simp add: arr_for_all_def seq_arr_front_def)

text \<open>The elements of one array, transformed and pushed into another.\<close>

lemma push_mapped_ok:
  assumes "arr_inv arr" "sa_elt_size arr = sz" "\<And>x. x \<in> set xs \<Longrightarrow> g x = Inr (h x)"
  shows "\<exists>arr'. fold_res (\<lambda>x a. bind_res (g x) (\<lambda>y. seq_arr_push_back a y sz)) xs arr = Inr arr' \<and>
    arr_inv arr' \<and> arr_list arr' = arr_list arr @ map h xs \<and> sa_elt_size arr' = sz"
  using assms
proof (induction xs arbitrary: arr)
  case (Cons x xs)
  obtain arr1 where arr1: "seq_arr_push_back arr (h x) sz = Inr arr1" "arr_inv arr1"
    "arr_list arr1 = arr_list arr @ [h x]" "sa_elt_size arr1 = sz"
    using seq_arr_push_back_ok [OF Cons.prems(1), of sz "h x"] Cons.prems(2) by auto
  then show ?case using Cons.IH [of arr1] Cons.prems(3) by simp
qed simp

lemma push_mapped_init:
  assumes "0 < sz" "\<And>x. x \<in> set xs \<Longrightarrow> g x = Inr (h x)"
  shows "\<exists>arr. fold_res (\<lambda>x a. bind_res (g x) (\<lambda>y. seq_arr_push_back a y sz)) xs (seq_arr_init sz) = Inr arr \<and>
    arr_inv arr \<and> arr_list arr = map h xs \<and> sa_elt_size arr = sz"
proof -
  have "sa_elt_size (seq_arr_init sz) = sz" by (simp add: seq_arr_init_def)
  from push_mapped_ok [OF seq_arr_init_inv [OF assms(1)] this assms(2)] show ?thesis by simp
qed

lemma fold_res_unit:
  "(\<And>x. x \<in> set xs \<Longrightarrow> f x s = Inr s) \<Longrightarrow> fold_res f xs s = Inr s"
  by (induction xs) auto

section \<open>Releasing a tree\<close>

fun post_order :: "('k, 'v) rbt \<Rightarrow> ('k option \<times> 'v option) list" where
  "post_order Leaf = []"
| "post_order (Node l (a, c, k, v) r) = post_order l @ post_order r @ [(Some k, Some v)]"

lemma mset_post_order: "mset (post_order t) = mset (map (\<lambda>e. (Some (it_key e), Some (snd (snd e)))) (items t))"
  by (induction t rule: post_order.induct) auto

lemma tree_at_restrict:
  "set (addrs t) \<inter> A = {} \<Longrightarrow> tree_at d (h |` (- A)) p t = tree_at d h p t"
  by (induction d h p t rule: tree_at.induct) (auto simp: restrict_map_def)

lemma depth_first_search_free_ok:
  "tree_at (t_dummy T) (t_heap T) p t \<Longrightarrow> distinct (addrs t) \<Longrightarrow> t_dummy T \<notin> set (addrs t) \<Longrightarrow>
   height t \<le> fuel \<Longrightarrow>
   depth_first_search_free fuel T (addr (t_dummy T) t) =
     Inr (post_order t, T\<lparr>t_heap := t_heap T |` (- set (addrs t))\<rparr>)"
proof (induction t arbitrary: T p fuel rule: post_order.induct)
  case 1
  then show ?case by (simp add: depth_first_search_free.simps)
next
  case (2 l a c k v r)
  obtain f where f: "fuel = Suc f" "height l \<le> f" "height r \<le> f" using 2(6) by (cases fuel) auto
  define T1 where "T1 = T\<lparr>t_heap := t_heap T |` (- set (addrs l))\<rparr>"
  define T2 where "T2 = T1\<lparr>t_heap := t_heap T1 |` (- set (addrs r))\<rparr>"
  have rda: "rd T a = Inr (mk_node k v p (addr (t_dummy T) l) (addr (t_dummy T) r) c)"
    using 2(3) by (simp add: rd_def)
  have l: "depth_first_search_free f T (addr (t_dummy T) l) = Inr (post_order l, T1)"
    using 2(1) [of T a f] 2(3-5) f by (simp add: T1_def)
  have disj: "set (addrs r) \<inter> set (addrs l) = {}" using 2(4) by auto
  have r: "depth_first_search_free f T1 (addr (t_dummy T) r) = Inr (post_order r, T2)"
    using 2(2) [of T1 a f] 2(3-5) f tree_at_restrict [OF disj] by (simp add: T1_def T2_def)
  have "free_node_rb_tree a T2 = T\<lparr>t_heap := t_heap T |` (- set (addrs (Node l (a, c, k, v) r)))\<rparr>"
    by (auto simp: free_node_rb_tree_def T1_def T2_def restrict_map_def fun_eq_iff)
  then show ?case
    using 2(5) rda l r by (simp add: depth_first_search_free.simps [of "Suc f"] f(1))
qed

lemma assoc_rb_tree_free_ok:
  assumes "rb_inv cmp valid rank T"
  shows "\<exists>T'. assoc_rb_tree_free T = Inr (post_order (tree_of T), T') \<and> t_heap T' = Map.empty"
proof -
  have s: "rb_struct T (tree_of T)" using assms by (simp add: rb_inv_def)
  let ?t = "tree_of T"
  have z: "t_root T = addr (t_dummy T) ?t" "tree_at (t_dummy T) (t_heap T) (t_dummy T) ?t"
    "distinct (addrs ?t)" "t_dummy T \<notin> set (addrs ?t)" "dom (t_heap T) = insert (t_dummy T) (set (addrs ?t))"
    using s by (auto simp: rb_struct_def zipped_def)
  have "size ?t = t_size T" using s by (simp add: rb_struct_def length_items)
  then have "height ?t \<le> t_size T + 1" using height_le_size_tree [of ?t] by simp
  from depth_first_search_free_ok [OF z(2-4) this] have
    "assoc_rb_tree_free T = Inr (post_order ?t,
       free_node_rb_tree (t_dummy T) (T\<lparr>t_heap := t_heap T |` (- set (addrs ?t))\<rparr>))"
    by (simp add: assoc_rb_tree_free_def z(1))
  moreover have "(t_heap T |` (- set (addrs ?t)))(t_dummy T := None) = Map.empty"
  proof (rule ext)
    fix x
    show "((t_heap T |` (- set (addrs ?t)))(t_dummy T := None)) x = None"
      using z(5) by (cases "x \<in> dom (t_heap T)") (auto simp: restrict_map_def domIff)
  qed
  ultimately show ?thesis by (simp add: free_node_rb_tree_def)
qed

section \<open>Properties\<close>

text \<open>releasing a tree hands every entry to the free function exactly once and leaves nothing
  allocated, the sentinel included.\<close>

theorem assoc_rb_tree_free_exact:
  assumes "rb_inv cmp valid rank T"
  shows "\<exists>freed T'. assoc_rb_tree_free T = Inr (freed, T') \<and> t_heap T' = Map.empty \<and>
    mset freed = mset (map (\<lambda>e. (Some (it_key e), Some (snd (snd e)))) (rb_items T))"
  using assoc_rb_tree_free_ok [OF assms] mset_post_order [of "tree_of T"] by (auto simp: rb_items_def)

theorem assoc_rb_tree_free_exact_witness:
  "\<exists>(T :: (int, string) rb_tree) freed T'. map it_key (rb_items T) = [4, 7, 9] \<and>
     assoc_rb_tree_free T = Inr (freed, T') \<and> t_heap T' = Map.empty \<and>
     mset (map fst freed) = {# Some 4, Some 7, Some 9 #}"
proof -
  obtain T :: "(int, string) rb_tree" where T: "rb_inv cmp_fd (\<lambda>fd. fd > -1) (\<lambda>fd. [fd]) T"
    "map it_key (rb_items T) = [4, 7, 9]" by (rule fd_tree_sample)
  obtain freed T' where f: "assoc_rb_tree_free T = Inr (freed, T')" "t_heap T' = Map.empty"
    "mset freed = mset (map (\<lambda>e. (Some (it_key e), Some (snd (snd e)))) (rb_items T))"
    using assoc_rb_tree_free_exact [OF T(1)] by blast
  have "mset (map fst freed) = image_mset fst (mset freed)" by simp
  also have "\<dots> = mset (map Some (map it_key (rb_items T)))"
    unfolding f(3) by (simp add: multiset.map_comp comp_def)
  finally have "mset (map fst freed) = {# Some 4, Some 7, Some 9 #}" unfolding T(2) by simp
  with T(2) f(1,2) show ?thesis by (intro exI [of _ T] exI [of _ freed] exI [of _ T'] conjI)
qed

end
