(* ===== verification/E2AP_Config.thy ===== *)
theory E2AP_Config
  imports E2AP_Ids "HOL-Library.Char_ord"
begin

text \<open>
  What an E2 node announces in its setup: byte arrays (\<open>util/byte_array.c\<close>), RAN functions,
  component identifiers and configurations, and the description of a connected node that the RIC
  sends to its xApps (\<open>lib/e2ap/v2_03/e2ap_types/\<close>: \<open>common/e2ap_ran_function.c\<close>,
  \<open>common/e2ap_node_comp_id.c\<close>, \<open>common/e2ap_node_comp_conf.c\<close>,
  \<open>common/e2ap_node_component_config_add.c\<close>, \<open>e2_node_connected.c\<close>). A byte array is the list
  of its bytes; arguments are pointers to existing structures, so the tests for null pointers and
  for the same pointer, which imply the same value, have no counterpart.
\<close>

section \<open>Byte arrays\<close>

type_synonym byte_array = "u8 list"

definition copy_byte_array :: "byte_array \<Rightarrow> byte_array" where
  "copy_byte_array src = copy_range 0 (replicate (length src) 0) 0 (length src) src"

definition eq_byte_array :: "byte_array \<Rightarrow> byte_array \<Rightarrow> bool" where
  "eq_byte_array m0 m1 = (if length m0 \<noteq> length m1 then False else m0 = m1)"

definition cp_str_to_ba :: "string \<Rightarrow> byte_array" where
  "cp_str_to_ba str = map (\<lambda>c. word_of_nat (of_char c)) str"

text \<open>\<open>None\<close> is the null pointer; the result is the string up to its terminating zero.\<close>

definition copy_ba_to_str :: "byte_array \<Rightarrow> string option" where
  "copy_ba_to_str ba =
     (if length ba < 1 then None else Some (takeWhile (\<lambda>c. c \<noteq> CHR 0x00) (map (\<lambda>b. char_of (unat b)) ba)))"

lemma copy_byte_array_id [simp]: "copy_byte_array src = src"
  unfolding copy_byte_array_def by (rule nth_equalityI) simp_all

lemma eq_byte_array_eq [simp]: "eq_byte_array m0 m1 \<longleftrightarrow> m0 = m1"
  by (auto simp: eq_byte_array_def)

section \<open>RAN functions\<close>

record ran_function =
  rf_defn :: byte_array
  rf_id :: u16
  rf_rev :: u16
  rf_oid :: byte_array

definition cp_ran_function :: "ran_function \<Rightarrow> ran_function" where
  "cp_ran_function src = \<lparr>rf_defn = copy_byte_array (rf_defn src), rf_id = rf_id src, rf_rev = rf_rev src,
     rf_oid = copy_byte_array (rf_oid src)\<rparr>"

definition eq_ran_function :: "ran_function \<Rightarrow> ran_function \<Rightarrow> bool" where
  "eq_ran_function m0 m1 =
     (if \<not> eq_byte_array (rf_defn m0) (rf_defn m1) then False
      else if rf_id m0 \<noteq> rf_id m1 then False
      else if rf_rev m0 \<noteq> rf_rev m1 then False
      else if \<not> eq_byte_array (rf_oid m0) (rf_oid m1) then False
      else True)"

definition cmp_ran_function :: "ran_function \<Rightarrow> ran_function \<Rightarrow> int" where
  "cmp_ran_function m0 m1 =
     (if rf_id m0 < rf_id m1 then -1 else if rf_id m0 = rf_id m1 then 0 else 1)"

lemma cp_ran_function_id [simp]: "cp_ran_function src = src"
  by (simp add: cp_ran_function_def)

lemma eq_ran_function_eq [simp]: "eq_ran_function m0 m1 \<longleftrightarrow> m0 = m1"
  by (auto simp: eq_ran_function_def)

section \<open>Components of a node\<close>

datatype comp_interface_type = NG_TYPE | XN_TYPE | E1_TYPE | F1_TYPE | W1_TYPE | S1_TYPE | X2_TYPE | END_TYPE

text \<open>The tagged union; the alternatives the code does not support carry no value here.\<close>

datatype e2ap_node_comp_id =
    NG_ID byte_array | E1_ID u64 | F1_ID u64 | S1_ID byte_array | UNSUPPORTED_ID comp_interface_type

fun comp_id_type :: "e2ap_node_comp_id \<Rightarrow> comp_interface_type" where
  "comp_id_type (NG_ID _) = NG_TYPE"
| "comp_id_type (E1_ID _) = E1_TYPE"
| "comp_id_type (F1_ID _) = F1_TYPE"
| "comp_id_type (S1_ID _) = S1_TYPE"
| "comp_id_type (UNSUPPORTED_ID t) = t"

definition supported_type :: "comp_interface_type \<Rightarrow> bool" where
  "supported_type type \<longleftrightarrow> type = NG_TYPE \<or> type = F1_TYPE \<or> type = E1_TYPE \<or> type = S1_TYPE"

definition free_e2ap_node_comp_id :: "e2ap_node_comp_id \<Rightarrow> unit res" where
  "free_e2ap_node_comp_id src = c_assert (supported_type (comp_id_type src)) (Inr ())"

definition cp_e2ap_node_comp_id :: "e2ap_node_comp_id \<Rightarrow> e2ap_node_comp_id res" where
  "cp_e2ap_node_comp_id src =
     c_assert (supported_type (comp_id_type src))
      (case src of
         NG_ID b \<Rightarrow> Inr (NG_ID (copy_byte_array b))
       | F1_ID w \<Rightarrow> c_assert (w < 2 ^ 36) (Inr (F1_ID w))
       | E1_ID w \<Rightarrow> Inr (E1_ID w)
       | S1_ID b \<Rightarrow> Inr (S1_ID (copy_byte_array b))
       | UNSUPPORTED_ID _ \<Rightarrow> Inl AssertFailed)"

definition eq_e2ap_node_comp_id :: "e2ap_node_comp_id \<Rightarrow> e2ap_node_comp_id \<Rightarrow> bool res" where
  "eq_e2ap_node_comp_id m0 m1 =
     c_assert (supported_type (comp_id_type m0))
      (c_assert (supported_type (comp_id_type m1))
        (if comp_id_type m0 \<noteq> comp_id_type m1 then Inr False
         else case (m0, m1) of
           (NG_ID a, NG_ID b) \<Rightarrow> Inr (eq_byte_array a b)
         | (F1_ID a, F1_ID b) \<Rightarrow> c_assert (a < 2 ^ 36) (c_assert (b < 2 ^ 36) (Inr (a = b)))
         | (E1_ID a, E1_ID b) \<Rightarrow> c_assert (a < 2 ^ 36) (c_assert (b < 2 ^ 36) (Inr (a = b)))
         | (S1_ID a, S1_ID b) \<Rightarrow> Inr (eq_byte_array a b)
         | _ \<Rightarrow> Inl AssertFailed))"

record e2ap_node_comp_conf =
  nc_request :: byte_array
  nc_response :: byte_array

definition cp_e2ap_node_comp_conf :: "e2ap_node_comp_conf \<Rightarrow> e2ap_node_comp_conf" where
  "cp_e2ap_node_comp_conf src =
     \<lparr>nc_request = copy_byte_array (nc_request src), nc_response = copy_byte_array (nc_response src)\<rparr>"

definition eq_e2ap_node_comp_conf :: "e2ap_node_comp_conf \<Rightarrow> e2ap_node_comp_conf \<Rightarrow> bool" where
  "eq_e2ap_node_comp_conf m0 m1 =
     (if \<not> eq_byte_array (nc_request m0) (nc_request m1) then False
      else if \<not> eq_byte_array (nc_response m0) (nc_response m1) then False
      else True)"

record e2ap_node_component_config_add =
  ca_type :: comp_interface_type
  ca_id :: e2ap_node_comp_id
  ca_conf :: e2ap_node_comp_conf

definition free_e2ap_node_component_config_add :: "e2ap_node_component_config_add \<Rightarrow> unit res" where
  "free_e2ap_node_component_config_add src = free_e2ap_node_comp_id (ca_id src)"

definition cp_e2ap_node_component_config_add ::
  "e2ap_node_component_config_add \<Rightarrow> e2ap_node_component_config_add res" where
  "cp_e2ap_node_component_config_add src =
     bind_res (cp_e2ap_node_comp_id (ca_id src)) (\<lambda>i.
       Inr \<lparr>ca_type = ca_type src, ca_id = i, ca_conf = cp_e2ap_node_comp_conf (ca_conf src)\<rparr>)"

definition eq_e2ap_node_component_config_add ::
  "e2ap_node_component_config_add \<Rightarrow> e2ap_node_component_config_add \<Rightarrow> bool res" where
  "eq_e2ap_node_component_config_add m0 m1 =
     (if ca_type m0 \<noteq> ca_type m1 then Inr False
      else bind_res (eq_e2ap_node_comp_id (ca_id m0) (ca_id m1)) (\<lambda>b.
        if \<not> b then Inr False
        else if \<not> eq_e2ap_node_comp_conf (ca_conf m0) (ca_conf m1) then Inr False
        else Inr True))"

text \<open>The components the code can copy and compare.\<close>

fun comp_id_ok :: "e2ap_node_comp_id \<Rightarrow> bool" where
  "comp_id_ok (F1_ID w) \<longleftrightarrow> w < 2 ^ 36"
| "comp_id_ok (E1_ID w) \<longleftrightarrow> w < 2 ^ 36"
| "comp_id_ok (UNSUPPORTED_ID _) \<longleftrightarrow> False"
| "comp_id_ok _ \<longleftrightarrow> True"

lemma supported_simps [simp]:
  "supported_type NG_TYPE" "supported_type F1_TYPE" "supported_type E1_TYPE" "supported_type S1_TYPE"
  by (simp_all add: supported_type_def)

lemma cp_comp_id_ok: "comp_id_ok i \<Longrightarrow> cp_e2ap_node_comp_id i = Inr i"
  by (cases i) (simp_all add: cp_e2ap_node_comp_id_def)

lemma eq_comp_id_ok: "comp_id_ok i \<Longrightarrow> comp_id_ok j \<Longrightarrow> eq_e2ap_node_comp_id i j = Inr (i = j)"
  by (cases i; cases j) (simp_all add: eq_e2ap_node_comp_id_def)

lemma cp_cca_ok: "comp_id_ok (ca_id c) \<Longrightarrow> cp_e2ap_node_component_config_add c = Inr c"
  by (simp add: cp_e2ap_node_component_config_add_def cp_comp_id_ok cp_e2ap_node_comp_conf_def)

lemma eq_cca_ok:
  "comp_id_ok (ca_id c) \<Longrightarrow> comp_id_ok (ca_id d) \<Longrightarrow> eq_e2ap_node_component_config_add c d = Inr (c = d)"
  by (auto simp: eq_e2ap_node_component_config_add_def eq_comp_id_ok eq_e2ap_node_comp_conf_def
      intro!: e2ap_node_component_config_add.equality e2ap_node_comp_conf.equality)

section \<open>Connected nodes\<close>

text \<open>
  \<open>ec_cca\<close> is the array behind the pointer, with \<open>None\<close> for zeroed memory; \<open>ec_len_cca\<close> is the
  8-bit length the other functions go by.
\<close>

record e2_node_connected =
  ec_id :: global_e2_node_id
  ec_len_cca :: u8
  ec_cca :: "e2ap_node_component_config_add option list"
  ec_len_rf :: nat
  ec_ack_rf :: "ran_function list"

definition cca_at :: "e2ap_node_component_config_add option list \<Rightarrow> nat \<Rightarrow> e2ap_node_component_config_add res" where
  "cca_at xs i = in_bounds (i < length xs) (case xs ! i of None \<Rightarrow> Inl UseOfNull | Some c \<Rightarrow> Inr c)"

text \<open>The loop \<open>for(size_t i = 0; i < n; ++i)\<close>, stopping at the first fault.\<close>

fun for_res :: "nat \<Rightarrow> (nat \<Rightarrow> 'b \<Rightarrow> 'b res) \<Rightarrow> 'b \<Rightarrow> 'b res" where
  "for_res 0 f b = Inr b"
| "for_res (Suc n) f b = bind_res (for_res n f b) (f n)"

definition cp_e2_node_connected :: "e2_node_connected \<Rightarrow> e2_node_connected res" where
  "cp_e2_node_connected src =
     c_assert (ec_len_cca src > 0)
      (let dst = \<lparr>ec_id = cp_global_e2_node_id (ec_id src), ec_len_cca = 0,
                  ec_cca = replicate (unat (ec_len_cca src)) None, ec_len_rf = 0, ec_ack_rf = []\<rparr> in
       bind_res (for_res (unat (ec_len_cca dst)) (\<lambda>i xs.
           bind_res (cca_at (ec_cca src) i) (\<lambda>c.
           bind_res (cp_e2ap_node_component_config_add c) (\<lambda>d. Inr (xs[i := Some d])))) (ec_cca dst))
        (\<lambda>xs. in_bounds (ec_len_rf src \<le> length (ec_ack_rf src))
          (Inr (dst\<lparr>ec_cca := xs, ec_len_rf := ec_len_rf src,
                    ec_ack_rf := map cp_ran_function (take (ec_len_rf src) (ec_ack_rf src))\<rparr>))))"

definition free_e2_node_connected :: "e2_node_connected \<Rightarrow> unit res" where
  "free_e2_node_connected src =
     c_assert (ec_len_cca src > 0)
      (for_res (unat (ec_len_cca src)) (\<lambda>i _.
         bind_res (cca_at (ec_cca src) i) free_e2ap_node_component_config_add) ())"

text \<open>The loops return \<open>false\<close> at the first difference.\<close>

definition eq_e2_node_connected :: "e2_node_connected \<Rightarrow> e2_node_connected \<Rightarrow> bool res" where
  "eq_e2_node_connected m0 m1 =
     bind_res (eq_global_e2_node_id (ec_id m0) (ec_id m1)) (\<lambda>same.
       if \<not> same then Inr False
       else c_assert (ec_len_cca m0 > 0 \<and> ec_len_cca m1 > 0)
        (if ec_len_cca m0 \<noteq> ec_len_cca m1 then Inr False
         else bind_res (for_res (unat (ec_len_cca m0)) (\<lambda>i b.
             if \<not> b then Inr False
             else bind_res (cca_at (ec_cca m0) i) (\<lambda>c. bind_res (cca_at (ec_cca m1) i) (\<lambda>d.
               eq_e2ap_node_component_config_add c d))) True)
          (\<lambda>b. if \<not> b then Inr False
               else if ec_len_rf m0 \<noteq> ec_len_rf m1 then Inr False
               else for_res (ec_len_rf m0) (\<lambda>i b.
                 if \<not> b then Inr False
                 else in_bounds (i < length (ec_ack_rf m0) \<and> i < length (ec_ack_rf m1))
                   (Inr (eq_ran_function (ec_ack_rf m0 ! i) (ec_ack_rf m1 ! i)))) True)))"

section \<open>Properties\<close>

text \<open>the configuration of a component survives a copy unchanged and compares equal to its
  copy and to nothing else, as long as its kind is supported and its number fits 36 bits; comparing
  any other component aborts.\<close>

theorem component_config_copy_compare:
  "if comp_id_ok (ca_id c)
   then cp_e2ap_node_component_config_add c = Inr c \<and>
     (comp_id_ok (ca_id d) \<longrightarrow> eq_e2ap_node_component_config_add c d = Inr (c = d))
   else eq_e2ap_node_component_config_add c c = Inl AssertFailed"
  using cp_cca_ok [of c] eq_cca_ok [of c d]
  by (cases "ca_id c") (auto simp: eq_e2ap_node_component_config_add_def eq_e2ap_node_comp_id_def
      supported_type_def c_assert_def)

theorem component_config_copy_compare_witness:
  "eq_e2ap_node_component_config_add
     \<lparr>ca_type = F1_TYPE, ca_id = F1_ID 7, ca_conf = \<lparr>nc_request = [1], nc_response = []\<rparr>\<rparr>
     \<lparr>ca_type = F1_TYPE, ca_id = F1_ID 8, ca_conf = \<lparr>nc_request = [1], nc_response = []\<rparr>\<rparr> = Inr False"
  using component_config_copy_compare
    [of "\<lparr>ca_type = F1_TYPE, ca_id = F1_ID 7, ca_conf = \<lparr>nc_request = [1], nc_response = []\<rparr>\<rparr>"
        "\<lparr>ca_type = F1_TYPE, ca_id = F1_ID 8, ca_conf = \<lparr>nc_request = [1], nc_response = []\<rparr>\<rparr>"]
  by simp

text \<open>the copy that \<open>cp_e2_node_connected\<close> makes is unusable: its number of components is
  never set, so freeing the copy and comparing it with the original abort, whatever the node.\<close>

theorem cp_e2_node_connected_broken:
  assumes "cp_e2_node_connected n = Inr m" "valid_node_id (ec_id n)"
  shows "ec_len_cca m = 0 \<and> free_e2_node_connected m = Inl AssertFailed \<and>
    eq_e2_node_connected n m = Inl AssertFailed"
proof -
  have "ec_len_cca m = 0" "ec_id m = ec_id n"
    using assms(1) by (auto simp: cp_e2_node_connected_def c_assert_def in_bounds_def Let_def split: if_splits)
  moreover have "eq_global_e2_node_id (ec_id n) (ec_id n) = Inr True"
    using node_id.eq_law [OF assms(2,2)] by simp
  ultimately show ?thesis
    by (simp add: free_e2_node_connected_def eq_e2_node_connected_def)
qed

theorem cp_e2_node_connected_broken_witness:
  "\<exists>m. cp_e2_node_connected \<lparr>ec_id = sample_gnb 1, ec_len_cca = 1,
       ec_cca = [Some \<lparr>ca_type = F1_TYPE, ca_id = F1_ID 7, ca_conf = \<lparr>nc_request = [1], nc_response = []\<rparr>\<rparr>],
       ec_len_rf = 0, ec_ack_rf = []\<rparr> = Inr m \<and> free_e2_node_connected m = Inl AssertFailed"
proof -
  let ?n = "\<lparr>ec_id = sample_gnb 1, ec_len_cca = 1,
       ec_cca = [Some \<lparr>ca_type = F1_TYPE, ca_id = F1_ID 7, ca_conf = \<lparr>nc_request = [1], nc_response = []\<rparr>\<rparr>],
       ec_len_rf = 0, ec_ack_rf = []\<rparr>"
  obtain m where m: "cp_e2_node_connected ?n = Inr m" by (simp add: cp_e2_node_connected_def Let_def)
  from cp_e2_node_connected_broken [OF m] m show ?thesis by simp
qed

end
