(* ===== verification/E2AP_Msgs.thy ===== *)
theory E2AP_Msgs
  imports E2AP_Config
begin

text \<open>
  The messages the RIC, its iApp, the E2 nodes and the xApps exchange, as structures before they are
  encoded (\<open>lib/e2ap/v2_03/e2ap_types/\<close>), with their copy, move and comparison functions. A pointer
  with its length is a list, an optional pointer an option; arguments are pointers to existing
  structures, so the tests for null pointers and for the same pointer have no counterpart. A
  function that compares arrays compares their lengths first, so its loop runs over two lists of
  the same length (\<open>eq_loop\<close>).
\<close>

declare bind_res_eq_Inr [simp del]

section \<open>Chains of comparisons\<close>

text \<open>\<open>if(m == false) return false;\<close> followed by the rest of a comparison function.\<close>

definition check :: "bool res \<Rightarrow> bool res \<Rightarrow> bool res" where
  "check m k = bind_res m (\<lambda>b. if \<not> b then Inr False else k)"

lemma check_simps [simp]:
  "check (Inr b) k = (if b then k else Inr False)" "check (Inl e) k = Inl e"
  by (simp_all add: check_def)

text \<open>The loop over two arrays, and the loop behind the comparison of their lengths.\<close>

fun eq_loop :: "('a \<Rightarrow> 'a \<Rightarrow> bool res) \<Rightarrow> 'a list \<Rightarrow> 'a list \<Rightarrow> bool res" where
  "eq_loop f (x # xs) (y # ys) = check (f x y) (eq_loop f xs ys)"
| "eq_loop f _ _ = Inr True"

definition eq_arr :: "('a \<Rightarrow> 'a \<Rightarrow> bool res) \<Rightarrow> 'a list \<Rightarrow> 'a list \<Rightarrow> bool res" where
  "eq_arr f xs ys = check (Inr (length xs = length ys)) (eq_loop f xs ys)"

lemma eq_arr_ok:
  assumes "\<And>x y. x \<in> set xs \<Longrightarrow> y \<in> set ys \<Longrightarrow> f x y = Inr (x = y)"
  shows "eq_arr f xs ys = Inr (xs = ys)"
proof -
  have "length xs = length ys \<Longrightarrow> \<forall>x \<in> set xs. \<forall>y \<in> set ys. f x y = Inr (x = y) \<Longrightarrow> eq_loop f xs ys = Inr (xs = ys)"
    by (induction xs ys rule: list_induct2) auto
  then show ?thesis using assms by (auto simp: eq_arr_def)
qed

text \<open>\<open>eq_byte_array\<close> on two optional byte arrays: null pointers are equal only to each other.\<close>

definition eq_opt_byte_array :: "byte_array option \<Rightarrow> byte_array option \<Rightarrow> bool" where
  "eq_opt_byte_array m0 m1 = (case (m0, m1) of
     (None, None) \<Rightarrow> True | (Some a, Some b) \<Rightarrow> eq_byte_array a b | _ \<Rightarrow> False)"

lemma eq_opt_byte_array_eq [simp]: "eq_opt_byte_array m0 m1 \<longleftrightarrow> m0 = m1"
  by (auto simp: eq_opt_byte_array_def split: option.splits)

lemma eq_ric_gen_id_eq [simp]: "eq_ric_gen_id a b = Inr (a = b)"
  by (auto simp: eq_ric_gen_id_def intro: ric_gen_id.equality)

section \<open>Subscription\<close>

datatype ric_subseq_action_type = RIC_SUBS_REQ_CONTINUE | RIC_SUBS_REQ_HALT

record ric_subsequent_action =
  sq_type :: ric_subseq_action_type
  time_to_wait_ms :: "u32 option"

text \<open>
  The second test of \<open>time_to_wait_ms\<close> looks at \<open>m1\<close>, which is not null there, where the pointer
  \<open>m1->time_to_wait_ms\<close> is meant.
\<close>

definition eq_ric_subsequent_action :: "ric_subsequent_action option \<Rightarrow> ric_subsequent_action option \<Rightarrow> bool res" where
  "eq_ric_subsequent_action m0 m1 = (case (m0, m1) of
     (None, None) \<Rightarrow> Inr True
   | (Some a, Some b) \<Rightarrow>
       (if sq_type a \<noteq> sq_type b then Inr False
        else (case (time_to_wait_ms a, time_to_wait_ms b) of
            (None, None) \<Rightarrow> Inr True
          | (None, Some _) \<Rightarrow> Inr False
          | (Some _, None) \<Rightarrow> Inl UseOfNull
          | (Some s, Some t) \<Rightarrow> if s \<noteq> t then Inr False else Inr True))
   | _ \<Rightarrow> Inr False)"

datatype ric_action_type = RIC_ACT_REPORT | RIC_ACT_INSERT | RIC_ACT_POLICY

record ric_action =
  ra_id :: u8
  ra_type :: ric_action_type
  ra_definition :: "byte_array option"
  ra_subseq :: "ric_subsequent_action option"

definition eq_ric_action :: "ric_action \<Rightarrow> ric_action \<Rightarrow> bool res" where
  "eq_ric_action m0 m1 =
     check (Inr (ra_id m0 = ra_id m1))
      (check (Inr (ra_type m0 = ra_type m1))
        (check (Inr (eq_opt_byte_array (ra_definition m0) (ra_definition m1)))
          (check (eq_ric_subsequent_action (ra_subseq m0) (ra_subseq m1)) (Inr True))))"

record ric_subscription_request =
  sr_ric_id :: ric_gen_id
  sr_event_trigger :: byte_array
  sr_action :: "ric_action list"

definition eq_ric_subscritption_request :: "ric_subscription_request \<Rightarrow> ric_subscription_request \<Rightarrow> bool res" where
  "eq_ric_subscritption_request m0 m1 =
     check (eq_ric_gen_id (sr_ric_id m0) (sr_ric_id m1))
      (check (Inr (eq_byte_array (sr_event_trigger m0) (sr_event_trigger m1)))
        (eq_arr eq_ric_action (sr_action m0) (sr_action m1)))"

text \<open>The moved message and what stays behind: zeroed memory.\<close>

definition mv_ric_subscription_request ::
  "ric_subscription_request \<Rightarrow> ric_subscription_request \<times> ric_subscription_request" where
  "mv_ric_subscription_request sr =
     (sr, \<lparr>sr_ric_id = \<lparr>ric_req_id = 0, ric_inst_id = 0, ran_func_id = 0\<rparr>, sr_event_trigger = [], sr_action = []\<rparr>)"

datatype cause =
    CAUSE_NOTHING | CAUSE_RICREQUEST nat | CAUSE_RICSERVICE nat | CAUSE_E2NODE nat
  | CAUSE_TRANSPORT nat | CAUSE_PROTOCOL nat | CAUSE_MISC nat

definition eq_cause :: "cause \<Rightarrow> cause \<Rightarrow> bool" where
  "eq_cause m0 m1 \<longleftrightarrow> m0 = m1"

definition cp_cause :: "cause \<Rightarrow> cause" where
  "cp_cause src = src"

record ric_action_admitted =
  aa_id :: u8

definition eq_ric_action_admitted :: "ric_action_admitted \<Rightarrow> ric_action_admitted \<Rightarrow> bool res" where
  "eq_ric_action_admitted m0 m1 = check (Inr (aa_id m0 = aa_id m1)) (Inr True)"

definition cp_ric_action_admitted :: "ric_action_admitted \<Rightarrow> ric_action_admitted" where
  "cp_ric_action_admitted src = \<lparr>aa_id = aa_id src\<rparr>"

record ric_action_not_admitted =
  na_id :: u8
  na_cause :: cause

definition eq_ric_action_not_admitted :: "ric_action_not_admitted \<Rightarrow> ric_action_not_admitted \<Rightarrow> bool res" where
  "eq_ric_action_not_admitted m0 m1 =
     check (Inr (na_id m0 = na_id m1)) (check (Inr (eq_cause (na_cause m0) (na_cause m1))) (Inr True))"

definition cp_ric_action_not_admitted :: "ric_action_not_admitted \<Rightarrow> ric_action_not_admitted" where
  "cp_ric_action_not_admitted src = \<lparr>na_id = na_id src, na_cause = cp_cause (na_cause src)\<rparr>"

record ric_subscription_response =
  sp_ric_id :: ric_gen_id
  sp_admitted :: "ric_action_admitted list"
  sp_not_admitted :: "ric_action_not_admitted list"

definition eq_ric_subscritption_response :: "ric_subscription_response \<Rightarrow> ric_subscription_response \<Rightarrow> bool res" where
  "eq_ric_subscritption_response m0 m1 =
     check (eq_ric_gen_id (sp_ric_id m0) (sp_ric_id m1))
      (check (eq_arr eq_ric_action_admitted (sp_admitted m0) (sp_admitted m1))
        (eq_arr eq_ric_action_not_admitted (sp_not_admitted m0) (sp_not_admitted m1)))"

definition cp_ric_subscription_respponse :: "ric_subscription_response \<Rightarrow> ric_subscription_response" where
  "cp_ric_subscription_respponse src =
     \<lparr>sp_ric_id = sp_ric_id src, sp_admitted = map cp_ric_action_admitted (sp_admitted src),
      sp_not_admitted = map cp_ric_action_not_admitted (sp_not_admitted src)\<rparr>"

definition mv_ric_subscription_respponse ::
  "ric_subscription_response \<Rightarrow> ric_subscription_response \<times> ric_subscription_response" where
  "mv_ric_subscription_respponse src =
     (\<lparr>sp_ric_id = sp_ric_id src, sp_admitted = sp_admitted src, sp_not_admitted = sp_not_admitted src\<rparr>,
      \<lparr>sp_ric_id = \<lparr>ric_req_id = 0, ric_inst_id = 0, ran_func_id = 0\<rparr>, sp_admitted = [], sp_not_admitted = []\<rparr>)"

record ric_subscription_delete_request =
  sd_ric_id :: ric_gen_id

definition eq_ric_subscription_delete_request ::
  "ric_subscription_delete_request \<Rightarrow> ric_subscription_delete_request \<Rightarrow> bool res" where
  "eq_ric_subscription_delete_request m0 m1 =
     check (eq_ric_gen_id (sd_ric_id m0) (sd_ric_id m1)) (Inr True)"

definition cp_ric_subscription_delete_request ::
  "ric_subscription_delete_request \<Rightarrow> ric_subscription_delete_request" where
  "cp_ric_subscription_delete_request src = \<lparr>sd_ric_id = sd_ric_id src\<rparr>"

record ric_subscription_delete_response =
  dp_ric_id :: ric_gen_id

definition eq_ric_subscription_delete_response ::
  "ric_subscription_delete_response \<Rightarrow> ric_subscription_delete_response \<Rightarrow> bool res" where
  "eq_ric_subscription_delete_response m0 m1 =
     check (eq_ric_gen_id (dp_ric_id m0) (dp_ric_id m1)) (Inr True)"

section \<open>Indication and control\<close>

datatype ric_indication_type = RIC_IND_REPORT | RIC_IND_INSERT

record ric_indication =
  in_ric_id :: ric_gen_id
  in_action_id :: u8
  in_sn :: "u16 option"
  in_type :: ric_indication_type
  in_hdr :: byte_array
  in_msg :: byte_array
  in_call_process_id :: "byte_array option"

definition eq_sn :: "u16 option \<Rightarrow> u16 option \<Rightarrow> bool" where
  "eq_sn m0 m1 = (case (m0, m1) of (None, None) \<Rightarrow> True | (Some a, Some b) \<Rightarrow> a = b | _ \<Rightarrow> False)"

definition eq_ric_indication :: "ric_indication \<Rightarrow> ric_indication \<Rightarrow> bool res" where
  "eq_ric_indication m0 m1 =
     check (eq_ric_gen_id (in_ric_id m0) (in_ric_id m1))
      (check (Inr (in_action_id m0 = in_action_id m1))
      (check (Inr (eq_sn (in_sn m0) (in_sn m1)))
      (check (Inr (in_type m0 = in_type m1))
      (check (Inr (eq_byte_array (in_hdr m0) (in_hdr m1)))
      (check (Inr (eq_byte_array (in_msg m0) (in_msg m1)))
      (check (Inr (eq_opt_byte_array (in_call_process_id m0) (in_call_process_id m1))) (Inr True)))))))"

definition mv_ric_indication :: "ric_indication \<Rightarrow> ric_indication \<times> ric_indication" where
  "mv_ric_indication src =
     (\<lparr>in_ric_id = in_ric_id src, in_action_id = in_action_id src, in_sn = in_sn src, in_type = in_type src,
       in_hdr = in_hdr src, in_msg = in_msg src, in_call_process_id = in_call_process_id src\<rparr>,
      \<lparr>in_ric_id = \<lparr>ric_req_id = 0, ric_inst_id = 0, ran_func_id = 0\<rparr>, in_action_id = 0, in_sn = None,
       in_type = RIC_IND_REPORT, in_hdr = [], in_msg = [], in_call_process_id = None\<rparr>)"

datatype ric_control_ack_req = RIC_CONTROL_REQUEST_NO_ACK | RIC_CONTROL_REQUEST_ACK | RIC_CONTROL_REQUEST_NACK

record ric_control_request =
  cr_ric_id :: ric_gen_id
  cr_call_process_id :: "byte_array option"
  cr_hdr :: byte_array
  cr_msg :: byte_array
  cr_ack_req :: "ric_control_ack_req option"

text \<open>The static \<open>eq_ric_control_ack_req\<close> of \<open>ric_control_request.c\<close>.\<close>

definition eq_ack_req :: "ric_control_ack_req option \<Rightarrow> ric_control_ack_req option \<Rightarrow> bool" where
  "eq_ack_req m0 m1 = (case (m0, m1) of (None, None) \<Rightarrow> True | (Some a, Some b) \<Rightarrow> a = b | _ \<Rightarrow> False)"

definition eq_ric_control_request :: "ric_control_request \<Rightarrow> ric_control_request \<Rightarrow> bool res" where
  "eq_ric_control_request m0 m1 =
     check (eq_ric_gen_id (cr_ric_id m0) (cr_ric_id m1))
      (check (Inr (eq_opt_byte_array (cr_call_process_id m0) (cr_call_process_id m1)))
      (check (Inr (eq_byte_array (cr_hdr m0) (cr_hdr m1)))
      (check (Inr (eq_byte_array (cr_msg m0) (cr_msg m1)))
      (check (Inr (eq_ack_req (cr_ack_req m0) (cr_ack_req m1))) (Inr True)))))"

record ric_control_acknowledge =
  ck_ric_id :: ric_gen_id
  ck_call_process_id :: "byte_array option"
  ck_outcome :: "byte_array option"

definition eq_ric_control_ack_req :: "ric_control_acknowledge \<Rightarrow> ric_control_acknowledge \<Rightarrow> bool res" where
  "eq_ric_control_ack_req m0 m1 =
     check (eq_ric_gen_id (ck_ric_id m0) (ck_ric_id m1))
      (check (Inr (eq_opt_byte_array (ck_call_process_id m0) (ck_call_process_id m1)))
      (check (Inr (eq_opt_byte_array (ck_outcome m0) (ck_outcome m1))) (Inr True)))"

section \<open>Setup\<close>

record e2_setup_request =
  es_trans_id :: u8
  es_id :: global_e2_node_id
  es_ran_func :: "ran_function list"
  es_comp_conf :: "e2ap_node_component_config_add list"

text \<open>
  Copying aborts when there is nothing to allocate for only where the C library returns a null
  pointer for an allocation of no bytes, which the one of the build does not.
\<close>

definition cp_e2_setup_request :: "e2_setup_request \<Rightarrow> e2_setup_request res" where
  "cp_e2_setup_request src =
     bind_res (fold_res (\<lambda>c dst. bind_res (cp_e2ap_node_component_config_add c) (\<lambda>d. Inr (dst @ [d])))
        (es_comp_conf src) []) (\<lambda>ccas.
       Inr \<lparr>es_trans_id = es_trans_id src, es_id = es_id src,
         es_ran_func = map cp_ran_function (es_ran_func src), es_comp_conf = ccas\<rparr>)"

definition free_e2_setup_request :: "e2_setup_request \<Rightarrow> unit res" where
  "free_e2_setup_request src =
     fold_res (\<lambda>c _. free_e2ap_node_component_config_add c) (es_comp_conf src) ()"

definition eq_e2_setup_request :: "e2_setup_request \<Rightarrow> e2_setup_request \<Rightarrow> bool res" where
  "eq_e2_setup_request m0 m1 =
     check (Inr (es_trans_id m0 = es_trans_id m1))
      (check (eq_global_e2_node_id (es_id m0) (es_id m1))
      (check (eq_arr (\<lambda>a b. Inr (eq_ran_function a b)) (es_ran_func m0) (es_ran_func m1))
      (eq_arr eq_e2ap_node_component_config_add (es_comp_conf m0) (es_comp_conf m1))))"

section \<open>Messages of the xApps\<close>

record e42_ric_subscription_request =
  xs_xapp_id :: u16
  xs_id :: global_e2_node_id
  xs_sr :: ric_subscription_request

definition eq_e42_ric_subscritption_request ::
  "e42_ric_subscription_request \<Rightarrow> e42_ric_subscription_request \<Rightarrow> bool res" where
  "eq_e42_ric_subscritption_request m0 m1 =
     check (Inr (xs_xapp_id m0 = xs_xapp_id m1))
      (check (eq_global_e2_node_id (xs_id m0) (xs_id m1))
        (eq_ric_subscritption_request (xs_sr m0) (xs_sr m1)))"

record e42_ric_subscription_delete_request =
  xd_xapp_id :: u16
  xd_sdr :: ric_subscription_delete_request

definition eq_e42_ric_subscription_delete_request ::
  "e42_ric_subscription_delete_request \<Rightarrow> e42_ric_subscription_delete_request \<Rightarrow> bool res" where
  "eq_e42_ric_subscription_delete_request m0 m1 =
     check (Inr (xd_xapp_id m0 = xd_xapp_id m1)) (eq_ric_subscription_delete_request (xd_sdr m0) (xd_sdr m1))"

record e42_ric_control_request =
  xc_xapp_id :: u16
  xc_id :: global_e2_node_id
  xc_ctrl_req :: ric_control_request

definition eq_e42_ric_control_request :: "e42_ric_control_request \<Rightarrow> e42_ric_control_request \<Rightarrow> bool res" where
  "eq_e42_ric_control_request m0 m1 =
     check (Inr (xc_xapp_id m0 = xc_xapp_id m1))
      (check (eq_global_e2_node_id (xc_id m0) (xc_id m1))
        (eq_ric_control_request (xc_ctrl_req m0) (xc_ctrl_req m1)))"

record e42_setup_request =
  xq_ran_func :: "ran_function list"

definition cp_e42_setup_request :: "e42_setup_request \<Rightarrow> e42_setup_request" where
  "cp_e42_setup_request src = \<lparr>xq_ran_func = map cp_ran_function (xq_ran_func src)\<rparr>"

definition eq_e42_setup_request :: "e42_setup_request \<Rightarrow> e42_setup_request \<Rightarrow> bool res" where
  "eq_e42_setup_request m0 m1 = eq_arr (\<lambda>a b. Inr (eq_ran_function a b)) (xq_ran_func m0) (xq_ran_func m1)"

record e42_setup_response =
  xp_xapp_id :: u16
  xp_nodes :: "e2_node_connected list"

definition cp_e42_setup_response :: "e42_setup_response \<Rightarrow> e42_setup_response res" where
  "cp_e42_setup_response src =
     bind_res (fold_res (\<lambda>n dst. bind_res (cp_e2_node_connected n) (\<lambda>c. Inr (dst @ [c]))) (xp_nodes src) [])
       (\<lambda>nodes. Inr \<lparr>xp_xapp_id = xp_xapp_id src, xp_nodes = nodes\<rparr>)"

definition eq_e42_setup_response :: "e42_setup_response \<Rightarrow> e42_setup_response \<Rightarrow> bool res" where
  "eq_e42_setup_response m0 m1 =
     check (Inr (xp_xapp_id m0 = xp_xapp_id m1)) (eq_arr eq_e2_node_connected (xp_nodes m0) (xp_nodes m1))"

record e42_update_e2_node =
  xu_xapp_id :: u16
  xu_nodes :: "e2_node_connected list"

definition cp_e42_update_e2_node :: "e42_update_e2_node \<Rightarrow> e42_update_e2_node res" where
  "cp_e42_update_e2_node src =
     bind_res (fold_res (\<lambda>n dst. bind_res (cp_e2_node_connected n) (\<lambda>c. Inr (dst @ [c]))) (xu_nodes src) [])
       (\<lambda>nodes. Inr \<lparr>xu_xapp_id = xu_xapp_id src, xu_nodes = nodes\<rparr>)"

definition eq_e42_update_e2_node :: "e42_update_e2_node \<Rightarrow> e42_update_e2_node \<Rightarrow> bool res" where
  "eq_e42_update_e2_node m0 m1 =
     check (Inr (xu_xapp_id m0 = xu_xapp_id m1)) (eq_arr eq_e2_node_connected (xu_nodes m0) (xu_nodes m1))"

section \<open>What the comparisons decide\<close>

text \<open>Actions on which the comparison of their subsequent actions does not fail.\<close>

definition wait_given :: "ric_action \<Rightarrow> bool" where
  "wait_given a \<longleftrightarrow> (\<forall>s. ra_subseq a = Some s \<longrightarrow> time_to_wait_ms s \<noteq> None)"

lemma eq_subseq_ok:
  assumes "\<forall>s. m1 = Some s \<longrightarrow> time_to_wait_ms s \<noteq> None"
  shows "eq_ric_subsequent_action m0 m1 = Inr (m0 = m1)"
  using assms by (auto simp: eq_ric_subsequent_action_def split: option.splits
      intro: ric_subsequent_action.equality)

lemma eq_ric_action_ok: "wait_given m1 \<Longrightarrow> eq_ric_action m0 m1 = Inr (m0 = m1)"
  using eq_subseq_ok [of "ra_subseq m1" "ra_subseq m0"]
  by (auto simp: eq_ric_action_def wait_given_def intro: ric_action.equality)

lemma eq_subscription_request_ok:
  "\<forall>a \<in> set (sr_action m1). wait_given a \<Longrightarrow> eq_ric_subscritption_request m0 m1 = Inr (m0 = m1)"
  using eq_arr_ok [of "sr_action m0" "sr_action m1" eq_ric_action] eq_ric_action_ok
  by (auto simp: eq_ric_subscritption_request_def intro: ric_subscription_request.equality)

lemma eq_subscription_response_ok: "eq_ric_subscritption_response m0 m1 = Inr (m0 = m1)"
proof -
  have "eq_ric_action_admitted x y = Inr (x = y)" for x y
    by (auto simp: eq_ric_action_admitted_def intro: ric_action_admitted.equality)
  moreover have "eq_ric_action_not_admitted x y = Inr (x = y)" for x y
    by (auto simp: eq_ric_action_not_admitted_def eq_cause_def intro: ric_action_not_admitted.equality)
  ultimately show ?thesis
    using eq_arr_ok [of "sp_admitted m0" "sp_admitted m1" eq_ric_action_admitted]
      eq_arr_ok [of "sp_not_admitted m0" "sp_not_admitted m1" eq_ric_action_not_admitted]
    by (auto simp: eq_ric_subscritption_response_def intro: ric_subscription_response.equality)
qed

lemma eq_sn_eq [simp]: "eq_sn m0 m1 \<longleftrightarrow> m0 = m1"
  by (auto simp: eq_sn_def split: option.splits)

lemma eq_ack_req_eq [simp]: "eq_ack_req m0 m1 \<longleftrightarrow> m0 = m1"
  by (auto simp: eq_ack_req_def split: option.splits)

lemma eq_ric_indication_ok: "eq_ric_indication m0 m1 = Inr (m0 = m1)"
  by (auto simp: eq_ric_indication_def intro: ric_indication.equality)

lemma eq_ric_control_request_ok: "eq_ric_control_request m0 m1 = Inr (m0 = m1)"
  by (auto simp: eq_ric_control_request_def intro: ric_control_request.equality)

lemma eq_ric_control_ack_ok: "eq_ric_control_ack_req m0 m1 = Inr (m0 = m1)"
  by (auto simp: eq_ric_control_ack_req_def intro: ric_control_acknowledge.equality)

lemma moved_unchanged [simp]:
  "fst (mv_ric_subscription_respponse r) = r" "fst (mv_ric_indication i) = i"
  "fst (mv_ric_subscription_request s) = s" "cp_ric_subscription_delete_request d = d"
  by (simp_all add: mv_ric_subscription_respponse_def mv_ric_indication_def mv_ric_subscription_request_def
      cp_ric_subscription_delete_request_def)

section \<open>Properties\<close>

text \<open>comparing two actions of a subscription decides whether they are the same, unless they agree
  in everything but the waiting time of their subsequent actions, which the first gives and the
  second does not: then a null pointer is dereferenced.\<close>

theorem eq_ric_action_outcome:
  "eq_ric_action m0 m1 =
     (if ra_id m0 = ra_id m1 \<and> ra_type m0 = ra_type m1 \<and> ra_definition m0 = ra_definition m1 \<and>
        (\<exists>s t. ra_subseq m0 = Some s \<and> ra_subseq m1 = Some t \<and> sq_type s = sq_type t \<and>
           time_to_wait_ms s \<noteq> None \<and> time_to_wait_ms t = None)
      then Inl UseOfNull else Inr (m0 = m1))"
proof (cases "wait_given m1")
  case True
  then show ?thesis using eq_ric_action_ok [OF True, of m0] by (auto simp: wait_given_def)
next
  case False
  then obtain t where "ra_subseq m1 = Some t" "time_to_wait_ms t = None" by (auto simp: wait_given_def)
  then show ?thesis
    by (cases "ra_subseq m0")
      (auto simp: eq_ric_action_def eq_ric_subsequent_action_def split: option.splits
        intro!: ric_action.equality ric_subsequent_action.equality)
qed

end
