(* ===== verification/E2AP_Global_Msgs.thy ===== *)
theory E2AP_Global_Msgs
  imports E2AP_Msgs
begin

text \<open>
  The messages of the global E2AP procedures and the failures (\<open>lib/e2ap/v2_03/e2ap_types/\<close>), with
  their comparison functions, as in \<open>E2AP_Msgs\<close>. An optional part is an option; two different
  messages do not share the memory of an optional part, so the test for the same pointer only
  answers for two null pointers.
\<close>

declare bind_res_eq_Inr [simp del]

section \<open>Parts\<close>

definition eq_opt_cause :: "cause option \<Rightarrow> cause option \<Rightarrow> bool" where
  "eq_opt_cause m0 m1 = (case (m0, m1) of (None, None) \<Rightarrow> True | (Some a, Some b) \<Rightarrow> eq_cause a b | _ \<Rightarrow> False)"

datatype criticality = REJECT | IGNORE | NOTIFY

datatype type_of_error = NOT_UNDERSTOOD | MISSING

record ie_criticality_diagnostics =
  ie_crit :: criticality
  ie_id :: u16
  ie_type :: type_of_error

datatype triggering_message = INITIATING_MESSAGE | SUCCESSFUL_OUTCOME | UNSUCCESSFUL_OUTCOME

record criticality_diagnostics =
  cd_procedure_code :: "u8 option"
  cd_trig_msg :: "triggering_message option"
  cd_proc_crit :: "criticality option"
  cd_req_id :: "ric_gen_id option"
  cd_ie :: "ie_criticality_diagnostics list"

definition eq_criticality_diagnostics ::
  "criticality_diagnostics option \<Rightarrow> criticality_diagnostics option \<Rightarrow> bool res" where
  "eq_criticality_diagnostics m0 m1 =
     (if m0 = None \<and> m1 = None then Inr True
      else if m0 \<noteq> None \<or> m1 \<noteq> None then Inr False
      else Inl AssertFailed)"

datatype e2ap_time_to_wait =
    TIMETOWAIT_V1S | TIMETOWAIT_V2S | TIMETOWAIT_V5S | TIMETOWAIT_V10S | TIMETOWAIT_V20S | TIMETOWAIT_V60S

primrec time_to_wait_val :: "e2ap_time_to_wait \<Rightarrow> nat" where
  "time_to_wait_val TIMETOWAIT_V1S = 0"
| "time_to_wait_val TIMETOWAIT_V2S = 1"
| "time_to_wait_val TIMETOWAIT_V5S = 2"
| "time_to_wait_val TIMETOWAIT_V10S = 3"
| "time_to_wait_val TIMETOWAIT_V20S = 4"
| "time_to_wait_val TIMETOWAIT_V60S = 5"

definition eq_time_to_wait :: "e2ap_time_to_wait option \<Rightarrow> e2ap_time_to_wait option \<Rightarrow> bool" where
  "eq_time_to_wait m0 m1 = (case (m0, m1) of
     (None, None) \<Rightarrow> True
   | (Some a, Some b) \<Rightarrow> if time_to_wait_val a < time_to_wait_val b then False else True
   | _ \<Rightarrow> False)"

record transport_layer_information =
  tl_address :: byte_array
  tl_port :: "byte_array option"

definition eq_transport_layer_information ::
  "transport_layer_information option \<Rightarrow> transport_layer_information option \<Rightarrow> bool" where
  "eq_transport_layer_information m0 m1 = (case (m0, m1) of
     (None, None) \<Rightarrow> True
   | (Some a, Some b) \<Rightarrow>
       (if \<not> eq_byte_array (tl_address a) (tl_address b) then False
        else if \<not> eq_opt_byte_array (tl_port a) (tl_port b) then False
        else True)
   | _ \<Rightarrow> False)"

record rejected_ran_function =
  rj_id :: u16
  rj_cause :: cause

definition eq_rejected_ran_function :: "rejected_ran_function \<Rightarrow> rejected_ran_function \<Rightarrow> bool" where
  "eq_rejected_ran_function m0 m1 =
     (if rj_id m0 \<noteq> rj_id m1 then False else if \<not> eq_cause (rj_cause m0) (rj_cause m1) then False else True)"

record ran_function_id =
  fi_id :: u16
  fi_rev :: u16

definition eq_ran_function_id :: "ran_function_id \<Rightarrow> ran_function_id \<Rightarrow> bool" where
  "eq_ran_function_id m0 m1 =
     (if fi_id m0 \<noteq> fi_id m1 then False else if fi_rev m0 \<noteq> fi_rev m1 then False else True)"

record e2ap_ran_function_id_rev =
  fr_id :: u16
  fr_rev :: u16

definition eq_ran_function_id_rev :: "e2ap_ran_function_id_rev \<Rightarrow> e2ap_ran_function_id_rev \<Rightarrow> bool" where
  "eq_ran_function_id_rev m0 m1 =
     (if fr_id m0 \<noteq> fr_id m1 then False else if fr_rev m0 \<noteq> fr_rev m1 then False else True)"

record global_ric_id =
  gr_plmn :: e2ap_plmn
  gr_near_ric_id :: u32

definition eq_global_ric_id :: "global_ric_id \<Rightarrow> global_ric_id \<Rightarrow> bool" where
  "eq_global_ric_id m0 m1 =
     (if \<not> eq_e2ap_plmn (gr_plmn m0) (gr_plmn m1) then False
      else if gr_near_ric_id m0 \<noteq> gr_near_ric_id m1 then False else True)"

section \<open>Acknowledged components\<close>

datatype comp_conf_outcome = SUCCESS_E2AP_NODE_COMP_CONF_ACK | FAILURE_E2AP_NODE_COMP_CONF_ACK

record e2ap_node_comp_conf_ack =
  ak_outcome :: comp_conf_outcome
  ak_cause :: "cause option"

definition free_e2ap_node_comp_conf_ack :: "e2ap_node_comp_conf_ack \<Rightarrow> unit res" where
  "free_e2ap_node_comp_conf_ack src = c_assert (ak_cause src = None) (Inr ())"

definition cp_e2ap_node_comp_conf_ack :: "e2ap_node_comp_conf_ack \<Rightarrow> e2ap_node_comp_conf_ack res" where
  "cp_e2ap_node_comp_conf_ack src = Inl AssertFailed"

definition eq_e2ap_node_comp_conf_ack :: "e2ap_node_comp_conf_ack \<Rightarrow> e2ap_node_comp_conf_ack \<Rightarrow> bool res" where
  "eq_e2ap_node_comp_conf_ack m0 m1 =
     (if ak_outcome m0 \<noteq> ak_outcome m1 then Inr False
      else c_assert (ak_cause m0 = None) (c_assert (ak_cause m1 = None) (Inr True)))"

record e2ap_node_comp_config_add_ack =
  cx_type :: comp_interface_type
  cx_id :: e2ap_node_comp_id
  cx_ack :: e2ap_node_comp_conf_ack

definition free_e2ap_node_comp_config_add_ack :: "e2ap_node_comp_config_add_ack \<Rightarrow> unit res" where
  "free_e2ap_node_comp_config_add_ack src =
     bind_res (free_e2ap_node_comp_id (cx_id src)) (\<lambda>_. free_e2ap_node_comp_conf_ack (cx_ack src))"

definition cp_e2ap_node_comp_config_add_ack ::
  "e2ap_node_comp_config_add_ack \<Rightarrow> e2ap_node_comp_config_add_ack res" where
  "cp_e2ap_node_comp_config_add_ack src = Inl AssertFailed"

definition eq_e2ap_node_component_config_add_ack ::
  "e2ap_node_comp_config_add_ack \<Rightarrow> e2ap_node_comp_config_add_ack \<Rightarrow> bool res" where
  "eq_e2ap_node_component_config_add_ack m0 m1 =
     c_assert (cx_type m0 \<noteq> END_TYPE) (c_assert (cx_type m1 \<noteq> END_TYPE)
      (if cx_type m0 \<noteq> cx_type m1 then Inr False
       else check (eq_e2ap_node_comp_id (cx_id m0) (cx_id m1))
        (check (eq_e2ap_node_comp_conf_ack (cx_ack m0) (cx_ack m1)) (Inr True))))"

section \<open>Component updates\<close>

datatype e2_node_component_type =
    INTERFACE_TYPE_NG | INTERFACE_TYPE_XN | INTERFACE_TYPE_E1 | INTERFACE_TYPE_F1
  | INTERFACE_TYPE_W1 | INTERFACE_TYPE_S1 | INTERFACE_TYPE_X2

datatype e2_node_component_id_present = COMPONENT_TYPE_GNB_CU_UP | COMPONENT_TYPE_GNB_DU

text \<open>The union with its tag \<open>update_present\<close>; \<open>None\<close> is a null pointer.\<close>

datatype config_update =
    CONFIG_UPDATE_NOTHING
  | GNB_CONFIG_UPDATE "byte_array option" "byte_array option" "byte_array option" "byte_array option"
  | EN_GNB_CONFIG_UPDATE "byte_array option"
  | NG_ENB_CONFIG_UPDATE "byte_array option" "byte_array option"
  | ENB_CONFIG_UPDATE "byte_array option" "byte_array option"

record e2_node_component_config_update =
  cu_type :: e2_node_component_type
  cu_id_present :: "e2_node_component_id_present option"
  cu_id :: u64
  cu_update :: config_update

definition create_assign_ba :: "byte_array option \<Rightarrow> byte_array option res" where
  "create_assign_ba src = (case src of None \<Rightarrow> Inl UseOfNull | Some b \<Rightarrow> Inr (Some (copy_byte_array b)))"

definition cp_e2_node_component_config_update ::
  "e2_node_component_config_update \<Rightarrow> e2_node_component_config_update res" where
  "cp_e2_node_component_config_update src =
     (let dst = \<lparr>cu_type = cu_type src, cu_id_present = cu_id_present src,
                 cu_id = (if cu_id_present src \<noteq> None then cu_id src else 0),
                 cu_update = CONFIG_UPDATE_NOTHING\<rparr> in
      case cu_update src of
        GNB_CONFIG_UPDATE a b c d \<Rightarrow>
          bind_res (create_assign_ba a) (\<lambda>a. bind_res (create_assign_ba b) (\<lambda>b.
          bind_res (create_assign_ba c) (\<lambda>c. bind_res (create_assign_ba d) (\<lambda>d.
            Inr (dst\<lparr>cu_update := GNB_CONFIG_UPDATE a b c d\<rparr>)))))
      | EN_GNB_CONFIG_UPDATE a \<Rightarrow>
          bind_res (create_assign_ba a) (\<lambda>a. Inr (dst\<lparr>cu_update := EN_GNB_CONFIG_UPDATE a\<rparr>))
      | NG_ENB_CONFIG_UPDATE a b \<Rightarrow>
          bind_res (create_assign_ba a) (\<lambda>a. bind_res (create_assign_ba b) (\<lambda>b.
            Inr (dst\<lparr>cu_update := NG_ENB_CONFIG_UPDATE a b\<rparr>)))
      | ENB_CONFIG_UPDATE a b \<Rightarrow>
          bind_res (create_assign_ba a) (\<lambda>a. bind_res (create_assign_ba b) (\<lambda>b.
            Inr (dst\<lparr>cu_update := ENB_CONFIG_UPDATE a b\<rparr>)))
      | CONFIG_UPDATE_NOTHING \<Rightarrow> Inl AssertFailed)"

text \<open>\<open>free_byte_array(*p)\<close> reads through the pointer.\<close>

definition free_deref :: "byte_array option \<Rightarrow> unit res" where
  "free_deref p = (case p of None \<Rightarrow> Inl UseOfNull | Some _ \<Rightarrow> Inr ())"

definition free_e2_node_component_config_update :: "e2_node_component_config_update \<Rightarrow> unit res" where
  "free_e2_node_component_config_update src = (case cu_update src of
     GNB_CONFIG_UPDATE a b c d \<Rightarrow>
       bind_res (free_deref a) (\<lambda>_. bind_res (free_deref b) (\<lambda>_. bind_res (free_deref c) (\<lambda>_. free_deref d)))
   | EN_GNB_CONFIG_UPDATE a \<Rightarrow> free_deref a
   | NG_ENB_CONFIG_UPDATE a b \<Rightarrow> bind_res (free_deref a) (\<lambda>_. free_deref b)
   | ENB_CONFIG_UPDATE a b \<Rightarrow> bind_res (free_deref a) (\<lambda>_. free_deref b)
   | CONFIG_UPDATE_NOTHING \<Rightarrow> Inl AssertFailed)"

definition eq_e2_node_component_id_present ::
  "e2_node_component_id_present option \<Rightarrow> e2_node_component_id_present option \<Rightarrow> bool" where
  "eq_e2_node_component_id_present m0 m1 = (case (m0, m1) of
     (None, None) \<Rightarrow> True | (Some a, Some b) \<Rightarrow> (if a \<noteq> b then False else True) | _ \<Rightarrow> False)"

text \<open>Different tags answer \<open>false\<close> before the parts are looked at.\<close>

definition eq_e2_node_component_config_update ::
  "e2_node_component_config_update \<Rightarrow> e2_node_component_config_update \<Rightarrow> bool res" where
  "eq_e2_node_component_config_update m0 m1 =
     check (Inr (cu_type m0 = cu_type m1))
      (check (Inr (eq_e2_node_component_id_present (cu_id_present m0) (cu_id_present m1)))
      (check (Inr (cu_id m0 = cu_id m1))
      (case (cu_update m0, cu_update m1) of
         (GNB_CONFIG_UPDATE a b c d, GNB_CONFIG_UPDATE a' b' c' d') \<Rightarrow>
           check (Inr (eq_opt_byte_array a a')) (check (Inr (eq_opt_byte_array b b'))
            (check (Inr (eq_opt_byte_array c c')) (check (Inr (eq_opt_byte_array d d')) (Inr True))))
       | (EN_GNB_CONFIG_UPDATE a, EN_GNB_CONFIG_UPDATE a') \<Rightarrow> check (Inr (eq_opt_byte_array a a')) (Inr True)
       | (NG_ENB_CONFIG_UPDATE a b, NG_ENB_CONFIG_UPDATE a' b') \<Rightarrow>
           check (Inr (eq_opt_byte_array a a')) (check (Inr (eq_opt_byte_array b b')) (Inr True))
       | (ENB_CONFIG_UPDATE a b, ENB_CONFIG_UPDATE a' b') \<Rightarrow>
           check (Inr (eq_opt_byte_array a a')) (check (Inr (eq_opt_byte_array b b')) (Inr True))
       | (CONFIG_UPDATE_NOTHING, CONFIG_UPDATE_NOTHING) \<Rightarrow> Inl AssertFailed
       | _ \<Rightarrow> Inr False)))"

section \<open>Messages\<close>

record ric_subscription_failure =
  sf_ric_id :: ric_gen_id
  sf_cause :: cause
  sf_crit_diag :: "criticality_diagnostics option"

definition eq_ric_subscritption_failure ::
  "ric_subscription_failure \<Rightarrow> ric_subscription_failure \<Rightarrow> bool res" where
  "eq_ric_subscritption_failure m0 m1 =
     check (eq_ric_gen_id (sf_ric_id m0) (sf_ric_id m1))
      (check (Inr (eq_cause (sf_cause m0) (sf_cause m1)))
      (check (eq_criticality_diagnostics (sf_crit_diag m0) (sf_crit_diag m1)) (Inr True)))"

record ric_subscription_delete_failure =
  df_ric_id :: ric_gen_id
  df_cause :: cause
  df_crit_diag :: "criticality_diagnostics option"

definition eq_ric_subscription_delete_failure ::
  "ric_subscription_delete_failure \<Rightarrow> ric_subscription_delete_failure \<Rightarrow> bool res" where
  "eq_ric_subscription_delete_failure m0 m1 =
     check (eq_ric_gen_id (df_ric_id m0) (df_ric_id m1))
      (check (Inr (eq_cause (df_cause m0) (df_cause m1)))
      (check (eq_criticality_diagnostics (df_crit_diag m0) (df_crit_diag m1)) (Inr True)))"

record ric_control_failure =
  cf_ric_id :: ric_gen_id
  cf_call_process_id :: "byte_array option"
  cf_cause :: cause
  cf_outcome :: "byte_array option"
  cf_crit :: "criticality_diagnostics option"

definition eq_control_failure :: "ric_control_failure \<Rightarrow> ric_control_failure \<Rightarrow> bool res" where
  "eq_control_failure m0 m1 =
     check (eq_ric_gen_id (cf_ric_id m0) (cf_ric_id m1))
      (check (Inr (eq_opt_byte_array (cf_call_process_id m0) (cf_call_process_id m1)))
      (check (Inr (eq_cause (cf_cause m0) (cf_cause m1)))
      (check (Inr (eq_opt_byte_array (cf_outcome m0) (cf_outcome m1))) (Inr True))))"

record e2ap_error_indication =
  ei_trans_id :: "u8 option"
  ei_ric_id :: "ric_gen_id option"
  ei_cause :: "cause option"
  ei_crit_diag :: "criticality_diagnostics option"

text \<open>\<open>eq_ric_gen_id\<close> reads through both pointers.\<close>

definition eq_error_indication :: "e2ap_error_indication \<Rightarrow> e2ap_error_indication \<Rightarrow> bool res" where
  "eq_error_indication m0 m1 =
     check (Inr (case (ei_trans_id m0, ei_trans_id m1) of
         (None, None) \<Rightarrow> True | (Some a, Some b) \<Rightarrow> a = b | _ \<Rightarrow> False))
      (check (case (ei_ric_id m0, ei_ric_id m1) of
         (Some a, Some b) \<Rightarrow> eq_ric_gen_id a b | _ \<Rightarrow> Inl UseOfNull)
      (check (Inr (eq_opt_cause (ei_cause m0) (ei_cause m1)))
      (check (eq_criticality_diagnostics (ei_crit_diag m0) (ei_crit_diag m1)) (Inr True))))"

record e2_setup_response =
  et_trans_id :: u8
  et_id :: global_ric_id
  et_accepted :: "u16 list"
  et_rejected :: "rejected_ran_function list"
  et_ccaa :: "e2ap_node_comp_config_add_ack list"

text \<open>
  Every turn of the last loop compares the first elements of the two arrays, which have the same
  length.
\<close>

definition eq_e2_setup_response :: "e2_setup_response \<Rightarrow> e2_setup_response \<Rightarrow> bool res" where
  "eq_e2_setup_response m0 m1 =
     check (Inr (et_trans_id m0 = et_trans_id m1))
      (check (Inr (eq_global_ric_id (et_id m0) (et_id m1)))
      (check (eq_arr (\<lambda>a b. Inr (a = b)) (et_accepted m0) (et_accepted m1))
      (check (eq_arr (\<lambda>a b. Inr (eq_rejected_ran_function a b)) (et_rejected m0) (et_rejected m1))
      (eq_arr (\<lambda>_ _. eq_e2ap_node_component_config_add_ack (hd (et_ccaa m0)) (hd (et_ccaa m1)))
        (et_ccaa m0) (et_ccaa m1)))))"

definition free_e2_setup_response :: "e2_setup_response \<Rightarrow> unit res" where
  "free_e2_setup_response src =
     c_assert (length (et_accepted src) < 257)
      (c_assert (length (et_rejected src) < 257)
      (c_assert (length (et_ccaa src) > 0 \<and> length (et_ccaa src) < 1025)
      (fold_res (\<lambda>c _. free_e2ap_node_comp_config_add_ack c) (et_ccaa src) ())))"

record e2_setup_failure =
  eu_trans_id :: u8
  eu_cause :: cause
  eu_time_to_wait :: "e2ap_time_to_wait option"
  eu_crit_diag :: "criticality_diagnostics option"
  eu_tl_info :: "transport_layer_information option"

definition eq_e2_setup_failure :: "e2_setup_failure \<Rightarrow> e2_setup_failure \<Rightarrow> bool res" where
  "eq_e2_setup_failure m0 m1 =
     c_assert (eu_trans_id m0 = eu_trans_id m1)
      (check (Inr (eq_cause (eu_cause m0) (eu_cause m1)))
      (check (Inr (eq_time_to_wait (eu_time_to_wait m0) (eu_time_to_wait m1)))
      (check (eq_criticality_diagnostics (eu_crit_diag m0) (eu_crit_diag m1))
      (check (Inr (eq_transport_layer_information (eu_tl_info m0) (eu_tl_info m1))) (Inr True)))))"

record e2ap_reset_request =
  rq_trans_id :: u8
  rq_cause :: cause

definition eq_reset_request :: "e2ap_reset_request \<Rightarrow> e2ap_reset_request \<Rightarrow> bool res" where
  "eq_reset_request m0 m1 =
     check (Inr (rq_trans_id m0 = rq_trans_id m1)) (check (Inr (eq_cause (rq_cause m0) (rq_cause m1))) (Inr True))"

record e2ap_reset_response =
  rp_trans_id :: u8
  rp_crit_diag :: "criticality_diagnostics option"

definition eq_reset_response :: "e2ap_reset_response \<Rightarrow> e2ap_reset_response \<Rightarrow> bool res" where
  "eq_reset_response m0 m1 =
     check (Inr (rp_trans_id m0 = rp_trans_id m1))
      (check (eq_criticality_diagnostics (rp_crit_diag m0) (rp_crit_diag m1)) (Inr True))"

record ric_service_update =
  su_trans_id :: u8
  su_added :: "ran_function list"
  su_modified :: "ran_function list"
  su_deleted :: "e2ap_ran_function_id_rev list"

text \<open>The test in the second loop is not negated: it returns \<open>false\<close> for equal functions.\<close>

definition eq_ric_service_update :: "ric_service_update \<Rightarrow> ric_service_update \<Rightarrow> bool res" where
  "eq_ric_service_update m0 m1 =
     check (Inr (su_trans_id m0 = su_trans_id m1))
      (check (eq_arr (\<lambda>a b. Inr (eq_ran_function a b)) (su_added m0) (su_added m1))
      (check (eq_arr (\<lambda>a b. Inr (\<not> eq_ran_function a b)) (su_modified m0) (su_modified m1))
      (eq_arr (\<lambda>a b. Inr (eq_ran_function_id_rev a b)) (su_deleted m0) (su_deleted m1))))"

record ric_service_update_ack =
  sk_trans_id :: u8
  sk_accepted :: "ran_function_id list"
  sk_rejected :: "rejected_ran_function list"

definition eq_ric_service_update_ack :: "ric_service_update_ack \<Rightarrow> ric_service_update_ack \<Rightarrow> bool res" where
  "eq_ric_service_update_ack m0 m1 =
     check (Inr (sk_trans_id m0 = sk_trans_id m1))
      (check (eq_arr (\<lambda>a b. Inr (eq_ran_function_id a b)) (sk_accepted m0) (sk_accepted m1))
      (eq_arr (\<lambda>a b. Inr (eq_rejected_ran_function a b)) (sk_rejected m0) (sk_rejected m1)))"

record ric_service_update_failure =
  sx_rejected :: "rejected_ran_function list"
  sx_time_to_wait :: "e2ap_time_to_wait option"
  sx_crit_diag :: "criticality_diagnostics option"

definition eq_ric_service_update_failure ::
  "ric_service_update_failure \<Rightarrow> ric_service_update_failure \<Rightarrow> bool res" where
  "eq_ric_service_update_failure m0 m1 =
     check (eq_arr (\<lambda>a b. Inr (eq_rejected_ran_function a b)) (sx_rejected m0) (sx_rejected m1))
      (check (Inr (eq_time_to_wait (sx_time_to_wait m0) (sx_time_to_wait m1)))
      (check (eq_criticality_diagnostics (sx_crit_diag m0) (sx_crit_diag m1)) (Inr True)))"

record ric_service_query =
  sq_trans_id :: u8
  sq_accepted :: "e2ap_ran_function_id_rev list"

definition eq_ric_service_query :: "ric_service_query \<Rightarrow> ric_service_query \<Rightarrow> bool res" where
  "eq_ric_service_query m0 m1 =
     check (Inr (sq_trans_id m0 = sq_trans_id m1))
      (eq_arr (\<lambda>a b. Inr (eq_ran_function_id_rev a b)) (sq_accepted m0) (sq_accepted m1))"

record e2_node_configuration_update =
  nu_trans_id :: u8
  nu_ccul :: "e2_node_component_config_update list"

definition eq_node_configuration_update ::
  "e2_node_configuration_update \<Rightarrow> e2_node_configuration_update \<Rightarrow> bool res" where
  "eq_node_configuration_update m0 m1 =
     check (Inr (nu_trans_id m0 = nu_trans_id m1))
      (eq_arr eq_e2_node_component_config_update (nu_ccul m0) (nu_ccul m1))"

record config_update_ack_item =
  ui_type :: e2_node_component_type
  ui_id_present :: "e2_node_component_id_present option"
  ui_id :: u64
  ui_outcome :: int
  ui_failure_cause :: "cause option"

record e2_node_configuration_update_ack =
  na_ccual :: "config_update_ack_item list"

record e2_node_configuration_update_failure =
  nf_cause :: cause
  nf_time_wait :: "e2ap_time_to_wait option"
  nf_crit_diag :: "criticality_diagnostics option"

record e2ap_tnl_information =
  tn_addr :: byte_array
  tn_port :: "byte_array option"

datatype e2ap_tnl_usage = TNL_USAGE_RIC_SERVICE | TNL_USAGE_SUPPORT_FUNCTION | TNL_USAGE_BOTH

record e2_connection_update_item =
  xi_info :: e2ap_tnl_information
  xi_usage :: e2ap_tnl_usage

record e2_connection_update_remove_item =
  xm_info :: e2ap_tnl_information

record e2_node_connection_update =
  nx_add :: "e2_connection_update_item list"
  nx_rem :: "e2_connection_update_remove_item list"
  nx_mod :: "e2_connection_update_item list"

record e2_connection_setup_failed =
  xf_cause :: cause
  xf_info :: e2ap_tnl_information

record e2_node_connection_update_ack =
  xa_setup :: "e2_connection_update_item list"
  xa_failed :: "e2_connection_setup_failed list"

record e2_node_connection_update_failure =
  xe_cause :: cause
  xe_time_wait :: "e2ap_time_to_wait option"
  xe_crit_diag :: "criticality_diagnostics option"

record e2_removal_request =
  rm_trans_id :: u8

record e2_removal_response =
  ro_trans_id :: u8
  ro_crit :: "criticality_diagnostics option"

record e2_removal_failure =
  rx_trans_id :: u8
  rx_cause :: cause
  rx_crit :: "criticality_diagnostics option"

section \<open>What the comparisons decide\<close>

lemma eq_parts [simp]:
  "eq_opt_cause c0 c1 \<longleftrightarrow> c0 = c1" "eq_cause d0 d1 \<longleftrightarrow> d0 = d1" "eq_rejected_ran_function r0 r1 \<longleftrightarrow> r0 = r1"
  "eq_ran_function_id f0 f1 \<longleftrightarrow> f0 = f1" "eq_ran_function_id_rev v0 v1 \<longleftrightarrow> v0 = v1"
  "eq_transport_layer_information t0 t1 \<longleftrightarrow> t0 = t1"
  by (auto simp: eq_opt_cause_def eq_cause_def eq_rejected_ran_function_def eq_ran_function_id_def
      eq_ran_function_id_rev_def eq_transport_layer_information_def
      intro: rejected_ran_function.equality ran_function_id.equality e2ap_ran_function_id_rev.equality
        transport_layer_information.equality split: option.splits if_splits)

lemma eq_arr_total:
  "eq_arr (\<lambda>a b. Inr (g a b)) xs ys = Inr (list_all2 g xs ys)"
proof -
  have "length xs = length ys \<Longrightarrow> eq_loop (\<lambda>a b. Inr (g a b)) xs ys = Inr (list_all2 g xs ys)"
    by (induction xs ys rule: list_induct2) auto
  then show ?thesis by (auto simp: eq_arr_def list_all2_lengthD)
qed

lemma eq_arr_eq: "eq_arr (\<lambda>a b. Inr (a = b)) xs ys = Inr (xs = ys)"
  by (simp add: eq_arr_total list.rel_eq)

text \<open>Diagnostics are never compared: a message that has them is equal to none.\<close>

lemma eq_diagnostics: "eq_criticality_diagnostics m0 m1 = Inr (m0 = None \<and> m1 = None)"
  by (auto simp: eq_criticality_diagnostics_def)

lemma eq_subscription_failure_ok:
  "eq_ric_subscritption_failure m0 m1 = Inr (m0 = m1 \<and> sf_crit_diag m0 = None)"
  by (auto simp: eq_ric_subscritption_failure_def eq_diagnostics intro: ric_subscription_failure.equality)

lemma eq_ric_service_query_ok: "eq_ric_service_query m0 m1 = Inr (m0 = m1)"
  by (auto simp: eq_ric_service_query_def eq_arr_eq intro: ric_service_query.equality)

lemma eq_ric_service_update_ack_ok: "eq_ric_service_update_ack m0 m1 = Inr (m0 = m1)"
  by (auto simp: eq_ric_service_update_ack_def eq_arr_eq intro: ric_service_update_ack.equality)

lemma eq_error_indication_null:
  "ei_trans_id m0 = ei_trans_id m1 \<Longrightarrow> ei_ric_id m0 = None \<Longrightarrow> eq_error_indication m0 m1 = Inl UseOfNull"
  by (auto simp: eq_error_indication_def split: option.splits)

section \<open>Properties\<close>

text \<open>two updates of the services of a node are found equal exactly when they agree in the
  number of the transaction and in the added and deleted functions and differ in every modified
  function: an update that modifies a function is not equal to itself.\<close>

theorem eq_ric_service_update_inverted:
  "eq_ric_service_update m0 m1 =
     Inr (su_trans_id m0 = su_trans_id m1 \<and> su_added m0 = su_added m1 \<and> su_deleted m0 = su_deleted m1 \<and>
       list_all2 (\<lambda>a b. a \<noteq> b) (su_modified m0) (su_modified m1))"
  by (auto simp: eq_ric_service_update_def eq_arr_eq eq_arr_total [where g = "\<lambda>a b. a \<noteq> b"])

end
