(* ===== verification/E2AP_Msg_Free.thy ===== *)
theory E2AP_Msg_Free
  imports E2AP_Global_Msgs
begin

text \<open>
  The tagged union of all E2AP messages (\<open>lib/e2ap/v2_03/type_defs.h\<close>) and the release of a message
  (\<open>lib/e2ap/v2_03/free/e2ap_msg_free.c\<close>). Releasing memory has no effect of its own in the model;
  what is left of these functions are their assertions: a message that carries a part that nobody
  implemented aborts the program when it is released. The time stamp of a message, which is there
  for debugging, is not modelled.
\<close>

declare bind_res_eq_Inr [simp del]

section \<open>The message\<close>

datatype (plugins only: code) e2ap_msg =
    RIC_SUBSCRIPTION_REQUEST ric_subscription_request
  | RIC_SUBSCRIPTION_RESPONSE ric_subscription_response
  | RIC_SUBSCRIPTION_FAILURE ric_subscription_failure
  | RIC_SUBSCRIPTION_DELETE_REQUEST ric_subscription_delete_request
  | RIC_SUBSCRIPTION_DELETE_RESPONSE ric_subscription_delete_response
  | RIC_SUBSCRIPTION_DELETE_FAILURE ric_subscription_delete_failure
  | RIC_INDICATION ric_indication
  | RIC_CONTROL_REQUEST ric_control_request
  | RIC_CONTROL_ACKNOWLEDGE ric_control_acknowledge
  | RIC_CONTROL_FAILURE ric_control_failure
  | E2AP_ERROR_INDICATION e2ap_error_indication
  | E2_SETUP_REQUEST e2_setup_request
  | E2_SETUP_RESPONSE e2_setup_response
  | E2_SETUP_FAILURE e2_setup_failure
  | E2AP_RESET_REQUEST e2ap_reset_request
  | E2AP_RESET_RESPONSE e2ap_reset_response
  | RIC_SERVICE_UPDATE ric_service_update
  | RIC_SERVICE_UPDATE_ACKNOWLEDGE ric_service_update_ack
  | RIC_SERVICE_UPDATE_FAILURE ric_service_update_failure
  | RIC_SERVICE_QUERY ric_service_query
  | E2_NODE_CONFIGURATION_UPDATE e2_node_configuration_update
  | E2_NODE_CONFIGURATION_UPDATE_ACKNOWLEDGE e2_node_configuration_update_ack
  | E2_NODE_CONFIGURATION_UPDATE_FAILURE e2_node_configuration_update_failure
  | E2_CONNECTION_UPDATE e2_node_connection_update
  | E2_CONNECTION_UPDATE_ACKNOWLEDGE e2_node_connection_update_ack
  | E2_CONNECTION_UPDATE_FAILURE e2_node_connection_update_failure
  | E2_REMOVAL_REQUEST e2_removal_request
  | E2_REMOVAL_RESPONSE e2_removal_response
  | E2_REMOVAL_FAILURE e2_removal_failure
  | E42_SETUP_REQUEST e42_setup_request
  | E42_SETUP_RESPONSE e42_setup_response
  | E42_RIC_SUBSCRIPTION_REQUEST e42_ric_subscription_request
  | E42_RIC_SUBSCRIPTION_DELETE_REQUEST e42_ric_subscription_delete_request
  | E42_RIC_CONTROL_REQUEST e42_ric_control_request
  | E42_UPDATE_E2_NODE e42_update_e2_node
  | NONE_E2_MSG_TYPE

section \<open>Release\<close>

text \<open>\<open>assert(0!=0 && "Not implemented")\<close> when the optional part \<open>p\<close> is there.\<close>

definition not_implemented_if :: "'a option \<Rightarrow> unit res" where
  "not_implemented_if p = c_assert (p = None) (Inr ())"

definition free_node_config_update :: "e2_node_component_config_update \<Rightarrow> unit res" where
  "free_node_config_update dst = (case cu_update dst of
     GNB_CONFIG_UPDATE _ _ _ _ \<Rightarrow> Inr ()
   | EN_GNB_CONFIG_UPDATE _ \<Rightarrow> Inr ()
   | NG_ENB_CONFIG_UPDATE _ _ \<Rightarrow> Inr ()
   | ENB_CONFIG_UPDATE _ _ \<Rightarrow> Inr ()
   | CONFIG_UPDATE_NOTHING \<Rightarrow> Inl AssertFailed)"

definition e2ap_free_subscription_failure :: "ric_subscription_failure \<Rightarrow> unit res" where
  "e2ap_free_subscription_failure sf = not_implemented_if (sf_crit_diag sf)"

definition e2ap_free_subscription_delete_failure :: "ric_subscription_delete_failure \<Rightarrow> unit res" where
  "e2ap_free_subscription_delete_failure df = not_implemented_if (df_crit_diag df)"

definition e2ap_free_error_indication :: "e2ap_error_indication \<Rightarrow> unit res" where
  "e2ap_free_error_indication ei = not_implemented_if (ei_crit_diag ei)"

definition e2ap_free_setup_request :: "e2_setup_request \<Rightarrow> unit res" where
  "e2ap_free_setup_request sr = fold_res (\<lambda>c _. free_e2ap_node_component_config_add c) (es_comp_conf sr) ()"

definition e2ap_free_setup_response :: "e2_setup_response \<Rightarrow> unit res" where
  "e2ap_free_setup_response sr =
     bind_res (if length (et_rejected sr) > 0 then Inl AssertFailed else Inr ()) (\<lambda>_.
       c_assert (length (et_ccaa sr) > 0)
        (fold_res (\<lambda>c _. free_e2ap_node_comp_config_add_ack c) (et_ccaa sr) ()))"

definition e2ap_free_setup_failure :: "e2_setup_failure \<Rightarrow> unit res" where
  "e2ap_free_setup_failure sf = not_implemented_if (eu_crit_diag sf)"

definition e2ap_free_reset_response :: "e2ap_reset_response \<Rightarrow> unit res" where
  "e2ap_free_reset_response rr = not_implemented_if (rp_crit_diag rr)"

definition e2ap_free_service_update_failure :: "ric_service_update_failure \<Rightarrow> unit res" where
  "e2ap_free_service_update_failure uf = not_implemented_if (sx_crit_diag uf)"

definition e2ap_free_node_configuration_update :: "e2_node_configuration_update \<Rightarrow> unit res" where
  "e2ap_free_node_configuration_update cu = fold_res (\<lambda>c _. free_node_config_update c) (nu_ccul cu) ()"

definition e2ap_free_node_configuration_update_failure :: "e2_node_configuration_update_failure \<Rightarrow> unit res" where
  "e2ap_free_node_configuration_update_failure cuf = not_implemented_if (nf_crit_diag cuf)"

definition e2ap_free_node_connection_update_failure :: "e2_node_connection_update_failure \<Rightarrow> unit res" where
  "e2ap_free_node_connection_update_failure cf = not_implemented_if (xe_crit_diag cf)"

definition e2ap_free_removal_request :: "e2_removal_request \<Rightarrow> unit res" where
  "e2ap_free_removal_request rr = Inl AssertFailed"

definition e2ap_free_removal_response :: "e2_removal_response \<Rightarrow> unit res" where
  "e2ap_free_removal_response rr = Inl AssertFailed"

definition e2ap_free_removal_failure :: "e2_removal_failure \<Rightarrow> unit res" where
  "e2ap_free_removal_failure rf = Inl AssertFailed"

definition e2ap_free_e42_setup_response :: "e2_node_connected list \<Rightarrow> unit res" where
  "e2ap_free_e42_setup_response nodes = fold_res (\<lambda>n _. free_e2_node_connected n) nodes ()"

text \<open>
  \<open>e2ap_msg_free_ric\<close> and \<open>e2ap_msg_free_iapp\<close> through the table \<open>free_msg\<close>. The functions of the
  types that are not named free memory only.
\<close>

definition e2ap_msg_free :: "e2ap_msg \<Rightarrow> unit res" where
  "e2ap_msg_free msg = (case msg of
     RIC_SUBSCRIPTION_FAILURE m \<Rightarrow> e2ap_free_subscription_failure m
   | RIC_SUBSCRIPTION_DELETE_FAILURE m \<Rightarrow> e2ap_free_subscription_delete_failure m
   | E2AP_ERROR_INDICATION m \<Rightarrow> e2ap_free_error_indication m
   | E2_SETUP_REQUEST m \<Rightarrow> e2ap_free_setup_request m
   | E2_SETUP_RESPONSE m \<Rightarrow> e2ap_free_setup_response m
   | E2_SETUP_FAILURE m \<Rightarrow> e2ap_free_setup_failure m
   | E2AP_RESET_RESPONSE m \<Rightarrow> e2ap_free_reset_response m
   | RIC_SERVICE_UPDATE_FAILURE m \<Rightarrow> e2ap_free_service_update_failure m
   | E2_NODE_CONFIGURATION_UPDATE m \<Rightarrow> e2ap_free_node_configuration_update m
   | E2_NODE_CONFIGURATION_UPDATE_FAILURE m \<Rightarrow> e2ap_free_node_configuration_update_failure m
   | E2_CONNECTION_UPDATE_FAILURE m \<Rightarrow> e2ap_free_node_connection_update_failure m
   | E2_REMOVAL_REQUEST m \<Rightarrow> e2ap_free_removal_request m
   | E2_REMOVAL_RESPONSE m \<Rightarrow> e2ap_free_removal_response m
   | E2_REMOVAL_FAILURE m \<Rightarrow> e2ap_free_removal_failure m
   | E42_SETUP_RESPONSE m \<Rightarrow> e2ap_free_e42_setup_response (xp_nodes m)
   | E42_UPDATE_E2_NODE m \<Rightarrow> e2ap_free_e42_setup_response (xu_nodes m)
   | _ \<Rightarrow> Inr ())"

section \<open>Which messages can be released\<close>

lemma free_comp_ok: "comp_id_ok i \<Longrightarrow> free_e2ap_node_comp_id i = Inr ()"
  by (cases i) (simp_all add: free_e2ap_node_comp_id_def)

lemma fold_unit_ok: "\<forall>x \<in> set xs. f x = Inr () \<Longrightarrow> fold_res (\<lambda>x _. f x) xs () = Inr ()"
  by (induction xs) auto

lemma free_setup_request_ok:
  "\<forall>c \<in> set (es_comp_conf sr). comp_id_ok (ca_id c) \<Longrightarrow> e2ap_msg_free (E2_SETUP_REQUEST sr) = Inr ()"
  by (auto simp: e2ap_msg_free_def e2ap_free_setup_request_def free_e2ap_node_component_config_add_def
      intro!: fold_unit_ok free_comp_ok)

lemma free_setup_response_ok:
  "et_rejected sr = [] \<Longrightarrow> et_ccaa sr \<noteq> [] \<Longrightarrow>
   \<forall>c \<in> set (et_ccaa sr). comp_id_ok (cx_id c) \<and> ak_cause (cx_ack c) = None \<Longrightarrow>
   e2ap_msg_free (E2_SETUP_RESPONSE sr) = Inr ()"
  by (auto simp: e2ap_msg_free_def e2ap_free_setup_response_def free_e2ap_node_comp_config_add_ack_def
      free_e2ap_node_comp_conf_ack_def free_comp_ok intro!: fold_unit_ok)

lemma free_functional_ok [simp]:
  "e2ap_msg_free NONE_E2_MSG_TYPE = Inr ()" "e2ap_msg_free (RIC_SUBSCRIPTION_RESPONSE a) = Inr ()"
  "e2ap_msg_free (RIC_SUBSCRIPTION_DELETE_RESPONSE b) = Inr ()" "e2ap_msg_free (RIC_INDICATION c) = Inr ()"
  "e2ap_msg_free (RIC_CONTROL_ACKNOWLEDGE d) = Inr ()" "e2ap_msg_free (E42_SETUP_REQUEST e) = Inr ()"
  "e2ap_msg_free (E42_RIC_SUBSCRIPTION_REQUEST f) = Inr ()"
  "e2ap_msg_free (E42_RIC_SUBSCRIPTION_DELETE_REQUEST g) = Inr ()"
  "e2ap_msg_free (E42_RIC_CONTROL_REQUEST h) = Inr ()"
  by (simp_all add: e2ap_msg_free_def)

end
