(* ===== verification/Near_Ric.thy ===== *)
theory Near_Ric
  imports Pending_Events Container_Loops E2AP_Msg_Free
begin

text \<open>
  The near-RT RIC (\<open>ric/near_ric.c\<close>) with its event queue (\<open>ric/asio_ric.c\<close>), its endpoint
  (\<open>ric/endpoint_ric.c\<close>), the look-up of service models (\<open>ric/plugin_ric.c\<close>) and the nodes it
  knows (\<open>ric/e2_node.c\<close>): its state, what it sends, and the requests it forwards to the E2 nodes,
  each with a pending event and a timer. The handlers of the messages it receives are in
  \<open>Ric_Handlers\<close>.

  What is outside the program is a parameter of the state: the codec \<open>ap\<close> between messages and
  bytes (generated ASN.1 code), the service models, which are loaded at run time, and the file
  descriptors that the operating system hands out for timers, which each operation that creates a
  timer takes as an argument. \<open>'c\<close> are the commands of the service models, \<open>'i\<close> their
  indications. What is handed to the socket is appended to \<open>nr_sent\<close>, what is handed to a listener
  to \<open>nr_published\<close>.
\<close>

declare bind_res_eq_Inr [simp del]

section \<open>The event queue\<close>

record itimerspec =
  it_value_sec :: int
  it_value_nsec :: int
  it_interval_sec :: int
  it_interval_nsec :: int

record asio_ric =
  io_fds :: "int list"
  io_timers :: "int \<rightharpoonup> itimerspec"

definition init_asio_ric :: asio_ric where
  "init_asio_ric = \<lparr>io_fds = [], io_timers = Map.empty\<rparr>"

text \<open>\<open>epoll_ctl\<close> refuses to add a descriptor twice and to remove one that is not there.\<close>

definition add_fd_asio_ric :: "asio_ric \<Rightarrow> int \<Rightarrow> asio_ric res" where
  "add_fd_asio_ric io fd =
     c_assert (fd > 0) (c_assert (fd \<notin> set (io_fds io)) (Inr (io\<lparr>io_fds := fd # io_fds io\<rparr>)))"

definition create_timer_ms_asio_ric :: "asio_ric \<Rightarrow> int \<Rightarrow> int \<Rightarrow> int \<Rightarrow> asio_ric res" where
  "create_timer_ms_asio_ric io tfd initial_ms interval_ms =
     c_assert (initial_ms > 0) (c_assert (interval_ms > 0) (c_assert (tfd \<noteq> -1)
      (let new_value =
         \<lparr>it_value_sec = initial_ms div 1000, it_value_nsec = (initial_ms * 1000000) mod 1000000000,
          it_interval_sec = interval_ms div 1000,
          it_interval_nsec = (interval_ms * 1000000) mod 1000000000\<rparr>
       in add_fd_asio_ric (io\<lparr>io_timers := (io_timers io)(tfd \<mapsto> new_value)\<rparr>) tfd)))"

definition rm_fd_asio_ric :: "asio_ric \<Rightarrow> int \<Rightarrow> asio_ric res" where
  "rm_fd_asio_ric io fd =
     c_assert (fd \<in> set (io_fds io))
      (Inr (io\<lparr>io_fds := remove1 fd (io_fds io), io_timers := (io_timers io)(fd := None)\<rparr>))"

section \<open>Service models and listeners\<close>

record sm_subs_data =
  sb_event_trigger :: byte_array
  sb_action_def :: "byte_array option"

record sm_ctrl_req_data =
  sc_ctrl_hdr :: byte_array
  sc_ctrl_msg :: byte_array

record sm_ind_data =
  sid_hdr :: byte_array
  sid_msg :: byte_array
  sid_call_process_id :: "byte_array option"

datatype ind_stats_type =
    MAC_STATS_V0 | RLC_STATS_V0 | PDCP_STATS_V0 | SLICE_STATS_V0 | TC_STATS_V0 | GTP_STATS_V0
  | KPM_STATS_V3_0 | RAN_CTRL_STATS_V1_03 | SM_AGENT_IF_READ_V0_END

record 'i sm_ag_if_rd_ind =
  ri_type :: ind_stats_type
  ri_data :: 'i

record ('c, 'i) sm_ric =
  sm_ran_func_id :: u16
  on_subscription :: "'c \<Rightarrow> sm_subs_data"
  on_control_req :: "'c \<Rightarrow> sm_ctrl_req_data"
  on_indication :: "sm_ind_data \<Rightarrow> 'i sm_ag_if_rd_ind"

text \<open>A listener; its function is known by its name.\<close>

record subs_ric =
  subs_name :: string

definition SUBS_RIC_SZ :: nat where
  "SUBS_RIC_SZ = 40"

section \<open>E2 nodes\<close>

record e2_node =
  n2_id :: global_e2_node_id
  n2_accepted :: "u16 list"

definition E2_NODE_SZ :: nat where
  "E2_NODE_SZ = 48"

definition init_e2_node :: "global_e2_node_id \<Rightarrow> u16 list \<Rightarrow> e2_node" where
  "init_e2_node i accepted =
     \<lparr>n2_id = \<lparr>gn_type = gn_type i, gn_plmn = gn_plmn i,
        gn_nb_id = \<lparr>nb_id = nb_id (gn_nb_id i), unused = unused (gn_nb_id i)\<rparr>,
        gn_cu_du_id = gn_cu_du_id i\<rparr>,
      n2_accepted = accepted\<rparr>"

definition cp_e2_node :: "e2_node \<Rightarrow> e2_node" where
  "cp_e2_node src =
     \<lparr>n2_id = cp_global_e2_node_id (n2_id src),
      n2_accepted = map (\<lambda>i. n2_accepted src ! i) [0..<length (n2_accepted src)]\<rparr>"

section \<open>The RIC\<close>

record e2ap_ap =
  ap_enc :: "e2ap_msg \<Rightarrow> byte_array"
  ap_dec :: "byte_array \<Rightarrow> e2ap_msg"

record ('c, 'i) near_ric =
  nr_fd :: int
  nr_e2_nodes :: map_e2_node_sockaddr
  nr_sent :: "(sctp_info \<times> byte_array) list"
  nr_ap :: e2ap_ap
  nr_io :: asio_ric
  nr_sm_ds :: "(u16, ('c, 'i) sm_ric) rb_tree"
  nr_pub_sub :: "(u16, subs_ric seq_arr) rb_tree"
  nr_published :: "(subs_ric \<times> 'i sm_ag_if_rd_ind) list"
  nr_conn_e2_nodes :: "e2_node seq_arr"
  nr_req_id :: u32
  nr_pending :: pending_ric

definition sm_plugin_ric :: "(u16, ('c, 'i) sm_ric) rb_tree \<Rightarrow> u16 \<Rightarrow> ('c, 'i) sm_ric res" where
  "sm_plugin_ric sm_ds rfid =
     c_assert (rfid > 0)
      (bind_res (search sm_ds rfid eq_ran_func_id) (\<lambda>it.
        c_assert (it \<noteq> assoc_rb_tree_end sm_ds)
         (bind_res (assoc_rb_tree_value sm_ds it) (\<lambda>sm.
           c_assert (sm_ran_func_id sm = rfid) (Inr sm)))))"

definition size_plugin_ric :: "(u16, ('c, 'i) sm_ric) rb_tree \<Rightarrow> nat" where
  "size_plugin_ric sm_ds = assoc_rb_tree_size sm_ds"

definition register_listeners_for_ran_func_id ::
  "(u16, subs_ric seq_arr) rb_tree \<Rightarrow> u16 \<Rightarrow> subs_ric \<Rightarrow> (u16, subs_ric seq_arr) rb_tree res" where
  "register_listeners_for_ran_func_id pub_sub rfid subs =
     bind_res (search pub_sub rfid eq_ran_func_id) (\<lambda>it.
       if it = assoc_rb_tree_end pub_sub
       then bind_res (seq_arr_push_back (seq_arr_init SUBS_RIC_SZ) subs SUBS_RIC_SZ) (\<lambda>arr.
              assoc_rb_tree_insert pub_sub rfid 2 arr)
       else bind_res (assoc_rb_tree_value pub_sub it) (\<lambda>arr.
            bind_res (seq_arr_push_back arr subs SUBS_RIC_SZ) (\<lambda>arr.
              wr it (\<lambda>n. n\<lparr>n_value := Some arr\<rparr>) pub_sub)))"

definition load_default_pub_sub_ric ::
  "(u16, ('c, 'i) sm_ric) rb_tree \<Rightarrow> (u16, subs_ric seq_arr) rb_tree \<Rightarrow> (u16, subs_ric seq_arr) rb_tree res" where
  "load_default_pub_sub_ric sm_ds pub_sub =
     rb_for_all sm_ds (\<lambda>rfid _ ps.
       bind_res (register_listeners_for_ran_func_id ps rfid \<lparr>subs_name = ''redis listener''\<rparr>) (\<lambda>ps.
         register_listeners_for_ran_func_id ps rfid \<lparr>subs_name = ''influx listener''\<rparr>)) pub_sub"

definition init_pub_sub_ds_ric :: "(u16, subs_ric seq_arr) rb_tree res" where
  "init_pub_sub_ds_ric = assoc_rb_tree_init 2 cmp_ran_func_id"

definition init_e2_nodes_ric :: "e2_node seq_arr" where
  "init_e2_nodes_ric = seq_arr_init E2_NODE_SZ"

text \<open>
  The listening socket \<open>fd\<close>, the codec and the service models that were found are given; the iApp
  that \<open>init_near_ric\<close> starts is initialised in \<open>Iapp_Handlers\<close>.
\<close>

definition init_near_ric ::
  "int \<Rightarrow> e2ap_ap \<Rightarrow> (u16, ('c, 'i) sm_ric) rb_tree \<Rightarrow> ('c, 'i) near_ric res" where
  "init_near_ric fd ap sm_ds =
     bind_res init_map_e2_node_sad (\<lambda>nodes.
     bind_res (add_fd_asio_ric init_asio_ric fd) (\<lambda>io.
     bind_res init_pub_sub_ds_ric (\<lambda>pub_sub.
     bind_res (load_default_pub_sub_ric sm_ds pub_sub) (\<lambda>pub_sub.
     bind_res init_pending_events (\<lambda>pending.
       Inr \<lparr>nr_fd = fd, nr_e2_nodes = nodes, nr_sent = [], nr_ap = ap, nr_io = io, nr_sm_ds = sm_ds,
            nr_pub_sub = pub_sub, nr_published = [], nr_conn_e2_nodes = init_e2_nodes_ric,
            nr_req_id = 1021, nr_pending = pending\<rparr>)))))"

text \<open>The copy shares the arrays of accepted functions with the original.\<close>

definition conn_e2_nodes :: "('c, 'i) near_ric \<Rightarrow> e2_node seq_arr res" where
  "conn_e2_nodes ric =
     arr_for_all (nr_conn_e2_nodes ric) (\<lambda>n arr. seq_arr_push_back arr n E2_NODE_SZ) (seq_arr_init E2_NODE_SZ)"

subsection \<open>The endpoint\<close>

definition e2ap_send_sctp_msg_ric :: "('c, 'i) near_ric \<Rightarrow> sctp_info \<Rightarrow> byte_array \<Rightarrow> ('c, 'i) near_ric res" where
  "e2ap_send_sctp_msg_ric ric info ba =
     c_assert (length ba > 0) (Inr (ric\<lparr>nr_sent := nr_sent ric @ [(info, ba)]\<rparr>))"

definition e2ap_send_bytes_ric ::
  "('c, 'i) near_ric \<Rightarrow> global_e2_node_id \<Rightarrow> byte_array \<Rightarrow> ('c, 'i) near_ric res" where
  "e2ap_send_bytes_ric ric i ba =
     c_assert (length ba > 0)
      (bind_res (find_map_e2_node_sad (nr_e2_nodes ric) i) (\<lambda>s. e2ap_send_sctp_msg_ric ric s ba))"

definition e2ap_reg_sock_addr_ric ::
  "('c, 'i) near_ric \<Rightarrow> global_e2_node_id \<Rightarrow> sctp_info \<Rightarrow> ('c, 'i) near_ric res" where
  "e2ap_reg_sock_addr_ric ric i s =
     map_res (\<lambda>m. ric\<lparr>nr_e2_nodes := m\<rparr>) (add_map_e2_node_sad (nr_e2_nodes ric) i s)"

definition e2ap_rm_sock_addr_ric ::
  "('c, 'i) near_ric \<Rightarrow> sctp_info \<Rightarrow> (global_e2_node_id \<times> ('c, 'i) near_ric) res" where
  "e2ap_rm_sock_addr_ric ric s =
     map_res (\<lambda>(i, m). (i, ric\<lparr>nr_e2_nodes := m\<rparr>)) (rm_map_sad_e2_node (nr_e2_nodes ric) s)"

subsection \<open>Pending events\<close>

text \<open>
  The part all requests share: a timer of \<open>wait_ms\<close> milliseconds, whose descriptor \<open>tfd\<close> the
  operating system chose, and the event it stands for.
\<close>

definition start_pending :: "('c, 'i) near_ric \<Rightarrow> int \<Rightarrow> int \<Rightarrow> pending_event_ric \<Rightarrow> ('c, 'i) near_ric res" where
  "start_pending ric tfd wait_ms ev =
     bind_res (create_timer_ms_asio_ric (nr_io ric) tfd wait_ms wait_ms) (\<lambda>io.
     bind_res (bi_map_insert (nr_pending ric) tfd 4 ev EVENT_SZ) (\<lambda>pending.
       Inr (ric\<lparr>nr_io := io, nr_pending := pending\<rparr>)))"

definition stop_pending_event :: "('c, 'i) near_ric \<Rightarrow> pending_event_ric \<Rightarrow> ('c, 'i) near_ric res" where
  "stop_pending_event ric ev =
     bind_res (bi_map_extract_right (nr_pending ric) ev EVENT_SZ) (\<lambda>(fd, pending).
       c_assert (fd > 0)
        (bind_res (rm_fd_asio_ric (nr_io ric) fd) (\<lambda>io.
          Inr (ric\<lparr>nr_io := io, nr_pending := pending\<rparr>))))"

definition pend_event :: "('c, 'i) near_ric \<Rightarrow> int \<Rightarrow> pending_event_ric res" where
  "pend_event ric fd =
     c_assert (fd > 0)
      (bind_res (search (bm_left (nr_pending ric)) fd eq_fd) (\<lambda>it.
        c_assert (it \<noteq> assoc_rb_tree_end (bm_left (nr_pending ric)))
         (assoc_rb_tree_value (bm_left (nr_pending ric)) it)))"

subsection \<open>Requests of the RIC itself\<close>

definition generate_subscription_request ::
  "('c, 'i) near_ric \<Rightarrow> ('c, 'i) sm_ric \<Rightarrow> u16 \<Rightarrow> 'c \<Rightarrow> ric_subscription_request \<times> ('c, 'i) near_ric" where
  "generate_subscription_request ric sm rfid cmd =
     (let ric_id = \<lparr>ric_req_id = nr_req_id ric, ric_inst_id = 0, ran_func_id = rfid\<rparr>;
          data = on_subscription sm cmd in
      (\<lparr>sr_ric_id = ric_id, sr_event_trigger = sb_event_trigger data,
        sr_action = [\<lparr>ra_id = 0, ra_type = RIC_ACT_REPORT, ra_definition = sb_action_def data,
                      ra_subseq = None\<rparr>]\<rparr>,
       ric\<lparr>nr_req_id := nr_req_id ric + 1\<rparr>))"

definition report_service_near_ric ::
  "('c, 'i) near_ric \<Rightarrow> int \<Rightarrow> global_e2_node_id \<Rightarrow> u16 \<Rightarrow> 'c \<Rightarrow> (u16 \<times> ('c, 'i) near_ric) res" where
  "report_service_near_ric ric tfd i rfid cmd =
     c_assert (rfid \<noteq> 0) (c_assert (rfid < 150)
      (bind_res (sm_plugin_ric (nr_sm_ds ric) rfid) (\<lambda>sm.
       let (sr, ric) = generate_subscription_request ric sm rfid cmd;
           ev = \<lparr>pe_ev = SUBSCRIPTION_REQUEST_PENDING_EVENT, pe_id = sr_ric_id sr\<rparr> in
       bind_res (start_pending ric tfd 3000 ev) (\<lambda>ric.
       let ba_msg = ap_enc (nr_ap ric) (RIC_SUBSCRIPTION_REQUEST sr) in
       bind_res (e2ap_send_bytes_ric ric i ba_msg) (\<lambda>ric.
         Inr (ucast (ric_req_id (sr_ric_id sr)), ric))))))"

definition rm_report_service_near_ric ::
  "('c, 'i) near_ric \<Rightarrow> int \<Rightarrow> global_e2_node_id \<Rightarrow> u16 \<Rightarrow> u16 \<Rightarrow> ('c, 'i) near_ric res" where
  "rm_report_service_near_ric ric tfd i rfid act_id =
     c_assert (act_id > 0)
      (let sd = \<lparr>sd_ric_id = \<lparr>ric_req_id = ucast act_id, ric_inst_id = 0, ran_func_id = rfid\<rparr>\<rparr>;
           ev = \<lparr>pe_ev = SUBSCRIPTION_DELETE_REQUEST_PENDING_EVENT, pe_id = sd_ric_id sd\<rparr> in
       bind_res (start_pending ric tfd 3000 ev) (\<lambda>ric.
         e2ap_send_bytes_ric ric i (ap_enc (nr_ap ric) (RIC_SUBSCRIPTION_DELETE_REQUEST sd))))"

definition generate_control_request ::
  "('c, 'i) near_ric \<Rightarrow> ('c, 'i) sm_ric \<Rightarrow> 'c \<Rightarrow> ric_control_request \<times> ('c, 'i) near_ric" where
  "generate_control_request ric sm ctrl =
     (let ric_id = \<lparr>ric_req_id = nr_req_id ric, ric_inst_id = 0, ran_func_id = sm_ran_func_id sm\<rparr>;
          data = on_control_req sm ctrl in
      (\<lparr>cr_ric_id = ric_id, cr_call_process_id = None, cr_hdr = sc_ctrl_hdr data,
        cr_msg = sc_ctrl_msg data, cr_ack_req = Some RIC_CONTROL_REQUEST_ACK\<rparr>,
       ric\<lparr>nr_req_id := nr_req_id ric + 1\<rparr>))"

definition control_service_near_ric ::
  "('c, 'i) near_ric \<Rightarrow> int \<Rightarrow> global_e2_node_id \<Rightarrow> u16 \<Rightarrow> 'c \<Rightarrow> ('c, 'i) near_ric res" where
  "control_service_near_ric ric tfd i rfid ctrl =
     c_assert (rfid > 0) (c_assert (rfid = 3 \<or> rfid = 145 \<or> rfid = 146)
      (bind_res (sm_plugin_ric (nr_sm_ds ric) rfid) (\<lambda>sm.
       let (ctrl_req, ric) = generate_control_request ric sm ctrl;
           ev = \<lparr>pe_ev = CONTROL_REQUEST_PENDING_EVENT, pe_id = cr_ric_id ctrl_req\<rparr> in
       bind_res (start_pending ric tfd 5000 ev) (\<lambda>ric.
         e2ap_send_bytes_ric ric i (ap_enc (nr_ap ric) (RIC_CONTROL_REQUEST ctrl_req))))))"

subsection \<open>Requests forwarded for the xApps\<close>

text \<open>
  \<open>*(uint16_t*)&id = n\<close> writes the lower half of the 32-bit number (on a little-endian machine).
  \<open>req_id++\<close> is cut to 16 bits when it is stored in \<open>ric_req_id\<close>.
\<close>

definition set_low16 :: "u32 \<Rightarrow> u16 \<Rightarrow> u32" where
  "set_low16 w n = or (and w (not (mask 16))) (ucast n)"

definition set_req_id :: "u16 \<Rightarrow> ric_gen_id \<Rightarrow> ric_gen_id" where
  "set_req_id n i = i\<lparr>ric_req_id := set_low16 (ric_req_id i) n\<rparr>"

text \<open>The result: the number, the request as it is left to the caller, and the RIC.\<close>

definition fwd_ric_subscription_request ::
  "('c, 'i) near_ric \<Rightarrow> int \<Rightarrow> global_e2_node_id \<Rightarrow> ric_subscription_request \<Rightarrow>
   (u16 \<times> ric_subscription_request \<times> ('c, 'i) near_ric) res" where
  "fwd_ric_subscription_request ric tfd i sr =
     (let ric_req_id = ucast (nr_req_id ric);
          ric = ric\<lparr>nr_req_id := nr_req_id ric + 1\<rparr>;
          sr = sr\<lparr>sr_ric_id := set_req_id ric_req_id (sr_ric_id sr)\<rparr>;
          ev = \<lparr>pe_ev = SUBSCRIPTION_REQUEST_PENDING_EVENT, pe_id = sr_ric_id sr\<rparr> in
      bind_res (start_pending ric tfd 3000 ev) (\<lambda>ric.
      bind_res (e2ap_send_bytes_ric ric i (ap_enc (nr_ap ric) (RIC_SUBSCRIPTION_REQUEST sr))) (\<lambda>ric.
        Inr (ric_req_id, sr, ric))))"

definition fwd_ric_subscription_request_delete ::
  "('c, 'i) near_ric \<Rightarrow> int \<Rightarrow> global_e2_node_id \<Rightarrow> ric_subscription_delete_request \<Rightarrow> ('c, 'i) near_ric res" where
  "fwd_ric_subscription_request_delete ric tfd i sdr =
     (let ev = \<lparr>pe_ev = SUBSCRIPTION_DELETE_REQUEST_PENDING_EVENT, pe_id = sd_ric_id sdr\<rparr>;
          tree = bm_right (nr_pending ric) in
      bind_res (search tree ev eq_pending_event_ric) (\<lambda>it.
        if it \<noteq> assoc_rb_tree_end tree then Inr ric
        else bind_res (start_pending ric tfd 3000 ev) (\<lambda>ric.
          e2ap_send_bytes_ric ric i (ap_enc (nr_ap ric) (RIC_SUBSCRIPTION_DELETE_REQUEST sdr)))))"

definition fwd_ric_control_request ::
  "('c, 'i) near_ric \<Rightarrow> int \<Rightarrow> global_e2_node_id \<Rightarrow> ric_control_request \<Rightarrow>
   (u16 \<times> ric_control_request \<times> ('c, 'i) near_ric) res" where
  "fwd_ric_control_request ric tfd i cr =
     (let ric_req_id = ucast (nr_req_id ric);
          ric = ric\<lparr>nr_req_id := nr_req_id ric + 1\<rparr>;
          cr = cr\<lparr>cr_ric_id := set_req_id ric_req_id (cr_ric_id cr)\<rparr>;
          ev = \<lparr>pe_ev = CONTROL_REQUEST_PENDING_EVENT, pe_id = cr_ric_id cr\<rparr> in
      bind_res (start_pending ric tfd 3000 ev) (\<lambda>ric.
      bind_res (e2ap_send_bytes_ric ric i (ap_enc (nr_ap ric) (RIC_CONTROL_REQUEST cr))) (\<lambda>ric.
        Inr (ric_req_id, cr, ric))))"

section \<open>The state and what the operations do to it\<close>

definition pend :: "('c, 'i) near_ric \<Rightarrow> (int \<times> pending_event_ric) set" where
  "pend ric = pairs_of (nr_pending ric)"

text \<open>
  Every timer that is waited for has a descriptor in the event queue; the containers are well
  formed.
\<close>

definition near_ric_inv :: "('c, 'i) near_ric \<Rightarrow> bool" where
  "near_ric_inv ric \<longleftrightarrow>
     pends_inv (nr_pending ric) \<and> nodes_inv (nr_e2_nodes ric) \<and>
     distinct (io_fds (nr_io ric)) \<and> (\<forall>fd \<in> set (io_fds (nr_io ric)). fd > 0) \<and>
     fst ` pend ric \<subseteq> set (io_fds (nr_io ric)) \<and>
     arr_inv (nr_conn_e2_nodes ric) \<and> sa_elt_size (nr_conn_e2_nodes ric) = E2_NODE_SZ"

text \<open>A descriptor as \<open>timerfd_create\<close> returns it: positive and not in use.\<close>

definition fresh_fd :: "('c, 'i) near_ric \<Rightarrow> int \<Rightarrow> bool" where
  "fresh_fd ric fd \<longleftrightarrow> fd > 0 \<and> fd \<notin> set (io_fds (nr_io ric))"

text \<open>The endpoint of a node.\<close>

definition node_at :: "('c, 'i) near_ric \<Rightarrow> global_e2_node_id \<Rightarrow> sctp_info \<Rightarrow> bool" where
  "node_at ric i s \<longleftrightarrow> valid_node_id i \<and> (\<exists>j. (j, s) \<in> pairs_of (nr_e2_nodes ric) \<and> same_node j i)"

text \<open>A timer that fires after \<open>ms\<close> milliseconds and then again every \<open>ms\<close> milliseconds.\<close>

definition fires_every :: "int \<Rightarrow> itimerspec \<Rightarrow> bool" where
  "fires_every ms t \<longleftrightarrow>
     1000000000 * it_value_sec t + it_value_nsec t = 1000000 * ms \<and>
     1000000000 * it_interval_sec t + it_interval_nsec t = 1000000 * ms \<and>
     0 \<le> it_value_nsec t \<and> it_value_nsec t < 1000000000"

definition ms_timer :: "int \<Rightarrow> itimerspec" where
  "ms_timer ms = \<lparr>it_value_sec = ms div 1000, it_value_nsec = (ms * 1000000) mod 1000000000,
     it_interval_sec = ms div 1000, it_interval_nsec = (ms * 1000000) mod 1000000000\<rparr>"

lemma ms_timer_fires: "fires_every ms (ms_timer ms)"
proof -
  have m: "(ms * 1000000) mod 1000000000 = (ms mod 1000) * 1000000"
    using mult_mod_right [of 1000000 ms 1000] by (simp add: mult.commute)
  have f: "1000000000 * x + y * 1000000 = 1000000 * (1000 * x + y)" for x y :: int by simp
  have "1000000000 * (ms div 1000) + ms mod 1000 * 1000000 = 1000000 * (1000 * (ms div 1000) + ms mod 1000)"
    by (rule f)
  also have "1000 * (ms div 1000) + ms mod 1000 = ms" by simp
  finally show ?thesis using pos_mod_bound [of 1000 ms] by (simp add: fires_every_def ms_timer_def m)
qed

lemma timer_ms:
  assumes "0 < ms" "fd > 0" "fd \<notin> set (io_fds io)"
  shows "create_timer_ms_asio_ric io fd ms ms =
    Inr (io\<lparr>io_fds := fd # io_fds io, io_timers := (io_timers io)(fd \<mapsto> ms_timer ms)\<rparr>)"
  using assms by (simp add: create_timer_ms_asio_ric_def add_fd_asio_ric_def Let_def ms_timer_def)

lemma start_pending_ok:
  assumes inv: "near_ric_inv ric" and fd: "fresh_fd ric tfd" and ev: "ev \<notin> snd ` pend ric" and ms: "0 < ms"
  shows "\<exists>io p t. start_pending ric tfd ms ev = Inr (ric\<lparr>nr_io := io, nr_pending := p\<rparr>) \<and>
    near_ric_inv (ric\<lparr>nr_io := io, nr_pending := p\<rparr>) \<and> pairs_of p = insert (tfd, ev) (pend ric) \<and>
    io_fds io = tfd # io_fds (nr_io ric) \<and> io_timers io = (io_timers (nr_io ric))(tfd \<mapsto> t) \<and> fires_every ms t"
proof -
  obtain io t where io: "create_timer_ms_asio_ric (nr_io ric) tfd ms ms = Inr io"
    "io_fds io = tfd # io_fds (nr_io ric)" "io_timers io = (io_timers (nr_io ric))(tfd \<mapsto> t)" "fires_every ms t"
    using timer_ms [OF ms, of tfd "nr_io ric"] ms_timer_fires [of ms] fd by (simp add: fresh_fd_def)
  have "tfd \<notin> fst ` pairs_of (nr_pending ric)"
    using inv fd by (auto simp: near_ric_inv_def fresh_fd_def pend_def)
  with inv fd ev obtain p where p: "bi_map_insert (nr_pending ric) tfd 4 ev EVENT_SZ = Inr p" "pends_inv p"
    "pairs_of p = insert (tfd, ev) (pend ric)"
    using pending_insert_ok [of "nr_pending ric" tfd ev] by (auto simp: near_ric_inv_def fresh_fd_def pend_def)
  show ?thesis
    using inv fd io p by (intro exI [of _ io] exI [of _ p] exI [of _ t])
      (auto simp: start_pending_def near_ric_inv_def pend_def fresh_fd_def)
qed

lemma stop_pending_event_ok:
  assumes inv: "near_ric_inv ric" and p: "(fd, ev) \<in> pend ric"
  shows "\<exists>io p. stop_pending_event ric ev = Inr (ric\<lparr>nr_io := io, nr_pending := p\<rparr>) \<and>
    near_ric_inv (ric\<lparr>nr_io := io, nr_pending := p\<rparr>) \<and> pairs_of p = pend ric - {(fd, ev)} \<and>
    io_fds io = remove1 fd (io_fds (nr_io ric)) \<and> io_timers io = (io_timers (nr_io ric))(fd := None)"
proof -
  have pi: "pends_inv (nr_pending ric)" using inv by (simp add: near_ric_inv_def)
  obtain p' where p': "bi_map_extract_right (nr_pending ric) ev EVENT_SZ = Inr (fd, p')" "pends_inv p'"
    "pairs_of p' = pend ric - {(fd, ev)}"
    using pending_extract_ok [OF pi, of fd ev] p unfolding pend_def by blast
  have fd: "fd \<in> set (io_fds (nr_io ric))" "fd > 0"
    using inv p by (force simp: near_ric_inv_def)+
  have "fd \<notin> fst ` (pend ric - {(fd, ev)})"
    using pends_unique(1) [OF pi, of fd ev] p by (force simp: pend_def)
  then have "fst ` (pend ric - {(fd, ev)}) \<subseteq> set (remove1 fd (io_fds (nr_io ric)))"
    using inv by (auto simp: near_ric_inv_def)
  then show ?thesis
    using inv p' fd
    by (intro exI [of _ "(nr_io ric)\<lparr>io_fds := remove1 fd (io_fds (nr_io ric)),
          io_timers := (io_timers (nr_io ric))(fd := None)\<rparr>"] exI [of _ p'])
      (auto simp: stop_pending_event_def rm_fd_asio_ric_def near_ric_inv_def pend_def)
qed

lemma stop_pending_event_missing:
  "near_ric_inv ric \<Longrightarrow> ev \<notin> snd ` pend ric \<Longrightarrow> stop_pending_event ric ev = Inl AssertFailed"
  using pending_extract_missing [of "nr_pending ric" ev]
  by (simp add: stop_pending_event_def near_ric_inv_def pend_def)

lemma send_bytes_ok:
  assumes inv: "near_ric_inv ric" and i: "node_at ric i s" and ba: "ba \<noteq> []"
  shows "e2ap_send_bytes_ric ric i ba = Inr (ric\<lparr>nr_sent := nr_sent ric @ [(s, ba)]\<rparr>)"
proof -
  have m: "nodes_inv (nr_e2_nodes ric)" using inv by (simp add: near_ric_inv_def)
  obtain j where j: "valid_node_id i" "(j, s) \<in> pairs_of (nr_e2_nodes ric)" "same_node j i"
    using i by (auto simp: node_at_def)
  from find_map_e2_node_sad_ok [OF m j(1)] j(2,3) obtain j' s' where
    "(j', s') \<in> pairs_of (nr_e2_nodes ric)" "same_node j' i" "find_map_e2_node_sad (nr_e2_nodes ric) i = Inr s'"
    by (auto split: if_splits)
  with nodes_unique(1) [OF m j(2), of j' s'] j(3) ba show ?thesis
    by (auto simp: e2ap_send_bytes_ric_def e2ap_send_sctp_msg_ric_def)
qed

lemma send_bytes_unknown:
  assumes "near_ric_inv ric" "valid_node_id i" "\<nexists>s. node_at ric i s"
  shows "e2ap_send_bytes_ric ric i ba = Inl AssertFailed"
  using assms find_map_e2_node_sad_ok [of "nr_e2_nodes ric" i]
  by (cases "ba = []") (auto simp: e2ap_send_bytes_ric_def near_ric_inv_def node_at_def split: if_splits)

text \<open>What goes out changes neither the invariant nor what is pending.\<close>

lemma near_ric_inv_simps [simp]:
  "near_ric_inv (ric\<lparr>nr_sent := x\<rparr>) = near_ric_inv ric" "near_ric_inv (ric\<lparr>nr_req_id := n\<rparr>) = near_ric_inv ric"
  "near_ric_inv (ric\<lparr>nr_published := ps\<rparr>) = near_ric_inv ric"
  "pend (ric\<lparr>nr_sent := x\<rparr>) = pend ric" "pend (ric\<lparr>nr_req_id := n\<rparr>) = pend ric"
  "pend (ric\<lparr>nr_published := ps\<rparr>) = pend ric" "pend (ric\<lparr>nr_io := io, nr_pending := p\<rparr>) = pairs_of p"
  "fresh_fd (ric\<lparr>nr_req_id := n\<rparr>) = fresh_fd ric" "fresh_fd (ric\<lparr>nr_sent := x\<rparr>) = fresh_fd ric"
  "node_at (ric\<lparr>nr_sent := x\<rparr>) = node_at ric" "node_at (ric\<lparr>nr_req_id := n\<rparr>) = node_at ric"
  "node_at (ric\<lparr>nr_published := ps\<rparr>) = node_at ric" "node_at (ric\<lparr>nr_io := io, nr_pending := p\<rparr>) = node_at ric"
  by (simp_all add: near_ric_inv_def pend_def fresh_fd_def node_at_def fun_eq_iff)

text \<open>Every request: a new pending event with its timer and a message to the node.\<close>

lemma request_ok:
  assumes inv: "near_ric_inv ric" and fd: "fresh_fd ric tfd" and ev: "ev \<notin> snd ` pend ric" and ms: "0 < ms"
    and i: "node_at ric i s" and ba: "ba \<noteq> []"
  shows "\<exists>io p t. bind_res (start_pending ric tfd ms ev) (\<lambda>ric. bind_res (e2ap_send_bytes_ric ric i ba) k) =
      k (ric\<lparr>nr_io := io, nr_pending := p, nr_sent := nr_sent ric @ [(s, ba)]\<rparr>) \<and>
    near_ric_inv (ric\<lparr>nr_io := io, nr_pending := p\<rparr>) \<and> pairs_of p = insert (tfd, ev) (pend ric) \<and>
    io_fds io = tfd # io_fds (nr_io ric) \<and> io_timers io = (io_timers (nr_io ric))(tfd \<mapsto> t) \<and> fires_every ms t"
proof -
  obtain io p t where s: "start_pending ric tfd ms ev = Inr (ric\<lparr>nr_io := io, nr_pending := p\<rparr>)"
    "near_ric_inv (ric\<lparr>nr_io := io, nr_pending := p\<rparr>)" "pairs_of p = insert (tfd, ev) (pend ric)"
    "io_fds io = tfd # io_fds (nr_io ric)" "io_timers io = (io_timers (nr_io ric))(tfd \<mapsto> t)" "fires_every ms t"
    using start_pending_ok [OF inv fd ev ms] by blast
  have "e2ap_send_bytes_ric (ric\<lparr>nr_io := io, nr_pending := p\<rparr>) i ba =
      Inr (ric\<lparr>nr_io := io, nr_pending := p, nr_sent := nr_sent ric @ [(s, ba)]\<rparr>)"
    using send_bytes_ok [OF s(2) _ ba, of i s] i by simp
  with s show ?thesis by (intro exI [of _ io] exI [of _ p] exI [of _ t]) simp
qed

end
