(* ===== verification/Reg_E2_Nodes.thy ===== *)
theory Reg_E2_Nodes
  imports Container_Loops E2AP_Config
begin

text \<open>
  The registry of the E2 nodes that are connected to the RIC (\<open>lib/msg_hand/reg_e2_nodes.c\<close>): a
  red-black tree from node identifiers to the RAN functions and component configurations the node
  announced, with the arrays that the RIC hands to its xApps (\<open>generate_e2_node_arr\<close>,
  \<open>generate_e2_node_arr_xapp\<close>). Each operation holds the mutex for its whole body, so it is one
  step. An array argument with its length is a list. The service models are loaded at run time: the
  tree of them maps a RAN function to its \<open>on_e2_setup\<close>, a parameter of the model, whose result is
  of the type \<open>'d\<close> here. The version of the protocol is E2AP v2.03.
\<close>

declare bind_res_eq_Inr [simp del]

section \<open>The registry\<close>

record pair_rf_cca =
  ran_func :: "ran_function seq_arr"
  comp_conf_add :: "e2ap_node_component_config_add seq_arr"

type_synonym reg_e2_nodes = "(global_e2_node_id, pair_rf_cca) rb_tree"

text \<open>\<open>sizeof\<close> of the structures; the containers only compare these numbers with each other.\<close>

definition RAN_FUNCTION_SZ :: nat where
  "RAN_FUNCTION_SZ = 40"

definition CCA_SZ :: nat where
  "CCA_SZ = 72"

definition free_pair_rf_cca :: "pair_rf_cca \<Rightarrow> unit res" where
  "free_pair_rf_cca src =
     bind_res (seq_arr_free (ran_func src)) (\<lambda>_.
     bind_res (seq_arr_free (comp_conf_add src)) (\<lambda>cs.
       fold_res (\<lambda>c _. free_e2ap_node_component_config_add c) cs ()))"

definition free_e2_nodes :: "global_e2_node_id option \<times> pair_rf_cca option \<Rightarrow> unit res" where
  "free_e2_nodes = (\<lambda>(key, value). case (key, value) of
     (Some _, Some pair) \<Rightarrow> free_pair_rf_cca pair | _ \<Rightarrow> Inl AssertFailed)"

definition init_reg_e2_node :: "reg_e2_nodes res" where
  "init_reg_e2_node = assoc_rb_tree_init NODE_ID_SZ cmp_global_e2_node_id"

definition free_reg_e2_node :: "reg_e2_nodes \<Rightarrow> unit res" where
  "free_reg_e2_node i =
     bind_res (assoc_rb_tree_free i) (\<lambda>(freed, _). fold_res (\<lambda>e _. free_e2_nodes e) freed ())"

definition add_reg_e2_node ::
  "reg_e2_nodes \<Rightarrow> global_e2_node_id \<Rightarrow> ran_function list \<Rightarrow> e2ap_node_component_config_add list \<Rightarrow>
   reg_e2_nodes res" where
  "add_reg_e2_node n i rfs ccas =
     c_assert (length rfs > 0) (c_assert (length ccas > 0)
      (bind_res (fold_res (\<lambda>r arr. bind_res (Inr (cp_ran_function r)) (\<lambda>tmp.
                   seq_arr_push_back arr tmp RAN_FUNCTION_SZ)) rfs (seq_arr_init RAN_FUNCTION_SZ)) (\<lambda>arr_rf.
       bind_res (fold_res (\<lambda>c arr. bind_res (cp_e2ap_node_component_config_add c) (\<lambda>tmp.
                   seq_arr_push_back arr tmp CCA_SZ)) ccas (seq_arr_init CCA_SZ)) (\<lambda>arr_cca.
       bind_res (if assoc_rb_tree_size n > 0
                 then bind_res (search n i eq_global_e2_node_id) (\<lambda>it. c_assert (it = assoc_rb_tree_end n) (Inr ()))
                 else Inr ()) (\<lambda>_.
         assoc_rb_tree_insert n (cp_global_e2_node_id i) NODE_ID_SZ
           \<lparr>ran_func = arr_rf, comp_conf_add = arr_cca\<rparr>)))))"

definition sz_reg_e2_node :: "reg_e2_nodes \<Rightarrow> nat" where
  "sz_reg_e2_node n = assoc_rb_tree_size n"

text \<open>The body of the loop in \<open>cp_reg_e2_node\<close>: one entry, copied into \<open>ans\<close>.\<close>

definition cp_entry :: "global_e2_node_id \<Rightarrow> pair_rf_cca \<Rightarrow> reg_e2_nodes \<Rightarrow> reg_e2_nodes res" where
  "cp_entry k rf_cca ans =
     bind_res (arr_for_all (ran_func rf_cca) (\<lambda>r arr. bind_res (Inr (cp_ran_function r)) (\<lambda>cp.
       seq_arr_push_back arr cp RAN_FUNCTION_SZ)) (seq_arr_init RAN_FUNCTION_SZ)) (\<lambda>dst_rf.
     bind_res (arr_for_all (comp_conf_add rf_cca) (\<lambda>c arr.
       bind_res (cp_e2ap_node_component_config_add c) (\<lambda>cp.
       seq_arr_push_back arr cp CCA_SZ)) (seq_arr_init CCA_SZ)) (\<lambda>dst_cca.
       assoc_rb_tree_insert ans (cp_global_e2_node_id k) NODE_ID_SZ
         \<lparr>ran_func = dst_rf, comp_conf_add = dst_cca\<rparr>))"

definition cp_reg_e2_node :: "reg_e2_nodes \<Rightarrow> reg_e2_nodes res" where
  "cp_reg_e2_node n =
     bind_res (assoc_rb_tree_init NODE_ID_SZ cmp_global_e2_node_id) (\<lambda>ans.
     bind_res (rb_for_all n cp_entry ans) (\<lambda>ans.
       c_assert (assoc_rb_tree_size ans = assoc_rb_tree_size n) (Inr ans)))"

definition rm_reg_e2_node :: "reg_e2_nodes \<Rightarrow> global_e2_node_id \<Rightarrow> reg_e2_nodes res" where
  "rm_reg_e2_node n i =
     bind_res (search n i eq_global_e2_node_id) (\<lambda>it. c_assert (it \<noteq> assoc_rb_tree_end n)
      (bind_res (assoc_rb_tree_free_it n it) (\<lambda>(e, n). bind_res (free_e2_nodes e) (\<lambda>_. Inr n))))"

definition find_reg_e2_node :: "reg_e2_nodes \<Rightarrow> global_e2_node_id \<Rightarrow> bool res" where
  "find_reg_e2_node n i =
     bind_res (search n i eq_global_e2_node_id) (\<lambda>it. Inr (if it = assoc_rb_tree_end n then False else True))"

section \<open>The array of connected nodes\<close>

text \<open>The loops \<open>for(j = 0; j < sz; ++j)\<close> that fill an array with \<open>f\<close> of the elements of another.\<close>

definition fill_from :: "'a seq_arr \<Rightarrow> ('a \<Rightarrow> 'b res) \<Rightarrow> 'b list res" where
  "fill_from arr f = for_res (sa_size arr) (\<lambda>j dst.
     bind_res (seq_arr_at arr j) (\<lambda>it. bind_res (arr_deref arr it) (\<lambda>x.
     bind_res (f x) (\<lambda>y. Inr (dst @ [y]))))) []"

definition cp_cca :: "e2ap_node_component_config_add seq_arr \<Rightarrow> e2ap_node_component_config_add list res" where
  "cp_cca cca_arr =
     c_assert (sa_elt_size cca_arr = CCA_SZ)
      (c_assert (seq_arr_size cca_arr > 0 \<and> seq_arr_size cca_arr < 256)
        (fill_from cca_arr cp_e2ap_node_component_config_add))"

text \<open>\<open>None\<close> is an element as \<open>calloc\<close> left it.\<close>

record e2_node_arr =
  ea_len :: u8
  ea_n :: "e2_node_connected option list"

text \<open>The body of the loop: the description of one node, written to slot \<open>i\<close>.\<close>

definition fill_node ::
  "global_e2_node_id \<Rightarrow> pair_rf_cca \<Rightarrow> nat \<times> e2_node_connected option list \<Rightarrow>
   (nat \<times> e2_node_connected option list) res" where
  "fill_node k rf_cca = (\<lambda>(i, dst). in_bounds (i < length dst)
     (bind_res (cp_cca (comp_conf_add rf_cca)) (\<lambda>span.
      c_assert (sa_elt_size (ran_func rf_cca) = RAN_FUNCTION_SZ)
       (bind_res (fill_from (ran_func rf_cca) (\<lambda>r. Inr (cp_ran_function r))) (\<lambda>rf.
         Inr (i + 1, dst[i := Some \<lparr>ec_id = cp_global_e2_node_id k, ec_len_cca = word_of_nat (length span),
           ec_cca = map Some span, ec_len_rf = length rf, ec_ack_rf = rf\<rparr>]))))))"

definition generate_e2_node_arr :: "reg_e2_nodes \<Rightarrow> e2_node_arr res" where
  "generate_e2_node_arr n =
     bind_res (cp_reg_e2_node n) (\<lambda>t.
      let len = word_of_nat (assoc_rb_tree_size t) in
      bind_res (rb_for_all t fill_node (0, replicate (unat len) None)) (\<lambda>(_, dst).
      bind_res (free_reg_e2_node t) (\<lambda>_.
        Inr \<lparr>ea_len = len, ea_n = dst\<rparr>)))"

section \<open>The array for xApps, with the RAN functions decoded by the service models\<close>

datatype e2_setup_type =
    MAC_AGENT_IF_E2_SETUP_ANS_V0 | RLC_AGENT_IF_E2_SETUP_ANS_V0 | PDCP_AGENT_IF_E2_SETUP_ANS_V0
  | SLICE_AGENT_IF_E2_SETUP_ANS_V0 | TC_AGENT_IF_E2_SETUP_ANS_V0 | GTP_AGENT_IF_E2_SETUP_ANS_V0
  | KPM_V3_0_AGENT_IF_E2_SETUP_ANS_V0 | RAN_CTRL_V1_3_AGENT_IF_E2_SETUP_ANS_V0
  | SM_AGENT_IF_E2_SETUP_ANS_V0_END

record 'd sm_ag_if_rd_e2setup =
  es_type :: e2_setup_type
  es_func_def :: 'd

datatype ran_func_def_type =
    KPM_RAN_FUNC_DEF_E | RC_RAN_FUNC_DEF_E | MAC_RAN_FUNC_DEF_E | RLC_RAN_FUNC_DEF_E
  | PDCP_RAN_FUNC_DEF_E | GTP_RAN_FUNC_DEF_E | SLICE_RAN_FUNC_DEF_E | TC_RAN_FUNC_DEF_E

record 'd sm_ran_function_def =
  rd_type :: ran_func_def_type
  rd_def :: 'd

record 'd sm_ran_function =
  srf_defn :: "'d sm_ran_function_def"
  srf_id :: u16
  srf_rev :: u16
  srf_oid :: byte_array

type_synonym 'd plugin_ric = "(u16, byte_array \<Rightarrow> 'd sm_ag_if_rd_e2setup) rb_tree"

record 'd e2_node_connected_xapp =
  ex_id :: global_e2_node_id
  ex_len_cca :: u8
  ex_cca :: "e2ap_node_component_config_add list"
  ex_len_rf :: nat
  ex_rf :: "'d sm_ran_function list"

record 'd e2_node_arr_xapp =
  ax_len :: u8
  ax_n :: "'d e2_node_connected_xapp option list"

definition mv_rd_e2_setup :: "'d sm_ag_if_rd_e2setup \<Rightarrow> 'd sm_ran_function_def res" where
  "mv_rd_e2_setup src = (case es_type src of
     MAC_AGENT_IF_E2_SETUP_ANS_V0 \<Rightarrow> Inr \<lparr>rd_type = MAC_RAN_FUNC_DEF_E, rd_def = es_func_def src\<rparr>
   | RLC_AGENT_IF_E2_SETUP_ANS_V0 \<Rightarrow> Inr \<lparr>rd_type = RLC_RAN_FUNC_DEF_E, rd_def = es_func_def src\<rparr>
   | PDCP_AGENT_IF_E2_SETUP_ANS_V0 \<Rightarrow> Inr \<lparr>rd_type = PDCP_RAN_FUNC_DEF_E, rd_def = es_func_def src\<rparr>
   | SLICE_AGENT_IF_E2_SETUP_ANS_V0 \<Rightarrow> Inr \<lparr>rd_type = SLICE_RAN_FUNC_DEF_E, rd_def = es_func_def src\<rparr>
   | TC_AGENT_IF_E2_SETUP_ANS_V0 \<Rightarrow> Inr \<lparr>rd_type = TC_RAN_FUNC_DEF_E, rd_def = es_func_def src\<rparr>
   | GTP_AGENT_IF_E2_SETUP_ANS_V0 \<Rightarrow> Inr \<lparr>rd_type = GTP_RAN_FUNC_DEF_E, rd_def = es_func_def src\<rparr>
   | KPM_V3_0_AGENT_IF_E2_SETUP_ANS_V0 \<Rightarrow> Inr \<lparr>rd_type = KPM_RAN_FUNC_DEF_E, rd_def = es_func_def src\<rparr>
   | RAN_CTRL_V1_3_AGENT_IF_E2_SETUP_ANS_V0 \<Rightarrow> Inr \<lparr>rd_type = RC_RAN_FUNC_DEF_E, rd_def = es_func_def src\<rparr>
   | SM_AGENT_IF_E2_SETUP_ANS_V0_END \<Rightarrow> Inl AssertFailed)"

definition dec_ran_func :: "ran_function \<Rightarrow> 'd plugin_ric \<Rightarrow> 'd sm_ran_function res" where
  "dec_ran_func rf sm_ds =
     bind_res (assoc_rb_tree_front sm_ds) (\<lambda>f.
     bind_res (find_if_rb_tree sm_ds f (assoc_rb_tree_end sm_ds) (rf_id rf) eq_ran_func_id) (\<lambda>it.
     c_assert (it \<noteq> assoc_rb_tree_end sm_ds)
      (bind_res (assoc_rb_tree_value sm_ds it) (\<lambda>on_e2_setup.
       bind_res (mv_rd_e2_setup (on_e2_setup (rf_defn rf))) (\<lambda>defn.
         Inr \<lparr>srf_defn = defn, srf_id = rf_id rf, srf_rev = rf_rev rf, srf_oid = copy_byte_array (rf_oid rf)\<rparr>)))))"

definition fill_node_xapp ::
  "'d plugin_ric \<Rightarrow> global_e2_node_id \<Rightarrow> pair_rf_cca \<Rightarrow> nat \<times> 'd e2_node_connected_xapp option list \<Rightarrow>
   (nat \<times> 'd e2_node_connected_xapp option list) res" where
  "fill_node_xapp plg k rf_cca = (\<lambda>(i, dst). in_bounds (i < length dst)
     (bind_res (cp_cca (comp_conf_add rf_cca)) (\<lambda>span.
      c_assert (sa_elt_size (ran_func rf_cca) = RAN_FUNCTION_SZ)
       (bind_res (fill_from (ran_func rf_cca) (\<lambda>r. dec_ran_func r plg)) (\<lambda>rf.
         Inr (i + 1, dst[i := Some \<lparr>ex_id = cp_global_e2_node_id k, ex_len_cca = word_of_nat (length span),
           ex_cca = span, ex_len_rf = length rf, ex_rf = rf\<rparr>]))))))"

definition generate_e2_node_arr_xapp :: "reg_e2_nodes \<Rightarrow> 'd plugin_ric \<Rightarrow> 'd e2_node_arr_xapp res" where
  "generate_e2_node_arr_xapp n plg =
     bind_res (cp_reg_e2_node n) (\<lambda>t.
      let len = word_of_nat (assoc_rb_tree_size t) in
      bind_res (rb_for_all t (fill_node_xapp plg) (0, replicate (unat len) None)) (\<lambda>(_, dst).
      bind_res (free_reg_e2_node t) (\<lambda>_.
        Inr \<lparr>ax_len = len, ax_n = dst\<rparr>)))"

section \<open>The registry as a map\<close>

text \<open>
  What the registry stores is a finite map from the rank of a node, which equal identifiers share,
  to the RAN functions and the configurations of the node.
\<close>

definition pair_lists :: "pair_rf_cca \<Rightarrow> ran_function list \<times> e2ap_node_component_config_add list" where
  "pair_lists v = (arr_list (ran_func v), arr_list (comp_conf_add v))"

definition pair_ok :: "pair_rf_cca \<Rightarrow> bool" where
  "pair_ok v \<longleftrightarrow> arr_inv (ran_func v) \<and> arr_inv (comp_conf_add v) \<and>
     sa_elt_size (ran_func v) = RAN_FUNCTION_SZ \<and> sa_elt_size (comp_conf_add v) = CCA_SZ \<and>
     arr_list (comp_conf_add v) \<noteq> [] \<and> (\<forall>c \<in> set (arr_list (comp_conf_add v)). comp_id_ok (ca_id c))"

definition reg_inv :: "reg_e2_nodes \<Rightarrow> bool" where
  "reg_inv n \<longleftrightarrow> rb_inv cmp_global_e2_node_id valid_node_id node_id_rank n \<and> t_key_sz n = NODE_ID_SZ \<and>
     distinct (ranks node_id_rank (rb_items n)) \<and> (\<forall>e \<in> set (rb_items n). pair_ok (snd (snd e)))"

definition reg_map ::
  "reg_e2_nodes \<Rightarrow> int list \<Rightarrow> (ran_function list \<times> e2ap_node_component_config_add list) option" where
  "reg_map n r = map_option pair_lists (content node_id_rank (rb_items n) r)"

interpretation regs: ordered_map cmp_global_e2_node_id valid_node_id node_id_rank rb_items
  "rb_inv cmp_global_e2_node_id valid_node_id node_id_rank"
  "\<lambda>T k v. assoc_rb_tree_insert T k (t_key_sz T) v" assoc_rb_tree_extract rb_find assoc_rb_tree_end
  assoc_rb_tree_value assoc_rb_tree_key
  by (rule comparator.rb_ordered_map [OF node_id.comparator_axioms])

lemma reg_map_None: "reg_map n r = None \<longleftrightarrow> r \<notin> set (ranks node_id_rank (rb_items n))"
  by (simp add: reg_map_def domIff flip: dom_content [of node_id_rank])

lemma init_reg_e2_node_ok: "\<exists>n. init_reg_e2_node = Inr n \<and> reg_inv n \<and> rb_items n = []"
  using rb_init_ok [of NODE_ID_SZ cmp_global_e2_node_id valid_node_id node_id_rank]
  by (auto simp: init_reg_e2_node_def reg_inv_def NODE_ID_SZ_def ranks_def)

lemma search_node_ok:
  assumes n: "reg_inv n" and i: "valid_node_id i"
  shows "\<exists>it. search n i eq_global_e2_node_id = Inr it \<and>
    (if reg_map n (node_id_rank i) = None then it = assoc_rb_tree_end n
     else it \<noteq> assoc_rb_tree_end n \<and>
       (\<exists>xs k v ys. rb_items n = xs @ (it, k, v) # ys \<and> node_id_rank k = node_id_rank i))"
proof -
  have inv: "rb_inv cmp_global_e2_node_id valid_node_id node_id_rank n" using n by (simp add: reg_inv_def)
  have f: "eq_global_e2_node_id i (it_key e) = Inr (node_id_rank i = node_id_rank (it_key e))"
    if "e \<in> set (rb_items n)" for e
    using inv that i by (intro node_id.eq_law) (auto simp: rb_inv_def)
  from regs.find_first [OF inv, of "eq_global_e2_node_id i" "\<lambda>k. node_id_rank i = node_id_rank k"] f
  consider "rb_find n (eq_global_e2_node_id i) = Inr (assoc_rb_tree_end n)"
      "\<forall>e \<in> set (rb_items n). node_id_rank i \<noteq> node_id_rank (it_key e)"
    | xs a k v ys where "rb_items n = xs @ (a, k, v) # ys" "rb_find n (eq_global_e2_node_id i) = Inr a"
      "a \<noteq> assoc_rb_tree_end n" "node_id_rank i = node_id_rank k"
    by metis
  then show ?thesis
  proof cases
    case 1
    then have "reg_map n (node_id_rank i) = None" by (force simp: reg_map_None ranks_def)
    then show ?thesis using 1(1) by (simp add: rb_find_if)
  next
    case 2
    then have "reg_map n (node_id_rank i) \<noteq> None" by (simp add: reg_map_None ranks_def)
    then show ?thesis using 2 by (auto simp: rb_find_if)
  qed
qed

lemma reg_map_at:
  assumes "reg_inv n" "rb_items n = xs @ (a, k, v) # ys"
  shows "reg_map n (node_id_rank k) = Some (pair_lists v)"
    "rb_items n' = xs @ ys \<Longrightarrow> reg_map n' = (reg_map n)(node_id_rank k := None)"
proof -
  have d: "distinct (ranks node_id_rank (xs @ (a, k, v) # ys))"
    using assms by (simp add: reg_inv_def)
  show "reg_map n (node_id_rank k) = Some (pair_lists v)"
    by (simp add: reg_map_def assms(2) content_mid(1) [OF d])
  show "rb_items n' = xs @ ys \<Longrightarrow> reg_map n' = (reg_map n)(node_id_rank k := None)"
    using content_mid [OF d] by (auto simp: reg_map_def assms fun_eq_iff)
qed

lemma free_pair_ok:
  assumes "pair_ok v"
  shows "free_pair_rf_cca v = Inr ()"
proof -
  have w: "seq_arr_free (ran_func v) = Inr (arr_list (ran_func v))"
    "seq_arr_free (comp_conf_add v) = Inr (arr_list (comp_conf_add v))"
    using assms arr_walk_ok [of "ran_func v" 0] arr_walk_ok [of "comp_conf_add v" 0]
    by (simp_all add: pair_ok_def seq_arr_free_def seq_arr_front_def seq_arr_end_def)
  have "free_e2ap_node_component_config_add c = Inr ()" if "c \<in> set (arr_list (comp_conf_add v))" for c
    using assms that by (cases "ca_id c")
      (auto simp: pair_ok_def free_e2ap_node_component_config_add_def free_e2ap_node_comp_id_def)
  then have "fold_res (\<lambda>c _. free_e2ap_node_component_config_add c) (arr_list (comp_conf_add v)) () = Inr ()"
    by (intro fold_res_unit)
  then show ?thesis by (simp add: free_pair_rf_cca_def w)
qed

lemma free_reg_ok:
  assumes "reg_inv n"
  shows "free_reg_e2_node n = Inr ()"
proof -
  have inv: "rb_inv cmp_global_e2_node_id valid_node_id node_id_rank n" using assms by (simp add: reg_inv_def)
  obtain T' where T': "assoc_rb_tree_free n = Inr (post_order (tree_of n), T')"
    using assoc_rb_tree_free_ok [OF inv] by blast
  have set: "set (post_order (tree_of n)) = (\<lambda>e. (Some (it_key e), Some (snd (snd e)))) ` set (rb_items n)"
    using arg_cong [OF mset_post_order [of "tree_of n"], of set_mset] by (simp add: rb_items_def)
  have "free_e2_nodes e = Inr ()" if "e \<in> set (post_order (tree_of n))" for e
    using that assms free_pair_ok by (auto simp: set free_e2_nodes_def reg_inv_def)
  then have "fold_res (\<lambda>e _. free_e2_nodes e) (post_order (tree_of n)) () = Inr ()"
    by (intro fold_res_unit)
  then show ?thesis by (simp add: free_reg_e2_node_def T')
qed

lemma rm_reg_e2_node_ok:
  assumes n: "reg_inv n" and i: "valid_node_id i"
  shows "if reg_map n (node_id_rank i) = None then rm_reg_e2_node n i = Inl AssertFailed
    else \<exists>n'. rm_reg_e2_node n i = Inr n' \<and> reg_inv n' \<and> reg_map n' = (reg_map n)(node_id_rank i := None)"
proof -
  obtain it where it: "search n i eq_global_e2_node_id = Inr it"
    "if reg_map n (node_id_rank i) = None then it = assoc_rb_tree_end n
     else it \<noteq> assoc_rb_tree_end n \<and>
       (\<exists>xs k v ys. rb_items n = xs @ (it, k, v) # ys \<and> node_id_rank k = node_id_rank i)"
    using search_node_ok [OF assms] by blast
  show ?thesis
  proof (cases "reg_map n (node_id_rank i) = None")
    case True
    then show ?thesis using it by (simp add: rm_reg_e2_node_def)
  next
    case False
    with it(2) obtain xs k v ys where k: "it \<noteq> assoc_rb_tree_end n" "rb_items n = xs @ (it, k, v) # ys"
      "node_id_rank k = node_id_rank i" by auto
    have inv: "rb_inv cmp_global_e2_node_id valid_node_id node_id_rank n" using n by (simp add: reg_inv_def)
    obtain n' where n': "assoc_rb_tree_free_it n it = Inr ((Some k, Some v), n')"
      "rb_inv cmp_global_e2_node_id valid_node_id node_id_rank n'" "rb_items n' = xs @ ys" "t_key_sz n' = t_key_sz n"
      using comparator.rb_free_it_ok [OF node_id.comparator_axioms inv k(2)] by blast
    have "free_e2_nodes (Some k, Some v) = Inr ()"
      using n k(2) free_pair_ok by (simp add: free_e2_nodes_def reg_inv_def)
    then have "rm_reg_e2_node n i = Inr n'" using it(1) k(1) n'(1) by (simp add: rm_reg_e2_node_def)
    moreover have "reg_inv n'" using n n' k(2) by (auto simp: reg_inv_def ranks_def)
    ultimately show ?thesis using False reg_map_at(2) [OF n k(2) n'(3)] k(3) by simp
  qed
qed

text \<open>Entering a node.\<close>

lemma size_items: "reg_inv n \<Longrightarrow> assoc_rb_tree_size n = length (rb_items n)"
  by (simp add: reg_inv_def rb_inv_def rb_struct_def rb_items_def assoc_rb_tree_size_def)

lemma insert_entry_ok:
  assumes n: "reg_inv n" and k: "valid_node_id k" "reg_map n (node_id_rank k) = None" and p: "pair_ok p"
  shows "\<exists>n' a. assoc_rb_tree_insert n k NODE_ID_SZ p = Inr n' \<and> reg_inv n' \<and>
    reg_map n' = (reg_map n)(node_id_rank k \<mapsto> pair_lists p) \<and>
    rb_items n' = sorted_insert node_id_rank (a, k, p) (rb_items n)"
proof -
  have inv: "rb_inv cmp_global_e2_node_id valid_node_id node_id_rank n" and sz: "t_key_sz n = NODE_ID_SZ"
    and d: "distinct (ranks node_id_rank (rb_items n))" using n by (simp_all add: reg_inv_def)
  have new: "node_id_rank k \<notin> set (ranks node_id_rank (rb_items n))" using k(2) by (simp add: reg_map_None)
  obtain n' where n': "assoc_rb_tree_insert n k NODE_ID_SZ p = Inr n'"
    "rb_inv cmp_global_e2_node_id valid_node_id node_id_rank n'" "t_key_sz n' = NODE_ID_SZ"
    "rb_items n' = sorted_insert node_id_rank (t_brk n, k, p) (rb_items n)"
    using comparator.rb_insert_ok [OF node_id.comparator_axioms inv k(1), of NODE_ID_SZ p] sz by auto
  obtain n'' where "assoc_rb_tree_insert n k (t_key_sz n) p = Inr n''"
    "content node_id_rank (rb_items n'') = (content node_id_rank (rb_items n))(node_id_rank k \<mapsto> p)"
    using regs.insert_content [OF inv k(1) d new] by blast
  then have "reg_map n' = (reg_map n)(node_id_rank k \<mapsto> pair_lists p)"
    using n'(1) sz by (auto simp: reg_map_def)
  moreover have "reg_inv n'"
    using n n' p new by (auto simp: reg_inv_def distinct_sorted_insert set_sorted_insert)
  ultimately show ?thesis using n'(1,4) by blast
qed

lemma rf_array_ok:
  "\<exists>arr. fold_res (\<lambda>r arr. bind_res (Inr (cp_ran_function r)) (\<lambda>tmp. seq_arr_push_back arr tmp RAN_FUNCTION_SZ))
      rfs (seq_arr_init RAN_FUNCTION_SZ) = Inr arr \<and>
    arr_inv arr \<and> arr_list arr = rfs \<and> sa_elt_size arr = RAN_FUNCTION_SZ"
  using push_mapped_init [of RAN_FUNCTION_SZ rfs "\<lambda>r. Inr (cp_ran_function r)" "\<lambda>r. r"]
  by (simp add: RAN_FUNCTION_SZ_def)

lemma cca_array_ok:
  assumes "\<forall>c \<in> set ccas. comp_id_ok (ca_id c)"
  shows "\<exists>arr. fold_res (\<lambda>c arr. bind_res (cp_e2ap_node_component_config_add c) (\<lambda>tmp.
      seq_arr_push_back arr tmp CCA_SZ)) ccas (seq_arr_init CCA_SZ) = Inr arr \<and>
    arr_inv arr \<and> arr_list arr = ccas \<and> sa_elt_size arr = CCA_SZ"
  using push_mapped_init [of CCA_SZ ccas cp_e2ap_node_component_config_add "\<lambda>c. c"] assms cp_cca_ok
  by (simp add: CCA_SZ_def)

lemma add_reg_e2_node_ok:
  assumes n: "reg_inv n" and i: "valid_node_id i" and l: "rfs \<noteq> []" "ccas \<noteq> []"
    and c: "\<forall>c \<in> set ccas. comp_id_ok (ca_id c)"
  shows "if reg_map n (node_id_rank i) = None
    then \<exists>n'. add_reg_e2_node n i rfs ccas = Inr n' \<and> reg_inv n' \<and>
      reg_map n' = (reg_map n)(node_id_rank i \<mapsto> (rfs, ccas)) \<and> sz_reg_e2_node n' = sz_reg_e2_node n + 1
    else add_reg_e2_node n i rfs ccas = Inl AssertFailed"
proof -
  obtain arr_rf where rf: "fold_res (\<lambda>r arr. bind_res (Inr (cp_ran_function r)) (\<lambda>tmp.
      seq_arr_push_back arr tmp RAN_FUNCTION_SZ)) rfs (seq_arr_init RAN_FUNCTION_SZ) = Inr arr_rf"
    "arr_inv arr_rf" "arr_list arr_rf = rfs" "sa_elt_size arr_rf = RAN_FUNCTION_SZ"
    using rf_array_ok by blast
  obtain arr_cca where cca: "fold_res (\<lambda>c arr. bind_res (cp_e2ap_node_component_config_add c) (\<lambda>tmp.
      seq_arr_push_back arr tmp CCA_SZ)) ccas (seq_arr_init CCA_SZ) = Inr arr_cca"
    "arr_inv arr_cca" "arr_list arr_cca = ccas" "sa_elt_size arr_cca = CCA_SZ"
    using cca_array_ok [OF c] by blast
  define p where "p = \<lparr>ran_func = arr_rf, comp_conf_add = arr_cca\<rparr>"
  have p: "pair_ok p" "pair_lists p = (rfs, ccas)"
    using rf cca l c by (simp_all add: p_def pair_ok_def pair_lists_def)
  have add: "add_reg_e2_node n i rfs ccas =
      bind_res (if assoc_rb_tree_size n > 0
                then bind_res (search n i eq_global_e2_node_id) (\<lambda>it. c_assert (it = assoc_rb_tree_end n) (Inr ()))
                else Inr ()) (\<lambda>_. assoc_rb_tree_insert n i NODE_ID_SZ p)"
    using l rf(1) cca(1) by (simp add: add_reg_e2_node_def p_def split del: if_split)
  obtain it where it: "search n i eq_global_e2_node_id = Inr it"
    "(reg_map n (node_id_rank i) = None) = (it = assoc_rb_tree_end n)"
    using search_node_ok [OF n i] by (metis (full_types))
  show ?thesis
  proof (cases "reg_map n (node_id_rank i) = None")
    case True
    then have "add_reg_e2_node n i rfs ccas = assoc_rb_tree_insert n i NODE_ID_SZ p"
      using it by (simp add: add)
    moreover obtain n' a where n': "assoc_rb_tree_insert n i NODE_ID_SZ p = Inr n'" "reg_inv n'"
      "reg_map n' = (reg_map n)(node_id_rank i \<mapsto> (rfs, ccas))"
      "rb_items n' = sorted_insert node_id_rank (a, i, p) (rb_items n)"
      using insert_entry_ok [OF n i True p(1)] p(2) by auto
    moreover have "length (rb_items n') = length (rb_items n) + 1"
      unfolding n'(4) sorted_insert_def
      by simp (metis add_Suc_right length_append takeWhile_dropWhile_id)
    ultimately show ?thesis using True size_items [OF n] size_items [OF n'(2)]
      by (auto simp: sz_reg_e2_node_def)
  next
    case False
    then have "set (ranks node_id_rank (rb_items n)) \<noteq> {}" by (auto simp: reg_map_None)
    then have "assoc_rb_tree_size n > 0" using size_items [OF n] by (auto simp: ranks_def)
    then show ?thesis using it False by (simp add: add)
  qed
qed

lemma find_reg_e2_node_ok:
  assumes "reg_inv n" "valid_node_id i"
  shows "find_reg_e2_node n i = Inr (reg_map n (node_id_rank i) \<noteq> None)"
  using search_node_ok [OF assms] by (auto simp: find_reg_e2_node_def split: if_splits)

section \<open>The copy and the arrays\<close>

text \<open>The contents in order: what \<open>generate_e2_node_arr\<close> lists.\<close>

definition entries ::
  "reg_e2_nodes \<Rightarrow> (global_e2_node_id \<times> ran_function list \<times> e2ap_node_component_config_add list) list" where
  "entries n = map (\<lambda>(a, k, v). (k, pair_lists v)) (rb_items n)"

lemma length_entries: "reg_inv n \<Longrightarrow> length (entries n) = sz_reg_e2_node n"
  by (simp add: entries_def sz_reg_e2_node_def size_items)

lemma ranks_entries: "ranks node_id_rank (rb_items n) = map (\<lambda>e. node_id_rank (fst e)) (entries n)"
  by (simp add: ranks_def entries_def case_prod_unfold comp_def)

lemma sorted_insert_last:
  "\<forall>f \<in> set es. rank (it_key f) \<le> rank (it_key e) \<Longrightarrow> sorted_insert rank e es = es @ [e]"
  using sorted_insert_split [of es rank e "[]"] by simp

lemma cp_entry_ok:
  assumes ans: "reg_inv ans" and k: "valid_node_id k" "\<forall>r \<in> set (ranks node_id_rank (rb_items ans)). r < node_id_rank k"
    and v: "pair_ok v"
  shows "\<exists>ans'. cp_entry k v ans = Inr ans' \<and> reg_inv ans' \<and> entries ans' = entries ans @ [(k, pair_lists v)]"
proof -
  have inv: "arr_inv (ran_func v)" "arr_inv (comp_conf_add v)"
    "\<forall>c \<in> set (arr_list (comp_conf_add v)). comp_id_ok (ca_id c)" using v by (simp_all add: pair_ok_def)
  obtain rf where rf: "arr_for_all (ran_func v) (\<lambda>r arr. bind_res (Inr (cp_ran_function r)) (\<lambda>cp.
      seq_arr_push_back arr cp RAN_FUNCTION_SZ)) (seq_arr_init RAN_FUNCTION_SZ) = Inr rf"
    "arr_inv rf" "arr_list rf = arr_list (ran_func v)" "sa_elt_size rf = RAN_FUNCTION_SZ"
    unfolding arr_for_all_ok [OF inv(1)] using rf_array_ok by blast
  obtain cca where cca: "arr_for_all (comp_conf_add v) (\<lambda>c arr. bind_res (cp_e2ap_node_component_config_add c) (\<lambda>cp.
      seq_arr_push_back arr cp CCA_SZ)) (seq_arr_init CCA_SZ) = Inr cca"
    "arr_inv cca" "arr_list cca = arr_list (comp_conf_add v)" "sa_elt_size cca = CCA_SZ"
    unfolding arr_for_all_ok [OF inv(2)] using cca_array_ok [OF inv(3)] by blast
  define p where "p = \<lparr>ran_func = rf, comp_conf_add = cca\<rparr>"
  have p: "pair_ok p" "pair_lists p = pair_lists v"
    using rf cca v by (simp_all add: p_def pair_ok_def pair_lists_def)
  have "reg_map ans (node_id_rank k) = None" using k(2) by (auto simp: reg_map_None)
  from insert_entry_ok [OF ans k(1) this p(1)] obtain n' a where n':
    "assoc_rb_tree_insert ans k NODE_ID_SZ p = Inr n'" "reg_inv n'"
    "rb_items n' = sorted_insert node_id_rank (a, k, p) (rb_items ans)" by blast
  have "cp_entry k v ans = Inr n'"
    using rf(1) cca(1) n'(1) by (simp add: cp_entry_def p_def)
  moreover have "entries n' = entries ans @ [(k, pair_lists v)]"
    using k(2) p(2) sorted_insert_last [of "rb_items ans" node_id_rank "(a, k, p)"] n'(3)
    by (simp add: entries_def ranks_def order.strict_implies_order)
  ultimately show ?thesis using n'(2) by blast
qed

lemma cp_entries_ok:
  "reg_inv ans \<Longrightarrow> \<forall>(a, k, v) \<in> set es. valid_node_id k \<and> pair_ok v \<Longrightarrow>
   sorted_wrt (<) (ranks node_id_rank (rb_items ans) @ ranks node_id_rank es) \<Longrightarrow>
   \<exists>ans'. fold_res (\<lambda>(a, k, v). cp_entry k v) es ans = Inr ans' \<and> reg_inv ans' \<and>
     entries ans' = entries ans @ map (\<lambda>(a, k, v). (k, pair_lists v)) es"
proof (induction es arbitrary: ans)
  case (Cons e es)
  obtain a k v where e: "e = (a, k, v)" by (cases e)
  have lt: "\<forall>r \<in> set (ranks node_id_rank (rb_items ans)). r < node_id_rank k"
    using Cons.prems(3) by (auto simp: e ranks_def sorted_wrt_append)
  obtain ans1 where ans1: "cp_entry k v ans = Inr ans1" "reg_inv ans1"
    "entries ans1 = entries ans @ [(k, pair_lists v)]"
    using cp_entry_ok [OF Cons.prems(1) _ lt, of v] Cons.prems(2) by (auto simp: e)
  have "ranks node_id_rank (rb_items ans1) @ ranks node_id_rank es =
      ranks node_id_rank (rb_items ans) @ ranks node_id_rank (e # es)"
    by (simp add: ranks_entries ans1(3)) (simp add: ranks_def e)
  then show ?case using Cons.IH [OF ans1(2)] Cons.prems(2,3) ans1 by (simp add: e)
qed simp

lemma cp_reg_e2_node_ok:
  assumes "reg_inv n"
  shows "\<exists>t. cp_reg_e2_node n = Inr t \<and> reg_inv t \<and> entries t = entries n"
proof -
  have inv: "rb_inv cmp_global_e2_node_id valid_node_id node_id_rank n" using assms by (simp add: reg_inv_def)
  obtain ans where ans: "assoc_rb_tree_init NODE_ID_SZ cmp_global_e2_node_id = Inr ans" "reg_inv ans" "rb_items ans = []"
    using init_reg_e2_node_ok by (auto simp: init_reg_e2_node_def)
  have "sorted_wrt (<) (ranks node_id_rank (rb_items n))"
    using regs.items_law [OF inv] assms by (simp add: strict_sorted_iff reg_inv_def)
  moreover have "\<forall>(a, k, v) \<in> set (rb_items n). valid_node_id k \<and> pair_ok v"
    using assms by (auto simp: reg_inv_def rb_inv_def)
  ultimately obtain t where t: "fold_res (\<lambda>(a, k, v). cp_entry k v) (rb_items n) ans = Inr t" "reg_inv t"
    "entries t = entries n"
    using cp_entries_ok [OF ans(2), of "rb_items n"] ans(3) by (auto simp: entries_def ranks_def)
  have "assoc_rb_tree_size t = assoc_rb_tree_size n"
    using length_entries [OF assms] length_entries [OF t(2)] t(3) by (simp add: sz_reg_e2_node_def)
  then show ?thesis using ans(1) t rb_for_all_ok [OF inv, of cp_entry ans] by (simp add: cp_reg_e2_node_def)
qed

lemma fill_from_ok:
  assumes inv: "arr_inv arr" and f: "\<And>x. x \<in> set (arr_list arr) \<Longrightarrow> f x = Inr (g x)"
  shows "fill_from arr f = Inr (map g (arr_list arr))"
proof -
  have len: "length (arr_list arr) = sa_size arr" using inv by (rule length_arr_list)
  have "k \<le> sa_size arr \<Longrightarrow> for_res k (\<lambda>j dst. bind_res (seq_arr_at arr j) (\<lambda>it. bind_res (arr_deref arr it)
      (\<lambda>x. bind_res (f x) (\<lambda>y. Inr (dst @ [y]))))) [] = Inr (map g (take k (arr_list arr)))" for k
  proof (induction k)
    case (Suc k)
    then show ?case
      using arr_deref_ok [OF inv, of k] f [of "arr_list arr ! k"] len
      by (simp add: seq_arr_at_def take_Suc_conv_app_nth)
  qed simp
  from this [of "sa_size arr"] show ?thesis using len by (simp add: fill_from_def)
qed

lemma cp_cca_result:
  assumes "pair_ok v" "length (arr_list (comp_conf_add v)) < 256"
  shows "cp_cca (comp_conf_add v) = Inr (arr_list (comp_conf_add v))"
proof -
  have i: "arr_inv (comp_conf_add v)" "sa_elt_size (comp_conf_add v) = CCA_SZ" "arr_list (comp_conf_add v) \<noteq> []"
    using assms(1) by (simp_all add: pair_ok_def)
  then have "0 < sa_size (comp_conf_add v)" using length_arr_list [OF i(1)] by (cases "sa_size (comp_conf_add v)") simp_all
  moreover have "fill_from (comp_conf_add v) cp_e2ap_node_component_config_add = Inr (map (\<lambda>c. c) (arr_list (comp_conf_add v)))"
    using assms(1) by (intro fill_from_ok i cp_cca_ok) (simp add: pair_ok_def)
  ultimately show ?thesis
    using i assms(2) length_arr_list [OF i(1)] by (simp add: cp_cca_def seq_arr_size_def)
qed

text \<open>The description of a node that goes to the xApps.\<close>

definition connected_node ::
  "global_e2_node_id \<times> ran_function list \<times> e2ap_node_component_config_add list \<Rightarrow> e2_node_connected" where
  "connected_node = (\<lambda>(k, rfs, ccas). \<lparr>ec_id = k, ec_len_cca = word_of_nat (length ccas),
     ec_cca = map Some ccas, ec_len_rf = length rfs, ec_ack_rf = rfs\<rparr>)"

lemma fill_node_ok:
  assumes "pair_ok v" "length (arr_list (comp_conf_add v)) < 256" "i < length dst"
  shows "fill_node k v (i, dst) = Inr (i + 1, dst[i := Some (connected_node (k, pair_lists v))])"
proof -
  have "arr_inv (ran_func v)" "sa_elt_size (ran_func v) = RAN_FUNCTION_SZ" using assms(1) by (simp_all add: pair_ok_def)
  then show ?thesis
    using fill_from_ok [of "ran_func v" "\<lambda>r. Inr (cp_ran_function r)" "\<lambda>r. r"] cp_cca_result [OF assms(1,2)] assms(3)
    by (simp add: fill_node_def connected_node_def pair_lists_def)
qed

lemma fill_nodes_ok:
  "\<forall>(a, k, v) \<in> set es. pair_ok v \<and> length (arr_list (comp_conf_add v)) < 256 \<Longrightarrow> i \<le> length dst \<Longrightarrow>
   fold_res (\<lambda>(a, k, v). fill_node k v) es (i, dst) =
     (if i + length es \<le> length dst
      then Inr (i + length es, take i dst @ map (\<lambda>(a, k, v). Some (connected_node (k, pair_lists v))) es @
        drop (i + length es) dst)
      else Inl OutOfBounds)"
proof (induction es arbitrary: i dst)
  case (Cons e es)
  obtain a k v where e: "e = (a, k, v)" by (cases e)
  show ?case
  proof (cases "i < length dst")
    case True
    have "fill_node k v (i, dst) = Inr (i + 1, dst[i := Some (connected_node (k, pair_lists v))])"
      using Cons.prems(1) True by (intro fill_node_ok) (auto simp: e)
    then show ?thesis
      using Cons.IH [of "i + 1" "dst[i := Some (connected_node (k, pair_lists v))]"] Cons.prems(1) True
      by (simp add: e take_Suc_conv_app_nth)
  next
    case False
    then show ?thesis using Cons.prems(2) by (simp add: e fill_node_def)
  qed
qed simp

lemma generate_ok:
  assumes n: "reg_inv n" and c: "\<forall>(k, rfs, ccas) \<in> set (entries n). length ccas < 256"
  shows "generate_e2_node_arr n =
    (if sz_reg_e2_node n < 256
     then Inr \<lparr>ea_len = word_of_nat (sz_reg_e2_node n), ea_n = map (\<lambda>e. Some (connected_node e)) (entries n)\<rparr>
     else Inl OutOfBounds)"
proof -
  obtain t where t: "cp_reg_e2_node n = Inr t" "reg_inv t" "entries t = entries n"
    using cp_reg_e2_node_ok [OF n] by blast
  have inv: "rb_inv cmp_global_e2_node_id valid_node_id node_id_rank t" using t(2) by (simp add: reg_inv_def)
  have len: "length (rb_items t) = sz_reg_e2_node n" "assoc_rb_tree_size t = sz_reg_e2_node n"
    using length_entries [OF n] length_entries [OF t(2)] t(3) size_items [OF t(2)]
    by (simp_all add: sz_reg_e2_node_def)
  define l where "l = unat (word_of_nat (sz_reg_e2_node n) :: u8)"
  have l: "l = sz_reg_e2_node n mod 256" by (simp add: l_def unat_of_nat take_bit_eq_mod)
  have "\<forall>(a, k, v) \<in> set (rb_items t). pair_ok v \<and> length (arr_list (comp_conf_add v)) < 256"
  proof (intro ballI, clarify)
    fix a k v
    assume mem: "(a, k, v) \<in> set (rb_items t)"
    then have "(k, pair_lists v) \<in> set (entries t)"
      by (auto simp: entries_def intro: rev_image_eqI [of "(a, k, v)"])
    then have "length (arr_list (comp_conf_add v)) < 256" using c by (auto simp: t(3) pair_lists_def)
    moreover have "pair_ok v" using mem t(2) by (auto simp: reg_inv_def)
    ultimately show "pair_ok v \<and> length (arr_list (comp_conf_add v)) < 256" by simp
  qed
  moreover have "map (\<lambda>e. Some (connected_node e)) (entries n) =
      map (\<lambda>(a, k, v). Some (connected_node (k, pair_lists v))) (rb_items t)"
    by (simp only: t(3) [symmetric]) (simp add: entries_def comp_def case_prod_unfold)
  moreover note len(1)
  ultimately
  have "rb_for_all t fill_node (0, replicate l None) =
      (if sz_reg_e2_node n \<le> l
       then Inr (sz_reg_e2_node n, map (\<lambda>e. Some (connected_node e)) (entries n) @ replicate (l - sz_reg_e2_node n) None)
       else Inl OutOfBounds)"
    using fill_nodes_ok [of "rb_items t" 0 "replicate l None"] by (simp add: rb_for_all_ok [OF inv])
  moreover have "sz_reg_e2_node n \<le> l \<longleftrightarrow> sz_reg_e2_node n < 256"
    using mod_less_divisor [of 256 "sz_reg_e2_node n"] by (auto simp: l)
  ultimately show ?thesis
    using t(1) len(2) free_reg_ok [OF t(2)] by (simp add: generate_e2_node_arr_def l_def [symmetric] Let_def l)
qed

text \<open>Decoding a RAN function with the service model that is registered for it.\<close>

definition def_type :: "e2_setup_type \<Rightarrow> ran_func_def_type" where
  "def_type t = (case t of
     MAC_AGENT_IF_E2_SETUP_ANS_V0 \<Rightarrow> MAC_RAN_FUNC_DEF_E | RLC_AGENT_IF_E2_SETUP_ANS_V0 \<Rightarrow> RLC_RAN_FUNC_DEF_E
   | PDCP_AGENT_IF_E2_SETUP_ANS_V0 \<Rightarrow> PDCP_RAN_FUNC_DEF_E | SLICE_AGENT_IF_E2_SETUP_ANS_V0 \<Rightarrow> SLICE_RAN_FUNC_DEF_E
   | TC_AGENT_IF_E2_SETUP_ANS_V0 \<Rightarrow> TC_RAN_FUNC_DEF_E | GTP_AGENT_IF_E2_SETUP_ANS_V0 \<Rightarrow> GTP_RAN_FUNC_DEF_E
   | RAN_CTRL_V1_3_AGENT_IF_E2_SETUP_ANS_V0 \<Rightarrow> RC_RAN_FUNC_DEF_E | _ \<Rightarrow> KPM_RAN_FUNC_DEF_E)"

lemma mv_rd_e2_setup_ok:
  "mv_rd_e2_setup s = (if es_type s = SM_AGENT_IF_E2_SETUP_ANS_V0_END then Inl AssertFailed
     else Inr \<lparr>rd_type = def_type (es_type s), rd_def = es_func_def s\<rparr>)"
  by (simp add: mv_rd_e2_setup_def def_type_def split: e2_setup_type.splits)

interpretation sms: ordered_map cmp_ran_func_id "\<lambda>_. True" "\<lambda>f. [uint f]" rb_items
  "rb_inv cmp_ran_func_id (\<lambda>_. True) (\<lambda>f. [uint f])"
  "\<lambda>T k v. assoc_rb_tree_insert T k (t_key_sz T) v" assoc_rb_tree_extract rb_find assoc_rb_tree_end
  assoc_rb_tree_value assoc_rb_tree_key
  by (rule comparator.rb_ordered_map [OF ran_func.comparator_axioms])

lemma dec_ran_func_result:
  assumes plg: "rb_inv cmp_ran_func_id (\<lambda>_. True) (\<lambda>f. [uint f]) plg"
  shows "dec_ran_func rf plg =
    (case map_of (map (\<lambda>e. (it_key e, snd (snd e))) (rb_items plg)) (rf_id rf) of
       None \<Rightarrow> Inl AssertFailed
     | Some on_e2_setup \<Rightarrow> map_res (\<lambda>d. \<lparr>srf_defn = d, srf_id = rf_id rf, srf_rev = rf_rev rf,
         srf_oid = rf_oid rf\<rparr>) (mv_rd_e2_setup (on_e2_setup (rf_defn rf))))"
proof -
  let ?m = "map (\<lambda>e. (it_key e, snd (snd e))) (rb_items plg)"
  have se: "dec_ran_func rf plg = bind_res (rb_find plg (eq_ran_func_id (rf_id rf))) (\<lambda>it.
      c_assert (it \<noteq> assoc_rb_tree_end plg)
       (bind_res (assoc_rb_tree_value plg it) (\<lambda>on_e2_setup.
        bind_res (mv_rd_e2_setup (on_e2_setup (rf_defn rf))) (\<lambda>defn.
          Inr \<lparr>srf_defn = defn, srf_id = rf_id rf, srf_rev = rf_rev rf, srf_oid = rf_oid rf\<rparr>))))"
    by (simp add: dec_ran_func_def bind_res_assoc flip: rb_find_if)
  from sms.find_first [OF plg, of "eq_ran_func_id (rf_id rf)" "\<lambda>k. rf_id rf = k"]
  consider "rb_find plg (eq_ran_func_id (rf_id rf)) = Inr (assoc_rb_tree_end plg)"
      "\<forall>e \<in> set (rb_items plg). rf_id rf \<noteq> it_key e"
    | xs a v ys where "rb_items plg = xs @ (a, rf_id rf, v) # ys"
      "rb_find plg (eq_ran_func_id (rf_id rf)) = Inr a" "a \<noteq> assoc_rb_tree_end plg"
      "\<forall>e \<in> set xs. rf_id rf \<noteq> it_key e" "assoc_rb_tree_value plg a = Inr v"
    unfolding eq_ran_func_id_def by blast
  then show ?thesis
  proof cases
    case 1
    then have "map_of ?m (rf_id rf) = None" by (auto simp: map_of_eq_None_iff)
    then show ?thesis using 1(1) by (simp add: se)
  next
    case 2
    then have "map_of (map (\<lambda>e. (it_key e, snd (snd e))) xs) (rf_id rf) = None" by (auto simp: map_of_eq_None_iff)
    then have "map_of ?m (rf_id rf) = Some v" by (simp add: 2(1) map_add_def)
    then show ?thesis using 2(2,3,5) by (simp add: se map_res_def)
  qed
qed

section \<open>Properties\<close>

text \<open>C30: the registry is a map from nodes to what they announced. A node that is not registered can
  be added, is found from then on and leaves every other node as it was; adding a registered node
  aborts. A registered node can be removed, which removes only it; removing another aborts.\<close>

theorem registry_refines_map:
  assumes "reg_inv n" "valid_node_id i" "rfs \<noteq> []" "ccas \<noteq> []" "\<forall>c \<in> set ccas. comp_id_ok (ca_id c)"
  shows "find_reg_e2_node n i = Inr (reg_map n (node_id_rank i) \<noteq> None) \<and>
    (if reg_map n (node_id_rank i) = None
     then rm_reg_e2_node n i = Inl AssertFailed \<and>
       (\<exists>n'. add_reg_e2_node n i rfs ccas = Inr n' \<and> reg_inv n' \<and>
          reg_map n' = (reg_map n)(node_id_rank i \<mapsto> (rfs, ccas)) \<and> sz_reg_e2_node n' = sz_reg_e2_node n + 1)
     else add_reg_e2_node n i rfs ccas = Inl AssertFailed \<and>
       (\<exists>n'. rm_reg_e2_node n i = Inr n' \<and> reg_inv n' \<and> reg_map n' = (reg_map n)(node_id_rank i := None)))"
  using find_reg_e2_node_ok [OF assms(1,2)] rm_reg_e2_node_ok [OF assms(1,2)] add_reg_e2_node_ok [OF assms] by auto

definition sample_rf :: ran_function where
  "sample_rf = \<lparr>rf_defn = [1, 2], rf_id = 142, rf_rev = 0, rf_oid = [3]\<rparr>"

definition sample_cca :: e2ap_node_component_config_add where
  "sample_cca = \<lparr>ca_type = F1_TYPE, ca_id = F1_ID 7, ca_conf = \<lparr>nc_request = [1], nc_response = [2]\<rparr>\<rparr>"

theorem registry_refines_map_witness:
  "\<exists>n n' n''. init_reg_e2_node = Inr n \<and> add_reg_e2_node n (sample_gnb 1) [sample_rf] [sample_cca] = Inr n' \<and>
     find_reg_e2_node n' (sample_gnb 1) = Inr True \<and> rm_reg_e2_node n' (sample_gnb 1) = Inr n''"
proof -
  obtain n where n: "init_reg_e2_node = Inr n" "reg_inv n" "rb_items n = []"
    using init_reg_e2_node_ok by blast
  have e: "reg_map n r = None" for r by (simp add: reg_map_None n(3) ranks_def)
  have c: "\<forall>c \<in> set [sample_cca]. comp_id_ok (ca_id c)" by (simp add: sample_cca_def)
  note step = registry_refines_map [of _ "sample_gnb 1" "[sample_rf]" "[sample_cca]", OF _ _ _ _ c, simplified]
  from step [OF n(2)] obtain n' where n': "add_reg_e2_node n (sample_gnb 1) [sample_rf] [sample_cca] = Inr n'"
    "reg_inv n'" "reg_map n' (node_id_rank (sample_gnb 1)) = Some ([sample_rf], [sample_cca])" by (auto simp: e)
  moreover from step [OF n'(2)] n'(3) obtain n'' where "rm_reg_e2_node n' (sample_gnb 1) = Inr n''"
    "find_reg_e2_node n' (sample_gnb 1) = Inr True" by auto
  ultimately show ?thesis using n(1) by blast
qed

text \<open>the array the xApps get lists every registered node once, in the order of the registry,
  with its RAN functions and configurations; but its length is an 8-bit number, and with 256 nodes
  or more the function writes past the array.\<close>

theorem generate_e2_node_arr_lists:
  assumes "reg_inv n" "\<forall>(k, rfs, ccas) \<in> set (entries n). length ccas < 256"
  shows "if sz_reg_e2_node n < 256
    then \<exists>arr. generate_e2_node_arr n = Inr arr \<and> unat (ea_len arr) = sz_reg_e2_node n \<and>
      ea_n arr = map (\<lambda>e. Some (connected_node e)) (entries n)
    else generate_e2_node_arr n = Inl OutOfBounds"
  using generate_ok [OF assms] by (simp add: unat_of_nat take_bit_nat_eq_self)

text \<open>A registry with as many nodes as wanted.\<close>

lemma node_rank_gnb: "node_id_rank (sample_gnb a) = node_id_rank (sample_gnb b) \<longleftrightarrow> a = b"
  by (auto simp: node_id_rank_def sample_gnb_def)

lemma entries_iff:
  assumes "reg_inv n" "(k, p) \<in> set (entries n)"
  shows "reg_map n (node_id_rank k) = Some p"
proof -
  obtain a v where v: "(a, k, v) \<in> set (rb_items n)" "p = pair_lists v" using assms(2) by (auto simp: entries_def)
  then obtain xs ys where "rb_items n = xs @ (a, k, v) # ys" by (auto simp: in_set_conv_decomp)
  from reg_map_at(1) [OF assms(1) this] v(2) show ?thesis by simp
qed

lemma reg_of_size:
  "k \<le> 2 ^ 32 \<Longrightarrow> \<exists>n. reg_inv n \<and> sz_reg_e2_node n = k \<and>
     (\<forall>r p. reg_map n r = Some p \<longrightarrow> p = ([sample_rf], [sample_cca])) \<and>
     (\<forall>j. k \<le> unat j \<longrightarrow> reg_map n (node_id_rank (sample_gnb j)) = None)"
proof (induction k)
  case 0
  obtain n where "reg_inv n" "rb_items n = []" using init_reg_e2_node_ok by blast
  then show ?case by (intro exI [of _ n]) (simp add: reg_map_def content_def sz_reg_e2_node_def size_items)
next
  case (Suc k)
  then obtain n where n: "reg_inv n" "sz_reg_e2_node n = k"
    "\<forall>r p. reg_map n r = Some p \<longrightarrow> p = ([sample_rf], [sample_cca])"
    "\<forall>j. k \<le> unat j \<longrightarrow> reg_map n (node_id_rank (sample_gnb j)) = None" by auto
  define w :: u32 where "w = word_of_nat k"
  have w: "unat w = k" using Suc.prems by (simp add: w_def unat_of_nat_32)
  have c: "\<forall>c \<in> set [sample_cca]. comp_id_ok (ca_id c)" by (simp add: sample_cca_def)
  obtain n' where n': "reg_inv n'" "sz_reg_e2_node n' = Suc k"
    "reg_map n' = (reg_map n)(node_id_rank (sample_gnb w) \<mapsto> ([sample_rf], [sample_cca]))"
    using add_reg_e2_node_ok [OF n(1) valid_sample(1) _ _ c, of "[sample_rf]" w] n(2,4) w by auto
  have "reg_map n' (node_id_rank (sample_gnb j)) = None" if "Suc k \<le> unat j" for j
    using that n(4) w by (auto simp: n'(3) node_rank_gnb)
  then show ?case using n' n(3) by (intro exI [of _ n']) auto
qed

theorem generate_e2_node_arr_lists_witness:
  "\<exists>n. sz_reg_e2_node n = 256 \<and> generate_e2_node_arr n = Inl OutOfBounds"
proof -
  obtain n where n: "reg_inv n" "sz_reg_e2_node n = 256"
    "\<forall>r p. reg_map n r = Some p \<longrightarrow> p = ([sample_rf], [sample_cca])"
    using reg_of_size [of 256] by auto
  have "\<forall>(k, rfs, ccas) \<in> set (entries n). length ccas < 256"
    using entries_iff [OF n(1)] n(3) by fastforce
  from generate_e2_node_arr_lists [OF n(1) this] n(2) show ?thesis by auto
qed

text \<open>a RAN function is decoded by the service model registered under its identifier, keeps its
  identifier, revision and object identifier, and gets the type that belongs to the model; without
  a model the decoding aborts.\<close>

theorem dec_ran_func_dispatch:
  assumes "rb_inv cmp_ran_func_id (\<lambda>_. True) (\<lambda>f. [uint f]) plg"
  shows "case map_of (map (\<lambda>e. (it_key e, snd (snd e))) (rb_items plg)) (rf_id rf) of
      None \<Rightarrow> dec_ran_func rf plg = Inl AssertFailed
    | Some on_e2_setup \<Rightarrow>
        (let s = on_e2_setup (rf_defn rf) in
         dec_ran_func rf plg =
           (if es_type s = SM_AGENT_IF_E2_SETUP_ANS_V0_END then Inl AssertFailed
            else Inr \<lparr>srf_defn = \<lparr>rd_type = def_type (es_type s), rd_def = es_func_def s\<rparr>,
              srf_id = rf_id rf, srf_rev = rf_rev rf, srf_oid = rf_oid rf\<rparr>))"
  using dec_ran_func_result [OF assms, of rf]
  by (auto simp: mv_rd_e2_setup_ok Let_def split: option.splits)

theorem dec_ran_func_dispatch_witness:
  "\<exists>plg :: string plugin_ric. dec_ran_func sample_rf plg =
     Inr \<lparr>srf_defn = \<lparr>rd_type = MAC_RAN_FUNC_DEF_E, rd_def = ''mac''\<rparr>, srf_id = 142, srf_rev = 0, srf_oid = [3]\<rparr>"
proof -
  define f :: "byte_array \<Rightarrow> string sm_ag_if_rd_e2setup" where
    "f = (\<lambda>b. if b = [1, 2] then \<lparr>es_type = MAC_AGENT_IF_E2_SETUP_ANS_V0, es_func_def = ''mac''\<rparr>
       else \<lparr>es_type = SM_AGENT_IF_E2_SETUP_ANS_V0_END, es_func_def = ''none''\<rparr>)"
  obtain p0 :: "string plugin_ric" where p0: "rb_inv cmp_ran_func_id (\<lambda>_. True) (\<lambda>f. [uint f]) p0"
    "rb_items p0 = []" using rb_init_ok [of 2 cmp_ran_func_id "\<lambda>_. True" "\<lambda>f. [uint f]"] by auto
  from sms.insert_law [OF p0(1), of 142 f] obtain plg a where
    p: "rb_inv cmp_ran_func_id (\<lambda>_. True) (\<lambda>f. [uint f]) plg" "rb_items plg = [(a, 142, f)]"
    by (auto simp: p0(2) sorted_insert_def)
  from dec_ran_func_dispatch [OF p(1), of sample_rf] have
    "dec_ran_func sample_rf plg =
     Inr \<lparr>srf_defn = \<lparr>rd_type = MAC_RAN_FUNC_DEF_E, rd_def = ''mac''\<rparr>, srf_id = 142, srf_rev = 0, srf_oid = [3]\<rparr>"
    by (simp add: p(2) sample_rf_def f_def def_type_def Let_def)
  then show ?thesis by blast
qed

end
