(* ===== verification/Ric_Requests.thy ===== *)
theory Ric_Requests
  imports Near_Ric Reg_E2_Nodes
begin

text \<open>
  What the requests of the near-RT RIC do to its state: the ones it forwards for the xApps
  (\<open>fwd_ric_subscription_request\<close> and its siblings of \<open>ric/near_ric.c\<close>) and its own
  (\<open>report_service_near_ric\<close>, \<open>rm_report_service_near_ric\<close>). Each of them leaves one more message at the
  socket, one more pending event and its timer; the answer (\<open>stop_pending_event\<close>) takes the event back.
\<close>

declare bind_res_eq_Inr [simp del]

text \<open>
  \<open>requested ric tfd ms ev s ba ric'\<close>: \<open>ric'\<close> is \<open>ric\<close> after a request was made: the bytes \<open>ba\<close> were
  sent to \<open>s\<close>, and \<open>ev\<close> is pending with the timer \<open>tfd\<close>.
\<close>

definition requested ::
  "('c, 'i) near_ric \<Rightarrow> int \<Rightarrow> int \<Rightarrow> pending_event_ric \<Rightarrow> sctp_info \<Rightarrow> byte_array \<Rightarrow> ('c, 'i) near_ric \<Rightarrow> bool" where
  "requested ric tfd ms ev s ba ric' \<longleftrightarrow>
     near_ric_inv ric' \<and> pend ric' = insert (tfd, ev) (pend ric) \<and> nr_sent ric' = nr_sent ric @ [(s, ba)] \<and>
     io_fds (nr_io ric') = tfd # io_fds (nr_io ric) \<and>
     (\<exists>t. io_timers (nr_io ric') = (io_timers (nr_io ric))(tfd \<mapsto> t) \<and> fires_every ms t) \<and>
     ric' = ric\<lparr>nr_sent := nr_sent ric', nr_io := nr_io ric', nr_pending := nr_pending ric'\<rparr>"

lemma requested_ok:
  assumes "near_ric_inv ric" "fresh_fd ric tfd" "ev \<notin> snd ` pend ric" "0 < ms" "node_at ric i s"
    and enc: "ap_enc (nr_ap ric) msg \<noteq> []"
  shows "\<exists>ric'. bind_res (start_pending ric tfd ms ev)
        (\<lambda>ric. bind_res (e2ap_send_bytes_ric ric i (ap_enc (nr_ap ric) msg)) k) = k ric' \<and>
    requested ric tfd ms ev s (ap_enc (nr_ap ric) msg) ric'"
proof -
  obtain io p t where r: "start_pending ric tfd ms ev = Inr (ric\<lparr>nr_io := io, nr_pending := p\<rparr>)"
    "near_ric_inv (ric\<lparr>nr_io := io, nr_pending := p\<rparr>)" "pairs_of p = insert (tfd, ev) (pend ric)"
    "io_fds io = tfd # io_fds (nr_io ric)" "io_timers io = (io_timers (nr_io ric))(tfd \<mapsto> t)" "fires_every ms t"
    using start_pending_ok [OF assms(1-4)] by blast
  have "e2ap_send_bytes_ric (ric\<lparr>nr_io := io, nr_pending := p\<rparr>) i (ap_enc (nr_ap ric) msg) =
      Inr (ric\<lparr>nr_io := io, nr_pending := p, nr_sent := nr_sent ric @ [(s, ap_enc (nr_ap ric) msg)]\<rparr>)"
    using send_bytes_ok [OF r(2) _ enc, of i s] assms(5) by simp
  with r show ?thesis
    by (intro exI [of _ "ric\<lparr>nr_io := io, nr_pending := p, nr_sent := nr_sent ric @ [(s, ap_enc (nr_ap ric) msg)]\<rparr>"])
      (auto simp: requested_def)
qed

lemma bind_res_Inr: "bind_res m Inr = m"
  by (simp add: bind_res_def split: sum.splits)

lemmas requested_last = requested_ok [where k = Inr, unfolded bind_res_Inr]

lemma requested_inv: "requested ric tfd ms ev s ba ric' \<Longrightarrow> near_ric_inv ric'"
  by (simp add: requested_def)

lemma requested_pend: "requested ric tfd ms ev s ba ric' \<Longrightarrow> pend ric' = insert (tfd, ev) (pend ric)"
  by (simp add: requested_def)

text \<open>What a request leaves as it is.\<close>

lemma requested_fields:
  assumes "requested ric tfd ms ev s ba ric'"
  shows "nr_ap ric' = nr_ap ric" "nr_e2_nodes ric' = nr_e2_nodes ric" "nr_req_id ric' = nr_req_id ric"
    "nr_conn_e2_nodes ric' = nr_conn_e2_nodes ric" "nr_sm_ds ric' = nr_sm_ds ric"
    "nr_pub_sub ric' = nr_pub_sub ric" "nr_published ric' = nr_published ric" "nr_fd ric' = nr_fd ric"
    "node_at ric' = node_at ric" "fresh_fd ric' fd \<longleftrightarrow> fresh_fd ric fd \<and> fd \<noteq> tfd"
    "nr_sent ric' = nr_sent ric @ [(s, ba)]"
proof -
  have e: "ric' = ric\<lparr>nr_sent := nr_sent ric', nr_io := nr_io ric', nr_pending := nr_pending ric'\<rparr>"
    and fds: "io_fds (nr_io ric') = tfd # io_fds (nr_io ric)" "nr_sent ric' = nr_sent ric @ [(s, ba)]"
    using assms unfolding requested_def by blast+
  from arg_cong [OF e, of nr_ap] arg_cong [OF e, of nr_e2_nodes] arg_cong [OF e, of nr_req_id]
    arg_cong [OF e, of nr_conn_e2_nodes] arg_cong [OF e, of nr_sm_ds] arg_cong [OF e, of nr_pub_sub]
    arg_cong [OF e, of nr_published] arg_cong [OF e, of nr_fd] fds
  show "nr_ap ric' = nr_ap ric" "nr_e2_nodes ric' = nr_e2_nodes ric" "nr_req_id ric' = nr_req_id ric"
    "nr_conn_e2_nodes ric' = nr_conn_e2_nodes ric" "nr_sm_ds ric' = nr_sm_ds ric"
    "nr_pub_sub ric' = nr_pub_sub ric" "nr_published ric' = nr_published ric" "nr_fd ric' = nr_fd ric"
    "node_at ric' = node_at ric" "fresh_fd ric' fd \<longleftrightarrow> fresh_fd ric fd \<and> fd \<noteq> tfd"
    "nr_sent ric' = nr_sent ric @ [(s, ba)]"
    by (auto simp: node_at_def fresh_fd_def fun_eq_iff)
qed

text \<open>The answer ends the wait: the event and its timer are gone, everything else stays.\<close>

lemma requested_answer:
  assumes r: "requested ric tfd ms ev s ba ric'" and fd: "tfd \<notin> fst ` pend ric"
  shows "\<exists>ric''. stop_pending_event ric' ev = Inr ric'' \<and> near_ric_inv ric'' \<and> pend ric'' = pend ric \<and>
    io_fds (nr_io ric'') = io_fds (nr_io ric) \<and> nr_sent ric'' = nr_sent ric'"
proof -
  have p: "(tfd, ev) \<in> pend ric'" and inv: "near_ric_inv ric'"
    using r by (simp_all add: requested_def)
  obtain io q where s: "stop_pending_event ric' ev = Inr (ric'\<lparr>nr_io := io, nr_pending := q\<rparr>)"
    "near_ric_inv (ric'\<lparr>nr_io := io, nr_pending := q\<rparr>)" "pairs_of q = pend ric' - {(tfd, ev)}"
    "io_fds io = remove1 tfd (io_fds (nr_io ric'))"
    using stop_pending_event_ok [OF inv p] by blast
  with r fd have q: "pairs_of q = pend ric" by (auto simp: requested_def image_iff)
  from r have fds: "io_fds (nr_io ric') = tfd # io_fds (nr_io ric)" by (simp add: requested_def)
  show ?thesis
    by (rule exI [of _ "ric'\<lparr>nr_io := io, nr_pending := q\<rparr>"])
      (use s q fds in simp)
qed

lemma set_low16_small: "w < 65536 \<Longrightarrow> set_low16 w n = ucast n"
proof -
  assume "w < 65536"
  then have w: "uint w < 2 ^ 16" by (simp add: word_less_def)
  have nb: "\<not> bit w n" if "16 \<le> n" for n
    using bit_take_bit_iff [of 16 "uint w" n] take_bit_int_eq_self [OF _ w] that
    by (auto simp: bit_uint_iff dest: bit_imp_le_length)
  then have "and w (not (mask 16)) = 0" by (intro bit_eqI) (use nb in \<open>auto simp: bit_simps not_less\<close>)
  then show ?thesis by (simp add: set_low16_def)
qed

text \<open>The requests of the xApps that the RIC forwards.\<close>

definition fwd_sub_msg :: "('c, 'i) near_ric \<Rightarrow> ric_subscription_request \<Rightarrow> ric_subscription_request" where
  "fwd_sub_msg ric sr = sr\<lparr>sr_ric_id := set_req_id (ucast (nr_req_id ric)) (sr_ric_id sr)\<rparr>"

definition fwd_ctrl_msg :: "('c, 'i) near_ric \<Rightarrow> ric_control_request \<Rightarrow> ric_control_request" where
  "fwd_ctrl_msg ric cr = cr\<lparr>cr_ric_id := set_req_id (ucast (nr_req_id ric)) (cr_ric_id cr)\<rparr>"

definition sub_event :: "ric_gen_id \<Rightarrow> pending_event_ric" where
  "sub_event i = \<lparr>pe_ev = SUBSCRIPTION_REQUEST_PENDING_EVENT, pe_id = i\<rparr>"

definition del_event :: "ric_gen_id \<Rightarrow> pending_event_ric" where
  "del_event i = \<lparr>pe_ev = SUBSCRIPTION_DELETE_REQUEST_PENDING_EVENT, pe_id = i\<rparr>"

definition ctrl_event :: "ric_gen_id \<Rightarrow> pending_event_ric" where
  "ctrl_event i = \<lparr>pe_ev = CONTROL_REQUEST_PENDING_EVENT, pe_id = i\<rparr>"

lemma events_distinct [simp]:
  "sub_event i \<noteq> del_event j" "sub_event i \<noteq> ctrl_event j" "del_event i \<noteq> ctrl_event j"
  "del_event i \<noteq> sub_event j" "ctrl_event i \<noteq> sub_event j" "ctrl_event i \<noteq> del_event j"
  "sub_event i = sub_event i' \<longleftrightarrow> i = i'" "del_event i = del_event i' \<longleftrightarrow> i = i'" "ctrl_event i = ctrl_event i' \<longleftrightarrow> i = i'"
  by (simp_all add: sub_event_def del_event_def ctrl_event_def)

abbreviation count_up :: "('c, 'i) near_ric \<Rightarrow> ('c, 'i) near_ric" where
  "count_up ric \<equiv> ric\<lparr>nr_req_id := nr_req_id ric + 1\<rparr>"

lemma fwd_subscription_ok:
  assumes inv: "near_ric_inv ric" and fd: "fresh_fd ric tfd" and i: "node_at ric i s"
    and ev: "sub_event (sr_ric_id (fwd_sub_msg ric sr)) \<notin> snd ` pend ric"
    and enc: "ap_enc (nr_ap ric) (RIC_SUBSCRIPTION_REQUEST (fwd_sub_msg ric sr)) \<noteq> []"
  shows "\<exists>ric'. fwd_ric_subscription_request ric tfd i sr = Inr (ucast (nr_req_id ric), fwd_sub_msg ric sr, ric') \<and>
    requested (count_up ric) tfd 3000 (sub_event (sr_ric_id (fwd_sub_msg ric sr))) s
      (ap_enc (nr_ap ric) (RIC_SUBSCRIPTION_REQUEST (fwd_sub_msg ric sr))) ric'"
proof -
  have *: "near_ric_inv (count_up ric)" "fresh_fd (count_up ric) tfd" "node_at (count_up ric) i s"
    "sub_event (sr_ric_id (fwd_sub_msg ric sr)) \<notin> snd ` pend (count_up ric)" "(0 :: int) < 3000"
    using assms by simp_all
  from requested_ok [OF *(1,2,4,5,3), of "RIC_SUBSCRIPTION_REQUEST (fwd_sub_msg ric sr)"
      "\<lambda>r. Inr (ucast (nr_req_id ric), fwd_sub_msg ric sr, r)"] enc
  show ?thesis by (simp add: fwd_ric_subscription_request_def Let_def fwd_sub_msg_def sub_event_def)
qed

lemma fwd_control_ok:
  assumes inv: "near_ric_inv ric" and fd: "fresh_fd ric tfd" and i: "node_at ric i s"
    and ev: "ctrl_event (cr_ric_id (fwd_ctrl_msg ric cr)) \<notin> snd ` pend ric"
    and enc: "ap_enc (nr_ap ric) (RIC_CONTROL_REQUEST (fwd_ctrl_msg ric cr)) \<noteq> []"
  shows "\<exists>ric'. fwd_ric_control_request ric tfd i cr = Inr (ucast (nr_req_id ric), fwd_ctrl_msg ric cr, ric') \<and>
    requested (count_up ric) tfd 3000 (ctrl_event (cr_ric_id (fwd_ctrl_msg ric cr))) s
      (ap_enc (nr_ap ric) (RIC_CONTROL_REQUEST (fwd_ctrl_msg ric cr))) ric'"
proof -
  have *: "near_ric_inv (count_up ric)" "fresh_fd (count_up ric) tfd" "node_at (count_up ric) i s"
    "ctrl_event (cr_ric_id (fwd_ctrl_msg ric cr)) \<notin> snd ` pend (count_up ric)" "(0 :: int) < 3000"
    using assms by simp_all
  from requested_ok [OF *(1,2,4,5,3), of "RIC_CONTROL_REQUEST (fwd_ctrl_msg ric cr)"
      "\<lambda>r. Inr (ucast (nr_req_id ric), fwd_ctrl_msg ric cr, r)"] enc
  show ?thesis by (simp add: fwd_ric_control_request_def Let_def fwd_ctrl_msg_def ctrl_event_def)
qed

lemma fwd_delete_ok:
  assumes inv: "near_ric_inv ric" and fd: "fresh_fd ric tfd" and i: "node_at ric i s"
    and ev: "del_event (sd_ric_id sdr) \<notin> snd ` pend ric"
    and enc: "ap_enc (nr_ap ric) (RIC_SUBSCRIPTION_DELETE_REQUEST sdr) \<noteq> []"
  shows "\<exists>ric'. fwd_ric_subscription_request_delete ric tfd i sdr = Inr ric' \<and>
    requested ric tfd 3000 (del_event (sd_ric_id sdr)) s
      (ap_enc (nr_ap ric) (RIC_SUBSCRIPTION_DELETE_REQUEST sdr)) ric'"
proof -
  have m: "pends_inv (nr_pending ric)" using inv by (simp add: near_ric_inv_def)
  have "search (bm_right (nr_pending ric)) (del_event (sd_ric_id sdr)) eq_pending_event_ric =
      Inr (assoc_rb_tree_end (bm_right (nr_pending ric)))"
    using search_pending [OF m, of "del_event (sd_ric_id sdr)"] ev by (auto simp: pend_def)
  with requested_last [OF inv fd ev _ i enc] show ?thesis
    by (simp add: fwd_ric_subscription_request_delete_def Let_def del_event_def)
qed

lemma fwd_delete_pending:
  assumes inv: "near_ric_inv ric" and ev: "del_event (sd_ric_id sdr) \<in> snd ` pend ric"
  shows "fwd_ric_subscription_request_delete ric tfd i sdr = Inr ric"
proof -
  have m: "pends_inv (nr_pending ric)" using inv by (simp add: near_ric_inv_def)
  obtain it where "search (bm_right (nr_pending ric)) (del_event (sd_ric_id sdr)) eq_pending_event_ric = Inr it"
    "it \<noteq> assoc_rb_tree_end (bm_right (nr_pending ric))"
    using search_pending [OF m, of "del_event (sd_ric_id sdr)"] ev by (auto simp: pend_def)
  then show ?thesis by (simp add: fwd_ric_subscription_request_delete_def Let_def del_event_def)
qed

text \<open>The delete request of the RIC itself.\<close>

definition own_delete :: "u16 \<Rightarrow> u16 \<Rightarrow> ric_subscription_delete_request" where
  "own_delete rfid act_id = \<lparr>sd_ric_id = \<lparr>ric_req_id = ucast act_id, ric_inst_id = 0, ran_func_id = rfid\<rparr>\<rparr>"

lemma rm_report_ok:
  assumes inv: "near_ric_inv ric" and fd: "fresh_fd ric tfd" and i: "node_at ric i s"
    and ev: "del_event (sd_ric_id (own_delete rfid act_id)) \<notin> snd ` pend ric" and act: "act_id \<noteq> 0"
    and enc: "ap_enc (nr_ap ric) (RIC_SUBSCRIPTION_DELETE_REQUEST (own_delete rfid act_id)) \<noteq> []"
  shows "\<exists>ric'. rm_report_service_near_ric ric tfd i rfid act_id = Inr ric' \<and>
    requested ric tfd 3000 (del_event (sd_ric_id (own_delete rfid act_id))) s
      (ap_enc (nr_ap ric) (RIC_SUBSCRIPTION_DELETE_REQUEST (own_delete rfid act_id))) ric'"
  using requested_last [OF inv fd ev _ i enc] act
  by (simp add: rm_report_service_near_ric_def Let_def del_event_def own_delete_def word_gt_0)


section \<open>Trees keyed by a RAN function\<close>

abbreviation rf_inv :: "(u16, 'v) rb_tree \<Rightarrow> bool" where
  "rf_inv T \<equiv> rb_inv cmp_ran_func_id (\<lambda>_. True) (\<lambda>f. [uint f]) T"

definition rf_map :: "(u16, 'v) rb_tree \<Rightarrow> u16 \<Rightarrow> 'v option" where
  "rf_map T = map_of (map (\<lambda>e. (it_key e, snd (snd e))) (rb_items T))"

lemma search_ran_func:
  assumes T: "rf_inv T"
  shows "\<exists>it. search T rfid eq_ran_func_id = Inr it \<and>
    (case rf_map T rfid of None \<Rightarrow> it = assoc_rb_tree_end T
     | Some v \<Rightarrow> it \<noteq> assoc_rb_tree_end T \<and> assoc_rb_tree_value T it = Inr v \<and>
         (\<exists>xs ys. rb_items T = xs @ (it, rfid, v) # ys))"
proof -
  from sms.find_first [OF T, of "eq_ran_func_id rfid" "\<lambda>k. rfid = k"]
  consider "search T rfid eq_ran_func_id = Inr (assoc_rb_tree_end T)"
      "\<forall>e \<in> set (rb_items T). rfid \<noteq> it_key e"
    | xs a v ys where "rb_items T = xs @ (a, rfid, v) # ys"
      "search T rfid eq_ran_func_id = Inr a" "a \<noteq> assoc_rb_tree_end T"
      "\<forall>e \<in> set xs. rfid \<noteq> it_key e" "assoc_rb_tree_value T a = Inr v"
    unfolding eq_ran_func_id_def rb_find_if by blast
  then show ?thesis
  proof cases
    case 1
    then have "rf_map T rfid = None" by (auto simp: rf_map_def map_of_eq_None_iff)
    then show ?thesis using 1(1) by simp
  next
    case 2
    then have "map_of (map (\<lambda>e. (it_key e, snd (snd e))) xs) rfid = None" by (auto simp: map_of_eq_None_iff)
    then have "rf_map T rfid = Some v" by (simp add: 2(1) map_add_def rf_map_def)
    then show ?thesis using 2(1,2,3,5) by (intro exI [of _ a]) auto
  qed
qed

lemma sm_plugin_ok:
  assumes "rf_inv sm_ds" "rf_map sm_ds rfid = Some sm" "sm_ran_func_id sm = rfid" "rfid \<noteq> 0"
  shows "sm_plugin_ric sm_ds rfid = Inr sm"
  using search_ran_func [OF assms(1), of rfid] assms by (auto simp: sm_plugin_ric_def word_gt_0)

lemma sm_plugin_unknown:
  assumes "rf_inv sm_ds" "rf_map sm_ds rfid = None"
  shows "sm_plugin_ric sm_ds rfid = Inl AssertFailed"
  using search_ran_func [OF assms(1), of rfid] assms by (cases "rfid > 0") (auto simp: sm_plugin_ric_def)

lemma rf_init: "\<exists>T. assoc_rb_tree_init 2 cmp_ran_func_id = Inr T \<and> rf_inv T \<and> rf_map T = Map.empty \<and> t_key_sz T = 2"
  using rb_init_ok [of 2 cmp_ran_func_id "\<lambda>_. True" "\<lambda>f. [uint f]"]
  by (auto simp: rf_map_def assoc_rb_tree_init_def split: if_splits)

section \<open>The RIC's own subscriptions\<close>

definition own_sub :: "('c, 'i) near_ric \<Rightarrow> ('c, 'i) sm_ric \<Rightarrow> u16 \<Rightarrow> 'c \<Rightarrow> ric_subscription_request" where
  "own_sub ric sm rfid cmd = fst (generate_subscription_request ric sm rfid cmd)"

lemma own_sub_simps [simp]:
  "sr_ric_id (own_sub ric sm rfid cmd) = \<lparr>ric_req_id = nr_req_id ric, ric_inst_id = 0, ran_func_id = rfid\<rparr>"
  "snd (generate_subscription_request ric sm rfid cmd) = count_up ric"
  by (simp_all add: own_sub_def generate_subscription_request_def Let_def)

lemma report_service_ok:
  assumes inv: "near_ric_inv ric" and fd: "fresh_fd ric tfd" and i: "node_at ric i s"
    and sm: "rf_inv (nr_sm_ds ric)" "rf_map (nr_sm_ds ric) rfid = Some sm" "sm_ran_func_id sm = rfid"
    and rfid: "0 < rfid" "rfid < 150"
    and ev: "sub_event (sr_ric_id (own_sub ric sm rfid cmd)) \<notin> snd ` pend ric"
    and enc: "ap_enc (nr_ap ric) (RIC_SUBSCRIPTION_REQUEST (own_sub ric sm rfid cmd)) \<noteq> []"
  shows "\<exists>ric'. report_service_near_ric ric tfd i rfid cmd = Inr (ucast (nr_req_id ric), ric') \<and>
    requested (count_up ric) tfd 3000 (sub_event (sr_ric_id (own_sub ric sm rfid cmd))) s
      (ap_enc (nr_ap ric) (RIC_SUBSCRIPTION_REQUEST (own_sub ric sm rfid cmd))) ric'"
proof -
  have *: "near_ric_inv (count_up ric)" "fresh_fd (count_up ric) tfd" "node_at (count_up ric) i s"
    "sub_event (sr_ric_id (own_sub ric sm rfid cmd)) \<notin> snd ` pend (count_up ric)" "(0 :: int) < 3000"
    using assms by simp_all
  have g: "generate_subscription_request ric sm rfid cmd = (own_sub ric sm rfid cmd, count_up ric)"
    by (metis own_sub_def own_sub_simps(2) prod.collapse)
  from requested_ok [OF *(1,2,4,5,3), of "RIC_SUBSCRIPTION_REQUEST (own_sub ric sm rfid cmd)"
      "\<lambda>r. Inr (ucast (nr_req_id ric), r)"] enc rfid sm_plugin_ok [OF sm(1,2)] sm(3)
  show ?thesis by (simp add: report_service_near_ric_def g sub_event_def word_gt_0)
qed

section \<open>Properties\<close>

text \<open>The messages of the samples are encoded by their kind and the number of the request.\<close>

definition sample_ap :: e2ap_ap where
  "sample_ap = \<lparr>ap_enc = (\<lambda>m. case m of
       RIC_SUBSCRIPTION_REQUEST r \<Rightarrow> [1, ucast (ric_req_id (sr_ric_id r))]
     | RIC_SUBSCRIPTION_DELETE_REQUEST r \<Rightarrow> [2, ucast (ric_req_id (sd_ric_id r))]
     | RIC_SUBSCRIPTION_RESPONSE r \<Rightarrow> [3, ucast (ric_req_id (sp_ric_id r))]
     | RIC_INDICATION r \<Rightarrow> [4, ucast (ric_req_id (in_ric_id r))]
     | _ \<Rightarrow> [0]), ap_dec = (\<lambda>b. NONE_E2_MSG_TYPE)\<rparr>"

lemma sample_ap_enc [simp]:
  "ap_enc sample_ap (RIC_SUBSCRIPTION_REQUEST r) = [1, ucast (ric_req_id (sr_ric_id r))]"
  "ap_enc sample_ap (RIC_SUBSCRIPTION_DELETE_REQUEST d) = [2, ucast (ric_req_id (sd_ric_id d))]"
  "ap_enc sample_ap (RIC_SUBSCRIPTION_RESPONSE p) = [3, ucast (ric_req_id (sp_ric_id p))]"
  "ap_enc sample_ap (RIC_INDICATION i) = [4, ucast (ric_req_id (in_ric_id i))]"
  "ap_enc sample_ap m \<noteq> []"
  by (simp_all add: sample_ap_def split: e2ap_msg.split)

definition sample_sm :: "u16 \<Rightarrow> (string, string) sm_ric" where
  "sample_sm rfid = \<lparr>sm_ran_func_id = rfid, on_subscription = (\<lambda>c. \<lparr>sb_event_trigger = [1], sb_action_def = None\<rparr>),
     on_control_req = (\<lambda>c. \<lparr>sc_ctrl_hdr = [1], sc_ctrl_msg = [2]\<rparr>),
     on_indication = (\<lambda>d. \<lparr>ri_type = MAC_STATS_V0, ri_data = ''ind''\<rparr>)\<rparr>"

lemma init_e2_nodes_ok: "arr_inv init_e2_nodes_ric" "sa_elt_size init_e2_nodes_ric = E2_NODE_SZ"
  "arr_list init_e2_nodes_ric = []"
  using seq_arr_init_inv [of E2_NODE_SZ]
  by (simp_all add: init_e2_nodes_ric_def E2_NODE_SZ_def) (simp add: seq_arr_init_def)

text \<open>A RIC with the service model 142, to which the DU 3 is connected.\<close>

lemma sample_ric:
  obtains ric :: "(string, string) near_ric" where "near_ric_inv ric" "nr_ap ric = sample_ap" "pend ric = {}"
    "node_at ric (sample_du 3) (sample_sctp 36421)" "nr_req_id ric = n" "rf_inv (nr_sm_ds ric)"
    "rf_map (nr_sm_ds ric) 142 = Some (sample_sm 142)" "io_fds (nr_io ric) = [5]" "nr_sent ric = []"
proof -
  obtain m0 where m0: "init_map_e2_node_sad = Inr m0" "nodes_inv m0" "pairs_of m0 = {}"
    using init_map_e2_node_sad_ok by blast
  obtain m where m: "nodes_inv m" "pairs_of m = {(sample_du 3, sample_sctp 36421)}"
    using add_map_e2_node_sad_ok [OF m0(2), of "sample_du 3" "sample_sctp 36421"] m0(3) by auto
  obtain p where p: "pends_inv p" "pairs_of p = {}" using init_pending_events_ok by blast
  obtain T :: "(u16, (string, string) sm_ric) rb_tree" where T: "rf_inv T" "rb_items T = []"
    using rb_init_ok [of 2 cmp_ran_func_id "\<lambda>_. True" "\<lambda>f. [uint f]"] by auto
  obtain ps :: "(u16, subs_ric seq_arr) rb_tree" where ps: "init_pub_sub_ds_ric = Inr ps"
    using rf_init by (auto simp: init_pub_sub_ds_ric_def)
  from sms.insert_law [OF T(1), of 142 "sample_sm 142"] obtain T' a where
    T': "rf_inv T'" "rb_items T' = [(a, 142, sample_sm 142)]"
    by (auto simp: T(2) sorted_insert_def)
  define ric :: "(string, string) near_ric" where
    "ric = \<lparr>nr_fd = 5, nr_e2_nodes = m, nr_sent = [], nr_ap = sample_ap,
       nr_io = \<lparr>io_fds = [5], io_timers = Map.empty\<rparr>, nr_sm_ds = T', nr_pub_sub = ps, nr_published = [],
       nr_conn_e2_nodes = init_e2_nodes_ric, nr_req_id = n, nr_pending = p\<rparr>"
  show ?thesis
    by (rule that [of ric])
      (use m p T' init_e2_nodes_ok in
        \<open>auto simp: ric_def near_ric_inv_def pend_def node_at_def rf_map_def\<close>)
qed

text \<open>forwarding the subscription of an xApp gives it the next number of the RIC, sends it to the
  endpoint of the node, and leaves an event pending with a timer of 3000 ms. The answer with this
  number ends the wait and leaves nothing behind; an answer that nobody waits for, such as a second
  one, aborts.\<close>

theorem fwd_subscription_and_answer:
  fixes ric :: "('c, 'i) near_ric"
  assumes inv: "near_ric_inv ric" and fd: "fresh_fd ric tfd" and i: "node_at ric i s"
    and sr: "ric_req_id (sr_ric_id sr) < 65536"
    and ev: "\<forall>e \<in> snd ` pend ric. ric_req_id (pe_id e) \<noteq> ucast (ucast (nr_req_id ric) :: u16)"
    and enc: "\<forall>m. ap_enc (nr_ap ric) m \<noteq> []"
  defines "rid \<equiv> (sr_ric_id sr)\<lparr>ric_req_id := ucast (ucast (nr_req_id ric) :: u16)\<rparr>"
  shows "\<exists>ric' ric'' t. fwd_ric_subscription_request ric tfd i sr =
      Inr (ucast (nr_req_id ric), sr\<lparr>sr_ric_id := rid\<rparr>, ric') \<and>
    near_ric_inv ric' \<and> nr_req_id ric' = nr_req_id ric + 1 \<and> pend ric' = insert (tfd, sub_event rid) (pend ric) \<and>
    nr_sent ric' = nr_sent ric @ [(s, ap_enc (nr_ap ric) (RIC_SUBSCRIPTION_REQUEST (sr\<lparr>sr_ric_id := rid\<rparr>)))] \<and>
    io_timers (nr_io ric') tfd = Some t \<and> fires_every 3000 t \<and>
    stop_pending_event ric' (sub_event rid) = Inr ric'' \<and> near_ric_inv ric'' \<and> pend ric'' = pend ric \<and>
    io_fds (nr_io ric'') = io_fds (nr_io ric) \<and>
    stop_pending_event ric'' (sub_event rid) = Inl AssertFailed"
proof -
  have m: "fwd_sub_msg ric sr = sr\<lparr>sr_ric_id := rid\<rparr>"
    using sr by (simp add: fwd_sub_msg_def set_req_id_def set_low16_small rid_def)
  have new: "sub_event rid \<notin> snd ` pend ric"
    using ev by (auto simp: sub_event_def rid_def)
  obtain ric' where f: "fwd_ric_subscription_request ric tfd i sr = Inr (ucast (nr_req_id ric), fwd_sub_msg ric sr, ric')"
    and r: "requested (count_up ric) tfd 3000 (sub_event (sr_ric_id (fwd_sub_msg ric sr))) s
      (ap_enc (nr_ap ric) (RIC_SUBSCRIPTION_REQUEST (fwd_sub_msg ric sr))) ric'"
    using fwd_subscription_ok [OF inv fd i, of sr] new enc m by auto
  obtain t where t: "io_timers (nr_io ric') tfd = Some t" "fires_every 3000 t"
    using r by (auto simp: requested_def)
  have "tfd \<notin> fst ` pend (count_up ric)" using inv fd by (auto simp: near_ric_inv_def fresh_fd_def)
  from requested_answer [OF r this] obtain ric'' where a: "stop_pending_event ric' (sub_event rid) = Inr ric''"
    "near_ric_inv ric''" "pend ric'' = pend ric" "io_fds (nr_io ric'') = io_fds (nr_io ric)"
    by (auto simp: m)
  have "nr_req_id ric' = nr_req_id ric + 1" using requested_fields(3) [OF r] by simp
  with f r t a new stop_pending_event_missing [OF a(2), of "sub_event rid"] show ?thesis
    by (auto simp: m requested_def)
qed

theorem fwd_subscription_and_answer_witness:
  "\<exists>ric ric' ric'' :: (string, string) near_ric.
     fwd_ric_subscription_request ric 9 (sample_du 3) \<lparr>sr_ric_id = \<lparr>ric_req_id = 1, ric_inst_id = 0, ran_func_id = 142\<rparr>,
       sr_event_trigger = [1], sr_action = []\<rparr> =
     Inr (1021, \<lparr>sr_ric_id = \<lparr>ric_req_id = 1021, ric_inst_id = 0, ran_func_id = 142\<rparr>,
       sr_event_trigger = [1], sr_action = []\<rparr>, ric') \<and>
     nr_sent ric' = [(sample_sctp 36421, [1, 253])] \<and>
     stop_pending_event ric' (sub_event \<lparr>ric_req_id = 1021, ric_inst_id = 0, ran_func_id = 142\<rparr>) = Inr ric'' \<and>
     io_fds (nr_io ric'') = [5]"
proof -
  obtain ric :: "(string, string) near_ric" where r: "near_ric_inv ric" "nr_ap ric = sample_ap" "pend ric = {}"
    "node_at ric (sample_du 3) (sample_sctp 36421)" "nr_req_id ric = 1021" "io_fds (nr_io ric) = [5]" "nr_sent ric = []"
    using sample_ric by metis
  have "fresh_fd ric 9" using r by (simp add: fresh_fd_def)
  from fwd_subscription_and_answer [OF r(1) this r(4), of "\<lparr>sr_ric_id =
      \<lparr>ric_req_id = 1, ric_inst_id = 0, ran_func_id = 142\<rparr>, sr_event_trigger = [1], sr_action = []\<rparr>"] r
  show ?thesis by force
qed

text \<open>deleting a subscription is asked for once: while the answer is awaited, further requests to
  delete it, such as those for a leaving xApp, send nothing.\<close>

theorem fwd_delete_once:
  assumes inv: "near_ric_inv ric" and fd: "fresh_fd ric tfd" and i: "node_at ric i s"
    and ev: "del_event (sd_ric_id sdr) \<notin> snd ` pend ric"
    and enc: "ap_enc (nr_ap ric) (RIC_SUBSCRIPTION_DELETE_REQUEST sdr) \<noteq> []"
  shows "\<exists>ric'. fwd_ric_subscription_request_delete ric tfd i sdr = Inr ric' \<and> near_ric_inv ric' \<and>
    nr_sent ric' = nr_sent ric @ [(s, ap_enc (nr_ap ric) (RIC_SUBSCRIPTION_DELETE_REQUEST sdr))] \<and>
    (\<forall>fd' j. fwd_ric_subscription_request_delete ric' fd' j sdr = Inr ric')"
proof -
  obtain ric' where "fwd_ric_subscription_request_delete ric tfd i sdr = Inr ric'"
    "requested ric tfd 3000 (del_event (sd_ric_id sdr)) s (ap_enc (nr_ap ric) (RIC_SUBSCRIPTION_DELETE_REQUEST sdr)) ric'"
    using fwd_delete_ok [OF assms] by blast
  then show ?thesis by (auto simp: requested_def intro!: fwd_delete_pending)
qed

theorem fwd_delete_once_witness:
  "\<exists>ric ric' :: (string, string) near_ric.
     fwd_ric_subscription_request_delete ric 9 (sample_du 3) (own_delete 142 7) = Inr ric' \<and>
     nr_sent ric' = [(sample_sctp 36421, [2, 7])] \<and>
     fwd_ric_subscription_request_delete ric' 10 (sample_du 3) (own_delete 142 7) = Inr ric'"
proof -
  obtain ric :: "(string, string) near_ric" where r: "near_ric_inv ric" "nr_ap ric = sample_ap" "pend ric = {}"
    "node_at ric (sample_du 3) (sample_sctp 36421)" "io_fds (nr_io ric) = [5]" "nr_sent ric = []"
    using sample_ric by metis
  have "fresh_fd ric 9" using r by (simp add: fresh_fd_def)
  from fwd_delete_once [OF r(1) this r(4), of "own_delete 142 7"] r obtain ric' where
    "fwd_ric_subscription_request_delete ric 9 (sample_du 3) (own_delete 142 7) = Inr ric'"
    "nr_sent ric' = [(sample_sctp 36421, [2, 7])]"
    "\<forall>fd' j. fwd_ric_subscription_request_delete ric' fd' j (own_delete 142 7) = Inr ric'"
    by (auto simp: own_delete_def)
  then show ?thesis by blast
qed

text \<open>the number that \<open>report_service_near_ric\<close> returns has 16 bits, the number of the subscription
  32: once 65536 requests were made, deleting the subscription by the returned number asks the
  node to delete another one.\<close>

theorem report_service_handle_truncated:
  fixes ric :: "('c, 'i) near_ric"
  assumes inv: "near_ric_inv ric" and fd: "fresh_fd ric tfd" "fresh_fd ric tfd'" "tfd \<noteq> tfd'" and i: "node_at ric i s"
    and sm: "rf_inv (nr_sm_ds ric)" "rf_map (nr_sm_ds ric) rfid = Some sm" "sm_ran_func_id sm = rfid"
    and rfid: "0 < rfid" "rfid < 150" and pend: "pend ric = {}"
    and enc: "\<forall>m. ap_enc (nr_ap ric) m \<noteq> []" and h: "h = ucast (nr_req_id ric)" "h \<noteq> 0"
  shows "\<exists>ric' ric'' sr. report_service_near_ric ric tfd i rfid cmd = Inr (h, ric') \<and>
    rm_report_service_near_ric ric' tfd' i rfid h = Inr ric'' \<and>
    nr_sent ric'' = nr_sent ric @ [(s, ap_enc (nr_ap ric) (RIC_SUBSCRIPTION_REQUEST sr)),
      (s, ap_enc (nr_ap ric) (RIC_SUBSCRIPTION_DELETE_REQUEST (own_delete rfid h)))] \<and>
    (sr_ric_id sr = sd_ric_id (own_delete rfid h) \<longleftrightarrow> nr_req_id ric < 65536)"
proof -
  obtain ric' where f: "report_service_near_ric ric tfd i rfid cmd = Inr (h, ric')" and
    r: "requested (count_up ric) tfd 3000 (sub_event (sr_ric_id (own_sub ric sm rfid cmd))) s
      (ap_enc (nr_ap ric) (RIC_SUBSCRIPTION_REQUEST (own_sub ric sm rfid cmd))) ric'"
    using report_service_ok [OF inv fd(1) i sm rfid, of cmd] enc pend h(1) by auto
  have ap: "nr_ap ric' = nr_ap ric" "node_at ric' i s" "fresh_fd ric' tfd'"
    using requested_fields [OF r] fd i by simp_all
  have "del_event (sd_ric_id (own_delete rfid h)) \<notin> snd ` pend ric'"
    using r pend by (auto simp: requested_def)
  from rm_report_ok [OF requested_inv [OF r] ap(3,2) this h(2)] obtain ric'' where
    "rm_report_service_near_ric ric' tfd' i rfid h = Inr ric''"
    "nr_sent ric'' = nr_sent ric' @ [(s, ap_enc (nr_ap ric) (RIC_SUBSCRIPTION_DELETE_REQUEST (own_delete rfid h)))]"
    using enc ap(1) by (auto simp: requested_def)
  moreover have "nr_req_id ric = ucast h \<longleftrightarrow> nr_req_id ric < 65536"
  proof -
    have "uint (ucast h :: u32) = uint (nr_req_id ric) mod 65536"
      by (simp add: h(1) unsigned_ucast_eq take_bit_eq_mod uint_mod)
    then show ?thesis
      using mod_pos_pos_trivial [of "uint (nr_req_id ric)" 65536] pos_mod_bound [of 65536 "uint (nr_req_id ric)"]
      by (auto simp: word_less_def simp flip: uint_eq_iff)
  qed
  ultimately show ?thesis using f r
    by (intro exI [of _ ric'] exI [of _ ric''] exI [of _ "own_sub ric sm rfid cmd"])
      (simp add: requested_def own_delete_def)
qed

theorem report_service_handle_truncated_witness:
  "\<exists>ric ric' ric'' :: (string, string) near_ric. nr_req_id ric = 65543 \<and>
     report_service_near_ric ric 9 (sample_du 3) 142 ''5_ms'' = Inr (7, ric') \<and>
     rm_report_service_near_ric ric' 10 (sample_du 3) 142 7 = Inr ric'' \<and>
     snd (last (nr_sent ric'')) = [2, 7]"
proof -
  obtain ric :: "(string, string) near_ric" where r: "near_ric_inv ric" "nr_ap ric = sample_ap" "pend ric = {}"
    "node_at ric (sample_du 3) (sample_sctp 36421)" "nr_req_id ric = 65543" "rf_inv (nr_sm_ds ric)"
    "rf_map (nr_sm_ds ric) 142 = Some (sample_sm 142)" "io_fds (nr_io ric) = [5]"
    using sample_ric by metis
  have fd: "fresh_fd ric 9" "fresh_fd ric 10" using r by (simp_all add: fresh_fd_def)
  from report_service_handle_truncated [OF r(1) fd _ r(4) r(6,7), of 7 "''5_ms''"] r(2,3,5) obtain ric' ric'' where
    "report_service_near_ric ric 9 (sample_du 3) 142 ''5_ms'' = Inr (7, ric')"
    "rm_report_service_near_ric ric' 10 (sample_du 3) 142 7 = Inr ric''" "snd (last (nr_sent ric'')) = [2, 7]"
    by (auto simp: sample_sm_def own_delete_def)
  with r(5) show ?thesis by blast
qed

end
