(* ===== verification/Iapp_Handlers.thy ===== *)
theory Iapp_Handlers
  imports Ric_Requests
begin

text \<open>
  The iApp of the near-RT RIC: the server of the xApps (\<open>ric/iApp/e42_iapp.c\<close>) with its endpoint
  (\<open>ric/iApp/endpoint_iapp.c\<close>), its message handlers (\<open>ric/iApp/msg_handler_iapp.c\<close>) and the entry
  points that the RIC calls (\<open>ric/iApp/e42_iapp_api.c\<close>). A handler runs to its end before the next
  one starts; those that forward a request act on the RIC as well, so the state of both is one
  record. What is handed to the socket is appended to \<open>ia_sent\<close>.

  The descriptor of a new timer is the choice of the operating system: the argument \<open>new_fd\<close> gives
  it for the event queue as it is at the call.
\<close>

declare bind_res_eq_Inr [simp del]

section \<open>State\<close>

record e42_iapp =
  ia_fd :: int
  ia_xapps :: map_xapps_sockaddr
  ia_sent :: "(sctp_info \<times> byte_array) list"
  ia_ap :: e2ap_ap
  ia_xapp_id :: u32
  ia_e2_nodes :: reg_e2_nodes
  ia_map_ric_id :: map_ric_id

record ('c, 'i) ric_system =
  sy_ric :: "('c, 'i) near_ric"
  sy_iapp :: e42_iapp

type_synonym os_fd = "asio_ric \<Rightarrow> int"

definition init_e42_iapp :: "int \<Rightarrow> e2ap_ap \<Rightarrow> e42_iapp res" where
  "init_e42_iapp fd ap =
     bind_res init_map_xapps_sad (\<lambda>xapps.
     bind_res init_reg_e2_node (\<lambda>nodes.
     bind_res init_map_ric_id (\<lambda>reqs.
       Inr \<lparr>ia_fd = fd, ia_xapps = xapps, ia_sent = [], ia_ap = ap, ia_xapp_id = 7, ia_e2_nodes = nodes,
            ia_map_ric_id = reqs\<rparr>)))"

section \<open>The endpoint\<close>

definition e2ap_send_sctp_msg_iapp :: "e42_iapp \<Rightarrow> sctp_info \<Rightarrow> byte_array \<Rightarrow> e42_iapp res" where
  "e2ap_send_sctp_msg_iapp iapp info ba =
     c_assert (length ba > 0) (Inr (iapp\<lparr>ia_sent := ia_sent iapp @ [(info, ba)]\<rparr>))"

definition e2ap_reg_sock_addr_iapp :: "e42_iapp \<Rightarrow> u16 \<Rightarrow> sctp_info \<Rightarrow> e42_iapp res" where
  "e2ap_reg_sock_addr_iapp iapp xapp_id s =
     map_res (\<lambda>m. iapp\<lparr>ia_xapps := m\<rparr>) (add_map_xapps_sad (ia_xapps iapp) xapp_id s)"

definition e2ap_msg_enc_iapp :: "e2ap_ap \<Rightarrow> e2ap_msg \<Rightarrow> byte_array res" where
  "e2ap_msg_enc_iapp ap msg = c_assert (msg \<noteq> NONE_E2_MSG_TYPE) (Inr (ap_enc ap msg))"

text \<open>What several handlers share: \<open>ans\<close> is encoded, sent to the endpoint of an xApp and released.\<close>

definition send_to_xapp :: "e42_iapp \<Rightarrow> u16 \<Rightarrow> e2ap_msg \<Rightarrow> e42_iapp res" where
  "send_to_xapp iapp xapp_id ans =
     bind_res (find_map_xapps_sad (ia_xapps iapp) xapp_id) (\<lambda>info.
     bind_res (e2ap_msg_enc_iapp (ia_ap iapp) ans) (\<lambda>ba.
     bind_res (e2ap_send_sctp_msg_iapp iapp info ba) (\<lambda>iapp.
     bind_res (e2ap_msg_free ans) (\<lambda>_. Inr iapp))))"

section \<open>Answers and indications of the E2 nodes\<close>

definition same_procedure :: "ric_gen_id \<Rightarrow> xapp_ric_id \<Rightarrow> bool" where
  "same_procedure src x \<longleftrightarrow>
     ran_func_id src = ran_func_id (xr_ric_id x) \<and> ric_inst_id src = ric_inst_id (xr_ric_id x)"

definition e2ap_handle_subscription_response_iapp ::
  "e42_iapp \<Rightarrow> ric_subscription_response \<Rightarrow> (e2ap_msg \<times> e42_iapp) res" where
  "e2ap_handle_subscription_response_iapp iapp src =
     bind_res (find_xapp_map_ric_id (ia_map_ric_id iapp) (ucast (ric_req_id (sp_ric_id src)))) (\<lambda>xpctd.
     case xpctd of None \<Rightarrow> Inl AssertFailed
     | Some x \<Rightarrow>
       c_assert (same_procedure (sp_ric_id src) x)
        (let dst = fst (mv_ric_subscription_respponse src);
             dst = dst\<lparr>sp_ric_id := (sp_ric_id dst)\<lparr>ric_req_id := ric_req_id (xr_ric_id x)\<rparr>\<rparr> in
         bind_res (send_to_xapp iapp (xr_xapp_id x) (RIC_SUBSCRIPTION_RESPONSE dst)) (\<lambda>iapp.
           Inr (NONE_E2_MSG_TYPE, iapp))))"

definition e2ap_handle_subscription_delete_response_iapp ::
  "e42_iapp \<Rightarrow> ric_subscription_delete_response \<Rightarrow> (e2ap_msg \<times> e42_iapp) res" where
  "e2ap_handle_subscription_delete_response_iapp iapp src =
     bind_res (find_xapp_map_ric_id (ia_map_ric_id iapp) (ucast (ric_req_id (dp_ric_id src)))) (\<lambda>xpctd.
     case xpctd of None \<Rightarrow> Inr (NONE_E2_MSG_TYPE, iapp)
     | Some x \<Rightarrow>
       c_assert (same_procedure (dp_ric_id src) x)
        (bind_res (send_to_xapp iapp (xr_xapp_id x) (RIC_SUBSCRIPTION_DELETE_RESPONSE \<lparr>dp_ric_id = xr_ric_id x\<rparr>)) (\<lambda>iapp.
         bind_res (rm_map_ric_id (ia_map_ric_id iapp) x) (\<lambda>m.
           Inr (NONE_E2_MSG_TYPE, iapp\<lparr>ia_map_ric_id := m\<rparr>)))))"

text \<open>Only the identifier of the answer is filled in.\<close>

definition e2ap_handle_e42_ric_control_ack_iapp ::
  "e42_iapp \<Rightarrow> ric_control_acknowledge \<Rightarrow> (e2ap_msg \<times> e42_iapp) res" where
  "e2ap_handle_e42_ric_control_ack_iapp iapp src =
     bind_res (find_xapp_map_ric_id (ia_map_ric_id iapp) (ucast (ric_req_id (ck_ric_id src)))) (\<lambda>xpctd.
     case xpctd of None \<Rightarrow> Inl AssertFailed
     | Some x \<Rightarrow>
       c_assert (same_procedure (ck_ric_id src) x)
        (bind_res (send_to_xapp iapp (xr_xapp_id x) (RIC_CONTROL_ACKNOWLEDGE
             \<lparr>ck_ric_id = xr_ric_id x, ck_call_process_id = None, ck_outcome = None\<rparr>)) (\<lambda>iapp.
         bind_res (rm_map_ric_id (ia_map_ric_id iapp) x) (\<lambda>m.
           Inr (NONE_E2_MSG_TYPE, iapp\<lparr>ia_map_ric_id := m\<rparr>)))))"

definition e2ap_handle_ric_indication_iapp :: "e42_iapp \<Rightarrow> ric_indication \<Rightarrow> (e2ap_msg \<times> e42_iapp) res" where
  "e2ap_handle_ric_indication_iapp iapp src =
     bind_res (find_xapp_map_ric_id (ia_map_ric_id iapp) (ucast (ric_req_id (in_ric_id src)))) (\<lambda>xpctd.
     case xpctd of None \<Rightarrow> Inr (NONE_E2_MSG_TYPE, iapp)
     | Some x \<Rightarrow>
       c_assert (same_procedure (in_ric_id src) x)
        (let dst = fst (mv_ric_indication src);
             dst = dst\<lparr>in_ric_id := (in_ric_id dst)\<lparr>ric_req_id := ric_req_id (xr_ric_id x)\<rparr>\<rparr> in
         bind_res (send_to_xapp iapp (xr_xapp_id x) (RIC_INDICATION dst)) (\<lambda>iapp.
           Inr (NONE_E2_MSG_TYPE, iapp))))"

section \<open>Setup of xApps and news of E2 nodes\<close>

text \<open>
  The array of nodes as a message takes it over; every slot was filled when \<open>generate_e2_node_arr\<close>
  returned, reading one as \<open>calloc\<close> left it would be a fault.
\<close>

definition read_nodes :: "e2_node_arr \<Rightarrow> e2_node_connected list res" where
  "read_nodes arr = (case those (ea_n arr) of None \<Rightarrow> Inl UseOfNull | Some ns \<Rightarrow> Inr ns)"

definition free_e2_node_arr :: "e2_node_arr \<Rightarrow> unit res" where
  "free_e2_node_arr arr =
     bind_res (read_nodes arr) (\<lambda>ns. fold_res (\<lambda>n _. free_e2_node_connected n) ns ())"

definition generate_setup_response :: "e42_iapp \<Rightarrow> e42_setup_request \<Rightarrow> (e42_setup_response \<times> e42_iapp) res" where
  "generate_setup_response iapp req =
     c_assert (length (xq_ran_func req) > 0)
      (bind_res (generate_e2_node_arr (ia_e2_nodes iapp)) (\<lambda>ans.
       bind_res (read_nodes ans) (\<lambda>nodes.
         Inr (\<lparr>xp_xapp_id = ucast (ia_xapp_id iapp), xp_nodes = nodes\<rparr>,
              iapp\<lparr>ia_xapp_id := ia_xapp_id iapp + 1\<rparr>))))"

definition e2ap_handle_e42_setup_request_iapp :: "e42_iapp \<Rightarrow> e42_setup_request \<Rightarrow> (e2ap_msg \<times> e42_iapp) res" where
  "e2ap_handle_e42_setup_request_iapp iapp req =
     map_res (\<lambda>(sr, iapp). (E42_SETUP_RESPONSE sr, iapp)) (generate_setup_response iapp req)"

text \<open>The loop \<open>for(i = init_xapp_id; i < init_xapp_id + num_xapp; i++)\<close>.\<close>

definition generate_update_e2_node :: "e42_iapp \<Rightarrow> nat \<Rightarrow> e42_iapp res" where
  "generate_update_e2_node iapp num_xapp =
     c_assert (num_xapp \<noteq> 0)
      (bind_res (generate_e2_node_arr (ia_e2_nodes iapp)) (\<lambda>new_e2_arr.
       bind_res (read_nodes new_e2_arr) (\<lambda>nodes.
         fold_res (\<lambda>i iapp.
           let ans = E42_UPDATE_E2_NODE \<lparr>xu_xapp_id = word_of_nat i, xu_nodes = nodes\<rparr> in
           bind_res (find_map_xapps_sad (ia_xapps iapp) (word_of_nat i)) (\<lambda>info.
           bind_res (e2ap_msg_enc_iapp (ia_ap iapp) ans) (\<lambda>ba.
             e2ap_send_sctp_msg_iapp iapp info ba))) [7..<7 + num_xapp] iapp)))"

definition e2ap_handle_ric_e2_setup_response_iapp :: "e42_iapp \<Rightarrow> (e2ap_msg \<times> e42_iapp) res" where
  "e2ap_handle_ric_e2_setup_response_iapp iapp =
     (let num_xapp = get_num_connected_xapps (ia_xapps iapp) in
      if num_xapp = 0 then Inr (NONE_E2_MSG_TYPE, iapp)
      else map_res (\<lambda>iapp. (NONE_E2_MSG_TYPE, iapp)) (generate_update_e2_node iapp num_xapp))"

section \<open>Requests of the xApps\<close>

definition valid_xapp_id :: "e42_iapp \<Rightarrow> u32 \<Rightarrow> bool res" where
  "valid_xapp_id iapp xapp_id = c_assert (xapp_id < 65536) (Inr (xapp_id \<le> ia_xapp_id iapp))"

fun any_node :: "e2_node_connected list \<Rightarrow> global_e2_node_id \<Rightarrow> bool res" where
  "any_node [] i = Inr False"
| "any_node (n # ns) i =
     bind_res (eq_global_e2_node_id (ec_id n) i) (\<lambda>b. if b then Inr True else any_node ns i)"

definition valid_global_e2_node :: "e42_iapp \<Rightarrow> global_e2_node_id \<Rightarrow> bool res" where
  "valid_global_e2_node iapp i =
     bind_res (generate_e2_node_arr (ia_e2_nodes iapp)) (\<lambda>arr.
     bind_res (read_nodes arr) (\<lambda>nodes.
     bind_res (any_node nodes i) (\<lambda>b.
     bind_res (free_e2_node_arr arr) (\<lambda>_. Inr b))))"

definition e2ap_handle_e42_ric_subscription_delete_request_iapp ::
  "('c, 'i) ric_system \<Rightarrow> os_fd \<Rightarrow> e42_ric_subscription_delete_request \<Rightarrow> (e2ap_msg \<times> ('c, 'i) ric_system) res" where
  "e2ap_handle_e42_ric_subscription_delete_request_iapp sys new_fd src =
     (let x = \<lparr>xr_ric_id = sd_ric_id (xd_sdr src), xr_xapp_id = xd_xapp_id src\<rparr> in
      bind_res (find_ric_req_map_ric_id (ia_map_ric_id (sy_iapp sys)) x) (\<lambda>n.
      c_assert (en_ric_req_type n = SUBSCRIPTION_RIC_REQUEST_TYPE)
       (let dst = cp_ric_subscription_delete_request (xd_sdr src);
            dst = dst\<lparr>sd_ric_id := (sd_ric_id dst)\<lparr>ric_req_id := ric_req_id (en_ric_id n)\<rparr>\<rparr> in
        bind_res (fwd_ric_subscription_request_delete (sy_ric sys) (new_fd (nr_io (sy_ric sys))) (en_e2_node_id n) dst) (\<lambda>ric.
          Inr (NONE_E2_MSG_TYPE, sys\<lparr>sy_ric := ric\<rparr>)))))"

definition e2ap_handle_e42_ric_subscription_request_iapp ::
  "('c, 'i) ric_system \<Rightarrow> os_fd \<Rightarrow> e42_ric_subscription_request \<Rightarrow> (e2ap_msg \<times> ('c, 'i) ric_system) res" where
  "e2ap_handle_e42_ric_subscription_request_iapp sys new_fd e42_sr =
     bind_res (valid_xapp_id (sy_iapp sys) (ucast (xs_xapp_id e42_sr))) (\<lambda>b. c_assert b
     (bind_res (valid_global_e2_node (sy_iapp sys) (xs_id e42_sr)) (\<lambda>b. c_assert b
      (let x = \<lparr>xr_ric_id = sr_ric_id (xs_sr e42_sr), xr_xapp_id = xs_xapp_id e42_sr\<rparr> in
       bind_res (fwd_ric_subscription_request (sy_ric sys) (new_fd (nr_io (sy_ric sys))) (xs_id e42_sr) (xs_sr e42_sr))
        (\<lambda>(new_ric_id, sr, ric).
        let n = \<lparr>en_e2_node_id = cp_global_e2_node_id (xs_id e42_sr),
                 en_ric_id = (sr_ric_id sr)\<lparr>ric_req_id := ucast new_ric_id\<rparr>,
                 en_ric_req_type = SUBSCRIPTION_RIC_REQUEST_TYPE\<rparr> in
        bind_res (add_map_ric_id (ia_map_ric_id (sy_iapp sys)) n x) (\<lambda>m.
          Inr (NONE_E2_MSG_TYPE, sys\<lparr>sy_ric := ric, sy_iapp := (sy_iapp sys)\<lparr>ia_map_ric_id := m\<rparr>\<rparr>)))))))"

definition e2ap_handle_e42_ric_control_request_iapp ::
  "('c, 'i) ric_system \<Rightarrow> os_fd \<Rightarrow> e42_ric_control_request \<Rightarrow> (e2ap_msg \<times> ('c, 'i) ric_system) res" where
  "e2ap_handle_e42_ric_control_request_iapp sys new_fd e42_cr =
     bind_res (valid_xapp_id (sy_iapp sys) (ucast (xc_xapp_id e42_cr))) (\<lambda>b. c_assert b
     (bind_res (valid_global_e2_node (sy_iapp sys) (xc_id e42_cr)) (\<lambda>b. c_assert b
      (let x = \<lparr>xr_ric_id = cr_ric_id (xc_ctrl_req e42_cr), xr_xapp_id = xc_xapp_id e42_cr\<rparr> in
       bind_res (fwd_ric_control_request (sy_ric sys) (new_fd (nr_io (sy_ric sys))) (xc_id e42_cr) (xc_ctrl_req e42_cr))
        (\<lambda>(new_ric_id, cr, ric).
        let n = \<lparr>en_e2_node_id = cp_global_e2_node_id (xc_id e42_cr),
                 en_ric_id = (cr_ric_id cr)\<lparr>ric_req_id := ucast new_ric_id\<rparr>,
                 en_ric_req_type = CONTROL_RIC_REQUEST_TYPE\<rparr> in
        bind_res (add_map_ric_id (ia_map_ric_id (sy_iapp sys)) n x) (\<lambda>m.
          Inr (NONE_E2_MSG_TYPE, sys\<lparr>sy_ric := ric, sy_iapp := (sy_iapp sys)\<lparr>ia_map_ric_id := m\<rparr>\<rparr>)))))))"

section \<open>Dispatch\<close>

text \<open>Handlers that act on the iApp alone.\<close>

definition on_iapp ::
  "('c, 'i) ric_system \<Rightarrow> (e42_iapp \<Rightarrow> (e2ap_msg \<times> e42_iapp) res) \<Rightarrow> (e2ap_msg \<times> ('c, 'i) ric_system) res" where
  "on_iapp sys h = map_res (\<lambda>(ans, iapp). (ans, sys\<lparr>sy_iapp := iapp\<rparr>)) (h (sy_iapp sys))"

text \<open>\<open>check_valid_msg_type\<close> admits the types that \<open>init_handle_msg_iapp\<close> has a handler for.\<close>

definition e2ap_msg_handle_iapp ::
  "('c, 'i) ric_system \<Rightarrow> os_fd \<Rightarrow> e2ap_msg \<Rightarrow> (e2ap_msg \<times> ('c, 'i) ric_system) res" where
  "e2ap_msg_handle_iapp sys new_fd msg = (case msg of
     RIC_SUBSCRIPTION_RESPONSE m \<Rightarrow> on_iapp sys (\<lambda>i. e2ap_handle_subscription_response_iapp i m)
   | E42_SETUP_REQUEST m \<Rightarrow> on_iapp sys (\<lambda>i. e2ap_handle_e42_setup_request_iapp i m)
   | E42_RIC_SUBSCRIPTION_REQUEST m \<Rightarrow> e2ap_handle_e42_ric_subscription_request_iapp sys new_fd m
   | E42_RIC_SUBSCRIPTION_DELETE_REQUEST m \<Rightarrow> e2ap_handle_e42_ric_subscription_delete_request_iapp sys new_fd m
   | E42_RIC_CONTROL_REQUEST m \<Rightarrow> e2ap_handle_e42_ric_control_request_iapp sys new_fd m
   | RIC_CONTROL_ACKNOWLEDGE m \<Rightarrow> on_iapp sys (\<lambda>i. e2ap_handle_e42_ric_control_ack_iapp i m)
   | RIC_INDICATION m \<Rightarrow> on_iapp sys (\<lambda>i. e2ap_handle_ric_indication_iapp i m)
   | RIC_SUBSCRIPTION_DELETE_RESPONSE m \<Rightarrow> on_iapp sys (\<lambda>i. e2ap_handle_subscription_delete_response_iapp i m)
   | E2_SETUP_RESPONSE _ \<Rightarrow> on_iapp sys e2ap_handle_ric_e2_setup_response_iapp
   | _ \<Rightarrow> Inl AssertFailed)"

section \<open>What the RIC asks of the iApp\<close>

definition notifies :: "e2ap_msg \<Rightarrow> bool" where
  "notifies msg = (case msg of
     RIC_INDICATION _ \<Rightarrow> True | RIC_SUBSCRIPTION_RESPONSE _ \<Rightarrow> True | RIC_SUBSCRIPTION_DELETE_RESPONSE _ \<Rightarrow> True
   | RIC_CONTROL_ACKNOWLEDGE _ \<Rightarrow> True | E2_SETUP_RESPONSE _ \<Rightarrow> True | _ \<Rightarrow> False)"

definition notify_msg_iapp :: "('c, 'i) ric_system \<Rightarrow> os_fd \<Rightarrow> e2ap_msg \<Rightarrow> ('c, 'i) ric_system res" where
  "notify_msg_iapp sys new_fd msg =
     c_assert (notifies msg)
      (bind_res (e2ap_msg_handle_iapp sys new_fd msg) (\<lambda>(ans, sys).
       c_assert (ans = NONE_E2_MSG_TYPE) (bind_res (e2ap_msg_free ans) (\<lambda>_. Inr sys))))"

definition add_e2_node_iapp ::
  "e42_iapp \<Rightarrow> global_e2_node_id \<Rightarrow> ran_function list \<Rightarrow> e2ap_node_component_config_add list \<Rightarrow> e42_iapp res" where
  "add_e2_node_iapp iapp i rfs ccas =
     c_assert (length rfs > 0)
      (map_res (\<lambda>n. iapp\<lparr>ia_e2_nodes := n\<rparr>) (add_reg_e2_node (ia_e2_nodes iapp) i rfs ccas))"

text \<open>The message that \<open>rm_e2_node_iapp\<close> passes on has only its type set.\<close>

definition zero_setup_response :: e2_setup_response where
  "zero_setup_response = \<lparr>et_trans_id = 0, et_id = \<lparr>gr_plmn = \<lparr>mcc = 0, mnc = 0, mnc_digit_len = 0\<rparr>, gr_near_ric_id = 0\<rparr>,
     et_accepted = [], et_rejected = [], et_ccaa = []\<rparr>"

definition rm_e2_node_iapp :: "('c, 'i) ric_system \<Rightarrow> os_fd \<Rightarrow> global_e2_node_id \<Rightarrow> ('c, 'i) ric_system res" where
  "rm_e2_node_iapp sys new_fd i =
     bind_res (rm_reg_e2_node (ia_e2_nodes (sy_iapp sys)) i) (\<lambda>n.
       notify_msg_iapp (sys\<lparr>sy_iapp := (sy_iapp sys)\<lparr>ia_e2_nodes := n\<rparr>\<rparr>) new_fd (E2_SETUP_RESPONSE zero_setup_response))"

section \<open>The event loop\<close>

definition gen_e2ap_subs_delete :: "os_fd \<Rightarrow> e2_node_ric_id \<Rightarrow> ('c, 'i) ric_system \<Rightarrow> ('c, 'i) ric_system res" where
  "gen_e2ap_subs_delete new_fd n sys =
     map_res (\<lambda>ric. sys\<lparr>sy_ric := ric\<rparr>)
      (fwd_ric_subscription_request_delete (sy_ric sys) (new_fd (nr_io (sy_ric sys))) (en_e2_node_id n)
        \<lparr>sd_ric_id = en_ric_id n\<rparr>)"

definition rm_if_pending_subs :: "('c, 'i) ric_system \<Rightarrow> os_fd \<Rightarrow> u16 \<Rightarrow> ('c, 'i) ric_system res" where
  "rm_if_pending_subs sys new_fd xapp_id =
     bind_res (find_all_subs_map_ric_id (ia_map_ric_id (sy_iapp sys)) xapp_id) (\<lambda>arr.
     bind_res (arr_for_all arr (gen_e2ap_subs_delete new_fd) sys) (\<lambda>sys.
     bind_res (seq_arr_free arr) (\<lambda>_. Inr sys)))"

text \<open>
  What \<open>next_async_event_iapp\<close> can report: a message with its bytes, the end of a connection, or
  nothing until the time-out. A change of an association is an unknown event, which aborts, and the
  iApp waits for no timer: another descriptor aborts too.
\<close>

datatype iapp_event =
    IAPP_SCTP_MSG_ARRIVED sctp_info byte_array
  | IAPP_SCTP_CONNECTION_SHUTDOWN sctp_info
  | IAPP_SCTP_ASSOC_CHANGE
  | IAPP_OTHER_FD int
  | IAPP_CHECK_STOP_TOKEN

definition iapp_msg_arrived ::
  "('c, 'i) ric_system \<Rightarrow> os_fd \<Rightarrow> sctp_info \<Rightarrow> byte_array \<Rightarrow> ('c, 'i) ric_system res" where
  "iapp_msg_arrived sys new_fd info ba =
     (let msg = ap_dec (ia_ap (sy_iapp sys)) ba in
      bind_res (e2ap_msg_handle_iapp sys new_fd msg) (\<lambda>(ans, sys).
      bind_res (case ans of
          E42_SETUP_RESPONSE sr \<Rightarrow> e2ap_reg_sock_addr_iapp (sy_iapp sys) (xp_xapp_id sr) info
        | _ \<Rightarrow> Inr (sy_iapp sys)) (\<lambda>iapp.
      bind_res (if ans \<noteq> NONE_E2_MSG_TYPE
        then bind_res (e2ap_msg_enc_iapp (ia_ap iapp) ans) (\<lambda>ba. e2ap_send_sctp_msg_iapp iapp info ba)
        else Inr iapp) (\<lambda>iapp.
      bind_res (e2ap_msg_free ans) (\<lambda>_.
      bind_res (e2ap_msg_free msg) (\<lambda>_. Inr (sys\<lparr>sy_iapp := iapp\<rparr>)))))))"

definition e2_event_loop_iapp :: "('c, 'i) ric_system \<Rightarrow> os_fd \<Rightarrow> iapp_event \<Rightarrow> ('c, 'i) ric_system res" where
  "e2_event_loop_iapp sys new_fd e = (case e of
     IAPP_SCTP_MSG_ARRIVED info ba \<Rightarrow> iapp_msg_arrived sys new_fd info ba
   | IAPP_SCTP_CONNECTION_SHUTDOWN info \<Rightarrow>
       bind_res (find_map_xapps_xid (ia_xapps (sy_iapp sys)) info) (\<lambda>xapp_id. rm_if_pending_subs sys new_fd xapp_id)
   | IAPP_SCTP_ASSOC_CHANGE \<Rightarrow> Inl AssertFailed
   | IAPP_OTHER_FD fd \<Rightarrow> Inl AssertFailed
   | IAPP_CHECK_STOP_TOKEN \<Rightarrow> Inr sys)"

end
