(* ===== verification/Ric_Handlers.thy ===== *)
theory Ric_Handlers
  imports Iapp_Handlers
begin

text \<open>
  The handlers of the near-RT RIC for the messages of the E2 nodes (\<open>ric/msg_handler_ric.c\<close>), the
  answer to a setup (\<open>ric/generate_setup_response.c\<close>), the end of a connection
  (\<open>ric/not_handler_ric.c\<close>) and the event loop (\<open>e2_event_loop_ric\<close> of \<open>ric/near_ric.c\<close>). The loop
  gives the messages to the threads of the task manager; a task runs its handler as one step, and
  the tasks may run in any order. The protocol is E2AP v2.03.
\<close>

declare bind_res_eq_Inr [simp del]

section \<open>Answers of the E2 nodes\<close>

definition e2ap_handle_subscription_response_ric ::
  "('c, 'i) ric_system \<Rightarrow> os_fd \<Rightarrow> ric_subscription_response \<Rightarrow> (e2ap_msg \<times> ('c, 'i) ric_system) res" where
  "e2ap_handle_subscription_response_ric sys new_fd resp =
     (let ev = \<lparr>pe_ev = SUBSCRIPTION_REQUEST_PENDING_EVENT, pe_id = sp_ric_id resp\<rparr> in
      bind_res (stop_pending_event (sy_ric sys) ev) (\<lambda>ric.
      c_assert (length (sp_not_admitted resp) = 0)
      (c_assert (length (sp_admitted resp) = 1)
      (c_assert (aa_id (hd (sp_admitted resp)) = 0)
      (bind_res (notify_msg_iapp (sys\<lparr>sy_ric := ric\<rparr>) new_fd (RIC_SUBSCRIPTION_RESPONSE resp)) (\<lambda>sys.
        Inr (NONE_E2_MSG_TYPE, sys)))))))"

definition e2ap_handle_subscription_delete_response_ric ::
  "('c, 'i) ric_system \<Rightarrow> os_fd \<Rightarrow> ric_subscription_delete_response \<Rightarrow> (e2ap_msg \<times> ('c, 'i) ric_system) res" where
  "e2ap_handle_subscription_delete_response_ric sys new_fd resp =
     (let ev = \<lparr>pe_ev = SUBSCRIPTION_DELETE_REQUEST_PENDING_EVENT, pe_id = dp_ric_id resp\<rparr> in
      bind_res (stop_pending_event (sy_ric sys) ev) (\<lambda>ric.
      bind_res (notify_msg_iapp (sys\<lparr>sy_ric := ric\<rparr>) new_fd (RIC_SUBSCRIPTION_DELETE_RESPONSE resp)) (\<lambda>sys.
        Inr (NONE_E2_MSG_TYPE, sys))))"

definition e2ap_handle_control_ack_ric ::
  "('c, 'i) ric_system \<Rightarrow> os_fd \<Rightarrow> ric_control_acknowledge \<Rightarrow> (e2ap_msg \<times> ('c, 'i) ric_system) res" where
  "e2ap_handle_control_ack_ric sys new_fd ack =
     (let ev = \<lparr>pe_ev = CONTROL_REQUEST_PENDING_EVENT, pe_id = ck_ric_id ack\<rparr> in
      bind_res (stop_pending_event (sy_ric sys) ev) (\<lambda>ric.
      bind_res (notify_msg_iapp (sys\<lparr>sy_ric := ric\<rparr>) new_fd (RIC_CONTROL_ACKNOWLEDGE ack)) (\<lambda>sys.
        Inr (NONE_E2_MSG_TYPE, sys))))"

section \<open>Indications\<close>

text \<open>The listeners are those of \<open>start_it\<close>, not of the entry \<open>sm_it\<close> that was looked up.\<close>

definition publish_ind_msg ::
  "('c, 'i) near_ric \<Rightarrow> u16 \<Rightarrow> 'i sm_ag_if_rd_ind \<Rightarrow> ('c, 'i) near_ric res" where
  "publish_ind_msg ric rfid d =
     (let tree = nr_pub_sub ric in
      bind_res (assoc_rb_tree_front tree) (\<lambda>start_it.
      bind_res (find_if_rb_tree tree start_it (assoc_rb_tree_end tree) rfid eq_ran_func_id) (\<lambda>sm_it.
      c_assert (sm_it \<noteq> assoc_rb_tree_end tree)
       (bind_res (assoc_rb_tree_value tree start_it) (\<lambda>arr.
        bind_res (arr_for_all arr (\<lambda>sub ric. Inr (ric\<lparr>nr_published := nr_published ric @ [(sub, d)]\<rparr>)) ric) (\<lambda>ric.
        bind_res (assoc_rb_tree_next tree start_it) (\<lambda>_. Inr ric)))))))"

definition known_ind :: "ind_stats_type \<Rightarrow> bool" where
  "known_ind t \<longleftrightarrow> t \<in> {MAC_STATS_V0, RLC_STATS_V0, PDCP_STATS_V0, SLICE_STATS_V0, KPM_STATS_V3_0,
     RAN_CTRL_STATS_V1_03, GTP_STATS_V0, TC_STATS_V0}"

definition e2ap_handle_indication_ric ::
  "('c, 'i) ric_system \<Rightarrow> os_fd \<Rightarrow> ric_indication \<Rightarrow> (e2ap_msg \<times> ('c, 'i) ric_system) res" where
  "e2ap_handle_indication_ric sys new_fd ric_ind =
     (let rfid = ran_func_id (in_ric_id ric_ind) in
      bind_res (sm_plugin_ric (nr_sm_ds (sy_ric sys)) rfid) (\<lambda>sm.
      let data = \<lparr>sid_hdr = in_hdr ric_ind, sid_msg = in_msg ric_ind, sid_call_process_id = in_call_process_id ric_ind\<rparr>;
          d = on_indication sm data in
      c_assert (known_ind (ri_type d))
       (bind_res (publish_ind_msg (sy_ric sys) rfid d) (\<lambda>ric.
        bind_res (notify_msg_iapp (sys\<lparr>sy_ric := ric\<rparr>) new_fd (RIC_INDICATION ric_ind)) (\<lambda>sys.
          Inr (NONE_E2_MSG_TYPE, sys))))))"

section \<open>Setup of an E2 node\<close>

text \<open>A function that no service model is registered for leaves its slot as \<open>calloc\<close> made it: 0.\<close>

definition accept_ran_func :: "('c, 'i) near_ric \<Rightarrow> e2_setup_request \<Rightarrow> u16 list res" where
  "accept_ran_func ric req =
     (let sm_ds = nr_sm_ds ric in
      fold_res (\<lambda>rf acc.
        bind_res (search sm_ds (rf_id rf) eq_ran_func_id) (\<lambda>it.
          if it \<noteq> assoc_rb_tree_end sm_ds
          then bind_res (assoc_rb_tree_key sm_ds it) (\<lambda>k. c_assert (rf_id rf = k) (Inr (acc @ [rf_id rf])))
          else Inr (acc @ [0]))) (es_ran_func req) [])"

definition generate_setup_response_v2 :: "('c, 'i) near_ric \<Rightarrow> e2_setup_request \<Rightarrow> e2_setup_response res" where
  "generate_setup_response_v2 ric req =
     bind_res (accept_ran_func ric req) (\<lambda>acc.
     c_assert (length (es_comp_conf req) > 0 \<and> length (es_comp_conf req) < 1025)
      (bind_res (fold_res (\<lambda>c add_ack. bind_res (cp_e2ap_node_comp_id (ca_id c)) (\<lambda>i.
          Inr (add_ack @ [\<lparr>cx_type = ca_type c, cx_id = i,
            cx_ack = \<lparr>ak_outcome = SUCCESS_E2AP_NODE_COMP_CONF_ACK, ak_cause = None\<rparr>\<rparr>]))) (es_comp_conf req) []) (\<lambda>add_ack.
        Inr \<lparr>et_trans_id = es_trans_id req, et_id = \<lparr>gr_plmn = gn_plmn (es_id req), gr_near_ric_id = 25\<rparr>,
             et_accepted = acc, et_rejected = [], et_ccaa = add_ack\<rparr>)))"

text \<open>
  The line that is printed: the name of the type and, unless the node is monolithic, the identifier
  of its CU or DU, through the pointer. \<open>None\<close> for the identifier that is not printed.
\<close>

definition setup_line :: "e2_setup_request \<Rightarrow> (string \<times> u64 option) res" where
  "setup_line req =
     (let t = gn_type (es_id req);
          ran_type = (if t = ngran_gNB \<and> length (es_comp_conf req) = 2 then ''ngran_gNB_CU''
            else if t = ngran_gNB \<and> length (es_comp_conf req) = 3 then ''ngran_gNB_CUCP''
            else get_e2ap_ngran_name t) in
      if E2AP_NODE_IS_MONOLITHIC t then Inr (ran_type, None)
      else case gn_cu_du_id (es_id req) of None \<Rightarrow> Inl UseOfNull | Some i \<Rightarrow> Inr (ran_type, Some i))"

definition e2ap_handle_setup_request_ric ::
  "('c, 'i) ric_system \<Rightarrow> os_fd \<Rightarrow> e2_setup_request \<Rightarrow> (e2ap_msg \<times> ('c, 'i) ric_system) res" where
  "e2ap_handle_setup_request_ric sys new_fd req =
     bind_res (setup_line req) (\<lambda>_.
     bind_res (add_e2_node_iapp (sy_iapp sys) (es_id req) (es_ran_func req) (es_comp_conf req)) (\<lambda>iapp.
     bind_res (generate_setup_response_v2 (sy_ric sys) req) (\<lambda>resp.
     let n = init_e2_node (es_id req) (et_accepted resp) in
     bind_res (seq_arr_push_back (nr_conn_e2_nodes (sy_ric sys)) n E2_NODE_SZ) (\<lambda>arr.
     bind_res (notify_msg_iapp (sys\<lparr>sy_ric := (sy_ric sys)\<lparr>nr_conn_e2_nodes := arr\<rparr>, sy_iapp := iapp\<rparr>) new_fd
         (E2_SETUP_RESPONSE resp)) (\<lambda>sys.
       Inr (E2_SETUP_RESPONSE resp, sys))))))"

section \<open>Dispatch\<close>

text \<open>
  \<open>check_valid_msg_type\<close> admits the types that \<open>init_handle_msg_ric\<close> has a handler for; the handlers
  of those that are not named abort with ``not implemented''.
\<close>

definition e2ap_msg_handle_ric ::
  "('c, 'i) ric_system \<Rightarrow> os_fd \<Rightarrow> e2ap_msg \<Rightarrow> (e2ap_msg \<times> ('c, 'i) ric_system) res" where
  "e2ap_msg_handle_ric sys new_fd msg = (case msg of
     RIC_SUBSCRIPTION_RESPONSE m \<Rightarrow> e2ap_handle_subscription_response_ric sys new_fd m
   | RIC_SUBSCRIPTION_DELETE_RESPONSE m \<Rightarrow> e2ap_handle_subscription_delete_response_ric sys new_fd m
   | RIC_INDICATION m \<Rightarrow> e2ap_handle_indication_ric sys new_fd m
   | RIC_CONTROL_ACKNOWLEDGE m \<Rightarrow> e2ap_handle_control_ack_ric sys new_fd m
   | E2_SETUP_REQUEST m \<Rightarrow> e2ap_handle_setup_request_ric sys new_fd m
   | E2_NODE_CONFIGURATION_UPDATE m \<Rightarrow> Inr (NONE_E2_MSG_TYPE, sys)
   | _ \<Rightarrow> Inl AssertFailed)"

section \<open>The end of a connection\<close>

definition eq_global_e2_node_id_e2_node :: "global_e2_node_id \<Rightarrow> e2_node \<Rightarrow> bool res" where
  "eq_global_e2_node_id_e2_node val it = eq_global_e2_node_id (n2_id it) val"

definition notification_handle_ric :: "('c, 'i) ric_system \<Rightarrow> os_fd \<Rightarrow> sctp_info \<Rightarrow> ('c, 'i) ric_system res" where
  "notification_handle_ric sys new_fd info =
     bind_res (e2ap_rm_sock_addr_ric (sy_ric sys) info) (\<lambda>(i, ric).
      let arr = nr_conn_e2_nodes ric in
      bind_res (find_if_arr arr (seq_arr_front arr) (seq_arr_end arr) i eq_global_e2_node_id_e2_node) (\<lambda>it.
      c_assert (it \<noteq> seq_arr_end arr)
       (bind_res (arr_deref arr it) (\<lambda>n.
        bind_res (seq_arr_erase arr it (seq_arr_next arr it)) (\<lambda>arr.
          rm_e2_node_iapp (sys\<lparr>sy_ric := ric\<lparr>nr_conn_e2_nodes := arr\<rparr>\<rparr>) new_fd i)))))"

section \<open>Tasks and events\<close>

definition sctp_msg_arrived_event ::
  "('c, 'i) ric_system \<Rightarrow> os_fd \<Rightarrow> sctp_info \<Rightarrow> byte_array \<Rightarrow> ('c, 'i) ric_system res" where
  "sctp_msg_arrived_event sys new_fd info ba =
     (let msg = ap_dec (nr_ap (sy_ric sys)) ba in
      bind_res (case msg of
          E2_SETUP_REQUEST req \<Rightarrow> e2ap_reg_sock_addr_ric (sy_ric sys) (es_id req) info
        | _ \<Rightarrow> Inr (sy_ric sys)) (\<lambda>ric.
      bind_res (e2ap_msg_handle_ric (sys\<lparr>sy_ric := ric\<rparr>) new_fd msg) (\<lambda>(ans, sys).
      bind_res (if ans \<noteq> NONE_E2_MSG_TYPE
        then e2ap_send_sctp_msg_ric (sy_ric sys) info (ap_enc (nr_ap (sy_ric sys)) ans)
        else Inr (sy_ric sys)) (\<lambda>ric.
      bind_res (e2ap_msg_free ans) (\<lambda>_.
      bind_res (e2ap_msg_free msg) (\<lambda>_. Inr (sys\<lparr>sy_ric := ric\<rparr>)))))))"

text \<open>What a descriptor that becomes readable stands for.\<close>

datatype ric_event =
    RIC_SCTP_MSG_ARRIVED sctp_info byte_array
  | RIC_SCTP_CONNECTION_SHUTDOWN sctp_info
  | RIC_SCTP_OTHER_NOTIFICATION
  | RIC_TIMER int
  | RIC_CHECK_STOP_TOKEN

record ('c, 'i) ric_server =
  sv_sys :: "('c, 'i) ric_system"
  sv_tasks :: "(sctp_info \<times> byte_array) list"

definition consume_fd :: "int \<Rightarrow> unit res" where
  "consume_fd fd = c_assert (fd > 0) (Inr ())"

text \<open>
  \<open>next_asio_event_ric\<close> fills in the event but not its descriptor: \<open>e.fd\<close> is 0, as the array was
  initialised.
\<close>

definition EVENT_FD :: int where
  "EVENT_FD = 0"

definition e2_event_loop_ric :: "('c, 'i) ric_server \<Rightarrow> os_fd \<Rightarrow> ric_event \<Rightarrow> ('c, 'i) ric_server res" where
  "e2_event_loop_ric sv new_fd e = (case e of
     RIC_SCTP_MSG_ARRIVED info ba \<Rightarrow> Inr (sv\<lparr>sv_tasks := sv_tasks sv @ [(info, ba)]\<rparr>)
   | RIC_TIMER fd \<Rightarrow>
       bind_res (pend_event (sy_ric (sv_sys sv)) fd) (\<lambda>_. bind_res (consume_fd EVENT_FD) (\<lambda>_. Inr sv))
   | RIC_SCTP_CONNECTION_SHUTDOWN info \<Rightarrow>
       map_res (\<lambda>sys. sv\<lparr>sv_sys := sys\<rparr>) (notification_handle_ric (sv_sys sv) new_fd info)
   | RIC_SCTP_OTHER_NOTIFICATION \<Rightarrow> Inl AssertFailed
   | RIC_CHECK_STOP_TOKEN \<Rightarrow> Inr sv)"

text \<open>A thread of the task manager takes the task at position \<open>i\<close>.\<close>

definition run_task :: "('c, 'i) ric_server \<Rightarrow> os_fd \<Rightarrow> nat \<Rightarrow> ('c, 'i) ric_server res" where
  "run_task sv new_fd i =
     (let (info, ba) = sv_tasks sv ! i in
      map_res (\<lambda>sys. sv\<lparr>sv_sys := sys, sv_tasks := take i (sv_tasks sv) @ drop (Suc i) (sv_tasks sv)\<rparr>)
        (sctp_msg_arrived_event (sv_sys sv) new_fd info ba))"

end
