(* ===== verification/Subscription_Flow.thy ===== *)
theory Subscription_Flow
  imports Ric_Handlers
begin

text \<open>
  What the requests of the xApps lead to, across the iApp and the RIC: a subscription goes out to the
  E2 node under a number of the RIC, the answer and every indication come back to the xApp under its
  own number, and a delete request ends it.
\<close>

declare bind_res_eq_Inr [simp del]

section \<open>The nodes as the iApp lists them\<close>

definition reg_small :: "reg_e2_nodes \<Rightarrow> bool" where
  "reg_small n \<longleftrightarrow> sz_reg_e2_node n < 256 \<and> (\<forall>(k, rfs, ccas) \<in> set (entries n). length ccas < 256)"

lemma entries_ok:
  assumes "reg_inv n" "(k, rfs, ccas) \<in> set (entries n)"
  shows "valid_node_id k" "ccas \<noteq> []" "\<forall>c \<in> set ccas. comp_id_ok (ca_id c)"
  using assms by (auto simp: reg_inv_def rb_inv_def entries_def pair_ok_def pair_lists_def)

lemma those_map_Some: "those (map (\<lambda>x. Some (f x)) xs) = Some (map f xs)"
  by (induction xs) auto

lemma for_unit_ok: "(\<And>j. j < k \<Longrightarrow> f j () = Inr ()) \<Longrightarrow> for_res k f () = Inr ()"
  by (induction k) simp_all

lemma free_connected_node:
  assumes c: "snd (snd e) \<noteq> []" "\<forall>c \<in> set (snd (snd e)). comp_id_ok (ca_id c)" "length (snd (snd e)) < 256"
  shows "free_e2_node_connected (connected_node e) = Inr ()"
proof -
  obtain k rfs ccas where e: "e = (k, rfs, ccas)" by (cases e)
  have c: "ccas \<noteq> []" "\<forall>c \<in> set ccas. comp_id_ok (ca_id c)" "length ccas < 256" using c by (simp_all add: e)
  have len: "unat (word_of_nat (length ccas) :: u8) = length ccas"
    using c(3) by (simp add: e unat_of_nat take_bit_eq_mod)
  have "(word_of_nat (length ccas) :: u8) \<noteq> 0" using c(1) len by (metis length_0_conv unat_0)
  moreover have "bind_res (cca_at (map Some ccas) j) free_e2ap_node_component_config_add = Inr ()"
    if "j < length ccas" for j
    using that c(2) by (auto simp: cca_at_def free_e2ap_node_component_config_add_def free_comp_ok)
  ultimately show ?thesis
    by (simp add: e free_e2_node_connected_def connected_node_def len word_gt_0 for_unit_ok)
qed

lemma free_connected_ok:
  assumes n: "reg_inv n" "e \<in> set (entries n)" "length (snd (snd e)) < 256"
  shows "free_e2_node_connected (connected_node e) = Inr ()"
  using free_connected_node [of e] entries_ok [OF n(1), of "fst e" "fst (snd e)" "snd (snd e)"] n(2,3) by simp

lemma node_arr_ok:
  assumes n: "reg_inv n" "reg_small n"
  shows "\<exists>arr. generate_e2_node_arr n = Inr arr \<and> read_nodes arr = Inr (map connected_node (entries n)) \<and>
    free_e2_node_arr arr = Inr ()"
proof -
  have s: "sz_reg_e2_node n < 256" "\<forall>(k, rfs, ccas) \<in> set (entries n). length ccas < 256"
    using n(2) by (simp_all add: reg_small_def)
  define arr where "arr = \<lparr>ea_len = word_of_nat (sz_reg_e2_node n) :: u8, ea_n = map (\<lambda>e. Some (connected_node e)) (entries n)\<rparr>"
  have r: "read_nodes arr = Inr (map connected_node (entries n))"
    by (simp add: read_nodes_def arr_def those_map_Some)
  have "fold_res (\<lambda>n _. free_e2_node_connected n) (map connected_node (entries n)) () = Inr ()"
    using s(2) free_connected_ok [OF n(1)] by (intro fold_unit_ok) fastforce
  with generate_ok [OF n(1) s(2)] s(1) r show ?thesis
    by (intro exI [of _ arr]) (simp add: arr_def [symmetric] free_e2_node_arr_def)
qed

lemma any_node_ok:
  assumes "valid_node_id i" "\<forall>e \<in> set es. valid_node_id (fst e)"
  shows "any_node (map connected_node es) i = Inr (\<exists>e \<in> set es. same_node (fst e) i)"
  using assms(2)
proof (induction es)
  case (Cons e es)
  have "ec_id (connected_node e) = fst e" by (simp add: connected_node_def split_def)
  with Cons node_id.eq_law [of "fst e" i] assms(1) show ?case by auto
qed simp

lemma registered_iff: "reg_map n (node_id_rank i) \<noteq> None \<longleftrightarrow> (\<exists>e \<in> set (entries n). same_node (fst e) i)"
  unfolding reg_map_None ranks_entries by (auto simp: image_iff eq_commute)

lemma valid_global_e2_node_ok:
  assumes n: "reg_inv (ia_e2_nodes iapp)" "reg_small (ia_e2_nodes iapp)" and i: "valid_node_id i"
  shows "valid_global_e2_node iapp i = Inr (reg_map (ia_e2_nodes iapp) (node_id_rank i) \<noteq> None)"
proof -
  obtain arr where arr: "generate_e2_node_arr (ia_e2_nodes iapp) = Inr arr"
    "read_nodes arr = Inr (map connected_node (entries (ia_e2_nodes iapp)))" "free_e2_node_arr arr = Inr ()"
    using node_arr_ok [OF n] by blast
  have "\<forall>e \<in> set (entries (ia_e2_nodes iapp)). valid_node_id (fst e)" using entries_ok [OF n(1)] by fastforce
  from any_node_ok [OF i this] arr show ?thesis
    unfolding registered_iff by (simp add: valid_global_e2_node_def)
qed

section \<open>Messages to an xApp\<close>

lemma find_req:
  assumes "reqs_inv m" "(n, x) \<in> pairs_of m" "req_no n = ucast rq" "0 < rq"
  shows "find_xapp_map_ric_id m rq = Inr (Some x)"
proof -
  obtain n' x' where "(n', x') \<in> pairs_of m" "req_no n' = ucast rq" "find_xapp_map_ric_id m rq = Inr (Some x')"
    using find_xapp_map_ric_id_ok [OF assms(1,4)] assms(2,3) by (auto split: if_splits)
  with req_unique(1) [OF assms(1,2), of n' x'] assms(3) show ?thesis by simp
qed

lemma find_req_none:
  assumes "reqs_inv m" "\<forall>(n, x) \<in> pairs_of m. req_no n \<noteq> ucast rq" "0 < rq"
  shows "find_xapp_map_ric_id m rq = Inr None"
  using find_xapp_map_ric_id_ok [OF assms(1,3)] assms(2) by (auto split: if_splits)

lemma send_to_xapp_ok:
  assumes "xapps_inv (ia_xapps iapp)" "(xid, s) \<in> pairs_of (ia_xapps iapp)" "msg \<noteq> NONE_E2_MSG_TYPE"
    "ap_enc (ia_ap iapp) msg \<noteq> []" "e2ap_msg_free msg = Inr ()"
  shows "send_to_xapp iapp xid msg = Inr (iapp\<lparr>ia_sent := ia_sent iapp @ [(s, ap_enc (ia_ap iapp) msg)]\<rparr>)"
  using assms find_map_xapps_sad_ok(1) [OF assms(1,2)]
  by (simp add: send_to_xapp_def e2ap_msg_enc_iapp_def e2ap_send_sctp_msg_iapp_def)

lemma send_to_xapp_unknown:
  assumes "xapps_inv (ia_xapps iapp)" "xid \<notin> fst ` pairs_of (ia_xapps iapp)"
  shows "send_to_xapp iapp xid msg = Inl AssertFailed"
  using find_map_xapps_sad_ok(2) [OF assms] by (simp add: send_to_xapp_def)


section \<open>The state of the whole\<close>

definition sys_inv :: "('c, 'i) ric_system \<Rightarrow> bool" where
  "sys_inv sys \<longleftrightarrow> near_ric_inv (sy_ric sys) \<and> xapps_inv (ia_xapps (sy_iapp sys)) \<and>
     reqs_inv (ia_map_ric_id (sy_iapp sys)) \<and> reg_inv (ia_e2_nodes (sy_iapp sys)) \<and> reg_small (ia_e2_nodes (sy_iapp sys))"

text \<open>The requests of the xApps that the iApp knows, with the number the RIC gave them.\<close>

abbreviation requests :: "('c, 'i) ric_system \<Rightarrow> (e2_node_ric_id \<times> xapp_ric_id) set" where
  "requests sys \<equiv> pairs_of (ia_map_ric_id (sy_iapp sys))"

abbreviation xapp_at :: "('c, 'i) ric_system \<Rightarrow> u16 \<Rightarrow> sctp_info \<Rightarrow> bool" where
  "xapp_at sys xid s \<equiv> (xid, s) \<in> pairs_of (ia_xapps (sy_iapp sys))"

abbreviation fresh :: "('c, 'i) ric_system \<Rightarrow> os_fd \<Rightarrow> bool" where
  "fresh sys new_fd \<equiv> fresh_fd (sy_ric sys) (new_fd (nr_io (sy_ric sys)))"

text \<open>The number the next request gets.\<close>

abbreviation next_no :: "('c, 'i) ric_system \<Rightarrow> u16" where
  "next_no sys \<equiv> ucast (nr_req_id (sy_ric sys))"

definition numbered :: "u16 \<Rightarrow> ric_gen_id \<Rightarrow> ric_gen_id" where
  "numbered n i = i\<lparr>ric_req_id := ucast n\<rparr>"

lemma numbered_simps [simp]:
  "ric_req_id (numbered n i) = ucast n" "ran_func_id (numbered n i) = ran_func_id i"
  "ric_inst_id (numbered n i) = ric_inst_id i"
  by (simp_all add: numbered_def)

lemma set_req_id_numbered: "ric_req_id i < 65536 \<Longrightarrow> set_req_id n i = numbered n i"
  by (simp add: set_req_id_def numbered_def set_low16_small)

definition no_use :: "('c, 'i) ric_system \<Rightarrow> u16 \<Rightarrow> xapp_ric_id \<Rightarrow> bool" where
  "no_use sys n x \<longleftrightarrow> (\<forall>(a, b) \<in> requests sys. req_no a \<noteq> ucast n \<and> b \<noteq> x) \<and>
     (\<forall>e \<in> snd ` pend (sy_ric sys). ric_req_id (pe_id e) \<noteq> ucast n)"

section \<open>Each handler\<close>

definition sub_key :: "e42_ric_subscription_request \<Rightarrow> xapp_ric_id" where
  "sub_key req = \<lparr>xr_ric_id = sr_ric_id (xs_sr req), xr_xapp_id = xs_xapp_id req\<rparr>"

definition sub_node :: "u16 \<Rightarrow> e42_ric_subscription_request \<Rightarrow> e2_node_ric_id" where
  "sub_node n req = \<lparr>en_e2_node_id = xs_id req, en_ric_id = numbered n (sr_ric_id (xs_sr req)),
     en_ric_req_type = SUBSCRIPTION_RIC_REQUEST_TYPE\<rparr>"

lemma ucast_down_up_16: "(ucast (ucast (n :: u16) :: u32) :: u16) = n"
  by (rule bit_word_eqI) (simp add: bit_simps)

lemma e42_subscription_ok:
  fixes sys :: "('c, 'i) ric_system"
  assumes inv: "sys_inv sys" and fd: "fresh sys new_fd" and s: "node_at (sy_ric sys) (xs_id req) s"
    and node: "reg_map (ia_e2_nodes (sy_iapp sys)) (node_id_rank (xs_id req)) \<noteq> None"
    and xid: "ucast (xs_xapp_id req) \<le> ia_xapp_id (sy_iapp sys)"
    and q: "ric_req_id (sr_ric_id (xs_sr req)) < 65536" and no: "no_use sys (next_no sys) (sub_key req)"
    and enc: "\<forall>m. ap_enc (nr_ap (sy_ric sys)) m \<noteq> []"
  defines "rid \<equiv> numbered (next_no sys) (sr_ric_id (xs_sr req))"
  shows "\<exists>ric' m'. e2ap_handle_e42_ric_subscription_request_iapp sys new_fd req =
      Inr (NONE_E2_MSG_TYPE, sys\<lparr>sy_ric := ric', sy_iapp := (sy_iapp sys)\<lparr>ia_map_ric_id := m'\<rparr>\<rparr>) \<and>
    requested (count_up (sy_ric sys)) (new_fd (nr_io (sy_ric sys))) 3000 (sub_event rid) s
      (ap_enc (nr_ap (sy_ric sys)) (RIC_SUBSCRIPTION_REQUEST ((xs_sr req)\<lparr>sr_ric_id := rid\<rparr>))) ric' \<and>
    reqs_inv m' \<and> pairs_of m' = insert (sub_node (next_no sys) req, sub_key req) (requests sys)"
proof -
  have i: "near_ric_inv (sy_ric sys)" "reqs_inv (ia_map_ric_id (sy_iapp sys))" "reg_inv (ia_e2_nodes (sy_iapp sys))"
    "reg_small (ia_e2_nodes (sy_iapp sys))" using inv by (simp_all add: sys_inv_def)
  have m: "fwd_sub_msg (sy_ric sys) (xs_sr req) = (xs_sr req)\<lparr>sr_ric_id := rid\<rparr>"
    using q by (simp add: fwd_sub_msg_def rid_def set_req_id_numbered)
  have ev: "sub_event rid \<notin> snd ` pend (sy_ric sys)"
  proof
    assume "sub_event rid \<in> snd ` pend (sy_ric sys)"
    with no have "ric_req_id (pe_id (sub_event rid)) \<noteq> ucast (next_no sys)" unfolding no_use_def by blast
    then show False by (simp add: sub_event_def rid_def)
  qed
  obtain ric' where f: "fwd_ric_subscription_request (sy_ric sys) (new_fd (nr_io (sy_ric sys))) (xs_id req) (xs_sr req) =
      Inr (next_no sys, (xs_sr req)\<lparr>sr_ric_id := rid\<rparr>, ric')"
    "requested (count_up (sy_ric sys)) (new_fd (nr_io (sy_ric sys))) 3000 (sub_event rid) s
      (ap_enc (nr_ap (sy_ric sys)) (RIC_SUBSCRIPTION_REQUEST ((xs_sr req)\<lparr>sr_ric_id := rid\<rparr>))) ric'"
    using fwd_subscription_ok [OF i(1) fd s, of "xs_sr req"] ev enc unfolding m by auto
  have "\<forall>(a, b) \<in> requests sys. req_no a \<noteq> req_no (sub_node (next_no sys) req) \<and> b \<noteq> sub_key req"
    using no by (auto simp: no_use_def sub_node_def)
  from add_map_ric_id_ok [OF i(2) this] obtain m' where
    m': "add_map_ric_id (ia_map_ric_id (sy_iapp sys)) (sub_node (next_no sys) req) (sub_key req) = Inr m'"
    "reqs_inv m'" "pairs_of m' = insert (sub_node (next_no sys) req, sub_key req) (requests sys)" by blast
  have v: "valid_xapp_id (sy_iapp sys) (ucast (xs_xapp_id req)) = Inr True"
    using xid unat_small [of "xs_xapp_id req"] by (simp add: valid_xapp_id_def word_less_nat_alt ucast_16_32)
  have "valid_node_id (xs_id req)" using s by (simp add: node_at_def)
  with valid_global_e2_node_ok [OF i(3,4)] node have "valid_global_e2_node (sy_iapp sys) (xs_id req) = Inr True" by simp
  with v f(1) m'(1) have "e2ap_handle_e42_ric_subscription_request_iapp sys new_fd req =
      Inr (NONE_E2_MSG_TYPE, sys\<lparr>sy_ric := ric', sy_iapp := (sy_iapp sys)\<lparr>ia_map_ric_id := m'\<rparr>\<rparr>)"
    by (simp add: e2ap_handle_e42_ric_subscription_request_iapp_def Let_def sub_node_def sub_key_def rid_def numbered_def)
  with f(2) m'(2,3) show ?thesis by blast
qed


text \<open>
  \<open>answers sys i a x s\<close>: a message with the identifier \<open>i\<close> belongs to the request \<open>x\<close> of the xApp at
  \<open>s\<close>, which the RIC knows as \<open>a\<close>.
\<close>

definition answers ::
  "('c, 'i) ric_system \<Rightarrow> ric_gen_id \<Rightarrow> e2_node_ric_id \<Rightarrow> xapp_ric_id \<Rightarrow> sctp_info \<Rightarrow> bool" where
  "answers sys i a x s \<longleftrightarrow> (a, x) \<in> requests sys \<and> req_no a = ric_req_id i \<and> 0 < ric_req_id i \<and>
     ric_req_id i < 65536 \<and> same_procedure i x \<and> xapp_at sys (xr_xapp_id x) s"

lemma ucast_low: "(w :: u32) < 65536 \<Longrightarrow> ucast (ucast w :: u16) = w"
proof -
  assume "w < 65536"
  then have w: "take_bit 16 (uint w) = uint w" by (simp add: take_bit_int_eq_self_iff word_less_def)
  have "uint (take_bit 16 w) = uint w" by (simp only: unsigned_take_bit_eq w)
  moreover have "ucast (ucast w :: u16) = take_bit 16 w" by (rule bit_word_eqI) (auto simp: bit_simps)
  ultimately show ?thesis by (simp only: uint_eq_iff)
qed

lemma answers_find:
  assumes inv: "sys_inv sys" and a: "answers sys i a x s"
  shows "find_xapp_map_ric_id (ia_map_ric_id (sy_iapp sys)) (ucast (ric_req_id i)) = Inr (Some x)"
proof (rule find_req)
  have w: "ucast (ucast (ric_req_id i) :: u16) = ric_req_id i" using a by (simp add: answers_def ucast_low)
  show "reqs_inv (ia_map_ric_id (sy_iapp sys))" "(a, x) \<in> requests sys" using inv a by (simp_all add: sys_inv_def answers_def)
  show "req_no a = ucast (ucast (ric_req_id i) :: u16)" using w a by (simp add: answers_def)
  have "(ucast (ric_req_id i) :: u16) \<noteq> 0"
  proof
    assume "(ucast (ric_req_id i) :: u16) = 0"
    with w have "ric_req_id i = 0" by (metis unsigned_0)
    with a show False by (simp add: answers_def)
  qed
  then show "0 < (ucast (ric_req_id i) :: u16)" by (simp add: word_gt_0)
qed

lemma same_procedure_id: "same_procedure i x \<Longrightarrow> i\<lparr>ric_req_id := ric_req_id (xr_ric_id x)\<rparr> = xr_ric_id x"
  by (simp add: same_procedure_def)

lemma answers_simps:
  assumes "answers sys i a x s"
  shows "same_procedure i x" "i\<lparr>ric_req_id := ric_req_id (xr_ric_id x)\<rparr> = xr_ric_id x" "xapp_at sys (xr_xapp_id x) s"
    "(a, x) \<in> requests sys"
  using assms by (simp_all add: answers_def same_procedure_id)

text \<open>What is passed on to the xApp.\<close>

abbreviation iapp_sends :: "('c, 'i) ric_system \<Rightarrow> sctp_info \<Rightarrow> e2ap_msg \<Rightarrow> e42_iapp" where
  "iapp_sends sys s msg \<equiv> (sy_iapp sys)\<lparr>ia_sent := ia_sent (sy_iapp sys) @ [(s, ap_enc (ia_ap (sy_iapp sys)) msg)]\<rparr>"

lemma mv_fst [simp]: "fst (mv_ric_subscription_respponse p) = p" "fst (mv_ric_indication i) = i"
  by (simp_all add: mv_ric_subscription_respponse_def mv_ric_indication_def)

lemma subscription_response_iapp_ok:
  assumes inv: "sys_inv sys" and a: "answers sys (sp_ric_id src) a x s" and enc: "\<forall>m. ap_enc (ia_ap (sy_iapp sys)) m \<noteq> []"
  shows "notify_msg_iapp sys new_fd (RIC_SUBSCRIPTION_RESPONSE src) =
    Inr (sys\<lparr>sy_iapp := iapp_sends sys s (RIC_SUBSCRIPTION_RESPONSE (src\<lparr>sp_ric_id := xr_ric_id x\<rparr>))\<rparr>)"
proof -
  have "e2ap_handle_subscription_response_iapp (sy_iapp sys) src =
      Inr (NONE_E2_MSG_TYPE, iapp_sends sys s (RIC_SUBSCRIPTION_RESPONSE (src\<lparr>sp_ric_id := xr_ric_id x\<rparr>)))"
    using answers_find [OF inv a] answers_simps [OF a] inv enc
    by (simp add: e2ap_handle_subscription_response_iapp_def send_to_xapp_ok sys_inv_def)
  then show ?thesis by (simp add: notify_msg_iapp_def notifies_def e2ap_msg_handle_iapp_def on_iapp_def)
qed

lemma indication_iapp_ok:
  assumes inv: "sys_inv sys" and a: "answers sys (in_ric_id src) a x s" and enc: "\<forall>m. ap_enc (ia_ap (sy_iapp sys)) m \<noteq> []"
  shows "notify_msg_iapp sys new_fd (RIC_INDICATION src) =
    Inr (sys\<lparr>sy_iapp := iapp_sends sys s (RIC_INDICATION (src\<lparr>in_ric_id := xr_ric_id x\<rparr>))\<rparr>)"
proof -
  have "e2ap_handle_ric_indication_iapp (sy_iapp sys) src =
      Inr (NONE_E2_MSG_TYPE, iapp_sends sys s (RIC_INDICATION (src\<lparr>in_ric_id := xr_ric_id x\<rparr>)))"
    using answers_find [OF inv a] answers_simps [OF a] inv enc
    by (simp add: e2ap_handle_ric_indication_iapp_def send_to_xapp_ok sys_inv_def)
  then show ?thesis by (simp add: notify_msg_iapp_def notifies_def e2ap_msg_handle_iapp_def on_iapp_def)
qed

lemma indication_iapp_unknown:
  assumes inv: "sys_inv sys" and pos: "(ucast (ric_req_id (in_ric_id src)) :: u16) \<noteq> 0"
    and none: "\<forall>(a, x) \<in> requests sys. req_no a \<noteq> ucast (ucast (ric_req_id (in_ric_id src)) :: u16)"
  shows "notify_msg_iapp sys new_fd (RIC_INDICATION src) = Inr sys"
  using find_req_none [OF _ none] pos inv
  by (simp add: notify_msg_iapp_def notifies_def e2ap_msg_handle_iapp_def on_iapp_def sys_inv_def word_gt_0
      e2ap_handle_ric_indication_iapp_def)

text \<open>The answers that end a request.\<close>

lemma ended_iapp_ok:
  assumes inv: "sys_inv sys" and a: "answers sys i a x s" and enc: "\<forall>m. ap_enc (ia_ap (sy_iapp sys)) m \<noteq> []"
  shows "\<exists>m'. reqs_inv m' \<and> pairs_of m' = requests sys - {(a, x)} \<and>
    (dp_ric_id d = i \<longrightarrow> notify_msg_iapp sys new_fd (RIC_SUBSCRIPTION_DELETE_RESPONSE d) =
      Inr (sys\<lparr>sy_iapp := (iapp_sends sys s (RIC_SUBSCRIPTION_DELETE_RESPONSE \<lparr>dp_ric_id = xr_ric_id x\<rparr>))\<lparr>ia_map_ric_id := m'\<rparr>\<rparr>)) \<and>
    (ck_ric_id c = i \<longrightarrow> notify_msg_iapp sys new_fd (RIC_CONTROL_ACKNOWLEDGE c) =
      Inr (sys\<lparr>sy_iapp := (iapp_sends sys s (RIC_CONTROL_ACKNOWLEDGE
        \<lparr>ck_ric_id = xr_ric_id x, ck_call_process_id = None, ck_outcome = None\<rparr>))\<lparr>ia_map_ric_id := m'\<rparr>\<rparr>))"
proof -
  obtain m' where m': "rm_map_ric_id (ia_map_ric_id (sy_iapp sys)) x = Inr m'" "reqs_inv m'"
    "pairs_of m' = requests sys - {(a, x)}"
    using rm_map_ric_id_ok [of "ia_map_ric_id (sy_iapp sys)" a x] inv a by (auto simp: sys_inv_def answers_def)
  have d: "e2ap_handle_subscription_delete_response_iapp (sy_iapp sys) d =
      Inr (NONE_E2_MSG_TYPE, (iapp_sends sys s (RIC_SUBSCRIPTION_DELETE_RESPONSE \<lparr>dp_ric_id = xr_ric_id x\<rparr>))\<lparr>ia_map_ric_id := m'\<rparr>)"
    if "dp_ric_id d = i"
    using answers_find [OF inv a] answers_simps [OF a] inv enc m'(1) that
    by (simp add: e2ap_handle_subscription_delete_response_iapp_def send_to_xapp_ok sys_inv_def)
  have c: "e2ap_handle_e42_ric_control_ack_iapp (sy_iapp sys) c =
      Inr (NONE_E2_MSG_TYPE, (iapp_sends sys s (RIC_CONTROL_ACKNOWLEDGE
        \<lparr>ck_ric_id = xr_ric_id x, ck_call_process_id = None, ck_outcome = None\<rparr>))\<lparr>ia_map_ric_id := m'\<rparr>)"
    if "ck_ric_id c = i"
    using answers_find [OF inv a] answers_simps [OF a] inv enc m'(1) that
    by (simp add: e2ap_handle_e42_ric_control_ack_iapp_def send_to_xapp_ok sys_inv_def)
  show ?thesis
    by (rule exI [of _ m'])
      (use m' c d in \<open>simp add: notify_msg_iapp_def notifies_def e2ap_msg_handle_iapp_def on_iapp_def\<close>)
qed


lemma sys_inv_simps [simp]:
  "sys_inv (sys\<lparr>sy_ric := ric\<rparr>) \<longleftrightarrow> near_ric_inv ric \<and> xapps_inv (ia_xapps (sy_iapp sys)) \<and>
     reqs_inv (ia_map_ric_id (sy_iapp sys)) \<and> reg_inv (ia_e2_nodes (sy_iapp sys)) \<and> reg_small (ia_e2_nodes (sy_iapp sys))"
  "sys_inv (sys\<lparr>sy_ric := ric, sy_iapp := iapp\<rparr>) \<longleftrightarrow> near_ric_inv ric \<and> xapps_inv (ia_xapps iapp) \<and>
     reqs_inv (ia_map_ric_id iapp) \<and> reg_inv (ia_e2_nodes iapp) \<and> reg_small (ia_e2_nodes iapp)"
  "sys_inv (sys\<lparr>sy_iapp := iapp\<rparr>) \<longleftrightarrow> near_ric_inv (sy_ric sys) \<and> xapps_inv (ia_xapps iapp) \<and>
     reqs_inv (ia_map_ric_id iapp) \<and> reg_inv (ia_e2_nodes iapp) \<and> reg_small (ia_e2_nodes iapp)"
  by (simp_all add: sys_inv_def)

lemma answers_ric [simp]: "answers (sys\<lparr>sy_ric := ric\<rparr>) = answers sys"
  by (simp add: answers_def fun_eq_iff)

text \<open>The wait for the answer ends.\<close>

definition answered :: "('c, 'i) near_ric \<Rightarrow> int \<Rightarrow> pending_event_ric \<Rightarrow> ('c, 'i) near_ric \<Rightarrow> bool" where
  "answered ric fd ev ric' \<longleftrightarrow> near_ric_inv ric' \<and> pend ric' = pend ric - {(fd, ev)} \<and>
     ric' = ric\<lparr>nr_io := nr_io ric', nr_pending := nr_pending ric'\<rparr>"

lemma stop_answered:
  assumes "near_ric_inv ric" "(fd, ev) \<in> pend ric"
  shows "\<exists>ric'. stop_pending_event ric ev = Inr ric' \<and> answered ric fd ev ric'"
proof -
  obtain io p where "stop_pending_event ric ev = Inr (ric\<lparr>nr_io := io, nr_pending := p\<rparr>)"
    "near_ric_inv (ric\<lparr>nr_io := io, nr_pending := p\<rparr>)" "pairs_of p = pend ric - {(fd, ev)}"
    using stop_pending_event_ok [OF assms] by blast
  then show ?thesis by (intro exI [of _ "ric\<lparr>nr_io := io, nr_pending := p\<rparr>"]) (simp add: answered_def)
qed

lemma answered_fields:
  assumes "answered ric fd ev ric'"
  shows "near_ric_inv ric'" "pend ric' = pend ric - {(fd, ev)}" "nr_sent ric' = nr_sent ric" "nr_req_id ric' = nr_req_id ric"
    "nr_ap ric' = nr_ap ric" "node_at ric' = node_at ric"
proof -
  have e: "ric' = ric\<lparr>nr_io := nr_io ric', nr_pending := nr_pending ric'\<rparr>"
    and p: "near_ric_inv ric'" "pend ric' = pend ric - {(fd, ev)}"
    using assms unfolding answered_def by blast+
  from arg_cong [OF e, of nr_sent] arg_cong [OF e, of nr_req_id] arg_cong [OF e, of nr_ap]
    arg_cong [OF e, of nr_e2_nodes] p
  show "near_ric_inv ric'" "pend ric' = pend ric - {(fd, ev)}" "nr_sent ric' = nr_sent ric" "nr_req_id ric' = nr_req_id ric"
    "nr_ap ric' = nr_ap ric" "node_at ric' = node_at ric"
    by (simp_all add: node_at_def fun_eq_iff)
qed

lemma subscription_response_ric_ok:
  assumes inv: "sys_inv sys" and p: "(fd, sub_event (sp_ric_id resp)) \<in> pend (sy_ric sys)"
    and a: "answers sys (sp_ric_id resp) a x s" and enc: "\<forall>m. ap_enc (ia_ap (sy_iapp sys)) m \<noteq> []"
    and ok: "sp_not_admitted resp = []" "sp_admitted resp = [\<lparr>aa_id = 0\<rparr>]"
  shows "\<exists>ric'. e2ap_handle_subscription_response_ric sys new_fd resp =
      Inr (NONE_E2_MSG_TYPE, sys\<lparr>sy_ric := ric',
        sy_iapp := iapp_sends sys s (RIC_SUBSCRIPTION_RESPONSE (resp\<lparr>sp_ric_id := xr_ric_id x\<rparr>))\<rparr>) \<and>
    answered (sy_ric sys) fd (sub_event (sp_ric_id resp)) ric'"
proof -
  obtain ric' where r: "stop_pending_event (sy_ric sys) (sub_event (sp_ric_id resp)) = Inr ric'"
    "answered (sy_ric sys) fd (sub_event (sp_ric_id resp)) ric'"
    using stop_answered [OF _ p] inv by (auto simp: sys_inv_def)
  have i: "sys_inv (sys\<lparr>sy_ric := ric'\<rparr>)" using inv answered_fields(1) [OF r(2)] by (simp add: sys_inv_def)
  have a': "answers (sys\<lparr>sy_ric := ric'\<rparr>) (sp_ric_id resp) a x s" using a by simp
  have enc': "\<forall>m. ap_enc (ia_ap (sy_iapp (sys\<lparr>sy_ric := ric'\<rparr>))) m \<noteq> []" using enc by simp
  from subscription_response_iapp_ok [OF i a' enc'] r ok show ?thesis
    by (intro exI [of _ ric']) (simp add: e2ap_handle_subscription_response_ric_def Let_def sub_event_def)
qed

lemma delete_response_ric_ok:
  assumes inv: "sys_inv sys" and p: "(fd, del_event (dp_ric_id resp)) \<in> pend (sy_ric sys)"
    and a: "answers sys (dp_ric_id resp) a x s" and enc: "\<forall>m. ap_enc (ia_ap (sy_iapp sys)) m \<noteq> []"
  shows "\<exists>ric' m'. e2ap_handle_subscription_delete_response_ric sys new_fd resp =
      Inr (NONE_E2_MSG_TYPE, sys\<lparr>sy_ric := ric', sy_iapp := (iapp_sends sys s (RIC_SUBSCRIPTION_DELETE_RESPONSE
        \<lparr>dp_ric_id = xr_ric_id x\<rparr>))\<lparr>ia_map_ric_id := m'\<rparr>\<rparr>) \<and>
    answered (sy_ric sys) fd (del_event (dp_ric_id resp)) ric' \<and> reqs_inv m' \<and> pairs_of m' = requests sys - {(a, x)}"
proof -
  obtain ric' where r: "stop_pending_event (sy_ric sys) (del_event (dp_ric_id resp)) = Inr ric'"
    "answered (sy_ric sys) fd (del_event (dp_ric_id resp)) ric'"
    using stop_answered [OF _ p] inv by (auto simp: sys_inv_def)
  have i: "sys_inv (sys\<lparr>sy_ric := ric'\<rparr>)" using inv answered_fields(1) [OF r(2)] by (simp add: sys_inv_def)
  have a': "answers (sys\<lparr>sy_ric := ric'\<rparr>) (dp_ric_id resp) a x s" using a by simp
  have enc': "\<forall>m. ap_enc (ia_ap (sy_iapp (sys\<lparr>sy_ric := ric'\<rparr>))) m \<noteq> []" using enc by simp
  from ended_iapp_ok [OF i a' enc', of resp new_fd] r show ?thesis
    by (fastforce simp: e2ap_handle_subscription_delete_response_ric_def Let_def del_event_def)
qed

lemma unsolicited_answer:
  assumes "sys_inv sys"
  shows "sub_event (sp_ric_id p) \<notin> snd ` pend (sy_ric sys) \<Longrightarrow>
      e2ap_handle_subscription_response_ric sys new_fd p = Inl AssertFailed"
    "del_event (dp_ric_id d) \<notin> snd ` pend (sy_ric sys) \<Longrightarrow>
      e2ap_handle_subscription_delete_response_ric sys new_fd d = Inl AssertFailed"
    "ctrl_event (ck_ric_id c) \<notin> snd ` pend (sy_ric sys) \<Longrightarrow>
      e2ap_handle_control_ack_ric sys new_fd c = Inl AssertFailed"
  using assms stop_pending_event_missing [of "sy_ric sys"]
  by (simp_all add: sys_inv_def e2ap_handle_subscription_response_ric_def Let_def sub_event_def del_event_def
      e2ap_handle_subscription_delete_response_ric_def e2ap_handle_control_ack_ric_def ctrl_event_def)


text \<open>A request that was just entered is answered to its xApp.\<close>

lemma answers_new:
  assumes m: "requests sys = insert (sub_node n req, sub_key req) R" and n: "n \<noteq> 0"
    and x: "xapp_at sys (xs_xapp_id req) s"
  shows "answers sys (numbered n (sr_ric_id (xs_sr req))) (sub_node n req) (sub_key req) s"
proof -
  have "uint n < 65536" using uint_bounded [of n] by simp
  moreover have "0 < uint n" using n by (metis uint_0_iff uint_nonnegative less_le)
  ultimately show ?thesis
    using m x by (simp add: answers_def sub_node_def sub_key_def same_procedure_def word_less_def unsigned_ucast_eq
        take_bit_int_eq_self)
qed

section \<open>Properties\<close>

definition accepted_response :: "ric_gen_id \<Rightarrow> ric_subscription_response" where
  "accepted_response i = \<lparr>sp_ric_id = i, sp_admitted = [\<lparr>aa_id = 0\<rparr>], sp_not_admitted = []\<rparr>"

lemma accepted_response_simps [simp]:
  "sp_ric_id (accepted_response i) = i" "sp_not_admitted (accepted_response i) = []"
  "sp_admitted (accepted_response i) = [\<lparr>aa_id = 0\<rparr>]"
  "(accepted_response i)\<lparr>sp_ric_id := j\<rparr> = accepted_response j"
  by (simp_all add: accepted_response_def)

text \<open>C2: a subscription of a registered xApp goes out to the E2 node with the RIC's next number in
  place of the xApp's, and when the node accepts it under this number, the acceptance is delivered to
  the xApp under the number that the xApp chose. The RIC waits for the answer in between and for
  nothing more afterwards, and it remembers whose request it is.\<close>

theorem subscription_round_trip:
  fixes sys :: "('c, 'i) ric_system"
  assumes inv: "sys_inv sys" and fd: "fresh sys new_fd"
    and node: "node_at (sy_ric sys) (xs_id req) s" "reg_map (ia_e2_nodes (sy_iapp sys)) (node_id_rank (xs_id req)) \<noteq> None"
    and xapp: "xapp_at sys (xs_xapp_id req) t" "ucast (xs_xapp_id req) \<le> ia_xapp_id (sy_iapp sys)"
    and q: "ric_req_id (sr_ric_id (xs_sr req)) < 65536" and no: "no_use sys (next_no sys) (sub_key req)" "next_no sys \<noteq> 0"
    and enc: "\<forall>m. ap_enc (nr_ap (sy_ric sys)) m \<noteq> []" "\<forall>m. ap_enc (ia_ap (sy_iapp sys)) m \<noteq> []"
  defines "rid \<equiv> numbered (next_no sys) (sr_ric_id (xs_sr req))"
  shows "\<exists>sys' sys''. e2ap_msg_handle_iapp sys new_fd (E42_RIC_SUBSCRIPTION_REQUEST req) = Inr (NONE_E2_MSG_TYPE, sys') \<and>
    nr_sent (sy_ric sys') = nr_sent (sy_ric sys) @
      [(s, ap_enc (nr_ap (sy_ric sys)) (RIC_SUBSCRIPTION_REQUEST ((xs_sr req)\<lparr>sr_ric_id := rid\<rparr>)))] \<and>
    sub_event rid \<in> snd ` pend (sy_ric sys') \<and>
    e2ap_msg_handle_ric sys' new_fd (RIC_SUBSCRIPTION_RESPONSE (accepted_response rid)) = Inr (NONE_E2_MSG_TYPE, sys'') \<and>
    ia_sent (sy_iapp sys'') = ia_sent (sy_iapp sys) @
      [(t, ap_enc (ia_ap (sy_iapp sys)) (RIC_SUBSCRIPTION_RESPONSE (accepted_response (sr_ric_id (xs_sr req)))))] \<and>
    pend (sy_ric sys'') = pend (sy_ric sys) \<and>
    requests sys'' = insert (sub_node (next_no sys) req, sub_key req) (requests sys) \<and> sys_inv sys' \<and> sys_inv sys''"
proof -
  let ?fd = "new_fd (nr_io (sy_ric sys))"
  obtain ric' m' where h: "e2ap_handle_e42_ric_subscription_request_iapp sys new_fd req =
      Inr (NONE_E2_MSG_TYPE, sys\<lparr>sy_ric := ric', sy_iapp := (sy_iapp sys)\<lparr>ia_map_ric_id := m'\<rparr>\<rparr>)"
    and r: "requested (count_up (sy_ric sys)) ?fd 3000 (sub_event rid) s
      (ap_enc (nr_ap (sy_ric sys)) (RIC_SUBSCRIPTION_REQUEST ((xs_sr req)\<lparr>sr_ric_id := rid\<rparr>))) ric'"
    and m': "reqs_inv m'" "pairs_of m' = insert (sub_node (next_no sys) req, sub_key req) (requests sys)"
    using e42_subscription_ok [where new_fd = new_fd, OF inv fd node xapp(2) q no(1) enc(1)] unfolding rid_def by blast
  define sys' where "sys' = sys\<lparr>sy_ric := ric', sy_iapp := (sy_iapp sys)\<lparr>ia_map_ric_id := m'\<rparr>\<rparr>"
  have inv': "sys_inv sys'" using inv m'(1) requested_inv [OF r] by (simp add: sys'_def sys_inv_def)
  have p: "pend ric' = insert (?fd, sub_event rid) (pend (sy_ric sys))" using requested_pend [OF r] by simp
  have fd': "?fd \<notin> fst ` pend (sy_ric sys)" using inv fd by (auto simp: sys_inv_def near_ric_inv_def fresh_fd_def)
  have ans: "answers sys' (sp_ric_id (accepted_response rid)) (sub_node (next_no sys) req) (sub_key req) t"
    using answers_new [of sys' "next_no sys" req] m'(2) no(2) xapp(1) by (simp add: sys'_def rid_def)
  obtain ric'' where a: "e2ap_handle_subscription_response_ric sys' new_fd (accepted_response rid) =
      Inr (NONE_E2_MSG_TYPE, sys'\<lparr>sy_ric := ric'', sy_iapp := iapp_sends sys' t
        (RIC_SUBSCRIPTION_RESPONSE (accepted_response (xr_ric_id (sub_key req))))\<rparr>)"
    and r'': "answered (sy_ric sys') ?fd (sub_event rid) ric''"
    using subscription_response_ric_ok [OF inv' _ ans, of ?fd new_fd] p enc(2) by (auto simp: sys'_def)
  have "pend ric'' = pend (sy_ric sys)"
    using answered_fields(2) [OF r''] p fd' by (auto simp: sys'_def image_iff)
  with h a inv' r m' p answered_fields(1) [OF r''] requested_fields(11) [OF r] inv show ?thesis
    by (intro exI [of _ sys'] exI [of _ "sys'\<lparr>sy_ric := ric'', sy_iapp := iapp_sends sys' t
        (RIC_SUBSCRIPTION_RESPONSE (accepted_response (xr_ric_id (sub_key req))))\<rparr>"])
      (simp add: e2ap_msg_handle_iapp_def e2ap_msg_handle_ric_def sys'_def [symmetric] sys_inv_def,
       simp add: sys'_def sub_key_def)
qed

text \<open>
  A RIC and its iApp with the DU 3 connected at port 36421 and the xApp 7 at port 50000; \<open>n\<close> is the
  number of the next request.
\<close>

lemma sample_sys:
  obtains sys :: "(string, string) ric_system" where "sys_inv sys" "requests sys = {}" "pend (sy_ric sys) = {}"
    "nr_req_id (sy_ric sys) = n" "nr_ap (sy_ric sys) = sample_ap" "ia_ap (sy_iapp sys) = sample_ap"
    "node_at (sy_ric sys) (sample_du 3) (sample_sctp 36421)" "io_fds (nr_io (sy_ric sys)) = [5]"
    "reg_map (ia_e2_nodes (sy_iapp sys)) (node_id_rank (sample_du 3)) \<noteq> None"
    "pairs_of (ia_xapps (sy_iapp sys)) = {(7, sample_sctp 50000)}" "ia_xapp_id (sy_iapp sys) = 8"
    "nr_sent (sy_ric sys) = []" "ia_sent (sy_iapp sys) = []" "rf_inv (nr_sm_ds (sy_ric sys))"
    "rf_map (nr_sm_ds (sy_ric sys)) 142 = Some (sample_sm 142)"
proof -
  obtain ric :: "(string, string) near_ric" where r: "near_ric_inv ric" "nr_ap ric = sample_ap" "pend ric = {}"
    "node_at ric (sample_du 3) (sample_sctp 36421)" "nr_req_id ric = n" "rf_inv (nr_sm_ds ric)"
    "rf_map (nr_sm_ds ric) 142 = Some (sample_sm 142)" "io_fds (nr_io ric) = [5]" "nr_sent ric = []"
    using sample_ric by metis
  obtain m0 where m0: "xapps_inv m0" "pairs_of m0 = {}" using init_map_xapps_sad_ok by blast
  then obtain m where m: "xapps_inv m" "pairs_of m = {(7, sample_sctp 50000)}"
    using add_map_xapps_sad_ok [of m0 7 "sample_sctp 50000"] by auto
  obtain q where q: "reqs_inv q" "pairs_of q = {}" using init_map_ric_id_ok by blast
  obtain n0 where n0: "reg_inv n0" "rb_items n0 = []" using init_reg_e2_node_ok by blast
  have e: "reg_map n0 r = None" for r by (simp add: reg_map_None n0(2) ranks_def)
  have c: "\<forall>c \<in> set [sample_cca]. comp_id_ok (ca_id c)" by (simp add: sample_cca_def)
  have z: "sz_reg_e2_node n0 = 0" using length_entries [OF n0(1)] by (simp add: entries_def n0(2))
  obtain n1 where n1: "reg_inv n1" "reg_map n1 = (reg_map n0)(node_id_rank (sample_du 3) \<mapsto> ([sample_rf], [sample_cca]))"
    "sz_reg_e2_node n1 = 1"
    using add_reg_e2_node_ok [OF n0(1) valid_sample(2) _ _ c, of "[sample_rf]" 3] e z by auto
  have "reg_small n1" using n1 entries_iff [OF n1(1)] by (force simp: reg_small_def e split: if_splits)
  then show ?thesis
    using r m q n1 by (intro that [of "\<lparr>sy_ric = ric, sy_iapp = \<lparr>ia_fd = 6, ia_xapps = m, ia_sent = [],
        ia_ap = sample_ap, ia_xapp_id = 8, ia_e2_nodes = n1, ia_map_ric_id = q\<rparr>\<rparr>"]) (simp_all add: sys_inv_def)
qed

text \<open>The subscription of the xApp 7 to the RAN function 142 of the DU 3, under its number 1.\<close>

definition sample_sub :: e42_ric_subscription_request where
  "sample_sub = \<lparr>xs_xapp_id = 7, xs_id = sample_du 3, xs_sr = \<lparr>sr_ric_id = \<lparr>ric_req_id = 1, ric_inst_id = 0,
     ran_func_id = 142\<rparr>, sr_event_trigger = [1], sr_action = []\<rparr>\<rparr>"

text \<open>The same, once the subscription was accepted.\<close>

lemma sample_sys_sub:
  obtains sys :: "(string, string) ric_system" where "sys_inv sys"
    "requests sys = {(sub_node 1021 sample_sub, sub_key sample_sub)}" "pend (sy_ric sys) = {}"
    "nr_req_id (sy_ric sys) = 1022" "nr_ap (sy_ric sys) = sample_ap" "ia_ap (sy_iapp sys) = sample_ap"
    "node_at (sy_ric sys) (sample_du 3) (sample_sctp 36421)" "io_fds (nr_io (sy_ric sys)) = [5]"
    "pairs_of (ia_xapps (sy_iapp sys)) = {(7, sample_sctp 50000)}" "nr_sent (sy_ric sys) = []" "ia_sent (sy_iapp sys) = []"
    "rf_inv (nr_sm_ds (sy_ric sys))" "rf_map (nr_sm_ds (sy_ric sys)) 142 = Some (sample_sm 142)"
proof -
  obtain sys :: "(string, string) ric_system" where s: "sys_inv sys" "requests sys = {}" "pend (sy_ric sys) = {}"
    "nr_req_id (sy_ric sys) = 1022" "nr_ap (sy_ric sys) = sample_ap" "ia_ap (sy_iapp sys) = sample_ap"
    "node_at (sy_ric sys) (sample_du 3) (sample_sctp 36421)" "io_fds (nr_io (sy_ric sys)) = [5]"
    "pairs_of (ia_xapps (sy_iapp sys)) = {(7, sample_sctp 50000)}" "nr_sent (sy_ric sys) = []" "ia_sent (sy_iapp sys) = []"
    "rf_inv (nr_sm_ds (sy_ric sys))" "rf_map (nr_sm_ds (sy_ric sys)) 142 = Some (sample_sm 142)"
    using sample_sys by metis
  obtain q where "reqs_inv q" "pairs_of q = {(sub_node 1021 sample_sub, sub_key sample_sub)}"
    using add_map_ric_id_ok [of "ia_map_ric_id (sy_iapp sys)" "sub_node 1021 sample_sub" "sub_key sample_sub"] s(1,2)
    by (auto simp: sys_inv_def)
  then show ?thesis
    using s by (intro that [of "sys\<lparr>sy_iapp := (sy_iapp sys)\<lparr>ia_map_ric_id := q\<rparr>\<rparr>"]) (simp_all add: sys_inv_def)
qed

definition sample_fd :: os_fd where
  "sample_fd io = Max (insert 0 (set (io_fds io))) + 1"

lemma sample_fd_fresh: "fresh_fd ric (sample_fd (nr_io ric))"
proof -
  have "x \<le> Max (insert 0 (set (io_fds (nr_io ric))))" if "x \<in> insert 0 (set (io_fds (nr_io ric)))" for x
    using that by (intro Max_ge) auto
  from this [of 0] this [of "sample_fd (nr_io ric)"] show ?thesis
    by (auto simp: fresh_fd_def sample_fd_def)
qed

theorem subscription_round_trip_witness:
  "\<exists>sys sys' sys'' :: (string, string) ric_system.
     e2ap_msg_handle_iapp sys sample_fd (E42_RIC_SUBSCRIPTION_REQUEST sample_sub) = Inr (NONE_E2_MSG_TYPE, sys') \<and>
     nr_sent (sy_ric sys') = [(sample_sctp 36421, [1, 253])] \<and>
     e2ap_msg_handle_ric sys' sample_fd (RIC_SUBSCRIPTION_RESPONSE (accepted_response
       \<lparr>ric_req_id = 1021, ric_inst_id = 0, ran_func_id = 142\<rparr>)) = Inr (NONE_E2_MSG_TYPE, sys'') \<and>
     ia_sent (sy_iapp sys'') = [(sample_sctp 50000, [3, 1])]"
proof -
  obtain sys :: "(string, string) ric_system" where s: "sys_inv sys" "requests sys = {}" "pend (sy_ric sys) = {}"
    "nr_req_id (sy_ric sys) = 1021" "nr_ap (sy_ric sys) = sample_ap" "ia_ap (sy_iapp sys) = sample_ap"
    "node_at (sy_ric sys) (sample_du 3) (sample_sctp 36421)"
    "reg_map (ia_e2_nodes (sy_iapp sys)) (node_id_rank (sample_du 3)) \<noteq> None"
    "pairs_of (ia_xapps (sy_iapp sys)) = {(7, sample_sctp 50000)}" "ia_xapp_id (sy_iapp sys) = 8"
    "nr_sent (sy_ric sys) = []" "ia_sent (sy_iapp sys) = []"
    using sample_sys by metis
  have "no_use sys (next_no sys) (sub_key sample_sub)" using s by (simp add: no_use_def)
  moreover have "xapp_at sys (xs_xapp_id sample_sub) (sample_sctp 50000)" using s by (simp add: sample_sub_def)
  moreover have "ucast (xs_xapp_id sample_sub) \<le> ia_xapp_id (sy_iapp sys)" using s by (simp add: sample_sub_def)
  ultimately obtain sys' sys'' where
    "e2ap_msg_handle_iapp sys sample_fd (E42_RIC_SUBSCRIPTION_REQUEST sample_sub) = Inr (NONE_E2_MSG_TYPE, sys')"
    "nr_sent (sy_ric sys') = [(sample_sctp 36421, [1, 253])]"
    "e2ap_msg_handle_ric sys' sample_fd (RIC_SUBSCRIPTION_RESPONSE (accepted_response
       \<lparr>ric_req_id = 1021, ric_inst_id = 0, ran_func_id = 142\<rparr>)) = Inr (NONE_E2_MSG_TYPE, sys'')"
    "ia_sent (sy_iapp sys'') = [(sample_sctp 50000, [3, 1])]"
    using subscription_round_trip [where new_fd = sample_fd, OF s(1) sample_fd_fresh, of sample_sub "sample_sctp 36421" "sample_sctp 50000"] s
    by (auto simp: sample_sub_def numbered_def)
  then show ?thesis by blast
qed

end
