(* ===== verification/Request_Faults.thy ===== *)
theory Request_Faults
  imports Subscription_Flow
begin

text \<open>
  How a request ends: deletion by the xApp, indications in the meantime, and the ways in which the
  RIC aborts: an answer that nobody waits for, a timer that expires, an xApp that uses a number it
  was never given, and the 16-bit number of a request that comes round to 0.
\<close>

declare bind_res_eq_Inr [simp del]

section \<open>Deletion by the xApp\<close>

definition del_req :: "xapp_ric_id \<Rightarrow> e42_ric_subscription_delete_request" where
  "del_req x = \<lparr>xd_xapp_id = xr_xapp_id x, xd_sdr = \<lparr>sd_ric_id = xr_ric_id x\<rparr>\<rparr>"

text \<open>The look-up is right as long as no other request has the same RIC identifier.\<close>

lemma find_ric_req_unique:
  assumes m: "reqs_inv m" and p: "(a, x) \<in> pairs_of m" and u: "\<forall>(b, y) \<in> pairs_of m. xr_ric_id y = xr_ric_id x \<longrightarrow> y = x"
  shows "find_ric_req_map_ric_id m x = Inr a"
proof -
  consider "\<forall>(n, b) \<in> pairs_of m. xr_ric_id b \<noteq> xr_ric_id x"
    | n b where "(n, b) \<in> pairs_of m" "xr_ric_id b = xr_ric_id x" "find_ric_req_map_ric_id m x = Inr n"
    using find_ric_req_first [OF m, of x] by blast
  then show ?thesis
  proof cases
    case 1
    then show ?thesis using p by blast
  next
    case 2
    with u have "b = x" by blast
    with req_unique(2) [OF m p, of n b] 2 show ?thesis by simp
  qed
qed

lemma e42_delete_ok:
  fixes sys :: "('c, 'i) ric_system"
  assumes inv: "sys_inv sys" and fd: "fresh sys new_fd" and a: "(a, x) \<in> requests sys" "req_no a = ucast n"
    and sub: "en_ric_req_type a = SUBSCRIPTION_RIC_REQUEST_TYPE"
    and u: "\<forall>(b, y) \<in> requests sys. xr_ric_id y = xr_ric_id x \<longrightarrow> y = x"
    and s: "node_at (sy_ric sys) (en_e2_node_id a) s"
    and ev: "del_event (numbered n (xr_ric_id x)) \<notin> snd ` pend (sy_ric sys)"
    and enc: "\<forall>m. ap_enc (nr_ap (sy_ric sys)) m \<noteq> []"
  shows "\<exists>ric'. e2ap_handle_e42_ric_subscription_delete_request_iapp sys new_fd (del_req x) =
      Inr (NONE_E2_MSG_TYPE, sys\<lparr>sy_ric := ric'\<rparr>) \<and>
    requested (sy_ric sys) (new_fd (nr_io (sy_ric sys))) 3000 (del_event (numbered n (xr_ric_id x))) s
      (ap_enc (nr_ap (sy_ric sys)) (RIC_SUBSCRIPTION_DELETE_REQUEST \<lparr>sd_ric_id = numbered n (xr_ric_id x)\<rparr>)) ric'"
proof -
  have f: "find_ric_req_map_ric_id (ia_map_ric_id (sy_iapp sys)) \<lparr>xr_ric_id = xr_ric_id x, xr_xapp_id = xr_xapp_id x\<rparr> = Inr a"
    using find_ric_req_unique [OF _ a(1) u] inv by (cases x) (simp add: sys_inv_def)
  obtain ric' where "fwd_ric_subscription_request_delete (sy_ric sys) (new_fd (nr_io (sy_ric sys))) (en_e2_node_id a)
      \<lparr>sd_ric_id = numbered n (xr_ric_id x)\<rparr> = Inr ric'"
    "requested (sy_ric sys) (new_fd (nr_io (sy_ric sys))) 3000 (del_event (numbered n (xr_ric_id x))) s
      (ap_enc (nr_ap (sy_ric sys)) (RIC_SUBSCRIPTION_DELETE_REQUEST \<lparr>sd_ric_id = numbered n (xr_ric_id x)\<rparr>)) ric'"
    using fwd_delete_ok [OF _ fd s, of "\<lparr>sd_ric_id = numbered n (xr_ric_id x)\<rparr>"] inv ev enc by (auto simp: sys_inv_def)
  then show ?thesis using f sub a(2)
    by (intro exI [of _ ric']) (simp add: e2ap_handle_e42_ric_subscription_delete_request_iapp_def Let_def del_req_def
        cp_ric_subscription_delete_request_def numbered_def)
qed

lemma numbered_small [simp]: "(ucast (n :: u16) :: u32) < 65536"
  using uint_bounded [of n] by (simp add: word_less_def unsigned_ucast_eq take_bit_int_eq_self)

lemma ucast_pos [simp]: "0 < (ucast (n :: u16) :: u32) \<longleftrightarrow> n \<noteq> 0"
proof
  assume "n \<noteq> 0"
  then have "ucast n \<noteq> (0 :: u32)" using ucast_16_32_inj [of n 0] by simp
  then show "0 < (ucast n :: u32)" by (simp add: word_gt_0)
qed auto

lemma answers_numbered:
  assumes "(a, x) \<in> requests sys" "req_no a = ucast n" "n \<noteq> 0" "xapp_at sys (xr_xapp_id x) t"
  shows "answers sys (numbered n (xr_ric_id x)) a x t"
  using assms by (simp add: answers_def same_procedure_def)

section \<open>Listeners inside the RIC\<close>

lemma fold_publish:
  "fold_res (\<lambda>sub ric. Inr (ric\<lparr>nr_published := nr_published ric @ [(sub, d)]\<rparr>)) xs ric =
   Inr (ric\<lparr>nr_published := nr_published ric @ map (\<lambda>l. (l, d)) xs\<rparr>)"
  by (induction xs arbitrary: ric) simp_all

lemma publish_ok:
  assumes T: "rf_inv (nr_pub_sub ric)" "rf_map (nr_pub_sub ric) rfid \<noteq> None"
    and first: "rb_items (nr_pub_sub ric) = (it, k, arr) # es" "arr_inv arr"
  shows "publish_ind_msg ric rfid d = Inr (ric\<lparr>nr_published := nr_published ric @ map (\<lambda>l. (l, d)) (arr_list arr)\<rparr>)"
proof -
  let ?T = "nr_pub_sub ric"
  obtain sm_it where sm: "search ?T rfid eq_ran_func_id = Inr sm_it" "sm_it \<noteq> assoc_rb_tree_end ?T"
    using search_ran_func [OF T(1), of rfid] T(2) by auto
  obtain t where s: "rb_struct ?T t" using T(1) by (auto simp: rb_inv_def)
  have i: "items t = rb_items ?T" using tree_of_eq [OF s] by (simp add: rb_items_def)
  have front: "assoc_rb_tree_front ?T = Inr it" using rb_front_ok [OF s] i first(1) by (simp add: first_addr_def)
  have nxt: "\<exists>a. assoc_rb_tree_next ?T it = Inr a" using rb_next_ok [OF s, of "[]" it k arr es] i first(1) by auto
  have "assoc_rb_tree_value ?T it = Inr arr" using sms.value_law [OF T(1), of it k arr] first(1) by simp
  with sm front nxt first(2) show ?thesis
    by (auto simp: publish_ind_msg_def Let_def arr_for_all_ok fold_publish)
qed


section \<open>Requests whose answer cannot be delivered\<close>

lemma e42_subscription_state:
  fixes sys :: "('c, 'i) ric_system"
  assumes inv: "sys_inv sys" and fd: "fresh sys new_fd"
    and node: "node_at (sy_ric sys) (xs_id req) s" "reg_map (ia_e2_nodes (sy_iapp sys)) (node_id_rank (xs_id req)) \<noteq> None"
    and xid: "ucast (xs_xapp_id req) \<le> ia_xapp_id (sy_iapp sys)"
    and q: "ric_req_id (sr_ric_id (xs_sr req)) < 65536" and no: "no_use sys (next_no sys) (sub_key req)"
    and enc: "\<forall>m. ap_enc (nr_ap (sy_ric sys)) m \<noteq> []"
  shows "\<exists>sys'. e2ap_msg_handle_iapp sys new_fd (E42_RIC_SUBSCRIPTION_REQUEST req) = Inr (NONE_E2_MSG_TYPE, sys') \<and>
    sys_inv sys' \<and> sub_event (numbered (next_no sys) (sr_ric_id (xs_sr req))) \<in> snd ` pend (sy_ric sys') \<and>
    requests sys' = insert (sub_node (next_no sys) req, sub_key req) (requests sys) \<and>
    ia_xapps (sy_iapp sys') = ia_xapps (sy_iapp sys) \<and>
    length (nr_sent (sy_ric sys')) = length (nr_sent (sy_ric sys)) + 1"
proof -
  obtain ric' m' where h: "e2ap_handle_e42_ric_subscription_request_iapp sys new_fd req =
      Inr (NONE_E2_MSG_TYPE, sys\<lparr>sy_ric := ric', sy_iapp := (sy_iapp sys)\<lparr>ia_map_ric_id := m'\<rparr>\<rparr>)"
    and r: "requested (count_up (sy_ric sys)) (new_fd (nr_io (sy_ric sys))) 3000
      (sub_event (numbered (next_no sys) (sr_ric_id (xs_sr req)))) s (ap_enc (nr_ap (sy_ric sys)) (RIC_SUBSCRIPTION_REQUEST
        ((xs_sr req)\<lparr>sr_ric_id := numbered (next_no sys) (sr_ric_id (xs_sr req))\<rparr>))) ric'"
    and m': "reqs_inv m'" "pairs_of m' = insert (sub_node (next_no sys) req, sub_key req) (requests sys)"
    using e42_subscription_ok [where new_fd = new_fd, OF inv fd node xid q no enc] by blast
  then show ?thesis
    using requested_inv [OF r] requested_pend [OF r] requested_fields(11) [OF r] inv
    by (intro exI [of _ "sys\<lparr>sy_ric := ric', sy_iapp := (sy_iapp sys)\<lparr>ia_map_ric_id := m'\<rparr>\<rparr>"])
      (simp add: e2ap_msg_handle_iapp_def sys_inv_def)
qed

lemma response_fails:
  assumes inv: "sys_inv sys" and p: "sub_event i \<in> snd ` pend (sy_ric sys)"
    and f: "e2ap_handle_subscription_response_iapp (sy_iapp sys) (accepted_response i) = Inl e"
  shows "e2ap_msg_handle_ric sys new_fd (RIC_SUBSCRIPTION_RESPONSE (accepted_response i)) = Inl e"
proof -
  obtain fd where "(fd, sub_event i) \<in> pend (sy_ric sys)" using p by auto
  from stop_answered [OF _ this] inv obtain ric' where "stop_pending_event (sy_ric sys) (sub_event i) = Inr ric'"
    by (auto simp: sys_inv_def)
  then show ?thesis
    using f by (simp add: e2ap_msg_handle_ric_def e2ap_handle_subscription_response_ric_def Let_def sub_event_def
        notify_msg_iapp_def notifies_def e2ap_msg_handle_iapp_def on_iapp_def map_res_def)
qed

lemma response_number_0:
  "ric_req_id (sp_ric_id r) = 0 \<Longrightarrow> e2ap_handle_subscription_response_iapp iapp r = Inl AssertFailed"
  by (simp add: e2ap_handle_subscription_response_iapp_def find_xapp_map_ric_id_def)

section \<open>Properties\<close>

text \<open>C3: an xApp deletes its subscription: the E2 node gets a delete request with the RIC's number, and
  the node's answer is passed on under the number of the xApp. The request is forgotten then and
  nothing else is; an indication that still arrives for it is dropped.\<close>

theorem delete_round_trip:
  fixes sys :: "('c, 'i) ric_system"
  assumes inv: "sys_inv sys" and fd: "fresh sys new_fd" and a: "(a, x) \<in> requests sys" "req_no a = ucast n" "n \<noteq> 0"
    and sub: "en_ric_req_type a = SUBSCRIPTION_RIC_REQUEST_TYPE"
    and u: "\<forall>(b, y) \<in> requests sys. xr_ric_id y = xr_ric_id x \<longrightarrow> y = x"
    and s: "node_at (sy_ric sys) (en_e2_node_id a) s" and t: "xapp_at sys (xr_xapp_id x) t"
    and ev: "del_event (numbered n (xr_ric_id x)) \<notin> snd ` pend (sy_ric sys)"
    and enc: "\<forall>m. ap_enc (nr_ap (sy_ric sys)) m \<noteq> []" "\<forall>m. ap_enc (ia_ap (sy_iapp sys)) m \<noteq> []"
  defines "rid \<equiv> numbered n (xr_ric_id x)"
  shows "\<exists>sys' sys''. e2ap_msg_handle_iapp sys new_fd (E42_RIC_SUBSCRIPTION_DELETE_REQUEST (del_req x)) =
      Inr (NONE_E2_MSG_TYPE, sys') \<and>
    nr_sent (sy_ric sys') = nr_sent (sy_ric sys) @
      [(s, ap_enc (nr_ap (sy_ric sys)) (RIC_SUBSCRIPTION_DELETE_REQUEST \<lparr>sd_ric_id = rid\<rparr>))] \<and>
    e2ap_msg_handle_ric sys' new_fd (RIC_SUBSCRIPTION_DELETE_RESPONSE \<lparr>dp_ric_id = rid\<rparr>) = Inr (NONE_E2_MSG_TYPE, sys'') \<and>
    ia_sent (sy_iapp sys'') = ia_sent (sy_iapp sys) @
      [(t, ap_enc (ia_ap (sy_iapp sys)) (RIC_SUBSCRIPTION_DELETE_RESPONSE \<lparr>dp_ric_id = xr_ric_id x\<rparr>))] \<and>
    requests sys'' = requests sys - {(a, x)} \<and> pend (sy_ric sys'') = pend (sy_ric sys) \<and> sys_inv sys'' \<and>
    (\<forall>ind. in_ric_id ind = rid \<longrightarrow> notify_msg_iapp sys'' new_fd (RIC_INDICATION ind) = Inr sys'')"
proof -
  let ?fd = "new_fd (nr_io (sy_ric sys))"
  obtain ric' where h: "e2ap_handle_e42_ric_subscription_delete_request_iapp sys new_fd (del_req x) =
      Inr (NONE_E2_MSG_TYPE, sys\<lparr>sy_ric := ric'\<rparr>)"
    and r: "requested (sy_ric sys) ?fd 3000 (del_event rid) s
      (ap_enc (nr_ap (sy_ric sys)) (RIC_SUBSCRIPTION_DELETE_REQUEST \<lparr>sd_ric_id = rid\<rparr>)) ric'"
    using e42_delete_ok [where new_fd = new_fd, OF inv fd a(1,2) sub u s ev enc(1)] unfolding rid_def by blast
  have fd': "?fd \<notin> fst ` pend (sy_ric sys)" using inv fd by (auto simp: sys_inv_def near_ric_inv_def fresh_fd_def)
  have inv': "sys_inv (sys\<lparr>sy_ric := ric'\<rparr>)" using inv requested_inv [OF r] by (simp add: sys_inv_def)
  have p: "(?fd, del_event (dp_ric_id \<lparr>dp_ric_id = rid\<rparr>)) \<in> pend (sy_ric (sys\<lparr>sy_ric := ric'\<rparr>))"
    using requested_pend [OF r] by simp
  have ans: "answers (sys\<lparr>sy_ric := ric'\<rparr>) (dp_ric_id \<lparr>dp_ric_id = rid\<rparr>) a x t"
    using answers_numbered [OF a t] by (simp add: rid_def)
  have enc': "\<forall>m. ap_enc (ia_ap (sy_iapp (sys\<lparr>sy_ric := ric'\<rparr>))) m \<noteq> []" using enc by simp
  obtain ric'' m' where d: "e2ap_handle_subscription_delete_response_ric (sys\<lparr>sy_ric := ric'\<rparr>) new_fd \<lparr>dp_ric_id = rid\<rparr> =
      Inr (NONE_E2_MSG_TYPE, sys\<lparr>sy_ric := ric'', sy_iapp := (iapp_sends sys t (RIC_SUBSCRIPTION_DELETE_RESPONSE
        \<lparr>dp_ric_id = xr_ric_id x\<rparr>))\<lparr>ia_map_ric_id := m'\<rparr>\<rparr>)"
    and r'': "answered ric' ?fd (del_event rid) ric''" and m': "reqs_inv m'" "pairs_of m' = requests sys - {(a, x)}"
    using delete_response_ric_ok [OF inv' p ans enc', of new_fd] by auto
  define sys'' where "sys'' = sys\<lparr>sy_ric := ric'', sy_iapp := (iapp_sends sys t (RIC_SUBSCRIPTION_DELETE_RESPONSE
        \<lparr>dp_ric_id = xr_ric_id x\<rparr>))\<lparr>ia_map_ric_id := m'\<rparr>\<rparr>"
  have inv'': "sys_inv sys''" using inv m'(1) answered_fields(1) [OF r''] by (simp add: sys''_def sys_inv_def)
  have "req_no b \<noteq> ucast n" if "(b, y) \<in> requests sys - {(a, x)}" for b y
    using that req_unique(1) [of "ia_map_ric_id (sy_iapp sys)" a x b y] inv a by (auto simp: sys_inv_def)
  then have drop: "notify_msg_iapp sys'' new_fd (RIC_INDICATION ind) = Inr sys''" if "in_ric_id ind = rid" for ind
    using that a(3) m'(2) by (intro indication_iapp_unknown [OF inv'']) (auto simp: rid_def sys''_def ucast_down_up_16)
  have "pend ric'' = pend (sy_ric sys)"
    using answered_fields(2) [OF r''] requested_pend [OF r] fd' by (auto simp: image_iff)
  then show ?thesis
    using h d r m' drop inv'' requested_fields(11) [OF r]
    by (intro exI [of _ "sys\<lparr>sy_ric := ric'\<rparr>"] exI [of _ sys''])
      (simp add: e2ap_msg_handle_iapp_def e2ap_msg_handle_ric_def sys''_def)
qed

theorem delete_round_trip_witness:
  "\<exists>sys sys' sys'' :: (string, string) ric_system.
     e2ap_msg_handle_iapp sys sample_fd (E42_RIC_SUBSCRIPTION_DELETE_REQUEST (del_req (sub_key sample_sub))) =
       Inr (NONE_E2_MSG_TYPE, sys') \<and>
     nr_sent (sy_ric sys') = [(sample_sctp 36421, [2, 253])] \<and> requests sys \<noteq> {} \<and>
     e2ap_msg_handle_ric sys' sample_fd (RIC_SUBSCRIPTION_DELETE_RESPONSE
       \<lparr>dp_ric_id = \<lparr>ric_req_id = 1021, ric_inst_id = 0, ran_func_id = 142\<rparr>\<rparr>) = Inr (NONE_E2_MSG_TYPE, sys'') \<and>
     requests sys'' = {}"
proof -
  obtain sys :: "(string, string) ric_system" where s: "sys_inv sys"
    "requests sys = {(sub_node 1021 sample_sub, sub_key sample_sub)}" "pend (sy_ric sys) = {}"
    "nr_ap (sy_ric sys) = sample_ap" "ia_ap (sy_iapp sys) = sample_ap"
    "node_at (sy_ric sys) (sample_du 3) (sample_sctp 36421)"
    "pairs_of (ia_xapps (sy_iapp sys)) = {(7, sample_sctp 50000)}" "nr_sent (sy_ric sys) = []" "ia_sent (sy_iapp sys) = []"
    using sample_sys_sub by metis
  have i: "(sub_node 1021 sample_sub, sub_key sample_sub) \<in> requests sys" "req_no (sub_node 1021 sample_sub) = ucast (1021 :: u16)"
    "node_at (sy_ric sys) (en_e2_node_id (sub_node 1021 sample_sub)) (sample_sctp 36421)"
    "xapp_at sys (xr_xapp_id (sub_key sample_sub)) (sample_sctp 50000)"
    using s by (simp_all add: sub_node_def sub_key_def sample_sub_def)
  obtain sys' sys'' where
    d: "e2ap_msg_handle_iapp sys sample_fd (E42_RIC_SUBSCRIPTION_DELETE_REQUEST (del_req (sub_key sample_sub))) =
       Inr (NONE_E2_MSG_TYPE, sys')"
    "nr_sent (sy_ric sys') = [(sample_sctp 36421, [2, 253])]"
    "e2ap_msg_handle_ric sys' sample_fd (RIC_SUBSCRIPTION_DELETE_RESPONSE
       \<lparr>dp_ric_id = numbered 1021 (xr_ric_id (sub_key sample_sub))\<rparr>) = Inr (NONE_E2_MSG_TYPE, sys'')"
    "requests sys'' = requests sys - {(sub_node 1021 sample_sub, sub_key sample_sub)}"
    using delete_round_trip [where new_fd = sample_fd, OF s(1) sample_fd_fresh i(1,2) _ _ _ i(3,4)] s
    by (auto simp: sub_node_def)
  have "numbered 1021 (xr_ric_id (sub_key sample_sub)) = \<lparr>ric_req_id = 1021, ric_inst_id = 0, ran_func_id = 142\<rparr>"
    by (simp add: numbered_def sub_key_def sample_sub_def)
  moreover have "requests sys \<noteq> {}" "requests sys'' = {}" using s(2) d(4) by simp_all
  ultimately show ?thesis using d(1-3) by metis
qed

text \<open>C4: an indication of a subscription goes to the xApp that asked for it, under the number that the
  xApp chose. Inside the RIC it goes to the listeners of the RAN function with the smallest
  identifier, whichever function it belongs to: \<open>publish_ind_msg\<close> searches for the function but then
  takes the first entry.\<close>

theorem indication_routing:
  fixes sys :: "('c, 'i) ric_system"
  assumes inv: "sys_inv sys" and a: "answers sys (in_ric_id ind) a x t" and enc: "\<forall>m. ap_enc (ia_ap (sy_iapp sys)) m \<noteq> []"
    and sm: "rf_inv (nr_sm_ds (sy_ric sys))" "rf_map (nr_sm_ds (sy_ric sys)) f = Some sm" "sm_ran_func_id sm = f" "f \<noteq> 0"
    and f: "ran_func_id (in_ric_id ind) = f"
    and d: "d = on_indication sm \<lparr>sid_hdr = in_hdr ind, sid_msg = in_msg ind, sid_call_process_id = in_call_process_id ind\<rparr>"
      "known_ind (ri_type d)"
    and ps: "rf_inv (nr_pub_sub (sy_ric sys))" "rf_map (nr_pub_sub (sy_ric sys)) f = Some arr"
      "rb_items (nr_pub_sub (sy_ric sys)) = (it, k, arr0) # es" "arr_inv arr0"
  shows "\<exists>sys'. e2ap_msg_handle_ric sys new_fd (RIC_INDICATION ind) = Inr (NONE_E2_MSG_TYPE, sys') \<and> sys_inv sys' \<and>
    ia_sent (sy_iapp sys') = ia_sent (sy_iapp sys) @
      [(t, ap_enc (ia_ap (sy_iapp sys)) (RIC_INDICATION (ind\<lparr>in_ric_id := xr_ric_id x\<rparr>)))] \<and>
    nr_published (sy_ric sys') = nr_published (sy_ric sys) @ map (\<lambda>l. (l, d)) (arr_list arr0) \<and> k \<le> f"
proof -
  define ric' where "ric' = (sy_ric sys)\<lparr>nr_published := nr_published (sy_ric sys) @ map (\<lambda>l. (l, d)) (arr_list arr0)\<rparr>"
  have p: "publish_ind_msg (sy_ric sys) f d = Inr ric'"
    using publish_ok [OF ps(1) _ ps(3,4)] ps(2) by (simp add: ric'_def)
  have inv': "sys_inv (sys\<lparr>sy_ric := ric'\<rparr>)" using inv by (simp add: sys_inv_def ric'_def)
  have a': "answers (sys\<lparr>sy_ric := ric'\<rparr>) (in_ric_id ind) a x t" using a by simp
  have n: "notify_msg_iapp (sys\<lparr>sy_ric := ric'\<rparr>) new_fd (RIC_INDICATION ind) =
      Inr (sys\<lparr>sy_ric := ric', sy_iapp := iapp_sends sys t (RIC_INDICATION (ind\<lparr>in_ric_id := xr_ric_id x\<rparr>))\<rparr>)"
    using indication_iapp_ok [OF inv' a'] enc by simp
  obtain a' where "(a', f, arr) \<in> set (rb_items (nr_pub_sub (sy_ric sys)))"
    using search_ran_func [OF ps(1), of f] ps(2) by fastforce
  moreover have "sorted (ranks (\<lambda>f. [uint f]) (rb_items (nr_pub_sub (sy_ric sys))))" using ps(1) sms.items_law by blast
  ultimately have "k \<le> f" using ps(3) by (auto simp: ranks_def word_le_def)
  then show ?thesis
    using p n sm_plugin_ok [OF sm] d f inv by (simp add: e2ap_msg_handle_ric_def e2ap_handle_indication_ric_def
        Let_def ric'_def sys_inv_def)
qed

lemma listeners_sample: "\<exists>arr :: subs_ric seq_arr. arr_inv arr \<and> arr_list arr = [\<lparr>subs_name = l\<rparr>]"
proof -
  have e: "sa_elt_size (seq_arr_init SUBS_RIC_SZ) = SUBS_RIC_SZ" by (simp add: seq_arr_init_def)
  have i: "arr_inv (seq_arr_init SUBS_RIC_SZ :: subs_ric seq_arr)" by (rule seq_arr_init_inv) (simp add: SUBS_RIC_SZ_def)
  from push_backs_ok [OF i e, of "[\<lparr>subs_name = l\<rparr>]"] show ?thesis by auto
qed

theorem indication_routing_witness:
  "\<exists>sys sys' :: (string, string) ric_system.
     map (\<lambda>(a, f, arr). (f, arr_list arr)) (rb_items (nr_pub_sub (sy_ric sys))) =
       [(3, [\<lparr>subs_name = ''rc''\<rparr>]), (142, [\<lparr>subs_name = ''mac''\<rparr>])] \<and>
     e2ap_msg_handle_ric sys sample_fd (RIC_INDICATION \<lparr>in_ric_id = \<lparr>ric_req_id = 1021, ric_inst_id = 0, ran_func_id = 142\<rparr>,
       in_action_id = 0, in_sn = None, in_type = RIC_IND_REPORT, in_hdr = [1], in_msg = [2], in_call_process_id = None\<rparr>) =
       Inr (NONE_E2_MSG_TYPE, sys') \<and>
     ia_sent (sy_iapp sys') = [(sample_sctp 50000, [4, 1])] \<and>
     map fst (nr_published (sy_ric sys')) = [\<lparr>subs_name = ''rc''\<rparr>]"
proof -
  let ?id = "\<lparr>ric_req_id = 1021, ric_inst_id = 0, ran_func_id = 142\<rparr>"
  let ?ind = "\<lparr>in_ric_id = ?id, in_action_id = 0, in_sn = None, in_type = RIC_IND_REPORT, in_hdr = [1], in_msg = [2],
    in_call_process_id = None\<rparr>"
  obtain sys0 :: "(string, string) ric_system" where s: "sys_inv sys0"
    "requests sys0 = {(sub_node 1021 sample_sub, sub_key sample_sub)}" "ia_ap (sy_iapp sys0) = sample_ap"
    "pairs_of (ia_xapps (sy_iapp sys0)) = {(7, sample_sctp 50000)}" "ia_sent (sy_iapp sys0) = []"
    "rf_inv (nr_sm_ds (sy_ric sys0))" "rf_map (nr_sm_ds (sy_ric sys0)) 142 = Some (sample_sm 142)"
    using sample_sys_sub by metis
  obtain arr1 arr2 where arr: "arr_inv arr1" "arr_list arr1 = [\<lparr>subs_name = ''rc''\<rparr>]" "arr_inv arr2"
    "arr_list arr2 = [\<lparr>subs_name = ''mac''\<rparr>]" using listeners_sample by metis
  obtain T0 :: "(u16, subs_ric seq_arr) rb_tree" where T0: "rf_inv T0" "rb_items T0 = []"
    using rb_init_ok [of 2 cmp_ran_func_id "\<lambda>_. True" "\<lambda>f. [uint f]"] by auto
  obtain T1 a1 where T1: "rf_inv T1" "rb_items T1 = [(a1, 3, arr1)]"
    using sms.insert_law [OF T0(1), of 3 arr1] by (auto simp: T0(2) sorted_insert_def)
  obtain T a2 where T: "rf_inv T" "rb_items T = [(a1, 3, arr1), (a2, 142, arr2)]"
    using sms.insert_law [OF T1(1), of 142 arr2] by (auto simp: T1(2) sorted_insert_def)
  define sys where "sys = sys0\<lparr>sy_ric := (sy_ric sys0)\<lparr>nr_pub_sub := T, nr_published := []\<rparr>\<rparr>"
  have inv: "sys_inv sys" using s(1) by (simp add: sys_def sys_inv_def near_ric_inv_def pend_def)
  have ans: "answers sys (in_ric_id ?ind) (sub_node 1021 sample_sub) (sub_key sample_sub) (sample_sctp 50000)"
    using s(2,4) by (simp add: answers_def sys_def sub_node_def sub_key_def sample_sub_def same_procedure_def word_less_def)
  have d: "known_ind (ri_type (on_indication (sample_sm 142) d))" for d
    by (simp add: sample_sm_def known_ind_def)
  obtain sys' where "e2ap_msg_handle_ric sys sample_fd (RIC_INDICATION ?ind) = Inr (NONE_E2_MSG_TYPE, sys')"
    "ia_sent (sy_iapp sys') = [(sample_sctp 50000, [4, 1])]" "map fst (nr_published (sy_ric sys')) = [\<lparr>subs_name = ''rc''\<rparr>]"
    using indication_routing [OF inv ans, of 142 "sample_sm 142" _ arr2 a1 3 arr1 "[(a2, 142, arr2)]" sample_fd] s T arr d
    by (auto simp: sys_def rf_map_def sample_sm_def sub_key_def sample_sub_def comp_def)
  then show ?thesis using T(2) arr by (intro exI [of _ sys] exI [of _ sys']) (simp add: sys_def)
qed

text \<open>an answer of an E2 node that the RIC does not wait for, such as a second copy of it or one that
  comes late, aborts the RIC.\<close>

theorem unsolicited_answers_abort:
  assumes "sys_inv sys"
  shows "(\<forall>r. sub_event (sp_ric_id r) \<notin> snd ` pend (sy_ric sys) \<longrightarrow>
      e2ap_msg_handle_ric sys new_fd (RIC_SUBSCRIPTION_RESPONSE r) = Inl AssertFailed) \<and>
    (\<forall>d. del_event (dp_ric_id d) \<notin> snd ` pend (sy_ric sys) \<longrightarrow>
      e2ap_msg_handle_ric sys new_fd (RIC_SUBSCRIPTION_DELETE_RESPONSE d) = Inl AssertFailed) \<and>
    (\<forall>c. ctrl_event (ck_ric_id c) \<notin> snd ` pend (sy_ric sys) \<longrightarrow>
      e2ap_msg_handle_ric sys new_fd (RIC_CONTROL_ACKNOWLEDGE c) = Inl AssertFailed)"
  using unsolicited_answer [OF assms] by (simp add: e2ap_msg_handle_ric_def)

theorem unsolicited_answers_abort_witness:
  "\<exists>sys :: (string, string) ric_system. e2ap_msg_handle_ric sys sample_fd
     (RIC_SUBSCRIPTION_RESPONSE (accepted_response \<lparr>ric_req_id = 1021, ric_inst_id = 0, ran_func_id = 142\<rparr>)) = Inl AssertFailed"
proof -
  obtain sys :: "(string, string) ric_system" where s: "sys_inv sys" "pend (sy_ric sys) = {}"
    using sample_sys by metis
  from unsolicited_answers_abort [OF s(1), of sample_fd] s(2) show ?thesis by (intro exI [of _ sys]) simp
qed

text \<open>C39: the timer of a request that stays unanswered aborts the RIC when it fires: the event loop finds
  the pending event, but then reads from the descriptor of the event, which \<open>next_asio_event_ric\<close> never
  filled in. This holds for every timer and for every other descriptor as well.\<close>

theorem timer_expiry_aborts:
  assumes "near_ric_inv (sy_ric (sv_sys sv))"
  shows "e2_event_loop_ric sv new_fd (RIC_TIMER fd) = Inl AssertFailed"
proof (cases "fd > 0")
  case True
  let ?T = "bm_left (nr_pending (sy_ric (sv_sys sv)))"
  have "pends_inv (nr_pending (sy_ric (sv_sys sv)))" using assms by (simp add: near_ric_inv_def)
  from search_fd [OF this, of fd] True obtain it where it: "search ?T fd eq_fd = Inr it"
    "it = assoc_rb_tree_end ?T \<or> (\<exists>ev. assoc_rb_tree_value ?T it = Inr ev)"
    by (auto split: if_splits)
  then show ?thesis using True
    by (auto simp: e2_event_loop_ric_def pend_event_def consume_fd_def EVENT_FD_def c_assert_def)
qed (simp add: e2_event_loop_ric_def pend_event_def)

theorem timer_expiry_aborts_witness:
  "\<exists>sv ric' :: (string, string) near_ric. fwd_ric_subscription_request_delete sv 9 (sample_du 3) (own_delete 142 7) = Inr ric' \<and>
     (9, del_event (sd_ric_id (own_delete 142 7))) \<in> pend ric' \<and>
     (\<forall>iapp. e2_event_loop_ric \<lparr>sv_sys = \<lparr>sy_ric = ric', sy_iapp = iapp\<rparr>, sv_tasks = []\<rparr> sample_fd (RIC_TIMER 9) =
       Inl AssertFailed)"
proof -
  obtain ric :: "(string, string) near_ric" where r: "near_ric_inv ric" "nr_ap ric = sample_ap" "pend ric = {}"
    "node_at ric (sample_du 3) (sample_sctp 36421)" "io_fds (nr_io ric) = [5]"
    using sample_ric by metis
  have "fresh_fd ric 9" using r by (simp add: fresh_fd_def)
  from fwd_delete_ok [OF r(1) this r(4), of "own_delete 142 7"] r(2,3) obtain ric' where
    f: "fwd_ric_subscription_request_delete ric 9 (sample_du 3) (own_delete 142 7) = Inr ric'" "near_ric_inv ric'"
    "(9, del_event (sd_ric_id (own_delete 142 7))) \<in> pend ric'"
    by (auto simp: requested_def)
  have "e2_event_loop_ric \<lparr>sv_sys = \<lparr>sy_ric = ric', sy_iapp = iapp\<rparr>, sv_tasks = []\<rparr> sample_fd (RIC_TIMER 9) =
      Inl AssertFailed" for iapp
    using timer_expiry_aborts [of "\<lparr>sv_sys = \<lparr>sy_ric = ric', sy_iapp = iapp\<rparr>, sv_tasks = []\<rparr>" sample_fd 9] f
    by simp
  with f show ?thesis by blast
qed

text \<open>C40: \<open>valid_xapp_id\<close> lets a number pass that no xApp has: those below 7, with which the count
  starts, and the next one to be given out. A subscription under it is forwarded, and the answer of
  the E2 node aborts the RIC, since there is no xApp to pass it on to.\<close>

theorem unregistered_xapp_aborts:
  fixes sys :: "('c, 'i) ric_system"
  assumes inv: "sys_inv sys" and fd: "fresh sys new_fd"
    and node: "node_at (sy_ric sys) (xs_id req) s" "reg_map (ia_e2_nodes (sy_iapp sys)) (node_id_rank (xs_id req)) \<noteq> None"
    and xapp: "xs_xapp_id req \<notin> fst ` pairs_of (ia_xapps (sy_iapp sys))" "ucast (xs_xapp_id req) \<le> ia_xapp_id (sy_iapp sys)"
    and q: "ric_req_id (sr_ric_id (xs_sr req)) < 65536" and no: "no_use sys (next_no sys) (sub_key req)"
    and enc: "\<forall>m. ap_enc (nr_ap (sy_ric sys)) m \<noteq> []"
  shows "\<exists>sys'. e2ap_msg_handle_iapp sys new_fd (E42_RIC_SUBSCRIPTION_REQUEST req) = Inr (NONE_E2_MSG_TYPE, sys') \<and>
    length (nr_sent (sy_ric sys')) = length (nr_sent (sy_ric sys)) + 1 \<and>
    e2ap_msg_handle_ric sys' new_fd (RIC_SUBSCRIPTION_RESPONSE (accepted_response
      (numbered (next_no sys) (sr_ric_id (xs_sr req))))) = Inl AssertFailed"
proof -
  let ?n = "next_no sys"
  let ?i = "numbered ?n (sr_ric_id (xs_sr req))"
  obtain sys' where s': "e2ap_msg_handle_iapp sys new_fd (E42_RIC_SUBSCRIPTION_REQUEST req) = Inr (NONE_E2_MSG_TYPE, sys')"
    "sys_inv sys'" "sub_event ?i \<in> snd ` pend (sy_ric sys')"
    "requests sys' = insert (sub_node ?n req, sub_key req) (requests sys)" "ia_xapps (sy_iapp sys') = ia_xapps (sy_iapp sys)"
    "length (nr_sent (sy_ric sys')) = length (nr_sent (sy_ric sys)) + 1"
    using e42_subscription_state [where new_fd = new_fd, OF inv fd node xapp(2) q no enc] by blast
  have "e2ap_handle_subscription_response_iapp (sy_iapp sys') (accepted_response ?i) = Inl AssertFailed"
  proof (cases "?n = 0")
    case False
    have "find_xapp_map_ric_id (ia_map_ric_id (sy_iapp sys')) ?n = Inr (Some (sub_key req))"
      using s'(2,4) False by (intro find_req [of _ "sub_node ?n req"]) (simp_all add: sys_inv_def sub_node_def word_gt_0)
    then show ?thesis
      using send_to_xapp_unknown [of "sy_iapp sys'" "xs_xapp_id req"] xapp(1) s'(2,5)
      by (simp add: e2ap_handle_subscription_response_iapp_def ucast_down_up_16 same_procedure_def sub_key_def sys_inv_def)
  qed (simp add: response_number_0)
  with response_fails [OF s'(2,3)] s'(1,6) show ?thesis by blast
qed

theorem unregistered_xapp_aborts_witness:
  "\<exists>sys sys' :: (string, string) ric_system. pairs_of (ia_xapps (sy_iapp sys)) = {(7, sample_sctp 50000)} \<and>
     e2ap_msg_handle_iapp sys sample_fd (E42_RIC_SUBSCRIPTION_REQUEST (sample_sub\<lparr>xs_xapp_id := 3\<rparr>)) =
       Inr (NONE_E2_MSG_TYPE, sys') \<and>
     e2ap_msg_handle_ric sys' sample_fd (RIC_SUBSCRIPTION_RESPONSE (accepted_response
       \<lparr>ric_req_id = 1021, ric_inst_id = 0, ran_func_id = 142\<rparr>)) = Inl AssertFailed"
proof -
  let ?req = "sample_sub\<lparr>xs_xapp_id := 3\<rparr>"
  obtain sys :: "(string, string) ric_system" where s: "sys_inv sys" "requests sys = {}" "pend (sy_ric sys) = {}"
    "nr_req_id (sy_ric sys) = 1021" "nr_ap (sy_ric sys) = sample_ap"
    "node_at (sy_ric sys) (sample_du 3) (sample_sctp 36421)"
    "reg_map (ia_e2_nodes (sy_iapp sys)) (node_id_rank (sample_du 3)) \<noteq> None"
    "pairs_of (ia_xapps (sy_iapp sys)) = {(7, sample_sctp 50000)}" "ia_xapp_id (sy_iapp sys) = 8"
    using sample_sys by metis
  have "no_use sys (next_no sys) (sub_key ?req)" using s by (simp add: no_use_def)
  moreover have "numbered (next_no sys) (sr_ric_id (xs_sr ?req)) = \<lparr>ric_req_id = 1021, ric_inst_id = 0, ran_func_id = 142\<rparr>"
    using s(4) by (simp add: numbered_def sample_sub_def)
  ultimately obtain sys' where
    "e2ap_msg_handle_iapp sys sample_fd (E42_RIC_SUBSCRIPTION_REQUEST ?req) = Inr (NONE_E2_MSG_TYPE, sys')"
    "e2ap_msg_handle_ric sys' sample_fd (RIC_SUBSCRIPTION_RESPONSE (accepted_response
       \<lparr>ric_req_id = 1021, ric_inst_id = 0, ran_func_id = 142\<rparr>)) = Inl AssertFailed"
    using unregistered_xapp_aborts [where new_fd = sample_fd, OF s(1) sample_fd_fresh, of ?req "sample_sctp 36421"] s
    by (auto simp: sample_sub_def numbered_def)
  with s(8) show ?thesis by blast
qed

text \<open>the RIC counts its requests with 32 bits but hands out the lower 16. The request that gets the
  number 0 in this way is sent to the E2 node like any other, and the node's answer aborts the RIC.\<close>

theorem request_number_0_aborts:
  fixes sys :: "('c, 'i) ric_system"
  assumes inv: "sys_inv sys" and fd: "fresh sys new_fd"
    and node: "node_at (sy_ric sys) (xs_id req) s" "reg_map (ia_e2_nodes (sy_iapp sys)) (node_id_rank (xs_id req)) \<noteq> None"
    and xapp: "ucast (xs_xapp_id req) \<le> ia_xapp_id (sy_iapp sys)"
    and q: "ric_req_id (sr_ric_id (xs_sr req)) < 65536" and no: "no_use sys (next_no sys) (sub_key req)"
    and enc: "\<forall>m. ap_enc (nr_ap (sy_ric sys)) m \<noteq> []" and wrap: "nr_req_id (sy_ric sys) = 65536"
  shows "\<exists>sys'. e2ap_msg_handle_iapp sys new_fd (E42_RIC_SUBSCRIPTION_REQUEST req) = Inr (NONE_E2_MSG_TYPE, sys') \<and>
    length (nr_sent (sy_ric sys')) = length (nr_sent (sy_ric sys)) + 1 \<and>
    e2ap_msg_handle_ric sys' new_fd (RIC_SUBSCRIPTION_RESPONSE (accepted_response
      ((sr_ric_id (xs_sr req))\<lparr>ric_req_id := 0\<rparr>))) = Inl AssertFailed"
proof -
  have n: "next_no sys = 0" using wrap by simp
  obtain sys' where s': "e2ap_msg_handle_iapp sys new_fd (E42_RIC_SUBSCRIPTION_REQUEST req) = Inr (NONE_E2_MSG_TYPE, sys')"
    "sys_inv sys'" "sub_event (numbered 0 (sr_ric_id (xs_sr req))) \<in> snd ` pend (sy_ric sys')"
    "length (nr_sent (sy_ric sys')) = length (nr_sent (sy_ric sys)) + 1"
    using e42_subscription_state [where new_fd = new_fd, OF inv fd node xapp q no enc] n by auto
  have "e2ap_handle_subscription_response_iapp (sy_iapp sys') (accepted_response (numbered 0 (sr_ric_id (xs_sr req)))) =
      Inl AssertFailed" by (simp add: response_number_0)
  from response_fails [OF s'(2,3) this] s'(1,4) show ?thesis by (simp add: numbered_def)
qed

theorem request_number_0_aborts_witness:
  "\<exists>sys sys' :: (string, string) ric_system. nr_req_id (sy_ric sys) = 65536 \<and>
     e2ap_msg_handle_iapp sys sample_fd (E42_RIC_SUBSCRIPTION_REQUEST sample_sub) = Inr (NONE_E2_MSG_TYPE, sys') \<and>
     e2ap_msg_handle_ric sys' sample_fd (RIC_SUBSCRIPTION_RESPONSE (accepted_response
       \<lparr>ric_req_id = 0, ric_inst_id = 0, ran_func_id = 142\<rparr>)) = Inl AssertFailed"
proof -
  obtain sys :: "(string, string) ric_system" where s: "sys_inv sys" "requests sys = {}" "pend (sy_ric sys) = {}"
    "nr_req_id (sy_ric sys) = 65536" "nr_ap (sy_ric sys) = sample_ap"
    "node_at (sy_ric sys) (sample_du 3) (sample_sctp 36421)"
    "reg_map (ia_e2_nodes (sy_iapp sys)) (node_id_rank (sample_du 3)) \<noteq> None" "ia_xapp_id (sy_iapp sys) = 8"
    using sample_sys by metis
  have "no_use sys (next_no sys) (sub_key sample_sub)" using s by (simp add: no_use_def)
  then obtain sys' where
    "e2ap_msg_handle_iapp sys sample_fd (E42_RIC_SUBSCRIPTION_REQUEST sample_sub) = Inr (NONE_E2_MSG_TYPE, sys')"
    "e2ap_msg_handle_ric sys' sample_fd (RIC_SUBSCRIPTION_RESPONSE (accepted_response
       \<lparr>ric_req_id = 0, ric_inst_id = 0, ran_func_id = 142\<rparr>)) = Inl AssertFailed"
    using request_number_0_aborts [where new_fd = sample_fd, OF s(1) sample_fd_fresh, of sample_sub "sample_sctp 36421"] s
    by (auto simp: sample_sub_def)
  with s(4) show ?thesis by blast
qed

end
