(* ===== verification/Ric_Boot.thy ===== *)
theory Ric_Boot
  imports Request_Faults
begin

text \<open>
  The start of the RIC: \<open>init_near_ric\<close> with the registration of the default listeners of every
  service model (\<open>load_default_pub_sub_ric\<close>), and \<open>init_e42_iapp\<close>. The list of listeners of a RAN
  function is a value of a red-black tree that is changed in place, so the theory first shows that a
  new value at a node keeps the tree.
\<close>

declare bind_res_eq_Inr [simp del]

section \<open>A new value at a node\<close>

fun set_val :: "nat \<Rightarrow> 'v \<Rightarrow> ('k, 'v) rbt \<Rightarrow> ('k, 'v) rbt" where
  "set_val b w Leaf = Leaf"
| "set_val b w (Node l (a, c, k, v) r) = Node (set_val b w l) (a, c, k, if a = b then w else v) (set_val b w r)"

abbreviation put :: "nat \<Rightarrow> 'v \<Rightarrow> (nat \<times> 'k \<times> 'v) \<Rightarrow> nat \<times> 'k \<times> 'v" where
  "put b w \<equiv> \<lambda>(a, k, v). (a, k, if a = b then w else v)"

lemma set_val_simps [simp]:
  "addrs (set_val b w t) = addrs t" "addr d (set_val b w t) = addr d t" "color_of (set_val b w t) = color_of t"
  "items (set_val b w t) = map (put b w) (items t)" "black_height (set_val b w t) = black_height t"
  "balanced (set_val b w t) = balanced t"
  by (induction t rule: items.induct) auto

lemma balanced_set_val [simp]: "rb_balanced (set_val b w t) = rb_balanced t"
  by (simp add: rb_balanced_def)

lemma put_key [simp]: "it_key (put b w e) = it_key e" "it_key \<circ> put b w = it_key"
  by (auto simp: split_def)

lemma tree_at_set_val:
  "tree_at d h p t \<Longrightarrow> h b = Some n \<Longrightarrow> tree_at d (h(b \<mapsto> n\<lparr>n_value := Some w\<rparr>)) p (set_val b w t)"
  by (induction d h p t rule: tree_at.induct) (auto simp: mk_node_def)

lemma wr_value_ok:
  assumes inv: "rb_inv cmp valid rank T" and it: "(b, k, v) \<in> set (rb_items T)"
  shows "\<exists>T'. wr b (\<lambda>n. n\<lparr>n_value := Some w\<rparr>) T = Inr T' \<and> rb_inv cmp valid rank T' \<and>
    rb_items T' = map (put b w) (rb_items T) \<and> t_key_sz T' = t_key_sz T"
proof -
  obtain t where s: "rb_struct T t" and i: "rb_items T = items t"
    using inv by (auto simp: rb_inv_def tree_of_eq rb_items_def)
  have "b \<in> set (addrs t)"
    using it unfolding i by (induction t rule: items.induct) auto
  then obtain n where n: "t_heap T b = Some n" "b \<noteq> t_dummy T"
    using s unfolding rb_struct_def zipped_def by (metis domD insertCI)
  define T' where "T' = T\<lparr>t_heap := (t_heap T)(b \<mapsto> n\<lparr>n_value := Some w\<rparr>)\<rparr>"
  have "rb_struct T' (set_val b w t)"
    using s n tree_at_set_val [of "t_dummy T" "t_heap T" "t_dummy T" t b n w]
    by (auto simp: rb_struct_def zipped_def T'_def)
  moreover from this have items: "rb_items T' = map (put b w) (items t)" by (simp add: tree_of_eq rb_items_def)
  ultimately have "rb_inv cmp valid rank T'"
    using inv by (auto simp: rb_inv_def tree_of_eq i T'_def rb_sorted_def comp_def)
  with items show ?thesis by (intro exI [of _ T']) (simp add: wr_def n T'_def i)
qed


section \<open>The default listeners\<close>

definition listeners_ok :: "(u16, subs_ric seq_arr) rb_tree \<Rightarrow> bool" where
  "listeners_ok ps \<longleftrightarrow> rf_inv ps \<and> t_key_sz ps = 2 \<and>
     (\<forall>(a, f, arr) \<in> set (rb_items ps). arr_inv arr \<and> sa_elt_size arr = SUBS_RIC_SZ)"

abbreviation funcs :: "(u16, 'v) rb_tree \<Rightarrow> u16 set" where
  "funcs T \<equiv> it_key ` set (rb_items T)"

lemma rf_map_funcs: "rf_map T f \<noteq> None \<longleftrightarrow> f \<in> funcs T"
  by (force simp: rf_map_def map_of_eq_None_iff)

lemma register_listener_ok:
  assumes ps: "listeners_ok ps"
  shows "\<exists>ps'. register_listeners_for_ran_func_id ps f s = Inr ps' \<and> listeners_ok ps' \<and> funcs ps' = insert f (funcs ps)"
proof -
  have inv: "rf_inv ps" and sz: "t_key_sz ps = 2"
    and vals: "\<And>a g arr. (a, g, arr) \<in> set (rb_items ps) \<Longrightarrow> arr_inv arr \<and> sa_elt_size arr = SUBS_RIC_SZ"
    using ps by (auto simp: listeners_ok_def)
  obtain it where it: "search ps f eq_ran_func_id = Inr it" "case rf_map ps f of None \<Rightarrow> it = assoc_rb_tree_end ps
     | Some v \<Rightarrow> it \<noteq> assoc_rb_tree_end ps \<and> assoc_rb_tree_value ps it = Inr v \<and>
         (\<exists>xs ys. rb_items ps = xs @ (it, f, v) # ys)"
    using search_ran_func [OF inv, of f] by blast
  show ?thesis
  proof (cases "rf_map ps f")
    case None
    obtain arr where arr: "seq_arr_push_back (seq_arr_init SUBS_RIC_SZ) s SUBS_RIC_SZ = Inr arr" "arr_inv arr"
      "sa_elt_size arr = SUBS_RIC_SZ"
      using seq_arr_push_back_ok [of "seq_arr_init SUBS_RIC_SZ" SUBS_RIC_SZ, where x = s] seq_arr_init_inv [of SUBS_RIC_SZ]
      by (auto simp: SUBS_RIC_SZ_def seq_arr_init_def)
    obtain ps' where ps': "assoc_rb_tree_insert ps f 2 arr = Inr ps'" "rf_inv ps'" "t_key_sz ps' = 2"
      "rb_items ps' = sorted_insert (\<lambda>f. [uint f]) (t_brk ps, f, arr) (rb_items ps)"
      using comparator.rb_insert_ok [OF ran_func.comparator_axioms inv, where key = f and key_sz = 2 and val = arr] sz by auto
    from it None arr ps' vals show ?thesis
      by (intro exI [of _ ps'])
        (auto simp: register_listeners_for_ran_func_id_def listeners_ok_def set_sorted_insert)
  next
    case (Some arr)
    then have mem: "(it, f, arr) \<in> set (rb_items ps)" using it(2) by auto
    obtain arr' where arr: "seq_arr_push_back arr s SUBS_RIC_SZ = Inr arr'" "arr_inv arr'" "sa_elt_size arr' = SUBS_RIC_SZ"
      using seq_arr_push_back_ok [of arr SUBS_RIC_SZ, where x = s] vals [OF mem] by auto
    obtain ps' where ps': "wr it (\<lambda>n. n\<lparr>n_value := Some arr'\<rparr>) ps = Inr ps'" "rf_inv ps'"
      "rb_items ps' = map (put it arr') (rb_items ps)" "t_key_sz ps' = t_key_sz ps"
      using wr_value_ok [OF inv mem] by blast
    have "funcs ps' = funcs ps" by (simp add: ps'(3) image_image)
    moreover have "f \<in> funcs ps" using mem by force
    moreover have "listeners_ok ps'" using ps'(2-4) sz vals arr by (auto simp: listeners_ok_def split: if_splits)
    ultimately show ?thesis using it Some arr(1) ps'(1)
      by (auto simp: register_listeners_for_ran_func_id_def)
  qed
qed

lemma load_listeners_ok:
  assumes T: "rf_inv sm_ds" and ps: "listeners_ok ps"
  shows "\<exists>ps'. load_default_pub_sub_ric sm_ds ps = Inr ps' \<and> listeners_ok ps' \<and> funcs ps' = funcs ps \<union> funcs sm_ds"
proof -
  define reg where "reg = (\<lambda>f (_ :: ('a, 'b) sm_ric) ps.
    bind_res (register_listeners_for_ran_func_id ps f \<lparr>subs_name = ''redis listener''\<rparr>) (\<lambda>ps.
      register_listeners_for_ran_func_id ps f \<lparr>subs_name = ''influx listener''\<rparr>))"
  have one: "\<exists>ps'. reg f v ps = Inr ps' \<and> listeners_ok ps' \<and> funcs ps' = insert f (funcs ps)"
    if ps: "listeners_ok ps" for f v ps
  proof -
    obtain ps1 where ps1: "register_listeners_for_ran_func_id ps f \<lparr>subs_name = ''redis listener''\<rparr> = Inr ps1"
      "listeners_ok ps1" "funcs ps1 = insert f (funcs ps)"
      using register_listener_ok [OF ps] by blast
    with register_listener_ok [OF ps1(2), of f "\<lparr>subs_name = ''influx listener''\<rparr>"] show ?thesis by (auto simp: reg_def)
  qed
  have "\<exists>ps'. fold_res (\<lambda>(a, k, v). reg k v) es ps = Inr ps' \<and> listeners_ok ps' \<and> funcs ps' = funcs ps \<union> it_key ` set es"
    if "listeners_ok ps" for es ps
    using that
  proof (induction es arbitrary: ps)
    case (Cons e es)
    obtain a f v where e: "e = (a, f, v)" by (cases e)
    obtain ps1 where ps1: "reg f v ps = Inr ps1" "listeners_ok ps1" "funcs ps1 = insert f (funcs ps)"
      using one [OF Cons.prems] by blast
    with Cons.IH [OF ps1(2)] show ?case by (auto simp: e)
  qed simp
  from this [OF ps, of "rb_items sm_ds"] show ?thesis
    by (simp add: load_default_pub_sub_ric_def rb_for_all_ok [OF T] flip: reg_def)
qed

section \<open>The start\<close>

lemma init_near_ric_ok:
  assumes fd: "0 < fd" and T: "rf_inv sm_ds"
  shows "\<exists>ric. init_near_ric fd ap sm_ds = Inr ric \<and> near_ric_inv ric \<and> pend ric = {} \<and> nr_ap ric = ap \<and>
    nr_sm_ds ric = sm_ds \<and> listeners_ok (nr_pub_sub ric) \<and> funcs (nr_pub_sub ric) = funcs sm_ds \<and>
    pairs_of (nr_e2_nodes ric) = {} \<and> arr_list (nr_conn_e2_nodes ric) = [] \<and> sa_cap (nr_conn_e2_nodes ric) = 8 \<and>
    nr_req_id ric = 1021 \<and> nr_sent ric = [] \<and> io_fds (nr_io ric) = [fd]"
proof -
  obtain m where m: "init_map_e2_node_sad = Inr m" "nodes_inv m" "pairs_of m = {}"
    using init_map_e2_node_sad_ok by blast
  obtain p where p: "init_pending_events = Inr p" "pends_inv p" "pairs_of p = {}" using init_pending_events_ok by blast
  obtain ps0 :: "(u16, subs_ric seq_arr) rb_tree" where ps0: "init_pub_sub_ds_ric = Inr ps0" "rf_inv ps0" "rb_items ps0 = []"
    "t_key_sz ps0 = 2"
    using rb_init_ok [of 2 cmp_ran_func_id "\<lambda>_. True" "\<lambda>f. [uint f]"] by (auto simp: init_pub_sub_ds_ric_def)
  then have "listeners_ok ps0" by (simp add: listeners_ok_def)
  then obtain ps where ps: "load_default_pub_sub_ric sm_ds ps0 = Inr ps" "listeners_ok ps" "funcs ps = funcs sm_ds"
    using load_listeners_ok [OF T] ps0(3) by fastforce
  have io: "add_fd_asio_ric init_asio_ric fd = Inr \<lparr>io_fds = [fd], io_timers = Map.empty\<rparr>"
    using fd by (simp add: add_fd_asio_ric_def init_asio_ric_def)
  have cap: "sa_cap init_e2_nodes_ric = 8" by (simp add: init_e2_nodes_ric_def seq_arr_init_def MIN_SIZE_def)
  show ?thesis
    using m p ps fd init_e2_nodes_ok cap by (simp add: init_near_ric_def io ps0(1) m(1) p(1) ps(1) near_ric_inv_def pend_def)
qed

lemma init_e42_iapp_ok:
  "\<exists>iapp. init_e42_iapp fd ap = Inr iapp \<and> xapps_inv (ia_xapps iapp) \<and> reqs_inv (ia_map_ric_id iapp) \<and>
     reg_inv (ia_e2_nodes iapp) \<and> rb_items (ia_e2_nodes iapp) = [] \<and> pairs_of (ia_xapps iapp) = {} \<and>
     pairs_of (ia_map_ric_id iapp) = {} \<and> ia_xapp_id iapp = 7 \<and> ia_sent iapp = [] \<and> ia_ap iapp = ap"
proof -
  obtain m where m: "init_map_xapps_sad = Inr m" "xapps_inv m" "pairs_of m = {}" using init_map_xapps_sad_ok by blast
  obtain q where q: "init_map_ric_id = Inr q" "reqs_inv q" "pairs_of q = {}" using init_map_ric_id_ok by blast
  obtain n where n: "init_reg_e2_node = Inr n" "reg_inv n" "rb_items n = []" using init_reg_e2_node_ok by blast
  have "init_e42_iapp fd ap =
      Inr \<lparr>ia_fd = fd, ia_xapps = m, ia_sent = [], ia_ap = ap, ia_xapp_id = 7, ia_e2_nodes = n, ia_map_ric_id = q\<rparr>"
    by (simp add: init_e42_iapp_def m(1) q(1) n(1))
  with m q n show ?thesis by simp
qed

end
