(* ===== verification/Node_Lifecycle.thy ===== *)
theory Node_Lifecycle
  imports Ric_Boot
begin

text \<open>
  The life of an E2 node in the RIC: its setup (\<open>e2ap_handle_setup_request_ric\<close>), after which it is
  known in three places (the endpoints of the RIC, the array of connected nodes of the RIC and the
  registry of the iApp), and the end of its connection (\<open>notification_handle_ric\<close>), which removes it
  from all three. Every xApp is told of both. The array of connected nodes is bounded to 31 nodes:
  from there on \<open>seq_arr_erase\<close> may shrink it with the defect that \<open>seq_arr_erase_overruns\<close> describes.
\<close>

declare bind_res_eq_Inr [simp del]

section \<open>The registry as a map\<close>

lemma dom_reg_map: "dom (reg_map n) = set (map (\<lambda>e. node_id_rank (fst e)) (entries n))"
  using reg_map_None [of n] by (auto simp: dom_def ranks_entries)

lemma reg_map_entry:
  assumes "reg_inv n"
  shows "reg_map n r = Some p \<longleftrightarrow> (\<exists>k. (k, p) \<in> set (entries n) \<and> node_id_rank k = r)"
proof
  assume r: "reg_map n r = Some p"
  then have "r \<in> dom (reg_map n)" by blast
  then obtain k q where k: "(k, q) \<in> set (entries n)" "node_id_rank k = r" unfolding dom_reg_map by auto
  with entries_iff [OF assms k(1)] r show "\<exists>k. (k, p) \<in> set (entries n) \<and> node_id_rank k = r" by auto
next
  show "\<exists>k. (k, p) \<in> set (entries n) \<and> node_id_rank k = r \<Longrightarrow> reg_map n r = Some p"
    using entries_iff [OF assms] by blast
qed

lemma sz_card: "reg_inv n \<Longrightarrow> sz_reg_e2_node n = card (dom (reg_map n))"
  using distinct_card [of "ranks node_id_rank (rb_items n)"]
  by (simp add: dom_reg_map length_entries ranks_entries reg_inv_def)

lemma reg_small_iff:
  assumes "reg_inv n"
  shows "reg_small n \<longleftrightarrow> card (dom (reg_map n)) < 256 \<and> (\<forall>r rfs ccas. reg_map n r = Some (rfs, ccas) \<longrightarrow> length ccas < 256)"
  unfolding reg_small_def sz_card [OF assms] using reg_map_entry [OF assms] by fastforce

section \<open>The xApps and what they are told\<close>

text \<open>The iApp hands out its numbers in order from 7 and never takes one back.\<close>

definition xapps_numbered :: "e42_iapp \<Rightarrow> bool" where
  "xapps_numbered iapp \<longleftrightarrow> 7 \<le> ia_xapp_id iapp \<and> ia_xapp_id iapp \<le> 65536 \<and>
     fst ` pairs_of (ia_xapps iapp) = word_of_nat ` {7..<unat (ia_xapp_id iapp)}"

definition xapp_ids :: "e42_iapp \<Rightarrow> nat list" where
  "xapp_ids iapp = [7..<unat (ia_xapp_id iapp)]"

definition endpoint_of :: "e42_iapp \<Rightarrow> nat \<Rightarrow> sctp_info" where
  "endpoint_of iapp i = projr (find_map_xapps_sad (ia_xapps iapp) (word_of_nat i))"

definition update_for :: "e2_node_connected list \<Rightarrow> nat \<Rightarrow> e2ap_msg" where
  "update_for nodes i = E42_UPDATE_E2_NODE \<lparr>xu_xapp_id = word_of_nat i, xu_nodes = nodes\<rparr>"

definition tell_all :: "e42_iapp \<Rightarrow> e42_iapp" where
  "tell_all iapp = iapp\<lparr>ia_sent := ia_sent iapp @
     map (\<lambda>i. (endpoint_of iapp i, ap_enc (ia_ap iapp) (update_for (map connected_node (entries (ia_e2_nodes iapp))) i)))
       (xapp_ids iapp)\<rparr>"

lemma tell_all_simps [simp]:
  "ia_xapps (tell_all iapp) = ia_xapps iapp" "ia_ap (tell_all iapp) = ia_ap iapp"
  "ia_xapp_id (tell_all iapp) = ia_xapp_id iapp" "ia_e2_nodes (tell_all iapp) = ia_e2_nodes iapp"
  "ia_map_ric_id (tell_all iapp) = ia_map_ric_id iapp"
  by (simp_all add: tell_all_def)

lemma inj_small: "inj_on (word_of_nat :: nat \<Rightarrow> u16) {7..<unat (n :: u32)}" if "n \<le> 65536"
proof (rule inj_onI)
  have n: "unat n \<le> 65536" using that by (simp add: word_le_nat_alt)
  fix x y assume "x \<in> {7..<unat n}" "y \<in> {7..<unat n}" "(word_of_nat x :: u16) = word_of_nat y"
  then have "x < 65536" "y < 65536" "unat (word_of_nat x :: u16) = unat (word_of_nat y :: u16)" using n by auto
  then show "x = y" by (simp add: unat_of_nat take_bit_eq_mod)
qed

lemma number_of_xapps:
  assumes m: "xapps_inv (ia_xapps iapp)" and x: "xapps_numbered iapp"
  shows "get_num_connected_xapps (ia_xapps iapp) = unat (ia_xapp_id iapp) - 7"
proof -
  let ?T = "bm_left (ia_xapps iapp)"
  have d: "distinct (map it_key (rb_items ?T))"
    using m distinct_map [of "\<lambda>x. [uint x]" "map it_key (rb_items ?T)"]
    by (auto simp: xapps_inv_def bm_inv_def ranks_def comp_def distinct_map inj_on_def)
  have "fst ` pairs_of (ia_xapps iapp) = set (map it_key (rb_items ?T))" by (force simp: pairs_of_def kvs_def)
  then have "card (fst ` pairs_of (ia_xapps iapp)) = length (rb_items ?T)" using distinct_card [OF d] by simp
  moreover have "card (fst ` pairs_of (ia_xapps iapp)) = unat (ia_xapp_id iapp) - 7"
    using x by (simp add: xapps_numbered_def card_image inj_small)
  ultimately show ?thesis using m rb_size_items [of _ _ _ ?T]
    by (auto simp: get_num_connected_xapps_def xapps_inv_def bm_inv_def)
qed

lemma endpoint_found:
  assumes m: "xapps_inv (ia_xapps iapp)" and x: "xapps_numbered iapp" and i: "i \<in> set (xapp_ids iapp)"
  shows "find_map_xapps_sad (ia_xapps iapp) (word_of_nat i) = Inr (endpoint_of iapp i)"
    "(word_of_nat i, endpoint_of iapp i) \<in> pairs_of (ia_xapps iapp)"
proof -
  have "word_of_nat i \<in> fst ` pairs_of (ia_xapps iapp)" using x i by (simp add: xapps_numbered_def xapp_ids_def)
  then obtain s where s: "(word_of_nat i, s) \<in> pairs_of (ia_xapps iapp)" by auto
  from find_map_xapps_sad_ok(1) [OF m s]
  show "find_map_xapps_sad (ia_xapps iapp) (word_of_nat i) = Inr (endpoint_of iapp i)"
    "(word_of_nat i, endpoint_of iapp i) \<in> pairs_of (ia_xapps iapp)" using s by (simp_all add: endpoint_of_def)
qed

text \<open>The loop of \<open>generate_update_e2_node\<close>.\<close>

lemma updates_loop:
  assumes "\<forall>i \<in> set is. find_map_xapps_sad xs (word_of_nat i) = Inr (e i)" "\<forall>m. ap_enc ap m \<noteq> []"
    "ia_xapps iapp = xs" "ia_ap iapp = ap"
  shows "fold_res (\<lambda>i iapp. bind_res (find_map_xapps_sad (ia_xapps iapp) (word_of_nat i)) (\<lambda>info.
      bind_res (e2ap_msg_enc_iapp (ia_ap iapp) (update_for nodes i)) (\<lambda>ba. e2ap_send_sctp_msg_iapp iapp info ba))) is iapp =
    Inr (iapp\<lparr>ia_sent := ia_sent iapp @ map (\<lambda>i. (e i, ap_enc ap (update_for nodes i))) is\<rparr>)"
  using assms(1,3,4)
proof (induction "is" arbitrary: iapp)
  case (Cons i "is")
  then show ?case using assms(2) Cons.IH [of "iapp\<lparr>ia_sent := ia_sent iapp @ [(e i, ap_enc ap (update_for nodes i))]\<rparr>"]
    by (simp add: e2ap_msg_enc_iapp_def e2ap_send_sctp_msg_iapp_def update_for_def)
qed simp

lemma tell_all_ok:
  assumes m: "xapps_inv (ia_xapps iapp)" and x: "xapps_numbered iapp"
    and n: "reg_inv (ia_e2_nodes iapp)" "reg_small (ia_e2_nodes iapp)" and enc: "\<forall>m. ap_enc (ia_ap iapp) m \<noteq> []"
  shows "e2ap_handle_ric_e2_setup_response_iapp iapp = Inr (NONE_E2_MSG_TYPE, tell_all iapp)"
proof -
  obtain arr where arr: "generate_e2_node_arr (ia_e2_nodes iapp) = Inr arr"
    "read_nodes arr = Inr (map connected_node (entries (ia_e2_nodes iapp)))"
    using node_arr_ok [OF n] by blast
  have num: "get_num_connected_xapps (ia_xapps iapp) = unat (ia_xapp_id iapp) - 7" by (rule number_of_xapps [OF m x])
  have le: "7 \<le> unat (ia_xapp_id iapp)" using x by (simp add: xapps_numbered_def word_le_nat_alt)
  show ?thesis
  proof (cases "unat (ia_xapp_id iapp) = 7")
    case True
    then show ?thesis by (simp add: e2ap_handle_ric_e2_setup_response_iapp_def num tell_all_def xapp_ids_def)
  next
    case False
    then have ids: "[7..<7 + (unat (ia_xapp_id iapp) - 7)] = xapp_ids iapp" using le by (simp add: xapp_ids_def)
    have "generate_update_e2_node iapp (unat (ia_xapp_id iapp) - 7) = Inr (tell_all iapp)"
      unfolding generate_update_e2_node_def arr(1) bind_res_simps arr(2) ids update_for_def [symmetric] Let_def tell_all_def
      using False le updates_loop [of "xapp_ids iapp" "ia_xapps iapp" "endpoint_of iapp", OF _ enc refl refl]
        endpoint_found(1) [OF m x] by simp
    then show ?thesis using False le by (simp add: e2ap_handle_ric_e2_setup_response_iapp_def num)
  qed
qed

section \<open>Setup\<close>

text \<open>An identifier that the line about the setup can be printed for.\<close>

definition printable :: "global_e2_node_id \<Rightarrow> bool" where
  "printable i \<longleftrightarrow> E2AP_NODE_IS_MONOLITHIC (gn_type i) \<or> gn_cu_du_id i \<noteq> None"

lemma printable_valid: "printable i \<Longrightarrow> valid_node_id i"
  by (cases "gn_type i")
    (auto simp: printable_def valid_node_id_def is_split_def E2AP_NODE_IS_MONOLITHIC_def E2AP_NODE_IS_CU_def
      E2AP_NODE_IS_CUUP_def E2AP_NODE_IS_DU_def)

lemma setup_line_ok: "printable (es_id req) \<Longrightarrow> \<exists>l. setup_line req = Inr l"
  by (auto simp: printable_def setup_line_def Let_def)

definition accepted_of :: "('c, 'i) near_ric \<Rightarrow> e2_setup_request \<Rightarrow> u16 list" where
  "accepted_of ric req = map (\<lambda>rf. if rf_map (nr_sm_ds ric) (rf_id rf) = None then 0 else rf_id rf) (es_ran_func req)"

lemma key_ran_func:
  assumes "rf_inv T" "rb_items T = xs @ (it, k, v) # ys"
  shows "assoc_rb_tree_key T it = Inr k"
  using sms.key_law [OF assms(1), of it k v] assms(2) by simp

lemma accept_ran_func_ok:
  assumes "rf_inv (nr_sm_ds ric)"
  shows "accept_ran_func ric req = Inr (accepted_of ric req)"
proof -
  define step where "step = (\<lambda>(rf :: ran_function) acc. bind_res (search (nr_sm_ds ric) (rf_id rf) eq_ran_func_id) (\<lambda>it.
      if it \<noteq> assoc_rb_tree_end (nr_sm_ds ric)
      then bind_res (assoc_rb_tree_key (nr_sm_ds ric) it) (\<lambda>k. c_assert (rf_id rf = k) (Inr (acc @ [rf_id rf])))
      else Inr (acc @ [0])))"
  have st: "step rf acc = Inr (acc @ [if rf_map (nr_sm_ds ric) (rf_id rf) = None then 0 else rf_id rf])" for rf acc
    using search_ran_func [OF assms, of "rf_id rf"] key_ran_func [OF assms]
    by (cases "rf_map (nr_sm_ds ric) (rf_id rf)") (auto simp: step_def c_assert_def)
  have "fold_res step rfs acc =
      Inr (acc @ map (\<lambda>rf. if rf_map (nr_sm_ds ric) (rf_id rf) = None then 0 else rf_id rf) rfs)" for rfs acc
    by (induction rfs arbitrary: acc) (simp_all add: st)
  from this [of "es_ran_func req" "[]"] show ?thesis
    unfolding accept_ran_func_def Let_def step_def accepted_of_def by simp
qed

definition setup_answer :: "('c, 'i) near_ric \<Rightarrow> e2_setup_request \<Rightarrow> e2_setup_response" where
  "setup_answer ric req =
     \<lparr>et_trans_id = es_trans_id req, et_id = \<lparr>gr_plmn = gn_plmn (es_id req), gr_near_ric_id = 25\<rparr>,
      et_accepted = accepted_of ric req, et_rejected = [],
      et_ccaa = map (\<lambda>c. \<lparr>cx_type = ca_type c, cx_id = ca_id c,
        cx_ack = \<lparr>ak_outcome = SUCCESS_E2AP_NODE_COMP_CONF_ACK, ak_cause = None\<rparr>\<rparr>) (es_comp_conf req)\<rparr>"

text \<open>What a node has to announce.\<close>

definition good_setup :: "e2_setup_request \<Rightarrow> bool" where
  "good_setup req \<longleftrightarrow> printable (es_id req) \<and> es_ran_func req \<noteq> [] \<and> es_comp_conf req \<noteq> [] \<and>
     length (es_comp_conf req) < 256 \<and> (\<forall>c \<in> set (es_comp_conf req). comp_id_ok (ca_id c))"

lemma setup_response_ok:
  assumes "rf_inv (nr_sm_ds ric)" "good_setup req"
  shows "generate_setup_response_v2 ric req = Inr (setup_answer ric req)"
proof -
  have "fold_res (\<lambda>c add_ack. bind_res (cp_e2ap_node_comp_id (ca_id c)) (\<lambda>i.
        Inr (add_ack @ [\<lparr>cx_type = ca_type c, cx_id = i,
          cx_ack = \<lparr>ak_outcome = SUCCESS_E2AP_NODE_COMP_CONF_ACK, ak_cause = None\<rparr>\<rparr>]))) cs acc =
      Inr (acc @ map (\<lambda>c. \<lparr>cx_type = ca_type c, cx_id = ca_id c,
        cx_ack = \<lparr>ak_outcome = SUCCESS_E2AP_NODE_COMP_CONF_ACK, ak_cause = None\<rparr>\<rparr>) cs)"
    if "\<forall>c \<in> set cs. comp_id_ok (ca_id c)" for cs acc
    using that by (induction cs arbitrary: acc) (simp_all add: cp_comp_id_ok)
  from this [of "es_comp_conf req" "[]"] show ?thesis using assms(2)
    by (simp add: generate_setup_response_v2_def accept_ran_func_ok [OF assms(1)] good_setup_def setup_answer_def)
qed

lemma setup_messages_freed:
  assumes "good_setup req"
  shows "e2ap_msg_free (E2_SETUP_REQUEST req) = Inr ()" "e2ap_msg_free (E2_SETUP_RESPONSE (setup_answer ric req)) = Inr ()"
  using assms free_setup_request_ok [of req] free_setup_response_ok [of "setup_answer ric req"]
  by (auto simp: good_setup_def setup_answer_def)

section \<open>The three places where a node is known\<close>

abbreviation conn :: "('c, 'i) ric_system \<Rightarrow> global_e2_node_id list" where
  "conn sys \<equiv> map n2_id (arr_list (nr_conn_e2_nodes (sy_ric sys)))"

abbreviation registry :: "('c, 'i) ric_system \<Rightarrow>
  int list \<Rightarrow> (ran_function list \<times> e2ap_node_component_config_add list) option" where
  "registry sys \<equiv> reg_map (ia_e2_nodes (sy_iapp sys))"

definition views_agree :: "('c, 'i) ric_system \<Rightarrow> bool" where
  "views_agree sys \<longleftrightarrow> distinct (map node_id_rank (conn sys)) \<and> (\<forall>i \<in> set (conn sys). valid_node_id i) \<and>
     node_id_rank ` fst ` pairs_of (nr_e2_nodes (sy_ric sys)) = node_id_rank ` set (conn sys) \<and>
     dom (registry sys) = node_id_rank ` set (conn sys) \<and> sa_cap (nr_conn_e2_nodes (sy_ric sys)) \<le> 32"

definition system_ok :: "('c, 'i) ric_system \<Rightarrow> bool" where
  "system_ok sys \<longleftrightarrow> sys_inv sys \<and> views_agree sys \<and> xapps_numbered (sy_iapp sys) \<and> rf_inv (nr_sm_ds (sy_ric sys)) \<and>
     (\<forall>m. ap_enc (nr_ap (sy_ric sys)) m \<noteq> []) \<and> (\<forall>m. ap_enc (ia_ap (sy_iapp sys)) m \<noteq> [])"

lemma system_okD:
  assumes "system_ok sys"
  shows "sys_inv sys" "views_agree sys" "xapps_numbered (sy_iapp sys)" "rf_inv (nr_sm_ds (sy_ric sys))"
    "\<forall>m. ap_enc (nr_ap (sy_ric sys)) m \<noteq> []" "\<forall>m. ap_enc (ia_ap (sy_iapp sys)) m \<noteq> []"
    "near_ric_inv (sy_ric sys)" "xapps_inv (ia_xapps (sy_iapp sys))" "reqs_inv (ia_map_ric_id (sy_iapp sys))"
    "reg_inv (ia_e2_nodes (sy_iapp sys))" "reg_small (ia_e2_nodes (sy_iapp sys))" "nodes_inv (nr_e2_nodes (sy_ric sys))"
    "arr_inv (nr_conn_e2_nodes (sy_ric sys))" "sa_elt_size (nr_conn_e2_nodes (sy_ric sys)) = E2_NODE_SZ"
  using assms by (simp_all add: system_ok_def sys_inv_def near_ric_inv_def)

lemma notify_setup_ok:
  assumes "xapps_inv (ia_xapps (sy_iapp sys))" "xapps_numbered (sy_iapp sys)" "reg_inv (ia_e2_nodes (sy_iapp sys))"
    "reg_small (ia_e2_nodes (sy_iapp sys))" "\<forall>m. ap_enc (ia_ap (sy_iapp sys)) m \<noteq> []"
  shows "notify_msg_iapp sys new_fd (E2_SETUP_RESPONSE r) = Inr (sys\<lparr>sy_iapp := tell_all (sy_iapp sys)\<rparr>)"
  by (simp add: notify_msg_iapp_def notifies_def e2ap_msg_handle_iapp_def on_iapp_def tell_all_ok [OF assms])


text \<open>Every xApp is sent the nodes that the iApp knows afterwards.\<close>

definition all_told :: "('c, 'i) ric_system \<Rightarrow> ('c, 'i) ric_system \<Rightarrow> bool" where
  "all_told sys sys' \<longleftrightarrow> ia_sent (sy_iapp sys') = ia_sent (sy_iapp sys) @
     map (\<lambda>i. (endpoint_of (sy_iapp sys) i,
         ap_enc (ia_ap (sy_iapp sys)) (update_for (map connected_node (entries (ia_e2_nodes (sy_iapp sys')))) i)))
       (xapp_ids (sy_iapp sys))"

text \<open>What a setup or the end of a connection leaves alone.\<close>

definition same_requests :: "('c, 'i) ric_system \<Rightarrow> ('c, 'i) ric_system \<Rightarrow> bool" where
  "same_requests sys sys' \<longleftrightarrow> ia_map_ric_id (sy_iapp sys') = ia_map_ric_id (sy_iapp sys) \<and>
     ia_xapps (sy_iapp sys') = ia_xapps (sy_iapp sys) \<and> ia_xapp_id (sy_iapp sys') = ia_xapp_id (sy_iapp sys) \<and>
     ia_ap (sy_iapp sys') = ia_ap (sy_iapp sys) \<and> nr_ap (sy_ric sys') = nr_ap (sy_ric sys) \<and>
     nr_pending (sy_ric sys') = nr_pending (sy_ric sys) \<and> nr_io (sy_ric sys') = nr_io (sy_ric sys) \<and>
     nr_req_id (sy_ric sys') = nr_req_id (sy_ric sys) \<and> nr_sm_ds (sy_ric sys') = nr_sm_ds (sy_ric sys) \<and>
     nr_pub_sub (sy_ric sys') = nr_pub_sub (sy_ric sys)"

lemma same_requests_trans: "same_requests a b \<Longrightarrow> same_requests b c \<Longrightarrow> same_requests a c"
  by (simp add: same_requests_def)

lemma init_e2_node_id [simp]: "n2_id (init_e2_node i acc) = i"
  by (simp add: init_e2_node_def)

lemma pend_nodes [simp]:
  "pend (ric\<lparr>nr_e2_nodes := m\<rparr>) = pend ric" "pend (ric\<lparr>nr_conn_e2_nodes := arr\<rparr>) = pend ric"
  by (simp_all add: pend_def)

lemma small_conn:
  assumes "system_ok sys"
  shows "card (dom (registry sys)) = length (conn sys)"
  using system_okD(2) [OF assms] distinct_card [of "map node_id_rank (conn sys)"]
  by (simp add: views_agree_def image_image)

lemma setup_ok:
  fixes sys :: "('c, 'i) ric_system"
  assumes ok: "system_ok sys" and msg: "ap_dec (nr_ap (sy_ric sys)) ba = E2_SETUP_REQUEST req" and good: "good_setup req"
    and new: "node_id_rank (es_id req) \<notin> node_id_rank ` set (conn sys)"
      "si_addr info \<notin> si_addr ` snd ` pairs_of (nr_e2_nodes (sy_ric sys))"
    and room: "length (conn sys) < 31"
  shows "\<exists>sys'. sctp_msg_arrived_event sys new_fd info ba = Inr sys' \<and> system_ok sys' \<and>
    conn sys' = conn sys @ [es_id req] \<and>
    pairs_of (nr_e2_nodes (sy_ric sys')) = insert (es_id req, info) (pairs_of (nr_e2_nodes (sy_ric sys))) \<and>
    registry sys' = (registry sys)(node_id_rank (es_id req) \<mapsto> (es_ran_func req, es_comp_conf req)) \<and>
    nr_sent (sy_ric sys') = nr_sent (sy_ric sys) @
      [(info, ap_enc (nr_ap (sy_ric sys)) (E2_SETUP_RESPONSE (setup_answer (sy_ric sys) req)))] \<and>
    all_told sys sys' \<and> same_requests sys sys'"
proof -
  let ?ric = "sy_ric sys" and ?iapp = "sy_iapp sys" and ?i = "es_id req" and ?resp = "setup_answer (sy_ric sys) req"
  note d = system_okD [OF ok]
  have v: "valid_node_id ?i" and p: "printable ?i" using good printable_valid by (auto simp: good_setup_def)
  obtain l where l: "setup_line req = Inr l" using setup_line_ok [OF p] by blast
  have unknown: "\<forall>(j, t) \<in> pairs_of (nr_e2_nodes ?ric). \<not> same_node j ?i \<and> si_addr t \<noteq> si_addr info"
  proof clarify
    fix j t assume "(j, t) \<in> pairs_of (nr_e2_nodes ?ric)"
    then have "node_id_rank j \<in> node_id_rank ` set (conn sys)" "si_addr t \<in> si_addr ` snd ` pairs_of (nr_e2_nodes ?ric)"
      using d(2) unfolding views_agree_def by (metis fst_conv imageI, metis snd_conv imageI)
    then show "\<not> same_node j ?i \<and> si_addr t \<noteq> si_addr info" using new by metis
  qed
  obtain m where m: "add_map_e2_node_sad (nr_e2_nodes ?ric) ?i info = Inr m" "nodes_inv m"
    "pairs_of m = insert (?i, info) (pairs_of (nr_e2_nodes ?ric))"
    using add_map_e2_node_sad_ok [OF d(12) v, of info] unknown by blast
  have "registry sys (node_id_rank ?i) = None" using d(2) new(1) unfolding views_agree_def by (metis domIff)
  then obtain n where n: "add_reg_e2_node (ia_e2_nodes ?iapp) ?i (es_ran_func req) (es_comp_conf req) = Inr n" "reg_inv n"
    "reg_map n = (registry sys)(node_id_rank ?i \<mapsto> (es_ran_func req, es_comp_conf req))"
    "sz_reg_e2_node n = sz_reg_e2_node (ia_e2_nodes ?iapp) + 1"
    using add_reg_e2_node_ok [OF d(10) v, of "es_ran_func req" "es_comp_conf req"] good by (auto simp: good_setup_def)
  have "sz_reg_e2_node (ia_e2_nodes ?iapp) < 31" using small_conn [OF ok] room sz_card [OF d(10)] by simp
  then have sm: "reg_small n"
    using n(3,4) d(11) good sz_card [OF n(2)]
    by (auto simp: reg_small_iff [OF n(2)] reg_small_iff [OF d(10)] good_setup_def split: if_splits)
  obtain arr where arr: "seq_arr_push_back (nr_conn_e2_nodes ?ric) (init_e2_node ?i (et_accepted ?resp)) E2_NODE_SZ = Inr arr"
    "arr_inv arr" "arr_list arr = arr_list (nr_conn_e2_nodes ?ric) @ [init_e2_node ?i (et_accepted ?resp)]"
    "sa_elt_size arr = E2_NODE_SZ"
    using seq_arr_push_back_ok [OF d(13), of E2_NODE_SZ] d(14) by metis
  have cap: "sa_cap arr \<le> 32" using push_back_cap [OF d(13) arr(1)] d(2) room length_arr_list [OF d(13)]
    by (simp add: views_agree_def)
  define iapp' where "iapp' = ?iapp\<lparr>ia_e2_nodes := n\<rparr>"
  define ric' where "ric' = ?ric\<lparr>nr_e2_nodes := m, nr_conn_e2_nodes := arr,
    nr_sent := nr_sent ?ric @ [(info, ap_enc (nr_ap ?ric) (E2_SETUP_RESPONSE ?resp))]\<rparr>"
  define sys' where "sys' = sys\<lparr>sy_ric := ric', sy_iapp := tell_all iapp'\<rparr>"
  have resp: "generate_setup_response_v2 (?ric\<lparr>nr_e2_nodes := m\<rparr>) req = Inr ?resp"
    using setup_response_ok [of "?ric\<lparr>nr_e2_nodes := m\<rparr>" req] d(4) good
    by (simp add: setup_answer_def accepted_of_def)
  have x: "xapps_numbered iapp'" using d(3) by (simp add: iapp'_def xapps_numbered_def)
  have notified: "notify_msg_iapp (s\<lparr>sy_iapp := iapp'\<rparr>) new_fd (E2_SETUP_RESPONSE ?resp) = Inr (s\<lparr>sy_iapp := tell_all iapp'\<rparr>)"
    for s :: "('c, 'i) ric_system"
    using notify_setup_ok [of "s\<lparr>sy_iapp := iapp'\<rparr>" new_fd ?resp] x d(6,8) n(2) sm by (simp add: iapp'_def)
  have run: "sctp_msg_arrived_event sys new_fd info ba = Inr sys'"
    using d(5) good notified [of "sys\<lparr>sy_ric := ?ric\<lparr>nr_e2_nodes := m, nr_conn_e2_nodes := arr\<rparr>\<rparr>"]
    by (simp add: sctp_msg_arrived_event_def msg e2ap_reg_sock_addr_ric_def m(1) e2ap_msg_handle_ric_def
        e2ap_handle_setup_request_ric_def l add_e2_node_iapp_def good_setup_def n(1) resp arr(1) iapp'_def [symmetric]
        e2ap_send_sctp_msg_ric_def setup_messages_freed [OF good] sys'_def ric'_def)
  have c: "conn sys' = conn sys @ [?i]" by (simp add: sys'_def ric'_def arr(3))
  have inv: "near_ric_inv ric'" using d(7) m(2) arr(2,4) by (simp add: near_ric_inv_def ric'_def)
  have "views_agree sys'" unfolding views_agree_def c
    using d(2) new(1) v cap by (simp add: views_agree_def sys'_def ric'_def iapp'_def m(3) n(3) image_image)
  then have "system_ok sys'"
    using d x n(2) sm inv
    by (simp add: system_ok_def sys_inv_def sys'_def iapp'_def xapps_numbered_def) (simp add: ric'_def)
  with run c show ?thesis
    by (intro exI [of _ sys'])
      (simp add: sys'_def ric'_def iapp'_def m(3) n(3) all_told_def same_requests_def tell_all_def endpoint_of_def xapp_ids_def)
qed


section \<open>The end of a connection\<close>

lemma remove_nth:
  assumes "distinct (map f xs)" "p < length xs"
  shows "distinct (map f (take p xs @ drop (Suc p) xs))"
    "set (map f (take p xs @ drop (Suc p) xs)) = set (map f xs) - {f (xs ! p)}"
proof -
  have sp: "xs = take p xs @ xs ! p # drop (Suc p) xs" using assms(2) by (simp add: id_take_nth_drop)
  have "distinct (map f (take p xs @ xs ! p # drop (Suc p) xs))" using assms(1) sp by simp
  then show "distinct (map f (take p xs @ drop (Suc p) xs))"
    "set (map f (take p xs @ drop (Suc p) xs)) = set (map f xs) - {f (xs ! p)}"
    using arg_cong [OF sp, of "\<lambda>ys. set (map f ys)"] by auto
qed

lemma shutdown_ok:
  fixes sys :: "('c, 'i) ric_system"
  assumes ok: "system_ok sys" and at: "(i, s) \<in> pairs_of (nr_e2_nodes (sy_ric sys))" "si_addr info = si_addr s"
  shows "\<exists>sys' xs j ys. notification_handle_ric sys new_fd info = Inr sys' \<and> system_ok sys' \<and>
    conn sys = xs @ j # ys \<and> same_node j i \<and> conn sys' = xs @ ys \<and>
    pairs_of (nr_e2_nodes (sy_ric sys')) = pairs_of (nr_e2_nodes (sy_ric sys)) - {(i, s)} \<and>
    registry sys' = (registry sys)(node_id_rank i := None) \<and>
    nr_sent (sy_ric sys') = nr_sent (sy_ric sys) \<and> all_told sys sys' \<and> same_requests sys sys'"
proof -
  let ?ric = "sy_ric sys" and ?iapp = "sy_iapp sys"
  let ?arr = "nr_conn_e2_nodes ?ric"
  let ?l = "arr_list ?arr"
  note d = system_okD [OF ok]
  have vi: "valid_node_id i" by (rule nodes_valid [OF d(12) at(1)])
  obtain m where m: "rm_map_sad_e2_node (nr_e2_nodes ?ric) info = Inr (i, m)" "nodes_inv m"
    "pairs_of m = pairs_of (nr_e2_nodes ?ric) - {(i, s)}"
    using rm_map_sad_e2_node_ok [OF d(12) at] by blast
  have i_rank: "node_id_rank i \<in> node_id_rank ` set (conn sys)"
    using at(1) d(2) unfolding views_agree_def by (metis fst_conv imageI)
  define P where "P = (\<lambda>x :: e2_node. same_node (n2_id x) i)"
  define p where "p = length (takeWhile (\<lambda>x. \<not> P x) ?l)"
  have "\<exists>x \<in> set ?l. P x" using i_rank by (auto simp: P_def eq_commute)
  moreover have "length (takeWhile (\<lambda>x. \<not> P x) xs) < length xs" if "\<exists>x \<in> set xs. P x" for xs
    using that by (induction xs) auto
  ultimately have p: "p < length ?l" "P (?l ! p)"
    unfolding p_def using nth_length_takeWhile by blast+
  have len: "length ?l = sa_size ?arr" by (rule length_arr_list [OF d(13)])
  have val: "eq_global_e2_node_id_e2_node i x = Inr (P x)" if "x \<in> set ?l" for x
    using that d(2) vi node_id.eq_law [of "n2_id x" i]
    by (simp add: eq_global_e2_node_id_e2_node_def P_def views_agree_def)
  have find: "find_if_arr ?arr (seq_arr_front ?arr) (seq_arr_end ?arr) i eq_global_e2_node_id_e2_node = Inr p"
    using find_if_arr_ok [OF d(13), of 0 eq_global_e2_node_id_e2_node i P] val
    by (simp add: seq_arr_front_def seq_arr_end_def p_def)
  have cap: "sa_cap ?arr \<le> 32" using d(2) by (simp add: views_agree_def)
  then have "sa_size ?arr * sa_elt_size ?arr < 2 ^ 31" using d(13,14) by (simp add: arr_inv_def E2_NODE_SZ_def)
  then obtain arr where arr: "seq_arr_erase ?arr p (Suc p) = Inr arr" "arr_inv arr" "sa_cap arr = sa_cap ?arr"
    "arr_list arr = take p ?l @ drop (Suc p) ?l" "sa_elt_size arr = E2_NODE_SZ"
    using seq_arr_erase_small [OF d(13) cap, of p "Suc p"] p(1) d(14) by (auto simp: len)
  have "registry sys (node_id_rank i) \<noteq> None" using d(2) i_rank unfolding views_agree_def by (metis domD option.distinct(1))
  then obtain n where n: "rm_reg_e2_node (ia_e2_nodes ?iapp) i = Inr n" "reg_inv n"
    "reg_map n = (registry sys)(node_id_rank i := None)"
    using rm_reg_e2_node_ok [OF d(10) vi] by auto
  have "card (dom (reg_map n)) \<le> card (dom (registry sys))" by (simp add: n(3) card_Diff1_le)
  then have sm: "reg_small n" using n(3) d(11)
    by (auto simp: reg_small_iff [OF n(2)] reg_small_iff [OF d(10)] split: if_splits)
  define iapp' where "iapp' = ?iapp\<lparr>ia_e2_nodes := n\<rparr>"
  define ric' where "ric' = ?ric\<lparr>nr_e2_nodes := m, nr_conn_e2_nodes := arr\<rparr>"
  define sys' where "sys' = sys\<lparr>sy_ric := ric', sy_iapp := tell_all iapp'\<rparr>"
  have x: "xapps_numbered iapp'" using d(3) by (simp add: iapp'_def xapps_numbered_def)
  have "notify_msg_iapp (sys\<lparr>sy_ric := ric', sy_iapp := iapp'\<rparr>) new_fd (E2_SETUP_RESPONSE zero_setup_response) = Inr sys'"
    using notify_setup_ok [of "sys\<lparr>sy_ric := ric', sy_iapp := iapp'\<rparr>"] x d(6,8) n(2) sm by (simp add: iapp'_def sys'_def)
  then have run: "notification_handle_ric sys new_fd info = Inr sys'"
    using p(1) len arr_deref_ok [OF d(13), of p]
    by (simp add: notification_handle_ric_def e2ap_rm_sock_addr_ric_def m(1) find [unfolded seq_arr_end_def] Let_def seq_arr_end_def seq_arr_next_def
        arr(1) rm_e2_node_iapp_def n(1) iapp'_def ric'_def)
  have c: "conn sys = take p (conn sys) @ conn sys ! p # drop (Suc p) (conn sys)"
    using p(1) by (intro id_take_nth_drop) simp
  have c': "conn sys' = take p (conn sys) @ drop (Suc p) (conn sys)"
    by (simp add: sys'_def ric'_def arr(4) take_map drop_map)
  have inv: "near_ric_inv ric'" using d(7) m(2) arr(2,5) by (simp add: near_ric_inv_def ric'_def)
  have j: "same_node (conn sys ! p) i" using p by (simp add: P_def)
  have r: "distinct (map node_id_rank (conn sys'))"
    "node_id_rank ` set (conn sys') = node_id_rank ` set (conn sys) - {node_id_rank i}"
    using remove_nth [of node_id_rank "conn sys" p] d(2) p(1) j unfolding c' views_agree_def by (simp_all add: image_image image_Un)
  have e: "node_id_rank ` fst ` pairs_of m = node_id_rank ` fst ` pairs_of (nr_e2_nodes ?ric) - {node_id_rank i}"
  proof -
    have "(a, b) = (i, s)" if "(a, b) \<in> pairs_of (nr_e2_nodes ?ric)" "same_node a i" for a b
      using nodes_unique(1) [OF d(12) that(1) at(1)] that(2) by simp
    then show ?thesis unfolding m(3) by force
  qed
  have "set (conn sys') \<subseteq> set (conn sys)" unfolding c' using set_take_subset set_drop_subset by (metis Un_least set_append)
  then have "views_agree sys'" using d(2) r e cap arr(3) n(3)
    by (auto simp: views_agree_def sys'_def ric'_def iapp'_def)
  then have "system_ok sys'"
    using d x n(2) sm inv
    by (simp add: system_ok_def sys_inv_def sys'_def iapp'_def xapps_numbered_def) (simp add: ric'_def)
  with run c c' j have "notification_handle_ric sys new_fd info = Inr sys' \<and> system_ok sys' \<and>
    conn sys = take p (conn sys) @ conn sys ! p # drop (Suc p) (conn sys) \<and> same_node (conn sys ! p) i \<and>
    conn sys' = take p (conn sys) @ drop (Suc p) (conn sys) \<and>
    pairs_of (nr_e2_nodes (sy_ric sys')) = pairs_of (nr_e2_nodes (sy_ric sys)) - {(i, s)} \<and>
    registry sys' = (registry sys)(node_id_rank i := None) \<and>
    nr_sent (sy_ric sys') = nr_sent (sy_ric sys) \<and> all_told sys sys' \<and> same_requests sys sys'"
    by (simp add: sys'_def ric'_def iapp'_def m(3) n(3) all_told_def same_requests_def tell_all_def endpoint_of_def xapp_ids_def)
  then show ?thesis by blast
qed


section \<open>The start\<close>

lemma boot_ok:
  assumes fd: "0 < fd" and T: "rf_inv sm_ds" and enc: "\<forall>m. ap_enc ap m \<noteq> []" "\<forall>m. ap_enc ap' m \<noteq> []"
  shows "\<exists>ric iapp. init_near_ric fd ap sm_ds = Inr ric \<and> init_e42_iapp fd' ap' = Inr iapp \<and>
    system_ok \<lparr>sy_ric = ric, sy_iapp = iapp\<rparr> \<and> arr_list (nr_conn_e2_nodes ric) = [] \<and>
    pairs_of (nr_e2_nodes ric) = {} \<and> pairs_of (ia_map_ric_id iapp) = {} \<and> pairs_of (ia_xapps iapp) = {} \<and>
    pend ric = {} \<and> nr_req_id ric = 1021 \<and> nr_ap ric = ap \<and> ia_ap iapp = ap' \<and> nr_sm_ds ric = sm_ds \<and>
    listeners_ok (nr_pub_sub ric) \<and> funcs (nr_pub_sub ric) = funcs sm_ds \<and> ia_xapp_id iapp = 7 \<and>
    nr_sent ric = [] \<and> ia_sent iapp = [] \<and> io_fds (nr_io ric) = [fd]"
proof -
  obtain ric where r: "init_near_ric fd ap sm_ds = Inr ric" "near_ric_inv ric" "pend ric = {}" "nr_ap ric = ap"
    "nr_sm_ds ric = sm_ds" "listeners_ok (nr_pub_sub ric)" "funcs (nr_pub_sub ric) = funcs sm_ds"
    "pairs_of (nr_e2_nodes ric) = {}" "arr_list (nr_conn_e2_nodes ric) = []" "sa_cap (nr_conn_e2_nodes ric) = 8"
    "nr_req_id ric = 1021" "nr_sent ric = []" "io_fds (nr_io ric) = [fd]"
    using init_near_ric_ok [OF fd T, of ap] by blast
  obtain iapp where i: "init_e42_iapp fd' ap' = Inr iapp" "xapps_inv (ia_xapps iapp)" "reqs_inv (ia_map_ric_id iapp)"
    "reg_inv (ia_e2_nodes iapp)" "rb_items (ia_e2_nodes iapp) = []" "pairs_of (ia_xapps iapp) = {}"
    "pairs_of (ia_map_ric_id iapp) = {}" "ia_xapp_id iapp = 7" "ia_sent iapp = []" "ia_ap iapp = ap'"
    using init_e42_iapp_ok [of fd' ap'] by blast
  have d: "reg_map (ia_e2_nodes iapp) = Map.empty" using i(5) by (simp add: reg_map_None ranks_def fun_eq_iff)
  then have "reg_small (ia_e2_nodes iapp)" by (simp add: reg_small_iff [OF i(4)])
  then have "system_ok \<lparr>sy_ric = ric, sy_iapp = iapp\<rparr>"
    using r i d T enc by (simp add: system_ok_def sys_inv_def views_agree_def xapps_numbered_def)
  with r i show ?thesis by blast
qed

section \<open>Setup, loss and their order\<close>

lemma last_removed:
  assumes "xs @ j # ys = l @ [i]" "same_node j i" "node_id_rank i \<notin> node_id_rank ` set l"
  shows "xs @ ys = l"
proof (cases ys rule: rev_cases)
  case Nil
  then show ?thesis using assms(1) by simp
next
  case (snoc zs z)
  then have "l = xs @ j # zs" using assms(1) by simp
  then have "node_id_rank j \<in> node_id_rank ` set l" by simp
  then show ?thesis using assms(2,3) by simp
qed

lemma rm_unknown_endpoint:
  assumes "nodes_inv m" "si_addr info \<notin> si_addr ` snd ` pairs_of m"
  shows "rm_map_sad_e2_node m info = Inl AssertFailed"
proof -
  have r: "rb_inv cmp_sctp (\<lambda>_. True) sctp_rank (bm_right m)"
    and k: "kvs (rb_items (bm_right m)) = (pairs_of m)\<inverse>"
    using assms(1) by (simp_all add: nodes_inv_def bm_inv_def pairs_of_def)
  have "rank \<noteq> sctp_rank info" if "rank \<in> (\<lambda>e. sctp_rank (it_key e)) ` set (rb_items (bm_right m))" for rank
  proof -
    from that obtain e where e: "e \<in> set (rb_items (bm_right m))" "rank = sctp_rank (it_key e)" by blast
    from kvs_item [OF e(1)] k have "it_key e \<in> snd ` pairs_of m" by force
    then have "si_addr (it_key e) \<in> si_addr ` snd ` pairs_of m" by (rule imageI)
    with assms(2) e(2) show ?thesis by (metis sctp_rank_addr)
  qed
  then have "assoc_rb_tree_extract (bm_right m) info = Inl AssertFailed"
    using sctp.rb_extract_missing [OF r] by blast
  then show ?thesis by (simp add: rm_map_sad_e2_node_def bi_map_extract_right_def c_assert_def)
qed

lemma setup_then_loss:
  fixes sys :: "('c, 'i) ric_system"
  assumes ok: "system_ok sys" and msg: "ap_dec (nr_ap (sy_ric sys)) ba = E2_SETUP_REQUEST req" and good: "good_setup req"
    and new: "node_id_rank (es_id req) \<notin> node_id_rank ` set (conn sys)"
      "si_addr info \<notin> si_addr ` snd ` pairs_of (nr_e2_nodes (sy_ric sys))"
    and room: "length (conn sys) < 31"
  obtains sys' sys'' where "sctp_msg_arrived_event sys new_fd info ba = Inr sys'"
    "node_at (sy_ric sys') (es_id req) info" "conn sys' = conn sys @ [es_id req]"
    "registry sys' = (registry sys)(node_id_rank (es_id req) \<mapsto> (es_ran_func req, es_comp_conf req))"
    "nr_sent (sy_ric sys') = nr_sent (sy_ric sys) @
       [(info, ap_enc (nr_ap (sy_ric sys)) (E2_SETUP_RESPONSE (setup_answer (sy_ric sys) req)))]"
    "all_told sys sys'" "system_ok sys'" "same_requests sys sys'"
    "notification_handle_ric sys' new_fd info = Inr sys''" "system_ok sys''" "conn sys'' = conn sys"
    "pairs_of (nr_e2_nodes (sy_ric sys'')) = pairs_of (nr_e2_nodes (sy_ric sys))" "registry sys'' = registry sys"
    "nr_sent (sy_ric sys'') = nr_sent (sy_ric sys')" "all_told sys' sys''" "same_requests sys sys''"
proof -
  obtain sys' where s: "sctp_msg_arrived_event sys new_fd info ba = Inr sys'" "system_ok sys'"
    "conn sys' = conn sys @ [es_id req]"
    "pairs_of (nr_e2_nodes (sy_ric sys')) = insert (es_id req, info) (pairs_of (nr_e2_nodes (sy_ric sys)))"
    "registry sys' = (registry sys)(node_id_rank (es_id req) \<mapsto> (es_ran_func req, es_comp_conf req))"
    "nr_sent (sy_ric sys') = nr_sent (sy_ric sys) @
       [(info, ap_enc (nr_ap (sy_ric sys)) (E2_SETUP_RESPONSE (setup_answer (sy_ric sys) req)))]"
    "all_told sys sys'" "same_requests sys sys'"
    using setup_ok [OF ok msg good new room, of new_fd] by blast
  have in': "(es_id req, info) \<in> pairs_of (nr_e2_nodes (sy_ric sys'))" by (simp add: s(4))
  obtain sys'' xs j ys where t: "notification_handle_ric sys' new_fd info = Inr sys''" "system_ok sys''"
    "conn sys' = xs @ j # ys" "same_node j (es_id req)" "conn sys'' = xs @ ys"
    "pairs_of (nr_e2_nodes (sy_ric sys'')) = pairs_of (nr_e2_nodes (sy_ric sys')) - {(es_id req, info)}"
    "registry sys'' = (registry sys')(node_id_rank (es_id req) := None)"
    "nr_sent (sy_ric sys'') = nr_sent (sy_ric sys')" "all_told sys' sys''" "same_requests sys' sys''"
    using shutdown_ok [OF s(2) in' refl, of new_fd] by metis
  have at: "node_at (sy_ric sys') (es_id req) info"
    using in' good printable_valid by (auto simp: node_at_def good_setup_def)
  have "(es_id req, info) \<notin> pairs_of (nr_e2_nodes (sy_ric sys))" using new(2) by force
  moreover have "registry sys (node_id_rank (es_id req)) = None"
    using new(1) system_okD(2) [OF ok] unfolding views_agree_def by (metis domIff)
  moreover have "xs @ ys = conn sys" using last_removed [of xs j ys "conn sys" "es_id req"] t(3,4) s(3) new(1) by simp
  ultimately show ?thesis
    using that [of sys' sys''] s t at same_requests_trans [OF s(8) t(10)] by (simp add: fun_upd_idem)
qed

text \<open>A RIC that has just started, to which the DU 3 connects with one function for which a service model
  exists and one for which none does. The decoder of the sample reads every message as this setup.\<close>

definition sample_setup :: e2_setup_request where
  "sample_setup = \<lparr>es_trans_id = 1, es_id = sample_du 3,
     es_ran_func = [sample_rf, sample_rf\<lparr>rf_id := 3\<rparr>], es_comp_conf = [sample_cca]\<rparr>"

definition setup_ap :: e2ap_ap where
  "setup_ap = sample_ap\<lparr>ap_dec := \<lambda>_. E2_SETUP_REQUEST sample_setup\<rparr>"

lemma setup_ap_enc [simp]: "ap_enc setup_ap m \<noteq> []" "ap_dec setup_ap b = E2_SETUP_REQUEST sample_setup"
  by (simp_all add: setup_ap_def)

lemma sample_setup_good: "good_setup sample_setup"
  by (simp add: good_setup_def sample_setup_def sample_cca_def printable_def sample_du_def)

lemma sample_models:
  obtains T :: "(u16, (string, string) sm_ric) rb_tree" where "rf_inv T" "rf_map T 142 = Some (sample_sm 142)"
    "rf_map T 3 = None" "funcs T = {142}"
proof -
  obtain T :: "(u16, (string, string) sm_ric) rb_tree" where T: "rf_inv T" "rb_items T = []"
    using rb_init_ok [of 2 cmp_ran_func_id "\<lambda>_. True" "\<lambda>f. [uint f]"] by auto
  from sms.insert_law [OF T(1), of 142 "sample_sm 142"] obtain T' a where
    "rf_inv T'" "rb_items T' = [(a, 142, sample_sm 142)]"
    by (auto simp: T(2) sorted_insert_def)
  then show ?thesis by (intro that [of T']) (simp_all add: rf_map_def)
qed

lemma sample_start:
  obtains sys :: "(string, string) ric_system" where "system_ok sys" "conn sys = []" "nr_ap (sy_ric sys) = setup_ap"
    "pairs_of (nr_e2_nodes (sy_ric sys)) = {}" "accepted_of (sy_ric sys) sample_setup = [142, 0]"
proof -
  obtain T :: "(u16, (string, string) sm_ric) rb_tree" where T: "rf_inv T" "rf_map T 142 = Some (sample_sm 142)"
    "rf_map T 3 = None" using sample_models by metis
  obtain ric :: "(string, string) near_ric" and iapp where "system_ok \<lparr>sy_ric = ric, sy_iapp = iapp\<rparr>"
    "arr_list (nr_conn_e2_nodes ric) = []" "pairs_of (nr_e2_nodes ric) = {}" "nr_ap ric = setup_ap" "nr_sm_ds ric = T"
    using boot_ok [of 5 T setup_ap setup_ap 6] T(1) by auto
  then show ?thesis using T
    by (intro that [of "\<lparr>sy_ric = ric, sy_iapp = iapp\<rparr>"]) (simp_all add: accepted_of_def sample_setup_def sample_rf_def)
qed

text \<open>C5: the setup of a new E2 node makes it known at its endpoint, in the array of connected nodes and
  in the registry, is answered with the functions that a service model exists for (0 for the
  others), and every xApp is told of the nodes as they are then. When the connection of the node
  ends, all three places are as they were before and every xApp is told again.\<close>

theorem node_setup_and_loss:
  fixes sys :: "('c, 'i) ric_system"
  assumes ok: "system_ok sys" and msg: "ap_dec (nr_ap (sy_ric sys)) ba = E2_SETUP_REQUEST req" and good: "good_setup req"
    and new: "node_id_rank (es_id req) \<notin> node_id_rank ` set (conn sys)"
      "si_addr info \<notin> si_addr ` snd ` pairs_of (nr_e2_nodes (sy_ric sys))"
    and room: "length (conn sys) < 31"
  shows "\<exists>sys' sys''. sctp_msg_arrived_event sys new_fd info ba = Inr sys' \<and>
    node_at (sy_ric sys') (es_id req) info \<and> conn sys' = conn sys @ [es_id req] \<and>
    registry sys' = (registry sys)(node_id_rank (es_id req) \<mapsto> (es_ran_func req, es_comp_conf req)) \<and>
    nr_sent (sy_ric sys') = nr_sent (sy_ric sys) @
       [(info, ap_enc (nr_ap (sy_ric sys)) (E2_SETUP_RESPONSE (setup_answer (sy_ric sys) req)))] \<and>
    all_told sys sys' \<and> system_ok sys' \<and>
    notification_handle_ric sys' new_fd info = Inr sys'' \<and> system_ok sys'' \<and> conn sys'' = conn sys \<and>
    pairs_of (nr_e2_nodes (sy_ric sys'')) = pairs_of (nr_e2_nodes (sy_ric sys)) \<and> registry sys'' = registry sys \<and>
    all_told sys' sys'' \<and> same_requests sys sys''"
  using setup_then_loss [OF assms, of new_fd] by metis

theorem node_setup_and_loss_witness:
  "\<exists>sys sys' sys'' :: (string, string) ric_system. conn sys = [] \<and>
     sctp_msg_arrived_event sys sample_fd (sample_sctp 36421) [0] = Inr sys' \<and>
     conn sys' = [sample_du 3] \<and> map n2_accepted (arr_list (nr_conn_e2_nodes (sy_ric sys'))) \<noteq> [] \<and>
     notification_handle_ric sys' sample_fd (sample_sctp 36421) = Inr sys'' \<and> conn sys'' = []"
proof -
  obtain sys :: "(string, string) ric_system" where s: "system_ok sys" "conn sys = []" "nr_ap (sy_ric sys) = setup_ap"
    "pairs_of (nr_e2_nodes (sy_ric sys)) = {}"
    using sample_start by metis
  have m: "ap_dec (nr_ap (sy_ric sys)) [0] = E2_SETUP_REQUEST sample_setup" by (simp add: s(3))
  from node_setup_and_loss [OF s(1) m sample_setup_good, of "sample_sctp 36421" sample_fd] s(2,4) show ?thesis
    by (simp add: sample_setup_def) (metis list.map_disc_iff list.distinct(1))
qed

text \<open>C32: the end of a connection is handled at once while the setup that came before it waits for a
  thread. If the connection ends while its setup is still queued, the RIC aborts; if the setup ran
  before, the node is removed and the server goes on.\<close>

theorem loss_before_setup_aborts:
  fixes sv :: "('c, 'i) ric_server"
  assumes ok: "system_ok (sv_sys sv)" and msg: "ap_dec (nr_ap (sy_ric (sv_sys sv))) ba = E2_SETUP_REQUEST req"
    and good: "good_setup req"
    and new: "node_id_rank (es_id req) \<notin> node_id_rank ` set (conn (sv_sys sv))"
      "si_addr info \<notin> si_addr ` snd ` pairs_of (nr_e2_nodes (sy_ric (sv_sys sv)))"
    and room: "length (conn (sv_sys sv)) < 31" and idle: "sv_tasks sv = []"
  shows "\<exists>sv1 sv2 sv3. e2_event_loop_ric sv new_fd (RIC_SCTP_MSG_ARRIVED info ba) = Inr sv1 \<and>
    e2_event_loop_ric sv1 new_fd (RIC_SCTP_CONNECTION_SHUTDOWN info) = Inl AssertFailed \<and>
    run_task sv1 new_fd 0 = Inr sv2 \<and>
    e2_event_loop_ric sv2 new_fd (RIC_SCTP_CONNECTION_SHUTDOWN info) = Inr sv3 \<and>
    system_ok (sv_sys sv3) \<and> conn (sv_sys sv3) = conn (sv_sys sv) \<and> sv_tasks sv3 = []"
proof -
  obtain sys' sys'' where s: "sctp_msg_arrived_event (sv_sys sv) new_fd info ba = Inr sys'"
    "notification_handle_ric sys' new_fd info = Inr sys''" "system_ok sys''" "conn sys'' = conn (sv_sys sv)"
    using setup_then_loss [OF ok msg good new room, of new_fd] by metis
  show ?thesis
    using s rm_unknown_endpoint [OF system_okD(12) [OF ok] new(2)]
    by (intro exI [of _ "sv\<lparr>sv_tasks := [(info, ba)]\<rparr>"] exI [of _ "sv\<lparr>sv_sys := sys', sv_tasks := []\<rparr>"]
          exI [of _ "sv\<lparr>sv_sys := sys'', sv_tasks := []\<rparr>"])
      (simp add: e2_event_loop_ric_def idle notification_handle_ric_def [of "sv_sys sv"] e2ap_rm_sock_addr_ric_def
        run_task_def)
qed


theorem loss_before_setup_aborts_witness:
  "\<exists>sv sv1 sv2 :: (string, string) ric_server. e2_event_loop_ric sv sample_fd (RIC_SCTP_MSG_ARRIVED (sample_sctp 36421) [0]) = Inr sv1 \<and>
     e2_event_loop_ric sv1 sample_fd (RIC_SCTP_CONNECTION_SHUTDOWN (sample_sctp 36421)) = Inl AssertFailed \<and>
     run_task sv1 sample_fd 0 = Inr sv2"
proof -
  obtain sys :: "(string, string) ric_system" where s: "system_ok sys" "conn sys = []" "nr_ap (sy_ric sys) = setup_ap"
    "pairs_of (nr_e2_nodes (sy_ric sys)) = {}"
    using sample_start by metis
  let ?sv = "\<lparr>sv_sys = sys, sv_tasks = []\<rparr>"
  have m: "ap_dec (nr_ap (sy_ric (sv_sys ?sv))) [0] = E2_SETUP_REQUEST sample_setup" by (simp add: s(3))
  from loss_before_setup_aborts [OF _ m sample_setup_good, of "sample_sctp 36421" sample_fd] s(1,2,4) show ?thesis
    by simp metis
qed

end
