(* ===== verification/Ric_Run.thy ===== *)
theory Ric_Run
  imports Node_Lifecycle
begin

text \<open>
  The RIC and its iApp as one state machine. An input is a message of an E2 node or of an xApp, or
  the end of a connection; \<open>valid_input\<close> says which inputs a well-behaved environment gives in a
  state. The links between requests, pending events and xApps are an invariant, and no valid input
  aborts. Two inputs are left out: a timer that runs out always aborts (\<open>timer_expiry_aborts\<close>), and
  the requests of programs inside the RIC (\<open>report_service_near_ric\<close>) have no xApp behind them.
\<close>

declare bind_res_eq_Inr [simp del]

section \<open>Requests and what waits for them\<close>

text \<open>
  \<open>R\<close> are the requests of the xApps \<open>X\<close>, \<open>E\<close> the pending events, \<open>c\<close> is the next number.
\<close>

definition request_ok :: "u32 \<Rightarrow> u16 set \<Rightarrow> e2_node_ric_id \<Rightarrow> xapp_ric_id \<Rightarrow> bool" where
  "request_ok c X a x \<longleftrightarrow> xr_xapp_id x \<in> X \<and>
     (\<exists>n. n \<noteq> 0 \<and> ucast n < c \<and> en_ric_id a = numbered n (xr_ric_id x))"

definition waits_for :: "pending_event_ric \<Rightarrow> e2_node_ric_id \<Rightarrow> bool" where
  "waits_for e a \<longleftrightarrow> (if en_ric_req_type a = SUBSCRIPTION_RIC_REQUEST_TYPE
     then e \<in> {sub_event (en_ric_id a), del_event (en_ric_id a)} else e = ctrl_event (en_ric_id a))"

definition linked ::
  "(e2_node_ric_id \<times> xapp_ric_id) set \<Rightarrow> pending_event_ric set \<Rightarrow> u32 \<Rightarrow> u16 set \<Rightarrow> bool" where
  "linked R E c X \<longleftrightarrow> 0 < c \<and> c \<le> 65536 \<and> (\<forall>(a, x) \<in> R. request_ok c X a x) \<and>
     (\<forall>(a, x) \<in> R. \<forall>(b, y) \<in> R. req_no a = req_no b \<longrightarrow> (a, x) = (b, y)) \<and>
     (\<forall>e \<in> E. \<exists>(a, x) \<in> R. waits_for e a) \<and> (\<forall>i. \<not> (sub_event i \<in> E \<and> del_event i \<in> E))"

lemma waits_id: "waits_for e a \<Longrightarrow> pe_id e = en_ric_id a"
  by (auto simp: waits_for_def sub_event_def del_event_def ctrl_event_def split: if_splits)

lemma linkedI:
  assumes "0 < c" "c \<le> 65536" "\<And>a x. (a, x) \<in> R \<Longrightarrow> request_ok c X a x"
    "\<And>a x b y. (a, x) \<in> R \<Longrightarrow> (b, y) \<in> R \<Longrightarrow> req_no a = req_no b \<Longrightarrow> (a, x) = (b, y)"
    "\<And>e. e \<in> E \<Longrightarrow> \<exists>(a, x) \<in> R. waits_for e a" "\<And>i. sub_event i \<in> E \<Longrightarrow> del_event i \<notin> E"
  shows "linked R E c X"
  using assms unfolding linked_def by blast

lemma linkedD:
  assumes "linked R E c X"
  shows "0 < c" "c \<le> 65536" "\<And>a x. (a, x) \<in> R \<Longrightarrow> request_ok c X a x"
    "\<And>a x b y. (a, x) \<in> R \<Longrightarrow> (b, y) \<in> R \<Longrightarrow> req_no a = req_no b \<Longrightarrow> (a, x) = (b, y)"
    "\<And>e. e \<in> E \<Longrightarrow> \<exists>(a, x) \<in> R. waits_for e a" "\<And>i. sub_event i \<in> E \<Longrightarrow> del_event i \<notin> E"
  using assms unfolding linked_def by blast+

lemma linked_fewer:
  assumes "linked R E c X" "E' \<subseteq> E"
  shows "linked R E' c X"
proof (intro linkedI)
  show "del_event i \<notin> E'" if "sub_event i \<in> E'" for i
    using linkedD(6) [OF assms(1), of i] that assms(2) by blast
  show "\<exists>(a, x) \<in> R. waits_for e a" if "e \<in> E'" for e
    using linkedD(5) [OF assms(1), of e] that assms(2) by blast
qed (use linkedD(1-4) [OF assms(1)] in \<open>simp_all, blast?\<close>)

lemma linked_more_xapps:
  assumes "linked R E c X" "X \<subseteq> X'"
  shows "linked R E c X'"
proof -
  have "request_ok c X' a x" if "(a, x) \<in> R" for a x
    using linkedD(3) [OF assms(1) that] assms(2) by (auto simp: request_ok_def)
  with linkedD(1,2,4-6) [OF assms(1)] show ?thesis by (intro linkedI)
qed

lemma linked_waits:
  assumes "linked R E c X" "e \<in> E"
  obtains a x where "(a, x) \<in> R" "waits_for e a" "request_ok c X a x"
  using linkedD(3,5) [OF assms(1)] assms(2) by blast



lemma u32_step: "(c :: u32) < 65536 \<Longrightarrow> c < c + 1" "(c :: u32) < 65536 \<Longrightarrow> c + 1 \<le> 65536"
  by (simp_all add: word_less_nat_alt word_le_nat_alt unat_word_ariths unat_of_nat)

lemma linked_new:
  assumes l: "linked R E c X" and c: "c < 65536" and n: "n = (ucast c :: u16)" and x: "xr_xapp_id x \<in> X"
    and a: "en_ric_id a = numbered n (xr_ric_id x)"
    and e: "e = (if en_ric_req_type a = SUBSCRIPTION_RIC_REQUEST_TYPE then sub_event (en_ric_id a) else ctrl_event (en_ric_id a))"
  shows "linked (insert (a, x) R) (insert e E) (c + 1) X" "\<forall>(b, y) \<in> R. req_no b \<noteq> req_no a"
    "\<forall>e \<in> E. ric_req_id (pe_id e) \<noteq> ucast n"
proof -
  note d = linkedD [OF l]
  have cn: "ucast n = c" using ucast_low [OF c] by (simp add: n)
  have lt: "c < c + 1" "c + 1 \<le> 65536" by (rule u32_step [OF c])+
  have n0: "n \<noteq> 0" using d(1) cn by auto
  have small: "req_no b < c" if "(b, y) \<in> R" for b y using d(3) [OF that] by (auto simp: request_ok_def)
  have no_a: "req_no a = c" by (simp add: a cn)
  show fresh: "\<forall>(b, y) \<in> R. req_no b \<noteq> req_no a" using small no_a by force
  have id_small: "ric_req_id (pe_id f) < c" if f: "f \<in> E" for f
  proof -
    obtain b y where "(b, y) \<in> R" "waits_for f b" using d(5) [OF f] by blast
    with small [of b y] waits_id [of f b] show ?thesis by simp
  qed
  then show evs: "\<forall>e \<in> E. ric_req_id (pe_id e) \<noteq> ucast n" using cn by force
  have "request_ok (c + 1) X b y" if "(b, y) \<in> R" for b y
    using d(3) [OF that] lt(1) unfolding request_ok_def by (meson less_trans)
  moreover have "request_ok (c + 1) X a x" using x n0 a cn lt(1) by (auto simp: request_ok_def)
  ultimately have ok: "request_ok (c + 1) X b y" if "(b, y) \<in> insert (a, x) R" for b y using that by blast
  have one: "(b, y) = (b', y')" if "(b, y) \<in> insert (a, x) R" "(b', y') \<in> insert (a, x) R" "req_no b = req_no b'" for b y b' y'
  proof (cases "(b, y) = (a, x) \<or> (b', y') = (a, x)")
    case True
    then show ?thesis using that small [of b y] small [of b' y'] no_a by (metis insertE less_irrefl prod.inject)
  next
    case False
    then show ?thesis using that d(4) by blast
  qed
  have "waits_for e a" by (simp add: e waits_for_def)
  then have w: "\<exists>(b, y) \<in> insert (a, x) R. waits_for f b" if "f \<in> insert e E" for f using d(5) [of f] that by blast
  have "del_event i \<notin> insert e E" if s: "sub_event i \<in> insert e E" for i
  proof
    assume "del_event i \<in> insert e E"
    then have del: "del_event i \<in> E" by (auto simp: e split: if_splits)
    with s d(6) have "e = sub_event i" by blast
    then have "ric_req_id i = c" using cn by (auto simp: e a sub_event_def ctrl_event_def split: if_splits)
    with id_small [OF del] show False by (simp add: del_event_def)
  qed
  with ok one w lt(2) show "linked (insert (a, x) R) (insert e E) (c + 1) X"
    using less_trans [OF d(1) lt(1)] by (intro linkedI)
qed


section \<open>The invariant\<close>

abbreviation events :: "('c, 'i) ric_system \<Rightarrow> pending_event_ric set" where
  "events sys \<equiv> snd ` pend (sy_ric sys)"

abbreviation xapp_set :: "('c, 'i) ric_system \<Rightarrow> u16 set" where
  "xapp_set sys \<equiv> fst ` pairs_of (ia_xapps (sy_iapp sys))"

definition models_ok :: "('c, 'i) near_ric \<Rightarrow> bool" where
  "models_ok ric \<longleftrightarrow> listeners_ok (nr_pub_sub ric) \<and> funcs (nr_pub_sub ric) = funcs (nr_sm_ds ric) \<and>
     (\<forall>f sm. rf_map (nr_sm_ds ric) f = Some sm \<longrightarrow> sm_ran_func_id sm = f)"

definition run_inv :: "('c, 'i) ric_system \<Rightarrow> bool" where
  "run_inv sys \<longleftrightarrow> system_ok sys \<and> models_ok (sy_ric sys) \<and>
     linked (requests sys) (events sys) (nr_req_id (sy_ric sys)) (xapp_set sys)"

lemma run_invD:
  assumes "run_inv sys"
  shows "system_ok sys" "models_ok (sy_ric sys)" "sys_inv sys"
    "linked (requests sys) (events sys) (nr_req_id (sy_ric sys)) (xapp_set sys)"
  using assms system_okD(1) by (auto simp: run_inv_def)

text \<open>The parts of the state that requests do not touch.\<close>

definition same_nodes :: "('c, 'i) ric_system \<Rightarrow> ('c, 'i) ric_system \<Rightarrow> bool" where
  "same_nodes sys sys' \<longleftrightarrow> nr_e2_nodes (sy_ric sys') = nr_e2_nodes (sy_ric sys) \<and>
     nr_conn_e2_nodes (sy_ric sys') = nr_conn_e2_nodes (sy_ric sys) \<and> nr_sm_ds (sy_ric sys') = nr_sm_ds (sy_ric sys) \<and>
     nr_pub_sub (sy_ric sys') = nr_pub_sub (sy_ric sys) \<and> nr_ap (sy_ric sys') = nr_ap (sy_ric sys) \<and>
     ia_xapps (sy_iapp sys') = ia_xapps (sy_iapp sys) \<and> ia_xapp_id (sy_iapp sys') = ia_xapp_id (sy_iapp sys) \<and>
     ia_e2_nodes (sy_iapp sys') = ia_e2_nodes (sy_iapp sys) \<and> ia_ap (sy_iapp sys') = ia_ap (sy_iapp sys)"

lemma same_nodes_trans: "same_nodes a b \<Longrightarrow> same_nodes b c \<Longrightarrow> same_nodes a c"
  by (simp add: same_nodes_def)

lemma run_inv_frame:
  assumes "run_inv sys" "same_nodes sys sys'" "near_ric_inv (sy_ric sys')" "reqs_inv (ia_map_ric_id (sy_iapp sys'))"
    and "linked (requests sys') (events sys') (nr_req_id (sy_ric sys')) (xapp_set sys)"
  shows "run_inv sys'"
  using assms
  by (simp add: run_inv_def system_ok_def sys_inv_def same_nodes_def views_agree_def xapps_numbered_def models_ok_def)

definition connected :: "('c, 'i) ric_system \<Rightarrow> global_e2_node_id \<Rightarrow> bool" where
  "connected sys i \<longleftrightarrow> valid_node_id i \<and> node_id_rank i \<in> node_id_rank ` set (conn sys)"

lemma connected_at:
  assumes ok: "system_ok sys" and i: "connected sys i"
  obtains s where "node_at (sy_ric sys) i s" "registry sys (node_id_rank i) \<noteq> None"
proof -
  note v = system_okD(2) [OF ok, unfolded views_agree_def]
  have "node_id_rank i \<in> node_id_rank ` fst ` pairs_of (nr_e2_nodes (sy_ric sys))"
    "node_id_rank i \<in> dom (registry sys)" using i v by (simp_all add: connected_def)
  then obtain j s where "(j, s) \<in> pairs_of (nr_e2_nodes (sy_ric sys))" "same_node j i" "registry sys (node_id_rank i) \<noteq> None"
    by (metis (no_types, lifting) domIff imageE prod.collapse)
  then show ?thesis using i that by (auto simp: connected_def node_at_def)
qed

lemma registered_number:
  assumes ok: "system_ok sys" and x: "x \<in> xapp_set sys"
  shows "ucast x \<le> ia_xapp_id (sy_iapp sys)"
proof -
  obtain k where k: "x = word_of_nat k" "k < unat (ia_xapp_id (sy_iapp sys))"
    using system_okD(3) [OF ok] x by (auto simp: xapps_numbered_def)
  have "unat x \<le> k" by (simp add: k(1) unat_of_nat take_bit_eq_mod)
  then show ?thesis using k(2) ucast_16_32 [of x] by (simp add: word_le_nat_alt)
qed

text \<open>A pending event and the request behind it.\<close>

lemma event_answers:
  assumes inv: "run_inv sys" and e: "e \<in> events sys"
  obtains fd a x t where "(fd, e) \<in> pend (sy_ric sys)" "(a, x) \<in> requests sys" "waits_for e a"
    "answers sys (pe_id e) a x t"
proof -
  obtain fd where fd: "(fd, e) \<in> pend (sy_ric sys)" using e by auto
  obtain a x where a: "(a, x) \<in> requests sys" "waits_for e a"
    "request_ok (nr_req_id (sy_ric sys)) (xapp_set sys) a x"
    using linked_waits [OF run_invD(4) [OF inv] e] .
  obtain n where n: "n \<noteq> 0" "en_ric_id a = numbered n (xr_ric_id x)" using a(3) by (auto simp: request_ok_def)
  obtain t where t: "xapp_at sys (xr_xapp_id x) t" using a(3) by (auto simp: request_ok_def)
  have "answers sys (numbered n (xr_ric_id x)) a x t"
    using answers_numbered [OF a(1) _ n(1) t] n(2) by simp
  then show ?thesis using that fd a(1,2) n(2) waits_id [OF a(2)] by simp
qed

lemma pend_removed:
  assumes "near_ric_inv ric" "(fd, e) \<in> pend ric"
  shows "snd ` (pend ric - {(fd, e)}) = snd ` pend ric - {e}"
proof -
  have "pends_inv (nr_pending ric)" using assms(1) by (simp add: near_ric_inv_def)
  from pends_unique(2) [OF this] have "inj_on snd (pend ric)" unfolding pend_def by (intro inj_onI) (metis prod.collapse)
  from inj_on_image_set_diff [OF this, of "pend ric" "{(fd, e)}"] assms(2) show ?thesis by simp
qed

section \<open>Messages of the E2 nodes\<close>

lemma arrived_ok:
  assumes "ap_dec (nr_ap (sy_ric sys)) ba = msg" "\<forall>r. msg \<noteq> E2_SETUP_REQUEST r"
    "e2ap_msg_handle_ric sys new_fd msg = Inr (NONE_E2_MSG_TYPE, sys')" "e2ap_msg_free msg = Inr ()"
  shows "sctp_msg_arrived_event sys new_fd info ba = Inr sys'"
proof -
  have "(case msg of E2_SETUP_REQUEST req \<Rightarrow> e2ap_reg_sock_addr_ric (sy_ric sys) (es_id req) info
      | _ \<Rightarrow> Inr (sy_ric sys)) = Inr (sy_ric sys)"
    using assms(2) by (cases msg) auto
  then show ?thesis using assms(3,4) by (simp add: sctp_msg_arrived_event_def assms(1))
qed

lemma subscription_response_step:
  assumes inv: "run_inv sys" and e: "sub_event (sp_ric_id p) \<in> events sys"
    and ok: "sp_not_admitted p = []" "sp_admitted p = [\<lparr>aa_id = 0\<rparr>]"
  shows "\<exists>sys'. e2ap_msg_handle_ric sys new_fd (RIC_SUBSCRIPTION_RESPONSE p) = Inr (NONE_E2_MSG_TYPE, sys') \<and> run_inv sys' \<and>
    same_nodes sys sys' \<and> requests sys' = requests sys \<and> events sys' = events sys - {sub_event (sp_ric_id p)}"
proof -
  note d = run_invD [OF inv] system_okD [OF run_invD(1) [OF inv]]
  obtain fd a x t where a: "(fd, sub_event (sp_ric_id p)) \<in> pend (sy_ric sys)" "answers sys (sp_ric_id p) a x t"
    using event_answers [OF inv e] by (metis pending_event_ric.select_convs(2) sub_event_def)
  obtain ric' where r: "e2ap_handle_subscription_response_ric sys new_fd p =
      Inr (NONE_E2_MSG_TYPE, sys\<lparr>sy_ric := ric',
        sy_iapp := iapp_sends sys t (RIC_SUBSCRIPTION_RESPONSE (p\<lparr>sp_ric_id := xr_ric_id x\<rparr>))\<rparr>)"
    "answered (sy_ric sys) fd (sub_event (sp_ric_id p)) ric'"
    using subscription_response_ric_ok [OF d(3) a(1,2) system_okD(6) [OF d(1)] ok] by blast
  let ?sys = "sys\<lparr>sy_ric := ric', sy_iapp := iapp_sends sys t (RIC_SUBSCRIPTION_RESPONSE (p\<lparr>sp_ric_id := xr_ric_id x\<rparr>))\<rparr>"
  have ev: "events ?sys = events sys - {sub_event (sp_ric_id p)}"
    using answered_fields(2) [OF r(2)] pend_removed [OF system_okD(7) [OF d(1)] a(1)] by simp
  then have "linked (requests ?sys) (events ?sys) (nr_req_id (sy_ric ?sys)) (xapp_set sys)"
    using linked_fewer [OF d(4)] answered_fields(4) [OF r(2)] by simp
  moreover have same: "same_nodes sys ?sys" using r(2) by (cases ric') (auto simp: same_nodes_def answered_def)
  ultimately have "run_inv ?sys"
    using run_inv_frame [OF inv, of ?sys] answered_fields(1) [OF r(2)] system_okD(9) [OF d(1)] by simp
  with r(1) ev same show ?thesis by (auto simp: e2ap_msg_handle_ric_def)
qed





text \<open>An indication of a known service model, under the number of a request or under an unknown one.\<close>

definition indication_ok :: "('c, 'i) ric_system \<Rightarrow> ric_indication \<Rightarrow> bool" where
  "indication_ok sys ind \<longleftrightarrow>
     (let f = ran_func_id (in_ric_id ind); q = (ucast (ric_req_id (in_ric_id ind)) :: u16) in
      f \<noteq> 0 \<and> q \<noteq> 0 \<and>
      (case rf_map (nr_sm_ds (sy_ric sys)) f of None \<Rightarrow> False
       | Some sm \<Rightarrow> known_ind (ri_type (on_indication sm
           \<lparr>sid_hdr = in_hdr ind, sid_msg = in_msg ind, sid_call_process_id = in_call_process_id ind\<rparr>))) \<and>
      (\<forall>(a, x) \<in> requests sys. req_no a = ucast q \<longrightarrow> in_ric_id ind = en_ric_id a))"



lemma same_requests_run:
  assumes inv: "run_inv sys" and ok: "system_ok sys'" and s: "same_requests sys sys'"
  shows "run_inv sys'"
  using run_invD [OF inv] ok s by (simp add: run_inv_def same_requests_def models_ok_def pend_def)

section \<open>Requests of the xApps\<close>

definition os_ok :: "os_fd \<Rightarrow> bool" where
  "os_ok new_fd \<longleftrightarrow> (\<forall>io. new_fd io > 0 \<and> new_fd io \<notin> set (io_fds io))"

lemma os_fresh: "os_ok new_fd \<Longrightarrow> fresh_fd ric (new_fd (nr_io ric))"
  by (simp add: os_ok_def fresh_fd_def)

lemma iapp_arrived_ok:
  assumes "ap_dec (ia_ap (sy_iapp sys)) ba = msg" "e2ap_msg_free msg = Inr ()"
    "e2ap_msg_handle_iapp sys new_fd msg = Inr (NONE_E2_MSG_TYPE, sys')"
  shows "iapp_msg_arrived sys new_fd info ba = Inr sys'"
  using assms by (simp add: iapp_msg_arrived_def)

text \<open>The state after a request was forwarded and recorded.\<close>

lemma requested_state:
  assumes inv: "run_inv sys" and c: "nr_req_id (sy_ric sys) < 65536" and x: "xr_xapp_id x \<in> xapp_set sys"
    and a: "en_ric_id a = numbered (next_no sys) (xr_ric_id x)"
    and e: "e = (if en_ric_req_type a = SUBSCRIPTION_RIC_REQUEST_TYPE then sub_event (en_ric_id a) else ctrl_event (en_ric_id a))"
    and r: "requested (count_up (sy_ric sys)) tfd ms e s ba ric'"
    and m: "reqs_inv m" "pairs_of m = insert (a, x) (requests sys)"
    and sys': "sys' = sys\<lparr>sy_ric := ric', sy_iapp := (sy_iapp sys)\<lparr>ia_map_ric_id := m\<rparr>\<rparr>"
  shows "run_inv sys'" "same_nodes sys sys'" "events sys' = insert e (events sys)"
proof -
  note d = run_invD [OF inv]
  show ev: "events sys' = insert e (events sys)" using requested_pend [OF r] by (simp add: sys')
  have "linked (requests sys') (events sys') (nr_req_id (sy_ric sys')) (xapp_set sys)"
    using linked_new(1) [OF d(4) c refl x a e] requested_fields(3) [OF r] m(2) ev by (simp add: sys')
  moreover show "same_nodes sys sys'" using requested_fields [OF r] by (simp add: same_nodes_def sys')
  ultimately show "run_inv sys'" using run_inv_frame [OF inv, of sys'] requested_inv [OF r] m(1) by (simp add: sys')
qed

lemma no_use_next:
  assumes inv: "run_inv sys" and c: "nr_req_id (sy_ric sys) < 65536" and x: "xr_xapp_id x \<in> xapp_set sys"
    and new: "x \<notin> snd ` requests sys"
  shows "no_use sys (next_no sys) x"
proof -
  define a where "a = \<lparr>en_e2_node_id = sample_du 0, en_ric_id = numbered (next_no sys) (xr_ric_id x),
    en_ric_req_type = SUBSCRIPTION_RIC_REQUEST_TYPE\<rparr>"
  from linked_new(2,3) [OF run_invD(4) [OF inv] c refl x, of a] new show ?thesis
    by (force simp: a_def no_use_def)
qed

lemma subscription_step:
  assumes inv: "run_inv sys" and os: "os_ok new_fd" and x: "xs_xapp_id req \<in> xapp_set sys" and i: "connected sys (xs_id req)"
    and q: "ric_req_id (sr_ric_id (xs_sr req)) < 65536" and new: "sub_key req \<notin> snd ` requests sys"
    and c: "nr_req_id (sy_ric sys) < 65536"
  shows "\<exists>sys'. e2ap_msg_handle_iapp sys new_fd (E42_RIC_SUBSCRIPTION_REQUEST req) = Inr (NONE_E2_MSG_TYPE, sys') \<and> run_inv sys' \<and>
    same_nodes sys sys' \<and> requests sys' = insert (sub_node (next_no sys) req, sub_key req) (requests sys) \<and>
    events sys' = insert (sub_event (numbered (next_no sys) (sr_ric_id (xs_sr req)))) (events sys)"
proof -
  note d = run_invD [OF inv]
  obtain s where s: "node_at (sy_ric sys) (xs_id req) s" "registry sys (node_id_rank (xs_id req)) \<noteq> None"
    using connected_at [OF d(1) i] .
  have xk: "xr_xapp_id (sub_key req) \<in> xapp_set sys" using x by (simp add: sub_key_def)
  obtain ric' m' where r: "e2ap_handle_e42_ric_subscription_request_iapp sys new_fd req =
      Inr (NONE_E2_MSG_TYPE, sys\<lparr>sy_ric := ric', sy_iapp := (sy_iapp sys)\<lparr>ia_map_ric_id := m'\<rparr>\<rparr>)"
    "requested (count_up (sy_ric sys)) (new_fd (nr_io (sy_ric sys))) 3000
      (sub_event (numbered (next_no sys) (sr_ric_id (xs_sr req)))) s
      (ap_enc (nr_ap (sy_ric sys)) (RIC_SUBSCRIPTION_REQUEST ((xs_sr req)\<lparr>sr_ric_id := numbered (next_no sys) (sr_ric_id (xs_sr req))\<rparr>))) ric'"
    "reqs_inv m'" "pairs_of m' = insert (sub_node (next_no sys) req, sub_key req) (requests sys)"
    using e42_subscription_ok [where new_fd = new_fd and sys = sys and s = s, OF d(3) os_fresh [OF os] s registered_number [OF d(1) x] q
        no_use_next [OF inv c xk new] system_okD(5) [OF d(1)]] by blast
  have e: "sub_event (numbered (next_no sys) (sr_ric_id (xs_sr req))) =
      (if en_ric_req_type (sub_node (next_no sys) req) = SUBSCRIPTION_RIC_REQUEST_TYPE
       then sub_event (en_ric_id (sub_node (next_no sys) req)) else ctrl_event (en_ric_id (sub_node (next_no sys) req)))"
    by (simp add: sub_node_def)
  have a: "en_ric_id (sub_node (next_no sys) req) = numbered (next_no sys) (xr_ric_id (sub_key req))"
    by (simp add: sub_node_def sub_key_def)
  from requested_state [OF inv c xk a e r(2-4) refl] r(1,4) show ?thesis by (simp add: e2ap_msg_handle_iapp_def)
qed

text \<open>The same for a control.\<close>

definition ctrl_key :: "e42_ric_control_request \<Rightarrow> xapp_ric_id" where
  "ctrl_key req = \<lparr>xr_ric_id = cr_ric_id (xc_ctrl_req req), xr_xapp_id = xc_xapp_id req\<rparr>"





text \<open>A deletion that the RIC forwards; when one is pending for the request, nothing happens.\<close>

definition deletable :: "('c, 'i) ric_system \<Rightarrow> e2_node_ric_id \<Rightarrow> bool" where
  "deletable sys a \<longleftrightarrow> a \<in> fst ` requests sys \<and> en_ric_req_type a = SUBSCRIPTION_RIC_REQUEST_TYPE \<and>
     connected sys (en_e2_node_id a) \<and> sub_event (en_ric_id a) \<notin> events sys"


text \<open>The handler of a deletion forwards it to the node under the number of the request.\<close>

lemma delete_forwarded:
  assumes inv: "run_inv sys" and x: "(a, x) \<in> requests sys" "en_ric_req_type a = SUBSCRIPTION_RIC_REQUEST_TYPE"
    and u: "\<forall>(b, y) \<in> requests sys. xr_ric_id y = xr_ric_id x \<longrightarrow> y = x"
  shows "e2ap_msg_handle_iapp sys new_fd (E42_RIC_SUBSCRIPTION_DELETE_REQUEST (del_req x)) =
    bind_res (fwd_ric_subscription_request_delete (sy_ric sys) (new_fd (nr_io (sy_ric sys))) (en_e2_node_id a)
      \<lparr>sd_ric_id = en_ric_id a\<rparr>) (\<lambda>ric. Inr (NONE_E2_MSG_TYPE, sys\<lparr>sy_ric := ric\<rparr>))"
proof -
  note d = run_invD [OF inv]
  have find: "find_ric_req_map_ric_id (ia_map_ric_id (sy_iapp sys)) x = Inr a"
    by (rule find_ric_req_unique [OF system_okD(9) [OF d(1)] x(1) u])
  have "\<lparr>xr_ric_id = xr_ric_id x, xr_xapp_id = xr_xapp_id x\<rparr> = x" by simp
  with find have find': "find_ric_req_map_ric_id (ia_map_ric_id (sy_iapp sys))
    \<lparr>xr_ric_id = xr_ric_id x, xr_xapp_id = xr_xapp_id x\<rparr> = Inr a" by (simp only:)
  obtain n where n: "en_ric_id a = numbered n (xr_ric_id x)" using linkedD(3) [OF d(4) x(1)] by (auto simp: request_ok_def)
  have dst: "\<lparr>sd_ric_id = (xr_ric_id x)\<lparr>ric_req_id := ric_req_id (en_ric_id a)\<rparr>\<rparr> = \<lparr>sd_ric_id = en_ric_id a\<rparr>"
    by (simp add: n numbered_def)
  show ?thesis using find' x(2) dst
    by (simp add: e2ap_msg_handle_iapp_def e2ap_handle_e42_ric_subscription_delete_request_iapp_def del_req_def Let_def
        cp_ric_subscription_delete_request_def)
qed



lemma subs_of_requests:
  assumes "reqs_inv m" "a \<in> set (subs_of x (rb_items (bm_right m)))"
  shows "\<exists>y. (a, y) \<in> pairs_of m \<and> xr_xapp_id y = x \<and> en_ric_req_type a = SUBSCRIPTION_RIC_REQUEST_TYPE"
proof -
  obtain e where e: "e \<in> set (rb_items (bm_right m))" "a = snd (snd e)" "xr_xapp_id (it_key e) = x"
    "en_ric_req_type a = SUBSCRIPTION_RIC_REQUEST_TYPE" using assms(2) by (auto simp: subs_of_def)
  have "kvs (rb_items (bm_right m)) = (pairs_of m)\<inverse>" using assms(1) by (simp add: reqs_inv_def bm_inv_def pairs_of_def)
  with kvs_item [OF e(1)] e show ?thesis by auto
qed



section \<open>Setup of an xApp\<close>

lemma next_xapp_id:
  assumes "7 \<le> (c :: u32)" "c < 65536"
  shows "c + 1 \<le> 65536" "unat (c + 1) = Suc (unat c)" "(word_of_nat (unat c) :: u16) = ucast c"
    "(ucast c :: u16) \<notin> word_of_nat ` {7..<unat c}"
proof -
  have u: "7 \<le> unat c" "unat c < 65536" using assms by (simp_all add: word_le_nat_alt word_less_nat_alt)
  show le: "c + 1 \<le> 65536" by (rule u32_step(2) [OF assms(2)])
  show s: "unat (c + 1) = Suc (unat c)" using u by (simp add: unat_word_ariths)
  show w: "(word_of_nat (unat c) :: u16) = ucast c" by (simp add: word_unat_eq_iff unat_of_nat unsigned_ucast_eq take_bit_eq_mod)
  show "(ucast c :: u16) \<notin> word_of_nat ` {7..<unat c}"
  proof
    assume "(ucast c :: u16) \<in> word_of_nat ` {7..<unat c}"
    then obtain k where k: "k \<in> {7..<unat c}" "(word_of_nat (unat c) :: u16) = word_of_nat k" using w by auto
    have "unat c = k" by (rule inj_onD [OF inj_small [OF le] k(2)]) (use k(1) s u in auto)
    with k(1) show False by simp
  qed
qed

lemma xapp_setup_step:
  assumes inv: "run_inv sys" and msg: "ap_dec (ia_ap (sy_iapp sys)) ba = E42_SETUP_REQUEST req"
    and rf: "xq_ran_func req \<noteq> []" and id: "ia_xapp_id (sy_iapp sys) < 65536"
    and new: "si_addr info \<notin> si_addr ` snd ` pairs_of (ia_xapps (sy_iapp sys))"
  shows "\<exists>sys'. iapp_msg_arrived sys new_fd info ba = Inr sys' \<and> run_inv sys' \<and>
    pairs_of (ia_xapps (sy_iapp sys')) = insert (ucast (ia_xapp_id (sy_iapp sys)), info) (pairs_of (ia_xapps (sy_iapp sys))) \<and>
    sy_ric sys' = sy_ric sys \<and> requests sys' = requests sys \<and> ia_ap (sy_iapp sys') = ia_ap (sy_iapp sys)"
proof -
  note d = run_invD [OF inv] and o = system_okD [OF run_invD(1) [OF inv]]
  let ?iapp = "sy_iapp sys" and ?nodes = "map connected_node (entries (ia_e2_nodes (sy_iapp sys)))"
  let ?c = "ia_xapp_id (sy_iapp sys)"
  let ?ans = "E42_SETUP_RESPONSE \<lparr>xp_xapp_id = ucast ?c, xp_nodes = ?nodes\<rparr>"
  have c: "7 \<le> ?c" "xapp_set sys = word_of_nat ` {7..<unat ?c}" using o(3) by (simp_all add: xapps_numbered_def)
  note n = next_xapp_id [OF c(1) id]
  obtain arr where arr: "generate_e2_node_arr (ia_e2_nodes ?iapp) = Inr arr" "read_nodes arr = Inr ?nodes"
    "free_e2_node_arr arr = Inr ()"
    using node_arr_ok [OF o(10,11)] by blast
  have free: "e2ap_msg_free ?ans = Inr ()"
    using arr(2,3) by (simp add: e2ap_msg_free_def e2ap_free_e42_setup_response_def free_e2_node_arr_def)
  obtain m where m: "add_map_xapps_sad (ia_xapps ?iapp) (ucast ?c) info = Inr m" "xapps_inv m"
    "pairs_of m = insert (ucast ?c, info) (pairs_of (ia_xapps ?iapp))"
    using add_map_xapps_sad_ok [OF o(8), of "ucast ?c" info] n(4) new c(2) by auto
  define iapp' where "iapp' = ?iapp\<lparr>ia_xapp_id := ?c + 1, ia_xapps := m, ia_sent := ia_sent ?iapp @ [(info, ap_enc (ia_ap ?iapp) ?ans)]\<rparr>"
  let ?sys = "sys\<lparr>sy_iapp := iapp'\<rparr>"
  have run: "iapp_msg_arrived sys new_fd info ba = Inr ?sys"
    using rf arr(1,2) free m(1) o(6)
    by (simp add: iapp_msg_arrived_def msg e2ap_msg_handle_iapp_def on_iapp_def e2ap_handle_e42_setup_request_iapp_def
        generate_setup_response_def e2ap_reg_sock_addr_iapp_def e2ap_msg_enc_iapp_def e2ap_send_sctp_msg_iapp_def
        E2AP_Msg_Free.e2ap_msg_free_def iapp'_def)
  have x: "xapp_set ?sys = insert (ucast ?c) (xapp_set sys)" by (simp add: iapp'_def m(3))
  have "{7..<Suc (unat ?c)} = insert (unat ?c) {7..<unat ?c}" using c(1) by (auto simp: word_le_nat_alt)
  then have "xapps_numbered iapp'"
    using n c x less_le_trans [of 7 ?c] by (simp add: xapps_numbered_def iapp'_def m(3) word_le_nat_alt)
  then have "system_ok ?sys"
    using o d(1) m(2) by (simp add: system_ok_def views_agree_def sys_inv_def iapp'_def)
  moreover have "linked (requests ?sys) (events ?sys) (nr_req_id (sy_ric ?sys)) (xapp_set ?sys)"
    using linked_more_xapps [OF d(4), of "xapp_set ?sys"] x by (simp add: iapp'_def subset_insertI)
  ultimately have "run_inv ?sys" using d(2) by (simp add: run_inv_def models_ok_def)
  with run show ?thesis by (simp add: iapp'_def m(3))
qed


section \<open>The state machine\<close>

datatype run_input =
    Node_Msg sctp_info byte_array
  | Node_Gone sctp_info
  | Xapp_Msg sctp_info byte_array
  | Xapp_Gone sctp_info

definition run_step :: "('c, 'i) ric_system \<Rightarrow> os_fd \<Rightarrow> run_input \<Rightarrow> ('c, 'i) ric_system res" where
  "run_step sys new_fd i = (case i of
     Node_Msg info ba \<Rightarrow> sctp_msg_arrived_event sys new_fd info ba
   | Node_Gone info \<Rightarrow> notification_handle_ric sys new_fd info
   | Xapp_Msg info ba \<Rightarrow> e2_event_loop_iapp sys new_fd (IAPP_SCTP_MSG_ARRIVED info ba)
   | Xapp_Gone info \<Rightarrow> e2_event_loop_iapp sys new_fd (IAPP_SCTP_CONNECTION_SHUTDOWN info))"

text \<open>
  What a well-behaved node sends: the setup of a node that is not connected, over a connection of its
  own, while there is room (the array of nodes is shifted in a buffer that never shrinks; up to 31
  nodes every size stays small); the answer to a request that waits for one, without an action that
  was refused; an indication of a known function. The decoder gives messages that can be released.
\<close>

definition valid_node_msg :: "('c, 'i) ric_system \<Rightarrow> sctp_info \<Rightarrow> e2ap_msg \<Rightarrow> bool" where
  "valid_node_msg sys info msg \<longleftrightarrow> (case msg of
     E2_SETUP_REQUEST req \<Rightarrow> good_setup req \<and> node_id_rank (es_id req) \<notin> node_id_rank ` set (conn sys) \<and>
       si_addr info \<notin> si_addr ` snd ` pairs_of (nr_e2_nodes (sy_ric sys)) \<and> length (conn sys) < 31
   | RIC_SUBSCRIPTION_RESPONSE p \<Rightarrow> sub_event (sp_ric_id p) \<in> events sys \<and> sp_not_admitted p = [] \<and>
       sp_admitted p = [\<lparr>aa_id = 0\<rparr>]
   | RIC_SUBSCRIPTION_DELETE_RESPONSE p \<Rightarrow> del_event (dp_ric_id p) \<in> events sys
   | RIC_CONTROL_ACKNOWLEDGE p \<Rightarrow> ctrl_event (ck_ric_id p) \<in> events sys
   | RIC_INDICATION ind \<Rightarrow> indication_ok sys ind
   | E2_NODE_CONFIGURATION_UPDATE m \<Rightarrow> True
   | _ \<Rightarrow> False)"

text \<open>
  What a well-behaved xApp sends: a setup over a connection of its own; a subscription or a control
  for a connected node, under its own number and not yet in use; the deletion of a subscription that
  was answered, whose node is connected and whose number no other xApp uses. The RIC has numbers left
  for xApps and for requests.
\<close>

definition valid_xapp_msg :: "('c, 'i) ric_system \<Rightarrow> sctp_info \<Rightarrow> e2ap_msg \<Rightarrow> bool" where
  "valid_xapp_msg sys info msg \<longleftrightarrow> (case msg of
     E42_SETUP_REQUEST req \<Rightarrow> xq_ran_func req \<noteq> [] \<and> ia_xapp_id (sy_iapp sys) < 65536 \<and>
       si_addr info \<notin> si_addr ` snd ` pairs_of (ia_xapps (sy_iapp sys))
   | E42_RIC_SUBSCRIPTION_REQUEST req \<Rightarrow> xs_xapp_id req \<in> xapp_set sys \<and> connected sys (xs_id req) \<and>
       ric_req_id (sr_ric_id (xs_sr req)) < 65536 \<and> sub_key req \<notin> snd ` requests sys \<and> nr_req_id (sy_ric sys) < 65536
   | E42_RIC_CONTROL_REQUEST req \<Rightarrow> xc_xapp_id req \<in> xapp_set sys \<and> connected sys (xc_id req) \<and>
       ric_req_id (cr_ric_id (xc_ctrl_req req)) < 65536 \<and> ctrl_key req \<notin> snd ` requests sys \<and> nr_req_id (sy_ric sys) < 65536
   | E42_RIC_SUBSCRIPTION_DELETE_REQUEST req \<Rightarrow> (\<exists>(a, x) \<in> requests sys. req = del_req x \<and> deletable sys a \<and>
       (\<forall>(b, y) \<in> requests sys. xr_ric_id y = xr_ric_id x \<longrightarrow> y = x))
   | _ \<Rightarrow> False)"

definition valid_input :: "('c, 'i) ric_system \<Rightarrow> run_input \<Rightarrow> bool" where
  "valid_input sys i \<longleftrightarrow> (case i of
     Node_Msg info ba \<Rightarrow> e2ap_msg_free (ap_dec (nr_ap (sy_ric sys)) ba) = Inr () \<and>
       valid_node_msg sys info (ap_dec (nr_ap (sy_ric sys)) ba)
   | Node_Gone info \<Rightarrow> si_addr info \<in> si_addr ` snd ` pairs_of (nr_e2_nodes (sy_ric sys))
   | Xapp_Msg info ba \<Rightarrow> e2ap_msg_free (ap_dec (ia_ap (sy_iapp sys)) ba) = Inr () \<and>
       valid_xapp_msg sys info (ap_dec (ia_ap (sy_iapp sys)) ba)
   | Xapp_Gone info \<Rightarrow> (\<exists>x s. xapp_at sys x s \<and> si_addr info = si_addr s \<and>
       (\<forall>(a, y) \<in> requests sys. xr_xapp_id y = x \<and> en_ric_req_type a = SUBSCRIPTION_RIC_REQUEST_TYPE \<longrightarrow> deletable sys a)))"

inductive reach :: "('c, 'i) ric_system \<Rightarrow> ('c, 'i) ric_system \<Rightarrow> bool" for start where
  reach_start: "reach start start"
| reach_step: "reach start sys \<Longrightarrow> os_ok new_fd \<Longrightarrow> valid_input sys i \<Longrightarrow> run_step sys new_fd i = Inr sys' \<Longrightarrow>
    reach start sys'"

inductive_cases reachE: "reach start sys"





lemma boot_run_inv:
  assumes fd: "0 < fd" and T: "rf_inv sm_ds" "\<forall>f sm. rf_map sm_ds f = Some sm \<longrightarrow> sm_ran_func_id sm = f"
    and enc: "\<forall>m. ap_enc ap m \<noteq> []" "\<forall>m. ap_enc ap' m \<noteq> []"
    and boot: "init_near_ric fd ap sm_ds = Inr ric" "init_e42_iapp fd' ap' = Inr iapp"
  shows "run_inv \<lparr>sy_ric = ric, sy_iapp = iapp\<rparr>"
proof -
  let ?sys = "\<lparr>sy_ric = ric, sy_iapp = iapp\<rparr>"
  have b: "system_ok ?sys" "pairs_of (ia_map_ric_id iapp) = {}" "pend ric = {}" "nr_req_id ric = 1021"
    "nr_sm_ds ric = sm_ds" "listeners_ok (nr_pub_sub ric)" "funcs (nr_pub_sub ric) = funcs sm_ds"
    using boot_ok [OF fd T(1) enc, of fd'] boot by auto
  have "linked {} {} 1021 (xapp_set ?sys)" by (intro linkedI) simp_all
  then show ?thesis using b T(2) by (simp add: run_inv_def models_ok_def)
qed


text \<open>A deletion for a node that has gone.\<close>

lemma fwd_delete_unknown:
  assumes inv: "near_ric_inv ric" and fd: "fresh_fd ric tfd" and i: "valid_node_id i" "\<nexists>s. node_at ric i s"
    and ev: "del_event (sd_ric_id sdr) \<notin> snd ` pend ric"
  shows "fwd_ric_subscription_request_delete ric tfd i sdr = Inl AssertFailed"
proof -
  have m: "pends_inv (nr_pending ric)" using inv by (simp add: near_ric_inv_def)
  have s: "search (bm_right (nr_pending ric)) (del_event (sd_ric_id sdr)) eq_pending_event_ric =
      Inr (assoc_rb_tree_end (bm_right (nr_pending ric)))"
    using search_pending [OF m, of "del_event (sd_ric_id sdr)"] ev by (auto simp: pend_def)
  obtain io p where st: "start_pending ric tfd 3000 (del_event (sd_ric_id sdr)) = Inr (ric\<lparr>nr_io := io, nr_pending := p\<rparr>)"
    "near_ric_inv (ric\<lparr>nr_io := io, nr_pending := p\<rparr>)"
    using start_pending_ok [OF inv fd ev, of 3000] by auto
  have "\<nexists>s. node_at (ric\<lparr>nr_io := io, nr_pending := p\<rparr>) i s" using i(2) by (simp add: node_at_def)
  from send_bytes_unknown [OF st(2) i(1) this] s st(1) show ?thesis
    by (simp add: fwd_ric_subscription_request_delete_def Let_def del_event_def)
qed

text \<open>A subscription whose node has gone and whose deletion is not under way.\<close>

definition stale :: "('c, 'i) ric_system \<Rightarrow> e2_node_ric_id \<Rightarrow> bool" where
  "stale sys a \<longleftrightarrow> en_ric_req_type a = SUBSCRIPTION_RIC_REQUEST_TYPE \<and> valid_node_id (en_e2_node_id a) \<and>
     (\<nexists>s. node_at (sy_ric sys) (en_e2_node_id a) s) \<and> del_event (en_ric_id a) \<notin> events sys"

lemma stale_delete:
  assumes ok: "system_ok sys" and os: "os_ok new_fd" and a: "stale sys a"
  shows "fwd_ric_subscription_request_delete (sy_ric sys) (new_fd (nr_io (sy_ric sys))) (en_e2_node_id a)
    \<lparr>sd_ric_id = en_ric_id a\<rparr> = Inl AssertFailed"
  using fwd_delete_unknown [OF system_okD(7) [OF ok] os_fresh [OF os], of "en_e2_node_id a"] a by (simp add: stale_def)

lemma stale_xapp_gone:
  assumes inv: "run_inv sys" and os: "os_ok new_fd" and x: "xapp_at sys x s"
    and a: "(a, y) \<in> requests sys" "xr_xapp_id y = x" "en_ric_req_type a = SUBSCRIPTION_RIC_REQUEST_TYPE"
    and all: "\<forall>(a, y) \<in> requests sys. xr_xapp_id y = x \<and> en_ric_req_type a = SUBSCRIPTION_RIC_REQUEST_TYPE \<longrightarrow> stale sys a"
  shows "run_step sys new_fd (Xapp_Gone s) = Inl AssertFailed"
proof -
  note o = system_okD [OF run_invD(1) [OF inv]]
  let ?es = "rb_items (bm_right (ia_map_ric_id (sy_iapp sys)))"
  obtain arr where arr: "find_all_subs_map_ric_id (ia_map_ric_id (sy_iapp sys)) x = Inr arr" "arr_inv arr"
    "arr_list arr = subs_of x ?es"
    using find_all_subs_ok [OF o(9)] by blast
  have "(y, a) \<in> kvs ?es" using a(1) o(9) by (auto simp: reqs_inv_def bm_inv_def pairs_of_def)
  then obtain k where "(k, y, a) \<in> set ?es" by (auto simp: kvs_elem)
  then have "a \<in> set (arr_list arr)" using a(2,3) unfolding arr(3) subs_of_def by force
  then obtain b bs where b: "arr_list arr = b # bs" by (cases "arr_list arr") auto
  then have "stale sys b" using subs_of_requests [OF o(9), of b x] all unfolding arr(3) by fastforce
  from stale_delete [OF run_invD(1) [OF inv] os this]
  have "fold_res (gen_e2ap_subs_delete new_fd) (arr_list arr) sys = Inl AssertFailed"
    by (simp add: b gen_e2ap_subs_delete_def)
  then show ?thesis
    using find_map_xapps_xid_ok [OF o(8) x refl] arr(1)
    by (simp add: run_step_def e2_event_loop_iapp_def rm_if_pending_subs_def arr_for_all_ok [OF arr(2)])
qed

lemma node_gone_stale:
  assumes inv: "run_inv sys" and node: "(i, s) \<in> pairs_of (nr_e2_nodes (sy_ric sys))"
  shows "\<exists>sys'. run_step sys new_fd (Node_Gone s) = Inr sys' \<and> run_inv sys' \<and> same_requests sys sys' \<and>
    (\<forall>a. en_e2_node_id a = i \<and> en_ric_req_type a = SUBSCRIPTION_RIC_REQUEST_TYPE \<and> del_event (en_ric_id a) \<notin> events sys \<longrightarrow>
      stale sys' a)"
proof -
  note o = system_okD [OF run_invD(1) [OF inv]]
  obtain sys' where s: "notification_handle_ric sys new_fd s = Inr sys'" "system_ok sys'" "same_requests sys sys'"
    "pairs_of (nr_e2_nodes (sy_ric sys')) = pairs_of (nr_e2_nodes (sy_ric sys)) - {(i, s)}"
    using shutdown_ok [OF run_invD(1) [OF inv] node refl, of new_fd] by metis
  have "\<not> same_node j i" if "(j, t) \<in> pairs_of (nr_e2_nodes (sy_ric sys'))" for j t
    using that nodes_unique(1) [OF o(12) node, of j t] unfolding s(4) by auto
  then have "stale sys' a" if "en_e2_node_id a = i" "en_ric_req_type a = SUBSCRIPTION_RIC_REQUEST_TYPE"
    "del_event (en_ric_id a) \<notin> events sys" for a
    using that nodes_valid [OF o(12) node] s(3) by (auto simp: stale_def node_at_def same_requests_def pend_def)
  with s same_requests_run [OF inv s(2,3)] show ?thesis by (auto simp: run_step_def)
qed


section \<open>A run\<close>

text \<open>
  The DU 3 connects, then an xApp, which subscribes to it; the node accepts. The bytes of the sample
  name the message.
\<close>

definition run_ap :: e2ap_ap where
  "run_ap = sample_ap\<lparr>ap_dec := \<lambda>b.
     if b = [0] then E2_SETUP_REQUEST sample_setup
     else if b = [1] then E42_SETUP_REQUEST \<lparr>xq_ran_func = [sample_rf]\<rparr>
     else if b = [2] then E42_RIC_SUBSCRIPTION_REQUEST sample_sub
     else RIC_SUBSCRIPTION_RESPONSE (accepted_response \<lparr>ric_req_id = 1021, ric_inst_id = 0, ran_func_id = 142\<rparr>)\<rparr>"

lemma run_ap_simps [simp]:
  "ap_enc run_ap m \<noteq> []" "ap_dec run_ap [0] = E2_SETUP_REQUEST sample_setup"
  "ap_dec run_ap [1] = E42_SETUP_REQUEST \<lparr>xq_ran_func = [sample_rf]\<rparr>"
  "ap_dec run_ap [2] = E42_RIC_SUBSCRIPTION_REQUEST sample_sub"
  "ap_dec run_ap [3] = RIC_SUBSCRIPTION_RESPONSE (accepted_response \<lparr>ric_req_id = 1021, ric_inst_id = 0, ran_func_id = 142\<rparr>)"
  by (simp_all add: run_ap_def)

lemma sample_fd_ok: "os_ok sample_fd"
  using sample_fd_fresh [of "undefined\<lparr>nr_io := io\<rparr>" for io] by (simp add: os_ok_def fresh_fd_def)

lemma sample_boot:
  obtains T :: "(u16, (string, string) sm_ric) rb_tree" and ric iapp where "rf_inv T"
    "\<forall>f sm. rf_map T f = Some sm \<longrightarrow> sm_ran_func_id sm = f" "init_near_ric 5 run_ap T = Inr ric"
    "init_e42_iapp 6 run_ap = Inr iapp" "run_inv \<lparr>sy_ric = ric, sy_iapp = iapp\<rparr>" "arr_list (nr_conn_e2_nodes ric) = []"
    "pairs_of (nr_e2_nodes ric) = {}" "pairs_of (ia_map_ric_id iapp) = {}" "pairs_of (ia_xapps iapp) = {}"
    "pend ric = {}" "nr_req_id ric = 1021" "nr_ap ric = run_ap" "ia_ap iapp = run_ap" "ia_xapp_id iapp = 7"
proof -
  obtain T :: "(u16, (string, string) sm_ric) rb_tree" where T: "rf_inv T" "rf_map T 142 = Some (sample_sm 142)"
    "funcs T = {142}" using sample_models by metis
  have m: "\<forall>f sm. rf_map T f = Some sm \<longrightarrow> sm_ran_func_id sm = f"
  proof (intro allI impI)
    fix f sm assume sm: "rf_map T f = Some sm"
    then have "f = 142" using rf_map_funcs [of T f] T(3) by simp
    then show "sm_ran_func_id sm = f" using sm T(2) by (auto simp: sample_sm_def)
  qed
  obtain ric :: "(string, string) near_ric" and iapp where b: "init_near_ric 5 run_ap T = Inr ric"
    "init_e42_iapp 6 run_ap = Inr iapp" "arr_list (nr_conn_e2_nodes ric) = []" "pairs_of (nr_e2_nodes ric) = {}"
    "pairs_of (ia_map_ric_id iapp) = {}" "pairs_of (ia_xapps iapp) = {}" "pend ric = {}" "nr_req_id ric = 1021"
    "nr_ap ric = run_ap" "ia_ap iapp = run_ap" "ia_xapp_id iapp = 7"
    using boot_ok [of 5 T run_ap run_ap 6] T(1) by auto
  have "run_inv \<lparr>sy_ric = ric, sy_iapp = iapp\<rparr>" using boot_run_inv [OF _ T(1) m _ _ b(1,2)] by simp
  from that [OF T(1) m b(1,2) this b(3-11)] show ?thesis .
qed

lemma sample_connected:
  obtains T :: "(u16, (string, string) sm_ric) rb_tree" and ric iapp sys where "rf_inv T"
    "\<forall>f sm. rf_map T f = Some sm \<longrightarrow> sm_ran_func_id sm = f" "init_near_ric 5 run_ap T = Inr ric"
    "init_e42_iapp 6 run_ap = Inr iapp" "reach \<lparr>sy_ric = ric, sy_iapp = iapp\<rparr> sys" "run_inv sys"
    "requests sys = {}" "events sys = {}" "conn sys = [sample_du 3]" "nr_req_id (sy_ric sys) = 1021"
    "nr_ap (sy_ric sys) = run_ap" "ia_ap (sy_iapp sys) = run_ap"
    "pairs_of (nr_e2_nodes (sy_ric sys)) = {(sample_du 3, sample_sctp 36421)}"
    "pairs_of (ia_xapps (sy_iapp sys)) = {(7, sample_sctp 50000)}"
proof -
  let ?fd = sample_fd
  obtain T :: "(u16, (string, string) sm_ric) rb_tree" and ric iapp where b: "rf_inv T"
    "\<forall>f sm. rf_map T f = Some sm \<longrightarrow> sm_ran_func_id sm = f" "init_near_ric 5 run_ap T = Inr ric"
    "init_e42_iapp 6 run_ap = Inr iapp" "run_inv \<lparr>sy_ric = ric, sy_iapp = iapp\<rparr>" "arr_list (nr_conn_e2_nodes ric) = []"
    "pairs_of (nr_e2_nodes ric) = {}" "pairs_of (ia_map_ric_id iapp) = {}" "pairs_of (ia_xapps iapp) = {}"
    "pend ric = {}" "nr_req_id ric = 1021" "nr_ap ric = run_ap" "ia_ap iapp = run_ap" "ia_xapp_id iapp = 7"
    by (rule sample_boot)
  let ?s0 = "\<lparr>sy_ric = ric, sy_iapp = iapp\<rparr>"
  have g: "good_setup sample_setup" by (rule sample_setup_good)
  obtain s1 where s1: "sctp_msg_arrived_event ?s0 ?fd (sample_sctp 36421) [0] = Inr s1" "system_ok s1" "conn s1 = [sample_du 3]"
    "pairs_of (nr_e2_nodes (sy_ric s1)) = {(sample_du 3, sample_sctp 36421)}" "same_requests ?s0 s1"
    using setup_ok [OF run_invD(1) [OF b(5)], of "[0]" sample_setup "sample_sctp 36421" ?fd] g b
    by (auto simp: sample_setup_def)
  have r1: "run_inv s1" by (rule same_requests_run [OF b(5) s1(2,5)])
  have "valid_input ?s0 (Node_Msg (sample_sctp 36421) [0])"
    using b g setup_messages_freed(1) [OF g] by (simp add: valid_input_def valid_node_msg_def)
  from reach_step [OF reach_start sample_fd_ok this, of s1] have p1: "reach ?s0 s1" by (simp add: run_step_def s1(1))
  have f1: "ia_xapp_id (sy_iapp s1) = 7" "ia_ap (sy_iapp s1) = run_ap" "pairs_of (ia_xapps (sy_iapp s1)) = {}"
    "requests s1 = {}" "nr_ap (sy_ric s1) = run_ap" "events s1 = {}" "nr_req_id (sy_ric s1) = 1021"
    using s1(5) b by (simp_all add: same_requests_def pend_def)
  obtain s2 where s2: "iapp_msg_arrived s1 ?fd (sample_sctp 50000) [1] = Inr s2" "run_inv s2"
    "pairs_of (ia_xapps (sy_iapp s2)) = {(7, sample_sctp 50000)}" "sy_ric s2 = sy_ric s1" "requests s2 = requests s1"
    "ia_ap (sy_iapp s2) = ia_ap (sy_iapp s1)"
    using xapp_setup_step [OF r1, of "[1]" "\<lparr>xq_ran_func = [sample_rf]\<rparr>" "sample_sctp 50000" ?fd] f1 by auto
  have "valid_input s1 (Xapp_Msg (sample_sctp 50000) [1])" using f1 by (simp add: valid_input_def valid_xapp_msg_def)
  from reach_step [OF p1 sample_fd_ok this, of s2] have "reach ?s0 s2"
    by (simp add: run_step_def e2_event_loop_iapp_def s2(1))
  from that [OF b(1-4) this s2(2)] s1(3,4) f1 s2(3-6) show ?thesis by simp
qed

lemma sample_run:
  obtains T :: "(u16, (string, string) sm_ric) rb_tree" and ric iapp sys where "rf_inv T"
    "\<forall>f sm. rf_map T f = Some sm \<longrightarrow> sm_ran_func_id sm = f" "init_near_ric 5 run_ap T = Inr ric"
    "init_e42_iapp 6 run_ap = Inr iapp" "reach \<lparr>sy_ric = ric, sy_iapp = iapp\<rparr> sys" "run_inv sys"
    "requests sys = {(sub_node 1021 sample_sub, sub_key sample_sub)}" "events sys = {}"
    "pairs_of (nr_e2_nodes (sy_ric sys)) = {(sample_du 3, sample_sctp 36421)}"
    "pairs_of (ia_xapps (sy_iapp sys)) = {(7, sample_sctp 50000)}"
proof -
  let ?fd = sample_fd
  let ?id = "\<lparr>ric_req_id = 1021, ric_inst_id = 0, ran_func_id = 142\<rparr> :: ric_gen_id"
  obtain T :: "(u16, (string, string) sm_ric) rb_tree" and ric iapp s2 where b: "rf_inv T"
    "\<forall>f sm. rf_map T f = Some sm \<longrightarrow> sm_ran_func_id sm = f" "init_near_ric 5 run_ap T = Inr ric"
    "init_e42_iapp 6 run_ap = Inr iapp" and p2: "reach \<lparr>sy_ric = ric, sy_iapp = iapp\<rparr> s2" "run_inv s2"
    and s2: "requests s2 = {}" "events s2 = {}" "conn s2 = [sample_du 3]" "nr_req_id (sy_ric s2) = 1021"
    "nr_ap (sy_ric s2) = run_ap" "ia_ap (sy_iapp s2) = run_ap"
    "pairs_of (nr_e2_nodes (sy_ric s2)) = {(sample_du 3, sample_sctp 36421)}"
    "pairs_of (ia_xapps (sy_iapp s2)) = {(7, sample_sctp 50000)}"
    by (rule sample_connected)
  let ?s0 = "\<lparr>sy_ric = ric, sy_iapp = iapp\<rparr>"
  have x: "xs_xapp_id sample_sub \<in> xapp_set s2" "connected s2 (xs_id sample_sub)"
    "ric_req_id (sr_ric_id (xs_sr sample_sub)) < 65536"
    "sub_key sample_sub \<notin> snd ` requests s2" "nr_req_id (sy_ric s2) < 65536"
    using s2 by (simp_all add: sample_sub_def connected_def)
  have id: "numbered (next_no s2) (sr_ric_id (xs_sr sample_sub)) = ?id"
    using s2(4) by (simp add: sample_sub_def numbered_def)
  obtain s3 where s3: "e2ap_msg_handle_iapp s2 ?fd (E42_RIC_SUBSCRIPTION_REQUEST sample_sub) = Inr (NONE_E2_MSG_TYPE, s3)"
    "run_inv s3" "same_nodes s2 s3" "requests s3 = {(sub_node 1021 sample_sub, sub_key sample_sub)}" "events s3 = {sub_event ?id}"
    using subscription_step [OF p2(2) sample_fd_ok x] s2(1,2,4) id by auto
  have "valid_input s2 (Xapp_Msg (sample_sctp 50000) [2])"
    using x s2(6) by (simp add: valid_input_def valid_xapp_msg_def)
  moreover have "iapp_msg_arrived s2 ?fd (sample_sctp 50000) [2] = Inr s3"
    by (rule iapp_arrived_ok [OF _ _ s3(1)]) (simp_all add: s2(6))
  ultimately have p3: "reach ?s0 s3" using reach_step [OF p2(1) sample_fd_ok] by (simp add: run_step_def e2_event_loop_iapp_def)
  have ap3: "nr_ap (sy_ric s3) = run_ap" using s3(3) s2(5) by (simp add: same_nodes_def)
  obtain s4 where s4: "e2ap_msg_handle_ric s3 ?fd (RIC_SUBSCRIPTION_RESPONSE (accepted_response ?id)) = Inr (NONE_E2_MSG_TYPE, s4)"
    "run_inv s4" "same_nodes s3 s4" "requests s4 = requests s3" "events s4 = {}"
    using subscription_response_step [OF s3(2), of "accepted_response ?id" ?fd] s3(5) by auto
  have "valid_input s3 (Node_Msg (sample_sctp 36421) [3])"
    using s3(5) ap3 by (simp add: valid_input_def valid_node_msg_def)
  moreover have "sctp_msg_arrived_event s3 ?fd (sample_sctp 36421) [3] = Inr s4"
    by (rule arrived_ok [OF _ _ s4(1)]) (simp_all add: ap3)
  ultimately have p4: "reach ?s0 s4" using reach_step [OF p3 sample_fd_ok] by (simp add: run_step_def)
  have "pairs_of (nr_e2_nodes (sy_ric s4)) = {(sample_du 3, sample_sctp 36421)}"
    "pairs_of (ia_xapps (sy_iapp s4)) = {(7, sample_sctp 50000)}"
    using s4(3) s3(3) s2(7,8) by (simp_all add: same_nodes_def)
  with that [OF b p4 s4(2)] s4(4,5) s3(4) show ?thesis by simp
qed


section \<open>What holds of every run\<close>



text \<open>C31: a subscription outlives the node it is for. When the connection of the node ends, the iApp keeps the
  request; from then on the end of the connection of the xApp, whose subscriptions were all with
  that node, and the deletion of the subscription by the xApp both abort the RIC, because the
  deletion is forwarded to a node whose endpoint is no longer known.\<close>

theorem lost_node_subscription_aborts:
  assumes inv: "run_inv sys" and os: "os_ok new_fd"
    and node: "(i, s) \<in> pairs_of (nr_e2_nodes (sy_ric sys))" and xapp: "xapp_at sys x t"
    and req: "(a, y) \<in> requests sys" "xr_xapp_id y = x" "en_ric_req_type a = SUBSCRIPTION_RIC_REQUEST_TYPE"
    and only: "\<forall>(b, z) \<in> requests sys. xr_xapp_id z = x \<and> en_ric_req_type b = SUBSCRIPTION_RIC_REQUEST_TYPE \<longrightarrow>
      en_e2_node_id b = i \<and> del_event (en_ric_id b) \<notin> events sys"
    and one: "\<forall>(b, z) \<in> requests sys. xr_ric_id z = xr_ric_id y \<longrightarrow> z = y"
  shows "\<exists>sys'. run_step sys new_fd (Node_Gone s) = Inr sys' \<and> requests sys' = requests sys \<and>
    run_step sys' new_fd (Xapp_Gone t) = Inl AssertFailed \<and>
    e2ap_msg_handle_iapp sys' new_fd (E42_RIC_SUBSCRIPTION_DELETE_REQUEST (del_req y)) = Inl AssertFailed"
proof -
  obtain sys' where s: "run_step sys new_fd (Node_Gone s) = Inr sys'" "run_inv sys'" "same_requests sys sys'"
    "\<forall>a. en_e2_node_id a = i \<and> en_ric_req_type a = SUBSCRIPTION_RIC_REQUEST_TYPE \<and> del_event (en_ric_id a) \<notin> events sys \<longrightarrow>
      stale sys' a"
    using node_gone_stale [OF inv node, of new_fd] by blast
  have q: "requests sys' = requests sys" "xapp_at sys' x t" using s(3) xapp by (simp_all add: same_requests_def)
  have all: "\<forall>(b, z) \<in> requests sys'. xr_xapp_id z = x \<and> en_ric_req_type b = SUBSCRIPTION_RIC_REQUEST_TYPE \<longrightarrow> stale sys' b"
    using only s(4) unfolding q(1) by blast
  have gone: "run_step sys' new_fd (Xapp_Gone t) = Inl AssertFailed"
    using stale_xapp_gone [OF s(2) os q(2), of a y] req all q(1) by simp
  have "stale sys' a" using all req q(1) by blast
  then have fwd: "fwd_ric_subscription_request_delete (sy_ric sys') (new_fd (nr_io (sy_ric sys'))) (en_e2_node_id a)
    \<lparr>sd_ric_id = en_ric_id a\<rparr> = Inl AssertFailed" by (rule stale_delete [OF run_invD(1) [OF s(2)] os])
  have "e2ap_msg_handle_iapp sys' new_fd (E42_RIC_SUBSCRIPTION_DELETE_REQUEST (del_req y)) = Inl AssertFailed"
    using delete_forwarded [OF s(2)] req one fwd q(1) by simp
  with s(1) q(1) gone show ?thesis by blast
qed

theorem lost_node_subscription_aborts_witness:
  "\<exists>sys sys' :: (string, string) ric_system. run_step sys sample_fd (Node_Gone (sample_sctp 36421)) = Inr sys' \<and>
     run_step sys' sample_fd (Xapp_Gone (sample_sctp 50000)) = Inl AssertFailed"
proof -
  obtain sys :: "(string, string) ric_system" where r: "run_inv sys"
    "requests sys = {(sub_node 1021 sample_sub, sub_key sample_sub)}" "events sys = {}"
    "pairs_of (nr_e2_nodes (sy_ric sys)) = {(sample_du 3, sample_sctp 36421)}"
    "pairs_of (ia_xapps (sy_iapp sys)) = {(7, sample_sctp 50000)}"
    by (rule sample_run)
  from lost_node_subscription_aborts [OF r(1) sample_fd_ok, of "sample_du 3" "sample_sctp 36421" 7 "sample_sctp 50000"
      "sub_node 1021 sample_sub" "sub_key sample_sub"] r(2-5)
  show ?thesis by (auto simp: sub_node_def sub_key_def sample_sub_def)
qed

end
