(* ===== verification/Plain_Layout.thy ===== *)
theory Plain_Layout
  imports E2AP_Config
begin

text \<open>
  Structures as bytes: what the plain codecs of the service models copy with \<open>memcpy\<close>. Numbers are
  stored little-endian; a structure is its members in order, with padding where the layout of the
  platform (System V, x86-64) has it. Padding bytes hold whatever the memory held, so an encoder
  takes them as an argument and a decoder ignores them.

  The messages that carry statistics have all the same shape: a 32-bit count, the structures, a
  64-bit time stamp. Locale \<open>layout\<close> is the contract of a structure of fixed size; the loops over the
  structures are proved for it once, and each service model interprets it.
\<close>

section \<open>Numbers\<close>

primrec le :: "nat \<Rightarrow> 'a :: len word \<Rightarrow> byte_array" where
  "le 0 w = []"
| "le (Suc n) w = ucast w # le n (drop_bit 8 w)"

primrec of_le :: "byte_array \<Rightarrow> 'a :: len word" where
  "of_le [] = 0"
| "of_le (b # bs) = or (ucast b) (push_bit 8 (of_le bs))"

definition fld :: "nat \<Rightarrow> nat \<Rightarrow> byte_array \<Rightarrow> 'a :: len word" where
  "fld off n bs = of_le (take n (drop off bs))"

lemma length_le [simp]: "length (le n w) = n"
  by (induction n arbitrary: w) simp_all

lemma of_le_le: "of_le (le n w) = take_bit (8 * n) w"
proof (induction n arbitrary: w)
  case (Suc n)
  have "or (ucast (ucast w :: u8)) (push_bit 8 (take_bit (8 * n) (drop_bit 8 w))) = take_bit (8 + 8 * n) w"
    by (rule bit_word_eqI) (auto simp: bit_simps)
  with Suc show ?case by simp
qed simp

lemma of_le_full [simp]: "of_le (le 8 (a :: u64)) = a" "of_le (le 4 (b :: u32)) = b" "of_le (le 2 (c :: u16)) = c"
  "of_le (le (Suc 0) (d :: u8)) = d"
  by (simp_all add: of_le_le take_bit_word_eq_self del: le.simps)

text \<open>Any bytes are the bytes of the number that they spell.\<close>

lemma bit_of_le: "bit (of_le bs :: 'a :: len word) i \<Longrightarrow> i < 8 * length bs"
proof (induction bs arbitrary: i)
  case (Cons b bs)
  show ?case
  proof (cases "i < 8")
    case False
    then have "bit (of_le bs :: 'a word) (i - 8)" using Cons.prems by (auto simp: bit_simps dest: bit_imp_le_length)
    from Cons.IH [OF this] False show ?thesis by simp
  qed simp
qed simp

lemma le_of_le: "8 * length bs \<le> LENGTH('a) \<Longrightarrow> le (length bs) (of_le bs :: 'a :: len word) = bs"
proof (induction bs)
  case (Cons b bs)
  let ?w = "of_le bs :: 'a word"
  have "ucast (or (ucast b) (push_bit 8 ?w)) = b"
    using Cons.prems by (intro bit_word_eqI) (auto simp: bit_simps)
  moreover have "drop_bit 8 (or (ucast b) (push_bit 8 ?w)) = ?w"
    using Cons.prems by (intro bit_word_eqI) (auto simp: bit_simps dest: bit_of_le bit_imp_le_length)
  ultimately show ?case using Cons by simp
qed simp

lemma le_fld:
  assumes "8 * k \<le> LENGTH('a)" "off + k \<le> length bs" "m = off + k"
  shows "le k (fld off k bs :: 'a :: len word) @ drop m bs = drop off bs"
proof -
  have "le k (fld off k bs :: 'a word) = take k (drop off bs)"
    using le_of_le [of "take k (drop off bs)", where 'a = 'a] assms(1,2) by (simp add: fld_def)
  then show ?thesis by (simp add: assms(3) append_take_drop_id add.commute flip: drop_drop)
qed

lemma byte_drop: "off < length bs \<Longrightarrow> m = Suc off \<Longrightarrow> [bs ! off] @ drop m bs = drop off bs"
  by (simp add: Cons_nth_drop_Suc)

lemma fld_here: "fld 0 n (le n w @ r) = of_le (le n w)"
  by (simp add: fld_def)

lemma fld_skip: "k \<le> off \<Longrightarrow> fld off n (le k w @ r) = fld (off - k) n r"
  by (simp add: fld_def)

lemma fld_Cons: "0 < off \<Longrightarrow> fld off n (b # r) = fld (off - 1) n r"
  by (cases off) (simp_all add: fld_def)

lemmas fld_simps = fld_here fld_skip fld_Cons

section \<open>Copying into and out of a buffer\<close>

definition put :: "byte_array \<Rightarrow> nat \<Rightarrow> byte_array \<Rightarrow> byte_array res" where
  "put buf ptr bs = in_bounds (ptr + length bs \<le> length buf) (Inr (take ptr buf @ bs @ drop (ptr + length bs) buf))"

definition peek :: "byte_array \<Rightarrow> nat \<Rightarrow> nat \<Rightarrow> byte_array res" where
  "peek bs ptr n = in_bounds (ptr + n \<le> length bs) (Inr (take n (drop ptr bs)))"

lemma peek_at [simp]: "peek (pre @ bs @ post) (length pre) (length bs) = Inr bs"
  by (simp add: peek_def)

lemma put_at: "put (done_part @ rest) (length done_part) bs =
  (if length bs \<le> length rest then Inr (done_part @ bs @ drop (length bs) rest) else Inl OutOfBounds)"
  by (simp add: put_def)

text \<open>The loops over the structures; \<open>pad i\<close> is the padding of the structure \<open>i\<close>.\<close>

fun put_elems :: "((nat \<Rightarrow> u8) \<Rightarrow> 'a \<Rightarrow> byte_array) \<Rightarrow> nat \<Rightarrow> (nat \<Rightarrow> nat \<Rightarrow> u8) \<Rightarrow> nat \<Rightarrow> 'a list \<Rightarrow>
  byte_array \<Rightarrow> nat \<Rightarrow> (byte_array \<times> nat) res" where
  "put_elems enc sz pad i [] buf ptr = Inr (buf, ptr)"
| "put_elems enc sz pad i (x # xs) buf ptr =
     bind_res (put buf ptr (enc (pad i) x)) (\<lambda>buf. put_elems enc sz pad (Suc i) xs buf (ptr + sz))"

fun get_elems :: "(byte_array \<Rightarrow> 'a) \<Rightarrow> nat \<Rightarrow> nat \<Rightarrow> byte_array \<Rightarrow> nat \<Rightarrow> ('a list \<times> nat) res" where
  "get_elems dec sz 0 bs ptr = Inr ([], ptr)"
| "get_elems dec sz (Suc n) bs ptr =
     bind_res (peek bs ptr sz) (\<lambda>x. map_res (\<lambda>(xs, ptr). (dec x # xs, ptr)) (get_elems dec sz n bs (ptr + sz)))"

text \<open>A message of structures: \<open>bufsz\<close> is the size of the buffer that was allocated.\<close>

definition enc_counted ::
  "((nat \<Rightarrow> u8) \<Rightarrow> 'a \<Rightarrow> byte_array) \<Rightarrow> nat \<Rightarrow> (nat \<Rightarrow> nat \<Rightarrow> u8) \<Rightarrow> nat \<Rightarrow> 'a list \<Rightarrow> u64 \<Rightarrow> byte_array res" where
  "enc_counted enc sz pad bufsz xs tstamp =
     bind_res (put (replicate bufsz 0) 0 (le 4 (word_of_nat (length xs) :: u32))) (\<lambda>buf.
     bind_res (put_elems enc sz pad 0 xs buf 4) (\<lambda>(buf, ptr).
     bind_res (put buf ptr (le 8 tstamp)) (\<lambda>buf.
       c_assert (ptr + 8 = bufsz) (Inr buf))))"

definition dec_counted :: "(byte_array \<Rightarrow> 'a) \<Rightarrow> nat \<Rightarrow> byte_array \<Rightarrow> ('a list \<times> u64) res" where
  "dec_counted dec sz bs =
     bind_res (peek bs 0 4) (\<lambda>c.
     bind_res (get_elems dec sz (unat (of_le c :: u32)) bs 4) (\<lambda>(xs, ptr).
     bind_res (peek bs ptr 8) (\<lambda>t.
       c_assert (ptr + 8 = length bs) (Inr (xs, of_le t)))))"

text \<open>The same without a time stamp.\<close>

definition enc_list ::
  "((nat \<Rightarrow> u8) \<Rightarrow> 'a \<Rightarrow> byte_array) \<Rightarrow> nat \<Rightarrow> (nat \<Rightarrow> nat \<Rightarrow> u8) \<Rightarrow> nat \<Rightarrow> 'a list \<Rightarrow> byte_array res" where
  "enc_list enc sz pad bufsz xs =
     bind_res (put (replicate bufsz 0) 0 (le 4 (word_of_nat (length xs) :: u32))) (\<lambda>buf.
     bind_res (put_elems enc sz pad 0 xs buf 4) (\<lambda>(buf, ptr). c_assert (ptr = bufsz) (Inr buf)))"

definition dec_list :: "(byte_array \<Rightarrow> 'a) \<Rightarrow> nat \<Rightarrow> byte_array \<Rightarrow> 'a list res" where
  "dec_list dec sz bs =
     c_assert (length bs > 0)
      (bind_res (peek bs 0 4) (\<lambda>c.
       bind_res (get_elems dec sz (unat (of_le c :: u32)) bs 4) (\<lambda>(xs, ptr).
         c_assert (ptr = length bs) (Inr xs))))"

section \<open>A structure of fixed size\<close>

locale layout =
  fixes wf :: "'a \<Rightarrow> bool" and enc :: "(nat \<Rightarrow> u8) \<Rightarrow> 'a \<Rightarrow> byte_array" and dec :: "byte_array \<Rightarrow> 'a" and sz :: nat
  assumes size_law: "wf x \<Longrightarrow> length (enc p x) = sz"
    and read_law: "wf x \<Longrightarrow> dec (enc p x) = x"
begin

primrec images :: "(nat \<Rightarrow> nat \<Rightarrow> u8) \<Rightarrow> nat \<Rightarrow> 'a list \<Rightarrow> byte_array" where
  "images pad i [] = []"
| "images pad i (x # xs) = enc (pad i) x @ images pad (Suc i) xs"

lemma length_images: "\<forall>x \<in> set xs. wf x \<Longrightarrow> length (images pad i xs) = sz * length xs"
  by (induction xs arbitrary: i) (simp_all add: size_law)

lemma put_elems_ok:
  assumes "\<forall>x \<in> set xs. wf x"
  shows "put_elems enc sz pad i xs (pre @ rest) (length pre) =
    (if sz * length xs \<le> length rest
     then Inr (pre @ images pad i xs @ drop (sz * length xs) rest, length pre + sz * length xs) else Inl OutOfBounds)"
  using assms
proof (induction xs arbitrary: i pre rest)
  case (Cons x xs)
  have p: "put (pre @ rest) (length pre) (enc (pad i) x) =
      (if sz \<le> length rest then Inr ((pre @ enc (pad i) x) @ drop sz rest) else Inl OutOfBounds)"
    using put_at [of pre rest "enc (pad i) x"] Cons.prems by (simp add: size_law)
  show ?case
  proof (cases "sz \<le> length rest")
    case True
    have len: "length (pre @ enc (pad i) x) = length pre + sz" using Cons.prems by (simp add: size_law)
    have "put_elems enc sz pad i (x # xs) (pre @ rest) (length pre) =
        put_elems enc sz pad (Suc i) xs ((pre @ enc (pad i) x) @ drop sz rest) (length (pre @ enc (pad i) x))"
      using True p len by simp
    also have "\<dots> = (if sz * length xs \<le> length (drop sz rest)
        then Inr ((pre @ enc (pad i) x) @ images pad (Suc i) xs @ drop (sz * length xs) (drop sz rest),
          length (pre @ enc (pad i) x) + sz * length xs) else Inl OutOfBounds)"
      using Cons.prems by (intro Cons.IH) simp
    finally show ?thesis using True Cons.prems by (simp add: size_law add.commute le_diff_conv2)
  qed (simp add: p)
qed simp

lemma get_elems_ok:
  assumes "\<forall>x \<in> set xs. wf x"
  shows "get_elems dec sz (length xs) (pre @ images pad i xs @ post) (length pre) = Inr (xs, length pre + sz * length xs)"
  using assms
proof (induction xs arbitrary: i pre)
  case (Cons x xs)
  have r: "peek (pre @ enc (pad i) x @ images pad (Suc i) xs @ post) (length pre) sz = Inr (enc (pad i) x)"
    using peek_at [of pre "enc (pad i) x" "images pad (Suc i) xs @ post"] Cons.prems by (simp add: size_law del: peek_at)
  have "get_elems dec sz (length xs) ((pre @ enc (pad i) x) @ images pad (Suc i) xs @ post) (length (pre @ enc (pad i) x)) =
      Inr (xs, length (pre @ enc (pad i) x) + sz * length xs)"
    using Cons.prems by (intro Cons.IH) simp
  then show ?case using r Cons.prems by (simp add: size_law read_law)
qed simp

lemma enc_counted_ok:
  assumes "\<forall>x \<in> set xs. wf x" "bufsz = 12 + sz * length xs"
  shows "enc_counted enc sz pad bufsz xs t = Inr (le 4 (word_of_nat (length xs) :: u32) @ images pad 0 xs @ le 8 t)"
proof -
  let ?c = "le 4 (word_of_nat (length xs) :: u32)"
  have "put (replicate bufsz 0) 0 ?c = Inr (?c @ replicate (8 + sz * length xs) 0)"
    using put_at [of "[]" "replicate bufsz 0" ?c] assms(2) by simp
  moreover have "put_elems enc sz pad 0 xs (?c @ replicate (8 + sz * length xs) 0) 4 =
      Inr (?c @ images pad 0 xs @ replicate 8 0, 4 + sz * length xs)"
    using put_elems_ok [OF assms(1), of pad 0 ?c "replicate (8 + sz * length xs) 0"] by simp
  moreover have "put (?c @ images pad 0 xs @ replicate 8 0) (4 + sz * length xs) (le 8 t) = Inr (?c @ images pad 0 xs @ le 8 t)"
    using put_at [of "?c @ images pad 0 xs" "replicate 8 0" "le 8 t"] length_images [OF assms(1)] by simp
  ultimately show ?thesis using assms(2) by (simp add: enc_counted_def)
qed

lemma enc_counted_overrun:
  assumes "\<forall>x \<in> set xs. wf x" "bufsz < 12 + sz * length xs"
  shows "enc_counted enc sz pad bufsz xs t = Inl OutOfBounds"
proof (cases "4 \<le> bufsz")
  case True
  let ?c = "le 4 (word_of_nat (length xs) :: u32)"
  have p: "put (replicate bufsz 0) 0 ?c = Inr (?c @ replicate (bufsz - 4) 0)"
    using put_at [of "[]" "replicate bufsz 0" ?c] True by simp
  have e: "put_elems enc sz pad 0 xs (?c @ replicate (bufsz - 4) 0) 4 = (if sz * length xs \<le> bufsz - 4
      then Inr (?c @ images pad 0 xs @ replicate (bufsz - 4 - sz * length xs) 0, 4 + sz * length xs) else Inl OutOfBounds)"
    using put_elems_ok [OF assms(1), of pad 0 ?c "replicate (bufsz - 4) 0"] by simp
  have "put (?c @ images pad 0 xs @ replicate (bufsz - 4 - sz * length xs) 0) (4 + sz * length xs) (le 8 t) = Inl OutOfBounds"
    using put_at [of "?c @ images pad 0 xs" "replicate (bufsz - 4 - sz * length xs) 0" "le 8 t"] length_images [OF assms(1)]
      assms(2) by simp
  with p e show ?thesis by (simp add: enc_counted_def split: if_splits)
qed (simp add: enc_counted_def put_def)

lemma dec_counted_ok:
  assumes "\<forall>x \<in> set xs. wf x" "length xs < 2 ^ 32"
  shows "dec_counted dec sz (le 4 (word_of_nat (length xs) :: u32) @ images pad 0 xs @ le 8 t) = Inr (xs, t)"
proof -
  let ?c = "le 4 (word_of_nat (length xs) :: u32)" and ?bs = "le 4 (word_of_nat (length xs) :: u32) @ images pad 0 xs @ le 8 t"
  have n: "unat (of_le ?c :: u32) = length xs" using assms(2) unat_of_nat_32 by simp
  have "peek ?bs 0 4 = Inr ?c" using peek_at [of "[]" ?c "images pad 0 xs @ le 8 t"] by (simp del: peek_at)
  moreover have "get_elems dec sz (length xs) ?bs 4 = Inr (xs, 4 + sz * length xs)"
    using get_elems_ok [OF assms(1), of ?c pad 0 "le 8 t"] by simp
  moreover have "peek ?bs (4 + sz * length xs) 8 = Inr (le 8 t)"
    using peek_at [of "?c @ images pad 0 xs" "le 8 t" "[]"] length_images [OF assms(1)] by (simp del: peek_at)
  ultimately show ?thesis using n length_images [OF assms(1)] by (simp add: dec_counted_def del: of_le_full(2))
qed

lemma counted_round_trip:
  assumes "\<forall>x \<in> set xs. wf x" "length xs < 2 ^ 32"
  shows "bind_res (enc_counted enc sz pad (12 + sz * length xs) xs t) (dec_counted dec sz) = Inr (xs, t)"
  using assms by (simp add: enc_counted_ok dec_counted_ok)

lemma enc_list_ok:
  assumes "\<forall>x \<in> set xs. wf x" "bufsz = 4 + sz * length xs"
  shows "enc_list enc sz pad bufsz xs = Inr (le 4 (word_of_nat (length xs) :: u32) @ images pad 0 xs)"
proof -
  let ?c = "le 4 (word_of_nat (length xs) :: u32)"
  have "put (replicate bufsz 0) 0 ?c = Inr (?c @ replicate (sz * length xs) 0)"
    using put_at [of "[]" "replicate bufsz 0" ?c] assms(2) by simp
  moreover have "put_elems enc sz pad 0 xs (?c @ replicate (sz * length xs) 0) 4 = Inr (?c @ images pad 0 xs, 4 + sz * length xs)"
    using put_elems_ok [OF assms(1), of pad 0 ?c "replicate (sz * length xs) 0"] by simp
  ultimately show ?thesis using assms(2) by (simp add: enc_list_def)
qed

lemma dec_list_ok:
  assumes "\<forall>x \<in> set xs. wf x" "length xs < 2 ^ 32"
  shows "dec_list dec sz (le 4 (word_of_nat (length xs) :: u32) @ images pad 0 xs) = Inr xs"
proof -
  let ?c = "le 4 (word_of_nat (length xs) :: u32)" and ?bs = "le 4 (word_of_nat (length xs) :: u32) @ images pad 0 xs"
  have n: "unat (of_le ?c :: u32) = length xs" using assms(2) unat_of_nat_32 by simp
  have "peek ?bs 0 4 = Inr ?c" using peek_at [of "[]" ?c "images pad 0 xs"] by (simp del: peek_at)
  moreover have "get_elems dec sz (length xs) ?bs 4 = Inr (xs, 4 + sz * length xs)"
    using get_elems_ok [OF assms(1), of ?c pad 0 "[]"] by simp
  moreover have "0 < length ?bs" by simp
  ultimately show ?thesis using n length_images [OF assms(1)] by (simp add: dec_list_def del: of_le_full(2))
qed

end

text \<open>What a decoder does with any bytes, also those that no encoder made.\<close>

lemma get_elems_any:
  "get_elems dec sz n bs ptr =
    (if n = 0 \<or> ptr + sz * n \<le> length bs then Inr (map (\<lambda>k. dec (take sz (drop (ptr + sz * k) bs))) [0..<n], ptr + sz * n)
     else Inl OutOfBounds)"
proof (induction n arbitrary: ptr)
  case (Suc n)
  have m: "[0..<Suc n] = 0 # map Suc [0..<n]" by (rule upt_conv_Cons [THEN trans]) (simp_all add: map_Suc_upt)
  show ?case
    using Suc [of "ptr + sz"] unfolding m
    by (auto simp: peek_def add.assoc add.left_commute not_le in_bounds_def)
qed simp

lemma dec_counted_any:
  assumes n: "n = unat (of_le (take 4 bs) :: u32)"
  shows "dec_counted dec sz bs = (if length bs < 4 \<or> length bs < 12 + sz * n then Inl OutOfBounds
    else if length bs \<noteq> 12 + sz * n then Inl AssertFailed
    else Inr (map (\<lambda>k. dec (take sz (drop (4 + sz * k) bs))) [0..<n], of_le (take 8 (drop (4 + sz * n) bs))))"
proof -
  have c: "peek bs 0 4 = (if length bs < 4 then Inl OutOfBounds else Inr (take 4 bs))" by (simp add: peek_def)
  have t: "peek bs (4 + sz * n) 8 = (if length bs < 12 + sz * n then Inl OutOfBounds else Inr (take 8 (drop (4 + sz * n) bs)))"
    by (simp add: peek_def)
  show ?thesis
  proof (cases "length bs < 4 \<or> length bs < 12 + sz * n")
    case True
    then show ?thesis using t by (auto simp: dec_counted_def c n [symmetric] get_elems_any)
  next
    case False
    then show ?thesis using t by (simp add: dec_counted_def c n [symmetric] get_elems_any c_assert_def)
  qed
qed

text \<open>
  A structure without invalid representations: every block of \<open>sz\<close> bytes is the image of what is read from
  it, \<open>gaps\<close> being the bytes of the block that fall into the padding. A message of such structures is
  accepted whenever its length is the announced one, and is the image of what was read.
\<close>

locale full_layout = layout +
  fixes gaps :: "byte_array \<Rightarrow> nat \<Rightarrow> u8"
  assumes wf_law: "wf (dec bs)"
    and write_law: "length bs = sz \<Longrightarrow> enc (gaps bs) (dec bs) = bs"
begin

lemma images_slices:
  assumes "off + sz * n \<le> length bs" "\<forall>k < n. pad (i + k) = gaps (take sz (drop (off + sz * k) bs))"
  shows "images pad i (map (\<lambda>k. dec (take sz (drop (off + sz * k) bs))) [0..<n]) @ drop (off + sz * n) bs = drop off bs"
  using assms
proof (induction n arbitrary: i off)
  case (Suc n)
  have m: "[0..<Suc n] = 0 # map Suc [0..<n]" by (rule upt_conv_Cons [THEN trans]) (simp_all add: map_Suc_upt)
  have r: "off + sz + sz * k = off + sz * Suc k" for k by simp
  have p: "\<forall>k < n. pad (Suc i + k) = gaps (take sz (drop (off + sz + sz * k) bs))"
    using Suc.prems(2) [rule_format, of "Suc k" for k] by (simp add: r)
  have "off + sz + sz * n \<le> length bs" using Suc.prems(1) by simp
  from Suc.IH [OF this p]
  have "images pad (Suc i) (map (\<lambda>k. dec (take sz (drop (off + sz * Suc k) bs))) [0..<n]) @ drop (off + sz * Suc n) bs =
      drop (off + sz) bs" by (simp only: r)
  moreover have "enc (pad i) (dec (take sz (drop off bs))) = take sz (drop off bs)"
    using Suc.prems(1) Suc.prems(2) [rule_format, of 0] by (simp add: write_law)
  moreover have "take sz (drop off bs) @ drop (off + sz) bs = drop off bs"
    using append_take_drop_id [of sz "drop off bs"] by (simp add: add.commute)
  ultimately show ?case
    unfolding m images.simps list.map map_map comp_def mult_0_right add_0_right append_assoc by (simp only:)
qed simp

lemma dec_counted_accepts:
  assumes n: "n = unat (of_le (take 4 bs) :: u32)" and len: "length bs = 12 + sz * n"
  shows "\<exists>xs t pad. dec_counted dec sz bs = Inr (xs, t) \<and> (\<forall>x \<in> set xs. wf x) \<and> length xs = n \<and>
    le 4 (word_of_nat n :: u32) @ images pad 0 xs @ le 8 t = bs"
proof -
  let ?xs = "map (\<lambda>k. dec (take sz (drop (4 + sz * k) bs))) [0..<n]" and ?t = "of_le (take 8 (drop (4 + sz * n) bs)) :: u64"
  let ?pad = "\<lambda>k. gaps (take sz (drop (4 + sz * k) bs))"
  have dec: "dec_counted dec sz bs = Inr (?xs, ?t)" using len by (simp add: dec_counted_any [OF n])
  have c: "le 4 (word_of_nat n :: u32) = take 4 bs"
  proof -
    have "length (take 4 bs) = 4" using len by simp
    moreover have "(word_of_nat n :: u32) = of_le (take 4 bs)" unfolding n by simp
    ultimately show ?thesis using le_of_le [of "take 4 bs", where 'a = 32] by simp
  qed
  have i: "images ?pad 0 ?xs @ drop (4 + sz * n) bs = drop 4 bs"
    using len by (intro images_slices) simp_all
  have t: "le 8 ?t = drop (4 + sz * n) bs"
  proof -
    have "take 8 (drop (4 + sz * n) bs) = drop (4 + sz * n) bs" "length (drop (4 + sz * n) bs) = 8" using len by simp_all
    then show ?thesis using le_of_le [of "drop (4 + sz * n) bs", where 'a = 64] by simp
  qed
  have "le 4 (word_of_nat n :: u32) @ images ?pad 0 ?xs @ le 8 ?t = bs"
    unfolding c t i by (rule append_take_drop_id)
  moreover have "\<forall>x \<in> set ?xs. wf x" by (simp add: wf_law)
  moreover have "length ?xs = n" by simp
  ultimately show ?thesis using dec by blast
qed

end

end
