(* ===== verification/Sm_Common.thy ===== *)
theory Sm_Common
  imports Plain_Layout Near_Ric Reg_E2_Nodes
begin

text \<open>
  What the service models under \<open>sm/\<close> share: the byte arrays of the procedures (\<open>sm_proc_data.h\<close>),
  the answers of the agent interface (\<open>agent_if/\<close>), the structures that hold one 32-bit number (event
  trigger, headers, control message and outcome of most models), the commands that name a reporting
  period, and \<open>eq_float\<close>.

  \<open>float\<close> and \<open>double\<close> are their IEEE 754 bits. What is exact on the bits (NaN test, equality, absolute
  value) is defined here; the operations that round are those of the processor, an argument.
\<close>

declare bind_res_eq_Inr [simp del]

section \<open>Floating point\<close>

record fpu =
  fp_add32 :: "u32 \<Rightarrow> u32 \<Rightarrow> u32"
  fp_sub32 :: "u32 \<Rightarrow> u32 \<Rightarrow> u32"
  fp_to64 :: "u32 \<Rightarrow> u64"
  fp_lt64 :: "u64 \<Rightarrow> u64 \<Rightarrow> bool"
  fp_mul64 :: "u64 \<Rightarrow> u64 \<Rightarrow> u64"
  fp_div64 :: "u64 \<Rightarrow> u64 \<Rightarrow> u64"

definition isnan32 :: "u32 \<Rightarrow> bool" where
  "isnan32 a \<longleftrightarrow> take_bit 31 a > 0x7F800000"

definition isnan64 :: "u64 \<Rightarrow> bool" where
  "isnan64 a \<longleftrightarrow> take_bit 63 a > 0x7FF0000000000000"

definition fabs32 :: "u32 \<Rightarrow> u32" where
  "fabs32 a = take_bit 31 a"

definition eq32 :: "u32 \<Rightarrow> u32 \<Rightarrow> bool" where
  "eq32 a b \<longleftrightarrow> \<not> isnan32 a \<and> \<not> isnan32 b \<and> (a = b \<or> fabs32 a = 0 \<and> fabs32 b = 0)"

definition FLT_MIN :: u64 where
  "FLT_MIN = 0x3810000000000000"

definition eq_float :: "fpu \<Rightarrow> u32 \<Rightarrow> u32 \<Rightarrow> u64 \<Rightarrow> bool res" where
  "eq_float fpu a b eps =
     c_assert (isnan32 a = False) (c_assert (isnan32 b = False) (c_assert (isnan64 eps = False) (
     let absA = fabs32 a; absB = fabs32 b; diff = fp_to64 fpu (fabs32 (fp_sub32 fpu a b)) in
     if eq32 a b then Inr True
     else if eq32 a 0 \<or> eq32 b 0 \<or> fp_lt64 fpu diff FLT_MIN then Inr (fp_lt64 fpu diff (fp_mul64 fpu eps FLT_MIN))
     else Inr (fp_lt64 fpu (fp_div64 fpu diff (fp_to64 fpu (fp_add32 fpu absA absB))) eps))))"

lemma eq32_refl [simp]: "eq32 a a \<longleftrightarrow> \<not> isnan32 a"
  by (simp add: eq32_def)

lemma eq_float_refl: "\<not> isnan64 eps \<Longrightarrow> eq_float fpu a a eps = (if isnan32 a then Inl AssertFailed else Inr True)"
  by (simp add: eq_float_def)

section \<open>Structures of one 32-bit number\<close>

definition enc_u32 :: "u32 \<Rightarrow> byte_array" where
  "enc_u32 x = le 4 x"

text \<open>A decoder that copies four bytes without looking at the length.\<close>

definition dec_u32_prefix :: "byte_array \<Rightarrow> u32 res" where
  "dec_u32_prefix bs = map_res of_le (peek bs 0 4)"

text \<open>A decoder that requires four bytes.\<close>

definition dec_u32_exact :: "byte_array \<Rightarrow> u32 res" where
  "dec_u32_exact bs = c_assert (length bs = 4) (map_res of_le (peek bs 0 (length bs)))"

lemma length_enc_u32 [simp]: "length (enc_u32 x) = 4"
  by (simp add: enc_u32_def)

lemma dec_u32_prefix_enc [simp]: "dec_u32_prefix (enc_u32 x) = Inr x"
  using peek_at [of "[]" "le 4 x" "[]"] by (simp add: dec_u32_prefix_def enc_u32_def del: peek_at)

lemma dec_u32_exact_enc [simp]: "dec_u32_exact (enc_u32 x) = Inr x"
  using peek_at [of "[]" "le 4 x" "[]"] by (simp add: dec_u32_exact_def enc_u32_def del: peek_at)

lemma dec_u32_exact_bad [simp]: "length bs \<noteq> 4 \<Longrightarrow> dec_u32_exact bs = Inl AssertFailed"
  by (simp add: dec_u32_exact_def)

lemma dec_u32_prefix_short [simp]: "length bs < 4 \<Longrightarrow> dec_u32_prefix bs = Inl OutOfBounds"
  by (simp add: dec_u32_prefix_def peek_def)

section \<open>The data of the procedures\<close>

type_synonym exp_ind_data = "sm_ind_data option"

record sm_ctrl_out_data =
  so_ctrl_out :: byte_array

record sm_e2_setup_data =
  se_ran_fun_def :: byte_array

text \<open>The buffers are not null; an empty one that is not null fails the assertion.\<close>

definition free_opt :: "byte_array option \<Rightarrow> unit res" where
  "free_opt p = (case p of None \<Rightarrow> Inr () | Some bs \<Rightarrow> c_assert (length bs \<noteq> 0) (Inr ()))"

definition free_sm_subs_data :: "sm_subs_data \<Rightarrow> unit res" where
  "free_sm_subs_data data =
     bind_res (free_opt (sb_action_def data)) (\<lambda>_. free_opt (Some (sb_event_trigger data)))"

definition free_sm_ind_data :: "sm_ind_data \<Rightarrow> unit res" where
  "free_sm_ind_data data =
     bind_res (free_opt (Some (sid_hdr data))) (\<lambda>_.
     bind_res (free_opt (Some (sid_msg data))) (\<lambda>_.
       free_opt (sid_call_process_id data)))"

text \<open>Without a value the data are null pointers.\<close>

definition free_exp_ind_data :: "exp_ind_data \<Rightarrow> unit res" where
  "free_exp_ind_data e = (case e of None \<Rightarrow> Inr () | Some data \<Rightarrow> free_sm_ind_data data)"

definition free_sm_ctrl_req_data :: "sm_ctrl_req_data \<Rightarrow> unit res" where
  "free_sm_ctrl_req_data data =
     bind_res (free_opt (Some (sc_ctrl_hdr data))) (\<lambda>_. free_opt (Some (sc_ctrl_msg data)))"

definition free_sm_ctrl_out_data :: "sm_ctrl_out_data \<Rightarrow> unit res" where
  "free_sm_ctrl_out_data data = Inr ()"

definition free_sm_e2_setup :: "sm_e2_setup_data \<Rightarrow> unit res" where
  "free_sm_e2_setup data = free_opt (Some (se_ran_fun_def data))"

lemma free_opt_simps [simp]:
  "free_opt None = Inr ()"
  "free_opt (Some []) = Inl AssertFailed"
  "free_opt (Some (b # bs)) = Inr ()"
  by (simp_all add: free_opt_def)

lemma free_opt_long [simp]: "0 < length bs \<Longrightarrow> free_opt (Some bs) = Inr ()"
  by (cases bs) simp_all

section \<open>The interface between a service model and the agent\<close>

datatype sm_ag_if_ans_ctrl_e =
    MAC_AGENT_IF_CTRL_ANS_V0 | RLC_AGENT_IF_CTRL_ANS_V0 | PDCP_AGENT_IF_CTRL_ANS_V0
  | SLICE_AGENT_IF_CTRL_ANS_V0 | TC_AGENT_IF_CTRL_ANS_V0 | GTP_AGENT_IF_CTRL_ANS_V0
  | RAN_CTRL_V1_3_AGENT_IF_CTRL_ANS_V0 | SM_AGENT_IF_CTRL_ANS_V0_END

text \<open>The outcome of a control of the models here is one enumeration, by its number.\<close>

record sm_ag_if_ans_ctrl =
  ac_type :: sm_ag_if_ans_ctrl_e
  ac_ans :: u32

datatype sm_ag_if_ans_subs =
    PERIODIC_SUBSCRIPTION_FLRC u32
  | APERIODIC_SUBSCRIPTION_FLRC

datatype sm_ag_if_ans =
    CTRL_OUTCOME_SM_AG_IF_ANS_V0 sm_ag_if_ans_ctrl
  | SUBS_OUTCOME_SM_AG_IF_ANS_V0 sm_ag_if_ans_subs
  | NONE_SM_AG_IF_ANS_V0

section \<open>The commands that name a reporting period\<close>

text \<open>\<open>strncmp\<close> of two strings without NUL, as far as its zero result goes.\<close>

definition strncmp_0 :: "string \<Rightarrow> string \<Rightarrow> nat \<Rightarrow> bool" where
  "strncmp_0 a b n \<longleftrightarrow> take n a = take n b"

definition period_of_cmd :: "string \<Rightarrow> u32 res" where
  "period_of_cmd cmd =
     (let max_str_sz = 10 in
      if strncmp_0 cmd ''1_ms'' max_str_sz then Inr 1
      else if strncmp_0 cmd ''2_ms'' max_str_sz then Inr 2
      else if strncmp_0 cmd ''5_ms'' max_str_sz then Inr 5
      else if strncmp_0 cmd ''10_ms'' max_str_sz then Inr 10
      else if strncmp_0 cmd ''100_ms'' max_str_sz then Inr 100
      else if strncmp_0 cmd ''1000_ms'' max_str_sz then Inr 1000
      else Inl AssertFailed)"

definition periods :: "(string \<times> u32) list" where
  "periods = [(''1_ms'', 1), (''2_ms'', 2), (''5_ms'', 5), (''10_ms'', 10), (''100_ms'', 100), (''1000_ms'', 1000)]"

lemma strncmp_0_short: "length b < n \<Longrightarrow> strncmp_0 a b n \<longleftrightarrow> a = b"
  by (auto simp: strncmp_0_def take_all_iff)

lemma period_of_cmd_table:
  "period_of_cmd cmd = (case map_of periods cmd of None \<Rightarrow> Inl AssertFailed | Some ms \<Rightarrow> Inr ms)"
  by (simp add: period_of_cmd_def strncmp_0_short periods_def Let_def)

section \<open>\<open>next_pow2\<close>\<close>

text \<open>Two service models test the length of a message with it.\<close>

definition next_pow2 :: "u64 \<Rightarrow> u64" where
  "next_pow2 x =
     (let x = x - 1;
          x = or x (drop_bit 1 x);
          x = or x (drop_bit 2 x);
          x = or x (drop_bit 4 x);
          x = or x (drop_bit 8 x);
          x = or x (drop_bit 16 x);
          x = or x (drop_bit 32 x)
      in x + 1)"

text \<open>Each step doubles the window of bits that are or-ed into a bit.\<close>

definition smeared :: "nat \<Rightarrow> u64 \<Rightarrow> u64 \<Rightarrow> bool" where
  "smeared w y x \<longleftrightarrow> (\<forall>n. bit x n \<longleftrightarrow> (\<exists>m. n \<le> m \<and> m < n + w \<and> bit y m))"

lemma smeared_1: "smeared 1 y y"
  by (auto simp: smeared_def less_Suc_eq le_less)

lemma smeared_double:
  assumes "smeared w y x"
  shows "smeared (w + w) y (or x (drop_bit w x))"
  unfolding smeared_def
proof
  fix n
  have "(\<exists>m. n \<le> m \<and> m < n + (w + w) \<and> bit y m) \<longleftrightarrow>
      (\<exists>m. n \<le> m \<and> m < n + w \<and> bit y m) \<or> (\<exists>m. n + w \<le> m \<and> m < n + w + w \<and> bit y m)"
    by (auto simp: add.assoc) (metis not_le, meson add_leD1)
  then show "bit (or x (drop_bit w x)) n \<longleftrightarrow> (\<exists>m. n \<le> m \<and> m < n + (w + w) \<and> bit y m)"
    using assms by (simp add: smeared_def bit_simps add.commute [of w n])
qed

lemma bits_from: "(\<exists>m. n \<le> m \<and> m < n + 64 \<and> bit y m) \<longleftrightarrow> 2 ^ n \<le> unat (y :: u64)"
proof -
  have "(\<exists>m. n \<le> m \<and> m < n + 64 \<and> bit y m) \<longleftrightarrow> drop_bit n y \<noteq> 0"
  proof
    assume "\<exists>m. n \<le> m \<and> m < n + 64 \<and> bit y m"
    then obtain k where "bit (drop_bit n y) k" by (auto simp: bit_simps le_iff_add)
    then show "drop_bit n y \<noteq> 0" by auto
  next
    assume "drop_bit n y \<noteq> 0"
    then obtain k where k: "bit y (n + k)" by (auto simp: bit_eq_iff bit_simps)
    then have "n + k < 64" using bit_imp_le_length by fastforce
    with k show "\<exists>m. n \<le> m \<and> m < n + 64 \<and> bit y m" by (intro exI [of _ "n + k"]) auto
  qed
  also have "\<dots> \<longleftrightarrow> unat y div 2 ^ n \<noteq> 0"
    by (metis unat_drop_bit_eq unat_eq_zero drop_bit_eq_div)
  also have "\<dots> \<longleftrightarrow> 2 ^ n \<le> unat y" by (simp add: div_eq_0_iff not_less)
  finally show ?thesis .
qed

lemma next_pow2_mask:
  assumes "unat (x - 1) < 2 ^ j" "\<And>i. i < j \<Longrightarrow> 2 ^ i \<le> unat (x - 1)"
  shows "next_pow2 x = 2 ^ j"
proof -
  define y where "y = x - 1"
  define z where "z = next_pow2 x - 1"
  have "smeared 64 y z"
    using smeared_double [OF smeared_double [OF smeared_double [OF smeared_double [OF smeared_double [OF
      smeared_double [OF smeared_1 [of y]]]]]]] by (simp add: z_def y_def next_pow2_def Let_def numeral_eq_Suc)
  then have "bit z n \<longleftrightarrow> 2 ^ n \<le> unat y" for n by (simp add: smeared_def bits_from)
  moreover have "2 ^ n \<le> unat y \<longleftrightarrow> n < j" for n
    using assms unfolding y_def by (meson le_less_trans not_le power_increasing_iff one_less_numeral_iff semiring_norm(76) power_strict_increasing_iff)
  moreover have "j \<le> 64"
    using assms(2) [of 64] unat_small [of "x - 1"] by (force simp: not_le)
  ultimately have "z = mask j" by (intro bit_word_eqI) (simp add: bit_simps)
  then show ?thesis by (simp add: z_def mask_eq_exp_minus_1)
qed

text \<open>The value is the least power of two that is not below the argument; none fits past \<open>2\<^sup>6\<^sup>3\<close>.\<close>

lemma next_pow2_least:
  assumes "1 \<le> unat x"
  shows "next_pow2 x = 2 ^ (LEAST j. unat x \<le> 2 ^ j)"
proof (rule next_pow2_mask)
  have y: "unat (x - 1) = unat x - 1" using assms by (intro unat_minus_one) auto
  have "unat x \<le> 2 ^ 64" using unat_small [of x] by simp
  then have "unat x \<le> 2 ^ (LEAST j. unat x \<le> 2 ^ j)" by (rule LeastI)
  then show "unat (x - 1) < 2 ^ (LEAST j. unat x \<le> 2 ^ j)" using y assms by simp
  show "2 ^ i \<le> unat (x - 1)" if "i < (LEAST j. unat x \<le> 2 ^ j)" for i
    using not_less_Least [OF that] y by simp
qed

lemma next_pow2_0: "next_pow2 0 = 0"
  by (simp add: next_pow2_def Let_def)

lemma unat_2_pow: "k \<le> 63 \<Longrightarrow> unat (2 ^ k :: u64) = 2 ^ k"
proof -
  assume "k \<le> 63"
  then have "(2 :: nat) ^ k \<le> 2 ^ 63" by (rule power_increasing) simp
  then have "unat (word_of_nat (2 ^ k) :: u64) = 2 ^ k" by (simp only: unat_of_nat) (simp add: take_bit_nat_eq_self)
  then show ?thesis by simp
qed

text \<open>The test of the two decoders: nine bytes are enough.\<close>

lemma next_pow2_16:
  assumes "n < 2 ^ 63"
  shows "16 \<le> next_pow2 (word_of_nat n) \<longleftrightarrow> 9 \<le> n"
proof (cases "n = 0")
  case False
  let ?j = "LEAST j. n \<le> 2 ^ j"
  have n: "unat (word_of_nat n :: u64) = n" using assms by (simp add: unat_of_nat take_bit_nat_eq_self)
  have "?j \<le> 63" using assms by (intro Least_le) simp
  then have "unat (next_pow2 (word_of_nat n)) = 2 ^ ?j"
    using False n by (subst next_pow2_least) (simp_all add: unat_2_pow)
  then have "16 \<le> next_pow2 (word_of_nat n) \<longleftrightarrow> (2 :: nat) ^ 4 \<le> 2 ^ ?j" by (simp add: word_le_nat_alt)
  also have "\<dots> \<longleftrightarrow> 4 \<le> ?j" by (rule power_increasing_iff) simp
  also have "\<dots> \<longleftrightarrow> \<not> n \<le> 2 ^ 3"
  proof
    assume "4 \<le> ?j"
    then have "3 < ?j" by simp
    then show "\<not> n \<le> 2 ^ 3" by (rule not_less_Least)
  next
    assume "\<not> n \<le> 2 ^ 3"
    moreover have "n \<le> 2 ^ ?j" by (rule LeastI [of _ 63]) (use assms in simp)
    ultimately have "(2 :: nat) ^ 3 < 2 ^ ?j" by linarith
    then show "4 \<le> ?j" by (simp only: power_strict_increasing_iff [of "2 :: nat"])
  qed
  finally show ?thesis by auto
qed (simp add: next_pow2_0)

section \<open>Definitions of RAN functions\<close>

text \<open>
  The comparison of the models calls \<open>memcmp\<close> on the two structures, not on the buffers. The structure
  of the MAC model is the 64-bit length before the pointer, that of the RLC and PDCP models the
  pointer before the length. A definition is given here with the address of its buffer. Reading
  past the structure is out of bounds.
\<close>

definition func_def_image_len :: "u64 \<Rightarrow> byte_array \<Rightarrow> byte_array" where
  "func_def_image_len p m = le 8 (word_of_nat (length m) :: u64) @ le 8 p"

definition func_def_image_buf :: "u64 \<Rightarrow> byte_array \<Rightarrow> byte_array" where
  "func_def_image_buf p m = le 8 p @ le 8 (word_of_nat (length m) :: u64)"

definition eq_func_def_struct :: "(u64 \<Rightarrow> byte_array \<Rightarrow> byte_array) \<Rightarrow>
  (u64 \<times> byte_array) option \<Rightarrow> (u64 \<times> byte_array) option \<Rightarrow> bool res" where
  "eq_func_def_struct img m0 m1 = (case (m0, m1) of
     (Some (p0, b0), Some (p1, b1)) \<Rightarrow>
       if length b0 \<noteq> length b1 then Inr False
       else in_bounds (length b0 \<le> length (img p0 b0))
             (Inr (take (length b0) (img p0 b0) = take (length b0) (img p1 b1)))
   | _ \<Rightarrow> Inr (m0 = None \<and> m1 = None))"

lemmas func_def_struct = eq_func_def_struct_def func_def_image_len_def func_def_image_buf_def

lemma eq_func_def_struct_short:
  "length b0 = length b1 \<Longrightarrow> length b0 \<le> 8 \<Longrightarrow>
    eq_func_def_struct func_def_image_len (Some (p0, b0)) (Some (p1, b1)) = Inr True"
  by (simp add: func_def_struct)

lemma eq_func_def_struct_long:
  assumes "length b0 = length b1" "16 < length b0" "img = func_def_image_len \<or> img = func_def_image_buf"
  shows "eq_func_def_struct img (Some (p0, b0)) (Some (p1, b1)) = Inl OutOfBounds"
  using assms by (auto simp: func_def_struct)

lemma le_8_inj: "p0 \<noteq> p1 \<Longrightarrow> le 8 (p0 :: u64) \<noteq> le 8 p1"
  using of_le_full(1) by metis

lemma eq_func_def_struct_other_buffer:
  assumes "length b = 16" "p0 \<noteq> p1"
  shows "eq_func_def_struct func_def_image_len (Some (p0, b)) (Some (p1, b)) = Inr False"
  using le_8_inj [OF assms(2)] assms(1) by (simp add: func_def_struct)

lemma eq_func_def_struct_buf:
  assumes "length b0 = length b1" "8 \<le> length b0" "length b0 \<le> 16"
  shows "eq_func_def_struct func_def_image_buf (Some (p0, b0)) (Some (p1, b1)) = Inr (p0 = p1)"
  using le_8_inj [of p0 p1] assms by (auto simp: func_def_struct)

section \<open>A service model as its two plug-ins\<close>

text \<open>
  What \<open>make_<model>_sm_agent\<close> and \<open>make_<model>_sm_ric\<close> put into the tables of functions, less the
  procedures that are not implemented. \<open>io\<close> are the functions of the RAN: \<open>read_ind\<close> fills the structure
  it is given and says whether it has something to report.
\<close>

record ('i, 'q) sm_io_ag =
  io_read_ind :: "'i \<Rightarrow> bool \<times> 'i"
  io_write_ctrl :: "'q \<Rightarrow> sm_ag_if_ans"

record sm_agent_procs =
  ap_on_subscription :: "sm_subs_data \<Rightarrow> sm_ag_if_ans_subs res"
  ap_on_indication :: "byte_array option \<Rightarrow> exp_ind_data res"
  ap_on_control :: "sm_ctrl_req_data \<Rightarrow> sm_ctrl_out_data res"
  ap_on_e2_setup :: "sm_e2_setup_data res"
  ap_info_def :: string
  ap_info_id :: u16
  ap_info_rev :: u16
  ap_info_oid :: string

record ('i, 'q) sm_ric_procs =
  rp_ran_func_id :: u16
  rp_ran_func_name :: string
  rp_on_subscription :: "string \<Rightarrow> sm_subs_data res"
  rp_on_indication :: "sm_ind_data \<Rightarrow> 'i sm_ag_if_rd_ind res"
  rp_on_control_req :: "'q \<Rightarrow> sm_ctrl_req_data res"
  rp_on_control_out :: "sm_ctrl_out_data \<Rightarrow> sm_ag_if_ans_ctrl res"
  rp_on_e2_setup :: "sm_e2_setup_data \<Rightarrow> byte_array sm_ag_if_rd_e2setup res"
  rp_free_ind_data :: "'i sm_ag_if_rd_ind \<Rightarrow> unit res"

text \<open>\<open>ran_func_name\<close> is an array of 32 characters.\<close>

definition RAN_FUNC_NAME_SZ :: nat where
  "RAN_FUNC_NAME_SZ = 32"

text \<open>The definition of the function that every model here announces: its name.\<close>

definition e2_setup_name :: "string \<Rightarrow> sm_e2_setup_data res" where
  "e2_setup_name str = c_assert (min (length str) 256 < 256) (Inr \<lparr>se_ran_fun_def = cp_str_to_ba (take 256 str)\<rparr>)"

lemma length_cp_str_to_ba [simp]: "length (cp_str_to_ba s) = length s"
  by (simp add: cp_str_to_ba_def)

text \<open>A report of the agent, as the RIC reads it and frees it; what the RAN does not report is skipped.\<close>

definition sm_filled :: "'i \<Rightarrow> ('i, 'q) sm_io_ag \<Rightarrow> 'i" where
  "sm_filled zero io = snd (io_read_ind io zero)"

definition sm_report ::
  "((nat \<Rightarrow> nat \<Rightarrow> u8) \<Rightarrow> ('i, 'q) sm_io_ag \<Rightarrow> sm_agent_procs) \<Rightarrow> ('i, 'q) sm_ric_procs \<Rightarrow>
   (nat \<Rightarrow> nat \<Rightarrow> u8) \<times> ('i, 'q) sm_io_ag \<Rightarrow> 'i list \<Rightarrow> 'i list res" where
  "sm_report ag ric r got = bind_res (ap_on_indication (ag (fst r) (snd r)) None) (\<lambda>e. case e of
     None \<Rightarrow> Inr got
   | Some d \<Rightarrow> bind_res (rp_on_indication ric d) (\<lambda>x. bind_res (rp_free_ind_data ric x) (\<lambda>_. Inr (got @ [ri_data x]))))"

text \<open>
  The contract of the two halves: the command \<open>cmd\<close> of an xApp becomes the period of the agent's timer,
  a report of the RAN reaches the RIC as \<open>norm\<close> of what the RAN filled in and can be freed there, and the
  RIC takes \<open>announced\<close> as the definition of the function. \<open>ok\<close> are the reports that the model can carry.
\<close>

locale service_model =
  fixes ag :: "(nat \<Rightarrow> nat \<Rightarrow> u8) \<Rightarrow> ('i, 'q) sm_io_ag \<Rightarrow> sm_agent_procs" and ric :: "('i, 'q) sm_ric_procs"
    and zero :: 'i and ok :: "'i \<Rightarrow> bool" and norm :: "'i \<Rightarrow> 'i"
    and ty :: ind_stats_type and setup_ty :: e2_setup_type and announced :: byte_array
  assumes subscription_law: "map_of periods cmd = Some ms \<Longrightarrow>
      \<exists>d. rp_on_subscription ric cmd = Inr d \<and> ap_on_subscription (ag pad io) d = Inr (PERIODIC_SUBSCRIPTION_FLRC ms)"
    and refused_law: "map_of periods cmd = None \<Longrightarrow> rp_on_subscription ric cmd = Inl AssertFailed"
    and report_law: "io_read_ind io zero = (True, i) \<Longrightarrow> ok i \<Longrightarrow>
      \<exists>d. ap_on_indication (ag pad io) None = Inr (Some d) \<and>
        rp_on_indication ric d = Inr \<lparr>ri_type = ty, ri_data = norm i\<rparr> \<and>
        rp_free_ind_data ric \<lparr>ri_type = ty, ri_data = norm i\<rparr> = Inr () \<and> free_sm_ind_data d = Inr ()"
    and silent_law: "io_read_ind io zero = (False, i) \<Longrightarrow> ok i \<Longrightarrow> ap_on_indication (ag pad io) None = Inr None"
    and setup_law: "bind_res (ap_on_e2_setup (ag pad io)) (rp_on_e2_setup ric) =
      Inr \<lparr>es_type = setup_ty, es_func_def = announced\<rparr>"
    and identity_law: "ap_info_id (ag pad io) = rp_ran_func_id ric \<and> ap_info_def (ag pad io) = rp_ran_func_name ric \<and>
      length (rp_ran_func_name ric) < RAN_FUNC_NAME_SZ"
begin

lemma report_ok:
  assumes "ok (sm_filled zero io)"
  shows "sm_report ag ric (pad, io) got = Inr (got @ (if fst (io_read_ind io zero) then [norm (sm_filled zero io)] else []))"
proof (cases "fst (io_read_ind io zero)")
  case True
  then have "io_read_ind io zero = (True, sm_filled zero io)" by (simp add: sm_filled_def prod_eq_iff)
  from report_law [OF this assms, of pad] True show ?thesis by (auto simp: sm_report_def)
next
  case False
  then have "io_read_ind io zero = (False, sm_filled zero io)" by (simp add: sm_filled_def prod_eq_iff)
  from silent_law [OF this assms, of pad] False show ?thesis by (simp add: sm_report_def)
qed

text \<open>A session: the subscription of an xApp, then a sequence of reports.\<close>

lemma session:
  assumes "map_of periods cmd = Some ms" "\<forall>r \<in> set rs. ok (sm_filled zero (snd r))"
  shows "\<exists>d. rp_on_subscription ric cmd = Inr d \<and>
      ap_on_subscription (ag pad io) d = Inr (PERIODIC_SUBSCRIPTION_FLRC ms) \<and>
      fold_res (sm_report ag ric) rs got =
        Inr (got @ map (norm \<circ> sm_filled zero) (filter (\<lambda>io. fst (io_read_ind io zero)) (map snd rs)))"
proof -
  have "fold_res (sm_report ag ric) rs got =
      Inr (got @ map (norm \<circ> sm_filled zero) (filter (\<lambda>io. fst (io_read_ind io zero)) (map snd rs)))"
    using assms(2) by (induction rs arbitrary: got) (auto simp: report_ok)
  then show ?thesis using subscription_law [OF assms(1)] by blast
qed

end

end
