(* ===== verification/Mac_Sm.thy ===== *)
theory Mac_Sm
  imports Sm_Common
begin

text \<open>
  The MAC service model (\<open>sm/mac_sm/\<close>): its information elements (\<open>ie/mac_data_ie\<close>), the plain codec
  (\<open>enc/mac_enc_plain.c\<close>, \<open>dec/mac_dec_plain.c\<close>) and the two plug-ins, \<open>mac_sm_agent.c\<close> in the E2 node and
  \<open>mac_sm_ric.c\<close> in the RIC and the xApps. The structures of one 32-bit number are that number; a pointer
  with a length is a list; signed members are their bits. Functions whose body is
  \<open>assert(0!=0 && "Not implemented")\<close> abort here too.
\<close>

declare bind_res_eq_Inr [simp del]

section \<open>Information elements\<close>

type_synonym mac_event_trigger = u32
type_synonym mac_action_def = u32
type_synonym mac_ind_hdr = u32
type_synonym mac_call_proc_id = u32
type_synonym mac_ctrl_hdr = u32
type_synonym mac_ctrl_out = u32
type_synonym mac_func_def = byte_array

record mac_ue_stats =
  ms_dl_aggr_tbs :: u64
  ms_ul_aggr_tbs :: u64
  ms_dl_aggr_bytes_sdus :: u64
  ms_ul_aggr_bytes_sdus :: u64
  ms_dl_curr_tbs :: u64
  ms_ul_curr_tbs :: u64
  ms_dl_sched_rb :: u64
  ms_ul_sched_rb :: u64
  ms_pusch_snr :: u32
  ms_pucch_snr :: u32
  ms_dl_bler :: u32
  ms_ul_bler :: u32
  ms_dl_harq :: "u32 list"
  ms_ul_harq :: "u32 list"
  ms_dl_num_harq :: u32
  ms_ul_num_harq :: u32
  ms_rnti :: u32
  ms_dl_aggr_prb :: u32
  ms_ul_aggr_prb :: u32
  ms_dl_aggr_sdus :: u32
  ms_ul_aggr_sdus :: u32
  ms_dl_aggr_retx_prb :: u32
  ms_ul_aggr_retx_prb :: u32
  ms_bsr :: u32
  ms_frame :: u16
  ms_slot :: u16
  ms_wb_cqi :: u8
  ms_dl_mcs1 :: u8
  ms_ul_mcs1 :: u8
  ms_dl_mcs2 :: u8
  ms_ul_mcs2 :: u8
  ms_phr :: u8

record mac_ind_msg =
  mm_ue_stats :: "mac_ue_stats list"
  mm_tstamp :: u64

record mac_conf =
  mf_rnti :: u32
  mf_pusch_mcs :: u8
  mf_isset_pusch_mcs :: u8

record mac_ctrl_msg =
  mg_ran_conf :: "mac_conf list"

record mac_ind_data =
  mi_hdr :: mac_ind_hdr
  mi_msg :: mac_ind_msg
  mi_proc_id :: "mac_call_proc_id option"

record mac_ctrl_req_data =
  mr_hdr :: mac_ctrl_hdr
  mr_msg :: mac_ctrl_msg

definition MAC_CTRL_OUT_OK :: mac_ctrl_out where
  "MAC_CTRL_OUT_OK = 0"

definition MAC_CTRL_OUT_KO :: mac_ctrl_out where
  "MAC_CTRL_OUT_KO = 1"

text \<open>The arrays have five elements.\<close>

definition wf_mac_ue :: "mac_ue_stats \<Rightarrow> bool" where
  "wf_mac_ue x \<longleftrightarrow> length (ms_dl_harq x) = 5 \<and> length (ms_ul_harq x) = 5"

definition wf_mac_ind :: "mac_ind_msg \<Rightarrow> bool" where
  "wf_mac_ind m \<longleftrightarrow> length (mm_ue_stats m) < 2 ^ 32 \<and> list_all wf_mac_ue (mm_ue_stats m)"

subsection \<open>Copying, comparing and freeing\<close>

text \<open>Not implemented in the code.\<close>

definition free_mac_event_trigger :: "mac_event_trigger \<Rightarrow> unit res" where
  "free_mac_event_trigger src = Inl AssertFailed"

definition cp_mac_event_trigger :: "mac_event_trigger \<Rightarrow> mac_event_trigger res" where
  "cp_mac_event_trigger src = Inl AssertFailed"

definition eq_mac_event_trigger :: "mac_event_trigger \<Rightarrow> mac_event_trigger \<Rightarrow> bool res" where
  "eq_mac_event_trigger m0 m1 = Inl AssertFailed"

definition free_mac_action_def :: "mac_action_def \<Rightarrow> unit res" where
  "free_mac_action_def src = Inl AssertFailed"

definition cp_mac_action_def :: "mac_action_def \<Rightarrow> mac_action_def res" where
  "cp_mac_action_def src = Inl AssertFailed"

definition eq_mac_action_def :: "mac_event_trigger \<Rightarrow> mac_event_trigger \<Rightarrow> bool res" where
  "eq_mac_action_def m0 m1 = Inl AssertFailed"

definition eq_mac_ctrl_hdr :: "mac_ctrl_hdr \<Rightarrow> mac_ctrl_hdr \<Rightarrow> bool res" where
  "eq_mac_ctrl_hdr m0 m1 = Inl AssertFailed"

definition eq_mac_ctrl_msg :: "mac_ctrl_msg \<Rightarrow> mac_ctrl_msg \<Rightarrow> bool res" where
  "eq_mac_ctrl_msg m0 m1 = Inl AssertFailed"

definition cp_mac_ctrl_out :: "mac_ctrl_out \<Rightarrow> mac_ctrl_out res" where
  "cp_mac_ctrl_out src = Inl AssertFailed"

definition eq_mac_ctrl_out :: "mac_ctrl_out \<Rightarrow> mac_ctrl_out \<Rightarrow> bool res" where
  "eq_mac_ctrl_out m0 m1 = Inl AssertFailed"

text \<open>Implemented.\<close>

definition free_mac_ind_hdr :: "mac_ind_hdr \<Rightarrow> unit res" where
  "free_mac_ind_hdr src = Inr ()"

definition cp_mac_ind_hdr :: "mac_ind_hdr \<Rightarrow> mac_ind_hdr" where
  "cp_mac_ind_hdr src = src"

definition eq_mac_ind_hdr :: "mac_ind_hdr \<Rightarrow> mac_ind_hdr \<Rightarrow> bool" where
  "eq_mac_ind_hdr m0 m1 = (if m0 \<noteq> m1 then False else True)"

definition free_mac_ind_msg :: "mac_ind_msg \<Rightarrow> unit res" where
  "free_mac_ind_msg src = Inr ()"

definition cp_mac_ue_stats_impl :: "mac_ue_stats \<Rightarrow> mac_ue_stats" where
  "cp_mac_ue_stats_impl src =
     \<lparr>ms_dl_aggr_tbs = ms_dl_aggr_tbs src, ms_ul_aggr_tbs = ms_ul_aggr_tbs src,
      ms_dl_aggr_bytes_sdus = ms_dl_aggr_bytes_sdus src, ms_ul_aggr_bytes_sdus = ms_ul_aggr_bytes_sdus src,
      ms_dl_curr_tbs = ms_dl_curr_tbs src, ms_ul_curr_tbs = ms_ul_curr_tbs src, ms_dl_sched_rb = ms_dl_sched_rb src,
      ms_ul_sched_rb = ms_ul_sched_rb src, ms_pusch_snr = ms_pusch_snr src, ms_pucch_snr = ms_pucch_snr src,
      ms_dl_bler = ms_dl_bler src, ms_ul_bler = ms_ul_bler src,
      ms_dl_harq = [ms_dl_harq src ! 0, ms_dl_harq src ! 1, ms_dl_harq src ! 2, ms_dl_harq src ! 3, ms_dl_harq src ! 4],
      ms_ul_harq = [ms_ul_harq src ! 0, ms_ul_harq src ! 1, ms_ul_harq src ! 2, ms_ul_harq src ! 3, ms_ul_harq src ! 4],
      ms_dl_num_harq = ms_dl_num_harq src, ms_ul_num_harq = ms_ul_num_harq src, ms_rnti = ms_rnti src,
      ms_dl_aggr_prb = ms_dl_aggr_prb src, ms_ul_aggr_prb = ms_ul_aggr_prb src,
      ms_dl_aggr_sdus = ms_dl_aggr_sdus src, ms_ul_aggr_sdus = ms_ul_aggr_sdus src,
      ms_dl_aggr_retx_prb = ms_dl_aggr_retx_prb src, ms_ul_aggr_retx_prb = ms_ul_aggr_retx_prb src,
      ms_bsr = ms_bsr src, ms_frame = ms_frame src, ms_slot = ms_slot src, ms_wb_cqi = ms_wb_cqi src,
      ms_dl_mcs1 = ms_dl_mcs1 src, ms_ul_mcs1 = ms_ul_mcs1 src, ms_dl_mcs2 = ms_dl_mcs2 src,
      ms_ul_mcs2 = ms_ul_mcs2 src, ms_phr = ms_phr src\<rparr>"

definition cp_mac_ind_msg :: "mac_ind_msg \<Rightarrow> mac_ind_msg" where
  "cp_mac_ind_msg src =
     \<lparr>mm_ue_stats = map (\<lambda>i. cp_mac_ue_stats_impl (mm_ue_stats src ! i)) [0..<length (mm_ue_stats src)],
      mm_tstamp = mm_tstamp src\<rparr>"

text \<open>\<open>MAC_EPS\<close> is the constant \<open>0.0000001\<close>. The comparison of \<open>pucch_snr\<close> is that of the code: \<open>ue0\<close> twice.\<close>

definition MAC_EPS :: u64 where
  "MAC_EPS = 0x3E7AD7F29ABCAF48"

definition eq_mac_ue :: "fpu \<Rightarrow> mac_ue_stats \<Rightarrow> mac_ue_stats \<Rightarrow> bool res" where
  "eq_mac_ue fpu ue0 ue1 =
     (if ms_dl_aggr_tbs ue0 \<noteq> ms_dl_aggr_tbs ue1 \<or> ms_ul_aggr_tbs ue0 \<noteq> ms_ul_aggr_tbs ue1 \<or>
      ms_dl_aggr_bytes_sdus ue0 \<noteq> ms_dl_aggr_bytes_sdus ue1 \<or>
      ms_ul_aggr_bytes_sdus ue0 \<noteq> ms_ul_aggr_bytes_sdus ue1 \<or>
      ms_dl_curr_tbs ue0 \<noteq> ms_dl_curr_tbs ue1 \<or> ms_ul_curr_tbs ue0 \<noteq> ms_ul_curr_tbs ue1 \<or>
      ms_dl_sched_rb ue0 \<noteq> ms_dl_sched_rb ue1 \<or> ms_ul_sched_rb ue0 \<noteq> ms_ul_sched_rb ue1 \<or>
      ms_rnti ue0 \<noteq> ms_rnti ue1 \<or> ms_dl_aggr_prb ue0 \<noteq> ms_dl_aggr_prb ue1 \<or>
      ms_ul_aggr_prb ue0 \<noteq> ms_ul_aggr_prb ue1 \<or> ms_dl_aggr_sdus ue0 \<noteq> ms_dl_aggr_sdus ue1 \<or>
      ms_ul_aggr_sdus ue0 \<noteq> ms_ul_aggr_sdus ue1 \<or>
      ms_dl_aggr_retx_prb ue0 \<noteq> ms_dl_aggr_retx_prb ue1 \<or>
      ms_ul_aggr_retx_prb ue0 \<noteq> ms_ul_aggr_retx_prb ue1 \<or> ms_wb_cqi ue0 \<noteq> ms_wb_cqi ue1 \<or>
      ms_dl_mcs1 ue0 \<noteq> ms_dl_mcs1 ue1 \<or> ms_ul_mcs1 ue0 \<noteq> ms_ul_mcs1 ue1 \<or>
      ms_dl_mcs2 ue0 \<noteq> ms_dl_mcs2 ue1 \<or> ms_ul_mcs2 ue0 \<noteq> ms_ul_mcs2 ue1 \<or>
      ms_phr ue0 \<noteq> ms_phr ue1 \<or> ms_bsr ue0 \<noteq> ms_bsr ue1 \<or>
      \<not> eq32 (ms_dl_bler ue0) (ms_dl_bler ue1) \<or> \<not> eq32 (ms_ul_bler ue0) (ms_ul_bler ue1) \<or>
      ms_dl_num_harq ue0 \<noteq> ms_dl_num_harq ue1 \<or> ms_dl_harq ue0 ! 0 \<noteq> ms_dl_harq ue1 ! 0 \<or>
      ms_dl_harq ue0 ! 1 \<noteq> ms_dl_harq ue1 ! 1 \<or> ms_dl_harq ue0 ! 2 \<noteq> ms_dl_harq ue1 ! 2 \<or>
      ms_dl_harq ue0 ! 3 \<noteq> ms_dl_harq ue1 ! 3 \<or> ms_dl_harq ue0 ! 4 \<noteq> ms_dl_harq ue1 ! 4 \<or>
      ms_ul_num_harq ue0 \<noteq> ms_ul_num_harq ue1 \<or> ms_ul_harq ue0 ! 0 \<noteq> ms_ul_harq ue1 ! 0 \<or>
      ms_ul_harq ue0 ! 1 \<noteq> ms_ul_harq ue1 ! 1 \<or> ms_ul_harq ue0 ! 2 \<noteq> ms_ul_harq ue1 ! 2 \<or>
      ms_ul_harq ue0 ! 3 \<noteq> ms_ul_harq ue1 ! 3 \<or> ms_ul_harq ue0 ! 4 \<noteq> ms_ul_harq ue1 ! 4 \<or>
      ms_frame ue0 \<noteq> ms_frame ue1 \<or> ms_slot ue0 \<noteq> ms_slot ue1
      then Inr False
      else bind_res (eq_float fpu (ms_pusch_snr ue0) (ms_pusch_snr ue1) MAC_EPS) (\<lambda>b. if b = False then Inr False
      else bind_res (eq_float fpu (ms_pucch_snr ue0) (ms_pucch_snr ue0) MAC_EPS) (\<lambda>b. if b = False then Inr False
      else Inr True)))"

fun eq_mac_ues :: "fpu \<Rightarrow> mac_ue_stats list \<Rightarrow> mac_ue_stats list \<Rightarrow> bool res" where
  "eq_mac_ues fpu (ue0 # ues0) (ue1 # ues1) =
     bind_res (eq_mac_ue fpu ue0 ue1) (\<lambda>b. if \<not> b then Inr False else eq_mac_ues fpu ues0 ues1)"
| "eq_mac_ues fpu _ _ = Inr True"

definition eq_mac_ind_msg :: "fpu \<Rightarrow> mac_ind_msg \<Rightarrow> mac_ind_msg \<Rightarrow> bool res" where
  "eq_mac_ind_msg fpu m0 m1 =
     (if length (mm_ue_stats m0) \<noteq> length (mm_ue_stats m1) \<or> mm_tstamp m0 \<noteq> mm_tstamp m1 then Inr False
      else eq_mac_ues fpu (mm_ue_stats m0) (mm_ue_stats m1))"

definition free_mac_call_proc_id :: "mac_call_proc_id option \<Rightarrow> unit res" where
  "free_mac_call_proc_id src = Inr ()"

definition cp_mac_call_proc_id :: "mac_call_proc_id \<Rightarrow> mac_call_proc_id" where
  "cp_mac_call_proc_id src = src"

definition eq_mac_call_proc_id :: "mac_call_proc_id option \<Rightarrow> mac_call_proc_id option \<Rightarrow> bool" where
  "eq_mac_call_proc_id m0 m1 =
     (if m0 = None \<and> m1 = None then True
      else if m0 = None then False
      else if m1 = None then False
      else if the m0 \<noteq> the m1 then False
      else True)"

definition free_mac_ctrl_hdr :: "mac_ctrl_hdr \<Rightarrow> unit res" where
  "free_mac_ctrl_hdr src = Inr ()"

definition cp_mac_ctrl_hdr :: "mac_ctrl_hdr \<Rightarrow> mac_ctrl_hdr" where
  "cp_mac_ctrl_hdr src = src"

definition free_mac_ctrl_msg :: "mac_ctrl_msg \<Rightarrow> unit res" where
  "free_mac_ctrl_msg src = Inr ()"

definition cp_mac_ctrl_msg :: "mac_ctrl_msg \<Rightarrow> mac_ctrl_msg" where
  "cp_mac_ctrl_msg src = \<lparr>mg_ran_conf = map (\<lambda>i. mg_ran_conf src ! i) [0..<length (mg_ran_conf src)]\<rparr>"

definition free_mac_ctrl_out :: "mac_ctrl_out \<Rightarrow> unit res" where
  "free_mac_ctrl_out src = Inr ()"

definition cp_mac_func_def :: "mac_func_def \<Rightarrow> mac_func_def" where
  "cp_mac_func_def src = copy_byte_array src"

definition eq_mac_func_def :: "(u64 \<times> mac_func_def) option \<Rightarrow> (u64 \<times> mac_func_def) option \<Rightarrow> bool res" where
  "eq_mac_func_def m0 m1 = (if m0 = m1 then Inr True else eq_func_def_struct func_def_image_len m0 m1)"

definition cp_mac_ind_data :: "mac_ind_data \<Rightarrow> mac_ind_data" where
  "cp_mac_ind_data src =
     \<lparr>mi_hdr = cp_mac_ind_hdr (mi_hdr src), mi_msg = cp_mac_ind_msg (mi_msg src),
      mi_proc_id = map_option cp_mac_call_proc_id (mi_proc_id src)\<rparr>"

definition free_mac_ind_data :: "mac_ind_data \<Rightarrow> unit res" where
  "free_mac_ind_data ind =
     bind_res (free_mac_ind_hdr (mi_hdr ind)) (\<lambda>_.
     bind_res (free_mac_ind_msg (mi_msg ind)) (\<lambda>_.
       free_mac_call_proc_id (mi_proc_id ind)))"

section \<open>The plain codec\<close>

text \<open>\<open>mac_ue_stats_impl_t\<close>: 176 bytes, the last six are padding.\<close>

definition enc_mac_ue_stats :: "(nat \<Rightarrow> u8) \<Rightarrow> mac_ue_stats \<Rightarrow> byte_array" where
  "enc_mac_ue_stats p x =
     le 8 (ms_dl_aggr_tbs x) @ le 8 (ms_ul_aggr_tbs x) @ le 8 (ms_dl_aggr_bytes_sdus x) @
     le 8 (ms_ul_aggr_bytes_sdus x) @ le 8 (ms_dl_curr_tbs x) @ le 8 (ms_ul_curr_tbs x) @ le 8 (ms_dl_sched_rb x) @
     le 8 (ms_ul_sched_rb x) @ le 4 (ms_pusch_snr x) @ le 4 (ms_pucch_snr x) @ le 4 (ms_dl_bler x) @
     le 4 (ms_ul_bler x) @ concat (map (le 4) (ms_dl_harq x)) @ concat (map (le 4) (ms_ul_harq x)) @
     le 4 (ms_dl_num_harq x) @ le 4 (ms_ul_num_harq x) @ le 4 (ms_rnti x) @ le 4 (ms_dl_aggr_prb x) @
     le 4 (ms_ul_aggr_prb x) @ le 4 (ms_dl_aggr_sdus x) @ le 4 (ms_ul_aggr_sdus x) @ le 4 (ms_dl_aggr_retx_prb x) @
     le 4 (ms_ul_aggr_retx_prb x) @ le 4 (ms_bsr x) @ le 2 (ms_frame x) @ le 2 (ms_slot x) @ le 1 (ms_wb_cqi x) @
     le 1 (ms_dl_mcs1 x) @ le 1 (ms_ul_mcs1 x) @ le 1 (ms_dl_mcs2 x) @ le 1 (ms_ul_mcs2 x) @ le 1 (ms_phr x) @
     [p 0, p 1, p 2, p 3, p 4, p 5]"

definition dec_mac_ue_stats :: "byte_array \<Rightarrow> mac_ue_stats" where
  "dec_mac_ue_stats bs =
     \<lparr>ms_dl_aggr_tbs = fld 0 8 bs, ms_ul_aggr_tbs = fld 8 8 bs, ms_dl_aggr_bytes_sdus = fld 16 8 bs,
      ms_ul_aggr_bytes_sdus = fld 24 8 bs, ms_dl_curr_tbs = fld 32 8 bs, ms_ul_curr_tbs = fld 40 8 bs,
      ms_dl_sched_rb = fld 48 8 bs, ms_ul_sched_rb = fld 56 8 bs, ms_pusch_snr = fld 64 4 bs,
      ms_pucch_snr = fld 68 4 bs, ms_dl_bler = fld 72 4 bs, ms_ul_bler = fld 76 4 bs,
      ms_dl_harq = [fld 80 4 bs, fld 84 4 bs, fld 88 4 bs, fld 92 4 bs, fld 96 4 bs],
      ms_ul_harq = [fld 100 4 bs, fld 104 4 bs, fld 108 4 bs, fld 112 4 bs, fld 116 4 bs],
      ms_dl_num_harq = fld 120 4 bs, ms_ul_num_harq = fld 124 4 bs, ms_rnti = fld 128 4 bs,
      ms_dl_aggr_prb = fld 132 4 bs, ms_ul_aggr_prb = fld 136 4 bs, ms_dl_aggr_sdus = fld 140 4 bs,
      ms_ul_aggr_sdus = fld 144 4 bs, ms_dl_aggr_retx_prb = fld 148 4 bs, ms_ul_aggr_retx_prb = fld 152 4 bs,
      ms_bsr = fld 156 4 bs, ms_frame = fld 160 2 bs, ms_slot = fld 162 2 bs, ms_wb_cqi = fld 164 1 bs,
      ms_dl_mcs1 = fld 165 1 bs, ms_ul_mcs1 = fld 166 1 bs, ms_dl_mcs2 = fld 167 1 bs, ms_ul_mcs2 = fld 168 1 bs,
      ms_phr = fld 169 1 bs\<rparr>"

definition MAC_UE_SZ :: nat where
  "MAC_UE_SZ = 176"

definition enc_mac_conf :: "(nat \<Rightarrow> u8) \<Rightarrow> mac_conf \<Rightarrow> byte_array" where
  "enc_mac_conf p x = le 4 (mf_rnti x) @ le 1 (mf_pusch_mcs x) @ le 1 (mf_isset_pusch_mcs x) @ [p 0, p 1]"

definition dec_mac_conf :: "byte_array \<Rightarrow> mac_conf" where
  "dec_mac_conf bs = \<lparr>mf_rnti = fld 0 4 bs, mf_pusch_mcs = fld 4 1 bs, mf_isset_pusch_mcs = fld 5 1 bs\<rparr>"

definition MAC_CONF_SZ :: nat where
  "MAC_CONF_SZ = 8"

lemma enc_dec_ue:
  assumes "length bs = MAC_UE_SZ"
  shows "enc_mac_ue_stats (\<lambda>i. bs ! (170 + i)) (dec_mac_ue_stats bs) = bs"
proof -
  have l: "length bs = 176" using assms by (simp add: MAC_UE_SZ_def)
  have "[bs ! (170 + 0), bs ! (170 + 1), bs ! (170 + 2), bs ! (170 + 3), bs ! (170 + 4), bs ! (170 + 5)] = drop 170 bs"
    using l by (intro nth_equalityI) (auto simp: less_Suc_eq numeral_eq_Suc nth_Cons split: nat.split)
  then show ?thesis
    unfolding enc_mac_ue_stats_def dec_mac_ue_stats_def mac_ue_stats.simps list.map concat.simps append_assoc append_Nil
    by (simp only:) (simp add: le_fld l del: le.simps One_nat_def)
qed
lemma wf_dec_mac_ue: "wf_mac_ue (dec_mac_ue_stats bs)"
  by (simp add: wf_mac_ue_def dec_mac_ue_stats_def)

interpretation ue: full_layout wf_mac_ue enc_mac_ue_stats dec_mac_ue_stats MAC_UE_SZ "\<lambda>bs i. bs ! (170 + i)"
proof
  show "wf_mac_ue (dec_mac_ue_stats bs)" for bs by (rule wf_dec_mac_ue)
  show "length bs = MAC_UE_SZ \<Longrightarrow> enc_mac_ue_stats (\<lambda>i. bs ! (170 + i)) (dec_mac_ue_stats bs) = bs" for bs
    by (rule enc_dec_ue)
next
  fix x :: mac_ue_stats and p
  assume "wf_mac_ue x"
  then obtain a b c d e f g h i j where [simp]: "ms_dl_harq x = [a, b, c, d, e]" "ms_ul_harq x = [f, g, h, i, j]"
    by (auto simp: wf_mac_ue_def eval_nat_numeral length_Suc_conv)
  show "length (enc_mac_ue_stats p x) = MAC_UE_SZ" by (simp add: enc_mac_ue_stats_def MAC_UE_SZ_def)
  show "dec_mac_ue_stats (enc_mac_ue_stats p x) = x"
    by (simp add: enc_mac_ue_stats_def dec_mac_ue_stats_def fld_simps del: le.simps)
qed

interpretation conf: layout "\<lambda>_ :: mac_conf. True" enc_mac_conf dec_mac_conf MAC_CONF_SZ
  by unfold_locales (simp_all add: enc_mac_conf_def dec_mac_conf_def MAC_CONF_SZ_def fld_simps del: le.simps)

subsection \<open>Encoding\<close>

definition mac_enc_event_trigger :: "mac_event_trigger \<Rightarrow> byte_array" where
  "mac_enc_event_trigger event_trigger = enc_u32 event_trigger"

definition mac_enc_action_def :: "mac_action_def \<Rightarrow> byte_array res" where
  "mac_enc_action_def action_def = Inl AssertFailed"

definition mac_enc_ind_hdr :: "mac_ind_hdr \<Rightarrow> byte_array" where
  "mac_enc_ind_hdr ind_hdr = enc_u32 ind_hdr"

text \<open>The size of the buffer is kept in a \<open>uint32_t\<close>.\<close>

definition mac_enc_ind_msg :: "(nat \<Rightarrow> nat \<Rightarrow> u8) \<Rightarrow> mac_ind_msg \<Rightarrow> byte_array res" where
  "mac_enc_ind_msg pad m =
     (let len = (word_of_nat (4 + MAC_UE_SZ * length (mm_ue_stats m) + 8) :: u32) in
      enc_counted enc_mac_ue_stats MAC_UE_SZ pad (unat len) (mm_ue_stats m) (mm_tstamp m))"

definition mac_enc_call_proc_id :: "mac_call_proc_id \<Rightarrow> byte_array res" where
  "mac_enc_call_proc_id call_proc_id = Inl AssertFailed"

definition mac_enc_ctrl_hdr :: "mac_ctrl_hdr \<Rightarrow> byte_array" where
  "mac_enc_ctrl_hdr ctrl_hdr = enc_u32 ctrl_hdr"

definition mac_enc_ctrl_msg :: "(nat \<Rightarrow> nat \<Rightarrow> u8) \<Rightarrow> mac_ctrl_msg \<Rightarrow> byte_array res" where
  "mac_enc_ctrl_msg pad m =
     enc_list enc_mac_conf MAC_CONF_SZ pad (4 + MAC_CONF_SZ * length (mg_ran_conf m)) (mg_ran_conf m)"

definition mac_enc_ctrl_out :: "mac_ctrl_out \<Rightarrow> byte_array" where
  "mac_enc_ctrl_out ctrl = enc_u32 ctrl"

definition mac_enc_func_def :: "mac_func_def \<Rightarrow> byte_array res" where
  "mac_enc_func_def func = Inl AssertFailed"

subsection \<open>Decoding\<close>

definition mac_dec_event_trigger :: "byte_array \<Rightarrow> mac_event_trigger res" where
  "mac_dec_event_trigger ev_tr = dec_u32_prefix ev_tr"

definition mac_dec_action_def :: "byte_array \<Rightarrow> mac_action_def res" where
  "mac_dec_action_def action_def = Inl AssertFailed"

definition mac_dec_ind_hdr :: "byte_array \<Rightarrow> mac_ind_hdr res" where
  "mac_dec_ind_hdr ind_hdr = dec_u32_exact ind_hdr"

definition mac_dec_ind_msg :: "byte_array \<Rightarrow> mac_ind_msg res" where
  "mac_dec_ind_msg ind_msg =
     map_res (\<lambda>(ues, t). \<lparr>mm_ue_stats = ues, mm_tstamp = t\<rparr>) (dec_counted dec_mac_ue_stats MAC_UE_SZ ind_msg)"

definition mac_dec_call_proc_id :: "byte_array \<Rightarrow> mac_call_proc_id res" where
  "mac_dec_call_proc_id call_proc_id = Inl AssertFailed"

definition mac_dec_ctrl_hdr :: "byte_array \<Rightarrow> mac_ctrl_hdr res" where
  "mac_dec_ctrl_hdr ctrl_hdr = dec_u32_exact ctrl_hdr"

definition mac_dec_ctrl_msg :: "byte_array \<Rightarrow> mac_ctrl_msg res" where
  "mac_dec_ctrl_msg ctrl_msg =
     map_res (\<lambda>confs. \<lparr>mg_ran_conf = confs\<rparr>) (dec_list dec_mac_conf MAC_CONF_SZ ctrl_msg)"

text \<open>The length is compared after the copy.\<close>

definition mac_dec_ctrl_out :: "byte_array \<Rightarrow> mac_ctrl_out res" where
  "mac_dec_ctrl_out ctrl_out = bind_res (dec_u32_prefix ctrl_out) (\<lambda>ans. c_assert (4 = length ctrl_out) (Inr ans))"

definition mac_dec_func_def :: "byte_array \<Rightarrow> mac_func_def res" where
  "mac_dec_func_def func_def = Inl AssertFailed"

section \<open>The plug-in of the agent\<close>

definition SM_MAC_ID :: u16 where
  "SM_MAC_ID = 142"

definition SM_MAC_STR :: string where
  "SM_MAC_STR = ''MAC_STATS_V0''"

definition SM_MAC_REV :: u16 where
  "SM_MAC_REV = 1"

definition SM_MAC_OID :: string where
  "SM_MAC_OID = ''0.0.0.0.0.0.0.0.1.142.0''"

definition mac_zero :: mac_ind_data where
  "mac_zero = \<lparr>mi_hdr = 0, mi_msg = \<lparr>mm_ue_stats = [], mm_tstamp = 0\<rparr>, mi_proc_id = None\<rparr>"

definition on_subscription_mac_sm_ag :: "sm_subs_data \<Rightarrow> sm_ag_if_ans_subs res" where
  "on_subscription_mac_sm_ag data =
     bind_res (mac_dec_event_trigger (sb_event_trigger data)) (\<lambda>ev. Inr (PERIODIC_SUBSCRIPTION_FLRC ev))"

text \<open>The deferred calls run in the reverse order when the function returns.\<close>

definition on_indication_mac_sm_ag ::
  "(nat \<Rightarrow> nat \<Rightarrow> u8) \<Rightarrow> (mac_ind_data, mac_ctrl_req_data) sm_io_ag \<Rightarrow> byte_array option \<Rightarrow> exp_ind_data res" where
  "on_indication_mac_sm_ag pad io act_def =
     c_assert (act_def = None)
      (let ba_hdr = mac_enc_ind_hdr 0; (avail, mac) = io_read_ind io mac_zero in
       bind_res
        (if avail = False then Inr None
         else map_res (\<lambda>ba. Some \<lparr>sid_hdr = ba_hdr, sid_msg = ba, sid_call_process_id = None\<rparr>)
               (mac_enc_ind_msg pad (mi_msg mac))) (\<lambda>ret.
       bind_res (free_mac_call_proc_id (mi_proc_id mac)) (\<lambda>_.
       bind_res (free_mac_ind_msg (mi_msg mac)) (\<lambda>_.
       bind_res (free_mac_ind_hdr (mi_hdr mac)) (\<lambda>_. Inr ret)))))"

definition on_control_mac_sm_ag ::
  "(mac_ind_data, mac_ctrl_req_data) sm_io_ag \<Rightarrow> sm_ctrl_req_data \<Rightarrow> sm_ctrl_out_data res" where
  "on_control_mac_sm_ag io data =
     bind_res (mac_dec_ctrl_hdr (sc_ctrl_hdr data)) (\<lambda>hdr.
     bind_res (mac_dec_ctrl_msg (sc_ctrl_msg data)) (\<lambda>msg.
     bind_res (case io_write_ctrl io \<lparr>mr_hdr = hdr, mr_msg = msg\<rparr> of
        CTRL_OUTCOME_SM_AG_IF_ANS_V0 ans \<Rightarrow>
          c_assert (ac_type ans = MAC_AGENT_IF_CTRL_ANS_V0)
           (bind_res (Inr (mac_enc_ctrl_out (ac_ans ans))) (\<lambda>ba.
            bind_res (free_mac_ctrl_out (ac_ans ans)) (\<lambda>_. Inr \<lparr>so_ctrl_out = ba\<rparr>)))
      | _ \<Rightarrow> Inl AssertFailed) (\<lambda>ret.
     bind_res (free_mac_ctrl_msg msg) (\<lambda>_.
     bind_res (free_mac_ctrl_hdr hdr) (\<lambda>_. Inr ret)))))"

definition on_e2_setup_mac_sm_ag :: "sm_e2_setup_data res" where
  "on_e2_setup_mac_sm_ag = e2_setup_name SM_MAC_STR"

definition on_ric_service_update_mac_sm_ag :: "byte_array res" where
  "on_ric_service_update_mac_sm_ag = Inl AssertFailed"

definition make_mac_sm_agent ::
  "(nat \<Rightarrow> nat \<Rightarrow> u8) \<Rightarrow> (mac_ind_data, mac_ctrl_req_data) sm_io_ag \<Rightarrow> sm_agent_procs" where
  "make_mac_sm_agent pad io =
     \<lparr>ap_on_subscription = on_subscription_mac_sm_ag, ap_on_indication = on_indication_mac_sm_ag pad io,
      ap_on_control = on_control_mac_sm_ag io, ap_on_e2_setup = on_e2_setup_mac_sm_ag,
      ap_info_def = SM_MAC_STR, ap_info_id = SM_MAC_ID, ap_info_rev = SM_MAC_REV, ap_info_oid = SM_MAC_OID\<rparr>"

section \<open>The plug-in of the RIC\<close>

definition on_subscription_mac_sm_ric :: "string \<Rightarrow> sm_subs_data res" where
  "on_subscription_mac_sm_ric cmd =
     bind_res (period_of_cmd cmd) (\<lambda>ms.
       Inr \<lparr>sb_event_trigger = mac_enc_event_trigger ms, sb_action_def = None\<rparr>)"

definition on_indication_mac_sm_ric :: "sm_ind_data \<Rightarrow> mac_ind_data sm_ag_if_rd_ind res" where
  "on_indication_mac_sm_ric data =
     bind_res (mac_dec_ind_hdr (sid_hdr data)) (\<lambda>hdr.
     bind_res (mac_dec_ind_msg (sid_msg data)) (\<lambda>msg.
     c_assert (sid_call_process_id data = None)
      (Inr \<lparr>ri_type = MAC_STATS_V0, ri_data = \<lparr>mi_hdr = hdr, mi_msg = msg, mi_proc_id = None\<rparr>\<rparr>)))"

definition ric_on_control_req_mac_sm_ric :: "(nat \<Rightarrow> nat \<Rightarrow> u8) \<Rightarrow> mac_ctrl_req_data \<Rightarrow> sm_ctrl_req_data res" where
  "ric_on_control_req_mac_sm_ric pad req =
     (let ba = mac_enc_ctrl_hdr (mr_hdr req) in
      bind_res (mac_enc_ctrl_msg pad (mr_msg req)) (\<lambda>ba2. Inr \<lparr>sc_ctrl_hdr = ba, sc_ctrl_msg = ba2\<rparr>))"

definition ric_on_control_out_mac_sm_ric :: "sm_ctrl_out_data \<Rightarrow> sm_ag_if_ans_ctrl res" where
  "ric_on_control_out_mac_sm_ric out =
     bind_res (mac_dec_ctrl_out (so_ctrl_out out)) (\<lambda>ans.
       c_assert (ans = MAC_CTRL_OUT_OK) (Inr \<lparr>ac_type = MAC_AGENT_IF_CTRL_ANS_V0, ac_ans = ans\<rparr>))"

definition ric_on_e2_setup_mac_sm_ric :: "sm_e2_setup_data \<Rightarrow> byte_array sm_ag_if_rd_e2setup res" where
  "ric_on_e2_setup_mac_sm_ric setup =
     Inr \<lparr>es_type = MAC_AGENT_IF_E2_SETUP_ANS_V0,
       es_func_def = copy_byte_array (se_ran_fun_def setup)\<rparr>"

definition on_ric_service_update_mac_sm_ric :: "byte_array \<Rightarrow> mac_func_def res" where
  "on_ric_service_update_mac_sm_ric rsu = Inl AssertFailed"

definition free_ind_data_mac_sm_ric :: "mac_ind_data sm_ag_if_rd_ind \<Rightarrow> unit res" where
  "free_ind_data_mac_sm_ric rd_ind =
     c_assert (ri_type rd_ind = MAC_STATS_V0)
      (bind_res (free_mac_ind_hdr (mi_hdr (ri_data rd_ind))) (\<lambda>_.
       bind_res (free_mac_ind_msg (mi_msg (ri_data rd_ind))) (\<lambda>_.
       c_assert (mi_proc_id (ri_data rd_ind) = None)
        (if mi_proc_id (ri_data rd_ind) \<noteq> None then free_mac_call_proc_id (mi_proc_id (ri_data rd_ind)) else Inr ()))))"

definition free_subs_data_mac_sm_ric :: "sm_subs_data \<Rightarrow> unit res" where
  "free_subs_data_mac_sm_ric msg = Inl AssertFailed"

definition free_ctrl_req_data_mac_sm_ric :: "sm_ctrl_req_data \<Rightarrow> unit res" where
  "free_ctrl_req_data_mac_sm_ric msg = Inl AssertFailed"

definition free_ctrl_out_data_mac_sm_ric :: "sm_ctrl_out_data \<Rightarrow> unit res" where
  "free_ctrl_out_data_mac_sm_ric msg = Inl AssertFailed"

definition free_e2_setup_mac_sm_ric :: "sm_e2_setup_data \<Rightarrow> unit res" where
  "free_e2_setup_mac_sm_ric msg = Inl AssertFailed"

definition free_ric_service_update_mac_sm_ric :: "byte_array \<Rightarrow> unit res" where
  "free_ric_service_update_mac_sm_ric msg = Inl AssertFailed"

definition mac_sm_ric :: "(nat \<Rightarrow> nat \<Rightarrow> u8) \<Rightarrow> (mac_ind_data, mac_ctrl_req_data) sm_ric_procs" where
  "mac_sm_ric pad =
     \<lparr>rp_ran_func_id = SM_MAC_ID, rp_ran_func_name = SM_MAC_STR, rp_on_subscription = on_subscription_mac_sm_ric,
      rp_on_indication = on_indication_mac_sm_ric, rp_on_control_req = ric_on_control_req_mac_sm_ric pad,
      rp_on_control_out = ric_on_control_out_mac_sm_ric, rp_on_e2_setup = ric_on_e2_setup_mac_sm_ric,
      rp_free_ind_data = free_ind_data_mac_sm_ric\<rparr>"

definition make_mac_sm_ric :: "(nat \<Rightarrow> nat \<Rightarrow> u8) \<Rightarrow> (mac_ind_data, mac_ctrl_req_data) sm_ric_procs res" where
  "make_mac_sm_ric pad = c_assert (length SM_MAC_STR < RAN_FUNC_NAME_SZ) (Inr (mac_sm_ric pad))"

section \<open>Correctness\<close>

lemmas mac_one_number = mac_enc_event_trigger_def mac_dec_event_trigger_def mac_enc_ind_hdr_def mac_dec_ind_hdr_def
  mac_enc_ctrl_hdr_def mac_dec_ctrl_hdr_def mac_enc_ctrl_out_def mac_dec_ctrl_out_def

lemmas mac_frees = free_mac_ind_hdr_def free_mac_ind_msg_def free_mac_call_proc_id_def free_mac_ctrl_hdr_def
  free_mac_ctrl_msg_def free_mac_ctrl_out_def

text \<open>A message fits when its encoding has fewer than \<open>2\<^sup>3\<^sup>2\<close> bytes.\<close>

definition mac_fits :: "mac_ind_msg \<Rightarrow> bool" where
  "mac_fits m \<longleftrightarrow> wf_mac_ind m \<and> 12 + MAC_UE_SZ * length (mm_ue_stats m) < 2 ^ 32"

definition mac_image :: "(nat \<Rightarrow> nat \<Rightarrow> u8) \<Rightarrow> mac_ind_msg \<Rightarrow> byte_array" where
  "mac_image pad m = le 4 (word_of_nat (length (mm_ue_stats m)) :: u32) @ ue.images pad 0 (mm_ue_stats m) @ le 8 (mm_tstamp m)"

lemma wf_ues: "wf_mac_ind m \<Longrightarrow> \<forall>x \<in> set (mm_ue_stats m). wf_mac_ue x"
  by (simp add: wf_mac_ind_def list_all_iff)

lemma length_mac_image: "wf_mac_ind m \<Longrightarrow> length (mac_image pad m) = 12 + MAC_UE_SZ * length (mm_ue_stats m)"
  by (simp add: mac_image_def ue.length_images wf_ues)

lemma mac_enc_fits:
  assumes "mac_fits m"
  shows "mac_enc_ind_msg pad m = Inr (mac_image pad m)"
proof -
  let ?n = "4 + MAC_UE_SZ * length (mm_ue_stats m) + 8"
  have "unat (word_of_nat ?n :: u32) = 12 + MAC_UE_SZ * length (mm_ue_stats m)"
    using assms unat_of_nat_32 [of ?n] by (simp only: mac_fits_def) linarith
  moreover have "wf_mac_ind m" using assms by (simp only: mac_fits_def)
  ultimately show ?thesis
    unfolding mac_enc_ind_msg_def Let_def mac_image_def by (intro ue.enc_counted_ok [OF wf_ues])
qed

lemma mac_dec_image: "wf_mac_ind m \<Longrightarrow> mac_dec_ind_msg (mac_image pad m) = Inr m"
  by (simp add: mac_dec_ind_msg_def mac_image_def ue.dec_counted_ok wf_ues wf_mac_ind_def)

lemma mac_enc_overrun:
  assumes "wf_mac_ind m" "2 ^ 32 \<le> 12 + MAC_UE_SZ * length (mm_ue_stats m)"
  shows "mac_enc_ind_msg pad m = Inl OutOfBounds"
proof -
  let ?n = "4 + MAC_UE_SZ * length (mm_ue_stats m) + 8"
  have "unat (word_of_nat ?n :: u32) < 2 ^ 32" using unat_small [where 'a = 32] by simp
  with assms(2) have "unat (word_of_nat ?n :: u32) < 12 + MAC_UE_SZ * length (mm_ue_stats m)" by linarith
  then show ?thesis
    unfolding mac_enc_ind_msg_def Let_def by (intro ue.enc_counted_overrun [OF wf_ues] assms(1))
qed

lemma mac_agent_report:
  assumes "io_read_ind io mac_zero = (True, i)" "mac_fits (mi_msg i)"
  shows "on_indication_mac_sm_ag pad io None =
    Inr (Some \<lparr>sid_hdr = enc_u32 0, sid_msg = mac_image pad (mi_msg i), sid_call_process_id = None\<rparr>)"
  using assms by (simp add: on_indication_mac_sm_ag_def mac_enc_fits mac_frees mac_one_number)

lemma mac_ric_report:
  assumes "wf_mac_ind m"
  shows "on_indication_mac_sm_ric \<lparr>sid_hdr = enc_u32 h, sid_msg = mac_image pad m, sid_call_process_id = None\<rparr> =
    Inr \<lparr>ri_type = MAC_STATS_V0, ri_data = \<lparr>mi_hdr = h, mi_msg = m, mi_proc_id = None\<rparr>\<rparr>"
  using assms by (simp add: on_indication_mac_sm_ric_def mac_dec_image mac_one_number)

text \<open>What the RIC gets of a report: the header is always 0 and there is no process identifier.\<close>

definition mac_reported :: "mac_ind_data \<Rightarrow> mac_ind_data" where
  "mac_reported i = \<lparr>mi_hdr = 0, mi_msg = mi_msg i, mi_proc_id = None\<rparr>"

interpretation mac: service_model make_mac_sm_agent "mac_sm_ric pad" mac_zero "\<lambda>i. mac_fits (mi_msg i)" mac_reported
  MAC_STATS_V0 MAC_AGENT_IF_E2_SETUP_ANS_V0 "cp_str_to_ba SM_MAC_STR"
proof
  fix cmd ms and pad' :: "nat \<Rightarrow> nat \<Rightarrow> u8" and io :: "(mac_ind_data, mac_ctrl_req_data) sm_io_ag" and i
  show "map_of periods cmd = Some ms \<Longrightarrow> \<exists>d. rp_on_subscription (mac_sm_ric pad) cmd = Inr d \<and>
      ap_on_subscription (make_mac_sm_agent pad' io) d = Inr (PERIODIC_SUBSCRIPTION_FLRC ms)"
    by (simp add: mac_sm_ric_def make_mac_sm_agent_def on_subscription_mac_sm_ric_def on_subscription_mac_sm_ag_def
        period_of_cmd_table mac_one_number)
  show "map_of periods cmd = None \<Longrightarrow> rp_on_subscription (mac_sm_ric pad) cmd = Inl AssertFailed"
    by (simp add: mac_sm_ric_def on_subscription_mac_sm_ric_def period_of_cmd_table)
  show "\<exists>d. ap_on_indication (make_mac_sm_agent pad' io) None = Inr (Some d) \<and>
      rp_on_indication (mac_sm_ric pad) d = Inr \<lparr>ri_type = MAC_STATS_V0, ri_data = mac_reported i\<rparr> \<and>
      rp_free_ind_data (mac_sm_ric pad) \<lparr>ri_type = MAC_STATS_V0, ri_data = mac_reported i\<rparr> = Inr () \<and>
      free_sm_ind_data d = Inr ()"
    if "io_read_ind io mac_zero = (True, i)" "mac_fits (mi_msg i)"
    using mac_agent_report [OF that, of pad'] that(2) length_mac_image [of "mi_msg i" pad']
    by (simp add: make_mac_sm_agent_def mac_sm_ric_def mac_ric_report mac_fits_def mac_reported_def mac_frees
        free_ind_data_mac_sm_ric_def free_sm_ind_data_def)
  show "io_read_ind io mac_zero = (False, i) \<Longrightarrow> mac_fits (mi_msg i) \<Longrightarrow>
      ap_on_indication (make_mac_sm_agent pad' io) None = Inr None"
    by (simp add: make_mac_sm_agent_def on_indication_mac_sm_ag_def mac_frees)
  show "bind_res (ap_on_e2_setup (make_mac_sm_agent pad' io)) (rp_on_e2_setup (mac_sm_ric pad)) =
      Inr \<lparr>es_type = MAC_AGENT_IF_E2_SETUP_ANS_V0, es_func_def = cp_str_to_ba SM_MAC_STR\<rparr>"
    by (simp add: make_mac_sm_agent_def mac_sm_ric_def on_e2_setup_mac_sm_ag_def e2_setup_name_def SM_MAC_STR_def
        ric_on_e2_setup_mac_sm_ric_def)
  show "ap_info_id (make_mac_sm_agent pad' io) = rp_ran_func_id (mac_sm_ric pad) \<and>
      ap_info_def (make_mac_sm_agent pad' io) = rp_ran_func_name (mac_sm_ric pad) \<and>
      length (rp_ran_func_name (mac_sm_ric pad)) < RAN_FUNC_NAME_SZ"
    by (simp add: make_mac_sm_agent_def mac_sm_ric_def SM_MAC_STR_def RAN_FUNC_NAME_SZ_def)
qed

text \<open>C13: A session of the MAC model, from the command of the xApp to the reports of the E2 node. The command
  gives the agent's timer its period; every report of the RAN that is available and fits reaches the RIC
  unchanged, in order, except that the header is 0 and the process identifier is dropped, and the RIC
  frees it; what the memory of the padding held makes no difference.\<close>

theorem mac_session:
  assumes "map_of periods cmd = Some ms" "\<forall>r \<in> set rs. mac_fits (mi_msg (sm_filled mac_zero (snd r)))"
  shows "\<exists>d. on_subscription_mac_sm_ric cmd = Inr d \<and>
      on_subscription_mac_sm_ag d = Inr (PERIODIC_SUBSCRIPTION_FLRC ms) \<and>
      fold_res (sm_report make_mac_sm_agent (mac_sm_ric pad)) rs [] =
        Inr (map (mac_reported \<circ> sm_filled mac_zero) (filter (\<lambda>io. fst (io_read_ind io mac_zero)) (map snd rs)))"
  using mac.session [OF assms, where got = "[]" and pad = pad]
  by (simp add: mac_sm_ric_def make_mac_sm_agent_def)

text \<open>C14: The encoder keeps the size of its buffer in 32 bits: up to 24403223 records the message is encoded,
  from 24403224 on it writes past the end of the buffer.\<close>

theorem mac_enc_ind_msg_overrun:
  assumes "wf_mac_ind m"
  shows "mac_enc_ind_msg pad m =
    (if length (mm_ue_stats m) < 24403224 then Inr (mac_image pad m) else Inl OutOfBounds)"
proof (cases "length (mm_ue_stats m) < 24403224")
  case True
  then show ?thesis using assms by (simp add: mac_enc_fits mac_fits_def MAC_UE_SZ_def)
next
  case False
  then show ?thesis using assms by (simp add: mac_enc_overrun MAC_UE_SZ_def)
qed

text \<open>C15: The decoder accepts exactly the bytes whose length is the one their count announces: what it returns is a
  message of the declared types (the arrays have five elements, the count is the number of records) from
  which the encoder makes the same bytes again, and whatever the padding holds the same message is read.
  Shorter bytes are read past their end, longer ones fail the assertion.\<close>

theorem mac_dec_ind_msg_checked:
  assumes "n = unat (of_le (take 4 bs) :: u32)"
  shows "(length bs = 12 + MAC_UE_SZ * n \<longrightarrow>
      (\<exists>m pad. mac_dec_ind_msg bs = Inr m \<and> wf_mac_ind m \<and> length (mm_ue_stats m) = n \<and> mac_image pad m = bs \<and>
        (length bs < 2 ^ 32 \<longrightarrow> mac_enc_ind_msg pad m = Inr bs) \<and>
        (\<forall>pad'. mac_dec_ind_msg (mac_image pad' m) = Inr m))) \<and>
    (mac_dec_ind_msg bs = Inl OutOfBounds \<longleftrightarrow> length bs < 4 \<or> length bs < 12 + MAC_UE_SZ * n) \<and>
    (mac_dec_ind_msg bs = Inl AssertFailed \<longleftrightarrow> 12 + MAC_UE_SZ * n < length bs)"
proof (intro conjI impI)
  assume len: "length bs = 12 + MAC_UE_SZ * n"
  obtain xs t pad where d: "dec_counted dec_mac_ue_stats MAC_UE_SZ bs = Inr (xs, t)" "\<forall>x \<in> set xs. wf_mac_ue x"
    "length xs = n" "le 4 (word_of_nat n :: u32) @ ue.images pad 0 xs @ le 8 t = bs"
    using ue.dec_counted_accepts [OF assms len] by blast
  let ?m = "\<lparr>mm_ue_stats = xs, mm_tstamp = t\<rparr>"
  have "n < 2 ^ 32" using assms unat_small [of "of_le (take 4 bs) :: u32"] by simp
  then have m: "wf_mac_ind ?m" using d(2,3) by (simp add: wf_mac_ind_def list_all_iff)
  have i: "mac_image pad ?m = bs" using d(3,4) by (simp add: mac_image_def)
  have "mac_enc_ind_msg pad ?m = Inr bs" if "length bs < 2 ^ 32"
    using mac_enc_fits [of ?m pad] that len m d(3) by (simp add: mac_fits_def i)
  moreover have "mac_dec_ind_msg bs = Inr ?m" by (simp add: mac_dec_ind_msg_def d(1))
  ultimately show "\<exists>m pad. mac_dec_ind_msg bs = Inr m \<and> wf_mac_ind m \<and> length (mm_ue_stats m) = n \<and> mac_image pad m = bs \<and>
      (length bs < 2 ^ 32 \<longrightarrow> mac_enc_ind_msg pad m = Inr bs) \<and> (\<forall>pad'. mac_dec_ind_msg (mac_image pad' m) = Inr m)"
    using d(3) m i by (intro exI [of _ ?m] exI [of _ pad]) (simp add: mac_dec_image)
qed (simp_all add: mac_dec_ind_msg_def dec_counted_any [OF assms] not_less)

text \<open>C16: A control of the MAC model reaches the RAN exactly as the xApp gave it; the answer OK comes back, every
  other answer (the code defines \<open>MAC_CTRL_OUT_KO\<close>) aborts the RIC.\<close>

theorem mac_control_round_trip:
  assumes "length (mg_ran_conf (mr_msg q)) < 2 ^ 32"
    and "io_write_ctrl io q = CTRL_OUTCOME_SM_AG_IF_ANS_V0 \<lparr>ac_type = MAC_AGENT_IF_CTRL_ANS_V0, ac_ans = ans\<rparr>"
  shows "bind_res (ric_on_control_req_mac_sm_ric pad q) (\<lambda>d.
      bind_res (on_control_mac_sm_ag io d) ric_on_control_out_mac_sm_ric) =
    (if ans = MAC_CTRL_OUT_OK then Inr \<lparr>ac_type = MAC_AGENT_IF_CTRL_ANS_V0, ac_ans = ans\<rparr> else Inl AssertFailed)"
proof -
  let ?bs = "le 4 (word_of_nat (length (mg_ran_conf (mr_msg q))) :: u32) @ conf.images pad 0 (mg_ran_conf (mr_msg q))"
  have e: "mac_enc_ctrl_msg pad (mr_msg q) = Inr ?bs"
    unfolding mac_enc_ctrl_msg_def by (intro conf.enc_list_ok) simp_all
  have d: "mac_dec_ctrl_msg ?bs = Inr (mr_msg q)"
    unfolding mac_dec_ctrl_msg_def using assms(1) by (subst conf.dec_list_ok) simp_all
  have "on_control_mac_sm_ag io \<lparr>sc_ctrl_hdr = enc_u32 (mr_hdr q), sc_ctrl_msg = ?bs\<rparr> = Inr \<lparr>so_ctrl_out = enc_u32 ans\<rparr>"
    using assms(2) d by (cases q) (simp add: on_control_mac_sm_ag_def mac_one_number mac_frees)
  then show ?thesis
    using e by (simp add: ric_on_control_req_mac_sm_ric_def ric_on_control_out_mac_sm_ric_def mac_one_number)
qed

section \<open>Comparison\<close>

definition no_nan :: "mac_ue_stats \<Rightarrow> bool" where
  "no_nan x \<longleftrightarrow> \<not> isnan32 (ms_pusch_snr x) \<and> \<not> isnan32 (ms_pucch_snr x) \<and> \<not> isnan32 (ms_dl_bler x) \<and> \<not> isnan32 (ms_ul_bler x)"

lemma five: "length xs = 5 \<Longrightarrow> [xs ! 0, xs ! Suc 0, xs ! 2, xs ! 3, xs ! 4] = xs"
  by (auto simp: eval_nat_numeral length_Suc_conv)

lemma cp_mac_ue_id: "wf_mac_ue x \<Longrightarrow> cp_mac_ue_stats_impl x = x"
  unfolding wf_mac_ue_def cp_mac_ue_stats_impl_def by (simp add: five)

lemma cp_mac_ind_msg_id: "wf_mac_ind m \<Longrightarrow> cp_mac_ind_msg m = m"
  by (simp add: cp_mac_ind_msg_def wf_mac_ind_def list_all_length cp_mac_ue_id map_upt_eqI)

lemma eq_mac_ue_same: "no_nan x \<Longrightarrow> eq_mac_ue fpu x (x\<lparr>ms_pucch_snr := s\<rparr>) = Inr True"
  by (simp add: eq_mac_ue_def no_nan_def eq_float_refl MAC_EPS_def isnan64_def)

text \<open>The comparison of two messages reads the PUCCH signal-to-noise ratio of the first message only: a
  message without NaN is equal to its copy, and still after every such ratio of the copy was changed.\<close>

theorem eq_mac_ind_msg_ignores_pucch:
  assumes "wf_mac_ind m" "list_all no_nan (mm_ue_stats m)"
  shows "eq_mac_ind_msg fpu m (cp_mac_ind_msg m) = Inr True \<and>
    eq_mac_ind_msg fpu m
      ((cp_mac_ind_msg m)\<lparr>mm_ue_stats := map (\<lambda>x. x\<lparr>ms_pucch_snr := f x\<rparr>) (mm_ue_stats (cp_mac_ind_msg m))\<rparr>) = Inr True"
proof -
  have "list_all no_nan xs \<Longrightarrow> eq_mac_ues fpu xs (map (\<lambda>x. x\<lparr>ms_pucch_snr := g x\<rparr>) xs) = Inr True" for xs g
    by (induction xs) (simp_all add: eq_mac_ue_same)
  from this [of _ f] this [of _ ms_pucch_snr] assms(2) show ?thesis
    by (simp add: eq_mac_ind_msg_def cp_mac_ind_msg_id assms(1))
qed

text \<open>\<open>eq_mac_func_def\<close> compares the structures, not the definitions: with up to 8 bytes any two definitions
  of one length are equal, with 16 bytes a definition differs from its own copy, and with more the
  comparison reads past the structures.\<close>

theorem eq_mac_func_def_compares_pointers:
  assumes "length b0 = length b1" "p0 \<noteq> p1"
  shows "(length b0 \<le> 8 \<longrightarrow> eq_mac_func_def (Some (p0, b0)) (Some (p1, b1)) = Inr True) \<and>
    (length b0 = 16 \<longrightarrow> eq_mac_func_def (Some (p0, b0)) (Some (p1, cp_mac_func_def b0)) = Inr False) \<and>
    (16 < length b0 \<longrightarrow> eq_mac_func_def (Some (p0, b0)) (Some (p1, b1)) = Inl OutOfBounds)"
  using assms
  by (simp add: eq_mac_func_def_def eq_func_def_struct_short eq_func_def_struct_long eq_func_def_struct_other_buffer
      cp_mac_func_def_def)

section \<open>Witnesses\<close>

definition sample_ue :: mac_ue_stats where
  "sample_ue = (dec_mac_ue_stats [])\<lparr>ms_rnti := 7, ms_dl_mcs1 := 28\<rparr>"

definition sample_mac_io :: "bool \<Rightarrow> (mac_ind_data, mac_ctrl_req_data) sm_io_ag" where
  "sample_mac_io avail =
     \<lparr>io_read_ind = (\<lambda>i. (avail, i\<lparr>mi_hdr := 3, mi_msg := \<lparr>mm_ue_stats = [sample_ue], mm_tstamp = 42\<rparr>\<rparr>)),
      io_write_ctrl = (\<lambda>q. CTRL_OUTCOME_SM_AG_IF_ANS_V0 \<lparr>ac_type = MAC_AGENT_IF_CTRL_ANS_V0, ac_ans = MAC_CTRL_OUT_KO\<rparr>)\<rparr>"

text \<open>The rounding operations do not matter where the operands are equal.\<close>

definition sample_fpu :: fpu where
  "sample_fpu = \<lparr>fp_add32 = (+), fp_sub32 = (-), fp_to64 = ucast, fp_lt64 = (<), fp_mul64 = (*), fp_div64 = (div)\<rparr>"

lemma wf_sample_ue: "wf_mac_ue sample_ue"
  using wf_dec_mac_ue [of "[]"] by (simp add: sample_ue_def wf_mac_ue_def)

lemma sample_mac_fits: "mac_fits \<lparr>mm_ue_stats = [sample_ue], mm_tstamp = t\<rparr>"
  by (simp add: mac_fits_def wf_mac_ind_def wf_sample_ue MAC_UE_SZ_def)

theorem mac_session_witness:
  "\<exists>d. on_subscription_mac_sm_ric ''10_ms'' = Inr d \<and>
      on_subscription_mac_sm_ag d = Inr (PERIODIC_SUBSCRIPTION_FLRC 10) \<and>
      fold_res (sm_report make_mac_sm_agent (mac_sm_ric (\<lambda>_ _. 0)))
          [(\<lambda>_ _. 1, sample_mac_io True), (\<lambda>_ _. 2, sample_mac_io False)] [] =
        Inr [\<lparr>mi_hdr = 0, mi_msg = \<lparr>mm_ue_stats = [sample_ue], mm_tstamp = 42\<rparr>, mi_proc_id = None\<rparr>]"
proof -
  have "sm_filled mac_zero (sample_mac_io b) =
      \<lparr>mi_hdr = 3, mi_msg = \<lparr>mm_ue_stats = [sample_ue], mm_tstamp = 42\<rparr>, mi_proc_id = None\<rparr>" for b
    by (simp add: sm_filled_def sample_mac_io_def mac_zero_def)
  moreover have "fst (io_read_ind (sample_mac_io b) mac_zero) = b" for b by (simp add: sample_mac_io_def)
  ultimately show ?thesis
    using mac_session [of "''10_ms''" 10 "[(\<lambda>_ _. 1, sample_mac_io True), (\<lambda>_ _. 2, sample_mac_io False)]" "\<lambda>_ _. 0"]
    by (simp add: sample_mac_fits periods_def mac_reported_def)
qed

theorem mac_enc_ind_msg_overrun_witness:
  "mac_enc_ind_msg (\<lambda>_ _. 0) \<lparr>mm_ue_stats = replicate 24403224 sample_ue, mm_tstamp = 0\<rparr> = Inl OutOfBounds"
  by (subst mac_enc_ind_msg_overrun) (simp_all add: wf_mac_ind_def list_all_iff wf_sample_ue)

text \<open>One record with padding bytes 7; the same bytes with one more.\<close>

theorem mac_dec_ind_msg_checked_witness:
  "\<exists>bs m pad. length bs = 188 \<and> mac_dec_ind_msg bs = Inr m \<and> length (mm_ue_stats m) = 1 \<and>
     mac_enc_ind_msg pad m = Inr bs \<and> mac_dec_ind_msg (bs @ [0]) = Inl AssertFailed"
proof -
  let ?bs = "le 4 (1 :: u32) @ enc_mac_ue_stats (\<lambda>_. 7) sample_ue @ le 8 (5 :: u64)"
  have l: "length ?bs = 188" using ue.size_law [OF wf_sample_ue] by (simp add: MAC_UE_SZ_def)
  have n: "1 = unat (of_le (take 4 ?bs) :: u32)" "1 = unat (of_le (take 4 (?bs @ [0])) :: u32)" by simp_all
  obtain m pad where "mac_dec_ind_msg ?bs = Inr m" "length (mm_ue_stats m) = 1" "mac_enc_ind_msg pad m = Inr ?bs"
    using mac_dec_ind_msg_checked [OF n(1)] l by (auto simp: MAC_UE_SZ_def)
  moreover have "mac_dec_ind_msg (?bs @ [0]) = Inl AssertFailed"
    using mac_dec_ind_msg_checked [OF n(2)] l by (simp add: MAC_UE_SZ_def)
  ultimately show ?thesis using l by blast
qed

theorem mac_control_round_trip_witness:
  "bind_res (ric_on_control_req_mac_sm_ric (\<lambda>_ _. 0)
        \<lparr>mr_hdr = 0, mr_msg = \<lparr>mg_ran_conf = [\<lparr>mf_rnti = 7, mf_pusch_mcs = 28, mf_isset_pusch_mcs = 1\<rparr>]\<rparr>\<rparr>)
     (\<lambda>d. bind_res (on_control_mac_sm_ag (sample_mac_io True) d) ric_on_control_out_mac_sm_ric) = Inl AssertFailed"
  by (subst mac_control_round_trip [where ans = MAC_CTRL_OUT_KO])
    (simp_all add: sample_mac_io_def MAC_CTRL_OUT_OK_def MAC_CTRL_OUT_KO_def)

theorem eq_mac_ind_msg_ignores_pucch_witness:
  "eq_mac_ind_msg sample_fpu \<lparr>mm_ue_stats = [sample_ue], mm_tstamp = 0\<rparr>
     \<lparr>mm_ue_stats = [sample_ue\<lparr>ms_pucch_snr := 0x40000000\<rparr>], mm_tstamp = 0\<rparr> = Inr True"
  using eq_mac_ind_msg_ignores_pucch [of "\<lparr>mm_ue_stats = [sample_ue], mm_tstamp = 0\<rparr>" sample_fpu "\<lambda>_. 0x40000000"]
  by (simp add: wf_mac_ind_def wf_sample_ue no_nan_def isnan32_def cp_mac_ind_msg_id)
    (simp add: sample_ue_def dec_mac_ue_stats_def fld_def)

theorem eq_mac_func_def_compares_pointers_witness:
  "eq_mac_func_def (Some (4096, [1, 2])) (Some (8192, [3, 4])) = Inr True"
  using eq_mac_func_def_compares_pointers [of "[1, 2]" "[3, 4]" 4096 8192] by simp

end
