(* ===== verification/Rlc_Sm.thy ===== *)
theory Rlc_Sm
  imports Sm_Common
begin

text \<open>
  The RLC service model (\<open>sm/rlc_sm/\<close>): information elements, plain codec and the two plug-ins. The
  conventions are those of \<open>Mac_Sm\<close>. The decoder of the indication message tests the length with
  \<open>next_pow2\<close>; a control is never answered.
\<close>

declare bind_res_eq_Inr [simp del]

section \<open>Information elements\<close>

type_synonym rlc_event_trigger = u32
type_synonym rlc_action_def = u32
type_synonym rlc_ind_hdr = u32
type_synonym rlc_call_proc_id = u32
type_synonym rlc_ctrl_hdr = u32
type_synonym rlc_ctrl_msg = u32
type_synonym rlc_ctrl_out = u32
type_synonym rlc_func_def = byte_array

record rlc_radio_bearer_stats =
  rb_txpdu_pkts :: u32
  rb_txpdu_bytes :: u32
  rb_txpdu_wt_ms :: u32
  rb_txpdu_dd_pkts :: u32
  rb_txpdu_dd_bytes :: u32
  rb_txpdu_retx_pkts :: u32
  rb_txpdu_retx_bytes :: u32
  rb_txpdu_segmented :: u32
  rb_txpdu_status_pkts :: u32
  rb_txpdu_status_bytes :: u32
  rb_txbuf_occ_bytes :: u32
  rb_txbuf_occ_pkts :: u32
  rb_rxpdu_pkts :: u32
  rb_rxpdu_bytes :: u32
  rb_rxpdu_dup_pkts :: u32
  rb_rxpdu_dup_bytes :: u32
  rb_rxpdu_dd_pkts :: u32
  rb_rxpdu_dd_bytes :: u32
  rb_rxpdu_ow_pkts :: u32
  rb_rxpdu_ow_bytes :: u32
  rb_rxpdu_status_pkts :: u32
  rb_rxpdu_status_bytes :: u32
  rb_rxbuf_occ_bytes :: u32
  rb_rxbuf_occ_pkts :: u32
  rb_txsdu_pkts :: u32
  rb_txsdu_bytes :: u64
  rb_txsdu_avg_time_to_tx :: u64
  rb_txsdu_wt_us :: u32
  rb_rxsdu_pkts :: u32
  rb_rxsdu_bytes :: u64
  rb_rxsdu_dd_pkts :: u32
  rb_rxsdu_dd_bytes :: u32
  rb_rnti :: u32
  rb_mode :: u8
  rb_rbid :: u8

record rlc_ind_msg =
  rlm_rb :: "rlc_radio_bearer_stats list"
  rlm_tstamp :: u64

record rlc_ind_data =
  rli_hdr :: rlc_ind_hdr
  rli_msg :: rlc_ind_msg
  rli_proc_id :: "rlc_call_proc_id option"

record rlc_ctrl_req_data =
  rlq_hdr :: rlc_ctrl_hdr
  rlq_msg :: rlc_ctrl_msg

subsection \<open>Not implemented in the code\<close>

definition free_rlc_event_trigger :: "rlc_event_trigger \<Rightarrow> unit res" where
  "free_rlc_event_trigger src = Inl AssertFailed"

definition cp_rlc_event_trigger :: "rlc_event_trigger \<Rightarrow> rlc_event_trigger res" where
  "cp_rlc_event_trigger src = Inl AssertFailed"

definition eq_rlc_event_trigger :: "rlc_event_trigger \<Rightarrow> rlc_event_trigger \<Rightarrow> bool res" where
  "eq_rlc_event_trigger m0 m1 = Inl AssertFailed"

definition free_rlc_action_def :: "rlc_action_def \<Rightarrow> unit res" where
  "free_rlc_action_def src = Inl AssertFailed"

definition cp_rlc_action_def :: "rlc_action_def \<Rightarrow> rlc_action_def res" where
  "cp_rlc_action_def src = Inl AssertFailed"

definition eq_rlc_action_def :: "rlc_event_trigger \<Rightarrow> rlc_event_trigger \<Rightarrow> bool res" where
  "eq_rlc_action_def m0 m1 = Inl AssertFailed"

definition free_rlc_ctrl_hdr :: "rlc_ctrl_hdr \<Rightarrow> unit res" where
  "free_rlc_ctrl_hdr src = Inl AssertFailed"

definition cp_rlc_ctrl_hdr :: "rlc_ctrl_hdr \<Rightarrow> rlc_ctrl_hdr res" where
  "cp_rlc_ctrl_hdr src = Inl AssertFailed"

definition eq_rlc_ctrl_hdr :: "rlc_ctrl_hdr \<Rightarrow> rlc_ctrl_hdr \<Rightarrow> bool res" where
  "eq_rlc_ctrl_hdr m0 m1 = Inl AssertFailed"

definition free_rlc_ctrl_msg :: "rlc_ctrl_msg \<Rightarrow> unit res" where
  "free_rlc_ctrl_msg src = Inl AssertFailed"

definition cp_rlc_ctrl_msg :: "rlc_ctrl_msg \<Rightarrow> rlc_ctrl_msg res" where
  "cp_rlc_ctrl_msg src = Inl AssertFailed"

definition eq_rlc_ctrl_msg :: "rlc_ctrl_msg \<Rightarrow> rlc_ctrl_msg \<Rightarrow> bool res" where
  "eq_rlc_ctrl_msg m0 m1 = Inl AssertFailed"

definition free_rlc_ctrl_out :: "rlc_ctrl_out \<Rightarrow> unit res" where
  "free_rlc_ctrl_out src = Inl AssertFailed"

definition cp_rlc_ctrl_out :: "rlc_ctrl_out \<Rightarrow> rlc_ctrl_out res" where
  "cp_rlc_ctrl_out src = Inl AssertFailed"

definition eq_rlc_ctrl_out :: "rlc_ctrl_out \<Rightarrow> rlc_ctrl_out \<Rightarrow> bool res" where
  "eq_rlc_ctrl_out m0 m1 = Inl AssertFailed"

subsection \<open>Copying, comparing and freeing\<close>

definition free_rlc_ind_hdr :: "rlc_ind_hdr \<Rightarrow> unit res" where
  "free_rlc_ind_hdr src = Inr ()"

definition cp_rlc_ind_hdr :: "rlc_ind_hdr \<Rightarrow> rlc_ind_hdr" where
  "cp_rlc_ind_hdr src = src"

definition eq_rlc_ind_hdr :: "rlc_ind_hdr \<Rightarrow> rlc_ind_hdr \<Rightarrow> bool" where
  "eq_rlc_ind_hdr m0 m1 = (if m0 \<noteq> m1 then False else True)"

definition free_rlc_ind_msg :: "rlc_ind_msg \<Rightarrow> unit res" where
  "free_rlc_ind_msg src = Inr ()"

definition cp_rlc_ind_msg :: "rlc_ind_msg \<Rightarrow> rlc_ind_msg" where
  "cp_rlc_ind_msg src =
     \<lparr>rlm_rb = map (\<lambda>i. rlm_rb src ! i) [0..<length (rlm_rb src)], rlm_tstamp = rlm_tstamp src\<rparr>"

fun eq_rlc_rbs :: "rlc_radio_bearer_stats list \<Rightarrow> rlc_radio_bearer_stats list \<Rightarrow> bool" where
  "eq_rlc_rbs (rb0 # rbs0) (rb1 # rbs1) =
     (if rb_txpdu_pkts rb0 \<noteq> rb_txpdu_pkts rb1 \<or> rb_txpdu_bytes rb0 \<noteq> rb_txpdu_bytes rb1 \<or>
      rb_txpdu_wt_ms rb0 \<noteq> rb_txpdu_wt_ms rb1 \<or> rb_txpdu_dd_pkts rb0 \<noteq> rb_txpdu_dd_pkts rb1 \<or>
      rb_txpdu_dd_bytes rb0 \<noteq> rb_txpdu_dd_bytes rb1 \<or>
      rb_txpdu_retx_pkts rb0 \<noteq> rb_txpdu_retx_pkts rb1 \<or>
      rb_txpdu_retx_bytes rb0 \<noteq> rb_txpdu_retx_bytes rb1 \<or>
      rb_txpdu_segmented rb0 \<noteq> rb_txpdu_segmented rb1 \<or>
      rb_txpdu_status_pkts rb0 \<noteq> rb_txpdu_status_pkts rb1 \<or>
      rb_txpdu_status_bytes rb0 \<noteq> rb_txpdu_status_bytes rb1 \<or>
      rb_txbuf_occ_bytes rb0 \<noteq> rb_txbuf_occ_bytes rb1 \<or>
      rb_txbuf_occ_pkts rb0 \<noteq> rb_txbuf_occ_pkts rb1 \<or> rb_rxpdu_pkts rb0 \<noteq> rb_rxpdu_pkts rb1 \<or>
      rb_rxpdu_bytes rb0 \<noteq> rb_rxpdu_bytes rb1 \<or> rb_rxpdu_dup_pkts rb0 \<noteq> rb_rxpdu_dup_pkts rb1 \<or>
      rb_rxpdu_dup_bytes rb0 \<noteq> rb_rxpdu_dup_bytes rb1 \<or>
      rb_rxpdu_dd_pkts rb0 \<noteq> rb_rxpdu_dd_pkts rb1 \<or>
      rb_rxpdu_dd_bytes rb0 \<noteq> rb_rxpdu_dd_bytes rb1 \<or>
      rb_rxpdu_ow_pkts rb0 \<noteq> rb_rxpdu_ow_pkts rb1 \<or>
      rb_rxpdu_ow_bytes rb0 \<noteq> rb_rxpdu_ow_bytes rb1 \<or>
      rb_rxpdu_status_pkts rb0 \<noteq> rb_rxpdu_status_pkts rb1 \<or>
      rb_rxpdu_status_bytes rb0 \<noteq> rb_rxpdu_status_bytes rb1 \<or>
      rb_rxbuf_occ_bytes rb0 \<noteq> rb_rxbuf_occ_bytes rb1 \<or>
      rb_rxbuf_occ_pkts rb0 \<noteq> rb_rxbuf_occ_pkts rb1 \<or> rb_txsdu_pkts rb0 \<noteq> rb_txsdu_pkts rb1 \<or>
      rb_txsdu_bytes rb0 \<noteq> rb_txsdu_bytes rb1 \<or> rb_rxsdu_pkts rb0 \<noteq> rb_rxsdu_pkts rb1 \<or>
      rb_rxsdu_bytes rb0 \<noteq> rb_rxsdu_bytes rb1 \<or> rb_rxsdu_dd_pkts rb0 \<noteq> rb_rxsdu_dd_pkts rb1 \<or>
      rb_rxsdu_dd_bytes rb0 \<noteq> rb_rxsdu_dd_bytes rb1 \<or> rb_rnti rb0 \<noteq> rb_rnti rb1 \<or>
      rb_mode rb0 \<noteq> rb_mode rb1 \<or> rb_rbid rb0 \<noteq> rb_rbid rb1
      then False
      else eq_rlc_rbs rbs0 rbs1)"
| "eq_rlc_rbs _ _ = True"

definition eq_rlc_ind_msg :: "rlc_ind_msg \<Rightarrow> rlc_ind_msg \<Rightarrow> bool" where
  "eq_rlc_ind_msg m0 m1 =
     (if rlm_tstamp m0 \<noteq> rlm_tstamp m1 \<or> length (rlm_rb m0) \<noteq> length (rlm_rb m1) then False
      else eq_rlc_rbs (rlm_rb m0) (rlm_rb m1))"

definition free_rlc_call_proc_id :: "rlc_call_proc_id option \<Rightarrow> unit res" where
  "free_rlc_call_proc_id src = Inr ()"

definition cp_rlc_call_proc_id :: "rlc_call_proc_id \<Rightarrow> rlc_call_proc_id" where
  "cp_rlc_call_proc_id src = src"

definition eq_rlc_call_proc_id :: "rlc_call_proc_id option \<Rightarrow> rlc_call_proc_id option \<Rightarrow> bool" where
  "eq_rlc_call_proc_id m0 m1 =
     (if m0 = None \<and> m1 = None then True
      else if m0 = None then False
      else if m1 = None then False
      else if the m0 \<noteq> the m1 then False
      else True)"

definition cp_rlc_func_def :: "rlc_func_def \<Rightarrow> rlc_func_def" where
  "cp_rlc_func_def src = copy_byte_array src"

definition eq_rlc_func_def :: "(u64 \<times> rlc_func_def) option \<Rightarrow> (u64 \<times> rlc_func_def) option \<Rightarrow> bool res" where
  "eq_rlc_func_def m0 m1 = (if m0 = m1 then Inr True else eq_func_def_struct func_def_image_buf m0 m1)"

definition free_rlc_ind_data :: "rlc_ind_data \<Rightarrow> unit res" where
  "free_rlc_ind_data ind =
     bind_res (free_rlc_ind_hdr (rli_hdr ind)) (\<lambda>_.
     bind_res (free_rlc_ind_msg (rli_msg ind)) (\<lambda>_.
       free_rlc_call_proc_id (rli_proc_id ind)))"

definition cp_rlc_ind_data :: "rlc_ind_data \<Rightarrow> rlc_ind_data" where
  "cp_rlc_ind_data src =
     \<lparr>rli_hdr = cp_rlc_ind_hdr (rli_hdr src), rli_msg = cp_rlc_ind_msg (rli_msg src),
      rli_proc_id = map_option cp_rlc_call_proc_id (rli_proc_id src)\<rparr>"

section \<open>The plain codec\<close>

text \<open>\<open>rlc_radio_bearer_stats_t\<close>: 152 bytes.\<close>

definition enc_rlc_radio_bearer_stats :: "(nat \<Rightarrow> u8) \<Rightarrow> rlc_radio_bearer_stats \<Rightarrow> byte_array" where
  "enc_rlc_radio_bearer_stats p x =
     le 4 (rb_txpdu_pkts x) @ le 4 (rb_txpdu_bytes x) @ le 4 (rb_txpdu_wt_ms x) @ le 4 (rb_txpdu_dd_pkts x) @
     le 4 (rb_txpdu_dd_bytes x) @ le 4 (rb_txpdu_retx_pkts x) @ le 4 (rb_txpdu_retx_bytes x) @
     le 4 (rb_txpdu_segmented x) @ le 4 (rb_txpdu_status_pkts x) @ le 4 (rb_txpdu_status_bytes x) @
     le 4 (rb_txbuf_occ_bytes x) @ le 4 (rb_txbuf_occ_pkts x) @ le 4 (rb_rxpdu_pkts x) @ le 4 (rb_rxpdu_bytes x) @
     le 4 (rb_rxpdu_dup_pkts x) @ le 4 (rb_rxpdu_dup_bytes x) @ le 4 (rb_rxpdu_dd_pkts x) @
     le 4 (rb_rxpdu_dd_bytes x) @ le 4 (rb_rxpdu_ow_pkts x) @ le 4 (rb_rxpdu_ow_bytes x) @
     le 4 (rb_rxpdu_status_pkts x) @ le 4 (rb_rxpdu_status_bytes x) @ le 4 (rb_rxbuf_occ_bytes x) @
     le 4 (rb_rxbuf_occ_pkts x) @ le 4 (rb_txsdu_pkts x) @ [p 0] @ [p 1] @ [p 2] @ [p 3] @ le 8 (rb_txsdu_bytes x) @
     le 8 (rb_txsdu_avg_time_to_tx x) @ le 4 (rb_txsdu_wt_us x) @ le 4 (rb_rxsdu_pkts x) @ le 8 (rb_rxsdu_bytes x) @
     le 4 (rb_rxsdu_dd_pkts x) @ le 4 (rb_rxsdu_dd_bytes x) @ le 4 (rb_rnti x) @ le 1 (rb_mode x) @
     le 1 (rb_rbid x) @ [p 4, p 5]"

definition dec_rlc_radio_bearer_stats :: "byte_array \<Rightarrow> rlc_radio_bearer_stats" where
  "dec_rlc_radio_bearer_stats bs =
     \<lparr>rb_txpdu_pkts = fld 0 4 bs, rb_txpdu_bytes = fld 4 4 bs, rb_txpdu_wt_ms = fld 8 4 bs,
      rb_txpdu_dd_pkts = fld 12 4 bs, rb_txpdu_dd_bytes = fld 16 4 bs, rb_txpdu_retx_pkts = fld 20 4 bs,
      rb_txpdu_retx_bytes = fld 24 4 bs, rb_txpdu_segmented = fld 28 4 bs, rb_txpdu_status_pkts = fld 32 4 bs,
      rb_txpdu_status_bytes = fld 36 4 bs, rb_txbuf_occ_bytes = fld 40 4 bs, rb_txbuf_occ_pkts = fld 44 4 bs,
      rb_rxpdu_pkts = fld 48 4 bs, rb_rxpdu_bytes = fld 52 4 bs, rb_rxpdu_dup_pkts = fld 56 4 bs,
      rb_rxpdu_dup_bytes = fld 60 4 bs, rb_rxpdu_dd_pkts = fld 64 4 bs, rb_rxpdu_dd_bytes = fld 68 4 bs,
      rb_rxpdu_ow_pkts = fld 72 4 bs, rb_rxpdu_ow_bytes = fld 76 4 bs, rb_rxpdu_status_pkts = fld 80 4 bs,
      rb_rxpdu_status_bytes = fld 84 4 bs, rb_rxbuf_occ_bytes = fld 88 4 bs, rb_rxbuf_occ_pkts = fld 92 4 bs,
      rb_txsdu_pkts = fld 96 4 bs, rb_txsdu_bytes = fld 104 8 bs, rb_txsdu_avg_time_to_tx = fld 112 8 bs,
      rb_txsdu_wt_us = fld 120 4 bs, rb_rxsdu_pkts = fld 124 4 bs, rb_rxsdu_bytes = fld 128 8 bs,
      rb_rxsdu_dd_pkts = fld 136 4 bs, rb_rxsdu_dd_bytes = fld 140 4 bs, rb_rnti = fld 144 4 bs,
      rb_mode = fld 148 1 bs, rb_rbid = fld 149 1 bs\<rparr>"

definition RLC_RB_SZ :: nat where
  "RLC_RB_SZ = 152"

lemma enc_dec_rb:
  assumes "length bs = RLC_RB_SZ"
  shows "enc_rlc_radio_bearer_stats (\<lambda>i. bs ! (if i < 4 then 100 + i else 146 + i)) (dec_rlc_radio_bearer_stats bs) = bs"
proof -
  have l: "length bs = 152" using assms by (simp add: RLC_RB_SZ_def)
  have "[bs ! 150, bs ! 151] = drop 150 bs"
    using l by (intro nth_equalityI) (auto simp: less_Suc_eq numeral_eq_Suc nth_Cons split: nat.split)
  moreover have "[bs ! 100] @ [bs ! 101] @ [bs ! 102] @ [bs ! 103] @ drop 104 bs = drop 100 bs"
    using l by (simp add: byte_drop del: append_Cons)
  ultimately show ?thesis
    unfolding enc_rlc_radio_bearer_stats_def dec_rlc_radio_bearer_stats_def rlc_radio_bearer_stats.simps
    by (simp add: le_fld l del: le.simps One_nat_def append_Cons append_Nil)
qed
interpretation rb: full_layout "\<lambda>_ :: rlc_radio_bearer_stats. True" enc_rlc_radio_bearer_stats dec_rlc_radio_bearer_stats
    RLC_RB_SZ "\<lambda>bs i. bs ! (if i < 4 then 100 + i else 146 + i)"
proof
  show "length bs = RLC_RB_SZ \<Longrightarrow>
      enc_rlc_radio_bearer_stats (\<lambda>i. bs ! (if i < 4 then 100 + i else 146 + i)) (dec_rlc_radio_bearer_stats bs) = bs" for bs
    by (rule enc_dec_rb)
qed (simp_all add: enc_rlc_radio_bearer_stats_def dec_rlc_radio_bearer_stats_def RLC_RB_SZ_def fld_simps del: le.simps)

subsection \<open>Encoding\<close>

definition rlc_enc_event_trigger :: "rlc_event_trigger \<Rightarrow> byte_array" where
  "rlc_enc_event_trigger event_trigger = enc_u32 event_trigger"

definition rlc_enc_action_def :: "rlc_action_def \<Rightarrow> byte_array res" where
  "rlc_enc_action_def action_def = Inl AssertFailed"

definition rlc_enc_ind_hdr :: "rlc_ind_hdr \<Rightarrow> byte_array" where
  "rlc_enc_ind_hdr ind_hdr = enc_u32 ind_hdr"

definition rlc_enc_ind_msg :: "(nat \<Rightarrow> nat \<Rightarrow> u8) \<Rightarrow> rlc_ind_msg \<Rightarrow> byte_array res" where
  "rlc_enc_ind_msg pad m =
     enc_counted enc_rlc_radio_bearer_stats RLC_RB_SZ pad (4 + RLC_RB_SZ * length (rlm_rb m) + 8) (rlm_rb m) (rlm_tstamp m)"

definition rlc_enc_call_proc_id :: "rlc_call_proc_id \<Rightarrow> byte_array res" where
  "rlc_enc_call_proc_id call_proc_id = Inl AssertFailed"

definition rlc_enc_ctrl_hdr :: "rlc_ctrl_hdr \<Rightarrow> byte_array" where
  "rlc_enc_ctrl_hdr ctrl_hdr = enc_u32 ctrl_hdr"

definition rlc_enc_ctrl_msg :: "rlc_ctrl_msg \<Rightarrow> byte_array" where
  "rlc_enc_ctrl_msg ctrl_msg = enc_u32 ctrl_msg"

definition rlc_enc_ctrl_out :: "rlc_ctrl_out \<Rightarrow> byte_array res" where
  "rlc_enc_ctrl_out ctrl_out = Inl AssertFailed"

definition rlc_enc_func_def :: "rlc_func_def \<Rightarrow> byte_array res" where
  "rlc_enc_func_def func_def = Inl AssertFailed"

subsection \<open>Decoding\<close>

definition rlc_dec_event_trigger :: "byte_array \<Rightarrow> rlc_event_trigger res" where
  "rlc_dec_event_trigger event_trigger = dec_u32_prefix event_trigger"

definition rlc_dec_action_def :: "byte_array \<Rightarrow> rlc_action_def res" where
  "rlc_dec_action_def action_def = Inl AssertFailed"

definition rlc_dec_ind_hdr :: "byte_array \<Rightarrow> rlc_ind_hdr res" where
  "rlc_dec_ind_hdr ind_hdr = dec_u32_exact ind_hdr"

text \<open>16 is the size of the message structure less the pointer.\<close>

definition rlc_dec_ind_msg :: "byte_array \<Rightarrow> rlc_ind_msg res" where
  "rlc_dec_ind_msg ind_msg =
     c_assert (16 \<le> next_pow2 (word_of_nat (length ind_msg)))
      (map_res (\<lambda>(rbs, t). \<lparr>rlm_rb = rbs, rlm_tstamp = t\<rparr>) (dec_counted dec_rlc_radio_bearer_stats RLC_RB_SZ ind_msg))"

definition rlc_dec_call_proc_id :: "byte_array \<Rightarrow> rlc_call_proc_id res" where
  "rlc_dec_call_proc_id call_proc_id = Inl AssertFailed"

definition rlc_dec_ctrl_hdr :: "byte_array \<Rightarrow> rlc_ctrl_hdr res" where
  "rlc_dec_ctrl_hdr ctrl_hdr = dec_u32_exact ctrl_hdr"

definition rlc_dec_ctrl_msg :: "byte_array \<Rightarrow> rlc_ctrl_msg res" where
  "rlc_dec_ctrl_msg ctrl_msg = dec_u32_exact ctrl_msg"

definition rlc_dec_ctrl_out :: "byte_array \<Rightarrow> rlc_ctrl_out res" where
  "rlc_dec_ctrl_out ctrl_out = Inl AssertFailed"

definition rlc_dec_func_def :: "byte_array \<Rightarrow> rlc_func_def res" where
  "rlc_dec_func_def func_def = Inl AssertFailed"

section \<open>The plug-in of the agent\<close>

definition SM_RLC_ID :: u16 where
  "SM_RLC_ID = 143"

definition SM_RLC_STR :: string where
  "SM_RLC_STR = ''RLC_STATS_V0''"

definition SM_RLC_REV :: u16 where
  "SM_RLC_REV = 1"

definition SM_RLC_OID :: string where
  "SM_RLC_OID = ''0.0.0.0.0.0.0.0.1.143.0''"

definition rlc_zero :: rlc_ind_data where
  "rlc_zero = \<lparr>rli_hdr = 0, rli_msg = \<lparr>rlm_rb = [], rlm_tstamp = 0\<rparr>, rli_proc_id = None\<rparr>"

definition on_subscription_rlc_sm_ag :: "sm_subs_data \<Rightarrow> sm_ag_if_ans_subs res" where
  "on_subscription_rlc_sm_ag data =
     bind_res (rlc_dec_event_trigger (sb_event_trigger data)) (\<lambda>ev. Inr (PERIODIC_SUBSCRIPTION_FLRC ev))"

definition on_indication_rlc_sm_ag ::
  "(nat \<Rightarrow> nat \<Rightarrow> u8) \<Rightarrow> (rlc_ind_data, rlc_ctrl_req_data) sm_io_ag \<Rightarrow> byte_array option \<Rightarrow> exp_ind_data res" where
  "on_indication_rlc_sm_ag pad io act_def =
     c_assert (act_def = None)
      (let ba_hdr = rlc_enc_ind_hdr 0; (avail, rlc) = io_read_ind io rlc_zero in
       bind_res
        (if avail = False then Inr None
         else map_res (\<lambda>ba. Some \<lparr>sid_hdr = ba_hdr, sid_msg = ba, sid_call_process_id = None\<rparr>)
               (rlc_enc_ind_msg pad (rli_msg rlc))) (\<lambda>ret.
       bind_res (free_rlc_call_proc_id (rli_proc_id rlc)) (\<lambda>_.
       bind_res (free_rlc_ind_msg (rli_msg rlc)) (\<lambda>_.
       bind_res (free_rlc_ind_hdr (rli_hdr rlc)) (\<lambda>_. Inr ret)))))"

text \<open>The answer of the RAN is dropped and an empty outcome returned.\<close>

definition on_control_rlc_sm_ag ::
  "(rlc_ind_data, rlc_ctrl_req_data) sm_io_ag \<Rightarrow> sm_ctrl_req_data \<Rightarrow> sm_ctrl_out_data res" where
  "on_control_rlc_sm_ag io data =
     bind_res (rlc_dec_ctrl_hdr (sc_ctrl_hdr data)) (\<lambda>hdr.
     c_assert (hdr = 0) (
     bind_res (rlc_dec_ctrl_msg (sc_ctrl_msg data)) (\<lambda>msg.
     c_assert (msg = 42) (
     let ans = io_write_ctrl io \<lparr>rlq_hdr = 0, rlq_msg = msg\<rparr> in
       Inr \<lparr>so_ctrl_out = []\<rparr>))))"

definition on_e2_setup_rlc_sm_ag :: "sm_e2_setup_data res" where
  "on_e2_setup_rlc_sm_ag = e2_setup_name SM_RLC_STR"

definition on_ric_service_update_rlc_sm_ag :: "byte_array res" where
  "on_ric_service_update_rlc_sm_ag = Inl AssertFailed"

definition make_rlc_sm_agent ::
  "(nat \<Rightarrow> nat \<Rightarrow> u8) \<Rightarrow> (rlc_ind_data, rlc_ctrl_req_data) sm_io_ag \<Rightarrow> sm_agent_procs" where
  "make_rlc_sm_agent pad io =
     \<lparr>ap_on_subscription = on_subscription_rlc_sm_ag, ap_on_indication = on_indication_rlc_sm_ag pad io,
      ap_on_control = on_control_rlc_sm_ag io, ap_on_e2_setup = on_e2_setup_rlc_sm_ag,
      ap_info_def = SM_RLC_STR, ap_info_id = SM_RLC_ID, ap_info_rev = SM_RLC_REV, ap_info_oid = SM_RLC_OID\<rparr>"

section \<open>The plug-in of the RIC\<close>

definition on_subscription_rlc_sm_ric :: "string \<Rightarrow> sm_subs_data res" where
  "on_subscription_rlc_sm_ric cmd =
     bind_res (period_of_cmd cmd) (\<lambda>ms.
       Inr \<lparr>sb_event_trigger = rlc_enc_event_trigger ms, sb_action_def = None\<rparr>)"

definition on_indication_rlc_sm_ric :: "sm_ind_data \<Rightarrow> rlc_ind_data sm_ag_if_rd_ind res" where
  "on_indication_rlc_sm_ric data =
     bind_res (rlc_dec_ind_msg (sid_msg data)) (\<lambda>msg.
     bind_res (rlc_dec_ind_hdr (sid_hdr data)) (\<lambda>hdr.
     c_assert (sid_call_process_id data = None)
      (Inr \<lparr>ri_type = RLC_STATS_V0, ri_data = \<lparr>rli_hdr = hdr, rli_msg = msg, rli_proc_id = None\<rparr>\<rparr>)))"

definition ric_on_control_req_rlc_sm_ric :: "rlc_ctrl_req_data \<Rightarrow> sm_ctrl_req_data res" where
  "ric_on_control_req_rlc_sm_ric req =
     c_assert (rlq_hdr req = 0) (
     c_assert (rlq_msg req = 42)
      (Inr \<lparr>sc_ctrl_hdr = rlc_enc_ctrl_hdr (rlq_hdr req), sc_ctrl_msg = rlc_enc_ctrl_msg (rlq_msg req)\<rparr>))"

text \<open>The type is that of the MAC model; the value 0 is \<open>OK\<close>.\<close>

definition ric_on_control_out_rlc_sm_ric :: "sm_ctrl_out_data \<Rightarrow> sm_ag_if_ans_ctrl res" where
  "ric_on_control_out_rlc_sm_ric out =
     bind_res (rlc_dec_ctrl_out (so_ctrl_out out)) (\<lambda>ans.
       c_assert (ans = 0) (Inr \<lparr>ac_type = MAC_AGENT_IF_CTRL_ANS_V0, ac_ans = ans\<rparr>))"

definition ric_on_e2_setup_rlc_sm_ric :: "sm_e2_setup_data \<Rightarrow> byte_array sm_ag_if_rd_e2setup res" where
  "ric_on_e2_setup_rlc_sm_ric setup =
     Inr \<lparr>es_type = RLC_AGENT_IF_E2_SETUP_ANS_V0, es_func_def = copy_byte_array (se_ran_fun_def setup)\<rparr>"

definition on_ric_service_update_rlc_sm_ric :: "byte_array \<Rightarrow> rlc_func_def res" where
  "on_ric_service_update_rlc_sm_ric rsu = Inl AssertFailed"

definition free_ind_data_rlc_sm_ric :: "rlc_ind_data sm_ag_if_rd_ind \<Rightarrow> unit res" where
  "free_ind_data_rlc_sm_ric rd_ind =
     c_assert (ri_type rd_ind = RLC_STATS_V0)
      (bind_res (free_rlc_ind_hdr (rli_hdr (ri_data rd_ind))) (\<lambda>_.
         free_rlc_ind_msg (rli_msg (ri_data rd_ind))))"

definition free_subs_data_rlc_sm_ric :: "sm_subs_data \<Rightarrow> unit res" where
  "free_subs_data_rlc_sm_ric src = Inl AssertFailed"

definition free_ctrl_req_data_rlc_sm_ric :: "sm_ctrl_req_data \<Rightarrow> unit res" where
  "free_ctrl_req_data_rlc_sm_ric src = Inl AssertFailed"

definition free_ctrl_out_data_rlc_sm_ric :: "sm_ctrl_out_data \<Rightarrow> unit res" where
  "free_ctrl_out_data_rlc_sm_ric src = Inl AssertFailed"

definition free_e2_setup_rlc_sm_ric :: "sm_e2_setup_data \<Rightarrow> unit res" where
  "free_e2_setup_rlc_sm_ric src = Inl AssertFailed"

definition free_ric_service_update_rlc_sm_ric :: "byte_array \<Rightarrow> unit res" where
  "free_ric_service_update_rlc_sm_ric src = Inl AssertFailed"

definition rlc_sm_ric :: "(rlc_ind_data, rlc_ctrl_req_data) sm_ric_procs" where
  "rlc_sm_ric =
     \<lparr>rp_ran_func_id = SM_RLC_ID, rp_ran_func_name = SM_RLC_STR, rp_on_subscription = on_subscription_rlc_sm_ric,
      rp_on_indication = on_indication_rlc_sm_ric, rp_on_control_req = ric_on_control_req_rlc_sm_ric,
      rp_on_control_out = ric_on_control_out_rlc_sm_ric, rp_on_e2_setup = ric_on_e2_setup_rlc_sm_ric,
      rp_free_ind_data = free_ind_data_rlc_sm_ric\<rparr>"

definition make_rlc_sm_ric :: "(rlc_ind_data, rlc_ctrl_req_data) sm_ric_procs res" where
  "make_rlc_sm_ric = c_assert (length SM_RLC_STR < RAN_FUNC_NAME_SZ) (Inr rlc_sm_ric)"

section \<open>Correctness\<close>

lemmas rlc_one_number = rlc_enc_event_trigger_def rlc_dec_event_trigger_def rlc_enc_ind_hdr_def rlc_dec_ind_hdr_def rlc_enc_ctrl_hdr_def rlc_dec_ctrl_hdr_def rlc_enc_ctrl_msg_def rlc_dec_ctrl_msg_def

lemmas rlc_frees = free_rlc_ind_hdr_def free_rlc_call_proc_id_def free_rlc_ind_msg_def

text \<open>The count is a \<open>uint32_t\<close>.\<close>

definition wf_rlc_ind :: "rlc_ind_msg \<Rightarrow> bool" where
  "wf_rlc_ind m \<longleftrightarrow> length (rlm_rb m) < 2 ^ 32"

definition rlc_image :: "(nat \<Rightarrow> nat \<Rightarrow> u8) \<Rightarrow> rlc_ind_msg \<Rightarrow> byte_array" where
  "rlc_image pad m = le 4 (word_of_nat (length (rlm_rb m)) :: u32) @ rb.images pad 0 (rlm_rb m) @ le 8 (rlm_tstamp m)"

lemma length_rlc_image [simp]: "length (rlc_image pad m) = 12 + RLC_RB_SZ * length (rlm_rb m)"
  by (simp add: rlc_image_def rb.length_images)

lemma rlc_enc: "rlc_enc_ind_msg pad m = Inr (rlc_image pad m)"
  unfolding rlc_enc_ind_msg_def rlc_image_def by (intro rb.enc_counted_ok) simp_all

lemma rlc_dec_image:
  assumes "wf_rlc_ind m"
  shows "rlc_dec_ind_msg (rlc_image pad m) = Inr m"
proof -
  have "length (rlc_image pad m) < 2 ^ 63" using assms by (simp add: wf_rlc_ind_def RLC_RB_SZ_def)
  then have "16 \<le> next_pow2 (word_of_nat (length (rlc_image pad m)))" by (simp only: next_pow2_16) simp
  then have "rlc_dec_ind_msg (rlc_image pad m) =
      map_res (\<lambda>(rbs, t). \<lparr>rlm_rb = rbs, rlm_tstamp = t\<rparr>) (dec_counted dec_rlc_radio_bearer_stats RLC_RB_SZ (rlc_image pad m))"
    unfolding rlc_dec_ind_msg_def by (simp only: c_assert_simps)
  then show ?thesis using assms by (simp add: rlc_image_def rb.dec_counted_ok wf_rlc_ind_def)
qed

definition rlc_ok :: "rlc_ind_data \<Rightarrow> bool" where
  "rlc_ok i \<longleftrightarrow> wf_rlc_ind (rli_msg i)"

definition rlc_reported :: "rlc_ind_data \<Rightarrow> rlc_ind_data" where
  "rlc_reported i = \<lparr>rli_hdr = 0, rli_msg = rli_msg i, rli_proc_id = None\<rparr>"

lemma rlc_agent_report:
  assumes "io_read_ind io rlc_zero = (True, i)" "rlc_ok i"
  shows "on_indication_rlc_sm_ag pad io None =
    Inr (Some \<lparr>sid_hdr = enc_u32 0, sid_msg = rlc_image pad (rli_msg i), sid_call_process_id = None\<rparr>)"
  using assms by (simp add: on_indication_rlc_sm_ag_def rlc_ok_def rlc_enc rlc_frees rlc_one_number)

lemma rlc_ric_report:
  assumes "wf_rlc_ind m"
  shows "on_indication_rlc_sm_ric \<lparr>sid_hdr = enc_u32 h, sid_msg = rlc_image pad m, sid_call_process_id = None\<rparr> =
    Inr \<lparr>ri_type = RLC_STATS_V0, ri_data = \<lparr>rli_hdr = h, rli_msg = m, rli_proc_id = None\<rparr>\<rparr>"
  using assms by (simp add: on_indication_rlc_sm_ric_def rlc_dec_image rlc_one_number)

interpretation rlc: service_model make_rlc_sm_agent rlc_sm_ric rlc_zero rlc_ok rlc_reported
  RLC_STATS_V0 RLC_AGENT_IF_E2_SETUP_ANS_V0 "cp_str_to_ba SM_RLC_STR"
proof
  fix cmd ms pad and io :: "(rlc_ind_data, rlc_ctrl_req_data) sm_io_ag" and i
  note plugins = rlc_sm_ric_def make_rlc_sm_agent_def
  show "map_of periods cmd = Some ms \<Longrightarrow> \<exists>d. rp_on_subscription rlc_sm_ric cmd = Inr d \<and>
      ap_on_subscription (make_rlc_sm_agent pad io) d = Inr (PERIODIC_SUBSCRIPTION_FLRC ms)"
    by (simp add: plugins on_subscription_rlc_sm_ric_def on_subscription_rlc_sm_ag_def period_of_cmd_table rlc_one_number)
  show "map_of periods cmd = None \<Longrightarrow> rp_on_subscription rlc_sm_ric cmd = Inl AssertFailed"
    by (simp add: plugins on_subscription_rlc_sm_ric_def period_of_cmd_table)
  show "\<exists>d. ap_on_indication (make_rlc_sm_agent pad io) None = Inr (Some d) \<and>
      rp_on_indication rlc_sm_ric d = Inr \<lparr>ri_type = RLC_STATS_V0, ri_data = rlc_reported i\<rparr> \<and>
      rp_free_ind_data rlc_sm_ric \<lparr>ri_type = RLC_STATS_V0, ri_data = rlc_reported i\<rparr> = Inr () \<and> free_sm_ind_data d = Inr ()"
    if "io_read_ind io rlc_zero = (True, i)" "rlc_ok i"
    using rlc_agent_report [OF that, of pad] that(2)
    by (simp add: plugins rlc_ric_report rlc_ok_def rlc_reported_def rlc_frees free_ind_data_rlc_sm_ric_def free_sm_ind_data_def)
  show "io_read_ind io rlc_zero = (False, i) \<Longrightarrow> rlc_ok i \<Longrightarrow> ap_on_indication (make_rlc_sm_agent pad io) None = Inr None"
    by (simp add: plugins on_indication_rlc_sm_ag_def rlc_frees rlc_ok_def)
  show "bind_res (ap_on_e2_setup (make_rlc_sm_agent pad io)) (rp_on_e2_setup rlc_sm_ric) =
      Inr \<lparr>es_type = RLC_AGENT_IF_E2_SETUP_ANS_V0, es_func_def = cp_str_to_ba SM_RLC_STR\<rparr>"
    by (simp add: plugins on_e2_setup_rlc_sm_ag_def e2_setup_name_def SM_RLC_STR_def ric_on_e2_setup_rlc_sm_ric_def)
  show "ap_info_id (make_rlc_sm_agent pad io) = rp_ran_func_id rlc_sm_ric \<and>
      ap_info_def (make_rlc_sm_agent pad io) = rp_ran_func_name rlc_sm_ric \<and> length (rp_ran_func_name rlc_sm_ric) < RAN_FUNC_NAME_SZ"
    by (simp add: plugins SM_RLC_STR_def RAN_FUNC_NAME_SZ_def)
qed

text \<open>C17: The decoder of the RLC statistics on any bytes: it accepts exactly those whose length is the one that their
  count announces, and the encoder makes the same bytes again from what was read, whatever the padding
  holds. Fewer than nine bytes are refused by the \<open>next_pow2\<close> test, from nine on too few bytes are read
  past their end and too many fail the assertion.\<close>

theorem rlc_dec_ind_msg_checked:
  assumes "length bs < 2 ^ 63" "n = unat (of_le (take 4 bs) :: u32)"
  shows "(length bs = 12 + RLC_RB_SZ * n \<longrightarrow>
      (\<exists>m pad. rlc_dec_ind_msg bs = Inr m \<and> length (rlm_rb m) = n \<and> rlc_enc_ind_msg pad m = Inr bs \<and>
        (\<forall>pad'. rlc_dec_ind_msg (rlc_image pad' m) = Inr m))) \<and>
    (rlc_dec_ind_msg bs = Inl OutOfBounds \<longleftrightarrow> 9 \<le> length bs \<and> length bs < 12 + RLC_RB_SZ * n) \<and>
    (rlc_dec_ind_msg bs = Inl AssertFailed \<longleftrightarrow> length bs < 9 \<or> 12 + RLC_RB_SZ * n < length bs)"
proof -
  have d: "rlc_dec_ind_msg bs = c_assert (9 \<le> length bs)
      (map_res (\<lambda>(rbs, t). \<lparr>rlm_rb = rbs, rlm_tstamp = t\<rparr>) (dec_counted dec_rlc_radio_bearer_stats RLC_RB_SZ bs))"
    by (simp only: rlc_dec_ind_msg_def next_pow2_16 [OF assms(1)])
  have "\<exists>m pad. rlc_dec_ind_msg bs = Inr m \<and> length (rlm_rb m) = n \<and> rlc_enc_ind_msg pad m = Inr bs \<and>
      (\<forall>pad'. rlc_dec_ind_msg (rlc_image pad' m) = Inr m)" if len: "length bs = 12 + RLC_RB_SZ * n"
  proof -
    obtain xs t pad where x: "dec_counted dec_rlc_radio_bearer_stats RLC_RB_SZ bs = Inr (xs, t)" "length xs = n"
      "le 4 (word_of_nat n :: u32) @ rb.images pad 0 xs @ le 8 t = bs"
      using rb.dec_counted_accepts [OF assms(2) len] by blast
    let ?m = "\<lparr>rlm_rb = xs, rlm_tstamp = t\<rparr>"
    have "n < 2 ^ 32" using assms(2) unat_small [of "of_le (take 4 bs) :: u32"] by simp
    then have "wf_rlc_ind ?m" using x(2) by (simp add: wf_rlc_ind_def)
    moreover have "rlc_enc_ind_msg pad ?m = Inr bs" using x(2,3) by (simp add: rlc_enc rlc_image_def)
    ultimately show ?thesis using x(1,2) len by (intro exI [of _ ?m] exI [of _ pad]) (simp add: d rlc_dec_image)
  qed
  then show ?thesis by (auto simp: d dec_counted_any [OF assms(2)] c_assert_def)
qed

text \<open>A control of the RLC model never comes back: whatever action the xApp gives and whatever the RAN answers,
  one of the two sides aborts, the RIC at the latest when the empty outcome arrives.\<close>

theorem rlc_control_always_aborts:
  "bind_res (ric_on_control_req_rlc_sm_ric q) (\<lambda>d.
     bind_res (on_control_rlc_sm_ag io d) ric_on_control_out_rlc_sm_ric) = Inl AssertFailed \<and>
   on_control_rlc_sm_ag io \<lparr>sc_ctrl_hdr = rlc_enc_ctrl_hdr 0, sc_ctrl_msg = rlc_enc_ctrl_msg 42\<rparr> =
     Inr \<lparr>so_ctrl_out = []\<rparr>"
  by (simp add: ric_on_control_req_rlc_sm_ric_def on_control_rlc_sm_ag_def ric_on_control_out_rlc_sm_ric_def
      rlc_dec_ctrl_out_def rlc_one_number c_assert_def)

text \<open>\<open>eq_rlc_func_def\<close> compares the structures, not the definitions: two definitions of 8 to 16 bytes are equal when
  they have the same buffer, so the 12 or 13 bytes of a name differ from their copy, and longer ones are
  read past the structure.\<close>

lemma eq_rlc_func_def_compares_pointers:
  assumes "length b0 = length b1" "p0 \<noteq> p1"
  shows "8 \<le> length b0 \<Longrightarrow> length b0 \<le> 16 \<Longrightarrow> eq_rlc_func_def (Some (p0, b0)) (Some (p1, b1)) = Inr False"
    and "16 < length b0 \<Longrightarrow> eq_rlc_func_def (Some (p0, b0)) (Some (p1, b1)) = Inl OutOfBounds"
  using assms by (simp_all add: eq_rlc_func_def_def eq_func_def_struct_buf eq_func_def_struct_long)

section \<open>Witnesses\<close>

text \<open>Ten bytes with the count 0 are too few, twelve are a message without bearers.\<close>

theorem rlc_dec_ind_msg_checked_witness:
  "rlc_dec_ind_msg (replicate 10 0) = Inl OutOfBounds \<and>
   (\<exists>m pad. rlc_dec_ind_msg (replicate 12 0) = Inr m \<and> rlm_rb m = [] \<and> rlc_enc_ind_msg pad m = Inr (replicate 12 0))"
proof -
  have n: "0 = unat (of_le (take 4 (replicate 10 0)) :: u32)" "0 = unat (of_le (take 4 (replicate 12 0)) :: u32)"
    by (simp_all add: eval_nat_numeral)
  have l: "length (replicate 10 (0 :: u8)) < 2 ^ 63" "length (replicate 12 (0 :: u8)) < 2 ^ 63" by simp_all
  have "rlc_dec_ind_msg (replicate 10 0) = Inl OutOfBounds" using rlc_dec_ind_msg_checked [OF l(1) n(1)] by simp
  moreover have "\<exists>m pad. rlc_dec_ind_msg (replicate 12 0) = Inr m \<and> rlm_rb m = [] \<and>
      rlc_enc_ind_msg pad m = Inr (replicate 12 0)"
    using rlc_dec_ind_msg_checked [OF l(2) n(2)] by auto
  ultimately show ?thesis by blast
qed

end
