(* ===== verification/Pdcp_Sm.thy ===== *)
theory Pdcp_Sm
  imports Sm_Common
begin

text \<open>
  The PDCP service model (\<open>sm/pdcp_sm/\<close>): information elements, plain codec and the two plug-ins. The
  conventions are those of \<open>Mac_Sm\<close>. Freeing, copying and comparing an indication message first assert an
  invariant of its bearers, which the decoder does not check.
\<close>

declare bind_res_eq_Inr [simp del]

section \<open>Information elements\<close>

type_synonym pdcp_event_trigger = u32
type_synonym pdcp_action_def = u32
type_synonym pdcp_ind_hdr = u32
type_synonym pdcp_call_proc_id = u32
type_synonym pdcp_ctrl_hdr = u32
type_synonym pdcp_ctrl_msg = u32
type_synonym pdcp_ctrl_out = u32
type_synonym pdcp_func_def = byte_array

record pdcp_radio_bearer_stats =
  pb_txpdu_pkts :: u32
  pb_txpdu_bytes :: u32
  pb_txpdu_sn :: u32
  pb_rxpdu_pkts :: u32
  pb_rxpdu_bytes :: u32
  pb_rxpdu_sn :: u32
  pb_rxpdu_oo_pkts :: u32
  pb_rxpdu_oo_bytes :: u32
  pb_rxpdu_dd_pkts :: u32
  pb_rxpdu_dd_bytes :: u32
  pb_rxpdu_ro_count :: u32
  pb_txsdu_pkts :: u32
  pb_txsdu_bytes :: u32
  pb_rxsdu_pkts :: u32
  pb_rxsdu_bytes :: u32
  pb_rnti :: u32
  pb_mode :: u8
  pb_rbid :: u8

record pdcp_ind_msg =
  pm_rb :: "pdcp_radio_bearer_stats list"
  pm_tstamp :: u64

record pdcp_ind_data =
  pi_hdr :: pdcp_ind_hdr
  pi_msg :: pdcp_ind_msg
  pi_proc_id :: "pdcp_call_proc_id option"

record pdcp_ctrl_req_data =
  pq_hdr :: pdcp_ctrl_hdr
  pq_msg :: pdcp_ctrl_msg

subsection \<open>Not implemented in the code\<close>

definition free_pdcp_event_trigger :: "pdcp_event_trigger \<Rightarrow> unit res" where
  "free_pdcp_event_trigger src = Inl AssertFailed"

definition cp_pdcp_event_trigger :: "pdcp_event_trigger \<Rightarrow> pdcp_event_trigger res" where
  "cp_pdcp_event_trigger src = Inl AssertFailed"

definition eq_pdcp_event_trigger :: "pdcp_event_trigger \<Rightarrow> pdcp_event_trigger \<Rightarrow> bool res" where
  "eq_pdcp_event_trigger m0 m1 = Inl AssertFailed"

definition free_pdcp_action_def :: "pdcp_action_def \<Rightarrow> unit res" where
  "free_pdcp_action_def src = Inl AssertFailed"

definition cp_pdcp_action_def :: "pdcp_action_def \<Rightarrow> pdcp_action_def res" where
  "cp_pdcp_action_def src = Inl AssertFailed"

definition eq_pdcp_action_def :: "pdcp_event_trigger \<Rightarrow> pdcp_event_trigger \<Rightarrow> bool res" where
  "eq_pdcp_action_def m0 m1 = Inl AssertFailed"

definition cp_pdcp_ctrl_hdr :: "pdcp_ctrl_hdr \<Rightarrow> pdcp_ctrl_hdr res" where
  "cp_pdcp_ctrl_hdr src = Inl AssertFailed"

definition eq_pdcp_ctrl_hdr :: "pdcp_ctrl_hdr \<Rightarrow> pdcp_ctrl_hdr \<Rightarrow> bool res" where
  "eq_pdcp_ctrl_hdr m0 m1 = Inl AssertFailed"

definition cp_pdcp_ctrl_out :: "pdcp_ctrl_out \<Rightarrow> pdcp_ctrl_out res" where
  "cp_pdcp_ctrl_out src = Inl AssertFailed"

definition eq_pdcp_ctrl_out :: "pdcp_ctrl_out \<Rightarrow> pdcp_ctrl_out \<Rightarrow> bool res" where
  "eq_pdcp_ctrl_out m0 m1 = Inl AssertFailed"

subsection \<open>Copying, comparing and freeing\<close>

definition free_pdcp_ind_hdr :: "pdcp_ind_hdr \<Rightarrow> unit res" where
  "free_pdcp_ind_hdr src = Inr ()"

definition cp_pdcp_ind_hdr :: "pdcp_ind_hdr \<Rightarrow> pdcp_ind_hdr" where
  "cp_pdcp_ind_hdr src = src"

definition eq_pdcp_ind_hdr :: "pdcp_ind_hdr \<Rightarrow> pdcp_ind_hdr \<Rightarrow> bool" where
  "eq_pdcp_ind_hdr m0 m1 = (if m0 \<noteq> m1 then False else True)"

text \<open>The invariant that the three operations on a message assert.\<close>

definition check_pdcp_mode :: "u8 \<Rightarrow> bool res" where
  "check_pdcp_mode mode = c_assert (mode = 0 \<or> mode = 1 \<or> mode = 2) (Inr True)"

definition check_pdcp_rbid :: "u8 \<Rightarrow> bool res" where
  "check_pdcp_rbid rbid = c_assert (rbid < 11) (Inr True)"

definition check_pdcp_bearer :: "pdcp_radio_bearer_stats \<Rightarrow> bool res" where
  "check_pdcp_bearer rb =
     c_assert (pb_txpdu_pkts rb \<le> pb_txpdu_bytes rb) (
     c_assert (pb_rxpdu_pkts rb \<le> pb_rxpdu_bytes rb) (
     c_assert (pb_txsdu_pkts rb \<le> pb_txsdu_bytes rb) (
     c_assert (pb_rxsdu_pkts rb \<le> pb_rxsdu_bytes rb) (Inr True))))"

fun check_pdcp_bearers :: "pdcp_radio_bearer_stats list \<Rightarrow> bool res" where
  "check_pdcp_bearers [] = Inr True"
| "check_pdcp_bearers (rb # rbs) =
     bind_res (check_pdcp_mode (pb_mode rb)) (\<lambda>_.
     bind_res (check_pdcp_rbid (pb_rbid rb)) (\<lambda>_.
     bind_res (check_pdcp_bearer rb) (\<lambda>_.
       check_pdcp_bearers rbs)))"

definition check_pdcp_invariants :: "pdcp_ind_msg \<Rightarrow> bool res" where
  "check_pdcp_invariants msg = check_pdcp_bearers (pm_rb msg)"

definition free_pdcp_ind_msg :: "pdcp_ind_msg \<Rightarrow> unit res" where
  "free_pdcp_ind_msg msg = bind_res (check_pdcp_invariants msg) (\<lambda>b. c_assert b (Inr ()))"

definition cp_pdcp_ind_msg :: "pdcp_ind_msg \<Rightarrow> pdcp_ind_msg res" where
  "cp_pdcp_ind_msg src = bind_res (check_pdcp_invariants src) (\<lambda>b. c_assert b
     (Inr \<lparr>pm_rb = map (\<lambda>i. pm_rb src ! i) [0..<length (pm_rb src)], pm_tstamp = pm_tstamp src\<rparr>))"

fun eq_pdcp_rbs :: "pdcp_radio_bearer_stats list \<Rightarrow> pdcp_radio_bearer_stats list \<Rightarrow> bool res" where
  "eq_pdcp_rbs (rb0 # rbs0) (rb1 # rbs1) =
     (if pb_txpdu_pkts rb0 \<noteq> pb_txpdu_pkts rb1 \<or> pb_txpdu_bytes rb0 \<noteq> pb_txpdu_bytes rb1 \<or>
      pb_txpdu_sn rb0 \<noteq> pb_txpdu_sn rb1 \<or> pb_rxpdu_pkts rb0 \<noteq> pb_rxpdu_pkts rb1 \<or>
      pb_rxpdu_bytes rb0 \<noteq> pb_rxpdu_bytes rb1 \<or> pb_rxpdu_sn rb0 \<noteq> pb_rxpdu_sn rb1 \<or>
      pb_rxpdu_oo_pkts rb0 \<noteq> pb_rxpdu_oo_pkts rb1 \<or>
      pb_rxpdu_oo_bytes rb0 \<noteq> pb_rxpdu_oo_bytes rb1 \<or>
      pb_rxpdu_dd_pkts rb0 \<noteq> pb_rxpdu_dd_pkts rb1 \<or>
      pb_rxpdu_dd_bytes rb0 \<noteq> pb_rxpdu_dd_bytes rb1 \<or>
      pb_rxpdu_ro_count rb0 \<noteq> pb_rxpdu_ro_count rb1 \<or> pb_txsdu_pkts rb0 \<noteq> pb_txsdu_pkts rb1 \<or>
      pb_txsdu_bytes rb0 \<noteq> pb_txsdu_bytes rb1 \<or> pb_rxsdu_pkts rb0 \<noteq> pb_rxsdu_pkts rb1 \<or>
      pb_rxsdu_bytes rb0 \<noteq> pb_rxsdu_bytes rb1 \<or> pb_rnti rb0 \<noteq> pb_rnti rb1 \<or>
      pb_mode rb0 \<noteq> pb_mode rb1 \<or> pb_rbid rb0 \<noteq> pb_rbid rb1
      then Inl AssertFailed
      else eq_pdcp_rbs rbs0 rbs1)"
| "eq_pdcp_rbs _ _ = Inr True"

text \<open>Messages that differ abort: \<open>assert(0 != 0 && "Impossible!")\<close>.\<close>

definition eq_pdcp_ind_msg :: "pdcp_ind_msg \<Rightarrow> pdcp_ind_msg \<Rightarrow> bool res" where
  "eq_pdcp_ind_msg m0 m1 =
     bind_res (check_pdcp_invariants m0) (\<lambda>b. c_assert b (
     bind_res (check_pdcp_invariants m1) (\<lambda>b. c_assert b (
     if pm_tstamp m0 \<noteq> pm_tstamp m1 \<or> length (pm_rb m0) \<noteq> length (pm_rb m1) then Inl AssertFailed
     else eq_pdcp_rbs (pm_rb m0) (pm_rb m1)))))"

definition free_pdcp_call_proc_id :: "pdcp_call_proc_id option \<Rightarrow> unit res" where
  "free_pdcp_call_proc_id src = Inr ()"

definition cp_pdcp_call_proc_id :: "pdcp_call_proc_id \<Rightarrow> pdcp_call_proc_id" where
  "cp_pdcp_call_proc_id src = src"

definition eq_pdcp_call_proc_id :: "pdcp_call_proc_id option \<Rightarrow> pdcp_call_proc_id option \<Rightarrow> bool" where
  "eq_pdcp_call_proc_id m0 m1 =
     (if m0 = None \<and> m1 = None then True
      else if m0 = None then False
      else if m1 = None then False
      else if the m0 \<noteq> the m1 then False
      else True)"

definition free_pdcp_ctrl_hdr :: "pdcp_ctrl_hdr \<Rightarrow> unit res" where
  "free_pdcp_ctrl_hdr src = Inr ()"

definition free_pdcp_ctrl_msg :: "pdcp_ctrl_msg \<Rightarrow> unit res" where
  "free_pdcp_ctrl_msg src = Inr ()"

definition cp_pdcp_ctrl_msg :: "pdcp_ctrl_msg \<Rightarrow> pdcp_ctrl_msg" where
  "cp_pdcp_ctrl_msg src = src"

definition eq_pdcp_ctrl_msg :: "pdcp_ctrl_msg \<Rightarrow> pdcp_ctrl_msg \<Rightarrow> bool" where
  "eq_pdcp_ctrl_msg m0 m1 = (if m0 = m1 then True else False)"

definition free_pdcp_ctrl_out :: "pdcp_ctrl_out \<Rightarrow> unit res" where
  "free_pdcp_ctrl_out src = Inr ()"

definition cp_pdcp_func_def :: "pdcp_func_def \<Rightarrow> pdcp_func_def" where
  "cp_pdcp_func_def src = copy_byte_array src"

definition eq_pdcp_func_def :: "(u64 \<times> pdcp_func_def) option \<Rightarrow> (u64 \<times> pdcp_func_def) option \<Rightarrow> bool res" where
  "eq_pdcp_func_def m0 m1 = (if m0 = m1 then Inr True else eq_func_def_struct func_def_image_buf m0 m1)"

definition free_pdcp_ind_data :: "pdcp_ind_data \<Rightarrow> unit res" where
  "free_pdcp_ind_data ind =
     bind_res (free_pdcp_ind_hdr (pi_hdr ind)) (\<lambda>_.
     bind_res (free_pdcp_ind_msg (pi_msg ind)) (\<lambda>_.
       free_pdcp_call_proc_id (pi_proc_id ind)))"

definition cp_pdcp_ind_data :: "pdcp_ind_data \<Rightarrow> pdcp_ind_data res" where
  "cp_pdcp_ind_data src =
     bind_res (cp_pdcp_ind_msg (pi_msg src)) (\<lambda>msg.
       Inr \<lparr>pi_hdr = cp_pdcp_ind_hdr (pi_hdr src), pi_msg = msg, pi_proc_id = map_option cp_pdcp_call_proc_id (pi_proc_id src)\<rparr>)"

section \<open>The plain codec\<close>

text \<open>\<open>pdcp_radio_bearer_stats_t\<close>: 68 bytes.\<close>

definition enc_pdcp_radio_bearer_stats :: "(nat \<Rightarrow> u8) \<Rightarrow> pdcp_radio_bearer_stats \<Rightarrow> byte_array" where
  "enc_pdcp_radio_bearer_stats p x =
     le 4 (pb_txpdu_pkts x) @ le 4 (pb_txpdu_bytes x) @ le 4 (pb_txpdu_sn x) @ le 4 (pb_rxpdu_pkts x) @
     le 4 (pb_rxpdu_bytes x) @ le 4 (pb_rxpdu_sn x) @ le 4 (pb_rxpdu_oo_pkts x) @ le 4 (pb_rxpdu_oo_bytes x) @
     le 4 (pb_rxpdu_dd_pkts x) @ le 4 (pb_rxpdu_dd_bytes x) @ le 4 (pb_rxpdu_ro_count x) @ le 4 (pb_txsdu_pkts x) @
     le 4 (pb_txsdu_bytes x) @ le 4 (pb_rxsdu_pkts x) @ le 4 (pb_rxsdu_bytes x) @ le 4 (pb_rnti x) @
     le 1 (pb_mode x) @ le 1 (pb_rbid x) @ [p 0, p 1]"

definition dec_pdcp_radio_bearer_stats :: "byte_array \<Rightarrow> pdcp_radio_bearer_stats" where
  "dec_pdcp_radio_bearer_stats bs =
     \<lparr>pb_txpdu_pkts = fld 0 4 bs, pb_txpdu_bytes = fld 4 4 bs, pb_txpdu_sn = fld 8 4 bs, pb_rxpdu_pkts = fld 12 4 bs,
      pb_rxpdu_bytes = fld 16 4 bs, pb_rxpdu_sn = fld 20 4 bs, pb_rxpdu_oo_pkts = fld 24 4 bs,
      pb_rxpdu_oo_bytes = fld 28 4 bs, pb_rxpdu_dd_pkts = fld 32 4 bs, pb_rxpdu_dd_bytes = fld 36 4 bs,
      pb_rxpdu_ro_count = fld 40 4 bs, pb_txsdu_pkts = fld 44 4 bs, pb_txsdu_bytes = fld 48 4 bs,
      pb_rxsdu_pkts = fld 52 4 bs, pb_rxsdu_bytes = fld 56 4 bs, pb_rnti = fld 60 4 bs, pb_mode = fld 64 1 bs,
      pb_rbid = fld 65 1 bs\<rparr>"

definition PDCP_RB_SZ :: nat where
  "PDCP_RB_SZ = 68"

interpretation rb: layout "\<lambda>_ :: pdcp_radio_bearer_stats. True" enc_pdcp_radio_bearer_stats dec_pdcp_radio_bearer_stats PDCP_RB_SZ
  by unfold_locales (simp_all add: enc_pdcp_radio_bearer_stats_def dec_pdcp_radio_bearer_stats_def PDCP_RB_SZ_def fld_simps del: le.simps)

subsection \<open>Encoding\<close>

definition pdcp_enc_event_trigger :: "pdcp_event_trigger \<Rightarrow> byte_array" where
  "pdcp_enc_event_trigger event_trigger = enc_u32 event_trigger"

definition pdcp_enc_action_def :: "pdcp_action_def \<Rightarrow> byte_array res" where
  "pdcp_enc_action_def action_def = Inl AssertFailed"

definition pdcp_enc_ind_hdr :: "pdcp_ind_hdr \<Rightarrow> byte_array" where
  "pdcp_enc_ind_hdr ind_hdr = enc_u32 ind_hdr"

definition pdcp_enc_ind_msg :: "(nat \<Rightarrow> nat \<Rightarrow> u8) \<Rightarrow> pdcp_ind_msg \<Rightarrow> byte_array res" where
  "pdcp_enc_ind_msg pad m =
     enc_counted enc_pdcp_radio_bearer_stats PDCP_RB_SZ pad (4 + PDCP_RB_SZ * length (pm_rb m) + 8) (pm_rb m) (pm_tstamp m)"

definition pdcp_enc_call_proc_id :: "pdcp_call_proc_id \<Rightarrow> byte_array res" where
  "pdcp_enc_call_proc_id call_proc_id = Inl AssertFailed"

definition pdcp_enc_ctrl_hdr :: "pdcp_ctrl_hdr \<Rightarrow> byte_array" where
  "pdcp_enc_ctrl_hdr ctrl_hdr = enc_u32 ctrl_hdr"

definition pdcp_enc_ctrl_msg :: "pdcp_ctrl_msg \<Rightarrow> byte_array" where
  "pdcp_enc_ctrl_msg ctrl_msg = enc_u32 ctrl_msg"

definition pdcp_enc_ctrl_out :: "pdcp_ctrl_out \<Rightarrow> byte_array" where
  "pdcp_enc_ctrl_out ctrl_out = enc_u32 ctrl_out"

definition pdcp_enc_func_def :: "pdcp_func_def \<Rightarrow> byte_array res" where
  "pdcp_enc_func_def func_def = Inl AssertFailed"

subsection \<open>Decoding\<close>

definition pdcp_dec_event_trigger :: "byte_array \<Rightarrow> pdcp_event_trigger res" where
  "pdcp_dec_event_trigger event_trigger = dec_u32_prefix event_trigger"

definition pdcp_dec_action_def :: "byte_array \<Rightarrow> pdcp_action_def res" where
  "pdcp_dec_action_def action_def = Inl AssertFailed"

definition pdcp_dec_ind_hdr :: "byte_array \<Rightarrow> pdcp_ind_hdr res" where
  "pdcp_dec_ind_hdr ind_hdr = dec_u32_exact ind_hdr"

definition pdcp_dec_ind_msg :: "byte_array \<Rightarrow> pdcp_ind_msg res" where
  "pdcp_dec_ind_msg ind_msg =
     c_assert (4 + 8 \<le> length ind_msg)
      (map_res (\<lambda>(rbs, t). \<lparr>pm_rb = rbs, pm_tstamp = t\<rparr>) (dec_counted dec_pdcp_radio_bearer_stats PDCP_RB_SZ ind_msg))"

definition pdcp_dec_call_proc_id :: "byte_array \<Rightarrow> pdcp_call_proc_id res" where
  "pdcp_dec_call_proc_id call_proc_id = Inl AssertFailed"

definition pdcp_dec_ctrl_hdr :: "byte_array \<Rightarrow> pdcp_ctrl_hdr res" where
  "pdcp_dec_ctrl_hdr ctrl_hdr = dec_u32_exact ctrl_hdr"

definition pdcp_dec_ctrl_msg :: "byte_array \<Rightarrow> pdcp_ctrl_msg res" where
  "pdcp_dec_ctrl_msg ctrl_msg = dec_u32_exact ctrl_msg"

definition pdcp_dec_ctrl_out :: "byte_array \<Rightarrow> pdcp_ctrl_out res" where
  "pdcp_dec_ctrl_out ctrl_out = c_assert (length ctrl_out > 0) (dec_u32_exact ctrl_out)"

definition pdcp_dec_func_def :: "byte_array \<Rightarrow> pdcp_func_def res" where
  "pdcp_dec_func_def func_def = Inl AssertFailed"

section \<open>The plug-in of the agent\<close>

definition SM_PDCP_ID :: u16 where
  "SM_PDCP_ID = 144"

definition SM_PDCP_STR :: string where
  "SM_PDCP_STR = ''PDCP_STATS_V0''"

definition SM_PDCP_REV :: u16 where
  "SM_PDCP_REV = 1"

definition SM_PDCP_OID :: string where
  "SM_PDCP_OID = ''0.0.0.0.0.0.0.0.1.144.0''"

definition pdcp_zero :: pdcp_ind_data where
  "pdcp_zero = \<lparr>pi_hdr = 0, pi_msg = \<lparr>pm_rb = [], pm_tstamp = 0\<rparr>, pi_proc_id = None\<rparr>"

definition on_subscription_pdcp_sm_ag :: "sm_subs_data \<Rightarrow> sm_ag_if_ans_subs res" where
  "on_subscription_pdcp_sm_ag data =
     bind_res (pdcp_dec_event_trigger (sb_event_trigger data)) (\<lambda>ev. Inr (PERIODIC_SUBSCRIPTION_FLRC ev))"

definition on_indication_pdcp_sm_ag ::
  "(nat \<Rightarrow> nat \<Rightarrow> u8) \<Rightarrow> (pdcp_ind_data, pdcp_ctrl_req_data) sm_io_ag \<Rightarrow> byte_array option \<Rightarrow> exp_ind_data res" where
  "on_indication_pdcp_sm_ag pad io act_def =
     c_assert (act_def = None)
      (let ba_hdr = pdcp_enc_ind_hdr 0; (avail, pdcp) = io_read_ind io pdcp_zero in
       bind_res
        (if avail = False then Inr None
         else map_res (\<lambda>ba. Some \<lparr>sid_hdr = ba_hdr, sid_msg = ba, sid_call_process_id = None\<rparr>)
               (pdcp_enc_ind_msg pad (pi_msg pdcp))) (\<lambda>ret.
       bind_res (free_pdcp_call_proc_id (pi_proc_id pdcp)) (\<lambda>_.
       bind_res (free_pdcp_ind_msg (pi_msg pdcp)) (\<lambda>_.
       bind_res (free_pdcp_ind_hdr (pi_hdr pdcp)) (\<lambda>_. Inr ret)))))"

definition on_control_pdcp_sm_ag ::
  "(pdcp_ind_data, pdcp_ctrl_req_data) sm_io_ag \<Rightarrow> sm_ctrl_req_data \<Rightarrow> sm_ctrl_out_data res" where
  "on_control_pdcp_sm_ag io data =
     bind_res (pdcp_dec_ctrl_hdr (sc_ctrl_hdr data)) (\<lambda>hdr.
     c_assert (hdr = 0) (
     bind_res (pdcp_dec_ctrl_msg (sc_ctrl_msg data)) (\<lambda>msg.
     c_assert (msg = 42) (
     bind_res (case io_write_ctrl io \<lparr>pq_hdr = hdr, pq_msg = msg\<rparr> of
        CTRL_OUTCOME_SM_AG_IF_ANS_V0 ans \<Rightarrow>
          c_assert (ac_type ans = PDCP_AGENT_IF_CTRL_ANS_V0)
           (bind_res (Inr (pdcp_enc_ctrl_out (ac_ans ans))) (\<lambda>ba.
            bind_res (free_pdcp_ctrl_out (ac_ans ans)) (\<lambda>_. Inr \<lparr>so_ctrl_out = ba\<rparr>)))
      | _ \<Rightarrow> Inl AssertFailed) (\<lambda>ret.
     bind_res (free_pdcp_ctrl_msg msg) (\<lambda>_.
     bind_res (free_pdcp_ctrl_hdr hdr) (\<lambda>_. Inr ret)))))))"

definition on_e2_setup_pdcp_sm_ag :: "sm_e2_setup_data res" where
  "on_e2_setup_pdcp_sm_ag = e2_setup_name SM_PDCP_STR"

definition on_ric_service_update_pdcp_sm_ag :: "byte_array res" where
  "on_ric_service_update_pdcp_sm_ag = Inl AssertFailed"

definition make_pdcp_sm_agent ::
  "(nat \<Rightarrow> nat \<Rightarrow> u8) \<Rightarrow> (pdcp_ind_data, pdcp_ctrl_req_data) sm_io_ag \<Rightarrow> sm_agent_procs" where
  "make_pdcp_sm_agent pad io =
     \<lparr>ap_on_subscription = on_subscription_pdcp_sm_ag, ap_on_indication = on_indication_pdcp_sm_ag pad io,
      ap_on_control = on_control_pdcp_sm_ag io, ap_on_e2_setup = on_e2_setup_pdcp_sm_ag,
      ap_info_def = SM_PDCP_STR, ap_info_id = SM_PDCP_ID, ap_info_rev = SM_PDCP_REV, ap_info_oid = SM_PDCP_OID\<rparr>"

section \<open>The plug-in of the RIC\<close>

definition on_subscription_pdcp_sm_ric :: "string \<Rightarrow> sm_subs_data res" where
  "on_subscription_pdcp_sm_ric cmd =
     bind_res (period_of_cmd cmd) (\<lambda>ms.
       Inr \<lparr>sb_event_trigger = pdcp_enc_event_trigger ms, sb_action_def = None\<rparr>)"

definition on_indication_pdcp_sm_ric :: "sm_ind_data \<Rightarrow> pdcp_ind_data sm_ag_if_rd_ind res" where
  "on_indication_pdcp_sm_ric data =
     bind_res (pdcp_dec_ind_hdr (sid_hdr data)) (\<lambda>hdr.
     bind_res (pdcp_dec_ind_msg (sid_msg data)) (\<lambda>msg.
       Inr \<lparr>ri_type = PDCP_STATS_V0, ri_data = \<lparr>pi_hdr = hdr, pi_msg = msg, pi_proc_id = None\<rparr>\<rparr>))"

definition on_control_req_pdcp_sm_ric :: "pdcp_ctrl_req_data \<Rightarrow> sm_ctrl_req_data res" where
  "on_control_req_pdcp_sm_ric req =
     Inr \<lparr>sc_ctrl_hdr = pdcp_enc_ctrl_hdr (pq_hdr req), sc_ctrl_msg = pdcp_enc_ctrl_msg (pq_msg req)\<rparr>"

definition on_control_out_pdcp_sm_ric :: "sm_ctrl_out_data \<Rightarrow> sm_ag_if_ans_ctrl res" where
  "on_control_out_pdcp_sm_ric out =
     c_assert (length (so_ctrl_out out) > 0)
      (bind_res (pdcp_dec_ctrl_out (so_ctrl_out out)) (\<lambda>ans.
         Inr \<lparr>ac_type = PDCP_AGENT_IF_CTRL_ANS_V0, ac_ans = ans\<rparr>))"

definition on_e2_setup_pdcp_sm_ric :: "sm_e2_setup_data \<Rightarrow> byte_array sm_ag_if_rd_e2setup res" where
  "on_e2_setup_pdcp_sm_ric setup =
     Inr \<lparr>es_type = PDCP_AGENT_IF_E2_SETUP_ANS_V0, es_func_def = copy_byte_array (se_ran_fun_def setup)\<rparr>"

definition on_ric_service_update_pdcp_sm_ric :: "byte_array \<Rightarrow> pdcp_func_def res" where
  "on_ric_service_update_pdcp_sm_ric rsu = Inl AssertFailed"

definition free_ind_data_pdcp_sm_ric :: "pdcp_ind_data sm_ag_if_rd_ind \<Rightarrow> unit res" where
  "free_ind_data_pdcp_sm_ric rd_ind =
     c_assert (ri_type rd_ind = PDCP_STATS_V0)
      (bind_res (free_pdcp_ind_hdr (pi_hdr (ri_data rd_ind))) (\<lambda>_.
         free_pdcp_ind_msg (pi_msg (ri_data rd_ind))))"

definition free_subs_data_pdcp_sm_ric :: "sm_subs_data \<Rightarrow> unit res" where
  "free_subs_data_pdcp_sm_ric src = Inl AssertFailed"

definition free_ctrl_req_data_pdcp_sm_ric :: "sm_ctrl_req_data \<Rightarrow> unit res" where
  "free_ctrl_req_data_pdcp_sm_ric msg = free_sm_ctrl_req_data msg"

definition free_ctrl_out_data_pdcp_sm_ric :: "sm_ctrl_out_data \<Rightarrow> unit res" where
  "free_ctrl_out_data_pdcp_sm_ric msg = free_sm_ctrl_out_data msg"

definition free_e2_setup_pdcp_sm_ric :: "sm_e2_setup_data \<Rightarrow> unit res" where
  "free_e2_setup_pdcp_sm_ric src = Inl AssertFailed"

definition free_ric_service_update_pdcp_sm_ric :: "byte_array \<Rightarrow> unit res" where
  "free_ric_service_update_pdcp_sm_ric src = Inl AssertFailed"

definition pdcp_sm_ric :: "(pdcp_ind_data, pdcp_ctrl_req_data) sm_ric_procs" where
  "pdcp_sm_ric =
     \<lparr>rp_ran_func_id = SM_PDCP_ID, rp_ran_func_name = SM_PDCP_STR, rp_on_subscription = on_subscription_pdcp_sm_ric,
      rp_on_indication = on_indication_pdcp_sm_ric, rp_on_control_req = on_control_req_pdcp_sm_ric,
      rp_on_control_out = on_control_out_pdcp_sm_ric, rp_on_e2_setup = on_e2_setup_pdcp_sm_ric,
      rp_free_ind_data = free_ind_data_pdcp_sm_ric\<rparr>"

definition make_pdcp_sm_ric :: "(pdcp_ind_data, pdcp_ctrl_req_data) sm_ric_procs res" where
  "make_pdcp_sm_ric = c_assert (length SM_PDCP_STR < RAN_FUNC_NAME_SZ) (Inr pdcp_sm_ric)"

section \<open>Correctness\<close>

lemmas pdcp_one_number = pdcp_enc_event_trigger_def pdcp_dec_event_trigger_def pdcp_enc_ind_hdr_def pdcp_dec_ind_hdr_def pdcp_enc_ctrl_hdr_def pdcp_dec_ctrl_hdr_def pdcp_enc_ctrl_msg_def pdcp_dec_ctrl_msg_def

lemmas pdcp_frees = free_pdcp_ind_hdr_def free_pdcp_call_proc_id_def free_pdcp_ctrl_hdr_def free_pdcp_ctrl_msg_def free_pdcp_ctrl_out_def

text \<open>The count is a \<open>uint32_t\<close>.\<close>

definition wf_pdcp_ind :: "pdcp_ind_msg \<Rightarrow> bool" where
  "wf_pdcp_ind m \<longleftrightarrow> length (pm_rb m) < 2 ^ 32"

definition pdcp_bearer_ok :: "pdcp_radio_bearer_stats \<Rightarrow> bool" where
  "pdcp_bearer_ok rb \<longleftrightarrow> pb_mode rb \<le> 2 \<and> pb_rbid rb < 11 \<and> pb_txpdu_pkts rb \<le> pb_txpdu_bytes rb \<and>
     pb_rxpdu_pkts rb \<le> pb_rxpdu_bytes rb \<and> pb_txsdu_pkts rb \<le> pb_txsdu_bytes rb \<and> pb_rxsdu_pkts rb \<le> pb_rxsdu_bytes rb"

lemma mode_le_2: "(m :: u8) \<le> 2 \<longleftrightarrow> m = 0 \<or> m = 1 \<or> m = 2"
proof -
  have "m \<le> 2 \<longleftrightarrow> unat m \<le> 2" by (simp add: word_le_nat_alt)
  also have "\<dots> \<longleftrightarrow> unat m = unat (0 :: u8) \<or> unat m = unat (1 :: u8) \<or> unat m = unat (2 :: u8)" by auto
  finally show ?thesis by (metis unsigned_word_eqI)
qed

lemma check_pdcp_bearers_iff:
  "check_pdcp_bearers rbs = (if list_all pdcp_bearer_ok rbs then Inr True else Inl AssertFailed)"
  by (induction rbs) (auto simp: check_pdcp_mode_def check_pdcp_rbid_def check_pdcp_bearer_def pdcp_bearer_ok_def mode_le_2
      c_assert_def)

lemma free_pdcp_ind_msg_iff:
  "free_pdcp_ind_msg m = (if list_all pdcp_bearer_ok (pm_rb m) then Inr () else Inl AssertFailed)"
  by (simp add: free_pdcp_ind_msg_def check_pdcp_invariants_def check_pdcp_bearers_iff)

definition pdcp_image :: "(nat \<Rightarrow> nat \<Rightarrow> u8) \<Rightarrow> pdcp_ind_msg \<Rightarrow> byte_array" where
  "pdcp_image pad m = le 4 (word_of_nat (length (pm_rb m)) :: u32) @ rb.images pad 0 (pm_rb m) @ le 8 (pm_tstamp m)"

lemma length_pdcp_image [simp]: "length (pdcp_image pad m) = 12 + PDCP_RB_SZ * length (pm_rb m)"
  by (simp add: pdcp_image_def rb.length_images)

lemma pdcp_enc: "pdcp_enc_ind_msg pad m = Inr (pdcp_image pad m)"
  unfolding pdcp_enc_ind_msg_def pdcp_image_def by (intro rb.enc_counted_ok) simp_all

lemma pdcp_dec_image: "wf_pdcp_ind m \<Longrightarrow> pdcp_dec_ind_msg (pdcp_image pad m) = Inr m"
  by (simp add: pdcp_dec_ind_msg_def) (simp add: pdcp_image_def rb.dec_counted_ok wf_pdcp_ind_def)

definition pdcp_ok :: "pdcp_ind_data \<Rightarrow> bool" where
  "pdcp_ok i \<longleftrightarrow> wf_pdcp_ind (pi_msg i) \<and> list_all pdcp_bearer_ok (pm_rb (pi_msg i))"

definition pdcp_reported :: "pdcp_ind_data \<Rightarrow> pdcp_ind_data" where
  "pdcp_reported i = \<lparr>pi_hdr = 0, pi_msg = pi_msg i, pi_proc_id = None\<rparr>"

lemma pdcp_agent_report:
  assumes "io_read_ind io pdcp_zero = (True, i)" "pdcp_ok i"
  shows "on_indication_pdcp_sm_ag pad io None =
    Inr (Some \<lparr>sid_hdr = enc_u32 0, sid_msg = pdcp_image pad (pi_msg i), sid_call_process_id = None\<rparr>)"
  using assms by (simp add: on_indication_pdcp_sm_ag_def pdcp_ok_def pdcp_enc pdcp_frees pdcp_one_number free_pdcp_ind_msg_iff)

lemma pdcp_ric_report:
  assumes "wf_pdcp_ind m"
  shows "on_indication_pdcp_sm_ric \<lparr>sid_hdr = enc_u32 h, sid_msg = pdcp_image pad m, sid_call_process_id = None\<rparr> =
    Inr \<lparr>ri_type = PDCP_STATS_V0, ri_data = \<lparr>pi_hdr = h, pi_msg = m, pi_proc_id = None\<rparr>\<rparr>"
  using assms by (simp add: on_indication_pdcp_sm_ric_def pdcp_dec_image pdcp_one_number)

interpretation pdcp: service_model make_pdcp_sm_agent pdcp_sm_ric pdcp_zero pdcp_ok pdcp_reported
  PDCP_STATS_V0 PDCP_AGENT_IF_E2_SETUP_ANS_V0 "cp_str_to_ba SM_PDCP_STR"
proof
  fix cmd ms pad and io :: "(pdcp_ind_data, pdcp_ctrl_req_data) sm_io_ag" and i
  note plugins = pdcp_sm_ric_def make_pdcp_sm_agent_def
  show "map_of periods cmd = Some ms \<Longrightarrow> \<exists>d. rp_on_subscription pdcp_sm_ric cmd = Inr d \<and>
      ap_on_subscription (make_pdcp_sm_agent pad io) d = Inr (PERIODIC_SUBSCRIPTION_FLRC ms)"
    by (simp add: plugins on_subscription_pdcp_sm_ric_def on_subscription_pdcp_sm_ag_def period_of_cmd_table pdcp_one_number)
  show "map_of periods cmd = None \<Longrightarrow> rp_on_subscription pdcp_sm_ric cmd = Inl AssertFailed"
    by (simp add: plugins on_subscription_pdcp_sm_ric_def period_of_cmd_table)
  show "\<exists>d. ap_on_indication (make_pdcp_sm_agent pad io) None = Inr (Some d) \<and>
      rp_on_indication pdcp_sm_ric d = Inr \<lparr>ri_type = PDCP_STATS_V0, ri_data = pdcp_reported i\<rparr> \<and>
      rp_free_ind_data pdcp_sm_ric \<lparr>ri_type = PDCP_STATS_V0, ri_data = pdcp_reported i\<rparr> = Inr () \<and> free_sm_ind_data d = Inr ()"
    if "io_read_ind io pdcp_zero = (True, i)" "pdcp_ok i"
    using pdcp_agent_report [OF that, of pad] that(2)
    by (simp add: plugins pdcp_ric_report pdcp_ok_def pdcp_reported_def pdcp_frees free_ind_data_pdcp_sm_ric_def free_sm_ind_data_def free_pdcp_ind_msg_iff)
  show "io_read_ind io pdcp_zero = (False, i) \<Longrightarrow> pdcp_ok i \<Longrightarrow> ap_on_indication (make_pdcp_sm_agent pad io) None = Inr None"
    by (simp add: plugins on_indication_pdcp_sm_ag_def pdcp_frees free_pdcp_ind_msg_iff pdcp_ok_def)
  show "bind_res (ap_on_e2_setup (make_pdcp_sm_agent pad io)) (rp_on_e2_setup pdcp_sm_ric) =
      Inr \<lparr>es_type = PDCP_AGENT_IF_E2_SETUP_ANS_V0, es_func_def = cp_str_to_ba SM_PDCP_STR\<rparr>"
    by (simp add: plugins on_e2_setup_pdcp_sm_ag_def e2_setup_name_def SM_PDCP_STR_def on_e2_setup_pdcp_sm_ric_def)
  show "ap_info_id (make_pdcp_sm_agent pad io) = rp_ran_func_id pdcp_sm_ric \<and>
      ap_info_def (make_pdcp_sm_agent pad io) = rp_ran_func_name pdcp_sm_ric \<and> length (rp_ran_func_name pdcp_sm_ric) < RAN_FUNC_NAME_SZ"
    by (simp add: plugins SM_PDCP_STR_def RAN_FUNC_NAME_SZ_def)
qed

text \<open>What the decoder makes of any bytes.\<close>

lemma pdcp_dec_any:
  assumes "n = unat (of_le (take 4 bs) :: u32)" "pdcp_dec_ind_msg bs = Inr m"
  shows "length (pm_rb m) = n \<and> length bs = 12 + PDCP_RB_SZ * n"
  using assms(2) by (auto simp: pdcp_dec_ind_msg_def dec_counted_any [OF assms(1)] c_assert_def split: if_splits)

text \<open>C18: An E2 node can abort the RIC with one report of the PDCP model. A report of any bearers is encoded and
  decoded unchanged, and the RIC hands it to its listeners; when it frees it the invariant of the
  bearers (mode at most 2, bearer below 11, no more packets than bytes) is asserted, which neither the
  encoder nor the decoder has checked.\<close>

theorem pdcp_bad_bearer_aborts_ric:
  assumes "wf_pdcp_ind m"
  shows "\<exists>bs. pdcp_enc_ind_msg pad m = Inr bs \<and>
    (\<exists>x. on_indication_pdcp_sm_ric \<lparr>sid_hdr = pdcp_enc_ind_hdr h, sid_msg = bs, sid_call_process_id = None\<rparr> = Inr x \<and>
      pi_msg (ri_data x) = m \<and>
      free_ind_data_pdcp_sm_ric x = (if list_all pdcp_bearer_ok (pm_rb m) then Inr () else Inl AssertFailed))"
  using assms
  by (simp add: pdcp_enc pdcp_ric_report pdcp_one_number free_ind_data_pdcp_sm_ric_def pdcp_frees free_pdcp_ind_msg_iff)

text \<open>The comparison of two PDCP messages never answers no: on two messages that keep the invariant it answers
  yes when they are equal and fails an assertion when they differ.\<close>

theorem eq_pdcp_ind_msg_never_false:
  assumes "list_all pdcp_bearer_ok (pm_rb m0)" "list_all pdcp_bearer_ok (pm_rb m1)"
  shows "eq_pdcp_ind_msg m0 m1 = (if m0 = m1 then Inr True else Inl AssertFailed)"
proof -
  have "eq_pdcp_rbs xs ys = (if xs = ys then Inr True else Inl AssertFailed)" if "length xs = length ys" for xs ys
    using that by (induction xs ys rule: list_induct2) auto
  then show ?thesis
    using assms by (cases m0; cases m1) (simp add: eq_pdcp_ind_msg_def check_pdcp_invariants_def check_pdcp_bearers_iff)
qed

text \<open>A control of the PDCP model reaches the RAN as the xApp gave it when its action is 42, and the number that
  the RAN answers comes back; any other action aborts the E2 node.\<close>

theorem pdcp_control_round_trip:
  assumes "io_write_ctrl io q = CTRL_OUTCOME_SM_AG_IF_ANS_V0 \<lparr>ac_type = PDCP_AGENT_IF_CTRL_ANS_V0, ac_ans = ans\<rparr>"
  shows "bind_res (on_control_req_pdcp_sm_ric q) (\<lambda>d.
      bind_res (on_control_pdcp_sm_ag io d) on_control_out_pdcp_sm_ric) =
    (if pq_hdr q = 0 \<and> pq_msg q = 42 then Inr \<lparr>ac_type = PDCP_AGENT_IF_CTRL_ANS_V0, ac_ans = ans\<rparr>
     else Inl AssertFailed)"
  using assms
  by (cases q; cases "pq_hdr q = 0"; cases "pq_msg q = 42")
    (simp_all add: on_control_req_pdcp_sm_ric_def on_control_pdcp_sm_ag_def on_control_out_pdcp_sm_ric_def
      pdcp_enc_ctrl_out_def pdcp_dec_ctrl_out_def pdcp_one_number pdcp_frees)

text \<open>\<open>eq_pdcp_func_def\<close> compares the structures, not the definitions: two definitions of 8 to 16 bytes are equal when
  they have the same buffer, so the 12 or 13 bytes of a name differ from their copy, and longer ones are
  read past the structure.\<close>

lemma eq_pdcp_func_def_compares_pointers:
  assumes "length b0 = length b1" "p0 \<noteq> p1"
  shows "8 \<le> length b0 \<Longrightarrow> length b0 \<le> 16 \<Longrightarrow> eq_pdcp_func_def (Some (p0, b0)) (Some (p1, b1)) = Inr False"
    and "16 < length b0 \<Longrightarrow> eq_pdcp_func_def (Some (p0, b0)) (Some (p1, b1)) = Inl OutOfBounds"
  using assms by (simp_all add: eq_pdcp_func_def_def eq_func_def_struct_buf eq_func_def_struct_long)

section \<open>Witnesses\<close>

definition sample_rb :: "u8 \<Rightarrow> pdcp_radio_bearer_stats" where
  "sample_rb mode = (dec_pdcp_radio_bearer_stats [])\<lparr>pb_mode := mode\<rparr>"

lemma sample_rb_ok: "pdcp_bearer_ok (sample_rb mode) \<longleftrightarrow> mode \<le> 2"
  by (simp add: sample_rb_def pdcp_bearer_ok_def dec_pdcp_radio_bearer_stats_def fld_def)

lemma sample_rb_inj: "sample_rb a = sample_rb b \<longleftrightarrow> a = b"
  by (simp add: sample_rb_def dec_pdcp_radio_bearer_stats_def)

theorem pdcp_bad_bearer_aborts_ric_witness:
  "wf_pdcp_ind \<lparr>pm_rb = [sample_rb 3], pm_tstamp = 0\<rparr> \<and>
   (\<exists>bs. pdcp_enc_ind_msg (\<lambda>_ _. 0) \<lparr>pm_rb = [sample_rb 3], pm_tstamp = 0\<rparr> = Inr bs \<and>
     (\<exists>x. on_indication_pdcp_sm_ric \<lparr>sid_hdr = pdcp_enc_ind_hdr 0, sid_msg = bs, sid_call_process_id = None\<rparr> = Inr x \<and>
       free_ind_data_pdcp_sm_ric x = Inl AssertFailed))"
proof -
  have w: "wf_pdcp_ind \<lparr>pm_rb = [sample_rb 3], pm_tstamp = 0\<rparr>" by (simp add: wf_pdcp_ind_def)
  from pdcp_bad_bearer_aborts_ric [OF this, of "\<lambda>_ _. 0" 0] w show ?thesis by (auto simp: sample_rb_ok)
qed

theorem eq_pdcp_ind_msg_never_false_witness:
  "eq_pdcp_ind_msg \<lparr>pm_rb = [sample_rb 0], pm_tstamp = 0\<rparr> \<lparr>pm_rb = [sample_rb 1], pm_tstamp = 0\<rparr> = Inl AssertFailed"
  using eq_pdcp_ind_msg_never_false [of "\<lparr>pm_rb = [sample_rb 0], pm_tstamp = 0\<rparr>" "\<lparr>pm_rb = [sample_rb 1], pm_tstamp = 0\<rparr>"]
  by (simp add: sample_rb_ok sample_rb_inj)

theorem pdcp_control_round_trip_witness:
  "bind_res (on_control_req_pdcp_sm_ric \<lparr>pq_hdr = 0, pq_msg = 42\<rparr>) (\<lambda>d. bind_res
     (on_control_pdcp_sm_ag
       \<lparr>io_read_ind = Pair False, io_write_ctrl = (\<lambda>q. CTRL_OUTCOME_SM_AG_IF_ANS_V0 \<lparr>ac_type = PDCP_AGENT_IF_CTRL_ANS_V0, ac_ans = pq_msg q\<rparr>)\<rparr> d)
     on_control_out_pdcp_sm_ric) = Inr \<lparr>ac_type = PDCP_AGENT_IF_CTRL_ANS_V0, ac_ans = 42\<rparr>"
  by (subst pdcp_control_round_trip [where ans = 42]) simp_all

end
