(* ===== verification/Gtp_Sm.thy ===== *)
theory Gtp_Sm
  imports Sm_Common
begin

text \<open>
  The GTP service model (\<open>sm/gtp_sm/\<close>): information elements, plain codec and the two plug-ins. The
  conventions are those of \<open>Mac_Sm\<close>.
\<close>

declare bind_res_eq_Inr [simp del]

section \<open>Information elements\<close>

type_synonym gtp_event_trigger = u32
type_synonym gtp_action_def = u32
type_synonym gtp_ind_hdr = u32
type_synonym gtp_call_proc_id = u32
type_synonym gtp_ctrl_hdr = u32
type_synonym gtp_ctrl_msg = u32
type_synonym gtp_ctrl_out = u32
type_synonym gtp_func_def = byte_array

record gtp_ngu_t_stats =
  gt_rnti :: u32
  gt_teidgnb :: u32
  gt_teidupf :: u32
  gt_qfi :: u8

record gtp_ind_msg =
  gm_ngut :: "gtp_ngu_t_stats list"
  gm_tstamp :: u64

record gtp_ind_data =
  gi_hdr :: gtp_ind_hdr
  gi_msg :: gtp_ind_msg
  gi_proc_id :: "gtp_call_proc_id option"

record gtp_ctrl_req_data =
  gq_hdr :: gtp_ctrl_hdr
  gq_msg :: gtp_ctrl_msg

subsection \<open>Not implemented in the code\<close>

definition free_gtp_event_trigger :: "gtp_event_trigger \<Rightarrow> unit res" where
  "free_gtp_event_trigger src = Inl AssertFailed"

definition cp_gtp_event_trigger :: "gtp_event_trigger \<Rightarrow> gtp_event_trigger res" where
  "cp_gtp_event_trigger src = Inl AssertFailed"

definition eq_gtp_event_trigger :: "gtp_event_trigger \<Rightarrow> gtp_event_trigger \<Rightarrow> bool res" where
  "eq_gtp_event_trigger m0 m1 = Inl AssertFailed"

definition free_gtp_action_def :: "gtp_action_def \<Rightarrow> unit res" where
  "free_gtp_action_def src = Inl AssertFailed"

definition cp_gtp_action_def :: "gtp_action_def \<Rightarrow> gtp_action_def res" where
  "cp_gtp_action_def src = Inl AssertFailed"

definition eq_gtp_action_def :: "gtp_event_trigger \<Rightarrow> gtp_event_trigger \<Rightarrow> bool res" where
  "eq_gtp_action_def m0 m1 = Inl AssertFailed"

definition free_gtp_ctrl_hdr :: "gtp_ctrl_hdr \<Rightarrow> unit res" where
  "free_gtp_ctrl_hdr src = Inl AssertFailed"

definition cp_gtp_ctrl_hdr :: "gtp_ctrl_hdr \<Rightarrow> gtp_ctrl_hdr res" where
  "cp_gtp_ctrl_hdr src = Inl AssertFailed"

definition eq_gtp_ctrl_hdr :: "gtp_ctrl_hdr \<Rightarrow> gtp_ctrl_hdr \<Rightarrow> bool res" where
  "eq_gtp_ctrl_hdr m0 m1 = Inl AssertFailed"

definition free_gtp_ctrl_msg :: "gtp_ctrl_msg \<Rightarrow> unit res" where
  "free_gtp_ctrl_msg src = Inl AssertFailed"

definition cp_gtp_ctrl_msg :: "gtp_ctrl_msg \<Rightarrow> gtp_ctrl_msg res" where
  "cp_gtp_ctrl_msg src = Inl AssertFailed"

definition eq_gtp_ctrl_msg :: "gtp_ctrl_msg \<Rightarrow> gtp_ctrl_msg \<Rightarrow> bool res" where
  "eq_gtp_ctrl_msg m0 m1 = Inl AssertFailed"

definition free_gtp_ctrl_out :: "gtp_ctrl_out \<Rightarrow> unit res" where
  "free_gtp_ctrl_out src = Inl AssertFailed"

definition cp_gtp_ctrl_out :: "gtp_ctrl_out \<Rightarrow> gtp_ctrl_out res" where
  "cp_gtp_ctrl_out src = Inl AssertFailed"

definition eq_gtp_ctrl_out :: "gtp_ctrl_out \<Rightarrow> gtp_ctrl_out \<Rightarrow> bool res" where
  "eq_gtp_ctrl_out m0 m1 = Inl AssertFailed"

definition cp_gtp_func_def :: "gtp_func_def \<Rightarrow> gtp_func_def res" where
  "cp_gtp_func_def src = Inl AssertFailed"

definition eq_gtp_func_def :: "(u64 \<times> gtp_func_def) \<Rightarrow> (u64 \<times> gtp_func_def) \<Rightarrow> bool res" where
  "eq_gtp_func_def m0 m1 = Inl AssertFailed"

subsection \<open>Copying, comparing and freeing\<close>

definition free_gtp_ind_hdr :: "gtp_ind_hdr \<Rightarrow> unit res" where
  "free_gtp_ind_hdr src = Inr ()"

definition cp_gtp_ind_hdr :: "gtp_ind_hdr \<Rightarrow> gtp_ind_hdr" where
  "cp_gtp_ind_hdr src = src"

definition eq_gtp_ind_hdr :: "gtp_ind_hdr \<Rightarrow> gtp_ind_hdr \<Rightarrow> bool" where
  "eq_gtp_ind_hdr m0 m1 = (if m0 \<noteq> m1 then False else True)"

definition free_gtp_ind_msg :: "gtp_ind_msg \<Rightarrow> unit res" where
  "free_gtp_ind_msg src = Inr ()"

definition cp_gtp_ind_msg :: "gtp_ind_msg \<Rightarrow> gtp_ind_msg" where
  "cp_gtp_ind_msg src =
     \<lparr>gm_ngut = map (\<lambda>i. gm_ngut src ! i) [0..<length (gm_ngut src)], gm_tstamp = gm_tstamp src\<rparr>"

fun eq_gtp_nguts :: "gtp_ngu_t_stats list \<Rightarrow> gtp_ngu_t_stats list \<Rightarrow> bool" where
  "eq_gtp_nguts (ngut0 # nguts0) (ngut1 # nguts1) =
     (if gt_rnti ngut0 \<noteq> gt_rnti ngut1 \<or> gt_teidgnb ngut0 \<noteq> gt_teidgnb ngut1 \<or>
      gt_qfi ngut0 \<noteq> gt_qfi ngut1 \<or> gt_teidupf ngut0 \<noteq> gt_teidupf ngut1
      then False
      else eq_gtp_nguts nguts0 nguts1)"
| "eq_gtp_nguts _ _ = True"

definition eq_gtp_ind_msg :: "gtp_ind_msg \<Rightarrow> gtp_ind_msg \<Rightarrow> bool" where
  "eq_gtp_ind_msg m0 m1 =
     (if gm_tstamp m0 \<noteq> gm_tstamp m1 \<or> length (gm_ngut m0) \<noteq> length (gm_ngut m1) then False
      else eq_gtp_nguts (gm_ngut m0) (gm_ngut m1))"

definition free_gtp_call_proc_id :: "gtp_call_proc_id option \<Rightarrow> unit res" where
  "free_gtp_call_proc_id src = Inr ()"

definition cp_gtp_call_proc_id :: "gtp_call_proc_id \<Rightarrow> gtp_call_proc_id" where
  "cp_gtp_call_proc_id src = src"

definition eq_gtp_call_proc_id :: "gtp_call_proc_id option \<Rightarrow> gtp_call_proc_id option \<Rightarrow> bool" where
  "eq_gtp_call_proc_id m0 m1 =
     (if m0 = None \<and> m1 = None then True
      else if m0 = None then False
      else if m1 = None then False
      else if the m0 \<noteq> the m1 then False
      else True)"

definition free_gtp_ind_data :: "gtp_ind_data \<Rightarrow> unit res" where
  "free_gtp_ind_data ind =
     bind_res (free_gtp_ind_hdr (gi_hdr ind)) (\<lambda>_.
     bind_res (free_gtp_ind_msg (gi_msg ind)) (\<lambda>_.
       free_gtp_call_proc_id (gi_proc_id ind)))"

definition cp_gtp_ind_data :: "gtp_ind_data \<Rightarrow> gtp_ind_data" where
  "cp_gtp_ind_data src =
     \<lparr>gi_hdr = cp_gtp_ind_hdr (gi_hdr src), gi_msg = cp_gtp_ind_msg (gi_msg src),
      gi_proc_id = map_option cp_gtp_call_proc_id (gi_proc_id src)\<rparr>"

section \<open>The plain codec\<close>

text \<open>\<open>gtp_ngu_t_stats_t\<close>: 16 bytes.\<close>

definition enc_gtp_ngu_t_stats :: "(nat \<Rightarrow> u8) \<Rightarrow> gtp_ngu_t_stats \<Rightarrow> byte_array" where
  "enc_gtp_ngu_t_stats p x =
     le 4 (gt_rnti x) @ le 4 (gt_teidgnb x) @ le 4 (gt_teidupf x) @ le 1 (gt_qfi x) @ [p 0, p 1, p 2]"

definition dec_gtp_ngu_t_stats :: "byte_array \<Rightarrow> gtp_ngu_t_stats" where
  "dec_gtp_ngu_t_stats bs =
     \<lparr>gt_rnti = fld 0 4 bs, gt_teidgnb = fld 4 4 bs, gt_teidupf = fld 8 4 bs, gt_qfi = fld 12 1 bs\<rparr>"

definition GTP_NGUT_SZ :: nat where
  "GTP_NGUT_SZ = 16"

interpretation ngut: layout "\<lambda>_ :: gtp_ngu_t_stats. True" enc_gtp_ngu_t_stats dec_gtp_ngu_t_stats GTP_NGUT_SZ
  by unfold_locales (simp_all add: enc_gtp_ngu_t_stats_def dec_gtp_ngu_t_stats_def GTP_NGUT_SZ_def fld_simps del: le.simps)

subsection \<open>Encoding\<close>

definition gtp_enc_event_trigger :: "gtp_event_trigger \<Rightarrow> byte_array" where
  "gtp_enc_event_trigger event_trigger = enc_u32 event_trigger"

definition gtp_enc_action_def :: "gtp_action_def \<Rightarrow> byte_array res" where
  "gtp_enc_action_def action_def = Inl AssertFailed"

definition gtp_enc_ind_hdr :: "gtp_ind_hdr \<Rightarrow> byte_array" where
  "gtp_enc_ind_hdr ind_hdr = enc_u32 ind_hdr"

definition gtp_enc_ind_msg :: "(nat \<Rightarrow> nat \<Rightarrow> u8) \<Rightarrow> gtp_ind_msg \<Rightarrow> byte_array res" where
  "gtp_enc_ind_msg pad m =
     enc_counted enc_gtp_ngu_t_stats GTP_NGUT_SZ pad (4 + GTP_NGUT_SZ * length (gm_ngut m) + 8) (gm_ngut m) (gm_tstamp m)"

definition gtp_enc_call_proc_id :: "gtp_call_proc_id \<Rightarrow> byte_array res" where
  "gtp_enc_call_proc_id call_proc_id = Inl AssertFailed"

definition gtp_enc_ctrl_hdr :: "gtp_ctrl_hdr \<Rightarrow> byte_array" where
  "gtp_enc_ctrl_hdr ctrl_hdr = enc_u32 ctrl_hdr"

definition gtp_enc_ctrl_msg :: "gtp_ctrl_msg \<Rightarrow> byte_array" where
  "gtp_enc_ctrl_msg ctrl_msg = enc_u32 ctrl_msg"

definition gtp_enc_ctrl_out :: "gtp_ctrl_out \<Rightarrow> byte_array res" where
  "gtp_enc_ctrl_out ctrl_out = Inl AssertFailed"

definition gtp_enc_func_def :: "gtp_func_def \<Rightarrow> byte_array res" where
  "gtp_enc_func_def func_def = Inl AssertFailed"

subsection \<open>Decoding\<close>

definition gtp_dec_event_trigger :: "byte_array \<Rightarrow> gtp_event_trigger res" where
  "gtp_dec_event_trigger event_trigger = dec_u32_prefix event_trigger"

definition gtp_dec_action_def :: "byte_array \<Rightarrow> gtp_action_def res" where
  "gtp_dec_action_def action_def = Inl AssertFailed"

definition gtp_dec_ind_hdr :: "byte_array \<Rightarrow> gtp_ind_hdr res" where
  "gtp_dec_ind_hdr ind_hdr = dec_u32_exact ind_hdr"

text \<open>16 is the size of the message structure less the pointer.\<close>

definition gtp_dec_ind_msg :: "byte_array \<Rightarrow> gtp_ind_msg res" where
  "gtp_dec_ind_msg ind_msg =
     c_assert (16 \<le> next_pow2 (word_of_nat (length ind_msg)))
      (map_res (\<lambda>(nguts, t). \<lparr>gm_ngut = nguts, gm_tstamp = t\<rparr>) (dec_counted dec_gtp_ngu_t_stats GTP_NGUT_SZ ind_msg))"

definition gtp_dec_call_proc_id :: "byte_array \<Rightarrow> gtp_call_proc_id res" where
  "gtp_dec_call_proc_id call_proc_id = Inl AssertFailed"

definition gtp_dec_ctrl_hdr :: "byte_array \<Rightarrow> gtp_ctrl_hdr res" where
  "gtp_dec_ctrl_hdr ctrl_hdr = dec_u32_exact ctrl_hdr"

definition gtp_dec_ctrl_msg :: "byte_array \<Rightarrow> gtp_ctrl_msg res" where
  "gtp_dec_ctrl_msg ctrl_msg = dec_u32_exact ctrl_msg"

definition gtp_dec_ctrl_out :: "byte_array \<Rightarrow> gtp_ctrl_out res" where
  "gtp_dec_ctrl_out ctrl_out = Inl AssertFailed"

definition gtp_dec_func_def :: "byte_array \<Rightarrow> gtp_func_def res" where
  "gtp_dec_func_def func_def = Inl AssertFailed"

section \<open>The plug-in of the agent\<close>

definition SM_GTP_ID :: u16 where
  "SM_GTP_ID = 148"

definition SM_GTP_STR :: string where
  "SM_GTP_STR = ''GTP_STATS_V0''"

definition SM_GTP_REV :: u16 where
  "SM_GTP_REV = 1"

definition SM_GTP_OID :: string where
  "SM_GTP_OID = ''0.0.0.0.0.0.0.0.1.148.0''"

definition gtp_zero :: gtp_ind_data where
  "gtp_zero = \<lparr>gi_hdr = 0, gi_msg = \<lparr>gm_ngut = [], gm_tstamp = 0\<rparr>, gi_proc_id = None\<rparr>"

definition on_subscription_gtp_sm_ag :: "sm_subs_data \<Rightarrow> sm_ag_if_ans_subs res" where
  "on_subscription_gtp_sm_ag data =
     bind_res (gtp_dec_event_trigger (sb_event_trigger data)) (\<lambda>ev. Inr (PERIODIC_SUBSCRIPTION_FLRC ev))"

definition on_indication_gtp_sm_ag ::
  "(nat \<Rightarrow> nat \<Rightarrow> u8) \<Rightarrow> (gtp_ind_data, gtp_ctrl_req_data) sm_io_ag \<Rightarrow> byte_array option \<Rightarrow> exp_ind_data res" where
  "on_indication_gtp_sm_ag pad io act_def =
     c_assert (act_def = None)
      (let ba_hdr = gtp_enc_ind_hdr 0; (avail, gtp) = io_read_ind io gtp_zero in
       bind_res
        (if avail = False then Inr None
         else map_res (\<lambda>ba. Some \<lparr>sid_hdr = ba_hdr, sid_msg = ba, sid_call_process_id = None\<rparr>)
               (gtp_enc_ind_msg pad (gi_msg gtp))) (\<lambda>ret.
       bind_res (free_gtp_call_proc_id (gi_proc_id gtp)) (\<lambda>_.
       bind_res (free_gtp_ind_msg (gi_msg gtp)) (\<lambda>_.
       bind_res (free_gtp_ind_hdr (gi_hdr gtp)) (\<lambda>_. Inr ret)))))"

text \<open>The answer of the RAN is dropped and an empty outcome returned.\<close>

definition on_control_gtp_sm_ag ::
  "(gtp_ind_data, gtp_ctrl_req_data) sm_io_ag \<Rightarrow> sm_ctrl_req_data \<Rightarrow> sm_ctrl_out_data res" where
  "on_control_gtp_sm_ag io data =
     bind_res (gtp_dec_ctrl_hdr (sc_ctrl_hdr data)) (\<lambda>hdr.
     c_assert (hdr = 0) (
     bind_res (gtp_dec_ctrl_msg (sc_ctrl_msg data)) (\<lambda>msg.
     c_assert (msg = 42) (
     let ans = io_write_ctrl io \<lparr>gq_hdr = 0, gq_msg = msg\<rparr> in
       Inr \<lparr>so_ctrl_out = []\<rparr>))))"

definition on_e2_setup_gtp_sm_ag :: "sm_e2_setup_data res" where
  "on_e2_setup_gtp_sm_ag = e2_setup_name SM_GTP_STR"

definition on_ric_service_update_gtp_sm_ag :: "byte_array res" where
  "on_ric_service_update_gtp_sm_ag = Inl AssertFailed"

definition make_gtp_sm_agent ::
  "(nat \<Rightarrow> nat \<Rightarrow> u8) \<Rightarrow> (gtp_ind_data, gtp_ctrl_req_data) sm_io_ag \<Rightarrow> sm_agent_procs" where
  "make_gtp_sm_agent pad io =
     \<lparr>ap_on_subscription = on_subscription_gtp_sm_ag, ap_on_indication = on_indication_gtp_sm_ag pad io,
      ap_on_control = on_control_gtp_sm_ag io, ap_on_e2_setup = on_e2_setup_gtp_sm_ag,
      ap_info_def = SM_GTP_STR, ap_info_id = SM_GTP_ID, ap_info_rev = SM_GTP_REV, ap_info_oid = SM_GTP_OID\<rparr>"

section \<open>The plug-in of the RIC\<close>

definition on_subscription_gtp_sm_ric :: "string \<Rightarrow> sm_subs_data res" where
  "on_subscription_gtp_sm_ric cmd =
     bind_res (period_of_cmd cmd) (\<lambda>ms.
       Inr \<lparr>sb_event_trigger = gtp_enc_event_trigger ms, sb_action_def = None\<rparr>)"

definition on_indication_gtp_sm_ric :: "sm_ind_data \<Rightarrow> gtp_ind_data sm_ag_if_rd_ind res" where
  "on_indication_gtp_sm_ric data =
     bind_res (gtp_dec_ind_msg (sid_msg data)) (\<lambda>msg.
     bind_res (gtp_dec_ind_hdr (sid_hdr data)) (\<lambda>hdr.
       Inr \<lparr>ri_type = GTP_STATS_V0, ri_data = \<lparr>gi_hdr = hdr, gi_msg = msg, gi_proc_id = None\<rparr>\<rparr>))"

definition ric_on_control_req_gtp_sm_ric :: "gtp_ctrl_req_data \<Rightarrow> sm_ctrl_req_data res" where
  "ric_on_control_req_gtp_sm_ric req =
     c_assert (gq_hdr req = 0) (
     c_assert (gq_msg req = 42)
      (Inr \<lparr>sc_ctrl_hdr = gtp_enc_ctrl_hdr (gq_hdr req), sc_ctrl_msg = gtp_enc_ctrl_msg (gq_msg req)\<rparr>))"

text \<open>The type is that of the MAC model; the value 0 is \<open>OK\<close>.\<close>

definition ric_on_control_out_gtp_sm_ric :: "sm_ctrl_out_data \<Rightarrow> sm_ag_if_ans_ctrl res" where
  "ric_on_control_out_gtp_sm_ric out =
     bind_res (gtp_dec_ctrl_out (so_ctrl_out out)) (\<lambda>ans.
       c_assert (ans = 0) (Inr \<lparr>ac_type = MAC_AGENT_IF_CTRL_ANS_V0, ac_ans = ans\<rparr>))"

text \<open>The definition of the function is not copied.\<close>

definition ric_on_e2_setup_gtp_sm_ric :: "sm_e2_setup_data \<Rightarrow> byte_array sm_ag_if_rd_e2setup res" where
  "ric_on_e2_setup_gtp_sm_ric setup =
     Inr \<lparr>es_type = GTP_AGENT_IF_E2_SETUP_ANS_V0, es_func_def = []\<rparr>"

definition on_ric_service_update_gtp_sm_ric :: "byte_array \<Rightarrow> gtp_func_def res" where
  "on_ric_service_update_gtp_sm_ric rsu = Inl AssertFailed"

definition free_ind_data_gtp_sm_ric :: "gtp_ind_data sm_ag_if_rd_ind \<Rightarrow> unit res" where
  "free_ind_data_gtp_sm_ric rd_ind =
     c_assert (ri_type rd_ind = GTP_STATS_V0)
      (bind_res (free_gtp_ind_hdr (gi_hdr (ri_data rd_ind))) (\<lambda>_.
         free_gtp_ind_msg (gi_msg (ri_data rd_ind))))"

definition free_subs_data_gtp_sm_ric :: "sm_subs_data \<Rightarrow> unit res" where
  "free_subs_data_gtp_sm_ric src = Inl AssertFailed"

definition free_ctrl_req_data_gtp_sm_ric :: "sm_ctrl_req_data \<Rightarrow> unit res" where
  "free_ctrl_req_data_gtp_sm_ric src = Inl AssertFailed"

definition free_ctrl_out_data_gtp_sm_ric :: "sm_ctrl_out_data \<Rightarrow> unit res" where
  "free_ctrl_out_data_gtp_sm_ric src = Inl AssertFailed"

definition free_e2_setup_gtp_sm_ric :: "sm_e2_setup_data \<Rightarrow> unit res" where
  "free_e2_setup_gtp_sm_ric src = Inl AssertFailed"

definition free_ric_service_update_gtp_sm_ric :: "byte_array \<Rightarrow> unit res" where
  "free_ric_service_update_gtp_sm_ric src = Inl AssertFailed"

definition gtp_sm_ric :: "(gtp_ind_data, gtp_ctrl_req_data) sm_ric_procs" where
  "gtp_sm_ric =
     \<lparr>rp_ran_func_id = SM_GTP_ID, rp_ran_func_name = SM_GTP_STR, rp_on_subscription = on_subscription_gtp_sm_ric,
      rp_on_indication = on_indication_gtp_sm_ric, rp_on_control_req = ric_on_control_req_gtp_sm_ric,
      rp_on_control_out = ric_on_control_out_gtp_sm_ric, rp_on_e2_setup = ric_on_e2_setup_gtp_sm_ric,
      rp_free_ind_data = free_ind_data_gtp_sm_ric\<rparr>"

definition make_gtp_sm_ric :: "(gtp_ind_data, gtp_ctrl_req_data) sm_ric_procs res" where
  "make_gtp_sm_ric = c_assert (length SM_GTP_STR < RAN_FUNC_NAME_SZ) (Inr gtp_sm_ric)"

section \<open>Correctness\<close>

lemmas gtp_one_number = gtp_enc_event_trigger_def gtp_dec_event_trigger_def gtp_enc_ind_hdr_def gtp_dec_ind_hdr_def gtp_enc_ctrl_hdr_def gtp_dec_ctrl_hdr_def gtp_enc_ctrl_msg_def gtp_dec_ctrl_msg_def

lemmas gtp_frees = free_gtp_ind_hdr_def free_gtp_call_proc_id_def free_gtp_ind_msg_def

text \<open>The count is a \<open>uint32_t\<close>.\<close>

definition wf_gtp_ind :: "gtp_ind_msg \<Rightarrow> bool" where
  "wf_gtp_ind m \<longleftrightarrow> length (gm_ngut m) < 2 ^ 32"

definition gtp_image :: "(nat \<Rightarrow> nat \<Rightarrow> u8) \<Rightarrow> gtp_ind_msg \<Rightarrow> byte_array" where
  "gtp_image pad m = le 4 (word_of_nat (length (gm_ngut m)) :: u32) @ ngut.images pad 0 (gm_ngut m) @ le 8 (gm_tstamp m)"

lemma length_gtp_image [simp]: "length (gtp_image pad m) = 12 + GTP_NGUT_SZ * length (gm_ngut m)"
  by (simp add: gtp_image_def ngut.length_images)

lemma gtp_enc: "gtp_enc_ind_msg pad m = Inr (gtp_image pad m)"
  unfolding gtp_enc_ind_msg_def gtp_image_def by (intro ngut.enc_counted_ok) simp_all

lemma gtp_dec_image:
  assumes "wf_gtp_ind m"
  shows "gtp_dec_ind_msg (gtp_image pad m) = Inr m"
proof -
  have "length (gtp_image pad m) < 2 ^ 63" using assms by (simp add: wf_gtp_ind_def GTP_NGUT_SZ_def)
  then have "16 \<le> next_pow2 (word_of_nat (length (gtp_image pad m)))" by (simp only: next_pow2_16) simp
  then have "gtp_dec_ind_msg (gtp_image pad m) =
      map_res (\<lambda>(nguts, t). \<lparr>gm_ngut = nguts, gm_tstamp = t\<rparr>) (dec_counted dec_gtp_ngu_t_stats GTP_NGUT_SZ (gtp_image pad m))"
    unfolding gtp_dec_ind_msg_def by (simp only: c_assert_simps)
  then show ?thesis using assms by (simp add: gtp_image_def ngut.dec_counted_ok wf_gtp_ind_def)
qed

definition gtp_ok :: "gtp_ind_data \<Rightarrow> bool" where
  "gtp_ok i \<longleftrightarrow> wf_gtp_ind (gi_msg i)"

definition gtp_reported :: "gtp_ind_data \<Rightarrow> gtp_ind_data" where
  "gtp_reported i = \<lparr>gi_hdr = 0, gi_msg = gi_msg i, gi_proc_id = None\<rparr>"

lemma gtp_agent_report:
  assumes "io_read_ind io gtp_zero = (True, i)" "gtp_ok i"
  shows "on_indication_gtp_sm_ag pad io None =
    Inr (Some \<lparr>sid_hdr = enc_u32 0, sid_msg = gtp_image pad (gi_msg i), sid_call_process_id = None\<rparr>)"
  using assms by (simp add: on_indication_gtp_sm_ag_def gtp_ok_def gtp_enc gtp_frees gtp_one_number)

lemma gtp_ric_report:
  assumes "wf_gtp_ind m"
  shows "on_indication_gtp_sm_ric \<lparr>sid_hdr = enc_u32 h, sid_msg = gtp_image pad m, sid_call_process_id = None\<rparr> =
    Inr \<lparr>ri_type = GTP_STATS_V0, ri_data = \<lparr>gi_hdr = h, gi_msg = m, gi_proc_id = None\<rparr>\<rparr>"
  using assms by (simp add: on_indication_gtp_sm_ric_def gtp_dec_image gtp_one_number)

interpretation gtp: service_model make_gtp_sm_agent gtp_sm_ric gtp_zero gtp_ok gtp_reported
  GTP_STATS_V0 GTP_AGENT_IF_E2_SETUP_ANS_V0 "[]"
proof
  fix cmd ms pad and io :: "(gtp_ind_data, gtp_ctrl_req_data) sm_io_ag" and i
  note plugins = gtp_sm_ric_def make_gtp_sm_agent_def
  show "map_of periods cmd = Some ms \<Longrightarrow> \<exists>d. rp_on_subscription gtp_sm_ric cmd = Inr d \<and>
      ap_on_subscription (make_gtp_sm_agent pad io) d = Inr (PERIODIC_SUBSCRIPTION_FLRC ms)"
    by (simp add: plugins on_subscription_gtp_sm_ric_def on_subscription_gtp_sm_ag_def period_of_cmd_table gtp_one_number)
  show "map_of periods cmd = None \<Longrightarrow> rp_on_subscription gtp_sm_ric cmd = Inl AssertFailed"
    by (simp add: plugins on_subscription_gtp_sm_ric_def period_of_cmd_table)
  show "\<exists>d. ap_on_indication (make_gtp_sm_agent pad io) None = Inr (Some d) \<and>
      rp_on_indication gtp_sm_ric d = Inr \<lparr>ri_type = GTP_STATS_V0, ri_data = gtp_reported i\<rparr> \<and>
      rp_free_ind_data gtp_sm_ric \<lparr>ri_type = GTP_STATS_V0, ri_data = gtp_reported i\<rparr> = Inr () \<and> free_sm_ind_data d = Inr ()"
    if "io_read_ind io gtp_zero = (True, i)" "gtp_ok i"
    using gtp_agent_report [OF that, of pad] that(2)
    by (simp add: plugins gtp_ric_report gtp_ok_def gtp_reported_def gtp_frees free_ind_data_gtp_sm_ric_def free_sm_ind_data_def)
  show "io_read_ind io gtp_zero = (False, i) \<Longrightarrow> gtp_ok i \<Longrightarrow> ap_on_indication (make_gtp_sm_agent pad io) None = Inr None"
    by (simp add: plugins on_indication_gtp_sm_ag_def gtp_frees gtp_ok_def)
  show "bind_res (ap_on_e2_setup (make_gtp_sm_agent pad io)) (rp_on_e2_setup gtp_sm_ric) =
      Inr \<lparr>es_type = GTP_AGENT_IF_E2_SETUP_ANS_V0, es_func_def = []\<rparr>"
    by (simp add: plugins on_e2_setup_gtp_sm_ag_def e2_setup_name_def SM_GTP_STR_def ric_on_e2_setup_gtp_sm_ric_def)
  show "ap_info_id (make_gtp_sm_agent pad io) = rp_ran_func_id gtp_sm_ric \<and>
      ap_info_def (make_gtp_sm_agent pad io) = rp_ran_func_name gtp_sm_ric \<and> length (rp_ran_func_name gtp_sm_ric) < RAN_FUNC_NAME_SZ"
    by (simp add: plugins SM_GTP_STR_def RAN_FUNC_NAME_SZ_def)
qed

text \<open>The comparison of two GTP messages, the copy of one and its journey through the plug-ins agree on what a
  message is: two messages are equal to the comparison exactly when they are equal, and a report of the
  RAN that the RIC reads compares equal to what the RAN filled in.\<close>

theorem gtp_report_compares_equal:
  assumes "io_read_ind io gtp_zero = (True, i)" "wf_gtp_ind (gi_msg i)"
  shows "(eq_gtp_ind_msg m0 m1 \<longleftrightarrow> m0 = m1) \<and>
    (\<exists>x. sm_report make_gtp_sm_agent gtp_sm_ric (pad, io) [] = Inr [x] \<and>
      eq_gtp_ind_msg (cp_gtp_ind_msg (gi_msg i)) (gi_msg x))"
proof -
  have "eq_gtp_nguts xs ys \<longleftrightarrow> xs = ys" if "length xs = length ys" for xs ys
    using that by (induction xs ys rule: list_induct2) auto
  then have eq: "eq_gtp_ind_msg m0 m1 \<longleftrightarrow> m0 = m1" for m0 m1
    by (cases m0; cases m1) (auto simp: eq_gtp_ind_msg_def)
  have cp: "cp_gtp_ind_msg m = m" for m by (cases m) (simp add: cp_gtp_ind_msg_def map_nth)
  have "gtp_ok (sm_filled gtp_zero io)" using assms by (simp add: gtp_ok_def sm_filled_def)
  from gtp.report_ok [OF this, of pad "[]"] assms(1) show ?thesis
    by (simp add: eq cp sm_filled_def gtp_reported_def)
qed

theorem gtp_report_compares_equal_witness:
  "\<exists>x. sm_report make_gtp_sm_agent gtp_sm_ric (\<lambda>_ _. 0, \<lparr>io_read_ind = (\<lambda>i. (True, i\<lparr>gi_hdr := 9\<rparr>)),
     io_write_ctrl = (\<lambda>_. NONE_SM_AG_IF_ANS_V0)\<rparr>) [] = Inr [x] \<and> eq_gtp_ind_msg (gi_msg gtp_zero) (gi_msg x)"
  using gtp_report_compares_equal [of "\<lparr>io_read_ind = (\<lambda>i. (True, i\<lparr>gi_hdr := 9\<rparr>)),
     io_write_ctrl = (\<lambda>_. NONE_SM_AG_IF_ANS_V0)\<rparr>" "gtp_zero\<lparr>gi_hdr := 9\<rparr>" "gi_msg gtp_zero" "gi_msg gtp_zero" "\<lambda>_ _. 0"]
  by (simp add: wf_gtp_ind_def gtp_zero_def cp_gtp_ind_msg_def)

end
