(* ===== verification/Ind_Event.thy ===== *)
theory Ind_Event
  imports Sm_Common Ric_Requests Tsq
begin

text \<open>
  What the E2 agent keeps per subscription (\<open>lib/ind_event.c\<close>, \<open>lib/aind_event.h\<close>), the interface
  of a service model as the agent calls it (\<open>sm/sm_agent.h\<close>), and the two maps of the agent: between
  descriptors and subscriptions (\<open>ind_event\<close>) and between descriptors and pending events
  (\<open>pending\<close> of \<open>agent/e2_agent.h\<close>).

  \<open>'d\<close> is what a \<open>void*\<close> of the models points to: an action definition, or the data of an aperiodic
  indication. \<open>'r\<close> is what the RAN answers at the moment of a call; the functions of a model take it as
  an argument.
\<close>

declare bind_res_eq_Inr [simp del]

section \<open>Service models and subscriptions\<close>

text \<open>\<open>sm_ag_if_ans_subs_t\<close>: a period in milliseconds with an action definition, or no period.\<close>

datatype 'd subs_ans = SUBS_PERIODIC int "'d option" | SUBS_APERIODIC

text \<open>\<open>sg_frees_act_def\<close>: the pointer \<open>free_act_def\<close> is not null.\<close>

record ('d, 'r) sm_agent =
  sg_on_subscription :: "'r \<Rightarrow> sm_subs_data \<Rightarrow> 'd subs_ans res"
  sg_on_indication :: "'r \<Rightarrow> 'd option \<Rightarrow> exp_ind_data res"
  sg_on_control :: "'r \<Rightarrow> sm_ctrl_req_data \<Rightarrow> sm_ctrl_out_data res"
  sg_on_e2_setup :: "'r \<Rightarrow> sm_e2_setup_data res"
  sg_frees_act_def :: bool
  sg_info_id :: u16
  sg_info_rev :: u16
  sg_info_oid :: string

text \<open>
  The union of the action definition and the function that ends an aperiodic subscription is told
  apart by \<open>type\<close>, which the datatype merges with it.
\<close>

datatype 'd ind_event_u = ACT_DEF "'d option" | FREE_SUBS_APERIODIC

record ('d, 'r) ind_event =
  ie_ric_id :: ric_gen_id
  ie_sm :: "('d, 'r) sm_agent"
  ie_action_id :: u8
  ie_u :: "'d ind_event_u"

definition cmp_ind_event :: "('d, 'r) ind_event \<Rightarrow> ('d, 'r) ind_event \<Rightarrow> int res" where
  "cmp_ind_event m0 m1 = cmp_ric_gen_id (ie_ric_id m0) (ie_ric_id m1)"

definition eq_ind_event_ric_req_id :: "u32 \<Rightarrow> ('d, 'r) ind_event \<Rightarrow> bool res" where
  "eq_ind_event_ric_req_id rq ind_ev = Inr (rq = ric_req_id (ie_ric_id ind_ev))"

definition eq_ind_event :: "ric_gen_id \<Rightarrow> ('d, 'r) ind_event \<Rightarrow> bool res" where
  "eq_ind_event i ind_ev = eq_ric_gen_id i (ie_ric_id ind_ev)"

record ('d, 'r) aind_event =
  ae_ric_id :: ric_gen_id
  ae_sm :: "('d, 'r) sm_agent"
  ae_action_id :: u8
  ae_ind_data :: "'d option"

text \<open>The sizes of the structures on a 64-bit machine.\<close>

definition IND_EVENT_SZ :: nat where
  "IND_EVENT_SZ = 32"

definition AIND_EVENT_SZ :: nat where
  "AIND_EVENT_SZ = 32"

definition PENDING_EVENT_SZ :: nat where
  "PENDING_EVENT_SZ = 4"

section \<open>Searching a map by descriptor\<close>

lemma search_by_fd:
  assumes cmps: "bimap_cmp cmp_fd (\<lambda>fd. fd > -1) (\<lambda>fd. [fd]) cmp2 valid2 rank2"
    and inv: "bm_inv cmp_fd (\<lambda>fd. fd > -1) (\<lambda>fd. [fd]) cmp2 valid2 rank2 m" and fd: "fd > -1"
  shows "\<exists>it. search (bm_left m) fd eq_fd = Inr it \<and>
    (if it = assoc_rb_tree_end (bm_left m) then fd \<notin> fst ` pairs_of m
     else \<exists>ev. (fd, ev) \<in> pairs_of m \<and> assoc_rb_tree_value (bm_left m) it = Inr ev)"
proof -
  have f: "eq_fd fd a = Inr (fd = a)" if "(a, b) \<in> pairs_of m" for a b
    using valid_kvs [of cmp_fd "\<lambda>fd. fd > -1" "\<lambda>fd. [fd]" "bm_left m" a b] inv that fd
    by (simp add: eq_fd_def bm_inv_def pairs_of_def)
  from bimap_cmp.search_left [OF cmps inv, of eq_fd fd "\<lambda>a. fd = a"] f obtain it where
    it: "search (bm_left m) fd eq_fd = Inr it"
    "if it = assoc_rb_tree_end (bm_left m) then \<forall>(a, b) \<in> pairs_of m. fd \<noteq> a
     else \<exists>a b. (a, b) \<in> pairs_of m \<and> fd = a \<and> assoc_rb_tree_value (bm_left m) it = Inr b" by blast
  show ?thesis by (intro exI [of _ it] conjI it(1)) (use it(2) in \<open>force split: if_splits\<close>)
qed

section \<open>The map of the subscriptions\<close>

definition ind_rank :: "('d, 'r) ind_event \<Rightarrow> int list" where
  "ind_rank e = ric_gen_rank (ie_ric_id e)"

interpretation ind_ev: comparator cmp_ind_event "\<lambda>_. True" ind_rank
  by unfold_locales (auto simp: cmp_ind_event_def ind_rank_def ric_gen.comp_law)

interpretation inds: bimap_cmp cmp_fd "\<lambda>fd. fd > -1" "\<lambda>fd. [fd]" cmp_ind_event "\<lambda>_. True" ind_rank
  by (intro bimap_cmp.intro fd.comparator_axioms ind_ev.comparator_axioms)

lemma ind_rank_eq: "ind_rank a = ind_rank b \<longleftrightarrow> ie_ric_id a = ie_ric_id b"
  by (simp add: ind_rank_def ric_gen_rank_inj)

definition inds_inv :: "(int, ('d, 'r) ind_event) bi_map \<Rightarrow> bool" where
  "inds_inv m \<longleftrightarrow> inds.inv m \<and> t_key_sz (bm_left m) = 4 \<and> t_key_sz (bm_right m) = IND_EVENT_SZ \<and> bm_right_free m"

lemma inds_init: "\<exists>m. bi_map_init 4 IND_EVENT_SZ cmp_fd cmp_ind_event True = Inr m \<and> inds_inv m \<and> pairs_of m = {}"
  using inds.bi_map_init_ok [of 4 IND_EVENT_SZ True] by (simp add: inds_inv_def IND_EVENT_SZ_def) blast

lemma inds_fd: "inds_inv m \<Longrightarrow> (fd, ev) \<in> pairs_of m \<Longrightarrow> fd > -1"
  using valid_kvs [of cmp_fd "\<lambda>fd. fd > -1" "\<lambda>fd. [fd]" "bm_left m" fd ev]
  by (simp add: inds_inv_def bm_inv_def pairs_of_def)

lemma inds_unique:
  assumes "inds_inv m" "(a, b) \<in> pairs_of m" "(a', b') \<in> pairs_of m"
  shows "a = a' \<longleftrightarrow> (a, b) = (a', b')" "ie_ric_id b = ie_ric_id b' \<longleftrightarrow> (a, b) = (a', b')"
  using bm_pairs_unique [of cmp_fd "\<lambda>fd. fd > -1" "\<lambda>fd. [fd]" cmp_ind_event "\<lambda>_. True" ind_rank m a b a' b'] assms
  by (simp_all add: inds_inv_def ind_rank_eq)

lemma inds_insert:
  assumes "inds_inv m" "fd > -1" "fd \<notin> fst ` pairs_of m" "ie_ric_id ev \<notin> ie_ric_id ` snd ` pairs_of m"
  shows "\<exists>m'. bi_map_insert m fd 4 ev IND_EVENT_SZ = Inr m' \<and> inds_inv m' \<and>
    pairs_of m' = insert (fd, ev) (pairs_of m)"
proof -
  have "[fd] \<notin> (\<lambda>fd. [fd]) ` fst ` pairs_of m" "ind_rank ev \<notin> ind_rank ` snd ` pairs_of m"
    using assms(3,4) by (auto simp: ind_rank_eq image_iff)
  with assms show ?thesis
    using inds.bi_map_insert_ok [of m fd ev 4 IND_EVENT_SZ] by (auto simp: inds_inv_def IND_EVENT_SZ_def)
qed

lemma inds_extract:
  assumes m: "inds_inv m" and p: "(fd, ev) \<in> pairs_of m" "ie_ric_id tmp = ie_ric_id ev"
  shows "\<exists>m'. bi_map_extract_right m tmp IND_EVENT_SZ = Inr (fd, m') \<and> inds_inv m' \<and>
    pairs_of m' = pairs_of m - {(fd, ev)}"
  using inds.bi_map_extract_right_ok [where bm = m and key = tmp and a = fd and b = ev and sz = IND_EVENT_SZ]
    assms inds_fd [OF assms(1,2)] by (auto simp: inds_inv_def ind_rank_eq)

text \<open>The two searches among the subscriptions: by descriptor, and by identifier.\<close>

lemma inds_by_fd:
  assumes m: "inds_inv m" and fd: "fd > -1"
  shows "\<exists>it. search (bm_left m) fd eq_fd = Inr it \<and>
    (if it = assoc_rb_tree_end (bm_left m) then fd \<notin> fst ` pairs_of m
     else \<exists>ev. (fd, ev) \<in> pairs_of m \<and> assoc_rb_tree_value (bm_left m) it = Inr ev)"
  using search_by_fd [OF inds.bimap_cmp_axioms _ fd, of m] m by (simp add: inds_inv_def)

lemma inds_search_right:
  assumes m: "inds_inv m" and f: "\<And>b. f u b = Inr (g b)"
  shows "(search (bm_right m) u f = Inr (assoc_rb_tree_end (bm_right m)) \<and> (\<forall>ev \<in> snd ` pairs_of m. \<not> g ev)) \<or>
    (\<exists>it fd ev. (fd, ev) \<in> pairs_of m \<and> g ev \<and> search (bm_right m) u f = Inr it \<and>
       it \<noteq> assoc_rb_tree_end (bm_right m) \<and> assoc_rb_tree_key (bm_right m) it = Inr ev)"
proof -
  have r: "rb_struct (bm_right m) (tree_of (bm_right m))" and inv: "inds.inv m"
    using m by (simp_all add: inds_inv_def bm_inv_def rb_inv_def)
  have key: "assoc_rb_tree_key (bm_right m) it = Inr b" if "rb_items (bm_right m) = xs @ (it, b, a) # ys" for xs it b a ys
    using rb_key_ok [OF r, of it b a] that by (simp add: rb_items_def)
  from inds.search_right [OF inv, of f u g, OF f] show ?thesis
  proof (elim disjE exE conjE, goal_cases)
    case 1
    then show ?case by auto
  next
    case (2 xs it a b ys)
    then show ?case using key by (intro disjI2 exI [of _ it] exI [of _ a] exI [of _ b]) simp
  qed
qed

lemma inds_by_id:
  assumes m: "inds_inv m"
  shows "\<exists>it. search (bm_right m) i eq_ind_event = Inr it \<and>
    (if it = assoc_rb_tree_end (bm_right m) then i \<notin> ie_ric_id ` snd ` pairs_of m
     else \<exists>fd ev. (fd, ev) \<in> pairs_of m \<and> ie_ric_id ev = i \<and> assoc_rb_tree_key (bm_right m) it = Inr ev)"
  using inds_search_right [OF m, of eq_ind_event i "\<lambda>ev. i = ie_ric_id ev"]
  by (auto simp: eq_ind_event_def)

lemma inds_by_req:
  assumes m: "inds_inv m"
  shows "\<exists>it. search (bm_right m) rq eq_ind_event_ric_req_id = Inr it \<and>
    (if it = assoc_rb_tree_end (bm_right m) then rq \<notin> (ric_req_id \<circ> ie_ric_id) ` snd ` pairs_of m
     else \<exists>fd ev. (fd, ev) \<in> pairs_of m \<and> ric_req_id (ie_ric_id ev) = rq \<and>
       assoc_rb_tree_key (bm_right m) it = Inr ev)"
  using inds_search_right [OF m, of eq_ind_event_ric_req_id rq "\<lambda>ev. rq = ric_req_id (ie_ric_id ev)"]
  by (auto simp: eq_ind_event_ric_req_id_def image_iff)

section \<open>The map of the pending events\<close>

definition cmp_pending :: "pending_event \<Rightarrow> pending_event \<Rightarrow> int res" where
  "cmp_pending a b = Inr (cmp_pending_event a b)"

interpretation pend1: comparator cmp_pending "\<lambda>_. True" "\<lambda>e. [pending_event_val e]"
  by unfold_locales (auto simp: cmp_pending_def cmp_pending_event_def pending_event_val_inj)

interpretation apend: bimap_cmp cmp_fd "\<lambda>fd. fd > -1" "\<lambda>fd. [fd]" cmp_pending "\<lambda>_. True" "\<lambda>e. [pending_event_val e]"
  by (intro bimap_cmp.intro fd.comparator_axioms pend1.comparator_axioms)

definition apend_inv :: "(int, pending_event) bi_map \<Rightarrow> bool" where
  "apend_inv m \<longleftrightarrow> apend.inv m \<and> t_key_sz (bm_left m) = 4 \<and> t_key_sz (bm_right m) = PENDING_EVENT_SZ \<and> bm_right_free m"

lemma apend_init: "\<exists>m. bi_map_init 4 PENDING_EVENT_SZ cmp_fd cmp_pending True = Inr m \<and> apend_inv m \<and> pairs_of m = {}"
  using apend.bi_map_init_ok [of 4 PENDING_EVENT_SZ True] by (simp add: apend_inv_def PENDING_EVENT_SZ_def) blast

lemma apend_fd: "apend_inv m \<Longrightarrow> (fd, ev) \<in> pairs_of m \<Longrightarrow> fd > -1"
  using valid_kvs [of cmp_fd "\<lambda>fd. fd > -1" "\<lambda>fd. [fd]" "bm_left m" fd ev]
  by (simp add: apend_inv_def bm_inv_def pairs_of_def)

lemma apend_unique:
  assumes "apend_inv m" "(a, b) \<in> pairs_of m" "(a', b) \<in> pairs_of m"
  shows "a = a'"
  using bm_pairs_unique(2) [of cmp_fd "\<lambda>fd. fd > -1" "\<lambda>fd. [fd]" cmp_pending "\<lambda>_. True"
      "\<lambda>e. [pending_event_val e]" m a b a' b] assms by (simp add: apend_inv_def)

lemma apend_insert:
  assumes "apend_inv m" "fd > -1" "fd \<notin> fst ` pairs_of m" "ev \<notin> snd ` pairs_of m"
  shows "\<exists>m'. bi_map_insert m fd 4 ev PENDING_EVENT_SZ = Inr m' \<and> apend_inv m' \<and>
    pairs_of m' = insert (fd, ev) (pairs_of m)"
proof -
  have "[fd] \<notin> (\<lambda>fd. [fd]) ` fst ` pairs_of m"
    "[pending_event_val ev] \<notin> (\<lambda>e. [pending_event_val e]) ` snd ` pairs_of m"
    using assms(3,4) by (auto simp: pending_event_val_inj image_iff)
  with assms show ?thesis
    using apend.bi_map_insert_ok [of m fd ev 4 PENDING_EVENT_SZ] by (auto simp: apend_inv_def PENDING_EVENT_SZ_def)
qed

lemma apend_extract:
  assumes m: "apend_inv m" and p: "(fd, ev) \<in> pairs_of m"
  shows "\<exists>m'. bi_map_extract_right m ev PENDING_EVENT_SZ = Inr (fd, m') \<and> apend_inv m' \<and>
    pairs_of m' = pairs_of m - {(fd, ev)}"
  using apend.bi_map_extract_right_ok [where bm = m and key = ev and a = fd and b = ev and sz = PENDING_EVENT_SZ]
    assms apend_fd [OF assms] by (auto simp: apend_inv_def)

lemma apend_extract_missing:
  assumes m: "apend_inv m" and p: "ev \<notin> snd ` pairs_of m"
  shows "bi_map_extract_right m ev PENDING_EVENT_SZ = Inl AssertFailed"
proof -
  have r: "rb_inv cmp_pending (\<lambda>_. True) (\<lambda>e. [pending_event_val e]) (bm_right m)"
    and k: "kvs (rb_items (bm_right m)) = (pairs_of m)\<inverse>"
    using m by (simp_all add: apend_inv_def bm_inv_def pairs_of_def)
  have "it_key e \<noteq> ev" if "e \<in> set (rb_items (bm_right m))" for e
    using kvs_item [OF that] k p by force
  then have "assoc_rb_tree_extract (bm_right m) ev = Inl AssertFailed"
    using pend1.rb_extract_missing [OF r, of ev] by (auto simp: pending_event_val_inj)
  then show ?thesis by (simp add: bi_map_extract_right_def c_assert_def)
qed

lemma apend_size: "apend_inv m \<Longrightarrow> bi_map_size m = Inr (card (pairs_of m))"
  by (simp add: apend_inv_def apend.bi_map_size_ok)

lemma apend_by_fd:
  assumes m: "apend_inv m" and fd: "fd > -1"
  shows "\<exists>it. search (bm_left m) fd eq_fd = Inr it \<and>
    (if it = assoc_rb_tree_end (bm_left m) then fd \<notin> fst ` pairs_of m
     else \<exists>ev. (fd, ev) \<in> pairs_of m \<and> assoc_rb_tree_value (bm_left m) it = Inr ev)"
  using search_by_fd [OF apend.bimap_cmp_axioms _ fd, of m] m by (simp add: apend_inv_def)

end
