(* ===== verification/E2_Agent.thy ===== *)
theory E2_Agent
  imports Ind_Event Container_Loops
begin

text \<open>
  The E2 agent, the part of FlexRIC that is linked into the base station: its event queue
  (\<open>agent/asio_agent.c\<close>), the registered service models (\<open>agent/plugin_agent.c\<close>), its state and what
  it sends (\<open>agent/e2_agent.c\<close>, \<open>agent/endpoint_agent.c\<close>, \<open>agent/e2ap_agent.c\<close>), the setup request
  (\<open>agent/gen_msg_agent.c\<close>), the handlers of the messages of the RIC (\<open>agent/msg_handler_agent.c\<close>,
  \<open>agent/not_handler_agent.c\<close>) and its event loop. The build is the one of E2AP v2.03 without
  \<open>PROXY_AGENT\<close>.

  As for the RIC, the codec, the descriptors that the operating system hands out and the answers of
  the RAN are arguments. What is handed to the socket is appended to \<open>ag_sent\<close>; \<open>ag_freed\<close> and
  \<open>ag_unsubscribed\<close> record the calls of \<open>free_act_def\<close> and of \<open>free_subs_aperiodic\<close>, code of the
  service models and of the RAN. The thread of the agent and the thread of the RAN that calls
  \<open>e2_async_event_agent\<close> interleave between these operations, not inside them.
\<close>

declare bind_res_eq_Inr [simp del]

section \<open>The event queue\<close>

text \<open>\<open>aa_pipe_bytes\<close> is the number of bytes that were written to the pipe and not read yet.\<close>

record asio_agent =
  aa_fds :: "int list"
  aa_timers :: "int \<rightharpoonup> itimerspec"
  aa_pipe_r :: int
  aa_pipe_bytes :: nat

definition add_fd_asio_agent :: "asio_agent \<Rightarrow> int \<Rightarrow> asio_agent res" where
  "add_fd_asio_agent io fd = c_assert (fd \<notin> set (aa_fds io)) (Inr (io\<lparr>aa_fds := fd # aa_fds io\<rparr>))"

definition init_asio_agent :: "int \<Rightarrow> asio_agent res" where
  "init_asio_agent r =
     add_fd_asio_agent \<lparr>aa_fds = [], aa_timers = Map.empty, aa_pipe_r = r, aa_pipe_bytes = 0\<rparr> r"

definition rm_fd_asio_agent :: "asio_agent \<Rightarrow> int \<Rightarrow> asio_agent res" where
  "rm_fd_asio_agent io fd =
     c_assert (fd \<in> set (aa_fds io))
      (Inr (io\<lparr>aa_fds := remove1 fd (aa_fds io), aa_timers := (aa_timers io)(fd := None)\<rparr>))"

definition create_timer_ms_asio_agent :: "asio_agent \<Rightarrow> int \<Rightarrow> int \<Rightarrow> int \<Rightarrow> asio_agent res" where
  "create_timer_ms_asio_agent io tfd initial_ms interval_ms =
     c_assert (initial_ms > -1) (c_assert (interval_ms > -1) (c_assert (tfd \<noteq> -1)
      (let new_value =
         \<lparr>it_value_sec = initial_ms div 1000, it_value_nsec = (initial_ms * 1000000) mod 1000000000,
          it_interval_sec = interval_ms div 1000,
          it_interval_nsec = (interval_ms * 1000000) mod 1000000000\<rparr>
       in add_fd_asio_agent (io\<lparr>aa_timers := (aa_timers io)(tfd \<mapsto> new_value)\<rparr>) tfd)))"

section \<open>The agent\<close>

record ('d, 'r) e2_agent =
  ag_fd :: int
  ag_sent :: "byte_array list"
  ag_ap :: e2ap_ap
  ag_io :: asio_agent
  ag_plugin :: "(u16, ('d, 'r) sm_agent) rb_tree"
  ag_ind_event :: "(int, ('d, 'r) ind_event) bi_map"
  ag_pending :: "(int, pending_event) bi_map"
  ag_id :: global_e2_node_id
  ag_aind :: "('d, 'r) aind_event seq_ring"
  ag_read_setup_ran :: "'r \<Rightarrow> ngran_node \<Rightarrow> e2ap_node_component_config_add list"
  ag_trans_id :: u32
  ag_stop_token :: bool
  ag_agent_stopped :: bool
  ag_freed :: "'d option list"
  ag_unsubscribed :: "u32 list"

subsection \<open>Service models\<close>

definition sm_plugin_ag :: "(u16, ('d, 'r) sm_agent) rb_tree \<Rightarrow> u16 \<Rightarrow> ('d, 'r) sm_agent res" where
  "sm_plugin_ag sm_ds key =
     c_assert (key > 0)
      (bind_res (search sm_ds key eq_ran_func_id) (\<lambda>it.
        c_assert (it \<noteq> assoc_rb_tree_end sm_ds)
         (bind_res (assoc_rb_tree_value sm_ds it) (\<lambda>sm.
           c_assert (sg_info_id sm = key) (Inr sm)))))"

definition size_plugin_ag :: "(u16, ('d, 'r) sm_agent) rb_tree \<Rightarrow> nat" where
  "size_plugin_ag sm_ds = assoc_rb_tree_size sm_ds"

text \<open>The end of \<open>load_plugin_ag\<close>: the model is registered under its own number.\<close>

definition register_plugin_ag ::
  "(u16, ('d, 'r) sm_agent) rb_tree \<Rightarrow> ('d, 'r) sm_agent \<Rightarrow> (u16, ('d, 'r) sm_agent) rb_tree res" where
  "register_plugin_ag sm_ds sm = assoc_rb_tree_insert sm_ds (sg_info_id sm) 2 sm"

definition init_plugin_ag :: "('d, 'r) sm_agent list \<Rightarrow> (u16, ('d, 'r) sm_agent) rb_tree res" where
  "init_plugin_ag sms =
     bind_res (assoc_rb_tree_init 2 cmp_ran_func_id) (\<lambda>sm_ds. fold_res (\<lambda>sm t. register_plugin_ag t sm) sms sm_ds)"

subsection \<open>The endpoint and the codec\<close>

definition e2ap_send_bytes_agent :: "('d, 'r) e2_agent \<Rightarrow> byte_array \<Rightarrow> ('d, 'r) e2_agent res" where
  "e2ap_send_bytes_agent ag ba = c_assert (length ba > 0) (Inr (ag\<lparr>ag_sent := ag_sent ag @ [ba]\<rparr>))"

definition e2ap_msg_enc_ag :: "e2ap_ap \<Rightarrow> e2ap_msg \<Rightarrow> byte_array res" where
  "e2ap_msg_enc_ag ap msg = c_assert (msg \<noteq> NONE_E2_MSG_TYPE) (Inr (ap_enc ap msg))"

text \<open>\<open>e2ap_msg_free_ag\<close> returns at once when there is no message.\<close>

definition e2ap_msg_free_ag :: "e2ap_msg \<Rightarrow> unit res" where
  "e2ap_msg_free_ag msg = (if msg = NONE_E2_MSG_TYPE then Inr () else e2ap_msg_free msg)"

definition e2_send_subscription_response ::
  "('d, 'r) e2_agent \<Rightarrow> ric_subscription_response \<Rightarrow> ('d, 'r) e2_agent res" where
  "e2_send_subscription_response ag sr = e2ap_send_bytes_agent ag (ap_enc (ag_ap ag) (RIC_SUBSCRIPTION_RESPONSE sr))"

definition e2_send_subscription_failure ::
  "('d, 'r) e2_agent \<Rightarrow> ric_subscription_failure \<Rightarrow> ('d, 'r) e2_agent res" where
  "e2_send_subscription_failure ag sf = e2ap_send_bytes_agent ag (ap_enc (ag_ap ag) (RIC_SUBSCRIPTION_FAILURE sf))"

definition e2_send_indication_agent :: "('d, 'r) e2_agent \<Rightarrow> ric_indication \<Rightarrow> ('d, 'r) e2_agent res" where
  "e2_send_indication_agent ag ind = e2ap_send_bytes_agent ag (ap_enc (ag_ap ag) (RIC_INDICATION ind))"

definition e2_send_subscription_delete_response ::
  "('d, 'r) e2_agent \<Rightarrow> ric_subscription_delete_response \<Rightarrow> ('d, 'r) e2_agent res" where
  "e2_send_subscription_delete_response ag sdr =
     e2ap_send_bytes_agent ag (ap_enc (ag_ap ag) (RIC_SUBSCRIPTION_DELETE_RESPONSE sdr))"

definition e2_send_subscription_delete_failure ::
  "('d, 'r) e2_agent \<Rightarrow> ric_subscription_delete_failure \<Rightarrow> ('d, 'r) e2_agent res" where
  "e2_send_subscription_delete_failure ag sdf =
     e2ap_send_bytes_agent ag (ap_enc (ag_ap ag) (RIC_SUBSCRIPTION_DELETE_FAILURE sdf))"

definition e2_send_control_acknowledge ::
  "('d, 'r) e2_agent \<Rightarrow> ric_control_acknowledge \<Rightarrow> ('d, 'r) e2_agent res" where
  "e2_send_control_acknowledge ag ca = e2ap_send_bytes_agent ag (ap_enc (ag_ap ag) (RIC_CONTROL_ACKNOWLEDGE ca))"

definition e2_send_control_failure :: "('d, 'r) e2_agent \<Rightarrow> ric_control_failure \<Rightarrow> ('d, 'r) e2_agent res" where
  "e2_send_control_failure ag cf = e2ap_send_bytes_agent ag (ap_enc (ag_ap ag) (RIC_CONTROL_FAILURE cf))"

subsection \<open>The setup request\<close>

text \<open>\<open>trans_id\<close> of the message has 8 bits, the counter of the agent 32.\<close>

definition gen_setup_request_v2 :: "('d, 'r) e2_agent \<Rightarrow> 'r \<Rightarrow> (e2_setup_request \<times> ('d, 'r) e2_agent) res" where
  "gen_setup_request_v2 ag rn =
     c_assert (assoc_rb_tree_size (ag_plugin ag) > 0)
      (bind_res (rb_for_all (ag_plugin ag) (\<lambda>k sm ran_func.
         c_assert (sg_info_id sm = k)
          (bind_res (sg_on_e2_setup sm rn) (\<lambda>def.
            Inr (ran_func @ [\<lparr>rf_defn = se_ran_fun_def def, rf_id = sg_info_id sm, rf_rev = sg_info_rev sm,
              rf_oid = cp_str_to_ba (sg_info_oid sm)\<rparr>])))) []) (\<lambda>ran_func.
       Inr (\<lparr>es_trans_id = ucast (ag_trans_id ag), es_id = cp_global_e2_node_id (ag_id ag), es_ran_func = ran_func,
             es_comp_conf = ag_read_setup_ran ag rn (gn_type (ag_id ag))\<rparr>,
            ag\<lparr>ag_trans_id := ag_trans_id ag + 1\<rparr>)))"

subsection \<open>Pending events\<close>

text \<open>A timer of \<open>wait_ms\<close> milliseconds for the setup request; \<open>SETUP_REQUEST_PENDING_EVENT\<close> is the only event.\<close>

definition start_setup_pending :: "('d, 'r) e2_agent \<Rightarrow> int \<Rightarrow> ('d, 'r) e2_agent res" where
  "start_setup_pending ag tfd =
     (let ev = SETUP_REQUEST_PENDING_EVENT; wait_ms = 3000 in
      bind_res (create_timer_ms_asio_agent (ag_io ag) tfd wait_ms wait_ms) (\<lambda>io.
      bind_res (bi_map_insert (ag_pending ag) tfd 4 ev PENDING_EVENT_SZ) (\<lambda>pending.
        Inr (ag\<lparr>ag_io := io, ag_pending := pending\<rparr>))))"

definition stop_pending_event_ag :: "('d, 'r) e2_agent \<Rightarrow> pending_event \<Rightarrow> ('d, 'r) e2_agent res" where
  "stop_pending_event_ag ag event =
     bind_res (bi_map_extract_right (ag_pending ag) event PENDING_EVENT_SZ) (\<lambda>(fd, pending).
       c_assert (fd > 0)
        (bind_res (rm_fd_asio_agent (ag_io ag) fd) (\<lambda>io.
          Inr (ag\<lparr>ag_io := io, ag_pending := pending\<rparr>))))"

definition notification_handle_ag :: "('d, 'r) e2_agent \<Rightarrow> int \<Rightarrow> ('d, 'r) e2_agent res" where
  "notification_handle_ag ag tfd = start_setup_pending ag tfd"

subsection \<open>Initialisation\<close>

text \<open>
  \<open>e2_init_agent\<close> with the descriptors of the socket and of the pipe, and the service models that
  were found.
\<close>

definition e2_init_agent ::
  "string \<Rightarrow> int \<Rightarrow> global_e2_node_id \<Rightarrow> ('r \<Rightarrow> ngran_node \<Rightarrow> e2ap_node_component_config_add list) \<Rightarrow>
   int \<Rightarrow> int \<Rightarrow> e2ap_ap \<Rightarrow> ('d, 'r) sm_agent list \<Rightarrow> ('d, 'r) e2_agent res" where
  "e2_init_agent ip_addr port ge2nid read_setup sock pipe_r ap sms =
     c_assert (port > 0 \<and> port < 65535) (c_assert (length ip_addr < 16)
      (bind_res (init_asio_agent pipe_r) (\<lambda>io.
       bind_res (add_fd_asio_agent io sock) (\<lambda>io.
       bind_res (init_plugin_ag sms) (\<lambda>sm_ds.
       bind_res (bi_map_init 4 PENDING_EVENT_SZ cmp_fd cmp_pending True) (\<lambda>pending.
       bind_res (bi_map_init 4 IND_EVENT_SZ cmp_fd cmp_ind_event True) (\<lambda>ind.
       bind_res (init_tsq AIND_EVENT_SZ) (\<lambda>aind.
         Inr \<lparr>ag_fd = sock, ag_sent = [], ag_ap = ap, ag_io = io, ag_plugin = sm_ds, ag_ind_event = ind,
           ag_pending = pending, ag_id = ge2nid, ag_aind = aind, ag_read_setup_ran = read_setup,
           ag_trans_id = 0, ag_stop_token = False, ag_agent_stopped = False, ag_freed = [],
           ag_unsubscribed = []\<rparr>))))))))"

text \<open>The part of \<open>e2_start_agent\<close> before the event loop; the request is freed when the loop has ended.\<close>

definition e2_start_agent :: "('d, 'r) e2_agent \<Rightarrow> 'r \<Rightarrow> int \<Rightarrow> (e2_setup_request \<times> ('d, 'r) e2_agent) res" where
  "e2_start_agent ag rn tfd =
     bind_res (gen_setup_request_v2 ag rn) (\<lambda>(sr, ag).
     let ba = ap_enc (ag_ap ag) (E2_SETUP_REQUEST sr) in
     bind_res (start_setup_pending ag tfd) (\<lambda>ag.
     bind_res (e2ap_send_bytes_agent ag ba) (\<lambda>ag. Inr (sr, ag))))"

section \<open>Handlers\<close>

subsection \<open>Subscription\<close>

definition supported_ric_subscription_request :: "ric_subscription_request \<Rightarrow> bool res" where
  "supported_ric_subscription_request sr =
     c_assert (length (sr_action sr) = 1) (c_assert (ra_type (hd (sr_action sr)) = RIC_ACT_REPORT) (Inr True))"

text \<open>\<open>ric_req_id\<close>, the third field, is handed to the model as an argument of its own.\<close>

definition generate_sm_subs_data :: "ric_subscription_request \<Rightarrow> sm_subs_data" where
  "generate_sm_subs_data sr =
     \<lparr>sb_event_trigger = sr_event_trigger sr, sb_action_def = ra_definition (hd (sr_action sr))\<rparr>"

definition generate_subscription_response :: "ric_gen_id \<Rightarrow> u8 \<Rightarrow> ric_subscription_response" where
  "generate_subscription_response i act = \<lparr>sp_ric_id = i, sp_admitted = [\<lparr>aa_id = act\<rparr>], sp_not_admitted = []\<rparr>"

definition e2ap_handle_subscription_request_agent ::
  "('d, 'r) e2_agent \<Rightarrow> 'r \<Rightarrow> int \<Rightarrow> ric_subscription_request \<Rightarrow> (e2ap_msg \<times> ('d, 'r) e2_agent) res" where
  "e2ap_handle_subscription_request_agent ag rn tfd sr =
     bind_res (supported_ric_subscription_request sr) (\<lambda>ok.
     c_assert (ok = True)
      (bind_res (sm_plugin_ag (ag_plugin ag) (ran_func_id (sr_ric_id sr))) (\<lambda>sm.
       bind_res (sg_on_subscription sm rn (generate_sm_subs_data sr)) (\<lambda>subs.
       let act = ra_id (hd (sr_action sr));
           ev = (\<lambda>u. \<lparr>ie_ric_id = sr_ric_id sr, ie_sm = sm, ie_action_id = act, ie_u = u\<rparr>) in
       bind_res (case subs of
           SUBS_PERIODIC ms ad \<Rightarrow>
             c_assert (ms < 10001)
              (bind_res (create_timer_ms_asio_agent (ag_io ag) tfd ms ms) (\<lambda>io.
               bind_res (bi_map_insert (ag_ind_event ag) tfd 4 (ev (ACT_DEF ad)) IND_EVENT_SZ) (\<lambda>ind.
                 Inr (ag\<lparr>ag_io := io, ag_ind_event := ind\<rparr>))))
         | SUBS_APERIODIC \<Rightarrow>
             bind_res (bi_map_insert (ag_ind_event ag) 0 4 (ev FREE_SUBS_APERIODIC) IND_EVENT_SZ) (\<lambda>ind.
               Inr (ag\<lparr>ag_ind_event := ind\<rparr>))) (\<lambda>ag.
         Inr (RIC_SUBSCRIPTION_RESPONSE (generate_subscription_response (sr_ric_id sr) act), ag))))))"

subsection \<open>End of a subscription\<close>

text \<open>
  \<open>free_act_def\<close> gets what the union holds: for an aperiodic subscription a function, which it would
  release as a structure. The key \<open>tmp\<close> of the search and of the extraction has no more than the
  identifier, which is all that is compared; the entry that the search found has the same.
\<close>

definition free_act_def_ag :: "('d, 'r) ind_event \<Rightarrow> ('d, 'r) e2_agent \<Rightarrow> ('d, 'r) e2_agent res" where
  "free_act_def_ag ev ag =
     (if sg_frees_act_def (ie_sm ev)
      then case ie_u ev of ACT_DEF ad \<Rightarrow> Inr (ag\<lparr>ag_freed := ag_freed ag @ [ad]\<rparr>) | FREE_SUBS_APERIODIC \<Rightarrow> Inl UseOfNull
      else Inr ag)"

definition not_aperiodic_ind_event :: "int \<Rightarrow> bool res" where
  "not_aperiodic_ind_event fd = c_assert (fd > -1) (Inr (fd \<noteq> 0))"

definition stop_ind_event :: "('d, 'r) e2_agent \<Rightarrow> ric_gen_id \<Rightarrow> (bool \<times> ('d, 'r) e2_agent) res" where
  "stop_ind_event ag i =
     bind_res (search (bm_right (ag_ind_event ag)) i eq_ind_event) (\<lambda>it_r.
       if it_r = assoc_rb_tree_end (bm_right (ag_ind_event ag)) then Inr (False, ag)
       else bind_res (assoc_rb_tree_key (bm_right (ag_ind_event ag)) it_r) (\<lambda>ind_ev.
         bind_res (free_act_def_ag ind_ev ag) (\<lambda>ag.
         let ag = (if ie_u ind_ev = FREE_SUBS_APERIODIC
                   then ag\<lparr>ag_unsubscribed := ag_unsubscribed ag @ [ric_req_id i]\<rparr> else ag) in
         bind_res (bi_map_extract_right (ag_ind_event ag) ind_ev IND_EVENT_SZ) (\<lambda>(fd, ind).
         c_assert (fd > -1)
          (bind_res (not_aperiodic_ind_event fd) (\<lambda>b.
           bind_res (if b then rm_fd_asio_agent (ag_io ag) fd else Inr (ag_io ag)) (\<lambda>io.
             Inr (True, ag\<lparr>ag_io := io, ag_ind_event := ind\<rparr>))))))))"

definition e2ap_handle_subscription_delete_request_agent ::
  "('d, 'r) e2_agent \<Rightarrow> ric_subscription_delete_request \<Rightarrow> (e2ap_msg \<times> ('d, 'r) e2_agent) res" where
  "e2ap_handle_subscription_delete_request_agent ag sdr =
     bind_res (stop_ind_event ag (sd_ric_id sdr)) (\<lambda>(_, ag).
       Inr (RIC_SUBSCRIPTION_DELETE_RESPONSE \<lparr>dp_ric_id = sd_ric_id sdr\<rparr>, ag))"

subsection \<open>Control\<close>

definition ba_from_ctrl_out :: "sm_ctrl_out_data \<Rightarrow> byte_array option" where
  "ba_from_ctrl_out data = (if length (so_ctrl_out data) > 0 then Some (so_ctrl_out data) else None)"

definition e2ap_handle_control_request_agent ::
  "('d, 'r) e2_agent \<Rightarrow> 'r \<Rightarrow> ric_control_request \<Rightarrow> (e2ap_msg \<times> ('d, 'r) e2_agent) res" where
  "e2ap_handle_control_request_agent ag rn ctrl_req =
     c_assert (cr_ack_req ctrl_req \<noteq> None \<and> the (cr_ack_req ctrl_req) = RIC_CONTROL_REQUEST_ACK)
      (let data = \<lparr>sc_ctrl_hdr = cr_hdr ctrl_req, sc_ctrl_msg = cr_msg ctrl_req\<rparr> in
       bind_res (sm_plugin_ag (ag_plugin ag) (ran_func_id (cr_ric_id ctrl_req))) (\<lambda>sm.
       bind_res (sg_on_control sm rn data) (\<lambda>ctrl_ans.
       let ack = \<lparr>ck_ric_id = cr_ric_id ctrl_req, ck_call_process_id = None, ck_outcome = ba_from_ctrl_out ctrl_ans\<rparr> in
       bind_res (free_sm_ctrl_out_data ctrl_ans) (\<lambda>_. Inr (RIC_CONTROL_ACKNOWLEDGE ack, ag)))))"

subsection \<open>Setup\<close>

definition e2ap_handle_setup_response_agent ::
  "('d, 'r) e2_agent \<Rightarrow> e2_setup_response \<Rightarrow> (e2ap_msg \<times> ('d, 'r) e2_agent) res" where
  "e2ap_handle_setup_response_agent ag resp =
     bind_res (stop_pending_event_ag ag SETUP_REQUEST_PENDING_EVENT) (\<lambda>ag.
       c_assert (ag_trans_id ag > 0) (Inr (NONE_E2_MSG_TYPE, ag\<lparr>ag_trans_id := 0\<rparr>)))"

text \<open>
  The number of the alternative of a cause in E2AP v2.03 and the number of the cause in it; the decoder
  leaves 0 in the union when there is no cause. Then the two tables of the handler, by their names;
  an entry without a name is a null pointer, which \<open>printf\<close> shows as such.
\<close>

fun cause_present :: "cause \<Rightarrow> nat" where
  "cause_present CAUSE_NOTHING = 0"
| "cause_present (CAUSE_RICREQUEST n) = 1"
| "cause_present (CAUSE_RICSERVICE n) = 2"
| "cause_present (CAUSE_E2NODE n) = 3"
| "cause_present (CAUSE_TRANSPORT n) = 4"
| "cause_present (CAUSE_PROTOCOL n) = 5"
| "cause_present (CAUSE_MISC n) = 6"

fun cause_idx :: "cause \<Rightarrow> nat" where
  "cause_idx CAUSE_NOTHING = 0"
| "cause_idx (CAUSE_RICREQUEST n) = n"
| "cause_idx (CAUSE_RICSERVICE n) = n"
| "cause_idx (CAUSE_E2NODE n) = n"
| "cause_idx (CAUSE_TRANSPORT n) = n"
| "cause_idx (CAUSE_PROTOCOL n) = n"
| "cause_idx (CAUSE_MISC n) = n"

definition cause_names :: "string list" where
  "cause_names = [''CAUSE_NOTHING'', ''CAUSE_RICREQUEST'', ''CAUSE_RICSERVICE'', ''CAUSE_TRANSPORT'',
     ''CAUSE_PROTOCOL'', ''CAUSE_MISC'']"

definition cause_value_names :: "string list list" where
  "cause_value_names = [
     [''CAUSE_NOTHING''],
     [''CAUSE_RIC_RAN_FUNCTION_ID_INVALID'', ''CAUSE_RIC_ACTION_NOT_SUPPORTED'', ''CAUSE_RIC_EXCESSIVE_ACTIONS'',
      ''CAUSE_RIC_DUPLICATE_ACTION'', ''CAUSE_RIC_DUPLICATE_EVENT'', ''CAUSE_RIC_FUNCTION_RESOURCE_LIMIT'',
      ''CAUSE_RIC_REQUEST_ID_UNKNOWN'', ''CAUSE_RIC_INCONSISTENT_ACTION_SUBSEQUENT_ACTION_SEQUENCE'',
      ''CAUSE_RIC_CONTROL_MESSAGE_INVALID'', ''CAUSE_RIC_CALL_PROCESS_ID_INVALID'', ''CAUSE_RIC_UNSPECIFIED''],
     [''CAUSE_RICSERVICE_FUNCTION_NOT_REQUIRED'', ''CAUSE_RICSERVICE_EXCESSIVE_FUNCTIONS'',
      ''CAUSE_RICSERVICE_RIC_RESOURCE_LIMIT''],
     [''CAUSE_TRANSPORT_UNSPECIFIED'', ''CAUSE_TRANSPORT_TRANSPORT_RESOURCE_UNAVAILABLE''],
     [''CAUSE_PROTOCOL_TRANSFER_SYNTAX_ERROR'', ''CAUSE_PROTOCOL_ABSTRACT_SYNTAX_ERROR_REJECT'',
      ''CAUSE_PROTOCOL_ABSTRACT_SYNTAX_ERROR_IGNORE_AND_NOTIFY'',
      ''CAUSE_PROTOCOL_MESSAGE_NOT_COMPATIBLE_WITH_RECEIVER_STATE'', ''CAUSE_PROTOCOL_SEMANTIC_ERROR'',
      ''CAUSE_PROTOCOL_ABSTRACT_SYNTAX_ERROR_FALSELY_CONSTRUCTED_MESSAGE'', ''CAUSE_PROTOCOL_UNSPECIFIED''],
     [''CAUSE_MISC_CONTROL_PROCESSING_OVERLOAD'', ''CAUSE_MISC_HARDWARE_FAILURE'', ''CAUSE_MISC_OM_INTERVENTION'',
      ''CAUSE_MISC_UNSPECIFIED'']]"

definition setup_failure_line :: "cause \<Rightarrow> (string \<times> string option) res" where
  "setup_failure_line c =
     (let present = cause_present c; idx = cause_idx c in
      c_assert (present < 6) (c_assert (idx < 11)
       (Inr (cause_names ! present,
          if idx < length (cause_value_names ! present) then Some (cause_value_names ! present ! idx) else None))))"

definition e2ap_handle_setup_failure_agent ::
  "('d, 'r) e2_agent \<Rightarrow> e2_setup_failure \<Rightarrow> (e2ap_msg \<times> ('d, 'r) e2_agent) res" where
  "e2ap_handle_setup_failure_agent ag fail =
     bind_res (setup_failure_line (eu_cause fail)) (\<lambda>_. Inr (NONE_E2_MSG_TYPE, ag))"

subsection \<open>Dispatch\<close>

text \<open>
  \<open>check_valid_msg_type\<close> admits the types that \<open>init_handle_msg_agent\<close> has a handler for; those that
  are not named abort with ``not implemented''.
\<close>

definition e2ap_msg_handle_agent ::
  "('d, 'r) e2_agent \<Rightarrow> 'r \<Rightarrow> int \<Rightarrow> e2ap_msg \<Rightarrow> (e2ap_msg \<times> ('d, 'r) e2_agent) res" where
  "e2ap_msg_handle_agent ag rn tfd msg = (case msg of
     RIC_SUBSCRIPTION_REQUEST m \<Rightarrow> e2ap_handle_subscription_request_agent ag rn tfd m
   | RIC_SUBSCRIPTION_DELETE_REQUEST m \<Rightarrow> e2ap_handle_subscription_delete_request_agent ag m
   | RIC_CONTROL_REQUEST m \<Rightarrow> e2ap_handle_control_request_agent ag rn m
   | E2_SETUP_RESPONSE m \<Rightarrow> e2ap_handle_setup_response_agent ag m
   | E2_SETUP_FAILURE m \<Rightarrow> e2ap_handle_setup_failure_agent ag m
   | _ \<Rightarrow> Inl AssertFailed)"

section \<open>Indications\<close>

text \<open>
  The call process identifier is copied into an allocation of \<open>sizeof(data->len_cpid)\<close>, 8 bytes, that is
  used as a \<open>byte_array_t\<close> of 16.
\<close>

definition call_process_id_cell :: "byte_array option \<Rightarrow> byte_array option res" where
  "call_process_id_cell cpid = (case cpid of None \<Rightarrow> Inr None
     | Some bs \<Rightarrow> let allocated = 8 :: nat; written = 16 in in_bounds (written \<le> allocated) (Inr (Some bs)))"

definition generate_indication :: "sm_ind_data \<Rightarrow> ('d, 'r) ind_event \<Rightarrow> ric_indication res" where
  "generate_indication data i_ev =
     bind_res (call_process_id_cell (sid_call_process_id data)) (\<lambda>cpid.
       Inr \<lparr>in_ric_id = ie_ric_id i_ev, in_action_id = ie_action_id i_ev, in_sn = None, in_type = RIC_IND_REPORT,
            in_hdr = sid_hdr data, in_msg = sid_msg data, in_call_process_id = cpid\<rparr>)"

definition generate_aindication :: "sm_ind_data \<Rightarrow> ('d, 'r) aind_event \<Rightarrow> ric_indication res" where
  "generate_aindication data ai_ev =
     bind_res (call_process_id_cell (sid_call_process_id data)) (\<lambda>cpid.
       Inr \<lparr>in_ric_id = ae_ric_id ai_ev, in_action_id = ae_action_id ai_ev, in_sn = None, in_type = RIC_IND_REPORT,
            in_hdr = sid_hdr data, in_msg = sid_msg data, in_call_process_id = cpid\<rparr>)"

subsection \<open>Aperiodic indications\<close>

text \<open>\<open>snprintf(str, 32, "%u", n)\<close>: the decimal digits.\<close>

fun show_dec :: "nat \<Rightarrow> string" where
  "show_dec n = (if n < 10 then [char_of (48 + n)] else show_dec (n div 10) @ [char_of (48 + n mod 10)])"

declare show_dec.simps [simp del]

text \<open>
  Called by the RAN. The search is tried ten times, in case that the subscription is just being
  registered; here it is, or it is not. The pipe takes the digits of the number.
\<close>

definition e2_async_event_agent :: "('d, 'r) e2_agent \<Rightarrow> u32 \<Rightarrow> 'd option \<Rightarrow> ('d, 'r) e2_agent res" where
  "e2_async_event_agent ag rq ind_data =
     (let tree = bm_right (ag_ind_event ag) in
      bind_res (search tree rq eq_ind_event_ric_req_id) (\<lambda>it.
      c_assert (it \<noteq> assoc_rb_tree_end tree)
       (bind_res (assoc_rb_tree_key tree it) (\<lambda>ind_ev.
        let aind = \<lparr>ae_ric_id = ie_ric_id ind_ev, ae_sm = ie_sm ind_ev, ae_action_id = ie_action_id ind_ev,
              ae_ind_data = ind_data\<rparr> in
        bind_res (push_tsq (ag_aind ag) aind AIND_EVENT_SZ) (\<lambda>q.
        let str = show_dec (unat rq) in
        c_assert (length str > 0 \<and> length str < 32 - 1)
         (Inr (ag\<lparr>ag_aind := q,
            ag_io := (ag_io ag)\<lparr>aa_pipe_bytes := aa_pipe_bytes (ag_io ag) + length str\<rparr>\<rparr>)))))))"

section \<open>The event loop\<close>

text \<open>What a read from the socket returns.\<close>

datatype sctp_msg = SCTP_MSG_PAYLOAD byte_array | SCTP_MSG_NOTIFICATION

datatype ('d, 'r) async_event =
    CHECK_STOP_TOKEN_EVENT
  | SCTP_CONNECTION_SHUTDOWN_EVENT
  | SCTP_MSG_ARRIVED_EVENT byte_array
  | INDICATION_EVENT "('d, 'r) ind_event"
  | APERIODIC_INDICATION_EVENT "('d, 'r) aind_event list"
  | PENDING_EVENT pending_event

text \<open>The functions that tell what a descriptor stands for; \<open>None\<close> and \<open>False\<close> are ``not this''.\<close>

definition net_pkt :: "('d, 'r) e2_agent \<Rightarrow> int \<Rightarrow> bool res" where
  "net_pkt ag fd = c_assert (fd > 0) (Inr (fd = ag_fd ag))"

definition aind_event_of ::
  "('d, 'r) e2_agent \<Rightarrow> int \<Rightarrow> (('d, 'r) aind_event list option \<times> ('d, 'r) e2_agent) res" where
  "aind_event_of ag fd =
     (if fd \<noteq> aa_pipe_r (ag_io ag) then Inr (None, ag)
      else let sz = size_tsq (ag_aind ag) in
        c_assert (sz > 0)
         (bind_res (collect_res sz (\<lambda>q. pop_tsq q AIND_EVENT_SZ) (ag_aind ag)) (\<lambda>(arr, q).
           Inr (Some arr, ag\<lparr>ag_aind := q\<rparr>))))"

definition ind_event_of :: "('d, 'r) e2_agent \<Rightarrow> int \<Rightarrow> ('d, 'r) ind_event option res" where
  "ind_event_of ag fd =
     c_assert (fd > 0)
      (bind_res (search (bm_left (ag_ind_event ag)) fd eq_fd) (\<lambda>it.
        if it \<noteq> assoc_rb_tree_end (bm_left (ag_ind_event ag))
        then map_res Some (assoc_rb_tree_value (bm_left (ag_ind_event ag)) it) else Inr None))"

definition pend_event_of :: "('d, 'r) e2_agent \<Rightarrow> int \<Rightarrow> pending_event res" where
  "pend_event_of ag fd =
     c_assert (fd > 0)
      (bind_res (bi_map_size (ag_pending ag)) (\<lambda>sz.
       c_assert (sz = 1)
        (bind_res (search (bm_left (ag_pending ag)) fd eq_fd) (\<lambda>it.
         c_assert (it \<noteq> assoc_rb_tree_end (bm_left (ag_pending ag)))
          (assoc_rb_tree_value (bm_left (ag_pending ag)) it)))))"

text \<open>\<open>fd\<close> is what \<open>epoll_wait\<close> reports, \<open>-1\<close> for nothing within a second; \<open>rcv\<close> is what a read from the socket gives.\<close>

definition next_async_event_agent ::
  "('d, 'r) e2_agent \<Rightarrow> int \<Rightarrow> sctp_msg \<Rightarrow> (('d, 'r) async_event \<times> ('d, 'r) e2_agent) res" where
  "next_async_event_agent ag fd rcv =
     (if fd = -1 then Inr (CHECK_STOP_TOKEN_EVENT, ag)
      else bind_res (net_pkt ag fd) (\<lambda>b.
        if b then (case rcv of
             SCTP_MSG_NOTIFICATION \<Rightarrow> Inr (SCTP_CONNECTION_SHUTDOWN_EVENT, ag)
           | SCTP_MSG_PAYLOAD ba \<Rightarrow> Inr (SCTP_MSG_ARRIVED_EVENT ba, ag))
        else bind_res (aind_event_of ag fd) (\<lambda>(ai, ag). case ai of
             Some arr \<Rightarrow> Inr (APERIODIC_INDICATION_EVENT arr, ag)
           | None \<Rightarrow> bind_res (ind_event_of ag fd) (\<lambda>i_ev. case i_ev of
               Some ev \<Rightarrow> Inr (INDICATION_EVENT ev, ag)
             | None \<Rightarrow> bind_res (pend_event_of ag fd) (\<lambda>p_ev. Inr (PENDING_EVENT p_ev, ag))))))"

text \<open>A read of a timer never blocks; a read from the empty pipe does, until the RAN writes again.\<close>

definition consume_fd_sync :: "int \<Rightarrow> unit res" where
  "consume_fd_sync fd = c_assert (fd > 0) (Inr ())"

definition consume_fd_async :: "asio_agent \<Rightarrow> (nat \<times> asio_agent) res" where
  "consume_fd_async io =
     c_assert (aa_pipe_r io > 0)
      (if aa_pipe_bytes io = 0 then Inl Diverged
       else let bytes = min 4 (aa_pipe_bytes io) in
         Inr (bytes, io\<lparr>aa_pipe_bytes := aa_pipe_bytes io - bytes\<rparr>))"

definition consume_pipe :: "('d, 'r) e2_agent \<Rightarrow> ('d, 'r) e2_agent res" where
  "consume_pipe ag = bind_res (consume_fd_async (ag_io ag)) (\<lambda>(rc, io). c_assert (rc \<noteq> 1) (Inr (ag\<lparr>ag_io := io\<rparr>)))"

definition aperiodic_indication :: "'r \<Rightarrow> ('d, 'r) aind_event \<Rightarrow> ('d, 'r) e2_agent \<Rightarrow> ('d, 'r) e2_agent res" where
  "aperiodic_indication rn ai ag =
     bind_res (sg_on_indication (ae_sm ai) rn (ae_ind_data ai)) (\<lambda>exp. case exp of
       None \<Rightarrow> consume_pipe ag
     | Some data \<Rightarrow>
         bind_res (generate_aindication data ai) (\<lambda>ind.
         bind_res (e2ap_send_bytes_agent ag (ap_enc (ag_ap ag) (RIC_INDICATION ind))) (\<lambda>ag.
         bind_res (consume_pipe ag) (\<lambda>ag. bind_res (e2ap_msg_free (RIC_INDICATION ind)) (\<lambda>_. Inr ag)))))"

text \<open>The action definition of an indication event; the union of an aperiodic one holds a function.\<close>

definition act_def_of :: "('d, 'r) ind_event \<Rightarrow> 'd option res" where
  "act_def_of ev = (case ie_u ev of ACT_DEF ad \<Rightarrow> Inr ad | FREE_SUBS_APERIODIC \<Rightarrow> Inl UseOfNull)"

definition periodic_indication :: "'r \<Rightarrow> int \<Rightarrow> ('d, 'r) ind_event \<Rightarrow> ('d, 'r) e2_agent \<Rightarrow> ('d, 'r) e2_agent res" where
  "periodic_indication rn fd ev ag =
     bind_res (act_def_of ev) (\<lambda>act_def.
     bind_res (sg_on_indication (ie_sm ev) rn act_def) (\<lambda>exp. case exp of
       None \<Rightarrow> bind_res (consume_fd_sync fd) (\<lambda>_. Inr ag)
     | Some data \<Rightarrow>
         bind_res (generate_indication data ev) (\<lambda>ind.
         bind_res (e2ap_send_bytes_agent ag (ap_enc (ag_ap ag) (RIC_INDICATION ind))) (\<lambda>ag.
         bind_res (consume_fd_sync fd) (\<lambda>_. bind_res (e2ap_msg_free (RIC_INDICATION ind)) (\<lambda>_. Inr ag))))))"

definition sctp_msg_arrived_agent ::
  "('d, 'r) e2_agent \<Rightarrow> 'r \<Rightarrow> int \<Rightarrow> byte_array \<Rightarrow> ('d, 'r) e2_agent res" where
  "sctp_msg_arrived_agent ag rn tfd ba =
     (let msg = ap_dec (ag_ap ag) ba in
      bind_res (e2ap_msg_handle_agent ag rn tfd msg) (\<lambda>(ans, ag).
      bind_res (if ans \<noteq> NONE_E2_MSG_TYPE
        then bind_res (e2ap_msg_enc_ag (ag_ap ag) ans) (\<lambda>ba_ans. e2ap_send_bytes_agent ag ba_ans)
        else Inr ag) (\<lambda>ag.
      bind_res (e2ap_msg_free_ag ans) (\<lambda>_. bind_res (e2ap_msg_free_ag msg) (\<lambda>_. Inr ag)))))"

definition resend_setup_request :: "('d, 'r) e2_agent \<Rightarrow> 'r \<Rightarrow> int \<Rightarrow> pending_event \<Rightarrow> ('d, 'r) e2_agent res" where
  "resend_setup_request ag rn fd p_ev =
     c_assert (p_ev = SETUP_REQUEST_PENDING_EVENT)
      (bind_res (gen_setup_request_v2 ag rn) (\<lambda>(sr, ag).
       bind_res (e2ap_send_bytes_agent ag (ap_enc (ag_ap ag) (E2_SETUP_REQUEST sr))) (\<lambda>ag.
       bind_res (consume_fd_sync fd) (\<lambda>_.
       bind_res (e2ap_free_setup_request sr) (\<lambda>_. Inr ag)))))"

definition handle_async_event ::
  "('d, 'r) e2_agent \<Rightarrow> 'r \<Rightarrow> int \<Rightarrow> int \<Rightarrow> ('d, 'r) async_event \<Rightarrow> ('d, 'r) e2_agent res" where
  "handle_async_event ag rn tfd fd e = (case e of
     SCTP_MSG_ARRIVED_EVENT ba \<Rightarrow> sctp_msg_arrived_agent ag rn tfd ba
   | APERIODIC_INDICATION_EVENT arr \<Rightarrow> c_assert (length arr > 0) (fold_res (aperiodic_indication rn) arr ag)
   | INDICATION_EVENT ev \<Rightarrow> periodic_indication rn fd ev ag
   | PENDING_EVENT p_ev \<Rightarrow> resend_setup_request ag rn fd p_ev
   | SCTP_CONNECTION_SHUTDOWN_EVENT \<Rightarrow> notification_handle_ag ag tfd
   | CHECK_STOP_TOKEN_EVENT \<Rightarrow> Inr ag)"

text \<open>One turn of the loop.\<close>

definition e2_event_loop_agent ::
  "('d, 'r) e2_agent \<Rightarrow> 'r \<Rightarrow> int \<Rightarrow> int \<Rightarrow> sctp_msg \<Rightarrow> ('d, 'r) e2_agent res" where
  "e2_event_loop_agent ag rn tfd fd rcv =
     (if ag_stop_token ag then Inr (ag\<lparr>ag_agent_stopped := True\<rparr>)
      else bind_res (next_async_event_agent ag fd rcv) (\<lambda>(e, ag). handle_async_event ag rn tfd fd e))"

section \<open>Release\<close>

text \<open>The functions the two maps release their entries with, and \<open>e2_free_agent\<close> after the loop has ended.\<close>

definition free_ind_event_map ::
  "int option \<times> ('d, 'r) ind_event option \<Rightarrow> ('d, 'r) e2_agent \<Rightarrow> ('d, 'r) e2_agent res" where
  "free_ind_event_map e ag = (case e of (Some key, Some ev) \<Rightarrow> free_act_def_ag ev ag | _ \<Rightarrow> Inl AssertFailed)"

definition free_key :: "('d, 'r) ind_event option \<times> int option \<Rightarrow> unit res" where
  "free_key e = c_assert (fst e \<noteq> None) (c_assert (snd e \<noteq> None) (Inr ()))"

definition free_fd_ag :: "int option \<times> pending_event option \<Rightarrow> unit res" where
  "free_fd_ag e = (case e of (Some fd, Some ev) \<Rightarrow> c_assert (fd > 0) (Inr ()) | _ \<Rightarrow> Inl AssertFailed)"

definition free_pending_ev :: "pending_event option \<times> int option \<Rightarrow> unit res" where
  "free_pending_ev e = (case e of
     (Some ev, Some fd) \<Rightarrow> bind_res (valid_pending_event ev) (\<lambda>b. c_assert b (Inr ())) | _ \<Rightarrow> Inl AssertFailed)"

definition free_pending_agent :: "('d, 'r) e2_agent \<Rightarrow> unit res" where
  "free_pending_agent ag =
     bind_res (bi_map_free (ag_pending ag)) (\<lambda>(xs, ys).
     bind_res (fold_res (\<lambda>e _. free_fd_ag e) xs ()) (\<lambda>_. fold_res (\<lambda>e _. free_pending_ev e) ys ()))"

definition free_indication_event :: "('d, 'r) e2_agent \<Rightarrow> ('d, 'r) e2_agent res" where
  "free_indication_event ag =
     bind_res (bi_map_free (ag_ind_event ag)) (\<lambda>(xs, ys).
     bind_res (fold_res free_ind_event_map xs ag) (\<lambda>ag.
     bind_res (fold_res (\<lambda>e _. free_key e) ys ()) (\<lambda>_. Inr ag)))"

text \<open>
  Before the loop sees the token it may finish a turn; \<open>e2_free_agent\<close> waits for the end of the loop
  (\<open>agent_stopped\<close>), which is the first part here.
\<close>

definition stop_agent :: "('d, 'r) e2_agent \<Rightarrow> ('d, 'r) e2_agent" where
  "stop_agent ag = ag\<lparr>ag_stop_token := True\<rparr>"

definition e2_free_agent :: "('d, 'r) e2_agent \<Rightarrow> ('d, 'r) e2_agent res" where
  "e2_free_agent ag =
     (if \<not> ag_agent_stopped ag then Inl Diverged
      else bind_res (assoc_rb_tree_free (ag_plugin ag)) (\<lambda>_.
        bind_res (free_pending_agent ag) (\<lambda>_.
        bind_res (free_indication_event ag) (\<lambda>ag.
        bind_res (free_tsq (ag_aind ag)) (\<lambda>_. Inr ag)))))"

section \<open>The interface of the RAN\<close>

definition init_ge2ni :: "ngran_node \<Rightarrow> e2ap_plmn \<Rightarrow> int \<Rightarrow> int \<Rightarrow> global_e2_node_id res" where
  "init_ge2ni ran_type plmn nb cu_du =
     (let ge2ni = \<lparr>gn_type = ran_type, gn_plmn = plmn, gn_nb_id = \<lparr>nb_id = word_of_int nb, unused = 0\<rparr>,
        gn_cu_du_id = None\<rparr> in
      if E2AP_NODE_IS_CU ran_type \<or> E2AP_NODE_IS_CUUP ran_type \<or> E2AP_NODE_IS_DU ran_type
      then c_assert (cu_du > 0) (Inr (ge2ni\<lparr>gn_cu_du_id := Some (word_of_int cu_du)\<rparr>))
      else if E2AP_NODE_IS_MONOLITHIC ran_type then Inr ge2ni else Inl AssertFailed)"

text \<open>
  The line that \<open>init_agent_api\<close> prints is put together in an array of 128 characters; \<open>it\<close> is the result
  of the last \<open>sprintf\<close>, the length of what that call wrote.
\<close>

definition init_agent_line :: "string \<Rightarrow> int \<Rightarrow> global_e2_node_id \<Rightarrow> int \<Rightarrow> string res" where
  "init_agent_line ip port ge2ni nb =
     (let str = ''[E2 AGENT]: nearRT-RIC IP Address = '' @ ip @ '', PORT = '' @ show_dec (nat port) @
        '', RAN type = '' @ get_e2ap_ngran_name (gn_type ge2ni) @ '', nb_id = '' @ show_dec (nat nb) in
      in_bounds (length str < 128) (c_assert (length str > 0)
       (let rest = (case gn_cu_du_id ge2ni of
             Some i \<Rightarrow> '', cu_du_id = '' @ show_dec (unat i) @ [char_of (10 :: nat)]
           | None \<Rightarrow> [char_of (10 :: nat)]) in
        in_bounds (length str + length rest < 128)
         (c_assert (length rest > 0) (c_assert (length rest < 128) (Inr (str @ rest)))))))"

text \<open>\<open>agent\<close> is the agent of the process, if there is one.\<close>

definition init_agent_api ::
  "('d, 'r) e2_agent option \<Rightarrow> int \<Rightarrow> int \<Rightarrow> int \<Rightarrow> int \<Rightarrow> int \<Rightarrow> ngran_node \<Rightarrow>
   ('r \<Rightarrow> ngran_node \<Rightarrow> e2ap_node_component_config_add list) \<Rightarrow> string \<Rightarrow> int \<Rightarrow> int \<Rightarrow> int \<Rightarrow> e2ap_ap \<Rightarrow>
   ('d, 'r) sm_agent list \<Rightarrow> ('d, 'r) e2_agent res" where
  "init_agent_api agent c_mcc c_mnc digits nb cu_du ran_type read_setup ip port sock pipe_r ap sms =
     c_assert (agent = None) (c_assert (c_mcc > 0) (c_assert (c_mnc > 0) (c_assert (digits > 0) (c_assert (nb > 0)
      (let plmn = \<lparr>mcc = word_of_int c_mcc, mnc = word_of_int c_mnc, mnc_digit_len = word_of_int digits\<rparr> in
       bind_res (init_ge2ni ran_type plmn nb cu_du) (\<lambda>ge2ni.
       bind_res (init_agent_line ip port ge2ni nb) (\<lambda>_.
         e2_init_agent ip port ge2ni read_setup sock pipe_r ap sms)))))))"

definition async_event_agent_api :: "('d, 'r) e2_agent option \<Rightarrow> u32 \<Rightarrow> 'd option \<Rightarrow> ('d, 'r) e2_agent res" where
  "async_event_agent_api agent rq ind_data =
     (case agent of None \<Rightarrow> Inl AssertFailed | Some ag \<Rightarrow> e2_async_event_agent ag rq ind_data)"

end
