(* ===== verification/Agent_Run.thy ===== *)
theory Agent_Run
  imports E2_Agent
begin

text \<open>
  The E2 agent as a state machine: what each operation does to the subscriptions, the timers and the
  queue, the invariant that ties them together, and what happens on the inputs that the agent does
  not expect.
\<close>

declare bind_res_eq_Inr [simp del]

section \<open>The invariant\<close>

abbreviation subs_ag :: "('d, 'r) e2_agent \<Rightarrow> (int \<times> ('d, 'r) ind_event) set" where
  "subs_ag ag \<equiv> pairs_of (ag_ind_event ag)"

abbreviation pend_ag :: "('d, 'r) e2_agent \<Rightarrow> (int \<times> pending_event) set" where
  "pend_ag ag \<equiv> pairs_of (ag_pending ag)"

abbreviation fds_ag :: "('d, 'r) e2_agent \<Rightarrow> int set" where
  "fds_ag ag \<equiv> set (aa_fds (ag_io ag))"

abbreviation queue_ag :: "('d, 'r) e2_agent \<Rightarrow> ('d, 'r) aind_event list" where
  "queue_ag ag \<equiv> ring_list (ag_aind ag)"

definition plugin_inv :: "(u16, ('d, 'r) sm_agent) rb_tree \<Rightarrow> bool" where
  "plugin_inv T \<longleftrightarrow> rf_inv T \<and> (\<forall>f sm. (f, sm) \<in> snd ` set (rb_items T) \<longrightarrow> sg_info_id sm = f)"

text \<open>
  The descriptors of the event queue are the socket, the pipe, one timer for each periodic
  subscription and one for the setup request. Subscriptions without a timer have descriptor 0. The
  pipe holds at least four bytes for each element of the queue.
\<close>

definition agent_inv :: "('d, 'r) e2_agent \<Rightarrow> bool" where
  "agent_inv ag \<longleftrightarrow>
     inds_inv (ag_ind_event ag) \<and> apend_inv (ag_pending ag) \<and> tsq_inv AIND_EVENT_SZ (ag_aind ag) \<and>
     plugin_inv (ag_plugin ag) \<and>
     distinct (aa_fds (ag_io ag)) \<and> (\<forall>fd \<in> fds_ag ag. fd > 0) \<and>
     fds_ag ag = {ag_fd ag, aa_pipe_r (ag_io ag)} \<union> (fst ` subs_ag ag - {0}) \<union> fst ` pend_ag ag \<and>
     ag_fd ag \<noteq> aa_pipe_r (ag_io ag) \<and>
     {ag_fd ag, aa_pipe_r (ag_io ag)} \<inter> (fst ` subs_ag ag \<union> fst ` pend_ag ag) = {} \<and>
     fst ` subs_ag ag \<inter> fst ` pend_ag ag = {} \<and>
     snd ` pend_ag ag \<subseteq> {SETUP_REQUEST_PENDING_EVENT} \<and>
     (\<forall>(fd, ev) \<in> subs_ag ag. (fd = 0 \<longleftrightarrow> ie_u ev = FREE_SUBS_APERIODIC) \<and>
        (fd = 0 \<longrightarrow> \<not> sg_frees_act_def (ie_sm ev))) \<and>
     4 * length (queue_ag ag) \<le> aa_pipe_bytes (ag_io ag)"

lemma agent_invD:
  assumes "agent_inv ag"
  shows "inds_inv (ag_ind_event ag)" "apend_inv (ag_pending ag)" "tsq_inv AIND_EVENT_SZ (ag_aind ag)"
    "plugin_inv (ag_plugin ag)" "distinct (aa_fds (ag_io ag))" "\<forall>fd \<in> fds_ag ag. fd > 0"
    "fds_ag ag = {ag_fd ag, aa_pipe_r (ag_io ag)} \<union> (fst ` subs_ag ag - {0}) \<union> fst ` pend_ag ag"
    "ag_fd ag \<noteq> aa_pipe_r (ag_io ag)"
    "{ag_fd ag, aa_pipe_r (ag_io ag)} \<inter> (fst ` subs_ag ag \<union> fst ` pend_ag ag) = {}"
    "fst ` subs_ag ag \<inter> fst ` pend_ag ag = {}" "snd ` pend_ag ag \<subseteq> {SETUP_REQUEST_PENDING_EVENT}"
    "\<forall>(fd, ev) \<in> subs_ag ag. (fd = 0 \<longleftrightarrow> ie_u ev = FREE_SUBS_APERIODIC) \<and> (fd = 0 \<longrightarrow> \<not> sg_frees_act_def (ie_sm ev))"
    "4 * length (queue_ag ag) \<le> aa_pipe_bytes (ag_io ag)"
  using assms by (auto simp: agent_inv_def)

lemma agent_inv_pos: "agent_inv ag \<Longrightarrow> ag_fd ag > 0" "agent_inv ag \<Longrightarrow> aa_pipe_r (ag_io ag) > 0"
  by (auto simp: agent_inv_def)

text \<open>What is not mentioned by the invariant.\<close>

lemma agent_inv_frame:
  assumes "agent_inv ag" "ag_ind_event ag' = ag_ind_event ag" "ag_pending ag' = ag_pending ag" "ag_aind ag' = ag_aind ag"
    "ag_plugin ag' = ag_plugin ag" "ag_io ag' = ag_io ag" "ag_fd ag' = ag_fd ag"
  shows "agent_inv ag'"
  using assms by (simp add: agent_inv_def)

definition fresh_ag :: "('d, 'r) e2_agent \<Rightarrow> int \<Rightarrow> bool" where
  "fresh_ag ag fd \<longleftrightarrow> fd > 0 \<and> fd \<notin> fds_ag ag"

lemma fresh_agD:
  assumes "agent_inv ag" "fresh_ag ag fd"
  shows "fd > 0" "fd \<notin> fds_ag ag" "fd \<notin> fst ` subs_ag ag" "fd \<notin> fst ` pend_ag ag" "fd \<noteq> ag_fd ag"
    "fd \<noteq> aa_pipe_r (ag_io ag)"
  using assms by (auto simp: agent_inv_def fresh_ag_def)

section \<open>The event queue\<close>

lemma agent_timer:
  assumes "-1 < ms" "fd > 0" "fd \<notin> set (aa_fds io)"
  shows "create_timer_ms_asio_agent io fd ms ms =
    Inr (io\<lparr>aa_fds := fd # aa_fds io, aa_timers := (aa_timers io)(fd \<mapsto> ms_timer ms)\<rparr>)"
  using assms by (simp add: create_timer_ms_asio_agent_def add_fd_asio_agent_def Let_def ms_timer_def)

section \<open>Service models\<close>

lemma rf_map_item: "rf_map T f = Some sm \<Longrightarrow> (f, sm) \<in> snd ` set (rb_items T)"
  by (force simp: rf_map_def dest!: map_of_SomeD)

lemma sm_plugin_ag_ok:
  assumes "plugin_inv T" "rf_map T f = Some sm" "f \<noteq> 0"
  shows "sm_plugin_ag T f = Inr sm"
proof -
  have "rf_inv T" "sg_info_id sm = f" using assms(1) rf_map_item [OF assms(2)] by (simp_all add: plugin_inv_def)
  with search_ran_func [of T f] assms(2,3) show ?thesis by (auto simp: sm_plugin_ag_def word_gt_0)
qed

lemma sm_plugin_ag_unknown:
  assumes "plugin_inv T" "rf_map T f = None"
  shows "sm_plugin_ag T f = Inl AssertFailed"
proof -
  have "rf_inv T" using assms(1) by (simp add: plugin_inv_def)
  with search_ran_func [of T f] assms(2) show ?thesis by (cases "f > 0") (auto simp: sm_plugin_ag_def)
qed

lemma sm_plugin_ag_iff:
  assumes "plugin_inv T"
  shows "sm_plugin_ag T f = (if f = 0 then Inl AssertFailed else case rf_map T f of None \<Rightarrow> Inl AssertFailed | Some sm \<Rightarrow> Inr sm)"
  using sm_plugin_ag_ok [OF assms, of f] sm_plugin_ag_unknown [OF assms, of f]
  by (cases "f = 0"; cases "rf_map T f") (simp_all add: sm_plugin_ag_def)

text \<open>Registration of the models that were found, later ones behind earlier ones of the same number.\<close>

lemma register_plugin_ok:
  assumes T: "plugin_inv T" "t_key_sz T = 2"
  shows "\<exists>T'. register_plugin_ag T sm = Inr T' \<and> plugin_inv T' \<and> t_key_sz T' = 2 \<and>
    snd ` set (rb_items T') = insert (sg_info_id sm, sm) (snd ` set (rb_items T))"
proof -
  obtain T' where T': "assoc_rb_tree_insert T (sg_info_id sm) 2 sm = Inr T'" "rf_inv T'"
    "rb_items T' = sorted_insert (\<lambda>f. [uint f]) (t_brk T, sg_info_id sm, sm) (rb_items T)" "t_key_sz T' = t_key_sz T"
    using ran_func.rb_insert_ok [of T 2 "sg_info_id sm" sm] T by (auto simp: plugin_inv_def)
  have "snd ` set (rb_items T') = insert (sg_info_id sm, sm) (snd ` set (rb_items T))"
    by (simp add: T'(3) set_sorted_insert)
  then show ?thesis using T T'(1,2,4) by (auto simp: register_plugin_ag_def plugin_inv_def)
qed

lemma register_all_ok:
  assumes "plugin_inv T" "t_key_sz T = 2"
  shows "\<exists>T'. fold_res (\<lambda>sm t. register_plugin_ag t sm) sms T = Inr T' \<and> plugin_inv T' \<and>
    snd ` set (rb_items T') = (\<lambda>sm. (sg_info_id sm, sm)) ` set sms \<union> snd ` set (rb_items T)"
  using assms
proof (induction sms arbitrary: T)
  case (Cons sm sms)
  obtain T1 where "register_plugin_ag T sm = Inr T1" "plugin_inv T1" "t_key_sz T1 = 2"
    "snd ` set (rb_items T1) = insert (sg_info_id sm, sm) (snd ` set (rb_items T))"
    using register_plugin_ok [OF Cons.prems] by blast
  then show ?case using Cons.IH [of T1] by auto
qed simp

lemma init_plugin_ok:
  fixes sms :: "('d, 'r) sm_agent list"
  shows "\<exists>T. init_plugin_ag sms = Inr T \<and> plugin_inv T \<and> snd ` set (rb_items T) = (\<lambda>sm. (sg_info_id sm, sm)) ` set sms"
proof -
  obtain T :: "(u16, ('d, 'r) sm_agent) rb_tree" where T: "assoc_rb_tree_init 2 cmp_ran_func_id = Inr T" "rf_inv T"
    "rb_items T = []" "t_key_sz T = 2"
    using rb_init_ok [of 2 cmp_ran_func_id "\<lambda>_. True" "\<lambda>f. [uint f]"] by auto
  then have "plugin_inv T" by (simp add: plugin_inv_def)
  from register_all_ok [OF this T(4), of sms] T show ?thesis by (auto simp: init_plugin_ag_def)
qed

lemma rf_map_None: "rf_map T f = None \<longleftrightarrow> f \<notin> fst ` snd ` set (rb_items T)"
  by (auto simp: rf_map_def map_of_eq_None_iff image_image)

section \<open>Initialisation\<close>

lemma e2_init_agent_ok:
  fixes sms :: "('d, 'r) sm_agent list"
  assumes "0 < sock" "0 < pipe_r" "sock \<noteq> pipe_r" "0 < port" "port < 65535" "length ip < 16"
  shows "\<exists>ag. e2_init_agent ip port i rs sock pipe_r ap sms = Inr ag \<and> agent_inv ag \<and> subs_ag ag = {} \<and> pend_ag ag = {} \<and>
    queue_ag ag = [] \<and> ag_sent ag = [] \<and> ag_ap ag = ap \<and> ag_trans_id ag = 0 \<and> \<not> ag_stop_token ag \<and> ag_fd ag = sock \<and>
    ag_id ag = i \<and> ag_read_setup_ran ag = rs \<and> aa_pipe_r (ag_io ag) = pipe_r \<and> fds_ag ag = {sock, pipe_r} \<and>
    snd ` set (rb_items (ag_plugin ag)) = (\<lambda>sm. (sg_info_id sm, sm)) ` set sms"
proof -
  obtain T where T: "init_plugin_ag sms = Inr T" "plugin_inv T"
    "snd ` set (rb_items T) = (\<lambda>sm. (sg_info_id sm, sm)) ` set sms"
    using init_plugin_ok [of sms] by auto
  obtain p where p: "bi_map_init 4 PENDING_EVENT_SZ cmp_fd cmp_pending True = Inr p" "apend_inv p" "pairs_of p = {}"
    using apend_init by blast
  obtain m :: "(int, ('d, 'r) ind_event) bi_map" where m: "bi_map_init 4 IND_EVENT_SZ cmp_fd cmp_ind_event True = Inr m"
    "inds_inv m" "pairs_of m = {}"
    using inds_init by blast
  have q: "tsq_inv AIND_EVENT_SZ (seq_ring_init AIND_EVENT_SZ)" "ring_list (seq_ring_init AIND_EVENT_SZ) = []"
    by (simp_all add: tsq_inv_def seq_ring_init_inv AIND_EVENT_SZ_def) (simp add: seq_ring_init_def)
  show ?thesis
    using assms T p m q
    by (auto simp: e2_init_agent_def init_asio_agent_def add_fd_asio_agent_def init_tsq_def AIND_EVENT_SZ_def agent_inv_def)
qed


section \<open>Subscriptions\<close>

text \<open>A request that the agent takes: the model and its answer.\<close>

definition agent_accepts ::
  "('d, 'r) e2_agent \<Rightarrow> 'r \<Rightarrow> ric_subscription_request \<Rightarrow> ('d, 'r) sm_agent \<Rightarrow> 'd subs_ans \<Rightarrow> bool" where
  "agent_accepts ag rn sr sm subs \<longleftrightarrow>
     (\<exists>a. sr_action sr = [a] \<and> ra_type a = RIC_ACT_REPORT) \<and> ran_func_id (sr_ric_id sr) \<noteq> 0 \<and>
     rf_map (ag_plugin ag) (ran_func_id (sr_ric_id sr)) = Some sm \<and>
     sg_on_subscription sm rn (generate_sm_subs_data sr) = Inr subs"

definition new_ind_event ::
  "ric_subscription_request \<Rightarrow> ('d, 'r) sm_agent \<Rightarrow> 'd ind_event_u \<Rightarrow> ('d, 'r) ind_event" where
  "new_ind_event sr sm u = \<lparr>ie_ric_id = sr_ric_id sr, ie_sm = sm, ie_action_id = ra_id (hd (sr_action sr)), ie_u = u\<rparr>"

lemma new_ind_event_simps [simp]:
  "ie_ric_id (new_ind_event sr sm u) = sr_ric_id sr" "ie_sm (new_ind_event sr sm u) = sm"
  "ie_action_id (new_ind_event sr sm u) = ra_id (hd (sr_action sr))" "ie_u (new_ind_event sr sm u) = u"
  by (simp_all add: new_ind_event_def)

abbreviation sub_answer :: "ric_subscription_request \<Rightarrow> e2ap_msg" where
  "sub_answer sr \<equiv>
     RIC_SUBSCRIPTION_RESPONSE (generate_subscription_response (sr_ric_id sr) (ra_id (hd (sr_action sr))))"

lemma supported_iff:
  "supported_ric_subscription_request sr =
    (if \<exists>a. sr_action sr = [a] \<and> ra_type a = RIC_ACT_REPORT then Inr True else Inl AssertFailed)"
  by (auto simp: supported_ric_subscription_request_def c_assert_def length_Suc_conv)

lemma subscribe_accepted:
  assumes "agent_inv ag" "agent_accepts ag rn sr sm subs"
  shows "e2ap_handle_subscription_request_agent ag rn tfd sr =
    bind_res (case subs of
        SUBS_PERIODIC ms ad \<Rightarrow>
          c_assert (ms < 10001)
           (bind_res (create_timer_ms_asio_agent (ag_io ag) tfd ms ms) (\<lambda>io.
            bind_res (bi_map_insert (ag_ind_event ag) tfd 4 (new_ind_event sr sm (ACT_DEF ad)) IND_EVENT_SZ) (\<lambda>ind.
              Inr (ag\<lparr>ag_io := io, ag_ind_event := ind\<rparr>))))
      | SUBS_APERIODIC \<Rightarrow>
          bind_res (bi_map_insert (ag_ind_event ag) 0 4 (new_ind_event sr sm FREE_SUBS_APERIODIC) IND_EVENT_SZ) (\<lambda>ind.
            Inr (ag\<lparr>ag_ind_event := ind\<rparr>))) (\<lambda>ag. Inr (sub_answer sr, ag))"
proof -
  have "plugin_inv (ag_plugin ag)" using assms(1) by (rule agent_invD)
  from sm_plugin_ag_ok [OF this, of "ran_func_id (sr_ric_id sr)" sm] assms(2) show ?thesis
    by (cases subs)
      (simp_all add: e2ap_handle_subscription_request_agent_def agent_accepts_def supported_iff Let_def new_ind_event_def)
qed

lemma subscribe_periodic_ok:
  assumes inv: "agent_inv ag" and acc: "agent_accepts ag rn sr sm (SUBS_PERIODIC ms ad)" and ms: "-1 < ms" "ms < 10001"
    and fd: "fresh_ag ag tfd" and new: "sr_ric_id sr \<notin> ie_ric_id ` snd ` subs_ag ag"
  shows "\<exists>ag'. e2ap_handle_subscription_request_agent ag rn tfd sr = Inr (sub_answer sr, ag') \<and> agent_inv ag' \<and>
    subs_ag ag' = insert (tfd, new_ind_event sr sm (ACT_DEF ad)) (subs_ag ag) \<and>
    (\<exists>m. ag' = ag\<lparr>ag_io := (ag_io ag)\<lparr>aa_fds := tfd # aa_fds (ag_io ag),
        aa_timers := (aa_timers (ag_io ag))(tfd \<mapsto> ms_timer ms)\<rparr>, ag_ind_event := m\<rparr>)"
proof -
  note f = fresh_agD [OF inv fd] and i = agent_invD [OF inv]
  obtain m where m: "bi_map_insert (ag_ind_event ag) tfd 4 (new_ind_event sr sm (ACT_DEF ad)) IND_EVENT_SZ = Inr m"
    "inds_inv m" "pairs_of m = insert (tfd, new_ind_event sr sm (ACT_DEF ad)) (subs_ag ag)"
    using inds_insert [OF i(1), of tfd "new_ind_event sr sm (ACT_DEF ad)"] f(1,3) new by auto
  let ?ag = "ag\<lparr>ag_io := (ag_io ag)\<lparr>aa_fds := tfd # aa_fds (ag_io ag),
        aa_timers := (aa_timers (ag_io ag))(tfd \<mapsto> ms_timer ms)\<rparr>, ag_ind_event := m\<rparr>"
  have "e2ap_handle_subscription_request_agent ag rn tfd sr = Inr (sub_answer sr, ?ag)"
    using subscribe_accepted [OF inv acc, of tfd] agent_timer [OF ms(1) f(1,2)] m(1) ms(2) by simp
  moreover have "agent_inv ?ag"
    unfolding agent_inv_def using i f m by (simp add: insert_commute Un_insert_left insert_Diff_if)
  ultimately show ?thesis using m(3) by auto
qed

text \<open>A subscription without a period; there is room for one.\<close>

lemma subscribe_aperiodic_ok:
  assumes inv: "agent_inv ag" and acc: "agent_accepts ag rn sr sm SUBS_APERIODIC" and free: "\<not> sg_frees_act_def sm"
    and one: "0 \<notin> fst ` subs_ag ag" and new: "sr_ric_id sr \<notin> ie_ric_id ` snd ` subs_ag ag"
  shows "\<exists>ag'. e2ap_handle_subscription_request_agent ag rn tfd sr = Inr (sub_answer sr, ag') \<and> agent_inv ag' \<and>
    subs_ag ag' = insert (0, new_ind_event sr sm FREE_SUBS_APERIODIC) (subs_ag ag) \<and>
    (\<exists>m. ag' = ag\<lparr>ag_ind_event := m\<rparr>)"
proof -
  note i = agent_invD [OF inv]
  obtain m where m: "bi_map_insert (ag_ind_event ag) 0 4 (new_ind_event sr sm FREE_SUBS_APERIODIC) IND_EVENT_SZ = Inr m"
    "inds_inv m" "pairs_of m = insert (0, new_ind_event sr sm FREE_SUBS_APERIODIC) (subs_ag ag)"
    using inds_insert [OF i(1), of 0 "new_ind_event sr sm FREE_SUBS_APERIODIC"] one new by auto
  have "0 \<notin> fst ` pend_ag ag" "ag_fd ag \<noteq> 0" "aa_pipe_r (ag_io ag) \<noteq> 0"
    using i(6,7) by auto
  then have "agent_inv (ag\<lparr>ag_ind_event := m\<rparr>)"
    unfolding agent_inv_def using i m free by (simp add: insert_Diff_if)
  moreover have "e2ap_handle_subscription_request_agent ag rn tfd sr = Inr (sub_answer sr, ag\<lparr>ag_ind_event := m\<rparr>)"
    using subscribe_accepted [OF inv acc, of tfd] m(1) by simp
  ultimately show ?thesis using m(3) by auto
qed


section \<open>End of a subscription\<close>

text \<open>What is left after the subscription \<open>ev\<close> with descriptor \<open>fd\<close>.\<close>

definition unsubscribed :: "int \<Rightarrow> ('d, 'r) ind_event \<Rightarrow> (int, ('d, 'r) ind_event) bi_map \<Rightarrow>
    ('d, 'r) e2_agent \<Rightarrow> ('d, 'r) e2_agent" where
  "unsubscribed fd ev m ag = ag\<lparr>
     ag_io := (if fd = 0 then ag_io ag
       else (ag_io ag)\<lparr>aa_fds := remove1 fd (aa_fds (ag_io ag)), aa_timers := (aa_timers (ag_io ag))(fd := None)\<rparr>),
     ag_ind_event := m,
     ag_freed := ag_freed ag @ (case ie_u ev of ACT_DEF ad \<Rightarrow> if sg_frees_act_def (ie_sm ev) then [ad] else [] | _ \<Rightarrow> []),
     ag_unsubscribed := ag_unsubscribed ag @ (if fd = 0 then [ric_req_id (ie_ric_id ev)] else [])\<rparr>"

lemma unsubscribed_simps [simp]:
  "ag_ind_event (unsubscribed fd ev m ag) = m" "ag_pending (unsubscribed fd ev m ag) = ag_pending ag"
  "ag_aind (unsubscribed fd ev m ag) = ag_aind ag" "ag_plugin (unsubscribed fd ev m ag) = ag_plugin ag"
  "ag_fd (unsubscribed fd ev m ag) = ag_fd ag" "ag_sent (unsubscribed fd ev m ag) = ag_sent ag"
  "ag_ap (unsubscribed fd ev m ag) = ag_ap ag" "ag_stop_token (unsubscribed fd ev m ag) = ag_stop_token ag"
  "ag_trans_id (unsubscribed fd ev m ag) = ag_trans_id ag"
  "ag_read_setup_ran (unsubscribed fd ev m ag) = ag_read_setup_ran ag"
  "ag_id (unsubscribed fd ev m ag) = ag_id ag"
  "aa_pipe_r (ag_io (unsubscribed fd ev m ag)) = aa_pipe_r (ag_io ag)"
  "aa_pipe_bytes (ag_io (unsubscribed fd ev m ag)) = aa_pipe_bytes (ag_io ag)"
  "aa_fds (ag_io (unsubscribed fd ev m ag)) = (if fd = 0 then aa_fds (ag_io ag) else remove1 fd (aa_fds (ag_io ag)))"
  by (simp_all add: unsubscribed_def)

lemma free_act_def_ok:
  assumes "agent_inv ag" "(fd, ev) \<in> subs_ag ag"
  shows "free_act_def_ag ev ag' = Inr (ag'\<lparr>ag_freed := ag_freed ag' @
    (case ie_u ev of ACT_DEF ad \<Rightarrow> if sg_frees_act_def (ie_sm ev) then [ad] else [] | _ \<Rightarrow> [])\<rparr>)"
proof -
  have "ie_u ev = FREE_SUBS_APERIODIC \<longrightarrow> \<not> sg_frees_act_def (ie_sm ev)"
    using agent_invD(12) [OF assms(1)] assms(2) by auto
  then show ?thesis by (cases "ie_u ev") (auto simp: free_act_def_ag_def)
qed

lemma subs_fd:
  assumes "agent_inv ag" "(fd, ev) \<in> subs_ag ag"
  shows "fd > -1" "fd \<noteq> 0 \<Longrightarrow> fd \<in> fds_ag ag" "fd \<notin> fst ` pend_ag ag" "fd \<noteq> ag_fd ag" "fd \<noteq> aa_pipe_r (ag_io ag)"
    "fd = 0 \<longleftrightarrow> ie_u ev = FREE_SUBS_APERIODIC" "fst ` (subs_ag ag - {(fd, ev)}) = fst ` subs_ag ag - {fd}"
proof -
  note i = agent_invD [OF assms(1)]
  show "fd > -1" using inds_fd [OF i(1) assms(2)] .
  show "fst ` (subs_ag ag - {(fd, ev)}) = fst ` subs_ag ag - {fd}"
    using inds_unique(1) [OF i(1) assms(2)] assms(2) by force
  have "fd \<in> fst ` subs_ag ag" using assms(2) by force
  then show "fd \<noteq> 0 \<Longrightarrow> fd \<in> fds_ag ag" "fd \<notin> fst ` pend_ag ag" "fd \<noteq> ag_fd ag" "fd \<noteq> aa_pipe_r (ag_io ag)"
    using i(7,9,10) by blast+
  show "fd = 0 \<longleftrightarrow> ie_u ev = FREE_SUBS_APERIODIC" using i(12) assms(2) by auto
qed

lemma unsubscribed_inv:
  assumes inv: "agent_inv ag" and p: "(fd, ev) \<in> subs_ag ag" and m: "inds_inv m" "pairs_of m = subs_ag ag - {(fd, ev)}"
  shows "agent_inv (unsubscribed fd ev m ag)"
proof -
  note i = agent_invD [OF inv] and s = subs_fd [OF inv p]
  have fds: "set (aa_fds (ag_io (unsubscribed fd ev m ag))) = fds_ag ag - {fd} \<union> ({0} \<inter> {fd} \<inter> fds_ag ag)"
    using i(5) by auto
  show ?thesis
    unfolding agent_inv_def fds unsubscribed_simps m(2) s(7)
    using i m(1) s(3-5) by (auto simp: distinct_remove1)
qed

lemma stop_ind_event_ok:
  assumes inv: "agent_inv ag" and p: "(fd, ev) \<in> subs_ag ag"
  shows "\<exists>m. stop_ind_event ag (ie_ric_id ev) = Inr (True, unsubscribed fd ev m ag) \<and>
    agent_inv (unsubscribed fd ev m ag) \<and> pairs_of m = subs_ag ag - {(fd, ev)}"
proof -
  note i = agent_invD [OF inv] and s = subs_fd [OF inv p]
  obtain it where it: "search (bm_right (ag_ind_event ag)) (ie_ric_id ev) eq_ind_event = Inr it"
    "it \<noteq> assoc_rb_tree_end (bm_right (ag_ind_event ag))"
    "assoc_rb_tree_key (bm_right (ag_ind_event ag)) it = Inr ev"
  proof -
    obtain it where it: "search (bm_right (ag_ind_event ag)) (ie_ric_id ev) eq_ind_event = Inr it"
      "if it = assoc_rb_tree_end (bm_right (ag_ind_event ag)) then ie_ric_id ev \<notin> ie_ric_id ` snd ` subs_ag ag
       else \<exists>fd' ev'. (fd', ev') \<in> subs_ag ag \<and> ie_ric_id ev' = ie_ric_id ev \<and>
         assoc_rb_tree_key (bm_right (ag_ind_event ag)) it = Inr ev'"
      using inds_by_id [OF i(1), of "ie_ric_id ev"] by blast
    have "ie_ric_id ev \<in> ie_ric_id ` snd ` subs_ag ag" using p by force
    then obtain fd' ev' where e: "(fd', ev') \<in> subs_ag ag" "ie_ric_id ev' = ie_ric_id ev"
      "assoc_rb_tree_key (bm_right (ag_ind_event ag)) it = Inr ev'" "it \<noteq> assoc_rb_tree_end (bm_right (ag_ind_event ag))"
      using it(2) by (auto split: if_splits)
    have "ev' = ev" using inds_unique(2) [OF i(1) e(1) p] e(2) by simp
    with it(1) e show ?thesis by (intro that [of it]) simp_all
  qed
  obtain m where m: "bi_map_extract_right (ag_ind_event ag) ev IND_EVENT_SZ = Inr (fd, m)" "inds_inv m"
    "pairs_of m = subs_ag ag - {(fd, ev)}"
    using inds_extract [OF i(1) p refl] by blast
  have "stop_ind_event ag (ie_ric_id ev) = Inr (True, unsubscribed fd ev m ag)"
    using it m(1) s(1,2,6) free_act_def_ok [OF inv p, of ag]
    by (cases "fd = 0") (simp_all add: stop_ind_event_def Let_def not_aperiodic_ind_event_def rm_fd_asio_agent_def unsubscribed_def)
  then show ?thesis using unsubscribed_inv [OF inv p m(2,3)] m(3) by blast
qed

lemma stop_ind_event_missing:
  assumes inv: "agent_inv ag" and p: "i \<notin> ie_ric_id ` snd ` subs_ag ag"
  shows "stop_ind_event ag i = Inr (False, ag)"
  using inds_by_id [OF agent_invD(1) [OF inv], of i] p
  by (auto simp: stop_ind_event_def image_iff split: if_splits)

lemma delete_request_ok:
  assumes inv: "agent_inv ag"
  shows "\<exists>ag'. e2ap_handle_subscription_delete_request_agent ag sdr =
      Inr (RIC_SUBSCRIPTION_DELETE_RESPONSE \<lparr>dp_ric_id = sd_ric_id sdr\<rparr>, ag') \<and> agent_inv ag' \<and> ag_sent ag' = ag_sent ag \<and>
    ag_ap ag' = ag_ap ag"
proof (cases "sd_ric_id sdr \<in> ie_ric_id ` snd ` subs_ag ag")
  case True
  then obtain fd ev where "(fd, ev) \<in> subs_ag ag" "ie_ric_id ev = sd_ric_id sdr" by force
  with stop_ind_event_ok [OF inv, of fd ev] show ?thesis
    by (auto simp: e2ap_handle_subscription_delete_request_agent_def)
next
  case False
  then show ?thesis using stop_ind_event_missing [OF inv] inv
    by (auto simp: e2ap_handle_subscription_delete_request_agent_def)
qed


section \<open>The setup procedure\<close>

lemma pend_cases:
  assumes "agent_inv ag"
  obtains "pend_ag ag = {}" | fd where "pend_ag ag = {(fd, SETUP_REQUEST_PENDING_EVENT)}" "fd > 0" "fd \<in> fds_ag ag"
proof (cases "pend_ag ag = {}")
  case False
  note i = agent_invD [OF assms]
  have e: "e = SETUP_REQUEST_PENDING_EVENT" if "(fd, e) \<in> pend_ag ag" for fd e using i(11) that by auto
  obtain fd e where "(fd, e) \<in> pend_ag ag" using False by auto
  with e have fd: "(fd, SETUP_REQUEST_PENDING_EVENT) \<in> pend_ag ag" by metis
  have u: "x = (fd, SETUP_REQUEST_PENDING_EVENT)" if x: "x \<in> pend_ag ag" for x
  proof (cases x)
    case (Pair fd' e')
    then have "e' = SETUP_REQUEST_PENDING_EVENT" using e x by metis
    then show ?thesis using apend_unique [OF i(2), of fd' e' fd] x Pair fd by simp
  qed
  have "pend_ag ag = {(fd, SETUP_REQUEST_PENDING_EVENT)}"
  proof (intro equalityI subsetI)
    show "x \<in> {(fd, SETUP_REQUEST_PENDING_EVENT)}" if "x \<in> pend_ag ag" for x using u [OF that] by simp
    show "x \<in> pend_ag ag" if "x \<in> {(fd, SETUP_REQUEST_PENDING_EVENT)}" for x using that fd by simp
  qed
  moreover have "fd \<in> fst ` pend_ag ag" using image_eqI [OF _ fd, of fd fst] by simp
  then have "fd \<in> fds_ag ag" using i(7) by blast
  ultimately show ?thesis using i(6) that(2) by blast
qed (rule that(1))

lemma start_setup_pending_ok:
  assumes inv: "agent_inv ag" and none: "pend_ag ag = {}" and fd: "fresh_ag ag tfd"
  shows "\<exists>p. start_setup_pending ag tfd = Inr (ag\<lparr>ag_io := (ag_io ag)\<lparr>aa_fds := tfd # aa_fds (ag_io ag),
        aa_timers := (aa_timers (ag_io ag))(tfd \<mapsto> ms_timer 3000)\<rparr>, ag_pending := p\<rparr>) \<and>
    agent_inv (ag\<lparr>ag_io := (ag_io ag)\<lparr>aa_fds := tfd # aa_fds (ag_io ag),
        aa_timers := (aa_timers (ag_io ag))(tfd \<mapsto> ms_timer 3000)\<rparr>, ag_pending := p\<rparr>) \<and>
    pairs_of p = {(tfd, SETUP_REQUEST_PENDING_EVENT)}"
proof -
  note f = fresh_agD [OF inv fd] and i = agent_invD [OF inv]
  obtain p where p: "bi_map_insert (ag_pending ag) tfd 4 SETUP_REQUEST_PENDING_EVENT PENDING_EVENT_SZ = Inr p"
    "apend_inv p" "pairs_of p = {(tfd, SETUP_REQUEST_PENDING_EVENT)}"
    using apend_insert [OF i(2), of tfd SETUP_REQUEST_PENDING_EVENT] f(1) none by auto
  have "agent_inv (ag\<lparr>ag_io := (ag_io ag)\<lparr>aa_fds := tfd # aa_fds (ag_io ag),
        aa_timers := (aa_timers (ag_io ag))(tfd \<mapsto> ms_timer 3000)\<rparr>, ag_pending := p\<rparr>)"
    unfolding agent_inv_def using i f p none by (simp add: insert_commute)
  moreover have "create_timer_ms_asio_agent (ag_io ag) tfd 3000 3000 = Inr ((ag_io ag)\<lparr>aa_fds := tfd # aa_fds (ag_io ag),
        aa_timers := (aa_timers (ag_io ag))(tfd \<mapsto> ms_timer 3000)\<rparr>)"
    using f by (intro agent_timer) simp_all
  ultimately show ?thesis using p by (intro exI [of _ p]) (simp add: start_setup_pending_def Let_def)
qed

lemma setup_answered_ok:
  assumes inv: "agent_inv ag" and p: "pend_ag ag = {(fd, SETUP_REQUEST_PENDING_EVENT)}" and t: "ag_trans_id ag > 0"
  shows "\<exists>p. e2ap_handle_setup_response_agent ag resp = Inr (NONE_E2_MSG_TYPE,
      ag\<lparr>ag_io := (ag_io ag)\<lparr>aa_fds := remove1 fd (aa_fds (ag_io ag)), aa_timers := (aa_timers (ag_io ag))(fd := None)\<rparr>,
         ag_pending := p, ag_trans_id := 0\<rparr>) \<and>
    agent_inv (ag\<lparr>ag_io := (ag_io ag)\<lparr>aa_fds := remove1 fd (aa_fds (ag_io ag)),
         aa_timers := (aa_timers (ag_io ag))(fd := None)\<rparr>, ag_pending := p, ag_trans_id := 0\<rparr>) \<and> pairs_of p = {}"
proof -
  note i = agent_invD [OF inv]
  obtain q where q: "bi_map_extract_right (ag_pending ag) SETUP_REQUEST_PENDING_EVENT PENDING_EVENT_SZ = Inr (fd, q)"
    "apend_inv q" "pairs_of q = {}"
    using apend_extract [OF i(2), of fd SETUP_REQUEST_PENDING_EVENT] p by auto
  have fd: "fd \<in> fds_ag ag" "fd > 0" "fd \<notin> fst ` subs_ag ag" "fd \<noteq> ag_fd ag" "fd \<noteq> aa_pipe_r (ag_io ag)"
    using i(6,7,9,10) p by auto
  have "agent_inv (ag\<lparr>ag_io := (ag_io ag)\<lparr>aa_fds := remove1 fd (aa_fds (ag_io ag)),
         aa_timers := (aa_timers (ag_io ag))(fd := None)\<rparr>, ag_pending := q, ag_trans_id := 0\<rparr>)"
    unfolding agent_inv_def using i fd p q by (auto simp: distinct_remove1)
  then show ?thesis
    using q fd t
    by (intro exI [of _ q]) (simp add: e2ap_handle_setup_response_agent_def stop_pending_event_ag_def rm_fd_asio_agent_def)
qed

lemma setup_response_unsolicited:
  assumes "agent_inv ag" "pend_ag ag = {} \<or> ag_trans_id ag = 0"
  shows "e2ap_handle_setup_response_agent ag resp = Inl AssertFailed"
proof (rule pend_cases [OF assms(1)])
  assume "pend_ag ag = {}"
  then show ?thesis
    using apend_extract_missing [OF agent_invD(2) [OF assms(1)], of SETUP_REQUEST_PENDING_EVENT]
    by (simp add: e2ap_handle_setup_response_agent_def stop_pending_event_ag_def)
next
  fix fd assume p: "pend_ag ag = {(fd, SETUP_REQUEST_PENDING_EVENT)}" "fd > 0" "fd \<in> fds_ag ag"
  then obtain q where "bi_map_extract_right (ag_pending ag) SETUP_REQUEST_PENDING_EVENT PENDING_EVENT_SZ = Inr (fd, q)"
    using apend_extract [OF agent_invD(2) [OF assms(1)], of fd SETUP_REQUEST_PENDING_EVENT] by auto
  then show ?thesis
    using p assms(2) by (simp add: e2ap_handle_setup_response_agent_def stop_pending_event_ag_def rm_fd_asio_agent_def)
qed

text \<open>What the setup request announces.\<close>

definition announces :: "('d, 'r) e2_agent \<Rightarrow> 'r \<Rightarrow> bool" where
  "announces ag rn \<longleftrightarrow> rb_items (ag_plugin ag) \<noteq> [] \<and>
     (\<forall>(f, sm) \<in> snd ` set (rb_items (ag_plugin ag)). is_ok (sg_on_e2_setup sm rn)) \<and>
     (\<forall>c \<in> set (ag_read_setup_ran ag rn (gn_type (ag_id ag))). comp_id_ok (ca_id c))"

definition setup_ran_func :: "'r \<Rightarrow> ('d, 'r) sm_agent \<Rightarrow> ran_function" where
  "setup_ran_func rn sm = \<lparr>rf_defn = se_ran_fun_def (projr (sg_on_e2_setup sm rn)), rf_id = sg_info_id sm,
     rf_rev = sg_info_rev sm, rf_oid = cp_str_to_ba (sg_info_oid sm)\<rparr>"

definition setup_request_of :: "('d, 'r) e2_agent \<Rightarrow> 'r \<Rightarrow> e2_setup_request" where
  "setup_request_of ag rn = \<lparr>es_trans_id = ucast (ag_trans_id ag), es_id = cp_global_e2_node_id (ag_id ag),
     es_ran_func = map (setup_ran_func rn \<circ> snd \<circ> snd) (rb_items (ag_plugin ag)),
     es_comp_conf = ag_read_setup_ran ag rn (gn_type (ag_id ag))\<rparr>"

lemma gen_setup_loop:
  assumes "\<forall>e \<in> set es. sg_info_id (snd (snd e)) = it_key e \<and> is_ok (sg_on_e2_setup (snd (snd e)) rn)"
  shows "fold_res (\<lambda>(a, k, sm) ran_func. c_assert (sg_info_id sm = k)
      (bind_res (sg_on_e2_setup sm rn) (\<lambda>def.
        Inr (ran_func @ [\<lparr>rf_defn = se_ran_fun_def def, rf_id = sg_info_id sm, rf_rev = sg_info_rev sm,
              rf_oid = cp_str_to_ba (sg_info_oid sm)\<rparr>])))) es acc = Inr (acc @ map (setup_ran_func rn \<circ> snd \<circ> snd) es)"
  using assms
proof (induction es arbitrary: acc)
  case (Cons e es)
  obtain a k sm where e: "e = (a, k, sm)" by (cases e)
  from Cons.prems obtain d where d: "sg_on_e2_setup sm rn = Inr d" "sg_info_id sm = k"
    by (auto simp: e is_ok_def)
  then show ?case using Cons by (simp add: e setup_ran_func_def)
qed simp

lemma gen_setup_request_ok:
  assumes inv: "agent_inv ag" and a: "announces ag rn"
  shows "gen_setup_request_v2 ag rn = Inr (setup_request_of ag rn, ag\<lparr>ag_trans_id := ag_trans_id ag + 1\<rparr>)"
    "e2ap_free_setup_request (setup_request_of ag rn) = Inr ()"
proof -
  have p: "rf_inv (ag_plugin ag)" "\<forall>e \<in> set (rb_items (ag_plugin ag)). sg_info_id (snd (snd e)) = it_key e"
    using agent_invD(4) [OF inv] by (force simp: plugin_inv_def)+
  have o: "\<forall>e \<in> set (rb_items (ag_plugin ag)). is_ok (sg_on_e2_setup (snd (snd e)) rn)"
    using a by (force simp: announces_def)
  have "\<forall>e \<in> set (rb_items (ag_plugin ag)). sg_info_id (snd (snd e)) = it_key e \<and> is_ok (sg_on_e2_setup (snd (snd e)) rn)"
    using p(2) o by blast
  note loop = gen_setup_loop [OF this, of "[]"]
  have "assoc_rb_tree_size (ag_plugin ag) > 0" using rb_size_items [OF p(1)] a by (simp add: announces_def)
  then show "gen_setup_request_v2 ag rn = Inr (setup_request_of ag rn, ag\<lparr>ag_trans_id := ag_trans_id ag + 1\<rparr>)"
    using loop by (simp add: gen_setup_request_v2_def rb_for_all_ok [OF p(1)] setup_request_of_def case_prod_beta')
  have "e2ap_msg_free (E2_SETUP_REQUEST (setup_request_of ag rn)) = Inr ()"
    using a by (intro free_setup_request_ok) (simp add: announces_def setup_request_of_def)
  then show "e2ap_free_setup_request (setup_request_of ag rn) = Inr ()" by (simp add: e2ap_msg_free_def)
qed

lemma e2_start_agent_ok:
  assumes inv: "agent_inv ag" and a: "announces ag rn" and none: "pend_ag ag = {}" and fd: "fresh_ag ag tfd"
    and enc: "ap_enc (ag_ap ag) (E2_SETUP_REQUEST (setup_request_of ag rn)) \<noteq> []"
  shows "\<exists>ag'. e2_start_agent ag rn tfd = Inr (setup_request_of ag rn, ag') \<and> agent_inv ag' \<and>
    pend_ag ag' = {(tfd, SETUP_REQUEST_PENDING_EVENT)} \<and> subs_ag ag' = subs_ag ag \<and> queue_ag ag' = queue_ag ag \<and>
    ag_sent ag' = ag_sent ag @ [ap_enc (ag_ap ag) (E2_SETUP_REQUEST (setup_request_of ag rn))] \<and>
    ag_trans_id ag' = ag_trans_id ag + 1 \<and> ag_ap ag' = ag_ap ag \<and> ag_plugin ag' = ag_plugin ag \<and>
    ag_stop_token ag' = ag_stop_token ag \<and> ag_fd ag' = ag_fd ag \<and> fds_ag ag' = insert tfd (fds_ag ag)"
proof -
  let ?ag = "ag\<lparr>ag_trans_id := ag_trans_id ag + 1\<rparr>"
  have inv': "agent_inv ?ag" by (rule agent_inv_frame [OF inv]) simp_all
  obtain p where p: "start_setup_pending ?ag tfd = Inr (?ag\<lparr>ag_io := (ag_io ag)\<lparr>aa_fds := tfd # aa_fds (ag_io ag),
        aa_timers := (aa_timers (ag_io ag))(tfd \<mapsto> ms_timer 3000)\<rparr>, ag_pending := p\<rparr>)"
    "agent_inv (?ag\<lparr>ag_io := (ag_io ag)\<lparr>aa_fds := tfd # aa_fds (ag_io ag),
        aa_timers := (aa_timers (ag_io ag))(tfd \<mapsto> ms_timer 3000)\<rparr>, ag_pending := p\<rparr>)"
    "pairs_of p = {(tfd, SETUP_REQUEST_PENDING_EVENT)}"
    using start_setup_pending_ok [OF inv', of tfd] none fd by (auto simp: fresh_ag_def)
  let ?ag' = "?ag\<lparr>ag_io := (ag_io ag)\<lparr>aa_fds := tfd # aa_fds (ag_io ag),
        aa_timers := (aa_timers (ag_io ag))(tfd \<mapsto> ms_timer 3000)\<rparr>, ag_pending := p,
        ag_sent := ag_sent ag @ [ap_enc (ag_ap ag) (E2_SETUP_REQUEST (setup_request_of ag rn))]\<rparr>"
  have "agent_inv ?ag'" by (rule agent_inv_frame [OF p(2)]) simp_all
  moreover have "e2_start_agent ag rn tfd = Inr (setup_request_of ag rn, ?ag')"
    using gen_setup_request_ok(1) [OF inv a] p(1) enc by (simp add: e2_start_agent_def Let_def e2ap_send_bytes_agent_def)
  ultimately show ?thesis using p(3) by (intro exI [of _ ?ag']) simp
qed


section \<open>What a descriptor stands for\<close>

lemma next_nothing [simp]: "next_async_event_agent ag (-1) rcv = Inr (CHECK_STOP_TOKEN_EVENT, ag)"
  by (simp add: next_async_event_agent_def)

lemma next_socket:
  assumes "agent_inv ag"
  shows "next_async_event_agent ag (ag_fd ag) rcv = Inr (case rcv of
      SCTP_MSG_NOTIFICATION \<Rightarrow> SCTP_CONNECTION_SHUTDOWN_EVENT | SCTP_MSG_PAYLOAD ba \<Rightarrow> SCTP_MSG_ARRIVED_EVENT ba, ag)"
  using agent_inv_pos(1) [OF assms] by (simp add: next_async_event_agent_def net_pkt_def split: sctp_msg.split)

lemma size_queue: "agent_inv ag \<Longrightarrow> size_tsq (ag_aind ag) = length (queue_ag ag)"
  by (simp add: size_tsq_def length_ring_list)

lemma next_pipe:
  assumes inv: "agent_inv ag" and q: "queue_ag ag \<noteq> []"
  shows "\<exists>q. next_async_event_agent ag (aa_pipe_r (ag_io ag)) rcv =
      Inr (APERIODIC_INDICATION_EVENT (queue_ag ag), ag\<lparr>ag_aind := q\<rparr>) \<and> tsq_inv AIND_EVENT_SZ q \<and> ring_list q = []"
proof -
  obtain q where "collect_res (length (queue_ag ag)) (\<lambda>q. pop_tsq q AIND_EVENT_SZ) (ag_aind ag) = Inr (queue_ag ag, q)"
    "tsq_inv AIND_EVENT_SZ q" "ring_list q = []"
    using tsq.pop_n_ok [OF agent_invD(3) [OF inv], of "length (queue_ag ag)"] by auto
  then show ?thesis
    using agent_inv_pos(2) [OF inv] agent_invD(8) [OF inv] size_queue [OF inv] q
    by (intro exI [of _ q]) (simp add: next_async_event_agent_def net_pkt_def aind_event_of_def Let_def
        flip: length_greater_0_conv)
qed

text \<open>The pipe is readable although nothing is queued.\<close>

lemma next_pipe_empty:
  assumes inv: "agent_inv ag" and q: "queue_ag ag = []"
  shows "next_async_event_agent ag (aa_pipe_r (ag_io ag)) rcv = Inl AssertFailed"
  using agent_inv_pos(2) [OF inv] agent_invD(8) [OF inv] size_queue [OF inv] q
  by (simp add: next_async_event_agent_def net_pkt_def aind_event_of_def Let_def)

lemma ind_event_of_ok:
  assumes inv: "agent_inv ag" and fd: "fd > 0"
  shows "(\<forall>ev. (fd, ev) \<in> subs_ag ag \<longrightarrow> ind_event_of ag fd = Inr (Some ev)) \<and>
    (fd \<notin> fst ` subs_ag ag \<longrightarrow> ind_event_of ag fd = Inr None)"
proof -
  note i = agent_invD(1) [OF inv]
  obtain it where it: "search (bm_left (ag_ind_event ag)) fd eq_fd = Inr it"
    "if it = assoc_rb_tree_end (bm_left (ag_ind_event ag)) then fd \<notin> fst ` subs_ag ag
     else \<exists>ev. (fd, ev) \<in> subs_ag ag \<and> assoc_rb_tree_value (bm_left (ag_ind_event ag)) it = Inr ev"
    using inds_by_fd [OF i, of fd] fd by auto
  show ?thesis
  proof (cases "it = assoc_rb_tree_end (bm_left (ag_ind_event ag))")
    case True
    then have "fd \<notin> fst ` subs_ag ag" using it(2) by simp
    then have "(fd, ev) \<notin> subs_ag ag" for ev by force
    then show ?thesis using True it(1) fd by (simp add: ind_event_of_def)
  next
    case False
    then obtain ev where e: "(fd, ev) \<in> subs_ag ag" "assoc_rb_tree_value (bm_left (ag_ind_event ag)) it = Inr ev"
      using it(2) by auto
    have "ev' = ev" if "(fd, ev') \<in> subs_ag ag" for ev' using inds_unique(1) [OF i that e(1)] by simp
    moreover have "fd \<in> fst ` subs_ag ag" using e(1) by force
    ultimately show ?thesis using False it(1) e(2) fd by (auto simp: ind_event_of_def)
  qed
qed

lemma next_timer:
  assumes inv: "agent_inv ag" and p: "(fd, ev) \<in> subs_ag ag" "fd \<noteq> 0"
  shows "next_async_event_agent ag fd rcv = Inr (INDICATION_EVENT ev, ag)"
proof -
  have "fd > 0" "fd \<noteq> ag_fd ag" "fd \<noteq> aa_pipe_r (ag_io ag)" using subs_fd [OF inv p(1)] p(2) by auto
  then show ?thesis
    using ind_event_of_ok [OF inv, of fd] p(1)
    by (simp add: next_async_event_agent_def net_pkt_def aind_event_of_def)
qed

lemma pend_event_of_ok:
  assumes inv: "agent_inv ag" and p: "pend_ag ag = {(fd, ev)}"
  shows "pend_event_of ag fd = Inr ev"
proof -
  note i = agent_invD [OF inv]
  have fd: "fd > 0" using i(6,7) p by auto
  obtain it where it: "search (bm_left (ag_pending ag)) fd eq_fd = Inr it"
    "if it = assoc_rb_tree_end (bm_left (ag_pending ag)) then fd \<notin> fst ` pend_ag ag
     else \<exists>ev. (fd, ev) \<in> pend_ag ag \<and> assoc_rb_tree_value (bm_left (ag_pending ag)) it = Inr ev"
    using apend_by_fd [OF i(2), of fd] fd by auto
  then show ?thesis
    using p fd apend_size [OF i(2)] by (cases "it = assoc_rb_tree_end (bm_left (ag_pending ag))") (auto simp: pend_event_of_def)
qed

lemma next_pending:
  assumes inv: "agent_inv ag" and p: "pend_ag ag = {(fd, ev)}"
  shows "next_async_event_agent ag fd rcv = Inr (PENDING_EVENT ev, ag)"
proof -
  note i = agent_invD [OF inv]
  have "fd > 0" "fd \<noteq> ag_fd ag" "fd \<noteq> aa_pipe_r (ag_io ag)" "fd \<notin> fst ` subs_ag ag" using i(6,7,9,10) p by auto
  then show ?thesis
    using ind_event_of_ok [OF inv, of fd] pend_event_of_ok [OF inv p]
    by (simp add: next_async_event_agent_def net_pkt_def aind_event_of_def)
qed

section \<open>Indications\<close>

text \<open>The message for a report \<open>d\<close> of the subscription \<open>i\<close>, action \<open>act\<close>.\<close>

definition report_msg :: "ric_gen_id \<Rightarrow> u8 \<Rightarrow> sm_ind_data \<Rightarrow> e2ap_msg" where
  "report_msg i act d = RIC_INDICATION \<lparr>in_ric_id = i, in_action_id = act, in_sn = None, in_type = RIC_IND_REPORT,
     in_hdr = sid_hdr d, in_msg = sid_msg d, in_call_process_id = None\<rparr>"

text \<open>What the model of a subscription reports, without a call process identifier.\<close>

definition reports_ok :: "e2ap_ap \<Rightarrow> ric_gen_id \<Rightarrow> u8 \<Rightarrow> exp_ind_data res \<Rightarrow> bool" where
  "reports_ok ap i act e \<longleftrightarrow> (case e of Inl _ \<Rightarrow> False | Inr None \<Rightarrow> True
     | Inr (Some d) \<Rightarrow> sid_call_process_id d = None \<and> ap_enc ap (report_msg i act d) \<noteq> [])"

definition reported :: "e2ap_ap \<Rightarrow> ric_gen_id \<Rightarrow> u8 \<Rightarrow> exp_ind_data res \<Rightarrow> byte_array list" where
  "reported ap i act e = (case e of Inr (Some d) \<Rightarrow> [ap_enc ap (report_msg i act d)] | _ \<Rightarrow> [])"

lemma periodic_indication_ok:
  assumes "ie_u ev = ACT_DEF ad" "fd > 0"
    and ok: "reports_ok (ag_ap ag) (ie_ric_id ev) (ie_action_id ev) (sg_on_indication (ie_sm ev) rn ad)"
  shows "periodic_indication rn fd ev ag = Inr (ag\<lparr>ag_sent := ag_sent ag @
    reported (ag_ap ag) (ie_ric_id ev) (ie_action_id ev) (sg_on_indication (ie_sm ev) rn ad)\<rparr>)"
  using assms
  by (auto simp: periodic_indication_def act_def_of_def reports_ok_def reported_def generate_indication_def
      call_process_id_cell_def report_msg_def e2ap_send_bytes_agent_def consume_fd_sync_def
      split: sum.splits option.splits)

text \<open>A call process identifier does not fit into its allocation.\<close>

lemma periodic_indication_cpid:
  assumes "ie_u ev = ACT_DEF ad" "sg_on_indication (ie_sm ev) rn ad = Inr (Some d)" "sid_call_process_id d \<noteq> None"
  shows "periodic_indication rn fd ev ag = Inl OutOfBounds"
  using assms by (auto simp: periodic_indication_def act_def_of_def generate_indication_def call_process_id_cell_def)

abbreviation ai_report :: "'r \<Rightarrow> ('d, 'r) aind_event \<Rightarrow> exp_ind_data res" where
  "ai_report rn a \<equiv> sg_on_indication (ae_sm a) rn (ae_ind_data a)"

lemma consume_pipe_ok:
  assumes "aa_pipe_r (ag_io ag) > 0" "4 \<le> aa_pipe_bytes (ag_io ag)"
  shows "consume_pipe ag = Inr (ag\<lparr>ag_io := (ag_io ag)\<lparr>aa_pipe_bytes := aa_pipe_bytes (ag_io ag) - 4\<rparr>\<rparr>)"
  using assms by (simp add: consume_pipe_def consume_fd_async_def Let_def)

lemma aperiodic_indication_ok:
  assumes "aa_pipe_r (ag_io ag) > 0" "4 \<le> aa_pipe_bytes (ag_io ag)"
    and ok: "reports_ok (ag_ap ag) (ae_ric_id a) (ae_action_id a) (ai_report rn a)"
  shows "aperiodic_indication rn a ag = Inr (ag\<lparr>
    ag_sent := ag_sent ag @ reported (ag_ap ag) (ae_ric_id a) (ae_action_id a) (ai_report rn a),
    ag_io := (ag_io ag)\<lparr>aa_pipe_bytes := aa_pipe_bytes (ag_io ag) - 4\<rparr>\<rparr>)"
  using assms
  by (auto simp: aperiodic_indication_def reports_ok_def reported_def generate_aindication_def
      call_process_id_cell_def report_msg_def e2ap_send_bytes_agent_def consume_pipe_ok
      split: sum.splits option.splits)

lemma aperiodic_indications_ok:
  assumes "aa_pipe_r (ag_io ag) > 0" "4 * length as \<le> aa_pipe_bytes (ag_io ag)"
    and "\<forall>a \<in> set as. reports_ok (ag_ap ag) (ae_ric_id a) (ae_action_id a) (ai_report rn a)"
  shows "fold_res (aperiodic_indication rn) as ag = Inr (ag\<lparr>
    ag_sent := ag_sent ag @ concat (map (\<lambda>a. reported (ag_ap ag) (ae_ric_id a) (ae_action_id a) (ai_report rn a)) as),
    ag_io := (ag_io ag)\<lparr>aa_pipe_bytes := aa_pipe_bytes (ag_io ag) - 4 * length as\<rparr>\<rparr>)"
  using assms
proof (induction as arbitrary: ag)
  case (Cons a as)
  let ?ag = "ag\<lparr>ag_sent := ag_sent ag @ reported (ag_ap ag) (ae_ric_id a) (ae_action_id a) (ai_report rn a),
    ag_io := (ag_io ag)\<lparr>aa_pipe_bytes := aa_pipe_bytes (ag_io ag) - 4\<rparr>\<rparr>"
  have "aperiodic_indication rn a ag = Inr ?ag" using Cons.prems by (intro aperiodic_indication_ok) auto
  moreover have "fold_res (aperiodic_indication rn) as ?ag = Inr (?ag\<lparr>
    ag_sent := ag_sent ?ag @ concat (map (\<lambda>a. reported (ag_ap ?ag) (ae_ric_id a) (ae_action_id a) (ai_report rn a)) as),
    ag_io := (ag_io ?ag)\<lparr>aa_pipe_bytes := aa_pipe_bytes (ag_io ?ag) - 4 * length as\<rparr>\<rparr>)"
    using Cons.prems by (intro Cons.IH) auto
  ultimately show ?case by (simp add: diff_diff_add add.commute)
qed simp

section \<open>The RAN reports on its own\<close>

lemma show_dec_pos: "length (show_dec n) > 0"
  by (subst show_dec.simps) simp

lemma show_dec_length: "length (show_dec n) \<le> k \<longleftrightarrow> k > 0 \<and> n < 10 ^ k"
proof (induction n arbitrary: k rule: show_dec.induct)
  case (1 n)
  show ?case
  proof (cases k)
    case 0
    then show ?thesis using show_dec_pos [of n] by simp
  next
    case (Suc j)
    show ?thesis
    proof (cases "n < 10")
      case True
      then have "n < 10 * 10 ^ j" using one_le_power [of "10 :: nat" j] by linarith
      with True show ?thesis by (subst show_dec.simps) (simp add: Suc)
    next
      case False
      have "length (show_dec n) \<le> k \<longleftrightarrow> length (show_dec (n div 10)) \<le> j"
        using False by (subst show_dec.simps) (simp add: Suc)
      also have "\<dots> \<longleftrightarrow> j > 0 \<and> n < 10 ^ k"
        using "1.IH" [OF False, of j] by (simp add: Suc div_less_iff_less_mult mult.commute)
      also have "\<dots> \<longleftrightarrow> k > 0 \<and> n < 10 ^ k" using False by (cases j) (simp_all add: Suc)
      finally show ?thesis .
    qed
  qed
qed


definition aind_of :: "('d, 'r) ind_event \<Rightarrow> 'd option \<Rightarrow> ('d, 'r) aind_event" where
  "aind_of ev d = \<lparr>ae_ric_id = ie_ric_id ev, ae_sm = ie_sm ev, ae_action_id = ie_action_id ev, ae_ind_data = d\<rparr>"

lemma show_dec_u32: "length (show_dec (unat (rq :: u32))) < 31"
proof -
  have "unat rq < 10 ^ 10" using unat_small [of rq] by simp
  then have "length (show_dec (unat rq)) \<le> 10" by (simp add: show_dec_length)
  then show ?thesis by simp
qed

lemma async_event_ok:
  assumes inv: "agent_inv ag" and rq: "rq \<in> (ric_req_id \<circ> ie_ric_id) ` snd ` subs_ag ag"
    and room: "length (queue_ag ag) < 2 ^ 32 - 1"
  shows "\<exists>fd ev q. (fd, ev) \<in> subs_ag ag \<and> ric_req_id (ie_ric_id ev) = rq \<and>
    e2_async_event_agent ag rq d = Inr (ag\<lparr>ag_aind := q,
      ag_io := (ag_io ag)\<lparr>aa_pipe_bytes := aa_pipe_bytes (ag_io ag) + length (show_dec (unat rq))\<rparr>\<rparr>) \<and>
    tsq_inv AIND_EVENT_SZ q \<and> ring_list q = queue_ag ag @ [aind_of ev d]"
proof -
  note i = agent_invD [OF inv]
  obtain it where it: "search (bm_right (ag_ind_event ag)) rq eq_ind_event_ric_req_id = Inr it"
    "if it = assoc_rb_tree_end (bm_right (ag_ind_event ag)) then rq \<notin> (ric_req_id \<circ> ie_ric_id) ` snd ` subs_ag ag
     else \<exists>fd ev. (fd, ev) \<in> subs_ag ag \<and> ric_req_id (ie_ric_id ev) = rq \<and>
       assoc_rb_tree_key (bm_right (ag_ind_event ag)) it = Inr ev"
    using inds_by_req [OF i(1), of rq] by blast
  obtain fd ev where ev: "(fd, ev) \<in> subs_ag ag" "ric_req_id (ie_ric_id ev) = rq"
    "assoc_rb_tree_key (bm_right (ag_ind_event ag)) it = Inr ev" "it \<noteq> assoc_rb_tree_end (bm_right (ag_ind_event ag))"
    using it(2) rq by (auto simp: split: if_splits)
  have "seq_ring_size (ag_aind ag) < 2 ^ 32 - 1" using room by (simp add: length_ring_list)
  from tsq.push_law [OF i(3) this, of "aind_of ev d"] obtain q where
    q: "push_tsq (ag_aind ag) (aind_of ev d) AIND_EVENT_SZ = Inr q" "tsq_inv AIND_EVENT_SZ q"
      "ring_list q = queue_ag ag @ [aind_of ev d]" by blast
  have "e2_async_event_agent ag rq d = Inr (ag\<lparr>ag_aind := q,
      ag_io := (ag_io ag)\<lparr>aa_pipe_bytes := aa_pipe_bytes (ag_io ag) + length (show_dec (unat rq))\<rparr>\<rparr>)"
    using it(1) ev(3,4) q(1) show_dec_u32 [of rq] show_dec_pos [of "unat rq"]
    by (simp add: e2_async_event_agent_def Let_def aind_of_def)
  with ev(1,2) q(2,3) show ?thesis by blast
qed

lemma async_event_unknown:
  assumes inv: "agent_inv ag" and rq: "rq \<notin> (ric_req_id \<circ> ie_ric_id) ` snd ` subs_ag ag"
  shows "e2_async_event_agent ag rq d = Inl AssertFailed"
  using inds_by_req [OF agent_invD(1) [OF inv], of rq] rq
  by (auto simp: e2_async_event_agent_def Let_def image_iff split: if_splits)

section \<open>Runs\<close>

text \<open>
  A turn of the loop: what the RAN answers, the descriptor a new timer gets, the descriptor that
  \<open>epoll_wait\<close> reports and what a read from the socket gives. A report of the RAN: the number of the
  request and the data.
\<close>

datatype ('d, 'r) agent_input = Turn 'r int int sctp_msg | Ran_Report u32 "'d option"

definition agent_step :: "('d, 'r) e2_agent \<Rightarrow> ('d, 'r) agent_input \<Rightarrow> ('d, 'r) e2_agent res" where
  "agent_step ag i = (case i of
     Turn rn tfd fd rcv \<Rightarrow> e2_event_loop_agent ag rn tfd fd rcv
   | Ran_Report rq d \<Rightarrow> e2_async_event_agent ag rq d)"

definition cause_printed :: "cause \<Rightarrow> bool" where
  "cause_printed c \<longleftrightarrow> (case c of CAUSE_MISC n \<Rightarrow> False | _ \<Rightarrow> cause_idx c < 11)"

lemma setup_failure_iff: "is_ok (e2ap_handle_setup_failure_agent ag f) \<longleftrightarrow> cause_printed (eu_cause f)"
  by (cases "eu_cause f")
    (auto simp: e2ap_handle_setup_failure_agent_def setup_failure_line_def cause_printed_def is_ok_def Let_def
      c_assert_def)

text \<open>The messages a RIC that keeps to the protocol sends.\<close>

definition valid_agent_msg :: "('d, 'r) e2_agent \<Rightarrow> 'r \<Rightarrow> e2ap_msg \<Rightarrow> bool" where
  "valid_agent_msg ag rn msg \<longleftrightarrow> e2ap_msg_free msg = Inr () \<and> (case msg of
     RIC_SUBSCRIPTION_REQUEST sr \<Rightarrow> sr_ric_id sr \<notin> ie_ric_id ` snd ` subs_ag ag \<and>
       (\<exists>sm subs. agent_accepts ag rn sr sm subs \<and> (case subs of
          SUBS_PERIODIC ms ad \<Rightarrow> -1 < ms \<and> ms < 10001
        | SUBS_APERIODIC \<Rightarrow> 0 \<notin> fst ` subs_ag ag \<and> \<not> sg_frees_act_def sm))
   | RIC_SUBSCRIPTION_DELETE_REQUEST sdr \<Rightarrow> True
   | RIC_CONTROL_REQUEST cr \<Rightarrow> cr_ack_req cr = Some RIC_CONTROL_REQUEST_ACK \<and> ran_func_id (cr_ric_id cr) \<noteq> 0 \<and>
       (\<exists>sm. rf_map (ag_plugin ag) (ran_func_id (cr_ric_id cr)) = Some sm \<and>
          is_ok (sg_on_control sm rn \<lparr>sc_ctrl_hdr = cr_hdr cr, sc_ctrl_msg = cr_msg cr\<rparr>))
   | E2_SETUP_RESPONSE r \<Rightarrow> pend_ag ag \<noteq> {} \<and> ag_trans_id ag > 0
   | E2_SETUP_FAILURE f \<Rightarrow> cause_printed (eu_cause f)
   | _ \<Rightarrow> False)"

definition valid_agent_input :: "('d, 'r) e2_agent \<Rightarrow> ('d, 'r) agent_input \<Rightarrow> bool" where
  "valid_agent_input ag i \<longleftrightarrow> (case i of
     Turn rn tfd fd rcv \<Rightarrow> fresh_ag ag tfd \<and> (fd = -1 \<or> fd \<in> fds_ag ag) \<and>
       (fd = ag_fd ag \<longrightarrow> (case rcv of
          SCTP_MSG_NOTIFICATION \<Rightarrow> pend_ag ag = {}
        | SCTP_MSG_PAYLOAD ba \<Rightarrow> valid_agent_msg ag rn (ap_dec (ag_ap ag) ba))) \<and>
       (fd = aa_pipe_r (ag_io ag) \<longrightarrow> queue_ag ag \<noteq> [] \<and>
          (\<forall>a \<in> set (queue_ag ag). reports_ok (ag_ap ag) (ae_ric_id a) (ae_action_id a) (ai_report rn a))) \<and>
       (\<forall>ev ad. (fd, ev) \<in> subs_ag ag \<and> ie_u ev = ACT_DEF ad \<longrightarrow>
          reports_ok (ag_ap ag) (ie_ric_id ev) (ie_action_id ev) (sg_on_indication (ie_sm ev) rn ad)) \<and>
       (fd \<in> fst ` pend_ag ag \<longrightarrow> announces ag rn)
   | Ran_Report rq d \<Rightarrow> 1000 \<le> unat rq \<and> rq \<in> (ric_req_id \<circ> ie_ric_id) ` snd ` subs_ag ag \<and>
       length (queue_ag ag) < 2 ^ 32 - 1)"

inductive agent_reach :: "('d, 'r) e2_agent \<Rightarrow> ('d, 'r) e2_agent \<Rightarrow> bool" for start where
  agent_start: "agent_reach start start"
| agent_next: "agent_reach start ag \<Longrightarrow> valid_agent_input ag i \<Longrightarrow> agent_step ag i = Inr ag' \<Longrightarrow> agent_reach start ag'"

subsection \<open>Messages\<close>

definition encodes :: "('d, 'r) e2_agent \<Rightarrow> bool" where
  "encodes ag \<longleftrightarrow> (\<forall>m. ap_enc (ag_ap ag) m \<noteq> [])"

lemma control_request_ok:
  assumes inv: "agent_inv ag" and c: "cr_ack_req cr = Some RIC_CONTROL_REQUEST_ACK" "ran_func_id (cr_ric_id cr) \<noteq> 0"
    "rf_map (ag_plugin ag) (ran_func_id (cr_ric_id cr)) = Some sm"
    "sg_on_control sm rn \<lparr>sc_ctrl_hdr = cr_hdr cr, sc_ctrl_msg = cr_msg cr\<rparr> = Inr out"
  shows "e2ap_handle_control_request_agent ag rn cr = Inr (RIC_CONTROL_ACKNOWLEDGE
    \<lparr>ck_ric_id = cr_ric_id cr, ck_call_process_id = None, ck_outcome = ba_from_ctrl_out out\<rparr>, ag)"
  using sm_plugin_ag_ok [OF agent_invD(4) [OF inv] c(3,2)] c
  by (simp add: e2ap_handle_control_request_agent_def Let_def free_sm_ctrl_out_data_def)

lemma handle_msg_ok:
  assumes inv: "agent_inv ag" and v: "valid_agent_msg ag rn msg" and fd: "fresh_ag ag tfd"
  shows "\<exists>ans ag'. e2ap_msg_handle_agent ag rn tfd msg = Inr (ans, ag') \<and> agent_inv ag' \<and> ag_ap ag' = ag_ap ag \<and>
    e2ap_msg_free ans = Inr ()"
proof (cases msg)
  case (RIC_SUBSCRIPTION_REQUEST sr)
  then obtain sm subs where a: "agent_accepts ag rn sr sm subs" "sr_ric_id sr \<notin> ie_ric_id ` snd ` subs_ag ag"
    "case subs of SUBS_PERIODIC ms ad \<Rightarrow> -1 < ms \<and> ms < 10001
       | SUBS_APERIODIC \<Rightarrow> 0 \<notin> fst ` subs_ag ag \<and> \<not> sg_frees_act_def sm"
    using v by (auto simp: valid_agent_msg_def)
  show ?thesis
  proof (cases subs)
    case (SUBS_PERIODIC ms ad)
    then show ?thesis
      using subscribe_periodic_ok [OF inv, of rn sr sm ms ad tfd] a fd RIC_SUBSCRIPTION_REQUEST
      by (auto simp: e2ap_msg_handle_agent_def)
  next
    case SUBS_APERIODIC
    then show ?thesis
      using subscribe_aperiodic_ok [OF inv, of rn sr sm tfd] a RIC_SUBSCRIPTION_REQUEST
      by (auto simp: e2ap_msg_handle_agent_def)
  qed
next
  case (RIC_SUBSCRIPTION_DELETE_REQUEST sdr)
  then show ?thesis using delete_request_ok [OF inv, of sdr] by (auto simp: e2ap_msg_handle_agent_def)
next
  case (RIC_CONTROL_REQUEST cr)
  then obtain sm out where "cr_ack_req cr = Some RIC_CONTROL_REQUEST_ACK" "ran_func_id (cr_ric_id cr) \<noteq> 0"
    "rf_map (ag_plugin ag) (ran_func_id (cr_ric_id cr)) = Some sm"
    "sg_on_control sm rn \<lparr>sc_ctrl_hdr = cr_hdr cr, sc_ctrl_msg = cr_msg cr\<rparr> = Inr out"
    using v by (auto simp: valid_agent_msg_def is_ok_def)
  from control_request_ok [OF inv this] RIC_CONTROL_REQUEST inv show ?thesis by (simp add: e2ap_msg_handle_agent_def)
next
  case (E2_SETUP_RESPONSE r)
  then have p: "pend_ag ag \<noteq> {}" "ag_trans_id ag > 0" using v by (simp_all add: valid_agent_msg_def)
  then obtain fd where "pend_ag ag = {(fd, SETUP_REQUEST_PENDING_EVENT)}" using pend_cases [OF inv] by metis
  from setup_answered_ok [OF inv this p(2), of r] E2_SETUP_RESPONSE show ?thesis
    by (auto simp: e2ap_msg_handle_agent_def)
next
  case (E2_SETUP_FAILURE f)
  then have "is_ok (e2ap_handle_setup_failure_agent ag f)" using v by (simp add: valid_agent_msg_def setup_failure_iff)
  then have "e2ap_handle_setup_failure_agent ag f = Inr (NONE_E2_MSG_TYPE, ag)"
    by (auto simp: e2ap_handle_setup_failure_agent_def is_ok_def bind_res_eq_Inr)
  then show ?thesis using E2_SETUP_FAILURE inv by (simp add: e2ap_msg_handle_agent_def)
qed (use v in \<open>simp_all add: valid_agent_msg_def\<close>)


lemma agent_arrived:
  assumes "e2ap_msg_handle_agent ag rn tfd (ap_dec (ag_ap ag) ba) = Inr (ans, ag')" "encodes ag'"
    "e2ap_msg_free (ap_dec (ag_ap ag) ba) = Inr ()" "e2ap_msg_free ans = Inr ()"
  shows "sctp_msg_arrived_agent ag rn tfd ba = Inr (if ans = NONE_E2_MSG_TYPE then ag'
    else ag'\<lparr>ag_sent := ag_sent ag' @ [ap_enc (ag_ap ag') ans]\<rparr>)"
  using assms by (simp add: sctp_msg_arrived_agent_def e2ap_msg_enc_ag_def e2ap_send_bytes_agent_def
      e2ap_msg_free_ag_def encodes_def Let_def)

subsection \<open>Turns\<close>

lemma msg_turn_ok:
  assumes inv: "agent_inv ag" and enc: "encodes ag" and v: "valid_agent_msg ag rn (ap_dec (ag_ap ag) ba)"
    and fd: "fresh_ag ag tfd"
  shows "\<exists>ag'. sctp_msg_arrived_agent ag rn tfd ba = Inr ag' \<and> agent_inv ag' \<and> encodes ag'"
proof -
  obtain ans ag' where h: "e2ap_msg_handle_agent ag rn tfd (ap_dec (ag_ap ag) ba) = Inr (ans, ag')" "agent_inv ag'"
    "ag_ap ag' = ag_ap ag" "e2ap_msg_free ans = Inr ()"
    using handle_msg_ok [OF inv v fd] by blast
  have e: "encodes ag'" using enc h(3) by (simp add: encodes_def)
  have "e2ap_msg_free (ap_dec (ag_ap ag) ba) = Inr ()" using v by (simp add: valid_agent_msg_def)
  from agent_arrived [OF h(1) e this h(4)] show ?thesis
    using h(2) e agent_inv_frame [OF h(2), of "ag'\<lparr>ag_sent := ag_sent ag' @ [ap_enc (ag_ap ag') ans]\<rparr>"]
    by (simp add: encodes_def)
qed

lemma pending_turn_ok:
  assumes inv: "agent_inv ag" and enc: "encodes ag" and a: "announces ag rn" and fd: "fd > 0"
  shows "\<exists>ag'. resend_setup_request ag rn fd SETUP_REQUEST_PENDING_EVENT = Inr ag' \<and> agent_inv ag' \<and> encodes ag'"
proof -
  let ?ag = "ag\<lparr>ag_trans_id := ag_trans_id ag + 1,
    ag_sent := ag_sent ag @ [ap_enc (ag_ap ag) (E2_SETUP_REQUEST (setup_request_of ag rn))]\<rparr>"
  have "resend_setup_request ag rn fd SETUP_REQUEST_PENDING_EVENT = Inr ?ag"
    using gen_setup_request_ok [OF inv a] enc fd
    by (simp add: resend_setup_request_def e2ap_send_bytes_agent_def consume_fd_sync_def encodes_def)
  moreover have "agent_inv ?ag" by (rule agent_inv_frame [OF inv]) simp_all
  ultimately show ?thesis using enc by (simp add: encodes_def)
qed

lemma pipe_turn_ok:
  assumes inv: "agent_inv ag" and q: "tsq_inv AIND_EVENT_SZ q" "ring_list q = []"
    and r: "\<forall>a \<in> set (queue_ag ag). reports_ok (ag_ap ag) (ae_ric_id a) (ae_action_id a) (ai_report rn a)"
  shows "\<exists>ag'. fold_res (aperiodic_indication rn) (queue_ag ag) (ag\<lparr>ag_aind := q\<rparr>) = Inr ag' \<and> agent_inv ag' \<and>
    ag_ap ag' = ag_ap ag"
proof -
  note i = agent_invD [OF inv]
  let ?ag = "ag\<lparr>ag_aind := q\<rparr>"
  have "fold_res (aperiodic_indication rn) (queue_ag ag) ?ag = Inr (?ag\<lparr>
    ag_sent := ag_sent ?ag @ concat (map (\<lambda>a. reported (ag_ap ?ag) (ae_ric_id a) (ae_action_id a) (ai_report rn a)) (queue_ag ag)),
    ag_io := (ag_io ?ag)\<lparr>aa_pipe_bytes := aa_pipe_bytes (ag_io ?ag) - 4 * length (queue_ag ag)\<rparr>\<rparr>)"
    using agent_inv_pos(2) [OF inv] i(13) r by (intro aperiodic_indications_ok) simp_all
  moreover have "agent_inv (ag\<lparr>ag_aind := q, ag_sent := s, ag_io := (ag_io ag)\<lparr>aa_pipe_bytes := n\<rparr>\<rparr>)" for s n
    unfolding agent_inv_def using i q by simp
  ultimately show ?thesis by simp
qed

lemma turn_ok:
  assumes inv: "agent_inv ag" and enc: "encodes ag" and v: "valid_agent_input ag (Turn rn tfd fd rcv)"
  shows "\<exists>ag'. e2_event_loop_agent ag rn tfd fd rcv = Inr ag' \<and> agent_inv ag' \<and> encodes ag'"
proof (cases "ag_stop_token ag")
  case True
  then show ?thesis using agent_inv_frame [OF inv, of "ag\<lparr>ag_agent_stopped := True\<rparr>"] enc
    by (simp add: e2_event_loop_agent_def encodes_def)
next
  case False
  note i = agent_invD [OF inv]
  have v': "fresh_ag ag tfd" "fd = -1 \<or> fd \<in> fds_ag ag"
    "fd = ag_fd ag \<Longrightarrow> (case rcv of SCTP_MSG_NOTIFICATION \<Rightarrow> pend_ag ag = {}
        | SCTP_MSG_PAYLOAD ba \<Rightarrow> valid_agent_msg ag rn (ap_dec (ag_ap ag) ba))"
    "fd = aa_pipe_r (ag_io ag) \<Longrightarrow> queue_ag ag \<noteq> []"
    "fd = aa_pipe_r (ag_io ag) \<Longrightarrow> \<forall>a \<in> set (queue_ag ag). reports_ok (ag_ap ag) (ae_ric_id a) (ae_action_id a) (ai_report rn a)"
    "\<And>ev ad. (fd, ev) \<in> subs_ag ag \<Longrightarrow> ie_u ev = ACT_DEF ad \<Longrightarrow>
      reports_ok (ag_ap ag) (ie_ric_id ev) (ie_action_id ev) (sg_on_indication (ie_sm ev) rn ad)"
    "fd \<in> fst ` pend_ag ag \<Longrightarrow> announces ag rn"
    using v by (auto simp: valid_agent_input_def)
  consider "fd = -1" | "fd = ag_fd ag" | "fd = aa_pipe_r (ag_io ag)" | "fd \<in> fst ` subs_ag ag" "fd \<noteq> 0" | "fd \<in> fst ` pend_ag ag"
    using v'(2) i(7) by blast
  then show ?thesis
  proof cases
    case 1
    then show ?thesis using False inv enc by (simp add: e2_event_loop_agent_def handle_async_event_def)
  next
    case 2
    show ?thesis
    proof (cases rcv)
      case (SCTP_MSG_PAYLOAD ba)
      then show ?thesis using msg_turn_ok [OF inv enc _ v'(1), of rn ba] v'(3) [OF 2] False
        by (simp add: e2_event_loop_agent_def 2 next_socket [OF inv] handle_async_event_def)
    next
      case SCTP_MSG_NOTIFICATION
      then show ?thesis using start_setup_pending_ok [OF inv _ v'(1)] v'(3) [OF 2] False enc
        by (auto simp: e2_event_loop_agent_def 2 next_socket [OF inv] handle_async_event_def notification_handle_ag_def encodes_def)
    qed
  next
    case 3
    obtain q where q: "next_async_event_agent ag fd rcv = Inr (APERIODIC_INDICATION_EVENT (queue_ag ag), ag\<lparr>ag_aind := q\<rparr>)"
      "tsq_inv AIND_EVENT_SZ q" "ring_list q = []"
      using next_pipe [OF inv v'(4) [OF 3], of rcv] 3 by auto
    have "0 < seq_ring_size (ag_aind ag)" using v'(4) [OF 3] by (simp flip: length_ring_list)
    with pipe_turn_ok [OF inv q(2,3) v'(5) [OF 3]] q(1) False enc show ?thesis
      by (auto simp: e2_event_loop_agent_def handle_async_event_def encodes_def)
  next
    case 4
    then obtain ev where ev: "(fd, ev) \<in> subs_ag ag" by auto
    then obtain ad where ad: "ie_u ev = ACT_DEF ad"
      using subs_fd(6) [OF inv ev] 4(2) by (cases "ie_u ev") auto
    have "fd > 0" using subs_fd(1) [OF inv ev] 4(2) by simp
    from periodic_indication_ok [OF ad this v'(6) [OF ev ad]] show ?thesis
      using next_timer [OF inv ev 4(2), of rcv] False enc agent_inv_frame [OF inv]
      by (simp add: e2_event_loop_agent_def handle_async_event_def encodes_def)
  next
    case 5
    then have "pend_ag ag \<noteq> {}" by auto
    then obtain fd' where fd': "pend_ag ag = {(fd', SETUP_REQUEST_PENDING_EVENT)}" "fd' > 0"
      using pend_cases [OF inv] by metis
    then have p: "pend_ag ag = {(fd, SETUP_REQUEST_PENDING_EVENT)}" "fd > 0" using 5 by auto
    from pending_turn_ok [OF inv enc v'(7) [OF 5] p(2)] show ?thesis
      using next_pending [OF inv p(1), of rcv] False by (simp add: e2_event_loop_agent_def handle_async_event_def)
  qed
qed

lemma report_step_ok:
  assumes inv: "agent_inv ag" and enc: "encodes ag" and v: "valid_agent_input ag (Ran_Report rq d)"
  shows "\<exists>ag'. e2_async_event_agent ag rq d = Inr ag' \<and> agent_inv ag' \<and> encodes ag'"
proof -
  note i = agent_invD [OF inv]
  have v': "1000 \<le> unat rq" "rq \<in> (ric_req_id \<circ> ie_ric_id) ` snd ` subs_ag ag" "length (queue_ag ag) < 2 ^ 32 - 1"
    using v by (simp_all add: valid_agent_input_def)
  obtain ev q where q: "e2_async_event_agent ag rq d = Inr (ag\<lparr>ag_aind := q,
      ag_io := (ag_io ag)\<lparr>aa_pipe_bytes := aa_pipe_bytes (ag_io ag) + length (show_dec (unat rq))\<rparr>\<rparr>)"
    "tsq_inv AIND_EVENT_SZ q" "ring_list q = queue_ag ag @ [aind_of ev d]"
    using async_event_ok [OF inv v'(2,3)] by blast
  have "4 \<le> length (show_dec (unat rq))" using show_dec_length [of "unat rq" 3] v'(1) by simp
  then have "agent_inv (ag\<lparr>ag_aind := q,
      ag_io := (ag_io ag)\<lparr>aa_pipe_bytes := aa_pipe_bytes (ag_io ag) + length (show_dec (unat rq))\<rparr>\<rparr>)"
    unfolding agent_inv_def using i q(2,3) by simp
  then show ?thesis using q(1) enc by (simp add: encodes_def)
qed

lemma agent_step_ok:
  assumes "agent_inv ag" "encodes ag" "valid_agent_input ag i"
  shows "\<exists>ag'. agent_step ag i = Inr ag' \<and> agent_inv ag' \<and> encodes ag'"
  using turn_ok [OF assms(1,2)] report_step_ok [OF assms(1,2)] assms(3) by (cases i) (simp_all add: agent_step_def)

lemma agent_reach_inv: "agent_reach start ag \<Longrightarrow> agent_inv start \<Longrightarrow> encodes start \<Longrightarrow> agent_inv ag \<and> encodes ag"
proof (induction rule: agent_reach.induct)
  case (agent_next ag i ag')
  then show ?case using agent_step_ok [of ag i] by auto
qed simp

end
