(* ===== verification/Agent_Session.thy ===== *)
theory Agent_Session
  imports Agent_Run Mac_Sm
begin

text \<open>
  The properties of the E2 agent: a subscription from the request to its deletion, which requests the
  agent takes, what the descriptor 0 of aperiodic subscriptions and the digits in the pipe lead to, and
  that inputs within the protocol never abort it. The samples run the agent with the MAC model.
\<close>

declare bind_res_eq_Inr [simp del]

section \<open>The service models of the library as models of the agent\<close>

text \<open>None of them has an action definition, and none releases one. \<open>p\<close> is the model on top of a RAN.\<close>

definition subs_ans_of :: "sm_ag_if_ans_subs \<Rightarrow> 'd subs_ans" where
  "subs_ans_of a = (case a of PERIODIC_SUBSCRIPTION_FLRC ms \<Rightarrow> SUBS_PERIODIC (uint ms) None
     | APERIODIC_SUBSCRIPTION_FLRC \<Rightarrow> SUBS_APERIODIC)"

definition agent_model :: "('r \<Rightarrow> sm_agent_procs) \<Rightarrow> 'r \<Rightarrow> (byte_array, 'r) sm_agent" where
  "agent_model p r0 = \<lparr>sg_on_subscription = (\<lambda>r d. map_res subs_ans_of (ap_on_subscription (p r) d)),
     sg_on_indication = (\<lambda>r ad. ap_on_indication (p r) ad), sg_on_control = (\<lambda>r. ap_on_control (p r)),
     sg_on_e2_setup = (\<lambda>r. ap_on_e2_setup (p r)), sg_frees_act_def = False,
     sg_info_id = ap_info_id (p r0), sg_info_rev = ap_info_rev (p r0), sg_info_oid = ap_info_oid (p r0)\<rparr>"

context service_model
begin

text \<open>What the plug-in of the RIC asks for is taken, with the period of the command.\<close>

lemma agent_takes_command:
  assumes "map_of periods cmd = Some ms"
  shows "\<exists>d. rp_on_subscription ric cmd = Inr d \<and>
    sg_on_subscription (agent_model (\<lambda>r. ag (fst r) (snd r)) r0) r d = Inr (SUBS_PERIODIC (uint ms) None)"
  using subscription_law [OF assms, of "fst r" "snd r"] by (auto simp: agent_model_def subs_ans_of_def)

lemma periods_in_range: "map_of periods cmd = Some ms \<Longrightarrow> -1 < uint ms \<and> uint ms < 10001"
  by (auto simp: periods_def split: if_splits)

end

section \<open>A subscription from beginning to end\<close>

lemma arrived_turn:
  assumes "agent_inv ag" "\<not> ag_stop_token ag"
  shows "e2_event_loop_agent ag rn tfd (ag_fd ag) (SCTP_MSG_PAYLOAD ba) = sctp_msg_arrived_agent ag rn tfd ba"
  using assms by (simp add: e2_event_loop_agent_def next_socket handle_async_event_def)

lemma subscribe_turn:
  assumes inv: "agent_inv ag" "encodes ag" "\<not> ag_stop_token ag"
    and msg: "ap_dec (ag_ap ag) ba = RIC_SUBSCRIPTION_REQUEST sr"
    and acc: "agent_accepts ag rn sr sm (SUBS_PERIODIC ms ad)" and ms: "-1 < ms" "ms < 10001"
    and fd: "fresh_ag ag tfd" and new: "sr_ric_id sr \<notin> ie_ric_id ` snd ` subs_ag ag"
  shows "\<exists>m. e2_event_loop_agent ag rn tfd (ag_fd ag) (SCTP_MSG_PAYLOAD ba) = Inr (ag\<lparr>
      ag_io := (ag_io ag)\<lparr>aa_fds := tfd # aa_fds (ag_io ag), aa_timers := (aa_timers (ag_io ag))(tfd \<mapsto> ms_timer ms)\<rparr>,
      ag_ind_event := m, ag_sent := ag_sent ag @ [ap_enc (ag_ap ag) (sub_answer sr)]\<rparr>) \<and>
    agent_inv (ag\<lparr>
      ag_io := (ag_io ag)\<lparr>aa_fds := tfd # aa_fds (ag_io ag), aa_timers := (aa_timers (ag_io ag))(tfd \<mapsto> ms_timer ms)\<rparr>,
      ag_ind_event := m, ag_sent := ag_sent ag @ [ap_enc (ag_ap ag) (sub_answer sr)]\<rparr>) \<and>
    pairs_of m = insert (tfd, new_ind_event sr sm (ACT_DEF ad)) (subs_ag ag)"
proof -
  obtain ag' m where h: "e2ap_handle_subscription_request_agent ag rn tfd sr = Inr (sub_answer sr, ag')" "agent_inv ag'"
    "subs_ag ag' = insert (tfd, new_ind_event sr sm (ACT_DEF ad)) (subs_ag ag)"
    "ag' = ag\<lparr>ag_io := (ag_io ag)\<lparr>aa_fds := tfd # aa_fds (ag_io ag),
        aa_timers := (aa_timers (ag_io ag))(tfd \<mapsto> ms_timer ms)\<rparr>, ag_ind_event := m\<rparr>"
    using subscribe_periodic_ok [OF inv(1) acc ms fd new] by blast
  have "encodes ag'" using inv(2) by (simp add: encodes_def h(4))
  moreover have "e2ap_msg_handle_agent ag rn tfd (ap_dec (ag_ap ag) ba) = Inr (sub_answer sr, ag')"
    using h(1) by (simp add: msg e2ap_msg_handle_agent_def)
  ultimately have "e2_event_loop_agent ag rn tfd (ag_fd ag) (SCTP_MSG_PAYLOAD ba) =
      Inr (ag'\<lparr>ag_sent := ag_sent ag' @ [ap_enc (ag_ap ag') (sub_answer sr)]\<rparr>)"
    using agent_arrived [of ag rn tfd ba "sub_answer sr" ag'] arrived_turn [OF inv(1,3)]
    by (simp add: msg e2ap_msg_free_def)
  moreover have "agent_inv (ag'\<lparr>ag_sent := ag_sent ag' @ [ap_enc (ag_ap ag') (sub_answer sr)]\<rparr>)"
    by (rule agent_inv_frame [OF h(2)]) simp_all
  ultimately show ?thesis using h(3) by (intro exI [of _ m]) (simp add: h(4))
qed

lemma delete_turn:
  assumes inv: "agent_inv ag" "encodes ag" "\<not> ag_stop_token ag"
    and msg: "ap_dec (ag_ap ag) ba = RIC_SUBSCRIPTION_DELETE_REQUEST \<lparr>sd_ric_id = ie_ric_id ev\<rparr>"
    and p: "(fd, ev) \<in> subs_ag ag"
  shows "\<exists>m. e2_event_loop_agent ag rn tfd (ag_fd ag) (SCTP_MSG_PAYLOAD ba) = Inr ((unsubscribed fd ev m ag)\<lparr>
      ag_sent := ag_sent ag @ [ap_enc (ag_ap ag) (RIC_SUBSCRIPTION_DELETE_RESPONSE \<lparr>dp_ric_id = ie_ric_id ev\<rparr>)]\<rparr>) \<and>
    agent_inv ((unsubscribed fd ev m ag)\<lparr>
      ag_sent := ag_sent ag @ [ap_enc (ag_ap ag) (RIC_SUBSCRIPTION_DELETE_RESPONSE \<lparr>dp_ric_id = ie_ric_id ev\<rparr>)]\<rparr>) \<and>
    pairs_of m = subs_ag ag - {(fd, ev)}"
proof -
  let ?ans = "RIC_SUBSCRIPTION_DELETE_RESPONSE \<lparr>dp_ric_id = ie_ric_id ev\<rparr>"
  obtain m where m: "stop_ind_event ag (ie_ric_id ev) = Inr (True, unsubscribed fd ev m ag)"
    "agent_inv (unsubscribed fd ev m ag)" "pairs_of m = subs_ag ag - {(fd, ev)}"
    using stop_ind_event_ok [OF inv(1) p] by blast
  have "encodes (unsubscribed fd ev m ag)" using inv(2) by (simp add: encodes_def)
  moreover have "e2ap_msg_handle_agent ag rn tfd (ap_dec (ag_ap ag) ba) = Inr (?ans, unsubscribed fd ev m ag)"
    using m(1) by (simp add: msg e2ap_msg_handle_agent_def e2ap_handle_subscription_delete_request_agent_def)
  ultimately have "e2_event_loop_agent ag rn tfd (ag_fd ag) (SCTP_MSG_PAYLOAD ba) =
      Inr ((unsubscribed fd ev m ag)\<lparr>ag_sent := ag_sent ag @ [ap_enc (ag_ap ag) ?ans]\<rparr>)"
    using agent_arrived [of ag rn tfd ba ?ans "unsubscribed fd ev m ag"] arrived_turn [OF inv(1,3)]
    by (simp add: msg e2ap_msg_free_def)
  moreover have "agent_inv ((unsubscribed fd ev m ag)\<lparr>ag_sent := ag_sent ag @ [ap_enc (ag_ap ag) ?ans]\<rparr>)"
    by (rule agent_inv_frame [OF m(2)]) simp_all
  ultimately show ?thesis using m(3) by blast
qed

lemma timer_turns:
  assumes inv: "agent_inv ag" "\<not> ag_stop_token ag" and p: "(fd, ev) \<in> subs_ag ag" "ie_u ev = ACT_DEF ad"
    and ok: "\<forall>r \<in> set rns. reports_ok (ag_ap ag) (ie_ric_id ev) (ie_action_id ev) (sg_on_indication (ie_sm ev) r ad)"
  shows "fold_res (\<lambda>r ag. e2_event_loop_agent ag r tfd fd rcv) rns ag = Inr (ag\<lparr>ag_sent := ag_sent ag @
    concat (map (\<lambda>r. reported (ag_ap ag) (ie_ric_id ev) (ie_action_id ev) (sg_on_indication (ie_sm ev) r ad)) rns)\<rparr>)"
  using assms
proof (induction rns arbitrary: ag)
  case (Cons r rns)
  let ?rep = "reported (ag_ap ag) (ie_ric_id ev) (ie_action_id ev) (sg_on_indication (ie_sm ev) r ad)"
  let ?ag = "ag\<lparr>ag_sent := ag_sent ag @ ?rep\<rparr>"
  have fd: "fd \<noteq> 0" "fd > 0" using subs_fd(1,6) [OF Cons.prems(1,3)] Cons.prems(4) by auto
  have "e2_event_loop_agent ag r tfd fd rcv = Inr ?ag"
    using periodic_indication_ok [OF Cons.prems(4) fd(2), of ag r] next_timer [OF Cons.prems(1,3) fd(1), of rcv] Cons.prems
    by (simp add: e2_event_loop_agent_def handle_async_event_def)
  moreover have "agent_inv ?ag" by (rule agent_inv_frame [OF Cons.prems(1)]) simp_all
  from Cons.IH [OF this] Cons.prems have "fold_res (\<lambda>r ag. e2_event_loop_agent ag r tfd fd rcv) rns ?ag =
    Inr (?ag\<lparr>ag_sent := ag_sent ?ag @ concat (map (\<lambda>r. reported (ag_ap ?ag) (ie_ric_id ev) (ie_action_id ev)
      (sg_on_indication (ie_sm ev) r ad)) rns)\<rparr>)" by simp
  ultimately show ?case by simp
qed simp

text \<open>C7: A subscription with the E2 agent. The request is accepted under its own number and starts a timer
  with the period that the model asks for; every time it fires, what the RAN has to report at that moment
  goes out under the same number, nothing when there is nothing to report; the deletion is answered,
  stops the timer and leaves no trace but the release of the action definition.\<close>

theorem agent_subscription_lifecycle:
  assumes inv: "agent_inv ag" "encodes ag" "\<not> ag_stop_token ag"
    and msg: "ap_dec (ag_ap ag) ba1 = RIC_SUBSCRIPTION_REQUEST sr"
      "ap_dec (ag_ap ag) ba2 = RIC_SUBSCRIPTION_DELETE_REQUEST \<lparr>sd_ric_id = sr_ric_id sr\<rparr>"
    and acc: "agent_accepts ag rn sr sm (SUBS_PERIODIC ms ad)" and ms: "-1 < ms" "ms < 10001"
    and fd: "fresh_ag ag tfd" and new: "sr_ric_id sr \<notin> ie_ric_id ` snd ` subs_ag ag"
    and rep: "\<forall>r \<in> set rns. reports_ok (ag_ap ag) (sr_ric_id sr) (ra_id (hd (sr_action sr))) (sg_on_indication sm r ad)"
  shows "\<exists>ag1 ag2 ag3 t. e2_event_loop_agent ag rn tfd (ag_fd ag) (SCTP_MSG_PAYLOAD ba1) = Inr ag1 \<and>
    ag_sent ag1 = ag_sent ag @ [ap_enc (ag_ap ag) (sub_answer sr)] \<and>
    aa_timers (ag_io ag1) tfd = Some t \<and> fires_every ms t \<and>
    fold_res (\<lambda>r ag. e2_event_loop_agent ag r fd1 tfd rcv) rns ag1 = Inr ag2 \<and>
    ag_sent ag2 = ag_sent ag1 @ concat (map (\<lambda>r. reported (ag_ap ag) (sr_ric_id sr) (ra_id (hd (sr_action sr)))
      (sg_on_indication sm r ad)) rns) \<and>
    e2_event_loop_agent ag2 rn2 fd2 (ag_fd ag) (SCTP_MSG_PAYLOAD ba2) = Inr ag3 \<and>
    ag_sent ag3 = ag_sent ag2 @ [ap_enc (ag_ap ag) (RIC_SUBSCRIPTION_DELETE_RESPONSE \<lparr>dp_ric_id = sr_ric_id sr\<rparr>)] \<and>
    subs_ag ag3 = subs_ag ag \<and> aa_fds (ag_io ag3) = aa_fds (ag_io ag) \<and>
    aa_timers (ag_io ag3) = (aa_timers (ag_io ag))(tfd := None) \<and>
    ag_freed ag3 = ag_freed ag @ (if sg_frees_act_def sm then [ad] else []) \<and> agent_inv ag3"
proof -
  let ?ev = "new_ind_event sr sm (ACT_DEF ad)"
  let ?rep = "concat (map (\<lambda>r. reported (ag_ap ag) (sr_ric_id sr) (ra_id (hd (sr_action sr))) (sg_on_indication sm r ad)) rns)"
  obtain m where m: "e2_event_loop_agent ag rn tfd (ag_fd ag) (SCTP_MSG_PAYLOAD ba1) = Inr (ag\<lparr>
      ag_io := (ag_io ag)\<lparr>aa_fds := tfd # aa_fds (ag_io ag), aa_timers := (aa_timers (ag_io ag))(tfd \<mapsto> ms_timer ms)\<rparr>,
      ag_ind_event := m, ag_sent := ag_sent ag @ [ap_enc (ag_ap ag) (sub_answer sr)]\<rparr>)"
    "agent_inv (ag\<lparr>
      ag_io := (ag_io ag)\<lparr>aa_fds := tfd # aa_fds (ag_io ag), aa_timers := (aa_timers (ag_io ag))(tfd \<mapsto> ms_timer ms)\<rparr>,
      ag_ind_event := m, ag_sent := ag_sent ag @ [ap_enc (ag_ap ag) (sub_answer sr)]\<rparr>)"
    "pairs_of m = insert (tfd, ?ev) (subs_ag ag)"
    using subscribe_turn [OF inv msg(1) acc ms fd new] by blast
  define ag1 where "ag1 = ag\<lparr>
      ag_io := (ag_io ag)\<lparr>aa_fds := tfd # aa_fds (ag_io ag), aa_timers := (aa_timers (ag_io ag))(tfd \<mapsto> ms_timer ms)\<rparr>,
      ag_ind_event := m, ag_sent := ag_sent ag @ [ap_enc (ag_ap ag) (sub_answer sr)]\<rparr>"
  define ag2 where "ag2 = ag1\<lparr>ag_sent := ag_sent ag1 @ ?rep\<rparr>"
  have i1: "agent_inv ag1" "\<not> ag_stop_token ag1" "(tfd, ?ev) \<in> subs_ag ag1" using m(2,3) inv(3) by (simp_all add: ag1_def)
  have r: "fold_res (\<lambda>r ag. e2_event_loop_agent ag r fd1 tfd rcv) rns ag1 = Inr ag2"
    using timer_turns [OF i1, of ad rns fd1 rcv] rep by (simp add: ag2_def) (simp add: ag1_def)
  have i2: "agent_inv ag2" unfolding ag2_def by (rule agent_inv_frame [OF i1(1)]) simp_all
  have e2: "encodes ag2" "\<not> ag_stop_token ag2" "(tfd, ?ev) \<in> subs_ag ag2"
    "ap_dec (ag_ap ag2) ba2 = RIC_SUBSCRIPTION_DELETE_REQUEST \<lparr>sd_ric_id = ie_ric_id ?ev\<rparr>"
    using inv(2,3) i1(3) msg(2) by (simp_all add: encodes_def ag2_def) (simp_all add: ag1_def)
  obtain m' where m': "e2_event_loop_agent ag2 rn2 fd2 (ag_fd ag2) (SCTP_MSG_PAYLOAD ba2) = Inr ((unsubscribed tfd ?ev m' ag2)\<lparr>
      ag_sent := ag_sent ag2 @ [ap_enc (ag_ap ag2) (RIC_SUBSCRIPTION_DELETE_RESPONSE \<lparr>dp_ric_id = sr_ric_id sr\<rparr>)]\<rparr>)"
    "agent_inv ((unsubscribed tfd ?ev m' ag2)\<lparr>
      ag_sent := ag_sent ag2 @ [ap_enc (ag_ap ag2) (RIC_SUBSCRIPTION_DELETE_RESPONSE \<lparr>dp_ric_id = sr_ric_id sr\<rparr>)]\<rparr>)"
    "pairs_of m' = subs_ag ag2 - {(tfd, ?ev)}"
    using delete_turn [OF i2 e2(1,2,4,3), of rn2 fd2] by auto
  note f = fresh_agD [OF inv(1) fd]
  have "(tfd, ?ev) \<notin> subs_ag ag" using f(3) by force
  then have s: "pairs_of m' = subs_ag ag" using m'(3) m(3) by (simp add: ag2_def ag1_def)
  let ?ag3 = "(unsubscribed tfd ?ev m' ag2)\<lparr>
      ag_sent := ag_sent ag2 @ [ap_enc (ag_ap ag2) (RIC_SUBSCRIPTION_DELETE_RESPONSE \<lparr>dp_ric_id = sr_ric_id sr\<rparr>)]\<rparr>"
  have "ag_fd ag2 = ag_fd ag" by (simp add: ag2_def ag1_def)
  with m(1) m'(1,2) r s f(1) show ?thesis
    by (intro exI [of _ ag1] exI [of _ ag2] exI [of _ ?ag3] exI [of _ "ms_timer ms"])
      (simp add: ag1_def [symmetric], simp add: ag2_def ag1_def unsubscribed_def ms_timer_fires)
qed


section \<open>What the agent takes\<close>

lemma subscribe_period:
  assumes inv: "agent_inv ag" and acc: "agent_accepts ag rn sr sm (SUBS_PERIODIC ms ad)"
    and fd: "fresh_ag ag tfd" and new: "sr_ric_id sr \<notin> ie_ric_id ` snd ` subs_ag ag"
  shows "if ms \<in> {0..10000} then \<exists>ag'. e2ap_handle_subscription_request_agent ag rn tfd sr = Inr (sub_answer sr, ag')
    else e2ap_handle_subscription_request_agent ag rn tfd sr = Inl AssertFailed"
  using subscribe_periodic_ok [OF inv acc _ _ fd new] subscribe_accepted [OF inv acc, of tfd]
  by (cases "ms < 10001"; cases "-1 < ms") (auto simp: create_timer_ms_asio_agent_def)

text \<open>C33: Of the subscription requests under a number not in use, while no subscription without a period exists, the
  agent takes exactly those with one action, a report, for a function
  with a model, to which the model answers with no period or with one of 0 to 10000 milliseconds. Any
  other request stops the agent, and with it the base station that it is linked into.\<close>

theorem agent_accepts_exactly:
  assumes inv: "agent_inv ag" and fd: "fresh_ag ag tfd" and new: "sr_ric_id sr \<notin> ie_ric_id ` snd ` subs_ag ag"
    and room: "0 \<notin> fst ` subs_ag ag"
    and answers: "\<And>sm. rf_map (ag_plugin ag) (ran_func_id (sr_ric_id sr)) = Some sm \<Longrightarrow>
      is_ok (sg_on_subscription sm rn (generate_sm_subs_data sr))"
  shows "(if \<exists>sm subs. agent_accepts ag rn sr sm subs \<and> (\<forall>ms ad. subs = SUBS_PERIODIC ms ad \<longrightarrow> ms \<in> {0..10000})
    then \<exists>ag'. e2ap_handle_subscription_request_agent ag rn tfd sr = Inr (sub_answer sr, ag')
    else e2ap_handle_subscription_request_agent ag rn tfd sr = Inl AssertFailed)"
proof -
  let ?f = "ran_func_id (sr_ric_id sr)"
  note i = agent_invD [OF inv]
  consider (action) "\<not> (\<exists>a. sr_action sr = [a] \<and> ra_type a = RIC_ACT_REPORT)"
    | (plugin) "\<exists>a. sr_action sr = [a] \<and> ra_type a = RIC_ACT_REPORT" "?f = 0 \<or> rf_map (ag_plugin ag) ?f = None"
    | (subs) sm subs where "agent_accepts ag rn sr sm subs"
    using answers by (cases "rf_map (ag_plugin ag) ?f") (auto simp: agent_accepts_def is_ok_def)
  then show ?thesis
  proof cases
    case action
    then show ?thesis by (auto simp: e2ap_handle_subscription_request_agent_def supported_iff agent_accepts_def)
  next
    case plugin
    then have "sm_plugin_ag (ag_plugin ag) ?f = Inl AssertFailed"
      using sm_plugin_ag_iff [OF i(4), of ?f] by auto
    with plugin show ?thesis
      by (auto simp: e2ap_handle_subscription_request_agent_def supported_iff agent_accepts_def)
  next
    case (subs sm subs)
    have u: "sm' = sm \<and> subs' = subs" if "agent_accepts ag rn sr sm' subs'" for sm' subs'
      using that subs by (auto simp: agent_accepts_def)
    show ?thesis
    proof (cases subs)
      case SUBS_APERIODIC
      obtain m where "bi_map_insert (ag_ind_event ag) 0 4 (new_ind_event sr sm FREE_SUBS_APERIODIC) IND_EVENT_SZ = Inr m"
        using inds_insert [OF i(1), of 0 "new_ind_event sr sm FREE_SUBS_APERIODIC"] room new by auto
      with subscribe_accepted [OF inv subs, of tfd] SUBS_APERIODIC subs show ?thesis by auto
    next
      case (SUBS_PERIODIC ms ad)
      with subs have acc: "agent_accepts ag rn sr sm (SUBS_PERIODIC ms ad)" by simp
      have "(\<exists>sm subs. agent_accepts ag rn sr sm subs \<and> (\<forall>ms ad. subs = SUBS_PERIODIC ms ad \<longrightarrow> ms \<in> {0..10000})) \<longleftrightarrow>
          ms \<in> {0..10000}"
        using u acc SUBS_PERIODIC by blast
      then show ?thesis using subscribe_period [OF inv acc fd new] by simp
    qed
  qed
qed

section \<open>The digits in the pipe\<close>

lemma aperiodic_indication_pipe:
  assumes "aa_pipe_r (ag_io ag) > 0" "reports_ok (ag_ap ag) (ae_ric_id a) (ae_action_id a) (ai_report rn a)"
  shows "aperiodic_indication rn a ag = (let b = aa_pipe_bytes (ag_io ag) in
    if b = 0 then Inl Diverged else if b = 1 then Inl AssertFailed
    else Inr (ag\<lparr>ag_sent := ag_sent ag @ reported (ag_ap ag) (ae_ric_id a) (ae_action_id a) (ai_report rn a),
      ag_io := (ag_io ag)\<lparr>aa_pipe_bytes := b - 4\<rparr>\<rparr>))"
  using assms
  by (auto simp: aperiodic_indication_def reports_ok_def reported_def generate_aindication_def
    call_process_id_cell_def report_msg_def e2ap_send_bytes_agent_def consume_pipe_def consume_fd_async_def Let_def
    min_def split: sum.splits option.splits if_splits)

text \<open>C34: The agent reads four bytes from its pipe for every report that the RAN queued, while the RAN wrote
  the digits of the request's number. With \<open>k\<close> reports queued and \<open>b\<close> bytes in the pipe all of them are
  sent if at least two bytes are left for the last read; otherwise the assertion on a single byte aborts
  the agent, or a read of the empty pipe never returns.\<close>

theorem aperiodic_reports_pipe:
  assumes pipe: "aa_pipe_r (ag_io ag) > 0" and k: "as \<noteq> []" and b: "b = aa_pipe_bytes (ag_io ag)"
    and rep: "\<forall>a \<in> set as. reports_ok (ag_ap ag) (ae_ric_id a) (ae_action_id a) (ai_report rn a)"
  shows "fold_res (aperiodic_indication rn) as ag =
    (if 4 * (length as - 1) + 2 \<le> b
     then Inr (ag\<lparr>ag_sent := ag_sent ag @
            concat (map (\<lambda>a. reported (ag_ap ag) (ae_ric_id a) (ae_action_id a) (ai_report rn a)) as),
          ag_io := (ag_io ag)\<lparr>aa_pipe_bytes := b - 4 * length as\<rparr>\<rparr>)
     else Inl (if b mod 4 = 1 then AssertFailed else Diverged))"
  using assms
proof (induction as arbitrary: ag b)
  case (Cons a as)
  let ?rep = "reported (ag_ap ag) (ae_ric_id a) (ae_action_id a) (ai_report rn a)"
  have ok: "reports_ok (ag_ap ag) (ae_ric_id a) (ae_action_id a) (ai_report rn a)" using Cons.prems(4) by simp
  let ?ag = "ag\<lparr>ag_sent := ag_sent ag @ ?rep, ag_io := (ag_io ag)\<lparr>aa_pipe_bytes := b - 4\<rparr>\<rparr>"
  have step: "aperiodic_indication rn a ag = (if b = 0 then Inl Diverged else if b = 1 then Inl AssertFailed else Inr ?ag)"
    using aperiodic_indication_pipe [OF Cons.prems(1) ok] Cons.prems(3) by simp
  show ?case
  proof (cases as)
    case Nil
    then show ?thesis using step by (cases "b = 0"; cases "b = 1") auto
  next
    case (Cons a' as')
    show ?thesis
    proof (cases "4 \<le> b")
      case True
      have "fold_res (aperiodic_indication rn) as ?ag =
        (if 4 * (length as - 1) + 2 \<le> b - 4
         then Inr (?ag\<lparr>ag_sent := ag_sent ?ag @
                concat (map (\<lambda>a. reported (ag_ap ?ag) (ae_ric_id a) (ae_action_id a) (ai_report rn a)) as),
              ag_io := (ag_io ?ag)\<lparr>aa_pipe_bytes := b - 4 - 4 * length as\<rparr>\<rparr>)
         else Inl (if (b - 4) mod 4 = 1 then AssertFailed else Diverged))"
        using Cons.prems Cons by (intro Cons.IH) simp_all
      moreover have "(b - 4) mod 4 = b mod 4" using True by (simp add: le_mod_geq)
      moreover have "4 * (length as - 1) + 2 \<le> b - 4 \<longleftrightarrow> 4 * (length (a # as) - 1) + 2 \<le> b" using Cons True by auto
      ultimately show ?thesis using step True by simp
    next
      case False
      then consider "b = 0" | "b = 1" | "b = 2" | "b = 3" by linarith
      then show ?thesis
      proof cases
        case 3
        have "fold_res (aperiodic_indication rn) as ?ag = Inl Diverged"
          using Cons.prems Cons 3 Cons.IH [of ?ag 0] by simp
        then show ?thesis using step 3 Cons by simp
      next
        case 4
        have "fold_res (aperiodic_indication rn) as ?ag = Inl Diverged"
          using Cons.prems Cons 4 Cons.IH [of ?ag 0] by simp
        then show ?thesis using step 4 Cons by simp
      qed (use step Cons in simp_all)
    qed
  qed
qed simp

text \<open>A failed setup aborts the agent when the cause is of the class MISC or is one of the last three
  causes of the RIC request class, which v2.03 of the protocol added; for the classes that are left, a cause of the
  E2 node is printed as one of the transport, and one of the transport as one of the protocol: the two
  tables have the classes of v1.01.\<close>

theorem setup_failure_causes:
  "(e2ap_handle_setup_failure_agent ag f = (if cause_present (eu_cause f) = 6 \<or> 11 \<le> cause_idx (eu_cause f)
      then Inl AssertFailed else Inr (NONE_E2_MSG_TYPE, ag))) \<and>
   setup_failure_line (CAUSE_E2NODE 0) = Inr (''CAUSE_TRANSPORT'', Some ''CAUSE_TRANSPORT_UNSPECIFIED'') \<and>
   setup_failure_line (CAUSE_TRANSPORT 1) = Inr (''CAUSE_PROTOCOL'', Some ''CAUSE_PROTOCOL_ABSTRACT_SYNTAX_ERROR_REJECT'') \<and>
   setup_failure_line (CAUSE_PROTOCOL 6) = Inr (''CAUSE_MISC'', None)"
proof (intro conjI)
  show "e2ap_handle_setup_failure_agent ag f = (if cause_present (eu_cause f) = 6 \<or> 11 \<le> cause_idx (eu_cause f)
      then Inl AssertFailed else Inr (NONE_E2_MSG_TYPE, ag))"
    by (cases "eu_cause f") (auto simp: e2ap_handle_setup_failure_agent_def setup_failure_line_def Let_def c_assert_def)
qed (simp_all add: setup_failure_line_def cause_names_def cause_value_names_def Let_def)


section \<open>Two subscriptions without a period\<close>

text \<open>
  The state after the second one: the two trees still belong together, but the left one has the
  descriptor 0 twice.
\<close>

lemma second_aperiodic:
  assumes inv: "agent_inv ag" and acc: "agent_accepts ag rn sr sm SUBS_APERIODIC" and free: "\<not> sg_frees_act_def sm"
    and one: "(0, e1) \<in> subs_ag ag" and new: "sr_ric_id sr \<notin> ie_ric_id ` snd ` subs_ag ag"
  shows "\<exists>m. e2ap_handle_subscription_request_agent ag rn tfd sr = Inr (sub_answer sr, ag\<lparr>ag_ind_event := m\<rparr>) \<and>
    rb_inv cmp_fd (\<lambda>fd. fd > -1) (\<lambda>fd. [fd]) (bm_left m) \<and> rb_inv cmp_ind_event (\<lambda>_. True) ind_rank (bm_right m) \<and>
    kvs (rb_items (bm_left m)) = insert (0, new_ind_event sr sm FREE_SUBS_APERIODIC) (subs_ag ag) \<and>
    kvs (rb_items (bm_right m)) = insert (new_ind_event sr sm FREE_SUBS_APERIODIC, 0) ((subs_ag ag)\<inverse>) \<and>
    t_key_sz (bm_right m) = IND_EVENT_SZ"
proof -
  let ?ev = "new_ind_event sr sm FREE_SUBS_APERIODIC"
  let ?m = "ag_ind_event ag"
  have m: "inds.inv ?m" "t_key_sz (bm_left ?m) = 4" "t_key_sz (bm_right ?m) = IND_EVENT_SZ"
    using agent_invD(1) [OF inv] by (simp_all add: inds_inv_def)
  note i = m(1) [unfolded bm_inv_def]
  obtain L where L: "assoc_rb_tree_insert (bm_left ?m) 0 4 ?ev = Inr L" "rb_inv cmp_fd (\<lambda>fd. fd > -1) (\<lambda>fd. [fd]) L"
    "rb_items L = sorted_insert (\<lambda>fd. [fd]) (t_brk (bm_left ?m), 0, ?ev) (rb_items (bm_left ?m))"
    using fd.rb_insert_ok [of "bm_left ?m" 0 4 ?ev] i m(2) by auto
  obtain R where R: "assoc_rb_tree_insert (bm_right ?m) ?ev IND_EVENT_SZ 0 = Inr R"
    "rb_inv cmp_ind_event (\<lambda>_. True) ind_rank R"
    "rb_items R = sorted_insert ind_rank (t_brk (bm_right ?m), ?ev, 0) (rb_items (bm_right ?m))"
    "t_key_sz R = t_key_sz (bm_right ?m)"
    using ind_ev.rb_insert_ok [of "bm_right ?m" IND_EVENT_SZ ?ev 0] i m(3) by auto
  have c: "t_comp (bm_right ?m) = cmp_ind_event" "t_comp (bm_left ?m) = cmp_fd" using i by (simp_all add: rb_inv_def)
  have "bi_map_insert ?m 0 4 ?ev IND_EVENT_SZ = Inr (?m\<lparr>bm_left := L, bm_right := R\<rparr>)"
    using L(1) R(1) ind_ev.comp_same [of ?ev ?ev]
    by (simp add: bi_map_insert_def c IND_EVENT_SZ_def cmp_fd_def)
  moreover have "kvs (rb_items L) = insert (0, ?ev) (subs_ag ag)" "kvs (rb_items R) = insert (?ev, 0) ((subs_ag ag)\<inverse>)"
    using i by (simp_all add: L(3) R(3) kvs_def set_sorted_insert pairs_of_def)
  ultimately show ?thesis
    using subscribe_accepted [OF inv acc, of tfd] L(2) R(2,4) m(3) by (intro exI [of _ "?m\<lparr>bm_left := L, bm_right := R\<rparr>"]) simp
qed

lemma right_entry:
  assumes m: "rb_inv cmp_ind_event (\<lambda>_. True) ind_rank R" and w: "(w, x :: int) \<in> kvs (rb_items R)"
    and only: "\<And>k y. (k, y) \<in> kvs (rb_items R) \<Longrightarrow> ie_ric_id k = ie_ric_id w \<Longrightarrow> k = w \<and> y = x"
  shows "\<exists>it R'. search R (ie_ric_id w) eq_ind_event = Inr it \<and> it \<noteq> assoc_rb_tree_end R \<and> assoc_rb_tree_key R it = Inr w \<and>
    assoc_rb_tree_extract R w = Inr (x, R') \<and> t_comp R' = cmp_ind_event"
proof -
  have r: "rb_struct R (tree_of R)" using m by (simp add: rb_inv_def)
  have mem: "\<exists>e \<in> set (rb_items R). ie_ric_id w = ie_ric_id (it_key e)" using w by (force simp: kvs_elem)
  with inds.rm.find_first [OF m, of "eq_ind_event (ie_ric_id w)" "\<lambda>e. ie_ric_id w = ie_ric_id e"]
  obtain xs a k y ys where f: "rb_items R = xs @ (a, k, y) # ys" "rb_find R (eq_ind_event (ie_ric_id w)) = Inr a"
    "a \<noteq> assoc_rb_tree_end R" "ie_ric_id w = ie_ric_id k"
    by (auto simp: eq_ind_event_def)
  have "k = w" using only [of k y] f(1,4) by (simp add: kvs_def)
  then have "assoc_rb_tree_key R a = Inr w" using rb_key_ok [OF r, of a k y] f(1) by (simp add: rb_items_def)
  moreover have "\<exists>e \<in> set (rb_items R). ind_rank (it_key e) = ind_rank w" using mem by (metis ind_rank_eq)
  with ind_ev.rb_extract_ok [OF m, of w] obtain xs a k y ys R' where e: "rb_items R = xs @ (a, k, y) # ys"
    "ind_rank k = ind_rank w" "assoc_rb_tree_extract R w = Inr (y, R')" "rb_inv cmp_ind_event (\<lambda>_. True) ind_rank R'"
    by auto
  have "y = x" using only [of k y] e(1,2) by (simp add: kvs_def ind_rank_eq)
  ultimately show ?thesis using f(2,3) e(3,4) by (auto simp: rb_find_if rb_inv_def)
qed

lemma left_entry:
  assumes m: "rb_inv cmp_fd (\<lambda>fd. fd > -1) (\<lambda>fd. [fd]) L" and e: "(0, e) \<in> kvs (rb_items L)"
  shows "\<exists>v L'. assoc_rb_tree_extract L 0 = Inr (v, L') \<and> (0, v) \<in> kvs (rb_items L)"
proof -
  have "\<exists>e \<in> set (rb_items L). [it_key e] = [0]" using e by (force simp: kvs_elem)
  with fd.rb_extract_ok [OF m, of 0] obtain xs a k v ys L' where "rb_items L = xs @ (a, k, v) # ys" "[k] = [0]"
    "assoc_rb_tree_extract L 0 = Inr (v, L')"
    by auto
  then show ?thesis by (auto simp: kvs_def)
qed

text \<open>All subscriptions without a period are registered under descriptor 0, so that the map of the agent
  takes a second one but cannot tell them apart from that side: both are answered, and of the two there
  is one whose deletion aborts the agent.\<close>

theorem second_aperiodic_subscription:
  assumes inv: "agent_inv ag" and acc: "agent_accepts ag rn sr sm SUBS_APERIODIC" and free: "\<not> sg_frees_act_def sm"
    and one: "(0, e1) \<in> subs_ag ag" and new: "sr_ric_id sr \<notin> ie_ric_id ` snd ` subs_ag ag"
  shows "\<exists>ag' i. e2ap_handle_subscription_request_agent ag rn tfd sr = Inr (sub_answer sr, ag') \<and>
    i \<in> {ie_ric_id e1, sr_ric_id sr} \<and>
    e2ap_handle_subscription_delete_request_agent ag' \<lparr>sd_ric_id = i\<rparr> = Inl AssertFailed"
proof -
  let ?ev = "new_ind_event sr sm FREE_SUBS_APERIODIC"
  obtain m where m: "e2ap_handle_subscription_request_agent ag rn tfd sr = Inr (sub_answer sr, ag\<lparr>ag_ind_event := m\<rparr>)"
    "rb_inv cmp_fd (\<lambda>fd. fd > -1) (\<lambda>fd. [fd]) (bm_left m)" "rb_inv cmp_ind_event (\<lambda>_. True) ind_rank (bm_right m)"
    "kvs (rb_items (bm_left m)) = insert (0, ?ev) (subs_ag ag)"
    "kvs (rb_items (bm_right m)) = insert (?ev, 0) ((subs_ag ag)\<inverse>)" "t_key_sz (bm_right m) = IND_EVENT_SZ"
    using second_aperiodic [OF inv acc free one new] by blast
  note u = inds_unique [OF agent_invD(1) [OF inv] _ one]
  have e1: "ie_ric_id e1 \<noteq> sr_ric_id sr" using new one by force
  have "(0, ?ev) \<in> kvs (rb_items (bm_left m))" unfolding m(4) by simp
  from left_entry [OF m(2) this] obtain v L where v: "assoc_rb_tree_extract (bm_left m) 0 = Inr (v, L)"
    "(0, v) \<in> insert (0, ?ev) (subs_ag ag)" unfolding m(4) by blast
  then have two: "v \<in> {e1, ?ev}" using u(1) [of 0 v] by auto
  define w where "w = (if v = ?ev then e1 else ?ev)"
  have w: "w \<in> {e1, ?ev}" "ie_ric_id w \<noteq> ie_ric_id v" "ie_ric_id w \<in> {ie_ric_id e1, sr_ric_id sr}"
    using two e1 by (auto simp: w_def)
  have w0: "(w, 0) \<in> kvs (rb_items (bm_right m))" using w(1) one unfolding m(5) by auto
  have only: "k = w \<and> fd = 0" if "(k, fd) \<in> kvs (rb_items (bm_right m))" "ie_ric_id k = ie_ric_id w" for k fd
    using that w(1) u(2) [of fd k] new e1 unfolding m(5) by force
  obtain it R where R: "search (bm_right m) (ie_ric_id w) eq_ind_event = Inr it" "it \<noteq> assoc_rb_tree_end (bm_right m)"
    "assoc_rb_tree_key (bm_right m) it = Inr w" "assoc_rb_tree_extract (bm_right m) w = Inr (0, R)" "t_comp R = cmp_ind_event"
    using right_entry [OF m(3) w0 only] by blast
  have "\<exists>c. cmp_ind_event w v = Inr c \<and> c \<noteq> 0"
    using ind_ev.comp_law [of w v] w(2) by (auto simp: ind_rank_eq)
  then have "bi_map_extract_right m w IND_EVENT_SZ = Inl AssertFailed"
    using R(4,5) v(1) m(6) by (auto simp: bi_map_extract_right_def)
  moreover have "free_act_def_ag w ag' = Inr ag'" for ag' :: "('a, 'b) e2_agent"
    using agent_invD(12) [OF inv] one free w(1) by (auto simp: free_act_def_ag_def)
  ultimately have "stop_ind_event (ag\<lparr>ag_ind_event := m\<rparr>) (ie_ric_id w) = Inl AssertFailed"
    using R(1-3) by (simp add: stop_ind_event_def Let_def)
  then have "e2ap_handle_subscription_delete_request_agent (ag\<lparr>ag_ind_event := m\<rparr>) \<lparr>sd_ric_id = ie_ric_id w\<rparr> = Inl AssertFailed"
    by (simp add: e2ap_handle_subscription_delete_request_agent_def)
  with m(1) w(3) show ?thesis by blast
qed


section \<open>A connection that is lost during the setup\<close>

text \<open>C35: The agent waits for one event at most, the answer to its setup request. When the connection is lost while
  it waits, the handler of the notification starts a second timer for the same event; the next time either
  timer fires, the agent aborts.\<close>

theorem lost_during_setup_aborts:
  assumes inv: "agent_inv ag" "\<not> ag_stop_token ag" and p: "pend_ag ag = {(fd, SETUP_REQUEST_PENDING_EVENT)}"
    and fresh: "fresh_ag ag tfd" and late: "fd' \<in> {fd, tfd}"
  shows "\<exists>ag'. e2_event_loop_agent ag rn tfd (ag_fd ag) SCTP_MSG_NOTIFICATION = Inr ag' \<and>
    e2_event_loop_agent ag' rn' tfd' fd' rcv = Inl AssertFailed"
proof -
  let ?m = "ag_pending ag" and ?e = SETUP_REQUEST_PENDING_EVENT
  note i = agent_invD [OF inv(1)] and f = fresh_agD [OF inv(1) fresh]
  have m: "apend.inv ?m" "t_key_sz (bm_left ?m) = 4" "t_key_sz (bm_right ?m) = PENDING_EVENT_SZ"
    using i(2) by (simp_all add: apend_inv_def)
  note j = m(1) [unfolded bm_inv_def]
  obtain L where L: "assoc_rb_tree_insert (bm_left ?m) tfd 4 ?e = Inr L" "rb_inv cmp_fd (\<lambda>fd. fd > -1) (\<lambda>fd. [fd]) L"
    "rb_items L = sorted_insert (\<lambda>fd. [fd]) (t_brk (bm_left ?m), tfd, ?e) (rb_items (bm_left ?m))"
    using fd.rb_insert_ok [of "bm_left ?m" tfd 4 ?e] j m(2) f(1) by auto
  obtain R where R: "assoc_rb_tree_insert (bm_right ?m) ?e PENDING_EVENT_SZ tfd = Inr R"
    "rb_inv cmp_pending (\<lambda>_. True) (\<lambda>e. [pending_event_val e]) R"
    "rb_items R = sorted_insert (\<lambda>e. [pending_event_val e]) (t_brk (bm_right ?m), ?e, tfd) (rb_items (bm_right ?m))"
    using pend1.rb_insert_ok [of "bm_right ?m" PENDING_EVENT_SZ ?e tfd] j m(3) by auto
  have c: "t_comp (bm_right ?m) = cmp_pending" "t_comp (bm_left ?m) = cmp_fd" using j by (simp_all add: rb_inv_def)
  have ins: "bi_map_insert ?m tfd 4 ?e PENDING_EVENT_SZ = Inr (?m\<lparr>bm_left := L, bm_right := R\<rparr>)"
    using L(1) R(1) f(1)
    by (simp add: bi_map_insert_def c PENDING_EVENT_SZ_def cmp_fd_def cmp_pending_def cmp_pending_event_def)
  have len: "length (sorted_insert rank e es) = Suc (length es)" for rank e and es :: "(nat \<times> 'k \<times> 'v) list"
    by (simp add: sorted_insert_def) (metis length_append takeWhile_dropWhile_id)
  have "assoc_rb_tree_size (bm_left ?m) = 1" "assoc_rb_tree_size (bm_right ?m) = 1"
    using bm_sizes [OF m(1)] p by simp_all
  then have two: "bi_map_size (?m\<lparr>bm_left := L, bm_right := R\<rparr>) = Inr 2"
    using j by (simp add: bi_map_size_def Let_def rb_size_items [OF L(2)] rb_size_items [OF R(2)] L(3) R(3) len
      rb_size_items [of cmp_fd "\<lambda>fd. fd > -1" "\<lambda>fd. [fd]"] rb_size_items [of cmp_pending "\<lambda>_. True" "\<lambda>e. [pending_event_val e]"])
  define ag' where "ag' = ag\<lparr>ag_io := (ag_io ag)\<lparr>aa_fds := tfd # aa_fds (ag_io ag),
    aa_timers := (aa_timers (ag_io ag))(tfd \<mapsto> ms_timer 3000)\<rparr>, ag_pending := ?m\<lparr>bm_left := L, bm_right := R\<rparr>\<rparr>"
  have lost: "e2_event_loop_agent ag rn tfd (ag_fd ag) SCTP_MSG_NOTIFICATION = Inr ag'"
    using ins agent_timer [of 3000 tfd "ag_io ag"] f(1,2) inv(2)
    by (simp add: e2_event_loop_agent_def next_socket [OF inv(1)] handle_async_event_def notification_handle_ag_def
      start_setup_pending_def Let_def ag'_def)
  have fd': "fd' > 0" "fd' \<noteq> ag_fd ag" "fd' \<noteq> aa_pipe_r (ag_io ag)" "fd' \<notin> fst ` subs_ag ag"
    using late f i(6,7,9,10) p by auto
  have same: "ag_ind_event ag' = ag_ind_event ag" by (simp add: ag'_def)
  have "ind_event_of ag' fd' = Inr None"
    using ind_event_of_ok [OF inv(1) fd'(1)] fd'(4) unfolding ind_event_of_def same by blast
  moreover have "pend_event_of ag' fd' = Inl AssertFailed" using two fd'(1) by (simp add: pend_event_of_def ag'_def)
  moreover have "ag_fd ag' = ag_fd ag" "aa_pipe_r (ag_io ag') = aa_pipe_r (ag_io ag)" "\<not> ag_stop_token ag'"
    using inv(2) by (simp_all add: ag'_def)
  ultimately have "e2_event_loop_agent ag' rn' tfd' fd' rcv = Inl AssertFailed"
    using fd' by (simp add: e2_event_loop_agent_def next_async_event_agent_def net_pkt_def aind_event_of_def)
  with lost show ?thesis by blast
qed

section \<open>The line the agent prints\<close>

lemma show_dec_u64: "length (show_dec (unat (i :: u64))) \<le> 20"
  using unat_small [of i] by (simp add: show_dec_length)

text \<open>The line has to fit into 128 characters; the assertion on its length looks at the last part only.\<close>

lemma init_agent_line_bound:
  "init_agent_line ip port g nb =
    (let l = 68 + length ip + length (show_dec (nat port)) + length (get_e2ap_ngran_name (gn_type g)) +
         length (show_dec (nat nb)) + (case gn_cu_du_id g of None \<Rightarrow> 1 | Some i \<Rightarrow> 14 + length (show_dec (unat i))) in
     if l < 128 then Inr (projr (init_agent_line ip port g nb)) else Inl OutOfBounds)"
  using show_dec_u64 by (simp add: init_agent_line_def Let_def in_bounds_def c_assert_def split: option.splits)

section \<open>Runs of the agent\<close>

text \<open>C6: The agent starts: with at least one service model, all of which describe themselves, it sends its setup
  request. From then on no input within the protocol aborts it or blocks it: subscriptions, deletions,
  controls, the answers to its setup, lost connections, timers, and reports of the RAN for requests whose
  number has four digits at least; in every state it reaches, the event queue holds the socket, the pipe
  and one timer for each subscription that needs one and for the pending setup.\<close>

theorem agent_never_aborts:
  assumes fds: "0 < sock" "0 < pipe_r" "sock \<noteq> pipe_r" "0 < tfd" "tfd \<notin> {sock, pipe_r}"
    and port: "0 < port" "port < 65535" "length ip < 16" and enc: "\<forall>m. ap_enc ap m \<noteq> []"
    and models: "sms \<noteq> []" "\<forall>sm \<in> set sms. is_ok (sg_on_e2_setup sm rn)" "\<forall>c \<in> set (rs rn (gn_type i)). comp_id_ok (ca_id c)"
  shows "\<exists>ag0 sr ag1. e2_init_agent ip port i rs sock pipe_r ap sms = Inr ag0 \<and> e2_start_agent ag0 rn tfd = Inr (sr, ag1) \<and>
    ag_sent ag1 = [ap_enc ap (E2_SETUP_REQUEST sr)] \<and> set (map rf_id (es_ran_func sr)) = sg_info_id ` set sms \<and>
    (\<forall>ag inp. agent_reach ag1 ag \<longrightarrow> valid_agent_input ag inp \<longrightarrow>
      (\<exists>ag'. agent_step ag inp = Inr ag' \<and> agent_reach ag1 ag' \<and> distinct (aa_fds (ag_io ag')) \<and>
        fds_ag ag' = {ag_fd ag', aa_pipe_r (ag_io ag')} \<union> (fst ` subs_ag ag' - {0}) \<union> fst ` pend_ag ag'))"
proof -
  obtain ag0 where a0: "e2_init_agent ip port i rs sock pipe_r ap sms = Inr ag0" "agent_inv ag0" "subs_ag ag0 = {}"
    "pend_ag ag0 = {}" "ag_sent ag0 = []" "ag_ap ag0 = ap" "ag_id ag0 = i" "ag_read_setup_ran ag0 = rs"
    "fds_ag ag0 = {sock, pipe_r}" "snd ` set (rb_items (ag_plugin ag0)) = (\<lambda>sm. (sg_info_id sm, sm)) ` set sms"
    using e2_init_agent_ok [OF fds(1-3) port, of i rs ap sms] by auto
  have "rb_items (ag_plugin ag0) \<noteq> []" using a0(10) models(1) by auto
  then have ann: "announces ag0 rn" using models(2,3) a0 by (auto simp: announces_def)
  have "fresh_ag ag0 tfd" using fds(4,5) a0(9) by (simp add: fresh_ag_def)
  from e2_start_agent_ok [OF a0(2) ann a0(4) this] enc a0(5,6) obtain ag1 where
    a1: "e2_start_agent ag0 rn tfd = Inr (setup_request_of ag0 rn, ag1)" "agent_inv ag1" "ag_ap ag1 = ap"
      "ag_sent ag1 = [ap_enc ap (E2_SETUP_REQUEST (setup_request_of ag0 rn))]" by auto
  have e1: "encodes ag1" using enc a1(3) by (simp add: encodes_def)
  have "set (map rf_id (es_ran_func (setup_request_of ag0 rn))) = (sg_info_id \<circ> snd) ` snd ` set (rb_items (ag_plugin ag0))"
    by (auto simp: setup_request_of_def setup_ran_func_def image_image)
  then have rf: "set (map rf_id (es_ran_func (setup_request_of ag0 rn))) = sg_info_id ` set sms"
    by (simp add: a0(10) image_image)
  have "\<exists>ag'. agent_step ag inp = Inr ag' \<and> agent_reach ag1 ag' \<and> distinct (aa_fds (ag_io ag')) \<and>
        fds_ag ag' = {ag_fd ag', aa_pipe_r (ag_io ag')} \<union> (fst ` subs_ag ag' - {0}) \<union> fst ` pend_ag ag'"
    if r: "agent_reach ag1 ag" and v: "valid_agent_input ag inp" for ag inp
  proof -
    obtain ag' where "agent_step ag inp = Inr ag'" "agent_inv ag'"
      using agent_reach_inv [OF r a1(2) e1] agent_step_ok [OF _ _ v] by blast
    with agent_next [OF r v] agent_invD(5,7) show ?thesis by blast
  qed
  with a0(1) a1(1,4) rf show ?thesis by blast
qed


section \<open>An agent with two models\<close>

text \<open>
  A DU with the MAC model, and with a model, 3, that reports on its own; the bytes of the sample name the message.
\<close>

type_synonym sample_ran = "(nat \<Rightarrow> nat \<Rightarrow> u8) \<times> (mac_ind_data, mac_ctrl_req_data) sm_io_ag"

definition ran_now :: "bool \<Rightarrow> sample_ran" where
  "ran_now avail = (\<lambda>_ _. 0, sample_mac_io avail)"

definition mac_model :: "(byte_array, sample_ran) sm_agent" where
  "mac_model = agent_model (\<lambda>r. make_mac_sm_agent (fst r) (snd r)) (ran_now True)"

definition aper_model :: "(byte_array, sample_ran) sm_agent" where
  "aper_model = mac_model\<lparr>sg_on_subscription := (\<lambda>_ _. Inr SUBS_APERIODIC), sg_info_id := 3,
     sg_on_indication := (\<lambda>_ d. Inr (map_option (\<lambda>bs. \<lparr>sid_hdr = [], sid_msg = bs, sid_call_process_id = None\<rparr>) d))\<rparr>"

definition agent_sr :: "u16 \<Rightarrow> u32 \<Rightarrow> ric_subscription_request" where
  "agent_sr f n = \<lparr>sr_ric_id = \<lparr>ric_req_id = n, ric_inst_id = 0, ran_func_id = f\<rparr>, sr_event_trigger = enc_u32 10,
     sr_action = [\<lparr>ra_id = 0, ra_type = RIC_ACT_REPORT, ra_definition = None, ra_subseq = None\<rparr>]\<rparr>"

definition agent_setup_response :: e2_setup_response where
  "agent_setup_response = \<lparr>et_trans_id = 0, et_id = \<lparr>gr_plmn = gn_plmn (sample_du 3), gr_near_ric_id = 25\<rparr>,
     et_accepted = [142], et_rejected = [], et_ccaa = [\<lparr>cx_type = F1_TYPE, cx_id = F1_ID 7,
       cx_ack = \<lparr>ak_outcome = SUCCESS_E2AP_NODE_COMP_CONF_ACK, ak_cause = None\<rparr>\<rparr>]\<rparr>"

definition agent_ap :: e2ap_ap where
  "agent_ap = sample_ap\<lparr>ap_dec := \<lambda>b.
     if b = [1] then RIC_SUBSCRIPTION_REQUEST (agent_sr 142 1021)
     else if b = [2] then RIC_SUBSCRIPTION_DELETE_REQUEST \<lparr>sd_ric_id = sr_ric_id (agent_sr 142 1021)\<rparr>
     else E2_SETUP_RESPONSE agent_setup_response\<rparr>"

lemma agent_ap_simps [simp]:
  "ap_enc agent_ap = ap_enc sample_ap" "ap_dec agent_ap [1] = RIC_SUBSCRIPTION_REQUEST (agent_sr 142 1021)"
  "ap_dec agent_ap [2] = RIC_SUBSCRIPTION_DELETE_REQUEST \<lparr>sd_ric_id = sr_ric_id (agent_sr 142 1021)\<rparr>"
  "ap_dec agent_ap [3] = E2_SETUP_RESPONSE agent_setup_response"
  by (simp_all add: agent_ap_def)

lemma sample_model_simps [simp]:
  "sg_info_id mac_model = 142" "sg_info_id aper_model = 3" "\<not> sg_frees_act_def mac_model" "\<not> sg_frees_act_def aper_model"
  "is_ok (sg_on_e2_setup mac_model r)" "is_ok (sg_on_e2_setup aper_model r)"
  by (simp_all add: mac_model_def aper_model_def agent_model_def make_mac_sm_agent_def SM_MAC_ID_def is_ok_def
      on_e2_setup_mac_sm_ag_def e2_setup_name_def SM_MAC_STR_def)

lemma rf_map_two:
  assumes "snd ` set (rb_items T) = {(f, a), (g, b)}" "f \<noteq> g"
  shows "rf_map T f = Some a" "rf_map T g = Some b"
proof -
  have m: "rf_map T k = Some c" if "k \<in> {f, g}" "c = (if k = f then a else b)" for k c
  proof (cases "rf_map T k")
    case None
    then have "k \<notin> fst ` {(f, a), (g, b)}" by (simp add: rf_map_None assms(1))
    with that show ?thesis by auto
  next
    case (Some d)
    then have "(k, d) \<in> {(f, a), (g, b)}" using rf_map_item [OF Some] by (simp only: assms(1))
    with Some that assms(2) show ?thesis by auto
  qed
  show "rf_map T f = Some a" "rf_map T g = Some b" using m assms(2) by auto
qed

text \<open>The agent after its start, before the setup request.\<close>

definition fresh_sample :: "(byte_array, sample_ran) e2_agent \<Rightarrow> bool" where
  "fresh_sample ag \<longleftrightarrow> agent_inv ag \<and> encodes ag \<and> \<not> ag_stop_token ag \<and> subs_ag ag = {} \<and> pend_ag ag = {} \<and>
     fds_ag ag = {3, 4} \<and> ag_fd ag = 3 \<and> aa_pipe_r (ag_io ag) = 4 \<and> ag_ap ag = agent_ap \<and> ag_sent ag = [] \<and>
     rf_map (ag_plugin ag) 142 = Some mac_model \<and> rf_map (ag_plugin ag) 3 = Some aper_model \<and> rf_map (ag_plugin ag) 7 = None"

lemma fresh_sampleD:
  assumes "fresh_sample ag"
  shows "agent_inv ag" "encodes ag" "\<not> ag_stop_token ag" "subs_ag ag = {}" "pend_ag ag = {}" "fds_ag ag = {3, 4}"
    "ag_fd ag = 3" "aa_pipe_r (ag_io ag) = 4" "ag_ap ag = agent_ap" "ag_sent ag = []"
    "rf_map (ag_plugin ag) 142 = Some mac_model" "rf_map (ag_plugin ag) 3 = Some aper_model" "rf_map (ag_plugin ag) 7 = None"
  using assms by (simp_all add: fresh_sample_def)

lemma sample_agent: "\<exists>ag. fresh_sample ag"
proof -
  obtain ag :: "(byte_array, sample_ran) e2_agent" where ag: "agent_inv ag" "subs_ag ag = {}" "pend_ag ag = {}"
    "ag_sent ag = []" "ag_ap ag = agent_ap" "\<not> ag_stop_token ag" "ag_fd ag = 3"
    "aa_pipe_r (ag_io ag) = 4" "fds_ag ag = {3, 4}" "snd ` set (rb_items (ag_plugin ag)) = {(142, mac_model), (3, aper_model)}"
    using e2_init_agent_ok [of 3 4 36421 "''10.0.0.1''" "sample_du 3" "\<lambda>_ _. [sample_cca]" agent_ap "[mac_model, aper_model]"]
    by auto
  have "encodes ag" by (simp add: encodes_def ag(5))
  moreover have "rf_map (ag_plugin ag) 7 = None" by (simp add: rf_map_None ag(10))
  ultimately show ?thesis using ag rf_map_two [OF ag(10)] by (intro exI [of _ ag]) (simp add: fresh_sample_def)
qed

lemma sample_accepts:
  assumes "rf_map (ag_plugin ag) 142 = Some mac_model" "rf_map (ag_plugin ag) 3 = Some aper_model"
  shows "agent_accepts ag r (agent_sr 142 n) mac_model (SUBS_PERIODIC 10 None)"
    "agent_accepts ag r (agent_sr 3 n) aper_model SUBS_APERIODIC"
  using assms by (simp_all add: agent_accepts_def agent_sr_def generate_sm_subs_data_def aper_model_def)
    (simp add: mac_model_def agent_model_def make_mac_sm_agent_def on_subscription_mac_sm_ag_def
      mac_dec_event_trigger_def subs_ans_of_def)

lemma sample_reports:
  "sg_on_indication mac_model (ran_now True) None = Inr (Some \<lparr>sid_hdr = enc_u32 0,
     sid_msg = mac_image (\<lambda>_ _. 0) \<lparr>mm_ue_stats = [sample_ue], mm_tstamp = 42\<rparr>, sid_call_process_id = None\<rparr>)"
  "sg_on_indication mac_model (ran_now False) None = Inr None"
  by (simp_all add: mac_model_def agent_model_def make_mac_sm_agent_def ran_now_def sample_mac_io_def
      mac_agent_report sample_mac_fits) (simp add: on_indication_mac_sm_ag_def mac_frees)

lemma agent_sr_simps [simp]:
  "sr_ric_id (agent_sr f n) = \<lparr>ric_req_id = n, ric_inst_id = 0, ran_func_id = f\<rparr>" "ra_id (hd (sr_action (agent_sr f n))) = 0"
  by (simp_all add: agent_sr_def)

section \<open>The properties on the sample\<close>

theorem agent_subscription_lifecycle_witness:
  "\<exists>ag ag1 ag2 ag3. fresh_sample ag \<and>
    e2_event_loop_agent ag (ran_now True) 5 3 (SCTP_MSG_PAYLOAD [1]) = Inr ag1 \<and>
    fold_res (\<lambda>r ag. e2_event_loop_agent ag r 6 5 SCTP_MSG_NOTIFICATION) [ran_now True, ran_now False, ran_now True] ag1 = Inr ag2 \<and>
    e2_event_loop_agent ag2 (ran_now True) 6 3 (SCTP_MSG_PAYLOAD [2]) = Inr ag3 \<and>
    ag_sent ag3 = [[3, 253], [4, 253], [4, 253], [0]] \<and> subs_ag ag3 = {} \<and> fds_ag ag3 = {3, 4}"
proof -
  let ?rns = "[ran_now True, ran_now False, ran_now True]" and ?sr = "agent_sr 142 1021"
  obtain ag where s: "fresh_sample ag" using sample_agent by blast
  note a = fresh_sampleD [OF s]
  have rep: "\<forall>r \<in> set ?rns. reports_ok (ag_ap ag) (sr_ric_id ?sr) (ra_id (hd (sr_action ?sr))) (sg_on_indication mac_model r None)"
    by (simp add: a(9) sample_reports reports_ok_def report_msg_def)
  have dec: "ap_dec (ag_ap ag) [1] = RIC_SUBSCRIPTION_REQUEST ?sr"
    "ap_dec (ag_ap ag) [2] = RIC_SUBSCRIPTION_DELETE_REQUEST \<lparr>sd_ric_id = sr_ric_id ?sr\<rparr>" by (simp_all add: a(9))
  have fresh: "fresh_ag ag 5" "sr_ric_id ?sr \<notin> ie_ric_id ` snd ` subs_ag ag" by (simp_all add: fresh_ag_def a(4,6))
  note acc = sample_accepts(1) [OF a(11,12), of "ran_now True" 1021]
  note run = agent_subscription_lifecycle [OF a(1-3) dec acc _ _ fresh rep, of 6 SCTP_MSG_NOTIFICATION "ran_now True" 6]
  obtain ag1 ag2 ag3 where r: "e2_event_loop_agent ag (ran_now True) 5 3 (SCTP_MSG_PAYLOAD [1]) = Inr ag1"
    "ag_sent ag1 = ag_sent ag @ [ap_enc (ag_ap ag) (sub_answer ?sr)]"
    "fold_res (\<lambda>r ag. e2_event_loop_agent ag r 6 5 SCTP_MSG_NOTIFICATION) ?rns ag1 = Inr ag2"
    "ag_sent ag2 = ag_sent ag1 @ concat (map (\<lambda>r. reported (ag_ap ag) (sr_ric_id ?sr) (ra_id (hd (sr_action ?sr)))
      (sg_on_indication mac_model r None)) ?rns)"
    "e2_event_loop_agent ag2 (ran_now True) 6 3 (SCTP_MSG_PAYLOAD [2]) = Inr ag3"
    "ag_sent ag3 = ag_sent ag2 @ [ap_enc (ag_ap ag) (RIC_SUBSCRIPTION_DELETE_RESPONSE \<lparr>dp_ric_id = sr_ric_id ?sr\<rparr>)]"
    "subs_ag ag3 = subs_ag ag" "aa_fds (ag_io ag3) = aa_fds (ag_io ag)"
    using run unfolding a(7) by (elim meta_impE) (simp, simp, blast)
  have "ag_sent ag3 = [[3, 253], [4, 253], [4, 253], [0]]"
    by (simp add: r(2,4,6) a(9,10) sample_reports reported_def report_msg_def generate_subscription_response_def)
      (simp add: sample_ap_def)
  then show ?thesis using s a(4,6) r(1,3,5,7,8) by auto
qed

theorem agent_accepts_exactly_witness:
  "\<exists>ag. fresh_sample ag \<and>
    (\<exists>ag'. e2ap_handle_subscription_request_agent ag (ran_now True) 5 (agent_sr 142 1021) =
      Inr (sub_answer (agent_sr 142 1021), ag')) \<and>
    e2ap_handle_subscription_request_agent ag (ran_now True) 5 (agent_sr 7 1021) = Inl AssertFailed"
proof -
  obtain ag where s: "fresh_sample ag" using sample_agent by blast
  note a = fresh_sampleD [OF s]
  have acc: "\<exists>sm subs. agent_accepts ag (ran_now True) (agent_sr 142 1021) sm subs \<and> (\<forall>ms ad. subs = SUBS_PERIODIC ms ad \<longrightarrow> ms \<in> {0..10000})"
    using sample_accepts(1) [OF a(11,12)] by fastforce
  have "is_ok (sg_on_subscription mac_model (ran_now True) (generate_sm_subs_data (agent_sr 142 1021)))"
    using sample_accepts(1) [OF a(11,12), of "ran_now True" 1021] by (simp add: agent_accepts_def is_ok_def a(11))
  then have "\<exists>ag'. e2ap_handle_subscription_request_agent ag (ran_now True) 5 (agent_sr 142 1021) =
      Inr (sub_answer (agent_sr 142 1021), ag')"
    using agent_accepts_exactly [OF a(1), of 5 "agent_sr 142 1021" "ran_now True"] acc
    by (simp add: a(4,6,11) fresh_ag_def)
  moreover have "\<not> agent_accepts ag (ran_now True) (agent_sr 7 1021) sm subs" for sm subs
    by (simp add: agent_accepts_def a(13))
  then have "e2ap_handle_subscription_request_agent ag (ran_now True) 5 (agent_sr 7 1021) = Inl AssertFailed"
    using agent_accepts_exactly [OF a(1), of 5 "agent_sr 7 1021" "ran_now True"] by (simp add: a(4,6,13) fresh_ag_def)
  ultimately show ?thesis using s by blast
qed

definition sample_aind :: "(byte_array, sample_ran) aind_event" where
  "sample_aind = \<lparr>ae_ric_id = sr_ric_id (agent_sr 3 102), ae_sm = aper_model, ae_action_id = 0, ae_ind_data = Some [7]\<rparr>"

lemma sample_aind_report:
  "reports_ok agent_ap (ae_ric_id sample_aind) (ae_action_id sample_aind) (ai_report (ran_now True) sample_aind)"
  "reported agent_ap (ae_ric_id sample_aind) (ae_action_id sample_aind) (ai_report (ran_now True) sample_aind) = [[4, 102]]"
  by (simp_all add: sample_aind_def aper_model_def reports_ok_def reported_def report_msg_def)

theorem aperiodic_reports_pipe_witness:
  "\<exists>ag ag1. fresh_sample ag \<and>
    fold_res (aperiodic_indication (ran_now True)) [sample_aind, sample_aind, sample_aind]
      (ag\<lparr>ag_io := (ag_io ag)\<lparr>aa_pipe_bytes := 12\<rparr>\<rparr>) = Inr ag1 \<and> ag_sent ag1 = [[4, 102], [4, 102], [4, 102]] \<and>
    fold_res (aperiodic_indication (ran_now True)) [sample_aind, sample_aind, sample_aind]
      (ag\<lparr>ag_io := (ag_io ag)\<lparr>aa_pipe_bytes := 9\<rparr>\<rparr>) = Inl AssertFailed"
proof -
  obtain ag where s: "fresh_sample ag" using sample_agent by blast
  note a = fresh_sampleD [OF s]
  have run: "fold_res (aperiodic_indication (ran_now True)) [sample_aind, sample_aind, sample_aind]
      (ag\<lparr>ag_io := (ag_io ag)\<lparr>aa_pipe_bytes := b\<rparr>\<rparr>) = (if 10 \<le> b
     then Inr (ag\<lparr>ag_sent := [[4, 102], [4, 102], [4, 102]], ag_io := (ag_io ag)\<lparr>aa_pipe_bytes := b - 12\<rparr>\<rparr>)
     else Inl (if b mod 4 = 1 then AssertFailed else Diverged))" for b
    using aperiodic_reports_pipe [of "ag\<lparr>ag_io := (ag_io ag)\<lparr>aa_pipe_bytes := b\<rparr>\<rparr>" "[sample_aind, sample_aind, sample_aind]" b
        "ran_now True"] by (simp add: a(8-10) sample_aind_report del: fold_res.simps)
  show ?thesis using s run [of 12] run [of 9] by (intro exI [of _ ag] exI conjI) (auto simp del: fold_res.simps)
qed

theorem second_aperiodic_subscription_witness:
  "\<exists>ag ag1 ag2 n. fresh_sample ag \<and>
    e2ap_handle_subscription_request_agent ag (ran_now True) 5 (agent_sr 3 1021) = Inr (sub_answer (agent_sr 3 1021), ag1) \<and>
    e2ap_handle_subscription_request_agent ag1 (ran_now True) 5 (agent_sr 3 1022) = Inr (sub_answer (agent_sr 3 1022), ag2) \<and>
    n \<in> {1021, 1022} \<and>
    e2ap_handle_subscription_delete_request_agent ag2 \<lparr>sd_ric_id = sr_ric_id (agent_sr 3 n)\<rparr> = Inl AssertFailed"
proof -
  obtain ag where s: "fresh_sample ag" using sample_agent by blast
  note a = fresh_sampleD [OF s]
  obtain ag1 where f: "e2ap_handle_subscription_request_agent ag (ran_now True) 5 (agent_sr 3 1021) =
      Inr (sub_answer (agent_sr 3 1021), ag1)" "agent_inv ag1"
    "subs_ag ag1 = {(0, new_ind_event (agent_sr 3 1021) aper_model FREE_SUBS_APERIODIC)}" "ag_plugin ag1 = ag_plugin ag"
    using subscribe_aperiodic_ok [OF a(1) sample_accepts(2) [OF a(11,12)], of 1021 "ran_now True" 5] a(4) by auto
  have p: "rf_map (ag_plugin ag1) 142 = Some mac_model" "rf_map (ag_plugin ag1) 3 = Some aper_model"
    using a(11,12) by (simp_all add: f(4))
  obtain ag2 i where g: "e2ap_handle_subscription_request_agent ag1 (ran_now True) 5 (agent_sr 3 1022) =
      Inr (sub_answer (agent_sr 3 1022), ag2)" "i \<in> {sr_ric_id (agent_sr 3 1021), sr_ric_id (agent_sr 3 1022)}"
    "e2ap_handle_subscription_delete_request_agent ag2 \<lparr>sd_ric_id = i\<rparr> = Inl AssertFailed"
    using second_aperiodic_subscription [OF f(2) sample_accepts(2) [OF p],
        of "new_ind_event (agent_sr 3 1021) aper_model FREE_SUBS_APERIODIC" 1022 "ran_now True" 5]
    by (auto simp: f(3))
  obtain n where "i = sr_ric_id (agent_sr 3 n)" "n \<in> {1021, 1022}" using g(2) by blast
  then show ?thesis using s f(1) g(1,3) by blast
qed

theorem lost_during_setup_aborts_witness:
  "\<exists>ag ag1 ag2. fresh_sample ag \<and> start_setup_pending ag 5 = Inr ag1 \<and>
    e2_event_loop_agent ag1 (ran_now True) 6 3 SCTP_MSG_NOTIFICATION = Inr ag2 \<and>
    e2_event_loop_agent ag2 (ran_now True) 7 6 SCTP_MSG_NOTIFICATION = Inl AssertFailed"
proof -
  obtain ag where s: "fresh_sample ag" using sample_agent by blast
  note a = fresh_sampleD [OF s]
  have "fresh_ag ag 5" by (simp add: fresh_ag_def a(6))
  from start_setup_pending_ok [OF a(1,5) this] obtain p where p: "start_setup_pending ag 5 = Inr (ag\<lparr>ag_io := (ag_io ag)\<lparr>
        aa_fds := 5 # aa_fds (ag_io ag), aa_timers := (aa_timers (ag_io ag))(5 \<mapsto> ms_timer 3000)\<rparr>, ag_pending := p\<rparr>)"
    "agent_inv (ag\<lparr>ag_io := (ag_io ag)\<lparr>
        aa_fds := 5 # aa_fds (ag_io ag), aa_timers := (aa_timers (ag_io ag))(5 \<mapsto> ms_timer 3000)\<rparr>, ag_pending := p\<rparr>)"
    "pairs_of p = {(5, SETUP_REQUEST_PENDING_EVENT)}" by blast
  let ?ag1 = "ag\<lparr>ag_io := (ag_io ag)\<lparr>
        aa_fds := 5 # aa_fds (ag_io ag), aa_timers := (aa_timers (ag_io ag))(5 \<mapsto> ms_timer 3000)\<rparr>, ag_pending := p\<rparr>"
  have "\<exists>ag2. e2_event_loop_agent ?ag1 (ran_now True) 6 (ag_fd ?ag1) SCTP_MSG_NOTIFICATION = Inr ag2 \<and>
      e2_event_loop_agent ag2 (ran_now True) 7 6 SCTP_MSG_NOTIFICATION = Inl AssertFailed"
    by (rule lost_during_setup_aborts [OF p(2), where fd = 5]) (simp_all add: a(3,6) p(3) fresh_ag_def)
  then show ?thesis using s p(1) by (auto simp: a(7))
qed

theorem agent_never_aborts_witness:
  "\<exists>(ag0 :: (byte_array, sample_ran) e2_agent) sr ag1.
    e2_init_agent ''10.0.0.1'' 36421 (sample_du 3) (\<lambda>_ _. [sample_cca]) 3 4 agent_ap [mac_model, aper_model] = Inr ag0 \<and>
    e2_start_agent ag0 (ran_now True) 5 = Inr (sr, ag1) \<and> set (map rf_id (es_ran_func sr)) = {142, 3}"
proof -
  have "\<exists>(ag0 :: (byte_array, sample_ran) e2_agent) sr ag1.
    e2_init_agent ''10.0.0.1'' 36421 (sample_du 3) (\<lambda>_ _. [sample_cca]) 3 4 agent_ap [mac_model, aper_model] = Inr ag0 \<and>
    e2_start_agent ag0 (ran_now True) 5 = Inr (sr, ag1) \<and> ag_sent ag1 = [ap_enc agent_ap (E2_SETUP_REQUEST sr)] \<and>
    set (map rf_id (es_ran_func sr)) = sg_info_id ` set [mac_model, aper_model] \<and>
    (\<forall>ag inp. agent_reach ag1 ag \<longrightarrow> valid_agent_input ag inp \<longrightarrow>
      (\<exists>ag'. agent_step ag inp = Inr ag' \<and> agent_reach ag1 ag' \<and> distinct (aa_fds (ag_io ag')) \<and>
        fds_ag ag' = {ag_fd ag', aa_pipe_r (ag_io ag')} \<union> (fst ` subs_ag ag' - {0}) \<union> fst ` pend_ag ag'))"
    by (rule agent_never_aborts) (simp_all add: sample_cca_def)
  then show ?thesis by auto
qed

end
