(* ===== verification/Xapp_Pending.thy ===== *)
theory Xapp_Pending
  imports Ind_Event
begin

text \<open>
  The events an xApp waits for (\<open>xApp/pending_event_xapp.c\<close>): the request it sent, its kind and the time
  it gives it, in a map from the timer. The tree of the events compares the kind only
  (\<open>cmp_pending_event\<close>, which reads the first member of the structure), so that two events of one kind
  are one key.
\<close>

declare bind_res_eq_Inr [simp del]

record pending_event_xapp =
  px_ev :: pending_event
  px_id :: ric_gen_id
  px_wait_ms :: int

definition PENDING_EVENT_XAPP_SZ :: nat where
  "PENDING_EVENT_XAPP_SZ = 16"

definition eq_pending_event_xapp :: "pending_event_xapp \<Rightarrow> pending_event_xapp \<Rightarrow> bool res" where
  "eq_pending_event_xapp m0 m1 =
     (if px_ev m0 \<noteq> px_ev m1 then Inr False
      else bind_res (eq_ric_gen_id (px_id m0) (px_id m1)) (\<lambda>b. if b = False then Inr False else Inr True))"

definition cmp_pending_xapp :: "pending_event_xapp \<Rightarrow> pending_event_xapp \<Rightarrow> int res" where
  "cmp_pending_xapp a b = Inr (cmp_pending_event (px_ev a) (px_ev b))"

type_synonym pending_xapp = "(int, pending_event_xapp) bi_map"

definition init_pending_events_xapp :: "pending_xapp res" where
  "init_pending_events_xapp = bi_map_init 4 PENDING_EVENT_XAPP_SZ cmp_fd cmp_pending_xapp True"

definition add_pending_event :: "pending_xapp \<Rightarrow> int \<Rightarrow> pending_event_xapp \<Rightarrow> pending_xapp res" where
  "add_pending_event p fd ev = c_assert (fd > 0) (bi_map_insert p fd 4 ev PENDING_EVENT_XAPP_SZ)"

definition find_pending_event_fd :: "pending_xapp \<Rightarrow> int \<Rightarrow> bool res" where
  "find_pending_event_fd p fd =
     c_assert (fd > 0) (bind_res (search (bm_left p) fd eq_fd) (\<lambda>it. Inr (it \<noteq> assoc_rb_tree_end (bm_left p))))"

definition find_pending_event_ev :: "pending_xapp \<Rightarrow> pending_event_xapp \<Rightarrow> bool res" where
  "find_pending_event_ev p ev =
     bind_res (search (bm_right p) ev eq_pending_event_xapp) (\<lambda>it.
       Inr (it \<noteq> assoc_rb_tree_end (bm_right p)))"

definition rm_pending_event_ev :: "pending_xapp \<Rightarrow> pending_event_xapp \<Rightarrow> (int \<times> pending_xapp) res" where
  "rm_pending_event_ev p ev =
     bind_res (bi_map_size p) (\<lambda>sz.
     bind_res (bi_map_extract_right p ev PENDING_EVENT_XAPP_SZ) (\<lambda>(fd, p').
     bind_res (bi_map_size p') (\<lambda>sz'.
       c_assert (sz = sz' + 1) (c_assert (fd > 0) (Inr (fd, p'))))))"

definition rm_pending_event_fd :: "pending_xapp \<Rightarrow> int \<Rightarrow> pending_xapp res" where
  "rm_pending_event_fd p fd = c_assert (fd > 0) (map_res snd (bi_map_extract_left p fd 4))"

text \<open>The functions that the map releases its entries with, on the two sides.\<close>

definition free_fd_xapp :: "int option \<times> pending_event_xapp option \<Rightarrow> unit res" where
  "free_fd_xapp e = (case e of (Some fd, Some ev) \<Rightarrow> c_assert (fd > 0) (Inr ()) | _ \<Rightarrow> Inl AssertFailed)"

definition free_pending_ev_xapp :: "pending_event_xapp option \<times> int option \<Rightarrow> unit res" where
  "free_pending_ev_xapp e = (case e of
     (Some ev, Some fd) \<Rightarrow> bind_res (valid_pending_event (px_ev ev)) (\<lambda>b. c_assert b (Inr ())) | _ \<Rightarrow> Inl AssertFailed)"

definition free_pending_events_xapp :: "pending_xapp \<Rightarrow> unit res" where
  "free_pending_events_xapp p =
     bind_res (bi_map_free p) (\<lambda>(xs, ys).
     bind_res (fold_res (\<lambda>e _. free_fd_xapp e) xs ()) (\<lambda>_. fold_res (\<lambda>e _. free_pending_ev_xapp e) ys ()))"

section \<open>The map\<close>

interpretation px1: comparator cmp_pending_xapp "\<lambda>_. True" "\<lambda>e. [pending_event_val (px_ev e)]"
  by unfold_locales (auto simp: cmp_pending_xapp_def cmp_pending_event_def pending_event_val_inj)

interpretation xpend: bimap_cmp cmp_fd "\<lambda>fd. fd > -1" "\<lambda>fd. [fd]" cmp_pending_xapp "\<lambda>_. True"
    "\<lambda>e. [pending_event_val (px_ev e)]"
  by (intro bimap_cmp.intro fd.comparator_axioms px1.comparator_axioms)

definition xpend_inv :: "pending_xapp \<Rightarrow> bool" where
  "xpend_inv m \<longleftrightarrow> xpend.inv m \<and> t_key_sz (bm_left m) = 4 \<and> t_key_sz (bm_right m) = PENDING_EVENT_XAPP_SZ \<and>
     bm_right_free m"

lemma xpend_init: "\<exists>m. init_pending_events_xapp = Inr m \<and> xpend_inv m \<and> pairs_of m = {}"
  using xpend.bi_map_init_ok [of 4 PENDING_EVENT_XAPP_SZ True]
  by (simp add: init_pending_events_xapp_def xpend_inv_def PENDING_EVENT_XAPP_SZ_def) blast

lemma xpend_fd: "xpend_inv m \<Longrightarrow> (fd, ev) \<in> pairs_of m \<Longrightarrow> fd > -1"
  using valid_kvs [of cmp_fd "\<lambda>fd. fd > -1" "\<lambda>fd. [fd]" "bm_left m" fd ev]
  by (simp add: xpend_inv_def bm_inv_def pairs_of_def)

lemma xpend_unique:
  assumes "xpend_inv m" "(a, b) \<in> pairs_of m" "(a', b') \<in> pairs_of m"
  shows "a = a' \<Longrightarrow> b = b'" "px_ev b = px_ev b' \<Longrightarrow> a = a' \<and> b = b'"
  using bm_pairs_unique [of cmp_fd "\<lambda>fd. fd > -1" "\<lambda>fd. [fd]" cmp_pending_xapp "\<lambda>_. True"
      "\<lambda>e. [pending_event_val (px_ev e)]" m a b a' b'] assms
  by (auto simp: xpend_inv_def)

lemma add_pending_event_ok:
  assumes "xpend_inv m" "fd > 0" "fd \<notin> fst ` pairs_of m" "px_ev ev \<notin> px_ev ` snd ` pairs_of m"
  shows "\<exists>m'. add_pending_event m fd ev = Inr m' \<and> xpend_inv m' \<and> pairs_of m' = insert (fd, ev) (pairs_of m)"
proof -
  have "[fd] \<notin> (\<lambda>fd. [fd]) ` fst ` pairs_of m"
    "[pending_event_val (px_ev ev)] \<notin> (\<lambda>e. [pending_event_val (px_ev e)]) ` snd ` pairs_of m"
    using assms(3,4) by (auto simp: pending_event_val_inj image_iff)
  with assms show ?thesis
    using xpend.bi_map_insert_ok [of m fd ev 4 PENDING_EVENT_XAPP_SZ]
    by (auto simp: xpend_inv_def PENDING_EVENT_XAPP_SZ_def add_pending_event_def)
qed

lemma rm_pending_event_ev_ok:
  assumes m: "xpend_inv m" and p: "(fd, ev) \<in> pairs_of m" "px_ev tmp = px_ev ev" "fd > 0"
  shows "\<exists>m'. rm_pending_event_ev m tmp = Inr (fd, m') \<and> xpend_inv m' \<and> pairs_of m' = pairs_of m - {(fd, ev)}"
proof -
  have inv: "xpend.inv m" using m by (simp add: xpend_inv_def)
  obtain m' where m': "bi_map_extract_right m tmp PENDING_EVENT_XAPP_SZ = Inr (fd, m')" "xpend_inv m'"
    "pairs_of m' = pairs_of m - {(fd, ev)}"
    using xpend.bi_map_extract_right_ok [where bm = m and key = tmp and a = fd and b = ev and sz = PENDING_EVENT_XAPP_SZ]
      m p xpend_fd [OF m p(1)] by (auto simp: xpend_inv_def)
  have "finite (pairs_of m)" using inv by (simp add: pairs_of_def kvs_def)
  then have "card (pairs_of m) = card (pairs_of m') + 1"
    using p(1) by (simp add: m'(3)) (metis Suc_pred card_gt_0_iff empty_iff)
  moreover have "bi_map_size m = Inr (card (pairs_of m))" "bi_map_size m' = Inr (card (pairs_of m'))"
    using inv m'(2) by (simp_all add: xpend_inv_def xpend.bi_map_size_ok)
  ultimately show ?thesis using m' p(3) by (simp add: rm_pending_event_ev_def)
qed

lemma rm_pending_event_ev_missing:
  assumes m: "xpend_inv m" and p: "px_ev ev \<notin> px_ev ` snd ` pairs_of m"
  shows "rm_pending_event_ev m ev = Inl AssertFailed"
proof -
  have r: "rb_inv cmp_pending_xapp (\<lambda>_. True) (\<lambda>e. [pending_event_val (px_ev e)]) (bm_right m)"
    and k: "kvs (rb_items (bm_right m)) = (pairs_of m)\<inverse>"
    using m by (simp_all add: xpend_inv_def bm_inv_def pairs_of_def)
  have "px_ev (it_key e) \<noteq> px_ev ev" if "e \<in> set (rb_items (bm_right m))" for e
  proof -
    have "it_key e \<in> snd ` pairs_of m" using kvs_item [OF that] k by force
    then show ?thesis using p by (metis imageI)
  qed
  then have "\<forall>e \<in> set (rb_items (bm_right m)). [pending_event_val (px_ev (it_key e))] \<noteq> [pending_event_val (px_ev ev)]"
    by (simp add: pending_event_val_inj)
  then have "assoc_rb_tree_extract (bm_right m) ev = Inl AssertFailed"
    using px1.rb_extract_missing [OF r, of ev] by auto
  moreover have "bi_map_size m = Inr (card (pairs_of m))"
    using m by (simp add: xpend_inv_def xpend.bi_map_size_ok)
  ultimately show ?thesis by (simp add: rm_pending_event_ev_def bi_map_extract_right_def c_assert_def)
qed

lemma xpend_by_fd:
  assumes m: "xpend_inv m" and fd: "fd > -1"
  shows "\<exists>it. search (bm_left m) fd eq_fd = Inr it \<and>
    (if it = assoc_rb_tree_end (bm_left m) then fd \<notin> fst ` pairs_of m
     else \<exists>ev. (fd, ev) \<in> pairs_of m \<and> assoc_rb_tree_value (bm_left m) it = Inr ev)"
  using search_by_fd [OF xpend.bimap_cmp_axioms _ fd, of m] m by (simp add: xpend_inv_def)

end
