(* ===== verification/E42_Xapp.thy ===== *)
theory E42_Xapp
  imports Xapp_Pending Act_Proc Tsn_Queue Iapp_Handlers
begin

text \<open>
  The xApp, the client of the iApp (\<open>xApp/\<close>): its event queue (\<open>asio_xapp.c\<close>), the synchronisation of
  the two threads (\<open>sync_ui.c\<close>), the messages it makes (\<open>msg_generator_xapp.c\<close>), its handlers
  (\<open>msg_handler_xapp.c\<close>), its event loop and the functions of its interface (\<open>e42_xapp.c\<close>,
  \<open>e42_xapp_api.c\<close>).

  Two threads share the state. The thread of the user calls the interface; a call registers the request,
  sends it and waits until the thread of the event loop has seen the answer. The second part of the
  theory gives a call as steps, split where the other thread can see a difference: after a message is on
  its way, and around the wait. Descriptors, codec, service models and what the callbacks do are
  arguments; what the worker hands to a callback is appended to \<open>xs_called\<close>. The build is the one
  without a database.
\<close>

declare bind_res_eq_Inr [simp del]

section \<open>The event queue\<close>

record asio_xapp =
  xi_fds :: "int list"
  xi_timers :: "int \<rightharpoonup> itimerspec"

definition init_asio_xapp :: asio_xapp where
  "init_asio_xapp = \<lparr>xi_fds = [], xi_timers = Map.empty\<rparr>"

definition add_fd_asio_xapp :: "asio_xapp \<Rightarrow> int \<Rightarrow> asio_xapp res" where
  "add_fd_asio_xapp io fd =
     c_assert (fd > 0) (c_assert (fd \<notin> set (xi_fds io)) (Inr (io\<lparr>xi_fds := fd # xi_fds io\<rparr>)))"

definition create_timer_ms_asio_xapp :: "asio_xapp \<Rightarrow> int \<Rightarrow> int \<Rightarrow> int \<Rightarrow> asio_xapp res" where
  "create_timer_ms_asio_xapp io tfd initial_ms interval_ms =
     c_assert (initial_ms > 0) (c_assert (interval_ms > 0) (c_assert (tfd \<noteq> -1)
      (let new_value =
         \<lparr>it_value_sec = initial_ms div 1000, it_value_nsec = (initial_ms * 1000000) mod 1000000000,
          it_interval_sec = interval_ms div 1000,
          it_interval_nsec = (interval_ms * 1000000) mod 1000000000\<rparr>
       in add_fd_asio_xapp (io\<lparr>xi_timers := (xi_timers io)(tfd \<mapsto> new_value)\<rparr>) tfd)))"

definition rm_fd_asio_xapp :: "asio_xapp \<Rightarrow> int \<Rightarrow> asio_xapp res" where
  "rm_fd_asio_xapp io fd =
     c_assert (fd \<in> set (xi_fds io))
      (Inr (io\<lparr>xi_fds := remove1 fd (xi_fds io), xi_timers := (xi_timers io)(fd := None)\<rparr>))"

section \<open>Waiting for an answer\<close>

record sync_ui =
  su_wait_ms :: int
  su_flag_sync :: bool
  su_msg_ack :: bool

definition init_sync_ui :: sync_ui where
  "init_sync_ui = \<lparr>su_wait_ms = 5000, su_flag_sync = False, su_msg_ack = False\<rparr>"

definition signal_sync_ui :: "sync_ui \<Rightarrow> sync_ui" where
  "signal_sync_ui s = s\<lparr>su_flag_sync := True, su_msg_ack := True\<rparr>"

text \<open>
  \<open>cond_wait_sync_ui\<close> up to its loop, and one test of the condition of the loop: \<open>None\<close> when the thread
  goes back to sleep. \<open>timeout\<close> tells that \<open>pthread_cond_timedwait\<close> returned \<open>ETIMEDOUT\<close>.
\<close>

definition cond_wait_enter :: "sync_ui \<Rightarrow> sync_ui res" where
  "cond_wait_enter s = c_assert (su_wait_ms s > 0) (Inr (s\<lparr>su_flag_sync := False, su_msg_ack := False\<rparr>))"

definition cond_wait_test :: "sync_ui \<Rightarrow> bool \<Rightarrow> unit option res" where
  "cond_wait_test s timeout =
     (if timeout then Inl AssertFailed
      else if \<not> su_flag_sync s then Inr None
      else c_assert (su_msg_ack s) (Inr (Some ())))"

section \<open>The xApp\<close>

text \<open>What the worker hands to a callback (\<open>msg_dispatcher_xapp.h\<close>); \<open>None\<close> is the null pointer.\<close>

record ('i, 'cb) msg_dispatch =
  md_rd :: "'i sm_ag_if_rd_ind"
  md_e2_node :: global_e2_node_id
  md_sm_cb :: "'cb option"

text \<open>
  \<open>sizeof(msg_dispatch_t)\<close> comes from the structures of all service models; the queue compares it with
  itself only, and 1 stands for it.
\<close>

definition MSG_DISPATCH_SZ :: nat where
  "MSG_DISPATCH_SZ = 1"

record ('c, 'i, 'd, 'r, 'cb) e42_xapp =
  xa_fd :: int
  xa_sent :: "byte_array list"
  xa_ap :: e2ap_ap
  xa_io :: asio_xapp
  xa_plugin_ag :: "(u16, ('d, 'r) sm_agent) rb_tree"
  xa_plugin_ric :: "(u16, ('c, 'i) sm_ric) rb_tree"
  xa_e2_nodes :: reg_e2_nodes
  xa_id :: u16
  xa_sync :: sync_ui
  xa_act_proc :: "'cb option act_proc"
  xa_pending :: pending_xapp
  xa_msg_disp :: "('i, 'cb) msg_dispatch tsnq"
  xa_connected :: bool
  xa_stopped :: bool
  xa_stop_token :: bool

definition e2ap_send_bytes_xapp ::
  "('c, 'i, 'd, 'r, 'cb) e42_xapp \<Rightarrow> byte_array \<Rightarrow> ('c, 'i, 'd, 'r, 'cb) e42_xapp res" where
  "e2ap_send_bytes_xapp xapp ba = c_assert (length ba > 0) (Inr (xapp\<lparr>xa_sent := xa_sent xapp @ [ba]\<rparr>))"

definition e2ap_msg_enc_xapp :: "e2ap_ap \<Rightarrow> e2ap_msg \<Rightarrow> byte_array res" where
  "e2ap_msg_enc_xapp ap msg = c_assert (msg \<noteq> NONE_E2_MSG_TYPE) (Inr (ap_enc ap msg))"

definition e2ap_msg_free_xapp :: "e2ap_msg \<Rightarrow> unit res" where
  "e2ap_msg_free_xapp msg = (if msg = NONE_E2_MSG_TYPE then Inr () else e2ap_msg_free msg)"

definition send_msg_dispatcher ::
  "('i, 'cb) msg_dispatch tsnq \<Rightarrow> ('i, 'cb) msg_dispatch \<Rightarrow> ('i, 'cb) msg_dispatch tsnq res" where
  "send_msg_dispatcher d msg = push_tsnq d msg MSG_DISPATCH_SZ"

definition size_msg_dispatcher :: "('i, 'cb) msg_dispatch tsnq \<Rightarrow> nat" where
  "size_msg_dispatcher d = size_tsnq d"

definition add_pending_event_xapp ::
  "('c, 'i, 'd, 'r, 'cb) e42_xapp \<Rightarrow> int \<Rightarrow> pending_event_xapp \<Rightarrow> ('c, 'i, 'd, 'r, 'cb) e42_xapp res" where
  "add_pending_event_xapp xapp tfd ev =
     c_assert (px_wait_ms ev > 0)
      (bind_res (create_timer_ms_asio_xapp (xa_io xapp) tfd (px_wait_ms ev) (px_wait_ms ev)) (\<lambda>io.
       bind_res (add_pending_event (xa_pending xapp) tfd ev) (\<lambda>p.
         Inr (xapp\<lparr>xa_io := io, xa_pending := p\<rparr>))))"

definition rm_pending_event_xapp ::
  "('c, 'i, 'd, 'r, 'cb) e42_xapp \<Rightarrow> pending_event_xapp \<Rightarrow> ('c, 'i, 'd, 'r, 'cb) e42_xapp res" where
  "rm_pending_event_xapp xapp ev =
     bind_res (rm_pending_event_ev (xa_pending xapp) ev) (\<lambda>(fd, p).
     bind_res (rm_fd_asio_xapp (xa_io xapp) fd) (\<lambda>io.
       Inr (xapp\<lparr>xa_io := io, xa_pending := p\<rparr>)))"

subsection \<open>Messages\<close>

definition generate_subscription_request_xapp ::
  "ric_gen_id \<Rightarrow> ('c, 'i) sm_ric \<Rightarrow> 'c \<Rightarrow> ric_subscription_request res" where
  "generate_subscription_request_xapp ric_id sm cmd =
     (let data = on_subscription sm cmd in
      c_assert (case sb_action_def data of None \<Rightarrow> True | Some ad \<Rightarrow> length ad < 2048)
       (Inr \<lparr>sr_ric_id = ric_id, sr_event_trigger = sb_event_trigger data,
          sr_action = [\<lparr>ra_id = 0, ra_type = RIC_ACT_REPORT, ra_definition = sb_action_def data, ra_subseq = None\<rparr>]\<rparr>))"

definition generate_ric_control_request :: "ric_gen_id \<Rightarrow> ('c, 'i) sm_ric \<Rightarrow> 'c \<Rightarrow> ric_control_request res" where
  "generate_ric_control_request ric_id sm ctrl_msg =
     (let data = on_control_req sm ctrl_msg in
      c_assert (length (sc_ctrl_hdr data) < 2049) (c_assert (length (sc_ctrl_msg data) < 2049)
       (Inr \<lparr>cr_ric_id = ric_id, cr_call_process_id = None, cr_hdr = sc_ctrl_hdr data,
          cr_msg = sc_ctrl_msg data, cr_ack_req = Some RIC_CONTROL_REQUEST_ACK\<rparr>)))"

definition generate_e42_setup_request :: "('c, 'i, 'd, 'r, 'cb) e42_xapp \<Rightarrow> 'r \<Rightarrow> e42_setup_request res" where
  "generate_e42_setup_request xapp rn =
     c_assert (assoc_rb_tree_size (xa_plugin_ag xapp) > 0)
      (c_assert (assoc_rb_tree_size (xa_plugin_ag xapp) = assoc_rb_tree_size (xa_plugin_ric xapp))
       (bind_res (rb_for_all (xa_plugin_ag xapp) (\<lambda>k sm acc.
          c_assert (sg_info_id sm = k)
           (bind_res (sg_on_e2_setup sm rn) (\<lambda>def.
             Inr (acc @ [\<lparr>rf_defn = se_ran_fun_def def, rf_id = sg_info_id sm, rf_rev = sg_info_rev sm,
               rf_oid = cp_str_to_ba (sg_info_oid sm)\<rparr>])))) []) (\<lambda>rfs.
         Inr \<lparr>xq_ran_func = rfs\<rparr>)))"

section \<open>Handlers\<close>

subsection \<open>Answers\<close>

text \<open>\<open>rm_pending_event_xapp\<close> compares the kind of the event only; the other members of \<open>ev\<close> are as the code sets them.\<close>

definition answered_xapp ::
  "('c, 'i, 'd, 'r, 'cb) e42_xapp \<Rightarrow> pending_event \<Rightarrow> u32 \<Rightarrow> (e2ap_msg \<times> ('c, 'i, 'd, 'r, 'cb) e42_xapp) res" where
  "answered_xapp xapp kind rq =
     bind_res (find_act_proc (xa_act_proc xapp) (ucast rq)) (\<lambda>(rv, ap).
       case rv of None \<Rightarrow> Inl AssertFailed
       | Some val \<Rightarrow>
           bind_res (rm_pending_event_xapp (xapp\<lparr>xa_act_proc := ap\<rparr>) \<lparr>px_ev = kind, px_id = ap_id val, px_wait_ms = 0\<rparr>) (\<lambda>xapp.
             Inr (NONE_E2_MSG_TYPE, xapp\<lparr>xa_sync := signal_sync_ui (xa_sync xapp)\<rparr>)))"

definition e2ap_handle_subscription_response_xapp ::
  "('c, 'i, 'd, 'r, 'cb) e42_xapp \<Rightarrow> ric_subscription_response \<Rightarrow> (e2ap_msg \<times> ('c, 'i, 'd, 'r, 'cb) e42_xapp) res" where
  "e2ap_handle_subscription_response_xapp xapp resp =
     answered_xapp xapp E42_RIC_SUBSCRIPTION_REQUEST_PENDING_EVENT (ric_req_id (sp_ric_id resp))"

definition e2ap_handle_subscription_delete_response_xapp ::
  "('c, 'i, 'd, 'r, 'cb) e42_xapp \<Rightarrow> ric_subscription_delete_response \<Rightarrow> (e2ap_msg \<times> ('c, 'i, 'd, 'r, 'cb) e42_xapp) res" where
  "e2ap_handle_subscription_delete_response_xapp xapp resp =
     answered_xapp xapp E42_RIC_SUBSCRIPTION_DELETE_REQUEST_PENDING_EVENT (ric_req_id (dp_ric_id resp))"

definition e2ap_handle_control_ack_xapp ::
  "('c, 'i, 'd, 'r, 'cb) e42_xapp \<Rightarrow> ric_control_acknowledge \<Rightarrow> (e2ap_msg \<times> ('c, 'i, 'd, 'r, 'cb) e42_xapp) res" where
  "e2ap_handle_control_ack_xapp xapp ack =
     answered_xapp xapp E42_RIC_CONTROL_REQUEST_PENDING_EVENT (ric_req_id (ck_ric_id ack))"

subsection \<open>Indications\<close>

definition ind_sm_payload :: "ric_indication \<Rightarrow> sm_ind_data res" where
  "ind_sm_payload src =
     c_assert (case in_call_process_id src of None \<Rightarrow> True | Some cpid \<Rightarrow> length cpid > 0)
      (Inr \<lparr>sid_hdr = in_hdr src, sid_msg = in_msg src, sid_call_process_id = in_call_process_id src\<rparr>)"

definition known_ind_xapp :: "ind_stats_type \<Rightarrow> bool" where
  "known_ind_xapp t \<longleftrightarrow> t = MAC_STATS_V0 \<or> t = RLC_STATS_V0 \<or> t = PDCP_STATS_V0 \<or> t = SLICE_STATS_V0 \<or>
     t = KPM_STATS_V3_0 \<or> t = GTP_STATS_V0 \<or> t = RAN_CTRL_STATS_V1_03"

text \<open>When the request is not in use any more what was read is released, which is up to the service model.\<close>

definition e2ap_handle_indication_xapp ::
  "('c, 'i, 'd, 'r, 'cb) e42_xapp \<Rightarrow> ric_indication \<Rightarrow> (e2ap_msg \<times> ('c, 'i, 'd, 'r, 'cb) e42_xapp) res" where
  "e2ap_handle_indication_xapp xapp src =
     bind_res (sm_plugin_ric (xa_plugin_ric xapp) (ran_func_id (in_ric_id src))) (\<lambda>sm.
     bind_res (ind_sm_payload src) (\<lambda>ind_data.
     let rd = on_indication sm ind_data in
     c_assert (known_ind_xapp (ri_type rd))
      (bind_res (find_act_proc (xa_act_proc xapp) (ucast (ric_req_id (in_ric_id src)))) (\<lambda>(ans, ap).
       let xapp = xapp\<lparr>xa_act_proc := ap\<rparr> in
       case ans of None \<Rightarrow> Inr (NONE_E2_MSG_TYPE, xapp)
       | Some val \<Rightarrow>
           bind_res (send_msg_dispatcher (xa_msg_disp xapp) \<lparr>md_rd = rd,
             md_e2_node = cp_global_e2_node_id (ap_e2_node val), md_sm_cb = ap_sm_cb val\<rparr>) (\<lambda>d.
             Inr (NONE_E2_MSG_TYPE, xapp\<lparr>xa_msg_disp := d\<rparr>))))))"

subsection \<open>The nodes\<close>

text \<open>What \<open>add_reg_e2_node\<close> reads of a node of the message: \<open>len_rf\<close> functions, \<open>len_cca\<close> components.\<close>

definition node_rfs :: "e2_node_connected \<Rightarrow> ran_function list res" where
  "node_rfs n = in_bounds (ec_len_rf n \<le> length (ec_ack_rf n)) (Inr (take (ec_len_rf n) (ec_ack_rf n)))"

definition node_ccas :: "e2_node_connected \<Rightarrow> e2ap_node_component_config_add list res" where
  "node_ccas n = for_res (unat (ec_len_cca n)) (\<lambda>i acc.
     bind_res (cca_at (ec_cca n) i) (\<lambda>c. Inr (acc @ [c]))) []"

definition add_node_xapp :: "e2_node_connected \<Rightarrow> reg_e2_nodes \<Rightarrow> reg_e2_nodes res" where
  "add_node_xapp n reg =
     bind_res (node_rfs n) (\<lambda>rfs. bind_res (node_ccas n) (\<lambda>ccas. add_reg_e2_node reg (ec_id n) rfs ccas))"

definition e2ap_handle_e42_setup_response_xapp ::
  "('c, 'i, 'd, 'r, 'cb) e42_xapp \<Rightarrow> e42_setup_response \<Rightarrow> (e2ap_msg \<times> ('c, 'i, 'd, 'r, 'cb) e42_xapp) res" where
  "e2ap_handle_e42_setup_response_xapp xapp sr =
     (if xa_connected xapp then Inr (NONE_E2_MSG_TYPE, xapp)
      else bind_res (fold_res add_node_xapp (xp_nodes sr) (xa_e2_nodes xapp)) (\<lambda>reg.
        bind_res (rm_pending_event_xapp (xapp\<lparr>xa_id := xp_xapp_id sr, xa_e2_nodes := reg\<rparr>)
            \<lparr>px_ev = E42_SETUP_REQUEST_PENDING_EVENT, px_id = \<lparr>ric_req_id = 0, ric_inst_id = 0, ran_func_id = 0\<rparr>,
             px_wait_ms = 0\<rparr>) (\<lambda>xapp.
          Inr (NONE_E2_MSG_TYPE, xapp\<lparr>xa_connected := True\<rparr>))))"

definition e2ap_handle_e42_update_e2_node_xapp ::
  "('c, 'i, 'd, 'r, 'cb) e42_xapp \<Rightarrow> e42_update_e2_node \<Rightarrow> (e2ap_msg \<times> ('c, 'i, 'd, 'r, 'cb) e42_xapp) res" where
  "e2ap_handle_e42_update_e2_node_xapp xapp sr =
     bind_res (generate_e2_node_arr (xa_e2_nodes xapp)) (\<lambda>cur_nodes.
     bind_res (read_nodes cur_nodes) (\<lambda>cur.
     bind_res (fold_res (\<lambda>n reg. rm_reg_e2_node reg (ec_id n)) cur (xa_e2_nodes xapp)) (\<lambda>reg.
     bind_res (fold_res (\<lambda>n reg.
         bind_res (find_reg_e2_node reg (ec_id n)) (\<lambda>b. if \<not> b then add_node_xapp n reg else Inr reg))
       (xu_nodes sr) reg) (\<lambda>reg.
     bind_res (free_e2_node_arr cur_nodes) (\<lambda>_.
       Inr (NONE_E2_MSG_TYPE, xapp\<lparr>xa_id := xu_xapp_id sr, xa_e2_nodes := reg\<rparr>))))))"

subsection \<open>Requests\<close>

definition e2ap_handle_e42_setup_request_xapp ::
  "('c, 'i, 'd, 'r, 'cb) e42_xapp \<Rightarrow> 'r \<Rightarrow> int \<Rightarrow> ('c, 'i, 'd, 'r, 'cb) e42_xapp res" where
  "e2ap_handle_e42_setup_request_xapp xapp rn tfd =
     bind_res (generate_e42_setup_request xapp rn) (\<lambda>sr.
     c_assert (length (xq_ran_func sr) > 0)
      (bind_res (e2ap_send_bytes_xapp xapp (ap_enc (xa_ap xapp) (E42_SETUP_REQUEST sr))) (\<lambda>xapp.
       add_pending_event_xapp xapp tfd
         \<lparr>px_ev = E42_SETUP_REQUEST_PENDING_EVENT, px_id = \<lparr>ric_req_id = 0, ric_inst_id = 0, ran_func_id = 0\<rparr>,
          px_wait_ms = 1000\<rparr>)))"

definition e2ap_handle_e42_ric_subscription_request_xapp ::
  "('c, 'i, 'd, 'r, 'cb) e42_xapp \<Rightarrow> int \<Rightarrow> e42_ric_subscription_request \<Rightarrow> ('c, 'i, 'd, 'r, 'cb) e42_xapp res" where
  "e2ap_handle_e42_ric_subscription_request_xapp xapp tfd e42_sr =
     bind_res (add_pending_event_xapp xapp tfd \<lparr>px_ev = E42_RIC_SUBSCRIPTION_REQUEST_PENDING_EVENT,
         px_id = sr_ric_id (xs_sr e42_sr), px_wait_ms = 5000\<rparr>) (\<lambda>xapp.
       e2ap_send_bytes_xapp xapp (ap_enc (xa_ap xapp) (E42_RIC_SUBSCRIPTION_REQUEST e42_sr)))"

text \<open>The deletion is sent first; only then its timer is entered.\<close>

definition pend_delete_xapp ::
  "('c, 'i, 'd, 'r, 'cb) e42_xapp \<Rightarrow> int \<Rightarrow> ric_gen_id \<Rightarrow> ('c, 'i, 'd, 'r, 'cb) e42_xapp res" where
  "pend_delete_xapp xapp tfd i =
     add_pending_event_xapp xapp tfd
       \<lparr>px_ev = E42_RIC_SUBSCRIPTION_DELETE_REQUEST_PENDING_EVENT, px_id = i, px_wait_ms = 10000\<rparr>"

definition e2ap_handle_e42_subscription_delete_request_xapp ::
  "('c, 'i, 'd, 'r, 'cb) e42_xapp \<Rightarrow> int \<Rightarrow> e42_ric_subscription_delete_request \<Rightarrow> ('c, 'i, 'd, 'r, 'cb) e42_xapp res" where
  "e2ap_handle_e42_subscription_delete_request_xapp xapp tfd e42_sdr =
     bind_res (e2ap_send_bytes_xapp xapp (ap_enc (xa_ap xapp) (E42_RIC_SUBSCRIPTION_DELETE_REQUEST e42_sdr))) (\<lambda>xapp.
       pend_delete_xapp xapp tfd (sd_ric_id (xd_sdr e42_sdr)))"

definition e2ap_handle_e42_ric_control_request_xapp ::
  "('c, 'i, 'd, 'r, 'cb) e42_xapp \<Rightarrow> int \<Rightarrow> e42_ric_control_request \<Rightarrow> ('c, 'i, 'd, 'r, 'cb) e42_xapp res" where
  "e2ap_handle_e42_ric_control_request_xapp xapp tfd cr =
     bind_res (add_pending_event_xapp xapp tfd \<lparr>px_ev = E42_RIC_CONTROL_REQUEST_PENDING_EVENT,
         px_id = cr_ric_id (xc_ctrl_req cr), px_wait_ms = 10000\<rparr>) (\<lambda>xapp.
       e2ap_send_bytes_xapp xapp (ap_enc (xa_ap xapp) (E42_RIC_CONTROL_REQUEST cr)))"

subsection \<open>Dispatch\<close>

text \<open>
  \<open>check_valid_msg_type\<close> admits the control request of the xApp itself as a message from the network; the
  setup request is admitted and aborts as its handler takes no message. What is not named has a handler
  that is not implemented, or none.
\<close>

definition e2ap_msg_handle_xapp ::
  "('c, 'i, 'd, 'r, 'cb) e42_xapp \<Rightarrow> int \<Rightarrow> e2ap_msg \<Rightarrow> (e2ap_msg \<times> ('c, 'i, 'd, 'r, 'cb) e42_xapp) res" where
  "e2ap_msg_handle_xapp xapp tfd msg = (case msg of
     RIC_SUBSCRIPTION_RESPONSE m \<Rightarrow> e2ap_handle_subscription_response_xapp xapp m
   | RIC_SUBSCRIPTION_DELETE_RESPONSE m \<Rightarrow> e2ap_handle_subscription_delete_response_xapp xapp m
   | RIC_INDICATION m \<Rightarrow> e2ap_handle_indication_xapp xapp m
   | RIC_CONTROL_ACKNOWLEDGE m \<Rightarrow> e2ap_handle_control_ack_xapp xapp m
   | E42_SETUP_RESPONSE m \<Rightarrow> e2ap_handle_e42_setup_response_xapp xapp m
   | E42_UPDATE_E2_NODE m \<Rightarrow> e2ap_handle_e42_update_e2_node_xapp xapp m
   | E42_RIC_CONTROL_REQUEST m \<Rightarrow>
       map_res (\<lambda>xapp. (NONE_E2_MSG_TYPE, xapp)) (e2ap_handle_e42_ric_control_request_xapp xapp tfd m)
   | _ \<Rightarrow> Inl AssertFailed)"

section \<open>The event loop\<close>

datatype async_event_xapp = NETWORK_EVENT | PENDING_EVENT_XAPP pending_event_xapp

definition net_pkt_xapp :: "('c, 'i, 'd, 'r, 'cb) e42_xapp \<Rightarrow> int \<Rightarrow> bool res" where
  "net_pkt_xapp xapp fd = c_assert (fd > 0) (Inr (fd = xa_fd xapp))"

definition pend_event_xapp :: "('c, 'i, 'd, 'r, 'cb) e42_xapp \<Rightarrow> int \<Rightarrow> pending_event_xapp res" where
  "pend_event_xapp xapp fd =
     c_assert (fd > 0)
      (bind_res (search (bm_left (xa_pending xapp)) fd eq_fd) (\<lambda>it.
       c_assert (it \<noteq> assoc_rb_tree_end (bm_left (xa_pending xapp)))
        (assoc_rb_tree_value (bm_left (xa_pending xapp)) it)))"

definition find_event_type :: "('c, 'i, 'd, 'r, 'cb) e42_xapp \<Rightarrow> int \<Rightarrow> async_event_xapp res" where
  "find_event_type xapp fd =
     c_assert (fd > 0)
      (bind_res (net_pkt_xapp xapp fd) (\<lambda>b.
        if b then Inr NETWORK_EVENT else map_res PENDING_EVENT_XAPP (pend_event_xapp xapp fd)))"

definition consume_fd_xapp :: "int \<Rightarrow> unit res" where
  "consume_fd_xapp fd = c_assert (fd > 0) (Inr ())"

definition network_event_xapp ::
  "('c, 'i, 'd, 'r, 'cb) e42_xapp \<Rightarrow> int \<Rightarrow> byte_array \<Rightarrow> ('c, 'i, 'd, 'r, 'cb) e42_xapp res" where
  "network_event_xapp xapp tfd ba =
     (let msg = ap_dec (xa_ap xapp) ba in
      bind_res (e2ap_msg_handle_xapp xapp tfd msg) (\<lambda>(ans, xapp).
      bind_res (if ans \<noteq> NONE_E2_MSG_TYPE
        then bind_res (e2ap_msg_enc_xapp (xa_ap xapp) ans) (\<lambda>ba_ans. e2ap_send_bytes_xapp xapp ba_ans)
        else Inr xapp) (\<lambda>xapp.
      bind_res (e2ap_msg_free_xapp ans) (\<lambda>_. bind_res (e2ap_msg_free_xapp msg) (\<lambda>_. Inr xapp)))))"

definition pending_event_turn_xapp ::
  "('c, 'i, 'd, 'r, 'cb) e42_xapp \<Rightarrow> 'r \<Rightarrow> int \<Rightarrow> pending_event \<Rightarrow> ('c, 'i, 'd, 'r, 'cb) e42_xapp res" where
  "pending_event_turn_xapp xapp rn fd ev =
     c_assert (ev = E42_SETUP_REQUEST_PENDING_EVENT \<or> ev = E42_RIC_SUBSCRIPTION_REQUEST_PENDING_EVENT \<or>
         ev = E42_RIC_SUBSCRIPTION_DELETE_REQUEST_PENDING_EVENT \<or> ev = E42_RIC_CONTROL_REQUEST_PENDING_EVENT)
      (c_assert (ev \<noteq> E42_RIC_SUBSCRIPTION_REQUEST_PENDING_EVENT)
      (c_assert (ev \<noteq> E42_RIC_SUBSCRIPTION_DELETE_REQUEST_PENDING_EVENT)
      (c_assert (ev \<noteq> E42_RIC_CONTROL_REQUEST_PENDING_EVENT)
       (bind_res (generate_e42_setup_request xapp rn) (\<lambda>sr.
        bind_res (e2ap_send_bytes_xapp xapp (ap_enc (xa_ap xapp) (E42_SETUP_REQUEST sr))) (\<lambda>xapp.
        bind_res (consume_fd_xapp fd) (\<lambda>_.
        bind_res (e2ap_msg_free (E42_SETUP_REQUEST sr)) (\<lambda>_. Inr xapp))))))))"

text \<open>One turn of the loop: \<open>fd\<close> is what \<open>epoll_wait\<close> reports, \<open>-1\<close> for nothing, \<open>ba\<close> what a read from the socket gives.\<close>

definition e2_event_loop_xapp ::
  "('c, 'i, 'd, 'r, 'cb) e42_xapp \<Rightarrow> 'r \<Rightarrow> int \<Rightarrow> int \<Rightarrow> byte_array \<Rightarrow> ('c, 'i, 'd, 'r, 'cb) e42_xapp res" where
  "e2_event_loop_xapp xapp rn tfd fd ba =
     (if xa_stop_token xapp then Inr (xapp\<lparr>xa_stopped := True\<rparr>)
      else if fd = -1 then Inr xapp
      else bind_res (find_event_type xapp fd) (\<lambda>e. case e of
          NETWORK_EVENT \<Rightarrow> network_event_xapp xapp tfd ba
        | PENDING_EVENT_XAPP ev \<Rightarrow> pending_event_turn_xapp xapp rn fd (px_ev ev)))"

section \<open>Start and end\<close>

definition init_e42_xapp ::
  "string \<Rightarrow> int \<Rightarrow> int \<Rightarrow> e2ap_ap \<Rightarrow> (u16, ('d, 'r) sm_agent) rb_tree \<Rightarrow> (u16, ('c, 'i) sm_ric) rb_tree \<Rightarrow>
   ('c, 'i, 'd, 'r, 'cb) e42_xapp res" where
  "init_e42_xapp ip port sock ap plugin_ag plg_ric =
     c_assert (length ip < 16) (c_assert (port > 0 \<and> port < 65535)
      (bind_res (add_fd_asio_xapp init_asio_xapp sock) (\<lambda>io.
       bind_res init_reg_e2_node (\<lambda>nodes.
       bind_res init_pending_events_xapp (\<lambda>pending.
       bind_res (init_tsnq MSG_DISPATCH_SZ) (\<lambda>d.
         Inr \<lparr>xa_fd = sock, xa_sent = [], xa_ap = ap, xa_io = io, xa_plugin_ag = plugin_ag, xa_plugin_ric = plg_ric,
           xa_e2_nodes = nodes, xa_id = 0, xa_sync = init_sync_ui, xa_act_proc = init_act_proc, xa_pending = pending,
           xa_msg_disp = d, xa_connected = False, xa_stopped = False, xa_stop_token = False\<rparr>))))))"

text \<open>The part of \<open>start_e42_xapp\<close> before the loop.\<close>

definition start_e42_xapp :: "('c, 'i, 'd, 'r, 'cb) e42_xapp \<Rightarrow> 'r \<Rightarrow> int \<Rightarrow> ('c, 'i, 'd, 'r, 'cb) e42_xapp res" where
  "start_e42_xapp xapp rn tfd = e2ap_handle_e42_setup_request_xapp xapp rn tfd"

text \<open>\<open>free_e42_xapp\<close> waits for the end of the loop; the worker of the dispatcher is the one of \<open>Tsn_Queue\<close>.\<close>

definition free_e42_xapp :: "('c, 'i, 'd, 'r, 'cb) e42_xapp \<Rightarrow> 'cb option act_proc_val list res" where
  "free_e42_xapp xapp =
     (if \<not> xa_stopped xapp then Inl Diverged
      else bind_res (free_reg_e2_node (xa_e2_nodes xapp)) (\<lambda>_.
        bind_res (assoc_rb_tree_free (xa_plugin_ag xapp)) (\<lambda>_.
        bind_res (assoc_rb_tree_free (xa_plugin_ric xapp)) (\<lambda>_.
        bind_res (free_pending_events_xapp (xa_pending xapp)) (\<lambda>_.
          Inr (free_act_proc (xa_act_proc xapp)))))))"

text \<open>\<open>try_stop_xapp_api\<close>: \<open>None\<close> when messages are waiting for the worker.\<close>

definition try_stop_xapp_api :: "('c, 'i, 'd, 'r, 'cb) e42_xapp \<Rightarrow> 'cb option act_proc_val list option res" where
  "try_stop_xapp_api xapp =
     (if size_msg_dispatcher (xa_msg_disp xapp) > 0 then Inr None else map_res Some (free_e42_xapp xapp))"

end
