(* ===== verification/Xapp_Calls.thy ===== *)
theory Xapp_Calls
  imports E42_Xapp
begin

text \<open>
  The interface of the xApp for its user (\<open>e42_xapp.c\<close>, \<open>e42_xapp_api.c\<close>), and the two threads of an
  xApp with the worker of the dispatcher as a machine: \<open>xapp_step\<close> is one step of one of them.
\<close>

declare bind_res_eq_Inr [simp del]

section \<open>Calls up to the wait\<close>

definition valid_ran_func_id :: "u16 \<Rightarrow> bool" where
  "valid_ran_func_id rf \<longleftrightarrow> rf = 145 \<or> rf = 142 \<or> rf = 143 \<or> rf = 144 \<or> rf = 146 \<or> rf = 148 \<or> rf = 2 \<or> rf = 3"

definition generate_ric_gen_id ::
  "('c, 'i, 'd, 'r, 'cb) e42_xapp \<Rightarrow> act_proc_kind \<Rightarrow> u16 \<Rightarrow> global_e2_node_id \<Rightarrow> 'cb option \<Rightarrow>
   (ric_gen_id \<times> ('c, 'i, 'd, 'r, 'cb) e42_xapp) res" where
  "generate_ric_gen_id xapp type rf i cb =
     c_assert (valid_ran_func_id rf = True)
      (let ric_req = \<lparr>ric_req_id = 0, ric_inst_id = 0, ran_func_id = rf\<rparr> in
       bind_res (add_act_proc (xa_act_proc xapp) type ric_req i cb) (\<lambda>(req_id, ap).
         c_assert (req_id < 2 ^ 16) (Inr (ric_req\<lparr>ric_req_id := req_id\<rparr>, xapp\<lparr>xa_act_proc := ap\<rparr>))))"

definition send_subscription_request ::
  "('c, 'i, 'd, 'r, 'cb) e42_xapp \<Rightarrow> int \<Rightarrow> global_e2_node_id \<Rightarrow> ric_gen_id \<Rightarrow> 'c \<Rightarrow>
   ('c, 'i, 'd, 'r, 'cb) e42_xapp res" where
  "send_subscription_request xapp tfd i ric_id data =
     bind_res (sm_plugin_ric (xa_plugin_ric xapp) (ran_func_id ric_id)) (\<lambda>sm.
     bind_res (generate_subscription_request_xapp ric_id sm data) (\<lambda>sr.
     let e42_sr = \<lparr>xs_xapp_id = xa_id xapp, xs_id = cp_global_e2_node_id i, xs_sr = sr\<rparr> in
     bind_res (e2ap_handle_e42_ric_subscription_request_xapp xapp tfd e42_sr) (\<lambda>xapp.
     bind_res (e2ap_msg_free (E42_RIC_SUBSCRIPTION_REQUEST e42_sr)) (\<lambda>_. Inr xapp))))"

definition send_ric_subscription_delete ::
  "('c, 'i, 'd, 'r, 'cb) e42_xapp \<Rightarrow> int \<Rightarrow> ric_gen_id \<Rightarrow> ('c, 'i, 'd, 'r, 'cb) e42_xapp res" where
  "send_ric_subscription_delete xapp tfd ric_id =
     e2ap_handle_e42_subscription_delete_request_xapp xapp tfd
       \<lparr>xd_xapp_id = xa_id xapp, xd_sdr = \<lparr>sd_ric_id = ric_id\<rparr>\<rparr>"

definition send_control_request ::
  "('c, 'i, 'd, 'r, 'cb) e42_xapp \<Rightarrow> int \<Rightarrow> global_e2_node_id \<Rightarrow> ric_gen_id \<Rightarrow> 'c \<Rightarrow>
   ('c, 'i, 'd, 'r, 'cb) e42_xapp res" where
  "send_control_request xapp tfd i ric_req ctrl_msg =
     bind_res (sm_plugin_ric (xa_plugin_ric xapp) (ran_func_id ric_req)) (\<lambda>sm.
     bind_res (generate_ric_control_request ric_req sm ctrl_msg) (\<lambda>ctrl_req.
     let e42_cr = \<lparr>xc_xapp_id = xa_id xapp, xc_id = cp_global_e2_node_id i, xc_ctrl_req = ctrl_req\<rparr> in
     bind_res (e2ap_handle_e42_ric_control_request_xapp xapp tfd e42_cr) (\<lambda>xapp.
     bind_res (e2ap_msg_free (E42_RIC_CONTROL_REQUEST e42_cr)) (\<lambda>_. Inr xapp))))"

text \<open>\<open>report_sm_sync_xapp\<close> and \<open>control_sm_sync_xapp\<close> before they wait, with the number of the request.\<close>

definition report_sm_send ::
  "('c, 'i, 'd, 'r, 'cb) e42_xapp \<Rightarrow> int \<Rightarrow> global_e2_node_id \<Rightarrow> u16 \<Rightarrow> 'c \<Rightarrow> 'cb option \<Rightarrow>
   (u32 \<times> ('c, 'i, 'd, 'r, 'cb) e42_xapp) res" where
  "report_sm_send xapp tfd i rf data cb =
     bind_res (generate_ric_gen_id xapp RIC_SUBSCRIPTION_PROCEDURE_ACTIVE rf i cb) (\<lambda>(ric_id, xapp).
     bind_res (send_subscription_request xapp tfd i ric_id data) (\<lambda>xapp. Inr (ric_req_id ric_id, xapp)))"

definition control_sm_send ::
  "('c, 'i, 'd, 'r, 'cb) e42_xapp \<Rightarrow> int \<Rightarrow> global_e2_node_id \<Rightarrow> u16 \<Rightarrow> 'c \<Rightarrow>
   (u32 \<times> ('c, 'i, 'd, 'r, 'cb) e42_xapp) res" where
  "control_sm_send xapp tfd i rf ctrl_msg =
     c_assert (valid_ran_func_id rf = True)
      (bind_res (generate_ric_gen_id xapp RIC_CONTROL_PROCEDURE_ACTIVE rf i None) (\<lambda>(ric_id, xapp).
       bind_res (send_control_request xapp tfd i ric_id ctrl_msg) (\<lambda>xapp. Inr (ric_req_id ric_id, xapp))))"

text \<open>\<open>rm_report_sm_sync_xapp\<close> before it sends anything: the identifier of the request.\<close>

definition rm_report_find ::
  "('c, 'i, 'd, 'r, 'cb) e42_xapp \<Rightarrow> int \<Rightarrow> (ric_gen_id \<times> ('c, 'i, 'd, 'r, 'cb) e42_xapp) res" where
  "rm_report_find xapp handle =
     c_assert (handle > -1 \<and> handle < 2 ^ 16)
      (bind_res (find_act_proc (xa_act_proc xapp) (word_of_int handle)) (\<lambda>(ans, ap).
        case ans of None \<Rightarrow> Inl AssertFailed
        | Some val \<Rightarrow> Inr (ap_id val, xapp\<lparr>xa_act_proc := ap\<rparr>)))"

section \<open>The interface\<close>

definition valid_global_e2_node_xapp :: "global_e2_node_id \<Rightarrow> reg_e2_nodes \<Rightarrow> bool res" where
  "valid_global_e2_node_xapp i n =
     bind_res (cp_reg_e2_node n) (\<lambda>t.
     bind_res (search t i eq_global_e2_node_id) (\<lambda>it.
     bind_res (free_reg_e2_node t) (\<lambda>_. Inr (if it = assoc_rb_tree_end t then False else True))))"

definition valid_sm_id :: "u32 \<Rightarrow> bool res" where
  "valid_sm_id sm = c_assert (sm \<in> {2, 3, 142, 143, 144, 145, 146, 147, 148}) (Inr True)"

definition e2_nodes_len_xapp :: "('c, 'i, 'd, 'r, 'cb) e42_xapp \<Rightarrow> nat" where
  "e2_nodes_len_xapp xapp = sz_reg_e2_node (xa_e2_nodes xapp)"

datatype ('c, 'cb) xapp_call =
    REPORT_SM global_e2_node_id u32 'c "'cb option"
  | RM_REPORT_SM int
  | CONTROL_SM global_e2_node_id u32 'c

text \<open>What the thread of the user is to return, and where it is.\<close>

datatype ui_ret = RET_REPORT u32 | RET_RM_REPORT u16 | RET_CONTROL u16

datatype ui_pc = UI_IDLE | UI_DELETE_SENT u16 ric_gen_id | UI_TO_WAIT ui_ret | UI_WAITING ui_ret

record ('c, 'i, 'd, 'r, 'cb) xapp_proc =
  xs_xapp :: "('c, 'i, 'd, 'r, 'cb) e42_xapp"
  xs_ui :: ui_pc
  xs_answers :: "ui_ret list"
  xs_called :: "('i, 'cb) msg_dispatch list"

text \<open>A call by the user.\<close>

definition xapp_api ::
  "('c, 'i, 'd, 'r, 'cb) xapp_proc \<Rightarrow> ('c, 'cb) xapp_call \<Rightarrow> int \<Rightarrow> ('c, 'i, 'd, 'r, 'cb) xapp_proc res" where
  "xapp_api s call tfd = (let xapp = xs_xapp s in case call of
     REPORT_SM i rf data cb \<Rightarrow>
       bind_res (valid_global_e2_node_xapp i (xa_e2_nodes xapp)) (\<lambda>b. c_assert (b = True)
        (bind_res (valid_sm_id rf) (\<lambda>b. c_assert (b = True)
          (bind_res (report_sm_send xapp tfd i (ucast rf) data cb) (\<lambda>(n, xapp).
            Inr (s\<lparr>xs_xapp := xapp, xs_ui := UI_TO_WAIT (RET_REPORT n)\<rparr>))))))
   | RM_REPORT_SM handle \<Rightarrow>
       c_assert (handle > -1)
        (bind_res (rm_report_find xapp handle) (\<lambda>(i, xapp).
         bind_res (e2ap_send_bytes_xapp xapp (ap_enc (xa_ap xapp) (E42_RIC_SUBSCRIPTION_DELETE_REQUEST
             \<lparr>xd_xapp_id = xa_id xapp, xd_sdr = \<lparr>sd_ric_id = i\<rparr>\<rparr>))) (\<lambda>xapp.
           Inr (s\<lparr>xs_xapp := xapp, xs_ui := UI_DELETE_SENT (word_of_int handle) i\<rparr>))))
   | CONTROL_SM i rf ctrl \<Rightarrow>
       c_assert (rf = 142 \<or> rf = 145 \<or> rf = 146 \<or> rf = 3)
        (bind_res (control_sm_send xapp tfd i (ucast rf) ctrl) (\<lambda>(n, xapp).
          Inr (s\<lparr>xs_xapp := xapp, xs_ui := UI_TO_WAIT (RET_CONTROL (ucast n))\<rparr>))))"

text \<open>The rest of a call after the wait.\<close>

definition ui_return :: "('c, 'i, 'd, 'r, 'cb) xapp_proc \<Rightarrow> ui_ret \<Rightarrow> ('c, 'i, 'd, 'r, 'cb) xapp_proc res" where
  "ui_return s r = map_res (\<lambda>xapp. s\<lparr>xs_xapp := xapp, xs_ui := UI_IDLE, xs_answers := xs_answers s @ [r]\<rparr>)
     (case r of
        RET_REPORT n \<Rightarrow> Inr (xs_xapp s)
      | RET_RM_REPORT n \<Rightarrow> map_res (\<lambda>ap. (xs_xapp s)\<lparr>xa_act_proc := ap\<rparr>) (rm_act_proc (xa_act_proc (xs_xapp s)) n)
      | RET_CONTROL n \<Rightarrow> map_res (\<lambda>ap. (xs_xapp s)\<lparr>xa_act_proc := ap\<rparr>) (rm_act_proc (xa_act_proc (xs_xapp s)) n))"

definition ui_step ::
  "('c, 'i, 'd, 'r, 'cb) xapp_proc \<Rightarrow> int \<Rightarrow> bool \<Rightarrow> ('c, 'i, 'd, 'r, 'cb) xapp_proc res" where
  "ui_step s tfd timeout = (case xs_ui s of
     UI_IDLE \<Rightarrow> Inr s
   | UI_DELETE_SENT n i \<Rightarrow>
       map_res (\<lambda>xapp. s\<lparr>xs_xapp := xapp, xs_ui := UI_TO_WAIT (RET_RM_REPORT n)\<rparr>) (pend_delete_xapp (xs_xapp s) tfd i)
   | UI_TO_WAIT r \<Rightarrow>
       map_res (\<lambda>sync. s\<lparr>xs_xapp := (xs_xapp s)\<lparr>xa_sync := sync\<rparr>, xs_ui := UI_WAITING r\<rparr>)
         (cond_wait_enter (xa_sync (xs_xapp s)))
   | UI_WAITING r \<Rightarrow>
       bind_res (cond_wait_test (xa_sync (xs_xapp s)) timeout) (\<lambda>w.
         case w of None \<Rightarrow> Inr s | Some _ \<Rightarrow> ui_return s r))"

text \<open>The worker of the dispatcher calls the callback of the oldest message, or waits.\<close>

definition worker_turn :: "('c, 'i, 'd, 'r, 'cb) xapp_proc \<Rightarrow> ('c, 'i, 'd, 'r, 'cb) xapp_proc res" where
  "worker_turn s =
     bind_res (wait_and_pop_tsnq (xa_msg_disp (xs_xapp s))) (\<lambda>(a, q).
       case a of
         Elm msg \<Rightarrow> (case md_sm_cb msg of None \<Rightarrow> Inl UseOfNull
           | Some _ \<Rightarrow> Inr (s\<lparr>xs_xapp := (xs_xapp s)\<lparr>xa_msg_disp := q\<rparr>, xs_called := xs_called s @ [msg]\<rparr>))
       | _ \<Rightarrow> Inr (s\<lparr>xs_xapp := (xs_xapp s)\<lparr>xa_msg_disp := q\<rparr>\<rparr>))"

datatype ('c, 'r, 'cb) xapp_input =
    Ui_Call "('c, 'cb) xapp_call" int
  | Ui_Next int
  | Ui_Timeout
  | Loop_Turn 'r int int byte_array
  | Worker_Turn

definition xapp_step ::
  "('c, 'i, 'd, 'r, 'cb) xapp_proc \<Rightarrow> ('c, 'r, 'cb) xapp_input \<Rightarrow> ('c, 'i, 'd, 'r, 'cb) xapp_proc res" where
  "xapp_step s inp = (case inp of
     Ui_Call call tfd \<Rightarrow> (if xs_ui s = UI_IDLE then xapp_api s call tfd else Inr s)
   | Ui_Next tfd \<Rightarrow> ui_step s tfd False
   | Ui_Timeout \<Rightarrow> (case xs_ui s of UI_WAITING r \<Rightarrow> ui_step s (-1) True | _ \<Rightarrow> Inr s)
   | Loop_Turn rn tfd fd ba \<Rightarrow>
       map_res (\<lambda>xapp. s\<lparr>xs_xapp := xapp\<rparr>) (e2_event_loop_xapp (xs_xapp s) rn tfd fd ba)
   | Worker_Turn \<Rightarrow> worker_turn s)"

definition xapp_run ::
  "('c, 'r, 'cb) xapp_input list \<Rightarrow> ('c, 'i, 'd, 'r, 'cb) xapp_proc \<Rightarrow> ('c, 'i, 'd, 'r, 'cb) xapp_proc res" where
  "xapp_run = fold_res (\<lambda>inp s. xapp_step s inp)"

text \<open>A deletion in the steps of the user's thread is the handler of the code, cut in two.\<close>

lemma delete_steps:
  "send_ric_subscription_delete xapp tfd i =
    bind_res (e2ap_send_bytes_xapp xapp (ap_enc (xa_ap xapp) (E42_RIC_SUBSCRIPTION_DELETE_REQUEST
        \<lparr>xd_xapp_id = xa_id xapp, xd_sdr = \<lparr>sd_ric_id = i\<rparr>\<rparr>))) (\<lambda>xapp. pend_delete_xapp xapp tfd i)"
  by (simp add: send_ric_subscription_delete_def e2ap_handle_e42_subscription_delete_request_xapp_def)

end
