(* ===== verification/Xapp_Run.thy ===== *)
theory Xapp_Run
  imports Xapp_Calls
begin

text \<open>
  What keeps an xApp in order: the active procedures as a finite map from their numbers, the invariant of
  the state and of the two threads, and what each step does to it.
\<close>

declare bind_res_eq_Inr [simp del]

section \<open>The active procedures as a map\<close>

text \<open>\<open>find_act_proc\<close> writes the number of a procedure into what is stored; the map has it from the start.\<close>

definition act_map :: "'cb act_proc \<Rightarrow> u32 \<Rightarrow> 'cb act_proc_val option" where
  "act_map p k = map_option (\<lambda>v. v\<lparr>ap_id := (ap_id v)\<lparr>ric_req_id := k\<rparr>\<rparr>) (map_of (reg_alist p) k)"

definition act_ok :: "'cb act_proc \<Rightarrow> bool" where
  "act_ok p \<longleftrightarrow> act_proc_inv p \<and> unat (reg_key_id p) \<le> 2 ^ 16"

lemma reg_occ_le:
  assumes inv: "Assoc_Reg.reg_inv r"
  shows "reg_occ r \<le> unat (reg_key_id r)"
proof -
  let ?k = "\<lambda>i. unat (b_key (reg_arr r ! i))"
  have "?k i < unat (reg_key_id r)" if "i < reg_occ r" for i
  proof -
    have "reg_arr r ! i \<in> set (take (reg_occ r) (reg_arr r))"
      using inv that by (auto simp: in_set_conv_nth Assoc_Reg.reg_inv_def)
    then show ?thesis using inv by (simp add: Assoc_Reg.reg_inv_def buckets_ok_def)
  qed
  then have "?k ` {..<reg_occ r} \<subseteq> {..<unat (reg_key_id r)}" by auto
  moreover have "inj_on ?k {..<reg_occ r}"
    using bucket_key_inj [OF inv] by (auto intro!: inj_onI simp: word_unat_eq_iff)
  ultimately show ?thesis
    by (metis card_image card_lessThan card_mono finite_lessThan)
qed

lemma act_room: "act_ok p \<Longrightarrow> reg_room p"
  using reg_occ_le [of p] by (auto simp: act_ok_def act_proc_inv_def reg_room_def)

lemma act_init: "act_ok init_act_proc" "act_map init_act_proc = Map.empty"
proof -
  have i: "Assoc_Reg.reg_inv (assoc_reg_init ACT_PROC_SZ)" "reg_alist (assoc_reg_init ACT_PROC_SZ) = []"
    by (rule assoc_reg_init_ok)+
  show "act_ok init_act_proc"
    using i(1) by (simp add: act_ok_def act_proc_inv_def init_act_proc_def) (simp add: assoc_reg_init_def)
  show "act_map init_act_proc = Map.empty"
    by (rule ext) (simp add: act_map_def init_act_proc_def i(2))
qed

lemma act_add:
  assumes ok: "act_ok p" and gid: "ric_req_id gid = 0"
  defines "k \<equiv> ucast (reg_key_id p) :: u32"
  shows "\<exists>p'. add_act_proc p type gid node cb = Inr (k, p') \<and> reg_key_id p' = reg_key_id p + 1 \<and>
    (unat (reg_key_id p) < 2 ^ 16 \<longrightarrow> act_ok p') \<and> act_map p k = None \<and> unat k = unat (reg_key_id p) \<and> 0 < unat k \<and>
    act_map p' = (act_map p)(k \<mapsto> \<lparr>ap_type = type, ap_id = gid\<lparr>ric_req_id := k\<rparr>, ap_sm_cb = cb, ap_e2_node = node\<rparr>)"
proof -
  let ?v = "\<lparr>ap_type = type, ap_id = gid, ap_sm_cb = cb, ap_e2_node = cp_global_e2_node_id node\<rparr>"
  have i: "Assoc_Reg.reg_inv p" "reg_elm_sz p = ACT_PROC_SZ" "unat (reg_key_id p) \<le> 2 ^ 16"
    using ok by (simp_all add: act_ok_def act_proc_inv_def)
  have k: "unat (reg_key_id p) < 2 ^ 32" using i(3) by simp
  obtain p' where p': "assoc_reg_push_back p ?v ACT_PROC_SZ = Inr (k, p')" "Assoc_Reg.reg_inv p'"
    "reg_alist p' = reg_alist p @ [(k, ?v)]" "reg_key_id p' = reg_key_id p + 1" "reg_elm_sz p' = ACT_PROC_SZ"
    using assoc_reg_push_back_ok [OF i(1) k i(2) [symmetric], of ?v] i(2) by (auto simp: k_def)
  have new: "k \<notin> fst ` set (reg_alist p)" using fresh_key [OF i(1) k] by (simp add: k_def)
  have u: "unat k = unat (reg_key_id p)" "1 \<le> unat (reg_key_id p)"
    using unat_ucast_key [OF k] i(1) by (simp_all add: k_def Assoc_Reg.reg_inv_def)
  have none: "map_of (reg_alist p) k = None" using new by (simp add: map_of_eq_None_iff)
  have m: "act_map p' = (act_map p)(k \<mapsto> \<lparr>ap_type = type, ap_id = gid\<lparr>ric_req_id := k\<rparr>, ap_sm_cb = cb, ap_e2_node = node\<rparr>)"
  proof
    fix j
    show "act_map p' j = ((act_map p)(k \<mapsto> \<lparr>ap_type = type, ap_id = gid\<lparr>ric_req_id := k\<rparr>, ap_sm_cb = cb, ap_e2_node = node\<rparr>)) j"
      using none by (cases "map_of (reg_alist p) j")
        (auto simp: act_map_def p'(3) map_add_def cp_global_e2_node_id_id)
  qed
  have "act_ok p'" if "unat (reg_key_id p) < 2 ^ 16"
  proof -
    have "unat (reg_key_id p + 1) = unat (reg_key_id p) + 1" using that
      by (simp add: unat_word_ariths(1))
    with that p'(2,4,5) show ?thesis by (simp add: act_ok_def act_proc_inv_def)
  qed
  then show ?thesis using p'(1,4) u none m
    by (simp add: add_act_proc_def valid_proc_type_def act_map_def) (cases type; simp)
qed

text \<open>\<open>find_act_proc\<close> writes the number into the procedure it finds; the map does not see it.\<close>

lemma map_update_same: "f b = f (xs ! i) \<Longrightarrow> map f (xs[i := b]) = map f xs"
  by (simp add: map_update) (metis list_update_id map_update)

lemma set_bucket_ok:
  assumes inv: "Assoc_Reg.reg_inv r" and it: "it < reg_occ r" "b_has_value (reg_arr r ! it)"
    and r': "r' = r\<lparr>reg_arr := (reg_arr r)[it := (reg_arr r ! it)\<lparr>b_val := Some v\<rparr>]\<rparr>"
  shows "Assoc_Reg.reg_inv r'" "map_of (reg_alist r') = (map_of (reg_alist r))(b_key (reg_arr r ! it) \<mapsto> v)"
proof -
  let ?b = "(reg_arr r ! it)\<lparr>b_val := Some v\<rparr>"
  let ?t = "take (reg_occ r) (reg_arr r)" and ?t' = "take (reg_occ r) ((reg_arr r)[it := ?b])"
  have len: "it < length (reg_arr r)" "reg_occ r < length (reg_arr r)" using inv it by (auto simp: Assoc_Reg.reg_inv_def)
  have t': "?t' = ?t[it := ?b]" by (simp add: take_update_swap)
  have nth: "?t ! it = reg_arr r ! it" using it(1) by simp
  have k: "map b_key ?t' = map b_key ?t" "map b_has_value ?t' = map b_has_value ?t"
    using it(1) by (simp_all add: t' map_update_same)
  have "length (filter b_has_value ?t') = length (filter b_has_value ?t)"
    using arg_cong [OF k(2), of "\<lambda>xs. length (filter id xs)"] by (simp add: filter_map comp_def)
  moreover have "\<forall>b \<in> set ?t'. 0 < b_key b \<and> unat (b_key b) < unat (reg_key_id r) \<and> (b_has_value b \<longrightarrow> b_val b \<noteq> None)"
  proof
    fix b assume "b \<in> set ?t'"
    then have "b = ?b \<or> b \<in> set ?t" using set_update_subset_insert [of ?t it ?b] by (auto simp: t')
    moreover have "reg_arr r ! it \<in> set ?t" using it(1) len by (auto simp: in_set_conv_nth)
    ultimately show "0 < b_key b \<and> unat (b_key b) < unat (reg_key_id r) \<and> (b_has_value b \<longrightarrow> b_val b \<noteq> None)"
      using inv by (auto simp: Assoc_Reg.reg_inv_def buckets_ok_def)
  qed
  ultimately show i': "Assoc_Reg.reg_inv r'"
    using inv k(1) by (simp add: Assoc_Reg.reg_inv_def buckets_ok_def r' reg_live_def)
  have mem: "map_of (reg_alist x) j = Some w \<longleftrightarrow>
      (\<exists>i < reg_occ x. b_has_value (reg_arr x ! i) \<and> b_key (reg_arr x ! i) = j \<and> b_val (reg_arr x ! i) = Some w)"
    if "Assoc_Reg.reg_inv x" for x :: "'a assoc_reg" and j w
    using map_of_eq_Some_iff [OF distinct_reg_alist [OF that]] reg_alist_mem [OF that] by simp
  have "map_of (reg_alist r') j = Some w \<longleftrightarrow> ((map_of (reg_alist r))(b_key (reg_arr r ! it) \<mapsto> v)) j = Some w" for j w
  proof (cases "j = b_key (reg_arr r ! it)")
    case True
    then show ?thesis using it len bucket_key_inj [OF inv] mem [OF i', of j w]
      by (auto simp: r' nth_list_update split: if_splits)
  next
    case False
    then show ?thesis using it len mem [OF i', of j w] mem [OF inv, of j w]
      by (auto simp: r' nth_list_update split: if_splits)
  qed
  then show "map_of (reg_alist r') = (map_of (reg_alist r))(b_key (reg_arr r ! it) \<mapsto> v)"
    by (intro ext) (metis not_None_eq)
qed

lemma act_find:
  assumes ok: "act_ok p" and n: "0 < n"
  shows "\<exists>p'. find_act_proc p n = Inr (act_map p (ucast n), p') \<and> act_ok p' \<and> act_map p' = act_map p \<and>
    reg_key_id p' = reg_key_id p"
proof -
  let ?k = "ucast n :: u32"
  have i: "Assoc_Reg.reg_inv p" using ok by (simp add: act_ok_def act_proc_inv_def)
  have pos: "0 < ?k"
    using n unat_small [of n] by (simp add: word_less_nat_alt unsigned_ucast_eq take_bit_nat_eq_self)
  consider "map_of (reg_alist p) ?k = None" "reg_iter p ?k = Inr (reg_occ p)"
    | (found) it v where "reg_iter p ?k = Inr it" "it < reg_occ p" "b_has_value (reg_arr p ! it)"
      "b_key (reg_arr p ! it) = ?k" "b_val (reg_arr p ! it) = Some v" "map_of (reg_alist p) ?k = Some v"
    using reg_iter_cases [OF i act_room [OF ok] pos] by auto
  then show ?thesis
  proof cases
    case 1
    then show ?thesis using ok by (simp add: find_act_proc_def assoc_reg_end_def act_map_def)
  next
    case found
    let ?v = "v\<lparr>ap_id := (ap_id v)\<lparr>ric_req_id := ?k\<rparr>\<rparr>"
    let ?p = "p\<lparr>reg_arr := (reg_arr p)[it := (reg_arr p ! it)\<lparr>b_val := Some ?v\<rparr>]\<rparr>"
    have s: "Assoc_Reg.reg_inv ?p" "map_of (reg_alist ?p) = (map_of (reg_alist p))(?k \<mapsto> ?v)"
      using set_bucket_ok [OF i found(2,3) refl, of ?v] found(4) by simp_all
    have "act_map ?p = act_map p"
      by (rule ext) (simp add: act_map_def s(2) found(6))
    moreover have "find_act_proc p n = Inr (act_map p ?k, ?p)"
      using found by (simp add: find_act_proc_def assoc_reg_end_def assoc_reg_value_def
          iterator_in_ds_def Let_def act_map_def)
    ultimately show ?thesis using ok s(1) by (simp add: act_ok_def act_proc_inv_def)
  qed
qed

lemma map_of_filter_key: "map_of (filter (\<lambda>(k, v). k \<noteq> n) xs) = (map_of xs)(n := None)"
  by (induction xs) auto

lemma act_rm:
  assumes ok: "act_ok p" and n: "0 < n" and p: "act_map p (ucast n) \<noteq> None"
  shows "\<exists>p'. rm_act_proc p n = Inr p' \<and> act_ok p' \<and> act_map p' = (act_map p)(ucast n := None) \<and>
    reg_key_id p' = reg_key_id p"
proof -
  have i: "Assoc_Reg.reg_inv p" "reg_elm_sz p = ACT_PROC_SZ" using ok by (simp_all add: act_ok_def act_proc_inv_def)
  have pos: "0 < (ucast n :: u32)"
    using n unat_small [of n] by (simp add: word_less_nat_alt unsigned_ucast_eq take_bit_nat_eq_self)
  obtain it where it: "reg_iter p (ucast n) = Inr it" "it < reg_occ p" "b_has_value (reg_arr p ! it)"
    "b_key (reg_arr p ! it) = ucast n"
    using reg_iter_cases [OF i(1) act_room [OF ok] pos] assms(3) by (auto simp: act_map_def)
  obtain p' where p': "rm_act_proc p n = Inr p'" "Assoc_Reg.reg_inv p'" "reg_elm_sz p' = ACT_PROC_SZ"
    "reg_key_id p' = reg_key_id p" "reg_alist p' = filter (\<lambda>(k, v). k \<noteq> ucast n) (reg_alist p)"
    using assoc_reg_erase_one [OF i(1) it(2,3)] i(2) it
    by (auto simp: rm_act_proc_def reg_delete_def assoc_reg_end_def)
  have "map_of (reg_alist p') = (map_of (reg_alist p))(ucast n := None)"
    by (simp add: p'(5) map_of_filter_key)
  then have "act_map p' = (act_map p)(ucast n := None)" by (intro ext) (simp add: act_map_def)
  with p' ok show ?thesis by (simp add: act_ok_def act_proc_inv_def)
qed

section \<open>The invariant of an xApp\<close>

abbreviation pend_xa :: "('c, 'i, 'd, 'r, 'cb) e42_xapp \<Rightarrow> (int \<times> pending_event_xapp) set" where
  "pend_xa xapp \<equiv> pairs_of (xa_pending xapp)"

abbreviation kinds_xa :: "('c, 'i, 'd, 'r, 'cb) e42_xapp \<Rightarrow> pending_event set" where
  "kinds_xa xapp \<equiv> px_ev ` snd ` pend_xa xapp"

abbreviation acts_xa :: "('c, 'i, 'd, 'r, 'cb) e42_xapp \<Rightarrow> u32 \<Rightarrow> 'cb option act_proc_val option" where
  "acts_xa xapp \<equiv> act_map (xa_act_proc xapp)"

abbreviation disp_xa :: "('c, 'i, 'd, 'r, 'cb) e42_xapp \<Rightarrow> ('i, 'cb) msg_dispatch list" where
  "disp_xa xapp \<equiv> tsnq_list (xa_msg_disp xapp)"

definition models_inv :: "(u16, ('c, 'i) sm_ric) rb_tree \<Rightarrow> bool" where
  "models_inv T \<longleftrightarrow> rf_inv T \<and> (\<forall>f sm. rf_map T f = Some sm \<longrightarrow> sm_ran_func_id sm = f)"

text \<open>The descriptors of the event queue are the socket and one timer for each pending event.\<close>

definition xapp_inv :: "('c, 'i, 'd, 'r, 'cb) e42_xapp \<Rightarrow> bool" where
  "xapp_inv xapp \<longleftrightarrow>
     xpend_inv (xa_pending xapp) \<and> act_ok (xa_act_proc xapp) \<and> tsnq_inv MSG_DISPATCH_SZ (xa_msg_disp xapp) \<and>
     \<not> tq_stop_token (xa_msg_disp xapp) \<and> Reg_E2_Nodes.reg_inv (xa_e2_nodes xapp) \<and> models_inv (xa_plugin_ric xapp) \<and>
     distinct (xi_fds (xa_io xapp)) \<and> set (xi_fds (xa_io xapp)) = insert (xa_fd xapp) (fst ` pend_xa xapp) \<and>
     xa_fd xapp \<notin> fst ` pend_xa xapp \<and> (\<forall>fd \<in> set (xi_fds (xa_io xapp)). fd > 0)"

lemma xapp_invD:
  assumes "xapp_inv xapp"
  shows "xpend_inv (xa_pending xapp)" "act_ok (xa_act_proc xapp)" "tsnq_inv MSG_DISPATCH_SZ (xa_msg_disp xapp)"
    "\<not> tq_stop_token (xa_msg_disp xapp)" "Reg_E2_Nodes.reg_inv (xa_e2_nodes xapp)" "models_inv (xa_plugin_ric xapp)"
    "distinct (xi_fds (xa_io xapp))" "set (xi_fds (xa_io xapp)) = insert (xa_fd xapp) (fst ` pend_xa xapp)"
    "xa_fd xapp \<notin> fst ` pend_xa xapp" "xa_fd xapp > 0" "\<And>fd. fd \<in> fst ` pend_xa xapp \<Longrightarrow> fd > 0"
  using assms by (auto simp: xapp_inv_def)

text \<open>What is not mentioned by the invariant.\<close>

lemma xapp_inv_frame:
  assumes "xapp_inv xapp" "xa_pending xapp' = xa_pending xapp" "xa_io xapp' = xa_io xapp" "xa_fd xapp' = xa_fd xapp"
    "act_ok (xa_act_proc xapp')" "tsnq_inv MSG_DISPATCH_SZ (xa_msg_disp xapp')" "\<not> tq_stop_token (xa_msg_disp xapp')"
    "Reg_E2_Nodes.reg_inv (xa_e2_nodes xapp')" "xa_plugin_ric xapp' = xa_plugin_ric xapp"
  shows "xapp_inv xapp'"
  using assms by (simp add: xapp_inv_def)

definition fresh_xa :: "('c, 'i, 'd, 'r, 'cb) e42_xapp \<Rightarrow> int \<Rightarrow> bool" where
  "fresh_xa xapp fd \<longleftrightarrow> fd > 0 \<and> fd \<noteq> xa_fd xapp \<and> fd \<notin> fst ` pend_xa xapp"

lemma sm_plugin_xa:
  assumes "models_inv T" "rf_map T f = Some sm" "f \<noteq> 0"
  shows "sm_plugin_ric T f = Inr sm"
  using assms sm_plugin_ok [of T f sm] by (simp add: models_inv_def)

section \<open>Pending events\<close>

definition xapp_waits ::
  "('c, 'i, 'd, 'r, 'cb) e42_xapp \<Rightarrow> asio_xapp \<Rightarrow> pending_xapp \<Rightarrow> ('c, 'i, 'd, 'r, 'cb) e42_xapp" where
  "xapp_waits xapp io m = xapp\<lparr>xa_io := io, xa_pending := m\<rparr>"

lemma xapp_waits_simps [simp]:
  "xa_fd (xapp_waits xapp io m) = xa_fd xapp" "xa_sent (xapp_waits xapp io m) = xa_sent xapp"
  "xa_ap (xapp_waits xapp io m) = xa_ap xapp" "xa_io (xapp_waits xapp io m) = io"
  "xa_plugin_ag (xapp_waits xapp io m) = xa_plugin_ag xapp" "xa_plugin_ric (xapp_waits xapp io m) = xa_plugin_ric xapp"
  "xa_e2_nodes (xapp_waits xapp io m) = xa_e2_nodes xapp" "xa_id (xapp_waits xapp io m) = xa_id xapp"
  "xa_sync (xapp_waits xapp io m) = xa_sync xapp" "xa_act_proc (xapp_waits xapp io m) = xa_act_proc xapp"
  "xa_pending (xapp_waits xapp io m) = m" "xa_msg_disp (xapp_waits xapp io m) = xa_msg_disp xapp"
  "xa_connected (xapp_waits xapp io m) = xa_connected xapp" "xa_stopped (xapp_waits xapp io m) = xa_stopped xapp"
  "xa_stop_token (xapp_waits xapp io m) = xa_stop_token xapp"
  by (simp_all add: xapp_waits_def)

lemma add_pending_event_xapp_ok:
  assumes inv: "xapp_inv xapp" and fd: "fresh_xa xapp tfd" and ev: "px_wait_ms ev > 0" "px_ev ev \<notin> kinds_xa xapp"
  shows "\<exists>io m. add_pending_event_xapp xapp tfd ev = Inr (xapp_waits xapp io m) \<and> xapp_inv (xapp_waits xapp io m) \<and>
    pairs_of m = insert (tfd, ev) (pend_xa xapp)"
proof -
  note i = xapp_invD [OF inv]
  have f: "tfd > 0" "tfd \<noteq> xa_fd xapp" "tfd \<notin> fst ` pend_xa xapp" "tfd \<notin> set (xi_fds (xa_io xapp))"
    using fd i(8) by (auto simp: fresh_xa_def)
  obtain m where m: "add_pending_event (xa_pending xapp) tfd ev = Inr m" "xpend_inv m"
    "pairs_of m = insert (tfd, ev) (pend_xa xapp)"
    using add_pending_event_ok [OF i(1) f(1,3) ev(2)] by blast
  obtain io where io: "create_timer_ms_asio_xapp (xa_io xapp) tfd (px_wait_ms ev) (px_wait_ms ev) = Inr io"
    "xi_fds io = tfd # xi_fds (xa_io xapp)"
    using f(1,4) ev(1) by (auto simp: create_timer_ms_asio_xapp_def add_fd_asio_xapp_def Let_def)
  have "xapp_inv (xapp_waits xapp io m)"
    using i f m(2,3) io(2) by (auto simp: xapp_inv_def)
  then show ?thesis using m(1,3) io(1) ev(1)
    by (intro exI [of _ io] exI [of _ m]) (simp add: add_pending_event_xapp_def xapp_waits_def)
qed

lemma fst_diff:
  assumes "\<And>x. (a, x) \<in> P \<Longrightarrow> x = b"
  shows "fst ` (P - {(a, b)}) = fst ` P - {a}"
proof (intro equalityI subsetI)
  fix x assume "x \<in> fst ` (P - {(a, b)})"
  then obtain e where "(x, e) \<in> P" "(x, e) \<noteq> (a, b)" by force
  then show "x \<in> fst ` P - {a}" using assms [of e] by force
next
  fix x assume "x \<in> fst ` P - {a}"
  then obtain e where "(x, e) \<in> P" "x \<noteq> a" by force
  then show "x \<in> fst ` (P - {(a, b)})" by force
qed

lemma rm_pending_event_xapp_ok:
  assumes inv: "xapp_inv xapp" and p: "(fd, ev) \<in> pend_xa xapp" "px_ev tmp = px_ev ev"
  shows "\<exists>io m. rm_pending_event_xapp xapp tmp = Inr (xapp_waits xapp io m) \<and> xapp_inv (xapp_waits xapp io m) \<and>
    pairs_of m = pend_xa xapp - {(fd, ev)}"
proof -
  note i = xapp_invD [OF inv]
  have fd: "fd \<in> fst ` pend_xa xapp" using p(1) by force
  obtain m where m: "rm_pending_event_ev (xa_pending xapp) tmp = Inr (fd, m)" "xpend_inv m"
    "pairs_of m = pend_xa xapp - {(fd, ev)}"
    using rm_pending_event_ev_ok [OF i(1) p i(11) [OF fd]] by blast
  have uniq: "x = ev" if "(fd, x) \<in> pend_xa xapp" for x
    by (rule xpend_unique(1) [OF i(1) that p(1) refl])
  have fst: "fst ` pairs_of m = fst ` pend_xa xapp - {fd}"
    unfolding m(3) by (rule fst_diff) (rule uniq)
  let ?io = "(xa_io xapp)\<lparr>xi_fds := remove1 fd (xi_fds (xa_io xapp)), xi_timers := (xi_timers (xa_io xapp))(fd := None)\<rparr>"
  have mem: "fd \<in> set (xi_fds (xa_io xapp))" using fd i(8) by simp
  have "xapp_inv (xapp_waits xapp ?io m)"
    using i m(2) fst fd by (auto simp: xapp_inv_def)
  then show ?thesis using m(1,3) mem
    by (intro exI [of _ ?io] exI [of _ m]) (simp add: rm_pending_event_xapp_def rm_fd_asio_xapp_def xapp_waits_def)
qed

lemma rm_pending_event_xapp_missing:
  assumes inv: "xapp_inv xapp" and p: "px_ev tmp \<notin> kinds_xa xapp"
  shows "rm_pending_event_xapp xapp tmp = Inl AssertFailed"
  using rm_pending_event_ev_missing [OF xapp_invD(1) [OF inv] p] by (simp add: rm_pending_event_xapp_def)

section \<open>Answers\<close>

definition answered_state ::
  "('c, 'i, 'd, 'r, 'cb) e42_xapp \<Rightarrow> 'cb option act_proc \<Rightarrow> asio_xapp \<Rightarrow> pending_xapp \<Rightarrow>
   ('c, 'i, 'd, 'r, 'cb) e42_xapp" where
  "answered_state xapp ap io m =
     (xapp_waits (xapp\<lparr>xa_act_proc := ap\<rparr>) io m)\<lparr>xa_sync := signal_sync_ui (xa_sync xapp)\<rparr>"

lemma answered_state_simps [simp]:
  "xa_fd (answered_state xapp ap io m) = xa_fd xapp" "xa_sent (answered_state xapp ap io m) = xa_sent xapp"
  "xa_ap (answered_state xapp ap io m) = xa_ap xapp" "xa_plugin_ric (answered_state xapp ap io m) = xa_plugin_ric xapp"
  "xa_plugin_ag (answered_state xapp ap io m) = xa_plugin_ag xapp"
  "xa_e2_nodes (answered_state xapp ap io m) = xa_e2_nodes xapp" "xa_id (answered_state xapp ap io m) = xa_id xapp"
  "xa_sync (answered_state xapp ap io m) = signal_sync_ui (xa_sync xapp)"
  "xa_act_proc (answered_state xapp ap io m) = ap" "xa_pending (answered_state xapp ap io m) = m"
  "xa_msg_disp (answered_state xapp ap io m) = xa_msg_disp xapp"
  "xa_connected (answered_state xapp ap io m) = xa_connected xapp"
  "xa_stopped (answered_state xapp ap io m) = xa_stopped xapp"
  "xa_stop_token (answered_state xapp ap io m) = xa_stop_token xapp"
  by (simp_all add: answered_state_def)

text \<open>A number that \<open>find_act_proc\<close> can be asked for.\<close>

definition small_id :: "u32 \<Rightarrow> bool" where
  "small_id n \<longleftrightarrow> 0 < n \<and> unat n < 2 ^ 16"

lemma small_idD:
  assumes "small_id n"
  shows "(ucast (ucast n :: u16) :: u32) = n" "0 < (ucast n :: u16)"
proof -
  show eq: "(ucast (ucast n :: u16) :: u32) = n" using assms by (simp add: small_id_def ucast_ucast_16)
  show "0 < (ucast n :: u16)" using assms eq by (auto simp: small_id_def word_gt_0)
qed

lemma act_find_small:
  assumes "act_ok p" "small_id n"
  shows "\<exists>p'. find_act_proc p (ucast n) = Inr (act_map p n, p') \<and> act_ok p' \<and> act_map p' = act_map p \<and>
    reg_key_id p' = reg_key_id p"
  using act_find [OF assms(1) small_idD(2) [OF assms(2)]] small_idD(1) [OF assms(2)] by simp

lemma answered_ok:
  assumes inv: "xapp_inv xapp" and n: "small_id n" "acts_xa xapp n \<noteq> None"
    and p: "(fd, ev) \<in> pend_xa xapp" "px_ev ev = kind"
  shows "\<exists>ap io m. answered_xapp xapp kind n = Inr (NONE_E2_MSG_TYPE, answered_state xapp ap io m) \<and>
    xapp_inv (answered_state xapp ap io m) \<and> pairs_of m = pend_xa xapp - {(fd, ev)} \<and> act_map ap = acts_xa xapp"
proof -
  note i = xapp_invD [OF inv]
  obtain v ap where ap: "find_act_proc (xa_act_proc xapp) (ucast n) = Inr (Some v, ap)" "act_ok ap"
    "act_map ap = acts_xa xapp"
    using act_find_small [OF i(2) n(1)] n(2) by auto
  let ?x = "xapp\<lparr>xa_act_proc := ap\<rparr>" and ?ev = "\<lparr>px_ev = kind, px_id = ap_id v, px_wait_ms = 0\<rparr>"
  have "xapp_inv ?x" by (rule xapp_inv_frame [OF inv]) (simp_all add: i ap(2))
  from rm_pending_event_xapp_ok [OF this, of fd ev ?ev] p obtain io m where
    m: "rm_pending_event_xapp ?x ?ev = Inr (xapp_waits ?x io m)" "xapp_inv (xapp_waits ?x io m)"
      "pairs_of m = pend_xa xapp - {(fd, ev)}" by auto
  have "xapp_inv (answered_state xapp ap io m)"
    by (rule xapp_inv_frame [OF m(2)]) (simp_all add: i ap(2) answered_state_def)
  moreover have "answered_xapp xapp kind n = Inr (NONE_E2_MSG_TYPE, answered_state xapp ap io m)"
    using ap(1) m(1) by (simp add: answered_xapp_def answered_state_def)
  ultimately show ?thesis using m(3) ap(3) by blast
qed

text \<open>An answer that nothing waits for.\<close>

lemma answered_not_pending:
  assumes inv: "xapp_inv xapp" and n: "small_id n" and p: "kind \<notin> kinds_xa xapp"
  shows "answered_xapp xapp kind n = Inl AssertFailed"
proof -
  note i = xapp_invD [OF inv]
  obtain ap where ap: "find_act_proc (xa_act_proc xapp) (ucast n) = Inr (acts_xa xapp n, ap)" "act_ok ap"
    using act_find_small [OF i(2) n] by blast
  show ?thesis
  proof (cases "acts_xa xapp n")
    case (Some v)
    let ?x = "xapp\<lparr>xa_act_proc := ap\<rparr>"
    have "xapp_inv ?x" by (rule xapp_inv_frame [OF inv]) (simp_all add: i ap(2))
    from rm_pending_event_xapp_missing [OF this, of "\<lparr>px_ev = kind, px_id = ap_id v, px_wait_ms = 0\<rparr>"] p
    show ?thesis using ap(1) Some by (simp add: answered_xapp_def)
  qed (simp add: answered_xapp_def ap(1))
qed

lemma answered_unknown:
  assumes "xapp_inv xapp" "small_id n" "acts_xa xapp n = None"
  shows "answered_xapp xapp kind n = Inl AssertFailed"
  using act_find_small [OF xapp_invD(2) [OF assms(1)] assms(2)] assms(3) by (auto simp: answered_xapp_def)

section \<open>Indications\<close>

definition ind_of :: "ric_indication \<Rightarrow> sm_ind_data" where
  "ind_of src = \<lparr>sid_hdr = in_hdr src, sid_msg = in_msg src, sid_call_process_id = in_call_process_id src\<rparr>"

text \<open>What the xApp takes: a function with a plug-in, a process identifier that is not empty, a type the xApp knows.\<close>

definition ind_ok_xapp :: "('c, 'i, 'd, 'r, 'cb) e42_xapp \<Rightarrow> ric_indication \<Rightarrow> ('c, 'i) sm_ric \<Rightarrow> bool" where
  "ind_ok_xapp xapp src sm \<longleftrightarrow>
     rf_map (xa_plugin_ric xapp) (ran_func_id (in_ric_id src)) = Some sm \<and> ran_func_id (in_ric_id src) \<noteq> 0 \<and>
     in_call_process_id src \<noteq> Some [] \<and> known_ind_xapp (ri_type (on_indication sm (ind_of src))) \<and>
     small_id (ric_req_id (in_ric_id src))"

definition dispatch_of :: "'cb option act_proc_val \<Rightarrow> ('c, 'i) sm_ric \<Rightarrow> ric_indication \<Rightarrow> ('i, 'cb) msg_dispatch" where
  "dispatch_of val sm src = \<lparr>md_rd = on_indication sm (ind_of src), md_e2_node = ap_e2_node val, md_sm_cb = ap_sm_cb val\<rparr>"

lemma indication_xapp_ok:
  assumes inv: "xapp_inv xapp" and src: "ind_ok_xapp xapp src sm" and room: "length (disp_xa xapp) < 2 ^ 32 - 1"
  shows "\<exists>ap d. e2ap_handle_indication_xapp xapp src =
      Inr (NONE_E2_MSG_TYPE, xapp\<lparr>xa_act_proc := ap, xa_msg_disp := d\<rparr>) \<and>
    xapp_inv (xapp\<lparr>xa_act_proc := ap, xa_msg_disp := d\<rparr>) \<and> act_map ap = acts_xa xapp \<and>
    tsnq_list d = disp_xa xapp @ (case acts_xa xapp (ric_req_id (in_ric_id src)) of None \<Rightarrow> []
      | Some val \<Rightarrow> [dispatch_of val sm src])"
proof -
  note i = xapp_invD [OF inv]
  let ?n = "ric_req_id (in_ric_id src)"
  have s: "sm_plugin_ric (xa_plugin_ric xapp) (ran_func_id (in_ric_id src)) = Inr sm"
    "ind_sm_payload src = Inr (ind_of src)" "known_ind_xapp (ri_type (on_indication sm (ind_of src)))"
    "small_id ?n"
    using src sm_plugin_xa [OF i(6)] by (auto simp: ind_ok_xapp_def ind_sm_payload_def ind_of_def split: option.splits)
  obtain ap where ap: "find_act_proc (xa_act_proc xapp) (ucast ?n) = Inr (acts_xa xapp ?n, ap)" "act_ok ap"
    "act_map ap = acts_xa xapp"
    using act_find_small [OF i(2) s(4)] by blast
  have head: "e2ap_handle_indication_xapp xapp src = (case acts_xa xapp ?n of
      None \<Rightarrow> Inr (NONE_E2_MSG_TYPE, xapp\<lparr>xa_act_proc := ap\<rparr>)
    | Some val \<Rightarrow> bind_res (send_msg_dispatcher (xa_msg_disp xapp) (dispatch_of val sm src)) (\<lambda>d.
        Inr (NONE_E2_MSG_TYPE, xapp\<lparr>xa_act_proc := ap, xa_msg_disp := d\<rparr>)))"
    using ap(1) by (simp add: e2ap_handle_indication_xapp_def s Let_def dispatch_of_def cp_global_e2_node_id_id
        split: option.splits)
  have frame: "xapp_inv (xapp\<lparr>xa_act_proc := ap, xa_msg_disp := d\<rparr>)"
    if "tsnq_inv MSG_DISPATCH_SZ d" "\<not> tq_stop_token d" for d
    by (rule xapp_inv_frame [OF inv]) (simp_all add: i ap(2) that)
  show ?thesis
  proof (cases "acts_xa xapp ?n")
    case None
    have "xapp_inv (xapp\<lparr>xa_act_proc := ap, xa_msg_disp := xa_msg_disp xapp\<rparr>)" by (rule frame [OF i(3,4)])
    with None show ?thesis
      by (intro exI [of _ ap] exI [of _ "xa_msg_disp xapp"]) (simp add: head ap(3))
  next
    case (Some val)
    have "seq_ring_size (tq_r (xa_msg_disp xapp)) < 2 ^ 32 - 1"
      using room by (simp add: tsnq_list_def length_ring_list)
    with push_tsnq_ok [OF i(3), of "dispatch_of val sm src"] obtain d where
      d: "push_tsnq (xa_msg_disp xapp) (dispatch_of val sm src) MSG_DISPATCH_SZ = Inr d" "tsnq_inv MSG_DISPATCH_SZ d"
        "tsnq_list d = disp_xa xapp @ [dispatch_of val sm src]" "tq_stop_token d = tq_stop_token (xa_msg_disp xapp)"
      by blast
    have "\<not> tq_stop_token d" using d(4) i(4) by simp
    from frame [OF d(2) this] d(1,3) Some show ?thesis
      by (intro exI [of _ ap] exI [of _ d]) (simp add: head ap(3) send_msg_dispatcher_def)
  qed
qed

lemma worker_turn_ok:
  assumes inv: "xapp_inv (xs_xapp s)" and q: "disp_xa (xs_xapp s) = msg # msgs"
  shows "if md_sm_cb msg = None then worker_turn s = Inl UseOfNull
    else \<exists>d. worker_turn s = Inr (s\<lparr>xs_xapp := (xs_xapp s)\<lparr>xa_msg_disp := d\<rparr>, xs_called := xs_called s @ [msg]\<rparr>) \<and>
      xapp_inv ((xs_xapp s)\<lparr>xa_msg_disp := d\<rparr>) \<and> tsnq_list d = msgs"
proof -
  note i = xapp_invD [OF inv]
  obtain d where d: "take_front (xa_msg_disp (xs_xapp s)) = Inr (msg, d)" "tsnq_inv MSG_DISPATCH_SZ d" "tsnq_list d = msgs"
    "tq_stop_token d = tq_stop_token (xa_msg_disp (xs_xapp s))"
    using take_front_ok [OF i(3) q] by blast
  have w: "wait_and_pop_tsnq (xa_msg_disp (xs_xapp s)) = Inr (Elm msg, d)"
    using d(1) tsnq_nonempty [OF q] i(4) by (simp add: wait_and_pop_tsnq_def)
  have "\<not> tq_stop_token d" using d(4) i(4) by simp
  then have "xapp_inv ((xs_xapp s)\<lparr>xa_msg_disp := d\<rparr>)"
    by (intro xapp_inv_frame [OF inv]) (simp_all add: i d(2))
  then show ?thesis using d(3) w by (cases "md_sm_cb msg") (auto simp: worker_turn_def)
qed

lemma worker_waits:
  assumes inv: "xapp_inv (xs_xapp s)" and q: "disp_xa (xs_xapp s) = []"
  shows "worker_turn s = Inr s"
proof -
  have "seq_ring_size (tq_r (xa_msg_disp (xs_xapp s))) = 0"
    using q by (simp add: tsnq_list_def flip: length_ring_list)
  then have "wait_and_pop_tsnq (xa_msg_disp (xs_xapp s)) = Inr (Blocked, xa_msg_disp (xs_xapp s))"
    using xapp_invD(4) [OF inv] by (simp add: wait_and_pop_tsnq_def)
  then show ?thesis by (simp add: worker_turn_def)
qed

end
