(* ===== verification/Xapp_Nodes.thy ===== *)
theory Xapp_Nodes
  imports Xapp_Run Subscription_Flow
begin

text \<open>
  The nodes an xApp knows: a message from the iApp lists them as \<open>connected_node\<close> makes them, and the
  registry of the xApp becomes the table of that list.
\<close>

declare bind_res_eq_Inr [simp del]

type_synonym node_entry = "global_e2_node_id \<times> ran_function list \<times> e2ap_node_component_config_add list"

definition node_entry_ok :: "node_entry \<Rightarrow> bool" where
  "node_entry_ok e \<longleftrightarrow> valid_node_id (fst e) \<and> fst (snd e) \<noteq> [] \<and> snd (snd e) \<noteq> [] \<and> length (snd (snd e)) < 256 \<and>
     (\<forall>c \<in> set (snd (snd e)). comp_id_ok (ca_id c))"

definition node_table :: "node_entry list \<Rightarrow> int list \<rightharpoonup> ran_function list \<times> e2ap_node_component_config_add list" where
  "node_table es = map_of (map (\<lambda>e. (node_id_rank (fst e), snd e)) es)"

lemma node_table_simps [simp]:
  "node_table [] = Map.empty" "node_table (e # es) = (node_table es)(node_id_rank (fst e) \<mapsto> snd e)"
  by (simp_all add: node_table_def)

lemma node_ccas_ok:
  assumes "length (snd (snd e)) < 256"
  shows "node_ccas (connected_node e) = Inr (snd (snd e))"
proof -
  obtain k rfs ccas where e: "e = (k, rfs, ccas)" by (cases e)
  have "for_res n (\<lambda>i acc. bind_res (cca_at (map Some ccas) i) (\<lambda>c. Inr (acc @ [c]))) [] = Inr (take n ccas)"
    if "n \<le> length ccas" for n
    using that by (induction n) (simp_all add: cca_at_def take_Suc_conv_app_nth)
  moreover have "unat (word_of_nat (length ccas) :: u8) = length ccas"
    using assms by (simp add: e unat_of_nat take_bit_eq_mod)
  ultimately show ?thesis by (simp add: e node_ccas_def connected_node_def)
qed

lemma add_node_xapp_ok:
  assumes r: "Reg_E2_Nodes.reg_inv r" and e: "node_entry_ok e"
  shows "if reg_map r (node_id_rank (fst e)) = None
    then \<exists>r'. add_node_xapp (connected_node e) r = Inr r' \<and> Reg_E2_Nodes.reg_inv r' \<and>
      reg_map r' = (reg_map r)(node_id_rank (fst e) \<mapsto> snd e)
    else add_node_xapp (connected_node e) r = Inl AssertFailed"
proof -
  have "node_rfs (connected_node e) = Inr (fst (snd e))" "ec_id (connected_node e) = fst e"
    by (simp_all add: node_rfs_def connected_node_def split_def)
  then have "add_node_xapp (connected_node e) r = add_reg_e2_node r (fst e) (fst (snd e)) (snd (snd e))"
    using e by (simp add: add_node_xapp_def node_ccas_ok node_entry_ok_def)
  with add_reg_e2_node_ok [OF r, of "fst e" "fst (snd e)" "snd (snd e)"] e show ?thesis
    by (auto simp: node_entry_ok_def split: if_splits)
qed

lemma add_nodes_xapp_ok:
  assumes "Reg_E2_Nodes.reg_inv r" "\<forall>e \<in> set es. node_entry_ok e" "distinct (map (\<lambda>e. node_id_rank (fst e)) es)"
    "\<forall>e \<in> set es. reg_map r (node_id_rank (fst e)) = None"
  shows "\<exists>r'. fold_res add_node_xapp (map connected_node es) r = Inr r' \<and> Reg_E2_Nodes.reg_inv r' \<and>
    reg_map r' = reg_map r ++ node_table es"
  using assms
proof (induction es arbitrary: r)
  case (Cons e es)
  obtain r1 where r1: "add_node_xapp (connected_node e) r = Inr r1" "Reg_E2_Nodes.reg_inv r1"
    "reg_map r1 = (reg_map r)(node_id_rank (fst e) \<mapsto> snd e)"
    using add_node_xapp_ok [OF Cons.prems(1), of e] Cons.prems by auto
  have "\<forall>f \<in> set es. reg_map r1 (node_id_rank (fst f)) = None"
    using Cons.prems(3,4) by (auto simp: r1(3) image_iff)
  with Cons.IH [OF r1(2)] Cons.prems obtain r' where r': "fold_res add_node_xapp (map connected_node es) r1 = Inr r'"
    "Reg_E2_Nodes.reg_inv r'" "reg_map r' = reg_map r1 ++ node_table es" by auto
  have "node_table es (node_id_rank (fst e)) = None"
    using Cons.prems(3) by (auto simp: node_table_def map_of_eq_None_iff image_iff)
  then have "reg_map r' = reg_map r ++ node_table (e # es)"
    by (intro ext) (simp add: r'(3) r1(3) map_add_def split: option.splits)
  moreover have "fold_res add_node_xapp (map connected_node (e # es)) r = Inr r'" using r1(1) r'(1) by simp
  ultimately show ?case using r'(2) by blast
qed simp

lemma rm_nodes_ok:
  assumes "Reg_E2_Nodes.reg_inv r" "\<forall>e \<in> set es. valid_node_id (fst e) \<and> reg_map r (node_id_rank (fst e)) \<noteq> None"
    "distinct (map (\<lambda>e. node_id_rank (fst e)) es)"
  shows "\<exists>r'. fold_res (\<lambda>n reg. rm_reg_e2_node reg (ec_id n)) (map connected_node es) r = Inr r' \<and>
    Reg_E2_Nodes.reg_inv r' \<and> reg_map r' = reg_map r |` (- (\<lambda>e. node_id_rank (fst e)) ` set es)"
  using assms
proof (induction es arbitrary: r)
  case (Cons e es)
  obtain r1 where r1: "rm_reg_e2_node r (fst e) = Inr r1" "Reg_E2_Nodes.reg_inv r1"
    "reg_map r1 = (reg_map r)(node_id_rank (fst e) := None)"
    using rm_reg_e2_node_ok [OF Cons.prems(1), of "fst e"] Cons.prems by auto
  have "\<forall>f \<in> set es. valid_node_id (fst f) \<and> reg_map r1 (node_id_rank (fst f)) \<noteq> None"
    using Cons.prems(2,3) by (auto simp: r1(3) image_iff)
  with Cons.IH [OF r1(2)] Cons.prems(3) obtain r' where
    r': "fold_res (\<lambda>n reg. rm_reg_e2_node reg (ec_id n)) (map connected_node es) r1 = Inr r'"
    "Reg_E2_Nodes.reg_inv r'" "reg_map r' = reg_map r1 |` (- (\<lambda>e. node_id_rank (fst e)) ` set es)" by auto
  have "reg_map r' = reg_map r |` (- (\<lambda>e. node_id_rank (fst e)) ` set (e # es))"
    by (intro ext) (simp add: r'(3) r1(3) restrict_map_def)
  moreover have "ec_id (connected_node e) = fst e" by (simp add: connected_node_def split_def)
  ultimately show ?case using r1(1) r'(1,2) by simp
qed (simp add: restrict_map_def)

text \<open>An update empties the registry and fills it again; of two nodes with one identifier the first stays.\<close>

lemma rm_all_nodes_ok:
  assumes r: "Reg_E2_Nodes.reg_inv r"
  shows "\<exists>r'. fold_res (\<lambda>n reg. rm_reg_e2_node reg (ec_id n)) (map connected_node (entries r)) r = Inr r' \<and>
    Reg_E2_Nodes.reg_inv r' \<and> reg_map r' = Map.empty"
proof -
  have d: "distinct (map (\<lambda>e. node_id_rank (fst e)) (entries r))"
    using r by (simp add: Reg_E2_Nodes.reg_inv_def flip: ranks_entries)
  have v: "\<forall>e \<in> set (entries r). valid_node_id (fst e) \<and> reg_map r (node_id_rank (fst e)) \<noteq> None"
    using entries_ok [OF r] entries_iff [OF r] by fastforce
  have none: "reg_map r k = None" if "k \<notin> (\<lambda>e. node_id_rank (fst e)) ` set (entries r)" for k
    using that by (simp add: reg_map_None ranks_entries)
  obtain r' where r': "fold_res (\<lambda>n reg. rm_reg_e2_node reg (ec_id n)) (map connected_node (entries r)) r = Inr r'"
    "Reg_E2_Nodes.reg_inv r'" "reg_map r' = reg_map r |` (- (\<lambda>e. node_id_rank (fst e)) ` set (entries r))"
    using rm_nodes_ok [OF r v d] by blast
  have "reg_map r' = Map.empty"
    by (rule ext) (auto simp: r'(3) restrict_map_def none)
  with r' show ?thesis by blast
qed

lemma update_nodes_ok:
  assumes "Reg_E2_Nodes.reg_inv r" "\<forall>e \<in> set es. node_entry_ok e"
  shows "\<exists>r'. fold_res (\<lambda>n reg. bind_res (find_reg_e2_node reg (ec_id n)) (\<lambda>b.
      if \<not> b then add_node_xapp n reg else Inr reg)) (map connected_node es) r = Inr r' \<and> Reg_E2_Nodes.reg_inv r' \<and>
    reg_map r' = node_table es ++ reg_map r"
  using assms
proof (induction es arbitrary: r)
  case (Cons e es)
  let ?k = "node_id_rank (fst e)"
  let ?step = "\<lambda>n reg. bind_res (find_reg_e2_node reg (ec_id n)) (\<lambda>b. if \<not> b then add_node_xapp n reg else Inr reg)"
  have e: "node_entry_ok e" "ec_id (connected_node e) = fst e" "valid_node_id (fst e)"
    using Cons.prems(2) by (simp_all add: connected_node_def split_def node_entry_ok_def)
  obtain r1 where r1: "?step (connected_node e) r = Inr r1" "Reg_E2_Nodes.reg_inv r1"
    "reg_map r1 = (case reg_map r ?k of None \<Rightarrow> (reg_map r)(?k \<mapsto> snd e) | Some _ \<Rightarrow> reg_map r)"
    using find_reg_e2_node_ok [OF Cons.prems(1) e(3)] add_node_xapp_ok [OF Cons.prems(1) e(1)] Cons.prems(1)
    by (cases "reg_map r ?k") (auto simp: e(2))
  from Cons.IH [OF r1(2)] Cons.prems(2) obtain r' where
    r': "fold_res ?step (map connected_node es) r1 = Inr r'" "Reg_E2_Nodes.reg_inv r'" "reg_map r' = node_table es ++ reg_map r1"
    by auto
  have "reg_map r' = node_table (e # es) ++ reg_map r"
    by (intro ext) (simp add: r'(3) r1(3) map_add_def split: option.splits)
  moreover have "fold_res ?step (map connected_node (e # es)) r = Inr r'" using r1(1) r'(1) by simp
  ultimately show ?case using r'(2) by blast
qed simp

section \<open>The handlers\<close>

lemma update_e2_node_ok:
  assumes inv: "xapp_inv xapp" "reg_small (xa_e2_nodes xapp)" and es: "xu_nodes sr = map connected_node es"
    "\<forall>e \<in> set es. node_entry_ok e"
  shows "\<exists>r. e2ap_handle_e42_update_e2_node_xapp xapp sr =
      Inr (NONE_E2_MSG_TYPE, xapp\<lparr>xa_id := xu_xapp_id sr, xa_e2_nodes := r\<rparr>) \<and>
    xapp_inv (xapp\<lparr>xa_id := xu_xapp_id sr, xa_e2_nodes := r\<rparr>) \<and> reg_map r = node_table es"
proof -
  note i = xapp_invD [OF inv(1)]
  obtain arr where arr: "generate_e2_node_arr (xa_e2_nodes xapp) = Inr arr"
    "read_nodes arr = Inr (map connected_node (entries (xa_e2_nodes xapp)))" "free_e2_node_arr arr = Inr ()"
    using node_arr_ok [OF i(5) inv(2)] by blast
  obtain r0 where r0: "fold_res (\<lambda>n reg. rm_reg_e2_node reg (ec_id n)) (map connected_node (entries (xa_e2_nodes xapp)))
      (xa_e2_nodes xapp) = Inr r0" "Reg_E2_Nodes.reg_inv r0" "reg_map r0 = Map.empty"
    using rm_all_nodes_ok [OF i(5)] by blast
  obtain r where r: "fold_res (\<lambda>n reg. bind_res (find_reg_e2_node reg (ec_id n)) (\<lambda>b.
      if \<not> b then add_node_xapp n reg else Inr reg)) (map connected_node es) r0 = Inr r" "Reg_E2_Nodes.reg_inv r"
    "reg_map r = node_table es"
    using update_nodes_ok [OF r0(2) es(2)] r0(3) by auto
  have "xapp_inv (xapp\<lparr>xa_id := xu_xapp_id sr, xa_e2_nodes := r\<rparr>)"
    by (rule xapp_inv_frame [OF inv(1)]) (simp_all add: i r(2))
  then show ?thesis using arr r0(1) r(1,3)
    by (intro exI [of _ r]) (simp add: e2ap_handle_e42_update_e2_node_xapp_def es(1))
qed

lemma setup_response_xapp_ok:
  assumes inv: "xapp_inv xapp" and es: "xp_nodes sr = map connected_node es" "\<forall>e \<in> set es. node_entry_ok e"
    "distinct (map (\<lambda>e. node_id_rank (fst e)) es)" "\<forall>e \<in> set es. reg_map (xa_e2_nodes xapp) (node_id_rank (fst e)) = None"
    and p: "\<not> xa_connected xapp" "(fd, ev) \<in> pend_xa xapp" "px_ev ev = E42_SETUP_REQUEST_PENDING_EVENT"
  shows "\<exists>r io m. e2ap_handle_e42_setup_response_xapp xapp sr = Inr (NONE_E2_MSG_TYPE,
      (xapp_waits (xapp\<lparr>xa_id := xp_xapp_id sr, xa_e2_nodes := r\<rparr>) io m)\<lparr>xa_connected := True\<rparr>) \<and>
    xapp_inv ((xapp_waits (xapp\<lparr>xa_id := xp_xapp_id sr, xa_e2_nodes := r\<rparr>) io m)\<lparr>xa_connected := True\<rparr>) \<and>
    pairs_of m = pend_xa xapp - {(fd, ev)} \<and> reg_map r = reg_map (xa_e2_nodes xapp) ++ node_table es"
proof -
  note i = xapp_invD [OF inv]
  obtain r where r: "fold_res add_node_xapp (xp_nodes sr) (xa_e2_nodes xapp) = Inr r" "Reg_E2_Nodes.reg_inv r"
    "reg_map r = reg_map (xa_e2_nodes xapp) ++ node_table es"
    using add_nodes_xapp_ok [OF i(5) es(2-4)] by (auto simp: es(1))
  let ?x = "xapp\<lparr>xa_id := xp_xapp_id sr, xa_e2_nodes := r\<rparr>"
  let ?ev = "\<lparr>px_ev = E42_SETUP_REQUEST_PENDING_EVENT, px_id = \<lparr>ric_req_id = 0, ric_inst_id = 0, ran_func_id = 0\<rparr>, px_wait_ms = 0\<rparr>"
  have "xapp_inv ?x" by (rule xapp_inv_frame [OF inv]) (simp_all add: i r(2))
  from rm_pending_event_xapp_ok [OF this, of fd ev ?ev] p obtain io m where
    m: "rm_pending_event_xapp ?x ?ev = Inr (xapp_waits ?x io m)" "xapp_inv (xapp_waits ?x io m)"
      "pairs_of m = pend_xa xapp - {(fd, ev)}" by auto
  have "xapp_inv ((xapp_waits ?x io m)\<lparr>xa_connected := True\<rparr>)"
    using xapp_invD [OF m(2)] by (intro xapp_inv_frame [OF m(2)]) simp_all
  then show ?thesis using r(1,3) m(1,3) p(1)
    by (intro exI [of _ r] exI [of _ io] exI [of _ m]) (simp add: e2ap_handle_e42_setup_response_xapp_def)
qed

end
