(* ===== verification/Xapp_Turns.thy ===== *)
theory Xapp_Turns
  imports Xapp_Nodes
begin

text \<open>
  What the steps of the threads of an xApp do to a state that satisfies the invariant: a message in the
  event loop, a call of the user with its wait, a turn of the worker.
\<close>

declare bind_res_eq_Inr [simp del]

section \<open>The event loop\<close>

lemma network_turn:
  assumes inv: "xapp_inv xapp" "\<not> xa_stop_token xapp"
    and h: "e2ap_msg_handle_xapp xapp tfd (ap_dec (xa_ap xapp) ba) = Inr (NONE_E2_MSG_TYPE, xapp')"
    and f: "e2ap_msg_free_xapp (ap_dec (xa_ap xapp) ba) = Inr ()"
  shows "e2_event_loop_xapp xapp rn tfd (xa_fd xapp) ba = Inr xapp'"
  using xapp_invD(10) [OF inv(1)] inv(2) h f
  by (simp add: e2_event_loop_xapp_def find_event_type_def net_pkt_xapp_def network_event_xapp_def Let_def
      e2ap_msg_free_xapp_def)

lemma network_fault:
  assumes inv: "xapp_inv xapp" "\<not> xa_stop_token xapp"
    and h: "e2ap_msg_handle_xapp xapp tfd (ap_dec (xa_ap xapp) ba) = Inl f"
  shows "e2_event_loop_xapp xapp rn tfd (xa_fd xapp) ba = Inl f"
  using xapp_invD(10) [OF inv(1)] inv(2) h
  by (simp add: e2_event_loop_xapp_def find_event_type_def net_pkt_xapp_def network_event_xapp_def Let_def)

lemma find_pending_event_type:
  assumes inv: "xapp_inv xapp" and p: "(fd, ev) \<in> pend_xa xapp"
  shows "find_event_type xapp fd = Inr (PENDING_EVENT_XAPP ev)"
proof -
  note i = xapp_invD [OF inv]
  have mem: "fd \<in> fst ` pend_xa xapp" using p by force
  have fd: "fd > 0" "fd \<noteq> xa_fd xapp" using i(11) [OF mem] i(9) mem by blast+
  obtain it ev' where it: "search (bm_left (xa_pending xapp)) fd eq_fd = Inr it"
    "it \<noteq> assoc_rb_tree_end (bm_left (xa_pending xapp))" "(fd, ev') \<in> pend_xa xapp"
    "assoc_rb_tree_value (bm_left (xa_pending xapp)) it = Inr ev'"
    using xpend_by_fd [OF i(1), of fd] fd(1) mem by (auto split: if_splits)
  have "ev' = ev" by (rule xpend_unique(1) [OF i(1) it(3) p refl])
  with it fd show ?thesis
    by (simp add: find_event_type_def net_pkt_xapp_def pend_event_xapp_def)
qed

text \<open>A timer that fires: of all requests, only the setup is sent again.\<close>

lemma timer_turn:
  assumes inv: "xapp_inv xapp" "\<not> xa_stop_token xapp" and p: "(fd, ev) \<in> pend_xa xapp"
  shows "e2_event_loop_xapp xapp rn tfd fd ba = pending_event_turn_xapp xapp rn fd (px_ev ev)"
proof -
  have "fd \<in> fst ` pend_xa xapp" using p by force
  then have "fd > 0" by (rule xapp_invD(11) [OF inv(1)])
  then show ?thesis
    using inv(2) find_pending_event_type [OF inv(1) p] by (simp add: e2_event_loop_xapp_def)
qed

section \<open>Sending\<close>

definition encodes_xa :: "('c, 'i, 'd, 'r, 'cb) e42_xapp \<Rightarrow> bool" where
  "encodes_xa xapp \<longleftrightarrow> (\<forall>msg. ap_enc (xa_ap xapp) msg \<noteq> [])"

definition sent_xa :: "('c, 'i, 'd, 'r, 'cb) e42_xapp \<Rightarrow> e2ap_msg \<Rightarrow> ('c, 'i, 'd, 'r, 'cb) e42_xapp" where
  "sent_xa xapp msg = xapp\<lparr>xa_sent := xa_sent xapp @ [ap_enc (xa_ap xapp) msg]\<rparr>"

lemma sent_xa_simps [simp]:
  "xa_fd (sent_xa xapp msg) = xa_fd xapp" "xa_sent (sent_xa xapp msg) = xa_sent xapp @ [ap_enc (xa_ap xapp) msg]"
  "xa_ap (sent_xa xapp msg) = xa_ap xapp" "xa_io (sent_xa xapp msg) = xa_io xapp"
  "xa_plugin_ag (sent_xa xapp msg) = xa_plugin_ag xapp" "xa_plugin_ric (sent_xa xapp msg) = xa_plugin_ric xapp"
  "xa_e2_nodes (sent_xa xapp msg) = xa_e2_nodes xapp" "xa_id (sent_xa xapp msg) = xa_id xapp"
  "xa_sync (sent_xa xapp msg) = xa_sync xapp" "xa_act_proc (sent_xa xapp msg) = xa_act_proc xapp"
  "xa_pending (sent_xa xapp msg) = xa_pending xapp" "xa_msg_disp (sent_xa xapp msg) = xa_msg_disp xapp"
  "xa_connected (sent_xa xapp msg) = xa_connected xapp" "xa_stopped (sent_xa xapp msg) = xa_stopped xapp"
  "xa_stop_token (sent_xa xapp msg) = xa_stop_token xapp"
  by (simp_all add: sent_xa_def)

lemma send_xa: "encodes_xa xapp \<Longrightarrow> e2ap_send_bytes_xapp xapp (ap_enc (xa_ap xapp) msg) = Inr (sent_xa xapp msg)"
  by (simp add: encodes_xa_def e2ap_send_bytes_xapp_def sent_xa_def)

lemma xapp_inv_sent: "xapp_inv xapp \<Longrightarrow> xapp_inv (sent_xa xapp msg)"
  by (simp add: xapp_inv_def)

section \<open>Calls of the user\<close>

lemma valid_global_e2_node_xapp_ok:
  assumes n: "Reg_E2_Nodes.reg_inv n" and i: "valid_node_id i"
  shows "valid_global_e2_node_xapp i n = Inr (reg_map n (node_id_rank i) \<noteq> None)"
proof -
  obtain t where t: "cp_reg_e2_node n = Inr t" "Reg_E2_Nodes.reg_inv t" "entries t = entries n"
    using cp_reg_e2_node_ok [OF n] by blast
  have same: "reg_map t (node_id_rank i) \<noteq> None \<longleftrightarrow> reg_map n (node_id_rank i) \<noteq> None"
    by (simp only: registered_iff t(3))
  obtain it where it: "search t i eq_global_e2_node_id = Inr it"
    "it \<noteq> assoc_rb_tree_end t \<longleftrightarrow> reg_map t (node_id_rank i) \<noteq> None"
    using search_node_ok [OF t(2) i] by (auto split: if_splits)
  have "valid_global_e2_node_xapp i n = Inr (it \<noteq> assoc_rb_tree_end t)"
    by (simp add: valid_global_e2_node_xapp_def t(1) it(1) free_reg_ok [OF t(2)])
  then show ?thesis by (simp only: it(2) same)
qed

definition new_act :: "act_proc_kind \<Rightarrow> u16 \<Rightarrow> u32 \<Rightarrow> global_e2_node_id \<Rightarrow> 'cb option \<Rightarrow> 'cb option act_proc_val" where
  "new_act type rf n i cb =
     \<lparr>ap_type = type, ap_id = \<lparr>ric_req_id = n, ric_inst_id = 0, ran_func_id = rf\<rparr>, ap_sm_cb = cb, ap_e2_node = i\<rparr>"

definition next_id :: "('c, 'i, 'd, 'r, 'cb) e42_xapp \<Rightarrow> u32" where
  "next_id xapp = ucast (reg_key_id (xa_act_proc xapp))"

text \<open>Numbers are left when the next one fits 16 bits.\<close>

definition ids_left :: "('c, 'i, 'd, 'r, 'cb) e42_xapp \<Rightarrow> bool" where
  "ids_left xapp \<longleftrightarrow> unat (reg_key_id (xa_act_proc xapp)) < 2 ^ 16"

lemma generate_ric_gen_id_ok:
  assumes inv: "xapp_inv xapp" "ids_left xapp" and rf: "valid_ran_func_id rf"
  shows "\<exists>ap. generate_ric_gen_id xapp type rf i cb =
      Inr (\<lparr>ric_req_id = next_id xapp, ric_inst_id = 0, ran_func_id = rf\<rparr>, xapp\<lparr>xa_act_proc := ap\<rparr>) \<and>
    xapp_inv (xapp\<lparr>xa_act_proc := ap\<rparr>) \<and> acts_xa xapp (next_id xapp) = None \<and> small_id (next_id xapp) \<and>
    act_map ap = (acts_xa xapp)(next_id xapp \<mapsto> new_act type rf (next_id xapp) i cb)"
proof -
  note v = xapp_invD [OF inv(1)]
  let ?gid = "\<lparr>ric_req_id = 0, ric_inst_id = 0, ran_func_id = rf\<rparr>"
  obtain ap where ap: "add_act_proc (xa_act_proc xapp) type ?gid i cb = Inr (next_id xapp, ap)" "act_ok ap"
    "acts_xa xapp (next_id xapp) = None" "unat (next_id xapp) = unat (reg_key_id (xa_act_proc xapp))" "0 < unat (next_id xapp)"
    "act_map ap = (acts_xa xapp)(next_id xapp \<mapsto> \<lparr>ap_type = type, ap_id = ?gid\<lparr>ric_req_id := next_id xapp\<rparr>,
      ap_sm_cb = cb, ap_e2_node = i\<rparr>)"
    using act_add [OF v(2), of ?gid type i cb] inv(2) by (auto simp: ids_left_def next_id_def)
  have s: "small_id (next_id xapp)" "next_id xapp < 2 ^ 16"
    using ap(4,5) inv(2) by (simp_all add: small_id_def ids_left_def word_less_nat_alt)
  have "xapp_inv (xapp\<lparr>xa_act_proc := ap\<rparr>)" by (rule xapp_inv_frame [OF inv(1)]) (simp_all add: v ap(2))
  then show ?thesis using ap s rf
    by (intro exI [of _ ap]) (simp add: generate_ric_gen_id_def Let_def new_act_def)
qed

text \<open>The state after a request: a number, a timer and a message.\<close>

definition requested ::
  "('c, 'i, 'd, 'r, 'cb) e42_xapp \<Rightarrow> 'cb option act_proc \<Rightarrow> asio_xapp \<Rightarrow> pending_xapp \<Rightarrow> e2ap_msg \<Rightarrow>
   ('c, 'i, 'd, 'r, 'cb) e42_xapp" where
  "requested xapp ap io m msg = sent_xa (xapp_waits (xapp\<lparr>xa_act_proc := ap\<rparr>) io m) msg"

lemma requested_simps [simp]:
  "xa_fd (requested xapp ap io m msg) = xa_fd xapp"
  "xa_sent (requested xapp ap io m msg) = xa_sent xapp @ [ap_enc (xa_ap xapp) msg]"
  "xa_ap (requested xapp ap io m msg) = xa_ap xapp" "xa_io (requested xapp ap io m msg) = io"
  "xa_plugin_ag (requested xapp ap io m msg) = xa_plugin_ag xapp"
  "xa_plugin_ric (requested xapp ap io m msg) = xa_plugin_ric xapp"
  "xa_e2_nodes (requested xapp ap io m msg) = xa_e2_nodes xapp" "xa_id (requested xapp ap io m msg) = xa_id xapp"
  "xa_sync (requested xapp ap io m msg) = xa_sync xapp" "xa_act_proc (requested xapp ap io m msg) = ap"
  "xa_pending (requested xapp ap io m msg) = m" "xa_msg_disp (requested xapp ap io m msg) = xa_msg_disp xapp"
  "xa_connected (requested xapp ap io m msg) = xa_connected xapp"
  "xa_stopped (requested xapp ap io m msg) = xa_stopped xapp"
  "xa_stop_token (requested xapp ap io m msg) = xa_stop_token xapp"
  by (simp_all add: requested_def)

definition sub_request_of :: "('c, 'i, 'd, 'r, 'cb) e42_xapp \<Rightarrow> global_e2_node_id \<Rightarrow> u16 \<Rightarrow> ('c, 'i) sm_ric \<Rightarrow> 'c \<Rightarrow> e2ap_msg" where
  "sub_request_of xapp i rf sm cmd = E42_RIC_SUBSCRIPTION_REQUEST \<lparr>xs_xapp_id = xa_id xapp, xs_id = i,
     xs_sr = \<lparr>sr_ric_id = \<lparr>ric_req_id = next_id xapp, ric_inst_id = 0, ran_func_id = rf\<rparr>,
       sr_event_trigger = sb_event_trigger (on_subscription sm cmd),
       sr_action = [\<lparr>ra_id = 0, ra_type = RIC_ACT_REPORT, ra_definition = sb_action_def (on_subscription sm cmd),
         ra_subseq = None\<rparr>]\<rparr>\<rparr>"

definition ctrl_request_of :: "('c, 'i, 'd, 'r, 'cb) e42_xapp \<Rightarrow> global_e2_node_id \<Rightarrow> u16 \<Rightarrow> ('c, 'i) sm_ric \<Rightarrow> 'c \<Rightarrow> e2ap_msg" where
  "ctrl_request_of xapp i rf sm cmd = E42_RIC_CONTROL_REQUEST \<lparr>xc_xapp_id = xa_id xapp, xc_id = i,
     xc_ctrl_req = \<lparr>cr_ric_id = \<lparr>ric_req_id = next_id xapp, ric_inst_id = 0, ran_func_id = rf\<rparr>,
       cr_call_process_id = None, cr_hdr = sc_ctrl_hdr (on_control_req sm cmd), cr_msg = sc_ctrl_msg (on_control_req sm cmd),
       cr_ack_req = Some RIC_CONTROL_REQUEST_ACK\<rparr>\<rparr>"

definition rf_known :: "u32 \<Rightarrow> bool" where
  "rf_known rf \<longleftrightarrow> rf \<in> {2, 3, 142, 143, 144, 145, 146, 148}"

lemma rf_knownD:
  assumes "rf_known rf"
  shows "valid_sm_id rf = Inr True" "valid_ran_func_id (ucast rf)" "(ucast rf :: u16) \<noteq> 0"
  using assms by (auto simp: rf_known_def valid_sm_id_def valid_ran_func_id_def)

lemma report_call_ok:
  assumes inv: "xapp_inv xapp" "encodes_xa xapp" "ids_left xapp" "fresh_xa xapp tfd"
    and kind: "E42_RIC_SUBSCRIPTION_REQUEST_PENDING_EVENT \<notin> kinds_xa xapp"
    and sm: "rf_known rf" "rf_map (xa_plugin_ric xapp) (ucast rf) = Some sm"
      "\<forall>ad. sb_action_def (on_subscription sm cmd) = Some ad \<longrightarrow> length ad < 2048"
  shows "\<exists>ap io m. report_sm_send xapp tfd i (ucast rf) cmd cb =
      Inr (next_id xapp, requested xapp ap io m (sub_request_of xapp i (ucast rf) sm cmd)) \<and>
    xapp_inv (requested xapp ap io m (sub_request_of xapp i (ucast rf) sm cmd)) \<and>
    acts_xa xapp (next_id xapp) = None \<and> small_id (next_id xapp) \<and>
    act_map ap = (acts_xa xapp)(next_id xapp \<mapsto>
      new_act RIC_SUBSCRIPTION_PROCEDURE_ACTIVE (ucast rf) (next_id xapp) i cb) \<and>
    pairs_of m = insert (tfd, \<lparr>px_ev = E42_RIC_SUBSCRIPTION_REQUEST_PENDING_EVENT,
      px_id = \<lparr>ric_req_id = next_id xapp, ric_inst_id = 0, ran_func_id = ucast rf\<rparr>, px_wait_ms = 5000\<rparr>) (pend_xa xapp)"
proof -
  note k = rf_knownD [OF sm(1)]
  let ?id = "\<lparr>ric_req_id = next_id xapp, ric_inst_id = 0, ran_func_id = (ucast rf :: u16)\<rparr>"
  let ?ev = "\<lparr>px_ev = E42_RIC_SUBSCRIPTION_REQUEST_PENDING_EVENT, px_id = ?id, px_wait_ms = 5000\<rparr>"
  obtain ap where ap: "generate_ric_gen_id xapp RIC_SUBSCRIPTION_PROCEDURE_ACTIVE (ucast rf) i cb =
      Inr (?id, xapp\<lparr>xa_act_proc := ap\<rparr>)" "xapp_inv (xapp\<lparr>xa_act_proc := ap\<rparr>)"
    "acts_xa xapp (next_id xapp) = None" "small_id (next_id xapp)" "act_map ap = (acts_xa xapp)(next_id xapp \<mapsto>
      new_act RIC_SUBSCRIPTION_PROCEDURE_ACTIVE (ucast rf) (next_id xapp) i cb)"
    using generate_ric_gen_id_ok [OF inv(1,3) k(2)] by blast
  have fr: "fresh_xa (xapp\<lparr>xa_act_proc := ap\<rparr>) tfd" using inv(4) by (simp add: fresh_xa_def)
  obtain io m where m: "add_pending_event_xapp (xapp\<lparr>xa_act_proc := ap\<rparr>) tfd ?ev =
      Inr (xapp_waits (xapp\<lparr>xa_act_proc := ap\<rparr>) io m)" "xapp_inv (xapp_waits (xapp\<lparr>xa_act_proc := ap\<rparr>) io m)"
    "pairs_of m = insert (tfd, ?ev) (pend_xa xapp)"
    using add_pending_event_xapp_ok [OF ap(2) fr, of ?ev] kind by auto
  have plug: "sm_plugin_ric (xa_plugin_ric xapp) (ucast rf) = Inr sm"
    by (rule sm_plugin_xa [OF xapp_invD(6) [OF inv(1)] sm(2) k(3)])
  have gen: "generate_subscription_request_xapp ?id sm cmd = Inr \<lparr>sr_ric_id = ?id,
      sr_event_trigger = sb_event_trigger (on_subscription sm cmd),
      sr_action = [\<lparr>ra_id = 0, ra_type = RIC_ACT_REPORT, ra_definition = sb_action_def (on_subscription sm cmd),
        ra_subseq = None\<rparr>]\<rparr>"
    using sm(3) by (simp add: generate_subscription_request_xapp_def Let_def split: option.split)
  have "encodes_xa (xapp_waits (xapp\<lparr>xa_act_proc := ap\<rparr>) io m)" using inv(2) by (simp add: encodes_xa_def)
  note send = send_xa [OF this, of "sub_request_of xapp i (ucast rf) sm cmd", unfolded sub_request_of_def, simplified]
  have "report_sm_send xapp tfd i (ucast rf) cmd cb =
      Inr (next_id xapp, requested xapp ap io m (sub_request_of xapp i (ucast rf) sm cmd))"
    by (simp add: report_sm_send_def ap(1) send_subscription_request_def plug gen Let_def cp_global_e2_node_id_id
        e2ap_handle_e42_ric_subscription_request_xapp_def m(1) send requested_def sub_request_of_def)
  moreover have "xapp_inv (requested xapp ap io m (sub_request_of xapp i (ucast rf) sm cmd))"
    unfolding requested_def by (rule xapp_inv_sent [OF m(2)])
  ultimately show ?thesis using ap(3-5) m(3) by blast
qed

lemma control_call_ok:
  assumes inv: "xapp_inv xapp" "encodes_xa xapp" "ids_left xapp" "fresh_xa xapp tfd"
    and kind: "E42_RIC_CONTROL_REQUEST_PENDING_EVENT \<notin> kinds_xa xapp"
    and sm: "rf_known rf" "rf_map (xa_plugin_ric xapp) (ucast rf) = Some sm"
      "length (sc_ctrl_hdr (on_control_req sm cmd)) < 2049" "length (sc_ctrl_msg (on_control_req sm cmd)) < 2049"
  shows "\<exists>ap io m. control_sm_send xapp tfd i (ucast rf) cmd =
      Inr (next_id xapp, requested xapp ap io m (ctrl_request_of xapp i (ucast rf) sm cmd)) \<and>
    xapp_inv (requested xapp ap io m (ctrl_request_of xapp i (ucast rf) sm cmd)) \<and>
    acts_xa xapp (next_id xapp) = None \<and> small_id (next_id xapp) \<and>
    act_map ap = (acts_xa xapp)(next_id xapp \<mapsto> new_act RIC_CONTROL_PROCEDURE_ACTIVE (ucast rf) (next_id xapp) i None) \<and>
    pairs_of m = insert (tfd, \<lparr>px_ev = E42_RIC_CONTROL_REQUEST_PENDING_EVENT,
      px_id = \<lparr>ric_req_id = next_id xapp, ric_inst_id = 0, ran_func_id = ucast rf\<rparr>, px_wait_ms = 10000\<rparr>) (pend_xa xapp)"
proof -
  note k = rf_knownD [OF sm(1)]
  let ?id = "\<lparr>ric_req_id = next_id xapp, ric_inst_id = 0, ran_func_id = (ucast rf :: u16)\<rparr>"
  let ?ev = "\<lparr>px_ev = E42_RIC_CONTROL_REQUEST_PENDING_EVENT, px_id = ?id, px_wait_ms = 10000\<rparr>"
  obtain ap where ap: "generate_ric_gen_id xapp RIC_CONTROL_PROCEDURE_ACTIVE (ucast rf) i None =
      Inr (?id, xapp\<lparr>xa_act_proc := ap\<rparr>)" "xapp_inv (xapp\<lparr>xa_act_proc := ap\<rparr>)"
    "acts_xa xapp (next_id xapp) = None" "small_id (next_id xapp)" "act_map ap = (acts_xa xapp)(next_id xapp \<mapsto>
      new_act RIC_CONTROL_PROCEDURE_ACTIVE (ucast rf) (next_id xapp) i None)"
    using generate_ric_gen_id_ok [OF inv(1,3) k(2)] by blast
  have fr: "fresh_xa (xapp\<lparr>xa_act_proc := ap\<rparr>) tfd" using inv(4) by (simp add: fresh_xa_def)
  obtain io m where m: "add_pending_event_xapp (xapp\<lparr>xa_act_proc := ap\<rparr>) tfd ?ev =
      Inr (xapp_waits (xapp\<lparr>xa_act_proc := ap\<rparr>) io m)" "xapp_inv (xapp_waits (xapp\<lparr>xa_act_proc := ap\<rparr>) io m)"
    "pairs_of m = insert (tfd, ?ev) (pend_xa xapp)"
    using add_pending_event_xapp_ok [OF ap(2) fr, of ?ev] kind by auto
  have plug: "sm_plugin_ric (xa_plugin_ric xapp) (ucast rf) = Inr sm"
    by (rule sm_plugin_xa [OF xapp_invD(6) [OF inv(1)] sm(2) k(3)])
  have gen: "generate_ric_control_request ?id sm cmd = Inr \<lparr>cr_ric_id = ?id, cr_call_process_id = None,
      cr_hdr = sc_ctrl_hdr (on_control_req sm cmd), cr_msg = sc_ctrl_msg (on_control_req sm cmd),
      cr_ack_req = Some RIC_CONTROL_REQUEST_ACK\<rparr>"
    using sm(3,4) by (simp add: generate_ric_control_request_def Let_def)
  have "encodes_xa (xapp_waits (xapp\<lparr>xa_act_proc := ap\<rparr>) io m)" using inv(2) by (simp add: encodes_xa_def)
  note send = send_xa [OF this, of "ctrl_request_of xapp i (ucast rf) sm cmd", unfolded ctrl_request_of_def, simplified]
  have "control_sm_send xapp tfd i (ucast rf) cmd =
      Inr (next_id xapp, requested xapp ap io m (ctrl_request_of xapp i (ucast rf) sm cmd))"
    using k(2) by (simp add: control_sm_send_def ap(1) send_control_request_def plug gen Let_def cp_global_e2_node_id_id
        e2ap_handle_e42_ric_control_request_xapp_def m(1) send requested_def ctrl_request_of_def)
  moreover have "xapp_inv (requested xapp ap io m (ctrl_request_of xapp i (ucast rf) sm cmd))"
    unfolding requested_def by (rule xapp_inv_sent [OF m(2)])
  ultimately show ?thesis using ap(3-5) m(3) by blast
qed

text \<open>A handle of a subscription in progress, as \<open>rm_report_sm_xapp_api\<close> takes it.\<close>

lemma rm_report_find_ok:
  assumes inv: "xapp_inv xapp" and h: "small_id n" "handle = uint n" "acts_xa xapp n = Some v"
  shows "\<exists>ap. rm_report_find xapp handle = Inr (ap_id v, xapp\<lparr>xa_act_proc := ap\<rparr>) \<and>
    xapp_inv (xapp\<lparr>xa_act_proc := ap\<rparr>) \<and> act_map ap = acts_xa xapp"
proof -
  note i = xapp_invD [OF inv]
  have r: "handle > -1" "handle < 2 ^ 16" "(word_of_int handle :: u16) = ucast n"
    using h(1) by (simp_all add: h(2) small_id_def uint_nat ucast_eq del: of_nat_unat)
  obtain ap where ap: "find_act_proc (xa_act_proc xapp) (ucast n) = Inr (Some v, ap)" "act_ok ap"
    "act_map ap = acts_xa xapp"
    using act_find_small [OF i(2) h(1)] h(3) by auto
  have "xapp_inv (xapp\<lparr>xa_act_proc := ap\<rparr>)" by (rule xapp_inv_frame [OF inv]) (simp_all add: i ap(2))
  then show ?thesis using ap(1,3) r by (intro exI [of _ ap]) (simp add: rm_report_find_def)
qed

lemma rm_proc_ok:
  assumes inv: "xapp_inv xapp" and n: "small_id n" "acts_xa xapp n \<noteq> None"
  shows "\<exists>ap. rm_act_proc (xa_act_proc xapp) (ucast n) = Inr ap \<and> xapp_inv (xapp\<lparr>xa_act_proc := ap\<rparr>) \<and>
    act_map ap = (acts_xa xapp)(n := None)"
proof -
  note i = xapp_invD [OF inv]
  obtain ap where ap: "rm_act_proc (xa_act_proc xapp) (ucast n) = Inr ap" "act_ok ap"
    "act_map ap = (acts_xa xapp)(n := None)"
    using act_rm [OF i(2) small_idD(2) [OF n(1)]] small_idD(1) [OF n(1)] n(2) by auto
  have "xapp_inv (xapp\<lparr>xa_act_proc := ap\<rparr>)" by (rule xapp_inv_frame [OF inv]) (simp_all add: i ap(2))
  with ap(1,3) show ?thesis by blast
qed

lemma pend_delete_ok:
  assumes inv: "xapp_inv xapp" "fresh_xa xapp tfd" and kind: "E42_RIC_SUBSCRIPTION_DELETE_REQUEST_PENDING_EVENT \<notin> kinds_xa xapp"
  shows "\<exists>io m. pend_delete_xapp xapp tfd i = Inr (xapp_waits xapp io m) \<and> xapp_inv (xapp_waits xapp io m) \<and>
    pairs_of m = insert (tfd, \<lparr>px_ev = E42_RIC_SUBSCRIPTION_DELETE_REQUEST_PENDING_EVENT, px_id = i, px_wait_ms = 10000\<rparr>)
      (pend_xa xapp)"
  using add_pending_event_xapp_ok [OF inv, of "\<lparr>px_ev = E42_RIC_SUBSCRIPTION_DELETE_REQUEST_PENDING_EVENT, px_id = i,
    px_wait_ms = 10000\<rparr>"] kind by (simp add: pend_delete_xapp_def)

end
