(* ===== verification/Xapp_Safe.thy ===== *)
theory Xapp_Safe
  imports Xapp_Turns
begin

text \<open>
  The threads of an xApp together: what the user's thread waits for while a request is on its way, and
  the inputs that keep all of them running.
\<close>

declare bind_res_eq_Inr [simp del]

section \<open>The invariant of the threads\<close>

definition waits_for :: "ui_ret \<Rightarrow> pending_event" where
  "waits_for r = (case r of RET_REPORT n \<Rightarrow> E42_RIC_SUBSCRIPTION_REQUEST_PENDING_EVENT
     | RET_RM_REPORT n \<Rightarrow> E42_RIC_SUBSCRIPTION_DELETE_REQUEST_PENDING_EVENT
     | RET_CONTROL n \<Rightarrow> E42_RIC_CONTROL_REQUEST_PENDING_EVENT)"

text \<open>A procedure that ends when the call returns is still known.\<close>

definition ret_ok :: "('c, 'i, 'd, 'r, 'cb) e42_xapp \<Rightarrow> ui_ret \<Rightarrow> bool" where
  "ret_ok xapp r = (case r of RET_REPORT n \<Rightarrow> True
     | RET_RM_REPORT n \<Rightarrow> 0 < n \<and> acts_xa xapp (ucast n) \<noteq> None
     | RET_CONTROL n \<Rightarrow> 0 < n \<and> acts_xa xapp (ucast n) \<noteq> None)"

definition pc_ok :: "('c, 'i, 'd, 'r, 'cb) e42_xapp \<Rightarrow> ui_pc \<Rightarrow> bool" where
  "pc_ok xapp pc = (case pc of
     UI_IDLE \<Rightarrow> kinds_xa xapp \<subseteq> {E42_SETUP_REQUEST_PENDING_EVENT}
   | UI_DELETE_SENT n i \<Rightarrow> kinds_xa xapp \<subseteq> {E42_SETUP_REQUEST_PENDING_EVENT} \<and> ret_ok xapp (RET_RM_REPORT n)
   | UI_TO_WAIT r \<Rightarrow> kinds_xa xapp \<subseteq> {E42_SETUP_REQUEST_PENDING_EVENT, waits_for r} \<and> ret_ok xapp r
   | UI_WAITING r \<Rightarrow> kinds_xa xapp \<subseteq> {E42_SETUP_REQUEST_PENDING_EVENT, waits_for r} \<and> ret_ok xapp r \<and>
       (su_flag_sync (xa_sync xapp) \<longrightarrow> waits_for r \<notin> kinds_xa xapp))"

definition xapp_ok :: "('c, 'i, 'd, 'r, 'cb) e42_xapp \<Rightarrow> bool" where
  "xapp_ok xapp \<longleftrightarrow> xapp_inv xapp \<and> encodes_xa xapp \<and> (\<forall>m \<in> set (disp_xa xapp). md_sm_cb m \<noteq> None) \<and>
     su_wait_ms (xa_sync xapp) > 0 \<and> (su_flag_sync (xa_sync xapp) \<longrightarrow> su_msg_ack (xa_sync xapp))"

definition proc_inv :: "('c, 'i, 'd, 'r, 'cb) xapp_proc \<Rightarrow> bool" where
  "proc_inv s \<longleftrightarrow> xapp_ok (xs_xapp s) \<and> pc_ok (xs_xapp s) (xs_ui s)"

section \<open>The inputs\<close>

definition call_ok :: "('c, 'i, 'd, 'r, 'cb) e42_xapp \<Rightarrow> ('c, 'cb) xapp_call \<Rightarrow> bool" where
  "call_ok xapp call = (case call of
     REPORT_SM i rf cmd cb \<Rightarrow> ids_left xapp \<and> valid_node_id i \<and> reg_map (xa_e2_nodes xapp) (node_id_rank i) \<noteq> None \<and>
       rf_known rf \<and> (\<exists>sm. rf_map (xa_plugin_ric xapp) (ucast rf) = Some sm \<and>
         (\<forall>ad. sb_action_def (on_subscription sm cmd) = Some ad \<longrightarrow> length ad < 2048))
   | RM_REPORT_SM handle \<Rightarrow> \<exists>n. small_id n \<and> handle = uint n \<and> acts_xa xapp n \<noteq> None
   | CONTROL_SM i rf cmd \<Rightarrow> ids_left xapp \<and> rf \<in> {3, 142, 145, 146} \<and>
       (\<exists>sm. rf_map (xa_plugin_ric xapp) (ucast rf) = Some sm \<and> length (sc_ctrl_hdr (on_control_req sm cmd)) < 2049 \<and>
         length (sc_ctrl_msg (on_control_req sm cmd)) < 2049))"

definition answer_ok :: "('c, 'i, 'd, 'r, 'cb) e42_xapp \<Rightarrow> pending_event \<Rightarrow> u32 \<Rightarrow> bool" where
  "answer_ok xapp kind n \<longleftrightarrow> kind \<in> kinds_xa xapp \<and> small_id n \<and> acts_xa xapp n \<noteq> None"

text \<open>Messages of a RIC within the protocol: answers to what is pending, indications for callbacks, lists of nodes.\<close>

definition msg_ok :: "('c, 'i, 'd, 'r, 'cb) e42_xapp \<Rightarrow> e2ap_msg \<Rightarrow> bool" where
  "msg_ok xapp msg = (case msg of
     RIC_SUBSCRIPTION_RESPONSE m \<Rightarrow> answer_ok xapp E42_RIC_SUBSCRIPTION_REQUEST_PENDING_EVENT (ric_req_id (sp_ric_id m))
   | RIC_SUBSCRIPTION_DELETE_RESPONSE m \<Rightarrow>
       answer_ok xapp E42_RIC_SUBSCRIPTION_DELETE_REQUEST_PENDING_EVENT (ric_req_id (dp_ric_id m))
   | RIC_CONTROL_ACKNOWLEDGE m \<Rightarrow> answer_ok xapp E42_RIC_CONTROL_REQUEST_PENDING_EVENT (ric_req_id (ck_ric_id m))
   | RIC_INDICATION src \<Rightarrow> (\<exists>sm. ind_ok_xapp xapp src sm) \<and> length (disp_xa xapp) < 2 ^ 32 - 1 \<and>
       (\<forall>v. acts_xa xapp (ric_req_id (in_ric_id src)) = Some v \<longrightarrow> ap_sm_cb v \<noteq> None)
   | E42_SETUP_RESPONSE sr \<Rightarrow> (\<exists>es. xp_nodes sr = map connected_node es \<and> (\<forall>e \<in> set es. node_entry_ok e) \<and>
       (xa_connected xapp \<or> E42_SETUP_REQUEST_PENDING_EVENT \<in> kinds_xa xapp \<and>
         distinct (map (\<lambda>e. node_id_rank (fst e)) es) \<and>
         (\<forall>e \<in> set es. reg_map (xa_e2_nodes xapp) (node_id_rank (fst e)) = None)))
   | E42_UPDATE_E2_NODE sr \<Rightarrow> reg_small (xa_e2_nodes xapp) \<and>
       (\<exists>es. xu_nodes sr = map connected_node es \<and> (\<forall>e \<in> set es. node_entry_ok e))
   | _ \<Rightarrow> False)"

definition xapp_env :: "('c, 'i, 'd, 'r, 'cb) xapp_proc \<Rightarrow> ('c, 'r, 'cb) xapp_input \<Rightarrow> bool" where
  "xapp_env s inp = (let xapp = xs_xapp s in case inp of
     Ui_Call call tfd \<Rightarrow> xs_ui s = UI_IDLE \<longrightarrow> call_ok xapp call \<and> fresh_xa xapp tfd
   | Ui_Next tfd \<Rightarrow> (\<exists>n i. xs_ui s = UI_DELETE_SENT n i) \<longrightarrow> fresh_xa xapp tfd
   | Ui_Timeout \<Rightarrow> \<nexists>r. xs_ui s = UI_WAITING r
   | Loop_Turn rn tfd fd ba \<Rightarrow> xa_stop_token xapp \<or> fd = -1 \<or> fd = xa_fd xapp \<and> msg_ok xapp (ap_dec (xa_ap xapp) ba) \<or>
       (\<exists>ev sr. (fd, ev) \<in> pend_xa xapp \<and> px_ev ev = E42_SETUP_REQUEST_PENDING_EVENT \<and>
          generate_e42_setup_request xapp rn = Inr sr)
   | Worker_Turn \<Rightarrow> True)"

section \<open>Each input\<close>

lemma proc_inv_pc:
  assumes "xapp_ok xapp" "pc_ok xapp pc"
  shows "proc_inv \<lparr>xs_xapp = xapp, xs_ui = pc, xs_answers = as, xs_called = cs\<rparr>"
  using assms by (simp add: proc_inv_def)

text \<open>Only the kinds, the numbers and the flag matter to the thread of the user.\<close>

lemma waits_for_not_setup [simp]: "waits_for r \<noteq> E42_SETUP_REQUEST_PENDING_EVENT"
  by (cases r) (simp_all add: waits_for_def)

lemma pc_ok_less:
  assumes pc: "pc_ok xapp pc" and k: "kinds_xa xapp' \<subseteq> kinds_xa xapp" "acts_xa xapp' = acts_xa xapp"
    and flag: "su_flag_sync (xa_sync xapp') \<Longrightarrow>
      su_flag_sync (xa_sync xapp) \<or> kinds_xa xapp' \<subseteq> {E42_SETUP_REQUEST_PENDING_EVENT}"
  shows "pc_ok xapp' pc"
proof -
  have r: "ret_ok xapp' r = ret_ok xapp r" for r by (cases r) (simp_all add: ret_ok_def k(2))
  have w: "waits_for r \<notin> kinds_xa xapp'"
    if "su_flag_sync (xa_sync xapp')" "su_flag_sync (xa_sync xapp) \<longrightarrow> waits_for r \<notin> kinds_xa xapp" for r
    using flag [OF that(1)] that(2) k(1) waits_for_not_setup [of r] by blast
  show ?thesis
  proof (cases pc)
    case (UI_WAITING r)
    then show ?thesis using pc subset_trans [OF k(1)] w [of r] by (simp add: pc_ok_def r)
  qed (use pc subset_trans [OF k(1)] in \<open>simp_all add: pc_ok_def r\<close>)
qed

lemma pc_ok_frame:
  assumes "pc_ok xapp pc" "kinds_xa xapp' = kinds_xa xapp" "acts_xa xapp' = acts_xa xapp" "xa_sync xapp' = xa_sync xapp"
  shows "pc_ok xapp' pc"
  by (rule pc_ok_less [OF assms(1)]) (simp_all only: assms order_refl simp_thms)

lemma pc_kinds: "pc_ok xapp pc \<Longrightarrow> \<exists>w. kinds_xa xapp \<subseteq> {E42_SETUP_REQUEST_PENDING_EVENT, w}"
  by (cases pc) (auto simp only: pc_ok_def ui_pc.simps)

text \<open>After an answer its kind is not pending any more.\<close>

lemma pc_ok_answered:
  assumes pc: "pc_ok xapp pc" and k: "kinds_xa xapp' = kinds_xa xapp - {kind}" "acts_xa xapp' = acts_xa xapp"
    and kind: "kind \<in> kinds_xa xapp" "kind \<noteq> E42_SETUP_REQUEST_PENDING_EVENT"
  shows "pc_ok xapp' pc"
proof -
  obtain w where "kinds_xa xapp \<subseteq> {E42_SETUP_REQUEST_PENDING_EVENT, w}" using pc_kinds [OF pc] by blast
  then have "kinds_xa xapp' \<subseteq> {E42_SETUP_REQUEST_PENDING_EVENT}" using kind unfolding k(1) by blast
  moreover have "kinds_xa xapp' \<subseteq> kinds_xa xapp" unfolding k(1) by blast
  ultimately show ?thesis using pc_ok_less [OF pc _ k(2)] by blast
qed

lemma kinds_removed:
  assumes "xpend_inv m" "(fd, ev) \<in> pairs_of m"
  shows "px_ev ` snd ` (pairs_of m - {(fd, ev)}) = px_ev ` snd ` pairs_of m - {px_ev ev}"
proof (intro equalityI subsetI)
  fix k assume "k \<in> px_ev ` snd ` (pairs_of m - {(fd, ev)})"
  then obtain fd' ev' where e: "(fd', ev') \<in> pairs_of m" "(fd', ev') \<noteq> (fd, ev)" "k = px_ev ev'" by force
  have "px_ev ev' \<noteq> px_ev ev" using xpend_unique(2) [OF assms(1) e(1) assms(2)] e(2) by auto
  with e show "k \<in> px_ev ` snd ` pairs_of m - {px_ev ev}" by force
next
  fix k assume "k \<in> px_ev ` snd ` pairs_of m - {px_ev ev}"
  then obtain fd' ev' where "(fd', ev') \<in> pairs_of m" "k = px_ev ev'" "k \<noteq> px_ev ev" by force
  then show "k \<in> px_ev ` snd ` (pairs_of m - {(fd, ev)})" by force
qed

lemma xapp_okD:
  assumes "xapp_ok xapp"
  shows "xapp_inv xapp" "encodes_xa xapp" "\<forall>m \<in> set (disp_xa xapp). md_sm_cb m \<noteq> None"
    "su_wait_ms (xa_sync xapp) > 0" "su_flag_sync (xa_sync xapp) \<longrightarrow> su_msg_ack (xa_sync xapp)"
  using assms by (simp_all add: xapp_ok_def)

lemma xapp_ok_frame:
  assumes "xapp_ok xapp" "xapp_inv xapp'" "xa_ap xapp' = xa_ap xapp" "xa_sync xapp' = xa_sync xapp"
    "xa_msg_disp xapp' = xa_msg_disp xapp"
  shows "xapp_ok xapp'"
  using assms by (simp add: xapp_ok_def encodes_xa_def)

lemma answer_turn_ok:
  assumes ok: "xapp_ok xapp" "pc_ok xapp pc" and a: "answer_ok xapp kind n" "kind \<noteq> E42_SETUP_REQUEST_PENDING_EVENT"
  shows "\<exists>xapp'. answered_xapp xapp kind n = Inr (NONE_E2_MSG_TYPE, xapp') \<and> xapp_ok xapp' \<and> pc_ok xapp' pc"
proof -
  note i = xapp_okD [OF ok(1)]
  obtain fd ev where ev: "(fd, ev) \<in> pend_xa xapp" "px_ev ev = kind" using a(1) by (force simp: answer_ok_def)
  obtain ap io m where s: "answered_xapp xapp kind n = Inr (NONE_E2_MSG_TYPE, answered_state xapp ap io m)"
    "xapp_inv (answered_state xapp ap io m)" "pairs_of m = pend_xa xapp - {(fd, ev)}" "act_map ap = acts_xa xapp"
    using answered_ok [OF i(1) _ _ ev, of n] a(1) by (auto simp: answer_ok_def)
  have "kinds_xa (answered_state xapp ap io m) = kinds_xa xapp - {kind}"
    using kinds_removed [OF xapp_invD(1) [OF i(1)] ev(1)] by (simp add: s(3) ev(2))
  then have "pc_ok (answered_state xapp ap io m) pc"
    by (rule pc_ok_answered [OF ok(2)]) (use a in \<open>simp_all only: s(4) answer_ok_def answered_state_simps simp_thms\<close>)
  moreover have "xapp_ok (answered_state xapp ap io m)"
    using i s(2) by (simp add: xapp_ok_def encodes_xa_def signal_sync_ui_def)
  ultimately show ?thesis using s(1) by blast
qed

lemma indication_turn_ok:
  assumes ok: "xapp_ok xapp" "pc_ok xapp pc" and a: "msg_ok xapp (RIC_INDICATION src)"
  shows "\<exists>xapp'. e2ap_handle_indication_xapp xapp src = Inr (NONE_E2_MSG_TYPE, xapp') \<and> xapp_ok xapp' \<and> pc_ok xapp' pc"
proof -
  note i = xapp_okD [OF ok(1)]
  obtain sm where sm: "ind_ok_xapp xapp src sm" "length (disp_xa xapp) < 2 ^ 32 - 1"
    and cb: "\<And>v. acts_xa xapp (ric_req_id (in_ric_id src)) = Some v \<Longrightarrow> ap_sm_cb v \<noteq> None"
    using a by (auto simp: msg_ok_def)
  obtain ap d where s: "e2ap_handle_indication_xapp xapp src = Inr (NONE_E2_MSG_TYPE, xapp\<lparr>xa_act_proc := ap, xa_msg_disp := d\<rparr>)"
    "xapp_inv (xapp\<lparr>xa_act_proc := ap, xa_msg_disp := d\<rparr>)" "act_map ap = acts_xa xapp"
    "tsnq_list d = disp_xa xapp @ (case acts_xa xapp (ric_req_id (in_ric_id src)) of None \<Rightarrow> []
      | Some val \<Rightarrow> [dispatch_of val sm src])"
    using indication_xapp_ok [OF i(1) sm] by blast
  have "\<forall>m \<in> set (tsnq_list d). md_sm_cb m \<noteq> None"
    using i(3) cb by (auto simp: s(4) dispatch_of_def split: option.splits)
  then have "xapp_ok (xapp\<lparr>xa_act_proc := ap, xa_msg_disp := d\<rparr>)"
    using i s(2) by (simp add: xapp_ok_def encodes_xa_def)
  moreover have "pc_ok (xapp\<lparr>xa_act_proc := ap, xa_msg_disp := d\<rparr>) pc" by (rule pc_ok_frame [OF ok(2)]) (simp_all add: s(3))
  ultimately show ?thesis using s(1) by blast
qed

lemma setup_turn_ok:
  assumes ok: "xapp_ok xapp" "pc_ok xapp pc" and a: "msg_ok xapp (E42_SETUP_RESPONSE sr)"
  shows "\<exists>xapp'. e2ap_handle_e42_setup_response_xapp xapp sr = Inr (NONE_E2_MSG_TYPE, xapp') \<and> xapp_ok xapp' \<and>
    pc_ok xapp' pc"
proof (cases "xa_connected xapp")
  case True
  then show ?thesis using ok by (simp add: e2ap_handle_e42_setup_response_xapp_def)
next
  case False
  note i = xapp_okD [OF ok(1)]
  obtain es where es: "xp_nodes sr = map connected_node es" "\<forall>e \<in> set es. node_entry_ok e"
    "distinct (map (\<lambda>e. node_id_rank (fst e)) es)" "\<forall>e \<in> set es. reg_map (xa_e2_nodes xapp) (node_id_rank (fst e)) = None"
    and k: "E42_SETUP_REQUEST_PENDING_EVENT \<in> kinds_xa xapp"
    using a False by (auto simp: msg_ok_def)
  obtain fd ev where ev: "(fd, ev) \<in> pend_xa xapp" "px_ev ev = E42_SETUP_REQUEST_PENDING_EVENT" using k by force
  obtain r io m where s: "e2ap_handle_e42_setup_response_xapp xapp sr = Inr (NONE_E2_MSG_TYPE,
      (xapp_waits (xapp\<lparr>xa_id := xp_xapp_id sr, xa_e2_nodes := r\<rparr>) io m)\<lparr>xa_connected := True\<rparr>)"
    "xapp_inv ((xapp_waits (xapp\<lparr>xa_id := xp_xapp_id sr, xa_e2_nodes := r\<rparr>) io m)\<lparr>xa_connected := True\<rparr>)"
    "pairs_of m = pend_xa xapp - {(fd, ev)}"
    using setup_response_xapp_ok [OF i(1) es False ev] by blast
  have k: "kinds_xa ((xapp_waits (xapp\<lparr>xa_id := xp_xapp_id sr, xa_e2_nodes := r\<rparr>) io m)\<lparr>xa_connected := True\<rparr>) =
      kinds_xa xapp - {E42_SETUP_REQUEST_PENDING_EVENT}"
    using kinds_removed [OF xapp_invD(1) [OF i(1)] ev(1)] by (simp add: s(3) ev(2))
  have "pc_ok ((xapp_waits (xapp\<lparr>xa_id := xp_xapp_id sr, xa_e2_nodes := r\<rparr>) io m)\<lparr>xa_connected := True\<rparr>) pc"
    using k by (intro pc_ok_less [OF ok(2)]) (blast, simp_all)
  moreover have "xapp_ok ((xapp_waits (xapp\<lparr>xa_id := xp_xapp_id sr, xa_e2_nodes := r\<rparr>) io m)\<lparr>xa_connected := True\<rparr>)"
    by (rule xapp_ok_frame [OF ok(1) s(2)]) simp_all
  ultimately show ?thesis using s(1) by blast
qed

lemma update_turn_ok:
  assumes ok: "xapp_ok xapp" "pc_ok xapp pc" and a: "msg_ok xapp (E42_UPDATE_E2_NODE sr)"
  shows "\<exists>xapp'. e2ap_handle_e42_update_e2_node_xapp xapp sr = Inr (NONE_E2_MSG_TYPE, xapp') \<and> xapp_ok xapp' \<and>
    pc_ok xapp' pc"
proof -
  note i = xapp_okD [OF ok(1)]
  obtain es where es: "xu_nodes sr = map connected_node es" "\<forall>e \<in> set es. node_entry_ok e" "reg_small (xa_e2_nodes xapp)"
    using a by (auto simp: msg_ok_def)
  obtain r where s: "e2ap_handle_e42_update_e2_node_xapp xapp sr =
      Inr (NONE_E2_MSG_TYPE, xapp\<lparr>xa_id := xu_xapp_id sr, xa_e2_nodes := r\<rparr>)"
    "xapp_inv (xapp\<lparr>xa_id := xu_xapp_id sr, xa_e2_nodes := r\<rparr>)"
    using update_e2_node_ok [OF i(1) es(3,1,2)] by blast
  have "pc_ok (xapp\<lparr>xa_id := xu_xapp_id sr, xa_e2_nodes := r\<rparr>) pc" by (rule pc_ok_frame [OF ok(2)]) simp_all
  moreover have "xapp_ok (xapp\<lparr>xa_id := xu_xapp_id sr, xa_e2_nodes := r\<rparr>)"
    by (rule xapp_ok_frame [OF ok(1) s(2)]) simp_all
  ultimately show ?thesis using s(1) by blast
qed

lemma kinds_memE: "k \<in> kinds_xa xapp \<Longrightarrow> \<exists>fd ev. (fd, ev) \<in> pend_xa xapp \<and> px_ev ev = k"
  by force

lemma connected_free: "node_entry_ok e \<Longrightarrow> free_e2_node_connected (connected_node e) = Inr ()"
  using free_connected_node [of e] by (simp add: node_entry_ok_def)

lemma msg_free_ok:
  assumes "msg_ok xapp msg"
  shows "e2ap_msg_free_xapp msg = Inr ()"
proof (cases msg)
  case (E42_SETUP_RESPONSE sr)
  then obtain es where "xp_nodes sr = map connected_node es" "\<forall>e \<in> set es. node_entry_ok e"
    using assms by (auto simp: msg_ok_def)
  then show ?thesis
    using E42_SETUP_RESPONSE connected_free
    by (auto simp: e2ap_msg_free_xapp_def e2ap_msg_free_def e2ap_free_e42_setup_response_def intro!: fold_unit_ok)
next
  case (E42_UPDATE_E2_NODE sr)
  then obtain es where "xu_nodes sr = map connected_node es" "\<forall>e \<in> set es. node_entry_ok e"
    using assms by (auto simp: msg_ok_def)
  then show ?thesis
    using E42_UPDATE_E2_NODE connected_free
    by (auto simp: e2ap_msg_free_xapp_def e2ap_msg_free_def e2ap_free_e42_setup_response_def intro!: fold_unit_ok)
qed (use assms in \<open>simp_all add: msg_ok_def e2ap_msg_free_xapp_def\<close>)

lemma message_turn_ok:
  assumes ok: "xapp_ok xapp" "pc_ok xapp pc" and a: "msg_ok xapp msg"
  shows "\<exists>xapp'. e2ap_msg_handle_xapp xapp tfd msg = Inr (NONE_E2_MSG_TYPE, xapp') \<and> xapp_ok xapp' \<and> pc_ok xapp' pc"
proof (cases msg)
  case (RIC_SUBSCRIPTION_RESPONSE m)
  then show ?thesis using answer_turn_ok [OF ok] a
    by (simp add: e2ap_msg_handle_xapp_def e2ap_handle_subscription_response_xapp_def msg_ok_def)
next
  case (RIC_SUBSCRIPTION_DELETE_RESPONSE m)
  then show ?thesis using answer_turn_ok [OF ok] a
    by (simp add: e2ap_msg_handle_xapp_def e2ap_handle_subscription_delete_response_xapp_def msg_ok_def)
next
  case (RIC_CONTROL_ACKNOWLEDGE m)
  then show ?thesis using answer_turn_ok [OF ok] a
    by (simp add: e2ap_msg_handle_xapp_def e2ap_handle_control_ack_xapp_def msg_ok_def)
next
  case (RIC_INDICATION m)
  then show ?thesis using indication_turn_ok [OF ok] a by (simp add: e2ap_msg_handle_xapp_def)
next
  case (E42_SETUP_RESPONSE m)
  then show ?thesis using setup_turn_ok [OF ok] a by (simp add: e2ap_msg_handle_xapp_def)
next
  case (E42_UPDATE_E2_NODE m)
  then show ?thesis using update_turn_ok [OF ok] a by (simp add: e2ap_msg_handle_xapp_def)
qed (use a in \<open>simp_all add: msg_ok_def\<close>)

lemma resend_turn_ok:
  assumes ok: "xapp_ok xapp" "pc_ok xapp pc" and g: "generate_e42_setup_request xapp rn = Inr sr" and fd: "fd > 0"
  shows "\<exists>xapp'. pending_event_turn_xapp xapp rn fd E42_SETUP_REQUEST_PENDING_EVENT = Inr xapp' \<and> xapp_ok xapp' \<and>
    pc_ok xapp' pc"
proof -
  note i = xapp_okD [OF ok(1)]
  have "pending_event_turn_xapp xapp rn fd E42_SETUP_REQUEST_PENDING_EVENT = Inr (sent_xa xapp (E42_SETUP_REQUEST sr))"
    using fd by (simp add: pending_event_turn_xapp_def g send_xa [OF i(2)] consume_fd_xapp_def)
  moreover have "xapp_ok (sent_xa xapp (E42_SETUP_REQUEST sr))"
    by (rule xapp_ok_frame [OF ok(1) xapp_inv_sent [OF i(1)]]) simp_all
  moreover have "pc_ok (sent_xa xapp (E42_SETUP_REQUEST sr)) pc" by (rule pc_ok_frame [OF ok(2)]) simp_all
  ultimately show ?thesis by blast
qed

lemma loop_turn_ok:
  assumes ok: "xapp_ok xapp" "pc_ok xapp pc"
    and a: "xa_stop_token xapp \<or> fd = -1 \<or> fd = xa_fd xapp \<and> msg_ok xapp (ap_dec (xa_ap xapp) ba) \<or>
       (\<exists>ev sr. (fd, ev) \<in> pend_xa xapp \<and> px_ev ev = E42_SETUP_REQUEST_PENDING_EVENT \<and>
          generate_e42_setup_request xapp rn = Inr sr)"
  shows "\<exists>xapp'. e2_event_loop_xapp xapp rn tfd fd ba = Inr xapp' \<and> xapp_ok xapp' \<and> pc_ok xapp' pc"
proof -
  note i = xapp_okD [OF ok(1)]
  consider "xa_stop_token xapp" | "\<not> xa_stop_token xapp" "fd = -1"
    | (msg) "\<not> xa_stop_token xapp" "fd = xa_fd xapp" "msg_ok xapp (ap_dec (xa_ap xapp) ba)"
    | (timer) ev sr where "\<not> xa_stop_token xapp" "(fd, ev) \<in> pend_xa xapp" "px_ev ev = E42_SETUP_REQUEST_PENDING_EVENT"
      "generate_e42_setup_request xapp rn = Inr sr"
    using a by blast
  then show ?thesis
  proof cases
    case 1
    have "xapp_inv (xapp\<lparr>xa_stopped := True\<rparr>)"
      using xapp_invD [OF i(1)] by (intro xapp_inv_frame [OF i(1)]) simp_all
    then have "xapp_ok (xapp\<lparr>xa_stopped := True\<rparr>)" by (rule xapp_ok_frame [OF ok(1)]) simp_all
    moreover have "pc_ok (xapp\<lparr>xa_stopped := True\<rparr>) pc" by (rule pc_ok_frame [OF ok(2)]) simp_all
    ultimately show ?thesis using 1 by (simp add: e2_event_loop_xapp_def)
  next
    case 2
    then show ?thesis using ok by (simp add: e2_event_loop_xapp_def)
  next
    case msg
    obtain xapp' where "e2ap_msg_handle_xapp xapp tfd (ap_dec (xa_ap xapp) ba) = Inr (NONE_E2_MSG_TYPE, xapp')"
      "xapp_ok xapp'" "pc_ok xapp' pc"
      using message_turn_ok [OF ok msg(3)] by blast
    then show ?thesis using network_turn [OF i(1) msg(1) _ msg_free_ok [OF msg(3)]] msg(2) by blast
  next
    case timer
    have "fd \<in> fst ` pend_xa xapp" using timer(2) by force
    then have "fd > 0" by (rule xapp_invD(11) [OF i(1)])
    then show ?thesis
      using resend_turn_ok [OF ok timer(4)] timer_turn [OF i(1) timer(1,2)] timer(3) by simp
  qed
qed

section \<open>The user\<close>

lemma ret_ok_new:
  assumes "small_id n" "acts_xa xapp n \<noteq> None"
  shows "ret_ok xapp (RET_RM_REPORT (ucast n))" "ret_ok xapp (RET_CONTROL (ucast n))"
  using assms(2) small_idD [OF assms(1)] by (simp_all add: ret_ok_def)

lemma call_turn_ok:
  assumes ok: "xapp_ok (xs_xapp s)" "pc_ok (xs_xapp s) UI_IDLE" and call: "call_ok (xs_xapp s) call"
    and fd: "fresh_xa (xs_xapp s) tfd"
  shows "\<exists>xapp' pc. xapp_api s call tfd = Inr (s\<lparr>xs_xapp := xapp', xs_ui := pc\<rparr>) \<and> xapp_ok xapp' \<and> pc_ok xapp' pc"
proof -
  let ?x = "xs_xapp s"
  note i = xapp_okD [OF ok(1)]
  have k: "kinds_xa ?x \<subseteq> {E42_SETUP_REQUEST_PENDING_EVENT}" using ok(2) by (simp add: pc_ok_def)
  show ?thesis
  proof (cases call)
    case (REPORT_SM i' rf cmd cb)
    then obtain sm where c: "ids_left ?x" "valid_node_id i'" "reg_map (xa_e2_nodes ?x) (node_id_rank i') \<noteq> None" "rf_known rf"
      "rf_map (xa_plugin_ric ?x) (ucast rf) = Some sm"
      "\<forall>ad. sb_action_def (on_subscription sm cmd) = Some ad \<longrightarrow> length ad < 2048"
      using call by (auto simp: call_ok_def)
    let ?m = "sub_request_of ?x i' (ucast rf) sm cmd"
    have kind: "E42_RIC_SUBSCRIPTION_REQUEST_PENDING_EVENT \<notin> kinds_xa ?x" using k by blast
    obtain ap io m where s: "report_sm_send ?x tfd i' (ucast rf) cmd cb = Inr (next_id ?x, requested ?x ap io m ?m)"
      "xapp_inv (requested ?x ap io m ?m)"
      "pairs_of m = insert (tfd, \<lparr>px_ev = E42_RIC_SUBSCRIPTION_REQUEST_PENDING_EVENT,
        px_id = \<lparr>ric_req_id = next_id ?x, ric_inst_id = 0, ran_func_id = ucast rf\<rparr>, px_wait_ms = 5000\<rparr>) (pend_xa ?x)"
      using report_call_ok [OF i(1,2) c(1) fd kind c(4-6)] by blast
    have "xapp_ok (requested ?x ap io m ?m)" by (rule xapp_ok_frame [OF ok(1) s(2)]) simp_all
    moreover have "pc_ok (requested ?x ap io m ?m) (UI_TO_WAIT (RET_REPORT (next_id ?x)))"
      using k by (auto simp: pc_ok_def s(3) waits_for_def ret_ok_def)
    ultimately show ?thesis
      using REPORT_SM c(3) valid_global_e2_node_xapp_ok [OF xapp_invD(5) [OF i(1)] c(2)] rf_knownD(1) [OF c(4)]
      by (intro exI [of _ "requested ?x ap io m ?m"] exI [of _ "UI_TO_WAIT (RET_REPORT (next_id ?x))"])
        (simp add: xapp_api_def Let_def s(1))
  next
    case (RM_REPORT_SM handle)
    then obtain n v where c: "small_id n" "handle = uint n" "acts_xa ?x n = Some v"
      using call by (auto simp: call_ok_def)
    obtain ap where s: "rm_report_find ?x handle = Inr (ap_id v, ?x\<lparr>xa_act_proc := ap\<rparr>)"
      "xapp_inv (?x\<lparr>xa_act_proc := ap\<rparr>)" "act_map ap = acts_xa ?x"
      using rm_report_find_ok [OF i(1) c] by blast
    let ?y = "?x\<lparr>xa_act_proc := ap\<rparr>"
    let ?m = "E42_RIC_SUBSCRIPTION_DELETE_REQUEST \<lparr>xd_xapp_id = xa_id ?x, xd_sdr = \<lparr>sd_ric_id = ap_id v\<rparr>\<rparr>"
    have send: "e2ap_send_bytes_xapp ?y (ap_enc (xa_ap ?x) ?m) = Inr (sent_xa ?y ?m)"
      using send_xa [of ?y ?m] i(2) by (simp add: encodes_xa_def)
    have "xapp_ok (sent_xa ?y ?m)" by (rule xapp_ok_frame [OF ok(1) xapp_inv_sent [OF s(2)]]) simp_all
    moreover have "(word_of_int handle :: u16) = ucast n" by (simp only: c(2) ucast_eq)
    then have "pc_ok (sent_xa ?y ?m) (UI_DELETE_SENT (word_of_int handle) (ap_id v))"
      using k c(3) ret_ok_new(1) [OF c(1), of "sent_xa ?y ?m"] by (simp add: pc_ok_def s(3))
    moreover have "handle > -1" using uint_ge_0 [of n] by (simp only: c(2))
    ultimately show ?thesis
      using RM_REPORT_SM by (intro exI [of _ "sent_xa ?y ?m"] exI [of _ "UI_DELETE_SENT (word_of_int handle) (ap_id v)"])
        (simp add: xapp_api_def Let_def s(1) send)
  next
    case (CONTROL_SM i' rf cmd)
    then obtain sm where c: "ids_left ?x" "rf \<in> {3, 142, 145, 146}"
      "rf_map (xa_plugin_ric ?x) (ucast rf) = Some sm" "length (sc_ctrl_hdr (on_control_req sm cmd)) < 2049"
      "length (sc_ctrl_msg (on_control_req sm cmd)) < 2049"
      using call by (auto simp: call_ok_def)
    have rf: "rf_known rf" using c(2) by (auto simp: rf_known_def)
    let ?m = "ctrl_request_of ?x i' (ucast rf) sm cmd"
    have kind: "E42_RIC_CONTROL_REQUEST_PENDING_EVENT \<notin> kinds_xa ?x" using k by blast
    obtain ap io m where s: "control_sm_send ?x tfd i' (ucast rf) cmd = Inr (next_id ?x, requested ?x ap io m ?m)"
      "xapp_inv (requested ?x ap io m ?m)" "small_id (next_id ?x)"
      "act_map ap = (acts_xa ?x)(next_id ?x \<mapsto> new_act RIC_CONTROL_PROCEDURE_ACTIVE (ucast rf) (next_id ?x) i' None)"
      "pairs_of m = insert (tfd, \<lparr>px_ev = E42_RIC_CONTROL_REQUEST_PENDING_EVENT,
        px_id = \<lparr>ric_req_id = next_id ?x, ric_inst_id = 0, ran_func_id = ucast rf\<rparr>, px_wait_ms = 10000\<rparr>) (pend_xa ?x)"
      using control_call_ok [OF i(1,2) c(1) fd kind rf c(3-5)] by blast
    have "xapp_ok (requested ?x ap io m ?m)" by (rule xapp_ok_frame [OF ok(1) s(2)]) simp_all
    moreover have "pc_ok (requested ?x ap io m ?m) (UI_TO_WAIT (RET_CONTROL (ucast (next_id ?x))))"
      using k ret_ok_new(2) [OF s(3), of "requested ?x ap io m ?m"] by (auto simp: pc_ok_def s(4,5) waits_for_def)
    ultimately show ?thesis
      using CONTROL_SM c(2)
      by (intro exI [of _ "requested ?x ap io m ?m"] exI [of _ "UI_TO_WAIT (RET_CONTROL (ucast (next_id ?x)))"])
        (auto simp: xapp_api_def Let_def s(1))
  qed
qed

lemma return_ok:
  assumes ok: "xapp_ok (xs_xapp s)" and pc: "kinds_xa (xs_xapp s) \<subseteq> {E42_SETUP_REQUEST_PENDING_EVENT}" "ret_ok (xs_xapp s) r"
  shows "\<exists>xapp'. ui_return s r = Inr (s\<lparr>xs_xapp := xapp', xs_ui := UI_IDLE, xs_answers := xs_answers s @ [r]\<rparr>) \<and>
    xapp_ok xapp' \<and> pc_ok xapp' UI_IDLE"
proof -
  note i = xapp_okD [OF ok]
  have rm: ?thesis if n: "0 < n" "acts_xa (xs_xapp s) (ucast n) \<noteq> None"
    and r: "r = RET_RM_REPORT n \<or> r = RET_CONTROL n" for n
  proof -
    obtain ap where ap: "rm_act_proc (xa_act_proc (xs_xapp s)) n = Inr ap" "act_ok ap"
      using act_rm [OF xapp_invD(2) [OF i(1)] n] by blast
    let ?y = "(xs_xapp s)\<lparr>xa_act_proc := ap\<rparr>"
    have "xapp_inv ?y" using xapp_invD [OF i(1)] ap(2) by (intro xapp_inv_frame [OF i(1)]) simp_all
    then have "xapp_ok ?y" by (rule xapp_ok_frame [OF ok]) simp_all
    moreover have "pc_ok ?y UI_IDLE" using pc(1) by (simp add: pc_ok_def)
    ultimately show ?thesis using r ap(1) by (intro exI [of _ ?y]) (auto simp: ui_return_def)
  qed
  show ?thesis
  proof (cases r)
    case (RET_REPORT n)
    then show ?thesis using ok pc(1)
      by (intro exI [of _ "xs_xapp s"]) (simp add: ui_return_def pc_ok_def)
  next
    case (RET_RM_REPORT n)
    then show ?thesis using rm [of n] pc(2) by (simp add: ret_ok_def)
  next
    case (RET_CONTROL n)
    then show ?thesis using rm [of n] pc(2) by (simp add: ret_ok_def)
  qed
qed

lemma proc_invI:
  assumes "xapp_ok (xs_xapp s)" "pc_ok (xs_xapp s) (xs_ui s)"
  shows "proc_inv s"
  using assms by (simp add: proc_inv_def)

lemma drop_second: "S \<subseteq> {a, b} \<Longrightarrow> b \<notin> S \<Longrightarrow> S \<subseteq> {a}"
  by blast

lemma next_turn_ok:
  assumes s: "proc_inv s" and fd: "(\<exists>n i. xs_ui s = UI_DELETE_SENT n i) \<longrightarrow> fresh_xa (xs_xapp s) tfd"
  shows "\<exists>s'. ui_step s tfd False = Inr s' \<and> proc_inv s'"
proof -
  let ?x = "xs_xapp s"
  have ok: "xapp_ok ?x" and pc: "pc_ok ?x (xs_ui s)" using s by (simp_all add: proc_inv_def)
  note i = xapp_okD [OF ok]
  show ?thesis
  proof (cases "xs_ui s")
    case UI_IDLE
    then show ?thesis using s by (simp add: ui_step_def)
  next
    case (UI_DELETE_SENT n gid)
    have k: "kinds_xa ?x \<subseteq> {E42_SETUP_REQUEST_PENDING_EVENT}" "ret_ok ?x (RET_RM_REPORT n)"
      using pc UI_DELETE_SENT by (simp_all add: pc_ok_def)
    have kind: "E42_RIC_SUBSCRIPTION_DELETE_REQUEST_PENDING_EVENT \<notin> kinds_xa ?x" using k(1) by blast
    obtain io m where m: "pend_delete_xapp ?x tfd gid = Inr (xapp_waits ?x io m)" "xapp_inv (xapp_waits ?x io m)"
      "pairs_of m = insert (tfd, \<lparr>px_ev = E42_RIC_SUBSCRIPTION_DELETE_REQUEST_PENDING_EVENT, px_id = gid,
        px_wait_ms = 10000\<rparr>) (pend_xa ?x)"
      using pend_delete_ok [OF i(1) _ kind, of tfd gid] fd UI_DELETE_SENT by blast
    have "xapp_ok (xapp_waits ?x io m)" by (rule xapp_ok_frame [OF ok m(2)]) simp_all
    moreover have "pc_ok (xapp_waits ?x io m) (UI_TO_WAIT (RET_RM_REPORT n))"
      using k by (auto simp: pc_ok_def m(3) waits_for_def ret_ok_def)
    ultimately show ?thesis using m(1) UI_DELETE_SENT by (simp add: ui_step_def proc_inv_def)
  next
    case (UI_TO_WAIT r)
    let ?sync = "(xa_sync ?x)\<lparr>su_flag_sync := False, su_msg_ack := False\<rparr>"
    have "xapp_inv (?x\<lparr>xa_sync := ?sync\<rparr>)" using xapp_invD [OF i(1)] by (intro xapp_inv_frame [OF i(1)]) simp_all
    then have "xapp_ok (?x\<lparr>xa_sync := ?sync\<rparr>)" using i by (simp add: xapp_ok_def encodes_xa_def)
    moreover have "pc_ok (?x\<lparr>xa_sync := ?sync\<rparr>) (UI_WAITING r)"
      using pc UI_TO_WAIT by (cases r) (simp_all add: pc_ok_def ret_ok_def)
    ultimately show ?thesis using i(4) UI_TO_WAIT by (simp add: ui_step_def cond_wait_enter_def proc_inv_def)
  next
    case (UI_WAITING r)
    show ?thesis
    proof (cases "su_flag_sync (xa_sync ?x)")
      case False
      then show ?thesis using UI_WAITING s by (simp add: ui_step_def cond_wait_test_def)
    next
      case True
      note w = pc [unfolded pc_ok_def UI_WAITING ui_pc.simps]
      have k: "kinds_xa ?x \<subseteq> {E42_SETUP_REQUEST_PENDING_EVENT}"
        by (rule drop_second [of _ _ "waits_for r"]) (use w True in simp_all)
      have r: "ret_ok ?x r" using w by simp
      from return_ok [OF ok k r] True i(5) UI_WAITING show ?thesis
        by (auto simp: ui_step_def cond_wait_test_def proc_inv_def)
    qed
  qed
qed

lemma worker_step_ok:
  assumes s: "proc_inv s"
  shows "\<exists>s'. worker_turn s = Inr s' \<and> proc_inv s'"
proof (cases "disp_xa (xs_xapp s)")
  case Nil
  have "xapp_inv (xs_xapp s)" using s by (simp add: proc_inv_def xapp_ok_def)
  from worker_waits [OF this Nil] s show ?thesis by blast
next
  case (Cons msg msgs)
  have ok: "xapp_ok (xs_xapp s)" and pc: "pc_ok (xs_xapp s) (xs_ui s)" using s by (simp_all add: proc_inv_def)
  note i = xapp_okD [OF ok]
  have "md_sm_cb msg \<noteq> None" using i(3) Cons by simp
  with worker_turn_ok [OF i(1) Cons] obtain d where
    d: "worker_turn s = Inr (s\<lparr>xs_xapp := (xs_xapp s)\<lparr>xa_msg_disp := d\<rparr>, xs_called := xs_called s @ [msg]\<rparr>)"
      "xapp_inv ((xs_xapp s)\<lparr>xa_msg_disp := d\<rparr>)" "tsnq_list d = msgs" by auto
  have "xapp_ok ((xs_xapp s)\<lparr>xa_msg_disp := d\<rparr>)"
    using i d(2,3) Cons by (simp add: xapp_ok_def encodes_xa_def)
  moreover have "pc_ok ((xs_xapp s)\<lparr>xa_msg_disp := d\<rparr>) (xs_ui s)" by (rule pc_ok_frame [OF pc]) simp_all
  ultimately show ?thesis using d(1) by (simp add: proc_inv_def)
qed

text \<open>An input within the protocol is taken and keeps the invariant.\<close>

lemma xapp_step_ok:
  assumes s: "proc_inv s" and e: "xapp_env s inp"
  shows "\<exists>s'. xapp_step s inp = Inr s' \<and> proc_inv s'"
proof -
  have ok: "xapp_ok (xs_xapp s)" and pc: "pc_ok (xs_xapp s) (xs_ui s)" using s by (simp_all add: proc_inv_def)
  show ?thesis
  proof (cases inp)
    case (Ui_Call call tfd)
    show ?thesis
    proof (cases "xs_ui s = UI_IDLE")
      case True
      with call_turn_ok [OF ok _ _ , of call tfd] pc e Ui_Call show ?thesis
        by (auto simp: xapp_env_def Let_def xapp_step_def proc_inv_def)
    qed (use s Ui_Call in \<open>simp add: xapp_step_def\<close>)
  next
    case (Ui_Next tfd)
    then show ?thesis using next_turn_ok [OF s, of tfd] e by (simp add: xapp_env_def Let_def xapp_step_def)
  next
    case Ui_Timeout
    then show ?thesis using s e by (cases "xs_ui s") (simp_all add: xapp_env_def Let_def xapp_step_def)
  next
    case (Loop_Turn rn tfd fd ba)
    obtain xapp' where "e2_event_loop_xapp (xs_xapp s) rn tfd fd ba = Inr xapp'" "xapp_ok xapp'" "pc_ok xapp' (xs_ui s)"
      using loop_turn_ok [OF ok pc, of fd ba rn tfd] e Loop_Turn by (auto simp: xapp_env_def Let_def)
    then show ?thesis using Loop_Turn by (simp add: xapp_step_def proc_inv_def)
  next
    case Worker_Turn
    then show ?thesis using worker_step_ok [OF s] by (simp add: xapp_step_def)
  qed
qed

end
