(* ===== verification/Xapp_Session.thy ===== *)
theory Xapp_Session
  imports Xapp_Safe Agent_Run
begin

text \<open>
  The properties of an xApp: its start, a subscription from the call of the user to its end, the order
  in which callbacks see indications, what can be relied on as long as the RIC keeps to the protocol,
  and where the order of the two threads makes a call fail.
\<close>

declare bind_res_eq_Inr [simp del]

section \<open>The start\<close>





definition new_proc :: "('c, 'i, 'd, 'r, 'cb) e42_xapp \<Rightarrow> ('c, 'i, 'd, 'r, 'cb) xapp_proc" where
  "new_proc xapp = \<lparr>xs_xapp = xapp, xs_ui = UI_IDLE, xs_answers = [], xs_called = []\<rparr>"

lemma init_e42_xapp_ok:
  fixes T :: "(u16, ('c, 'i) sm_ric) rb_tree" and pag :: "(u16, ('d, 'r) sm_agent) rb_tree"
  assumes "0 < sock" "0 < port" "port < 65535" "length ip < 16" "models_inv T"
  shows "\<exists>xapp :: ('c, 'i, 'd, 'r, 'cb) e42_xapp. init_e42_xapp ip port sock ap pag T = Inr xapp \<and> xapp_inv xapp \<and> pend_xa xapp = {} \<and>
    acts_xa xapp = Map.empty \<and> disp_xa xapp = [] \<and> reg_map (xa_e2_nodes xapp) = Map.empty \<and> xa_fd xapp = sock \<and>
    xa_sent xapp = [] \<and> xa_ap xapp = ap \<and> xa_plugin_ag xapp = pag \<and> xa_plugin_ric xapp = T \<and>
    xa_sync xapp = init_sync_ui \<and> \<not> xa_connected xapp \<and> \<not> xa_stop_token xapp \<and> reg_key_id (xa_act_proc xapp) = 1"
proof -
  obtain n where n: "init_reg_e2_node = Inr n" "Reg_E2_Nodes.reg_inv n" "rb_items n = []" using init_reg_e2_node_ok by blast
  obtain p where p: "init_pending_events_xapp = Inr p" "xpend_inv p" "pairs_of p = {}" using xpend_init by blast
  obtain d :: "('i, 'cb) msg_dispatch tsnq" where d: "init_tsnq MSG_DISPATCH_SZ = Inr d" "tsnq_inv MSG_DISPATCH_SZ d"
    "tsnq_list d = []" "\<not> tq_stop_token d"
    by (simp add: init_tsnq_def tsnq_inv_def tsnq_list_def MSG_DISPATCH_SZ_def seq_ring_init_inv)
      (simp add: seq_ring_init_def)
  have m: "reg_map n = Map.empty" by (rule ext) (simp add: reg_map_None n(3) ranks_def)
  have key: "reg_key_id init_act_proc = 1" by (simp add: init_act_proc_def assoc_reg_init_def)
  define xapp :: "('c, 'i, 'd, 'r, 'cb) e42_xapp" where "xapp =
      \<lparr>xa_fd = sock, xa_sent = [], xa_ap = ap, xa_io = \<lparr>xi_fds = [sock], xi_timers = Map.empty\<rparr>, xa_plugin_ag = pag,
        xa_plugin_ric = T, xa_e2_nodes = n, xa_id = 0, xa_sync = init_sync_ui, xa_act_proc = init_act_proc, xa_pending = p,
        xa_msg_disp = d, xa_connected = False, xa_stopped = False, xa_stop_token = False\<rparr>"
  have "init_e42_xapp ip port sock ap pag T = Inr xapp"
    using assms(1-4) by (simp add: init_e42_xapp_def init_asio_xapp_def add_fd_asio_xapp_def n(1) p(1) d(1) xapp_def)
  moreover have "xapp_inv xapp"
    using assms(1,5) by (simp add: xapp_def xapp_inv_def n(2) p(2,3) d(2,4) act_init)
  ultimately show ?thesis
    by (intro exI [of _ xapp]) (simp add: xapp_def p(3) d(3) act_init m key)
qed


section \<open>Within the protocol\<close>





section \<open>Indications\<close>

text \<open>Inputs that bring indications, mixed with turns of the worker in any order.\<close>

definition ind_input :: "('c, 'i, 'd, 'r, 'cb) e42_xapp \<Rightarrow> ('c, 'r, 'cb) xapp_input \<Rightarrow> bool" where
  "ind_input xapp inp = (case inp of
     Loop_Turn rn tfd fd ba \<Rightarrow> fd = xa_fd xapp \<and> (\<exists>src sm. ap_dec (xa_ap xapp) ba = RIC_INDICATION src \<and>
       ind_ok_xapp xapp src sm \<and> (\<forall>v. acts_xa xapp (ric_req_id (in_ric_id src)) = Some v \<longrightarrow> ap_sm_cb v \<noteq> None))
   | inp \<Rightarrow> inp = Worker_Turn)"

definition arrival :: "('c, 'i, 'd, 'r, 'cb) e42_xapp \<Rightarrow> ('c, 'r, 'cb) xapp_input \<Rightarrow> ('i, 'cb) msg_dispatch list" where
  "arrival xapp inp = (case inp of
     Loop_Turn rn tfd fd ba \<Rightarrow> (case ap_dec (xa_ap xapp) ba of RIC_INDICATION src \<Rightarrow>
       (case (acts_xa xapp (ric_req_id (in_ric_id src)), rf_map (xa_plugin_ric xapp) (ran_func_id (in_ric_id src))) of
          (Some val, Some sm) \<Rightarrow> [dispatch_of val sm src] | _ \<Rightarrow> []) | _ \<Rightarrow> []) | _ \<Rightarrow> [])"

definition dispatched ::
  "('c, 'i, 'd, 'r, 'cb) xapp_proc \<Rightarrow> 'cb option act_proc \<Rightarrow> ('i, 'cb) msg_dispatch tsnq \<Rightarrow> ('i, 'cb) msg_dispatch list \<Rightarrow>
   ('c, 'i, 'd, 'r, 'cb) xapp_proc" where
  "dispatched s ap d called = s\<lparr>xs_xapp := (xs_xapp s)\<lparr>xa_act_proc := ap, xa_msg_disp := d\<rparr>, xs_called := called\<rparr>"

lemma ind_step_ok:
  assumes s: "xapp_inv (xs_xapp s)" "\<not> xa_stop_token (xs_xapp s)" "\<forall>m \<in> set (disp_xa (xs_xapp s)). md_sm_cb m \<noteq> None"
    and inp: "ind_input (xs_xapp s) inp" and room: "length (disp_xa (xs_xapp s)) < 2 ^ 32 - 1"
  shows "\<exists>ap d c. xapp_step s inp = Inr (dispatched s ap d c) \<and> xapp_inv (xs_xapp (dispatched s ap d c)) \<and>
    act_map ap = acts_xa (xs_xapp s) \<and> c @ tsnq_list d = xs_called s @ disp_xa (xs_xapp s) @ arrival (xs_xapp s) inp \<and>
    length (tsnq_list d) \<le> length (disp_xa (xs_xapp s)) + 1 \<and> (\<forall>m \<in> set (tsnq_list d). md_sm_cb m \<noteq> None)"
proof (cases "\<exists>rn tfd fd ba. inp = Loop_Turn rn tfd fd ba")
  case True
  let ?x = "xs_xapp s"
  obtain rn tfd ba src sm where l: "inp = Loop_Turn rn tfd (xa_fd ?x) ba" "ap_dec (xa_ap ?x) ba = RIC_INDICATION src"
    "ind_ok_xapp ?x src sm" "\<And>v. acts_xa ?x (ric_req_id (in_ric_id src)) = Some v \<Longrightarrow> ap_sm_cb v \<noteq> None"
    using True inp by (auto simp: ind_input_def)
  obtain ap d where h: "e2ap_handle_indication_xapp ?x src = Inr (NONE_E2_MSG_TYPE, ?x\<lparr>xa_act_proc := ap, xa_msg_disp := d\<rparr>)"
    "xapp_inv (?x\<lparr>xa_act_proc := ap, xa_msg_disp := d\<rparr>)" "act_map ap = acts_xa ?x"
    "tsnq_list d = disp_xa ?x @ (case acts_xa ?x (ric_req_id (in_ric_id src)) of None \<Rightarrow> []
      | Some val \<Rightarrow> [dispatch_of val sm src])"
    using indication_xapp_ok [OF s(1) l(3) room] by blast
  have "e2_event_loop_xapp ?x rn tfd (xa_fd ?x) ba = Inr (?x\<lparr>xa_act_proc := ap, xa_msg_disp := d\<rparr>)"
    by (rule network_turn [OF s(1,2)]) (simp_all add: l(2) h(1) e2ap_msg_handle_xapp_def e2ap_msg_free_xapp_def)
  then have "xapp_step s inp = Inr (dispatched s ap d (xs_called s))"
    by (simp add: l(1) xapp_step_def dispatched_def)
  moreover have "arrival ?x inp = (case acts_xa ?x (ric_req_id (in_ric_id src)) of None \<Rightarrow> []
      | Some val \<Rightarrow> [dispatch_of val sm src])"
    using l(3) by (simp add: arrival_def l(1,2) ind_ok_xapp_def split: option.split)
  moreover have "length (tsnq_list d) \<le> length (disp_xa ?x) + 1" "\<forall>m \<in> set (tsnq_list d). md_sm_cb m \<noteq> None"
    using s(3) l(4) by (auto simp: h(4) dispatch_of_def split: option.splits)
  ultimately show ?thesis using h(2-4)
    by (intro exI [of _ ap] exI [of _ d] exI [of _ "xs_called s"]) (simp add: dispatched_def)
next
  case False
  let ?x = "xs_xapp s"
  have w: "inp = Worker_Turn" using inp False by (cases inp) (simp_all add: ind_input_def)
  have same: "dispatched s (xa_act_proc ?x) (xa_msg_disp ?x) (xs_called s) = s" by (simp add: dispatched_def)
  show ?thesis
  proof (cases "disp_xa ?x")
    case Nil
    have "xapp_step s inp = Inr (dispatched s (xa_act_proc ?x) (xa_msg_disp ?x) (xs_called s))"
      using worker_waits [OF s(1) Nil] by (simp only: same w xapp_step_def xapp_input.simps)
    then show ?thesis using s(1) Nil
      by (intro exI [of _ "xa_act_proc ?x"] exI [of _ "xa_msg_disp ?x"] exI [of _ "xs_called s"])
        (simp add: same w arrival_def)
  next
    case (Cons msg msgs)
    then have "md_sm_cb msg \<noteq> None" using s(3) by simp
    with worker_turn_ok [OF s(1) Cons] obtain d where
      d: "worker_turn s = Inr (s\<lparr>xs_xapp := ?x\<lparr>xa_msg_disp := d\<rparr>, xs_called := xs_called s @ [msg]\<rparr>)"
        "xapp_inv (?x\<lparr>xa_msg_disp := d\<rparr>)" "tsnq_list d = msgs" by auto
    then show ?thesis using s(3) Cons
      by (intro exI [of _ "xa_act_proc ?x"] exI [of _ d] exI [of _ "xs_called s @ [msg]"])
        (simp add: w arrival_def dispatched_def xapp_step_def)
  qed
qed

lemma ind_input_frame:
  assumes "xa_fd x' = xa_fd x" "xa_ap x' = xa_ap x" "xa_plugin_ric x' = xa_plugin_ric x" "acts_xa x' = acts_xa x"
  shows "ind_input x' = ind_input x" "arrival x' = arrival x"
  unfolding ind_input_def [abs_def] arrival_def [abs_def] ind_ok_xapp_def assms by (rule refl)+

text \<open>C10: Indications and callbacks: in any interleaving of the event loop, which receives indications, with the
  worker, nothing faults, and what the worker has handed to callbacks, followed by what waits for it, is
  what has arrived, in that order: for each indication whose number is in use the callback of that
  procedure with what the service model reads and the node of the procedure, nothing for the others.\<close>

theorem xapp_indications_in_order:
  assumes s: "xapp_inv (xs_xapp s)" "\<not> xa_stop_token (xs_xapp s)" "\<forall>m \<in> set (disp_xa (xs_xapp s)). md_sm_cb m \<noteq> None"
    and inps: "\<forall>inp \<in> set inps. ind_input (xs_xapp s) inp"
    and room: "length (disp_xa (xs_xapp s)) + length inps < 2 ^ 32 - 1"
  shows "\<exists>ap d c. xapp_run inps s = Inr (dispatched s ap d c) \<and> xapp_inv (xs_xapp (dispatched s ap d c)) \<and>
    act_map ap = acts_xa (xs_xapp s) \<and>
    c @ tsnq_list d = xs_called s @ disp_xa (xs_xapp s) @ concat (map (arrival (xs_xapp s)) inps)"
  using assms
proof (induction inps arbitrary: s)
  case Nil
  then show ?case
    by (intro exI [of _ "xa_act_proc (xs_xapp s)"] exI [of _ "xa_msg_disp (xs_xapp s)"] exI [of _ "xs_called s"])
      (simp add: xapp_run_def dispatched_def)
next
  case (Cons inp inps)
  have p: "ind_input (xs_xapp s) inp" "length (disp_xa (xs_xapp s)) < 2 ^ 32 - 1" using Cons.prems(4,5) by simp_all
  obtain ap d c where h: "xapp_step s inp = Inr (dispatched s ap d c)" "xapp_inv (xs_xapp (dispatched s ap d c))"
    "act_map ap = acts_xa (xs_xapp s)" "c @ tsnq_list d = xs_called s @ disp_xa (xs_xapp s) @ arrival (xs_xapp s) inp"
    "length (tsnq_list d) \<le> length (disp_xa (xs_xapp s)) + 1" "\<forall>m \<in> set (tsnq_list d). md_sm_cb m \<noteq> None"
    using ind_step_ok [OF Cons.prems(1-3) p] by blast
  let ?t = "dispatched s ap d c"
  have f: "ind_input (xs_xapp ?t) = ind_input (xs_xapp s)" "arrival (xs_xapp ?t) = arrival (xs_xapp s)"
    by (rule ind_input_frame; simp add: dispatched_def h(3))+
  have t: "\<not> xa_stop_token (xs_xapp ?t)" "\<forall>m \<in> set (disp_xa (xs_xapp ?t)). md_sm_cb m \<noteq> None"
    "\<forall>inp \<in> set inps. ind_input (xs_xapp ?t) inp" "length (disp_xa (xs_xapp ?t)) + length inps < 2 ^ 32 - 1"
    using Cons.prems h(5,6) by (simp_all add: f, simp_all add: dispatched_def)
  obtain ap' d' c' where r: "xapp_run inps ?t = Inr (dispatched ?t ap' d' c')" "xapp_inv (xs_xapp (dispatched ?t ap' d' c'))"
    "act_map ap' = acts_xa (xs_xapp ?t)"
    "c' @ tsnq_list d' = xs_called ?t @ disp_xa (xs_xapp ?t) @ concat (map (arrival (xs_xapp ?t)) inps)"
    using Cons.IH [OF h(2) t] by blast
  have e: "dispatched ?t ap' d' c' = dispatched s ap' d' c'" "acts_xa (xs_xapp ?t) = acts_xa (xs_xapp s)"
    "xs_called ?t = c" "disp_xa (xs_xapp ?t) = tsnq_list d"
    by (simp_all add: dispatched_def h(3))
  have "c' @ tsnq_list d' = (c @ tsnq_list d) @ concat (map (arrival (xs_xapp s)) inps)"
    using r(4) by (simp add: e f)
  then have "c' @ tsnq_list d' = xs_called s @ disp_xa (xs_xapp s) @ concat (map (arrival (xs_xapp s)) (inp # inps))"
    by (simp add: h(4))
  moreover have "xapp_run (inp # inps) s = Inr (dispatched s ap' d' c')"
    using h(1) r(1) by (simp add: xapp_run_def e)
  ultimately show ?case using r(2,3) unfolding e by blast
qed

section \<open>A call from its message to its return\<close>

text \<open>The message that answers a request of this kind with this number.\<close>

definition answer_to :: "e2ap_msg \<Rightarrow> pending_event \<Rightarrow> u32 \<Rightarrow> bool" where
  "answer_to msg kind n = (case msg of
     RIC_SUBSCRIPTION_RESPONSE m \<Rightarrow> kind = E42_RIC_SUBSCRIPTION_REQUEST_PENDING_EVENT \<and> ric_req_id (sp_ric_id m) = n
   | RIC_SUBSCRIPTION_DELETE_RESPONSE m \<Rightarrow>
       kind = E42_RIC_SUBSCRIPTION_DELETE_REQUEST_PENDING_EVENT \<and> ric_req_id (dp_ric_id m) = n
   | RIC_CONTROL_ACKNOWLEDGE m \<Rightarrow> kind = E42_RIC_CONTROL_REQUEST_PENDING_EVENT \<and> ric_req_id (ck_ric_id m) = n
   | _ \<Rightarrow> False)"

lemma answer_to_handled:
  assumes "answer_to msg kind n"
  shows "e2ap_msg_handle_xapp xapp tfd msg = answered_xapp xapp kind n" "e2ap_msg_free_xapp msg = Inr ()"
  using assms by (cases msg; simp add: answer_to_def e2ap_msg_handle_xapp_def e2ap_msg_free_xapp_def
      e2ap_handle_subscription_response_xapp_def e2ap_handle_subscription_delete_response_xapp_def
      e2ap_handle_control_ack_xapp_def)+

text \<open>What a call of the user does not change.\<close>

definition same_setting :: "('c, 'i, 'd, 'r, 'cb) e42_xapp \<Rightarrow> ('c, 'i, 'd, 'r, 'cb) e42_xapp \<Rightarrow> bool" where
  "same_setting x y \<longleftrightarrow> xa_fd y = xa_fd x \<and> xa_ap y = xa_ap x \<and> xa_plugin_ric y = xa_plugin_ric x \<and>
     xa_e2_nodes y = xa_e2_nodes x \<and> xa_id y = xa_id x \<and> xa_msg_disp y = xa_msg_disp x \<and>
     xa_stop_token y = xa_stop_token x \<and> xa_connected y = xa_connected x"

lemma wait_and_answer:
  assumes ok: "xapp_ok (xs_xapp s)" "xs_ui s = UI_TO_WAIT r" "\<not> xa_stop_token (xs_xapp s)"
    and p: "(tfd, ev) \<in> pend_xa (xs_xapp s)" "px_ev ev = waits_for r"
    and msg: "answer_to (ap_dec (xa_ap (xs_xapp s)) ba) (waits_for r) n" "small_id n" "acts_xa (xs_xapp s) n \<noteq> None"
  shows "\<exists>x. xapp_run [Ui_Next a, Loop_Turn rn b (xa_fd (xs_xapp s)) ba] s = Inr (s\<lparr>xs_xapp := x, xs_ui := UI_WAITING r\<rparr>) \<and>
    xapp_ok x \<and> same_setting (xs_xapp s) x \<and> xa_sent x = xa_sent (xs_xapp s) \<and> su_flag_sync (xa_sync x) \<and>
    pend_xa x = pend_xa (xs_xapp s) - {(tfd, ev)} \<and> acts_xa x = acts_xa (xs_xapp s)"
proof -
  let ?x = "xs_xapp s"
  let ?y = "?x\<lparr>xa_sync := (xa_sync ?x)\<lparr>su_flag_sync := False, su_msg_ack := False\<rparr>\<rparr>"
  note i = xapp_okD [OF ok(1)]
  have inv: "xapp_inv ?y" using xapp_invD [OF i(1)] by (intro xapp_inv_frame [OF i(1)]) simp_all
  obtain ap io m where h: "answered_xapp ?y (waits_for r) n = Inr (NONE_E2_MSG_TYPE, answered_state ?y ap io m)"
    "xapp_inv (answered_state ?y ap io m)" "pairs_of m = pend_xa ?x - {(tfd, ev)}" "act_map ap = acts_xa ?x"
    using answered_ok [OF inv msg(2) _ _ p(2), of tfd] msg(3) p(1) by auto
  have enter: "xapp_step s (Ui_Next a) = Inr (s\<lparr>xs_xapp := ?y, xs_ui := UI_WAITING r\<rparr>)"
    using ok(2) i(4) by (simp add: xapp_step_def ui_step_def cond_wait_enter_def)
  have "ap_dec (xa_ap ?y) ba = ap_dec (xa_ap ?x) ba" by simp
  note net = network_turn [OF inv, of b ba _ rn, unfolded this answer_to_handled [OF msg(1)], OF _ h(1) refl]
  have "xapp_run [Ui_Next a, Loop_Turn rn b (xa_fd ?x) ba] s =
      Inr (s\<lparr>xs_xapp := answered_state ?y ap io m, xs_ui := UI_WAITING r\<rparr>)"
    using enter net ok(3) by (simp add: xapp_run_def) (simp add: xapp_step_def)
  moreover have "xapp_ok (answered_state ?y ap io m)"
    using i h(2) by (simp add: xapp_ok_def encodes_xa_def signal_sync_ui_def)
  ultimately show ?thesis
    using h(3,4) by (intro exI [of _ "answered_state ?y ap io m"]) (simp add: same_setting_def signal_sync_ui_def)
qed

lemma return_step:
  assumes ok: "xapp_ok (xs_xapp s)" "xs_ui s = UI_WAITING r" "su_flag_sync (xa_sync (xs_xapp s))"
  shows "xapp_step s (Ui_Next a) = ui_return s r"
  using ok xapp_okD(5) [OF ok(1)] by (simp add: xapp_step_def ui_step_def cond_wait_test_def)

text \<open>The return of a call that ends its procedure.\<close>

lemma return_rm:
  assumes ok: "xapp_ok (xs_xapp s)" and n: "small_id n" "acts_xa (xs_xapp s) n \<noteq> None"
    and r: "r = RET_RM_REPORT (ucast n) \<or> r = RET_CONTROL (ucast n)"
  shows "\<exists>x. ui_return s r = Inr (s\<lparr>xs_xapp := x, xs_ui := UI_IDLE, xs_answers := xs_answers s @ [r]\<rparr>) \<and> xapp_ok x \<and>
    same_setting (xs_xapp s) x \<and> xa_sent x = xa_sent (xs_xapp s) \<and> pend_xa x = pend_xa (xs_xapp s) \<and>
    acts_xa x = (acts_xa (xs_xapp s))(n := None)"
proof -
  obtain ap where ap: "rm_act_proc (xa_act_proc (xs_xapp s)) (ucast n) = Inr ap"
    "xapp_inv ((xs_xapp s)\<lparr>xa_act_proc := ap\<rparr>)" "act_map ap = (acts_xa (xs_xapp s))(n := None)"
    using rm_proc_ok [OF xapp_okD(1) [OF ok] n] by blast
  have "xapp_ok ((xs_xapp s)\<lparr>xa_act_proc := ap\<rparr>)" by (rule xapp_ok_frame [OF ok ap(2)]) simp_all
  then show ?thesis using r ap(1,3)
    by (intro exI [of _ "(xs_xapp s)\<lparr>xa_act_proc := ap\<rparr>"]) (auto simp: ui_return_def same_setting_def)
qed

lemma run_two: "xapp_run xs s = Inr t \<Longrightarrow> xapp_run ys t = Inr u \<Longrightarrow> xapp_run (xs @ ys) s = Inr u"
  by (simp add: xapp_run_def fold_res_append)

lemma report_run:
  assumes ok: "xapp_ok (xs_xapp s)" "xs_ui s = UI_IDLE" "\<not> xa_stop_token (xs_xapp s)" "ids_left (xs_xapp s)"
    and k: "kinds_xa (xs_xapp s) \<subseteq> {E42_SETUP_REQUEST_PENDING_EVENT}" and fd: "fresh_xa (xs_xapp s) tfd"
    and c: "valid_node_id i" "reg_map (xa_e2_nodes (xs_xapp s)) (node_id_rank i) \<noteq> None" "rf_known rf"
      "rf_map (xa_plugin_ric (xs_xapp s)) (ucast rf) = Some sm"
      "\<forall>ad. sb_action_def (on_subscription sm cmd) = Some ad \<longrightarrow> length ad < 2048"
    and msg: "answer_to (ap_dec (xa_ap (xs_xapp s)) ba) E42_RIC_SUBSCRIPTION_REQUEST_PENDING_EVENT (next_id (xs_xapp s))"
  shows "\<exists>x. xapp_run [Ui_Call (REPORT_SM i rf cmd cb) tfd, Ui_Next a, Loop_Turn rn b (xa_fd (xs_xapp s)) ba, Ui_Next d] s =
      Inr (s\<lparr>xs_xapp := x, xs_ui := UI_IDLE, xs_answers := xs_answers s @ [RET_REPORT (next_id (xs_xapp s))]\<rparr>) \<and>
    xapp_ok x \<and> same_setting (xs_xapp s) x \<and> small_id (next_id (xs_xapp s)) \<and> acts_xa (xs_xapp s) (next_id (xs_xapp s)) = None \<and>
    xa_sent x = xa_sent (xs_xapp s) @ [ap_enc (xa_ap (xs_xapp s)) (sub_request_of (xs_xapp s) i (ucast rf) sm cmd)] \<and>
    pend_xa x = pend_xa (xs_xapp s) \<and> acts_xa x = (acts_xa (xs_xapp s))(next_id (xs_xapp s) \<mapsto>
      new_act RIC_SUBSCRIPTION_PROCEDURE_ACTIVE (ucast rf) (next_id (xs_xapp s)) i cb)"
proof -
  let ?x = "xs_xapp s" and ?r = "RET_REPORT (next_id (xs_xapp s))"
  let ?m = "sub_request_of ?x i (ucast rf) sm cmd"
  let ?ev = "\<lparr>px_ev = E42_RIC_SUBSCRIPTION_REQUEST_PENDING_EVENT,
    px_id = \<lparr>ric_req_id = next_id ?x, ric_inst_id = 0, ran_func_id = ucast rf\<rparr>, px_wait_ms = 5000\<rparr>"
  note o = xapp_okD [OF ok(1)]
  have kind: "E42_RIC_SUBSCRIPTION_REQUEST_PENDING_EVENT \<notin> kinds_xa ?x" using k by blast
  obtain ap io m where q: "report_sm_send ?x tfd i (ucast rf) cmd cb = Inr (next_id ?x, requested ?x ap io m ?m)"
    "xapp_inv (requested ?x ap io m ?m)" "acts_xa ?x (next_id ?x) = None" "small_id (next_id ?x)"
    "act_map ap = (acts_xa ?x)(next_id ?x \<mapsto> new_act RIC_SUBSCRIPTION_PROCEDURE_ACTIVE (ucast rf) (next_id ?x) i cb)"
    "pairs_of m = insert (tfd, ?ev) (pend_xa ?x)"
    using report_call_ok [OF o(1,2) ok(4) fd kind c(3-5)] by blast
  let ?s = "s\<lparr>xs_xapp := requested ?x ap io m ?m, xs_ui := UI_TO_WAIT ?r\<rparr>"
  have call: "xapp_run [Ui_Call (REPORT_SM i rf cmd cb) tfd] s = Inr ?s"
    using ok(2) c(2) valid_global_e2_node_xapp_ok [OF xapp_invD(5) [OF o(1)] c(1)] rf_knownD(1) [OF c(3)] q(1)
    by (simp add: xapp_run_def xapp_step_def xapp_api_def Let_def)
  have ok': "xapp_ok (xs_xapp ?s)" using xapp_ok_frame [OF ok(1) q(2)] by simp
  obtain x where w: "xapp_run [Ui_Next a, Loop_Turn rn b (xa_fd (xs_xapp ?s)) ba] ?s = Inr (?s\<lparr>xs_xapp := x, xs_ui := UI_WAITING ?r\<rparr>)"
    "xapp_ok x" "same_setting (xs_xapp ?s) x" "xa_sent x = xa_sent (xs_xapp ?s)" "su_flag_sync (xa_sync x)"
    "pend_xa x = pend_xa (xs_xapp ?s) - {(tfd, ?ev)}" "acts_xa x = acts_xa (xs_xapp ?s)"
    using wait_and_answer [OF ok', of ?r tfd ?ev ba "next_id ?x" a rn b] ok(3) msg q(4-6) by (auto simp: waits_for_def)
  have ret: "xapp_run [Ui_Next d] (?s\<lparr>xs_xapp := x, xs_ui := UI_WAITING ?r\<rparr>) =
      Inr (s\<lparr>xs_xapp := x, xs_ui := UI_IDLE, xs_answers := xs_answers s @ [?r]\<rparr>)"
    using return_step [of "?s\<lparr>xs_xapp := x, xs_ui := UI_WAITING ?r\<rparr>" ?r d] w(2,5) by (simp add: xapp_run_def ui_return_def)
  have "xapp_run ([Ui_Call (REPORT_SM i rf cmd cb) tfd] @ [Ui_Next a, Loop_Turn rn b (xa_fd (xs_xapp ?s)) ba] @ [Ui_Next d]) s =
      Inr (s\<lparr>xs_xapp := x, xs_ui := UI_IDLE, xs_answers := xs_answers s @ [?r]\<rparr>)"
    by (rule run_two [OF call run_two [OF w(1) ret]])
  moreover have "pend_xa x = pend_xa ?x" using w(6) q(6) fd by (auto simp: fresh_xa_def image_iff)
  ultimately show ?thesis using w(2-4,7) q(3-5)
    by (intro exI [of _ x]) (simp add: same_setting_def)
qed

lemma rm_report_run:
  assumes ok: "xapp_ok (xs_xapp s)" "xs_ui s = UI_IDLE" "\<not> xa_stop_token (xs_xapp s)"
    and k: "kinds_xa (xs_xapp s) \<subseteq> {E42_SETUP_REQUEST_PENDING_EVENT}" and fd: "fresh_xa (xs_xapp s) tfd"
    and n: "small_id n" "acts_xa (xs_xapp s) n = Some v"
    and msg: "answer_to (ap_dec (xa_ap (xs_xapp s)) ba) E42_RIC_SUBSCRIPTION_DELETE_REQUEST_PENDING_EVENT n"
  shows "\<exists>x. xapp_run [Ui_Call (RM_REPORT_SM (uint n)) e, Ui_Next tfd, Ui_Next a, Loop_Turn rn b (xa_fd (xs_xapp s)) ba,
        Ui_Next d] s =
      Inr (s\<lparr>xs_xapp := x, xs_ui := UI_IDLE, xs_answers := xs_answers s @ [RET_RM_REPORT (ucast n)]\<rparr>) \<and>
    xapp_ok x \<and> same_setting (xs_xapp s) x \<and>
    xa_sent x = xa_sent (xs_xapp s) @ [ap_enc (xa_ap (xs_xapp s)) (E42_RIC_SUBSCRIPTION_DELETE_REQUEST
      \<lparr>xd_xapp_id = xa_id (xs_xapp s), xd_sdr = \<lparr>sd_ric_id = ap_id v\<rparr>\<rparr>)] \<and>
    pend_xa x = pend_xa (xs_xapp s) \<and> acts_xa x = (acts_xa (xs_xapp s))(n := None)"
proof -
  let ?x = "xs_xapp s" and ?r = "RET_RM_REPORT (ucast n)"
  let ?m = "E42_RIC_SUBSCRIPTION_DELETE_REQUEST \<lparr>xd_xapp_id = xa_id ?x, xd_sdr = \<lparr>sd_ric_id = ap_id v\<rparr>\<rparr>"
  let ?ev = "\<lparr>px_ev = E42_RIC_SUBSCRIPTION_DELETE_REQUEST_PENDING_EVENT, px_id = ap_id v, px_wait_ms = 10000\<rparr>"
  note o = xapp_okD [OF ok(1)]
  have kind: "E42_RIC_SUBSCRIPTION_DELETE_REQUEST_PENDING_EVENT \<notin> kinds_xa ?x" using k by blast
  obtain ap where f: "rm_report_find ?x (uint n) = Inr (ap_id v, ?x\<lparr>xa_act_proc := ap\<rparr>)"
    "xapp_inv (?x\<lparr>xa_act_proc := ap\<rparr>)" "act_map ap = acts_xa ?x"
    using rm_report_find_ok [OF o(1) n(1) refl n(2)] by blast
  let ?y = "sent_xa (?x\<lparr>xa_act_proc := ap\<rparr>) ?m"
  let ?s = "s\<lparr>xs_xapp := ?y, xs_ui := UI_DELETE_SENT (ucast n) (ap_id v)\<rparr>"
  have send: "e2ap_send_bytes_xapp (?x\<lparr>xa_act_proc := ap\<rparr>) (ap_enc (xa_ap ?x) ?m) = Inr ?y"
    using send_xa [of "?x\<lparr>xa_act_proc := ap\<rparr>" ?m] o(2) by (simp add: encodes_xa_def)
  have w: "uint n > -1" "(word_of_int (uint n) :: u16) = ucast n" using uint_ge_0 [of n] by (simp_all only: ucast_eq)
  have call: "xapp_run [Ui_Call (RM_REPORT_SM (uint n)) e] s = Inr ?s"
    using ok(2) w by (simp add: xapp_run_def xapp_step_def xapp_api_def Let_def f(1) send)
  have inv: "xapp_inv ?y" by (rule xapp_inv_sent [OF f(2)])
  have fr: "fresh_xa ?y tfd" using fd by (simp add: fresh_xa_def)
  obtain io m where d: "pend_delete_xapp ?y tfd (ap_id v) = Inr (xapp_waits ?y io m)" "xapp_inv (xapp_waits ?y io m)"
    "pairs_of m = insert (tfd, ?ev) (pend_xa ?x)"
    using pend_delete_ok [OF inv fr, of "ap_id v"] kind by auto
  let ?t = "s\<lparr>xs_xapp := xapp_waits ?y io m, xs_ui := UI_TO_WAIT ?r\<rparr>"
  have pend: "xapp_run [Ui_Next tfd] ?s = Inr ?t"
    by (simp add: xapp_run_def xapp_step_def ui_step_def d(1))
  have ok': "xapp_ok (xs_xapp ?t)" using xapp_ok_frame [OF ok(1) d(2)] by simp
  obtain x where q: "xapp_run [Ui_Next a, Loop_Turn rn b (xa_fd (xs_xapp ?t)) ba] ?t = Inr (?t\<lparr>xs_xapp := x, xs_ui := UI_WAITING ?r\<rparr>)"
    "xapp_ok x" "same_setting (xs_xapp ?t) x" "xa_sent x = xa_sent (xs_xapp ?t)" "su_flag_sync (xa_sync x)"
    "pend_xa x = pend_xa (xs_xapp ?t) - {(tfd, ?ev)}" "acts_xa x = acts_xa (xs_xapp ?t)"
    using wait_and_answer [OF ok', of ?r tfd ?ev ba n a rn b] ok(3) msg n d(3) f(3) by (auto simp: waits_for_def)
  let ?u = "?t\<lparr>xs_xapp := x, xs_ui := UI_WAITING ?r\<rparr>"
  obtain x' where z: "ui_return ?u ?r = Inr (?u\<lparr>xs_xapp := x', xs_ui := UI_IDLE, xs_answers := xs_answers ?u @ [?r]\<rparr>)"
    "xapp_ok x'" "same_setting x x'" "xa_sent x' = xa_sent x" "pend_xa x' = pend_xa x" "acts_xa x' = (acts_xa x)(n := None)"
    using return_rm [of ?u n ?r] q(2,7) n f(3) by auto
  have ret: "xapp_run [Ui_Next d] ?u = Inr (s\<lparr>xs_xapp := x', xs_ui := UI_IDLE, xs_answers := xs_answers s @ [?r]\<rparr>)"
    using return_step [of ?u ?r d] q(2,5) z(1) by (simp add: xapp_run_def)
  have "xapp_run ([Ui_Call (RM_REPORT_SM (uint n)) e] @ [Ui_Next tfd] @
      [Ui_Next a, Loop_Turn rn b (xa_fd (xs_xapp ?t)) ba] @ [Ui_Next d]) s =
      Inr (s\<lparr>xs_xapp := x', xs_ui := UI_IDLE, xs_answers := xs_answers s @ [?r]\<rparr>)"
    by (rule run_two [OF call run_two [OF pend run_two [OF q(1) ret]]])
  moreover have "pend_xa x' = pend_xa ?x" using z(5) q(6) d(3) fd by (auto simp: fresh_xa_def image_iff)
  ultimately show ?thesis using z(2-4,6) q(3,4,7) f(3)
    by (intro exI [of _ x']) (simp add: same_setting_def)
qed

section \<open>A subscription and a control\<close>

text \<open>C9: A subscription from the call of the user to its end. \<open>report_sm_xapp_api\<close> sends the request that the
  service model makes under a number that is not in use, waits for the answer and returns the number as
  the handle; then the procedure with the callback is registered and nothing is pending.
  \<open>rm_report_sm_xapp_api\<close> with the handle sends the deletion of that request, waits for its answer and
  leaves the procedures and the pending events as they were before the subscription.\<close>

theorem xapp_subscription_session:
  assumes ok: "xapp_ok (xs_xapp s)" "xs_ui s = UI_IDLE" "\<not> xa_stop_token (xs_xapp s)" "ids_left (xs_xapp s)"
    and k: "kinds_xa (xs_xapp s) \<subseteq> {E42_SETUP_REQUEST_PENDING_EVENT}"
    and fd: "fresh_xa (xs_xapp s) tfd1" "fresh_xa (xs_xapp s) tfd2"
    and c: "valid_node_id i" "reg_map (xa_e2_nodes (xs_xapp s)) (node_id_rank i) \<noteq> None" "rf_known rf"
      "rf_map (xa_plugin_ric (xs_xapp s)) (ucast rf) = Some sm"
      "\<forall>ad. sb_action_def (on_subscription sm cmd) = Some ad \<longrightarrow> length ad < 2048"
    and msg: "answer_to (ap_dec (xa_ap (xs_xapp s)) ba1) E42_RIC_SUBSCRIPTION_REQUEST_PENDING_EVENT (next_id (xs_xapp s))"
      "answer_to (ap_dec (xa_ap (xs_xapp s)) ba2) E42_RIC_SUBSCRIPTION_DELETE_REQUEST_PENDING_EVENT (next_id (xs_xapp s))"
  defines "n \<equiv> next_id (xs_xapp s)" and "sock \<equiv> xa_fd (xs_xapp s)"
  shows "\<exists>x1 x2. xapp_run [Ui_Call (REPORT_SM i rf cmd cb) tfd1, Ui_Next a1, Loop_Turn rn1 b1 sock ba1, Ui_Next d1] s =
      Inr (s\<lparr>xs_xapp := x1, xs_ui := UI_IDLE, xs_answers := xs_answers s @ [RET_REPORT n]\<rparr>) \<and>
    acts_xa (xs_xapp s) n = None \<and> 0 < unat n \<and> unat n < 2 ^ 16 \<and>
    acts_xa x1 = (acts_xa (xs_xapp s))(n \<mapsto> new_act RIC_SUBSCRIPTION_PROCEDURE_ACTIVE (ucast rf) n i cb) \<and>
    pend_xa x1 = pend_xa (xs_xapp s) \<and>
    xapp_run [Ui_Call (RM_REPORT_SM (uint n)) e, Ui_Next tfd2, Ui_Next a2, Loop_Turn rn2 b2 sock ba2, Ui_Next d2]
      (s\<lparr>xs_xapp := x1, xs_ui := UI_IDLE, xs_answers := xs_answers s @ [RET_REPORT n]\<rparr>) =
      Inr (s\<lparr>xs_xapp := x2, xs_ui := UI_IDLE, xs_answers := xs_answers s @ [RET_REPORT n, RET_RM_REPORT (ucast n)]\<rparr>) \<and>
    acts_xa x2 = acts_xa (xs_xapp s) \<and> pend_xa x2 = pend_xa (xs_xapp s) \<and> xapp_inv x2 \<and>
    xa_sent x2 = xa_sent (xs_xapp s) @
      [ap_enc (xa_ap (xs_xapp s)) (sub_request_of (xs_xapp s) i (ucast rf) sm cmd),
       ap_enc (xa_ap (xs_xapp s)) (E42_RIC_SUBSCRIPTION_DELETE_REQUEST \<lparr>xd_xapp_id = xa_id (xs_xapp s),
         xd_sdr = \<lparr>sd_ric_id = \<lparr>ric_req_id = n, ric_inst_id = 0, ran_func_id = ucast rf\<rparr>\<rparr>\<rparr>)]"
proof -
  let ?v = "new_act RIC_SUBSCRIPTION_PROCEDURE_ACTIVE (ucast rf) n i cb"
  obtain x1 where r: "xapp_run [Ui_Call (REPORT_SM i rf cmd cb) tfd1, Ui_Next a1, Loop_Turn rn1 b1 sock ba1, Ui_Next d1] s =
      Inr (s\<lparr>xs_xapp := x1, xs_ui := UI_IDLE, xs_answers := xs_answers s @ [RET_REPORT n]\<rparr>)"
    "xapp_ok x1" "same_setting (xs_xapp s) x1" "small_id n" "acts_xa (xs_xapp s) n = None"
    "xa_sent x1 = xa_sent (xs_xapp s) @ [ap_enc (xa_ap (xs_xapp s)) (sub_request_of (xs_xapp s) i (ucast rf) sm cmd)]"
    "pend_xa x1 = pend_xa (xs_xapp s)" "acts_xa x1 = (acts_xa (xs_xapp s))(n \<mapsto> ?v)"
    using report_run [OF ok k fd(1) c msg(1), of cb a1 rn1 b1 d1] unfolding n_def sock_def by blast
  let ?s = "s\<lparr>xs_xapp := x1, xs_ui := UI_IDLE, xs_answers := xs_answers s @ [RET_REPORT n]\<rparr>"
  have same: "xa_fd x1 = sock" "xa_ap x1 = xa_ap (xs_xapp s)" "xa_id x1 = xa_id (xs_xapp s)" "\<not> xa_stop_token x1"
    using r(3) ok(3) by (simp_all add: same_setting_def sock_def)
  have f: "fresh_xa x1 tfd2" using fd(2) by (simp add: fresh_xa_def same(1) r(7) sock_def)
  have "\<exists>x. xapp_run [Ui_Call (RM_REPORT_SM (uint n)) e, Ui_Next tfd2, Ui_Next a2, Loop_Turn rn2 b2 (xa_fd (xs_xapp ?s)) ba2,
        Ui_Next d2] ?s =
      Inr (?s\<lparr>xs_xapp := x, xs_ui := UI_IDLE, xs_answers := xs_answers ?s @ [RET_RM_REPORT (ucast n)]\<rparr>) \<and>
    xapp_ok x \<and> same_setting (xs_xapp ?s) x \<and>
    xa_sent x = xa_sent (xs_xapp ?s) @ [ap_enc (xa_ap (xs_xapp ?s)) (E42_RIC_SUBSCRIPTION_DELETE_REQUEST
      \<lparr>xd_xapp_id = xa_id (xs_xapp ?s), xd_sdr = \<lparr>sd_ric_id = ap_id ?v\<rparr>\<rparr>)] \<and>
    pend_xa x = pend_xa (xs_xapp ?s) \<and> acts_xa x = (acts_xa (xs_xapp ?s))(n := None)"
    by (rule rm_report_run) (use r k f same msg(2) in \<open>simp_all add: n_def\<close>)
  then obtain x2 where d: "xapp_run [Ui_Call (RM_REPORT_SM (uint n)) e, Ui_Next tfd2, Ui_Next a2, Loop_Turn rn2 b2 sock ba2,
        Ui_Next d2] ?s =
      Inr (s\<lparr>xs_xapp := x2, xs_ui := UI_IDLE, xs_answers := xs_answers s @ [RET_REPORT n, RET_RM_REPORT (ucast n)]\<rparr>)"
    "xapp_ok x2" "xa_sent x2 = xa_sent x1 @ [ap_enc (xa_ap (xs_xapp s)) (E42_RIC_SUBSCRIPTION_DELETE_REQUEST
      \<lparr>xd_xapp_id = xa_id (xs_xapp s), xd_sdr = \<lparr>sd_ric_id = ap_id ?v\<rparr>\<rparr>)]"
    "pend_xa x2 = pend_xa x1" "acts_xa x2 = (acts_xa x1)(n := None)" by (auto simp: same)
  have "acts_xa x2 = acts_xa (xs_xapp s)" by (rule ext) (simp add: d(5) r(5,8))
  then show ?thesis using r d(1-4) xapp_okD(1) [OF d(2)]
    by (intro exI [of _ x1] exI [of _ x2]) (simp add: small_id_def word_less_nat_alt new_act_def)
qed

text \<open>C11: A control from the call of the user to its return: the request that the service model makes goes out under a
  number that is not in use, the call waits for the acknowledgement, returns the number, and leaves the
  procedures and the pending events as they were.\<close>

theorem xapp_control_session:
  assumes ok: "xapp_ok (xs_xapp s)" "xs_ui s = UI_IDLE" "\<not> xa_stop_token (xs_xapp s)" "ids_left (xs_xapp s)"
    and k: "kinds_xa (xs_xapp s) \<subseteq> {E42_SETUP_REQUEST_PENDING_EVENT}" and fd: "fresh_xa (xs_xapp s) tfd"
    and c: "rf \<in> {3, 142, 145, 146}" "rf_map (xa_plugin_ric (xs_xapp s)) (ucast rf) = Some sm"
      "length (sc_ctrl_hdr (on_control_req sm cmd)) < 2049" "length (sc_ctrl_msg (on_control_req sm cmd)) < 2049"
    and msg: "answer_to (ap_dec (xa_ap (xs_xapp s)) ba) E42_RIC_CONTROL_REQUEST_PENDING_EVENT (next_id (xs_xapp s))"
  shows "\<exists>x. xapp_run [Ui_Call (CONTROL_SM i rf cmd) tfd, Ui_Next a, Loop_Turn rn b (xa_fd (xs_xapp s)) ba, Ui_Next d] s =
      Inr (s\<lparr>xs_xapp := x, xs_ui := UI_IDLE, xs_answers := xs_answers s @ [RET_CONTROL (ucast (next_id (xs_xapp s)))]\<rparr>) \<and>
    xapp_ok x \<and> same_setting (xs_xapp s) x \<and>
    xa_sent x = xa_sent (xs_xapp s) @ [ap_enc (xa_ap (xs_xapp s)) (ctrl_request_of (xs_xapp s) i (ucast rf) sm cmd)] \<and>
    pend_xa x = pend_xa (xs_xapp s) \<and> acts_xa x = acts_xa (xs_xapp s)"
proof -
  let ?x = "xs_xapp s" and ?r = "RET_CONTROL (ucast (next_id (xs_xapp s)))"
  let ?m = "ctrl_request_of ?x i (ucast rf) sm cmd"
  let ?ev = "\<lparr>px_ev = E42_RIC_CONTROL_REQUEST_PENDING_EVENT,
    px_id = \<lparr>ric_req_id = next_id ?x, ric_inst_id = 0, ran_func_id = ucast rf\<rparr>, px_wait_ms = 10000\<rparr>"
  note o = xapp_okD [OF ok(1)]
  have kind: "E42_RIC_CONTROL_REQUEST_PENDING_EVENT \<notin> kinds_xa ?x" using k by blast
  have rf: "rf_known rf" using c(1) by (auto simp: rf_known_def)
  obtain ap io m where q: "control_sm_send ?x tfd i (ucast rf) cmd = Inr (next_id ?x, requested ?x ap io m ?m)"
    "xapp_inv (requested ?x ap io m ?m)" "acts_xa ?x (next_id ?x) = None" "small_id (next_id ?x)"
    "act_map ap = (acts_xa ?x)(next_id ?x \<mapsto> new_act RIC_CONTROL_PROCEDURE_ACTIVE (ucast rf) (next_id ?x) i None)"
    "pairs_of m = insert (tfd, ?ev) (pend_xa ?x)"
    using control_call_ok [OF o(1,2) ok(4) fd kind rf c(2-4)] by blast
  let ?s = "s\<lparr>xs_xapp := requested ?x ap io m ?m, xs_ui := UI_TO_WAIT ?r\<rparr>"
  have call: "xapp_run [Ui_Call (CONTROL_SM i rf cmd) tfd] s = Inr ?s"
    using ok(2) c(1) q(1) by (auto simp: xapp_run_def xapp_step_def xapp_api_def Let_def)
  have ok': "xapp_ok (xs_xapp ?s)" using xapp_ok_frame [OF ok(1) q(2)] by simp
  obtain x where w: "xapp_run [Ui_Next a, Loop_Turn rn b (xa_fd (xs_xapp ?s)) ba] ?s = Inr (?s\<lparr>xs_xapp := x, xs_ui := UI_WAITING ?r\<rparr>)"
    "xapp_ok x" "same_setting (xs_xapp ?s) x" "xa_sent x = xa_sent (xs_xapp ?s)" "su_flag_sync (xa_sync x)"
    "pend_xa x = pend_xa (xs_xapp ?s) - {(tfd, ?ev)}" "acts_xa x = acts_xa (xs_xapp ?s)"
    using wait_and_answer [OF ok', of ?r tfd ?ev ba "next_id ?x" a rn b] ok(3) msg q(4-6) by (auto simp: waits_for_def)
  let ?u = "?s\<lparr>xs_xapp := x, xs_ui := UI_WAITING ?r\<rparr>"
  obtain x' where z: "ui_return ?u ?r = Inr (?u\<lparr>xs_xapp := x', xs_ui := UI_IDLE, xs_answers := xs_answers ?u @ [?r]\<rparr>)"
    "xapp_ok x'" "same_setting x x'" "xa_sent x' = xa_sent x" "pend_xa x' = pend_xa x"
    "acts_xa x' = (acts_xa x)(next_id ?x := None)"
    using return_rm [of ?u "next_id ?x" ?r] w(2,7) q(4,5) by auto
  have ret: "xapp_run [Ui_Next d] ?u = Inr (s\<lparr>xs_xapp := x', xs_ui := UI_IDLE, xs_answers := xs_answers s @ [?r]\<rparr>)"
    using return_step [of ?u ?r d] w(2,5) z(1) by (simp add: xapp_run_def)
  have "xapp_run ([Ui_Call (CONTROL_SM i rf cmd) tfd] @ [Ui_Next a, Loop_Turn rn b (xa_fd (xs_xapp ?s)) ba] @ [Ui_Next d]) s =
      Inr (s\<lparr>xs_xapp := x', xs_ui := UI_IDLE, xs_answers := xs_answers s @ [?r]\<rparr>)"
    by (rule run_two [OF call run_two [OF w(1) ret]])
  moreover have "pend_xa x' = pend_xa ?x" using z(5) w(6) q(6) fd by (auto simp: fresh_xa_def image_iff)
  moreover have "acts_xa x' = acts_xa ?x" by (rule ext) (simp add: z(6) w(7) q(3,5))
  ultimately show ?thesis using z(2-4) w(3,4)
    by (intro exI [of _ x']) (simp add: same_setting_def)
qed

section \<open>An xApp with one model\<close>

text \<open>
  The sample knows the service model 142 and one node; its codec reads one byte, the kind of the message:
  the answers and the indications are those for the number 1.
\<close>

definition first_id :: ric_gen_id where
  "first_id = \<lparr>ric_req_id = 1, ric_inst_id = 0, ran_func_id = 142\<rparr>"

definition first_ind :: ric_indication where
  "first_ind = \<lparr>in_ric_id = first_id, in_action_id = 0, in_sn = None, in_type = RIC_IND_REPORT, in_hdr = [], in_msg = [7],
     in_call_process_id = None\<rparr>"

definition sample_entry :: node_entry where
  "sample_entry = (sample_gnb 2, [sample_rf], [sample_cca])"

definition xapp_ap :: e2ap_ap where
  "xapp_ap = \<lparr>ap_enc = (\<lambda>m. case m of E42_SETUP_REQUEST r \<Rightarrow> [10] | E42_RIC_SUBSCRIPTION_REQUEST r \<Rightarrow> [11]
       | E42_RIC_SUBSCRIPTION_DELETE_REQUEST r \<Rightarrow> [12] | E42_RIC_CONTROL_REQUEST r \<Rightarrow> [13] | _ \<Rightarrow> [0]),
     ap_dec = (\<lambda>b. if b = [1] then RIC_SUBSCRIPTION_RESPONSE \<lparr>sp_ric_id = first_id, sp_admitted = [], sp_not_admitted = []\<rparr>
       else if b = [2] then RIC_SUBSCRIPTION_DELETE_RESPONSE \<lparr>dp_ric_id = first_id\<rparr>
       else if b = [3] then RIC_CONTROL_ACKNOWLEDGE \<lparr>ck_ric_id = first_id, ck_call_process_id = None, ck_outcome = None\<rparr>
       else if b = [4] then RIC_INDICATION first_ind
       else E42_UPDATE_E2_NODE \<lparr>xu_xapp_id = 7, xu_nodes = map connected_node [sample_entry]\<rparr>)\<rparr>"

lemma xapp_ap_simps [simp]:
  "ap_dec xapp_ap [1] = RIC_SUBSCRIPTION_RESPONSE \<lparr>sp_ric_id = first_id, sp_admitted = [], sp_not_admitted = []\<rparr>"
  "ap_dec xapp_ap [2] = RIC_SUBSCRIPTION_DELETE_RESPONSE \<lparr>dp_ric_id = first_id\<rparr>"
  "ap_dec xapp_ap [3] = RIC_CONTROL_ACKNOWLEDGE \<lparr>ck_ric_id = first_id, ck_call_process_id = None, ck_outcome = None\<rparr>"
  "ap_dec xapp_ap [4] = RIC_INDICATION first_ind"
  "ap_dec xapp_ap [5] = E42_UPDATE_E2_NODE \<lparr>xu_xapp_id = 7, xu_nodes = map connected_node [sample_entry]\<rparr>"
  "ap_enc xapp_ap (E42_SETUP_REQUEST a) = [10]" "ap_enc xapp_ap (E42_RIC_SUBSCRIPTION_REQUEST b) = [11]"
  "ap_enc xapp_ap (E42_RIC_SUBSCRIPTION_DELETE_REQUEST c) = [12]" "ap_enc xapp_ap (E42_RIC_CONTROL_REQUEST d) = [13]"
  "ap_enc xapp_ap m \<noteq> []"
  by (simp_all add: xapp_ap_def split: e2ap_msg.split)

lemma sample_answers:
  "answer_to (ap_dec xapp_ap [1]) E42_RIC_SUBSCRIPTION_REQUEST_PENDING_EVENT 1"
  "answer_to (ap_dec xapp_ap [2]) E42_RIC_SUBSCRIPTION_DELETE_REQUEST_PENDING_EVENT 1"
  "answer_to (ap_dec xapp_ap [3]) E42_RIC_CONTROL_REQUEST_PENDING_EVENT 1"
  by (simp_all add: answer_to_def first_id_def)

definition sample_xa_ag :: "(string, unit) sm_agent" where
  "sample_xa_ag = \<lparr>sg_on_subscription = (\<lambda>_ _. Inl AssertFailed), sg_on_indication = (\<lambda>_ _. Inl AssertFailed),
     sg_on_control = (\<lambda>_ _. Inl AssertFailed), sg_on_e2_setup = (\<lambda>_. Inr \<lparr>se_ran_fun_def = [1]\<rparr>), sg_frees_act_def = False,
     sg_info_id = 142, sg_info_rev = 1, sg_info_oid = ''1.3''\<rparr>"

lemma sample_xa_models:
  "\<exists>(T :: (u16, (string, string) sm_ric) rb_tree) (pag :: (u16, (string, unit) sm_agent) rb_tree).
     models_inv T \<and> rf_map T 142 = Some (sample_sm 142) \<and> plugin_inv pag \<and> length (rb_items T) = 1 \<and>
     length (rb_items pag) = 1 \<and> snd ` set (rb_items pag) = {(142, sample_xa_ag)}"
proof -
  obtain T :: "(u16, (string, string) sm_ric) rb_tree" where T: "rf_inv T" "rb_items T = []"
    using rb_init_ok [of 2 cmp_ran_func_id "\<lambda>_. True" "\<lambda>f. [uint f]"] by auto
  from sms.insert_law [OF T(1), of 142 "sample_sm 142"] obtain T' a where
    t: "rf_inv T'" "rb_items T' = [(a, 142, sample_sm 142)]" by (auto simp: T(2) sorted_insert_def)
  obtain P :: "(u16, (string, unit) sm_agent) rb_tree" where P: "rf_inv P" "rb_items P = []"
    using rb_init_ok [of 2 cmp_ran_func_id "\<lambda>_. True" "\<lambda>f. [uint f]"] by auto
  from sms.insert_law [OF P(1), of 142 sample_xa_ag] obtain P' b where
    p: "rf_inv P'" "rb_items P' = [(b, 142, sample_xa_ag)]" by (auto simp: P(2) sorted_insert_def)
  have "models_inv T'" using t by (simp add: models_inv_def rf_map_def sample_sm_def)
  moreover have "plugin_inv P'" using p by (simp add: plugin_inv_def sample_xa_ag_def)
  ultimately show ?thesis using t p by (intro exI [of _ T'] exI [of _ P']) (simp add: rf_map_def)
qed

definition sample_xapp :: "(string, string, string, unit, string) e42_xapp \<Rightarrow> bool" where
  "sample_xapp xapp \<longleftrightarrow> xapp_ok xapp \<and> pend_xa xapp = {} \<and> acts_xa xapp = Map.empty \<and> disp_xa xapp = [] \<and> ids_left xapp \<and>
     next_id xapp = 1 \<and> xa_fd xapp = 5 \<and> xa_ap xapp = xapp_ap \<and> \<not> xa_stop_token xapp \<and>
     rf_map (xa_plugin_ric xapp) 142 = Some (sample_sm 142) \<and> reg_map (xa_e2_nodes xapp) (node_id_rank (sample_gnb 1)) \<noteq> None \<and>
     reg_small (xa_e2_nodes xapp) \<and> xa_sent xapp = []"

lemma sample_xappD:
  assumes "sample_xapp xapp"
  shows "xapp_ok xapp" "pend_xa xapp = {}" "acts_xa xapp = Map.empty" "disp_xa xapp = []" "ids_left xapp" "next_id xapp = 1"
    "xa_fd xapp = 5" "xa_ap xapp = xapp_ap" "\<not> xa_stop_token xapp" "rf_map (xa_plugin_ric xapp) 142 = Some (sample_sm 142)"
    "reg_map (xa_e2_nodes xapp) (node_id_rank (sample_gnb 1)) \<noteq> None" "reg_small (xa_e2_nodes xapp)" "xa_sent xapp = []"
  using assms by (simp_all add: sample_xapp_def)

lemma sample_registry:
  "\<exists>n. Reg_E2_Nodes.reg_inv n \<and> reg_small n \<and> reg_map n (node_id_rank (sample_gnb 1)) \<noteq> None"
proof -
  obtain n0 where n0: "Reg_E2_Nodes.reg_inv n0" "rb_items n0 = []" using init_reg_e2_node_ok by blast
  have m0: "reg_map n0 = Map.empty" by (rule ext) (simp add: reg_map_None n0(2) ranks_def)
  have sz: "sz_reg_e2_node n0 = 0" using length_entries [OF n0(1)] by (simp add: entries_def n0(2))
  obtain n where n: "Reg_E2_Nodes.reg_inv n" "reg_map n = [node_id_rank (sample_gnb 1) \<mapsto> ([sample_rf], [sample_cca])]"
    "sz_reg_e2_node n = 1"
    using add_reg_e2_node_ok [OF n0(1), of "sample_gnb 1" "[sample_rf]" "[sample_cca]"] m0 sz
    by (auto simp: sample_cca_def)
  have "length ccas < 256" if "(k, rfs, ccas) \<in> set (entries n)" for k rfs ccas
    using entries_iff [OF n(1) that] by (auto simp: n(2) split: if_splits)
  then have "reg_small n" by (auto simp: reg_small_def n(3))
  with n show ?thesis by (intro exI [of _ n]) simp
qed

lemma sample_xapp_ex: "\<exists>xapp. sample_xapp xapp"
proof -
  obtain T :: "(u16, (string, string) sm_ric) rb_tree" and pag :: "(u16, (string, unit) sm_agent) rb_tree" where
    T: "models_inv T" "rf_map T 142 = Some (sample_sm 142)" using sample_xa_models by blast
  obtain x :: "(string, string, string, unit, string) e42_xapp" where x: "xapp_inv x" "pend_xa x = {}" "acts_xa x = Map.empty"
    "disp_xa x = []" "xa_fd x = 5" "xa_sent x = []" "xa_ap x = xapp_ap" "xa_plugin_ric x = T" "xa_sync x = init_sync_ui"
    "\<not> xa_stop_token x" "reg_key_id (xa_act_proc x) = 1"
    using init_e42_xapp_ok [OF _ _ _ _ T(1), of 5 36422 "''10.0.0.1''" xapp_ap pag] by auto
  obtain n where n: "Reg_E2_Nodes.reg_inv n" "reg_small n" "reg_map n (node_id_rank (sample_gnb 1)) \<noteq> None"
    using sample_registry by blast
  have "xapp_inv (x\<lparr>xa_e2_nodes := n\<rparr>)" using xapp_invD [OF x(1)] n(1) by (intro xapp_inv_frame [OF x(1)]) simp_all
  then show ?thesis using x n T(2)
    by (intro exI [of _ "x\<lparr>xa_e2_nodes := n\<rparr>"])
      (simp add: sample_xapp_def xapp_ok_def encodes_xa_def init_sync_ui_def ids_left_def next_id_def)
qed


lemma sample_sm_simps [simp]:
  "sb_action_def (on_subscription (sample_sm f) c) = None" "length (sc_ctrl_hdr (on_control_req (sample_sm f) c)) = 1"
  "length (sc_ctrl_msg (on_control_req (sample_sm f) c)) = 1" "ri_type (on_indication (sample_sm f) d) = MAC_STATS_V0"
  by (simp_all add: sample_sm_def)

theorem xapp_subscription_session_witness:
  "\<exists>(s :: (string, string, string, unit, string) xapp_proc) s1 s2.
     xapp_run [Ui_Call (REPORT_SM (sample_gnb 1) 142 ''1_ms'' (Some ''cb'')) 6, Ui_Next 0, Loop_Turn () 0 5 [1], Ui_Next 0] s = Inr s1 \<and>
     acts_xa (xs_xapp s1) 1 \<noteq> None \<and>
     xapp_run [Ui_Call (RM_REPORT_SM 1) 0, Ui_Next 7, Ui_Next 0, Loop_Turn () 0 5 [2], Ui_Next 0] s1 = Inr s2 \<and>
     xs_answers s2 = [RET_REPORT 1, RET_RM_REPORT 1] \<and> acts_xa (xs_xapp s2) = Map.empty \<and> pend_xa (xs_xapp s2) = {} \<and>
     xa_sent (xs_xapp s2) = [[11], [12]]"
proof -
  obtain x where "sample_xapp x" using sample_xapp_ex by blast
  note x = sample_xappD [OF this]
  let ?s = "new_proc x"
  have s: "xs_xapp ?s = x" "xs_ui ?s = UI_IDLE" "xs_answers ?s = []" by (simp_all add: new_proc_def)
  have rf: "rf_known 142" "(ucast (142 :: u32) :: u16) = 142" "fresh_xa x 6" "fresh_xa x 7"
    by (simp_all add: rf_known_def fresh_xa_def x)
  obtain x1 x2 where
    "xapp_run [Ui_Call (REPORT_SM (sample_gnb 1) 142 ''1_ms'' (Some ''cb'')) 6, Ui_Next 0, Loop_Turn () 0 5 [1], Ui_Next 0] ?s =
      Inr (?s\<lparr>xs_xapp := x1, xs_ui := UI_IDLE, xs_answers := [RET_REPORT 1]\<rparr>)"
    "acts_xa x1 = [1 \<mapsto> new_act RIC_SUBSCRIPTION_PROCEDURE_ACTIVE 142 1 (sample_gnb 1) (Some ''cb'')]"
    "xapp_run [Ui_Call (RM_REPORT_SM 1) 0, Ui_Next 7, Ui_Next 0, Loop_Turn () 0 5 [2], Ui_Next 0]
      (?s\<lparr>xs_xapp := x1, xs_ui := UI_IDLE, xs_answers := [RET_REPORT 1]\<rparr>) =
      Inr (?s\<lparr>xs_xapp := x2, xs_ui := UI_IDLE, xs_answers := [RET_REPORT 1, RET_RM_REPORT 1]\<rparr>)"
    "acts_xa x2 = Map.empty" "pend_xa x2 = {}" "xa_sent x2 = [[11], [12]]"
    using xapp_subscription_session [of ?s 6 7 "sample_gnb 1" 142 "sample_sm 142" "''1_ms''" "[1]" "[2]" "Some ''cb''" 0 "()" 0 0
        0 0 "()" 0 0] x rf sample_answers
    by (auto simp: s sub_request_of_def)
  then show ?thesis
    by (intro exI [of _ ?s] exI [of _ "?s\<lparr>xs_xapp := x1, xs_ui := UI_IDLE, xs_answers := [RET_REPORT 1]\<rparr>"]
        exI [of _ "?s\<lparr>xs_xapp := x2, xs_ui := UI_IDLE, xs_answers := [RET_REPORT 1, RET_RM_REPORT 1]\<rparr>"]) simp
qed

theorem xapp_control_session_witness:
  "\<exists>(s :: (string, string, string, unit, string) xapp_proc) s1.
     xapp_run [Ui_Call (CONTROL_SM (sample_gnb 1) 142 ''ctrl'') 6, Ui_Next 0, Loop_Turn () 0 5 [3], Ui_Next 0] s = Inr s1 \<and>
     xs_answers s1 = [RET_CONTROL 1] \<and> acts_xa (xs_xapp s1) = Map.empty \<and> xa_sent (xs_xapp s1) = [[13]]"
proof -
  obtain x where "sample_xapp x" using sample_xapp_ex by blast
  note x = sample_xappD [OF this]
  let ?s = "new_proc x"
  have s: "xs_xapp ?s = x" "xs_ui ?s = UI_IDLE" "xs_answers ?s = []" by (simp_all add: new_proc_def)
  have rf: "(ucast (142 :: u32) :: u16) = 142" "fresh_xa x 6" by (simp_all add: fresh_xa_def x)
  obtain x1 where "xapp_run [Ui_Call (CONTROL_SM (sample_gnb 1) 142 ''ctrl'') 6, Ui_Next 0, Loop_Turn () 0 5 [3], Ui_Next 0] ?s =
      Inr (?s\<lparr>xs_xapp := x1, xs_ui := UI_IDLE, xs_answers := [RET_CONTROL 1]\<rparr>)" "acts_xa x1 = Map.empty" "xa_sent x1 = [[13]]"
    using xapp_control_session [of ?s 6 142 "sample_sm 142" "''ctrl''" "[3]" "sample_gnb 1" 0 "()" 0 0] x rf sample_answers
    by (auto simp: s ctrl_request_of_def)
  then show ?thesis
    by (intro exI [of _ ?s] exI [of _ "?s\<lparr>xs_xapp := x1, xs_ui := UI_IDLE, xs_answers := [RET_CONTROL 1]\<rparr>"]) simp
qed

text \<open>States in the middle of a call: a subscription with and without a callback, a control.\<close>

lemma sample_pc_idle: "sample_xapp x \<Longrightarrow> pc_ok x UI_IDLE"
  by (simp add: sample_xapp_def pc_ok_def)

lemma sample_requested:
  "\<exists>x :: (string, string, string, unit, string) e42_xapp. xapp_ok x \<and> pc_ok x (UI_TO_WAIT (RET_REPORT 1)) \<and> \<not> xa_stop_token x \<and>
     E42_RIC_SUBSCRIPTION_REQUEST_PENDING_EVENT \<in> kinds_xa x \<and> xa_ap x = xapp_ap \<and> xa_fd x = 5 \<and>
     rf_map (xa_plugin_ric x) 142 = Some (sample_sm 142) \<and> disp_xa x = [] \<and> small_id 1 \<and>
     acts_xa x 1 = Some (new_act RIC_SUBSCRIPTION_PROCEDURE_ACTIVE 142 1 (sample_gnb 1) cb)"
proof -
  obtain x where sx: "sample_xapp x" using sample_xapp_ex by blast
  note x = sample_xappD [OF this]
  have rf: "rf_known 142" "(ucast (142 :: u32) :: u16) = 142" "fresh_xa x 6" by (simp_all add: rf_known_def fresh_xa_def x)
  let ?m = "sub_request_of x (sample_gnb 1) 142 (sample_sm 142) ''1_ms''"
  obtain ap io m where q: "xapp_inv (requested x ap io m ?m)" "small_id 1"
    "act_map ap = (acts_xa x)(1 \<mapsto> new_act RIC_SUBSCRIPTION_PROCEDURE_ACTIVE 142 1 (sample_gnb 1) cb)"
    "pairs_of m = {(6, \<lparr>px_ev = E42_RIC_SUBSCRIPTION_REQUEST_PENDING_EVENT,
      px_id = \<lparr>ric_req_id = 1, ric_inst_id = 0, ran_func_id = 142\<rparr>, px_wait_ms = 5000\<rparr>)}"
    using report_call_ok [OF xapp_okD(1,2) [OF x(1)] x(5) rf(3) _ rf(1), of "sample_sm 142" "''1_ms''" "sample_gnb 1" cb] x rf(2)
    by auto
  have "xapp_ok (requested x ap io m ?m)" by (rule xapp_ok_frame [OF x(1) q(1)]) simp_all
  then show ?thesis using x q
    by (intro exI [of _ "requested x ap io m ?m"]) (simp add: pc_ok_def ret_ok_def waits_for_def)
qed

lemma first_ind_ok:
  assumes "rf_map (xa_plugin_ric x) 142 = Some (sample_sm 142)" "small_id 1"
  shows "ind_ok_xapp x first_ind (sample_sm 142)"
  using assms by (simp add: ind_ok_xapp_def first_ind_def first_id_def known_ind_xapp_def)

theorem xapp_indications_in_order_witness:
  "\<exists>(s :: (string, string, string, unit, string) xapp_proc) s1.
     xapp_run [Loop_Turn () 0 5 [4], Worker_Turn, Loop_Turn () 0 5 [4]] s = Inr s1 \<and>
     map md_sm_cb (xs_called s1 @ disp_xa (xs_xapp s1)) = [Some ''cb'', Some ''cb'']"
proof -
  obtain x :: "(string, string, string, unit, string) e42_xapp" where x: "xapp_ok x" "\<not> xa_stop_token x" "xa_ap x = xapp_ap"
    "xa_fd x = 5" "rf_map (xa_plugin_ric x) 142 = Some (sample_sm 142)" "disp_xa x = []" "small_id 1"
    "acts_xa x 1 = Some (new_act RIC_SUBSCRIPTION_PROCEDURE_ACTIVE 142 1 (sample_gnb 1) (Some ''cb''))"
    using sample_requested [of "Some ''cb''"] by blast
  let ?s = "new_proc x" and ?inps = "[Loop_Turn () 0 5 [4], Worker_Turn, Loop_Turn () 0 5 [4]]"
  have s: "xs_xapp ?s = x" "xs_called ?s = []" by (simp_all add: new_proc_def)
  have n: "ric_req_id (in_ric_id first_ind) = 1" "ran_func_id (in_ric_id first_ind) = 142" by (simp_all add: first_ind_def first_id_def)
  have i: "\<forall>inp \<in> set ?inps. ind_input x inp"
    using first_ind_ok [OF x(5,7)] by (auto simp: ind_input_def x(3,4,8) n new_act_def)
  have a: "concat (map (arrival x) ?inps) = replicate 2 (dispatch_of
      (new_act RIC_SUBSCRIPTION_PROCEDURE_ACTIVE 142 1 (sample_gnb 1) (Some ''cb'')) (sample_sm 142) first_ind)"
    by (simp add: arrival_def x n numeral_2_eq_2)
  obtain ap d c where r: "xapp_run ?inps ?s = Inr (dispatched ?s ap d c)" "c @ tsnq_list d = concat (map (arrival x) ?inps)"
    using xapp_indications_in_order [of ?s ?inps] xapp_okD(1) [OF x(1)] x(2,6) i by (auto simp: s)
  have "map md_sm_cb (c @ tsnq_list d) = [Some ''cb'', Some ''cb'']"
    by (simp only: r(2) a) (simp add: dispatch_of_def new_act_def numeral_2_eq_2)
  then show ?thesis using r(1)
    by (intro exI [of _ ?s] exI [of _ "dispatched ?s ap d c"]) (simp add: dispatched_def)
qed

end
