(* ===== verification/Xapp_Races.thy ===== *)
theory Xapp_Races
  imports Xapp_Session
begin

text \<open>
  What goes wrong in an xApp when the event loop is faster than the thread of the user, and what else
  aborts it: answers before the wait and before the timer of a deletion, indications for a control.
\<close>

declare bind_res_eq_Inr [simp del]

section \<open>Nothing to wait for\<close>

text \<open>At most the setup is pending, and the flag of the wait is down.\<close>

definition quiet :: "('c, 'i, 'd, 'r, 'cb) e42_xapp \<Rightarrow> bool" where
  "quiet xapp \<longleftrightarrow> xpend_inv (xa_pending xapp) \<and> (\<forall>fd \<in> fst ` pend_xa xapp. fd > 0) \<and>
     kinds_xa xapp \<subseteq> {E42_SETUP_REQUEST_PENDING_EVENT} \<and> \<not> su_flag_sync (xa_sync xapp)"

lemma quiet_frame: "quiet x \<Longrightarrow> xa_pending y = xa_pending x \<Longrightarrow> xa_sync y = xa_sync x \<Longrightarrow> quiet y"
  by (simp add: quiet_def)

lemma rm_quiet:
  assumes q: "quiet x" and rm: "rm_pending_event_xapp x ev = Inr y"
  shows "quiet y" "xa_ap y = xa_ap x"
proof -
  have i: "xpend_inv (xa_pending x)" using q by (simp add: quiet_def)
  obtain fd m io where p: "rm_pending_event_ev (xa_pending x) ev = Inr (fd, m)" "y = x\<lparr>xa_io := io, xa_pending := m\<rparr>"
    using rm by (auto simp: rm_pending_event_xapp_def bind_res_eq_Inr)
  have "px_ev ev \<in> kinds_xa x"
    using rm_pending_event_ev_missing [OF i, of ev] p(1) by (cases "px_ev ev \<in> kinds_xa x") simp_all
  then obtain fd' ev' where e: "(fd', ev') \<in> pend_xa x" "px_ev ev = px_ev ev'" using kinds_memE [of "px_ev ev" x] by auto
  have "fd' \<in> fst ` pend_xa x" using e(1) by force
  then have "fd' > 0" using q unfolding quiet_def by blast
  from rm_pending_event_ev_ok [OF i e this] p(1) have m: "xpend_inv m" "pairs_of m = pend_xa x - {(fd', ev')}" by auto
  have sub: "fst ` pairs_of m \<subseteq> fst ` pend_xa x" "px_ev ` snd ` pairs_of m \<subseteq> kinds_xa x"
    unfolding m(2) by (intro image_mono Diff_subset)+
  have pos: "\<forall>fd \<in> fst ` pairs_of m. fd > 0" using q subsetD [OF sub(1)] by (auto simp only: quiet_def)
  show "quiet y" using q m(1) pos subset_trans [OF sub(2)] by (simp add: quiet_def p(2))
  show "xa_ap y = xa_ap x" by (simp add: p(2))
qed

lemma answered_quiet:
  assumes q: "quiet x" and k: "kind \<noteq> E42_SETUP_REQUEST_PENDING_EVENT"
  shows "answered_xapp x kind n \<noteq> Inr r"
proof
  assume "answered_xapp x kind n = Inr r"
  then obtain ap i y where rm: "rm_pending_event_xapp (x\<lparr>xa_act_proc := ap\<rparr>) \<lparr>px_ev = kind, px_id = i, px_wait_ms = 0\<rparr> = Inr y"
    by (auto simp: answered_xapp_def bind_res_eq_Inr split: option.splits)
  have "kind \<notin> kinds_xa x" using q k by (auto simp: quiet_def)
  then have "rm_pending_event_ev (xa_pending x) \<lparr>px_ev = kind, px_id = i, px_wait_ms = 0\<rparr> = Inl AssertFailed"
    using q by (intro rm_pending_event_ev_missing) (simp_all add: quiet_def)
  with rm show False by (simp add: rm_pending_event_xapp_def)
qed

lemma indication_quiet:
  assumes "e2ap_handle_indication_xapp x src = Inr (ans, y)"
  shows "ans = NONE_E2_MSG_TYPE" "xa_pending y = xa_pending x" "xa_sync y = xa_sync x" "xa_ap y = xa_ap x"
  using assms by (auto simp: e2ap_handle_indication_xapp_def bind_res_eq_Inr Let_def split: option.splits)

lemma update_quiet:
  assumes "e2ap_handle_e42_update_e2_node_xapp x sr = Inr (ans, y)"
  shows "ans = NONE_E2_MSG_TYPE" "xa_pending y = xa_pending x" "xa_sync y = xa_sync x" "xa_ap y = xa_ap x"
  using assms by (auto simp: e2ap_handle_e42_update_e2_node_xapp_def bind_res_eq_Inr)

lemma setup_quiet:
  assumes q: "quiet x" and h: "e2ap_handle_e42_setup_response_xapp x sr = Inr (ans, y)"
  shows "ans = NONE_E2_MSG_TYPE" "quiet y" "xa_ap y = xa_ap x"
proof -
  have "ans = NONE_E2_MSG_TYPE \<and> quiet y \<and> xa_ap y = xa_ap x"
  proof (cases "xa_connected x")
    case True
    then show ?thesis using h q by (simp add: e2ap_handle_e42_setup_response_xapp_def)
  next
    case False
    then obtain reg ev z where r: "rm_pending_event_xapp (x\<lparr>xa_id := xp_xapp_id sr, xa_e2_nodes := reg\<rparr>) ev = Inr z"
      "ans = NONE_E2_MSG_TYPE" "y = z\<lparr>xa_connected := True\<rparr>"
      using h by (auto simp: e2ap_handle_e42_setup_response_xapp_def bind_res_eq_Inr)
    have "quiet (x\<lparr>xa_id := xp_xapp_id sr, xa_e2_nodes := reg\<rparr>)" by (rule quiet_frame [OF q]) simp_all
    from rm_quiet [OF this r(1)] have z: "quiet z" "xa_ap z = xa_ap x" by simp_all
    then show ?thesis using r(2,3) quiet_frame [OF z(1), of y] by simp
  qed
  then show "ans = NONE_E2_MSG_TYPE" "quiet y" "xa_ap y = xa_ap x" by simp_all
qed

lemma message_quiet:
  assumes q: "quiet x" and h: "e2ap_msg_handle_xapp x tfd msg = Inr (ans, y)" and m: "\<And>m. msg \<noteq> E42_RIC_CONTROL_REQUEST m"
  shows "ans = NONE_E2_MSG_TYPE \<and> quiet y \<and> xa_ap y = xa_ap x"
proof (cases msg)
  case (RIC_SUBSCRIPTION_RESPONSE m)
  then show ?thesis using h answered_quiet [OF q]
    by (simp add: e2ap_msg_handle_xapp_def e2ap_handle_subscription_response_xapp_def)
next
  case (RIC_SUBSCRIPTION_DELETE_RESPONSE m)
  then show ?thesis using h answered_quiet [OF q]
    by (simp add: e2ap_msg_handle_xapp_def e2ap_handle_subscription_delete_response_xapp_def)
next
  case (RIC_CONTROL_ACKNOWLEDGE m)
  then show ?thesis using h answered_quiet [OF q]
    by (simp add: e2ap_msg_handle_xapp_def e2ap_handle_control_ack_xapp_def)
next
  case (RIC_INDICATION m)
  then show ?thesis using h indication_quiet [of x m ans y] quiet_frame [OF q, of y]
    by (simp add: e2ap_msg_handle_xapp_def)
next
  case (E42_SETUP_RESPONSE m)
  then show ?thesis using h setup_quiet [OF q, of m ans y] by (simp add: e2ap_msg_handle_xapp_def)
next
  case (E42_UPDATE_E2_NODE m)
  then show ?thesis using h update_quiet [of x m ans y] quiet_frame [OF q, of y]
    by (simp add: e2ap_msg_handle_xapp_def)
qed (use h m in \<open>simp_all add: e2ap_msg_handle_xapp_def\<close>)

lemma loop_quiet:
  assumes q: "quiet x" and h: "e2_event_loop_xapp x rn tfd fd ba = Inr y"
    and m: "\<And>m. ap_dec (xa_ap x) ba \<noteq> E42_RIC_CONTROL_REQUEST m"
  shows "quiet y \<and> xa_ap y = xa_ap x"
proof -
  consider "xa_stop_token x" | "\<not> xa_stop_token x" "fd = -1" | (ev) "\<not> xa_stop_token x" "fd \<noteq> -1" by blast
  then show ?thesis
  proof cases
    case 1
    then show ?thesis using h quiet_frame [OF q, of y] by (auto simp: e2_event_loop_xapp_def)
  next
    case 2
    then show ?thesis using h q by (simp add: e2_event_loop_xapp_def)
  next
    case ev
    then obtain e where e: "find_event_type x fd = Inr e" "(case e of NETWORK_EVENT \<Rightarrow> network_event_xapp x tfd ba
        | PENDING_EVENT_XAPP ev \<Rightarrow> pending_event_turn_xapp x rn fd (px_ev ev)) = Inr y"
      using h by (auto simp: e2_event_loop_xapp_def bind_res_eq_Inr)
    show ?thesis
    proof (cases e)
      case NETWORK_EVENT
      then obtain ans z where z: "e2ap_msg_handle_xapp x tfd (ap_dec (xa_ap x) ba) = Inr (ans, z)"
        and rest: "bind_res (if ans \<noteq> NONE_E2_MSG_TYPE
          then bind_res (e2ap_msg_enc_xapp (xa_ap z) ans) (\<lambda>ba_ans. e2ap_send_bytes_xapp z ba_ans) else Inr z)
          (\<lambda>x'. bind_res (e2ap_msg_free_xapp ans) (\<lambda>_. bind_res (e2ap_msg_free_xapp (ap_dec (xa_ap x) ba)) (\<lambda>_. Inr x'))) = Inr y"
        using e(2) by (auto simp: network_event_xapp_def Let_def bind_res_eq_Inr)
      from message_quiet [OF q z m] rest show ?thesis by (auto simp: bind_res_eq_Inr)
    next
      case (PENDING_EVENT_XAPP ev)
      then show ?thesis using e(2) quiet_frame [OF q, of y]
        by (auto simp: pending_event_turn_xapp_def bind_res_eq_Inr e2ap_send_bytes_xapp_def)
    qed
  qed
qed

lemma waiting_step:
  assumes s: "quiet (xs_xapp s)" "xs_ui s = UI_WAITING r" and h: "xapp_step s inp = Inr t"
    and m: "\<And>rn tfd fd ba m. inp = Loop_Turn rn tfd fd ba \<Longrightarrow> ap_dec (xa_ap (xs_xapp s)) ba \<noteq> E42_RIC_CONTROL_REQUEST m"
  shows "quiet (xs_xapp t) \<and> xs_ui t = UI_WAITING r \<and> xs_answers t = xs_answers s \<and> xa_ap (xs_xapp t) = xa_ap (xs_xapp s)"
proof (cases inp)
  case (Ui_Call call tfd)
  then show ?thesis using s h by (simp add: xapp_step_def)
next
  case (Ui_Next tfd)
  then show ?thesis using s h by (simp add: xapp_step_def ui_step_def cond_wait_test_def quiet_def)
next
  case Ui_Timeout
  then show ?thesis using s h by (simp add: xapp_step_def ui_step_def cond_wait_test_def)
next
  case (Loop_Turn rn tfd fd ba)
  then obtain x where x: "e2_event_loop_xapp (xs_xapp s) rn tfd fd ba = Inr x" "t = s\<lparr>xs_xapp := x\<rparr>"
    using h by (auto simp: xapp_step_def)
  from loop_quiet [OF s(1) x(1)] m [OF Loop_Turn] s(2) show ?thesis by (simp add: x(2))
next
  case Worker_Turn
  then obtain a d where "wait_and_pop_tsnq (xa_msg_disp (xs_xapp s)) = Inr (a, d)"
      "(case a of Elm msg \<Rightarrow> (case md_sm_cb msg of None \<Rightarrow> Inl UseOfNull
           | Some _ \<Rightarrow> Inr (s\<lparr>xs_xapp := (xs_xapp s)\<lparr>xa_msg_disp := d\<rparr>, xs_called := xs_called s @ [msg]\<rparr>))
       | _ \<Rightarrow> Inr (s\<lparr>xs_xapp := (xs_xapp s)\<lparr>xa_msg_disp := d\<rparr>\<rparr>)) = Inr t"
    using h by (auto simp: xapp_step_def worker_turn_def bind_res_eq_Inr)
  then have "xa_pending (xs_xapp t) = xa_pending (xs_xapp s) \<and> xa_sync (xs_xapp t) = xa_sync (xs_xapp s) \<and>
      xa_ap (xs_xapp t) = xa_ap (xs_xapp s) \<and> xs_ui t = xs_ui s \<and> xs_answers t = xs_answers s"
    by (cases a) (auto split: option.splits)
  then show ?thesis using s quiet_frame [OF s(1), of "xs_xapp t"] by simp
qed

lemma waiting_forever:
  assumes "quiet (xs_xapp s)" "xs_ui s = UI_WAITING r" "xapp_run inps s = Inr t"
    "\<And>rn tfd fd ba m. Loop_Turn rn tfd fd ba \<in> set inps \<Longrightarrow> ap_dec (xa_ap (xs_xapp s)) ba \<noteq> E42_RIC_CONTROL_REQUEST m"
  shows "xs_ui t = UI_WAITING r \<and> xs_answers t = xs_answers s"
  using assms
proof (induction inps arbitrary: s)
  case (Cons inp inps)
  obtain u where u: "xapp_step s inp = Inr u" "xapp_run inps u = Inr t"
    using Cons.prems(3) by (auto simp: xapp_run_def bind_res_eq_Inr)
  have m: "ap_dec (xa_ap (xs_xapp s)) ba \<noteq> E42_RIC_CONTROL_REQUEST m" if "inp = Loop_Turn rn tfd fd ba" for rn tfd fd ba m
    using Cons.prems(4) [of rn tfd fd ba m] that by simp
  have w: "quiet (xs_xapp u) \<and> xs_ui u = UI_WAITING r \<and> xs_answers u = xs_answers s \<and> xa_ap (xs_xapp u) = xa_ap (xs_xapp s)"
    by (rule waiting_step [OF Cons.prems(1,2) u(1)]) (rule m)
  have m': "ap_dec (xa_ap (xs_xapp u)) ba \<noteq> E42_RIC_CONTROL_REQUEST m" if "Loop_Turn rn tfd fd ba \<in> set inps"
    for rn tfd fd ba m using Cons.prems(4) [of rn tfd fd ba m] that w by simp
  have "xs_ui t = UI_WAITING r \<and> xs_answers t = xs_answers u"
    by (rule Cons.IH [OF _ _ u(2) m']) (use w in simp_all)
  with w show ?case by simp
qed (simp add: xapp_run_def)

lemma remove_second: "K \<subseteq> {a, b} \<Longrightarrow> K - {b} \<subseteq> {a}"
  by blast

text \<open>C36: A lost wake-up: \<open>cond_wait_sync_ui\<close> lowers the flag before it waits. When the answer to a call of the user is
  handled after the request was sent but before the user's thread has begun to wait, the call never
  returns: whatever happens afterwards, short of the RIC sending the xApp a control request, the thread is
  still waiting, and when the time is over the xApp aborts.\<close>

theorem xapp_lost_wakeup:
  assumes ok: "xapp_ok (xs_xapp s)" "pc_ok (xs_xapp s) (xs_ui s)" "xs_ui s = UI_TO_WAIT r" "\<not> xa_stop_token (xs_xapp s)"
    and p: "waits_for r \<in> kinds_xa (xs_xapp s)"
    and msg: "answer_to (ap_dec (xa_ap (xs_xapp s)) ba) (waits_for r) n" "small_id n" "acts_xa (xs_xapp s) n \<noteq> None"
  shows "\<exists>s1. xapp_run [Loop_Turn rn b (xa_fd (xs_xapp s)) ba, Ui_Next a] s = Inr s1 \<and>
    (\<forall>inps t. (\<forall>rn tfd fd ba m. Loop_Turn rn tfd fd ba \<in> set inps \<longrightarrow>
        ap_dec (xa_ap (xs_xapp s)) ba \<noteq> E42_RIC_CONTROL_REQUEST m) \<longrightarrow>
      xapp_run inps s1 = Inr t \<longrightarrow>
      xs_ui t = UI_WAITING r \<and> xs_answers t = xs_answers s \<and> xapp_step t Ui_Timeout = Inl AssertFailed)"
proof -
  let ?x = "xs_xapp s"
  note i = xapp_okD [OF ok(1)]
  obtain fd ev where ev: "(fd, ev) \<in> pend_xa ?x" "px_ev ev = waits_for r" using kinds_memE [OF p] by blast
  obtain ap io m where h: "answered_xapp ?x (waits_for r) n = Inr (NONE_E2_MSG_TYPE, answered_state ?x ap io m)"
    "xapp_inv (answered_state ?x ap io m)" "pairs_of m = pend_xa ?x - {(fd, ev)}"
    using answered_ok [OF i(1) msg(2,3) ev] by blast
  let ?y = "answered_state ?x ap io m"
  let ?z = "?y\<lparr>xa_sync := (xa_sync ?y)\<lparr>su_flag_sync := False, su_msg_ack := False\<rparr>\<rparr>"
  have net: "e2_event_loop_xapp ?x rn b (xa_fd ?x) ba = Inr ?y"
    by (rule network_turn [OF i(1) ok(4)]) (simp_all only: answer_to_handled [OF msg(1)] h(1))
  have run: "xapp_run [Loop_Turn rn b (xa_fd ?x) ba, Ui_Next a] s = Inr (s\<lparr>xs_xapp := ?z, xs_ui := UI_WAITING r\<rparr>)"
    using ok(3) i(4) by (simp add: xapp_run_def xapp_step_def net ui_step_def cond_wait_enter_def signal_sync_ui_def)
  have k: "kinds_xa ?x \<subseteq> {E42_SETUP_REQUEST_PENDING_EVENT, waits_for r}"
    using ok(2) unfolding ok(3) pc_ok_def ui_pc.simps by (rule conjunct1)
  have "kinds_xa ?y = kinds_xa ?x - {waits_for r}"
    using kinds_removed [OF xapp_invD(1) [OF i(1)] ev(1)] by (simp add: h(3) ev(2))
  then have "kinds_xa ?y \<subseteq> {E42_SETUP_REQUEST_PENDING_EVENT}" using k by (simp only:) (rule remove_second)
  then have q: "quiet ?z" using xapp_invD(1,11) [OF h(2)] by (simp add: quiet_def)
  have "xs_ui t = UI_WAITING r \<and> xs_answers t = xs_answers s \<and> xapp_step t Ui_Timeout = Inl AssertFailed"
    if m: "\<forall>rn tfd fd ba m. Loop_Turn rn tfd fd ba \<in> set inps \<longrightarrow> ap_dec (xa_ap ?x) ba \<noteq> E42_RIC_CONTROL_REQUEST m"
      and t: "xapp_run inps (s\<lparr>xs_xapp := ?z, xs_ui := UI_WAITING r\<rparr>) = Inr t" for inps t
  proof -
    have "xs_ui t = UI_WAITING r \<and> xs_answers t = xs_answers (s\<lparr>xs_xapp := ?z, xs_ui := UI_WAITING r\<rparr>)"
      by (rule waiting_forever [OF _ _ t]) (use q m in simp_all)
    then show ?thesis by (simp add: xapp_step_def ui_step_def cond_wait_test_def)
  qed
  with run show ?thesis by blast
qed

text \<open>C37: The deletion of a subscription is sent before its timer is entered: when its answer is handled in between,
  the xApp aborts.\<close>

theorem xapp_early_delete_answer:
  assumes ok: "xapp_ok (xs_xapp s)" "pc_ok (xs_xapp s) UI_IDLE" "xs_ui s = UI_IDLE" "\<not> xa_stop_token (xs_xapp s)"
    and n: "small_id n" "acts_xa (xs_xapp s) n \<noteq> None"
    and msg: "answer_to (ap_dec (xa_ap (xs_xapp s)) ba) E42_RIC_SUBSCRIPTION_DELETE_REQUEST_PENDING_EVENT n"
  shows "is_ok (xapp_run [Ui_Call (RM_REPORT_SM (uint n)) e] s) \<and>
    xapp_run [Ui_Call (RM_REPORT_SM (uint n)) e, Loop_Turn rn b (xa_fd (xs_xapp s)) ba] s = Inl AssertFailed"
proof -
  let ?x = "xs_xapp s"
  note i = xapp_okD [OF ok(1)]
  obtain v where v: "acts_xa ?x n = Some v" using n(2) by blast
  obtain ap where f: "rm_report_find ?x (uint n) = Inr (ap_id v, ?x\<lparr>xa_act_proc := ap\<rparr>)"
    "xapp_inv (?x\<lparr>xa_act_proc := ap\<rparr>)"
    using rm_report_find_ok [OF i(1) n(1) refl v] by blast
  let ?y = "sent_xa (?x\<lparr>xa_act_proc := ap\<rparr>) (E42_RIC_SUBSCRIPTION_DELETE_REQUEST
    \<lparr>xd_xapp_id = xa_id ?x, xd_sdr = \<lparr>sd_ric_id = ap_id v\<rparr>\<rparr>)"
  let ?s = "s\<lparr>xs_xapp := ?y, xs_ui := UI_DELETE_SENT (word_of_int (uint n)) (ap_id v)\<rparr>"
  have send: "e2ap_send_bytes_xapp (?x\<lparr>xa_act_proc := ap\<rparr>) (ap_enc (xa_ap ?x) (E42_RIC_SUBSCRIPTION_DELETE_REQUEST
      \<lparr>xd_xapp_id = xa_id ?x, xd_sdr = \<lparr>sd_ric_id = ap_id v\<rparr>\<rparr>)) = Inr ?y"
    using send_xa [of "?x\<lparr>xa_act_proc := ap\<rparr>"] i(2) by (simp add: encodes_xa_def)
  have "uint n > -1" using uint_ge_0 [of n] by linarith
  then have call: "xapp_step s (Ui_Call (RM_REPORT_SM (uint n)) e) = Inr ?s"
    using ok(3) by (simp add: xapp_step_def xapp_api_def Let_def f(1) send)
  have "E42_RIC_SUBSCRIPTION_DELETE_REQUEST_PENDING_EVENT \<notin> kinds_xa ?y" using ok(2) by (auto simp: pc_ok_def)
  then have a: "answered_xapp ?y E42_RIC_SUBSCRIPTION_DELETE_REQUEST_PENDING_EVENT n = Inl AssertFailed"
    by (rule answered_not_pending [OF xapp_inv_sent [OF f(2)] n(1)])
  have "e2_event_loop_xapp ?y rn b (xa_fd ?y) ba = Inl AssertFailed"
    by (rule network_fault [OF xapp_inv_sent [OF f(2)]]) (simp_all add: ok(4) answer_to_handled(1) [OF msg] a)
  then have "e2_event_loop_xapp ?y rn b (xa_fd ?x) ba = Inl AssertFailed" by simp
  then show ?thesis
    by (simp add: xapp_run_def call is_ok_def) (simp add: xapp_step_def)
qed

text \<open>C38: An indication under the number of a control request, which has no callback, is handed to the worker, and the
  worker calls a null pointer.\<close>

theorem xapp_indication_of_control:
  assumes inv: "xapp_inv (xs_xapp s)" "\<not> xa_stop_token (xs_xapp s)" "disp_xa (xs_xapp s) = []"
    and msg: "ap_dec (xa_ap (xs_xapp s)) ba = RIC_INDICATION src" "ind_ok_xapp (xs_xapp s) src sm"
    and n: "acts_xa (xs_xapp s) (ric_req_id (in_ric_id src)) = Some v" "ap_sm_cb v = None"
  shows "is_ok (xapp_run [Loop_Turn rn b (xa_fd (xs_xapp s)) ba] s) \<and>
    xapp_run [Loop_Turn rn b (xa_fd (xs_xapp s)) ba, Worker_Turn] s = Inl UseOfNull"
proof -
  let ?x = "xs_xapp s"
  obtain ap d where h: "e2ap_handle_indication_xapp ?x src = Inr (NONE_E2_MSG_TYPE, ?x\<lparr>xa_act_proc := ap, xa_msg_disp := d\<rparr>)"
    "xapp_inv (?x\<lparr>xa_act_proc := ap, xa_msg_disp := d\<rparr>)" "tsnq_list d = [dispatch_of v sm src]"
    using indication_xapp_ok [OF inv(1) msg(2)] inv(3) n(1) by auto
  let ?s = "s\<lparr>xs_xapp := ?x\<lparr>xa_act_proc := ap, xa_msg_disp := d\<rparr>\<rparr>"
  have "e2_event_loop_xapp ?x rn b (xa_fd ?x) ba = Inr (?x\<lparr>xa_act_proc := ap, xa_msg_disp := d\<rparr>)"
    by (rule network_turn [OF inv(1,2)]) (simp_all add: msg(1) h(1) e2ap_msg_handle_xapp_def e2ap_msg_free_xapp_def)
  then have "xapp_step s (Loop_Turn rn b (xa_fd ?x) ba) = Inr ?s" by (simp add: xapp_step_def)
  moreover have "xapp_step ?s Worker_Turn = Inl UseOfNull"
    using worker_turn_ok [of ?s "dispatch_of v sm src" "[]"] h(2,3) n(2) by (simp add: xapp_step_def dispatch_of_def)
  ultimately show ?thesis by (simp add: xapp_run_def is_ok_def)
qed

text \<open>The checks of \<open>report_sm_xapp_api\<close> before anything is changed. \<open>control_sm_xapp_api\<close> does not look at the nodes.\<close>

lemma report_checked:
  assumes "xapp_inv (xs_xapp s)" "valid_node_id i"
  shows "xapp_api s (REPORT_SM i rf cmd cb) tfd =
    (if reg_map (xa_e2_nodes (xs_xapp s)) (node_id_rank i) \<noteq> None \<and> rf_known rf
     then map_res (\<lambda>(n, xapp). s\<lparr>xs_xapp := xapp, xs_ui := UI_TO_WAIT (RET_REPORT n)\<rparr>)
       (report_sm_send (xs_xapp s) tfd i (ucast rf) cmd cb)
     else Inl AssertFailed)"
proof -
  have v: "valid_global_e2_node_xapp i (xa_e2_nodes (xs_xapp s)) =
      Inr (reg_map (xa_e2_nodes (xs_xapp s)) (node_id_rank i) \<noteq> None)"
    by (rule valid_global_e2_node_xapp_ok [OF xapp_invD(5) [OF assms(1)] assms(2)])
  have tc: "report_sm_send x tfd i 147 cmd cb = Inl AssertFailed" for x
    by (simp add: report_sm_send_def generate_ric_gen_id_def valid_ran_func_id_def)
  have m: "bind_res m (\<lambda>(n, x). Inr (f n x)) = map_res (\<lambda>(n, x). f n x) m" for m :: "(u32 \<times> 'x) res" and f :: "u32 \<Rightarrow> 'x \<Rightarrow> 'y"
    by (cases m) auto
  consider "rf = 147" | "rf_known rf" "rf \<in> {2, 3, 142, 143, 144, 145, 146, 147, 148}"
    | "\<not> rf_known rf" "rf \<notin> {2, 3, 142, 143, 144, 145, 146, 147, 148}" by (auto simp: rf_known_def)
  then show ?thesis
  proof cases
    case 1
    then show ?thesis by (simp add: xapp_api_def Let_def v valid_sm_id_def tc rf_known_def c_assert_def)
  next
    case 2
    then show ?thesis unfolding xapp_api_def Let_def xapp_call.simps v valid_sm_id_def
      by (simp only: m c_assert_def bind_res_simps if_True HOL.simp_thms eq_True split: if_split)
  next
    case 3
    then show ?thesis unfolding xapp_api_def Let_def xapp_call.simps v valid_sm_id_def
      by (simp only: c_assert_def bind_res_simps if_False HOL.simp_thms split: if_split)
  qed
qed

text \<open>C12: An update of the nodes replaces what the xApp knows: afterwards its registry is the table of the nodes in the
  message, whatever it held before, and a subscription that the user asks for with a known RAN function is
  sent for exactly these nodes, while it aborts for any other. (Only \<open>report_sm_xapp_api\<close> has this check.)\<close>

theorem xapp_update_replaces:
  assumes inv: "xapp_inv xapp" "\<not> xa_stop_token xapp" "reg_small (xa_e2_nodes xapp)"
    and msg: "ap_dec (xa_ap xapp) ba = E42_UPDATE_E2_NODE sr" "xu_nodes sr = map connected_node es"
      "\<forall>e \<in> set es. node_entry_ok e"
  shows "\<exists>reg. e2_event_loop_xapp xapp rn b (xa_fd xapp) ba = Inr (xapp\<lparr>xa_id := xu_xapp_id sr, xa_e2_nodes := reg\<rparr>) \<and>
    xapp_inv (xapp\<lparr>xa_id := xu_xapp_id sr, xa_e2_nodes := reg\<rparr>) \<and> reg_map reg = node_table es \<and>
    (\<forall>i. valid_node_id i \<longrightarrow> valid_global_e2_node_xapp i reg = Inr (node_id_rank i \<in> (\<lambda>e. node_id_rank (fst e)) ` set es)) \<and>
    (\<forall>s i rf cmd cb tfd. xs_xapp s = xapp\<lparr>xa_id := xu_xapp_id sr, xa_e2_nodes := reg\<rparr> \<longrightarrow> valid_node_id i \<longrightarrow>
      xapp_api s (REPORT_SM i rf cmd cb) tfd =
        (if node_id_rank i \<in> (\<lambda>e. node_id_rank (fst e)) ` set es \<and> rf_known rf
         then map_res (\<lambda>(n, xapp). s\<lparr>xs_xapp := xapp, xs_ui := UI_TO_WAIT (RET_REPORT n)\<rparr>)
           (report_sm_send (xs_xapp s) tfd i (ucast rf) cmd cb)
         else Inl AssertFailed))"
proof -
  obtain reg where r: "e2ap_handle_e42_update_e2_node_xapp xapp sr =
      Inr (NONE_E2_MSG_TYPE, xapp\<lparr>xa_id := xu_xapp_id sr, xa_e2_nodes := reg\<rparr>)"
    "xapp_inv (xapp\<lparr>xa_id := xu_xapp_id sr, xa_e2_nodes := reg\<rparr>)" "reg_map reg = node_table es"
    using update_e2_node_ok [OF inv(1,3) msg(2,3)] by blast
  have free: "e2ap_msg_free_xapp (E42_UPDATE_E2_NODE sr) = Inr ()"
    using msg(2,3) connected_free
    by (auto simp: e2ap_msg_free_xapp_def e2ap_msg_free_def e2ap_free_e42_setup_response_def intro!: fold_unit_ok)
  have "e2_event_loop_xapp xapp rn b (xa_fd xapp) ba = Inr (xapp\<lparr>xa_id := xu_xapp_id sr, xa_e2_nodes := reg\<rparr>)"
    by (rule network_turn [OF inv(1,2)]) (simp_all add: msg(1) free e2ap_msg_handle_xapp_def r(1))
  moreover have n: "node_table es (node_id_rank i) \<noteq> None \<longleftrightarrow> node_id_rank i \<in> (\<lambda>e. node_id_rank (fst e)) ` set es" for i
    by (auto simp: node_table_def map_of_eq_None_iff image_image image_iff)
  moreover have "xapp_api s (REPORT_SM i rf cmd cb) tfd =
      (if node_id_rank i \<in> (\<lambda>e. node_id_rank (fst e)) ` set es \<and> rf_known rf
       then map_res (\<lambda>(n, xapp). s\<lparr>xs_xapp := xapp, xs_ui := UI_TO_WAIT (RET_REPORT n)\<rparr>)
         (report_sm_send (xs_xapp s) tfd i (ucast rf) cmd cb)
       else Inl AssertFailed)"
    if "xs_xapp s = xapp\<lparr>xa_id := xu_xapp_id sr, xa_e2_nodes := reg\<rparr>" "valid_node_id i" for s i rf cmd cb tfd
    using report_checked [OF _ that(2), of s rf cmd cb tfd] r(2,3) n [of i] by (simp add: that(1))
  ultimately show ?thesis
    using r(2,3) valid_global_e2_node_xapp_ok [of reg] xapp_invD(5) [OF r(2)] by (intro exI [of _ reg]) simp
qed

section \<open>Samples\<close>

theorem xapp_lost_wakeup_witness:
  "\<exists>(s :: (string, string, string, unit, string) xapp_proc) s1 t.
     xs_ui s = UI_TO_WAIT (RET_REPORT 1) \<and> xapp_run [Loop_Turn () 0 5 [1], Ui_Next 0] s = Inr s1 \<and>
     xapp_run [Worker_Turn, Ui_Next 0, Worker_Turn, Ui_Next 0] s1 = Inr t \<and>
     xs_ui t = UI_WAITING (RET_REPORT 1) \<and> xapp_step t Ui_Timeout = Inl AssertFailed"
proof -
  obtain x :: "(string, string, string, unit, string) e42_xapp" where x: "xapp_ok x" "pc_ok x (UI_TO_WAIT (RET_REPORT 1))"
    "\<not> xa_stop_token x" "E42_RIC_SUBSCRIPTION_REQUEST_PENDING_EVENT \<in> kinds_xa x" "xa_ap x = xapp_ap" "xa_fd x = 5"
    "disp_xa x = []" "small_id 1" "acts_xa x 1 = Some (new_act RIC_SUBSCRIPTION_PROCEDURE_ACTIVE 142 1 (sample_gnb 1) None)"
    using sample_requested [of None] by blast
  let ?s = "(new_proc x)\<lparr>xs_ui := UI_TO_WAIT (RET_REPORT 1)\<rparr>"
  let ?inps = "[Worker_Turn, Ui_Next 0, Worker_Turn, Ui_Next 0] :: (string, unit, string) xapp_input list"
  have s: "xs_xapp ?s = x" "xs_ui ?s = UI_TO_WAIT (RET_REPORT 1)" by (simp_all add: new_proc_def)
  have w: "waits_for (RET_REPORT 1) = E42_RIC_SUBSCRIPTION_REQUEST_PENDING_EVENT" by (simp add: waits_for_def)
  have p: "xapp_ok (xs_xapp ?s)" "pc_ok (xs_xapp ?s) (xs_ui ?s)" "xs_ui ?s = UI_TO_WAIT (RET_REPORT 1)"
    "\<not> xa_stop_token (xs_xapp ?s)" "waits_for (RET_REPORT 1) \<in> kinds_xa (xs_xapp ?s)"
    "answer_to (ap_dec (xa_ap (xs_xapp ?s)) [1]) (waits_for (RET_REPORT 1)) 1" "small_id 1" "acts_xa (xs_xapp ?s) 1 \<noteq> None"
    using x sample_answers(1) by (simp_all only: s w simp_thms option.distinct not_False_eq_True)
  from xapp_lost_wakeup [OF p, of "()" 0 0] obtain s1 where
    t: "xapp_run [Loop_Turn () 0 (xa_fd (xs_xapp ?s)) [1], Ui_Next 0] ?s = Inr s1"
    "\<forall>inps t. (\<forall>rn tfd fd ba m. Loop_Turn rn tfd fd ba \<in> set inps \<longrightarrow>
        ap_dec (xa_ap (xs_xapp ?s)) ba \<noteq> E42_RIC_CONTROL_REQUEST m) \<longrightarrow>
      xapp_run inps s1 = Inr t \<longrightarrow>
      xs_ui t = UI_WAITING (RET_REPORT 1) \<and> xs_answers t = xs_answers ?s \<and> xapp_step t Ui_Timeout = Inl AssertFailed"
    by (elim exE conjE)
  have s1: "xapp_run [Loop_Turn () 0 5 [1], Ui_Next 0] ?s = Inr s1" using t(1) by (simp only: s(1) x(6))
  have stuck: "xs_ui u = UI_WAITING (RET_REPORT 1) \<and> xapp_step u Ui_Timeout = Inl AssertFailed"
    if u: "xapp_run inps s1 = Inr u" and inps: "set inps \<subseteq> {Worker_Turn, Ui_Next 0}" for inps u
  proof -
    have "Loop_Turn rn tfd fd ba \<notin> set inps" for rn tfd fd ba using inps by (meson insert_iff empty_iff subsetD xapp_input.distinct)
    then show ?thesis using t(2) u by blast
  qed
  have inv: "xapp_inv x" by (rule xapp_okD(1) [OF x(1)])
  obtain fd ev where ev: "(fd, ev) \<in> pend_xa x" "px_ev ev = E42_RIC_SUBSCRIPTION_REQUEST_PENDING_EVENT"
    using kinds_memE [OF x(4)] by blast
  have "acts_xa x 1 \<noteq> None" by (simp only: x(9) option.distinct not_False_eq_True)
  from answered_ok [OF inv x(8) this ev] obtain ap io m where h: "answered_xapp x E42_RIC_SUBSCRIPTION_REQUEST_PENDING_EVENT 1 =
      Inr (NONE_E2_MSG_TYPE, answered_state x ap io m)" "xapp_inv (answered_state x ap io m)" by blast
  have "e2_event_loop_xapp x () 0 (xa_fd x) [1] = Inr (answered_state x ap io m)"
    by (rule network_turn [OF inv x(3)]) (simp_all only: x(5) answer_to_handled [OF sample_answers(1)] h(1))
  then have net: "e2_event_loop_xapp x () 0 5 [1] = Inr (answered_state x ap io m)" by (simp only: x(6))
  define y where "y = (answered_state x ap io m)\<lparr>xa_sync := (signal_sync_ui (xa_sync x))\<lparr>su_flag_sync := False, su_msg_ack := False\<rparr>\<rparr>"
  have e1: "s1 = ?s\<lparr>xs_xapp := y, xs_ui := UI_WAITING (RET_REPORT 1)\<rparr>"
    using s1 xapp_okD(4) [OF x(1)]
    by (simp add: xapp_run_def xapp_step_def net ui_step_def cond_wait_enter_def y_def signal_sync_ui_def new_proc_def)
  have inv': "xapp_inv (xs_xapp s1)" "disp_xa (xs_xapp s1) = []"
    using xapp_invD [OF h(2)] x(7) by (auto simp: e1 y_def intro!: xapp_inv_frame [OF h(2)])
  have "ui_step s1 0 False = Inr s1" by (simp add: e1 ui_step_def cond_wait_test_def y_def)
  then have run: "xapp_run ?inps s1 = Inr s1"
    using worker_waits [OF inv'] by (simp add: xapp_run_def xapp_step_def)
  have "xs_ui s1 = UI_WAITING (RET_REPORT 1) \<and> xapp_step s1 Ui_Timeout = Inl AssertFailed"
    by (rule stuck [OF run]) simp
  then show ?thesis using s1 run s(2) by (intro exI [of _ ?s] exI [of _ s1]) simp
qed

theorem xapp_early_delete_answer_witness:
  "\<exists>s :: (string, string, string, unit, string) xapp_proc.
     is_ok (xapp_run [Ui_Call (RM_REPORT_SM 1) 0] s) \<and>
     xapp_run [Ui_Call (RM_REPORT_SM 1) 0, Loop_Turn () 0 5 [2]] s = Inl AssertFailed"
proof -
  obtain x where "sample_xapp x" using sample_xapp_ex by blast
  note x = sample_xappD [OF this]
  have k: "kinds_xa x \<subseteq> {E42_SETUP_REQUEST_PENDING_EVENT}" "fresh_xa x 6" "rf_known 142" "(ucast (142 :: u32) :: u16) = 142"
    by (simp_all add: x fresh_xa_def rf_known_def)
  obtain x1 where r: "xapp_ok x1" "same_setting x x1" "small_id 1" "pend_xa x1 = {}" "acts_xa x1 1 \<noteq> None"
    using report_run [of "new_proc x" 6 "sample_gnb 1" 142 "sample_sm 142" "''1_ms''" "[1]" "Some ''cb''" 0 "()" 0 0]
      x k sample_answers(1) by (auto simp: new_proc_def)
  let ?s = "new_proc x1"
  have s: "xs_xapp ?s = x1" "xs_ui ?s = UI_IDLE" by (simp_all add: new_proc_def)
  have same: "xa_ap x1 = xapp_ap" "xa_fd x1 = 5" "\<not> xa_stop_token x1" "pc_ok x1 UI_IDLE"
    using r(2,4) x by (simp_all add: same_setting_def pc_ok_def)
  have "is_ok (xapp_run [Ui_Call (RM_REPORT_SM (uint (1 :: u32))) 0] ?s) \<and>
      xapp_run [Ui_Call (RM_REPORT_SM (uint (1 :: u32))) 0, Loop_Turn () 0 (xa_fd (xs_xapp ?s)) [2]] ?s = Inl AssertFailed"
    by (rule xapp_early_delete_answer) (use r same sample_answers(2) in \<open>simp_all add: s\<close>)
  then show ?thesis by (intro exI [of _ ?s]) (simp add: s same)
qed

theorem xapp_indication_of_control_witness:
  "\<exists>s :: (string, string, string, unit, string) xapp_proc.
     xapp_run [Loop_Turn () 0 5 [4], Worker_Turn] s = Inl UseOfNull"
proof -
  obtain x where sx: "sample_xapp x" using sample_xapp_ex by blast
  note x = sample_xappD [OF sx]
  have rf: "rf_known 142" "(ucast (142 :: u32) :: u16) = 142" "fresh_xa x 6" by (simp_all add: rf_known_def fresh_xa_def x)
  let ?m = "ctrl_request_of x (sample_gnb 1) 142 (sample_sm 142) ''ctrl''"
  obtain ap io m where q: "xapp_inv (requested x ap io m ?m)" "small_id 1"
    "act_map ap = (acts_xa x)(1 \<mapsto> new_act RIC_CONTROL_PROCEDURE_ACTIVE 142 1 (sample_gnb 1) None)"
    using control_call_ok [OF xapp_okD(1,2) [OF x(1)] x(5) rf(3) _ rf(1), of "sample_sm 142" "''ctrl''" "sample_gnb 1"] x rf(2)
    by auto
  let ?y = "requested x ap io m ?m"
  have n: "ric_req_id (in_ric_id first_ind) = 1" by (simp add: first_ind_def first_id_def)
  have i: "ind_ok_xapp ?y first_ind (sample_sm 142)" by (rule first_ind_ok) (use x q(2) in simp_all)
  have "is_ok (xapp_run [Loop_Turn () 0 (xa_fd (xs_xapp (new_proc ?y))) [4]] (new_proc ?y)) \<and>
      xapp_run [Loop_Turn () 0 (xa_fd (xs_xapp (new_proc ?y))) [4], Worker_Turn] (new_proc ?y) = Inl UseOfNull"
    by (rule xapp_indication_of_control [where src = first_ind and sm = "sample_sm 142"
          and v = "new_act RIC_CONTROL_PROCEDURE_ACTIVE 142 1 (sample_gnb 1) None"])
      (use q x i n in \<open>simp_all add: new_proc_def new_act_def\<close>)
  then show ?thesis using x(7) by (intro exI [of _ "new_proc ?y"]) (simp add: new_proc_def)
qed

theorem xapp_update_replaces_witness:
  "\<exists>(x :: (string, string, string, unit, string) e42_xapp) reg.
     valid_global_e2_node_xapp (sample_gnb 1) (xa_e2_nodes x) = Inr True \<and>
     e2_event_loop_xapp x () 0 5 [5] = Inr (x\<lparr>xa_id := 7, xa_e2_nodes := reg\<rparr>) \<and>
     valid_global_e2_node_xapp (sample_gnb 1) reg = Inr False \<and> valid_global_e2_node_xapp (sample_gnb 2) reg = Inr True \<and>
     xapp_api (new_proc (x\<lparr>xa_id := 7, xa_e2_nodes := reg\<rparr>)) (REPORT_SM (sample_gnb 1) 142 ''10_ms'' None) 6 = Inl AssertFailed"
proof -
  obtain x where sx: "sample_xapp x" using sample_xapp_ex by blast
  note x = sample_xappD [OF sx]
  have inv: "xapp_inv x" by (rule xapp_okD(1) [OF x(1)])
  have e: "node_entry_ok sample_entry" by (simp add: node_entry_ok_def sample_entry_def sample_cca_def)
  let ?sr = "\<lparr>xu_xapp_id = 7, xu_nodes = map connected_node [sample_entry]\<rparr>"
  have msg: "ap_dec (xa_ap x) [5] = E42_UPDATE_E2_NODE ?sr" "xu_nodes ?sr = map connected_node [sample_entry]"
    "\<forall>e \<in> set [sample_entry]. node_entry_ok e" using e x(8) by auto
  obtain reg where r: "e2_event_loop_xapp x () 0 (xa_fd x) [5] = Inr (x\<lparr>xa_id := 7, xa_e2_nodes := reg\<rparr>)"
    "\<And>i. valid_node_id i \<Longrightarrow> valid_global_e2_node_xapp i reg =
      Inr (node_id_rank i \<in> (\<lambda>e. node_id_rank (fst e)) ` set [sample_entry])"
    "\<And>s i rf cmd cb tfd. xs_xapp s = x\<lparr>xa_id := 7, xa_e2_nodes := reg\<rparr> \<Longrightarrow> valid_node_id i \<Longrightarrow>
      node_id_rank i \<notin> (\<lambda>e. node_id_rank (fst e)) ` set [sample_entry] \<Longrightarrow>
      xapp_api s (REPORT_SM i rf cmd cb) tfd = Inl AssertFailed"
    using xapp_update_replaces [OF inv x(9,12) msg, of "()" 0] by auto
  have "valid_global_e2_node_xapp (sample_gnb 1) (xa_e2_nodes x) = Inr True"
    using valid_global_e2_node_xapp_ok [OF xapp_invD(5) [OF inv], of "sample_gnb 1"] x(11) by simp
  moreover have "xapp_api (new_proc (x\<lparr>xa_id := 7, xa_e2_nodes := reg\<rparr>)) (REPORT_SM (sample_gnb 1) 142 ''10_ms'' None) 6 =
      Inl AssertFailed"
    by (rule r(3)) (simp_all add: new_proc_def sample_entry_def node_rank_gnb)
  ultimately show ?thesis using r(1) r(2) [of "sample_gnb 1"] r(2) [of "sample_gnb 2"] x(7)
    by (intro exI [of _ x] exI [of _ reg]) (simp add: sample_entry_def node_rank_gnb)
qed

end
