(* ===== verification/Spec2Isabelle.thy ===== *)
theory Spec2Isabelle
  imports Tsn_Queue Act_Proc Seq_List Task_Manager Ric_Run Mac_Sm Rlc_Sm Pdcp_Sm Gtp_Sm Agent_Session Xapp_Races
begin

text \<open>
  FlexRIC: containers, E2AP messages and the request handling of a near-RT RIC.

  The program (\<open>src/flexric/src\<close>, in C) is a near-real-time RAN intelligent controller. E2 nodes (base
  stations, with the agent of \<open>agent/\<close>) connect over SCTP to the RIC (\<open>ric/near_ric.c\<close>) and announce
  their RAN functions. xApps (\<open>xApp/\<close>) connect to the iApp (\<open>ric/iApp/\<close>), a server inside the RIC
  process, and ask for subscriptions and control actions. The iApp gives such a request to the RIC
  under a number that the RIC draws, remembers which xApp asked (\<open>map_ric_id\<close>) and routes answers and
  indications back. All of it rests on hand-written containers (\<open>util/alg_ds/\<close>).

  Conventions (theory \<open>FlexRIC_Prelude\<close>). A C function that can abort returns \<open>'a res\<close>: \<open>Inr\<close> of its
  result, or \<open>Inl\<close> of the fault (\<open>AssertFailed\<close>, \<open>OutOfBounds\<close>, \<open>UseOfNull\<close>, \<open>Diverged\<close>). The build keeps
  assertions, so \<open>assert(e)\<close> is a branch. Integers keep their width as words; where the C code counts
  elements or bytes in \<open>size_t\<close> the model counts in \<open>nat\<close>. Structures are records with the prefix of
  the structure in their fields. State that a function changes through a pointer is an argument that
  it returns updated. \<open>malloc\<close> is assumed to succeed, as the code asserts.

  \<^bold>\<open>Containers.\<close>
  \<^item> \<open>Seq_Ring\<close>: the ring buffer \<open>seq_ring.c\<close>, whose abstraction is a list; pushing appends, erasing
    drops a prefix, also across the wrap and when the buffer is enlarged.
  \<^item> \<open>Tsq\<close>, \<open>Tsn_Queue\<close>: the thread safe queues \<open>tsq.c\<close> and \<open>tsn_queue.c\<close> over it. The second is a step
    relation of a client, the worker of \<open>msg_dispatcher_xapp.c\<close> and the thread that stops it, with the
    condition variable explicit; the invariant is proved by rule induction on reachability.
  \<^item> \<open>Seq_Arr\<close>: the growing array \<open>seq_arr.c\<close> with the size of its allocation in bytes, so that the
    shrinking that allocates too little is visible. \<open>Seq_List\<close>: the linked list \<open>seq_list.c\<close> on a heap.
  \<^item> \<open>Assoc_Reg\<close>, \<open>Act_Proc\<close>: the registry \<open>assoc_reg.c\<close> and the active procedures of an xApp over it.
  \<^item> \<open>Assoc_Rb_Tree\<close> holds the red-black tree of \<open>assoc_rb_tree.c\<close> as the code has it: nodes in a heap,
    parent pointers, the sentinel. \<open>Assoc_Rb_Shape\<close> relates a heap to an inductive tree, \<open>Assoc_Rb_Insert\<close>
    and \<open>Assoc_Rb_Erase\<close> prove the two rebalancing loops, \<open>Assoc_Rb_Extract\<close> and \<open>Assoc_Rb_Ops\<close> the other
    operations. \<open>Assoc_Rb_Map\<close> and \<open>Ordered_Map\<close> state the contract that the clients use, in the locale of
    a comparator: a tree is a finite map. Loops over the tree carry the number of nodes plus one as
    fuel; \<open>assoc_rb_tree_height\<close> bounds the height, and the lemmas show that the fuel is never spent.
  \<^item> \<open>Bimap\<close>: \<open>bimap.c\<close>, two trees that stay inverse. \<open>Container_Loops\<close>: \<open>for_each\<close> and the release of trees.

  \<^bold>\<open>Identifiers and messages.\<close>
  \<^item> \<open>Compare\<close>, \<open>E2AP_Ids\<close>, \<open>E2AP_Config\<close>: the comparison functions of keys and the identifiers and
    configuration that a node announces; order and equality agree where the maps rely on it.
  \<^item> \<open>E2AP_Msgs\<close>, \<open>E2AP_Global_Msgs\<close>, \<open>E2AP_Msg_Free\<close>: the messages of \<open>lib/e2ap/v2_03/e2ap_types\<close> as records,
    with the functions that compare, copy, move and release them.

  \<^bold>\<open>The RIC and the iApp.\<close>
  \<^item> \<open>Iapp_Maps\<close>: endpoints of nodes (\<open>map_e2_node_sockaddr.c\<close>) and xApps (\<open>map_xapps_sockaddr.c\<close>) and the
    requests in use (\<open>map_ric_id.c\<close>). \<open>Reg_E2_Nodes\<close>: the registry of nodes (\<open>reg_e2_nodes.c\<close>).
  \<^item> \<open>Pending_Events\<close>: pending events with their timers (\<open>pending_event_ric.c\<close>, \<open>asio_ric.c\<close>).
  \<^item> \<open>Near_Ric\<close>: the state of the RIC and its request functions (\<open>near_ric.c\<close>); \<open>Ric_Requests\<close>: what they do.
  \<^item> \<open>Iapp_Handlers\<close>: \<open>msg_handler_iapp.c\<close>, \<open>e42_iapp.c\<close>; \<open>Ric_Handlers\<close>: \<open>msg_handler_ric.c\<close>,
    \<open>not_handler_ric.c\<close>, \<open>generate_setup_response.c\<close> and the event loop. A handler is one step; the tasks
    of the RIC are taken in any order (\<open>run_task\<close>).
  \<^item> \<open>Subscription_Flow\<close>: the invariant of both (\<open>sys_inv\<close>) and the way of a subscription from the xApp to
    the node and back. \<open>Request_Faults\<close>: deletion, indications, and the inputs that abort the RIC.
  \<^item> \<open>Ric_Boot\<close>: \<open>init_near_ric\<close>, \<open>init_e42_iapp\<close> and the default listeners. \<open>Node_Lifecycle\<close>: the setup of a
    node and the end of its connection, as changes of the three places where a node is known
    (endpoints, array of the RIC, registry of the iApp). \<open>Ric_Run\<close>: the whole as a state machine
    (\<open>run_step\<close>) whose inputs are messages and closed connections; \<open>valid_input\<close> says what nodes and xApps
    that keep to the protocol send, \<open>run_inv\<close> is the invariant, by rule induction over \<open>reach\<close>.

  \<^bold>\<open>The thread pool.\<close> \<open>Task_Manager\<close>: \<open>task_manager.c\<close> with its private ring, as a step relation of its
  threads and its owner; no task is lost or run twice, the pool drains, and stopping it returns.

  \<^bold>\<open>Service models.\<close>
  \<^item> \<open>Plain_Layout\<close>: numbers and structures as bytes, and the loops over counted structures that all the plain
    codecs have. Locale \<open>layout\<close> is the contract of a structure of fixed size; each model interprets it. Locale
    \<open>full_layout\<close> adds that every block of that size is the image of what is read from it, so that the decoders
    of \<open>Mac_Sm\<close> and \<open>Rlc_Sm\<close> accept exactly what the encoders make.
  \<^item> \<open>Sm_Common\<close>: the data of the procedures, \<open>eq_float\<close>, the commands that name a period, \<open>next_pow2\<close>
    (the least power of two), and locale \<open>service_model\<close>: the contract between the plug-in of the agent and the
    plug-in of the RIC, from which a whole session follows.
  \<^item> \<open>Mac_Sm\<close>, \<open>Rlc_Sm\<close>, \<open>Pdcp_Sm\<close>, \<open>Gtp_Sm\<close>: the models under \<open>sm/\<close>, each with information elements, plain codec
    and both plug-ins, and an interpretation of the two locales. The padding of the structures is an
    argument of the encoders; floating point numbers are their bits.

  \<^bold>\<open>The E2 agent\<close>, the other end of the connection to the RIC, which is linked into the base station.
  \<^item> \<open>Ind_Event\<close>: what the agent keeps of a subscription, its order, and the two maps of the agent as
    interpretations of the locale of bimaps.
  \<^item> \<open>E2_Agent\<close>: the agent in the order of its files: event queue, registered models, setup request, handlers,
    indications, event loop, release and the interface of the RAN. A turn of the loop is \<open>e2_event_loop_agent\<close>,
    whose arguments are the RAN, the descriptor a new timer gets, the descriptor that is ready and what a
    read from the socket returns.
  \<^item> \<open>Agent_Run\<close>: the invariant \<open>agent_inv\<close> (the maps, the queue, and that the event queue holds the
    descriptors of exactly what is registered), what each operation does to it, and the inputs within the protocol.
  \<^item> \<open>Agent_Session\<close>: the properties: a subscription from beginning to end, what aborts the agent, and that nothing
    within the protocol does. The models of \<open>Mac_Sm\<close> run under it.

  \<^bold>\<open>The xApp\<close>, the client of the iApp.
  \<^item> \<open>Xapp_Pending\<close>: pending events (\<open>pending_event_xapp.c\<close>), an interpretation of the locale of bimaps.
  \<^item> \<open>E42_Xapp\<close>: the state and the event loop (\<open>e42_xapp.c\<close>), the handlers (\<open>msg_handler_xapp.c\<close>), the messages
    it makes (\<open>msg_generator_xapp.c\<close>), the condition variable of a waiting call (\<open>sync_ui.c\<close>), start and end.
  \<^item> \<open>Xapp_Calls\<close>: the calls of the user (\<open>e42_xapp_api.c\<close>), cut where another thread can come in between, and
    \<open>xapp_step\<close>: one step of the user's thread, of the event loop or of the worker of the dispatcher.
  \<^item> \<open>Xapp_Run\<close>: the invariant \<open>xapp_inv\<close>, answers and indications. \<open>Xapp_Nodes\<close>: the registry of the nodes.
    \<open>Xapp_Turns\<close>: turns of the loop and calls. \<open>Xapp_Safe\<close>: the invariant of the three threads and the
    inputs within the protocol (\<open>xapp_env\<close>).
  \<^item> \<open>Xapp_Session\<close>: a subscription and a control from call to return, the order of indications, and that nothing
    within the protocol aborts. \<open>Xapp_Races\<close>: interleavings that lose a wake-up or abort.

  \<^bold>\<open>Parameters.\<close> The E2AP codec (\<open>e2ap_ap\<close>: \<open>ap_enc\<close>, \<open>ap_dec\<close>; it goes through the generated ASN.1 code), the
  service models (\<open>sm_ric\<close>: shared libraries that the RIC loads), the descriptor that the operating
  system gives a new timer (\<open>os_fd\<close>) and the clients' comparison functions are arguments. What is sent
  on a socket is appended to a list of the state.

  \<^bold>\<open>Not modelled.\<close> The ASN.1 codecs, because they fill structures of generated code; sockets, epoll, dlopen and
  the starting and joining of threads, as operating system interface; the xApp database (SQL text for
  the vendored SQLite); the kpm and rc service models, which are codecs over ASN.1; srsRAN, the
  dashboard and the model items, which are other programs in the same repository. The locks of the
  program make each modelled operation one step; the locks themselves are not part of the state.

  \<^bold>\<open>Plan.\<close> The plain codecs of the slice and tc models; the hash table.
\<close>

end
